(* ===== verification/ECM_Prelude.thy ===== *)
theory ECM_Prelude
  imports Main "HOL-Library.Word"
begin

unbundle bit_operations_syntax

text \<open>
  Shared vocabulary of the development: machine integers, the errors the C++ code
  raises, the result type of a fallible operation with its sequencing, and the bit
  lists that serve as the abstract contents of every bitstream.

  The macro \<open>CHECK(c, msg)\<close> of \<open>source/Lib/CommonLib/TypeDef.h\<close> throws an exception
  carrying \<open>msg\<close>; \<open>THROW(msg)\<close> does so unconditionally. Both become \<open>Inl\<close> values.
  A place where the C++ would run into undefined behaviour (a read outside a vector)
  is the value \<open>Inl UndefinedBehaviour\<close>, never an unspecified HOL term.
\<close>

section \<open>Machine integers\<close>

type_synonym u8 = "8 word"
type_synonym u16 = "16 word"
type_synonym u32 = "32 word"
type_synonym u64 = "64 word"

lemma and_7_mod [simp]: "(n::nat) AND 7 = n mod 8"
  using take_bit_eq_mask [of 3 n] by (simp add: take_bit_eq_mod mask_eq_exp_minus_1)

lemma pad_to_8: "8 dvd (n::nat) + (8 - n mod 8) mod 8"
proof (cases "n mod 8 = 0")
  case False
  define q r where "q = n div 8" and "r = n mod 8"
  have "n = 8 * q + r" "r < 8" "r \<noteq> 0"
    using False by (simp_all add: q_def r_def)
  then have "n + (8 - n mod 8) mod 8 = 8 * q + 8" by simp
  then show ?thesis by simp
qed auto

section \<open>Errors and sequencing\<close>

datatype error =
    CheckFailed string
  | Thrown string
  | EndOfStream
  | UndefinedBehaviour

type_synonym 'a result = "error + 'a"

fun bindE :: "'a result \<Rightarrow> ('a \<Rightarrow> 'b result) \<Rightarrow> 'b result" where
  "bindE (Inl e) f = Inl e"
| "bindE (Inr a) f = f a"

named_theorems stream_simps
  \<open>forward equations for operations that succeed\<close>

lemma bindE_Inr_iff: "bindE m f = Inr b \<longleftrightarrow> (\<exists>a. m = Inr a \<and> f a = Inr b)"
  by (cases m) auto

lemma bindE_assoc: "bindE (bindE m f) g = bindE m (\<lambda>a. bindE (f a) g)"
  by (cases m) auto

lemma bindE_Inr_right [simp]: "bindE m Inr = m"
  by (cases m) auto

lemma bindE_cong [fundef_cong]:
  "m = m' \<Longrightarrow> (\<And>a. m' = Inr a \<Longrightarrow> f a = f' a) \<Longrightarrow> bindE m f = bindE m' f'"
  by (cases m') auto

text \<open>\<open>checkE c e r\<close> is the statement \<open>CHECK(c, e); r\<close>.\<close>

definition checkE :: "bool \<Rightarrow> string \<Rightarrow> 'a result \<Rightarrow> 'a result" where
  "checkE c msg r = (if c then Inl (CheckFailed msg) else r)"

lemma checkE_False [simp]: "\<not> c \<Longrightarrow> checkE c msg r = r"
  by (simp add: checkE_def)

lemma checkE_True [simp]: "c \<Longrightarrow> checkE c msg r = Inl (CheckFailed msg)"
  by (simp add: checkE_def)

lemma checkE_Inr_iff: "checkE c msg r = Inr b \<longleftrightarrow> \<not> c \<and> r = Inr b"
  by (simp add: checkE_def)

text \<open>A fallible function on every element of a list, in order.\<close>

fun mapE :: "('a \<Rightarrow> 'b result) \<Rightarrow> 'a list \<Rightarrow> 'b list result" where
  "mapE f [] = Inr []"
| "mapE f (x # xs) = bindE (f x) (\<lambda>y. bindE (mapE f xs) (\<lambda>ys. Inr (y # ys)))"

lemma mapE_ok:
  "(\<And>x. x \<in> set xs \<Longrightarrow> \<exists>y. f x = Inr y \<and> P x y) \<Longrightarrow> \<exists>ys. mapE f xs = Inr ys \<and> list_all2 P xs ys"
proof (induction xs)
  case (Cons x xs)
  obtain y where "f x = Inr y" "P x y" using Cons.prems [of x] by auto
  moreover obtain ys where "mapE f xs = Inr ys" "list_all2 P xs ys"
    using Cons.IH Cons.prems by auto
  ultimately show ?case by auto
qed simp

section \<open>Bit lists\<close>

text \<open>
  \<open>bits_of n v\<close> lists the \<open>n\<close> low bits of \<open>v\<close>, most significant first: the order in
  which the code writes and reads them.
\<close>

definition bits_of :: "nat \<Rightarrow> 'a::semiring_bits \<Rightarrow> bool list" where
  "bits_of n v = map (bit v) (rev [0..<n])"

lemma length_bits_of [simp]: "length (bits_of n v) = n"
  by (simp add: bits_of_def)

lemma bits_of_0 [simp]: "bits_of 0 v = []"
  by (simp add: bits_of_def)

lemma bits_of_Suc: "bits_of (Suc n) v = bit v n # bits_of n v"
  by (simp add: bits_of_def)

lemma bits_of_cong: "(\<And>i. i < n \<Longrightarrow> bit a i = bit b i) \<Longrightarrow> bits_of n a = bits_of n b"
  by (auto simp: bits_of_def)

lemma bits_of_eq_iff: "bits_of n a = bits_of n b \<longleftrightarrow> (\<forall>i<n. bit a i = bit b i)"
  by (auto simp: bits_of_def)

lemma bits_of_zero [simp]: "bits_of n (0::'a::semiring_bits) = replicate n False"
  by (auto simp: bits_of_def intro!: nth_equalityI)

lemma bits_of_one [simp]:
  "bits_of (Suc 0) (1::'a::semiring_bit_operations) = [True]"
  by (simp add: bits_of_Suc)

lemma bits_of_add:
  fixes v :: "'a::semiring_bit_operations"
  shows "bits_of (m + n) v = bits_of m (drop_bit n v) @ bits_of n v"
proof -
  have "[0..<m + n] = [0..<n] @ map (\<lambda>i. i + n) [0..<m]"
    by (metis add.commute add.right_neutral le0 map_add_upt upt_add_eq_append)
  then show ?thesis
    by (simp add: bits_of_def rev_map bit_simps add.commute comp_def)
qed

lemma bits_of_split:
  fixes v :: "'a::semiring_bit_operations"
  shows "n \<le> k \<Longrightarrow> bits_of k v = bits_of (k - n) (drop_bit n v) @ bits_of n v"
  using bits_of_add [of "k - n" n v] by simp

lemma take_bits_of:
  fixes v :: "'a::semiring_bit_operations"
  assumes "m \<le> n"
  shows "take m (bits_of n v) = bits_of m (drop_bit (n - m) v)"
proof -
  have "bits_of n v = bits_of m (drop_bit (n - m) v) @ bits_of (n - m) v"
    using bits_of_split [of "n - m" n v] assms by simp
  then show ?thesis by simp
qed

lemma drop_bits_of:
  fixes v :: "'a::semiring_bit_operations"
  assumes "m \<le> n"
  shows "drop m (bits_of n v) = bits_of (n - m) v"
proof -
  have "bits_of n v = bits_of m (drop_bit (n - m) v) @ bits_of (n - m) v"
    using bits_of_split [of "n - m" n v] assms by simp
  then show ?thesis by simp
qed

text \<open>A word below \<open>2 ^ n\<close> has no bit from \<open>n\<close> on, and its low bits determine it.\<close>

lemma bit_unat: "bit (unat (w::'a::len word)) n \<longleftrightarrow> bit w n"
  by (simp add: bit_unsigned_iff)

lemma word_bounded_bit:
  fixes v :: "'a::len word"
  assumes "unat v < 2 ^ n" and "n \<le> i"
  shows "\<not> bit v i"
proof
  assume "bit v i"
  then have "bit (unat v) i" by (simp add: bit_unat)
  then have "2 ^ i \<le> unat v"
    by (metis bit_nat_def div_less even_zero leI)
  moreover have "(2::nat) ^ n \<le> 2 ^ i" using assms(2) by simp
  ultimately show False using assms(1) by linarith
qed

lemma word_bounded_iff:
  fixes v :: "'a::len word"
  shows "unat v < 2 ^ n \<longleftrightarrow> (\<forall>i\<ge>n. \<not> bit v i)"
proof
  assume "\<forall>i\<ge>n. \<not> bit v i"
  then have "take_bit n v = v"
    by (auto intro!: bit_word_eqI simp: bit_take_bit_iff) (meson not_less)
  then have "unat v = take_bit n (unat v)"
    by (metis unsigned_take_bit_eq)
  then show "unat v < 2 ^ n"
    by (metis take_bit_nat_less_exp)
qed (use word_bounded_bit in blast)

lemma bits_of_inject:
  fixes a b :: "'a::len word"
  assumes "bits_of n a = bits_of n b" and "unat a < 2 ^ n" and "unat b < 2 ^ n"
  shows "a = b"
proof (rule bit_word_eqI)
  fix i
  show "bit a i = bit b i"
    using assms by (cases "i < n") (auto simp: bits_of_eq_iff word_bounded_iff)
qed

lemma bits_of_ucast:
  fixes a :: "'a::len word"
  shows "n \<le> LENGTH('b::len) \<Longrightarrow> bits_of n (ucast a :: 'b word) = bits_of n a"
  by (rule bits_of_cong) (simp add: bit_simps)

section \<open>Bytes as bit lists\<close>

lemma unat_u8_lt: "unat (b::u8) < 256"
  using unsigned_less [of b] by simp

lemma unat_u32_lt: "unat (w::u32) < 4294967296"
  using unsigned_less [of w] by simp

lemma unat_ucast_u8 [simp]: "unat (ucast (b::u8) :: u32) = unat b"
  using unat_u8_lt [of b] by (simp add: unsigned_ucast_eq take_bit_nat_eq_self)

lemma byte_bit_high: "8 \<le> i \<Longrightarrow> \<not> bit (b::u8) i"
  using bit_imp_le_length [of b i] by auto

definition bytes_bits :: "u8 list \<Rightarrow> bool list" where
  "bytes_bits bs = concat (map (bits_of 8) bs)"

lemma bytes_bits_Nil [simp]: "bytes_bits [] = []"
  and bytes_bits_Cons [simp]: "bytes_bits (b # bs) = bits_of 8 b @ bytes_bits bs"
  and bytes_bits_append [simp]: "bytes_bits (bs @ cs) = bytes_bits bs @ bytes_bits cs"
  by (simp_all add: bytes_bits_def)

lemma length_bytes_bits [simp]: "length (bytes_bits bs) = 8 * length bs"
  by (induction bs) auto

lemma bytes_bits_take_drop:
  "bytes_bits (take k (drop i xs)) @ bytes_bits (drop (i + k) xs) = bytes_bits (drop i xs)"
  by (metis add.commute append_take_drop_id bytes_bits_append drop_drop)

lemma bits_of_8_inject: "bits_of 8 (a::u8) = bits_of 8 b \<longleftrightarrow> a = b"
  using bits_of_inject [of 8 a b] unsigned_less [of a] unsigned_less [of b] by auto

lemma bytes_bits_inject: "bytes_bits bs = bytes_bits cs \<longleftrightarrow> bs = cs"
proof
  assume eq: "bytes_bits bs = bytes_bits cs"
  then show "bs = cs"
  proof (induction bs arbitrary: cs)
    case Nil
    then show ?case by (cases cs) (auto dest: arg_cong [where f = length])
  next
    case (Cons b bs)
    from Cons.prems show ?case
      by (cases cs) (auto simp: bits_of_8_inject dest: Cons.IH arg_cong [where f = length])
  qed
qed simp

section \<open>Every bit list is the content of some bytes\<close>

lemma bits_of_horner:
  assumes "length bs = n" and "n \<le> LENGTH('a::len)"
  shows "bits_of n (horner_sum of_bool 2 (rev bs) :: 'a word) = bs"
  using assms
  by (auto simp: bits_of_def bit_horner_sum_bit_word_iff rev_nth intro!: nth_equalityI)

lemma bytes_of_bits: "length bs = 8 * n \<Longrightarrow> \<exists>bytes. bytes_bits bytes = bs"
proof (induction n arbitrary: bs)
  case 0
  then show ?case by (intro exI [of _ "[]"]) simp
next
  case (Suc n)
  let ?b = "horner_sum of_bool 2 (rev (take 8 bs)) :: u8"
  have "bits_of 8 ?b = take 8 bs"
    using Suc.prems by (intro bits_of_horner) auto
  moreover obtain bytes where "bytes_bits bytes = drop 8 bs"
    using Suc.IH [of "drop 8 bs"] Suc.prems by auto
  ultimately have "bytes_bits (?b # bytes) = bs" by simp
  then show ?case by blast
qed

lemma bits_as_bytes:
  "\<exists>h (held::u8) bytes. h < 8 \<and> bs = bits_of h held @ bytes_bits bytes"
proof -
  let ?h = "length bs mod 8"
  have "bits_of ?h (horner_sum of_bool 2 (rev (take ?h bs)) :: u8) = take ?h bs"
    by (intro bits_of_horner) (auto simp: min_def less_imp_le)
  moreover obtain bytes where "bytes_bits bytes = drop ?h bs"
    using bytes_of_bits [of "drop ?h bs" "length bs div 8"]
    by (auto simp: minus_mod_eq_mult_div)
  ultimately have "bs = bits_of ?h (horner_sum of_bool 2 (rev (take ?h bs)) :: u8) @ bytes_bits bytes"
    by simp
  then show ?thesis by (meson mod_less_divisor zero_less_numeral)
qed

section \<open>The number a list of bytes or bits denotes\<close>

text \<open>The first byte, or bit, is the most significant one.\<close>

primrec be_nat :: "u8 list \<Rightarrow> nat" where
  "be_nat [] = 0"
| "be_nat (b # bs) = unat b * 256 ^ length bs + be_nat bs"

lemma be_nat_append: "be_nat (xs @ ys) = be_nat xs * 256 ^ length ys + be_nat ys"
  by (induction xs) (simp_all add: power_add algebra_simps)

lemma be_nat_bound: "be_nat xs < 256 ^ length xs"
proof (induction xs)
  case (Cons b xs)
  have "unat b * 256 ^ length xs + be_nat xs < (unat b + 1) * 256 ^ length xs"
    using Cons by simp
  also have "\<dots> \<le> 256 * 256 ^ length xs"
    using unat_u8_lt [of b] by (intro mult_right_mono) auto
  finally show ?case by simp
qed simp

lemma be_nat_take: "n \<le> length xs \<Longrightarrow> be_nat xs div 256 ^ (length xs - n) = be_nat (take n xs)"
  using be_nat_append [of "take n xs" "drop n xs"] be_nat_bound [of "drop n xs"] by simp

lemma be_nat_inject: "length xs = length ys \<Longrightarrow> be_nat xs = be_nat ys \<longleftrightarrow> xs = ys"
proof (induction xs ys rule: list_induct2)
  case (Cons x xs y ys)
  have "unat x = unat y \<and> be_nat xs = be_nat ys" if "be_nat (x # xs) = be_nat (y # ys)"
  proof -
    have "unat z = be_nat (z # zs) div 256 ^ length zs" "be_nat zs = be_nat (z # zs) mod 256 ^ length zs"
      for z zs using be_nat_bound [of zs] by simp_all
    then show ?thesis using that Cons.hyps by metis
  qed
  then show ?case using Cons by (auto simp: word_unat_eq_iff)
qed simp

primrec bits_nat :: "bool list \<Rightarrow> nat" where
  "bits_nat [] = 0"
| "bits_nat (b # bs) = of_bool b * 2 ^ length bs + bits_nat bs"

lemma bits_nat_append: "bits_nat (xs @ ys) = bits_nat xs * 2 ^ length ys + bits_nat ys"
  by (induction xs) (simp_all add: power_add algebra_simps)

lemma bits_nat_zeros [simp]: "bits_nat (replicate n False) = 0"
  by (induction n) simp_all

lemma bits_nat_bits_of: "bits_nat (bits_of n (v :: 'a::len word)) = unat v mod 2 ^ n"
proof (induction n)
  case (Suc n)
  have "unat v mod 2 ^ Suc n = of_bool (bit (unat v) n) * 2 ^ n + unat v mod 2 ^ n"
    unfolding power_Suc2 mod_mult2_eq by (simp add: bit_iff_odd mod2_eq_if)
  then show ?case using Suc by (simp add: bits_of_Suc bit_unat)
qed simp

lemma bits_nat_bytes: "bits_nat (bytes_bits bs) = be_nat bs"
proof (induction bs)
  case (Cons b bs)
  have "bits_nat (bits_of 8 b) = unat b"
    using unat_u8_lt [of b] by (simp add: bits_nat_bits_of)
  then show ?case using Cons by (simp add: bits_nat_append power_mult)
qed simp

end
