(* ===== verification/BitStream.thy ===== *)
theory BitStream
  imports ECM_Prelude
begin

unbundle bit_operations_syntax

text \<open>
  \<open>source/Lib/CommonLib/BitStream.h\<close> and \<open>BitStream.cpp\<close>: the writable bitstream
  \<open>OutputBitstream\<close> and the readable bitstream \<open>InputBitstream\<close>.

  Data words keep their width (\<open>uint8_t\<close>, \<open>uint32_t\<close>); the counters
  \<open>m_num_held_bits\<close>, \<open>m_fifo_idx\<close>, \<open>m_numBitsRead\<close> are naturals. The abstraction functions
  \<open>out_bits\<close> and \<open>in_bits\<close> read a stream as the list of bits written so far and the list of
  bits not read yet; the lemmas say what each operation does to that list.
\<close>

section \<open>The output bitstream\<close>

record OutputBitstream =
  out_fifo :: "u8 list"
  out_num_held_bits :: nat
  out_held_bits :: u8

definition out_clear :: "OutputBitstream \<Rightarrow> OutputBitstream" where
  "out_clear s = s\<lparr>out_fifo := [], out_held_bits := 0, out_num_held_bits := 0\<rparr>"

definition new_out :: OutputBitstream where
  "new_out = \<lparr>out_fifo = [], out_num_held_bits = 0, out_held_bits = 0\<rparr>"

definition getByteStreamLength :: "OutputBitstream \<Rightarrow> nat" where
  "getByteStreamLength s = length (out_fifo s)"

definition out_getNumBitsUntilByteAligned :: "OutputBitstream \<Rightarrow> nat" where
  "out_getNumBitsUntilByteAligned s = (8 - out_num_held_bits s) mod 8"

definition getNumberOfWrittenBits :: "OutputBitstream \<Rightarrow> nat" where
  "getNumberOfWrittenBits s = length (out_fifo s) * 8 + out_num_held_bits s"

text \<open>The fall-through \<open>switch (num_total_bits >> 3)\<close>: case \<open>k\<close> pushes the \<open>k\<close> low bytes.\<close>

definition push_bytes :: "nat \<Rightarrow> u32 \<Rightarrow> u8 list" where
  "push_bytes k write_bits =
     (if k \<le> 4 then map (\<lambda>i. ucast (drop_bit (8 * i) write_bits)) (rev [0..<k]) else [])"

text \<open>
  \<open>topword\<close> is a shift count: for 32 bits on an aligned stream it is 32, where the C++ shift of
  the (zero) held byte is formally undefined and \<open>push_bit\<close> gives 0.
\<close>

definition out_write :: "u32 \<Rightarrow> nat \<Rightarrow> OutputBitstream \<Rightarrow> OutputBitstream result" where
  "out_write uiBits uiNumberOfBits s =
     checkE (uiNumberOfBits > 32) ''Number of bits is exceeds 32'' (
     checkE (uiNumberOfBits \<noteq> 32 \<and> uiBits AND push_bit uiNumberOfBits (NOT 0) \<noteq> 0)
       ''Unsupported parameters'' (
     let num_total_bits = uiNumberOfBits + out_num_held_bits s;
         next_num_held_bits = num_total_bits mod 8;
         next_held_bits = (ucast (push_bit (8 - next_num_held_bits) uiBits) :: u8)
     in if drop_bit 3 num_total_bits = 0
        then Inr (s\<lparr>out_held_bits := out_held_bits s OR next_held_bits,
                    out_num_held_bits := next_num_held_bits\<rparr>)
        else let topword = push_bit 3 (drop_bit 3 (uiNumberOfBits - next_num_held_bits));
                 write_bits = push_bit topword (ucast (out_held_bits s) :: u32)
                                OR drop_bit next_num_held_bits uiBits
             in Inr (s\<lparr>out_fifo := out_fifo s @ push_bytes (drop_bit 3 num_total_bits) write_bits,
                       out_held_bits := next_held_bits,
                       out_num_held_bits := next_num_held_bits\<rparr>)))"

definition writeAlignOne :: "OutputBitstream \<Rightarrow> OutputBitstream result" where
  "writeAlignOne s =
     (let num_bits = out_getNumBitsUntilByteAligned s
      in out_write (push_bit num_bits 1 - 1) num_bits s)"

definition writeAlignZero :: "OutputBitstream \<Rightarrow> OutputBitstream" where
  "writeAlignZero s =
     (if out_num_held_bits s = 0 then s
      else s\<lparr>out_fifo := out_fifo s @ [out_held_bits s], out_held_bits := 0,
              out_num_held_bits := 0\<rparr>)"

fun write_bytes :: "u8 list \<Rightarrow> OutputBitstream \<Rightarrow> OutputBitstream result" where
  "write_bytes [] s = Inr s"
| "write_bytes (b # bs) s = bindE (out_write (ucast b) 8 s) (write_bytes bs)"

definition addSubstream :: "OutputBitstream \<Rightarrow> OutputBitstream \<Rightarrow> OutputBitstream result" where
  "addSubstream pcSubstream s =
     (let uiNumBits = getNumberOfWrittenBits pcSubstream in
      bindE (write_bytes (out_fifo pcSubstream) s) (\<lambda>s.
      if uiNumBits mod 8 \<noteq> 0
      then out_write (ucast (drop_bit (8 - uiNumBits mod 8) (out_held_bits pcSubstream)))
             (uiNumBits mod 8) s
      else Inr s))"

definition writeByteAlignment :: "OutputBitstream \<Rightarrow> OutputBitstream result" where
  "writeByteAlignment s = bindE (out_write 1 1 s) (\<lambda>s. Inr (writeAlignZero s))"

text \<open>An insertion position behind the end of the vector is undefined behaviour.\<close>

definition insertAt :: "OutputBitstream \<Rightarrow> nat \<Rightarrow> OutputBitstream \<Rightarrow> OutputBitstream result" where
  "insertAt src pos s =
     checkE (getNumberOfWrittenBits src mod 8 \<noteq> 0)
       ''Number of written bits is not a multiple of 8'' (
     if length (out_fifo s) < pos then Inl UndefinedBehaviour
     else Inr (s\<lparr>out_fifo := take pos (out_fifo s) @ out_fifo src @ drop pos (out_fifo s)\<rparr>))"

section \<open>What the output stream holds\<close>

definition out_inv :: "OutputBitstream \<Rightarrow> bool" where
  "out_inv s \<longleftrightarrow> out_num_held_bits s < 8 \<and>
     (\<forall>i < 8 - out_num_held_bits s. \<not> bit (out_held_bits s) i)"

definition out_bits :: "OutputBitstream \<Rightarrow> bool list" where
  "out_bits s = bytes_bits (out_fifo s) @ take (out_num_held_bits s) (bits_of 8 (out_held_bits s))"

lemma out_inv_new [simp]: "out_inv new_out"
  by (simp add: out_inv_def new_out_def)

lemma out_bits_new [simp]: "out_bits new_out = []"
  by (simp add: out_bits_def new_out_def)

lemma length_out_bits: "out_inv s \<Longrightarrow> length (out_bits s) = getNumberOfWrittenBits s"
  by (simp add: out_bits_def out_inv_def getNumberOfWrittenBits_def)

lemma out_aligned_iff:
  "out_inv s \<Longrightarrow> out_getNumBitsUntilByteAligned s = (8 - length (out_bits s) mod 8) mod 8"
  by (auto simp: out_getNumBitsUntilByteAligned_def length_out_bits getNumberOfWrittenBits_def
      out_inv_def)

lemma bytes_bits_push_bytes:
  "k \<le> 4 \<Longrightarrow> bytes_bits (push_bytes k w) = bits_of (8 * k) w"
proof (induction k)
  case 0
  then show ?case by (simp add: push_bytes_def)
next
  case (Suc k)
  have "bits_of (8 + 8 * k) w = bits_of 8 (drop_bit (8 * k) w) @ bits_of (8 * k) w"
    by (rule bits_of_add)
  with Suc show ?case
    by (simp add: push_bytes_def bits_of_ucast)
qed

lemma mask_check_iff:
  fixes v :: u32
  shows "n \<le> 32 \<Longrightarrow> (n \<noteq> 32 \<and> v AND push_bit n (NOT 0) \<noteq> 0) \<longleftrightarrow> \<not> unat v < 2 ^ n"
proof -
  assume n: "n \<le> 32"
  have "v AND push_bit n (NOT 0) = 0 \<longleftrightarrow> (\<forall>i\<ge>n. \<not> bit v i)"
  proof
    assume eq: "v AND push_bit n (NOT 0) = 0"
    show "\<forall>i\<ge>n. \<not> bit v i"
    proof (intro allI impI notI)
      fix i assume i: "n \<le> i" and b: "bit v i"
      from b have "i < 32" using bit_imp_le_length [OF b] by simp
      with i b have "bit (v AND push_bit n (NOT 0)) i"
        by (simp add: bit_simps)
      with eq show False by simp
    qed
  next
    assume "\<forall>i\<ge>n. \<not> bit v i"
    then show "v AND push_bit n (NOT 0) = 0"
      by (auto intro!: bit_word_eqI simp: bit_simps)
  qed
  moreover have "n = 32 \<Longrightarrow> unat v < 2 ^ n"
    using unsigned_less [of v] by simp
  ultimately show ?thesis
    by (cases "n = 32") (simp_all add: word_bounded_iff)
qed

text \<open>\<open>out_write\<close> appends exactly the requested bits, for every fill level of the held byte.\<close>

lemma write_short_bits:
  assumes inv: "out_inv s" and bound: "unat (v::u32) < 2 ^ n"
    and short: "n + out_num_held_bits s < 8"
  shows "take (n + out_num_held_bits s)
          (bits_of 8 (out_held_bits s OR ucast (push_bit (8 - (n + out_num_held_bits s)) v)))
       = take (out_num_held_bits s) (bits_of 8 (out_held_bits s)) @ bits_of n v" (is "?l = ?r")
proof -
  let ?h = "out_num_held_bits s" and ?b = "out_held_bits s"
  let ?w = "?b OR ucast (push_bit (8 - (n + ?h)) v) :: u8"
  have "?l = bits_of (n + ?h) (drop_bit (8 - (n + ?h)) ?w)"
    using short by (simp add: take_bits_of)
  also have "\<dots> = bits_of ?h (drop_bit (8 - ?h) ?w) @ bits_of n (drop_bit (8 - (n + ?h)) ?w)"
    using bits_of_add [of ?h n "drop_bit (8 - (n + ?h)) ?w"] short
    by (simp add: add.commute)
  also have "bits_of ?h (drop_bit (8 - ?h) ?w) = bits_of ?h (drop_bit (8 - ?h) ?b)"
    by (rule bits_of_cong) (use short word_bounded_bit [OF bound] in \<open>auto simp: bit_simps\<close>)
  also have "bits_of n (drop_bit (8 - (n + ?h)) ?w) = bits_of n v"
    by (rule bits_of_cong) (use short inv in \<open>auto simp: bit_simps out_inv_def\<close>)
  finally show ?thesis using short by (simp add: take_bits_of)
qed

lemma write_topword:
  fixes n h :: nat
  assumes h: "h < 8" and long: "8 \<le> n + h"
  shows "push_bit 3 (drop_bit 3 (n - (n + h) mod 8)) = (if h = 0 then 8 * ((n + h) div 8)
           else 8 * ((n + h) div 8) - 8)" (is "?t = _")
    and "n - (n + h) mod 8 = 8 * ((n + h) div 8) - h"
    and "(n + h) mod 8 \<le> n"
proof -
  let ?k = "(n + h) div 8"
  have eq: "n + h = 8 * ?k + (n + h) mod 8" by simp
  have k: "1 \<le> ?k" using long by simp
  show d: "n - (n + h) mod 8 = 8 * ?k - h" and "(n + h) mod 8 \<le> n"
    using eq k h by linarith+
  have "?t = 8 * ((8 * ?k - h) div 8)"
    by (simp add: d push_bit_eq_mult drop_bit_eq_div)
  moreover have "(8 * ?k - h) div 8 = (if h = 0 then ?k else ?k - 1)"
  proof (cases "h = 0")
    case False
    have "8 * ?k - h = 8 * (?k - 1) + (8 - h)" using k h by simp
    moreover have "8 - h < 8" using False by simp
    ultimately show ?thesis using False by (metis div_mult_self4 div_less add_0_right zero_neq_numeral)
  qed simp
  ultimately show "?t = (if h = 0 then 8 * ?k else 8 * ?k - 8)" by (simp add: diff_mult_distrib2)
qed

lemma write_long_bits:
  assumes inv: "out_inv s" and n: "n \<le> 32" and bound: "unat (v::u32) < 2 ^ n"
    and long: "8 \<le> n + out_num_held_bits s"
  defines "h \<equiv> out_num_held_bits s"
  defines "k \<equiv> (n + h) div 8" and "r \<equiv> (n + h) mod 8"
  defines "wb \<equiv> push_bit (push_bit 3 (drop_bit 3 (n - r))) (ucast (out_held_bits s)) OR drop_bit r v"
  shows "bytes_bits (push_bytes k wb) @ take r (bits_of 8 (ucast (push_bit (8 - r) v) :: u8))
       = take h (bits_of 8 (out_held_bits s)) @ bits_of n v"
proof -
  let ?b = "out_held_bits s" and ?t = "push_bit 3 (drop_bit 3 (n - r))"
  have h: "h < 8" and low: "\<And>i. i < 8 - h \<Longrightarrow> \<not> bit ?b i"
    using inv by (auto simp: out_inv_def h_def)
  have long': "8 \<le> n + h" using long by (simp add: h_def)
  have k: "1 \<le> k" "k \<le> 4" and r: "r < 8"
    using long' n h by (simp_all add: k_def r_def div_le_mono [of 8 _ 8, simplified])
  have rn: "r \<le> n" and d: "n - r = 8 * k - h"
    and t: "?t = (if h = 0 then 8 * k else 8 * k - 8)"
    using write_topword [OF h long'] by (simp_all only: k_def r_def)
  have "8 * k = h + (n - r)" using d k h by simp
  then have "bits_of (8 * k) wb = bits_of h (drop_bit (n - r) wb) @ bits_of (n - r) wb"
    by (simp add: bits_of_add)
  also have "bits_of h (drop_bit (n - r) wb) = bits_of h (drop_bit (8 - h) ?b)"
  proof (rule bits_of_cong)
    fix i assume i: "i < h"
    have "\<not> bit v (i + n)" using word_bounded_bit [OF bound] by simp
    moreover have "i + (n - r) + r = i + n" using rn by simp
    moreover have "i + (n - r) - ?t = i + (8 - h)" and "?t \<le> i + (n - r)"
      using i h k d t by auto
    moreover have "i + (n - r) < 32" using i d k h by linarith
    ultimately show "bit (drop_bit (n - r) wb) i = bit (drop_bit (8 - h) ?b) i"
      by (auto simp: wb_def bit_simps add.commute)
  qed
  also have "bits_of (n - r) wb = bits_of (n - r) (drop_bit r v)"
  proof (rule bits_of_cong)
    fix i assume i: "i < n - r"
    have "\<not> (?t \<le> i \<and> bit ?b (i - ?t))"
    proof
      assume a: "?t \<le> i \<and> bit ?b (i - ?t)"
      then have "i - ?t < 8 - h" using i d t h k by (auto split: if_splits)
      with a low show False by blast
    qed
    then show "bit wb i = bit (drop_bit r v) i"
      by (auto simp: wb_def bit_simps)
  qed
  finally have "bits_of (8 * k) wb
      = take h (bits_of 8 ?b) @ bits_of (n - r) (drop_bit r v)"
    using h by (simp add: take_bits_of)
  moreover have "take r (bits_of 8 (ucast (push_bit (8 - r) v) :: u8)) = bits_of r v"
  proof -
    have "bits_of r (drop_bit (8 - r) (ucast (push_bit (8 - r) v) :: u8)) = bits_of r v"
      by (rule bits_of_cong) (use r n rn in \<open>auto simp: bit_simps\<close>)
    then show ?thesis using r by (simp add: take_bits_of)
  qed
  ultimately show ?thesis
    using k rn by (simp add: bytes_bits_push_bytes bits_of_split [of r n v])
qed

lemma held_after_write: "\<not> bit (ucast (push_bit (8 - r) (v::u32)) :: u8) i" if "i < 8 - r"
  using that by (simp add: bit_simps)

text \<open>The refinement step of \<open>OutputBitstream::write\<close>: in the bit-list view it is append.\<close>

lemma out_write_ok:
  assumes inv: "out_inv s" and n: "n \<le> 32" and bound: "unat v < 2 ^ n"
  shows "\<exists>s'. out_write v n s = Inr s' \<and> out_inv s' \<and> out_bits s' = out_bits s @ bits_of n v"
proof -
  let ?h = "out_num_held_bits s"
  have ok: "\<not> (n \<noteq> 32 \<and> v AND push_bit n (NOT 0) \<noteq> 0)"
    using mask_check_iff [OF n] bound by blast
  have h: "?h < 8" using inv by (simp add: out_inv_def)
  show ?thesis
  proof (cases "n + ?h < 8")
    case True
    then have nz: "drop_bit 3 (n + ?h) = 0" and m: "(n + ?h) mod 8 = n + ?h"
      by (simp_all add: drop_bit_eq_div)
    let ?s = "s\<lparr>out_held_bits := out_held_bits s OR ucast (push_bit (8 - (n + ?h)) v),
                out_num_held_bits := n + ?h\<rparr>"
    have "out_write v n s = Inr ?s"
      unfolding out_write_def using n ok nz m by (simp add: Let_def)
    moreover have "out_inv ?s"
      using inv True by (auto simp: out_inv_def bit_simps)
    moreover have "out_bits ?s = out_bits s @ bits_of n v"
      using write_short_bits [OF inv bound True] by (simp add: out_bits_def)
    ultimately show ?thesis by blast
  next
    case False
    then have long: "8 \<le> n + ?h" by simp
    let ?r = "(n + ?h) mod 8"
    let ?wb = "push_bit (push_bit 3 (drop_bit 3 (n - ?r))) (ucast (out_held_bits s)) OR drop_bit ?r v"
    let ?s = "s\<lparr>out_fifo := out_fifo s @ push_bytes ((n + ?h) div 8) ?wb,
                out_held_bits := ucast (push_bit (8 - ?r) v), out_num_held_bits := ?r\<rparr>"
    have "drop_bit 3 (n + ?h) = (n + ?h) div 8" "drop_bit 3 (n + ?h) \<noteq> 0"
      using long by (simp_all add: drop_bit_eq_div div_eq_0_iff)
    then have "out_write v n s = Inr ?s"
      unfolding out_write_def using n ok by (simp add: Let_def)
    moreover have "out_inv ?s"
      by (auto simp: out_inv_def held_after_write)
    moreover have "out_bits ?s = out_bits s @ bits_of n v"
      using write_long_bits [OF inv n bound long] by (simp add: out_bits_def)
    ultimately show ?thesis by blast
  qed
qed

lemma out_write_too_wide: "out_write v n s = Inl (CheckFailed ''Number of bits is exceeds 32'')"
  if "32 < n"
  using that by (simp add: out_write_def)

lemma out_write_unsupported: "out_write v n s = Inl (CheckFailed ''Unsupported parameters'')"
  if "n \<le> 32" and "2 ^ n \<le> unat v"
  using that mask_check_iff [of n v] by (auto simp: out_write_def not_less checkE_def)

section \<open>The input bitstream\<close>

record InputBitstream =
  in_fifo :: "u8 list"
  in_emulationPreventionByteLocation :: "nat list"
  in_fifo_idx :: nat
  in_num_held_bits :: nat
  in_held_bits :: u8
  in_numBitsRead :: nat

type_synonym 'a parser = "InputBitstream \<Rightarrow> ('a \<times> InputBitstream) result"

definition new_in :: "u8 list \<Rightarrow> InputBitstream" where
  "new_in bytes = \<lparr>in_fifo = bytes, in_emulationPreventionByteLocation = [], in_fifo_idx = 0,
     in_num_held_bits = 0, in_held_bits = 0, in_numBitsRead = 0\<rparr>"

definition resetToStart :: "InputBitstream \<Rightarrow> InputBitstream" where
  "resetToStart s = s\<lparr>in_fifo_idx := 0, in_num_held_bits := 0, in_held_bits := 0,
     in_numBitsRead := 0\<rparr>"

definition in_getNumBitsUntilByteAligned :: "InputBitstream \<Rightarrow> nat" where
  "in_getNumBitsUntilByteAligned s = in_num_held_bits s mod 8"

definition getNumBitsLeft :: "InputBitstream \<Rightarrow> nat" where
  "getNumBitsLeft s = 8 * (length (in_fifo s) - in_fifo_idx s) + in_num_held_bits s"

text \<open>
  The second fall-through switch, \<open>switch (num_bytes_to_load)\<close>: case \<open>k\<close> assembles \<open>k + 1\<close> bytes
  big-endian into \<open>aligned_word\<close>.
\<close>

fun load_bytes :: "u8 list \<Rightarrow> u32" where
  "load_bytes [] = 0"
| "load_bytes (b # bs) = push_bit (8 * length bs) (ucast b) OR load_bytes bs"

definition in_read :: "nat \<Rightarrow> u32 parser" where
  "in_read uiNumberOfBits s =
     checkE (uiNumberOfBits > 32) ''Too many bits read'' (
     let s = s\<lparr>in_numBitsRead := in_numBitsRead s + uiNumberOfBits\<rparr> in
     if uiNumberOfBits \<le> in_num_held_bits s
     then let retval = drop_bit (in_num_held_bits s - uiNumberOfBits) (ucast (in_held_bits s) :: u32)
                         AND NOT (push_bit uiNumberOfBits 0xff)
          in Inr (retval, s\<lparr>in_num_held_bits := in_num_held_bits s - uiNumberOfBits\<rparr>)
     else let uiNumberOfBits = uiNumberOfBits - in_num_held_bits s;
              retval = push_bit uiNumberOfBits
                         (ucast (in_held_bits s) AND NOT (push_bit (in_num_held_bits s) 0xff));
              num_bytes_to_load = drop_bit 3 (uiNumberOfBits - 1)
          in checkE (in_fifo_idx s + num_bytes_to_load \<ge> length (in_fifo s)) ''Exceeded FIFO size'' (
             let aligned_word =
                   load_bytes (take (num_bytes_to_load + 1) (drop (in_fifo_idx s) (in_fifo s)));
                 next_num_held_bits = (32 - uiNumberOfBits) mod 8
             in Inr (retval OR drop_bit next_num_held_bits aligned_word,
                  s\<lparr>in_fifo_idx := in_fifo_idx s + num_bytes_to_load + 1,
                    in_num_held_bits := next_num_held_bits,
                    in_held_bits := ucast aligned_word\<rparr>)))"

text \<open>\<open>readByte\<close> takes the next whole byte of the FIFO, whatever bits are held.\<close>

definition in_readByte :: "u32 parser" where
  "in_readByte s =
     checkE (in_fifo_idx s \<ge> length (in_fifo s)) ''FIFO exceeded'' (
     Inr (ucast (in_fifo s ! in_fifo_idx s), s\<lparr>in_fifo_idx := in_fifo_idx s + 1\<rparr>))"

definition peekPreviousByte :: "InputBitstream \<Rightarrow> u32 result" where
  "peekPreviousByte s =
     checkE (in_fifo_idx s = 0) ''FIFO empty'' (
     if length (in_fifo s) < in_fifo_idx s then Inl UndefinedBehaviour
     else Inr (ucast (in_fifo s ! (in_fifo_idx s - 1))))"

text \<open>
  \<open>pseudoRead\<close> restores the position but not \<open>m_numBitsRead\<close>; the bits it pads with are zero.
\<close>

definition pseudoRead :: "nat \<Rightarrow> u32 parser" where
  "pseudoRead uiNumberOfBits s =
     (let num_bits_to_read = min uiNumberOfBits (getNumBitsLeft s) in
      bindE (in_read num_bits_to_read s) (\<lambda>(ruiBits, s').
      Inr (push_bit (uiNumberOfBits - num_bits_to_read) ruiBits,
           s'\<lparr>in_fifo_idx := in_fifo_idx s, in_held_bits := in_held_bits s,
              in_num_held_bits := in_num_held_bits s\<rparr>)))"

section \<open>What the input stream still holds\<close>

definition in_inv :: "InputBitstream \<Rightarrow> bool" where
  "in_inv s \<longleftrightarrow> in_num_held_bits s < 8 \<and> in_fifo_idx s \<le> length (in_fifo s)"

definition in_bits :: "InputBitstream \<Rightarrow> bool list" where
  "in_bits s = bits_of (in_num_held_bits s) (in_held_bits s)
                 @ bytes_bits (drop (in_fifo_idx s) (in_fifo s))"

lemma in_inv_new [simp]: "in_inv (new_in bs)"
  by (simp add: in_inv_def new_in_def)

lemma in_bits_new [simp]: "in_bits (new_in bs) = bytes_bits bs"
  by (simp add: in_bits_def new_in_def)

lemma length_in_bits: "in_inv s \<Longrightarrow> length (in_bits s) = getNumBitsLeft s"
  by (simp add: in_bits_def in_inv_def getNumBitsLeft_def)

lemma in_aligned_iff:
  "in_inv s \<Longrightarrow> in_getNumBitsUntilByteAligned s = length (in_bits s) mod 8"
  by (simp add: length_in_bits getNumBitsLeft_def in_getNumBitsUntilByteAligned_def)

lemma load_bytes_bits:
  "length bs \<le> 4 \<Longrightarrow> bits_of (8 * length bs) (load_bytes bs) = bytes_bits bs
     \<and> (\<forall>i \<ge> 8 * length bs. \<not> bit (load_bytes bs) i)"
proof (induction bs)
  case Nil
  then show ?case by simp
next
  case (Cons b bs)
  let ?n = "8 * length bs"
  from Cons have IH: "bits_of ?n (load_bytes bs) = bytes_bits bs"
    and hi: "\<And>i. ?n \<le> i \<Longrightarrow> \<not> bit (load_bytes bs) i"
    and len: "?n + 8 \<le> 32" by auto
  have "bits_of (8 + ?n) (load_bytes (b # bs))
      = bits_of 8 (drop_bit ?n (load_bytes (b # bs))) @ bits_of ?n (load_bytes (b # bs))"
    by (rule bits_of_add)
  also have "bits_of ?n (load_bytes (b # bs)) = bytes_bits bs"
    unfolding IH [symmetric] by (rule bits_of_cong) (simp add: bit_simps)
  also have "bits_of 8 (drop_bit ?n (load_bytes (b # bs))) = bits_of 8 b"
    by (rule bits_of_cong) (use len hi in \<open>auto simp: bit_simps\<close>)
  finally have "bits_of (8 * length (b # bs)) (load_bytes (b # bs)) = bytes_bits (b # bs)"
    by simp
  moreover have "\<forall>i \<ge> 8 * length (b # bs). \<not> bit (load_bytes (b # bs)) i"
  proof (intro allI impI)
    fix i assume i: "8 * length (b # bs) \<le> i"
    have "\<not> bit b (i - ?n)"
      using i bit_imp_le_length [of b "i - ?n"] by auto
    then show "\<not> bit (load_bytes (b # bs)) i"
      using i hi [of i] by (auto simp: bit_simps)
  qed
  ultimately show ?case by blast
qed

text \<open>
  \<open>read\<close> takes exactly the requested bits off the front, and its value is the number they
  denote; it fails exactly when they are not there.
\<close>

lemma mask_ff: "bit (0xff :: int) i \<longleftrightarrow> i < 8"
  using bit_mask_iff [of 8 i, where 'a = int] by (simp add: mask_eq_exp_minus_1)

lemma read_held_bits:
  assumes "n \<le> h" and "h < 8"
  shows "bits_of n (drop_bit (h - n) (ucast (b::u8) :: u32) AND NOT (push_bit n 0xff))
           = bits_of n (drop_bit (h - n) b)" (is "bits_of n ?v = _")
    and "unat (drop_bit (h - n) (ucast b :: u32) AND NOT (push_bit n 0xff)) < 2 ^ n"
proof -
  show "bits_of n ?v = bits_of n (drop_bit (h - n) b)"
    by (rule bits_of_cong) (use assms in \<open>auto simp: bit_simps\<close>)
  show "unat ?v < 2 ^ n"
    unfolding word_bounded_iff
  proof (intro allI impI)
    fix i assume "n \<le> i"
    then show "\<not> bit ?v i"
      using bit_imp_le_length [of b "h - n + i"] assms
      by (auto simp: bit_simps mask_ff)
  qed
qed

lemma read_long_bits:
  fixes held :: u8
  assumes h: "h < 8" and n: "n \<le> 32" and hn: "h < n" and len: "length bs = (n - h - 1) div 8 + 1"
  defines "m \<equiv> n - h" and "aw \<equiv> load_bytes bs"
  defines "r \<equiv> (32 - m) mod 8"
  defines "v \<equiv> push_bit m (ucast held AND NOT (push_bit h 0xff)) OR drop_bit r aw"
  shows "bits_of h held @ bytes_bits bs = bits_of n v @ bits_of r (ucast aw :: u8)"
    and "unat v < 2 ^ n"
proof -
  let ?k = "length bs"
  have r: "r < 8" and mr: "m + r = 8 * ?k" and k: "?k \<le> 4"
  proof -
    have m: "1 \<le> m" "m \<le> 32" using hn n by (auto simp: m_def)
    have k': "?k = (m - 1) div 8 + 1" using len by (simp add: m_def)
    show "r < 8" by (simp add: r_def)
    show "?k \<le> 4" using m k' by (simp add: div_le_mono)
    define q t where "q = (m - 1) div 8" and "t = (m - 1) mod 8"
    have mq: "m = 8 * q + t + 1" and t: "t < 8" and q: "q \<le> 3"
      using m by (auto simp: q_def t_def)
    have "32 - m = 8 * (3 - q) + (7 - t)" using mq t q by simp
    moreover have "(8 * (3 - q) + (7 - t)) mod 8 = (7 - t) mod 8" by simp
    ultimately have "r = 7 - t" using t unfolding r_def by simp
    then show "m + r = 8 * ?k" using mq t by (simp add: k' flip: q_def)
  qed
  have aw: "bits_of (m + r) aw = bytes_bits bs" and hi: "\<And>i. m + r \<le> i \<Longrightarrow> \<not> bit aw i"
    using load_bytes_bits [OF k] by (simp_all add: aw_def mr)
  have "bits_of n v = bits_of h (drop_bit m v) @ bits_of m v"
    using bits_of_add [of h m v] hn by (simp add: m_def)
  also have "bits_of h (drop_bit m v) = bits_of h held"
    by (rule bits_of_cong)
      (use hi h n hn in \<open>auto simp: v_def m_def bit_simps mask_ff\<close>)
  also have "bits_of m v = bits_of m (drop_bit r aw)"
    by (rule bits_of_cong) (auto simp: v_def bit_simps)
  finally show "bits_of h held @ bytes_bits bs = bits_of n v @ bits_of r (ucast aw :: u8)"
    using r bits_of_add [of m r aw] by (simp add: aw bits_of_ucast)
  show "unat v < 2 ^ n"
    unfolding word_bounded_iff
  proof (intro allI impI)
    fix i assume i: "n \<le> i"
    have "\<not> bit held (i - m) \<or> i - m < 8"
      using bit_imp_le_length [of held "i - m"] by auto
    moreover have "h \<le> i - m" "m + r \<le> i + r" using i hn by (auto simp: m_def)
    ultimately show "\<not> bit v i"
      using h hi [of "i + r"] by (auto simp: v_def bit_simps mask_ff add.commute)
  qed
qed

lemma in_read_ok:
  assumes inv: "in_inv s" and n: "n \<le> 32" and avail: "n \<le> length (in_bits s)"
  shows "\<exists>v s'. in_read n s = Inr (v, s') \<and> in_inv s' \<and> unat v < 2 ^ n
           \<and> in_bits s = bits_of n v @ in_bits s' \<and> in_fifo s' = in_fifo s"
proof -
  let ?h = "in_num_held_bits s" and ?b = "in_held_bits s"
  have h: "?h < 8" and idx: "in_fifo_idx s \<le> length (in_fifo s)"
    using inv by (auto simp: in_inv_def)
  show ?thesis
  proof (cases "n \<le> ?h")
    case True
    let ?v = "drop_bit (?h - n) (ucast ?b :: u32) AND NOT (push_bit n 0xff)"
    let ?s = "s\<lparr>in_numBitsRead := in_numBitsRead s + n, in_num_held_bits := ?h - n\<rparr>"
    have "in_read n s = Inr (?v, ?s)"
      unfolding in_read_def using n True by (simp add: Let_def)
    moreover have "bits_of ?h ?b = bits_of n (drop_bit (?h - n) ?b) @ bits_of (?h - n) ?b"
      using bits_of_split [of "?h - n" ?h ?b] True by simp
    then have "in_bits s = bits_of n ?v @ in_bits ?s"
      using read_held_bits(1) [OF True h] by (simp add: in_bits_def)
    moreover have "in_inv ?s" using h idx by (simp add: in_inv_def)
    ultimately show ?thesis using read_held_bits(2) [OF True h, of ?b] by fastforce
  next
    case False
    let ?k = "(n - ?h - 1) div 8 + 1"
    let ?bs = "take ?k (drop (in_fifo_idx s) (in_fifo s))"
    let ?aw = "load_bytes ?bs" and ?r = "(32 - (n - ?h)) mod 8"
    let ?v = "push_bit (n - ?h) (ucast ?b AND NOT (push_bit ?h 0xff)) OR drop_bit ?r ?aw"
    let ?s = "s\<lparr>in_numBitsRead := in_numBitsRead s + n, in_fifo_idx := in_fifo_idx s + ?k,
                in_num_held_bits := ?r, in_held_bits := ucast ?aw\<rparr>"
    have avail': "n - ?h \<le> 8 * (length (in_fifo s) - in_fifo_idx s)"
      using avail False by (simp add: length_in_bits [OF inv] getNumBitsLeft_def)
    then have room: "in_fifo_idx s + ?k \<le> length (in_fifo s)"
      using False idx by linarith
    then have len: "length ?bs = ?k" by simp
    have run: "in_read n s = Inr (?v, ?s)"
      unfolding in_read_def using n False room
      by (simp add: Let_def drop_bit_eq_div)
    have split: "bits_of ?h ?b @ bytes_bits ?bs = bits_of n ?v @ bits_of ?r (ucast ?aw :: u8)"
      and "unat ?v < 2 ^ n"
      using read_long_bits [OF h n _ len, where held = ?b] False by auto
    moreover have "in_bits s = (bits_of ?h ?b @ bytes_bits ?bs)
                     @ bytes_bits (drop (in_fifo_idx s + ?k) (in_fifo s))"
      by (simp only: in_bits_def append_assoc bytes_bits_take_drop)
    then have "in_bits s = bits_of n ?v @ in_bits ?s"
      unfolding split by (simp add: in_bits_def)
    moreover have "in_inv ?s" using room by (simp add: in_inv_def)
    ultimately show ?thesis using run by fastforce
  qed
qed

lemma in_read_too_many:
  "32 < n \<Longrightarrow> in_read n s = Inl (CheckFailed ''Too many bits read'')"
  by (simp add: in_read_def)

lemma in_read_exhausted:
  assumes inv: "in_inv s" and n: "n \<le> 32" and short: "length (in_bits s) < n"
  shows "in_read n s = Inl (CheckFailed ''Exceeded FIFO size'')"
proof -
  have "\<not> n \<le> in_num_held_bits s"
    and "8 * (length (in_fifo s) - in_fifo_idx s) < n - in_num_held_bits s"
    using short by (simp_all add: length_in_bits [OF inv] getNumBitsLeft_def)
  moreover from this have "length (in_fifo s) \<le> in_fifo_idx s + (n - in_num_held_bits s - 1) div 8"
    by linarith
  ultimately show ?thesis
    using n by (simp add: in_read_def Let_def drop_bit_eq_div)
qed

lemma in_read_Inr:
  assumes inv: "in_inv s" and ret: "in_read n s = Inr (v, s')"
  shows "n \<le> 32 \<and> in_inv s' \<and> unat v < 2 ^ n \<and> in_bits s = bits_of n v @ in_bits s'
           \<and> in_fifo s' = in_fifo s"
proof -
  have "n \<le> 32" using ret in_read_too_many [of n s] by (cases "n \<le> 32") auto
  moreover have "n \<le> length (in_bits s)"
    using ret in_read_exhausted [OF inv \<open>n \<le> 32\<close>] by (cases "n \<le> length (in_bits s)") auto
  ultimately show ?thesis
    using in_read_ok [OF inv, of n] ret by auto
qed

lemma in_read_keeps:
  "in_read n s = Inr (v, s') \<Longrightarrow> in_fifo s' = in_fifo s
     \<and> in_emulationPreventionByteLocation s' = in_emulationPreventionByteLocation s"
  by (auto simp: in_read_def Let_def checkE_Inr_iff split: if_splits)

lemma in_read_shortens:
  "in_inv s \<Longrightarrow> in_read n s = Inr (v, s') \<Longrightarrow> length (in_bits s) = n + length (in_bits s')"
  using in_read_Inr by fastforce

section \<open>Operations built from \<open>read\<close>\<close>

text \<open>
  \<open>readOutTrailingBits\<close>: its loop ends because each turn takes one of the held bits; the loop
  condition guarantees that there is one.
\<close>

lemma in_read_held:
  "in_read (Suc 0) s = Inr (v, s') \<Longrightarrow> in_num_held_bits s \<noteq> 0 \<Longrightarrow>
     in_num_held_bits s' = in_num_held_bits s - 1"
  by (auto simp: in_read_def Let_def)

function trailing_loop :: "nat \<Rightarrow> InputBitstream \<Rightarrow> (nat \<times> InputBitstream) result" where
  "trailing_loop count s =
     (if getNumBitsLeft s > 0 \<and> in_getNumBitsUntilByteAligned s \<noteq> 0
      then bindE (in_read 1 s) (\<lambda>(uiBits, s'). trailing_loop (count + 1) s')
      else Inr (count, s))"
  by pat_completeness auto
termination
  by (relation "measure (\<lambda>(c, s). in_num_held_bits s)")
    (auto simp: in_getNumBitsUntilByteAligned_def dest!: in_read_held
          intro!: diff_less gr0I)

declare trailing_loop.simps [simp del]

definition readOutTrailingBits :: "nat parser" where
  "readOutTrailingBits s = trailing_loop 0 s"

text \<open>
  \<open>extractSubstream\<close>: on an aligned stream the bytes are copied and missing ones are filled with
  zero; otherwise they are read one by one.
\<close>

fun read_bytes :: "nat \<Rightarrow> u8 list parser" where
  "read_bytes 0 s = Inr ([], s)"
| "read_bytes (Suc n) s =
     bindE (in_read 8 s) (\<lambda>(uiByte, s).
     bindE (read_bytes n s) (\<lambda>(bs, s). Inr (ucast uiByte # bs, s)))"

definition extractSubstream :: "nat \<Rightarrow> InputBitstream parser" where
  "extractSubstream uiNumBits s =
     (let uiNumBytes = uiNumBits div 8 in
      bindE (if in_num_held_bits s = 0
             then let k = min uiNumBytes (length (in_fifo s) - in_fifo_idx s)
                  in Inr (take k (drop (in_fifo_idx s) (in_fifo s)) @ replicate (uiNumBytes - k) 0,
                          s\<lparr>in_fifo_idx := in_fifo_idx s + k\<rparr>)
             else read_bytes uiNumBytes s) (\<lambda>(buf, s).
      if uiNumBits AND 7 \<noteq> 0
      then bindE (in_read (uiNumBits AND 7) s) (\<lambda>(uiByte, s).
           Inr (new_in (buf @ [ucast (push_bit (8 - (uiNumBits AND 7)) uiByte)]), s))
      else Inr (new_in buf, s)))"

definition readByteAlignment :: "nat parser" where
  "readByteAlignment s =
     bindE (in_read 1 s) (\<lambda>(code, s).
     checkE (code \<noteq> 1) ''Code is not 1'' (
     let numBits = in_getNumBitsUntilByteAligned s in
     if numBits \<noteq> 0
     then checkE (numBits > getNumBitsLeft s) ''More bits available than left'' (
          bindE (in_read numBits s) (\<lambda>(code, s).
          checkE (code \<noteq> 0) ''Code not 0'' (
          Inr (numBits + 1, s))))
     else Inr (numBits + 1, s)))"

text \<open>
  \<open>countStartCodeEmulations\<close>: \<open>search_n(found, end - 1, 2, 0)\<close> looks for two zero bytes that are
  followed by a third byte. Positions are suffixes; \<open>search_two_zeros\<close> returns the suffix that
  starts at the third byte.
\<close>

fun search_two_zeros :: "u8 list \<Rightarrow> u8 list option" where
  "search_two_zeros (a # b # c # r) =
     (if a = 0 \<and> b = 0 then Some (c # r) else search_two_zeros (b # c # r))"
| "search_two_zeros _ = None"

lemma search_two_zeros_length: "search_two_zeros xs = Some ys \<Longrightarrow> length ys < length xs"
  by (induction xs rule: search_two_zeros.induct) (auto split: if_splits)

function find_emulation :: "u8 list \<Rightarrow> u8 list option" where
  "find_emulation xs =
     (case search_two_zeros xs of
        None \<Rightarrow> None
      | Some ys \<Rightarrow> if ys \<noteq> [] \<and> hd ys \<le> 3 then Some ys else find_emulation ys)"
  by pat_completeness auto
termination
  by (relation "measure length") (auto dest: search_two_zeros_length)

declare find_emulation.simps [simp del]

lemma find_emulation_length: "find_emulation xs = Some ys \<Longrightarrow> length ys < length xs"
proof (induction xs rule: find_emulation.induct)
  case (1 xs)
  then show ?case
    by (subst (asm) (2) find_emulation.simps)
      (auto split: option.splits if_splits dest: search_two_zeros_length less_trans)
qed

function count_emulations :: "u8 list \<Rightarrow> nat" where
  "count_emulations xs =
     (case find_emulation xs of None \<Rightarrow> 0 | Some ys \<Rightarrow> Suc (count_emulations ys))"
  by pat_completeness auto
termination
  by (relation "measure length") (auto dest: find_emulation_length)

declare count_emulations.simps [simp del]

definition countStartCodeEmulations :: "OutputBitstream \<Rightarrow> nat" where
  "countStartCodeEmulations s = count_emulations (out_fifo s)"

section \<open>Bit-list behaviour of the derived operations\<close>

lemma writeAlignZero_ok:
  assumes inv: "out_inv s"
  shows "out_inv (writeAlignZero s) \<and> out_bits (writeAlignZero s) =
           out_bits s @ replicate (out_getNumBitsUntilByteAligned s) False"
proof (cases "out_num_held_bits s = 0")
  case True
  then show ?thesis using inv
    by (simp add: writeAlignZero_def out_getNumBitsUntilByteAligned_def)
next
  case False
  let ?h = "out_num_held_bits s" and ?b = "out_held_bits s"
  have h: "?h < 8" and low: "\<And>i. i < 8 - ?h \<Longrightarrow> \<not> bit ?b i"
    using inv by (auto simp: out_inv_def)
  have "bits_of 8 ?b = bits_of ?h (drop_bit (8 - ?h) ?b) @ bits_of (8 - ?h) ?b"
    using bits_of_split [of "8 - ?h" 8 ?b] h by simp
  also have "bits_of (8 - ?h) ?b = replicate (8 - ?h) False"
    using low by (auto simp: bits_of_def intro!: nth_equalityI simp: rev_nth)
  finally have "bits_of 8 ?b = take ?h (bits_of 8 ?b) @ replicate (8 - ?h) False"
    using h by (simp add: take_bits_of)
  then have "out_bits (writeAlignZero s) = out_bits s @ replicate (8 - ?h) False"
    using False by (simp add: writeAlignZero_def out_bits_def)
  moreover have "out_inv (writeAlignZero s)"
    using False by (simp add: writeAlignZero_def out_inv_def)
  ultimately show ?thesis
    using False h by (simp add: out_getNumBitsUntilByteAligned_def)
qed

lemma write_bytes_ok:
  "out_inv s \<Longrightarrow> \<exists>s'. write_bytes bs s = Inr s' \<and> out_inv s' \<and> out_bits s' = out_bits s @ bytes_bits bs"
proof (induction bs arbitrary: s)
  case Nil
  then show ?case by simp
next
  case (Cons b bs)
  have "unat (ucast b :: u32) < 2 ^ 8"
    using unat_u8_lt [of b] by simp
  then obtain s1 where s1: "out_write (ucast b) 8 s = Inr s1" "out_inv s1"
    "out_bits s1 = out_bits s @ bits_of 8 (ucast b :: u32)"
    using out_write_ok [OF Cons.prems, of 8 "ucast b"] by auto
  then show ?case
    using Cons.IH [of s1] by (simp add: bits_of_ucast)
qed

lemma held_bits_of:
  assumes "h < 8"
  shows "bits_of h (ucast (drop_bit (8 - h) (b::u8)) :: u32) = take h (bits_of 8 b)"
    and "unat (ucast (drop_bit (8 - h) b) :: u32) < 2 ^ h"
proof -
  show "bits_of h (ucast (drop_bit (8 - h) b) :: u32) = take h (bits_of 8 b)"
    using assms by (simp add: take_bits_of bits_of_ucast)
  show "unat (ucast (drop_bit (8 - h) b) :: u32) < 2 ^ h"
    unfolding word_bounded_iff
  proof (intro allI impI)
    fix i assume "h \<le> i"
    then show "\<not> bit (ucast (drop_bit (8 - h) b) :: u32) i"
      using assms byte_bit_high [of "8 - h + i" b] by (auto simp: bit_simps)
  qed
qed

text \<open>\<open>addSubstream\<close> appends all bits of the substream, held ones included.\<close>

lemma addSubstream_ok:
  assumes inv: "out_inv s" and sub: "out_inv t"
  shows "\<exists>s'. addSubstream t s = Inr s' \<and> out_inv s' \<and> out_bits s' = out_bits s @ out_bits t"
proof -
  let ?h = "out_num_held_bits t"
  have h: "?h < 8" "getNumberOfWrittenBits t mod 8 = ?h"
    using sub by (auto simp: out_inv_def getNumberOfWrittenBits_def)
  obtain s1 where s1: "write_bytes (out_fifo t) s = Inr s1" "out_inv s1"
    "out_bits s1 = out_bits s @ bytes_bits (out_fifo t)"
    using write_bytes_ok [OF inv] by blast
  show ?thesis
    using out_write_ok [OF s1(2) _ held_bits_of(2) [OF h(1), of "out_held_bits t"]] s1 h
    by (auto simp: addSubstream_def Let_def out_bits_def held_bits_of(1))
qed

text \<open>\<open>pseudoRead\<close> shows the next bits, padded with zeros behind the end, and takes nothing.\<close>

lemma pseudoRead_ok:
  assumes inv: "in_inv s" and n: "n \<le> 32"
  shows "\<exists>v s'. pseudoRead n s = Inr (v, s') \<and> in_inv s' \<and> in_bits s' = in_bits s
           \<and> bits_of n v = take n (in_bits s @ replicate n False) \<and> unat v < 2 ^ n"
proof -
  define k where "k = min n (length (in_bits s))"
  then have kn: "k \<le> n" "k \<le> length (in_bits s)" by simp_all
  have k: "k = min n (getNumBitsLeft s)" using length_in_bits [OF inv] by (simp add: k_def)
  obtain v s' where r: "in_read k s = Inr (v, s')" "unat v < 2 ^ k" "in_fifo s' = in_fifo s"
    and split: "in_bits s = bits_of k v @ in_bits s'"
    using in_read_ok [OF inv, of k] n kn by auto
  let ?w = "push_bit (n - k) v"
  let ?s = "s'\<lparr>in_fifo_idx := in_fifo_idx s, in_held_bits := in_held_bits s,
              in_num_held_bits := in_num_held_bits s\<rparr>"
  have "pseudoRead n s = Inr (?w, ?s)"
    using r by (simp add: pseudoRead_def Let_def flip: k)
  moreover have "in_inv ?s" "in_bits ?s = in_bits s"
    using inv r by (simp_all add: in_inv_def in_bits_def)
  moreover have "bits_of n ?w = take n (in_bits s @ replicate n False)"
  proof -
    have "bits_of n ?w = bits_of k (drop_bit (n - k) ?w) @ bits_of (n - k) ?w"
      using bits_of_split [of "n - k" n ?w] kn by simp
    also have "bits_of k (drop_bit (n - k) ?w) = bits_of k v"
      by (rule bits_of_cong) (use n kn in \<open>auto simp: bit_simps\<close>)
    also have "bits_of (n - k) ?w = replicate (n - k) False"
      by (auto simp: bits_of_def bit_simps intro!: nth_equalityI simp: rev_nth)
    also have "bits_of k v = take k (in_bits s)"
      by (simp add: split)
    finally show ?thesis by (auto simp: k_def min_def)
  qed
  moreover have "unat ?w < 2 ^ n"
    unfolding word_bounded_iff
  proof (intro allI impI)
    fix i assume "n \<le> i"
    then have "k \<le> i - (n - k)" using kn by simp
    then show "\<not> bit ?w i"
      using word_bounded_bit [OF r(2)] by (auto simp: bit_simps)
  qed
  ultimately show ?thesis by blast
qed

text \<open>\<open>readOutTrailingBits\<close> drops the bits up to the next byte boundary and counts them.\<close>

lemma trailing_loop_ok:
  "in_inv s \<Longrightarrow> \<exists>s'. trailing_loop c s = Inr (c + length (in_bits s) mod 8, s') \<and> in_inv s'
     \<and> in_bits s' = drop (length (in_bits s) mod 8) (in_bits s)"
proof (induction "in_num_held_bits s" arbitrary: s c)
  case 0
  then have "length (in_bits s) mod 8 = 0"
    by (simp add: length_in_bits getNumBitsLeft_def)
  then show ?case
    using 0 by (subst trailing_loop.simps)
      (simp add: in_aligned_iff)
next
  case (Suc k)
  have k: "Suc k < 8" using Suc.hyps Suc.prems by (simp add: in_inv_def)
  then have m: "length (in_bits s) mod 8 = Suc k"
    using Suc.hyps(2) [symmetric] Suc.prems by (simp add: length_in_bits getNumBitsLeft_def)
  have "1 \<le> length (in_bits s)" using m by (cases "in_bits s") auto
  then obtain v s1 where r: "in_read 1 s = Inr (v, s1)" "in_inv s1"
    "in_bits s = bits_of 1 v @ in_bits s1"
    using in_read_ok [OF Suc.prems, of 1] by auto
  have "k = in_num_held_bits s1"
    using in_read_held [of s v s1] r(1) Suc.hyps(2) by simp
  from Suc.hyps(1) [OF this r(2), of "c + 1"] obtain s2
    where s2: "trailing_loop (c + 1) s1 = Inr (c + 1 + length (in_bits s1) mod 8, s2)"
      "in_inv s2" "in_bits s2 = drop (length (in_bits s1) mod 8) (in_bits s1)" by blast
  have m1: "length (in_bits s1) mod 8 = k"
    using m r(3) k by (simp add: mod_Suc split: if_splits)
  have "trailing_loop c s = trailing_loop (c + 1) s1"
    using r m Suc.prems
    by (subst trailing_loop.simps) (simp add: in_aligned_iff length_in_bits [symmetric])
  then show ?case using s2 m m1 r(3) by simp
qed

lemma readOutTrailingBits_ok:
  "in_inv s \<Longrightarrow> \<exists>s'. readOutTrailingBits s = Inr (length (in_bits s) mod 8, s') \<and> in_inv s'
     \<and> in_bits s' = drop (length (in_bits s) mod 8) (in_bits s)"
  using trailing_loop_ok [of s 0] by (simp add: readOutTrailingBits_def)

lemma read_bytes_ok:
  "in_inv s \<Longrightarrow> 8 * n \<le> length (in_bits s) \<Longrightarrow>
     \<exists>bs s'. read_bytes n s = Inr (bs, s') \<and> in_inv s' \<and> length bs = n
       \<and> in_bits s = bytes_bits bs @ in_bits s'"
proof (induction n arbitrary: s)
  case 0
  then show ?case by simp
next
  case (Suc n)
  obtain v s1 where r: "in_read 8 s = Inr (v, s1)" "in_inv s1" "in_bits s = bits_of 8 v @ in_bits s1"
    using in_read_ok [OF Suc.prems(1), of 8] Suc.prems(2) by auto
  moreover have "8 * n \<le> length (in_bits s1)" using r Suc.prems(2) by simp
  ultimately show ?case
    using Suc.IH [of s1] by (fastforce simp: bits_of_ucast)
qed

lemma bits_of_push_pad:
  assumes "m < 8" and "unat (v::u32) < 2 ^ m"
  shows "bits_of 8 (ucast (push_bit (8 - m) v) :: u8) = bits_of m v @ replicate (8 - m) False"
proof -
  let ?w = "ucast (push_bit (8 - m) v) :: u8"
  have "bits_of 8 ?w = bits_of m (drop_bit (8 - m) ?w) @ bits_of (8 - m) ?w"
    using bits_of_split [of "8 - m" 8 ?w] assms(1) by simp
  also have "bits_of m (drop_bit (8 - m) ?w) = bits_of m v"
    by (rule bits_of_cong) (use assms(1) in \<open>auto simp: bit_simps\<close>)
  also have "bits_of (8 - m) ?w = replicate (8 - m) False"
    by (auto simp: bits_of_def bit_simps intro!: nth_equalityI simp: rev_nth)
  finally show ?thesis .
qed

lemma extract_tail_ok:
  assumes inv: "in_inv s" and m: "m < 8" "m \<noteq> 0" and avail: "m \<le> length (in_bits s)"
  shows "\<exists>v s'. in_read m s = Inr (v, s') \<and> in_inv s' \<and> in_bits s' = drop m (in_bits s)
    \<and> bits_of 8 (ucast (push_bit (8 - m) v) :: u8) = take m (in_bits s) @ replicate (8 - m) False"
proof -
  obtain v s' where r: "in_read m s = Inr (v, s')" "in_inv s'" "unat v < 2 ^ m"
    "in_bits s = bits_of m v @ in_bits s'"
    using in_read_ok [OF inv, of m] m avail by auto
  then show ?thesis using bits_of_push_pad [OF m(1) r(3)] by simp
qed

text \<open>
  \<open>extractSubstream\<close> moves the requested bits to a stream of their own, padded with zeros to a
  whole number of bytes.
\<close>

lemma extractSubstream_ok:
  assumes inv: "in_inv s" and avail: "n \<le> length (in_bits s)"
  shows "\<exists>t s'. extractSubstream n s = Inr (t, s') \<and> in_inv s' \<and> in_bits s' = drop n (in_bits s)
           \<and> in_inv t \<and> in_bits t = take n (in_bits s) @ replicate ((8 - n mod 8) mod 8) False"
proof -
  let ?q = "n div 8" and ?m = "n mod 8"
  define first where "first = (if in_num_held_bits s = 0
     then let k = min ?q (length (in_fifo s) - in_fifo_idx s)
          in Inr (take k (drop (in_fifo_idx s) (in_fifo s)) @ replicate (?q - k) 0,
                  s\<lparr>in_fifo_idx := in_fifo_idx s + k\<rparr>)
     else read_bytes ?q s)"
  have q: "8 * ?q \<le> length (in_bits s)" using avail by (simp add: order_trans [OF _ avail])
  have "\<exists>bs s1. first = Inr (bs, s1) \<and> in_inv s1 \<and> in_bits s = bytes_bits bs @ in_bits s1 \<and> length bs = ?q"
  proof (cases "in_num_held_bits s = 0")
    case True
    then have "?q \<le> length (in_fifo s) - in_fifo_idx s"
      using q by (simp add: length_in_bits [OF inv] getNumBitsLeft_def)
    then show ?thesis using True inv
      by (auto simp: first_def Let_def min_def in_inv_def in_bits_def bytes_bits_take_drop)
  next
    case False
    then show ?thesis using read_bytes_ok [OF inv q] by (auto simp: first_def)
  qed
  then obtain bs s1 where f: "first = Inr (bs, s1)" "in_inv s1"
    "in_bits s = bytes_bits bs @ in_bits s1" "length bs = ?q" by blast
  have eq: "n = 8 * ?q + ?m" by simp
  have run: "extractSubstream n s = bindE first (\<lambda>(buf, s).
      if ?m \<noteq> 0 then bindE (in_read ?m s) (\<lambda>(uiByte, s).
           Inr (new_in (buf @ [ucast (push_bit (8 - ?m) uiByte)]), s))
      else Inr (new_in buf, s))"
    by (simp add: extractSubstream_def first_def Let_def)
  have tk: "take n (in_bits s) = bytes_bits bs @ take ?m (in_bits s1)"
    and dr: "drop n (in_bits s) = drop ?m (in_bits s1)"
    using f(4) by (auto simp: f(3) minus_mult_div_eq_mod)
  show ?thesis
  proof (cases "?m = 0")
    case True
    then show ?thesis using f tk dr by (simp add: run)
  next
    case False
    have "length (in_bits s) = 8 * ?q + length (in_bits s1)" using f by simp
    then have "?m \<le> length (in_bits s1)" using avail eq by linarith
    then obtain v s' where r: "in_read ?m s1 = Inr (v, s')" "in_inv s'"
      "in_bits s' = drop ?m (in_bits s1)"
      "bits_of 8 (ucast (push_bit (8 - ?m) v) :: u8) = take ?m (in_bits s1) @ replicate (8 - ?m) False"
      using extract_tail_ok [OF f(2) _ False] by auto
    then show ?thesis using f tk dr False by (simp add: run)
  qed
qed

text \<open>A byte-alignment pattern is written and read back symmetrically.\<close>

lemma writeByteAlignment_ok:
  assumes inv: "out_inv s"
  shows "\<exists>s'. writeByteAlignment s = Inr s' \<and> out_inv s' \<and> length (out_bits s') mod 8 = 0
           \<and> out_bits s' = out_bits s @ True # replicate (7 - length (out_bits s) mod 8) False"
proof -
  obtain s1 where s1: "out_write 1 1 s = Inr s1" "out_inv s1" "out_bits s1 = out_bits s @ bits_of 1 (1::u32)"
    using out_write_ok [OF inv, of 1 1] by auto
  have b: "bits_of (Suc 0) (1::u32) = [True]" by simp
  have "out_getNumBitsUntilByteAligned s1 = 7 - length (out_bits s) mod 8"
    using s1 by (simp add: out_aligned_iff b mod_Suc)
  moreover have "(length (out_bits s) + 1 + (7 - length (out_bits s) mod 8)) mod 8 = 0"
    by presburger
  ultimately show ?thesis
    using writeAlignZero_ok [OF s1(2)] s1 by (simp add: writeByteAlignment_def b)
qed

lemma bits_of_1_eq: "unat (v::u32) < 2 \<Longrightarrow> bits_of 1 v = [b] \<longleftrightarrow> v = of_bool b"
  using bits_of_inject [of 1 v "of_bool b"] by (auto simp: bits_of_Suc)

lemma zero_word_bits: "bits_of n (v::u32) = replicate n False \<Longrightarrow> unat v < 2 ^ n \<Longrightarrow> v = 0"
  by (rule bits_of_inject [of n]) auto

lemma readByteAlignment_ok:
  assumes inv: "in_inv s" and bits: "in_bits s = True # replicate k False @ rest" and k: "k < 8"
    and al: "length rest mod 8 = 0"
  shows "\<exists>s'. readByteAlignment s = Inr (k + 1, s') \<and> in_inv s' \<and> in_bits s' = rest"
proof -
  obtain v s1 where r: "in_read 1 s = Inr (v, s1)" "in_inv s1" "unat v < 2 ^ 1"
    "in_bits s = bits_of 1 v @ in_bits s1"
    using in_read_ok [OF inv, of 1] bits by auto
  then have v: "v = 1" and b1: "in_bits s1 = replicate k False @ rest"
    using bits bits_of_1_eq [of v True] by (auto simp: bits_of_Suc)
  have al1: "in_getNumBitsUntilByteAligned s1 = k"
    using k al by (simp add: in_aligned_iff [OF r(2)] b1 mod_add_eq [symmetric])
  show ?thesis
  proof (cases "k = 0")
    case True
    then show ?thesis using r v b1 al1 by (simp add: readByteAlignment_def Let_def)
  next
    case False
    obtain w s2 where w: "in_read k s1 = Inr (w, s2)" "in_inv s2" "unat w < 2 ^ k"
      "in_bits s1 = bits_of k w @ in_bits s2"
      using in_read_ok [OF r(2), of k] k b1 by auto
    then have "bits_of k w = replicate k False" "in_bits s2 = rest"
      using b1 by (auto simp: append_eq_append_conv)
    moreover from this have "w = 0" using zero_word_bits w(3) by blast
    moreover have "k \<le> getNumBitsLeft s1"
      using b1 by (simp add: length_in_bits [OF r(2), symmetric])
    ultimately show ?thesis using r v w al1 False
      by (simp add: readByteAlignment_def Let_def)
  qed
qed

end
