(* ===== verification/Codec.thy ===== *)
theory Codec
  imports BitStream
begin

text \<open>
  Writers and readers that agree. The syntax layers of the program come in pairs: a routine that
  writes a syntax structure to an \<open>OutputBitstream\<close> and one that parses it from an
  \<open>InputBitstream\<close>. \<open>codes w p v\<close> says that, whatever precedes it, the writer \<open>w\<close> succeeds and
  what it appends is read by the parser \<open>p\<close> as \<open>v\<close>, leaving what follows. The relation is closed
  under the ways the code composes routines, so a round trip of a long structure is proved by
  following its text. The locale \<open>codec\<close> is the contract of such a pair.
\<close>

section \<open>Sequencing of writers and of parsers\<close>

text \<open>
  The combinators do not depend on what is written to or read from: a bit stream here, an arithmetic
  coder in the layer above.
\<close>

type_synonym 's step = "'s \<Rightarrow> 's result"
type_synonym ('s, 'a) reader = "'s \<Rightarrow> ('a \<times> 's) result"
type_synonym writer = "OutputBitstream step"

definition skipW :: "'s step" where
  "skipW s = Inr s"

definition thenW :: "'s step \<Rightarrow> 's step \<Rightarrow> 's step" where
  "thenW v w s = bindE (v s) w"

fun seqW :: "'s step list \<Rightarrow> 's step" where
  "seqW [] = skipW"
| "seqW (w # ws) = thenW w (seqW ws)"

definition checkW :: "bool \<Rightarrow> string \<Rightarrow> 's step" where
  "checkW c msg s = checkE c msg (Inr s)"

definition bindP :: "('s, 'a) reader \<Rightarrow> ('a \<Rightarrow> ('s, 'b) reader) \<Rightarrow> ('s, 'b) reader" where
  "bindP p q s = bindE (p s) (\<lambda>(a, s'). q a s')"

definition returnP :: "'a \<Rightarrow> ('s, 'a) reader" where
  "returnP a s = Inr (a, s)"

definition checkP :: "bool \<Rightarrow> string \<Rightarrow> ('s, 'a) reader \<Rightarrow> ('s, 'a) reader" where
  "checkP c msg p s = checkE c msg (p s)"

fun replicateP :: "nat \<Rightarrow> ('s, 'a) reader \<Rightarrow> ('s, 'a list) reader" where
  "replicateP 0 p = returnP []"
| "replicateP (Suc n) p = bindP p (\<lambda>x. bindP (replicateP n p) (\<lambda>xs. returnP (x # xs)))"

text \<open>Parsers run one after the other, with the list of what they read.\<close>

fun seqP :: "('s, 'a) reader list \<Rightarrow> ('s, 'a list) reader" where
  "seqP [] = returnP []"
| "seqP (p # ps) = bindP p (\<lambda>x. bindP (seqP ps) (\<lambda>xs. returnP (x # xs)))"

text \<open>A loop over a list of indices that carries a value from turn to turn.\<close>

fun foldP :: "('i \<Rightarrow> 'a \<Rightarrow> ('s, 'a) reader) \<Rightarrow> 'i list \<Rightarrow> 'a \<Rightarrow> ('s, 'a) reader" where
  "foldP f [] a = returnP a"
| "foldP f (i # is) a = bindP (f i a) (foldP f is)"

lemma thenW_skip [simp]: "thenW w skipW = w" "thenW skipW w = w"
proof -
  have skip: "skipW = Inr" by (simp add: skipW_def fun_eq_iff)
  show "thenW w skipW = w" "thenW skipW w = w"
    unfolding skip by (simp_all add: thenW_def fun_eq_iff)
qed

lemma thenW_assoc: "thenW (thenW u v) w = thenW u (thenW v w)"
  by (auto simp: thenW_def fun_eq_iff bindE_assoc intro!: arg_cong [where f = "bindE _"])

lemma seqW_append: "seqW (xs @ ys) = thenW (seqW xs) (seqW ys)"
  by (induction xs) (simp_all add: thenW_assoc)

lemma bindP_assoc: "bindP (bindP p q) r = bindP p (\<lambda>a. bindP (q a) r)"
  by (auto simp: bindP_def fun_eq_iff bindE_assoc intro!: arg_cong [where f = "bindE _"])

lemma bindP_return [simp]: "bindP (returnP a) q = q a"
  by (simp add: bindP_def returnP_def fun_eq_iff)

lemma bindP_Inr_iff:
  "bindP p q s = Inr (b, s'') \<longleftrightarrow> (\<exists>a s'. p s = Inr (a, s') \<and> q a s' = Inr (b, s''))"
  by (auto simp: bindP_def bindE_Inr_iff)

section \<open>The agreement of a writer and a parser\<close>

definition emits :: "nat \<Rightarrow> writer \<Rightarrow> bool list \<Rightarrow> bool" where
  "emits a w bs \<longleftrightarrow> (\<forall>s. out_inv s \<and> length (out_bits s) mod 8 = a \<longrightarrow>
     (\<exists>s'. w s = Inr s' \<and> out_inv s' \<and> out_bits s' = out_bits s @ bs))"

definition parses :: "nat \<Rightarrow> 'a parser \<Rightarrow> bool list \<Rightarrow> 'a \<Rightarrow> bool" where
  "parses a p bs v \<longleftrightarrow> (\<forall>s rest. in_inv s \<and> in_bits s = bs @ rest
       \<and> 8 dvd a + (length bs + length rest) \<longrightarrow>
     (\<exists>s'. p s = Inr (v, s') \<and> in_inv s' \<and> in_bits s' = rest))"

definition codes :: "writer \<Rightarrow> 'a parser \<Rightarrow> 'a \<Rightarrow> bool" where
  "codes w p v \<longleftrightarrow> (\<forall>a<8. \<exists>bs. emits a w bs \<and> parses a p bs v)"

lemma codesI:
  assumes "\<And>a. a < 8 \<Longrightarrow> emits a w (bs a)" and "\<And>a. a < 8 \<Longrightarrow> parses a p (bs a) v"
  shows "codes w p v"
  using assms by (auto simp: codes_def)

lemma emitsE:
  assumes "emits (length (out_bits s) mod 8) w bs" and "out_inv s"
  obtains s' where "w s = Inr s'" "out_inv s'" "out_bits s' = out_bits s @ bs"
  using assms by (auto simp: emits_def)

lemma parsesE:
  assumes "parses a p bs v" and "in_inv s" and "in_bits s = bs @ rest"
    and "8 dvd a + length (in_bits s)"
  obtains s' where "p s = Inr (v, s')" "in_inv s'" "in_bits s' = rest"
  using assms by (auto simp: parses_def)

lemma emits_bind:
  assumes "emits a w bs" and "emits ((a + length bs) mod 8) (seqW ws) cs"
  shows "emits a (seqW (w # ws)) (bs @ cs)"
  unfolding emits_def
proof (intro allI impI)
  fix s assume s: "out_inv s \<and> length (out_bits s) mod 8 = a"
  then obtain s1 where s1: "w s = Inr s1" "out_inv s1" "out_bits s1 = out_bits s @ bs"
    using assms(1) by (auto simp: emits_def)
  have "length (out_bits s1) mod 8 = (a + length bs) mod 8"
    using s s1 by (auto simp: mod_add_left_eq)
  then show "\<exists>s'. seqW (w # ws) s = Inr s' \<and> out_inv s' \<and> out_bits s' = out_bits s @ bs @ cs"
    using assms(2) s1 by (auto simp: emits_def thenW_def)
qed

lemma parses_bind:
  assumes "parses a p bs x" and "parses ((a + length bs) mod 8) (q x) cs v"
  shows "parses a (bindP p q) (bs @ cs) v"
  unfolding parses_def
proof (intro allI impI)
  fix s rest
  assume s: "in_inv s \<and> in_bits s = (bs @ cs) @ rest
      \<and> 8 dvd a + (length (bs @ cs) + length rest)"
  then obtain s1 where s1: "p s = Inr (x, s1)" "in_inv s1" "in_bits s1 = cs @ rest"
    using assms(1) [unfolded parses_def, rule_format, of s "cs @ rest"] by (auto simp: add.assoc)
  have "8 dvd (a + length bs) mod 8 + (length cs + length rest)"
    using s by (simp add: dvd_eq_mod_eq_0 mod_add_left_eq add.assoc)
  then show "\<exists>s'. bindP p q s = Inr (v, s') \<and> in_inv s' \<and> in_bits s' = rest"
    using assms(2) s1 by (auto simp: parses_def bindP_def)
qed

lemma codes_bind:
  assumes "codes w p x" and "codes (seqW ws) (q x) v"
  shows "codes (seqW (w # ws)) (bindP p q) v"
  unfolding codes_def
proof (intro allI impI)
  fix a :: nat assume "a < 8"
  then obtain bs where bs: "emits a w bs" "parses a p bs x"
    using assms(1) by (auto simp: codes_def)
  have "(a + length bs) mod 8 < 8" by simp
  from assms(2) [unfolded codes_def, rule_format, OF this] obtain cs
    where cs: "emits ((a + length bs) mod 8) (seqW ws) cs"
      "parses ((a + length bs) mod 8) (q x) cs v"
    by blast
  show "\<exists>bs. emits a (seqW (w # ws)) bs \<and> parses a (bindP p q) bs v"
    using emits_bind [OF bs(1) cs(1)] parses_bind [where q = q, OF bs(2) cs(2)] by blast
qed

lemma codes_return: "codes (seqW []) (returnP v) v"
  by (rule codesI [where bs = "\<lambda>_. []"]) (auto simp: emits_def parses_def returnP_def skipW_def)

lemma codes_skip: "codes skipW (returnP v) v"
  by (rule codesI [where bs = "\<lambda>_. []"]) (auto simp: emits_def parses_def returnP_def skipW_def)

lemma codes_checkP: "\<not> c \<Longrightarrow> codes w p v \<Longrightarrow> codes w (checkP c msg p) v"
  by (simp add: codes_def parses_def checkP_def)

lemma codes_checkW: "\<not> c \<Longrightarrow> codes (seqW ws) p v \<Longrightarrow> codes (seqW (checkW c msg # ws)) p v"
  by (simp add: codes_def emits_def checkW_def thenW_def)

text \<open>An optional part: the parser keeps a default when the part is absent.\<close>

lemma codes_opt:
  "(c \<Longrightarrow> codes w p x) \<Longrightarrow> codes (if c then w else skipW) (if c then p else returnP d) (if c then x else d)"
  by (simp add: codes_skip)

lemma codes_if:
  "(c \<Longrightarrow> codes w p x) \<Longrightarrow> (\<not> c \<Longrightarrow> codes w' p' x) \<Longrightarrow>
     codes (if c then w else w') (if c then p else p') x"
  by simp

lemma codes_alt:
  "(c \<Longrightarrow> codes w p x) \<Longrightarrow> (\<not> c \<Longrightarrow> codes w' p' x') \<Longrightarrow>
     codes (if c then w else w') (if c then p else p') (if c then x else x')"
  by simp

lemma codes_value: "codes w p v \<Longrightarrow> v = v' \<Longrightarrow> codes w p v'"
  by simp

lemma codes_skip_seq: "codes (seqW ws) p v \<Longrightarrow> codes (seqW (skipW # ws)) p v"
  by simp

lemma codes_seq1: "codes w p v \<Longrightarrow> codes (seqW [w]) p v"
  by simp

lemma codes_bind_return:
  assumes "codes w p x"
  shows "codes w (bindP p (\<lambda>a. returnP (f a))) (f x)"
proof -
  have "codes (seqW [w]) (bindP p (\<lambda>a. returnP (f a))) (f x)"
    by (rule codes_bind [OF assms codes_return])
  then show ?thesis by simp
qed

lemma codes_append:
  assumes "codes (seqW ws) p x" and "codes (seqW vs) (q x) v"
  shows "codes (seqW (ws @ vs)) (bindP p q) v"
proof -
  have "codes (seqW (seqW ws # vs)) (bindP p q) v"
    by (rule codes_bind) (fact assms)+
  then show ?thesis by (simp add: seqW_append)
qed

text \<open>Loops: a fixed number of items, and an indexed loop with a carried value.\<close>

lemma codes_list:
  "(\<And>x. x \<in> set xs \<Longrightarrow> codes (f x) p x) \<Longrightarrow>
     codes (seqW (map f xs)) (replicateP (length xs) p) xs"
proof (induction xs)
  case Nil
  show ?case using codes_return by simp
next
  case (Cons x xs)
  have "codes (seqW (map f xs)) (bindP (replicateP (length xs) p) (\<lambda>ys. returnP (x # ys))) (x # xs)"
    by (rule codes_bind_return [where f = "(#) x"], rule Cons.IH) (simp add: Cons.prems)
  then show ?case
    using codes_bind [where ws = "map f xs", OF Cons.prems [of x]] by simp
qed

lemma codes_seqP:
  "(\<And>x. x \<in> set xs \<Longrightarrow> codes (w x) (p x) (v x)) \<Longrightarrow>
     codes (seqW (map w xs)) (seqP (map p xs)) (map v xs)"
proof (induction xs)
  case Nil
  show ?case using codes_return by simp
next
  case (Cons x xs)
  have "codes (seqW (map w xs)) (bindP (seqP (map p xs)) (\<lambda>ys. returnP (v x # ys))) (map v (x # xs))"
    using codes_bind_return [where f = "(#) (v x)", OF Cons.IH] Cons.prems by simp
  then show ?case
    using codes_bind [where ws = "map w xs", OF Cons.prems [of x]] by simp
qed

lemma codes_fold:
  assumes "\<And>k. k < length is \<Longrightarrow> codes (w (is ! k)) (f (is ! k) (st k)) (st (Suc k))"
  shows "codes (seqW (map w is)) (foldP f is (st 0)) (st (length is))"
  using assms
proof (induction "is" arbitrary: st)
  case Nil
  show ?case using codes_return by simp
next
  case (Cons i js)
  have "codes (seqW (map w js)) (foldP f js (st (Suc 0))) (st (length (i # js)))"
    using Cons.IH [of "\<lambda>k. st (Suc k)"] Cons.prems [of "Suc _"] by fastforce
  moreover have "codes (w i) (f i (st 0)) (st (Suc 0))"
    using Cons.prems [of 0] by simp
  ultimately show ?case
    using codes_bind [where ws = "map w js" and q = "foldP f js"] by simp
qed

text \<open>
  The rules that follow the text of a routine, in the order in which they are to be tried: a check
  before a call, an optional part before a choice.
\<close>

lemmas codes_struct = codes_checkW codes_checkP codes_return codes_skip codes_opt codes_alt codes_bind

section \<open>Consequences of agreement\<close>

lemma parses_in_front:
  "parses a p bs v \<Longrightarrow> in_inv s \<Longrightarrow> in_bits s = bs @ rest \<Longrightarrow>
     8 dvd a + length (in_bits s) \<Longrightarrow> \<exists>s'. p s = Inr (v, s')"
  by (metis parsesE)

text \<open>Writing to a fresh stream, flushing it and parsing the bytes gives the value back.\<close>

lemma codes_roundtrip:
  assumes "codes w p v"
  shows "\<exists>s i. w new_out = Inr s \<and> p (new_in (out_fifo (writeAlignZero s))) = Inr (v, i)"
proof -
  obtain bs where e: "emits 0 w bs" and p: "parses 0 p bs v"
    using assms unfolding codes_def by (meson zero_less_numeral)
  obtain s where s: "w new_out = Inr s" "out_inv s" "out_bits s = bs"
    using e by (auto simp: emits_def dest: spec [of _ new_out])
  let ?t = "writeAlignZero s"
  have t: "out_inv ?t" "out_bits ?t = bs @ replicate (out_getNumBitsUntilByteAligned s) False"
    using writeAlignZero_ok [OF s(2)] s(3) by auto
  have "out_num_held_bits ?t = 0" by (simp add: writeAlignZero_def)
  then have "bytes_bits (out_fifo ?t) = bs @ replicate (out_getNumBitsUntilByteAligned s) False"
    using t(2) by (simp add: out_bits_def)
  then have "\<exists>i. p (new_in (out_fifo ?t)) = Inr (v, i)"
    by (intro parses_in_front [OF p]) (simp_all add: out_aligned_iff [OF s(2)] s(3) pad_to_8)
  then show ?thesis using s by blast
qed

text \<open>What is written determines what was meant: no written form is a prefix of another.\<close>

lemma codes_unique:
  assumes "codes w p v" and "codes w' p v'" and s: "out_inv s"
    and "w s = Inr s1" and "w' s = Inr s2"
    and pre: "out_bits s1 @ r1 = out_bits s2 @ r2"
  shows "v = v'"
proof -
  let ?a = "length (out_bits s) mod 8"
  have a: "?a < 8" by simp
  from assms(1) [unfolded codes_def, rule_format, OF a] obtain bs
    where e1: "emits ?a w bs" "parses ?a p bs v" by blast
  from assms(2) [unfolded codes_def, rule_format, OF a] obtain bs'
    where e2: "emits ?a w' bs'" "parses ?a p bs' v'" by blast
  have b: "out_bits s1 = out_bits s @ bs" "out_bits s2 = out_bits s @ bs'"
    using emitsE [OF e1(1) s] emitsE [OF e2(1) s] assms(4,5) by auto
  have eq: "bs @ r1 = bs' @ r2" using pre b by simp
  define pad where "pad = replicate ((8 - (?a + length (bs @ r1)) mod 8) mod 8) False"
  define n where "n = ?a + length (bs @ r1)"
  have "8 dvd n + (8 - n mod 8) mod 8" by (rule pad_to_8)
  then have al: "8 dvd ?a + length ((bs @ r1) @ pad)"
    unfolding pad_def by (simp only: n_def length_append length_replicate add.assoc)
  obtain bytes held h where i: "h < 8" "(bs @ r1) @ pad = bits_of h (held::u8) @ bytes_bits bytes"
    using bits_as_bytes by blast
  let ?i = "\<lparr>in_fifo = bytes, in_emulationPreventionByteLocation = [], in_fifo_idx = 0,
     in_num_held_bits = h, in_held_bits = held, in_numBitsRead = 0\<rparr>"
  have inv: "in_inv ?i" and bits: "in_bits ?i = (bs @ r1) @ pad"
    using i by (simp_all add: in_inv_def in_bits_def)
  have "\<exists>t. p ?i = Inr (v, t)"
    by (rule parses_in_front [OF e1(2) inv, of "r1 @ pad"]) (use al in \<open>simp_all only: bits append_assoc\<close>)
  moreover have "\<exists>t. p ?i = Inr (v', t)"
    by (rule parses_in_front [OF e2(2) inv, of "r2 @ pad"])
      (use al in \<open>simp_all only: bits eq append_assoc [symmetric]\<close>)
  ultimately show ?thesis by auto
qed

section \<open>The contract of a writer/parser pair\<close>

text \<open>
  \<open>enc\<close> writes a value, \<open>dec\<close> parses one, \<open>valid\<close> are the values the syntax can express. A pair that
  keeps the law \<open>sync\<close> gives back what was written, never writes two values alike, and can be
  repeated.
\<close>

locale codec =
  fixes enc :: "'a \<Rightarrow> writer" and dec :: "'a parser" and valid :: "'a \<Rightarrow> bool"
  assumes sync: "valid x \<Longrightarrow> codes (enc x) dec x"
begin

lemma decode_encode:
  "valid x \<Longrightarrow> \<exists>s i. enc x new_out = Inr s \<and> dec (new_in (out_fifo (writeAlignZero s))) = Inr (x, i)"
  by (rule codes_roundtrip [OF sync])

lemma encode_total:
  "valid x \<Longrightarrow> out_inv s \<Longrightarrow> \<exists>s'. enc x s = Inr s' \<and> out_inv s'"
  using sync [of x] unfolding codes_def emits_def
  by (metis mod_less_divisor zero_less_numeral)

lemma encode_inject:
  assumes "valid x" and "valid y" and "out_inv s" and "enc x s = Inr t" and "enc y s = Inr t"
  shows "x = y"
  using codes_unique [OF sync sync, OF assms(1,2,3,4,5), of "[]" "[]"] by simp

lemma encode_prefix_free:
  assumes "valid x" and "valid y" and "out_inv s" and "enc x s = Inr t" and "enc y s = Inr u"
    and "out_bits t @ r = out_bits u"
  shows "x = y"
  using codes_unique [OF sync sync, OF assms(1,2,3,4,5), of r "[]"] assms(6) by simp

lemma sync_list:
  "(\<And>x. x \<in> set xs \<Longrightarrow> valid x) \<Longrightarrow> codes (seqW (map enc xs)) (replicateP (length xs) dec) xs"
  by (rule codes_list) (rule sync)

end

end
