(* ===== verification/VLC.thy ===== *)
theory VLC
  imports Codec
begin

unbundle bit_operations_syntax

text \<open>
  The syntax elements of the high-level syntax: class \<open>VLCWriter\<close> of
  \<open>source/Lib/EncoderLib/VLCWriter.cpp\<close> and class \<open>VLCReader\<close> of
  \<open>source/Lib/DecoderLib/VLCReader.cpp\<close> (fixed-length codes \<open>u(n)\<close>, flags \<open>u(1)\<close>, signed
  codes \<open>i(n)\<close>, Exp-Golomb codes \<open>ue(v)\<close> and \<open>se(v)\<close>, trailing bits), and the two structures made
  of them alone, the access unit delimiter and filler data. Every pair is shown to agree.
\<close>

section \<open>Fixed-length codes and flags\<close>

definition xWriteCode :: "u32 \<Rightarrow> nat \<Rightarrow> writer" where
  "xWriteCode uiCode uiLength s =
     checkE (uiLength = 0) ''Code of length 0 not supported'' (out_write uiCode uiLength s)"

definition xReadCode :: "nat \<Rightarrow> u32 parser" where
  "xReadCode uiLength s =
     checkE (uiLength = 0) ''Reading a code of length 0'' (in_read uiLength s)"

definition xWriteFlag :: "u32 \<Rightarrow> writer" where
  "xWriteFlag uiCode = out_write uiCode 1"

definition xReadFlag :: "u32 parser" where
  "xReadFlag = in_read 1"

text \<open>\<open>READ_FLAG(symbol, ..); x->setY(symbol ? true : false)\<close>\<close>

definition readFlagB :: "bool parser" where
  "readFlagB = bindP xReadFlag (\<lambda>symbol. returnP (symbol \<noteq> 0))"

definition writeFlagB :: "bool \<Rightarrow> writer" where
  "writeFlagB b = xWriteFlag (if b then 1 else 0)"

lemma emits_write:
  "n \<le> 32 \<Longrightarrow> unat v < 2 ^ n \<Longrightarrow> emits a (out_write v n) (bits_of n v)"
  by (auto simp: emits_def intro!: out_write_ok)

lemma parses_read:
  assumes n: "n \<le> 32" and v: "unat v < 2 ^ n"
  shows "parses a (in_read n) (bits_of n v) v"
  unfolding parses_def
proof (intro allI impI)
  fix s rest
  assume "in_inv s \<and> in_bits s = bits_of n v @ rest \<and> 8 dvd a + (length (bits_of n v) + length rest)"
  then obtain w s' where w: "in_read n s = Inr (w, s')" "in_inv s'" "unat w < 2 ^ n"
    "bits_of n v @ rest = bits_of n w @ in_bits s'"
    using in_read_ok [of s n] n by auto
  then have "bits_of n v = bits_of n w" "in_bits s' = rest" by auto
  moreover from this have "v = w" using bits_of_inject v w(3) by blast
  ultimately show "\<exists>s'. in_read n s = Inr (v, s') \<and> in_inv s' \<and> in_bits s' = rest"
    using w by blast
qed

lemma codes_write_read: "n \<le> 32 \<Longrightarrow> unat v < 2 ^ n \<Longrightarrow> codes (out_write v n) (in_read n) v"
  by (rule codesI) (auto intro: emits_write parses_read)

lemma codes_code:
  "0 < n \<Longrightarrow> n \<le> 32 \<Longrightarrow> unat v < 2 ^ n \<Longrightarrow> codes (xWriteCode v n) (xReadCode n) v"
  using codes_write_read [of n v]
  by (simp add: codes_def emits_def parses_def xWriteCode_def xReadCode_def)

lemma codes_code32: "codes (xWriteCode v 32) (xReadCode 32) v"
  using unsigned_less [of v] by (intro codes_code) auto

lemma codes_flag: "unat v < 2 \<Longrightarrow> codes (xWriteFlag v) xReadFlag v"
  using codes_write_read [of 1 v] by (simp add: xWriteFlag_def xReadFlag_def)

lemma codes_flagB: "codes (writeFlagB b) readFlagB b"
proof -
  have "codes (writeFlagB b) (bindP xReadFlag (\<lambda>symbol. returnP (symbol \<noteq> 0)))
          ((if b then 1 else 0 :: u32) \<noteq> 0)"
    unfolding writeFlagB_def by (rule codes_bind_return [OF codes_flag]) simp
  then show ?thesis by (simp add: readFlagB_def split: if_splits)
qed

text \<open>A flag that is written as a constant and checked by the reader.\<close>

lemma codes_flag_0: "codes (xWriteFlag 0) xReadFlag 0"
  and codes_flag_1: "codes (xWriteFlag 1) xReadFlag 1"
  by (simp_all add: codes_flag)

section \<open>Exp-Golomb codes\<close>

lemma unat_drop_1: "unat (drop_bit (Suc 0) (t::u32)) = unat t div 2"
  by (simp add: drop_bit_Suc unat_div)

lemma word_ge_2: "t \<noteq> 0 \<Longrightarrow> t \<noteq> 1 \<Longrightarrow> 2 \<le> unat (t::u32)"
  using unat_0_iff [of t] unat_1 [where 'a = 32] word_unat_eq_iff [of t 1]
  by (simp add: le_eq_less_or_eq numeral_2_eq_2) linarith

text \<open>The loop that counts the bits of \<open>uiTemp\<close>. It is entered with a non-zero value only.\<close>

function uvlc_length :: "u32 \<Rightarrow> nat \<Rightarrow> nat" where
  "uvlc_length uiTemp uiLength =
     (if uiTemp = 1 \<or> uiTemp = 0 then uiLength
      else uvlc_length (drop_bit 1 uiTemp) (uiLength + 2))"
  by pat_completeness auto

termination
  by (relation "measure (\<lambda>(t, l). unat t)") (auto simp: unat_drop_1 unat_gt_0)

declare uvlc_length.simps [simp del]

definition xWriteUvlc :: "u32 \<Rightarrow> writer" where
  "xWriteUvlc uiCode s =
     (let uiCode = uiCode + 1; uiTemp = uiCode in
      checkE (uiTemp = 0) ''Integer overflow'' (
      let uiLength = uvlc_length uiTemp 1 in
      bindE (out_write 0 (drop_bit 1 uiLength) s) (out_write uiCode (drop_bit 1 (uiLength + 1)))))"

text \<open>
  The reader counts zero bits up to the first one. Every turn consumes a bit, so the loop ends at
  the latest with the exception at the end of the data.
\<close>

lemma in_read_left:
  "in_read (Suc 0) s = Inr (v, s') \<Longrightarrow> getNumBitsLeft s' < getNumBitsLeft s"
  by (auto simp: in_read_def Let_def getNumBitsLeft_def checkE_Inr_iff split: if_splits)

function uvlc_prefix :: "nat \<Rightarrow> u32 \<Rightarrow> nat parser" where
  "uvlc_prefix uiLength uiCode s =
     (if uiCode AND 1 = 0
      then bindE (in_read 1 s) (\<lambda>(uiCode, s). uvlc_prefix (uiLength + 1) uiCode s)
      else Inr (uiLength, s))"
  by pat_completeness auto
termination
  by (relation "measure (\<lambda>(l, c, s). getNumBitsLeft s)") (auto dest: in_read_left)

declare uvlc_prefix.simps [simp del]

text \<open>
  \<open>1 << uiLength\<close> is undefined for a prefix of 32 zeros; longer ones are refused by \<open>read\<close>. For a prefix of 31
  the code computes \<open>(1 << 31) - 1\<close> with a signed 1; it is taken to wrap around, as the compilers in use do.
\<close>

definition xReadUvlc :: "u32 parser" where
  "xReadUvlc s =
     bindE (in_read 1 s) (\<lambda>(uiCode, s).
     if uiCode = 0
     then bindE (uvlc_prefix 0 uiCode s) (\<lambda>(uiLength, s).
          bindE (in_read uiLength s) (\<lambda>(uiVal, s).
          if 32 \<le> uiLength then Inl UndefinedBehaviour
          else Inr (uiVal + (push_bit uiLength 1 - 1), s)))
     else Inr (0, s))"

definition xWriteSvlc :: "int \<Rightarrow> writer" where
  "xWriteSvlc iCode =
     xWriteUvlc (if iCode \<le> 0 then push_bit 1 (word_of_int (- iCode))
                 else push_bit 1 (word_of_int iCode) - 1)"

definition xReadSvlc :: "int parser" where
  "xReadSvlc s =
     bindE (in_read 1 s) (\<lambda>(uiBits, s).
     if uiBits = 0
     then bindE (uvlc_prefix 0 uiBits s) (\<lambda>(uiLength, s).
          bindE (in_read uiLength s) (\<lambda>(uiBits, s).
          if 32 \<le> uiLength then Inl UndefinedBehaviour
          else let uiBits = uiBits + push_bit uiLength 1
               in Inr (if uiBits AND 1 \<noteq> 0 then - uint (drop_bit 1 uiBits)
                       else uint (drop_bit 1 uiBits), s)))
     else Inr (0, s))"

lemma uvlc_length_spec:
  assumes "t \<noteq> 0"
  shows "\<exists>m. uvlc_length t l = l + 2 * m \<and> 2 ^ m \<le> unat t \<and> unat t < 2 ^ Suc m"
  using assms
proof (induction t l rule: uvlc_length.induct)
  case (1 t l)
  show ?case
  proof (cases "t = 1")
    case True
    then show ?thesis by (intro exI [of _ 0]) (simp add: uvlc_length.simps)
  next
    case False
    with "1.prems" have t: "2 \<le> unat t"
      by (intro word_ge_2)
    then have "drop_bit 1 t \<noteq> 0"
      using unat_drop_1 [of t] by (auto simp: unat_0_iff [symmetric])
    with "1.IH" False "1.prems" obtain m
      where m: "uvlc_length (drop_bit 1 t) (l + 2) = l + 2 + 2 * m"
        "2 ^ m \<le> unat t div 2" "unat t div 2 < 2 ^ Suc m"
      by (auto simp: unat_drop_1 [folded One_nat_def] simp del: One_nat_def)
    then show ?thesis using False "1.prems"
      by (intro exI [of _ "Suc m"]) (subst uvlc_length.simps, auto)
  qed
qed

text \<open>The written form of \<open>v\<close>: as many zeros as \<open>v + 1\<close> has bits below its leading one, then \<open>v + 1\<close>.\<close>

lemma golomb_bits:
  fixes t :: u32
  assumes "2 ^ m \<le> unat t" and "unat t < 2 ^ Suc m"
  shows "bits_of (Suc m) t = True # bits_of m t" and "m < 32"
    and "take_bit m t + push_bit m 1 = t"
proof -
  show m: "m < 32"
  proof (rule ccontr)
    assume "\<not> m < 32"
    then have "(2::nat) ^ 32 \<le> 2 ^ m" by (intro power_increasing) auto
    also have "\<dots> \<le> unat t" by (fact assms(1))
    finally show False using unat_u32_lt [of t] by simp
  qed
  have "unat t div 2 ^ m = 1" using assms by (auto intro: div_nat_eqI)
  then have "bit (unat t) m" by (simp add: bit_iff_odd)
  then have bm: "bit t m" by (simp add: bit_unsigned_iff)
  then show "bits_of (Suc m) t = True # bits_of m t" by (simp add: bits_of_Suc)
  have "push_bit m 1 + take_bit m t = push_bit m 1 OR take_bit m t"
    by (rule disjunctive_add) (simp add: bit_simps)
  also have "\<dots> = t"
  proof (rule bit_word_eqI)
    fix i assume "i < LENGTH(32)"
    show "bit (push_bit m 1 OR take_bit m t) i = bit t i"
      using bm m word_bounded_bit [OF assms(2), of i]
      by (cases i m rule: linorder_cases) (auto simp: bit_simps)
  qed
  finally show "take_bit m t + push_bit m 1 = t" by (simp add: add.commute)
qed

lemma read_bit:
  assumes "in_inv s" and "in_bits s = b # rest"
  shows "\<exists>s'. in_read 1 s = Inr (of_bool b, s') \<and> in_inv s' \<and> in_bits s' = rest"
proof -
  obtain v s1 where r: "in_read 1 s = Inr (v, s1)" "in_inv s1" "unat v < 2 ^ 1"
    "in_bits s = bits_of 1 v @ in_bits s1"
    using in_read_ok [OF assms(1), of 1] assms(2) by auto
  then have "bits_of 1 v = [b]" "in_bits s1 = rest"
    using assms(2) by (auto simp: bits_of_Suc)
  then show ?thesis using r bits_of_1_eq [of v b] by simp
qed

lemma parses_prefix:
  "in_inv s \<Longrightarrow> in_bits s = replicate k False @ True # rest \<Longrightarrow>
     \<exists>s'. uvlc_prefix l 0 s = Inr (l + Suc k, s') \<and> in_inv s' \<and> in_bits s' = rest"
proof (induction k arbitrary: l s)
  case 0
  then show ?case
    using read_bit [of s True rest]
    by (subst uvlc_prefix.simps) (auto simp: uvlc_prefix.simps)
next
  case (Suc k)
  obtain s1 where r: "in_read 1 s = Inr (0, s1)" "in_inv s1"
    "in_bits s1 = replicate k False @ True # rest"
    using read_bit [of s False] Suc.prems by auto
  then show ?case using Suc.IH [OF r(2,3), of "Suc l"] by (subst uvlc_prefix.simps) simp
qed

lemma write_uvlc_emits:
  assumes "v + 1 \<noteq> 0"
  shows "\<exists>m. 2 ^ m \<le> unat (v + 1) \<and> unat (v + 1) < 2 ^ Suc m
           \<and> (\<forall>a. emits a (xWriteUvlc v) (replicate m False @ bits_of (Suc m) (v + 1)))"
proof -
  obtain m where m: "uvlc_length (v + 1) 1 = 1 + 2 * m" "2 ^ m \<le> unat (v + 1)"
    "unat (v + 1) < 2 ^ Suc m"
    using uvlc_length_spec [OF assms, of 1] by blast
  have "m < 32" by (rule golomb_bits(2) [OF m(2,3)])
  then have "emits a (seqW [out_write 0 m, out_write (v + 1) (Suc m)])
               (replicate m False @ bits_of (Suc m) (v + 1))" for a
    using emits_write [of m 0 a] emits_write [OF _ m(3), of "(a + m) mod 8"]
    by (intro emits_bind) simp_all
  moreover have "xWriteUvlc v = seqW [out_write 0 m, out_write (v + 1) (Suc m)]"
    using assms m(1) by (simp add: fun_eq_iff xWriteUvlc_def Let_def thenW_def drop_bit_eq_div)
  ultimately show ?thesis using m by auto
qed

lemma golomb_read:
  assumes inv: "in_inv s" and t: "2 ^ Suc k \<le> unat t" "unat t < 2 ^ Suc (Suc k)"
    and bits: "in_bits s = replicate (Suc k) False @ bits_of (Suc (Suc k)) t @ rest"
  shows "\<exists>s1 s2 s3. in_read 1 s = Inr (0, s1) \<and> uvlc_prefix 0 0 s1 = Inr (Suc k, s2)
    \<and> in_read (Suc k) s2 = Inr (take_bit (Suc k) t, s3) \<and> in_inv s3 \<and> in_bits s3 = rest"
proof -
  note g = golomb_bits [OF t]
  obtain s1 where r: "in_read 1 s = Inr (0, s1)" "in_inv s1"
    and b1: "in_bits s1 = replicate k False @ True # (bits_of (Suc k) t @ rest)"
    using read_bit [OF inv, of False] bits by (auto simp: g(1))
  obtain s2 where p: "uvlc_prefix 0 0 s1 = Inr (Suc k, s2)" "in_inv s2"
    "in_bits s2 = bits_of (Suc k) t @ rest"
    using parses_prefix [OF r(2) b1, of 0] by auto
  obtain w s3 where w: "in_read (Suc k) s2 = Inr (w, s3)" "in_inv s3" "unat w < 2 ^ Suc k"
    "in_bits s2 = bits_of (Suc k) w @ in_bits s3"
    using in_read_ok [OF p(2), of "Suc k"] g(2) p(3) by auto
  then have "bits_of (Suc k) w = bits_of (Suc k) t" "in_bits s3 = rest"
    using p(3) by auto
  moreover have "bits_of (Suc k) t = bits_of (Suc k) (take_bit (Suc k) t)"
    by (rule bits_of_cong) (simp add: bit_simps)
  moreover have "unat (take_bit (Suc k) t) < 2 ^ Suc k"
    unfolding word_bounded_iff by (simp add: bit_simps)
  ultimately have "w = take_bit (Suc k) t" using bits_of_inject [OF _ w(3)] by metis
  then show ?thesis using r p w \<open>in_bits s3 = rest\<close> by blast
qed

lemma parses_uvlc:
  assumes t: "2 ^ m \<le> unat t" "unat t < 2 ^ Suc m"
  shows "parses a xReadUvlc (replicate m False @ bits_of (Suc m) t) (t - 1)"
  unfolding parses_def
proof (intro allI impI)
  fix s rest
  assume s: "in_inv s \<and> in_bits s = (replicate m False @ bits_of (Suc m) t) @ rest
    \<and> 8 dvd a + (length (replicate m False @ bits_of (Suc m) t) + length rest)"
  note g = golomb_bits [OF t]
  show "\<exists>s'. xReadUvlc s = Inr (t - 1, s') \<and> in_inv s' \<and> in_bits s' = rest"
  proof (cases m)
    case 0
    with t have "unat t = unat (1::u32)" by simp
    then have "t = 1" by (simp only: word_unat_eq_iff)
    then have "in_bits s = True # rest" using s 0 by simp
    then show ?thesis
      using read_bit [of s True rest] s \<open>t = 1\<close> by (auto simp: xReadUvlc_def)
  next
    case (Suc k)
    then obtain s1 s2 s3 where "in_read 1 s = Inr (0, s1)" "uvlc_prefix 0 0 s1 = Inr (m, s2)"
      "in_read m s2 = Inr (take_bit m t, s3)" "in_inv s3" "in_bits s3 = rest"
      using golomb_read [of s k t rest] s t by auto
    then show ?thesis using g(2,3)
      by (simp add: xReadUvlc_def algebra_simps)
  qed
qed

lemma codes_uvlc:
  assumes "v + 1 \<noteq> 0"
  shows "codes (xWriteUvlc v) xReadUvlc v"
proof -
  obtain m where m: "2 ^ m \<le> unat (v + 1)" "unat (v + 1) < 2 ^ Suc m"
    and e: "\<And>a. emits a (xWriteUvlc v) (replicate m False @ bits_of (Suc m) (v + 1))"
    using write_uvlc_emits [OF assms] by blast
  then show ?thesis
    using parses_uvlc [OF m] by (intro codesI [where bs = "\<lambda>_. _"]) auto
qed

lemma codes_uvlc_lt:
  "unat v < 4294967295 \<Longrightarrow> codes (xWriteUvlc v) xReadUvlc v"
  by (rule codes_uvlc) (auto simp: eq_neg_iff_add_eq_0 [symmetric] unsigned_minus_1_eq_mask mask_eq_exp_minus_1)

text \<open>The one value \<open>ue(v)\<close> cannot express is refused by the writer.\<close>

lemma xWriteUvlc_overflow: "xWriteUvlc (-1) s = Inl (CheckFailed ''Integer overflow'')"
  by (simp add: xWriteUvlc_def Let_def)

text \<open>The signed codes: \<open>k > 0\<close> is sent as \<open>2k - 1\<close>, \<open>k <= 0\<close> as \<open>-2k\<close>.\<close>

definition svlc_code :: "int \<Rightarrow> u32" where
  "svlc_code i = (if i \<le> 0 then push_bit 1 (word_of_int (- i)) else push_bit 1 (word_of_int i) - 1)"

lemma unat_double:
  assumes "0 \<le> i" and "i < 2 ^ 31"
  shows "unat (push_bit 1 (word_of_int i :: u32)) = 2 * nat i"
proof -
  have eq: "push_bit 1 (word_of_int i :: u32) = word_of_int (2 * i)"
    by (simp add: push_bit_eq_mult)
  have "uint (word_of_int (2 * i) :: u32) = 2 * i"
    unfolding uint_word_of_int using assms by simp
  then have "unat (push_bit 1 (word_of_int i :: u32)) = nat (2 * i)"
    unfolding eq by (simp only: unat_eq_nat_uint)
  then show ?thesis using assms(1) by simp
qed

lemma svlc_code_succ:
  assumes "- (2 ^ 31) < i" and "i < 2 ^ 31"
  shows "unat (svlc_code i + 1) = (if i \<le> 0 then 2 * nat (- i) + 1 else 2 * nat i)"
    and "svlc_code i + 1 \<noteq> 0"
proof -
  show eq: "unat (svlc_code i + 1) = (if i \<le> 0 then 2 * nat (- i) + 1 else 2 * nat i)"
  proof (cases "i \<le> 0")
    case True
    then have u: "unat (svlc_code i) = 2 * nat (- i)"
      using unat_double [of "- i"] assms by (simp add: svlc_code_def)
    moreover have "2 * nat (- i) + 1 < 2 ^ 32" using assms True by simp
    ultimately show ?thesis using True by (simp add: unat_word_ariths)
  next
    case False
    then show ?thesis using unat_double [of i] assms by (simp add: svlc_code_def)
  qed
  show "svlc_code i + 1 \<noteq> 0"
  proof
    assume "svlc_code i + 1 = 0"
    then have "unat (svlc_code i + 1) = 0" by simp
    with eq show False by (auto split: if_splits)
  qed
qed

definition svlc_value :: "u32 \<Rightarrow> int" where
  "svlc_value t = (if t AND 1 \<noteq> 0 then - uint (drop_bit 1 t) else uint (drop_bit 1 t))"

lemma svlc_value_code:
  assumes "- (2 ^ 31) < i" and "i < 2 ^ 31"
  shows "svlc_value (svlc_code i + 1) = i"
proof -
  let ?t = "svlc_code i + 1"
  have odd: "?t AND 1 \<noteq> 0 \<longleftrightarrow> odd (unat ?t)"
    using bit_unat [of ?t 0] by (auto simp: and_one_eq mod2_eq_if bit_0)
  have "uint (drop_bit (Suc 0) ?t) = int (unat ?t div 2)"
    by (simp add: uint_nat unat_drop_1)
  then show ?thesis
    using svlc_code_succ(1) [OF assms] odd by (auto simp: svlc_value_def)
qed

lemma parses_svlc:
  assumes t: "2 ^ m \<le> unat t" "unat t < 2 ^ Suc m"
  shows "parses a xReadSvlc (replicate m False @ bits_of (Suc m) t) (svlc_value t)"
  unfolding parses_def
proof (intro allI impI)
  fix s rest
  assume s: "in_inv s \<and> in_bits s = (replicate m False @ bits_of (Suc m) t) @ rest
    \<and> 8 dvd a + (length (replicate m False @ bits_of (Suc m) t) + length rest)"
  note g = golomb_bits [OF t]
  show "\<exists>s'. xReadSvlc s = Inr (svlc_value t, s') \<and> in_inv s' \<and> in_bits s' = rest"
  proof (cases m)
    case 0
    with t have "unat t = unat (1::u32)" by simp
    then have "t = 1" by (simp only: word_unat_eq_iff)
    then have "in_bits s = True # rest" using s 0 by simp
    moreover have "svlc_value 1 = 0" by (simp add: svlc_value_def)
    ultimately show ?thesis
      using read_bit [of s True rest] s \<open>t = 1\<close> by (auto simp: xReadSvlc_def)
  next
    case (Suc k)
    then obtain s1 s2 s3 where "in_read 1 s = Inr (0, s1)" "uvlc_prefix 0 0 s1 = Inr (m, s2)"
      "in_read m s2 = Inr (take_bit m t, s3)" "in_inv s3" "in_bits s3 = rest"
      using golomb_read [of s k t rest] s t by auto
    then show ?thesis using g(2,3)
      by (simp add: xReadSvlc_def svlc_value_def Let_def)
  qed
qed

lemma codes_svlc:
  assumes "- (2 ^ 31) < i" and "i < 2 ^ 31"
  shows "codes (xWriteSvlc i) xReadSvlc i"
proof -
  have w: "xWriteSvlc i = xWriteUvlc (svlc_code i)"
    by (simp add: xWriteSvlc_def svlc_code_def)
  obtain m where m: "2 ^ m \<le> unat (svlc_code i + 1)" "unat (svlc_code i + 1) < 2 ^ Suc m"
    and e: "\<And>a. emits a (xWriteUvlc (svlc_code i))
                  (replicate m False @ bits_of (Suc m) (svlc_code i + 1))"
    using write_uvlc_emits [OF svlc_code_succ(2) [OF assms]] by blast
  show ?thesis
    unfolding w using parses_svlc [OF m] e svlc_value_code [OF assms]
    by (intro codesI [where bs = "\<lambda>_. _"]) auto
qed

section \<open>Signed fixed-length codes\<close>

definition xWriteSCode :: "int \<Rightarrow> nat \<Rightarrow> writer" where
  "xWriteSCode code len s =
     checkE (\<not> (len > 0 \<and> len \<le> 32)) ''assert: length'' (
     checkE (\<not> (len = 32 \<or> code \<ge> - (2 ^ (len - 1)) \<and> code < 2 ^ (len - 1)))
       ''assert: code'' (
     out_write (if len = 32 then word_of_int code
                else word_of_int code AND (push_bit len 1 - 1)) len s))"

definition xReadSCode :: "nat \<Rightarrow> int parser" where
  "xReadSCode len s =
     checkE (\<not> (len > 0 \<and> len \<le> 32)) ''assert: length'' (
     bindE (in_read len s) (\<lambda>(val, s).
     Inr (if len \<ge> 32 then sint val
          else sint (- (val AND push_bit (len - 1) 1) OR val), s)))"

lemma scode_word:
  assumes n: "0 < n" "n < 32" and i: "- (2 ^ (n - 1)) \<le> i" "i < 2 ^ (n - 1)"
  defines "v \<equiv> (word_of_int i :: u32) AND (push_bit n 1 - 1)"
  shows "unat v < 2 ^ n" and "sint (- (v AND push_bit (n - 1) 1) OR v) = i"
proof -
  have v: "v = take_bit n (word_of_int i)"
    by (simp add: v_def take_bit_eq_mask mask_eq_exp_minus_1 push_bit_eq_mult)
  show "unat v < 2 ^ n"
    unfolding word_bounded_iff v by (simp add: bit_simps)
  have b31: "bit i j \<longleftrightarrow> bit i (n - 1)" if "n - 1 \<le> j" for j
  proof -
    have "signed_take_bit (n - 1) i = i"
      using i by (simp add: signed_take_bit_int_eq_self)
    then have "bit i j \<longleftrightarrow> bit (signed_take_bit (n - 1) i) j" by simp
    also have "\<dots> \<longleftrightarrow> bit i (n - 1)" using that by (simp add: bit_signed_take_bit_iff min_def)
    finally show ?thesis .
  qed
  have sgn: "- (v AND push_bit (n - 1) 1) = (if bit i (n - 1) then NOT (mask (n - 1)) else 0)"
  proof -
    have "v AND push_bit (n - 1) 1 = (if bit i (n - 1) then push_bit (n - 1) 1 else 0)"
      by (rule bit_word_eqI) (use n in \<open>auto simp: v bit_simps\<close>)
    then show ?thesis
      by (simp add: push_bit_eq_mult minus_exp_eq_not_mask)
  qed
  have "- (v AND push_bit (n - 1) 1) OR v = word_of_int i"
  proof (rule bit_word_eqI)
    fix j assume j: "j < LENGTH(32)"
    show "bit (- (v AND push_bit (n - 1) 1) OR v) j = bit (word_of_int i :: u32) j"
      unfolding sgn using n j b31 [of j]
      by (cases "j < n - 1"; cases "j = n - 1") (auto simp: v bit_simps)
  qed
  moreover have "sint (word_of_int i :: u32) = i"
  proof -
    have "(2::int) ^ (n - 1) \<le> 2 ^ 31" using n by (intro power_increasing) auto
    then have "- (2 ^ 31) \<le> i" "i < 2 ^ 31" using i by linarith+
    then show ?thesis by (simp add: sint_sbintrunc' signed_take_bit_int_eq_self)
  qed
  ultimately show "sint (- (v AND push_bit (n - 1) 1) OR v) = i" by simp
qed

lemma codes_scode:
  assumes n: "0 < n" "n \<le> 32" and i: "- (2 ^ (n - 1)) \<le> i" "i < 2 ^ (n - 1)"
  shows "codes (xWriteSCode i n) (xReadSCode n) i"
proof -
  define v where "v = (if n = 32 then word_of_int i else (word_of_int i :: u32) AND (push_bit n 1 - 1))"
  define f where "f = (\<lambda>val :: u32. if n \<ge> 32 then sint val
                    else sint (- (val AND push_bit (n - 1) 1) OR val))"
  have vb: "unat v < 2 ^ n"
    using n scode_word(1) [of n i] i unat_u32_lt [of v] by (auto simp: v_def)
  have fv: "f v = i"
    using n i scode_word(2) [of n i]
    by (auto simp: v_def f_def sint_sbintrunc' signed_take_bit_int_eq_self)
  have "codes (out_write v n) (bindP (in_read n) (\<lambda>x. returnP (f x))) (f v)"
    by (rule codes_bind_return [OF codes_write_read [OF n(2) vb]])
  moreover have "xWriteSCode i n = out_write v n"
    using n i by (auto simp: fun_eq_iff xWriteSCode_def v_def)
  moreover have "xReadSCode n = bindP (in_read n) (\<lambda>x. returnP (f x))"
    using n by (auto simp: fun_eq_iff xReadSCode_def bindP_def returnP_def f_def
        intro!: arg_cong [where f = "bindE _"])
  ultimately show ?thesis by (simp add: fv)
qed

section \<open>Byte alignment and trailing bits\<close>

lemma write_flag_held:
  "xWriteFlag v s = Inr s' \<Longrightarrow> out_num_held_bits s' = (1 + out_num_held_bits s) mod 8"
  by (auto simp: xWriteFlag_def out_write_def Let_def checkE_Inr_iff split: if_splits)

lemma zero_align_decreases:
  assumes "out_getNumBitsUntilByteAligned s \<noteq> 0" and "xWriteFlag v s = Inr s'"
  shows "out_getNumBitsUntilByteAligned s' < out_getNumBitsUntilByteAligned s"
proof -
  have "0 < out_num_held_bits s" "out_num_held_bits s < 8"
    using assms(1) by (auto simp: out_getNumBitsUntilByteAligned_def intro: ccontr)
  then show ?thesis
    using write_flag_held [OF assms(2)]
    by (cases "out_num_held_bits s = 7") (auto simp: out_getNumBitsUntilByteAligned_def)
qed

text \<open>\<open>while (getNumBitsUntilByteAligned()) WRITE_FLAG(0)\<close>, with the count of its turns.\<close>

function zero_align_W :: "nat \<Rightarrow> OutputBitstream \<Rightarrow> (nat \<times> OutputBitstream) result" where
  "zero_align_W cnt s =
     (if out_getNumBitsUntilByteAligned s \<noteq> 0
      then bindE (xWriteFlag 0 s) (\<lambda>s. zero_align_W (cnt + 1) s)
      else Inr (cnt, s))"
  by pat_completeness auto

termination
  by (relation "measure (\<lambda>(c, s). out_getNumBitsUntilByteAligned s)")
    (auto intro: zero_align_decreases)

declare zero_align_W.simps [simp del]

definition alignW :: writer where
  "alignW s = bindE (zero_align_W 0 s) (\<lambda>(cnt, s). Inr s)"

definition xWriteRbspTrailingBits :: writer where
  "xWriteRbspTrailingBits s =
     bindE (xWriteFlag 1 s) (\<lambda>s.
     bindE (zero_align_W 0 s) (\<lambda>(cnt, s).
     checkE (cnt \<ge> 8) ''More than 8 alignment bytes read'' (Inr s)))"

text \<open>The loop of the reader; every bit it takes must be zero.\<close>

function zero_align_P :: "string \<Rightarrow> nat \<Rightarrow> nat parser" where
  "zero_align_P msg cnt s =
     (if in_getNumBitsUntilByteAligned s \<noteq> 0
      then bindE (xReadFlag s) (\<lambda>(symbol, s).
           checkE (symbol \<noteq> 0) msg (zero_align_P msg (cnt + 1) s))
      else Inr (cnt, s))"
  by pat_completeness auto
termination
  by (relation "measure (\<lambda>(m, c, s). getNumBitsLeft s)")
    (auto simp: xReadFlag_def dest: in_read_left)

declare zero_align_P.simps [simp del]

definition alignP :: "string \<Rightarrow> unit parser" where
  "alignP msg s = bindE (zero_align_P msg 0 s) (\<lambda>(cnt, s). Inr ((), s))"

definition xReadRbspTrailingBits :: "unit parser" where
  "xReadRbspTrailingBits s =
     bindE (xReadFlag s) (\<lambda>(symbol, s).
     checkE (symbol \<noteq> 1) ''Trailing bit not 1'' (
     bindE (zero_align_P ''Alignment bit is not 0'' 0 s) (\<lambda>(cnt, s).
     checkE (cnt \<ge> 8) ''Read more than 8 trailing bits'' (Inr ((), s)))))"

lemma zero_align_W_ok:
  "out_inv s \<Longrightarrow> out_getNumBitsUntilByteAligned s = k \<Longrightarrow>
     \<exists>s'. zero_align_W c s = Inr (c + k, s') \<and> out_inv s' \<and> out_bits s' = out_bits s @ replicate k False"
proof (induction k arbitrary: c s)
  case 0
  then show ?case by (subst zero_align_W.simps) simp
next
  case (Suc k)
  obtain s1 where s1: "xWriteFlag 0 s = Inr s1" "out_inv s1" "out_bits s1 = out_bits s @ [False]"
    using out_write_ok [OF Suc.prems(1), of 1 0] by (auto simp: xWriteFlag_def)
  have h: "out_num_held_bits s < 8" "out_num_held_bits s = 8 - Suc k"
    using Suc.prems by (auto simp: out_inv_def out_getNumBitsUntilByteAligned_def mod_if split: if_splits)
  moreover have "Suc k < 8"
    using Suc.prems(2) by (simp add: out_getNumBitsUntilByteAligned_def)
  ultimately have "out_getNumBitsUntilByteAligned s1 = k"
    using write_flag_held [OF s1(1)]
    by (cases k) (auto simp: out_getNumBitsUntilByteAligned_def)
  then show ?case
    using Suc.IH [OF s1(2), of "Suc c"] Suc.prems(2) s1
    by (subst zero_align_W.simps) (simp add: replicate_app_Cons_same)
qed

lemma zero_align_P_ok:
  "in_inv s \<Longrightarrow> in_bits s = replicate k False @ rest \<Longrightarrow> 8 dvd length rest \<Longrightarrow> k < 8 \<Longrightarrow>
     \<exists>s'. zero_align_P msg c s = Inr (c + k, s') \<and> in_inv s' \<and> in_bits s' = rest"
proof (induction k arbitrary: c s)
  case 0
  then show ?case by (subst zero_align_P.simps) (simp add: in_aligned_iff)
next
  case (Suc k)
  obtain s1 where s1: "xReadFlag s = Inr (0, s1)" "in_inv s1" "in_bits s1 = replicate k False @ rest"
    using read_bit [of s False] Suc.prems by (auto simp: xReadFlag_def)
  have "in_getNumBitsUntilByteAligned s = Suc k"
    using Suc.prems by (auto simp: in_aligned_iff elim!: dvdE)
  then show ?case
    using Suc.IH [OF s1(2,3), of "Suc c"] Suc.prems s1
    by (subst zero_align_P.simps) simp
qed

lemma align_rest:
  "a < 8 \<Longrightarrow> 8 dvd a + ((8 - a) mod 8 + r) \<longleftrightarrow> 8 dvd (r::nat)"
  by (cases "a = 0") (auto simp: dvd_add_right_iff)

lemma emits_align:
  assumes a: "a < 8" and f: "\<And>cnt s. cnt < 8 \<Longrightarrow> f (cnt, s) = Inr s"
  shows "emits a (\<lambda>s. bindE (zero_align_W 0 s) f) (replicate ((8 - a) mod 8) False)"
  unfolding emits_def
proof (intro allI impI)
  fix s assume s: "out_inv s \<and> length (out_bits s) mod 8 = a"
  then have "out_getNumBitsUntilByteAligned s = (8 - a) mod 8" by (simp add: out_aligned_iff)
  then show "\<exists>s'. bindE (zero_align_W 0 s) f = Inr s' \<and> out_inv s'
      \<and> out_bits s' = out_bits s @ replicate ((8 - a) mod 8) False"
    using zero_align_W_ok [of s _ 0] s by (auto simp: f)
qed

lemma parses_align:
  assumes a: "a < 8" and f: "\<And>cnt s. cnt < 8 \<Longrightarrow> f (cnt, s) = Inr (v, s)"
  shows "parses a (\<lambda>s. bindE (zero_align_P msg 0 s) f) (replicate ((8 - a) mod 8) False) v"
  unfolding parses_def
proof (intro allI impI)
  fix s rest
  assume "in_inv s \<and> in_bits s = replicate ((8 - a) mod 8) False @ rest
    \<and> 8 dvd a + (length (replicate ((8 - a) mod 8) False) + length rest)"
  then show "\<exists>s'. bindE (zero_align_P msg 0 s) f = Inr (v, s') \<and> in_inv s' \<and> in_bits s' = rest"
    using zero_align_P_ok [of s "(8 - a) mod 8" rest msg 0] align_rest [OF a] by (auto simp: f)
qed

lemma codes_align_with:
  assumes "\<And>cnt s. cnt < 8 \<Longrightarrow> f (cnt, s) = Inr s"
    and "\<And>cnt s. cnt < 8 \<Longrightarrow> g (cnt, s) = Inr (v, s)"
  shows "codes (\<lambda>s. bindE (zero_align_W 0 s) f) (\<lambda>s. bindE (zero_align_P msg 0 s) g) v"
  by (rule codesI [where bs = "\<lambda>a. replicate ((8 - a) mod 8) False"])
    (simp_all add: emits_align parses_align assms)

lemma codes_align: "codes alignW (alignP msg) ()"
  unfolding alignW_def [abs_def] alignP_def [abs_def] by (rule codes_align_with) simp_all

lemma codes_trailing: "codes xWriteRbspTrailingBits xReadRbspTrailingBits ()"
proof -
  let ?w = "\<lambda>s. bindE (zero_align_W 0 s)
    (\<lambda>(cnt, s). checkE (cnt \<ge> 8) ''More than 8 alignment bytes read'' (Inr s))"
  let ?p = "\<lambda>s. bindE (zero_align_P ''Alignment bit is not 0'' 0 s)
    (\<lambda>(cnt, s). checkE (cnt \<ge> 8) ''Read more than 8 trailing bits'' (Inr ((), s)))"
  have "codes (seqW [xWriteFlag 1, ?w])
     (bindP xReadFlag (\<lambda>symbol. checkP (symbol \<noteq> 1) ''Trailing bit not 1'' ?p)) ()"
    by (rule codes_bind [OF codes_flag_1]) (auto intro!: codes_seq1 codes_checkP codes_align_with)
  moreover have "xWriteRbspTrailingBits = seqW [xWriteFlag 1, ?w]"
    by (simp add: fun_eq_iff xWriteRbspTrailingBits_def thenW_def)
  moreover have "xReadRbspTrailingBits
      = bindP xReadFlag (\<lambda>symbol. checkP (symbol \<noteq> 1) ''Trailing bit not 1'' ?p)"
    by (simp add: fun_eq_iff xReadRbspTrailingBits_def bindP_def checkP_def)
  ultimately show ?thesis by simp
qed

lemmas codes_elems = codes_code32 codes_code codes_flagB codes_flag_0 codes_flag_1 codes_flag
  codes_uvlc_lt codes_svlc codes_scode codes_align codes_trailing

section \<open>Access unit delimiter and filler data\<close>

definition codeAUD :: "bool \<Rightarrow> u32 \<Rightarrow> writer" where
  "codeAUD audIrapOrGdrAuFlag pictureType = seqW
     [checkW (pictureType \<ge> 3) ''Invalid picture type'',
      writeFlagB audIrapOrGdrAuFlag,
      xWriteCode pictureType 3,
      xWriteRbspTrailingBits]"

definition parseAccessUnitDelimiter :: "(bool \<times> u32) parser" where
  "parseAccessUnitDelimiter =
     bindP readFlagB (\<lambda>audIrapOrGdrAuFlag.
     bindP (xReadCode 3) (\<lambda>picType.
     bindP xReadRbspTrailingBits (\<lambda>_. returnP (audIrapOrGdrAuFlag, picType))))"

lemma codes_AUD:
  assumes "t < 3"
  shows "codes (codeAUD f t) parseAccessUnitDelimiter (f, t)"
proof -
  have "unat t < 8" and "\<not> 3 \<le> t"
    using assms by (simp_all add: word_less_nat_alt not_le)
  then show ?thesis
    unfolding codeAUD_def parseAccessUnitDelimiter_def
    by - (rule codes_struct codes_elems | simp; fail)+
qed

lemma in_read_progress:
  "0 < n \<Longrightarrow> in_read n s = Inr (v, s') \<Longrightarrow> getNumBitsLeft s' < getNumBitsLeft s"
  by (auto simp: in_read_def Let_def getNumBitsLeft_def checkE_Inr_iff split: if_splits)

function filler_loop :: "nat \<Rightarrow> nat parser" where
  "filler_loop fdSize s =
     (if getNumBitsLeft s > 8
      then bindE (xReadCode 8 s) (\<lambda>(ffByte, s).
           checkE (ffByte \<noteq> 0xff) ''Invalid filler data : not 0xff'' (filler_loop (fdSize + 1) s))
      else Inr (fdSize, s))"
  by pat_completeness auto
termination
  by (relation "measure (\<lambda>(n, s). getNumBitsLeft s)")
    (auto simp: xReadCode_def dest: in_read_progress [rotated])

declare filler_loop.simps [simp del]

definition parseFillerData :: "nat parser" where
  "parseFillerData =
     bindP (filler_loop 0) (\<lambda>fdSize. bindP xReadRbspTrailingBits (\<lambda>_. returnP fdSize))"

section \<open>Properties\<close>

text \<open>
  C31: Any sequence of fields of at most 32 bits, of any widths, written one after the other with
  \<open>OutputBitstream::write\<close> and flushed, is read back field by field by \<open>InputBitstream::read\<close>.
\<close>

theorem bit_fields_roundtrip:
  assumes "list_all (\<lambda>(v, n). n \<le> 32 \<and> unat v < 2 ^ n) fs"
  shows "\<exists>s i. seqW (map (\<lambda>(v, n). out_write v n) fs) new_out = Inr s
    \<and> seqP (map (\<lambda>(v, n). in_read n) fs) (new_in (out_fifo (writeAlignZero s)))
        = Inr (map fst fs, i)"
proof (rule codes_roundtrip)
  show "codes (seqW (map (\<lambda>(v, n). out_write v n) fs))
          (seqP (map (\<lambda>(v, n). in_read n) fs)) (map fst fs)"
    by (rule codes_seqP) (use assms codes_write_read in \<open>auto simp: list_all_iff\<close>)
qed

theorem bit_fields_roundtrip_witness:
  "\<exists>s i. seqW (map (\<lambda>(v, n). out_write v n) [(5, 3), (0xDEADBEEF, 32), (1, 1)]) new_out = Inr s
    \<and> seqP (map (\<lambda>(v, n). in_read n) [(5 :: u32, 3), (0xDEADBEEF, 32), (1, 1)])
          (new_in (out_fifo (writeAlignZero s))) = Inr ([5, 0xDEADBEEF, 1], i)"
proof -
  have "list_all (\<lambda>(v, n). n \<le> 32 \<and> unat v < 2 ^ n) [(5 :: u32, 3), (0xDEADBEEF, 32), (1, 1)]"
    by simp
  from bit_fields_roundtrip [OF this] show ?thesis by (simp only: list.map fst_conv)
qed

interpretation uvlc: codec xWriteUvlc xReadUvlc "\<lambda>v. v \<noteq> - 1"
  by unfold_locales (rule codes_uvlc, simp add: eq_neg_iff_add_eq_0)

interpretation svlc: codec xWriteSvlc xReadSvlc "\<lambda>i. - (2 ^ 31) < i \<and> i < 2 ^ 31"
  by unfold_locales (simp add: codes_svlc)

interpretation aud: codec "\<lambda>(f, t). codeAUD f t" parseAccessUnitDelimiter "\<lambda>(f, t). t < 3"
  by unfold_locales (auto intro: codes_AUD)

text \<open>
  C12: \<open>xWriteUvlc\<close> refuses exactly the code \<open>2^32 - 1\<close>; every other value is read back by
  \<open>xReadUvlc\<close>, and no code word is a prefix of the code word of another value.
\<close>

theorem uvlc_code_words:
  assumes "out_inv s"
  shows "xWriteUvlc (- 1) s = Inl (CheckFailed ''Integer overflow'')
    \<and> (v \<noteq> - 1 \<longrightarrow> (\<exists>t i. xWriteUvlc v new_out = Inr t
          \<and> xReadUvlc (new_in (out_fifo (writeAlignZero t))) = Inr (v, i)))
    \<and> (v \<noteq> - 1 \<and> w \<noteq> - 1 \<and> xWriteUvlc v s = Inr t \<and> xWriteUvlc w s = Inr u
          \<and> out_bits t @ r = out_bits u \<longrightarrow> v = w)"
  using xWriteUvlc_overflow uvlc.decode_encode [of v] uvlc.encode_prefix_free [of v w s t u r] assms
  by auto

theorem uvlc_code_words_witness:
  "out_inv new_out \<and> xWriteUvlc (- 1) new_out = Inl (CheckFailed ''Integer overflow'')
    \<and> (\<exists>t i. xWriteUvlc 6 new_out = Inr t
          \<and> xReadUvlc (new_in (out_fifo (writeAlignZero t))) = Inr (6, i))"
  using uvlc_code_words [of new_out 6] by simp

text \<open>
  Every signed code of magnitude below \<open>2^31\<close> is written by \<open>xWriteSvlc\<close>, read back by
  \<open>xReadSvlc\<close>, and no code word is a prefix of the code word of another value.
\<close>

theorem svlc_code_words:
  assumes "- (2 ^ 31) < i" and "i < 2 ^ 31"
  shows "(\<exists>t k. xWriteSvlc i new_out = Inr t
          \<and> xReadSvlc (new_in (out_fifo (writeAlignZero t))) = Inr (i, k))
    \<and> (- (2 ^ 31) < j \<and> j < 2 ^ 31 \<and> out_inv s \<and> xWriteSvlc i s = Inr t \<and> xWriteSvlc j s = Inr u
          \<and> out_bits t @ r = out_bits u \<longrightarrow> i = j)"
  using svlc.decode_encode [of i] svlc.encode_prefix_free [of i j s t u r] assms by auto

theorem svlc_code_words_witness:
  "\<exists>t k. xWriteSvlc (- 7) new_out = Inr t
          \<and> xReadSvlc (new_in (out_fifo (writeAlignZero t))) = Inr (- 7, k)"
  using svlc_code_words [of "- 7"] by simp

end
