(* ===== verification/AnnexB.thy ===== *)
theory AnnexB
  imports ECM_Prelude
begin

unbundle bit_operations_syntax

text \<open>
  The byte stream format of Annex B: class \<open>InputByteStream\<close> and \<open>byteStreamNALUnit\<close> of
  \<open>source/Lib/DecoderLib/AnnexBread.h\<close> and \<open>AnnexBread.cpp\<close>, which find the NAL units of a file, and
  \<open>writeAnnexBNalUnit\<close> and \<open>writeAnnexBAccessUnit\<close> of \<open>source/Lib/EncoderLib/AnnexBwrite.h\<close>, which
  write them. An exception of the reader leaves the changes made before it, so an operation returns
  its outcome and the state.
\<close>

section \<open>Operations that keep their state when they throw\<close>

type_synonym ('s, 'a) action = "'s \<Rightarrow> 'a result \<times> 's"

definition returnA :: "'a \<Rightarrow> ('s, 'a) action" where
  "returnA a s = (Inr a, s)"

definition throwA :: "error \<Rightarrow> ('s, 'a) action" where
  "throwA e s = (Inl e, s)"

definition bindA :: "('s, 'a) action \<Rightarrow> ('a \<Rightarrow> ('s, 'b) action) \<Rightarrow> ('s, 'b) action" where
  "bindA m f s = (case m s of (Inl e, t) \<Rightarrow> (Inl e, t) | (Inr a, t) \<Rightarrow> f a t)"

definition modifyA :: "('s \<Rightarrow> 's) \<Rightarrow> ('s, unit) action" where
  "modifyA g s = (Inr (), g s)"

lemma bindA_cong [fundef_cong]:
  "s = s' \<Longrightarrow> m s' = m' s' \<Longrightarrow> (\<And>a t. m' s' = (Inr a, t) \<Longrightarrow> f a t = f' a t) \<Longrightarrow>
     bindA m f s = bindA m' f' s'"
  by (auto simp: bindA_def split: prod.split sum.split)

lemma bindA_Inr [simp]: "m s = (Inr a, t) \<Longrightarrow> bindA m f s = f a t"
  by (simp add: bindA_def)

lemma bindA_False [simp]: "m s = (Inr False, t) \<Longrightarrow> bindA m f s = f False t"
  by (simp add: bindA_def)

lemma bindA_Inl [simp]: "m s = (Inl e, t) \<Longrightarrow> bindA m f s = (Inl e, t)"
  by (simp add: bindA_def)

lemma bindA_return [simp]: "bindA (returnA a) f s = f a s"
  by (simp add: bindA_def returnA_def)

lemma bindA_modify [simp]: "bindA (modifyA g) f s = f () (g s)"
  by (simp add: bindA_def modifyA_def)

section \<open>The input byte stream\<close>

record InputByteStream =
  m_NumFutureBytes :: nat
  m_FutureBytes :: u32
  m_Input :: "u8 list"

definition new_InputByteStream :: "u8 list \<Rightarrow> InputByteStream" where
  "new_InputByteStream istream = \<lparr>m_NumFutureBytes = 0, m_FutureBytes = 0, m_Input = istream\<rparr>"

definition ibs_reset :: "InputByteStream \<Rightarrow> InputByteStream" where
  "ibs_reset s = s\<lparr>m_NumFutureBytes := 0, m_FutureBytes := 0\<rparr>"

text \<open>The loop of \<open>eofBeforeNBytes\<close>; \<open>get()\<close> throws at the end of the file.\<close>

fun fill_future :: "nat \<Rightarrow> InputByteStream \<Rightarrow> bool \<times> InputByteStream" where
  "fill_future 0 s = (False, s)"
| "fill_future (Suc n) s =
     (case m_Input s of
        [] \<Rightarrow> (True, s)
      | b # bs \<Rightarrow> fill_future n
          (s\<lparr>m_FutureBytes := push_bit 8 (m_FutureBytes s) OR ucast b,
             m_NumFutureBytes := m_NumFutureBytes s + 1, m_Input := bs\<rparr>))"

definition eofBeforeNBytes :: "nat \<Rightarrow> (InputByteStream, bool) action" where
  "eofBeforeNBytes n s =
     (if n > 4 then throwA (CheckFailed ''Unsupported look-ahead value'') s
      else if m_NumFutureBytes s \<ge> n then returnA False s
      else let (e, s') = fill_future (n - m_NumFutureBytes s) s in returnA e s')"

text \<open>Shifting by the missing bytes, when the file ends within the next \<open>n\<close>, is undefined.\<close>

definition peekBytes :: "nat \<Rightarrow> (InputByteStream, u32) action" where
  "peekBytes n = bindA (eofBeforeNBytes n) (\<lambda>_ s.
     if m_NumFutureBytes s < n then throwA UndefinedBehaviour s
     else returnA (drop_bit (8 * (m_NumFutureBytes s - n)) (m_FutureBytes s)) s)"

definition readByte :: "(InputByteStream, u8) action" where
  "readByte s =
     (if m_NumFutureBytes s = 0
      then (case m_Input s of
              [] \<Rightarrow> throwA EndOfStream s
            | b # bs \<Rightarrow> returnA b (s\<lparr>m_Input := bs\<rparr>))
      else let k = m_NumFutureBytes s - 1;
               wanted_byte = ucast (drop_bit (8 * k) (m_FutureBytes s))
           in returnA wanted_byte
                (s\<lparr>m_NumFutureBytes := k,
                   m_FutureBytes := m_FutureBytes s AND NOT (push_bit (8 * k) 0xff)\<rparr>))"

fun read_bytes_loop :: "nat \<Rightarrow> u32 \<Rightarrow> (InputByteStream, u32) action" where
  "read_bytes_loop 0 val = returnA val"
| "read_bytes_loop (Suc n) val =
     bindA readByte (\<lambda>b. read_bytes_loop n (push_bit 8 val OR ucast b))"

definition readBytes :: "nat \<Rightarrow> (InputByteStream, u32) action" where
  "readBytes n = read_bytes_loop n 0"

section \<open>Finding a NAL unit\<close>

record AnnexBStats =
  m_numLeadingZero8BitsBytes :: nat
  m_numZeroByteBytes :: nat
  m_numStartCodePrefixBytes :: nat
  m_numBytesInNALUnit :: nat
  m_numTrailingZero8BitsBytes :: nat

definition no_stats :: AnnexBStats where
  "no_stats = \<lparr>m_numLeadingZero8BitsBytes = 0, m_numZeroByteBytes = 0, m_numStartCodePrefixBytes = 0,
     m_numBytesInNALUnit = 0, m_numTrailingZero8BitsBytes = 0\<rparr>"

definition stats_add :: "AnnexBStats \<Rightarrow> AnnexBStats \<Rightarrow> AnnexBStats" where
  "stats_add s r =
     \<lparr>m_numLeadingZero8BitsBytes = m_numLeadingZero8BitsBytes s + m_numLeadingZero8BitsBytes r,
      m_numZeroByteBytes = m_numZeroByteBytes s + m_numZeroByteBytes r,
      m_numStartCodePrefixBytes = m_numStartCodePrefixBytes s + m_numStartCodePrefixBytes r,
      m_numBytesInNALUnit = m_numBytesInNALUnit s + m_numBytesInNALUnit r,
      m_numTrailingZero8BitsBytes = m_numTrailingZero8BitsBytes s + m_numTrailingZero8BitsBytes r\<rparr>"

text \<open>What \<open>_byteStreamNALUnit\<close> works on: the stream, the bytes of the unit and the statistics.\<close>

record NalSearch =
  byteStream :: InputByteStream
  nalUnit :: "u8 list"
  stats :: AnnexBStats

definition onBs :: "(InputByteStream, 'a) action \<Rightarrow> (NalSearch, 'a) action" where
  "onBs m s = (let (r, b) = m (byteStream s) in (r, s\<lparr>byteStream := b\<rparr>))"

text \<open>
  \<open>(eofBeforeNBytes(3) || peekBytes(3) != 1) && (eofBeforeNBytes(4) || peekBytes(4) != 1)\<close>,
  with the order of evaluation of the operators.
\<close>

definition eof_or_peek :: "nat \<Rightarrow> (u32 \<Rightarrow> bool) \<Rightarrow> (InputByteStream, bool) action" where
  "eof_or_peek n c = bindA (eofBeforeNBytes n) (\<lambda>eof.
     if eof then returnA True else bindA (peekBytes n) (\<lambda>v. returnA (c v)))"

definition not_start_code :: "(InputByteStream, bool) action" where
  "not_start_code = bindA (eof_or_peek 3 (\<lambda>v. v \<noteq> 1)) (\<lambda>c.
     if c then eof_or_peek 4 (\<lambda>v. v \<noteq> 1) else returnA False)"

text \<open>The bytes of the stream that have not been consumed.\<close>

definition ibs_left :: "InputByteStream \<Rightarrow> nat" where
  "ibs_left s = m_NumFutureBytes s + length (m_Input s)"

lemma fill_future_left: "fill_future n s = (e, t) \<Longrightarrow> ibs_left t = ibs_left s"
proof (induction n arbitrary: s)
  case (Suc n)
  show ?case
  proof (cases "m_Input s")
    case (Cons b bs)
    with Suc.prems have "fill_future n
          (s\<lparr>m_FutureBytes := push_bit 8 (m_FutureBytes s) OR ucast b,
             m_NumFutureBytes := m_NumFutureBytes s + 1, m_Input := bs\<rparr>) = (e, t)" by simp
    from Suc.IH [OF this] show ?thesis using Cons by (simp add: ibs_left_def)
  qed (use Suc.prems in simp)
qed simp

lemma eofBefore_left: "eofBeforeNBytes n s = (r, t) \<Longrightarrow> ibs_left t = ibs_left s"
  by (auto simp: eofBeforeNBytes_def throwA_def returnA_def fill_future_left
      split: if_splits prod.splits)

lemma peek_left: "peekBytes n s = (r, t) \<Longrightarrow> ibs_left t = ibs_left s"
  by (auto simp: peekBytes_def bindA_def throwA_def returnA_def eofBefore_left
      split: if_splits prod.splits sum.splits)

lemma eof_or_peek_left: "eof_or_peek n c s = (r, t) \<Longrightarrow> ibs_left t = ibs_left s"
  by (auto simp: eof_or_peek_def bindA_def returnA_def dest!: eofBefore_left peek_left
      split: if_splits prod.splits sum.splits)

lemma not_start_code_left: "not_start_code s = (r, t) \<Longrightarrow> ibs_left t = ibs_left s"
  by (auto simp: not_start_code_def bindA_def returnA_def dest!: eof_or_peek_left
      split: if_splits prod.splits sum.splits)

lemma readByte_left: "readByte s = (Inr b, t) \<Longrightarrow> ibs_left t < ibs_left s"
  by (auto simp: readByte_def throwA_def returnA_def ibs_left_def Let_def
      split: if_splits list.splits)

lemma onBs_Inr: "onBs m s = (Inr a, t) \<Longrightarrow> m (byteStream s) = (Inr a, byteStream t)"
  by (auto simp: onBs_def split: prod.splits)

text \<open>
  The loop that discards zero bytes up to a start code, of which there are two: for
  \<open>leading_zero_8bits\<close> and for \<open>trailing_zero_8bits\<close>. They differ in what they throw and count.
\<close>

function discard_zeros :: "error \<Rightarrow> (AnnexBStats \<Rightarrow> AnnexBStats) \<Rightarrow> (NalSearch, unit) action" where
  "discard_zeros e count s = bindA (onBs not_start_code) (\<lambda>c s.
     if c
     then bindA (onBs readByte) (\<lambda>zero_8bits s.
          if zero_8bits \<noteq> 0 then throwA e s
          else discard_zeros e count (s\<lparr>stats := count (stats s)\<rparr>)) s
     else returnA () s) s"
  by pat_completeness auto
termination
  by (relation "measure (\<lambda>(e, c, s). ibs_left (byteStream s))")
    (auto dest!: onBs_Inr not_start_code_left readByte_left)

definition count_leading :: "AnnexBStats \<Rightarrow> AnnexBStats" where
  "count_leading st = st\<lparr>m_numLeadingZero8BitsBytes := m_numLeadingZero8BitsBytes st + 1\<rparr>"

definition count_trailing :: "AnnexBStats \<Rightarrow> AnnexBStats" where
  "count_trailing st = st\<lparr>m_numTrailingZero8BitsBytes := m_numTrailingZero8BitsBytes st + 1\<rparr>"

definition leading_error :: error where
  "leading_error = Thrown ''Leading zero bits not zero''"

definition trailing_error :: error where
  "trailing_error = CheckFailed ''Trailing zero bits not 0''"

definition leading_zeros :: "(NalSearch, unit) action" where
  "leading_zeros = discard_zeros leading_error count_leading"

definition trailing_zeros :: "(NalSearch, unit) action" where
  "trailing_zeros = discard_zeros trailing_error count_trailing"

function nal_bytes :: "(NalSearch, unit) action" where
  "nal_bytes s = bindA (onBs (eof_or_peek 3 (\<lambda>v. v > 2))) (\<lambda>c s.
     if c
     then bindA (onBs readByte) (\<lambda>b s. nal_bytes (s\<lparr>nalUnit := nalUnit s @ [b]\<rparr>)) s
     else returnA () s) s"
  by pat_completeness auto
termination
  by (relation "measure (\<lambda>s. ibs_left (byteStream s))")
    (auto dest!: onBs_Inr eof_or_peek_left readByte_left)

declare discard_zeros.simps [simp del] nal_bytes.simps [simp del]

definition zero_byte :: "(NalSearch, unit) action" where
  "zero_byte = bindA (onBs (peekBytes 3)) (\<lambda>v.
     if v \<noteq> 1
     then bindA (onBs readByte) (\<lambda>zero_byte s.
          if zero_byte \<noteq> 0 then throwA (CheckFailed ''Zero byte not 0'') s
          else returnA () (s\<lparr>stats := stats s\<lparr>m_numZeroByteBytes
                 := m_numZeroByteBytes (stats s) + 1\<rparr>\<rparr>))
     else returnA ())"

definition start_code_prefix :: "(NalSearch, unit) action" where
  "start_code_prefix = bindA (onBs (readBytes 3)) (\<lambda>start_code_prefix_one_3bytes s.
     if start_code_prefix_one_3bytes \<noteq> 1 then throwA (Thrown ''Invalid code prefix'') s
     else returnA () (s\<lparr>stats := stats s\<lparr>m_numStartCodePrefixBytes
            := m_numStartCodePrefixBytes (stats s) + 3\<rparr>\<rparr>))"

definition byteStreamNALUnit_body :: "(NalSearch, unit) action" where
  "byteStreamNALUnit_body =
     bindA leading_zeros (\<lambda>_. bindA zero_byte (\<lambda>_. bindA start_code_prefix (\<lambda>_.
     bindA nal_bytes (\<lambda>_. trailing_zeros))))"

text \<open>\<open>catch (...)\<close> turns every exception into the end of the file; undefined behaviour is none.\<close>

definition byteStreamNALUnit :: "(NalSearch, bool) action" where
  "byteStreamNALUnit s =
     (case byteStreamNALUnit_body s of
        (Inl UndefinedBehaviour, s) \<Rightarrow> throwA UndefinedBehaviour s
      | (r, s) \<Rightarrow> returnA (case r of Inl _ \<Rightarrow> True | Inr _ \<Rightarrow> False)
          (s\<lparr>stats := stats s\<lparr>m_numBytesInNALUnit := length (nalUnit s)\<rparr>\<rparr>))"

section \<open>The look-ahead stream is a list of bytes\<close>

lemma unat_drop_bytes: "unat (drop_bit (8 * k) (w :: u32)) = unat w div 256 ^ k"
  by (simp only: unat_drop_bit_eq) (simp add: drop_bit_eq_div power_mult)

lemma unat_take_bytes: "unat (take_bit (8 * k) (w :: u32)) = unat w mod 256 ^ k"
  by (simp only: unsigned_take_bit_eq) (simp add: take_bit_eq_mod power_mult)

lemma mask_ff_word: "bit (0xff :: u32) i \<longleftrightarrow> i < 8"
  using bit_mask_iff [of 8 i, where 'a = u32]
  by (auto simp: mask_eq_exp_minus_1 dest: bit_imp_le_length)

definition ibs_rel :: "InputByteStream \<Rightarrow> u8 list \<Rightarrow> bool" where
  "ibs_rel s xs \<longleftrightarrow> m_NumFutureBytes s \<le> 4 \<and> m_NumFutureBytes s \<le> length xs
     \<and> m_Input s = drop (m_NumFutureBytes s) xs
     \<and> unat (m_FutureBytes s) = be_nat (take (m_NumFutureBytes s) xs)"

lemma ibs_rel_new: "ibs_rel (new_InputByteStream xs) xs"
  by (simp add: ibs_rel_def new_InputByteStream_def)

lemma ibs_rel_left: "ibs_rel s xs \<Longrightarrow> ibs_left s = length xs"
  by (simp add: ibs_rel_def ibs_left_def)

lemma unat_shift_in:
  assumes "unat (w :: u32) < 256 ^ k" and "k < 4"
  shows "unat (push_bit 8 w OR ucast (b :: u8)) = unat w * 256 + unat b"
proof -
  have "push_bit 8 w OR ucast b = push_bit 8 w + ucast b"
    by (rule disjunctive_add [symmetric]) (auto simp: bit_simps dest: bit_imp_le_length)
  moreover have "unat w * 256 + unat b < 2 ^ 32"
  proof -
    have "(256 :: nat) ^ k \<le> 256 ^ 3" using assms(2) by (intro power_increasing) auto
    then have "unat w < 256 ^ 3" using assms(1) by linarith
    then show ?thesis using unat_u8_lt [of b] by simp
  qed
  ultimately show ?thesis
    by (simp add: push_bit_eq_mult unat_word_ariths)
qed

lemma fill_future_ok:
  "ibs_rel s xs \<Longrightarrow> m_NumFutureBytes s + n \<le> 4 \<Longrightarrow>
     \<exists>t. fill_future n s = (length xs < m_NumFutureBytes s + n, t) \<and> ibs_rel t xs
       \<and> (m_NumFutureBytes s + n \<le> length xs \<longrightarrow> m_NumFutureBytes t = m_NumFutureBytes s + n)"
proof (induction n arbitrary: s)
  case 0
  then show ?case by (auto simp: ibs_rel_def)
next
  case (Suc n)
  let ?k = "m_NumFutureBytes s"
  show ?case
  proof (cases "m_Input s")
    case Nil
    then show ?thesis using Suc.prems by (auto simp: ibs_rel_def)
  next
    case (Cons b bs)
    let ?t = "s\<lparr>m_FutureBytes := push_bit 8 (m_FutureBytes s) OR ucast b,
             m_NumFutureBytes := ?k + 1, m_Input := bs\<rparr>"
    have k: "?k < length xs" "xs ! ?k = b" "bs = drop (Suc ?k) xs"
      using Cons Suc.prems(1) by (auto simp: ibs_rel_def)
         (metis drop_eq_Nil list.distinct(1) not_le, metis hd_drop_conv_nth list.sel(1) drop_eq_Nil list.distinct(1) not_le, metis drop_Suc list.sel(3) tl_drop)
    have u: "unat (m_FutureBytes s) = be_nat (take ?k xs)"
      using Suc.prems(1) by (simp add: ibs_rel_def)
    have "unat (push_bit 8 (m_FutureBytes s) OR ucast b) = unat (m_FutureBytes s) * 256 + unat b"
      by (rule unat_shift_in [of _ ?k]) (use u be_nat_bound [of "take ?k xs"] k Suc.prems(2) in auto)
    then have "ibs_rel ?t xs"
      using k u Suc.prems by (simp add: ibs_rel_def take_Suc_conv_app_nth be_nat_append)
    then show ?thesis using Suc.IH [of ?t] Suc.prems(2) Cons by auto
  qed
qed

lemma eofBefore_ok:
  assumes "ibs_rel s xs" and "n \<le> 4"
  obtains t where "eofBeforeNBytes n s = (Inr (length xs < n), t)" "ibs_rel t xs"
    "n \<le> length xs \<Longrightarrow> n \<le> m_NumFutureBytes t"
proof (cases "n \<le> m_NumFutureBytes s")
  case True
  then show ?thesis using assms that [of s]
    by (auto simp: eofBeforeNBytes_def returnA_def ibs_rel_def)
next
  case False
  then show ?thesis using fill_future_ok [OF assms(1), of "n - m_NumFutureBytes s"] assms(2) that
    by (auto simp: eofBeforeNBytes_def returnA_def)
qed

lemma peek_ok:
  assumes "ibs_rel s xs" and "n \<le> 4" and "n \<le> length xs"
  obtains v t where "peekBytes n s = (Inr v, t)" "ibs_rel t xs" "unat v = be_nat (take n xs)"
proof -
  obtain t where t: "eofBeforeNBytes n s = (Inr (length xs < n), t)" "ibs_rel t xs"
    "n \<le> m_NumFutureBytes t"
    using eofBefore_ok [OF assms(1,2)] assms(3) by metis
  let ?v = "drop_bit (8 * (m_NumFutureBytes t - n)) (m_FutureBytes t)"
  have "unat ?v = unat (m_FutureBytes t) div 256 ^ (m_NumFutureBytes t - n)"
    by (rule unat_drop_bytes)
  also have "\<dots> = be_nat (take n xs)"
    using t be_nat_take [of n "take (m_NumFutureBytes t) xs"]
    by (auto simp: ibs_rel_def min_absorb1)
  finally have "unat ?v = be_nat (take n xs)" .
  moreover have "peekBytes n s = (Inr ?v, t)"
    using t(1,3) by (simp add: peekBytes_def returnA_def)
  ultimately show ?thesis using that t(2) by blast
qed


lemma readByte_ok:
  assumes "ibs_rel s (x # xs)"
  obtains t where "readByte s = (Inr x, t)" "ibs_rel t xs"
proof (cases "m_NumFutureBytes s")
  case 0
  then show ?thesis using assms that [of "s\<lparr>m_Input := xs\<rparr>"]
    by (auto simp: ibs_rel_def readByte_def returnA_def)
next
  case (Suc k)
  let ?w = "m_FutureBytes s"
  have k: "k \<le> 3" "k \<le> length xs" and u: "unat ?w = unat x * 256 ^ k + be_nat (take k xs)"
    using assms Suc by (auto simp: ibs_rel_def min_absorb1)
  have b: "be_nat (take k xs) < 256 ^ k"
    using be_nat_bound [of "take k xs"] k by (simp add: min_absorb1)
  have "unat (drop_bit (8 * k) ?w) = unat ?w div 256 ^ k"
    by (rule unat_drop_bytes)
  also have "\<dots> = unat x" using u b by simp
  finally have "unat (drop_bit (8 * k) ?w) = unat x" .
  then have x: "ucast (drop_bit (8 * k) ?w) = x"
    by (metis of_nat_unat ucast_id)
  have hi: "bit ?w i \<Longrightarrow> i < 8 * Suc k" for i
  proof (rule ccontr)
    assume "bit ?w i" "\<not> i < 8 * Suc k"
    moreover have "unat ?w < 2 ^ (8 * Suc k)"
    proof -
      have "unat ?w < (unat x + 1) * 256 ^ k" using u b by simp
      also have "\<dots> \<le> 256 * 256 ^ k" using unat_u8_lt [of x] by (intro mult_right_mono) auto
      also have "\<dots> = 2 ^ (8 * Suc k)" unfolding power_mult by simp
      finally show ?thesis .
    qed
    ultimately show False using word_bounded_bit [of ?w "8 * Suc k" i] by auto
  qed
  have "?w AND NOT (push_bit (8 * k) 0xff) = take_bit (8 * k) ?w"
  proof (rule bit_word_eqI)
    fix i assume "i < LENGTH(32)"
    then show "bit (?w AND NOT (push_bit (8 * k) 0xff)) i = bit (take_bit (8 * k) ?w) i"
      using hi [of i] mask_ff_word [of "i - 8 * k"] by (auto simp: bit_simps)
  qed
  then have "unat (?w AND NOT (push_bit (8 * k) 0xff)) = unat ?w mod 256 ^ k"
    by (simp only: unat_take_bytes)
  also have "\<dots> = be_nat (take k xs)" using u b by simp
  finally have "unat (?w AND NOT (push_bit (8 * k) 0xff)) = be_nat (take k xs)" .
  then show ?thesis
    using that [of "s\<lparr>m_NumFutureBytes := k, m_FutureBytes := ?w AND NOT (push_bit (8 * k) 0xff)\<rparr>"]
      assms Suc x k by (auto simp: ibs_rel_def readByte_def returnA_def)
qed

lemma readByte_eof:
  assumes "ibs_rel s []"
  shows "readByte s = (Inl EndOfStream, s)"
  using assms by (simp add: ibs_rel_def readByte_def throwA_def)

text \<open>
  The contract of a byte source with look-ahead: whatever it holds internally, it is a list of bytes
  of which the first can be inspected and consumed.
\<close>

locale byte_source =
  fixes rel :: "'s \<Rightarrow> u8 list \<Rightarrow> bool"
    and eof :: "nat \<Rightarrow> ('s, bool) action"
    and peek :: "nat \<Rightarrow> ('s, u32) action"
    and get :: "('s, u8) action"
    and bound :: nat
  assumes eof_law: "rel s xs \<Longrightarrow> n \<le> bound \<Longrightarrow> \<exists>t. eof n s = (Inr (length xs < n), t) \<and> rel t xs"
    and peek_law: "rel s xs \<Longrightarrow> n \<le> bound \<Longrightarrow> n \<le> length xs \<Longrightarrow>
      \<exists>v t. peek n s = (Inr v, t) \<and> rel t xs \<and> unat v = be_nat (take n xs)"
    and get_law: "rel s (x # xs) \<Longrightarrow> \<exists>t. get s = (Inr x, t) \<and> rel t xs"
    and get_eof: "rel s [] \<Longrightarrow> get s = (Inl EndOfStream, s)"
begin

lemma eof_or_peek_law:
  assumes "rel s xs" and "n \<le> bound" and c: "\<And>v. c v \<longleftrightarrow> d (unat v)"
  shows "\<exists>t. bindA (eof n) (\<lambda>e. if e then returnA True else bindA (peek n) (\<lambda>v. returnA (c v))) s
           = (Inr (length xs < n \<or> d (be_nat (take n xs))), t) \<and> rel t xs"
proof -
  obtain t where t: "eof n s = (Inr (length xs < n), t)" "rel t xs"
    using eof_law [OF assms(1,2)] by blast
  show ?thesis
  proof (cases "length xs < n")
    case True
    then show ?thesis using t by (simp add: returnA_def)
  next
    case False
    then obtain v u where "peek n t = (Inr v, u)" "rel u xs" "unat v = be_nat (take n xs)"
      using peek_law [OF t(2) assms(2)] by auto
    then show ?thesis using t False c by (simp add: returnA_def)
  qed
qed

lemma get_cases:
  assumes "rel s xs"
  shows "(xs = [] \<longrightarrow> get s = (Inl EndOfStream, s))
    \<and> (\<forall>x ys. xs = x # ys \<longrightarrow> (\<exists>t. get s = (Inr x, t) \<and> rel t ys))"
  using assms get_law get_eof by blast

end

interpretation ibs: byte_source ibs_rel eofBeforeNBytes peekBytes readByte 4
  by unfold_locales
    (metis eofBefore_ok, metis peek_ok, metis readByte_ok, rule readByte_eof)

section \<open>What a search finds, on lists of bytes\<close>

definition start_code_at :: "u8 list \<Rightarrow> bool" where
  "start_code_at xs \<longleftrightarrow> take 3 xs = [0, 0, 1] \<or> take 4 xs = [0, 0, 0, 1]"

definition nal_end_at :: "u8 list \<Rightarrow> bool" where
  "nal_end_at xs \<longleftrightarrow> take 3 xs \<in> {[0, 0, 0], [0, 0, 1], [0, 0, 2]}"

fun skip_zeros :: "error \<Rightarrow> u8 list \<Rightarrow> nat \<times> unit result \<times> u8 list" where
  "skip_zeros e [] = (0, Inl EndOfStream, [])"
| "skip_zeros e (x # xs) =
     (if start_code_at (x # xs) then (0, Inr (), x # xs)
      else if x \<noteq> 0 then (0, Inl e, xs)
      else let (k, r, ys) = skip_zeros e xs in (k + 1, r, ys))"

fun nal_body :: "u8 list \<Rightarrow> u8 list \<times> u8 list" where
  "nal_body [] = ([], [])"
| "nal_body (x # xs) =
     (if nal_end_at (x # xs) then ([], x # xs)
      else let (b, r) = nal_body xs in (x # b, r))"

lemma be_nat_3:
  assumes "3 \<le> length xs"
  shows "be_nat (take 3 xs) = 1 \<longleftrightarrow> take 3 xs = [0, 0, 1]"
    and "be_nat (take 3 xs) \<le> 2 \<longleftrightarrow> nal_end_at xs"
proof -
  have inj: "be_nat (take 3 xs) = be_nat [0, 0, c] \<longleftrightarrow> take 3 xs = [0, 0, c]" for c
    using assms by (intro be_nat_inject) simp
  show "be_nat (take 3 xs) = 1 \<longleftrightarrow> take 3 xs = [0, 0, 1]"
    using inj [of 1] by simp
  show "be_nat (take 3 xs) \<le> 2 \<longleftrightarrow> nal_end_at xs"
  proof -
    have "n \<le> 2 \<longleftrightarrow> n = 0 \<or> n = 1 \<or> n = 2" for n :: nat by linarith
    then show ?thesis
      using inj [of 0] inj [of 1] inj [of 2, simplified] by (auto simp: nal_end_at_def)
  qed
qed

lemma be_nat_4:
  assumes "4 \<le> length xs"
  shows "be_nat (take 4 xs) = 1 \<longleftrightarrow> take 4 xs = [0, 0, 0, 1]"
  using be_nat_inject [of "take 4 xs" "[0, 0, 0, 1]"] assms by simp

lemma eof_or_peek_ibs:
  assumes "ibs_rel s xs" and "n \<le> 4" and "\<And>v. c v \<longleftrightarrow> d (unat v)"
  shows "\<exists>t. eof_or_peek n c s = (Inr (length xs < n \<or> d (be_nat (take n xs))), t) \<and> ibs_rel t xs"
  unfolding eof_or_peek_def by (rule ibs.eof_or_peek_law) (fact assms)+

lemma unat_eq_1: "unat (v :: u32) = 1 \<longleftrightarrow> v = 1"
  using unat_1 [where 'a = 32] by (metis word_unat_eq_iff)

lemma eof_or_peek_1:
  assumes "ibs_rel s xs" and "n \<le> 4"
  shows "\<exists>t. eof_or_peek n (\<lambda>v. v \<noteq> 1) s
           = (Inr (length xs < n \<or> be_nat (take n xs) \<noteq> 1), t) \<and> ibs_rel t xs"
  by (rule eof_or_peek_ibs [OF assms, where d = "\<lambda>n. n \<noteq> 1"]) (simp only: unat_eq_1)

lemma not_start_code_ok:
  assumes "ibs_rel s xs"
  shows "\<exists>t. not_start_code s = (Inr (\<not> start_code_at xs), t) \<and> ibs_rel t xs"
proof -
  obtain t where t: "eof_or_peek 3 (\<lambda>v. v \<noteq> 1) s = (Inr (length xs < 3 \<or> be_nat (take 3 xs) \<noteq> 1), t)"
    "ibs_rel t xs"
    using eof_or_peek_1 [OF assms, of 3] by auto
  obtain u where u: "eof_or_peek 4 (\<lambda>v. v \<noteq> 1) t = (Inr (length xs < 4 \<or> be_nat (take 4 xs) \<noteq> 1), u)"
    "ibs_rel u xs"
    using eof_or_peek_1 [OF t(2), of 4] by auto
  have 3: "length xs < 3 \<or> be_nat (take 3 xs) \<noteq> 1 \<longleftrightarrow> take 3 xs \<noteq> [0, 0, 1]"
    using be_nat_3(1) [of xs] by (cases "length xs < 3") (auto dest: arg_cong [of _ _ length])
  have 4: "length xs < 4 \<or> be_nat (take 4 xs) \<noteq> 1 \<longleftrightarrow> take 4 xs \<noteq> [0, 0, 0, 1]"
    using be_nat_4 [of xs] by (cases "length xs < 4") (auto dest: arg_cong [of _ _ length])
  show ?thesis
    using t u unfolding 3 4 by (auto simp: not_start_code_def start_code_at_def returnA_def)
qed

lemma nal_continues_ok:
  assumes "ibs_rel s xs"
  shows "\<exists>t. eof_or_peek 3 (\<lambda>v. v > 2) s = (Inr (\<not> nal_end_at xs), t) \<and> ibs_rel t xs"
proof -
  have d: "2 < (v :: u32) \<longleftrightarrow> \<not> unat v \<le> 2" for v by (simp add: word_less_nat_alt not_le)
  have "length xs < 3 \<or> \<not> be_nat (take 3 xs) \<le> 2 \<longleftrightarrow> \<not> nal_end_at xs"
    using be_nat_3(2) [of xs]
    by (cases "length xs < 3") (auto simp: nal_end_at_def dest: arg_cong [of _ _ length])
  then show ?thesis
    using eof_or_peek_ibs [OF assms, of 3 "\<lambda>v. v > 2" "\<lambda>n. \<not> n \<le> 2"] by (simp add: d)
qed

lemma onBs_eq: "m (byteStream s) = (r, b) \<Longrightarrow> onBs m s = (r, s\<lparr>byteStream := b\<rparr>)"
  by (simp add: onBs_def)

lemma start_code_not_Nil [simp]: "\<not> start_code_at []"
  by (simp add: start_code_at_def)

lemma zeros_turn:
  assumes rel: "ibs_rel (byteStream s) (x # xs)" and "\<not> start_code_at (x # xs)"
  obtains t u where "onBs not_start_code s = (Inr True, s\<lparr>byteStream := t\<rparr>)"
    "onBs readByte (s\<lparr>byteStream := t\<rparr>) = (Inr x, s\<lparr>byteStream := u\<rparr>)" "ibs_rel u xs"
proof -
  obtain t where t: "not_start_code (byteStream s) = (Inr True, t)" "ibs_rel t (x # xs)"
    using not_start_code_ok [OF rel] assms(2) by auto
  obtain u where u: "readByte t = (Inr x, u)" "ibs_rel u xs"
    using readByte_ok [OF t(2)] by blast
  have "onBs readByte (s\<lparr>byteStream := t\<rparr>) = (Inr x, s\<lparr>byteStream := u\<rparr>)"
    using u by (simp add: onBs_def)
  then show ?thesis using that t u onBs_eq [of not_start_code s, OF t(1)] by blast
qed

lemma zeros_end:
  assumes rel: "ibs_rel (byteStream s) []"
  obtains t where "onBs not_start_code s = (Inr True, s\<lparr>byteStream := t\<rparr>)"
    "onBs readByte (s\<lparr>byteStream := t\<rparr>) = (Inl EndOfStream, s\<lparr>byteStream := t\<rparr>)" "ibs_rel t []"
proof -
  obtain t where t: "not_start_code (byteStream s) = (Inr True, t)" "ibs_rel t []"
    using not_start_code_ok [OF rel] by auto
  then show ?thesis
    using that onBs_eq [of not_start_code s, OF t(1)] readByte_eof [OF t(2)] by (auto simp: onBs_def)
qed

lemma zeros_stop:
  assumes rel: "ibs_rel (byteStream s) xs" and "start_code_at xs"
  obtains t where "onBs not_start_code s = (Inr False, s\<lparr>byteStream := t\<rparr>)" "ibs_rel t xs"
  using not_start_code_ok [OF rel] assms(2) onBs_eq [of not_start_code s] by auto

lemma discard_zeros_ok:
  "ibs_rel (byteStream s) xs \<Longrightarrow> skip_zeros e xs = (k, r, ys) \<Longrightarrow>
     \<exists>t. discard_zeros e count s = (r, s\<lparr>byteStream := t, stats := (count ^^ k) (stats s)\<rparr>)
       \<and> ibs_rel t ys"
proof (induction xs arbitrary: s k)
  case Nil
  then obtain t where t: "onBs not_start_code s = (Inr True, s\<lparr>byteStream := t\<rparr>)"
    "onBs readByte (s\<lparr>byteStream := t\<rparr>) = (Inl EndOfStream, s\<lparr>byteStream := t\<rparr>)" "ibs_rel t []"
    using zeros_end by blast
  then show ?case using Nil.prems(2) by (subst discard_zeros.simps) auto
next
  case (Cons x xs)
  show ?case
  proof (cases "start_code_at (x # xs)")
    case True
    then obtain t where t: "onBs not_start_code s = (Inr False, s\<lparr>byteStream := t\<rparr>)"
      "ibs_rel t (x # xs)"
      using zeros_stop Cons.prems(1) by blast
    show ?thesis using Cons.prems(2) True t(2)
      by (subst discard_zeros.simps) (auto simp: returnA_def t(1))
  next
    case False
    obtain t u where t: "onBs not_start_code s = (Inr True, s\<lparr>byteStream := t\<rparr>)"
      "onBs readByte (s\<lparr>byteStream := t\<rparr>) = (Inr x, s\<lparr>byteStream := u\<rparr>)" "ibs_rel u xs"
      by (rule zeros_turn [OF Cons.prems(1) False])
    let ?s = "s\<lparr>byteStream := u, stats := count (stats s)\<rparr>"
    have step: "discard_zeros e count s
        = (if x \<noteq> 0 then (Inl e, s\<lparr>byteStream := u\<rparr>) else discard_zeros e count ?s)"
      by (subst discard_zeros.simps) (simp add: t throwA_def)
    show ?thesis
    proof (cases "x = 0")
      case True
      then obtain k' where "skip_zeros e xs = (k', r, ys)" "k = k' + 1"
        using Cons.prems(2) False by (auto split: prod.splits)
      then show ?thesis using Cons.IH [of ?s k'] t(3) True
        by (auto simp: step funpow_swap1)
    next
      case False
      then show ?thesis using Cons.prems(2) \<open>\<not> start_code_at (x # xs)\<close> t(3)
        by (auto simp: step)
    qed
  qed
qed

lemma nal_end_not_Nil [simp]: "\<not> nal_end_at []"
  by (simp add: nal_end_at_def)

lemma nal_bytes_ok:
  "ibs_rel (byteStream s) xs \<Longrightarrow> nal_body xs = (b, r) \<Longrightarrow>
     \<exists>t. nal_bytes s = (if r = [] then Inl EndOfStream else Inr (),
                        s\<lparr>byteStream := t, nalUnit := nalUnit s @ b\<rparr>) \<and> ibs_rel t r"
proof (induction xs arbitrary: s b)
  case Nil
  obtain t where t: "eof_or_peek 3 (\<lambda>v. v > 2) (byteStream s) = (Inr True, t)" "ibs_rel t []"
    using nal_continues_ok [OF Nil.prems(1)] by auto
  have "onBs readByte (s\<lparr>byteStream := t\<rparr>) = (Inl EndOfStream, s\<lparr>byteStream := t\<rparr>)"
    using readByte_eof [OF t(2)] by (simp add: onBs_def)
  then show ?case using Nil.prems(2) t(2) onBs_eq [of "eof_or_peek 3 (\<lambda>v. v > 2)" s, OF t(1)] by (subst nal_bytes.simps) auto
next
  case (Cons x xs)
  obtain t where t: "eof_or_peek 3 (\<lambda>v. v > 2) (byteStream s) = (Inr (\<not> nal_end_at (x # xs)), t)"
    "ibs_rel t (x # xs)"
    using nal_continues_ok [OF Cons.prems(1)] by blast
  show ?case
  proof (cases "nal_end_at (x # xs)")
    case True
    then have "onBs (eof_or_peek 3 (\<lambda>v. v > 2)) s = (Inr False, s\<lparr>byteStream := t\<rparr>)"
      using onBs_eq [of "eof_or_peek 3 (\<lambda>v. v > 2)" s, OF t(1)] by simp
    then show ?thesis using Cons.prems(2) True t(2)
      by (subst nal_bytes.simps) (auto simp: returnA_def)
  next
    case False
    then have c: "onBs (eof_or_peek 3 (\<lambda>v. v > 2)) s = (Inr True, s\<lparr>byteStream := t\<rparr>)"
      using onBs_eq [of "eof_or_peek 3 (\<lambda>v. v > 2)" s, OF t(1)] by simp
    obtain u where u: "readByte t = (Inr x, u)" "ibs_rel u xs"
      using readByte_ok [OF t(2)] by blast
    let ?s = "s\<lparr>byteStream := u, nalUnit := nalUnit s @ [x]\<rparr>"
    have "onBs readByte (s\<lparr>byteStream := t\<rparr>) = (Inr x, s\<lparr>byteStream := u\<rparr>)"
      using u by (simp add: onBs_def)
    then have step: "nal_bytes s = nal_bytes ?s"
      by (subst nal_bytes.simps) (simp add: c)
    obtain b' where "nal_body xs = (b', r)" "b = x # b'"
      using Cons.prems(2) False by (auto split: prod.splits)
    then show ?thesis using Cons.IH [of ?s b'] u(2) by (auto simp: step)
  qed
qed

text \<open>The whole search on a list: end of file, the bytes of the unit, what was counted, what is left.\<close>

definition annexb_next :: "u8 list \<Rightarrow> bool \<times> u8 list \<times> AnnexBStats \<times> u8 list" where
  "annexb_next xs =
     (let (k, r, ys) = skip_zeros leading_error xs in
      if r \<noteq> Inr () then (True, [], \<lparr>m_numLeadingZero8BitsBytes = k, m_numZeroByteBytes = 0,
        m_numStartCodePrefixBytes = 0, m_numBytesInNALUnit = 0, m_numTrailingZero8BitsBytes = 0\<rparr>, ys)
      else
        let z = (if take 3 ys = [0, 0, 1] then 0 else 1);
            (b, q) = nal_body (drop (3 + z) ys);
            (j, e, us) = (if q = [] then (0, Inl EndOfStream, []) else skip_zeros trailing_error q)
        in (e \<noteq> Inr (), b, \<lparr>m_numLeadingZero8BitsBytes = k, m_numZeroByteBytes = z,
        m_numStartCodePrefixBytes = 3, m_numBytesInNALUnit = length b,
        m_numTrailingZero8BitsBytes = j\<rparr>, us))"

lemma skip_zeros_start_code: "skip_zeros e xs = (k, Inr (), ys) \<Longrightarrow> start_code_at ys"
  by (induction xs arbitrary: k) (auto split: if_splits prod.splits)

lemma skip_zeros_no_UB: "skip_zeros e xs = (k, Inl UndefinedBehaviour, ys) \<Longrightarrow> e = UndefinedBehaviour"
  by (induction xs arbitrary: k) (auto split: if_splits prod.splits)

lemma start_code_cases:
  assumes "start_code_at xs"
  obtains rest where "xs = [0, 0, 1] @ rest" | rest where "xs = [0, 0, 0, 1] @ rest"
  using assms unfolding start_code_at_def by (metis append_take_drop_id)

lemma readBytes_3:
  assumes "ibs_rel s (a # b # c # xs)"
  obtains t where "readBytes 3 s = (Inr (push_bit 8 (push_bit 8 (ucast a) OR ucast b) OR ucast c), t)"
    "ibs_rel t xs"
proof -
  obtain s1 where 1: "readByte s = (Inr a, s1)" "ibs_rel s1 (b # c # xs)"
    using readByte_ok [OF assms] by blast
  obtain s2 where 2: "readByte s1 = (Inr b, s2)" "ibs_rel s2 (c # xs)"
    using readByte_ok [OF 1(2)] by blast
  obtain s3 where 3: "readByte s2 = (Inr c, s3)" "ibs_rel s3 xs"
    using readByte_ok [OF 2(2)] by blast
  have "readBytes 3 s = (Inr (push_bit 8 (push_bit 8 (ucast a) OR ucast b) OR ucast c), s3)"
    by (simp add: readBytes_def numeral_3_eq_3 1(1) 2(1) 3(1) returnA_def)
  then show ?thesis using that 3(2) by blast
qed

lemma zero_byte_ok:
  assumes rel: "ibs_rel (byteStream s) ys" and "start_code_at ys"
  defines "z \<equiv> if take 3 ys = [0, 0, 1] then 0 else 1"
  shows "\<exists>t. zero_byte s = (Inr (), s\<lparr>byteStream := t,
      stats := stats s\<lparr>m_numZeroByteBytes := m_numZeroByteBytes (stats s) + z\<rparr>\<rparr>)
    \<and> ibs_rel t (drop z ys)"
proof -
  have len: "3 \<le> length ys" using assms(2) by (auto elim!: start_code_cases)
  obtain v t where t: "peekBytes 3 (byteStream s) = (Inr v, t)" "ibs_rel t ys"
    "unat v = be_nat (take 3 ys)"
    using peek_ok [OF rel _ len] by auto
  have v: "v = 1 \<longleftrightarrow> take 3 ys = [0, 0, 1]"
    using be_nat_3(1) [OF len] t(3) by (simp only: unat_eq_1 [symmetric])
  have p: "onBs (peekBytes 3) s = (Inr v, s\<lparr>byteStream := t\<rparr>)" using onBs_eq [of "peekBytes 3" s, OF t(1)] .
  show ?thesis
  proof (cases "take 3 ys = [0, 0, 1]")
    case True
    then show ?thesis using p v t(2) by (auto simp: zero_byte_def z_def returnA_def)
  next
    case False
    then obtain rest where ys: "ys = 0 # [0, 0, 1] @ rest"
      using assms(2) by (auto elim!: start_code_cases)
    obtain u where u: "readByte t = (Inr 0, u)" "ibs_rel u ([0, 0, 1] @ rest)"
      using readByte_ok [of t 0 "[0, 0, 1] @ rest"] t(2) ys by auto
    have "onBs readByte (s\<lparr>byteStream := t\<rparr>) = (Inr 0, s\<lparr>byteStream := u\<rparr>)"
      using u by (simp add: onBs_def)
    then show ?thesis using p v False u(2) ys
      by (auto simp: zero_byte_def z_def returnA_def)
  qed
qed

lemma start_code_prefix_ok:
  assumes "ibs_rel (byteStream s) ([0, 0, 1] @ rest)"
  shows "\<exists>t. start_code_prefix s = (Inr (), s\<lparr>byteStream := t,
      stats := stats s\<lparr>m_numStartCodePrefixBytes := m_numStartCodePrefixBytes (stats s) + 3\<rparr>\<rparr>)
    \<and> ibs_rel t rest"
proof -
  obtain t where "readBytes 3 (byteStream s) = (Inr 1, t)" "ibs_rel t rest"
    using readBytes_3 [of "byteStream s" 0 0 1 rest] assms by auto
  then show ?thesis
    by (auto simp: start_code_prefix_def onBs_def returnA_def)
qed

lemma funpow_count_leading:
  "(count_leading ^^ k) st = st\<lparr>m_numLeadingZero8BitsBytes := m_numLeadingZero8BitsBytes st + k\<rparr>"
  by (induction k) (simp_all add: count_leading_def)

lemma funpow_count_trailing:
  "(count_trailing ^^ k) st = st\<lparr>m_numTrailingZero8BitsBytes := m_numTrailingZero8BitsBytes st + k\<rparr>"
  by (induction k) (simp_all add: count_trailing_def)

definition new_search :: "InputByteStream \<Rightarrow> NalSearch" where
  "new_search b = \<lparr>byteStream = b, nalUnit = [], stats = no_stats\<rparr>"

lemma byteStreamNALUnit_catch:
  assumes "byteStreamNALUnit_body s = (r, t)" and "r \<noteq> Inl UndefinedBehaviour"
  shows "byteStreamNALUnit s
      = (Inr (r \<noteq> Inr ()), t\<lparr>stats := stats t\<lparr>m_numBytesInNALUnit := length (nalUnit t)\<rparr>\<rparr>)"
  using assms by (cases r) (auto simp: byteStreamNALUnit_def returnA_def split: error.splits)

lemma byteStreamNALUnit_refines:
  assumes rel: "ibs_rel b xs"
    and spec: "annexb_next xs = (eof, unit, st, rest)"
  shows "\<exists>t. byteStreamNALUnit (new_search b) = (Inr eof, \<lparr>byteStream = t, nalUnit = unit, stats = st\<rparr>)
    \<and> ibs_rel t rest"
proof -
  obtain k r ys where sk: "skip_zeros leading_error xs = (k, r, ys)" by (metis prod_cases3)
  have rel0: "ibs_rel (byteStream (new_search b)) xs" using rel by (simp add: new_search_def)
  obtain t1 where t1: "leading_zeros (new_search b) = (r, new_search b\<lparr>byteStream := t1,
      stats := (count_leading ^^ k) no_stats\<rparr>)" "ibs_rel t1 ys"
    using discard_zeros_ok [OF rel0 sk] by (auto simp: leading_zeros_def new_search_def)
  show ?thesis
  proof (cases r)
    case (Inl e)
    have "e \<noteq> UndefinedBehaviour"
      using skip_zeros_no_UB [of _ _ k ys] sk Inl by (auto simp: leading_error_def)
    moreover have "byteStreamNALUnit_body (new_search b)
        = (Inl e, new_search b\<lparr>byteStream := t1, stats := (count_leading ^^ k) no_stats\<rparr>)"
      using t1(1) Inl by (simp add: byteStreamNALUnit_body_def)
    ultimately show ?thesis
      using byteStreamNALUnit_catch spec sk Inl t1(2)
      by (auto simp: annexb_next_def funpow_count_leading no_stats_def new_search_def)
  next
    case (Inr u)
    then have sc: "start_code_at ys" using skip_zeros_start_code sk by simp
    define z :: nat where "z = (if take 3 ys = [0, 0, 1] then 0 else 1)"
    let ?s1 = "new_search b\<lparr>byteStream := t1, stats := (count_leading ^^ k) no_stats\<rparr>"
    obtain t2 where t2: "zero_byte ?s1 = (Inr (), ?s1\<lparr>byteStream := t2,
        stats := stats ?s1\<lparr>m_numZeroByteBytes := z\<rparr>\<rparr>)" "ibs_rel t2 (drop z ys)"
      using zero_byte_ok [of ?s1 ys] t1(2) sc
      by (auto simp: z_def funpow_count_leading no_stats_def)
    let ?s2 = "?s1\<lparr>byteStream := t2, stats := stats ?s1\<lparr>m_numZeroByteBytes := z\<rparr>\<rparr>"
    obtain tl where tl: "drop z ys = [0, 0, 1] @ tl" "drop (3 + z) ys = tl"
      using sc by (auto simp: z_def elim!: start_code_cases)
    obtain t3 where t3: "start_code_prefix ?s2 = (Inr (), ?s2\<lparr>byteStream := t3,
        stats := stats ?s2\<lparr>m_numStartCodePrefixBytes := 3\<rparr>\<rparr>)" "ibs_rel t3 tl"
      using start_code_prefix_ok [of ?s2 tl] t2(2) tl(1)
      by (auto simp: funpow_count_leading no_stats_def)
    let ?s3 = "?s2\<lparr>byteStream := t3, stats := stats ?s2\<lparr>m_numStartCodePrefixBytes := 3\<rparr>\<rparr>"
    obtain body q where bq: "nal_body tl = (body, q)" by fastforce
    obtain t4 where t4: "nal_bytes ?s3 = (if q = [] then Inl EndOfStream else Inr (),
        ?s3\<lparr>byteStream := t4, nalUnit := body\<rparr>)" "ibs_rel t4 q"
      using nal_bytes_ok [of ?s3 tl, OF _ bq] t3(2) by (auto simp: new_search_def)
    let ?s4 = "?s3\<lparr>byteStream := t4, nalUnit := body\<rparr>"
    have pre: "byteStreamNALUnit_body (new_search b)
        = (if q = [] then (Inl EndOfStream, ?s4) else trailing_zeros ?s4)"
      using t1(1) t2(1) t3(1) t4(1) Inr by (simp add: byteStreamNALUnit_body_def)
    show ?thesis
    proof (cases "q = []")
      case True
      then show ?thesis
        using byteStreamNALUnit_catch [of "new_search b" "Inl EndOfStream" ?s4] pre spec sk Inr bq tl t4(2)
        by (auto simp: annexb_next_def funpow_count_leading no_stats_def new_search_def z_def Let_def)
    next
      case False
      obtain j e us where tr: "skip_zeros trailing_error q = (j, e, us)" by (metis prod_cases3)
      obtain t5 where t5: "trailing_zeros ?s4 = (e, ?s4\<lparr>byteStream := t5,
          stats := (count_trailing ^^ j) (stats ?s4)\<rparr>)" "ibs_rel t5 us"
        using discard_zeros_ok [of ?s4 q trailing_error j e us count_trailing] t4(2) tr
        by (auto simp: trailing_zeros_def)
      have "e \<noteq> Inl UndefinedBehaviour"
        using skip_zeros_no_UB [of trailing_error q j us] tr by (auto simp: trailing_error_def)
      then show ?thesis
        using byteStreamNALUnit_catch [of "new_search b" e] pre False t5 spec sk Inr bq tl tr
        by (auto simp: annexb_next_def funpow_count_leading funpow_count_trailing no_stats_def
            new_search_def z_def Let_def)
    qed
  qed
qed

end
