(* ===== verification/Nal.thy ===== *)
theory Nal
  imports VLC
begin

unbundle bit_operations_syntax

text \<open>
  NAL units: \<open>NALUnit\<close> of \<open>source/Lib/CommonLib/NAL.h\<close>, the writer of
  \<open>source/Lib/EncoderLib/NALwrite.cpp\<close>, which inserts the emulation prevention bytes, and the reader
  of \<open>source/Lib/DecoderLib/NALread.cpp\<close>, which removes them in place and parses the header.
\<close>

section \<open>NAL unit types and headers\<close>

datatype NalUnitType =
    NAL_UNIT_CODED_SLICE_TRAIL | NAL_UNIT_CODED_SLICE_STSA | NAL_UNIT_CODED_SLICE_RADL
  | NAL_UNIT_CODED_SLICE_RASL | NAL_UNIT_RESERVED_VCL_4 | NAL_UNIT_RESERVED_VCL_5
  | NAL_UNIT_RESERVED_VCL_6 | NAL_UNIT_CODED_SLICE_IDR_W_RADL | NAL_UNIT_CODED_SLICE_IDR_N_LP
  | NAL_UNIT_CODED_SLICE_CRA | NAL_UNIT_CODED_SLICE_GDR | NAL_UNIT_RESERVED_IRAP_VCL_11
  | NAL_UNIT_RESERVED_IRAP_VCL_12 | NAL_UNIT_DCI | NAL_UNIT_VPS | NAL_UNIT_SPS | NAL_UNIT_PPS
  | NAL_UNIT_PREFIX_APS | NAL_UNIT_SUFFIX_APS | NAL_UNIT_PH | NAL_UNIT_ACCESS_UNIT_DELIMITER
  | NAL_UNIT_EOS | NAL_UNIT_EOB | NAL_UNIT_PREFIX_SEI | NAL_UNIT_SUFFIX_SEI | NAL_UNIT_FD
  | NAL_UNIT_RESERVED_NVCL_26 | NAL_UNIT_RESERVED_NVCL_27 | NAL_UNIT_UNSPECIFIED_28
  | NAL_UNIT_UNSPECIFIED_29 | NAL_UNIT_UNSPECIFIED_30 | NAL_UNIT_UNSPECIFIED_31
  | NAL_UNIT_INVALID

text \<open>The enumerators in order; the value of each is its position.\<close>

definition nalUnitTypes :: "NalUnitType list" where
  "nalUnitTypes =
    [NAL_UNIT_CODED_SLICE_TRAIL, NAL_UNIT_CODED_SLICE_STSA, NAL_UNIT_CODED_SLICE_RADL,
     NAL_UNIT_CODED_SLICE_RASL, NAL_UNIT_RESERVED_VCL_4, NAL_UNIT_RESERVED_VCL_5,
     NAL_UNIT_RESERVED_VCL_6, NAL_UNIT_CODED_SLICE_IDR_W_RADL, NAL_UNIT_CODED_SLICE_IDR_N_LP,
     NAL_UNIT_CODED_SLICE_CRA, NAL_UNIT_CODED_SLICE_GDR, NAL_UNIT_RESERVED_IRAP_VCL_11,
     NAL_UNIT_RESERVED_IRAP_VCL_12, NAL_UNIT_DCI, NAL_UNIT_VPS, NAL_UNIT_SPS, NAL_UNIT_PPS,
     NAL_UNIT_PREFIX_APS, NAL_UNIT_SUFFIX_APS, NAL_UNIT_PH, NAL_UNIT_ACCESS_UNIT_DELIMITER,
     NAL_UNIT_EOS, NAL_UNIT_EOB, NAL_UNIT_PREFIX_SEI, NAL_UNIT_SUFFIX_SEI, NAL_UNIT_FD,
     NAL_UNIT_RESERVED_NVCL_26, NAL_UNIT_RESERVED_NVCL_27, NAL_UNIT_UNSPECIFIED_28,
     NAL_UNIT_UNSPECIFIED_29, NAL_UNIT_UNSPECIFIED_30, NAL_UNIT_UNSPECIFIED_31, NAL_UNIT_INVALID]"

fun position :: "'a list \<Rightarrow> 'a \<Rightarrow> nat" where
  "position [] t = 0"
| "position (x # xs) t = (if x = t then 0 else position xs t + 1)"

definition nut_value :: "NalUnitType \<Rightarrow> u32" where
  "nut_value t = of_nat (position nalUnitTypes t)"

definition nut_of_value :: "u32 \<Rightarrow> NalUnitType" where
  "nut_of_value v = nalUnitTypes ! unat v"

lemma nut_of_value_value: "nut_of_value (nut_value t) = t"
  by (cases t) (simp_all add: nut_of_value_def nut_value_def nalUnitTypes_def)

lemma nut_value_lt: "t \<noteq> NAL_UNIT_INVALID \<Longrightarrow> unat (nut_value t) < 32"
  by (cases t) (simp_all add: nut_value_def nalUnitTypes_def)

record NALUnit =
  m_nalUnitType :: NalUnitType
  m_temporalId :: u32
  m_nuhLayerId :: u32
  m_forbiddenZeroBit :: u32
  m_nuhReservedZeroBit :: u32

definition isSlice :: "'z NALUnit_scheme \<Rightarrow> bool" where
  "isSlice n \<longleftrightarrow> m_nalUnitType n \<in> {NAL_UNIT_CODED_SLICE_TRAIL, NAL_UNIT_CODED_SLICE_STSA,
     NAL_UNIT_CODED_SLICE_IDR_W_RADL, NAL_UNIT_CODED_SLICE_IDR_N_LP, NAL_UNIT_CODED_SLICE_CRA,
     NAL_UNIT_CODED_SLICE_GDR, NAL_UNIT_CODED_SLICE_RADL, NAL_UNIT_CODED_SLICE_RASL}"

definition isSei :: "'z NALUnit_scheme \<Rightarrow> bool" where
  "isSei n \<longleftrightarrow> m_nalUnitType n = NAL_UNIT_PREFIX_SEI \<or> m_nalUnitType n = NAL_UNIT_SUFFIX_SEI"

definition isVclNalUnitType :: "NalUnitType \<Rightarrow> bool" where
  "isVclNalUnitType t \<longleftrightarrow> t \<in> {NAL_UNIT_CODED_SLICE_TRAIL, NAL_UNIT_CODED_SLICE_STSA,
     NAL_UNIT_CODED_SLICE_RADL, NAL_UNIT_CODED_SLICE_RASL, NAL_UNIT_CODED_SLICE_IDR_W_RADL,
     NAL_UNIT_CODED_SLICE_IDR_N_LP, NAL_UNIT_CODED_SLICE_CRA, NAL_UNIT_CODED_SLICE_GDR}"

definition isVcl :: "'z NALUnit_scheme \<Rightarrow> bool" where
  "isVcl n = isVclNalUnitType (m_nalUnitType n)"

record OutputNALUnit = NALUnit +
  out_Bitstream :: OutputBitstream

record InputNALUnit = NALUnit +
  in_Bitstream :: InputBitstream

section \<open>Writing a NAL unit\<close>

definition writeNalUnitHeader_bits :: "'z NALUnit_scheme \<Rightarrow> writer" where
  "writeNalUnitHeader_bits nalu = seqW
     [out_write 0 1,
      out_write 0 1,
      checkW (m_nuhLayerId nalu > 55)
        ''The value of nuh_layer_id shall be in the range of 0 to 55, inclusive'',
      out_write (m_nuhLayerId nalu) 6,
      out_write (nut_value (m_nalUnitType nalu)) 5,
      out_write (m_temporalId nalu + 1) 3]"

definition writeNalUnitHeader :: "'z NALUnit_scheme \<Rightarrow> u8 list result" where
  "writeNalUnitHeader nalu = bindE (writeNalUnitHeader_bits nalu new_out) (\<lambda>s. Inr (out_fifo s))"

text \<open>
  The loop that inserts the emulation prevention bytes, with what follows it. The buffer of the code
  has \<open>2 * size + 1\<close> bytes, filled from its start.
\<close>

fun nalu_content :: "nat \<Rightarrow> u8 list \<Rightarrow> u8 list" where
  "nalu_content zeroCount [] = (if zeroCount > 0 then [3] else [])"
| "nalu_content zeroCount (v # rbsp) =
     (let emulation = (zeroCount = 2 \<and> v \<le> 3);
          zeroCount = (if emulation then 0 else zeroCount);
          zeroCount = (if v = 0 then zeroCount + 1 else 0)
      in (if emulation then [3] else []) @ v # nalu_content zeroCount rbsp)"

definition writeNaluContent :: "OutputNALUnit \<Rightarrow> u8 list" where
  "writeNaluContent nalu = nalu_content 0 (out_fifo (out_Bitstream nalu))"

definition writeNaluWithHeader :: "OutputNALUnit \<Rightarrow> u8 list result" where
  "writeNaluWithHeader nalu =
     bindE (writeNalUnitHeader nalu) (\<lambda>h. Inr (h @ writeNaluContent nalu))"

section \<open>Reading a NAL unit\<close>

text \<open>
  The loop of \<open>convertPayloadToRBSP\<close> moves the bytes of the buffer in place, \<open>it_read\<close> and \<open>it_write\<close>
  being positions in it. It returns the buffer, \<open>it_write\<close>, \<open>zeroCount\<close> and the positions of the bytes
  it dropped.
\<close>

function convert_loop ::
  "nat \<Rightarrow> nat \<Rightarrow> nat \<Rightarrow> nat \<Rightarrow> u8 list \<Rightarrow> nat list \<Rightarrow> (u8 list \<times> nat \<times> nat \<times> nat list) result" where
  "convert_loop it_read it_write zeroCount pos buf locs =
     (if it_read \<ge> length buf then Inr (buf, it_write, zeroCount, locs)
      else checkE (zeroCount \<ge> 2 \<and> buf ! it_read < 3)
        ''Zero count is 2 and read value is small than 3'' (
      if zeroCount = 2 \<and> buf ! it_read = 3
      then let locs = locs @ [pos]; pos = pos + 1; it_read = it_read + 1; zeroCount = 0 in
        if it_read = length buf then Inr (buf, it_write, zeroCount, locs)
        else checkE (buf ! it_read > 3) ''Read a value bigger than 3'' (
        convert_loop (it_read + 1) (it_write + 1)
          (if buf ! it_read = 0 then zeroCount + 1 else 0) (pos + 1)
          (buf[it_write := buf ! it_read]) locs)
      else
        convert_loop (it_read + 1) (it_write + 1)
          (if buf ! it_read = 0 then zeroCount + 1 else 0) (pos + 1)
          (buf[it_write := buf ! it_read]) locs))"
  by pat_completeness auto
termination
  by (relation "measure (\<lambda>(r, w, z, p, b, l). length b - r)") auto

declare convert_loop.simps [simp del]

text \<open>\<open>while (it_write[-1] == 0x00) it_write--;\<close> which must not leave the buffer.\<close>

fun drop_cabac_zero_words :: "nat \<Rightarrow> u8 list \<Rightarrow> nat result" where
  "drop_cabac_zero_words 0 buf = Inl UndefinedBehaviour"
| "drop_cabac_zero_words (Suc w) buf =
     (if buf ! w = 0 then drop_cabac_zero_words w buf else Inr (Suc w))"

definition convertPayloadToRBSP :: "InputBitstream \<Rightarrow> bool \<Rightarrow> InputBitstream result" where
  "convertPayloadToRBSP bitstream isVclNalUnit =
     bindE (convert_loop 0 0 0 0 (in_fifo bitstream) []) (\<lambda>(buf, it_write, zeroCount, locs).
     checkE (zeroCount \<noteq> 0) ''Zero count not 0'' (
     bindE (if isVclNalUnit then drop_cabac_zero_words it_write buf else Inr it_write) (\<lambda>it_write.
     Inr (bitstream\<lparr>in_fifo := take it_write buf, in_emulationPreventionByteLocation := locs\<rparr>))))"

definition readNalUnitHeader :: "NALUnit parser" where
  "readNalUnitHeader =
     bindP (in_read 1) (\<lambda>forbiddenZeroBit.
     bindP (in_read 1) (\<lambda>nuhReservedZeroBit.
     bindP (in_read 6) (\<lambda>nuhLayerId.
     checkP (nuhLayerId > 55)
       ''The value of nuh_layer_id shall be in the range of 0 to 55, inclusive'' (
     bindP (in_read 5) (\<lambda>nalUnitType.
     bindP (in_read 3) (\<lambda>temporalIdPlus1.
     let nalu = \<lparr>m_nalUnitType = nut_of_value nalUnitType, m_temporalId = temporalIdPlus1 - 1,
           m_nuhLayerId = nuhLayerId, m_forbiddenZeroBit = forbiddenZeroBit,
           m_nuhReservedZeroBit = nuhReservedZeroBit\<rparr> in
     checkP (m_nuhLayerId nalu = 0 \<and> m_temporalId nalu = 0
         \<and> m_nalUnitType nalu = NAL_UNIT_CODED_SLICE_STSA)
       ''When NAL unit type is equal to STSA_NUT, TemporalId shall not be equal to 0''
     (returnP nalu)))))))"

text \<open>\<open>read(InputNALUnit&)\<close>; an empty buffer, which \<open>DecApp\<close> skips, has no byte to test.\<close>

definition nal_read :: "InputBitstream \<Rightarrow> InputNALUnit result" where
  "nal_read bitstream =
     (if in_fifo bitstream = [] then Inl UndefinedBehaviour
      else bindE (convertPayloadToRBSP bitstream (hd (in_fifo bitstream) AND 64 = 0)) (\<lambda>bitstream.
      bindE (readNalUnitHeader (resetToStart bitstream)) (\<lambda>(nalu, bitstream).
      Inr (NALUnit.extend nalu \<lparr>in_Bitstream = bitstream\<rparr>))))"

definition checkPictureHeaderInSliceHeaderFlag :: "InputNALUnit \<Rightarrow> (bool \<times> InputNALUnit) result" where
  "checkPictureHeaderInSliceHeaderFlag nalu =
     checkE (in_fifo_idx (in_Bitstream nalu) \<noteq> 2)
       ''The picture_header_in_slice_header_flag is the first bit after the NAL unit header'' (
     bindE (in_read 1 (in_Bitstream nalu)) (\<lambda>(flag, bitstream).
     Inr (flag \<noteq> 0, nalu\<lparr>in_Bitstream := bitstream\<rparr>)))"

section \<open>Removing in place is removing from a list\<close>

text \<open>What is kept, the count of zeros at the end, and the positions, from \<open>p\<close> on, of what is dropped.\<close>

fun rbsp_of :: "nat \<Rightarrow> nat \<Rightarrow> u8 list \<Rightarrow> (u8 list \<times> nat \<times> nat list) result" where
  "rbsp_of z p [] = Inr ([], z, [])"
| "rbsp_of z p (v # vs) =
     (if z \<ge> 2 \<and> v < 3 then Inl (CheckFailed ''Zero count is 2 and read value is small than 3'')
      else if z = 2 \<and> v = 3
      then (case vs of
              [] \<Rightarrow> Inr ([], 0, [p])
            | w # ws \<Rightarrow>
                checkE (w > 3) ''Read a value bigger than 3'' (
                bindE (rbsp_of (if w = 0 then 1 else 0) (p + 2) ws) (\<lambda>(ys, z, ls).
                Inr (w # ys, z, p # ls))))
      else bindE (rbsp_of (if v = 0 then z + 1 else 0) (p + 1) vs) (\<lambda>(ys, z, ls).
           Inr (v # ys, z, ls)))"

definition in_place :: "nat \<Rightarrow> u8 list \<Rightarrow> nat list \<Rightarrow> (u8 list \<times> nat \<times> nat list) result
    \<Rightarrow> (u8 list \<times> nat \<times> nat \<times> nat list) result \<Rightarrow> bool" where
  "in_place w buf locs spec r \<longleftrightarrow> (case spec of
     Inl e \<Rightarrow> r = Inl e
   | Inr (ys, z, ls) \<Rightarrow> (\<exists>buf'. r = Inr (buf', w + length ys, z, locs @ ls)
        \<and> take (w + length ys) buf' = take w buf @ ys \<and> length buf' = length buf))"

lemma in_place_Inl [simp]: "in_place w buf locs (Inl e) r \<longleftrightarrow> r = Inl e"
  by (simp add: in_place_def)

lemma in_place_step:
  assumes "in_place (w + 1) (buf[w := v]) (locs @ ls0) spec r" and "w < length buf"
  shows "in_place w buf locs (bindE spec (\<lambda>(ys, z, ls). Inr (v # ys, z, ls0 @ ls))) r"
proof (cases spec)
  case (Inr t)
  then show ?thesis
    using assms by (cases t) (auto simp: in_place_def take_Suc_conv_app_nth)
qed (use assms in simp)

lemma convert_loop_keep:
  assumes "rd < length buf" and "\<not> (z \<ge> 2 \<and> buf ! rd < 3)" and "\<not> (z = 2 \<and> buf ! rd = 3)"
  shows "convert_loop rd w z p buf locs = convert_loop (Suc rd) (Suc w)
           (if buf ! rd = 0 then z + 1 else 0) (Suc p) (buf[w := buf ! rd]) locs"
  using assms unfolding convert_loop.simps [of rd w z p buf locs]
  by (simp only: if_not_P not_le checkE_False Suc_eq_plus1 not_False_eq_True)

lemma rbsp_of_keep:
  assumes "\<not> (z \<ge> 2 \<and> v < 3)" and "\<not> (z = 2 \<and> v = 3)"
  shows "rbsp_of z p (v # vs) = bindE (rbsp_of (if v = 0 then z + 1 else 0) (Suc p) vs)
           (\<lambda>(ys, z, ls). Inr (v # ys, z, ls))"
  using assms by (simp only: rbsp_of.simps if_False Suc_eq_plus1)

lemma convert_loop_refines:
  "drop rd buf = xs \<Longrightarrow> w \<le> rd \<Longrightarrow> rd \<le> length buf \<Longrightarrow>
     in_place w buf locs (rbsp_of z p xs) (convert_loop rd w z p buf locs)"
proof (induction z p xs arbitrary: rd w buf locs rule: rbsp_of.induct)
  case (1 z p)
  then show ?case by (subst convert_loop.simps) (simp add: in_place_def)
next
  case (2 z p v vs)
  have rd: "rd < length buf" "buf ! rd = v" "drop (Suc rd) buf = vs"
    using "2.prems"(1) by (auto simp: not_le [symmetric])
      (metis hd_drop_conv_nth list.sel(1) drop_eq_Nil list.distinct(1) not_le,
       metis drop_Suc list.sel(3) tl_drop)
  have w: "w < length buf" using rd(1) "2.prems"(2) by simp
  have upd: "drop (Suc rd) (buf[w := u]) = vs" for u
    using rd(3) "2.prems"(2) by simp
  consider (bad) "z \<ge> 2" "v < 3" | (emu) "\<not> (z \<ge> 2 \<and> v < 3)" "z = 2" "v = 3"
    | (plain) "\<not> (z \<ge> 2 \<and> v < 3)" "\<not> (z = 2 \<and> v = 3)" by blast
  then show ?case
  proof cases
    case bad
    then show ?thesis using rd by (subst convert_loop.simps) simp
  next
    case plain
    have "in_place (w + 1) (buf[w := v]) (locs @ [])
        (rbsp_of (if v = 0 then z + 1 else 0) (p + 1) vs)
        (convert_loop (rd + 1) (w + 1) (if v = 0 then z + 1 else 0) (p + 1) (buf[w := v]) locs)"
      using "2.IH"(2) [OF plain, of "rd + 1" "buf[w := v]" "w + 1"] upd rd(1) "2.prems"(2) by simp
    from in_place_step [OF this w] show ?thesis
      unfolding rbsp_of_keep [OF plain]
        convert_loop_keep [OF rd(1), unfolded rd(2), OF plain] by simp
  next
    case emu
    show ?thesis
    proof (cases vs)
      case Nil
      then have "Suc rd = length buf" using rd by simp
      then show ?thesis
        using emu rd Nil by (subst convert_loop.simps) (auto simp: in_place_def)
    next
      case (Cons u us)
      then have ru: "Suc rd < length buf" "buf ! Suc rd = u" "drop (Suc (Suc rd)) buf = us"
        using rd by (auto simp: not_le [symmetric])
          (metis hd_drop_conv_nth list.sel(1) drop_eq_Nil list.distinct(1) not_le,
           metis drop_Suc list.sel(3) tl_drop)
      have "in_place (w + 1) (buf[w := u]) (locs @ [p])
          (rbsp_of (if u = 0 then 1 else 0) (p + 2) us)
          (convert_loop (rd + 2) (w + 1) (if u = 0 then 1 else 0) (p + 2) (buf[w := u]) (locs @ [p]))"
        using "2.IH"(1) [OF emu(1) _ Cons, of "rd + 2" "buf[w := u]" "w + 1"] emu ru "2.prems"(2)
        by simp
      from in_place_step [OF this w] show ?thesis
        using emu rd ru Cons by (subst convert_loop.simps) (auto simp: checkE_def)
    qed
  qed
qed

section \<open>Emulation prevention on lists\<close>

text \<open>The writer's count of zeros after the payload, and the length of its last run of zero bytes.\<close>

fun final_zeros :: "nat \<Rightarrow> u8 list \<Rightarrow> nat" where
  "final_zeros z [] = z"
| "final_zeros z (v # vs) = final_zeros (if v = 0 then (if z = 2 then 1 else z + 1) else 0) vs"

definition zero_tail :: "u8 list \<Rightarrow> nat" where
  "zero_tail xs = length (takeWhile (\<lambda>b. b = 0) (rev xs))"

definition strip_zeros :: "u8 list \<Rightarrow> u8 list" where
  "strip_zeros xs = take (length xs - zero_tail xs) xs"

lemma final_zeros_snoc:
  "final_zeros z (xs @ [v]) = (if v = 0 then (if final_zeros z xs = 2 then 1 else final_zeros z xs + 1) else 0)"
  by (induction xs arbitrary: z) simp_all

lemma zero_tail_snoc [simp]: "zero_tail (xs @ [v]) = (if v = 0 then zero_tail xs + 1 else 0)"
  by (simp add: zero_tail_def)

lemma zero_tail_Nil [simp]: "zero_tail [] = 0"
  by (simp add: zero_tail_def)

lemma final_zeros_parity:
  "final_zeros 0 xs = (if zero_tail xs = 0 then 0 else if odd (zero_tail xs) then 1 else 2)"
  by (induction xs rule: rev_induct) (auto simp: final_zeros_snoc)

lemma strip_zeros_snoc: "strip_zeros (xs @ [v]) = (if v = 0 then strip_zeros xs else xs @ [v])"
  by (auto simp: strip_zeros_def Suc_diff_le)

lemma strip_zeros_header:
  "b1 \<noteq> 0 \<Longrightarrow> strip_zeros (b0 # b1 # xs) = b0 # b1 # strip_zeros xs"
proof (induction xs rule: rev_induct)
  case Nil
  have "strip_zeros ([b0] @ [b1]) = [b0] @ [b1]"
    unfolding strip_zeros_snoc using Nil by simp
  then show ?case by (simp add: strip_zeros_def)
next
  case (snoc v xs)
  have "strip_zeros ((b0 # b1 # xs) @ [v]) = b0 # b1 # strip_zeros (xs @ [v])"
    unfolding strip_zeros_snoc using snoc by simp
  then show ?case by simp
qed

lemma drop_cabac_zero_words_ok:
  "w \<le> length buf \<Longrightarrow> \<exists>b\<in>set (take w buf). b \<noteq> 0 \<Longrightarrow>
     \<exists>w'. drop_cabac_zero_words w buf = Inr w' \<and> take w' buf = strip_zeros (take w buf)"
proof (induction w)
  case (Suc w)
  then have t: "take (Suc w) buf = take w buf @ [buf ! w]" by (simp add: take_Suc_conv_app_nth)
  show ?case
  proof (cases "buf ! w = 0")
    case True
    then show ?thesis using Suc t by (auto simp: strip_zeros_snoc)
  next
    case False
    then show ?thesis using t by (auto simp: strip_zeros_snoc)
  qed
qed simp

lemma rbsp_of_content:
  "z \<le> 2 \<Longrightarrow> final_zeros z xs \<noteq> 1 \<Longrightarrow> \<exists>ls. rbsp_of z p (nalu_content z xs) = Inr (xs, 0, ls)"
proof (induction xs arbitrary: z p)
  case Nil
  then have "z = 0 \<or> z = 2" by auto
  then show ?case by auto
next
  case (Cons v xs)
  show ?case
  proof (cases "z = 2 \<and> v \<le> 3")
    case True
    then obtain ls where
      "rbsp_of (if v = 0 then 1 else 0) (p + 2) (nalu_content (if v = 0 then 1 else 0) xs) = Inr (xs, 0, ls)"
      using Cons.IH [of "if v = 0 then 1 else 0" "p + 2"] Cons.prems by (auto split: if_splits)
    then show ?thesis using True by (auto split: if_splits)
  next
    case False
    then have c: "nalu_content z (v # xs) = v # nalu_content (if v = 0 then z + 1 else 0) xs"
      by (auto simp: Let_def)
    have k: "\<not> (z \<ge> 2 \<and> v < 3)" "\<not> (z = 2 \<and> v = 3)"
      using False Cons.prems(1) by (auto simp: not_le less_imp_le)
    have z0: "v = 0 \<Longrightarrow> z \<noteq> 2" using False by auto
    then obtain ls where "rbsp_of (if v = 0 then z + 1 else 0) (Suc p)
        (nalu_content (if v = 0 then z + 1 else 0) xs) = Inr (xs, 0, ls)"
      using Cons.IH [of "if v = 0 then z + 1 else 0" "Suc p"] Cons.prems by (auto split: if_splits)
    then show ?thesis unfolding c rbsp_of_keep [OF k] by simp
  qed
qed

text \<open>The positions recorded are those of the bytes dropped, in order; all of them are 3.\<close>

definition dropped_at :: "nat \<Rightarrow> u8 list \<Rightarrow> u8 list \<Rightarrow> nat list \<Rightarrow> bool" where
  "dropped_at p ns xs ls \<longleftrightarrow> sorted_wrt (<) ls \<and> (\<forall>l\<in>set ls. p \<le> l \<and> l < p + length ns \<and> ns ! (l - p) = 3)
     \<and> xs = nths ns {i. i + p \<notin> set ls}"

lemma dropped_at_keep:
  assumes "dropped_at (Suc p) ns xs ls"
  shows "dropped_at p (v # ns) (v # xs) ls"
proof -
  have "p \<notin> set ls" using assms by (auto simp: dropped_at_def)
  then show ?thesis using assms
    by (auto simp: dropped_at_def nths_Cons nth_Cons' Suc_le_eq)
qed

lemma dropped_at_drop:
  assumes "dropped_at (Suc p) ns xs ls"
  shows "dropped_at p (3 # ns) xs (p # ls)"
proof -
  have *: "{j. Suc j \<in> {i. i + p \<notin> set (p # ls)}} = {i. i + Suc p \<notin> set ls}" by auto
  have "nths (3 # ns) {i. i + p \<notin> set (p # ls)} = nths ns {i. i + Suc p \<notin> set ls}"
    unfolding nths_Cons * by simp
  then show ?thesis using assms
    by (auto simp: dropped_at_def nth_Cons' Suc_le_eq)
qed

lemma rbsp_of_dropped_at:
  "rbsp_of z p ns = Inr (xs, z', ls) \<Longrightarrow> dropped_at p ns xs ls"
proof (induction z p ns arbitrary: xs z' ls rule: rbsp_of.induct)
  case (1 z p)
  then show ?case by (simp add: dropped_at_def)
next
  case (2 z p v vs)
  have k: "\<not> (z \<ge> 2 \<and> v < 3)" using "2.prems" by auto
  show ?case
  proof (cases "z = 2 \<and> v = 3")
    case False
    then obtain ys where "rbsp_of (if v = 0 then z + 1 else 0) (p + 1) vs = Inr (ys, z', ls)" "xs = v # ys"
      using "2.prems" unfolding rbsp_of_keep [OF k False]
      by (auto simp: bindE_Inr_iff split: prod.splits)
    with "2.IH"(2) [OF k False] show ?thesis using dropped_at_keep by simp
  next
    case True
    show ?thesis
    proof (cases vs)
      case Nil
      then show ?thesis using "2.prems" k True by (auto simp: dropped_at_def nths_Cons)
    next
      case (Cons w ws)
      then obtain ys ls' where "rbsp_of (if w = 0 then 1 else 0) (p + 2) ws = Inr (ys, z', ls')"
        "xs = w # ys" "ls = p # ls'"
        using "2.prems" k True
        by (auto simp: checkE_Inr_iff bindE_Inr_iff split: prod.splits)
      moreover have "dropped_at (p + 2) ws ys ls'"
        using "2.IH"(1) [OF k True Cons] calculation(1) by blast
      ultimately show ?thesis
        using dropped_at_drop [OF dropped_at_keep] True Cons by simp
    qed
  qed
qed

lemma content_length: "length (nalu_content z xs) \<le> 2 * length xs + 1"
proof (induction xs arbitrary: z)
  case (Cons v xs)
  show ?case
    using Cons.IH [of "if v = 0 then 1 else 0"] Cons.IH [of "if v = 0 then z + 1 else 0"]
    by (auto simp: Let_def split: if_splits)
qed auto

text \<open>
  After \<open>z\<close> zero bytes, no third one and neither 1 nor 2 follows two zeros, and the last byte is not
  zero.
\<close>

fun start_code_free :: "nat \<Rightarrow> u8 list \<Rightarrow> bool" where
  "start_code_free z [] \<longleftrightarrow> z = 0"
| "start_code_free z (v # vs) \<longleftrightarrow> \<not> (z \<ge> 2 \<and> v \<le> 2) \<and> start_code_free (if v = 0 then z + 1 else 0) vs"

lemma content_start_code_free: "z \<le> 2 \<Longrightarrow> start_code_free z (nalu_content z xs)"
proof (induction xs arbitrary: z)
  case (Cons v xs)
  show ?case
  proof (cases "z = 2 \<and> v \<le> 3")
    case True
    then show ?thesis using Cons.IH [of "if v = 0 then 1 else 0"] by (auto split: if_splits)
  next
    case False
    then have c: "nalu_content z (v # xs) = v # nalu_content (if v = 0 then z + 1 else 0) xs"
      by (auto simp: Let_def)
    have "\<not> (z \<ge> 2 \<and> v \<le> 2)"
    proof
      assume "z \<ge> 2 \<and> v \<le> 2"
      moreover have "(2 :: u8) \<le> 3" by simp
      ultimately show False using False Cons.prems order_trans [of v 2 3] by auto
    qed
    moreover have "start_code_free (if v = 0 then z + 1 else 0) (nalu_content (if v = 0 then z + 1 else 0) xs)"
      using Cons.IH [of "if v = 0 then z + 1 else 0"] False Cons.prems by (auto split: if_splits)
    ultimately show ?thesis unfolding c by simp
  qed
qed auto

lemma start_code_free_header:
  "b1 \<noteq> 0 \<Longrightarrow> start_code_free 0 ys \<Longrightarrow> start_code_free 0 (b0 # b1 # ys)"
  by simp

section \<open>Headers\<close>

definition nalu_ok :: "'z NALUnit_scheme \<Rightarrow> bool" where
  "nalu_ok n \<longleftrightarrow> m_nalUnitType n \<noteq> NAL_UNIT_INVALID \<and> m_temporalId n < 7 \<and> m_nuhLayerId n \<le> 55
     \<and> m_forbiddenZeroBit n = 0 \<and> m_nuhReservedZeroBit n = 0
     \<and> \<not> (m_nuhLayerId n = 0 \<and> m_temporalId n = 0 \<and> m_nalUnitType n = NAL_UNIT_CODED_SLICE_STSA)"

definition header_bits :: "'z NALUnit_scheme \<Rightarrow> bool list" where
  "header_bits n = [False] @ [False] @ bits_of 6 (m_nuhLayerId n) @ bits_of 5 (nut_value (m_nalUnitType n))
     @ bits_of 3 (m_temporalId n + 1)"

lemma header_fields:
  assumes "nalu_ok n"
  shows "unat (m_nuhLayerId n) < 2 ^ 6" and "\<not> 55 < m_nuhLayerId n"
    and "unat (nut_value (m_nalUnitType n)) < 2 ^ 5"
    and "unat (m_temporalId n + 1) < 2 ^ 3" and "m_temporalId n + 1 \<noteq> 0"
proof -
  show "unat (m_nuhLayerId n) < 2 ^ 6" and "\<not> 55 < m_nuhLayerId n"
    using assms by (auto simp: nalu_ok_def word_le_nat_alt not_less)
  show "unat (nut_value (m_nalUnitType n)) < 2 ^ 5"
    using assms nut_value_lt by (auto simp: nalu_ok_def)
  have "unat (m_temporalId n) < 7" using assms by (simp add: nalu_ok_def word_less_nat_alt)
  then have u: "unat (m_temporalId n + 1) = unat (m_temporalId n) + 1"
    by (simp add: unat_word_ariths)
  then show "unat (m_temporalId n + 1) < 2 ^ 3" using \<open>unat (m_temporalId n) < 7\<close> by simp
  show "m_temporalId n + 1 \<noteq> 0" using u by (metis add_is_0 one_neq_zero unat_0)
qed

lemma header_emits:
  assumes "nalu_ok n"
  shows "emits 0 (writeNalUnitHeader_bits n) (header_bits n)"
proof -
  note f = header_fields [OF assms]
  have nil: "emits a (seqW []) []" for a by (simp add: emits_def skipW_def)
  have chk: "emits a (seqW (checkW c msg # ws)) bs" if "\<not> c" "emits a (seqW ws) bs" for a c msg ws bs
    using that by (simp add: emits_def checkW_def thenW_def)
  have z: "emits a (out_write 0 1) [False]" for a
    using emits_write [of 1 0 a] by (simp add: bits_of_Suc)
  have "emits 0 (writeNalUnitHeader_bits n) ([False] @ [False] @ bits_of 6 (m_nuhLayerId n)
      @ bits_of 5 (nut_value (m_nalUnitType n)) @ bits_of 3 (m_temporalId n + 1) @ [])"
    unfolding writeNalUnitHeader_bits_def
    by (intro emits_bind chk z nil emits_write f) simp_all
  then show ?thesis by (simp add: header_bits_def)
qed

lemma codes_header:
  assumes "nalu_ok n"
  shows "codes (writeNalUnitHeader_bits n) readNalUnitHeader (NALUnit.truncate n)"
proof -
  note f = header_fields [OF assms]
  let ?m = "\<lparr>m_nalUnitType = nut_of_value (nut_value (m_nalUnitType n)),
     m_temporalId = m_temporalId n + 1 - 1, m_nuhLayerId = m_nuhLayerId n,
     m_forbiddenZeroBit = 0, m_nuhReservedZeroBit = 0\<rparr>"
  have v: "?m = NALUnit.truncate n"
    using assms by (simp add: nut_of_value_value NALUnit.truncate_def nalu_ok_def)
  have z: "codes (out_write 0 1) (in_read 1) 0" by (rule codes_write_read) simp_all
  have l: "codes (out_write (m_nuhLayerId n) 6) (in_read 6) (m_nuhLayerId n)"
    and t: "codes (out_write (nut_value (m_nalUnitType n)) 5) (in_read 5) (nut_value (m_nalUnitType n))"
    and d: "codes (out_write (m_temporalId n + 1) 3) (in_read 3) (m_temporalId n + 1)"
    by (rule codes_write_read [OF _ f(1)] codes_write_read [OF _ f(3)] codes_write_read [OF _ f(4)], simp)+
  have stsa: "\<not> (m_nuhLayerId ?m = 0 \<and> m_temporalId ?m = 0 \<and> m_nalUnitType ?m = NAL_UNIT_CODED_SLICE_STSA)"
    using assms by (simp add: nut_of_value_value nalu_ok_def)
  show ?thesis
    unfolding writeNalUnitHeader_bits_def readNalUnitHeader_def Let_def v [symmetric]
    by (rule codes_bind [OF z] codes_checkW [OF f(2)] codes_bind [OF l] codes_checkP [OF f(2)]
        codes_bind [OF t] codes_bind [OF d] codes_checkP [OF stsa] codes_return)+
qed

lemma header_parses:
  assumes "nalu_ok n"
  shows "parses 0 readNalUnitHeader (header_bits n) (NALUnit.truncate n)"
proof -
  obtain bs where bs: "emits 0 (writeNalUnitHeader_bits n) bs"
    "parses 0 readNalUnitHeader bs (NALUnit.truncate n)"
    using codes_header [OF assms] unfolding codes_def by (meson zero_less_numeral)
  then have "bs = header_bits n"
    using header_emits [OF assms] by (auto simp: emits_def dest!: spec [of _ new_out])
  then show ?thesis using bs by simp
qed

lemma header_bytes:
  assumes "nalu_ok n"
  obtains b0 b1 where "writeNalUnitHeader n = Inr [b0, b1]" "bytes_bits [b0, b1] = header_bits n"
    "b1 \<noteq> 0" "b0 AND 64 = 0"
proof -
  obtain s where s: "writeNalUnitHeader_bits n new_out = Inr s" "out_inv s" "out_bits s = header_bits n"
    using header_emits [OF assms] by (auto simp: emits_def dest!: spec [of _ new_out])
  have "length (out_bits s) = 16" using s(3) by (simp add: header_bits_def)
  then have "length (out_fifo s) * 8 + out_num_held_bits s = 16" "out_num_held_bits s < 8"
    using s(2) length_out_bits [OF s(2)] by (auto simp: out_inv_def getNumberOfWrittenBits_def)
  then have h: "out_num_held_bits s = 0" "length (out_fifo s) = 2" by presburger+
  then obtain b0 b1 where f: "out_fifo s = [b0, b1]"
    by (auto simp: numeral_2_eq_2 length_Suc_conv)
  have b: "bytes_bits [b0, b1] = header_bits n"
    using s(3) h(1) f by (simp add: out_bits_def)
  have "b1 \<noteq> 0"
  proof
    assume "b1 = 0"
    then have "bits_of 8 b0 @ replicate 8 False = header_bits n" using b by simp
    then have "drop 13 (bits_of 8 b0 @ replicate 8 False) = drop 13 (header_bits n)" by simp
    then have "bits_of 3 (m_temporalId n + 1) = replicate 3 False"
      by (simp add: header_bits_def)
    then show False using zero_word_bits [OF _ header_fields(4)] header_fields(5) assms by blast
  qed
  moreover have "b0 AND 64 = 0"
  proof -
    have "bits_of 8 b0 @ bits_of 8 b1 = header_bits n" using b by simp
    then have "(bits_of 8 b0 @ bits_of 8 b1) ! 1 = header_bits n ! 1" by simp
    then have "\<not> bit b0 6" by (simp add: header_bits_def bits_of_Suc numeral_eq_Suc)
    then show ?thesis using and_exp_eq_0_iff_not_bit [of b0 6] by simp
  qed
  ultimately show ?thesis using that s(1) f b by (auto simp: writeNalUnitHeader_def)
qed

section \<open>A NAL unit written is read back\<close>

lemma convert_unit:
  assumes b1: "b1 \<noteq> 0" and even: "even (zero_tail xs)"
    and fifo: "in_fifo b = b0 # b1 # nalu_content 0 xs"
  shows "\<exists>ls. convertPayloadToRBSP b vcl = Inr (b\<lparr>in_fifo := b0 # b1 # (if vcl then strip_zeros xs else xs),
      in_emulationPreventionByteLocation := ls\<rparr>) \<and> dropped_at 0 (in_fifo b) (b0 # b1 # xs) ls"
proof -
  have "final_zeros 0 xs \<noteq> 1" using even by (simp add: final_zeros_parity)
  then obtain ls where ls: "rbsp_of 0 2 (nalu_content 0 xs) = Inr (xs, 0, ls)"
    using rbsp_of_content [of 0 xs 2] by auto
  have k: "\<not> (z \<ge> 2 \<and> v < 3)" "\<not> (z = 2 \<and> v = 3)" if "z < 2" for z :: nat and v :: u8
    using that by auto
  have spec: "rbsp_of 0 0 (in_fifo b) = Inr (b0 # b1 # xs, 0, ls)"
    unfolding fifo using ls b1 by (simp add: numeral_2_eq_2)
  have "in_place 0 (in_fifo b) [] (rbsp_of 0 0 (in_fifo b)) (convert_loop 0 0 0 0 (in_fifo b) [])"
    by (rule convert_loop_refines) simp_all
  then obtain buf where buf: "convert_loop 0 0 0 0 (in_fifo b) [] = Inr (buf, length (b0 # b1 # xs), 0, ls)"
    "take (length (b0 # b1 # xs)) buf = b0 # b1 # xs" "length buf = length (in_fifo b)"
    unfolding spec by (auto simp: in_place_def)
  have len: "length (b0 # b1 # xs) \<le> length buf"
    using buf(2) by (metis length_take min.cobounded1)
  obtain w' where w': "drop_cabac_zero_words (length (b0 # b1 # xs)) buf = Inr w'"
    "take w' buf = b0 # b1 # strip_zeros xs"
    using drop_cabac_zero_words_ok [OF len] b1 strip_zeros_header [OF b1, of b0 xs]
    unfolding buf(2) by auto
  have "convertPayloadToRBSP b vcl = Inr (b\<lparr>in_fifo := b0 # b1 # (if vcl then strip_zeros xs else xs),
      in_emulationPreventionByteLocation := ls\<rparr>)"
    unfolding convertPayloadToRBSP_def buf(1) using w' buf(2) by (cases vcl) simp_all
  moreover have "dropped_at 0 (in_fifo b) (b0 # b1 # xs) ls" by (rule rbsp_of_dropped_at [OF spec])
  ultimately show ?thesis by blast
qed

lemma header_keeps:
  assumes "readNalUnitHeader s = Inr (n, t)"
  shows "in_fifo t = in_fifo s \<and> in_emulationPreventionByteLocation t = in_emulationPreventionByteLocation s"
  using assms unfolding readNalUnitHeader_def
  by (auto simp: bindP_Inr_iff checkP_def checkE_Inr_iff returnP_def Let_def dest!: in_read_keeps)

lemma nal_read_write:
  assumes ok: "nalu_ok n" and even: "even (zero_tail (out_fifo (out_Bitstream n)))"
  shows "\<exists>bytes m. writeNaluWithHeader n = Inr bytes \<and> nal_read (new_in bytes) = Inr m
    \<and> NALUnit.truncate m = NALUnit.truncate n
    \<and> in_inv (in_Bitstream m) \<and> in_fifo_idx (in_Bitstream m) = 2
    \<and> in_bits (in_Bitstream m) = bytes_bits (strip_zeros (out_fifo (out_Bitstream n)))
    \<and> dropped_at 0 bytes (take 2 bytes @ out_fifo (out_Bitstream n))
        (in_emulationPreventionByteLocation (in_Bitstream m))"
proof -
  let ?xs = "out_fifo (out_Bitstream n)"
  obtain b0 b1 where h: "writeNalUnitHeader n = Inr [b0, b1]" "bytes_bits [b0, b1] = header_bits n"
    "b1 \<noteq> 0" "b0 AND 64 = 0"
    by (rule header_bytes [OF ok])
  let ?bytes = "b0 # b1 # nalu_content 0 ?xs"
  let ?b = "new_in ?bytes"
  have w: "writeNaluWithHeader n = Inr ?bytes"
    by (simp add: writeNaluWithHeader_def writeNaluContent_def h(1))
  obtain ls where c: "convertPayloadToRBSP ?b True = Inr (?b\<lparr>in_fifo := b0 # b1 # strip_zeros ?xs,
      in_emulationPreventionByteLocation := ls\<rparr>)" "dropped_at 0 ?bytes (b0 # b1 # ?xs) ls"
    using convert_unit [OF h(3) even, of ?b b0 True] by (auto simp: new_in_def)
  let ?r = "resetToStart (?b\<lparr>in_fifo := b0 # b1 # strip_zeros ?xs,
      in_emulationPreventionByteLocation := ls\<rparr>)"
  have r: "in_inv ?r" "in_bits ?r = header_bits n @ bytes_bits (strip_zeros ?xs)"
    using h(2) by (simp_all add: resetToStart_def in_inv_def in_bits_def new_in_def)
  have len: "length (header_bits n) = 16" by (simp add: header_bits_def)
  obtain i where i: "readNalUnitHeader ?r = Inr (NALUnit.truncate n, i)" "in_inv i"
    "in_bits i = bytes_bits (strip_zeros ?xs)"
    by (rule parsesE [OF header_parses [OF ok] r]) (simp_all add: r(2) len length_bytes_bits)
  have keep: "in_fifo i = b0 # b1 # strip_zeros ?xs" "in_emulationPreventionByteLocation i = ls"
    using header_keeps [OF i(1)] by (simp_all add: resetToStart_def)
  have "getNumBitsLeft i = 8 * length (strip_zeros ?xs)"
    using length_in_bits [OF i(2)] i(3) by simp
  then have idx: "in_fifo_idx i = 2"
    using i(2) keep(1) unfolding getNumBitsLeft_def in_inv_def by simp presburger
  let ?m = "NALUnit.extend (NALUnit.truncate n) \<lparr>in_Bitstream = i\<rparr>"
  have "nal_read ?b = Inr ?m"
    using c(1) i(1) h(4) by (simp add: nal_read_def new_in_def)
  moreover have "in_Bitstream ?m = i"
    by (simp add: NALUnit.defs)
  moreover have "NALUnit.truncate ?m = NALUnit.truncate n"
    by (simp add: NALUnit.defs)
  ultimately show ?thesis
    using w i(2,3) idx keep(2) c(2) by (intro exI [of _ ?bytes] exI [of _ ?m]) simp
qed

section \<open>Properties\<close>

definition example_nalu :: OutputNALUnit where
  "example_nalu = \<lparr>m_nalUnitType = NAL_UNIT_SPS, m_temporalId = 0, m_nuhLayerId = 0,
     m_forbiddenZeroBit = 0, m_nuhReservedZeroBit = 0,
     out_Bitstream = \<lparr>out_fifo = [5, 0, 0, 1, 0, 0], out_num_held_bits = 0, out_held_bits = 0\<rparr>\<rparr>"

lemma example_nalu_ok: "nalu_ok example_nalu" "even (zero_tail (out_fifo (out_Bitstream example_nalu)))"
  by (simp_all add: nalu_ok_def example_nalu_def zero_tail_def)

text \<open>
  C2: a NAL unit written by \<open>writeNaluWithHeader\<close> is read by \<open>read\<close> with the header that was
  written, its payload without the trailing \<open>cabac_zero_word\<close>s, and the positions of exactly the
  emulation prevention bytes that were inserted.
\<close>

theorem nal_unit_roundtrip:
  assumes "nalu_ok n" and "even (zero_tail (out_fifo (out_Bitstream n)))"
  shows "\<exists>bytes m. writeNaluWithHeader n = Inr bytes \<and> nal_read (new_in bytes) = Inr m
    \<and> NALUnit.truncate m = NALUnit.truncate n
    \<and> in_inv (in_Bitstream m) \<and> in_fifo_idx (in_Bitstream m) = 2
    \<and> in_bits (in_Bitstream m) = bytes_bits (strip_zeros (out_fifo (out_Bitstream n)))
    \<and> dropped_at 0 bytes (take 2 bytes @ out_fifo (out_Bitstream n))
        (in_emulationPreventionByteLocation (in_Bitstream m))"
  by (rule nal_read_write [OF assms])

theorem nal_unit_roundtrip_witness:
  "\<exists>bytes m. writeNaluWithHeader example_nalu = Inr bytes \<and> nal_read (new_in bytes) = Inr m
    \<and> NALUnit.truncate m = NALUnit.truncate example_nalu"
  using nal_unit_roundtrip [OF example_nalu_ok] by blast

text \<open>
  C11: \<open>convertPayloadToRBSP\<close>, which moves the bytes of the buffer in place, computes on every buffer
  what the byte-by-byte removal on a fresh list computes: the same error, or the same bytes, zero count
  and positions, in the first part of a buffer of unchanged size.
\<close>

theorem convert_in_place_refines:
  "case rbsp_of 0 0 buf of
     Inl e \<Rightarrow> convert_loop 0 0 0 0 buf [] = Inl e
   | Inr (ys, z, ls) \<Rightarrow> \<exists>buf'. convert_loop 0 0 0 0 buf [] = Inr (buf', length ys, z, ls)
        \<and> take (length ys) buf' = ys \<and> length buf' = length buf"
  using convert_loop_refines [of 0 buf buf 0 "[]" 0 0] by (auto simp: in_place_def split: sum.splits)

text \<open>
  \<open>read\<close> decides by bit 6 of the first byte whether trailing zero bytes are removed, as for a VCL
  unit. That bit is \<open>nuh_reserved_zero_bit\<close>: for every unit the writer produces, VCL or not, the
  test succeeds.
\<close>

theorem vcl_test_always_true:
  assumes "nalu_ok n"
  shows "\<exists>b0 b1. writeNalUnitHeader n = Inr [b0, b1] \<and> b0 AND 64 = 0"
  using header_bytes [OF assms] by metis

theorem vcl_test_always_true_witness:
  "\<not> isVcl example_nalu \<and> (\<exists>b0 b1. writeNalUnitHeader example_nalu = Inr [b0, b1])"
  using vcl_test_always_true [OF example_nalu_ok(1)]
  by (auto simp: isVcl_def isVclNalUnitType_def example_nalu_def)

end
