(* ===== verification/ByteStreamFormat.thy ===== *)
theory ByteStreamFormat
  imports AnnexB Nal
begin

text \<open>
  NAL units in a byte stream file: \<open>NALUnitEBSP\<close> (\<open>source/Lib/CommonLib/NAL.h\<close>,
  \<open>EncoderLib/NALwrite.h\<close>), \<open>writeAnnexBNalUnit\<close> and \<open>writeAnnexBAccessUnit\<close>
  (\<open>EncoderLib/AnnexBwrite.h\<close>), and the theorems that join them with the readers of \<open>AnnexB\<close> and
  \<open>Nal\<close>: what is written is found again, unit by unit.
\<close>

section \<open>Writing access units\<close>

record NALUnitEBSP = NALUnit +
  m_nalUnitData :: "u8 list"

definition new_NALUnitEBSP :: "OutputNALUnit \<Rightarrow> NALUnitEBSP result" where
  "new_NALUnitEBSP nalu = bindE (writeNaluWithHeader nalu) (\<lambda>m_nalUnitData.
     Inr (NALUnit.extend (NALUnit.truncate nalu) \<lparr>m_nalUnitData = m_nalUnitData\<rparr>))"

definition writeAnnexBNalUnit :: "u8 list \<Rightarrow> NALUnitEBSP \<Rightarrow> bool \<Rightarrow> u8 list \<times> nat" where
  "writeAnnexBNalUnit out nalu useLongStartcode =
     (let startCodePrefix = [0, 0, 0, 1];
          (out, size) = (if useLongStartcode then (out @ startCodePrefix, 4)
                         else (out @ tl startCodePrefix, 3))
      in (out @ m_nalUnitData nalu, size + length (m_nalUnitData nalu)))"

definition useLongStartCode :: "bool \<Rightarrow> NALUnitEBSP \<Rightarrow> bool" where
  "useLongStartCode first nalu \<longleftrightarrow> first \<or> m_nalUnitType nalu = NAL_UNIT_DCI
     \<or> m_nalUnitType nalu = NAL_UNIT_VPS \<or> m_nalUnitType nalu = NAL_UNIT_SPS
     \<or> m_nalUnitType nalu = NAL_UNIT_PPS \<or> m_nalUnitType nalu = NAL_UNIT_PREFIX_APS
     \<or> m_nalUnitType nalu = NAL_UNIT_SUFFIX_APS"

fun annexb_units :: "bool \<Rightarrow> u8 list \<Rightarrow> NALUnitEBSP list \<Rightarrow> u8 list \<times> nat list" where
  "annexb_units first out [] = (out, [])"
| "annexb_units first out (nalu # au) =
     (let (out, size) = writeAnnexBNalUnit out nalu (useLongStartCode first nalu);
          (out, annexBsizes) = annexb_units False out au
      in (out, size # annexBsizes))"

definition writeAnnexBAccessUnit :: "u8 list \<Rightarrow> NALUnitEBSP list \<Rightarrow> u8 list \<times> nat list" where
  "writeAnnexBAccessUnit out au = annexb_units True out au"

section \<open>Reading the units of a file\<close>

text \<open>The calls of \<open>byteStreamNALUnit\<close> on a file, up to the one that reports its end; at most \<open>n\<close>.\<close>

fun read_units :: "nat \<Rightarrow> InputByteStream \<Rightarrow> (u8 list \<times> AnnexBStats) list result" where
  "read_units 0 b = Inr []"
| "read_units (Suc n) b =
     (case byteStreamNALUnit (new_search b) of
        (Inl e, t) \<Rightarrow> Inl e
      | (Inr eof, t) \<Rightarrow>
          if eof then Inr [(nalUnit t, stats t)]
          else bindE (read_units n (byteStream t)) (\<lambda>us. Inr ((nalUnit t, stats t) # us)))"

definition unit_stats :: "bool \<Rightarrow> u8 list \<Rightarrow> AnnexBStats" where
  "unit_stats long u = \<lparr>m_numLeadingZero8BitsBytes = 0, m_numZeroByteBytes = (if long then 1 else 0),
     m_numStartCodePrefixBytes = 3, m_numBytesInNALUnit = length u, m_numTrailingZero8BitsBytes = 0\<rparr>"

definition framed :: "bool \<times> u8 list \<Rightarrow> u8 list" where
  "framed lu = (if fst lu then [0, 0, 0, 1] else [0, 0, 1]) @ snd lu"

lemma nal_end_start_code: "start_code_at xs \<Longrightarrow> nal_end_at xs"
  by (auto elim!: start_code_cases simp: nal_end_at_def)

lemma start_code_at_framed [simp]: "start_code_at (framed lu @ rest)"
  by (simp add: start_code_at_def framed_def)

lemma framed_not_Nil: "framed lu \<noteq> []"
  by (cases "fst lu") (simp_all add: framed_def)

text \<open>A unit without start codes is cut off where the next start code stands, and nowhere before.\<close>

lemma word_gt_2: "\<not> (v :: u8) \<le> 2 \<Longrightarrow> v \<noteq> 0 \<and> v \<noteq> 1 \<and> v \<noteq> 2"
  by auto

lemma not_nal_end:
  assumes "start_code_free z (v # vs)"
  shows "\<not> nal_end_at (v # vs @ rs)"
proof (cases "v = 0")
  case v: True
  then have s: "start_code_free (z + 1) vs" using assms by simp
  then obtain w ws where vs: "vs = w # ws" by (cases vs) auto
  show ?thesis
  proof (cases "w = 0")
    case True
    then have "start_code_free (z + 2) ws" using s vs by simp
    then obtain u us where "ws = u # us" "\<not> u \<le> 2" by (cases ws) auto
    then show ?thesis using vs v True word_gt_2 [of u] by (auto simp: nal_end_at_def)
  next
    case False
    then show ?thesis using vs by (simp add: nal_end_at_def)
  qed
next
  case False
  then show ?thesis by (simp add: nal_end_at_def)
qed

lemma nal_body_unit:
  "start_code_free z u \<Longrightarrow> rs = [] \<or> start_code_at rs \<Longrightarrow> nal_body (u @ rs) = (u, rs)"
proof (induction u arbitrary: z)
  case Nil
  then show ?case by (cases rs) (auto dest: nal_end_start_code)
next
  case (Cons v vs)
  have "nal_body (vs @ rs) = (vs, rs)" using Cons.IH Cons.prems by auto
  then show ?case using not_nal_end [OF Cons.prems(1), of rs] by simp
qed

lemma annexb_next_framed:
  assumes "start_code_free 0 (snd lu)" and "rs = [] \<or> start_code_at rs"
  shows "annexb_next (framed lu @ rs) = (rs = [], snd lu, unit_stats (fst lu) (snd lu), rs)"
proof -
  obtain x xs where x: "framed lu @ rs = x # xs"
    by (cases "framed lu @ rs") (simp_all add: framed_not_Nil)
  have sk: "skip_zeros leading_error (framed lu @ rs) = (0, Inr (), framed lu @ rs)"
    using start_code_at_framed [of lu rs] unfolding x by simp
  define z :: nat where "z = (if take 3 (framed lu @ rs) = [0, 0, 1] then 0 else 1)"
  have z: "drop (3 + z) (framed lu @ rs) = snd lu @ rs" "z = (if fst lu then 1 else 0)"
    by (auto simp: z_def framed_def)
  have b: "nal_body (snd lu @ rs) = (snd lu, rs)" by (rule nal_body_unit [OF assms])
  show ?thesis
  proof (cases rs)
    case Nil
    then show ?thesis unfolding annexb_next_def sk
      using z b unfolding z_def by (simp add: unit_stats_def)
  next
    case (Cons t ts)
    then have "skip_zeros trailing_error rs = (0, Inr (), rs)" using assms(2) by simp
    then show ?thesis unfolding annexb_next_def sk
      using z b Cons unfolding z_def by (simp add: unit_stats_def)
  qed
qed

lemma read_units_framed:
  "lus \<noteq> [] \<Longrightarrow> list_all (\<lambda>lu. start_code_free 0 (snd lu)) lus \<Longrightarrow>
     ibs_rel b (concat (map framed lus)) \<Longrightarrow>
     read_units (length lus) b = Inr (map (\<lambda>lu. (snd lu, unit_stats (fst lu) (snd lu))) lus)"
proof (induction lus arbitrary: b)
  case (Cons lu lus)
  let ?rs = "concat (map framed lus)"
  have rs: "?rs = [] \<longleftrightarrow> lus = []" "?rs = [] \<or> start_code_at ?rs"
    by (cases lus, simp, simp add: framed_not_Nil) (cases lus, simp_all)
  have "annexb_next (framed lu @ ?rs) = (lus = [], snd lu, unit_stats (fst lu) (snd lu), ?rs)"
    using annexb_next_framed [of lu ?rs] Cons.prems(2) rs by simp
  then obtain t where t: "byteStreamNALUnit (new_search b) = (Inr (lus = []),
      \<lparr>byteStream = t, nalUnit = snd lu, stats = unit_stats (fst lu) (snd lu)\<rparr>)" "ibs_rel t ?rs"
    using byteStreamNALUnit_refines [of b "framed lu @ ?rs"] Cons.prems(3) by fastforce
  then show ?case using Cons.IH [OF _ _ t(2)] Cons.prems(2) by (cases "lus = []") simp_all
qed simp

section \<open>A file written is read back\<close>

fun start_codes :: "bool \<Rightarrow> NALUnitEBSP list \<Rightarrow> (bool \<times> u8 list) list" where
  "start_codes first [] = []"
| "start_codes first (n # ns) = (useLongStartCode first n, m_nalUnitData n) # start_codes False ns"

lemma writeAnnexBNalUnit_framed:
  "writeAnnexBNalUnit out n long
     = (out @ framed (long, m_nalUnitData n), length (framed (long, m_nalUnitData n)))"
  by (simp add: writeAnnexBNalUnit_def framed_def)

lemma annexb_units_framed:
  "annexb_units first out ns = (out @ concat (map framed (start_codes first ns)),
     map (\<lambda>lu. length (framed lu)) (start_codes first ns))"
  by (induction ns arbitrary: first out) (simp_all add: writeAnnexBNalUnit_framed)

lemma start_codes_data [simp]: "map snd (start_codes first ns) = map m_nalUnitData ns"
  by (induction ns arbitrary: first) simp_all

text \<open>The access units of a file, written one after the other.\<close>

definition write_file :: "NALUnitEBSP list list \<Rightarrow> u8 list" where
  "write_file aus = foldl (\<lambda>out au. fst (writeAnnexBAccessUnit out au)) [] aus"

lemma write_file_framed:
  "write_file aus = concat (map framed (concat (map (start_codes True) aus)))"
proof -
  have "foldl (\<lambda>out au. fst (writeAnnexBAccessUnit out au)) out aus
      = out @ concat (map framed (concat (map (start_codes True) aus)))" for out
    by (induction aus arbitrary: out) (simp_all add: writeAnnexBAccessUnit_def annexb_units_framed)
  then show ?thesis by (simp add: write_file_def)
qed

text \<open>An \<open>RBSP\<close> that ends in zero bytes ends in \<open>cabac_zero_word\<close>s, which have two each.\<close>

definition nal_unit_ok :: "OutputNALUnit \<Rightarrow> bool" where
  "nal_unit_ok n \<longleftrightarrow> nalu_ok n \<and> even (zero_tail (out_fifo (out_Bitstream n)))"

definition read_as :: "OutputNALUnit \<Rightarrow> u8 list \<Rightarrow> bool" where
  "read_as n u \<longleftrightarrow> (\<exists>m. nal_read (new_in u) = Inr m \<and> NALUnit.truncate m = NALUnit.truncate n
     \<and> in_inv (in_Bitstream m)
     \<and> in_bits (in_Bitstream m) = bytes_bits (strip_zeros (out_fifo (out_Bitstream n))))"

lemma ebsp_ok:
  assumes "nal_unit_ok n"
  shows "\<exists>e. new_NALUnitEBSP n = Inr e \<and> m_nalUnitData e \<noteq> []
    \<and> start_code_free 0 (m_nalUnitData e) \<and> read_as n (m_nalUnitData e)"
proof -
  obtain b0 b1 where h: "writeNalUnitHeader n = Inr [b0, b1]" "b1 \<noteq> 0"
    by (rule header_bytes [of n]) (use assms in \<open>auto simp: nal_unit_ok_def\<close>)
  let ?u = "b0 # b1 # nalu_content 0 (out_fifo (out_Bitstream n))"
  have w: "writeNaluWithHeader n = Inr ?u"
    by (simp add: writeNaluWithHeader_def writeNaluContent_def h(1))
  have "start_code_free 0 ?u"
    using start_code_free_header [OF h(2)] content_start_code_free by simp
  moreover have "read_as n ?u"
    using nal_read_write [of n] assms w by (auto simp: read_as_def nal_unit_ok_def)
  moreover have "new_NALUnitEBSP n = Inr (NALUnit.extend (NALUnit.truncate n) \<lparr>m_nalUnitData = ?u\<rparr>)"
    by (simp add: new_NALUnitEBSP_def w)
  ultimately show ?thesis by (auto simp: NALUnit.defs)
qed

lemma list_all2_concat_map:
  "list_all2 (list_all2 P) xss yss \<Longrightarrow> list_all2 P (concat xss) (concat yss)"
  by (induction rule: list_all2_induct) (auto intro: list_all2_appendI)

lemma file_roundtrip:
  assumes "concat aus \<noteq> []" and "list_all (list_all nal_unit_ok) aus"
  shows "\<exists>eaus units. mapE (mapE new_NALUnitEBSP) aus = Inr eaus
    \<and> read_units (length (concat aus)) (new_InputByteStream (write_file eaus)) = Inr units
    \<and> list_all2 (\<lambda>n u. read_as n (fst u)) (concat aus) units"
proof -
  let ?P = "\<lambda>n e. start_code_free 0 (m_nalUnitData e) \<and> read_as n (m_nalUnitData e)"
  obtain eaus where e: "mapE (mapE new_NALUnitEBSP) aus = Inr eaus" "list_all2 (list_all2 ?P) aus eaus"
  proof -
    have "\<exists>eau. mapE new_NALUnitEBSP au = Inr eau \<and> list_all2 ?P au eau" if "au \<in> set aus" for au
      by (rule mapE_ok) (use ebsp_ok assms(2) that in \<open>fastforce simp: list_all_iff\<close>)
    then show ?thesis using mapE_ok [of aus "mapE new_NALUnitEBSP" "list_all2 ?P"] that by blast
  qed
  have all: "list_all2 ?P (concat aus) (concat eaus)" by (rule list_all2_concat_map [OF e(2)])
  let ?lus = "concat (map (start_codes True) eaus)"
  have snd: "map snd ?lus = map m_nalUnitData (concat eaus)"
    by (simp add: map_concat o_def)
  have len: "length ?lus = length (concat aus)"
    using arg_cong [OF snd, of length] list_all2_lengthD [OF all] by simp
  have "list_all (start_code_free 0) (map m_nalUnitData (concat eaus))"
    using all by (auto simp: list_all_length list_all2_conv_all_nth)
  then have free: "list_all (\<lambda>lu. start_code_free 0 (snd lu)) ?lus"
    unfolding snd [symmetric] by (simp add: list_all_iff)
  have ne: "?lus \<noteq> []" using len assms(1) by (metis length_0_conv)
  have "read_units (length ?lus) (new_InputByteStream (write_file eaus))
      = Inr (map (\<lambda>lu. (snd lu, unit_stats (fst lu) (snd lu))) ?lus)"
    by (rule read_units_framed [OF ne free]) (simp add: write_file_framed ibs_rel_new)
  moreover have "list_all2 (\<lambda>n u. read_as n (fst u)) (concat aus)
      (map (\<lambda>lu. (snd lu, unit_stats (fst lu) (snd lu))) ?lus)"
  proof -
    have "list_all2 read_as (concat aus) (map snd ?lus)"
      unfolding snd using all by (auto simp: list_all2_conv_all_nth)
    then show ?thesis by (simp add: list_all2_map2)
  qed
  ultimately show ?thesis using e(1) unfolding len by blast
qed

section \<open>Properties\<close>

lemma start_code_free_drop: "start_code_free z u \<Longrightarrow> \<not> nal_end_at (drop i u)"
proof (induction u arbitrary: z i)
  case (Cons v vs)
  show ?case
  proof (cases i)
    case 0
    then show ?thesis using not_nal_end [OF Cons.prems, of "[]"] by simp
  next
    case (Suc j)
    then show ?thesis using Cons.IH Cons.prems by auto
  qed
qed simp

lemma start_code_free_last: "start_code_free z u \<Longrightarrow> u \<noteq> [] \<Longrightarrow> last u \<noteq> 0"
  by (induction u arbitrary: z) (auto split: if_splits)

text \<open>
  C1: a file of access units, written by \<open>writeAnnexBAccessUnit\<close> unit by unit with start codes, is
  split by the calls of \<open>byteStreamNALUnit\<close> into the same number of units, and each of them is read
  as the unit it was: the header fields and the payload less its \<open>cabac_zero_word\<close>s.
\<close>

theorem byte_stream_file_roundtrip:
  assumes "concat aus \<noteq> []" and "list_all (list_all nal_unit_ok) aus"
  shows "\<exists>eaus units. mapE (mapE new_NALUnitEBSP) aus = Inr eaus
    \<and> read_units (length (concat aus)) (new_InputByteStream (write_file eaus)) = Inr units
    \<and> list_all2 (\<lambda>n u. read_as n (fst u)) (concat aus) units"
  by (rule file_roundtrip [OF assms])

theorem byte_stream_file_roundtrip_witness:
  "\<exists>eaus units. mapE (mapE new_NALUnitEBSP) [[example_nalu], [example_nalu, example_nalu]] = Inr eaus
    \<and> read_units 3 (new_InputByteStream (write_file eaus)) = Inr units
    \<and> list_all2 (\<lambda>n u. read_as n (fst u)) [example_nalu, example_nalu, example_nalu] units"
proof -
  have "list_all (list_all nal_unit_ok) [[example_nalu], [example_nalu, example_nalu]]"
    using example_nalu_ok by (simp add: nal_unit_ok_def)
  from byte_stream_file_roundtrip [OF _ this] show ?thesis by (simp add: numeral_3_eq_3)
qed



text \<open>
  C9: a NAL unit that is written contains at no position the three bytes 0, 0 and 0, 1 or 2, does not
  end in a zero byte, and fits the buffer of twice the size of the payload and one byte more.
\<close>

theorem written_unit_has_no_start_code:
  assumes "nalu_ok n" and "writeNaluWithHeader n = Inr u"
  shows "\<not> nal_end_at (drop i u) \<and> last u \<noteq> 0
    \<and> length (writeNaluContent n) \<le> 2 * length (out_fifo (out_Bitstream n)) + 1"
proof -
  obtain b0 b1 where h: "writeNalUnitHeader n = Inr [b0, b1]" "b1 \<noteq> 0"
    by (rule header_bytes [OF assms(1)])
  then have u: "u = b0 # b1 # nalu_content 0 (out_fifo (out_Bitstream n))"
    using assms(2) by (simp add: writeNaluWithHeader_def writeNaluContent_def)
  then have free: "start_code_free 0 u"
    using start_code_free_header [OF h(2)] content_start_code_free by simp
  have "u \<noteq> []" using u by simp
  then show ?thesis
    using start_code_free_drop [OF free] start_code_free_last [OF free] content_length
    by (simp add: writeNaluContent_def)
qed

theorem written_unit_has_no_start_code_witness:
  "\<exists>u. writeNaluWithHeader example_nalu = Inr u \<and> \<not> nal_end_at (drop 4 u) \<and> last u \<noteq> 0"
proof -
  obtain u where "writeNaluWithHeader example_nalu = Inr u"
    using nal_read_write [OF example_nalu_ok] by blast
  then show ?thesis using written_unit_has_no_start_code [OF example_nalu_ok(1)] by blast
qed

end
