(* ===== verification/Contexts.thy ===== *)
theory Contexts
  imports ECM_Prelude
begin

unbundle bit_operations_syntax

text \<open>
  The probability models of the arithmetic coder and the store that holds them: classes
  \<open>BinProbModel_Std\<close>, \<open>CtxStore\<close>, \<open>CtxStateBuf\<close> and \<open>CtxStateStore\<close> of
  \<open>source/Lib/CommonLib/Contexts.h\<close> and \<open>Contexts.cpp\<close> (\<open>EC_HIGH_PRECISION\<close> and
  \<open>JVET_Z0135_TEMP_CABAC_WIN_WEIGHT\<close> on). Machine integers are natural numbers; an assignment to a
  16-bit or 8-bit member reduces its value modulo \<open>2^16\<close> or \<open>2^8\<close>.
\<close>

section \<open>A probability model\<close>

definition to_u8 :: "nat \<Rightarrow> nat" where
  "to_u8 x = x mod 2 ^ 8"

definition to_u16 :: "nat \<Rightarrow> nat" where
  "to_u16 x = x mod 2 ^ 16"

definition MASK_0 :: nat where "MASK_0 = 0x7FFF"
definition MASK_1 :: nat where "MASK_1 = 0x7FFF"
definition ADJUSTMENT_RANGE :: int where "ADJUSTMENT_RANGE = 7"
definition DWS :: nat where "DWS = 8"
definition DWE :: nat where "DWE = 18"
definition DWO :: nat where "DWO = 119"

definition weightedAdaptRate :: "nat list" where
  "weightedAdaptRate = [10, 12, 16, 20, 22]"

definition m_RenormTable_32 :: "nat list" where
  "m_RenormTable_32 =
    [6, 5, 4, 4, 3, 3, 3, 3, 2, 2, 2, 2, 2, 2, 2, 2,
     1, 1, 1, 1, 1, 1, 1, 1, 1, 1, 1, 1, 1, 1, 1, 1]"

record BinProbModel =
  m_state0 :: nat
  m_state1 :: nat
  m_rate :: nat
  m_stateUsed0 :: nat
  m_stateUsed1 :: nat
  m_rateOffset0 :: nat
  m_rateOffset1 :: nat
  m_weight :: nat

definition new_BinProbModel :: BinProbModel where
  "new_BinProbModel =
     (let half = 2 ^ 14 in
      \<lparr>m_state0 = half, m_state1 = half, m_rate = DWS, m_stateUsed0 = half, m_stateUsed1 = half,
       m_rateOffset0 = DWO, m_rateOffset1 = DWO, m_weight = DWE\<rparr>)"

definition bpm_init :: "int \<Rightarrow> nat \<Rightarrow> BinProbModel \<Rightarrow> BinProbModel" where
  "bpm_init qp initId m =
     (let slope = int (drop_bit 3 initId) - 4;
          offset = (int (initId AND 7) * 18) + 1;
          inistate = drop_bit 1 (slope * (qp - 16)) + offset;
          state_clip = (if inistate < 1 then 1 else if inistate > 127 then 127 else inistate);
          p1 = nat (push_bit 8 state_clip);
          m = m\<lparr>m_state0 := p1 AND MASK_0, m_state1 := p1 AND MASK_1\<rparr>
      in m\<lparr>m_stateUsed0 := m_state0 m, m_stateUsed1 := m_state1 m\<rparr>)"

definition rate_used :: "nat \<Rightarrow> nat \<Rightarrow> nat" where
  "rate_used rate ws = nat (max 2 (int rate + int ws - ADJUSTMENT_RANGE))"

definition bpm_update :: "bool \<Rightarrow> BinProbModel \<Rightarrow> BinProbModel" where
  "bpm_update bin m =
     (let rate0 = drop_bit 4 (m_rate m);
          rate1 = m_rate m AND 15;
          ws = (if bin then m_rateOffset1 m else m_rateOffset0 m);
          rateUsed0 = rate_used rate0 (drop_bit 4 ws);
          rateUsed1 = rate_used rate1 (ws AND 15);
          m = m\<lparr>m_stateUsed0 := to_u16 (m_state0 m - (drop_bit rateUsed0 (m_state0 m) AND MASK_0)),
                m_stateUsed1 := to_u16 (m_state1 m - (drop_bit rateUsed1 (m_state1 m) AND MASK_1)),
                m_state0 := to_u16 (m_state0 m - (drop_bit rate0 (m_state0 m) AND MASK_0)),
                m_state1 := to_u16 (m_state1 m - (drop_bit rate1 (m_state1 m) AND MASK_1))\<rparr>
      in if bin
         then m\<lparr>m_stateUsed0 := to_u16 (m_stateUsed0 m + (drop_bit rateUsed0 0x7FFF AND MASK_0)),
                m_stateUsed1 := to_u16 (m_stateUsed1 m + (drop_bit rateUsed1 0x7FFF AND MASK_1)),
                m_state0 := to_u16 (m_state0 m + (drop_bit rate0 0x7FFF AND MASK_0)),
                m_state1 := to_u16 (m_state1 m + (drop_bit rate1 0x7FFF AND MASK_1))\<rparr>
         else m)"

text \<open>The rate is stored before the check of the second window.\<close>

definition setLog2WindowSize :: "nat \<Rightarrow> BinProbModel \<Rightarrow> BinProbModel result" where
  "setLog2WindowSize log2WindowSize m =
     (let rate0 = 2 + (drop_bit 2 log2WindowSize AND 3);
          rate1 = 3 + rate0 + (log2WindowSize AND 3);
          m = m\<lparr>m_rate := to_u8 (16 * rate0 + rate1)\<rparr>
      in checkE (rate1 > 9) ''Second window size is too large!'' (Inr m))"

definition setAdaptRateWeight :: "nat \<Rightarrow> BinProbModel \<Rightarrow> BinProbModel" where
  "setAdaptRateWeight weight m = m\<lparr>m_weight := weight\<rparr>"

definition setAdaptRateOffset :: "nat \<Rightarrow> bool \<Rightarrow> BinProbModel \<Rightarrow> BinProbModel" where
  "setAdaptRateOffset rateOffset bin m =
     (if bin then m\<lparr>m_rateOffset1 := rateOffset\<rparr> else m\<lparr>m_rateOffset0 := rateOffset\<rparr>)"

definition bpm_weighted :: "nat \<Rightarrow> BinProbModel \<Rightarrow> nat" where
  "bpm_weighted shift m =
     (let wIdx0 = drop_bit 3 (m_weight m);
          wIdx1 = m_weight m AND 7;
          w0 = weightedAdaptRate ! wIdx0;
          w1 = weightedAdaptRate ! wIdx1
      in if w0 + w1 \<le> 32
         then drop_bit shift (m_stateUsed0 m * w0 + m_stateUsed1 m * w1)
         else drop_bit (shift + 1) (m_stateUsed0 m * w0 + m_stateUsed1 m * w1))"

definition state_est :: "BinProbModel \<Rightarrow> nat" where
  "state_est m = to_u16 (bpm_weighted 11 m)"

definition bpm_state :: "BinProbModel \<Rightarrow> nat" where
  "bpm_state m = to_u16 (bpm_weighted 5 m)"

definition mps :: "BinProbModel \<Rightarrow> nat" where
  "mps m = to_u8 (drop_bit 14 (bpm_state m))"

definition getLPS :: "nat \<Rightarrow> BinProbModel \<Rightarrow> nat" where
  "getLPS rng m =
     (let q = bpm_state m;
          q = (if q AND 0x4000 \<noteq> 0 then q XOR 0x7FFF else q)
      in to_u8 (drop_bit 9 (rng * drop_bit 6 q) + 1))"

definition getRenormBitsLPS :: "nat \<Rightarrow> nat" where
  "getRenormBitsLPS LPS = m_RenormTable_32 ! drop_bit 3 LPS"

definition getRenormBitsRange :: "nat \<Rightarrow> nat" where
  "getRenormBitsRange rng = 1"

definition getState :: "BinProbModel \<Rightarrow> nat \<times> nat" where
  "getState m = (m_state0 m, m_state1 m)"

definition setState :: "nat \<times> nat \<Rightarrow> BinProbModel \<Rightarrow> BinProbModel" where
  "setState pState m =
     (let m = m\<lparr>m_state0 := fst pState, m_state1 := snd pState\<rparr>
      in m\<lparr>m_stateUsed0 := m_state0 m, m_stateUsed1 := m_state1 m\<rparr>)"

section \<open>What every operation keeps of a model\<close>

text \<open>States of 15 bits, two rates, and weight indices inside the table.\<close>

definition bpm_ok :: "BinProbModel \<Rightarrow> bool" where
  "bpm_ok m \<longleftrightarrow> m_state0 m \<le> 0x7FFF \<and> m_state1 m \<le> 0x7FFF
     \<and> m_stateUsed0 m \<le> 0x7FFF \<and> m_stateUsed1 m \<le> 0x7FFF
     \<and> drop_bit 3 (m_weight m) < 5 \<and> m_weight m AND 7 < 5"

lemma and_mask_15: "(x :: nat) AND 0x7FFF = x mod 2 ^ 15"
proof -
  have "x AND mask 15 = take_bit 15 x" by (rule take_bit_eq_mask [symmetric])
  then show ?thesis by (simp add: mask_eq_exp_minus_1 take_bit_eq_mod)
qed

lemma sub_div_mono: "x \<le> y \<Longrightarrow> x - x div d \<le> y - y div (d :: nat)"
proof (induction y rule: dec_induct)
  case (step n)
  have "Suc n div d \<le> Suc (n div d)" by (cases "d dvd Suc n") (simp_all add: div_Suc dvd_eq_mod_eq_0)
  then show ?case using step.IH by linarith
qed simp

text \<open>One step of an estimate: down by a fraction, and up by a fraction of the maximum for a one.\<close>

definition decay :: "nat \<Rightarrow> nat \<Rightarrow> nat" where
  "decay r s = s - s div 2 ^ r"

definition adapt :: "bool \<Rightarrow> nat \<Rightarrow> nat \<Rightarrow> nat" where
  "adapt bin r s = decay r s + (if bin then 0x7FFF div 2 ^ r else 0)"

lemma div_lt_15: "(s :: nat) \<le> 0x7FFF \<Longrightarrow> s div 2 ^ r < 2 ^ 15"
  by (rule le_less_trans [OF div_le_dividend]) simp

lemma adapt_le:
  assumes "s \<le> 0x7FFF"
  shows "adapt bin r s \<le> 0x7FFF" and "decay r s \<le> 0x7FFF"
proof -
  have "decay r s \<le> 0x7FFF - 0x7FFF div 2 ^ r"
    unfolding decay_def by (rule sub_div_mono [OF assms])
  moreover have "(0x7FFF :: nat) div 2 ^ r \<le> 0x7FFF" by (rule div_le_dividend)
  ultimately show "adapt bin r s \<le> 0x7FFF" and "decay r s \<le> 0x7FFF"
    unfolding adapt_def by (simp_all only: split: if_split) linarith+
qed

lemma adapt_down: "s \<le> 0x7FFF \<Longrightarrow> to_u16 (s - (drop_bit r s AND 0x7FFF)) = decay r s"
  using div_lt_15 [of s r] adapt_le(2) [of s r] unfolding and_mask_15 drop_bit_eq_div to_u16_def decay_def
  by simp

lemma adapt_up:
  assumes "s \<le> 0x7FFF"
  shows "to_u16 (decay r s + (drop_bit r 0x7FFF AND 0x7FFF)) = decay r s + 0x7FFF div 2 ^ r"
  using div_lt_15 [of "0x7FFF" r] adapt_le(1) [OF assms, of True r]
  unfolding and_mask_15 drop_bit_eq_div to_u16_def adapt_def by simp

lemma bpm_update_adapt:
  assumes "bpm_ok m"
  shows "bpm_update bin m =
    (let ws = (if bin then m_rateOffset1 m else m_rateOffset0 m) in
     m\<lparr>m_stateUsed0 := adapt bin (rate_used (drop_bit 4 (m_rate m)) (drop_bit 4 ws)) (m_state0 m),
       m_stateUsed1 := adapt bin (rate_used (m_rate m AND 15) (ws AND 15)) (m_state1 m),
       m_state0 := adapt bin (drop_bit 4 (m_rate m)) (m_state0 m),
       m_state1 := adapt bin (m_rate m AND 15) (m_state1 m)\<rparr>)"
  using assms
  by (simp add: bpm_ok_def bpm_update_def Let_def MASK_0_def MASK_1_def adapt_down adapt_up adapt_def)

lemma bpm_ok_update: "bpm_ok m \<Longrightarrow> bpm_ok (bpm_update bin m)"
  unfolding bpm_update_adapt Let_def by (auto simp: bpm_ok_def intro: adapt_le(1))

lemma bpm_ok_new: "bpm_ok new_BinProbModel"
  by (simp add: bpm_ok_def new_BinProbModel_def Let_def DWE_def)

lemma bpm_ok_setLog2WindowSize: "bpm_ok m \<Longrightarrow> setLog2WindowSize w m = Inr m' \<Longrightarrow> bpm_ok m'"
  by (auto simp: setLog2WindowSize_def Let_def checkE_Inr_iff bpm_ok_def)

lemma bpm_ok_setAdaptRateOffset: "bpm_ok m \<Longrightarrow> bpm_ok (setAdaptRateOffset o' b m)"
  by (simp add: setAdaptRateOffset_def bpm_ok_def)

lemma bpm_ok_setState: "bpm_ok m \<Longrightarrow> fst p \<le> 0x7FFF \<Longrightarrow> snd p \<le> 0x7FFF \<Longrightarrow> bpm_ok (setState p m)"
  by (simp add: setState_def Let_def bpm_ok_def)

section \<open>Probabilities and the less probable symbol\<close>

lemma weightedAdaptRate_bounds: "i < 5 \<Longrightarrow> 10 \<le> weightedAdaptRate ! i \<and> weightedAdaptRate ! i \<le> 22"
  by (auto simp: weightedAdaptRate_def less_Suc_eq numeral_eq_Suc)

lemma bpm_weighted_le:
  assumes "bpm_ok m"
  shows "bpm_weighted 5 m \<le> 0x7FFF"
proof -
  let ?w0 = "weightedAdaptRate ! drop_bit 3 (m_weight m)" and ?w1 = "weightedAdaptRate ! (m_weight m AND 7)"
  let ?s = "m_stateUsed0 m * ?w0 + m_stateUsed1 m * ?w1"
  have w: "?w0 \<le> 22" "?w1 \<le> 22"
    using assms weightedAdaptRate_bounds by (auto simp: bpm_ok_def simp del: and_nat_numerals)
  have s: "?s \<le> 0x7FFF * (?w0 + ?w1)"
    using assms by (simp add: bpm_ok_def add_mult_distrib2 add_mono mult_right_mono)
  show ?thesis
  proof (cases "?w0 + ?w1 \<le> 32")
    case True
    then have "?s \<le> 0x7FFF * 32" using s mult_le_mono2 [OF True, of "0x7FFF"] by linarith
    then have "?s div 32 \<le> 0x7FFF" by simp
    then show ?thesis using True by (simp add: bpm_weighted_def Let_def drop_bit_eq_div)
  next
    case False
    have "?s \<le> 0x7FFF * 44" using s w by simp
    then have "?s div 64 \<le> 0x7FFF" by simp
    then show ?thesis using False by (simp add: bpm_weighted_def Let_def drop_bit_eq_div)
  qed
qed

lemma bpm_state_le: "bpm_ok m \<Longrightarrow> bpm_state m \<le> 0x7FFF"
  using bpm_weighted_le [of m] by (simp add: bpm_state_def to_u16_def)

lemma mps_le: "bpm_ok m \<Longrightarrow> mps m \<le> 1"
  using bpm_state_le [of m] by (simp add: mps_def to_u8_def drop_bit_eq_div)

lemma folded_state:
  assumes "q \<le> 0x7FFF"
  shows "(if q AND 0x4000 \<noteq> 0 then q XOR 0x7FFF else q) < (2 :: nat) ^ 14"
proof -
  have q: "take_bit 15 q = q" using assms by (simp add: take_bit_nat_eq_self_iff)
  then have q15: "bit q i \<Longrightarrow> i < 15" for i by (metis bit_take_bit_iff)
  have b14: "q AND 0x4000 \<noteq> 0 \<longleftrightarrow> bit q 14"
    using and_exp_eq_0_iff_not_bit [of q 14] by simp
  have m: "bit (0x7FFF :: nat) i \<longleftrightarrow> i < 15" for i
    using bit_mask_iff [of 15 i, where 'a = nat] by (simp add: mask_eq_exp_minus_1)
  let ?x = "if bit q 14 then q XOR 0x7FFF else q"
  have "bit ?x i \<Longrightarrow> i < 14" for i
    using q15 [of i] m [of i] by (cases "i = 14") (auto simp: bit_xor_iff split: if_splits)
  then have "take_bit 14 ?x = ?x"
    by (intro bit_eqI) (auto simp: bit_take_bit_iff)
  then show ?thesis unfolding b14 by (simp only: take_bit_nat_eq_self_iff)
qed

text \<open>The sub-range of the less probable symbol: never empty, and at most half of the range.\<close>

lemma getLPS_bounds:
  assumes "bpm_ok m" and "r \<le> 510"
  shows "1 \<le> getLPS r m" and "getLPS r m \<le> (r + 1) div 2 \<or> r = 0" and "getLPS r m \<le> 255"
proof -
  define q where "q = (if bpm_state m AND 0x4000 \<noteq> 0 then bpm_state m XOR 0x7FFF else bpm_state m)"
  have "q < 2 ^ 14" unfolding q_def by (rule folded_state [OF bpm_state_le [OF assms(1)]])
  then have "q div 64 \<le> 255" by (simp add: less_mult_imp_div_less less_Suc_eq_le [symmetric])
  then have x: "r * (q div 64) \<le> r * 255" by simp
  then have "r * (q div 64) div 512 \<le> r * 255 div 512" by (rule div_le_mono)
  moreover have "r * 255 div 512 + 1 \<le> (r + 1) div 2 \<or> r = 0"
  proof (cases "r = 0")
    case False
    define h where "h = (r + 1) div 2"
    have "r \<le> 2 * h" "0 < h" using False by (auto simp: h_def)
    then have "r * 255 < h * 512" by linarith
    then have "r * 255 div 512 < h" by (rule less_mult_imp_div_less)
    then show ?thesis unfolding h_def by simp
  qed simp
  moreover have "r * 255 div 512 \<le> 254"
    using assms(2) by (simp add: less_Suc_eq_le [symmetric] less_mult_imp_div_less)
  ultimately have v: "r * (q div 64) div 512 + 1 \<le> (r + 1) div 2 \<or> r = 0" "r * (q div 64) div 512 \<le> 254"
    by linarith+
  have "getLPS r m = r * (q div 64) div 512 + 1"
    using v(2) unfolding getLPS_def Let_def q_def [symmetric] by (simp add: to_u8_def drop_bit_eq_div)
  with v show "1 \<le> getLPS r m" and "getLPS r m \<le> (r + 1) div 2 \<or> r = 0" and "getLPS r m \<le> 255"
    by simp_all
qed

text \<open>The range after the renormalisation of either symbol.\<close>

lemma renorm_LPS:
  assumes "1 \<le> l" and "l \<le> 255"
  shows "64 \<le> l * 2 ^ getRenormBitsLPS l" and "l * 2 ^ getRenormBitsLPS l \<le> 510"
    and "getRenormBitsLPS l \<le> 6" and "4 \<le> l \<Longrightarrow> 256 \<le> l * 2 ^ getRenormBitsLPS l"
proof -
  have i: "l div 8 < 32" using assms(2) by (simp add: less_mult_imp_div_less)
  have lo: "8 * (l div 8) \<le> l" "l \<le> 8 * (l div 8) + 7" by presburger+
  have cases: "j < 32 \<Longrightarrow> P j" if "\<forall>j\<in>set [0..<32]. P j" for P and j :: nat
    using that by simp
  have up: "(8 * j + 7) * 2 ^ (m_RenormTable_32 ! j) \<le> 510" if "j < 32" for j
    using that by (rule cases [rotated]) (simp add: m_RenormTable_32_def upt_rec)
  have down: "j = 0 \<or> 256 \<le> (8 * j) * 2 ^ (m_RenormTable_32 ! j)" if "j < 32" for j
    using that by (rule cases [rotated]) (simp add: m_RenormTable_32_def upt_rec)
  have six: "m_RenormTable_32 ! j \<le> 6" if "j < 32" for j
    using that by (rule cases [rotated]) (simp add: m_RenormTable_32_def upt_rec)
  let ?k = "m_RenormTable_32 ! (l div 8)"
  have r: "getRenormBitsLPS l = ?k" by (simp add: getRenormBitsLPS_def drop_bit_eq_div)
  show "getRenormBitsLPS l \<le> 6" unfolding r by (rule six [OF i])
  have "l * 2 ^ ?k \<le> (8 * (l div 8) + 7) * 2 ^ ?k" using lo(2) by (rule mult_right_mono) simp
  then show "l * 2 ^ getRenormBitsLPS l \<le> 510" unfolding r using up [OF i] by linarith
  have zero: "l div 8 = 0 \<Longrightarrow> ?k = 6" by (simp add: m_RenormTable_32_def)
  have big: "l div 8 \<noteq> 0 \<Longrightarrow> 256 \<le> l * 2 ^ ?k"
    using down [OF i] mult_right_mono [OF lo(1), of "2 ^ ?k"] by linarith
  show "64 \<le> l * 2 ^ getRenormBitsLPS l" unfolding r
    using zero big assms(1) by (cases "l div 8 = 0") simp_all
  show "256 \<le> l * 2 ^ getRenormBitsLPS l" if "4 \<le> l" unfolding r
    using zero big that by (cases "l div 8 = 0") simp_all
qed

section \<open>The store of all models\<close>

type_synonym CtxStore = "BinProbModel list"

text \<open>
  \<open>init\<close> reads five of the tables of \<open>ContextSetCfg\<close>: the initial states, the window sizes and the
  weights of the slice type, and the rate offsets for either bin. The tables are an argument.
\<close>

definition getInitTable :: "nat list list \<Rightarrow> nat \<Rightarrow> nat list result" where
  "getInitTable sm_InitTables initId =
     checkE (initId \<ge> length sm_InitTables) ''Invalid initId'' (Inr (sm_InitTables ! initId))"

definition NUMBER_OF_SLICE_TYPES :: nat where "NUMBER_OF_SLICE_TYPES = 3"
definition MAX_QP :: int where "MAX_QP = 63"

definition init_model :: "int \<Rightarrow> nat \<Rightarrow> nat \<Rightarrow> nat \<Rightarrow> nat \<Rightarrow> nat \<Rightarrow> BinProbModel \<Rightarrow> BinProbModel result" where
  "init_model qp initId rate offset0 offset1 weight m =
     bindE (setLog2WindowSize rate (bpm_init qp initId m)) (\<lambda>m.
     Inr (setAdaptRateWeight weight (setAdaptRateOffset offset1 True (setAdaptRateOffset offset0 False m))))"

definition ctx_init :: "nat list list \<Rightarrow> int \<Rightarrow> nat \<Rightarrow> CtxStore \<Rightarrow> CtxStore result" where
  "ctx_init sm_InitTables qp initId ctx =
     bindE (getInitTable sm_InitTables initId) (\<lambda>initTable.
     checkE (length ctx \<noteq> length initTable) ''Size of init table does not match size of context buffer'' (
     bindE (getInitTable sm_InitTables (NUMBER_OF_SLICE_TYPES + initId)) (\<lambda>rateInitTable.
     checkE (length ctx \<noteq> length rateInitTable)
       ''Size of rate init table does not match size of context buffer'' (
     bindE (getInitTable sm_InitTables (push_bit 1 NUMBER_OF_SLICE_TYPES + initId)) (\<lambda>weightInitTable.
     checkE (length ctx \<noteq> length weightInitTable)
       ''Size of weight init table does not match size of context buffer'' (
     bindE (getInitTable sm_InitTables (NUMBER_OF_SLICE_TYPES * 3)) (\<lambda>rateOffsetInitTable0.
     bindE (getInitTable sm_InitTables (NUMBER_OF_SLICE_TYPES * 3 + 1)) (\<lambda>rateOffsetInitTable1.
     checkE (length ctx \<noteq> length rateOffsetInitTable0)
       ''Size of weight init table does not match size of context buffer'' (
     checkE (length ctx \<noteq> length rateOffsetInitTable1)
       ''Size of weight init table does not match size of context buffer'' (
     let clippedQP = max 0 (min MAX_QP qp) in
     mapE (\<lambda>k. init_model clippedQP (initTable ! k) (rateInitTable ! k) (rateOffsetInitTable0 ! k)
             (rateOffsetInitTable1 ! k) (weightInitTable ! k) (ctx ! k))
       [0..<length ctx]))))))))))"

definition setWinSizes :: "nat list \<Rightarrow> CtxStore \<Rightarrow> CtxStore result" where
  "setWinSizes log2WindowSizes ctx =
     checkE (length ctx \<noteq> length log2WindowSizes)
       ''Size of window size table does not match size of context buffer''
     (mapE (\<lambda>(w, m). setLog2WindowSize w m) (zip log2WindowSizes ctx))"

definition loadWeights :: "nat list \<Rightarrow> CtxStore \<Rightarrow> CtxStore result" where
  "loadWeights weights ctx =
     checkE (length ctx \<noteq> length weights)
       ''Size of prob states table does not match size of context buffer''
     (Inr (map2 setAdaptRateWeight weights ctx))"

definition saveWeights :: "CtxStore \<Rightarrow> nat list" where
  "saveWeights ctx = map m_weight ctx"

definition loadPStates :: "(nat \<times> nat) list \<Rightarrow> CtxStore \<Rightarrow> CtxStore result" where
  "loadPStates probStates ctx =
     checkE (length ctx \<noteq> length probStates)
       ''Size of prob states table does not match size of context buffer''
     (Inr (map2 setState probStates ctx))"

definition savePStates :: "CtxStore \<Rightarrow> (nat \<times> nat) list" where
  "savePStates ctx = map getState ctx"

definition ctx_ok :: "CtxStore \<Rightarrow> bool" where
  "ctx_ok ctx \<longleftrightarrow> list_all bpm_ok ctx"

definition ctx_update :: "nat \<Rightarrow> bool \<Rightarrow> CtxStore \<Rightarrow> CtxStore" where
  "ctx_update ctxId bin ctx = ctx[ctxId := bpm_update bin (ctx ! ctxId)]"

lemma ctx_ok_update: "ctx_ok ctx \<Longrightarrow> ctxId < length ctx \<Longrightarrow> ctx_ok (ctx_update ctxId bin ctx)"
  by (auto simp: ctx_ok_def ctx_update_def list_all_length nth_list_update bpm_ok_update)

lemma length_ctx_update [simp]: "length (ctx_update ctxId bin ctx) = length ctx"
  by (simp add: ctx_update_def)

lemma ctx_ok_nth: "ctx_ok ctx \<Longrightarrow> ctxId < length ctx \<Longrightarrow> bpm_ok (ctx ! ctxId)"
  by (simp add: ctx_ok_def list_all_length)

lemma bpm_init_range: "m_state0 (bpm_init qp i m) \<le> 0x7FFF \<and> m_state1 (bpm_init qp i m) \<le> 0x7FFF
    \<and> m_stateUsed0 (bpm_init qp i m) \<le> 0x7FFF \<and> m_stateUsed1 (bpm_init qp i m) \<le> 0x7FFF"
proof -
  have "(x :: nat) mod 2 ^ 15 \<le> 0x7FFF" for x
    using mod_less_divisor [of "2 ^ 15" x] by simp
  then show ?thesis unfolding bpm_init_def Let_def MASK_0_def MASK_1_def and_mask_15 by simp
qed

text \<open>Initialisation from weights inside the table gives well-formed models.\<close>

lemma init_model_ok:
  assumes "drop_bit 3 weight < 5" and "weight AND 7 < 5"
    and "init_model qp initId rate o0 o1 weight m = Inr m'"
  shows "bpm_ok m'"
  using assms bpm_init_range [of qp initId m]
  by (auto simp: init_model_def bindE_Inr_iff setLog2WindowSize_def Let_def checkE_Inr_iff bpm_ok_def
      setAdaptRateWeight_def setAdaptRateOffset_def)

section \<open>States kept from picture to picture\<close>

record CtxStateBuf =
  m_states :: "(nat \<times> nat) list"
  m_valid :: bool
  m_weights :: "nat list"

definition buf_getIfValid :: "CtxStateBuf \<Rightarrow> CtxStore \<Rightarrow> (bool \<times> CtxStore) result" where
  "buf_getIfValid b ctx =
     (if m_valid b
      then bindE (loadPStates (m_states b) ctx) (\<lambda>ctx.
           bindE (loadWeights (m_weights b) ctx) (\<lambda>ctx. Inr (True, ctx)))
      else Inr (False, ctx))"

definition buf_store :: "CtxStore \<Rightarrow> CtxStateBuf" where
  "buf_store ctx = \<lparr>m_states = savePStates ctx, m_valid = True, m_weights = saveWeights ctx\<rparr>"

definition array_getIfValid :: "CtxStateBuf list \<Rightarrow> CtxStore \<Rightarrow> (bool \<times> CtxStore) result" where
  "array_getIfValid m_data ctx =
     (case m_data of [] \<Rightarrow> Inr (False, ctx) | b # bs \<Rightarrow> buf_getIfValid b ctx)"

definition array_store :: "CtxStore \<Rightarrow> CtxStateBuf list \<Rightarrow> CtxStateBuf list" where
  "array_store ctx m_data = (case m_data of [] \<Rightarrow> [buf_store ctx] | b # bs \<Rightarrow> buf_store ctx # bs)"

datatype SliceType = B_SLICE | P_SLICE | I_SLICE

text \<open>
  \<open>std::map\<close> from temporal layer and slice QP to stored states: an association list in the order of
  its keys, so that \<open>erase(begin())\<close> drops the head.
\<close>

type_synonym StateMap = "((int \<times> int) \<times> CtxStateBuf list) list"

definition key_less :: "int \<times> int \<Rightarrow> int \<times> int \<Rightarrow> bool" where
  "key_less a b \<longleftrightarrow> fst a < fst b \<or> fst a = fst b \<and> snd a < snd b"

fun map_put :: "int \<times> int \<Rightarrow> CtxStateBuf list \<Rightarrow> StateMap \<Rightarrow> StateMap" where
  "map_put k v [] = [(k, v)]"
| "map_put k v ((k', v') # m) =
     (if k = k' then (k, v) # m
      else if key_less k k' then (k, v) # (k', v') # m
      else (k', v') # map_put k v m)"

definition TEMP_CABAC_BUFFER_SIZE :: nat where "TEMP_CABAC_BUFFER_SIZE = 5"

text \<open>\<open>m_stateBuf[t][entry]\<close>, which makes an empty entry, and the store into it.\<close>

definition map_store :: "int \<times> int \<Rightarrow> CtxStore \<Rightarrow> StateMap \<Rightarrow> StateMap result" where
  "map_store entry ctx m =
     (let m = (if map_of m entry \<noteq> None \<or> length m < TEMP_CABAC_BUFFER_SIZE then m
               else if length m = TEMP_CABAC_BUFFER_SIZE then tl m else m);
          fresh = (map_of m entry = None);
          old = (case map_of m entry of None \<Rightarrow> [] | Some a \<Rightarrow> a)
      in checkE (fresh \<and> length m + 1 > TEMP_CABAC_BUFFER_SIZE) ''Wrong buffer size''
         (Inr (map_put entry (array_store ctx old) m)))"

record CtxStateStore =
  m_stateBuf_B :: StateMap
  m_stateBuf_P :: StateMap

definition storeCtx :: "SliceType \<Rightarrow> int \<Rightarrow> int \<Rightarrow> CtxStore \<Rightarrow> CtxStateStore \<Rightarrow> CtxStateStore result" where
  "storeCtx t tLayer sliceQp ctx st =
     (case t of
        I_SLICE \<Rightarrow> Inr st
      | B_SLICE \<Rightarrow> bindE (map_store (tLayer, sliceQp) ctx (m_stateBuf_B st)) (\<lambda>m. Inr (st\<lparr>m_stateBuf_B := m\<rparr>))
      | P_SLICE \<Rightarrow> bindE (map_store (tLayer, sliceQp) ctx (m_stateBuf_P st)) (\<lambda>m. Inr (st\<lparr>m_stateBuf_P := m\<rparr>)))"

definition loadCtx :: "SliceType \<Rightarrow> int \<Rightarrow> int \<Rightarrow> CtxStore \<Rightarrow> CtxStateStore \<Rightarrow> (bool \<times> CtxStore) result" where
  "loadCtx t tLayer sliceQp ctx st =
     (case t of
        I_SLICE \<Rightarrow> Inr (False, ctx)
      | _ \<Rightarrow> (case map_of (if t = B_SLICE then m_stateBuf_B st else m_stateBuf_P st) (tLayer, sliceQp) of
               None \<Rightarrow> Inr (False, ctx)
             | Some a \<Rightarrow> array_getIfValid a ctx))"

definition clearValid :: "CtxStateStore \<Rightarrow> CtxStateStore" where
  "clearValid st = st\<lparr>m_stateBuf_B := [], m_stateBuf_P := []\<rparr>"

text \<open>Keys in order, and no more than the buffer may hold.\<close>

definition state_map_ok :: "StateMap \<Rightarrow> bool" where
  "state_map_ok m \<longleftrightarrow> sorted_wrt key_less (map fst m) \<and> length m \<le> TEMP_CABAC_BUFFER_SIZE"

definition state_store_ok :: "CtxStateStore \<Rightarrow> bool" where
  "state_store_ok st \<longleftrightarrow> state_map_ok (m_stateBuf_B st) \<and> state_map_ok (m_stateBuf_P st)"

lemma key_less_irrefl [simp]: "\<not> key_less k k"
  by (simp add: key_less_def)

lemma key_less_trans: "key_less a b \<Longrightarrow> key_less b c \<Longrightarrow> key_less a c"
  by (auto simp: key_less_def)

lemma key_less_total: "a \<noteq> b \<Longrightarrow> \<not> key_less a b \<Longrightarrow> key_less b a"
  by (cases a; cases b) (auto simp: key_less_def)

lemma map_put_lookup: "map_of (map_put k v m) k' = (if k' = k then Some v else map_of m k')"
  by (induction k v m rule: map_put.induct) auto

lemma map_put_keys: "set (map fst (map_put k v m)) = insert k (set (map fst m))"
  by (induction k v m rule: map_put.induct) auto

lemma map_put_sorted: "sorted_wrt key_less (map fst m) \<Longrightarrow> sorted_wrt key_less (map fst (map_put k v m))"
proof (induction k v m rule: map_put.induct)
  case (2 k v k' v' m)
  consider "k = k'" | "k \<noteq> k'" "key_less k k'" | "k \<noteq> k'" "\<not> key_less k k'" by blast
  then show ?case
  proof cases
    case 3
    then have "key_less k' k" using key_less_total by blast
    then have "\<forall>x \<in> set (map fst (map_put k v m)). key_less k' x"
      using 2 unfolding map_put_keys by auto
    then show ?thesis using 2 3 by simp
  qed (use 2 key_less_trans in auto)
qed simp

lemma map_put_length:
  "length (map_put k v m) = (if map_of m k = None then length m + 1 else length m)
   \<or> \<not> sorted_wrt key_less (map fst m)"
proof (induction k v m rule: map_put.induct)
  case (2 k v k' v' m)
  have "map_of m k = None" if "sorted_wrt key_less (k' # map fst m)" "k = k' \<or> key_less k k'"
  proof -
    have "k \<notin> set (map fst m)" using that key_less_trans key_less_irrefl by (metis sorted_wrt.simps(2))
    then show ?thesis by (simp add: map_of_eq_None_iff)
  qed
  then show ?case using 2 by auto
qed simp

lemma map_store_ok:
  assumes "state_map_ok m"
  shows "\<exists>m'. map_store entry ctx m = Inr m' \<and> state_map_ok m'
    \<and> (\<exists>bs. map_of m' entry = Some (buf_store ctx # bs))"
proof -
  define m1 where "m1 = (if map_of m entry \<noteq> None \<or> length m < TEMP_CABAC_BUFFER_SIZE then m
            else if length m = TEMP_CABAC_BUFFER_SIZE then tl m else m)"
  have ok: "sorted_wrt key_less (map fst m1)" "length m1 \<le> TEMP_CABAC_BUFFER_SIZE"
    using assms by (cases m; auto simp: m1_def state_map_ok_def)+
  have free: "length m1 < TEMP_CABAC_BUFFER_SIZE" if "map_of m1 entry = None"
    using assms that by (auto simp: m1_def state_map_ok_def TEMP_CABAC_BUFFER_SIZE_def split: if_splits)
  define v where "v = array_store ctx (case map_of m1 entry of None \<Rightarrow> [] | Some a \<Rightarrow> a)"
  have "map_store entry ctx m = Inr (map_put entry v m1)"
    unfolding map_store_def m1_def [symmetric] Let_def v_def
    by (rule checkE_False) (use free in auto)
  moreover have "length (map_put entry v m1) \<le> TEMP_CABAC_BUFFER_SIZE"
    using map_put_length [of entry v m1] ok free by (cases "map_of m1 entry") auto
  moreover have "\<exists>bs. v = buf_store ctx # bs"
    by (simp add: v_def array_store_def split: list.split)
  ultimately show ?thesis
    using map_put_sorted [OF ok(1)] by (auto simp: state_map_ok_def map_put_lookup)
qed

text \<open>What was stored is loaded again, whatever the models were in between.\<close>

definition same_estimates :: "BinProbModel \<Rightarrow> BinProbModel \<Rightarrow> bool" where
  "same_estimates m m' \<longleftrightarrow> getState m = getState m' \<and> m_weight m = m_weight m'
     \<and> m_stateUsed0 m = m_state0 m \<and> m_stateUsed1 m = m_state1 m"

lemma buf_reload:
  assumes "length ctx = length ctx'"
  shows "\<exists>ctx''. buf_getIfValid (buf_store ctx) ctx' = Inr (True, ctx'')
    \<and> list_all2 same_estimates ctx'' ctx"
  using assms
  by (auto simp: buf_getIfValid_def buf_store_def loadPStates_def loadWeights_def savePStates_def
      saveWeights_def list_all2_conv_all_nth same_estimates_def setAdaptRateWeight_def setState_def
      getState_def Let_def)

lemma storeCtx_ok:
  assumes "state_store_ok st"
  shows "\<exists>st'. storeCtx t l q ctx st = Inr st' \<and> state_store_ok st'"
proof (cases t)
  case B_SLICE
  obtain m where "map_store (l, q) ctx (m_stateBuf_B st) = Inr m" "state_map_ok m"
    using map_store_ok [of "m_stateBuf_B st" "(l, q)" ctx] assms by (auto simp: state_store_ok_def)
  then show ?thesis using assms B_SLICE by (simp add: storeCtx_def state_store_ok_def)
next
  case P_SLICE
  obtain m where "map_store (l, q) ctx (m_stateBuf_P st) = Inr m" "state_map_ok m"
    using map_store_ok [of "m_stateBuf_P st" "(l, q)" ctx] assms by (auto simp: state_store_ok_def)
  then show ?thesis using assms P_SLICE by (simp add: storeCtx_def state_store_ok_def)
next
  case I_SLICE
  then show ?thesis using assms by (simp add: storeCtx_def)
qed

section \<open>Properties\<close>

text \<open>
  C14: storing the models of an inter slice succeeds whenever the store is well formed, keeps it well
  formed (keys in order, at most five per slice type), and a later load for a slice of the same type,
  layer and QP gives every model the stored states and weights.
\<close>

theorem stored_states_are_loaded:
  assumes "state_store_ok st" and "t \<noteq> I_SLICE" and "length ctx' = length ctx"
  shows "\<exists>st' ctx''. storeCtx t l q ctx st = Inr st' \<and> state_store_ok st'
    \<and> loadCtx t l q ctx' st' = Inr (True, ctx'') \<and> list_all2 same_estimates ctx'' ctx"
proof -
  let ?m = "if t = B_SLICE then m_stateBuf_B st else m_stateBuf_P st"
  obtain ctx'' where r: "buf_getIfValid (buf_store ctx) ctx' = Inr (True, ctx'')"
    "list_all2 same_estimates ctx'' ctx"
    using buf_reload [of ctx ctx'] assms(3) by auto
  have "state_map_ok ?m" using assms(1) by (simp add: state_store_ok_def)
  then obtain m bs where m: "map_store (l, q) ctx ?m = Inr m" "map_of m (l, q) = Some (buf_store ctx # bs)"
    using map_store_ok by blast
  obtain st' where st': "storeCtx t l q ctx st = Inr st'" "state_store_ok st'"
    using storeCtx_ok [OF assms(1)] by blast
  have "loadCtx t l q ctx' st' = Inr (True, ctx'')"
    using st'(1) m r(1) assms(2)
    by (cases t) (auto simp: storeCtx_def loadCtx_def array_getIfValid_def)
  then show ?thesis using st' r(2) by blast
qed

theorem stored_states_are_loaded_witness:
  "\<exists>st' ctx''. storeCtx P_SLICE 1 30 [new_BinProbModel]
        \<lparr>m_stateBuf_B = [], m_stateBuf_P = [((0, 22), []), ((0, 27), []), ((2, 27), []), ((2, 32), []), ((3, 32), [])]\<rparr>
      = Inr st' \<and> loadCtx P_SLICE 1 30 [new_BinProbModel\<lparr>m_state0 := 5\<rparr>] st' = Inr (True, ctx'')
    \<and> list_all2 same_estimates ctx'' [new_BinProbModel]"
proof -
  have "state_store_ok
      \<lparr>m_stateBuf_B = [], m_stateBuf_P = [((0, 22), []), ((0, 27), []), ((2, 27), []), ((2, 32), []), ((3, 32), [])]\<rparr>"
    by (simp add: state_store_ok_def state_map_ok_def key_less_def TEMP_CABAC_BUFFER_SIZE_def)
  from stored_states_are_loaded [OF this, of P_SLICE "[new_BinProbModel\<lparr>m_state0 := 5\<rparr>]" "[new_BinProbModel]" 1 30]
  show ?thesis by fastforce
qed

text \<open>
  C13: a model of 15-bit states with weight indices inside the table keeps them through every update,
  none of whose 16-bit operations wraps, and its less probable symbol takes at least one and at most
  half (rounded up) of a range of at most 510, leaving after renormalisation a range from 64 to 510.
\<close>

theorem probability_model_bounds:
  assumes "bpm_ok m" and "0 < r" and "r \<le> 510"
  shows "bpm_ok (bpm_update bin m) \<and> bpm_state m \<le> 0x7FFF \<and> mps m \<le> 1
    \<and> 1 \<le> getLPS r m \<and> getLPS r m \<le> (r + 1) div 2
    \<and> 64 \<le> getLPS r m * 2 ^ getRenormBitsLPS (getLPS r m)
    \<and> getLPS r m * 2 ^ getRenormBitsLPS (getLPS r m) \<le> 510"
  using bpm_ok_update [OF assms(1)] bpm_state_le [OF assms(1)] mps_le [OF assms(1)]
    getLPS_bounds [OF assms(1,3)] renorm_LPS [of "getLPS r m"] assms(2)
  by simp

theorem probability_model_bounds_witness:
  "bpm_ok (bpm_update True new_BinProbModel) \<and> getLPS 510 new_BinProbModel \<le> 255"
  using probability_model_bounds [OF bpm_ok_new, of 510 True] by simp

end
