(* ===== verification/BinEncoder.thy ===== *)
theory BinEncoder
  imports Contexts VLC
begin

unbundle bit_operations_syntax

text \<open>
  The binary arithmetic encoder: \<open>BinCounter\<close>, \<open>BinStore\<close>, \<open>BinEncoderBase\<close> and \<open>TBinEncoder\<close> of
  \<open>source/Lib/EncoderLib/BinEncoder.h\<close> and \<open>BinEncoder.cpp\<close>, with the bit estimate of
  \<open>BitEstimatorBase\<close>. The 32-bit registers are natural numbers reduced modulo \<open>2^32\<close>; the count of
  free bits is an integer, as in the code.
\<close>

section \<open>Registers\<close>

definition to_u32 :: "nat \<Rightarrow> nat" where
  "to_u32 x = x mod 2 ^ 32"

definition shl32 :: "nat \<Rightarrow> nat \<Rightarrow> nat" where
  "shl32 x k = to_u32 (push_bit k x)"

definition add32 :: "nat \<Rightarrow> nat \<Rightarrow> nat" where
  "add32 x y = to_u32 (x + y)"

definition mul32 :: "nat \<Rightarrow> nat \<Rightarrow> nat" where
  "mul32 x y = to_u32 (x * y)"

definition sub32 :: "nat \<Rightarrow> nat \<Rightarrow> nat" where
  "sub32 x y = to_u32 (x + 2 ^ 32 - y)"

text \<open>A set of bins stored for each context, for the choice of window sizes; it stops when full.\<close>

record BinStore =
  m_inUse :: bool
  m_binBuffer :: "bool list list"

definition m_maxNumBins :: nat where "m_maxNumBins = 100000"

definition store_reset :: "BinStore \<Rightarrow> BinStore" where
  "store_reset st = (if m_inUse st then st\<lparr>m_binBuffer := map (\<lambda>_. []) (m_binBuffer st)\<rparr> else st)"

definition addBin :: "nat \<Rightarrow> nat \<Rightarrow> BinStore \<Rightarrow> BinStore" where
  "addBin bin ctxId st =
     (if m_inUse st \<and> length (m_binBuffer st ! ctxId) < m_maxNumBins
      then st\<lparr>m_binBuffer := (m_binBuffer st)[ctxId := m_binBuffer st ! ctxId @ [bin = 1]]\<rparr>
      else st)"

record BinEncoder =
  e_Bitstream :: OutputBitstream
  e_Low :: nat
  e_Range :: nat
  e_bufferedByte :: nat
  e_numBufferedBytes :: nat
  e_bitsLeft :: int
  e_Ctx :: CtxStore
  e_NumBinsCtx :: "nat list"
  e_NumBinsEP :: nat
  e_NumBinsTrm :: nat
  e_BinStore :: BinStore

type_synonym bin_writer = "BinEncoder \<Rightarrow> BinEncoder result"

definition counter_reset :: "BinEncoder \<Rightarrow> BinEncoder" where
  "counter_reset e = e\<lparr>e_NumBinsCtx := map (\<lambda>_. 0) (e_NumBinsCtx e), e_NumBinsEP := 0, e_NumBinsTrm := 0\<rparr>"

definition getAll :: "BinEncoder \<Rightarrow> nat" where
  "getAll e = to_u32 (e_NumBinsEP e + e_NumBinsTrm e + sum_list (e_NumBinsCtx e))"

definition enc_restart :: "BinEncoder \<Rightarrow> BinEncoder" where
  "enc_restart e = e\<lparr>e_Low := 0, e_Range := 510, e_bufferedByte := 0xff, e_numBufferedBytes := 0,
     e_bitsLeft := 23\<rparr>"

definition enc_start :: "BinEncoder \<Rightarrow> BinEncoder" where
  "enc_start e =
     (let e = counter_reset (enc_restart e) in e\<lparr>e_BinStore := store_reset (e_BinStore e)\<rparr>)"

definition enc_reset :: "nat list list \<Rightarrow> int \<Rightarrow> nat \<Rightarrow> BinEncoder \<Rightarrow> BinEncoder result" where
  "enc_reset sm_InitTables qp initId e =
     bindE (ctx_init sm_InitTables qp initId (e_Ctx e)) (\<lambda>ctx. Inr (enc_start (e\<lparr>e_Ctx := ctx\<rparr>)))"

definition resetBits :: "BinEncoder \<Rightarrow> BinEncoder" where
  "resetBits e = counter_reset (e\<lparr>e_Low := 0, e_bufferedByte := 0xff, e_numBufferedBytes := 0,
     e_bitsLeft := 23\<rparr>)"

definition enc_align :: "BinEncoder \<Rightarrow> BinEncoder" where
  "enc_align e = e\<lparr>e_Range := 256\<rparr>"

section \<open>Bytes leave the register\<close>

definition stream_write :: "nat \<Rightarrow> nat \<Rightarrow> BinEncoder \<Rightarrow> BinEncoder result" where
  "stream_write v n e = bindE (out_write (of_nat v) n (e_Bitstream e)) (\<lambda>s. Inr (e\<lparr>e_Bitstream := s\<rparr>))"

fun write_copies :: "nat \<Rightarrow> nat \<Rightarrow> BinEncoder \<Rightarrow> BinEncoder result" where
  "write_copies 0 byte e = Inr e"
| "write_copies (Suc n) byte e =
     bindE (stream_write byte 8 e) (\<lambda>e.
     write_copies n byte (e\<lparr>e_numBufferedBytes := e_numBufferedBytes e - 1\<rparr>))"

text \<open>\<open>while( m_numBufferedBytes > 1 )\<close> writes one byte less than are buffered.\<close>

definition write_outstanding :: "nat \<Rightarrow> BinEncoder \<Rightarrow> BinEncoder result" where
  "write_outstanding byte e = write_copies (e_numBufferedBytes e - 1) byte e"

definition writeOut :: bin_writer where
  "writeOut e =
     (let leadByte = drop_bit (nat (24 - e_bitsLeft e)) (e_Low e);
          e = e\<lparr>e_bitsLeft := e_bitsLeft e + 8\<rparr>;
          e = e\<lparr>e_Low := e_Low e AND drop_bit (nat (e_bitsLeft e)) 0xffffffff\<rparr>
      in if leadByte = 0xff
         then Inr (e\<lparr>e_numBufferedBytes := e_numBufferedBytes e + 1\<rparr>)
         else if e_numBufferedBytes e > 0
         then let carry = drop_bit 8 leadByte;
                  byte = add32 (e_bufferedByte e) carry;
                  e = e\<lparr>e_bufferedByte := leadByte AND 0xff\<rparr>
              in bindE (stream_write byte 8 e) (\<lambda>e.
                 let byte = add32 0xff carry AND 0xff in write_outstanding byte e)
         else Inr (e\<lparr>e_numBufferedBytes := 1, e_bufferedByte := leadByte\<rparr>))"

definition write_if_full :: bin_writer where
  "write_if_full e = (if e_bitsLeft e < 12 then writeOut e else Inr e)"

definition enc_finish :: bin_writer where
  "enc_finish e =
     bindE (if drop_bit (nat (32 - e_bitsLeft e)) (e_Low e) \<noteq> 0
            then bindE (stream_write (add32 (e_bufferedByte e) 1) 8 e) (\<lambda>e.
                 bindE (write_outstanding 0 e) (\<lambda>e.
                 Inr (e\<lparr>e_Low := sub32 (e_Low e) (shl32 1 (nat (32 - e_bitsLeft e)))\<rparr>)))
            else bindE (if e_numBufferedBytes e > 0
                        then stream_write (e_bufferedByte e) 8 e else Inr e) (\<lambda>e.
                 write_outstanding 0xff e)) (\<lambda>e.
     stream_write (drop_bit 8 (e_Low e)) (nat (24 - e_bitsLeft e)) e)"

section \<open>Coding bins\<close>

definition encodeBinEP :: "nat \<Rightarrow> bin_writer" where
  "encodeBinEP bin e =
     (let e = e\<lparr>e_NumBinsEP := to_u32 (e_NumBinsEP e + 1), e_Low := shl32 (e_Low e) 1\<rparr>;
          e = (if bin \<noteq> 0 then e\<lparr>e_Low := add32 (e_Low e) (e_Range e)\<rparr> else e)
      in write_if_full (e\<lparr>e_bitsLeft := e_bitsLeft e - 1\<rparr>))"

function encodeAligned_loop :: "nat \<Rightarrow> nat \<Rightarrow> bin_writer" where
  "encodeAligned_loop bins remBins e =
     (if remBins > 0
      then let binsToCode = min remBins 8;
               binMask = 2 ^ binsToCode - 1;
               newBins = drop_bit (remBins - binsToCode) bins AND binMask;
               e = e\<lparr>e_Low := add32 (shl32 (e_Low e) binsToCode) (shl32 newBins 8),
                     e_bitsLeft := e_bitsLeft e - int binsToCode\<rparr>
           in bindE (write_if_full e) (\<lambda>e. encodeAligned_loop bins (remBins - binsToCode) e)
      else Inr e)"
  by pat_completeness auto
termination
  by (relation "measure (\<lambda>(b, r, e). r)") auto

definition encodeAlignedBinsEP :: "nat \<Rightarrow> nat \<Rightarrow> bin_writer" where
  "encodeAlignedBinsEP bins numBins = encodeAligned_loop bins numBins"

function encodeBins_loop :: "nat \<Rightarrow> nat \<Rightarrow> bin_writer" where
  "encodeBins_loop bins numBins e =
     (if numBins > 8
      then let numBins = numBins - 8;
               pattern = drop_bit numBins bins;
               e = e\<lparr>e_Low := add32 (shl32 (e_Low e) 8) (mul32 (e_Range e) pattern),
                     e_bitsLeft := e_bitsLeft e - 8\<rparr>
           in bindE (write_if_full e) (\<lambda>e.
              encodeBins_loop (sub32 bins (shl32 pattern numBins)) numBins e)
      else write_if_full
             (e\<lparr>e_Low := add32 (shl32 (e_Low e) numBins) (mul32 (e_Range e) bins),
                e_bitsLeft := e_bitsLeft e - int numBins\<rparr>))"
  by pat_completeness auto
termination
  by (relation "measure (\<lambda>(b, r, e). r)") auto

declare encodeAligned_loop.simps [simp del] encodeBins_loop.simps [simp del]

definition encodeBinsEP :: "nat \<Rightarrow> nat \<Rightarrow> bin_writer" where
  "encodeBinsEP bins numBins e =
     (let e = e\<lparr>e_NumBinsEP := to_u32 (e_NumBinsEP e + numBins)\<rparr>
      in if e_Range e = 256 then encodeAlignedBinsEP bins numBins e
         else encodeBins_loop bins numBins e)"

definition encodeBinTrm :: "nat \<Rightarrow> bin_writer" where
  "encodeBinTrm bin e =
     (let e = e\<lparr>e_NumBinsTrm := to_u32 (e_NumBinsTrm e + 1), e_Range := sub32 (e_Range e) 2\<rparr>
      in if bin \<noteq> 0
         then let e = e\<lparr>e_Low := add32 (e_Low e) (e_Range e)\<rparr>
              in write_if_full (e\<lparr>e_Low := shl32 (e_Low e) 7, e_Range := 256,
                   e_bitsLeft := e_bitsLeft e - 7\<rparr>)
         else if e_Range e \<ge> 256 then Inr e
         else write_if_full (e\<lparr>e_Low := shl32 (e_Low e) 1, e_Range := shl32 (e_Range e) 1,
                e_bitsLeft := e_bitsLeft e - 1\<rparr>))"

text \<open>
  The remainder of a level: a unary prefix with a cutoff and Golomb-Rice bits, or beyond the cutoff an
  exponential prefix, or beyond the longest prefix \<open>maxLog2TrDynamicRange\<close> plain bits.
\<close>

function rem_prefix :: "nat \<Rightarrow> nat \<Rightarrow> nat" where
  "rem_prefix codeValue prefixLength =
     (if codeValue > 2 * 2 ^ prefixLength - 2 then rem_prefix codeValue (prefixLength + 1) else prefixLength)"
  by pat_completeness auto
termination
  by (relation "measure (\<lambda>(v, p). v - p)") (auto intro!: diff_less_mono2 intro: less_le_trans [OF less_exp])

declare rem_prefix.simps [simp del]

definition rem_lengths :: "nat \<Rightarrow> nat \<Rightarrow> nat \<Rightarrow> nat \<Rightarrow> nat \<times> nat" where
  "rem_lengths codeValue goRicePar cutoff maxLog2TrDynamicRange =
     (let maxPrefixLength = 32 - cutoff - maxLog2TrDynamicRange
      in if codeValue \<ge> sub32 (shl32 1 maxPrefixLength) 1 then (maxPrefixLength, maxLog2TrDynamicRange)
         else let prefixLength = rem_prefix codeValue 0 in (prefixLength, prefixLength + goRicePar + 1))"

text \<open>
  Shifts by 32 or more, undefined in the code, give 0 here; the properties ask for parameters that exclude them
  (\<open>rem_valid\<close> in \<open>RemAbs\<close>).
\<close>

definition encodeRemAbsEP :: "nat \<Rightarrow> nat \<Rightarrow> nat \<Rightarrow> nat \<Rightarrow> bin_writer" where
  "encodeRemAbsEP bins goRicePar cutoff maxLog2TrDynamicRange =
     (let threshold = shl32 cutoff goRicePar;
          bitMask = sub32 (shl32 1 goRicePar) 1
      in if bins < threshold
         then let len = drop_bit goRicePar bins + 1
              in thenW (encodeBinsEP (sub32 (shl32 1 len) 2) len) (encodeBinsEP (bins AND bitMask) goRicePar)
         else let codeValue = sub32 (drop_bit goRicePar bins) cutoff;
                  (prefixLength, suffixLength) = rem_lengths codeValue goRicePar cutoff maxLog2TrDynamicRange;
                  totalPrefixLength = prefixLength + cutoff;
                  prefix = sub32 (shl32 1 totalPrefixLength) 1;
                  suffix = shl32 (sub32 codeValue (sub32 (shl32 1 prefixLength) 1)) goRicePar OR (bins AND bitMask)
              in thenW (encodeBinsEP prefix totalPrefixLength) (encodeBinsEP suffix suffixLength))"

text \<open>A context index outside the store is an access out of bounds.\<close>

definition encodeBin :: "nat \<Rightarrow> nat \<Rightarrow> bin_writer" where
  "encodeBin bin ctxId e =
     (if ctxId \<ge> length (e_Ctx e) \<or> ctxId \<ge> length (e_NumBinsCtx e) then Inl UndefinedBehaviour else
      let e = e\<lparr>e_NumBinsCtx := (e_NumBinsCtx e)[ctxId := to_u32 (e_NumBinsCtx e ! ctxId + 1)]\<rparr>;
          rcProbModel = e_Ctx e ! ctxId;
          LPS = getLPS (e_Range e) rcProbModel;
          e = e\<lparr>e_Range := sub32 (e_Range e) LPS\<rparr>
      in bindE
          (if bin \<noteq> mps rcProbModel
           then let numBits = getRenormBitsLPS LPS;
                    e = e\<lparr>e_bitsLeft := e_bitsLeft e - int numBits,
                          e_Low := add32 (e_Low e) (e_Range e)\<rparr>
                in write_if_full (e\<lparr>e_Low := shl32 (e_Low e) numBits, e_Range := shl32 LPS numBits\<rparr>)
           else if e_Range e < 256
           then let numBits = getRenormBitsRange (e_Range e)
                in write_if_full (e\<lparr>e_bitsLeft := e_bitsLeft e - int numBits,
                     e_Low := shl32 (e_Low e) numBits, e_Range := shl32 (e_Range e) numBits\<rparr>)
           else Inr e)
         (\<lambda>e. Inr (e\<lparr>e_Ctx := ctx_update ctxId (bin \<noteq> 0) (e_Ctx e),
                    e_BinStore := addBin bin ctxId (e_BinStore e)\<rparr>)))"

definition getNumWrittenBits :: "BinEncoder \<Rightarrow> int" where
  "getNumWrittenBits e =
     int (getNumberOfWrittenBits (e_Bitstream e)) + 8 * int (e_numBufferedBytes e) + 23 - e_bitsLeft e"

end
