(* ===== verification/BinDecoder.thy ===== *)
theory BinDecoder
  imports BinEncoder
begin

unbundle bit_operations_syntax

text \<open>
  The binary arithmetic decoder: \<open>BinDecoderBase\<close> and \<open>TBinDecoder\<close> of
  \<open>source/Lib/DecoderLib/BinDecoder.h\<close> and \<open>BinDecoder.cpp\<close>.
\<close>

record BinDecoder =
  d_Bitstream :: InputBitstream
  d_Range :: nat
  d_Value :: nat
  d_bitsNeeded :: int
  d_Ctx :: CtxStore

type_synonym 'a bin_parser = "BinDecoder \<Rightarrow> ('a \<times> BinDecoder) result"

definition stream_readByte :: "nat bin_parser" where
  "stream_readByte d =
     bindE (in_readByte (d_Bitstream d)) (\<lambda>(b, s). Inr (unat b, d\<lparr>d_Bitstream := s\<rparr>))"

definition dec_start :: "BinDecoder \<Rightarrow> BinDecoder result" where
  "dec_start d =
     checkE (in_getNumBitsUntilByteAligned (d_Bitstream d) \<noteq> 0) ''Bitstream is not byte aligned.'' (
     let d = d\<lparr>d_Range := 510\<rparr> in
     bindE (stream_readByte d) (\<lambda>(b0, d).
     bindE (stream_readByte d) (\<lambda>(b1, d).
     Inr (d\<lparr>d_Value := add32 (shl32 b0 8) b1, d_bitsNeeded := - 8\<rparr>))))"

definition dec_reset :: "nat list list \<Rightarrow> int \<Rightarrow> nat \<Rightarrow> BinDecoder \<Rightarrow> BinDecoder result" where
  "dec_reset sm_InitTables qp initId d =
     bindE (ctx_init sm_InitTables qp initId (d_Ctx d)) (\<lambda>ctx. dec_start (d\<lparr>d_Ctx := ctx\<rparr>))"

definition dec_finish :: "BinDecoder \<Rightarrow> unit result" where
  "dec_finish d =
     bindE (peekPreviousByte (d_Bitstream d)) (\<lambda>lastByte.
     checkE (shl32 (unat lastByte) (nat (8 + d_bitsNeeded d)) AND 0xff \<noteq> 0x80)
       ''No proper stop/alignment pattern at end of CABAC stream.'' (Inr ()))"

definition dec_align :: "BinDecoder \<Rightarrow> BinDecoder" where
  "dec_align d = d\<lparr>d_Range := 256\<rparr>"

text \<open>\<open>m_bitsNeeded\<close> has reached 0: the next byte is shifted in, or nothing happens.\<close>

definition refill :: "BinDecoder \<Rightarrow> BinDecoder result" where
  "refill d =
     (if d_bitsNeeded d \<ge> 0
      then bindE (stream_readByte d) (\<lambda>(b, d).
           Inr (d\<lparr>d_Value := add32 (d_Value d) (shl32 b (nat (d_bitsNeeded d))),
                  d_bitsNeeded := d_bitsNeeded d - 8\<rparr>))
      else Inr d)"

definition decodeBinEP :: "nat bin_parser" where
  "decodeBinEP d =
     (let d = d\<lparr>d_Value := add32 (d_Value d) (d_Value d), d_bitsNeeded := d_bitsNeeded d + 1\<rparr> in
      bindE (if d_bitsNeeded d \<ge> 0
             then bindE (stream_readByte d) (\<lambda>(b, d).
                  Inr (d\<lparr>d_Value := add32 (d_Value d) b, d_bitsNeeded := - 8\<rparr>))
             else Inr d) (\<lambda>d.
      let SR = shl32 (d_Range d) 7 in
      if d_Value d \<ge> SR then Inr (1, d\<lparr>d_Value := sub32 (d_Value d) SR\<rparr>)
      else Inr (0, d)))"

text \<open>The loop that compares the value with halves of the shifted range, one bin a turn.\<close>

fun bins_loop :: "nat \<Rightarrow> nat \<Rightarrow> nat \<Rightarrow> nat \<Rightarrow> nat \<times> nat" where
  "bins_loop 0 SR bins Value = (bins, Value)"
| "bins_loop (Suc n) SR bins Value =
     (let bins = add32 bins bins; SR = drop_bit 1 SR in
      if Value \<ge> SR then bins_loop n SR (add32 bins 1) (sub32 Value SR)
      else bins_loop n SR bins Value)"

function decodeBins_loop :: "nat \<Rightarrow> nat \<Rightarrow> nat bin_parser" where
  "decodeBins_loop remBins bins d =
     (if remBins > 8
      then bindE (stream_readByte d) (\<lambda>(b, d).
           let Value = add32 (shl32 (d_Value d) 8) (shl32 b (nat (8 + d_bitsNeeded d)));
               (bins, Value) = bins_loop 8 (shl32 (d_Range d) 15) bins Value
           in decodeBins_loop (remBins - 8) bins (d\<lparr>d_Value := Value\<rparr>))
      else bindE (refill (d\<lparr>d_bitsNeeded := d_bitsNeeded d + int remBins,
                            d_Value := shl32 (d_Value d) remBins\<rparr>)) (\<lambda>d.
           let (bins, Value) = bins_loop remBins (shl32 (d_Range d) (remBins + 7)) bins (d_Value d)
           in Inr (bins, d\<lparr>d_Value := Value\<rparr>)))"
  by pat_completeness auto
termination
  by (relation "measure (\<lambda>(r, b, d). r)") auto

function decodeAligned_loop :: "nat \<Rightarrow> nat \<Rightarrow> nat bin_parser" where
  "decodeAligned_loop remBins bins d =
     (if remBins > 0
      then let binsToRead = min remBins 8;
               binMask = 2 ^ binsToRead - 1;
               newBins = drop_bit (15 - binsToRead) (d_Value d) AND binMask;
               bins = shl32 bins binsToRead OR newBins;
               d = d\<lparr>d_Value := shl32 (d_Value d) binsToRead AND 0x7FFF,
                     d_bitsNeeded := d_bitsNeeded d + int binsToRead\<rparr>
           in bindE (if d_bitsNeeded d \<ge> 0
                     then bindE (stream_readByte d) (\<lambda>(b, d).
                          Inr (d\<lparr>d_Value := d_Value d OR shl32 b (nat (d_bitsNeeded d)),
                                 d_bitsNeeded := d_bitsNeeded d - 8\<rparr>))
                     else Inr d) (\<lambda>d. decodeAligned_loop (remBins - binsToRead) bins d)
      else Inr (bins, d))"
  by pat_completeness auto
termination
  by (relation "measure (\<lambda>(r, b, d). r)") auto

declare decodeBins_loop.simps [simp del] decodeAligned_loop.simps [simp del]

definition decodeAlignedBinsEP :: "nat \<Rightarrow> nat bin_parser" where
  "decodeAlignedBinsEP numBins = decodeAligned_loop numBins 0"

definition decodeBinsEP :: "nat \<Rightarrow> nat bin_parser" where
  "decodeBinsEP numBins d =
     (if d_Range d = 256 then decodeAlignedBinsEP numBins d else decodeBins_loop numBins 0 d)"

text \<open>\<open>do ... while( codeWord && prefix < maxPrefix )\<close>, and the correction after it.\<close>

function prefix_loop :: "nat \<Rightarrow> nat \<Rightarrow> nat bin_parser" where
  "prefix_loop maxPrefix prefix d =
     bindE (decodeBinEP d) (\<lambda>(codeWord, d).
       let prefix = prefix + 1
       in if codeWord \<noteq> 0 \<and> prefix < maxPrefix then prefix_loop maxPrefix prefix d
          else Inr (sub32 prefix (sub32 1 codeWord), d))"
  by pat_completeness auto
termination
  by (relation "measure (\<lambda>(m, p, d). m - p)") auto

declare prefix_loop.simps [simp del]

definition decodeRemAbsEP :: "nat \<Rightarrow> nat \<Rightarrow> nat \<Rightarrow> nat bin_parser" where
  "decodeRemAbsEP goRicePar cutoff maxLog2TrDynamicRange =
     bindP (prefix_loop (32 - maxLog2TrDynamicRange) 0) (\<lambda>prefix.
     let (offset, len) =
       (if prefix < cutoff then (shl32 prefix goRicePar, goRicePar)
        else (shl32 (sub32 (add32 (shl32 1 (prefix - cutoff)) cutoff) 1) goRicePar,
              add32 goRicePar (if prefix = 32 - maxLog2TrDynamicRange
                               then sub32 maxLog2TrDynamicRange goRicePar else prefix - cutoff)))
     in bindP (decodeBinsEP len) (\<lambda>bins. returnP (add32 offset bins)))"

definition decodeBinTrm :: "nat bin_parser" where
  "decodeBinTrm d =
     (let d = d\<lparr>d_Range := sub32 (d_Range d) 2\<rparr>;
          SR = shl32 (d_Range d) 7 in
      if d_Value d \<ge> SR then Inr (1, d)
      else if d_Range d < 256
      then let d = d\<lparr>d_Range := add32 (d_Range d) (d_Range d), d_Value := add32 (d_Value d) (d_Value d),
                     d_bitsNeeded := d_bitsNeeded d + 1\<rparr> in
           bindE (if d_bitsNeeded d = 0
                  then bindE (stream_readByte d) (\<lambda>(b, d).
                       Inr (d\<lparr>d_Value := add32 (d_Value d) b, d_bitsNeeded := - 8\<rparr>))
                  else Inr d) (\<lambda>d. Inr (0, d))
      else Inr (0, d))"

definition decodeBin :: "nat \<Rightarrow> nat bin_parser" where
  "decodeBin ctxId d =
     (if ctxId \<ge> length (d_Ctx d) then Inl UndefinedBehaviour else
      let rcProbModel = d_Ctx d ! ctxId;
          bin = mps rcProbModel;
          LPS = getLPS (d_Range d) rcProbModel;
          d = d\<lparr>d_Range := sub32 (d_Range d) LPS\<rparr>;
          SR = shl32 (d_Range d) 7
      in bindE
          (if d_Value d < SR
           then bindE (if d_Range d < 256
                       then let numBits = getRenormBitsRange (d_Range d)
                            in refill (d\<lparr>d_Range := shl32 (d_Range d) numBits,
                                 d_Value := shl32 (d_Value d) numBits,
                                 d_bitsNeeded := d_bitsNeeded d + int numBits\<rparr>)
                       else Inr d) (\<lambda>d. Inr (bin, d))
           else let bin = sub32 1 bin;
                    numBits = getRenormBitsLPS LPS;
                    d = d\<lparr>d_Value := sub32 (d_Value d) SR\<rparr>
                in bindE (refill (d\<lparr>d_Value := shl32 (d_Value d) numBits, d_Range := shl32 LPS numBits,
                            d_bitsNeeded := d_bitsNeeded d + int numBits\<rparr>)) (\<lambda>d. Inr (bin, d)))
         (\<lambda>(bin, d). Inr (bin, d\<lparr>d_Ctx := ctx_update ctxId (bin \<noteq> 0) (d_Ctx d)\<rparr>)))"

end
