(* ===== verification/ArithCoding.thy ===== *)
theory ArithCoding
  imports BinDecoder
begin

unbundle bit_operations_syntax

text \<open>
  The arithmetic encoder and decoder agree. The encoder's registers, the byte it holds back, the bytes
  \<open>0xff\<close> it counts and the bits it has written denote one number \<open>L\<close> of \<open>n + 9\<close> bits, the low end of
  the interval of length \<open>e_Range\<close>; every bin narrows the interval. A byte string lies in an interval
  when, read as a binary fraction, it does. For every string in the final interval the decoder is, at
  every step, at the same \<open>L\<close>, \<open>n\<close> and range, so it takes the same decisions.
\<close>

section \<open>The encoder's interval\<close>

text \<open>The bytes that have left the register but not been written.\<close>

definition held_value :: "nat \<Rightarrow> nat \<Rightarrow> nat" where
  "held_value buf num = (if num = 0 then 0 else (buf + 1) * 256 ^ (num - 1) - 1)"

definition enc_at :: "bool list \<Rightarrow> int \<Rightarrow> BinEncoder \<Rightarrow> nat \<Rightarrow> nat \<Rightarrow> bool" where
  "enc_at pre lo e L n \<longleftrightarrow> (\<exists>b EB.
     e_bitsLeft e = int b \<and> lo \<le> int b \<and> b \<le> 23 \<and> 64 \<le> e_Range e \<and> e_Range e \<le> 510
     \<and> out_inv (e_Bitstream e) \<and> out_bits (e_Bitstream e) = pre @ EB
     \<and> (e_numBufferedBytes e = 0 \<longrightarrow> EB = [] \<and> e_bufferedByte e = 255) \<and> e_bufferedByte e \<le> 255
     \<and> e_Low e + e_Range e \<le> 2 ^ (33 - b)
     \<and> (e_bufferedByte e = 255 \<longrightarrow> e_Low e + e_Range e \<le> 2 ^ (32 - b))
     \<and> n + b = 23 + length EB + 8 * e_numBufferedBytes e
     \<and> L = (bits_nat EB * 256 ^ e_numBufferedBytes e
             + held_value (e_bufferedByte e) (e_numBufferedBytes e)) * 2 ^ (32 - b) + e_Low e)"

text \<open>What no flush changes.\<close>

definition same_coder :: "BinEncoder \<Rightarrow> BinEncoder \<Rightarrow> bool" where
  "same_coder e e' \<longleftrightarrow> e_Range e' = e_Range e \<and> e_Ctx e' = e_Ctx e \<and> e_NumBinsCtx e' = e_NumBinsCtx e
     \<and> e_BinStore e' = e_BinStore e \<and> e_NumBinsEP e' = e_NumBinsEP e \<and> e_NumBinsTrm e' = e_NumBinsTrm e"

lemma enc_start_at:
  assumes "out_inv (e_Bitstream e)"
  shows "enc_at (out_bits (e_Bitstream e)) 12 (enc_start e) 0 0"
  unfolding enc_at_def using assms
  by (intro exI [of _ 23] exI [of _ "[]"])
    (simp add: enc_start_def enc_restart_def counter_reset_def Let_def held_value_def)

lemma stream_write_byte:
  assumes "out_inv (e_Bitstream e)" and "v < 2 ^ n" and "n \<le> 32"
  obtains s where "stream_write v n e = Inr (e\<lparr>e_Bitstream := s\<rparr>)" "out_inv s"
    "out_bits s = out_bits (e_Bitstream e) @ bits_of n (of_nat v :: u32)"
    "bits_nat (bits_of n (of_nat v :: u32)) = v"
proof -
  have "(2 :: nat) ^ n \<le> 2 ^ 32" using assms(3) by (intro power_increasing) auto
  then have "v < 2 ^ 32" using assms(2) by linarith
  then have u: "unat (of_nat v :: u32) = v" by (simp add: unat_of_nat take_bit_nat_eq_self)
  obtain s where "out_write (of_nat v) n (e_Bitstream e) = Inr s" "out_inv s"
    "out_bits s = out_bits (e_Bitstream e) @ bits_of n (of_nat v :: u32)"
    using out_write_ok [OF assms(1,3), of "of_nat v"] assms(2) u by auto
  then show ?thesis using that assms(2) u by (simp add: stream_write_def bits_nat_bits_of)
qed

lemma write_copies_ok:
  "out_inv (e_Bitstream e) \<Longrightarrow> byte \<le> 255 \<Longrightarrow>
     \<exists>s. write_copies m byte e = Inr (e\<lparr>e_Bitstream := s, e_numBufferedBytes := e_numBufferedBytes e - m\<rparr>)
       \<and> out_inv s
       \<and> out_bits s = out_bits (e_Bitstream e) @ concat (replicate m (bits_of 8 (of_nat byte :: u32)))"
proof (induction m arbitrary: e)
  case (Suc m)
  obtain s where s: "stream_write byte 8 e = Inr (e\<lparr>e_Bitstream := s\<rparr>)" "out_inv s"
    "out_bits s = out_bits (e_Bitstream e) @ bits_of 8 (of_nat byte :: u32)"
    by (rule stream_write_byte [OF Suc.prems(1), of byte 8]) (use Suc.prems(2) in auto)
  let ?e = "e\<lparr>e_Bitstream := s, e_numBufferedBytes := e_numBufferedBytes e - 1\<rparr>"
  obtain t where "write_copies m byte ?e
        = Inr (?e\<lparr>e_Bitstream := t, e_numBufferedBytes := e_numBufferedBytes ?e - m\<rparr>)"
    "out_inv t" "out_bits t = out_bits s @ concat (replicate m (bits_of 8 (of_nat byte :: u32)))"
    using Suc.IH [of ?e] s(2) Suc.prems(2) by auto
  then show ?case using s by (intro exI [of _ t]) simp
next
  case 0
  then show ?case by (intro exI [of _ "e_Bitstream e"]) simp
qed

lemma pow_8: "(2 :: nat) ^ (8 * m) = 256 ^ m"
  by (simp add: power_mult)

lemma copies_value:
  assumes "v \<le> 255"
  shows "bits_nat (concat (replicate m (bits_of 8 (of_nat v :: u32)))) * 255 = v * (256 ^ m - 1)"
    and "length (concat (replicate m (bits_of 8 (of_nat v :: u32)))) = 8 * m"
proof -
  have u: "unat (of_nat v :: u32) = v" using assms by (simp add: unat_of_nat take_bit_nat_eq_self)
  have len: "length (concat (replicate m (bits_of 8 (of_nat v :: u32)))) = 8 * m" for m
    by (induction m) simp_all
  show "length (concat (replicate m (bits_of 8 (of_nat v :: u32)))) = 8 * m" by (rule len)
  show "bits_nat (concat (replicate m (bits_of 8 (of_nat v :: u32)))) * 255 = v * (256 ^ m - 1)"
  proof (induction m)
    case (Suc m)
    have "bits_nat (bits_of 8 (of_nat v :: u32)) = v"
      using assms u by (simp add: bits_nat_bits_of)
    then have "bits_nat (concat (replicate (Suc m) (bits_of 8 (of_nat v :: u32)))) * 255
        = v * 256 ^ m * 255 + v * (256 ^ m - 1)"
      using Suc by (simp add: bits_nat_append len pow_8 add_mult_distrib)
    also have "\<dots> = v * (256 ^ m * 255 + (256 ^ m - 1))" by (simp add: algebra_simps)
    also have "(256 :: nat) ^ m * 255 + (256 ^ m - 1) = 256 ^ Suc m - 1"
      using one_le_power [of "256 :: nat" m] by simp
    finally show ?case .
  qed simp
qed

lemma copies_ff: "bits_nat (concat (replicate m (bits_of 8 (of_nat 255 :: u32)))) = 256 ^ m - 1"
  using copies_value(1) [of 255 m] by simp

lemma copies_00: "bits_nat (concat (replicate m (bits_of 8 (of_nat 0 :: u32)))) = 0"
  using copies_value(1) [of 0 m] by simp

text \<open>
  Writing the held byte plus the carry and what the carry makes of the counted bytes: the bits written
  denote the held value plus the carry.
\<close>

lemma write_held_ok:
  assumes inv: "out_inv (e_Bitstream e)" and num: "0 < e_numBufferedBytes e"
    and c: "c \<le> 1" and bc: "buf + c \<le> 255"
  shows "\<exists>s HB. bindE (stream_write (add32 buf c) 8 e) (\<lambda>e.
        write_outstanding (add32 0xff c AND 0xff) e)
      = Inr (e\<lparr>e_Bitstream := s, e_numBufferedBytes := 1\<rparr>) \<and> out_inv s
    \<and> out_bits s = out_bits (e_Bitstream e) @ HB \<and> length HB = 8 * e_numBufferedBytes e
    \<and> bits_nat HB = held_value buf (e_numBufferedBytes e) + c"
proof -
  obtain m where m: "e_numBufferedBytes e = Suc m" using num by (cases "e_numBufferedBytes e") auto
  have b: "add32 buf c = buf + c" using bc by (simp add: add32_def to_u32_def)
  obtain s where s: "stream_write (buf + c) 8 e = Inr (e\<lparr>e_Bitstream := s\<rparr>)" "out_inv s"
    "out_bits s = out_bits (e_Bitstream e) @ bits_of 8 (of_nat (buf + c) :: u32)"
    "bits_nat (bits_of 8 (of_nat (buf + c) :: u32)) = buf + c"
    by (rule stream_write_byte [OF inv, of "buf + c" 8]) (use bc in auto)
  define v where "v = add32 0xff c AND 0xff"
  have v: "v = (if c = 0 then 255 else 0)"
    using c by (cases c) (simp_all add: v_def add32_def to_u32_def)
  obtain t where t: "write_copies m v (e\<lparr>e_Bitstream := s\<rparr>)
        = Inr (e\<lparr>e_Bitstream := t, e_numBufferedBytes := Suc m - m\<rparr>)" "out_inv t"
    "out_bits t = out_bits s @ concat (replicate m (bits_of 8 (of_nat v :: u32)))"
  proof -
    have "v \<le> 255" by (simp add: v)
    then show ?thesis using write_copies_ok [of "e\<lparr>e_Bitstream := s\<rparr>" v m] s(2) m that by auto
  qed
  let ?HB = "bits_of 8 (of_nat (buf + c) :: u32) @ concat (replicate m (bits_of 8 (of_nat v :: u32)))"
  have "bits_nat ?HB = (buf + c) * 256 ^ m + (if c = 0 then 256 ^ m - 1 else 0)"
    using s(4) v copies_ff [of m] copies_00 [of m] copies_value(2) [of v m]
    by (simp add: bits_nat_append pow_8)
  also have "\<dots> = held_value buf (Suc m) + c"
    using c one_le_power [of "256 :: nat" m] by (cases c) (simp_all add: held_value_def algebra_simps)
  finally have "bits_nat ?HB = held_value buf (e_numBufferedBytes e) + c" using m by simp
  moreover have "length ?HB = 8 * e_numBufferedBytes e"
    using copies_value(2) [of v m] v m by simp
  moreover have "bindE (stream_write (add32 buf c) 8 e) (\<lambda>e. write_outstanding v e)
      = Inr (e\<lparr>e_Bitstream := t, e_numBufferedBytes := 1\<rparr>)"
    using s(1) t(1) m by (simp add: b write_outstanding_def)
  ultimately show ?thesis using s(3) t(2,3) unfolding v_def [symmetric] by auto
qed

lemma low_mask:
  assumes "b \<le> 11"
  shows "x AND drop_bit (b + 8) 0xffffffff = x mod (2 :: nat) ^ (24 - b)"
proof -
  have "drop_bit (b + 8) (0xffffffff :: nat) = mask (32 - (b + 8))"
    using drop_bit_mask_eq [of "b + 8" 32, where 'a = nat] by (simp add: mask_eq_exp_minus_1)
  then show ?thesis by (simp flip: take_bit_eq_mask add: take_bit_eq_mod)
qed

lemma held_value_Suc: "(num = 0 \<longrightarrow> buf = 255) \<Longrightarrow> held_value buf (Suc num) = held_value buf num * 256 + 255"
proof (cases num)
  case (Suc k)
  define x :: nat where "x = (buf + 1) * 256 ^ k"
  have "0 < x" by (simp add: x_def)
  then have "x * 256 - 1 = (x - 1) * 256 + 255" by simp
  moreover have "(buf + 1) * 256 ^ num = x * 256" by (simp add: x_def Suc)
  ultimately show ?thesis using Suc by (simp only: held_value_def x_def nat.distinct if_False diff_Suc_1)
qed (simp add: held_value_def)

lemma writeOut_ok:
  assumes at: "enc_at pre 4 e L n" and full: "e_bitsLeft e < 12"
  shows "\<exists>e'. writeOut e = Inr e' \<and> enc_at pre 12 e' L n \<and> same_coder e e'"
proof -
  obtain b EB where b: "e_bitsLeft e = int b" "4 \<le> b" "b \<le> 11"
    and R: "64 \<le> e_Range e" "e_Range e \<le> 510"
    and inv: "out_inv (e_Bitstream e)" and bits: "out_bits (e_Bitstream e) = pre @ EB"
    and num0: "e_numBufferedBytes e = 0 \<longrightarrow> EB = [] \<and> e_bufferedByte e = 255"
    and buf: "e_bufferedByte e \<le> 255"
    and low: "e_Low e + e_Range e \<le> 2 ^ (33 - b)"
    and J: "e_bufferedByte e = 255 \<longrightarrow> e_Low e + e_Range e \<le> 2 ^ (32 - b)"
    and n: "n + b = 23 + length EB + 8 * e_numBufferedBytes e"
    and L: "L = (bits_nat EB * 256 ^ e_numBufferedBytes e
             + held_value (e_bufferedByte e) (e_numBufferedBytes e)) * 2 ^ (32 - b) + e_Low e"
    using at full unfolding enc_at_def by auto
  define D :: nat where "D = 2 ^ (24 - b)"
  define lead where "lead = e_Low e div D"
  define rest where "rest = e_Low e mod D"
  have low_eq: "e_Low e = lead * D + rest" by (simp add: lead_def rest_def)
  have D32: "2 ^ (32 - b) = 256 * D" "2 ^ (33 - b) = 512 * D"
  proof -
    have "32 - b = 8 + (24 - b)" "33 - b = 9 + (24 - b)" using b by simp_all
    then show "2 ^ (32 - b) = 256 * D" "2 ^ (33 - b) = 512 * D"
      unfolding D_def by (simp_all only: power_add) simp_all
  qed
  have "(2 :: nat) ^ 13 \<le> D" unfolding D_def using b by (intro power_increasing) auto
  then have D: "8192 \<le> D" by simp
  have rest: "rest < D" using D by (simp add: rest_def)
  have lead: "lead < 512"
  proof -
    have "lead * D < 512 * D" using low low_eq R D32(2) by linarith
    then show ?thesis by simp
  qed
  have room: "rest + e_Range e \<le> 2 * D" using rest R D by linarith
  have tight: "rest + e_Range e \<le> D" if "(lead + 1) * D \<ge> e_Low e + e_Range e"
    using that low_eq by simp
  have b8: "nat (24 - e_bitsLeft e) = 24 - b" "nat (e_bitsLeft e + 8) = b + 8"
    using b by auto
  have masked: "e_Low e AND drop_bit (b + 8) 0xffffffff = rest"
    unfolding low_mask [OF b(3)] rest_def D_def ..
  have lead_eq: "drop_bit (24 - b) (e_Low e) = lead" by (simp add: lead_def D_def drop_bit_eq_div)
  have D': "2 ^ (33 - (b + 8)) = 2 * D" "2 ^ (32 - (b + 8)) = D"
    using b by (simp_all add: D_def Suc_diff_le flip: power_Suc)
  let ?num = "e_numBufferedBytes e" and ?buf = "e_bufferedByte e"
  let ?e = "e\<lparr>e_bitsLeft := e_bitsLeft e + 8, e_Low := rest\<rparr>"
  consider (ff) "lead = 255" | (flush) "lead \<noteq> 255" "0 < ?num" | (first) "lead \<noteq> 255" "?num = 0" by blast
  then show ?thesis
  proof cases
    case ff
    let ?r = "?e\<lparr>e_numBufferedBytes := ?num + 1\<rparr>"
    have "writeOut e = Inr ?r"
      by (simp add: writeOut_def Let_def b8 masked lead_eq ff)
    moreover have "?buf = 255 \<longrightarrow> rest + e_Range e \<le> D"
      using J tight ff D32(1) by auto
    moreover have "(bits_nat EB * 256 ^ (?num + 1) + held_value ?buf (?num + 1)) * D + rest = L"
      using L low_eq ff D32(1) held_value_Suc [of ?num ?buf] num0 by (simp add: algebra_simps)
    ultimately show ?thesis
      using b R inv bits num0 buf n room D'
      by (intro exI [of _ ?r]) (auto simp: enc_at_def same_coder_def intro!: exI [of _ "b + 8"] exI [of _ EB])
  next
    case flush
    define c where "c = lead div 256"
    have c: "c \<le> 1" using lead by (simp add: c_def less_mult_imp_div_less less_Suc_eq_le [symmetric])
    have lead_c: "lead = 256 * c + lead mod 256" by (simp add: c_def)
    have bufc: "?buf + c \<le> 255"
    proof (cases "c = 0")
      case False
      then have "256 \<le> lead" using lead_c by simp
      then have "256 * D \<le> lead * D" by (rule mult_right_mono) simp
      then have "256 * D \<le> e_Low e" using low_eq by linarith
      then have "?buf \<noteq> 255" using J R D32(1) by auto
      then show ?thesis using buf c by linarith
    qed (use buf in simp)
    have carry: "drop_bit 8 lead = c" by (simp add: c_def drop_bit_eq_div)
    let ?f = "?e\<lparr>e_bufferedByte := lead mod 256\<rparr>"
    have mask: "lead AND 0xff = lead mod 256"
      using take_bit_eq_mask [of 8 lead] by (simp add: mask_eq_exp_minus_1 take_bit_eq_mod)
    obtain s HB where w: "bindE (stream_write (add32 ?buf c) 8 ?f) (\<lambda>e.
          write_outstanding (add32 0xff c AND 0xff) e)
        = Inr (?f\<lparr>e_Bitstream := s, e_numBufferedBytes := 1\<rparr>)" "out_inv s"
      "out_bits s = out_bits (e_Bitstream e) @ HB" "length HB = 8 * ?num"
      "bits_nat HB = held_value ?buf ?num + c"
      using write_held_ok [of ?f c ?buf] inv flush(2) c bufc by auto
    let ?r = "?f\<lparr>e_Bitstream := s, e_numBufferedBytes := 1\<rparr>"
    have "writeOut e = Inr ?r"
      using flush w(1) by (simp add: writeOut_def Let_def b8 masked lead_eq mask carry)
    moreover have "lead mod 256 = 255 \<longrightarrow> rest + e_Range e \<le> D"
    proof
      assume "lead mod 256 = 255"
      then have "lead + 1 = 512" using lead_c c flush(1) by (auto simp: le_Suc_eq)
      then show "rest + e_Range e \<le> D" using tight low D32(2) by simp
    qed
    moreover have "(bits_nat (EB @ HB) * 256 + held_value (lead mod 256) 1) * D + rest = L"
    proof -
      have "bits_nat (EB @ HB) = bits_nat EB * 256 ^ ?num + held_value ?buf ?num + c"
        by (simp add: bits_nat_append w(4,5) pow_8)
      moreover have "held_value (lead mod 256) 1 = lead mod 256" by (simp add: held_value_def)
      moreover have "L = (bits_nat EB * 256 ^ ?num + held_value ?buf ?num) * (256 * D)
          + (256 * c + lead mod 256) * D + rest"
        using L low_eq lead_c D32(1) by simp
      ultimately show ?thesis by (simp add: algebra_simps)
    qed
    ultimately show ?thesis
      using b R w(2,3,4) bits n room D'
      by (intro exI [of _ ?r])
        (auto simp: enc_at_def same_coder_def intro!: exI [of _ "b + 8"] exI [of _ "EB @ HB"])
  next
    case first
    let ?r = "?e\<lparr>e_numBufferedBytes := 1, e_bufferedByte := lead\<rparr>"
    have EB: "EB = []" "?buf = 255" using num0 first by auto
    have "lead < 256"
    proof -
      have "lead * D < 256 * D" using J EB(2) low_eq R D32(1) by linarith
      then show ?thesis by simp
    qed
    then have "lead < 255" using first(1) by simp
    moreover have "writeOut e = Inr ?r"
      using first by (simp add: writeOut_def Let_def b8 masked lead_eq)
    moreover have "(held_value lead 1) * D + rest = L"
      using L EB first(2) low_eq by (simp add: held_value_def)
    ultimately show ?thesis
      using b R inv bits EB n room D' first(2)
      by (intro exI [of _ ?r])
        (auto simp: enc_at_def same_coder_def intro!: exI [of _ "b + 8"] exI [of _ "[]"])
  qed
qed

lemma same_coder_refl [simp]: "same_coder e e"
  by (simp add: same_coder_def)

lemma enc_at_weaken: "enc_at pre lo e L n \<Longrightarrow> lo' \<le> lo \<Longrightarrow> enc_at pre lo' e L n"
  unfolding enc_at_def by fastforce

lemma write_if_full_ok:
  assumes "enc_at pre 4 e L n"
  shows "\<exists>e'. write_if_full e = Inr e' \<and> enc_at pre 12 e' L n \<and> same_coder e e'"
proof (cases "e_bitsLeft e < 12")
  case True
  then show ?thesis using writeOut_ok [OF assms] by (simp add: write_if_full_def)
next
  case False
  then have "enc_at pre 12 e L n" using assms unfolding enc_at_def by fastforce
  then show ?thesis using False by (simp add: write_if_full_def)
qed

lemma low_bound:
  assumes "enc_at pre 12 e L n"
  shows "e_Low e + e_Range e \<le> 2 ^ 21"
proof -
  obtain b where "12 \<le> b" "e_Low e + e_Range e \<le> 2 ^ (33 - b)"
    using assms unfolding enc_at_def by auto
  moreover have "(2 :: nat) ^ (33 - b) \<le> 2 ^ 21" using \<open>12 \<le> b\<close> by (intro power_increasing) auto
  ultimately show ?thesis by linarith
qed

text \<open>
  A narrowing step: the registers are shifted by \<open>s\<close> bits and the interval becomes the part of length
  \<open>r\<close> that starts \<open>x\<close> above the low end.
\<close>

lemma enc_step:
  assumes at: "enc_at pre 12 e L n" and s: "s \<le> 8" and part: "x + r \<le> e_Range e * 2 ^ s"
    and r: "64 \<le> r" "r \<le> 510"
    and e1: "e_Bitstream e1 = e_Bitstream e" "e_bufferedByte e1 = e_bufferedByte e"
      "e_numBufferedBytes e1 = e_numBufferedBytes e" "e_Low e1 = e_Low e * 2 ^ s + x"
      "e_Range e1 = r" "e_bitsLeft e1 = e_bitsLeft e - int s"
  shows "enc_at pre 4 e1 (L * 2 ^ s + x) (n + s)"
proof -
  obtain b EB where b: "e_bitsLeft e = int b" "12 \<le> b" "b \<le> 23"
    and inv: "out_inv (e_Bitstream e)" and bits: "out_bits (e_Bitstream e) = pre @ EB"
    and num0: "e_numBufferedBytes e = 0 \<longrightarrow> EB = [] \<and> e_bufferedByte e = 255"
    and buf: "e_bufferedByte e \<le> 255"
    and low: "e_Low e + e_Range e \<le> 2 ^ (33 - b)"
    and J: "e_bufferedByte e = 255 \<longrightarrow> e_Low e + e_Range e \<le> 2 ^ (32 - b)"
    and n: "n + b = 23 + length EB + 8 * e_numBufferedBytes e"
    and L: "L = (bits_nat EB * 256 ^ e_numBufferedBytes e
             + held_value (e_bufferedByte e) (e_numBufferedBytes e)) * 2 ^ (32 - b) + e_Low e"
    using at unfolding enc_at_def by auto
  have "e_Low e * 2 ^ s + x + r \<le> (e_Low e + e_Range e) * 2 ^ s"
    using part by (simp add: add_mult_distrib)
  moreover have "(e_Low e + e_Range e) * 2 ^ s \<le> 2 ^ (33 - b) * 2 ^ s"
    using low by (rule mult_right_mono) simp
  moreover have "(2 :: nat) ^ (33 - b) * 2 ^ s = 2 ^ (33 - (b - s))" "(2 :: nat) ^ (32 - b) * 2 ^ s = 2 ^ (32 - (b - s))"
    using b s by (simp_all flip: power_add)
  moreover have "e_bufferedByte e = 255 \<longrightarrow> (e_Low e + e_Range e) * 2 ^ s \<le> 2 ^ (32 - b) * 2 ^ s"
    using J by (auto intro: mult_right_mono)
  ultimately show ?thesis
    using b s r inv bits num0 buf n L e1 unfolding enc_at_def
    by (intro exI [of _ "b - s"] exI [of _ EB]) (auto simp: algebra_simps of_nat_diff)
qed

section \<open>The decoder's place in the byte string\<close>

definition contains :: "u8 list \<Rightarrow> nat \<Rightarrow> nat \<Rightarrow> nat \<Rightarrow> bool" where
  "contains bs L r n \<longleftrightarrow> 2 + n div 8 \<le> length bs
     \<and> L * 2 ^ (8 * length bs) \<le> be_nat bs * 2 ^ (n + 9)
     \<and> be_nat bs * 2 ^ (n + 9) < (L + r) * 2 ^ (8 * length bs)"

definition dec_at :: "u8 list \<Rightarrow> BinDecoder \<Rightarrow> nat \<Rightarrow> nat \<Rightarrow> bool" where
  "dec_at bs d L n \<longleftrightarrow> d_bitsNeeded d = int (n mod 8) - 8 \<and> in_num_held_bits (d_Bitstream d) = 0
     \<and> (\<exists>off. drop off (in_fifo (d_Bitstream d)) = bs \<and> off \<le> length (in_fifo (d_Bitstream d))
           \<and> in_fifo_idx (d_Bitstream d) = off + (2 + n div 8))
     \<and> 2 + n div 8 \<le> length bs
     \<and> d_Value d + L * 2 ^ 7 = be_nat (take (2 + n div 8) bs) * 2 ^ (n mod 8)"

lemma contains_narrow:
  assumes "contains bs (L * 2 ^ s + x) r' (n + s)" and "x + r' \<le> r * 2 ^ s"
  shows "contains bs L r n"
proof -
  let ?T = "2 ^ (8 * length bs) :: nat" and ?Z = "be_nat bs * 2 ^ (n + 9)"
  have c: "2 + (n + s) div 8 \<le> length bs" "(L * 2 ^ s + x) * ?T \<le> ?Z * 2 ^ s"
    "?Z * 2 ^ s < (L * 2 ^ s + x + r') * ?T"
    using assms(1) by (simp_all add: contains_def power_add mult_ac)
  have "n div 8 \<le> (n + s) div 8" by (rule div_le_mono) simp
  moreover have "L * ?T \<le> ?Z"
  proof -
    have "(L * ?T) * 2 ^ s \<le> (L * 2 ^ s + x) * ?T" by (simp add: add_mult_distrib)
    then have "(L * ?T) * 2 ^ s \<le> ?Z * 2 ^ s" using c(2) by (rule le_trans)
    then show ?thesis by (simp only: mult_le_cancel2) simp
  qed
  moreover have "?Z < (L + r) * ?T"
  proof -
    have "(L * 2 ^ s + x + r') * ?T \<le> (L * 2 ^ s + r * 2 ^ s) * ?T"
      using assms(2) by (intro mult_right_mono) auto
    also have "\<dots> = ((L + r) * ?T) * 2 ^ s" by (simp add: add_mult_distrib)
    finally have "?Z * 2 ^ s < ((L + r) * ?T) * 2 ^ s" using c(3) by (rule less_le_trans [rotated])
    then show ?thesis by (simp only: mult_less_cancel2)
  qed
  ultimately show ?thesis using c(1) by (simp add: contains_def)
qed

text \<open>The bytes read so far decide on which side of every bound the whole string is.\<close>

lemma contains_value:
  assumes "contains bs L r n"
  defines "X \<equiv> be_nat (take (2 + n div 8) bs)"
  shows "L * 2 ^ 7 \<le> X * 2 ^ (n mod 8)" and "X * 2 ^ (n mod 8) < (L + r) * 2 ^ 7"
proof -
  let ?m = "2 + n div 8"
  have m: "?m \<le> length bs" using assms(1) by (simp add: contains_def)
  define D :: nat where "D = 256 ^ (length bs - ?m)"
  define R where "R = be_nat (drop ?m bs)"
  have Z: "be_nat bs = X * D + R"
    using be_nat_append [of "take ?m bs" "drop ?m bs"] by (simp add: X_def D_def R_def)
  have R: "R < D" using be_nat_bound [of "drop ?m bs"] by (simp add: R_def D_def)
  have j: "n mod 8 \<le> 7" by simp
  have T: "(2 :: nat) ^ (8 * length bs) = D * 256 ^ ?m"
  proof -
    have "D * 256 ^ ?m = 256 ^ (length bs - ?m + ?m)" unfolding D_def power_add ..
    then show ?thesis using m by (simp only: pow_8 le_add_diff_inverse2)
  qed
  have N: "(2 :: nat) ^ (n + 9) * 2 ^ 7 = 256 ^ ?m * 2 ^ (n mod 8)"
  proof -
    have "n + 9 + 7 = 8 * ?m + n mod 8" by simp
    then show ?thesis by (simp only: power_add [symmetric] pow_8 [symmetric])
  qed
  have "L * 2 ^ (8 * length bs) \<le> be_nat bs * 2 ^ (n + 9)"
    and "be_nat bs * 2 ^ (n + 9) < (L + r) * 2 ^ (8 * length bs)"
    using assms(1) by (simp_all add: contains_def)
  then have "L * 2 ^ (8 * length bs) * 2 ^ 7 \<le> be_nat bs * (2 ^ (n + 9) * 2 ^ 7)"
    and "be_nat bs * (2 ^ (n + 9) * 2 ^ 7) < (L + r) * 2 ^ (8 * length bs) * 2 ^ 7"
    by simp_all
  then have lo: "(L * 2 ^ 7 * D) * 256 ^ ?m \<le> ((X * D + R) * 2 ^ (n mod 8)) * 256 ^ ?m"
    and hi: "((X * D + R) * 2 ^ (n mod 8)) * 256 ^ ?m < ((L + r) * 2 ^ 7 * D) * 256 ^ ?m"
    unfolding T N Z by (simp_all only: mult_ac)
  have "(X * 2 ^ (n mod 8)) * D \<le> (X * D + R) * 2 ^ (n mod 8)" by (simp add: add_mult_distrib)
  also have "\<dots> < ((L + r) * 2 ^ 7) * D"
    using hi unfolding mult_less_cancel2 by blast
  finally have "(X * 2 ^ (n mod 8)) * D < ((L + r) * 2 ^ 7) * D" .
  then show "X * 2 ^ (n mod 8) < (L + r) * 2 ^ 7" by (simp only: mult_less_cancel2)
  have seven: "(2 :: nat) ^ 7 = 2 ^ (7 - n mod 8) * 2 ^ (n mod 8)"
    using j by (simp flip: power_add)
  from lo have "(L * 2 ^ (7 - n mod 8) * D) * 2 ^ (n mod 8) \<le> (X * D + R) * 2 ^ (n mod 8)"
    unfolding seven by (simp add: mult_ac)
  then have "L * 2 ^ (7 - n mod 8) * D \<le> X * D + R" by simp
  then have "L * 2 ^ (7 - n mod 8) * D < (X + 1) * D" using R by simp
  then have "L * 2 ^ (7 - n mod 8) < X + 1" unfolding mult_less_cancel2 by blast
  then have "L * 2 ^ (7 - n mod 8) \<le> X" by simp
  then have "L * 2 ^ (7 - n mod 8) * 2 ^ (n mod 8) \<le> X * 2 ^ (n mod 8)" by (rule mult_right_mono) simp
  then show "L * 2 ^ 7 \<le> X * 2 ^ (n mod 8)" unfolding seven by (simp add: mult_ac)
qed

lemma dec_value_bounds:
  assumes "dec_at bs d L n" and "contains bs (L + a) w n"
  shows "a * 2 ^ 7 \<le> d_Value d" and "d_Value d < (a + w) * 2 ^ 7"
  using contains_value [OF assms(2)] assms(1) by (auto simp: dec_at_def algebra_simps)

end
