(* ===== verification/ArithRoundtrip.thy ===== *)
theory ArithRoundtrip
  imports ArithCoding
begin

unbundle bit_operations_syntax

text \<open>
  What the encoder writes the decoder reads: every coding operation of \<open>TBinEncoder\<close> agrees with the
  operation of \<open>TBinDecoder\<close> of the same name, the agreement is closed under the combinators of theory
  \<open>Codec\<close>, and a whole arithmetic codeword, from \<open>start\<close> to \<open>finish\<close>, is decoded to the bins coded.
\<close>

section \<open>Registers that do not overflow\<close>

lemma shl32_eq: "x * 2 ^ k < 2 ^ 32 \<Longrightarrow> shl32 x k = x * 2 ^ k"
  by (simp add: shl32_def to_u32_def push_bit_eq_mult)

lemma add32_eq: "x + y < 2 ^ 32 \<Longrightarrow> add32 x y = x + y"
  by (simp add: add32_def to_u32_def)

lemma mul32_eq: "x * y < 2 ^ 32 \<Longrightarrow> mul32 x y = x * y"
  by (simp add: mul32_def to_u32_def)

lemma sub32_eq:
  assumes "y \<le> x" and "x < 2 ^ 32"
  shows "sub32 x y = x - y"
proof -
  have "x + 2 ^ 32 - y = (x - y) + 2 ^ 32" using assms(1) by simp
  then show ?thesis using assms(2) by (simp only: sub32_def to_u32_def mod_add_self2) simp
qed

lemmas reg32 = shl32_eq add32_eq mul32_eq sub32_eq

section \<open>Steps of the decoder\<close>

lemma dec_at_fields:
  "d_bitsNeeded d' = d_bitsNeeded d \<Longrightarrow> d_Bitstream d' = d_Bitstream d \<Longrightarrow> d_Value d' = d_Value d \<Longrightarrow>
     dec_at bs d L n \<Longrightarrow> dec_at bs d' L n"
  by (simp add: dec_at_def)

lemma dec_sub:
  assumes "dec_at bs d L n" and "x * 2 ^ 7 \<le> d_Value d"
  shows "dec_at bs (d\<lparr>d_Value := d_Value d - x * 2 ^ 7\<rparr>) (L + x) n"
  using assms by (simp add: dec_at_def algebra_simps)

lemma byte_at:
  assumes "dec_at bs d L n" and "3 + n div 8 \<le> length bs"
  obtains b where "\<And>d1. d_Bitstream d1 = d_Bitstream d \<Longrightarrow> stream_readByte d1
      = Inr (b, d1\<lparr>d_Bitstream := (d_Bitstream d)\<lparr>in_fifo_idx := in_fifo_idx (d_Bitstream d) + 1\<rparr>\<rparr>)"
    "be_nat (take (2 + (n div 8 + 1)) bs) = be_nat (take (2 + n div 8) bs) * 256 + b" "b < 256"
proof -
  obtain off where off: "drop off (in_fifo (d_Bitstream d)) = bs"
    "off \<le> length (in_fifo (d_Bitstream d))" "in_fifo_idx (d_Bitstream d) = off + (2 + n div 8)"
    using assms(1) by (auto simp: dec_at_def)
  let ?m = "2 + n div 8"
  have len: "length bs = length (in_fifo (d_Bitstream d)) - off" using off by auto
  then have lt: "in_fifo_idx (d_Bitstream d) < length (in_fifo (d_Bitstream d))"
    using assms(2) off by simp
  have nth: "in_fifo (d_Bitstream d) ! in_fifo_idx (d_Bitstream d) = bs ! ?m"
    using off by auto
  have "take (2 + (n div 8 + 1)) bs = take ?m bs @ [bs ! ?m]"
    using assms(2) take_Suc_conv_app_nth [of ?m bs] by simp
  then have "be_nat (take (2 + (n div 8 + 1)) bs) = be_nat (take ?m bs) * 256 + unat (bs ! ?m)"
    by (simp add: be_nat_append)
  moreover have "stream_readByte d1 = Inr (unat (bs ! ?m),
      d1\<lparr>d_Bitstream := (d_Bitstream d)\<lparr>in_fifo_idx := in_fifo_idx (d_Bitstream d) + 1\<rparr>\<rparr>)"
    if "d_Bitstream d1 = d_Bitstream d" for d1
    using lt nth that by (simp add: stream_readByte_def in_readByte_def)
  ultimately show ?thesis using that unat_u8_lt [of "bs ! ?m"] by blast
qed

lemma div_mod_8:
  assumes "n mod 8 + s = 8 * c + k" and "k < (8 :: nat)"
  shows "(n + s) div 8 = n div 8 + c" and "(n + s) mod 8 = k"
proof -
  have "n + s = 8 * (n div 8) + (n mod 8 + s)" by (simp flip: add.assoc)
  also have "\<dots> = 8 * (n div 8 + c) + k" unfolding assms(1) by simp
  finally have "n + s = 8 * (n div 8 + c) + k" .
  then show "(n + s) div 8 = n div 8 + c" and "(n + s) mod 8 = k"
    using assms(2) by (simp_all del: distrib_left_numeral)
qed

text \<open>Shifting the value by \<open>s\<close> bits, and taking in the next byte when it is due.\<close>

lemma dec_shift:
  assumes at: "dec_at bs d L n" and s: "s \<le> 8" and len: "2 + (n + s) div 8 \<le> length bs"
    and V: "d_Value d < 2 ^ 18"
    and d1: "d1 = d\<lparr>d_Range := r, d_Value := d_Value d * 2 ^ s, d_bitsNeeded := d_bitsNeeded d + int s\<rparr>"
  shows "\<exists>d'. refill d1 = Inr d' \<and> dec_at bs d' (L * 2 ^ s) (n + s) \<and> d_Range d' = r \<and> d_Ctx d' = d_Ctx d"
proof -
  let ?j = "n mod 8" and ?X = "be_nat (take (2 + n div 8) bs)"
  have need: "d_bitsNeeded d = int ?j - 8" and val: "d_Value d + L * 2 ^ 7 = ?X * 2 ^ ?j"
    using at unfolding dec_at_def by blast+
  have "2 ^ s \<le> (2 :: nat) ^ 8" using s by (intro power_increasing) auto
  then have "d_Value d * 2 ^ s \<le> d_Value d * 2 ^ 8" by (rule mult_left_mono) simp
  also have "\<dots> < 2 ^ 18 * 2 ^ 8" using V by (rule mult_strict_right_mono) simp
  finally have V32: "d_Value d * 2 ^ s < 2 ^ 26" by simp
  have scaled: "d_Value d * 2 ^ s + L * 2 ^ s * 2 ^ 7 = ?X * 2 ^ (?j + s)"
  proof -
    have "(d_Value d + L * 2 ^ 7) * 2 ^ s = ?X * 2 ^ (?j + s)" unfolding val power_add by simp
    then show ?thesis unfolding add_mult_distrib by (simp only: mult.assoc mult.commute [of "2 ^ 7"])
  qed
  show ?thesis
  proof (cases "?j + s < 8")
    case True
    then have "(n + s) div 8 = n div 8" "(n + s) mod 8 = ?j + s"
      using div_mod_8 [of n s 0 "?j + s"] by auto
    moreover have "\<not> int ?j - 8 + int s \<ge> 0" using True by linarith
    ultimately show ?thesis using at scaled need d1 by (auto simp: refill_def dec_at_def)
  next
    case False
    define k where "k = ?j + s - 8"
    have k: "?j + s = k + 8" "k < 8" using False s unfolding k_def by simp_all
    then have dm: "(n + s) div 8 = n div 8 + 1" "(n + s) mod 8 = k"
      using div_mod_8 [of n s 1 k] by auto
    obtain b where b: "\<And>d1. d_Bitstream d1 = d_Bitstream d \<Longrightarrow> stream_readByte d1
        = Inr (b, d1\<lparr>d_Bitstream := (d_Bitstream d)\<lparr>in_fifo_idx := in_fifo_idx (d_Bitstream d) + 1\<rparr>\<rparr>)"
      "be_nat (take (2 + (n div 8 + 1)) bs) = ?X * 256 + b" "b < 256"
      by (rule byte_at [OF at]) (use len dm in auto)
    have rd: "stream_readByte d1
        = Inr (b, d1\<lparr>d_Bitstream := (d_Bitstream d1)\<lparr>in_fifo_idx := in_fifo_idx (d_Bitstream d1) + 1\<rparr>\<rparr>)"
      using b(1) [of d1] d1 by simp
    have "b * 2 ^ k < 2 ^ 8 * 2 ^ k" using b(3) by simp
    also have "\<dots> \<le> 2 ^ 8 * 2 ^ 8" using k(2) by (intro mult_left_mono power_increasing) auto
    finally have bk: "b * 2 ^ k < 2 ^ 16" by simp
    have e: "int ?j - 8 + int s = int k" using k by linarith
    let ?d = "d1\<lparr>d_Bitstream := (d_Bitstream d1)\<lparr>in_fifo_idx := in_fifo_idx (d_Bitstream d1) + 1\<rparr>,
        d_Value := d_Value d * 2 ^ s + b * 2 ^ k, d_bitsNeeded := int k - 8\<rparr>"
    have "refill d1 = Inr ?d"
      using V32 bk need e by (simp add: refill_def b(1) d1 reg32)
    moreover have "d_Value ?d + L * 2 ^ s * 2 ^ 7 = (?X * 256 + b) * 2 ^ k"
    proof -
      have "?X * 2 ^ (?j + s) = ?X * 256 * 2 ^ k" unfolding k by (simp add: power_add)
      then show ?thesis using scaled by (simp add: add_mult_distrib)
    qed
    ultimately show ?thesis using at b(2) dm len d1 by (intro exI [of _ ?d]) (auto simp: dec_at_def)
  qed
qed

text \<open>The value of a decoder in an interval fits its register.\<close>

lemma dec_value_small:
  assumes "dec_at bs d L n" and "contains bs L r n" and "r \<le> 510"
  shows "d_Value d < r * 2 ^ 7" and "d_Value d < 2 ^ 16"
proof -
  show v: "d_Value d < r * 2 ^ 7" using dec_value_bounds [OF assms(1), of 0 r] assms(2) by simp
  also have "\<dots> \<le> 510 * 2 ^ 7" using assms(3) by simp
  finally show "d_Value d < 2 ^ 16" by simp
qed

section \<open>The agreement of a coding and a decoding operation\<close>

definition models_ok :: "nat \<Rightarrow> BinEncoder \<Rightarrow> bool" where
  "models_ok N e \<longleftrightarrow> ctx_ok (e_Ctx e) \<and> length (e_Ctx e) = N \<and> length (e_NumBinsCtx e) = N"

definition in_step :: "u8 list \<Rightarrow> BinDecoder \<Rightarrow> BinEncoder \<Rightarrow> nat \<Rightarrow> nat \<Rightarrow> bool" where
  "in_step bs d e L n \<longleftrightarrow> dec_at bs d L n \<and> d_Range d = e_Range e \<and> d_Ctx d = e_Ctx e"

text \<open>
  \<open>agrees N w p v\<close>: from every state of an encoder with \<open>N\<close> models, \<open>w\<close> succeeds and narrows the
  interval, and a decoder in step with that encoder whose byte string lies in the narrowed interval
  returns \<open>v\<close> from \<open>p\<close> and is in step again.
\<close>

definition agrees :: "nat \<Rightarrow> BinEncoder step \<Rightarrow> (BinDecoder, 'a) reader \<Rightarrow> 'a \<Rightarrow> bool" where
  "agrees N w p v \<longleftrightarrow> (\<forall>pre e L n. enc_at pre 12 e L n \<and> models_ok N e \<longrightarrow>
     (\<exists>e' L' n'. w e = Inr e' \<and> enc_at pre 12 e' L' n' \<and> models_ok N e'
       \<and> (\<forall>bs. contains bs L' (e_Range e') n' \<longrightarrow> contains bs L (e_Range e) n
            \<and> (\<forall>d. in_step bs d e L n \<longrightarrow> (\<exists>d'. p d = Inr (v, d') \<and> in_step bs d' e' L' n')))))"

lemma agreesI:
  assumes "\<And>pre e L n. enc_at pre 12 e L n \<Longrightarrow> models_ok N e \<Longrightarrow>
    \<exists>e' L' n'. w e = Inr e' \<and> enc_at pre 12 e' L' n' \<and> models_ok N e'
       \<and> (\<forall>bs. contains bs L' (e_Range e') n' \<longrightarrow> contains bs L (e_Range e) n
            \<and> (\<forall>d. in_step bs d e L n \<longrightarrow> (\<exists>d'. p d = Inr (v, d') \<and> in_step bs d' e' L' n')))"
  shows "agrees N w p v"
  using assms by (auto simp: agrees_def)

lemma agreesD:
  assumes "agrees N w p v" and "enc_at pre 12 e L n" and "models_ok N e"
  obtains e' L' n' where "w e = Inr e'" "enc_at pre 12 e' L' n'" "models_ok N e'"
    "\<And>bs. contains bs L' (e_Range e') n' \<Longrightarrow> contains bs L (e_Range e) n"
    "\<And>bs d. contains bs L' (e_Range e') n' \<Longrightarrow> in_step bs d e L n \<Longrightarrow>
       \<exists>d'. p d = Inr (v, d') \<and> in_step bs d' e' L' n'"
  using assms unfolding agrees_def by metis

lemma agrees_bind:
  assumes "agrees N w p x" and "agrees N (seqW ws) (q x) v"
  shows "agrees N (seqW (w # ws)) (bindP p q) v"
proof (rule agreesI)
  fix pre e L n assume e: "enc_at pre 12 e L n" "models_ok N e"
  obtain e1 L1 n1 where 1: "w e = Inr e1" "enc_at pre 12 e1 L1 n1" "models_ok N e1"
    "\<And>bs. contains bs L1 (e_Range e1) n1 \<Longrightarrow> contains bs L (e_Range e) n"
    "\<And>bs d. contains bs L1 (e_Range e1) n1 \<Longrightarrow> in_step bs d e L n \<Longrightarrow>
       \<exists>d'. p d = Inr (x, d') \<and> in_step bs d' e1 L1 n1"
    by (rule agreesD [OF assms(1) e]) blast
  obtain e2 L2 n2 where 2: "seqW ws e1 = Inr e2" "enc_at pre 12 e2 L2 n2" "models_ok N e2"
    "\<And>bs. contains bs L2 (e_Range e2) n2 \<Longrightarrow> contains bs L1 (e_Range e1) n1"
    "\<And>bs d. contains bs L2 (e_Range e2) n2 \<Longrightarrow> in_step bs d e1 L1 n1 \<Longrightarrow>
       \<exists>d'. q x d = Inr (v, d') \<and> in_step bs d' e2 L2 n2"
    by (rule agreesD [OF assms(2) 1(2,3)]) blast
  have "\<exists>d'. bindP p q d = Inr (v, d') \<and> in_step bs d' e2 L2 n2"
    if "contains bs L2 (e_Range e2) n2" "in_step bs d e L n" for bs d
    using 1(5) [OF 2(4) [OF that(1)] that(2)] 2(5) [OF that(1)] by (auto simp: bindP_def)
  then show "\<exists>e' L' n'. seqW (w # ws) e = Inr e' \<and> enc_at pre 12 e' L' n' \<and> models_ok N e'
       \<and> (\<forall>bs. contains bs L' (e_Range e') n' \<longrightarrow> contains bs L (e_Range e) n
            \<and> (\<forall>d. in_step bs d e L n \<longrightarrow> (\<exists>d'. bindP p q d = Inr (v, d') \<and> in_step bs d' e' L' n')))"
    using 1(1,4) 2(1,2,3,4) by (intro exI [of _ e2] exI [of _ L2] exI [of _ n2]) (simp add: thenW_def)
qed

lemma agrees_skip: "agrees N skipW (returnP v) v"
  unfolding agrees_def by (auto simp: skipW_def returnP_def)

lemma agrees_return: "agrees N (seqW []) (returnP v) v"
  by (simp add: agrees_skip)

lemma agrees_checkP: "\<not> c \<Longrightarrow> agrees N w p v \<Longrightarrow> agrees N w (checkP c msg p) v"
  by (simp add: agrees_def checkP_def)

lemma agrees_checkW: "\<not> c \<Longrightarrow> agrees N (seqW ws) p v \<Longrightarrow> agrees N (seqW (checkW c msg # ws)) p v"
  by (simp add: agrees_def checkW_def thenW_def)

lemma agrees_alt:
  "(c \<Longrightarrow> agrees N w p x) \<Longrightarrow> (\<not> c \<Longrightarrow> agrees N w' p' x') \<Longrightarrow>
     agrees N (if c then w else w') (if c then p else p') (if c then x else x')"
  by simp

lemma agrees_if:
  "(c \<Longrightarrow> agrees N w p x) \<Longrightarrow> (\<not> c \<Longrightarrow> agrees N w' p' x) \<Longrightarrow>
     agrees N (if c then w else w') (if c then p else p') x"
  by simp

lemma agrees_bind_return:
  assumes "agrees N w p x"
  shows "agrees N w (bindP p (\<lambda>a. returnP (f a))) (f x)"
  using agrees_bind [where ws = "[]" and q = "\<lambda>a. returnP (f a)", OF assms agrees_return] by simp

lemma agrees_then:
  assumes "agrees N w p x" and "agrees N w' (q x) v"
  shows "agrees N (thenW w w') (bindP p q) v"
  using agrees_bind [where ws = "[w']", OF assms(1)] assms(2) by simp

lemma agrees_seqP:
  "(\<And>x. x \<in> set xs \<Longrightarrow> agrees N (w x) (p x) (v x)) \<Longrightarrow>
     agrees N (seqW (map w xs)) (seqP (map p xs)) (map v xs)"
proof (induction xs)
  case Nil
  show ?case using agrees_return by simp
next
  case (Cons x xs)
  have "agrees N (seqW (map w xs)) (bindP (seqP (map p xs)) (\<lambda>ys. returnP (v x # ys))) (map v (x # xs))"
    using agrees_bind_return [where f = "(#) (v x)", OF Cons.IH] Cons.prems by simp
  then show ?case
    using agrees_bind [where ws = "map w xs", OF Cons.prems [of x]] by simp
qed

lemmas agrees_struct = agrees_checkW agrees_checkP agrees_return agrees_skip agrees_alt agrees_bind

section \<open>Equiprobable bins\<close>

lemma enc_narrow:
  assumes at: "enc_at pre 12 e L n" and s: "s \<le> 8" and part: "x + r \<le> e_Range e * 2 ^ s"
    and r: "64 \<le> r" "r \<le> 510" and m: "models_ok N e"
    and e1: "e_Bitstream e1 = e_Bitstream e" "e_bufferedByte e1 = e_bufferedByte e"
      "e_numBufferedBytes e1 = e_numBufferedBytes e" "e_Low e1 = e_Low e * 2 ^ s + x"
      "e_Range e1 = r" "e_bitsLeft e1 = e_bitsLeft e - int s"
      "e_Ctx e1 = e_Ctx e" "length (e_NumBinsCtx e1) = length (e_NumBinsCtx e)"
  obtains e' where "write_if_full e1 = Inr e'" "enc_at pre 12 e' (L * 2 ^ s + x) (n + s)"
    "models_ok N e'" "e_Range e' = r" "e_Ctx e' = e_Ctx e" "e_BinStore e' = e_BinStore e1"
    "e_NumBinsCtx e' = e_NumBinsCtx e1"
proof -
  have "enc_at pre 4 e1 (L * 2 ^ s + x) (n + s)"
    by (rule enc_step [OF at s part r]) (fact e1)+
  then obtain e' where "write_if_full e1 = Inr e'" "enc_at pre 12 e' (L * 2 ^ s + x) (n + s)"
    "same_coder e1 e'"
    using write_if_full_ok by blast
  then show ?thesis using that m e1 by (auto simp: models_ok_def same_coder_def)
qed

lemma enc_range: "enc_at pre lo e L n \<Longrightarrow> 64 \<le> e_Range e \<and> e_Range e \<le> 510"
  unfolding enc_at_def by auto

lemma enc_low_small:
  assumes "enc_at pre 12 e L n" and "s \<le> 8"
  shows "e_Low e * 2 ^ s < 2 ^ 29"
proof -
  have "e_Low e < 2 ^ 21" using low_bound [OF assms(1)] enc_range [OF assms(1)] by linarith
  then have "e_Low e * 2 ^ s < 2 ^ 21 * 2 ^ s" by simp
  also have "\<dots> \<le> 2 ^ 21 * 2 ^ 8" using assms(2) by (intro mult_left_mono power_increasing) auto
  finally show ?thesis by simp
qed

lemma need_neg: "dec_at bs d L n \<Longrightarrow> d_bitsNeeded d < 0"
  by (simp add: dec_at_def)

text \<open>The form of the refill in \<open>decodeBinEP\<close> and \<open>decodeBinTrm\<close>.\<close>

lemma refill_one:
  assumes "d_bitsNeeded d < 0" and "d_Value d < 2 ^ 18"
  shows "(if d_bitsNeeded d + 1 \<ge> 0
     then bindE (stream_readByte (d\<lparr>d_Value := add32 (d_Value d) (d_Value d),
            d_bitsNeeded := d_bitsNeeded d + 1\<rparr>)) (\<lambda>(b, d).
          Inr (d\<lparr>d_Value := add32 (d_Value d) b, d_bitsNeeded := - 8\<rparr>))
     else Inr (d\<lparr>d_Value := add32 (d_Value d) (d_Value d), d_bitsNeeded := d_bitsNeeded d + 1\<rparr>))
   = refill (d\<lparr>d_Value := d_Value d * 2 ^ 1, d_bitsNeeded := d_bitsNeeded d + int 1\<rparr>)"
proof -
  have "d_bitsNeeded d + 1 = 0" if "d_bitsNeeded d + 1 \<ge> 0" using assms(1) that by simp
  moreover have "shl32 (unat (v :: u32)) 0 = unat v" for v
    using unat_u32_lt [of v] by (simp add: shl32_def to_u32_def)
  ultimately show ?thesis
    using assms by (auto simp: refill_def reg32 mult_2_right stream_readByte_def bindE_assoc split: prod.splits
        intro!: bindE_cong)
qed

text \<open>
  Bypass bins subdivide the interval evenly: \<open>k\<close> bins with value \<open>v\<close> take the \<open>v\<close>th of \<open>2 ^ k\<close> parts,
  whatever operations code them. \<open>emits_ep\<close> says so of a writer, \<open>reads_ep\<close> of a reader; a writer and a
  reader with the same \<open>k\<close> and \<open>v\<close> agree, however either splits the bins.
\<close>

definition emits_ep :: "nat \<Rightarrow> nat \<Rightarrow> nat \<Rightarrow> BinEncoder step \<Rightarrow> bool" where
  "emits_ep R k v w \<longleftrightarrow> (\<forall>pre e L n N. enc_at pre 12 e L n \<and> models_ok N e \<and> e_Range e = R \<longrightarrow>
     (\<exists>e'. w e = Inr e' \<and> enc_at pre 12 e' (L * 2 ^ k + R * v) (n + k) \<and> models_ok N e'
         \<and> e_Range e' = R \<and> e_Ctx e' = e_Ctx e))"

definition reads_ep :: "nat \<Rightarrow> nat \<Rightarrow> nat \<Rightarrow> (BinDecoder, 'a) reader \<Rightarrow> 'a \<Rightarrow> bool" where
  "reads_ep R k v p x \<longleftrightarrow> (\<forall>bs d L n. contains bs (L * 2 ^ k + R * v) R (n + k) \<and> dec_at bs d L n
       \<and> d_Range d = R \<longrightarrow>
     (\<exists>d'. p d = Inr (x, d') \<and> dec_at bs d' (L * 2 ^ k + R * v) (n + k) \<and> d_Range d' = R
         \<and> d_Ctx d' = d_Ctx d))"

lemma emits_epE:
  assumes "emits_ep R k v w" and "enc_at pre 12 e L n" and "models_ok N e" and "e_Range e = R"
  obtains e' where "w e = Inr e'" "enc_at pre 12 e' (L * 2 ^ k + R * v) (n + k)" "models_ok N e'"
    "e_Range e' = R" "e_Ctx e' = e_Ctx e"
  using assms unfolding emits_ep_def by metis

lemma reads_epE:
  assumes "reads_ep R k v p x" and "contains bs (L * 2 ^ k + R * v) R (n + k)" and "dec_at bs d L n"
    and "d_Range d = R"
  obtains d' where "p d = Inr (x, d')" "dec_at bs d' (L * 2 ^ k + R * v) (n + k)" "d_Range d' = R"
    "d_Ctx d' = d_Ctx d"
  using assms unfolding reads_ep_def by metis

lemma ep_part:
  fixes v :: nat
  assumes "v < 2 ^ k"
  shows "R * v + R \<le> R * 2 ^ k"
proof -
  have "R * (v + 1) \<le> R * 2 ^ k" using assms by (intro mult_left_mono) auto
  then show ?thesis by simp
qed

lemma ep_contains: "v < 2 ^ k \<Longrightarrow> contains bs (L * 2 ^ k + R * v) R (n + k) \<Longrightarrow> contains bs L R n"
  by (rule contains_narrow [OF _ ep_part])

lemma ep_agrees:
  assumes "v < 2 ^ k" and "\<And>R. 64 \<le> R \<Longrightarrow> R \<le> 510 \<Longrightarrow> emits_ep R k v w"
    and "\<And>R. 64 \<le> R \<Longrightarrow> R \<le> 510 \<Longrightarrow> reads_ep R k v p x"
  shows "agrees N w p x"
proof (rule agreesI)
  fix pre e L n assume at: "enc_at pre 12 e L n" and m: "models_ok N e"
  let ?R = "e_Range e"
  have R: "64 \<le> ?R" "?R \<le> 510" using enc_range [OF at] by auto
  obtain e' where e': "w e = Inr e'" "enc_at pre 12 e' (L * 2 ^ k + ?R * v) (n + k)" "models_ok N e'"
    "e_Range e' = ?R" "e_Ctx e' = e_Ctx e"
    by (rule emits_epE [OF assms(2) [OF R] at m refl])
  have "\<exists>d'. p d = Inr (x, d') \<and> in_step bs d' e' (L * 2 ^ k + ?R * v) (n + k)"
    if c: "contains bs (L * 2 ^ k + ?R * v) (e_Range e') (n + k)" and st: "in_step bs d e L n" for bs d
    by (rule reads_epE [OF assms(3) [OF R], of bs L n d]) (use c st e' in \<open>auto simp: in_step_def\<close>)
  then show "\<exists>e' L' n'. w e = Inr e' \<and> enc_at pre 12 e' L' n' \<and> models_ok N e'
       \<and> (\<forall>bs. contains bs L' (e_Range e') n' \<longrightarrow> contains bs L ?R n
            \<and> (\<forall>d. in_step bs d e L n \<longrightarrow> (\<exists>d'. p d = Inr (x, d') \<and> in_step bs d' e' L' n')))"
    using e' ep_contains [OF assms(1)]
    by (intro exI [of _ e'] exI [of _ "L * 2 ^ k + ?R * v"] exI [of _ "n + k"]) auto
qed

lemma ep_nest: "(L * 2 ^ j + R * u) * 2 ^ k + R * v = L * 2 ^ (j + k) + R * (u * 2 ^ k + v)" for L :: nat
  by (simp add: power_add algebra_simps)

lemma emits_ep_then:
  assumes "emits_ep R j u w" and "emits_ep R k v w'"
  shows "emits_ep R (j + k) (u * 2 ^ k + v) (thenW w w')"
  unfolding emits_ep_def
proof (intro allI impI)
  fix pre e L n N assume e: "enc_at pre 12 e L n \<and> models_ok N e \<and> e_Range e = R"
  then obtain e1 where e1: "w e = Inr e1" "enc_at pre 12 e1 (L * 2 ^ j + R * u) (n + j)" "models_ok N e1"
    "e_Range e1 = R" "e_Ctx e1 = e_Ctx e"
    using emits_epE [OF assms(1)] by metis
  obtain e2 where "w' e1 = Inr e2" "enc_at pre 12 e2 ((L * 2 ^ j + R * u) * 2 ^ k + R * v) (n + j + k)"
    "models_ok N e2" "e_Range e2 = R" "e_Ctx e2 = e_Ctx e1"
    by (rule emits_epE [OF assms(2) e1(2,3,4)])
  then show "\<exists>e'. thenW w w' e = Inr e' \<and> enc_at pre 12 e' (L * 2 ^ (j + k) + R * (u * 2 ^ k + v)) (n + (j + k))
      \<and> models_ok N e' \<and> e_Range e' = R \<and> e_Ctx e' = e_Ctx e"
    using e1 unfolding ep_nest by (intro exI [of _ e2]) (simp add: thenW_def add.assoc)
qed

lemma reads_ep_bind:
  assumes "reads_ep R j u p x" and "reads_ep R k v (q x) y" and "v < 2 ^ k"
  shows "reads_ep R (j + k) (u * 2 ^ k + v) (bindP p q) y"
  unfolding reads_ep_def
proof (intro allI impI)
  fix bs d L n
  assume d: "contains bs (L * 2 ^ (j + k) + R * (u * 2 ^ k + v)) R (n + (j + k)) \<and> dec_at bs d L n \<and> d_Range d = R"
  then have c: "contains bs ((L * 2 ^ j + R * u) * 2 ^ k + R * v) R (n + j + k)"
    unfolding ep_nest by (simp add: add.assoc)
  obtain d1 where d1: "p d = Inr (x, d1)" "dec_at bs d1 (L * 2 ^ j + R * u) (n + j)" "d_Range d1 = R"
    "d_Ctx d1 = d_Ctx d"
    by (rule reads_epE [OF assms(1) ep_contains [OF assms(3) c]]) (use d in auto)
  obtain d2 where "q x d1 = Inr (y, d2)" "dec_at bs d2 ((L * 2 ^ j + R * u) * 2 ^ k + R * v) (n + j + k)"
    "d_Range d2 = R" "d_Ctx d2 = d_Ctx d1"
    by (rule reads_epE [OF assms(2) c d1(2,3)])
  then show "\<exists>d'. bindP p q d = Inr (y, d') \<and> dec_at bs d' (L * 2 ^ (j + k) + R * (u * 2 ^ k + v)) (n + (j + k))
      \<and> d_Range d' = R \<and> d_Ctx d' = d_Ctx d"
    using d1 unfolding ep_nest by (intro exI [of _ d2]) (simp add: bindP_def add.assoc)
qed

lemma reads_ep_return: "reads_ep R 0 0 (returnP x) x"
  by (simp add: reads_ep_def returnP_def)

lemma emits_ep_skip: "emits_ep R 0 0 skipW"
  by (simp add: emits_ep_def skipW_def)

text \<open>The registers after a shift by \<open>s\<close> bins whose value is \<open>c\<close>.\<close>

lemma emits_ep_turn:
  assumes "enc_at pre 12 e L n" and "models_ok N e" and "s \<le> 8" and "c < 2 ^ s"
    and e1: "e1 = e\<lparr>e_NumBinsEP := t, e_Low := add32 (shl32 (e_Low e) s) (mul32 (e_Range e) c),
               e_bitsLeft := e_bitsLeft e - int s\<rparr>"
  obtains e' where "write_if_full e1 = Inr e'" "enc_at pre 12 e' (L * 2 ^ s + e_Range e * c) (n + s)"
    "models_ok N e'" "e_Range e' = e_Range e" "e_Ctx e' = e_Ctx e"
proof -
  let ?R = "e_Range e"
  have R: "64 \<le> ?R" "?R \<le> 510" using enc_range [OF assms(1)] by auto
  note part = ep_part [OF assms(4), of ?R]
  have "?R * 2 ^ s \<le> 510 * 2 ^ 8" using R assms(3) by (intro mult_mono power_increasing) auto
  then have small: "?R * c < 2 ^ 17" "?R * 2 ^ s < 2 ^ 17" using part R by simp_all
  have low: "e_Low e * 2 ^ s < 2 ^ 29" by (rule enc_low_small [OF assms(1,3)])
  have e1': "e1 = e\<lparr>e_NumBinsEP := t, e_Low := e_Low e * 2 ^ s + ?R * c, e_bitsLeft := e_bitsLeft e - int s\<rparr>"
    using small low by (simp add: e1 reg32)
  show ?thesis
    by (rule enc_narrow [OF assms(1,3) part R assms(2), of e1]) (auto simp: e1' intro: that)
qed

lemma reads_ep_turn:
  assumes con: "contains bs (L * 2 ^ s + d_Range d * c) (d_Range d) (n + s)" and at: "dec_at bs d L n"
    and R: "64 \<le> d_Range d" "d_Range d \<le> 510" and s: "s \<le> 8" and c: "c < 2 ^ s"
  obtains d' where "refill (d\<lparr>d_Value := d_Value d * 2 ^ s, d_bitsNeeded := d_bitsNeeded d + int s\<rparr>) = Inr d'"
    "d_Range d' = d_Range d" "d_Ctx d' = d_Ctx d" "d_Value d' div (d_Range d * 2 ^ 7) = c"
    "d_Value d' < d_Range d * 2 ^ 7 * 2 ^ s"
    "dec_at bs (d'\<lparr>d_Value := d_Value d' mod (d_Range d * 2 ^ 7)\<rparr>) (L * 2 ^ s + d_Range d * c) (n + s)"
proof -
  let ?R = "d_Range d"
  have V: "d_Value d < 2 ^ 18"
    using dec_value_small(2) [OF at ep_contains [OF c con] R(2)] by simp
  let ?d1 = "d\<lparr>d_Value := d_Value d * 2 ^ s, d_bitsNeeded := d_bitsNeeded d + int s\<rparr>"
  obtain d1 where d1: "refill ?d1 = Inr d1" "dec_at bs d1 (L * 2 ^ s) (n + s)" "d_Range d1 = ?R" "d_Ctx d1 = d_Ctx d"
    using dec_shift [OF at s _ V, of ?d1 ?R] con by (auto simp: contains_def)
  have b: "?R * c * 2 ^ 7 \<le> d_Value d1" "d_Value d1 < (?R * c + ?R) * 2 ^ 7"
    by (rule dec_value_bounds [OF d1(2) con])+
  have lt: "d_Value d1 - (?R * c) * 2 ^ 7 < ?R * 2 ^ 7" using b by (simp add: add_mult_distrib)
  have "d_Value d1 = c * (?R * 2 ^ 7) + (d_Value d1 - (?R * c) * 2 ^ 7)" using b(1) by simp
  then have dm: "d_Value d1 div (?R * 2 ^ 7) = c" "d_Value d1 mod (?R * 2 ^ 7) = d_Value d1 - (?R * c) * 2 ^ 7"
    using lt R by (metis div_mult_self3 div_less add.right_neutral less_not_refl3 less_zeroE bot_nat_0.not_eq_extremum,
        metis mod_mult_self3 mod_less)
  have "d_Value d1 < (?R * 2 ^ s) * 2 ^ 7" using b(2) mult_right_mono [OF ep_part [OF c, of ?R], of "2 ^ 7"] by linarith
  then show ?thesis
    using that [OF d1(1,3,4) dm(1)] dec_sub [OF d1(2) b(1)] dm(2) by (simp add: mult_ac)
qed

lemma emits_ep_bin:
  assumes "bin \<le> 1"
  shows "emits_ep R 1 bin (encodeBinEP bin)"
  unfolding emits_ep_def
proof (intro allI impI)
  fix pre e L n N assume e: "enc_at pre 12 e L n \<and> models_ok N e \<and> e_Range e = R"
  have R: "R \<le> 510" using e enc_range by auto
  have low: "e_Low e * 2 ^ 1 < 2 ^ 29" using e by (intro enc_low_small) auto
  let ?e1 = "e\<lparr>e_NumBinsEP := to_u32 (e_NumBinsEP e + 1),
      e_Low := add32 (shl32 (e_Low e) 1) (mul32 (e_Range e) bin), e_bitsLeft := e_bitsLeft e - int 1\<rparr>"
  obtain e' where e': "write_if_full ?e1 = Inr e'" "enc_at pre 12 e' (L * 2 ^ 1 + R * bin) (n + 1)"
    "models_ok N e'" "e_Range e' = R" "e_Ctx e' = e_Ctx e"
    by (rule emits_ep_turn [of pre e L n N 1 bin ?e1]) (use e assms in auto)
  have "encodeBinEP bin e = write_if_full ?e1"
    using assms low R e by (cases bin) (simp_all add: encodeBinEP_def reg32)
  then show "\<exists>e'. encodeBinEP bin e = Inr e' \<and> enc_at pre 12 e' (L * 2 ^ 1 + R * bin) (n + 1) \<and> models_ok N e'
      \<and> e_Range e' = R \<and> e_Ctx e' = e_Ctx e"
    using e' by auto
qed

lemma reads_ep_bin:
  assumes "bin \<le> 1" and "64 \<le> R" and "R \<le> 510"
  shows "reads_ep R 1 bin decodeBinEP bin"
  unfolding reads_ep_def
proof (intro allI impI)
  fix bs d L n
  assume d: "contains bs (L * 2 ^ 1 + R * bin) R (n + 1) \<and> dec_at bs d L n \<and> d_Range d = R"
  have bin: "bin < 2 ^ 1" using assms(1) by simp
  obtain d1 where d1: "refill (d\<lparr>d_Value := d_Value d * 2 ^ 1, d_bitsNeeded := d_bitsNeeded d + int 1\<rparr>) = Inr d1"
    "d_Range d1 = R" "d_Ctx d1 = d_Ctx d" "d_Value d1 div (R * 2 ^ 7) = bin" "d_Value d1 < R * 2 ^ 7 * 2 ^ 1"
    "dec_at bs (d1\<lparr>d_Value := d_Value d1 mod (R * 2 ^ 7)\<rparr>) (L * 2 ^ 1 + R * bin) (n + 1)"
    by (rule reads_ep_turn [of bs L 1 d bin n]) (use d assms bin in auto)
  have V: "d_Value d < 2 ^ 18"
    using dec_value_small(2) [of bs d L n R] ep_contains [OF bin, of bs L R n] d assms(3) by simp
  have V1: "d_Value d1 < 2 ^ 32" using d1(5) assms(3) by simp
  have dec: "decodeBinEP d = (if d_Value d1 \<ge> R * 2 ^ 7
      then Inr (1, d1\<lparr>d_Value := d_Value d1 - R * 2 ^ 7\<rparr>) else Inr (0, d1))"
    using refill_one [OF _ V] need_neg [of bs d L n] d d1(1,2) assms V1
    by (simp add: decodeBinEP_def reg32)
  have "decodeBinEP d = Inr (bin, d1\<lparr>d_Value := d_Value d1 mod (R * 2 ^ 7)\<rparr>)"
  proof (cases "bin = 0")
    case True
    then have "d_Value d1 < R * 2 ^ 7" using d1(4) assms(2) by (simp add: div_eq_0_iff)
    then show ?thesis using dec True by simp
  next
    case False
    then have b: "bin = 1" using assms(1) by simp
    then have "R * 2 ^ 7 \<le> d_Value d1" using d1(4) by (metis div_less less_or_eq_imp_le not_less zero_neq_one)
    moreover have "d_Value d1 mod (R * 2 ^ 7) = d_Value d1 - R * 2 ^ 7"
      using minus_div_mult_eq_mod [of "d_Value d1" "R * 2 ^ 7"] d1(4) b by simp
    ultimately show ?thesis using dec b by simp
  qed
  then show "\<exists>d'. decodeBinEP d = Inr (bin, d') \<and> dec_at bs d' (L * 2 ^ 1 + R * bin) (n + 1)
      \<and> d_Range d' = R \<and> d_Ctx d' = d_Ctx d"
    using d1 by auto
qed

lemma agrees_binEP: "bin \<le> 1 \<Longrightarrow> agrees N (encodeBinEP bin) decodeBinEP bin"
  by (rule ep_agrees [OF _ emits_ep_bin reads_ep_bin]) auto

text \<open>Up to eight bins at once: the decoder's comparisons are a long division by the range.\<close>

lemma bins_loop_div:
  assumes "0 < D" and "D * 2 ^ n < 2 ^ 32" and "V < D * 2 ^ n" and "(b + 1) * 2 ^ n \<le> 2 ^ 32"
  shows "bins_loop n (D * 2 ^ n) b V = (b * 2 ^ n + V div D, V mod D)"
  using assms(2,3,4)
proof (induction n arbitrary: b V)
  case 0
  then show ?case by simp
next
  case (Suc n)
  have half: "drop_bit 1 (D * 2 ^ Suc n) = D * 2 ^ n" by (simp add: drop_bit_Suc)
  have "(b + 1) * 2 \<le> (b + 1) * 2 ^ Suc n" by (intro mult_left_mono) simp_all
  then have b2: "add32 b b = 2 * b" "add32 (2 * b) 1 = 2 * b + 1"
    using Suc.prems(3) by (simp_all add: add32_def to_u32_def)
  have step: "bins_loop (Suc n) (D * 2 ^ Suc n) b V
      = (if V \<ge> D * 2 ^ n then bins_loop n (D * 2 ^ n) (2 * b + 1) (sub32 V (D * 2 ^ n))
         else bins_loop n (D * 2 ^ n) (2 * b) V)"
    by (simp only: bins_loop.simps Let_def half b2)
  show ?case
  proof (cases "V \<ge> D * 2 ^ n")
    case True
    have "V - D * 2 ^ n < D * 2 ^ n" using Suc.prems(2) by simp
    then have "bins_loop n (D * 2 ^ n) (2 * b + 1) (V - D * 2 ^ n)
        = ((2 * b + 1) * 2 ^ n + (V - D * 2 ^ n) div D, (V - D * 2 ^ n) mod D)"
      using Suc.prems by (intro Suc.IH) (simp_all add: algebra_simps)
    moreover have "V = D * 2 ^ n + (V - D * 2 ^ n)" using True by simp
    then have "V div D = 2 ^ n + (V - D * 2 ^ n) div D" "V mod D = (V - D * 2 ^ n) mod D"
      using assms(1) by (metis div_mult_self4 less_not_refl3 add.commute, metis mod_mult_self4)
    moreover have "sub32 V (D * 2 ^ n) = V - D * 2 ^ n"
      using True Suc.prems(1,2) by (intro sub32_eq) simp_all
    ultimately show ?thesis unfolding step using True by (simp add: algebra_simps)
  next
    case False
    then have "bins_loop n (D * 2 ^ n) (2 * b) V = (2 * b * 2 ^ n + V div D, V mod D)"
      using Suc.prems by (intro Suc.IH) (simp_all add: algebra_simps)
    then show ?thesis unfolding step using False by (simp add: algebra_simps)
  qed
qed

lemma to_turn:
  assumes "d_Value d < 2 ^ 18" and "s \<le> 8"
  shows "shl32 (d_Value d) s = d_Value d * 2 ^ s"
proof -
  have "d_Value d * 2 ^ s < 2 ^ 18 * 2 ^ s" using assms(1) by simp
  also have "\<dots> \<le> 2 ^ 18 * 2 ^ 8" using assms(2) by (intro mult_left_mono power_increasing) auto
  finally show ?thesis by (intro shl32_eq) simp
qed

lemma in_step_value:
  "in_step bs d e L n \<Longrightarrow> contains bs L (e_Range e) n \<Longrightarrow> e_Range e \<le> 510 \<Longrightarrow> d_Value d < 2 ^ 18"
  using dec_value_small(2) [of bs d L n "e_Range e"] by (simp add: in_step_def)

lemma range_shift:
  assumes "r \<le> 510" and "s \<le> 8"
  shows "shl32 r (s + 7) = r * 2 ^ 7 * 2 ^ s" and "r * 2 ^ 7 * 2 ^ s < 2 ^ 32"
proof -
  have "r * 2 ^ 7 * 2 ^ s \<le> 510 * 2 ^ 7 * 2 ^ 8" using assms by (intro mult_mono power_increasing) auto
  then show 1: "r * 2 ^ 7 * 2 ^ s < 2 ^ 32" by simp
  have "r * 2 ^ (s + 7) = r * 2 ^ 7 * 2 ^ s" by (simp add: power_add)
  then show "shl32 r (s + 7) = r * 2 ^ 7 * 2 ^ s" using 1 by (simp only: shl32_eq)
qed

lemma value_range: "d\<lparr>d_Value := v, d_Range := r\<rparr> = d\<lparr>d_Range := r, d_Value := v\<rparr>"
  by simp

lemma value_needed: "d\<lparr>d_bitsNeeded := a, d_Value := v\<rparr> = d\<lparr>d_Value := v, d_bitsNeeded := a\<rparr>"
  by simp

lemma need_range: "dec_at bs d L n \<Longrightarrow> - 8 \<le> d_bitsNeeded d \<and> d_bitsNeeded d < 0"
  by (simp add: dec_at_def)

lemma decodeBins_loop_refill:
  assumes "k > 8" and "- 8 \<le> d_bitsNeeded d" and "d_Value d < 2 ^ 18"
  shows "decodeBins_loop k b0 d
    = bindE (refill (d\<lparr>d_Value := d_Value d * 2 ^ 8, d_bitsNeeded := d_bitsNeeded d + int 8\<rparr>)) (\<lambda>d.
        let (bins, Value) = bins_loop 8 (shl32 (d_Range d) 15) b0 (d_Value d)
        in decodeBins_loop (k - 8) bins (d\<lparr>d_Value := Value\<rparr>))"
proof (cases "in_readByte (d_Bitstream d)")
  case (Inl err)
  then show ?thesis
    using assms(1,2) by (subst decodeBins_loop.simps) (simp add: stream_readByte_def refill_def)
next
  case (Inr r)
  then show ?thesis
    using assms by (subst decodeBins_loop.simps)
      (simp add: stream_readByte_def refill_def to_turn add.commute Let_def split: prod.splits)
qed

text \<open>The loops over more than eight bins.\<close>

lemma emits_bins_loop: "bins < 2 ^ k \<Longrightarrow> k \<le> 32 \<Longrightarrow> emits_ep R k bins (encodeBins_loop bins k)"
proof (induction k arbitrary: bins rule: less_induct)
  case (less k)
  show ?case
  proof (cases "k > 8")
    case False
    show ?thesis unfolding emits_ep_def
    proof (intro allI impI)
      fix pre e L n N assume e: "enc_at pre 12 e L n \<and> models_ok N e \<and> e_Range e = R"
      let ?e1 = "e\<lparr>e_NumBinsEP := e_NumBinsEP e, e_Low := add32 (shl32 (e_Low e) k) (mul32 (e_Range e) bins),
          e_bitsLeft := e_bitsLeft e - int k\<rparr>"
      obtain e' where "write_if_full ?e1 = Inr e'" "enc_at pre 12 e' (L * 2 ^ k + R * bins) (n + k)"
        "models_ok N e'" "e_Range e' = R" "e_Ctx e' = e_Ctx e"
        by (rule emits_ep_turn [of pre e L n N k bins ?e1 "e_NumBinsEP e"]) (use e less.prems False in auto)
      then show "\<exists>e'. encodeBins_loop bins k e = Inr e' \<and> enc_at pre 12 e' (L * 2 ^ k + R * bins) (n + k)
          \<and> models_ok N e' \<and> e_Range e' = R \<and> e_Ctx e' = e_Ctx e"
        using False by (simp add: encodeBins_loop.simps)
    qed
  next
    case True
    define j where "j = k - 8"
    have j: "k = 8 + j" "k - 8 = j" using True by (simp_all add: j_def)
    define c where "c = bins div 2 ^ j"
    have c: "c < 2 ^ 8"
      using less.prems(1) j(1) unfolding c_def by (simp add: less_mult_imp_div_less power_add)
    have p: "(2 :: nat) ^ k \<le> 2 ^ 32" using less.prems(2) by (intro power_increasing) auto
    have rest: "sub32 bins (shl32 (drop_bit j bins) j) = bins mod 2 ^ j"
    proof -
      have "bins < 2 ^ 32" using less_le_trans [OF less.prems(1) p] .
      moreover have "c * 2 ^ j \<le> bins" by (simp add: c_def)
      moreover have "bins - c * 2 ^ j = bins mod 2 ^ j" by (simp add: c_def minus_div_mult_eq_mod)
      ultimately show ?thesis by (simp add: drop_bit_eq_div reg32 flip: c_def)
    qed
    define w where "w e = write_if_full (e\<lparr>e_Low := add32 (shl32 (e_Low e) 8) (mul32 (e_Range e) c),
        e_bitsLeft := e_bitsLeft e - 8\<rparr>)" for e :: BinEncoder
    have "emits_ep R 8 c w" unfolding emits_ep_def
    proof (intro allI impI)
      fix pre e L n N assume e: "enc_at pre 12 e L n \<and> models_ok N e \<and> e_Range e = R"
      let ?e1 = "e\<lparr>e_NumBinsEP := e_NumBinsEP e, e_Low := add32 (shl32 (e_Low e) 8) (mul32 (e_Range e) c),
          e_bitsLeft := e_bitsLeft e - int 8\<rparr>"
      obtain e' where "write_if_full ?e1 = Inr e'" "enc_at pre 12 e' (L * 2 ^ 8 + R * c) (n + 8)"
        "models_ok N e'" "e_Range e' = R" "e_Ctx e' = e_Ctx e"
        by (rule emits_ep_turn [of pre e L n N 8 c ?e1 "e_NumBinsEP e"]) (use e c in auto)
      then show "\<exists>e'. w e = Inr e' \<and> enc_at pre 12 e' (L * 2 ^ 8 + R * c) (n + 8)
          \<and> models_ok N e' \<and> e_Range e' = R \<and> e_Ctx e' = e_Ctx e"
        by (simp add: w_def)
    qed
    moreover have "emits_ep R j (bins mod 2 ^ j) (encodeBins_loop (bins mod 2 ^ j) j)"
      using less.prems j by (intro less.IH) auto
    ultimately have "emits_ep R (8 + j) (c * 2 ^ j + bins mod 2 ^ j) (thenW w (encodeBins_loop (bins mod 2 ^ j) j))"
      by (rule emits_ep_then)
    moreover have "c * 2 ^ j + bins mod 2 ^ j = bins" by (simp only: c_def div_mult_mod_eq)
    moreover have "encodeBins_loop bins k e = thenW w (encodeBins_loop (bins mod 2 ^ j) j) e" for e
      using True j rest
      by (subst encodeBins_loop.simps) (simp add: thenW_def w_def drop_bit_eq_div flip: c_def)
    then have "encodeBins_loop bins k = thenW w (encodeBins_loop (bins mod 2 ^ j) j)" by (rule ext)
    ultimately show ?thesis by (simp only: j(1))
  qed
qed

text \<open>\<open>b0\<close> are the bins decoded before.\<close>

lemma reads_bins_loop:
  assumes "64 \<le> R" and "R \<le> 510"
  shows "bins < 2 ^ k \<Longrightarrow> (b0 + 1) * 2 ^ k \<le> 2 ^ 32 \<Longrightarrow>
    reads_ep R k bins (decodeBins_loop k b0) (b0 * 2 ^ k + bins)"
proof (induction k arbitrary: bins b0 rule: less_induct)
  case (less k)
  show ?case
  proof (cases "k > 8")
    case False
    show ?thesis unfolding reads_ep_def
    proof (intro allI impI)
      fix bs d L n
      assume d: "contains bs (L * 2 ^ k + R * bins) R (n + k) \<and> dec_at bs d L n \<and> d_Range d = R"
      obtain d' where d': "refill (d\<lparr>d_Value := d_Value d * 2 ^ k, d_bitsNeeded := d_bitsNeeded d + int k\<rparr>) = Inr d'"
        "d_Range d' = R" "d_Ctx d' = d_Ctx d" "d_Value d' div (R * 2 ^ 7) = bins" "d_Value d' < R * 2 ^ 7 * 2 ^ k"
        "dec_at bs (d'\<lparr>d_Value := d_Value d' mod (R * 2 ^ 7)\<rparr>) (L * 2 ^ k + R * bins) (n + k)"
        by (rule reads_ep_turn [of bs L k d bins n]) (use d assms False less.prems in auto)
      have "d_Value d < 2 ^ 18"
        using dec_value_small(2) [of bs d L n R] ep_contains [OF less.prems(1), of bs L R n] d assms(2) by simp
      then have V: "shl32 (d_Value d) k = d_Value d * 2 ^ k" using False by (intro to_turn) auto
      have "bins_loop k (R * 2 ^ 7 * 2 ^ k) b0 (d_Value d')
          = (b0 * 2 ^ k + d_Value d' div (R * 2 ^ 7), d_Value d' mod (R * 2 ^ 7))"
        using assms range_shift(2) [OF assms(2), of k] d'(5) False less.prems(2) by (intro bins_loop_div) auto
      then have "decodeBins_loop k b0 d = Inr (b0 * 2 ^ k + bins, d'\<lparr>d_Value := d_Value d' mod (R * 2 ^ 7)\<rparr>)"
        using False d'(1,2,4) V range_shift(1) [OF assms(2), of k]
        by (simp add: decodeBins_loop.simps value_needed)
      then show "\<exists>d'. decodeBins_loop k b0 d = Inr (b0 * 2 ^ k + bins, d')
          \<and> dec_at bs d' (L * 2 ^ k + R * bins) (n + k) \<and> d_Range d' = R \<and> d_Ctx d' = d_Ctx d"
        using d'(2,3,6) by auto
    qed
  next
    case True
    define j where "j = k - 8"
    have j: "k = 8 + j" "k - 8 = j" using True by (simp_all add: j_def)
    define c where "c = bins div 2 ^ j"
    have c: "c < 2 ^ 8"
      using less.prems(1) j(1) unfolding c_def by (simp add: less_mult_imp_div_less power_add)
    have bins: "c * 2 ^ j + bins mod 2 ^ j = bins" by (simp only: c_def div_mult_mod_eq)
    have next0: "(b0 * 2 ^ 8 + c + 1) * 2 ^ j \<le> 2 ^ 32"
    proof -
      have "b0 * 2 ^ 8 + c + 1 \<le> (b0 + 1) * 2 ^ 8" using c by simp
      then have "(b0 * 2 ^ 8 + c + 1) * 2 ^ j \<le> (b0 + 1) * 2 ^ 8 * 2 ^ j" by (rule mult_right_mono) simp
      also have "\<dots> = (b0 + 1) * 2 ^ k" using j(1) by (simp add: power_add algebra_simps)
      finally show ?thesis using less.prems(2) by (rule le_trans)
    qed
    have b8: "(b0 + 1) * 2 ^ 8 \<le> 2 ^ 32"
    proof -
      have "(2 :: nat) ^ 8 \<le> 2 ^ k" using True by (intro power_increasing) auto
      then have "(b0 + 1) * 2 ^ 8 \<le> (b0 + 1) * 2 ^ k" by (rule mult_left_mono) simp
      then show ?thesis using less.prems(2) by (rule le_trans)
    qed
    define p where "p d = bindE (refill (d\<lparr>d_Value := d_Value d * 2 ^ 8, d_bitsNeeded := d_bitsNeeded d + int 8\<rparr>))
        (\<lambda>d. let (bins, Value) = bins_loop 8 (shl32 (d_Range d) 15) b0 (d_Value d) in Inr (bins, d\<lparr>d_Value := Value\<rparr>))"
      for d :: BinDecoder
    have "reads_ep R 8 c p (b0 * 2 ^ 8 + c)" unfolding reads_ep_def
    proof (intro allI impI)
      fix bs d L n
      assume d: "contains bs (L * 2 ^ 8 + R * c) R (n + 8) \<and> dec_at bs d L n \<and> d_Range d = R"
      obtain d' where d': "refill (d\<lparr>d_Value := d_Value d * 2 ^ 8, d_bitsNeeded := d_bitsNeeded d + int 8\<rparr>) = Inr d'"
        "d_Range d' = R" "d_Ctx d' = d_Ctx d" "d_Value d' div (R * 2 ^ 7) = c" "d_Value d' < R * 2 ^ 7 * 2 ^ 8"
        "dec_at bs (d'\<lparr>d_Value := d_Value d' mod (R * 2 ^ 7)\<rparr>) (L * 2 ^ 8 + R * c) (n + 8)"
        by (rule reads_ep_turn [of bs L 8 d c n]) (use d assms c in auto)
      have "bins_loop 8 (R * 2 ^ 7 * 2 ^ 8) b0 (d_Value d') = (b0 * 2 ^ 8 + c, d_Value d' mod (R * 2 ^ 7))"
        using assms range_shift(2) [OF assms(2), of 8] d'(4,5) b8 bins_loop_div [of "R * 2 ^ 7" 8 "d_Value d'" b0]
        by simp
      then have "p d = Inr (b0 * 2 ^ 8 + c, d'\<lparr>d_Value := d_Value d' mod (R * 2 ^ 7)\<rparr>)"
        using d'(1,2) range_shift(1) [OF assms(2), of 8] by (simp add: p_def)
      then show "\<exists>d'. p d = Inr (b0 * 2 ^ 8 + c, d') \<and> dec_at bs d' (L * 2 ^ 8 + R * c) (n + 8)
          \<and> d_Range d' = R \<and> d_Ctx d' = d_Ctx d"
        using d'(2,3,6) by auto
    qed
    moreover have "reads_ep R j (bins mod 2 ^ j) (decodeBins_loop j (b0 * 2 ^ 8 + c))
        ((b0 * 2 ^ 8 + c) * 2 ^ j + bins mod 2 ^ j)"
      using next0 j by (intro less.IH) auto
    ultimately have split: "reads_ep R (8 + j) (c * 2 ^ j + bins mod 2 ^ j)
        (bindP p (decodeBins_loop j)) ((b0 * 2 ^ 8 + c) * 2 ^ j + bins mod 2 ^ j)"
      by (rule reads_ep_bind) simp
    have val: "(b0 * 2 ^ 8 + c) * 2 ^ j + bins mod 2 ^ j = b0 * 2 ^ k + bins"
      using bins j(1) by (simp add: power_add algebra_simps)
    have eq: "decodeBins_loop k b0 d = bindP p (decodeBins_loop j) d"
      if "dec_at bs d L n" "d_Value d < 2 ^ 18" for bs d L n
      using decodeBins_loop_refill [OF True _ that(2), of b0] need_range [OF that(1)] j(2)
      by (simp add: bindP_def p_def bindE_assoc split_def Let_def)
    show ?thesis unfolding reads_ep_def
    proof (intro allI impI)
      fix bs d L n
      assume d: "contains bs (L * 2 ^ k + R * bins) R (n + k) \<and> dec_at bs d L n \<and> d_Range d = R"
      have V: "d_Value d < 2 ^ 18"
        using dec_value_small(2) [of bs d L n R] ep_contains [OF less.prems(1), of bs L R n] d assms(2) by simp
      show "\<exists>d'. decodeBins_loop k b0 d = Inr (b0 * 2 ^ k + bins, d')
          \<and> dec_at bs d' (L * 2 ^ k + R * bins) (n + k) \<and> d_Range d' = R \<and> d_Ctx d' = d_Ctx d"
        using split [unfolded reads_ep_def, rule_format, of bs L n d] d eq [of bs d L n] V
        unfolding bins val j(1) [symmetric] by simp
    qed
  qed
qed

text \<open>The loop for a range of 256 masks the value instead of dividing it.\<close>

lemma or_add:
  assumes "2 ^ p dvd x" and "y < 2 ^ p"
  shows "x OR y = x + (y::nat)"
proof -
  obtain m where m: "x = push_bit p m" using assms(1) by (auto simp: push_bit_eq_mult dvd_def mult.commute)
  have y: "take_bit p y = y" using assms(2) by (simp add: take_bit_nat_eq_self)
  have "x AND y = 0"
    by (rule bit_eqI) (simp add: m bit_and_iff bit_push_bit_iff, metis y bit_take_bit_iff not_le)
  then show ?thesis by (simp add: disjunctive_add_eq_or)
qed

lemma and_mask_mod: "(x :: nat) AND (2 ^ s - 1) = x mod 2 ^ s"
  using take_bit_eq_mask [of s x] by (simp only: mask_eq_exp_minus_1 take_bit_eq_mod)

definition aligned_refill :: "nat \<Rightarrow> BinDecoder \<Rightarrow> BinDecoder result" where
  "aligned_refill s d =
     (let d = d\<lparr>d_Value := shl32 (d_Value d) s AND 0x7FFF, d_bitsNeeded := d_bitsNeeded d + int s\<rparr>
      in if d_bitsNeeded d \<ge> 0
         then bindE (stream_readByte d) (\<lambda>(b, d).
              Inr (d\<lparr>d_Value := d_Value d OR shl32 b (nat (d_bitsNeeded d)), d_bitsNeeded := d_bitsNeeded d - 8\<rparr>))
         else Inr d)"

lemma aligned_refill_ok:
  assumes at: "dec_at bs d L n" and s: "s \<le> 8" and V: "d_Value d < 2 ^ 15"
    and r: "refill (d\<lparr>d_Value := d_Value d * 2 ^ s, d_bitsNeeded := d_bitsNeeded d + int s\<rparr>) = Inr d'"
  shows "aligned_refill s d = Inr (d'\<lparr>d_Value := d_Value d' mod 2 ^ 15\<rparr>)"
    and "d_Value d' div 2 ^ 15 = drop_bit (15 - s) (d_Value d)"
proof -
  let ?j = "n mod 8"
  have j: "?j + s \<le> 15" using s mod_less_divisor [of 8 n] by linarith
  have need: "d_bitsNeeded d = int ?j - 8"
    and val: "d_Value d + L * 2 ^ 7 = be_nat (take (2 + n div 8) bs) * 2 ^ ?j"
    using at unfolding dec_at_def by blast+
  have "(2 :: nat) ^ ?j dvd L * 2 ^ 7" by (intro dvd_mult le_imp_power_dvd) simp
  then have "2 ^ ?j dvd d_Value d"
    using dvd_triv_right [of "2 ^ ?j" "be_nat (take (2 + n div 8) bs)"] val
    by (metis dvd_add_left_iff)
  then have dvd: "2 ^ (?j + s) dvd d_Value d * 2 ^ s" by (simp add: power_add mult_dvd_mono)
  have sh: "shl32 (d_Value d) s = d_Value d * 2 ^ s" using V s by (intro to_turn) auto
  have top: "d_Value d * 2 ^ s div 2 ^ 15 = drop_bit (15 - s) (d_Value d)"
  proof -
    have e: "(2 :: nat) ^ 15 = 2 ^ (15 - s) * 2 ^ s" using s by (simp flip: power_add)
    show ?thesis unfolding e drop_bit_eq_div by (rule div_mult_mult2) simp
  qed
  have "aligned_refill s d = Inr (d'\<lparr>d_Value := d_Value d' mod 2 ^ 15\<rparr>)
      \<and> d_Value d' div 2 ^ 15 = drop_bit (15 - s) (d_Value d)"
  proof (cases "d_bitsNeeded d + int s \<ge> 0")
    case False
    then show ?thesis using r top
      by (auto simp: aligned_refill_def refill_def Let_def sh and_mask_15)
  next
    case True
    define k where "k = nat (d_bitsNeeded d + int s)"
    have k: "?j + s = k + 8" using True need by (simp add: k_def)
    obtain b t where b: "in_readByte (d_Bitstream d) = Inr (b, t)"
      and d': "d' = d\<lparr>d_Value := add32 (d_Value d * 2 ^ s) (shl32 (unat b) k),
        d_bitsNeeded := d_bitsNeeded d + int s - 8, d_Bitstream := t\<rparr>"
      using r True by (auto simp: refill_def stream_readByte_def bindE_Inr_iff k_def)
    have bb: "unat b < 2 ^ 8" using b by (auto simp: in_readByte_def checkE_Inr_iff unat_u8_lt)
    then have "unat b * 2 ^ k < 2 ^ 8 * 2 ^ k" by simp
    then have y: "unat b * 2 ^ k < 2 ^ (?j + s)" by (simp add: k power_add)
    also have "\<dots> \<le> 2 ^ 15" using j by (intro power_increasing) auto
    finally have y15: "unat b * 2 ^ k < 2 ^ 15" .
    have b2: "shl32 (unat b) k = unat b * 2 ^ k" using y15 by (intro shl32_eq) simp
    have "d_Value d * 2 ^ s < 2 ^ 15 * 2 ^ s" using V by simp
    also have "\<dots> \<le> 2 ^ 15 * 2 ^ 8" using s by (intro mult_left_mono power_increasing) auto
    finally have V': "d_Value d' = d_Value d * 2 ^ s + unat b * 2 ^ k"
      using y15 by (simp add: d' b2 add32_eq)
    define M where "M = d_Value d * 2 ^ s mod 2 ^ 15"
    have M: "2 ^ (?j + s) dvd M"
      unfolding M_def using dvd j by (intro dvd_mod le_imp_power_dvd) auto
    have Ms: "M + unat b * 2 ^ k < 2 ^ 15"
    proof -
      obtain q where q: "M = q * 2 ^ (?j + s)" using M by (auto simp: dvd_def mult.commute)
      have e: "(2 :: nat) ^ 15 = 2 ^ (15 - (?j + s)) * 2 ^ (?j + s)" using j by (simp flip: power_add)
      have "M < 2 ^ 15" by (simp add: M_def)
      then have "q < 2 ^ (15 - (?j + s))" unfolding q e by simp
      then have "(q + 1) * 2 ^ (?j + s) \<le> 2 ^ (15 - (?j + s)) * 2 ^ (?j + s)"
        by (intro mult_right_mono) auto
      then show ?thesis using y unfolding q e by simp
    qed
    have split: "d_Value d' = (d_Value d * 2 ^ s div 2 ^ 15) * 2 ^ 15 + (M + unat b * 2 ^ k)"
      using div_mult_mod_eq [of "d_Value d * 2 ^ s" "2 ^ 15"] by (simp only: V' M_def)
    have "d_Value d' div 2 ^ 15 = d_Value d * 2 ^ s div 2 ^ 15" "d_Value d' mod 2 ^ 15 = M + unat b * 2 ^ k"
      using Ms unfolding split by simp_all
    moreover have "aligned_refill s d = Inr (d'\<lparr>d_Value := M + unat b * 2 ^ k\<rparr>)"
      using True b or_add [OF M y] b2
      by (simp add: aligned_refill_def Let_def sh and_mask_15 stream_readByte_def d' M_def flip: k_def)
    ultimately show ?thesis using top by simp
  qed
  then show "aligned_refill s d = Inr (d'\<lparr>d_Value := d_Value d' mod 2 ^ 15\<rparr>)"
    and "d_Value d' div 2 ^ 15 = drop_bit (15 - s) (d_Value d)" by simp_all
qed

lemma decodeAligned_loop_refill:
  "0 < k \<Longrightarrow> decodeAligned_loop k b0 d = bindE (aligned_refill (min k 8) d) (\<lambda>d'.
     decodeAligned_loop (k - min k 8)
       (shl32 b0 (min k 8) OR (drop_bit (15 - min k 8) (d_Value d) AND 2 ^ min k 8 - 1)) d')"
  by (subst decodeAligned_loop.simps) (simp add: aligned_refill_def Let_def)

lemma emits_aligned_loop:
  "bins < 2 ^ 32 \<Longrightarrow> emits_ep 256 k (bins mod 2 ^ k) (encodeAligned_loop bins k)"
proof (induction k rule: less_induct)
  case (less k)
  show ?case
  proof (cases "k = 0")
    case True
    have "encodeAligned_loop bins 0 = skipW" by (rule ext) (simp add: encodeAligned_loop.simps skipW_def)
    then show ?thesis using emits_ep_skip True by simp
  next
    case False
    define s where "s = min k 8"
    have s: "s \<le> 8" "s \<le> k" "0 < s" using False by (simp_all add: s_def)
    define j where "j = k - s"
    have j: "k = s + j" "j < k" using s by (auto simp: j_def)
    define c where "c = drop_bit j bins AND 2 ^ s - 1"
    have c_eq: "c = bins div 2 ^ j mod 2 ^ s" by (simp only: c_def drop_bit_eq_div and_mask_mod)
    then have c: "c < 2 ^ s" by simp
    have "c < 2 ^ 8" using c power_increasing [of s 8 "2 :: nat"] s(1) by simp
    then have c256: "shl32 c 8 = mul32 256 c" by (simp add: reg32 mult.commute)
    define w where "w e = write_if_full (e\<lparr>e_Low := add32 (shl32 (e_Low e) s) (shl32 c 8),
        e_bitsLeft := e_bitsLeft e - int s\<rparr>)" for e :: BinEncoder
    have "emits_ep 256 s c w" unfolding emits_ep_def
    proof (intro allI impI)
      fix pre e L n N assume e: "enc_at pre 12 e L n \<and> models_ok N e \<and> e_Range e = 256"
      let ?e1 = "e\<lparr>e_NumBinsEP := e_NumBinsEP e, e_Low := add32 (shl32 (e_Low e) s) (mul32 (e_Range e) c),
          e_bitsLeft := e_bitsLeft e - int s\<rparr>"
      obtain e' where "write_if_full ?e1 = Inr e'" "enc_at pre 12 e' (L * 2 ^ s + 256 * c) (n + s)"
        "models_ok N e'" "e_Range e' = 256" "e_Ctx e' = e_Ctx e"
        by (rule emits_ep_turn [of pre e L n N s c ?e1 "e_NumBinsEP e"]) (use e s c in auto)
      then show "\<exists>e'. w e = Inr e' \<and> enc_at pre 12 e' (L * 2 ^ s + 256 * c) (n + s)
          \<and> models_ok N e' \<and> e_Range e' = 256 \<and> e_Ctx e' = e_Ctx e"
        using e c256 by (simp add: w_def)
    qed
    moreover have "emits_ep 256 j (bins mod 2 ^ j) (encodeAligned_loop bins j)"
      using less.prems j(2) by (intro less.IH)
    ultimately have "emits_ep 256 (s + j) (c * 2 ^ j + bins mod 2 ^ j) (thenW w (encodeAligned_loop bins j))"
      by (rule emits_ep_then)
    moreover have "c * 2 ^ j + bins mod 2 ^ j = bins mod 2 ^ k"
      using mod_mult2_eq [of bins "2 ^ j" "2 ^ s"] unfolding j(1) c_eq by (simp add: power_add algebra_simps)
    moreover have "encodeAligned_loop bins k e = thenW w (encodeAligned_loop bins j) e" for e
      using False by (subst encodeAligned_loop.simps)
        (simp add: Let_def thenW_def w_def del: One_nat_def flip: s_def j_def c_def)
    then have "encodeAligned_loop bins k = thenW w (encodeAligned_loop bins j)" by (rule ext)
    ultimately show ?thesis by (simp only: j(1))
  qed
qed

lemma reads_aligned_loop:
  "k \<le> 32 \<Longrightarrow> b0 * 2 ^ k + v < 2 ^ 32 \<Longrightarrow> v < 2 ^ k \<Longrightarrow>
     reads_ep 256 k v (decodeAligned_loop k b0) (b0 * 2 ^ k + v)"
proof (induction k arbitrary: b0 v rule: less_induct)
  case (less k)
  show ?case
  proof (cases "k = 0")
    case True
    then show ?thesis using less.prems(3) by (simp add: reads_ep_def decodeAligned_loop.simps)
  next
    case False
    define s where "s = min k 8"
    have s: "s \<le> 8" "s \<le> k" "0 < s" using False by (simp_all add: s_def)
    define j where "j = k - s"
    have j: "k = s + j" "j < k" using s by (auto simp: j_def)
    define c where "c = v div 2 ^ j"
    have c: "c < 2 ^ s" using less.prems(3) j(1) unfolding c_def by (simp add: less_mult_imp_div_less power_add)
    have v: "c * 2 ^ j + v mod 2 ^ j = v" by (simp only: c_def div_mult_mod_eq)
    have val: "(b0 * 2 ^ s + c) * 2 ^ j + v mod 2 ^ j = b0 * 2 ^ k + v"
      using v j(1) by (simp add: power_add algebra_simps)
    define p where "p d = bindE (aligned_refill s d) (\<lambda>d'.
        Inr (shl32 b0 s OR (drop_bit (15 - s) (d_Value d) AND 2 ^ s - 1), d'))" for d
    have bit: "shl32 b0 s OR (c AND 2 ^ s - 1) = b0 * 2 ^ s + c"
    proof -
      have "c AND 2 ^ s - 1 = c" using c by (simp only: and_mask_mod mod_less)
      moreover have "b0 * 2 ^ s \<le> b0 * 2 ^ k" using s(2) by (intro mult_left_mono power_increasing) auto
      then have "b0 * 2 ^ s < 2 ^ 32" using less.prems(2) by linarith
      ultimately show ?thesis using c or_add [of s "b0 * 2 ^ s" c] by (simp add: shl32_eq)
    qed
    have "reads_ep 256 s c p (b0 * 2 ^ s + c)" unfolding reads_ep_def
    proof (intro allI impI)
      fix bs d L n
      assume d: "contains bs (L * 2 ^ s + 256 * c) 256 (n + s) \<and> dec_at bs d L n \<and> d_Range d = 256"
      have V: "d_Value d < 2 ^ 15"
        using dec_value_small(1) [of bs d L n 256] ep_contains [OF c, of bs L 256 n] d by simp
      obtain d' where d': "refill (d\<lparr>d_Value := d_Value d * 2 ^ s, d_bitsNeeded := d_bitsNeeded d + int s\<rparr>) = Inr d'"
        "d_Range d' = 256" "d_Ctx d' = d_Ctx d" "d_Value d' div 2 ^ 15 = c"
        "dec_at bs (d'\<lparr>d_Value := d_Value d' mod 2 ^ 15\<rparr>) (L * 2 ^ s + 256 * c) (n + s)"
        by (rule reads_ep_turn [of bs L s d c n]) (use d s c in auto)
      have a: "aligned_refill s d = Inr (d'\<lparr>d_Value := d_Value d' mod 2 ^ 15\<rparr>)"
        "drop_bit (15 - s) (d_Value d) = c"
        using aligned_refill_ok [of bs d L n s d'] d V d' s(1) by auto
      then have "p d = Inr (b0 * 2 ^ s + c, d'\<lparr>d_Value := d_Value d' mod 2 ^ 15\<rparr>)"
        using bit by (simp add: p_def a del: One_nat_def)
      then show "\<exists>d'. p d = Inr (b0 * 2 ^ s + c, d') \<and> dec_at bs d' (L * 2 ^ s + 256 * c) (n + s)
          \<and> d_Range d' = 256 \<and> d_Ctx d' = d_Ctx d"
        using d' by auto
    qed
    moreover have "reads_ep 256 j (v mod 2 ^ j) (decodeAligned_loop j (b0 * 2 ^ s + c))
        ((b0 * 2 ^ s + c) * 2 ^ j + v mod 2 ^ j)"
      by (rule less.IH [OF j(2)]) (use less.prems(1,2) j(2) in \<open>simp_all only: val\<close>, simp_all)
    ultimately have "reads_ep 256 (s + j) (c * 2 ^ j + v mod 2 ^ j)
        (bindP p (decodeAligned_loop j)) ((b0 * 2 ^ s + c) * 2 ^ j + v mod 2 ^ j)"
      by (rule reads_ep_bind) simp
    moreover have "decodeAligned_loop k b0 d = bindP p (decodeAligned_loop j) d" for d
      using False by (simp add: decodeAligned_loop_refill bindP_def p_def bindE_assoc del: One_nat_def
          flip: s_def j_def)
    then have "decodeAligned_loop k b0 = bindP p (decodeAligned_loop j)" by (rule ext)
    ultimately show ?thesis unfolding v val by (simp only: j(1))
  qed
qed

lemma emits_ep_bins:
  assumes "k \<le> 32" and "bins < 2 ^ k"
  shows "emits_ep R k bins (encodeBinsEP bins k)"
  unfolding emits_ep_def
proof (intro allI impI)
  fix pre e L n N assume e: "enc_at pre 12 e L n \<and> models_ok N e \<and> e_Range e = R"
  let ?e = "e\<lparr>e_NumBinsEP := to_u32 (e_NumBinsEP e + k)\<rparr>"
  have at: "enc_at pre 12 ?e L n" "models_ok N ?e" "e_Range ?e = R" "e_Ctx ?e = e_Ctx e"
    using e by (auto simp: enc_at_def models_ok_def)
  have "(2 :: nat) ^ k \<le> 2 ^ 32" using assms(1) by (intro power_increasing) auto
  then have b32: "bins < 2 ^ 32" using assms(2) by (rule less_le_trans [rotated])
  show "\<exists>e'. encodeBinsEP bins k e = Inr e' \<and> enc_at pre 12 e' (L * 2 ^ k + R * bins) (n + k) \<and> models_ok N e'
      \<and> e_Range e' = R \<and> e_Ctx e' = e_Ctx e"
  proof (cases "R = 256")
    case True
    have "emits_ep 256 k bins (encodeAligned_loop bins k)"
      using emits_aligned_loop [OF b32, of k] assms(2) by simp
    from emits_epE [OF this at(1,2)] show ?thesis
      using True e at(3,4) by (simp add: encodeBinsEP_def encodeAlignedBinsEP_def) metis
  next
    case False
    from emits_epE [OF emits_bins_loop [OF assms(2,1)] at(1,2,3)] show ?thesis
      using False e at(4) by (simp add: encodeBinsEP_def) metis
  qed
qed

lemma reads_ep_bins:
  assumes "k \<le> 32" and "bins < 2 ^ k" and "64 \<le> R" and "R \<le> 510"
  shows "reads_ep R k bins (decodeBinsEP k) bins"
  unfolding reads_ep_def
proof (intro allI impI)
  fix bs d L n
  assume d: "contains bs (L * 2 ^ k + R * bins) R (n + k) \<and> dec_at bs d L n \<and> d_Range d = R"
  have p: "(2 :: nat) ^ k \<le> 2 ^ 32" using assms(1) by (intro power_increasing) auto
  then have b32: "bins < 2 ^ 32" using assms(2) by (rule less_le_trans [rotated])
  show "\<exists>d'. decodeBinsEP k d = Inr (bins, d') \<and> dec_at bs d' (L * 2 ^ k + R * bins) (n + k)
      \<and> d_Range d' = R \<and> d_Ctx d' = d_Ctx d"
  proof (cases "R = 256")
    case True
    then show ?thesis
      using reads_aligned_loop [OF assms(1), of 0 bins] assms(2) b32 d
      by (auto simp: reads_ep_def decodeBinsEP_def decodeAlignedBinsEP_def)
  next
    case False
    then show ?thesis
      using reads_bins_loop [OF assms(3,4,2), of 0] p d by (auto simp: reads_ep_def decodeBinsEP_def)
  qed
qed

lemma agrees_binsEP: "k \<le> 32 \<Longrightarrow> bins < 2 ^ k \<Longrightarrow> agrees N (encodeBinsEP bins k) (decodeBinsEP k) bins"
  by (rule ep_agrees [OF _ emits_ep_bins reads_ep_bins])

lemma refill_idle: "d_bitsNeeded d < 0 \<Longrightarrow> refill d = Inr d"
  by (simp add: refill_def)

section \<open>Terminating bins and context-coded bins\<close>

lemma agrees_trm_0: "agrees N (encodeBinTrm 0) decodeBinTrm 0"
proof (rule agreesI)
  fix pre e L n assume at: "enc_at pre 12 e L n" and m: "models_ok N e"
  define r where "r = e_Range e - 2"
  have R: "e_Range e = r + 2" "62 \<le> r" "r \<le> 508" using enc_range [OF at] by (auto simp: r_def)
  have sub: "sub32 (e_Range e) 2 = r" using R by (simp add: reg32)
  let ?e = "e\<lparr>e_NumBinsTrm := to_u32 (e_NumBinsTrm e + 1), e_Range := r\<rparr>"
  have narrow: "contains bs L (e_Range e) n" if "contains bs L r n" for bs
    using contains_narrow [of bs L 0 0 r n "e_Range e"] that R by simp
  have dec: "decodeBinTrm d = (if r < 256
      then bindE (refill (d\<lparr>d_Range := 2 * r, d_Value := d_Value d * 2 ^ 1, d_bitsNeeded := d_bitsNeeded d + int 1\<rparr>))
             (\<lambda>d. Inr (0, d))
      else Inr (0, d\<lparr>d_Range := r\<rparr>))" and V: "d_Value d < 2 ^ 18" "d_Value d < r * 2 ^ 7"
    if c: "contains bs L r n" and st: "in_step bs d e L n" for bs d
  proof -
    show V: "d_Value d < 2 ^ 18" "d_Value d < r * 2 ^ 7"
      using dec_value_small [of bs d L n r] st c R by (auto simp: in_step_def)
    have neg: "d_bitsNeeded d < 0" using st need_neg by (auto simp: in_step_def)
    have r: "sub32 (d_Range d) 2 = r" "shl32 r 7 = r * 2 ^ 7" "add32 r r = 2 * r"
      using st sub R by (auto simp: in_step_def reg32)
    have zero: "d_bitsNeeded d + 1 = 0 \<longleftrightarrow> d_bitsNeeded d + 1 \<ge> 0" using neg by auto
    show "decodeBinTrm d = (if r < 256
      then bindE (refill (d\<lparr>d_Range := 2 * r, d_Value := d_Value d * 2 ^ 1, d_bitsNeeded := d_bitsNeeded d + int 1\<rparr>))
             (\<lambda>d. Inr (0, d))
      else Inr (0, d\<lparr>d_Range := r\<rparr>))"
      using refill_one [of "d\<lparr>d_Range := 2 * r\<rparr>"] neg V r zero
      by (cases "d_bitsNeeded d + 1 \<ge> 0") (simp_all add: decodeBinTrm_def Let_def not_le)
  qed
  show "\<exists>e' L' n'. encodeBinTrm 0 e = Inr e' \<and> enc_at pre 12 e' L' n' \<and> models_ok N e'
       \<and> (\<forall>bs. contains bs L' (e_Range e') n' \<longrightarrow> contains bs L (e_Range e) n
            \<and> (\<forall>d. in_step bs d e L n \<longrightarrow> (\<exists>d'. decodeBinTrm d = Inr (0, d') \<and> in_step bs d' e' L' n')))"
  proof (cases "r < 256")
    case False
    have "enc_at pre 12 ?e L n" using at R False unfolding enc_at_def by auto
    moreover have "models_ok N ?e" using m by (simp add: models_ok_def)
    moreover have "encodeBinTrm 0 e = Inr ?e" using False sub by (simp add: encodeBinTrm_def)
    moreover have "in_step bs (d\<lparr>d_Range := r\<rparr>) ?e L n" if "in_step bs d e L n" for bs d
      using that by (auto simp: in_step_def dec_at_def)
    ultimately show ?thesis
      using narrow dec(1) False by (intro exI [of _ ?e] exI [of _ L] exI [of _ n]) simp
  next
    case True
    let ?e1 = "?e\<lparr>e_Low := e_Low e * 2 ^ 1 + 0, e_Range := 2 * r, e_bitsLeft := e_bitsLeft e - int 1\<rparr>"
    obtain e' where e': "write_if_full ?e1 = Inr e'" "enc_at pre 12 e' (L * 2 ^ 1 + 0) (n + 1)"
      "models_ok N e'" "e_Range e' = 2 * r" "e_Ctx e' = e_Ctx e"
      by (rule enc_narrow [OF at, of 1 0 "2 * r" N ?e1]) (use R True m in auto)
    have "e_Low e * 2 ^ 1 < 2 ^ 29" by (rule enc_low_small [OF at]) simp
    then have "encodeBinTrm 0 e = Inr e'"
      using True sub e'(1) R by (simp add: encodeBinTrm_def reg32 mult.commute)
    moreover have "contains bs L r n" if "contains bs (L * 2 ^ 1) (e_Range e') (n + 1)" for bs
      using contains_narrow [of bs L 1 0 "2 * r" n r] that e'(4) by simp
    moreover have "\<exists>d'. decodeBinTrm d = Inr (0, d') \<and> in_step bs d' e' (L * 2 ^ 1) (n + 1)"
      if c: "contains bs (L * 2 ^ 1) (e_Range e') (n + 1)" and cr: "contains bs L r n"
        and st: "in_step bs d e L n" for bs d
    proof -
      let ?d = "d\<lparr>d_Range := 2 * r, d_Value := d_Value d * 2 ^ 1, d_bitsNeeded := d_bitsNeeded d + int 1\<rparr>"
      obtain d1 where "refill ?d = Inr d1"
        "dec_at bs d1 (L * 2 ^ 1) (n + 1)" "d_Range d1 = 2 * r" "d_Ctx d1 = d_Ctx d"
        using dec_shift [of bs d L n 1 ?d "2 * r"] V(1) [OF cr st] st c
        by (auto simp: in_step_def contains_def)
      then show ?thesis using dec(1) [OF cr st] True st e' by (auto simp: in_step_def)
    qed
    ultimately show ?thesis
      using narrow e' by (intro exI [of _ e'] exI [of _ "L * 2 ^ 1"] exI [of _ "n + 1"]) simp
  qed
qed

text \<open>
  Either symbol takes a part of the range that starts \<open>x\<close> above its low end and has length \<open>w\<close>; both
  sides are then shifted by \<open>s\<close> bits.
\<close>

lemma agrees_part:
  assumes at: "enc_at pre 12 e L n" and m: "models_ok N e" and s: "s \<le> 8" and part: "x + w \<le> e_Range e"
    and w: "64 \<le> w * 2 ^ s" "w * 2 ^ s \<le> 510"
  shows "length cnt = length (e_NumBinsCtx e) \<Longrightarrow>
       \<exists>e'. write_if_full (e\<lparr>e_NumBinsCtx := cnt, e_bitsLeft := e_bitsLeft e - int s,
           e_Low := (e_Low e + x) * 2 ^ s, e_Range := w * 2 ^ s\<rparr>) = Inr e'
         \<and> enc_at pre 12 e' ((L + x) * 2 ^ s) (n + s) \<and> models_ok N e' \<and> e_Range e' = w * 2 ^ s
         \<and> e_Ctx e' = e_Ctx e \<and> e_NumBinsCtx e' = cnt"
    and "contains bs ((L + x) * 2 ^ s) (w * 2 ^ s) (n + s) \<Longrightarrow>
       contains bs L (e_Range e) n \<and> contains bs (L + x) w n"
    and "contains bs ((L + x) * 2 ^ s) (w * 2 ^ s) (n + s) \<Longrightarrow> in_step bs d e L n \<Longrightarrow>
       x * 2 ^ 7 \<le> d_Value d \<and> d_Value d < (x + w) * 2 ^ 7 \<and>
       (\<exists>d'. refill (d\<lparr>d_Range := w * 2 ^ s, d_Value := (d_Value d - x * 2 ^ 7) * 2 ^ s,
           d_bitsNeeded := d_bitsNeeded d + int s\<rparr>) = Inr d'
         \<and> dec_at bs d' ((L + x) * 2 ^ s) (n + s) \<and> d_Range d' = w * 2 ^ s \<and> d_Ctx d' = e_Ctx e)"
proof -
  have R: "e_Range e \<le> 510" using enc_range [OF at] by simp
  have part': "x * 2 ^ s + w * 2 ^ s \<le> e_Range e * 2 ^ s"
    using mult_right_mono [OF part, of "2 ^ s"] by (simp add: add_mult_distrib)
  show "\<exists>e'. write_if_full (e\<lparr>e_NumBinsCtx := cnt, e_bitsLeft := e_bitsLeft e - int s,
           e_Low := (e_Low e + x) * 2 ^ s, e_Range := w * 2 ^ s\<rparr>) = Inr e'
         \<and> enc_at pre 12 e' ((L + x) * 2 ^ s) (n + s) \<and> models_ok N e' \<and> e_Range e' = w * 2 ^ s
         \<and> e_Ctx e' = e_Ctx e \<and> e_NumBinsCtx e' = cnt"
    if "length cnt = length (e_NumBinsCtx e)"
    by (rule enc_narrow [OF at s part' w m, of "e\<lparr>e_NumBinsCtx := cnt, e_bitsLeft := e_bitsLeft e - int s,
           e_Low := (e_Low e + x) * 2 ^ s, e_Range := w * 2 ^ s\<rparr>"])
      (use that in \<open>auto simp: add_mult_distrib\<close>)
  have 2: "contains bs L (e_Range e) n \<and> contains bs (L + x) w n"
    if "contains bs ((L + x) * 2 ^ s) (w * 2 ^ s) (n + s)" for bs
    using contains_narrow [of bs "L + x" s 0 "w * 2 ^ s" n w]
      contains_narrow [of bs L s "x * 2 ^ s" "w * 2 ^ s" n "e_Range e"] that part'
    by (simp add: add_mult_distrib)
  show "contains bs ((L + x) * 2 ^ s) (w * 2 ^ s) (n + s) \<Longrightarrow> contains bs L (e_Range e) n \<and> contains bs (L + x) w n"
    by (rule 2)
  show "x * 2 ^ 7 \<le> d_Value d \<and> d_Value d < (x + w) * 2 ^ 7 \<and>
       (\<exists>d'. refill (d\<lparr>d_Range := w * 2 ^ s, d_Value := (d_Value d - x * 2 ^ 7) * 2 ^ s,
           d_bitsNeeded := d_bitsNeeded d + int s\<rparr>) = Inr d'
         \<and> dec_at bs d' ((L + x) * 2 ^ s) (n + s) \<and> d_Range d' = w * 2 ^ s \<and> d_Ctx d' = e_Ctx e)"
    if c: "contains bs ((L + x) * 2 ^ s) (w * 2 ^ s) (n + s)" and st: "in_step bs d e L n"
  proof -
    have d: "dec_at bs d L n" "d_Ctx d = e_Ctx e" using st by (auto simp: in_step_def)
    have b: "x * 2 ^ 7 \<le> d_Value d" "d_Value d < (x + w) * 2 ^ 7"
      by (rule dec_value_bounds [OF d(1)], use 2 [OF c] in blast)+
    have V: "d_Value d < 2 ^ 18" using in_step_value [OF st _ R] 2 [OF c] by blast
    then have "d_Value d - x * 2 ^ 7 < 2 ^ 18" by linarith
    then obtain d' where "refill (d\<lparr>d_Range := w * 2 ^ s, d_Value := (d_Value d - x * 2 ^ 7) * 2 ^ s,
           d_bitsNeeded := d_bitsNeeded d + int s\<rparr>) = Inr d'"
      "dec_at bs d' ((L + x) * 2 ^ s) (n + s)" "d_Range d' = w * 2 ^ s" "d_Ctx d' = e_Ctx e"
      using dec_shift [OF dec_sub [OF d(1) b(1)] s _ _ refl, of "w * 2 ^ s"] c d(2)
      by (auto simp: contains_def)
    then show ?thesis using b by blast
  qed
qed

lemma agrees_bin:
  assumes "ctxId < N" and "bin \<le> 1"
  shows "agrees N (encodeBin bin ctxId) (decodeBin ctxId) bin"
proof (rule agreesI)
  fix pre e L n assume at: "enc_at pre 12 e L n" and m: "models_ok N e"
  define M where "M = e_Ctx e ! ctxId"
  define l where "l = getLPS (e_Range e) M"
  define r where "r = e_Range e - l"
  have R: "64 \<le> e_Range e" "e_Range e \<le> 510" using enc_range [OF at] by auto
  have M: "bpm_ok M" using m assms(1) ctx_ok_nth by (auto simp: M_def models_ok_def)
  have l: "1 \<le> l" "2 * l \<le> e_Range e + 1" "l \<le> 255"
    using getLPS_bounds [OF M R(2)] R(1) unfolding l_def by auto
  then have r: "e_Range e = r + l" "32 \<le> r + 1" "e_Range e \<le> 2 * r + 1" using R by (auto simp: r_def)
  have len: "length (e_Ctx e) = N" "length (e_NumBinsCtx e) = N" using m by (auto simp: models_ok_def)
  have sub: "sub32 (e_Range e) l = r" using R r by (simp add: reg32)
  have mps1: "mps M \<le> 1" by (rule mps_le [OF M])
  define cnt where "cnt = (e_NumBinsCtx e)[ctxId := to_u32 (e_NumBinsCtx e ! ctxId + 1)]"
  have cnt: "length cnt = length (e_NumBinsCtx e)" by (simp add: cnt_def)
  define upd where "upd e' = e'\<lparr>e_Ctx := ctx_update ctxId (bin \<noteq> 0) (e_Ctx e'),
      e_BinStore := addBin bin ctxId (e_BinStore e')\<rparr>" for e' :: BinEncoder
  define updd where "updd d' = d'\<lparr>d_Ctx := ctx_update ctxId (bin \<noteq> 0) (d_Ctx d')\<rparr>" for d' :: BinDecoder
  have upd: "enc_at pre 12 (upd e') L' n' = enc_at pre 12 e' L' n'" "e_Range (upd e') = e_Range e'"
    for e' L' n' by (simp_all add: upd_def enc_at_def)
  have updm: "models_ok N (upd e')" if "models_ok N e'" for e'
    using that assms(1) ctx_ok_update by (auto simp: models_ok_def upd_def)
  have updst: "in_step bs (updd d') (upd e') L' n'" if "in_step bs d' e' L' n'" for bs d' e' L' n'
    using that by (auto simp: in_step_def upd_def updd_def dec_at_def)
  \<comment> \<open>the part of the interval the bin selects, and the shift that follows\<close>
  define x where "x = (if bin \<noteq> mps M then r else 0)"
  define w where "w = (if bin \<noteq> mps M then l else r)"
  define s where "s = (if bin \<noteq> mps M then getRenormBitsLPS l else if r < 256 then 1 else 0)"
  have s: "s \<le> 8" using renorm_LPS(3) [OF l(1,3)] by (auto simp: s_def)
  have part: "x + w \<le> e_Range e" using r by (auto simp: x_def w_def)
  have ws: "64 \<le> w * 2 ^ s" "w * 2 ^ s \<le> 510"
    using renorm_LPS(1,2) [OF l(1,3)] R r by (auto simp: w_def s_def)
  show "\<exists>e' L' n'. encodeBin bin ctxId e = Inr e' \<and> enc_at pre 12 e' L' n' \<and> models_ok N e'
       \<and> (\<forall>bs. contains bs L' (e_Range e') n' \<longrightarrow> contains bs L (e_Range e) n
            \<and> (\<forall>d. in_step bs d e L n \<longrightarrow> (\<exists>d'. decodeBin ctxId d = Inr (bin, d') \<and> in_step bs d' e' L' n')))"
  proof -
    have low: "e_Low e * 2 ^ s < 2 ^ 29" "e_Low e < 2 ^ 22"
      using enc_low_small [OF at s] low_bound [OF at] R by simp_all
    have "x * 2 ^ s \<le> 510 * 2 ^ 8"
      using part R s by (intro mult_mono power_increasing) auto
    then have sum: "(e_Low e + x) * 2 ^ s < 2 ^ 32" using low by (simp add: add_mult_distrib)
    have sum0: "e_Low e + x < 2 ^ 32" using low part R by simp
    have lsh: "l * 2 ^ getRenormBitsLPS l < 2 ^ 32" using renorm_LPS(2) [OF l(1,3)] by simp
    let ?e1 = "e\<lparr>e_NumBinsCtx := cnt, e_bitsLeft := e_bitsLeft e - int s,
        e_Low := (e_Low e + x) * 2 ^ s, e_Range := w * 2 ^ s\<rparr>"
    obtain e' where e': "write_if_full ?e1 = Inr e'" "enc_at pre 12 e' ((L + x) * 2 ^ s) (n + s)"
      "models_ok N e'" "e_Range e' = w * 2 ^ s" "e_Ctx e' = e_Ctx e"
      using agrees_part(1) [OF at m s part ws cnt] by blast
    have enc: "encodeBin bin ctxId e = Inr (upd e')"
    proof (cases "bin = mps M")
      case False
      then have "encodeBin bin ctxId e = bindE (write_if_full ?e1) (\<lambda>e. Inr (upd e))"
        using assms(1) len sub sum sum0 lsh
        by (simp add: encodeBin_def Let_def x_def w_def s_def upd_def reg32 cnt_def flip: M_def l_def)
      then show ?thesis using e'(1) by simp
    next
      case True
      show ?thesis
      proof (cases "r < 256")
        case True
        with \<open>bin = mps M\<close> have "encodeBin bin ctxId e = bindE (write_if_full ?e1) (\<lambda>e. Inr (upd e))"
          using assms(1) len sub sum
          by (simp add: encodeBin_def Let_def x_def w_def s_def upd_def reg32 cnt_def getRenormBitsRange_def
              flip: M_def l_def)
        then show ?thesis using e'(1) by simp
      next
        case False
        have "12 \<le> e_bitsLeft e" using at by (auto simp: enc_at_def)
        then have "e' = ?e1" using e'(1) False \<open>bin = mps M\<close> by (simp add: write_if_full_def s_def)
        with False \<open>bin = mps M\<close> show ?thesis
          using assms(1) len sub
          by (simp add: encodeBin_def Let_def x_def w_def s_def upd_def cnt_def flip: M_def l_def)
      qed
    qed
    have "\<exists>d'. decodeBin ctxId d = Inr (bin, d') \<and> in_step bs d' (upd e') ((L + x) * 2 ^ s) (n + s)"
      if c: "contains bs ((L + x) * 2 ^ s) (w * 2 ^ s) (n + s)" and st: "in_step bs d e L n" for bs d
    proof -
      let ?d = "d\<lparr>d_Range := w * 2 ^ s, d_Value := (d_Value d - x * 2 ^ 7) * 2 ^ s,
           d_bitsNeeded := d_bitsNeeded d + int s\<rparr>"
      obtain d1 where V: "x * 2 ^ 7 \<le> d_Value d" "d_Value d < (x + w) * 2 ^ 7"
        and d1: "refill ?d = Inr d1"
          "dec_at bs d1 ((L + x) * 2 ^ s) (n + s)" "d_Range d1 = w * 2 ^ s" "d_Ctx d1 = e_Ctx e"
        using agrees_part(3) [OF at m s part ws c st] by blast
      have V18: "d_Value d < 2 ^ 18"
        using in_step_value [OF st _ R(2)] agrees_part(2) [OF at m s part ws c] by blast
      have d: "d_Range d = e_Range e" "d_Ctx d = e_Ctx e" "d_bitsNeeded d < 0"
        using st need_neg by (auto simp: in_step_def)
      have r7: "shl32 r 7 = r * 2 ^ 7" using r R by (simp add: reg32)
      have "decodeBin ctxId d = bindE (refill ?d) (\<lambda>d. Inr (bin, updd d))"
      proof (cases "bin = mps M")
        case False
        then have one: "sub32 1 (mps M) = bin" using mps1 assms(2) by (auto simp: reg32 le_Suc_eq)
        have "d_Value d - r * 2 ^ 7 < 2 ^ 18" using V18 by linarith
        then have sh: "shl32 (d_Value d - r * 2 ^ 7) s = (d_Value d - r * 2 ^ 7) * 2 ^ s"
          using to_turn [of "d\<lparr>d_Value := d_Value d - r * 2 ^ 7\<rparr>" s] s by simp
        show ?thesis using False V V18 assms(1) len sub d r7 one sh lsh
          by (simp add: decodeBin_def Let_def x_def w_def s_def updd_def reg32 not_less bindE_assoc value_range
              flip: M_def l_def)
      next
        case True
        then have "d_Value d < r * 2 ^ 7" using V by (simp add: x_def w_def)
        moreover have "shl32 r 1 = r * 2" "shl32 (d_Value d) 1 = d_Value d * 2"
          using r R V18 by (simp_all add: reg32)
        ultimately show ?thesis using True assms(1) len sub d r7
          by (cases "r < 256") (simp_all add: decodeBin_def Let_def x_def w_def s_def updd_def
              getRenormBitsRange_def refill_idle bindE_assoc flip: M_def l_def)
      qed
      moreover have "in_step bs d1 e' ((L + x) * 2 ^ s) (n + s)"
        using d1 e' by (simp add: in_step_def)
      ultimately show ?thesis using d1(1) updst by simp
    qed
    then show ?thesis
      using enc e' upd updm agrees_part(2) [OF at m s part ws]
      by (intro exI [of _ "upd e'"] exI [of _ "(L + x) * 2 ^ s"] exI [of _ "n + s"]) auto
  qed
qed

end
