(* ===== verification/RemAbs.thy ===== *)
theory RemAbs
  imports ArithRoundtrip
begin

unbundle bit_operations_syntax

text \<open>
  The binarisation of level remainders, \<open>encodeRemAbsEP\<close> and \<open>decodeRemAbsEP\<close>: the encoder writes the
  prefix and the rest in two groups of bypass bins, the decoder reads the prefix bin by bin and one
  group after it. Both take the same part of the interval, for every value the binarisation can
  express; the bit estimator charges exactly the number of bins written.
\<close>

section \<open>The prefix\<close>

lemma two_power_pos: "(1 :: nat) \<le> 2 ^ m"
  by simp

text \<open>A reader that starts with \<open>p\<close> and continues as \<open>q\<close> when \<open>p\<close> returns \<open>x\<close>.\<close>

lemma reads_ep_first:
  assumes p: "reads_ep R j u p x" and f: "\<And>d d1. p d = Inr (x, d1) \<Longrightarrow> f d = q d1"
    and q: "reads_ep R k v q y" and v: "v < 2 ^ k"
  shows "reads_ep R (j + k) (u * 2 ^ k + v) f y"
  unfolding reads_ep_def
proof (intro allI impI)
  fix bs d L n
  assume d: "contains bs (L * 2 ^ (j + k) + R * (u * 2 ^ k + v)) R (n + (j + k)) \<and> dec_at bs d L n \<and> d_Range d = R"
  then have c: "contains bs ((L * 2 ^ j + R * u) * 2 ^ k + R * v) R (n + j + k)"
    unfolding ep_nest by (simp add: add.assoc)
  obtain d1 where "p d = Inr (x, d1)"
    by (rule reads_epE [OF p ep_contains [OF v c]]) (use d in auto)
  then have "bindP p (\<lambda>_. q) d = f d" by (simp add: bindP_def f)
  moreover have "reads_ep R (j + k) (u * 2 ^ k + v) (bindP p (\<lambda>_. q)) y"
    by (rule reads_ep_bind [OF p q v])
  ultimately show "\<exists>d'. f d = Inr (y, d') \<and> dec_at bs d' (L * 2 ^ (j + k) + R * (u * 2 ^ k + v)) (n + (j + k))
      \<and> d_Range d' = R \<and> d_Ctx d' = d_Ctx d"
    using d unfolding reads_ep_def by metis
qed

lemma reads_prefix:
  assumes R: "64 \<le> R" "R \<le> 510"
  shows "p + m < M \<Longrightarrow> M \<le> 32 \<Longrightarrow> reads_ep R (m + 1) (2 ^ (m + 1) - 2) (prefix_loop M p) (p + m)"
proof (induction m arbitrary: p)
  case 0
  have "reads_ep R (1 + 0) (0 * 2 ^ 0 + 0) (prefix_loop M p) p"
    by (rule reads_ep_first [OF reads_ep_bin _ reads_ep_return])
      (use R 0 in \<open>simp_all add: prefix_loop.simps returnP_def reg32\<close>)
  then show ?case by simp
next
  case (Suc m)
  have "reads_ep R (1 + (m + 1)) (1 * 2 ^ (m + 1) + (2 ^ (m + 1) - 2)) (prefix_loop M p) (p + 1 + m)"
    by (rule reads_ep_first [OF reads_ep_bin _ Suc.IH [of "p + 1"]])
      (use R Suc.prems in \<open>simp_all add: prefix_loop.simps [of M p]\<close>)
  moreover have "1 * 2 ^ (m + 1) + (2 ^ (m + 1) - 2) = (2 ^ (Suc m + 1) - 2 :: nat)"
    using two_power_pos [of m] by simp
  ultimately show ?case by simp
qed

lemma reads_long_prefix:
  assumes R: "64 \<le> R" "R \<le> 510"
  shows "p + m + 1 = M \<Longrightarrow> M \<le> 32 \<Longrightarrow> reads_ep R (m + 1) (2 ^ (m + 1) - 1) (prefix_loop M p) M"
proof (induction m arbitrary: p)
  case 0
  have "reads_ep R (1 + 0) (1 * 2 ^ 0 + 0) (prefix_loop M p) M"
    by (rule reads_ep_first [OF reads_ep_bin _ reads_ep_return])
      (use R 0 in \<open>auto simp: prefix_loop.simps returnP_def reg32\<close>)
  then show ?case by simp
next
  case (Suc m)
  have "reads_ep R (1 + (m + 1)) (1 * 2 ^ (m + 1) + (2 ^ (m + 1) - 1)) (prefix_loop M p) M"
    by (rule reads_ep_first [OF reads_ep_bin _ Suc.IH [of "p + 1"]])
      (use R Suc.prems in \<open>simp_all add: prefix_loop.simps [of M p]\<close>)
  moreover have "1 * 2 ^ (m + 1) + (2 ^ (m + 1) - 1) = (2 ^ (Suc m + 1) - 1 :: nat)"
    using two_power_pos [of m] by simp
  ultimately show ?case by simp
qed

text \<open>The exponential class of a code value.\<close>

lemma rem_prefix_class:
  "2 ^ p - 1 \<le> v \<Longrightarrow> 2 ^ rem_prefix v p - 1 \<le> v \<and> v < 2 * 2 ^ rem_prefix v p - 1 \<and> p \<le> rem_prefix v p"
proof (induction v p rule: rem_prefix.induct)
  case (1 v p)
  show ?case
  proof (cases "v > 2 * 2 ^ p - 2")
    case True
    then have "2 ^ (p + 1) - 1 \<le> v" using two_power_pos [of p] by simp
    then show ?thesis using "1.IH" [OF True] True by (simp add: rem_prefix.simps [of v p])
  next
    case False
    have "0 < (2 :: nat) ^ p" by simp
    then have "v < 2 * 2 ^ p - 1" using False by linarith
    then show ?thesis using "1.prems" False by (simp add: rem_prefix.simps [of v p])
  qed
qed

lemma shl32_one: "k \<le> 31 \<Longrightarrow> shl32 1 k = 2 ^ k"
  using power_increasing [of k 31 "2 :: nat"] by (simp add: shl32_eq)

lemma ones32: "k \<le> 31 \<Longrightarrow> sub32 (shl32 1 k) 1 = 2 ^ k - 1"
  using power_increasing [of k 31 "2 :: nat"] two_power_pos [of k] by (simp add: shl32_one sub32_eq del: One_nat_def)

section \<open>The three forms of a remainder\<close>

text \<open>The values that the binarisation can express.\<close>

definition rem_valid :: "nat \<Rightarrow> nat \<Rightarrow> nat \<Rightarrow> nat \<Rightarrow> bool" where
  "rem_valid rice cutoff range_bits bins \<longleftrightarrow> rice \<le> range_bits \<and> 1 \<le> range_bits \<and> cutoff + range_bits \<le> 31
     \<and> bins < 2 ^ 32 \<and> bins < (cutoff + 2 ^ (32 - cutoff - range_bits) - 1) * 2 ^ rice + 2 ^ range_bits"

lemma rem_short:
  assumes v: "rem_valid rice cutoff mx bins" and short: "bins < cutoff * 2 ^ rice" and R: "64 \<le> R" "R \<le> 510"
  defines "q \<equiv> bins div 2 ^ rice"
  shows "emits_ep R (q + 1 + rice) ((2 ^ (q + 1) - 2) * 2 ^ rice + bins mod 2 ^ rice) (encodeRemAbsEP bins rice cutoff mx)"
    and "reads_ep R (q + 1 + rice) ((2 ^ (q + 1) - 2) * 2 ^ rice + bins mod 2 ^ rice) (decodeRemAbsEP rice cutoff mx) bins"
proof -
  have b: "rice \<le> mx" "1 \<le> mx" "cutoff + mx \<le> 31" "bins < 2 ^ 32" using v by (auto simp: rem_valid_def)
  have q: "q < cutoff" using short by (simp add: q_def less_mult_imp_div_less)
  have c: "cutoff * 2 ^ rice < 2 ^ 32"
  proof -
    have "cutoff * 2 ^ rice \<le> 2 ^ cutoff * 2 ^ rice" using less_exp [of cutoff] by (intro mult_right_mono) auto
    also have "\<dots> \<le> 2 ^ 31" using b power_increasing [of "cutoff + rice" 31 "2 :: nat"] by (simp add: power_add)
    finally show ?thesis by simp
  qed
  have pw: "sub32 (shl32 1 (q + 1)) 2 = 2 ^ (q + 1) - 2"
  proof -
    have "(2 :: nat) \<le> 2 ^ (q + 1)" by simp
    moreover have "(2 :: nat) ^ (q + 1) \<le> 2 ^ 31" using q b by (intro power_increasing) auto
    moreover have "shl32 1 (q + 1) = 2 ^ (q + 1)" using q b by (intro shl32_one) simp
    ultimately show ?thesis by (simp only:) (rule sub32_eq; simp)
  qed
  have lt: "2 ^ (q + 1) - 2 < (2 ^ (q + 1) :: nat)" by simp
  have low: "bins AND sub32 (shl32 1 rice) 1 = bins mod 2 ^ rice"
    using b by (simp add: ones32 and_mask_mod del: One_nat_def)
  have "encodeRemAbsEP bins rice cutoff mx
      = thenW (encodeBinsEP (2 ^ (q + 1) - 2) (q + 1)) (encodeBinsEP (bins mod 2 ^ rice) rice)"
    using short c pw low by (simp add: encodeRemAbsEP_def Let_def shl32_eq drop_bit_eq_div flip: q_def)
  then show "emits_ep R (q + 1 + rice) ((2 ^ (q + 1) - 2) * 2 ^ rice + bins mod 2 ^ rice) (encodeRemAbsEP bins rice cutoff mx)"
    using emits_ep_then [OF emits_ep_bins [OF _ lt] emits_ep_bins [of rice "bins mod 2 ^ rice"], of R] q b by simp
  have off: "add32 (shl32 q rice) (bins mod 2 ^ rice) = bins"
  proof -
    have "q * 2 ^ rice \<le> bins" by (simp add: q_def)
    moreover have "q * 2 ^ rice + bins mod 2 ^ rice = bins" unfolding q_def by (rule div_mult_mod_eq)
    ultimately show ?thesis using b(4) by (simp add: reg32)
  qed
  have tail: "reads_ep R (rice + 0) (bins mod 2 ^ rice * 2 ^ 0 + 0)
      (bindP (decodeBinsEP rice) (\<lambda>bins. returnP (add32 (shl32 q rice) bins))) bins"
    by (rule reads_ep_bind [OF reads_ep_bins]) (use b R off reads_ep_return [of R bins] in auto)
  have "reads_ep R (q + 1 + rice) ((2 ^ (q + 1) - 2) * 2 ^ rice + bins mod 2 ^ rice)
      (bindP (prefix_loop (32 - mx) 0) (\<lambda>prefix.
     let (offset, len) =
       (if prefix < cutoff then (shl32 prefix rice, rice)
        else (shl32 (sub32 (add32 (shl32 1 (prefix - cutoff)) cutoff) 1) rice,
              add32 rice (if prefix = 32 - mx then sub32 mx rice else prefix - cutoff)))
     in bindP (decodeBinsEP len) (\<lambda>bins. returnP (add32 offset bins)))) bins"
    by (rule reads_ep_bind [OF reads_prefix [of R 0 q]]) (use b R q tail in auto)
  then show "reads_ep R (q + 1 + rice) ((2 ^ (q + 1) - 2) * 2 ^ rice + bins mod 2 ^ rice) (decodeRemAbsEP rice cutoff mx) bins"
    by (simp add: decodeRemAbsEP_def)
qed

text \<open>Beyond the cutoff: \<open>c\<close> is the code value, \<open>t\<close> the length of the prefix after the cutoff.\<close>

lemma rem_exp:
  assumes v: "rem_valid rice cutoff mx bins" and long: "cutoff * 2 ^ rice \<le> bins" and R: "64 \<le> R" "R \<le> 510"
  defines "c \<equiv> bins div 2 ^ rice - cutoff" and "M \<equiv> 32 - cutoff - mx"
  defines "t \<equiv> fst (rem_lengths c rice cutoff mx)" and "u \<equiv> snd (rem_lengths c rice cutoff mx)"
  defines "sfx \<equiv> bins - (cutoff + 2 ^ t - 1) * 2 ^ rice"
  shows "emits_ep R (t + cutoff + u) ((2 ^ (t + cutoff) - 1) * 2 ^ u + sfx) (encodeRemAbsEP bins rice cutoff mx)"
    and "reads_ep R (t + cutoff + u) ((2 ^ (t + cutoff) - 1) * 2 ^ u + sfx) (decodeRemAbsEP rice cutoff mx) bins"
    and "sfx < 2 ^ u"
proof -
  have b: "rice \<le> mx" "1 \<le> mx" "cutoff + mx \<le> 31" "bins < 2 ^ 32"
    "bins < (cutoff + 2 ^ M - 1) * 2 ^ rice + 2 ^ mx" using v by (auto simp: rem_valid_def M_def)
  have M: "M + cutoff + mx = 32" "1 \<le> M" "M \<le> 31" using b by (auto simp: M_def)
  have q: "cutoff \<le> bins div 2 ^ rice" using long by (simp add: less_eq_div_iff_mult_less_eq)
  have cq: "c + cutoff = bins div 2 ^ rice" using q by (simp add: c_def)
  have split: "bins = (c + cutoff) * 2 ^ rice + bins mod 2 ^ rice"
    unfolding cq by (rule div_mult_mod_eq [symmetric])
  have onesM: "sub32 (shl32 1 M) 1 = 2 ^ M - 1" using M(3) by (rule ones32)
  have lens: "rem_lengths c rice cutoff mx = (if c \<ge> 2 ^ M - 1 then (M, mx)
      else (rem_prefix c 0, rem_prefix c 0 + rice + 1))"
    by (simp only: rem_lengths_def Let_def onesM [unfolded M_def] M_def)
  have tc: "2 ^ t - 1 \<le> c"
    unfolding t_def lens using rem_prefix_class [of 0 c] by auto
  have tM: "t \<le> M" "c < 2 ^ M - 1 \<Longrightarrow> t < M"
  proof -
    show "t < M" if "c < 2 ^ M - 1"
    proof (rule ccontr)
      assume "\<not> t < M"
      then have "(2 :: nat) ^ M \<le> 2 ^ t" by (intro power_increasing) auto
      then show False using tc that by linarith
    qed
    then show "t \<le> M" by (cases "c < 2 ^ M - 1") (auto simp: t_def lens)
  qed
  have t31: "t + cutoff \<le> 31" "t \<le> 31" using tM M b by auto
  have sum: "(cutoff + 2 ^ t - 1) * 2 ^ rice \<le> bins"
  proof -
    have "cutoff + 2 ^ t - 1 \<le> c + cutoff" using tc by linarith
    then have "(cutoff + 2 ^ t - 1) * 2 ^ rice \<le> (c + cutoff) * 2 ^ rice" by (rule mult_right_mono) simp
    then show ?thesis using split by linarith
  qed
  have sfx: "sfx = (c - (2 ^ t - 1)) * 2 ^ rice + bins mod 2 ^ rice"
  proof -
    have "c + cutoff = (cutoff + 2 ^ t - 1) + (c - (2 ^ t - 1))" using tc two_power_pos [of t] by linarith
    then have "bins = (cutoff + 2 ^ t - 1) * 2 ^ rice + (c - (2 ^ t - 1)) * 2 ^ rice + bins mod 2 ^ rice"
      using split by (metis add_mult_distrib)
    then show ?thesis unfolding sfx_def by linarith
  qed
  have sfx_class: "sfx < 2 ^ (t + rice)" "u = t + rice + 1" if "\<not> c \<ge> 2 ^ M - 1"
  proof -
    show "u = t + rice + 1" using that by (auto simp: t_def u_def lens)
    have "c < 2 * 2 ^ t - 1" using that rem_prefix_class [of 0 c] by (auto simp: t_def lens)
    then have "c - (2 ^ t - 1) + 1 \<le> 2 ^ t" using tc two_power_pos [of t] by linarith
    then have "(c - (2 ^ t - 1) + 1) * 2 ^ rice \<le> 2 ^ t * 2 ^ rice" by (rule mult_right_mono) simp
    moreover have "bins mod 2 ^ rice < 2 ^ rice" by simp
    ultimately have "sfx < 2 ^ t * 2 ^ rice" unfolding sfx add_mult_distrib by linarith
    then show "sfx < 2 ^ (t + rice)" by (simp add: power_add)
  qed
  show sfx_lt: "sfx < 2 ^ u"
  proof (cases "c \<ge> 2 ^ M - 1")
    case True
    then have "t = M" "u = mx" by (auto simp: t_def u_def lens)
    then show ?thesis using b(5) sum by (simp add: sfx_def)
  next
    case False
    then show ?thesis using sfx_class by (simp add: less_le_trans)
  qed
  have u: "u \<le> 32"
    using tM M b unfolding u_def lens by (auto simp: t_def lens split: if_splits)
  have c32: "c < 2 ^ 32" "bins div 2 ^ rice < 2 ^ 32"
    using b(4) cq le_less_trans [OF div_le_dividend b(4), of "2 ^ rice"] by linarith+
  have thr: "\<not> bins < shl32 cutoff rice"
    using long by (simp add: shl32_def to_u32_def push_bit_eq_mult not_less)
  have low: "bins AND sub32 (shl32 1 rice) 1 = bins mod 2 ^ rice"
    using b by (simp add: ones32 and_mask_mod del: One_nat_def)
  have code: "sub32 (drop_bit rice bins) cutoff = c"
    using q c32 by (simp add: sub32_eq drop_bit_eq_div c_def)
  have "(c - (2 ^ t - 1)) * 2 ^ rice \<le> bins" using sfx sfx_def sum by linarith
  then have sfx_code: "shl32 (sub32 c (sub32 (shl32 1 t) 1)) rice OR (bins mod 2 ^ rice) = sfx"
    using t31 tc c32 b(4) or_add [of rice "(c - (2 ^ t - 1)) * 2 ^ rice" "bins mod 2 ^ rice"]
    by (simp add: ones32 sub32_eq shl32_eq sfx del: One_nat_def)
  have pre: "2 ^ (t + cutoff) - 1 < (2 :: nat) ^ (t + cutoff)" by simp
  have "encodeRemAbsEP bins rice cutoff mx
      = thenW (encodeBinsEP (2 ^ (t + cutoff) - 1) (t + cutoff)) (encodeBinsEP sfx u)"
    using thr by (simp add: encodeRemAbsEP_def Let_def code low split_def sfx_code ones32 [OF t31(1)]
        flip: t_def u_def del: One_nat_def)
  then show "emits_ep R (t + cutoff + u) ((2 ^ (t + cutoff) - 1) * 2 ^ u + sfx) (encodeRemAbsEP bins rice cutoff mx)"
    using emits_ep_then [OF emits_ep_bins [OF _ pre] emits_ep_bins [OF u sfx_lt]] t31 by simp
  define T where "T = t + cutoff"
  define off where "off = (cutoff + 2 ^ t - 1) * 2 ^ rice"
  have offc: "shl32 (sub32 (add32 (shl32 1 (T - cutoff)) cutoff) 1) rice = off"
  proof -
    have "(2 :: nat) ^ t \<le> 2 ^ 31" using t31 by (intro power_increasing) auto
    moreover have "1 \<le> cutoff + 2 ^ t" using two_power_pos [of t] by linarith
    ultimately have "sub32 (cutoff + 2 ^ t) 1 = cutoff + 2 ^ t - 1" using b(3) by (intro sub32_eq) auto
    then have "sub32 (add32 (shl32 1 t) cutoff) 1 = cutoff + 2 ^ t - 1"
      using t31(2) b(3) \<open>2 ^ t \<le> 2 ^ 31\<close>
      by (simp add: shl32_one add32_eq add.commute del: One_nat_def)
    then show ?thesis using sum b(4) by (simp add: T_def off_def shl32_eq)
  qed
  have tail: "reads_ep R len sfx (bindP (decodeBinsEP len) (\<lambda>bins. returnP (add32 off bins))) bins"
    if "len \<le> 32" "sfx < 2 ^ len" for len
  proof -
    have "off + sfx = bins" using sum by (simp add: off_def sfx_def)
    then have "add32 off sfx = bins" using b(4) by (simp add: add32_eq)
    then have "reads_ep R (len + 0) (sfx * 2 ^ 0 + 0) (bindP (decodeBinsEP len) (\<lambda>bins. returnP (add32 off bins))) bins"
      by (intro reads_ep_bind [OF reads_ep_bins]) (use that R reads_ep_return [of R bins] in auto)
    then show ?thesis by simp
  qed
  have lens32: "add32 rice (sub32 mx rice) = mx" "add32 rice t = t + rice"
    using b tM(1) M(3) by (simp_all add: reg32)
  define q where "q prefix = (let (offset, len) =
       (if prefix < cutoff then (shl32 prefix rice, rice)
        else (shl32 (sub32 (add32 (shl32 1 (prefix - cutoff)) cutoff) 1) rice,
              add32 rice (if prefix = 32 - mx then sub32 mx rice else prefix - cutoff)))
     in bindP (decodeBinsEP len) (\<lambda>bins. returnP (add32 offset bins)))" for prefix
  have dec: "decodeRemAbsEP rice cutoff mx = bindP (prefix_loop (32 - mx) 0) q"
    by (simp add: decodeRemAbsEP_def q_def [abs_def])
  have "reads_ep R (T + u) ((2 ^ T - 1) * 2 ^ u + sfx) (bindP (prefix_loop (32 - mx) 0) q) bins"
  proof (cases "c \<ge> 2 ^ M - 1")
    case True
    then have tu: "t = M" "u = mx" by (auto simp: t_def u_def lens)
    then have T: "T = 32 - mx" "1 \<le> T" using M by (auto simp: T_def)
    have "q T = bindP (decodeBinsEP mx) (\<lambda>bins. returnP (add32 off bins))"
      using b(1) offc T lens32(1) by (simp add: q_def) (simp add: T_def)
    then have "reads_ep R u sfx (q T) bins" using tail [of mx] sfx_lt tu b by simp
    moreover have "reads_ep R T (2 ^ T - 1) (prefix_loop (32 - mx) 0) T"
      using reads_long_prefix [OF R, of 0 "T - 1" T] T by simp
    ultimately show ?thesis using sfx_lt by (intro reads_ep_bind)
  next
    case False
    note small = sfx_class(1) [OF False] and ut = sfx_class(2) [OF False]
    have T: "T < 32 - mx" using tM(2) False M by (simp add: T_def)
    have "q T = bindP (decodeBinsEP (t + rice)) (\<lambda>bins. returnP (add32 off bins))"
      using offc T lens32(2) tM by (simp add: q_def) (simp add: T_def add.commute)
    then have "reads_ep R (t + rice) sfx (q T) bins" using tail [of "t + rice"] ut u small by simp
    moreover have "reads_ep R (T + 1) (2 ^ (T + 1) - 2) (prefix_loop (32 - mx) 0) T"
      using reads_prefix [OF R, of 0 T "32 - mx"] T by simp
    ultimately have "reads_ep R (T + 1 + (t + rice)) ((2 ^ (T + 1) - 2) * 2 ^ (t + rice) + sfx)
        (bindP (prefix_loop (32 - mx) 0) q) bins"
      using small by (intro reads_ep_bind)
    moreover have "(2 ^ (T + 1) - 2) * 2 ^ (t + rice) = (2 ^ T - 1) * (2 :: nat) ^ u"
      by (simp add: ut power_add diff_mult_distrib)
    moreover have "T + 1 + (t + rice) = T + u" by (simp add: ut)
    ultimately show ?thesis by (simp only:)
  qed
  then show "reads_ep R (t + cutoff + u) ((2 ^ (t + cutoff) - 1) * 2 ^ u + sfx) (decodeRemAbsEP rice cutoff mx) bins"
    by (simp add: dec T_def)
qed

text \<open>The number of bypass bins of a remainder.\<close>

definition rem_bins :: "nat \<Rightarrow> nat \<Rightarrow> nat \<Rightarrow> nat \<Rightarrow> nat" where
  "rem_bins rice cutoff mx bins =
     (if bins < cutoff * 2 ^ rice then bins div 2 ^ rice + 1 + rice
      else let (t, u) = rem_lengths (bins div 2 ^ rice - cutoff) rice cutoff mx in t + cutoff + u)"

lemma rem_coded:
  assumes "rem_valid rice cutoff mx bins"
  obtains v where "v < 2 ^ rem_bins rice cutoff mx bins"
    "\<And>R. 64 \<le> R \<Longrightarrow> R \<le> 510 \<Longrightarrow> emits_ep R (rem_bins rice cutoff mx bins) v (encodeRemAbsEP bins rice cutoff mx)"
    "\<And>R. 64 \<le> R \<Longrightarrow> R \<le> 510 \<Longrightarrow> reads_ep R (rem_bins rice cutoff mx bins) v (decodeRemAbsEP rice cutoff mx) bins"
proof (cases "bins < cutoff * 2 ^ rice")
  case True
  let ?q = "bins div 2 ^ rice"
  have k: "rem_bins rice cutoff mx bins = ?q + 1 + rice" using True by (simp add: rem_bins_def)
  have "bins mod 2 ^ rice < 2 ^ rice" by simp
  moreover have "(2 ^ (?q + 1) - 2) * 2 ^ rice + 2 ^ rice \<le> (2 :: nat) ^ (?q + 1 + rice)"
    by (simp add: power_add diff_mult_distrib)
  ultimately have "(2 ^ (?q + 1) - 2) * 2 ^ rice + bins mod 2 ^ rice < 2 ^ (?q + 1 + rice)" by linarith
  then show ?thesis using that rem_short [OF assms True] unfolding k by blast
next
  case False
  define c where "c = bins div 2 ^ rice - cutoff"
  define t u where "t = fst (rem_lengths c rice cutoff mx)" and "u = snd (rem_lengths c rice cutoff mx)"
  define sfx where "sfx = bins - (cutoff + 2 ^ t - 1) * 2 ^ rice"
  have k: "rem_bins rice cutoff mx bins = t + cutoff + u"
    using False by (simp add: rem_bins_def t_def u_def c_def split_def Let_def)
  have long: "cutoff * 2 ^ rice \<le> bins" using False by simp
  note exp = rem_exp [OF assms long, folded c_def, folded t_def u_def, folded sfx_def]
  have "(2 ^ (t + cutoff) - 1) * 2 ^ u + 2 ^ u = (2 :: nat) ^ (t + cutoff + u)"
    using two_power_pos [of "t + cutoff"] by (simp add: power_add [of _ "t + cutoff"] diff_mult_distrib)
  then have "(2 ^ (t + cutoff) - 1) * 2 ^ u + sfx < 2 ^ (t + cutoff + u)"
    using exp(3) [of 64] by linarith
  then show ?thesis using that exp(1,2) unfolding k by blast
qed

lemma agrees_remAbs:
  assumes "rem_valid rice cutoff mx bins"
  shows "agrees N (encodeRemAbsEP bins rice cutoff mx) (decodeRemAbsEP rice cutoff mx) bins"
  by (rule rem_coded [OF assms]) (rule ep_agrees)

end
