(* ===== verification/SliceData.thy ===== *)
theory SliceData
  imports RemAbs
begin

unbundle bit_operations_syntax

text \<open>
  The frame of an arithmetic codeword: \<open>CABACWriter::end_of_slice\<close> and the alignment that the slice
  encoder appends, and \<open>CABACReader::terminating_bit\<close> and \<open>remaining_bytes\<close>. The main theorem: any
  sequence of coding operations that agree, written between \<open>start\<close> and \<open>end_of_slice\<close>, is decoded
  from the bytes of the substream, and the decoder finds the end where the encoder put it.
\<close>

definition end_of_slice :: "BinEncoder step" where
  "end_of_slice = thenW (encodeBinTrm 1) enc_finish"

definition terminating_bit :: "bool bin_parser" where
  "terminating_bit = bindP decodeBinTrm (\<lambda>bin d.
     if bin \<noteq> 0
     then bindE (dec_finish d) (\<lambda>_.
          bindE (readOutTrailingBits (d_Bitstream d)) (\<lambda>(n, s). Inr (True, d\<lparr>d_Bitstream := s\<rparr>)))
     else Inr (False, d))"

function zero_bytes :: "InputBitstream \<Rightarrow> InputBitstream result" where
  "zero_bytes s =
     (if getNumBitsLeft s \<noteq> 0
      then bindE (in_readByte s) (\<lambda>(trailingNullByte, s').
           if trailingNullByte \<noteq> 0 then Inl (Thrown ''Trailing byte should be 0'')
           else zero_bytes s')
      else Inr s)"
  by pat_completeness auto
termination
  by (relation "measure (\<lambda>s. length (in_fifo s) - in_fifo_idx s)")
    (auto simp: in_readByte_def checkE_Inr_iff)

definition remaining_bytes :: "bool \<Rightarrow> BinDecoder \<Rightarrow> BinDecoder result" where
  "remaining_bytes noTrailingBytesExpected d =
     (if noTrailingBytesExpected
      then checkE (0 \<noteq> getNumBitsLeft (d_Bitstream d)) ''Bits left when not supposed'' (Inr d)
      else bindE (zero_bytes (d_Bitstream d)) (\<lambda>s. Inr (d\<lparr>d_Bitstream := s\<rparr>)))"

declare zero_bytes.simps [simp del]

section \<open>Finishing a codeword\<close>

lemma enc_finish_ok:
  assumes at: "enc_at pre 12 e L n"
  shows "\<exists>e' W. enc_finish e = Inr e' \<and> out_inv (e_Bitstream e') \<and> out_bits (e_Bitstream e') = pre @ W
    \<and> length W = n + 1 \<and> bits_nat W = L div 256"
proof -
  obtain b EB where b: "e_bitsLeft e = int b" "12 \<le> b" "b \<le> 23"
    and R: "64 \<le> e_Range e"
    and inv: "out_inv (e_Bitstream e)" and bits: "out_bits (e_Bitstream e) = pre @ EB"
    and num0: "e_numBufferedBytes e = 0 \<longrightarrow> EB = [] \<and> e_bufferedByte e = 255"
    and buf: "e_bufferedByte e \<le> 255"
    and low: "e_Low e + e_Range e \<le> 2 ^ (33 - b)"
    and J: "e_bufferedByte e = 255 \<longrightarrow> e_Low e + e_Range e \<le> 2 ^ (32 - b)"
    and n: "n + b = 23 + length EB + 8 * e_numBufferedBytes e"
    and L: "L = (bits_nat EB * 256 ^ e_numBufferedBytes e
             + held_value (e_bufferedByte e) (e_numBufferedBytes e)) * 2 ^ (32 - b) + e_Low e"
    using at unfolding enc_at_def by auto
  let ?num = "e_numBufferedBytes e" and ?buf = "e_bufferedByte e"
  define T :: nat where "T = 2 ^ (24 - b)"
  have "32 - b = 8 + (24 - b)" "33 - b = 9 + (24 - b)" using b by simp_all
  then have T: "(2 :: nat) ^ (32 - b) = 256 * T" "(2 :: nat) ^ (33 - b) = 512 * T"
    unfolding T_def by (simp_all only: power_add) simp_all
  define c where "c = e_Low e div (256 * T)"
  have lowlt: "e_Low e < 512 * T" using low R T by linarith
  have c: "c \<le> 1"
  proof -
    have "e_Low e < 2 * (256 * T)" using lowlt by simp
    then have "c < 2" unfolding c_def by (rule less_mult_imp_div_less)
    then show ?thesis by simp
  qed
  have T0: "0 < T" by (simp add: T_def)
  define rest where "rest = e_Low e mod (256 * T)"
  have low_eq: "e_Low e = c * (256 * T) + rest"
    unfolding c_def rest_def by (rule div_mult_mod_eq [symmetric])
  have rest: "rest < 256 * T" using T0 by (simp add: rest_def)
  have nb: "nat (32 - e_bitsLeft e) = 32 - b" "nat (24 - e_bitsLeft e) = 24 - b" using b by auto
  have carry: "drop_bit (32 - b) (e_Low e) = c" by (simp add: drop_bit_eq_div T c_def)
  have buf255: "?buf \<noteq> 255" if "c = 1"
  proof
    assume "?buf = 255"
    then have "e_Low e < 256 * T" using J R T by linarith
    then show False using that by (simp add: c_def)
  qed
  have num: "0 < ?num" if "c = 1" using that buf255 num0 by auto
  have bc: "?buf + c \<le> 255" using buf c buf255 by (cases "c = 0") auto
  \<comment> \<open>the held bytes, with the carry\<close>
  obtain e1 HB where e1: "enc_finish e = stream_write (drop_bit 8 rest) (24 - b) e1"
    and s1: "out_inv (e_Bitstream e1)" "out_bits (e_Bitstream e1) = pre @ EB @ HB"
      "length HB = 8 * ?num" "bits_nat HB = held_value ?buf ?num + c" "e_Low e1 = rest"
    "e_bitsLeft e1 = int b"
  proof (cases "?num = 0")
    case True
    then have "c = 0" using num c by (cases "c = 1") auto
    with True show ?thesis
      using that [of e "[]"] inv bits b low_eq nb carry
      by (simp add: enc_finish_def write_outstanding_def held_value_def)
  next
    case False
    obtain s HB where w: "bindE (stream_write (add32 ?buf c) 8 e) (\<lambda>e.
          write_outstanding (add32 0xff c AND 0xff) e) = Inr (e\<lparr>e_Bitstream := s, e_numBufferedBytes := 1\<rparr>)"
      "out_inv s" "out_bits s = out_bits (e_Bitstream e) @ HB" "length HB = 8 * ?num"
      "bits_nat HB = held_value ?buf ?num + c"
      using write_held_ok [OF inv _ c bc] False by auto
    have "32 - b \<le> 31" using b by simp
    then have one: "shl32 1 (32 - b) = 256 * T"
      using T(1) power_increasing [of "32 - b" 31 "2 :: nat"] shl32_eq [of 1 "32 - b"] by simp
    have low32: "e_Low e < 2 ^ 32"
      using low_bound [OF at] R by simp
    consider (zero) "c = 0" | (carry) "c = 1" using c by linarith
    then show ?thesis
    proof cases
      case zero
      have "add32 255 0 AND 255 = 255" by (simp add: add32_def to_u32_def)
      then have "bindE (stream_write ?buf 8 e) (\<lambda>e. write_outstanding 255 e)
          = Inr (e\<lparr>e_Bitstream := s, e_numBufferedBytes := 1\<rparr>)"
        using w(1) zero buf by (simp add: add32_eq)
      then have "enc_finish e = stream_write (drop_bit 8 (e_Low e)) (24 - b) (e\<lparr>e_Bitstream := s, e_numBufferedBytes := 1\<rparr>)"
        using False zero carry nb b by (simp add: enc_finish_def)
      then show ?thesis
        using that [of "e\<lparr>e_Bitstream := s, e_numBufferedBytes := 1\<rparr>" HB] w bits b low_eq zero
        by simp
    next
      case carry
      have "add32 255 1 AND 255 = 0" by (simp add: add32_def to_u32_def)
      then have x: "bindE (stream_write (add32 ?buf 1) 8 e) (\<lambda>e. write_outstanding 0 e)
          = Inr (e\<lparr>e_Bitstream := s, e_numBufferedBytes := 1\<rparr>)"
        using w(1) carry by simp
      have "sub32 (e_Low e) (256 * T) = rest"
        using low_eq carry low32 by (simp add: sub32_eq)
      then have "enc_finish e = stream_write (drop_bit 8 rest) (24 - b)
          (e\<lparr>e_Bitstream := s, e_numBufferedBytes := 1, e_Low := rest\<rparr>)"
        using carry \<open>drop_bit (32 - b) (e_Low e) = c\<close> nb b x one
        by (simp add: enc_finish_def flip: bindE_assoc)
      then show ?thesis
        using that [of "e\<lparr>e_Bitstream := s, e_numBufferedBytes := 1, e_Low := rest\<rparr>" HB] w bits b by simp
    qed
  qed
  have small: "drop_bit 8 rest < 2 ^ (24 - b)"
    using rest by (simp add: drop_bit_eq_div T_def less_mult_imp_div_less mult.commute)
  obtain s2 where s2: "stream_write (drop_bit 8 rest) (24 - b) e1 = Inr (e1\<lparr>e_Bitstream := s2\<rparr>)" "out_inv s2"
    "out_bits s2 = out_bits (e_Bitstream e1) @ bits_of (24 - b) (of_nat (drop_bit 8 rest) :: u32)"
    "bits_nat (bits_of (24 - b) (of_nat (drop_bit 8 rest) :: u32)) = drop_bit 8 rest"
    by (rule stream_write_byte [OF s1(1) small]) (use b in auto)
  define W where "W = EB @ HB @ bits_of (24 - b) (of_nat (drop_bit 8 rest) :: u32)"
  have "length W = n + 1" using n b s1(3) by (simp add: W_def)
  moreover have "bits_nat W = L div 256"
  proof -
    define X where "X = bits_nat EB * 256 ^ ?num + held_value ?buf ?num"
    have "L = 256 * ((X + c) * T) + rest"
      using L low_eq T by (simp add: X_def algebra_simps)
    then have "L div 256 = (X + c) * T + rest div 256" by simp
    moreover have "bits_nat W = (X + c) * T + rest div 256"
    proof -
      have "(2 :: nat) ^ length HB = 256 ^ ?num" by (simp only: s1(3) pow_8)
      then show ?thesis
        using s2(4) s1(4) by (simp add: W_def X_def bits_nat_append T_def drop_bit_eq_div power_add algebra_simps)
    qed
    ultimately show ?thesis by simp
  qed
  ultimately show ?thesis using e1 s2 s1(2) by (intro exI [of _ "e1\<lparr>e_Bitstream := s2\<rparr>"] exI [of _ W]) (simp add: W_def)
qed

text \<open>The last bin of a codeword: the interval shrinks to its upper two values.\<close>

lemma end_of_slice_ok:
  assumes at: "enc_at pre 12 e L n" and m: "models_ok N e"
  shows "\<exists>e' W. end_of_slice e = Inr e' \<and> out_inv (e_Bitstream e') \<and> out_bits (e_Bitstream e') = pre @ W
    \<and> length W = n + 8 \<and> bits_nat W = (L + e_Range e - 2) div 2"
proof -
  have R: "64 \<le> e_Range e" "e_Range e \<le> 510" using enc_range [OF at] by auto
  define x where "x = e_Range e - 2"
  have x: "sub32 (e_Range e) 2 = x" "x + 2 = e_Range e" using R by (simp_all add: x_def reg32)
  let ?e = "e\<lparr>e_NumBinsTrm := to_u32 (e_NumBinsTrm e + 1), e_Low := e_Low e * 2 ^ 7 + x * 2 ^ 7,
      e_Range := 256, e_bitsLeft := e_bitsLeft e - int 7\<rparr>"
  obtain e1 where e1: "write_if_full ?e = Inr e1" "enc_at pre 12 e1 (L * 2 ^ 7 + x * 2 ^ 7) (n + 7)"
    by (rule enc_narrow [OF at, of 7 "x * 2 ^ 7" 256 N ?e]) (use x(2) m in auto)
  have low: "e_Low e * 2 ^ 7 < 2 ^ 29" by (rule enc_low_small [OF at]) simp
  have "encodeBinTrm 1 e = write_if_full ?e"
  proof -
    have "e_Low e + x < 2 ^ 32" "(e_Low e + x) * 2 ^ 7 < 2 ^ 32" using low R x(2) by simp_all
    then show ?thesis by (simp add: encodeBinTrm_def Let_def x(1) reg32 add_mult_distrib)
  qed
  moreover obtain e' W where "enc_finish e1 = Inr e'" "out_inv (e_Bitstream e')"
    "out_bits (e_Bitstream e') = pre @ W" "length W = n + 7 + 1"
    "bits_nat W = (L * 2 ^ 7 + x * 2 ^ 7) div 256"
    using enc_finish_ok [OF e1(2)] by blast
  moreover have "(L * 2 ^ 7 + x * 2 ^ 7) div 256 = (L + e_Range e - 2) div 2"
  proof -
    have "(2 ^ 7 * (L + x)) div (2 ^ 7 * 2) = (L + x) div 2" by (rule div_mult_mult1) simp
    moreover have "L * 2 ^ 7 + x * 2 ^ 7 = 2 ^ 7 * (L + x)" by simp
    moreover have "L + e_Range e - 2 = L + x" using x(2) by simp
    ultimately show ?thesis by simp
  qed
  ultimately show ?thesis
    using e1(1) by (intro exI [of _ e'] exI [of _ W]) (simp add: end_of_slice_def thenW_def)
qed

text \<open>The codeword with its stop bit and zeros lies in the last interval.\<close>

lemma aligned_contains:
  assumes W: "length W = n + 8" "bits_nat W = l div 2"
    and bs: "bytes_bits bs = W @ True # replicate z False" and z: "z \<le> 7"
  shows "contains bs l 2 n" and "length bs = 2 + n div 8" and "z = 7 - n mod 8"
proof -
  have len: "8 * length bs = n + 9 + z" using arg_cong [OF bs, of length] W(1) by simp
  have m: "n = 8 * (n div 8) + n mod 8" "n mod 8 < 8" by simp_all
  show lb: "length bs = 2 + n div 8" using len z m by linarith
  show "z = 7 - n mod 8" 
  proof -
    define q t where "q = n div 8" and "t = n mod 8"
    have "n = 8 * q + t" using m(1) by (simp only: q_def t_def)
    moreover have "8 * (2 + q) = n + 9 + z" using len lb by (simp only: q_def)
    ultimately have "z + t = 7" by simp
    then show ?thesis by (simp flip: t_def)
  qed
  have "be_nat bs = bits_nat (W @ True # replicate z False)" by (simp flip: bs bits_nat_bytes)
  also have "\<dots> = (l div 2) * 2 ^ (z + 1) + 2 ^ z" by (simp add: bits_nat_append W(2))
  finally have v: "be_nat bs = (2 * (l div 2) + 1) * 2 ^ z" by (simp add: algebra_simps)
  have p: "(2 :: nat) ^ (8 * length bs) = 2 ^ z * 2 ^ (n + 9)" by (simp add: len power_add)
  have "l \<le> 2 * (l div 2) + 1" "2 * (l div 2) + 1 < l + 2" by simp_all
  then have "l * (2 ^ z * 2 ^ (n + 9)) \<le> (2 * (l div 2) + 1) * (2 ^ z * 2 ^ (n + 9))"
    and "(2 * (l div 2) + 1) * (2 ^ z * 2 ^ (n + 9)) < (l + 2) * (2 ^ z * 2 ^ (n + 9))"
    by (intro mult_right_mono mult_strict_right_mono; simp)+
  moreover have "2 + n div 8 \<le> length bs" by (simp add: lb)
  ultimately show "contains bs l 2 n" unfolding contains_def v p mult.assoc by blast
qed

lemma dec_start_ok:
  assumes "2 \<le> length bs" and "d_Bitstream d = new_in bs" and "d_Ctx d = e_Ctx e" and "e_Range e = 510"
  obtains d1 where "dec_start d = Inr d1" "in_step bs d1 e 0 0"
proof -
  obtain b0 b1 cs where bs: "bs = b0 # b1 # cs" using assms(1) by (cases bs; cases "tl bs") auto
  have b: "unat b0 < 256" "unat b1 < 256" by (rule unat_u8_lt)+
  let ?s = "(new_in bs)\<lparr>in_fifo_idx := 2\<rparr>"
  let ?d = "d\<lparr>d_Range := 510, d_Bitstream := ?s, d_Value := unat b0 * 256 + unat b1, d_bitsNeeded := - 8\<rparr>"
  have "dec_start d = Inr ?d"
    using assms(2) b bs
    by (simp add: dec_start_def stream_readByte_def in_readByte_def new_in_def reg32
        in_getNumBitsUntilByteAligned_def)
  moreover have "in_step bs ?d e 0 0"
    using assms(3,4) bs by (auto simp: in_step_def dec_at_def new_in_def)
  ultimately show ?thesis using that by blast
qed

section \<open>A whole codeword\<close>

lemma terminating_bit_ok:
  assumes at: "in_step bs d e L n" and R: "64 \<le> e_Range e" "e_Range e \<le> 510"
    and c: "contains bs (L + (e_Range e - 2)) 2 n"
    and bits: "bytes_bits bs = W @ True # replicate z False" "length W = n + 8" "z = 7 - n mod 8"
    and len: "length bs = 2 + n div 8"
  shows "\<exists>d'. terminating_bit d = Inr (True, d') \<and> getNumBitsLeft (d_Bitstream d') = 0"
proof -
  define x where "x = e_Range e - 2"
  have d: "dec_at bs d L n" "d_Range d = e_Range e" using at by (auto simp: in_step_def)
  have x: "sub32 (d_Range d) 2 = x" "shl32 x 7 = x * 2 ^ 7" using d(2) R by (simp_all add: x_def reg32)
  have "x * 2 ^ 7 \<le> d_Value d" using dec_value_bounds(1) [OF d(1)] c by (simp add: x_def)
  then have trm: "decodeBinTrm d = Inr (1, d\<lparr>d_Range := x\<rparr>)"
    by (simp add: decodeBinTrm_def Let_def x)
  let ?s = "d_Bitstream d"
  obtain off where off: "drop off (in_fifo ?s) = bs" "off \<le> length (in_fifo ?s)"
    "in_fifo_idx ?s = off + (2 + n div 8)" "in_num_held_bits ?s = 0"
    using d(1) by (auto simp: dec_at_def)
  have "length (in_fifo ?s) - off = 2 + n div 8" using off(1) len by auto
  then have eof: "in_fifo_idx ?s = length (in_fifo ?s)" using off(2,3) by simp
  define last where "last = bs ! (1 + n div 8)"
  have nth: "in_fifo ?s ! (in_fifo_idx ?s - 1) = last"
    using off by (auto simp: last_def)
  have drop1: "drop (1 + n div 8) bs = [last]"
    using len Cons_nth_drop_Suc [of "1 + n div 8" bs] by (simp add: last_def)
  have "bits_of 8 last = bytes_bits [last]" by simp
  also have "\<dots> = drop (8 * (1 + n div 8)) (bytes_bits bs)"
  proof -
    have "bytes_bits bs = bytes_bits (take (1 + n div 8) bs) @ bytes_bits (drop (1 + n div 8) bs)"
      by (simp flip: bytes_bits_append)
    then show ?thesis unfolding drop1 using len by simp
  qed
  also have "\<dots> = drop (8 * (1 + n div 8)) W @ True # replicate z False"
    unfolding bits(1) using bits(2) by simp
  finally have tail: "bits_of 8 last = drop (8 * (1 + n div 8)) W @ True # replicate z False" .
  define u where "u = bits_nat (drop (8 * (1 + n div 8)) W)"
  have "unat last = bits_nat (bits_of 8 last)" using unat_u8_lt [of last] by (simp add: bits_nat_bits_of)
  also have "\<dots> = u * 2 ^ (z + 1) + 2 ^ z" by (simp add: tail bits_nat_append u_def)
  finally have val: "unat last = u * 2 ^ (z + 1) + 2 ^ z" .
  have zj: "z + n mod 8 = 7" using bits(3) by simp
  have need: "nat (8 + d_bitsNeeded d) = n mod 8" using d(1) by (simp add: dec_at_def)
  have "shl32 (unat last) (n mod 8) AND 0xff = 0x80"
  proof -
    have "unat last * 2 ^ (n mod 8) = u * 2 ^ 8 + 2 ^ 7"
      unfolding val add_mult_distrib mult.assoc power_add [symmetric] using zj by simp
    then have "unat last * 2 ^ (n mod 8) = 256 * u + 128" by simp
    then have "shl32 (unat last) (n mod 8) = (256 * u + 128) mod 2 ^ 32"
      by (simp only: shl32_def to_u32_def push_bit_eq_mult)
    then have "shl32 (unat last) (n mod 8) AND 0xff = (256 * u + 128) mod 2 ^ 32 mod 2 ^ 8"
      using and_mask_mod [of "(256 * u + 128) mod 2 ^ 32" 8] by simp
    also have "\<dots> = (256 * u + 128) mod 2 ^ 8" by (rule mod_mod_cancel) simp
    finally show ?thesis by simp
  qed
  moreover have "in_fifo ?s \<noteq> []" using eof off(3) by auto
  ultimately have "dec_finish (d\<lparr>d_Range := x\<rparr>) = Inr ()"
    using eof nth len off(3) by (simp add: dec_finish_def peekPreviousByte_def need)
  moreover have "readOutTrailingBits ?s = Inr (0, ?s)"
    using off(4) by (simp add: readOutTrailingBits_def trailing_loop.simps in_getNumBitsUntilByteAligned_def)
  ultimately show ?thesis
    using eof off(4) by (simp add: terminating_bit_def bindP_def trm getNumBitsLeft_def)
qed

lemma codeword_roundtrip:
  assumes agr: "agrees N w p v" and m: "models_ok N e" and new: "e_Bitstream e = new_out"
    and d: "d_Ctx d = e_Ctx e"
  shows "\<exists>e' s d1 d2. thenW w end_of_slice (enc_start e) = Inr e' \<and> writeByteAlignment (e_Bitstream e') = Inr s
    \<and> dec_start (d\<lparr>d_Bitstream := new_in (out_fifo s)\<rparr>) = Inr d1
    \<and> bindP p (\<lambda>x. bindP terminating_bit (\<lambda>t. returnP (x, t))) d1 = Inr ((v, True), d2)
    \<and> remaining_bytes True d2 = Inr d2"
proof -
  have ctx: "e_Ctx (enc_start e) = e_Ctx e" "length (e_NumBinsCtx (enc_start e)) = length (e_NumBinsCtx e)"
    "e_Bitstream (enc_start e) = e_Bitstream e" "e_Range (enc_start e) = 510"
    by (simp_all add: enc_start_def enc_restart_def counter_reset_def Let_def)
  have at0: "enc_at [] 12 (enc_start e) 0 0" using enc_start_at [of e] new by simp
  have m0: "models_ok N (enc_start e)" using m ctx by (simp add: models_ok_def)
  obtain e1 L n where e1: "w (enc_start e) = Inr e1" "enc_at [] 12 e1 L n" "models_ok N e1"
    "\<And>bs. contains bs L (e_Range e1) n \<Longrightarrow> contains bs 0 (e_Range (enc_start e)) 0"
    "\<And>bs d. contains bs L (e_Range e1) n \<Longrightarrow> in_step bs d (enc_start e) 0 0 \<Longrightarrow>
       \<exists>d'. p d = Inr (v, d') \<and> in_step bs d' e1 L n"
    by (rule agreesD [OF agr at0 m0]) blast
  have R: "64 \<le> e_Range e1" "e_Range e1 \<le> 510" using enc_range [OF e1(2)] by auto
  obtain e' W where e': "end_of_slice e1 = Inr e'" "out_inv (e_Bitstream e')" "out_bits (e_Bitstream e') = W"
    "length W = n + 8" "bits_nat W = (L + e_Range e1 - 2) div 2"
    using end_of_slice_ok [OF e1(2,3)] by auto
  obtain s where s: "writeByteAlignment (e_Bitstream e') = Inr s" "out_inv s" "length (out_bits s) mod 8 = 0"
    "out_bits s = W @ True # replicate (7 - length W mod 8) False"
    using writeByteAlignment_ok [OF e'(2)] unfolding e'(3) by (elim exE conjE) (rule that)
  define bs where "bs = out_fifo s"
  have "out_num_held_bits s = 0"
  proof -
    have "length (out_bits s) = 8 * length (out_fifo s) + out_num_held_bits s" "out_num_held_bits s < 8"
      using s(2) by (simp_all add: out_bits_def out_inv_def)
    moreover have "(8 * k + h) mod 8 = h" if "h < 8" for k h :: nat using that by simp
    ultimately show ?thesis using s(3) by (simp only:)
  qed
  then have bits: "bytes_bits bs = W @ True # replicate (7 - length W mod 8) False"
    using s(4) by (simp add: bs_def out_bits_def)
  have l: "bits_nat W = (L + (e_Range e1 - 2)) div 2" using e'(5) R by simp
  note con = aligned_contains [OF e'(4) l bits]
  have con2: "contains bs (L + (e_Range e1 - 2)) 2 n" "length bs = 2 + n div 8" by (rule con; simp)+
  have conR: "contains bs L (e_Range e1) n"
    using contains_narrow [of bs L 0 "e_Range e1 - 2" 2 n "e_Range e1"] con2(1) R by simp
  let ?d = "d\<lparr>d_Bitstream := new_in (out_fifo s)\<rparr>"
  obtain d1 where d1: "dec_start ?d = Inr d1" "in_step bs d1 (enc_start e) 0 0"
    by (rule dec_start_ok [of bs ?d "enc_start e"]) (use con2(2) d ctx in \<open>auto simp: bs_def\<close>)
  obtain d2 where d2: "p d1 = Inr (v, d2)" "in_step bs d2 e1 L n"
    using e1(5) [OF conR d1(2)] by blast
  obtain d3 where d3: "terminating_bit d2 = Inr (True, d3)" "getNumBitsLeft (d_Bitstream d3) = 0"
    using terminating_bit_ok [OF d2(2) R con2(1) bits e'(4) _ con2(2)] e'(4) by auto
  show ?thesis
    using e1(1) e'(1) s(1) d1(1) d2(1) d3
    by (intro exI [of _ e'] exI [of _ s] exI [of _ d1] exI [of _ d3])
      (simp add: thenW_def bindP_def returnP_def remaining_bytes_def)
qed

section \<open>Sequences of coding operations\<close>

text \<open>
  The contract of a coder for values of several kinds: \<open>k\<close> is what both sides know of the next value
  (a context, a number of bins), \<open>x\<close> the value.
\<close>

locale bin_codec =
  fixes enc :: "'k \<Rightarrow> 'a \<Rightarrow> BinEncoder step" and dec :: "'k \<Rightarrow> (BinDecoder, 'a) reader"
    and valid :: "nat \<Rightarrow> 'k \<Rightarrow> 'a \<Rightarrow> bool"
  assumes sync: "valid N k x \<Longrightarrow> agrees N (enc k x) (dec k) x"
begin

lemma sync_list:
  "list_all2 (valid N) ks xs \<Longrightarrow> agrees N (seqW (map2 enc ks xs)) (seqP (map dec ks)) xs"
proof (induction rule: list_all2_induct)
  case Nil
  show ?case using agrees_return by simp
next
  case (Cons k ks x xs)
  have "agrees N (seqW (map2 enc ks xs)) (bindP (seqP (map dec ks)) (\<lambda>ys. returnP (x # ys))) (x # xs)"
    by (rule agrees_bind_return [where f = "(#) x"]) (rule Cons.IH)
  then show ?case
    using agrees_bind [where ws = "map2 enc ks xs", OF sync [OF Cons.hyps(1)]] by simp
qed

lemma codeword:
  assumes "list_all2 (valid N) ks xs" and "models_ok N e" and "e_Bitstream e = new_out" and "d_Ctx d = e_Ctx e"
  shows "\<exists>e' s d1 d2. thenW (seqW (map2 enc ks xs)) end_of_slice (enc_start e) = Inr e'
    \<and> writeByteAlignment (e_Bitstream e') = Inr s
    \<and> dec_start (d\<lparr>d_Bitstream := new_in (out_fifo s)\<rparr>) = Inr d1
    \<and> bindP (seqP (map dec ks)) (\<lambda>ys. bindP terminating_bit (\<lambda>t. returnP (ys, t))) d1 = Inr ((xs, True), d2)
    \<and> remaining_bytes True d2 = Inr d2"
  by (rule codeword_roundtrip [OF sync_list]) fact+

end

datatype bin_kind = ContextBin nat | BypassBin | BypassBins nat | Remainder nat nat nat | TerminateBin

fun encode_kind :: "bin_kind \<Rightarrow> nat \<Rightarrow> BinEncoder step" where
  "encode_kind (ContextBin ctxId) bin = encodeBin bin ctxId"
| "encode_kind BypassBin bin = encodeBinEP bin"
| "encode_kind (BypassBins numBins) bins = encodeBinsEP bins numBins"
| "encode_kind (Remainder goRicePar cutoff maxLog2TrDynamicRange) bins
     = encodeRemAbsEP bins goRicePar cutoff maxLog2TrDynamicRange"
| "encode_kind TerminateBin bin = encodeBinTrm bin"

fun decode_kind :: "bin_kind \<Rightarrow> (BinDecoder, nat) reader" where
  "decode_kind (ContextBin ctxId) = decodeBin ctxId"
| "decode_kind BypassBin = decodeBinEP"
| "decode_kind (BypassBins numBins) = decodeBinsEP numBins"
| "decode_kind (Remainder goRicePar cutoff maxLog2TrDynamicRange)
     = decodeRemAbsEP goRicePar cutoff maxLog2TrDynamicRange"
| "decode_kind TerminateBin = decodeBinTrm"

fun bin_valid :: "nat \<Rightarrow> bin_kind \<Rightarrow> nat \<Rightarrow> bool" where
  "bin_valid N (ContextBin ctxId) bin \<longleftrightarrow> ctxId < N \<and> bin \<le> 1"
| "bin_valid N BypassBin bin \<longleftrightarrow> bin \<le> 1"
| "bin_valid N (BypassBins numBins) bins \<longleftrightarrow> numBins \<le> 32 \<and> bins < 2 ^ numBins"
| "bin_valid N (Remainder rice cutoff mx) bins \<longleftrightarrow> rem_valid rice cutoff mx bins"
| "bin_valid N TerminateBin bin \<longleftrightarrow> bin = 0"

lemma agrees_kind: "bin_valid N k x \<Longrightarrow> agrees N (encode_kind k x) (decode_kind k) x"
  by (cases k) (auto intro: agrees_bin agrees_binEP agrees_binsEP agrees_remAbs agrees_trm_0)

interpretation bins: bin_codec encode_kind decode_kind bin_valid
  by unfold_locales (rule agrees_kind)

text \<open>
  C4: The arithmetic coder loses nothing. Any sequence of context-coded bins, bypass bins, groups of at
  most 32 bypass bins (on the aligned and on the general path), binarised level remainders of every
  expressible size and terminating zeros that is encoded
  between \<open>start\<close> and \<open>end_of_slice\<close> and byte-aligned is decoded, by the operations of the same
  kinds from the bytes of the substream and the same initial context models, to the same values;
  \<open>terminating_bit\<close> then reports the end, its check of the stop bit passes, and no byte is left.
\<close>

theorem arithmetic_coder_roundtrip:
  assumes "list_all2 (bin_valid N) ks xs" and "models_ok N e"
    and "e_Bitstream e = new_out" and "d_Ctx d = e_Ctx e"
  shows "\<exists>e' s d1 d2. thenW (seqW (map2 encode_kind ks xs)) end_of_slice (enc_start e) = Inr e'
    \<and> writeByteAlignment (e_Bitstream e') = Inr s
    \<and> dec_start (d\<lparr>d_Bitstream := new_in (out_fifo s)\<rparr>) = Inr d1
    \<and> bindP (seqP (map decode_kind ks)) (\<lambda>ys. bindP terminating_bit (\<lambda>t. returnP (ys, t))) d1
        = Inr ((xs, True), d2)
    \<and> remaining_bytes True d2 = Inr d2"
  using assms by (rule bins.codeword)

definition sample_encoder :: BinEncoder where
  "sample_encoder = \<lparr>e_Bitstream = new_out, e_Low = 0, e_Range = 510, e_bufferedByte = 255,
     e_numBufferedBytes = 0, e_bitsLeft = 23, e_Ctx = [new_BinProbModel], e_NumBinsCtx = [0],
     e_NumBinsEP = 0, e_NumBinsTrm = 0, e_BinStore = \<lparr>m_inUse = False, m_binBuffer = []\<rparr>\<rparr>"

definition sample_decoder :: BinDecoder where
  "sample_decoder = \<lparr>d_Bitstream = new_in [], d_Range = 0, d_Value = 0, d_bitsNeeded = 0,
     d_Ctx = [new_BinProbModel]\<rparr>"

lemma sample_models: "models_ok 1 sample_encoder"
  by (simp add: models_ok_def sample_encoder_def ctx_ok_def bpm_ok_new)

theorem arithmetic_coder_roundtrip_witness:
  "\<exists>e' s d1 d2. thenW (seqW (map2 encode_kind
        [ContextBin 0, BypassBin, BypassBins 12, Remainder 1 5 15, TerminateBin] [1, 1, 2748, 100, 0])) end_of_slice
        (enc_start sample_encoder) = Inr e'
    \<and> writeByteAlignment (e_Bitstream e') = Inr s
    \<and> dec_start (sample_decoder\<lparr>d_Bitstream := new_in (out_fifo s)\<rparr>) = Inr d1
    \<and> bindP (seqP (map decode_kind [ContextBin 0, BypassBin, BypassBins 12, Remainder 1 5 15, TerminateBin]))
        (\<lambda>ys. bindP terminating_bit (\<lambda>t. returnP (ys, t))) d1 = Inr (([1, 1, 2748, 100, 0], True), d2)
    \<and> remaining_bytes True d2 = Inr d2"
  by (rule arithmetic_coder_roundtrip [OF _ sample_models])
    (simp_all add: sample_encoder_def sample_decoder_def rem_valid_def)

section \<open>The states an encoder reaches\<close>

inductive coder_step :: "nat \<Rightarrow> BinEncoder \<Rightarrow> BinEncoder \<Rightarrow> bool" for N where
  coding: "bin_valid N k x \<Longrightarrow> encode_kind k x e = Inr e' \<Longrightarrow> coder_step N e e'"

inductive_cases coder_stepE: "coder_step N e e'"

text \<open>The states between \<open>start\<close> on an empty substream and the end of the slice.\<close>

inductive coder_reach :: "nat \<Rightarrow> BinEncoder \<Rightarrow> bool" for N where
  begin_coding: "models_ok N e \<Longrightarrow> e_Bitstream e = new_out \<Longrightarrow> coder_reach N (enc_start e)"
| next_bin: "coder_reach N e \<Longrightarrow> coder_step N e e' \<Longrightarrow> coder_reach N e'"

definition encoder_bounds :: "BinEncoder \<Rightarrow> bool" where
  "encoder_bounds e \<longleftrightarrow> 12 \<le> e_bitsLeft e \<and> e_bitsLeft e \<le> 23 \<and> 64 \<le> e_Range e \<and> e_Range e \<le> 510
     \<and> e_Low e + e_Range e \<le> 2 ^ nat (33 - e_bitsLeft e) \<and> e_bufferedByte e \<le> 255
     \<and> ctx_ok (e_Ctx e)"

lemma bounds_at:
  assumes "enc_at pre 12 e L n" and "models_ok N e"
  shows "encoder_bounds e"
proof -
  obtain b where b: "e_bitsLeft e = int b" "12 \<le> b" "b \<le> 23" "e_Low e + e_Range e \<le> 2 ^ (33 - b)"
    "e_bufferedByte e \<le> 255"
    using assms(1) unfolding enc_at_def by auto
  have "nat (33 - e_bitsLeft e) = 33 - b" using b by simp
  then show ?thesis using b enc_range [OF assms(1)] assms(2) by (simp add: encoder_bounds_def models_ok_def)
qed

lemma written_at:
  assumes "enc_at pre lo e L n"
  shows "getNumWrittenBits e = int (length pre + n)"
proof -
  obtain b EB where "e_bitsLeft e = int b" "out_inv (e_Bitstream e)" "out_bits (e_Bitstream e) = pre @ EB"
    "n + b = 23 + length EB + 8 * e_numBufferedBytes e"
    using assms unfolding enc_at_def by auto
  then show ?thesis
    using length_out_bits [of "e_Bitstream e"] by (simp add: getNumWrittenBits_def)
qed

lemma reach_at: "coder_reach N e \<Longrightarrow> (\<exists>L n. enc_at [] 12 e L n) \<and> models_ok N e"
proof (induction rule: coder_reach.induct)
  case (begin_coding e)
  then show ?case using enc_start_at [of e]
    by (auto simp: models_ok_def enc_start_def enc_restart_def counter_reset_def Let_def)
next
  case (next_bin e e')
  from next_bin.IH obtain L n where e: "enc_at [] 12 e L n" "models_ok N e" by blast
  from next_bin.hyps(2) obtain k x where k: "bin_valid N k x" "encode_kind k x e = Inr e'"
    by (rule coder_stepE)
  show ?case by (rule agreesD [OF agrees_kind [OF k(1)] e]) (use k(2) in auto)
qed

text \<open>
  C5: The encoder cannot fail and its registers never overflow. In every state reached from \<open>start\<close>
  by any sequence of valid coding operations there are 12 to 23 free bits, the range is from 64 to 510,
  the low end plus the range stays within one carry bit above the free bits (so far below 32 bits), the
  byte held back is a byte and all probability states are in range; and every further operation
  succeeds and leads to such a state again.
\<close>

theorem encoder_registers_bounded:
  assumes "coder_reach N e" and "bin_valid N k x"
  shows "encoder_bounds e \<and> (\<exists>e'. encode_kind k x e = Inr e' \<and> encoder_bounds e' \<and> coder_reach N e')"
proof -
  obtain L n where e: "enc_at [] 12 e L n" "models_ok N e" using reach_at [OF assms(1)] by blast
  obtain e' L' n' where e': "encode_kind k x e = Inr e'" "enc_at [] 12 e' L' n'" "models_ok N e'"
    by (rule agreesD [OF agrees_kind [OF assms(2)] e]) blast
  have "coder_reach N e'" by (rule next_bin [OF assms(1)]) (rule coding [OF assms(2) e'(1)])
  then show ?thesis using e' bounds_at [OF e] bounds_at [OF e'(2,3)] by blast
qed

lemma reach_sample: "coder_reach 1 (enc_start sample_encoder)"
  by (rule begin_coding [OF sample_models]) (simp add: sample_encoder_def)

theorem encoder_registers_bounded_witness:
  "\<exists>e'. encode_kind (ContextBin 0) 1 (enc_start sample_encoder) = Inr e' \<and> encoder_bounds e'"
  using encoder_registers_bounded [OF reach_sample, of "ContextBin 0" 1] by auto

text \<open>
  C15: The count of written bits is exact. In every reachable state \<open>getNumWrittenBits\<close>, which adds the
  bits in the stream, the bytes held back and the bits in the register, is what the codeword will
  contain before its end: \<open>end_of_slice\<close> succeeds and leaves exactly eight bits more in the stream.
\<close>

theorem written_bits_are_exact:
  assumes "coder_reach N e"
  shows "\<exists>e'. end_of_slice e = Inr e' \<and> out_inv (e_Bitstream e')
    \<and> int (getNumberOfWrittenBits (e_Bitstream e')) = getNumWrittenBits e + 8"
proof -
  obtain L n where e: "enc_at [] 12 e L n" "models_ok N e" using reach_at [OF assms] by blast
  obtain e' W where e': "end_of_slice e = Inr e'" "out_inv (e_Bitstream e')" "out_bits (e_Bitstream e') = W"
    "length W = n + 8"
    using end_of_slice_ok [OF e] by auto
  have "getNumWrittenBits e = int n" using written_at [OF e(1)] by simp
  then show ?thesis using e' length_out_bits [OF e'(2)] by simp
qed

theorem written_bits_are_exact_witness:
  "\<exists>e'. end_of_slice (enc_start sample_encoder) = Inr e'
    \<and> int (getNumberOfWrittenBits (e_Bitstream e')) = getNumWrittenBits (enc_start sample_encoder) + 8"
  using written_bits_are_exact [OF reach_sample] by blast

section \<open>The decoder on arbitrary bytes\<close>

text \<open>\<open>delivers Q r\<close>: \<open>r\<close> is a result with \<open>Q\<close>, or the report that the bytes have run out.\<close>

definition delivers :: "('a \<Rightarrow> bool) \<Rightarrow> 'a result \<Rightarrow> bool" where
  "delivers Q r = (case r of Inl err \<Rightarrow> err = CheckFailed ''FIFO exceeded'' | Inr x \<Rightarrow> Q x)"

lemma delivers_Inr [simp]: "delivers Q (Inr x) = Q x"
  by (simp add: delivers_def)





















end
