(* ===== verification/BitEstimator.thy ===== *)
theory BitEstimator
  imports SliceData
begin

unbundle bit_operations_syntax

text \<open>
  The bit estimator of the encoder's mode decision: \<open>BitEstimatorBase\<close> and \<open>TBitEstimator\<close> of
  \<open>source/Lib/EncoderLib/BinEncoder.h\<close> and \<open>BinEncoder.cpp\<close> with the table \<open>m_binFracBits\<close> of
  \<open>source/Lib/CommonLib/Contexts.cpp\<close>. Costs are counted in units of \<open>2 ^ - SCALE_BITS\<close> bits in a
  64-bit register. The lemmas relate it to the encoder: its models evolve alike, bypass bins cost exactly
  what the encoder writes, and the more probable bin is never the dearer one.
\<close>

section \<open>The cost of a context-coded bin\<close>

text \<open>Entry \<open>i\<close> holds the costs of a 0 and of a 1 when the estimate of the probability of a 1 is \<open>i / 512\<close>.\<close>

definition m_binFracBits_0 :: "(nat \<times> nat) list" where
  "m_binFracBits_0 =
  [(46, 327680), (139, 275744), (231, 251595), (324, 235689), (417, 223808), (511, 214321),
   (604, 206424), (698, 199659), (791, 193742), (885, 188484), (980, 183753), (1074, 179452),
   (1168, 175510), (1263, 171872), (1358, 168494), (1453, 165341), (1549, 162385), (1644, 159604),
   (1740, 156977), (1836, 154488), (1932, 152124), (2028, 149872), (2125, 147723), (2221, 145667),
   (2318, 143697), (2415, 141806), (2512, 139988), (2610, 138236), (2708, 136548), (2805, 134918),
   (2904, 133342), (3002, 131816), (3100, 130339), (3199, 128906), (3298, 127516), (3397, 126165),
   (3496, 124852), (3596, 123574), (3696, 122330), (3796, 121118), (3896, 119936), (3996, 118783),
   (4097, 117657), (4197, 116558), (4298, 115483), (4400, 114433), (4501, 113405), (4603, 112399),
   (4705, 111414), (4807, 110449), (4909, 109504), (5012, 108577), (5114, 107668), (5217, 106776),
   (5321, 105900), (5424, 105041), (5528, 104196), (5632, 103367), (5736, 102552), (5840, 101751),
   (5945, 100963), (6050, 100188), (6155, 99425), (6260, 98675), (6365, 97936), (6471, 97209),
   (6577, 96493), (6683, 95787), (6790, 95092), (6897, 94407), (7004, 93731), (7111, 93065),
   (7218, 92409), (7326, 91761), (7434, 91122), (7542, 90492), (7650, 89870), (7759, 89256),
   (7868, 88650), (7977, 88051), (8087, 87461), (8196, 86877), (8306, 86300), (8416, 85731),
   (8527, 85168), (8638, 84612), (8749, 84062), (8860, 83519), (8971, 82982), (9083, 82450),
   (9195, 81925), (9307, 81406), (9420, 80892), (9533, 80383), (9646, 79880), (9759, 79383),
   (9873, 78890), (9987, 78403), (10101, 77921), (10215, 77443), (10330, 76970), (10445, 76502),
   (10560, 76039), (10676, 75580), (10792, 75125), (10908, 74675), (11025, 74229), (11141, 73787),
   (11258, 73349), (11376, 72916), (11493, 72486), (11611, 72060), (11729, 71638), (11848, 71220),
   (11967, 70805), (12086, 70394), (12205, 69986), (12325, 69582), (12445, 69182), (12565, 68784),
   (12686, 68390), (12806, 68000), (12928, 67612), (13049, 67228), (13171, 66847), (13293, 66468),
   (13416, 66093), (13538, 65721)]"

definition m_binFracBits_1 :: "(nat \<times> nat) list" where
  "m_binFracBits_1 =
  [(13662, 65352), (13785, 64985), (13909, 64622), (14033, 64261), (14157, 63903), (14282, 63547),
   (14407, 63194), (14532, 62844), (14658, 62497), (14784, 62151), (14911, 61809), (15037, 61469),
   (15164, 61131), (15292, 60796), (15420, 60463), (15548, 60132), (15676, 59804), (15805, 59478),
   (15934, 59154), (16064, 58833), (16194, 58513), (16324, 58196), (16454, 57881), (16585, 57568),
   (16717, 57257), (16848, 56948), (16980, 56641), (17113, 56336), (17246, 56033), (17379, 55732),
   (17512, 55432), (17646, 55135), (17781, 54840), (17915, 54546), (18050, 54254), (18186, 53964),
   (18322, 53676), (18458, 53389), (18594, 53105), (18731, 52821), (18869, 52540), (19007, 52260),
   (19145, 51982), (19284, 51706), (19423, 51431), (19562, 51158), (19702, 50886), (19842, 50616),
   (19983, 50347), (20124, 50080), (20266, 49815), (20408, 49550), (20550, 49288), (20693, 49027),
   (20836, 48767), (20980, 48509), (21124, 48252), (21268, 47996), (21413, 47742), (21559, 47489),
   (21705, 47238), (21851, 46988), (21998, 46739), (22145, 46491), (22293, 46245), (22441, 46000),
   (22590, 45756), (22739, 45514), (22889, 45273), (23039, 45033), (23189, 44794), (23340, 44556),
   (23492, 44320), (23644, 44085), (23796, 43851), (23949, 43618), (24103, 43386), (24257, 43156),
   (24411, 42926), (24566, 42698), (24722, 42470), (24878, 42244), (25034, 42019), (25191, 41795),
   (25349, 41572), (25507, 41350), (25666, 41129), (25825, 40909), (25985, 40691), (26145, 40473),
   (26306, 40256), (26467, 40040), (26629, 39825), (26791, 39611), (26954, 39398), (27118, 39186),
   (27282, 38975), (27447, 38765), (27612, 38556), (27778, 38348), (27944, 38140), (28111, 37934),
   (28279, 37728), (28447, 37524), (28616, 37320), (28786, 37117), (28956, 36915), (29126, 36714),
   (29298, 36514), (29469, 36314), (29642, 36115), (29815, 35918), (29989, 35721), (30163, 35524),
   (30339, 35329), (30514, 35135), (30691, 34941), (30868, 34748), (31045, 34556), (31224, 34364),
   (31403, 34174), (31583, 33984), (31763, 33795), (31944, 33606), (32126, 33419), (32309, 33232),
   (32492, 33046), (32676, 32860)]"

definition m_binFracBits_2 :: "(nat \<times> nat) list" where
  "m_binFracBits_2 =
  [(32860, 32676), (33046, 32492), (33232, 32309), (33419, 32126), (33606, 31944), (33795, 31763),
   (33984, 31583), (34174, 31403), (34364, 31224), (34556, 31045), (34748, 30868), (34941, 30691),
   (35135, 30514), (35329, 30339), (35524, 30163), (35721, 29989), (35918, 29815), (36115, 29642),
   (36314, 29469), (36514, 29298), (36714, 29126), (36915, 28956), (37117, 28786), (37320, 28616),
   (37524, 28447), (37728, 28279), (37934, 28111), (38140, 27944), (38348, 27778), (38556, 27612),
   (38765, 27447), (38975, 27282), (39186, 27118), (39398, 26954), (39611, 26791), (39825, 26629),
   (40040, 26467), (40256, 26306), (40473, 26145), (40691, 25985), (40909, 25825), (41129, 25666),
   (41350, 25507), (41572, 25349), (41795, 25191), (42019, 25034), (42244, 24878), (42470, 24722),
   (42698, 24566), (42926, 24411), (43156, 24257), (43386, 24103), (43618, 23949), (43851, 23796),
   (44085, 23644), (44320, 23492), (44556, 23340), (44794, 23189), (45033, 23039), (45273, 22889),
   (45514, 22739), (45756, 22590), (46000, 22441), (46245, 22293), (46491, 22145), (46739, 21998),
   (46988, 21851), (47238, 21705), (47489, 21559), (47742, 21413), (47996, 21268), (48252, 21124),
   (48509, 20980), (48767, 20836), (49027, 20693), (49288, 20550), (49550, 20408), (49815, 20266),
   (50080, 20124), (50347, 19983), (50616, 19842), (50886, 19702), (51158, 19562), (51431, 19423),
   (51706, 19284), (51982, 19145), (52260, 19007), (52540, 18869), (52821, 18731), (53105, 18594),
   (53389, 18458), (53676, 18322), (53964, 18186), (54254, 18050), (54546, 17915), (54840, 17781),
   (55135, 17646), (55432, 17512), (55732, 17379), (56033, 17246), (56336, 17113), (56641, 16980),
   (56948, 16848), (57257, 16717), (57568, 16585), (57881, 16454), (58196, 16324), (58513, 16194),
   (58833, 16064), (59154, 15934), (59478, 15805), (59804, 15676), (60132, 15548), (60463, 15420),
   (60796, 15292), (61131, 15164), (61469, 15037), (61809, 14911), (62151, 14784), (62497, 14658),
   (62844, 14532), (63194, 14407), (63547, 14282), (63903, 14157), (64261, 14033), (64622, 13909),
   (64985, 13785), (65352, 13662)]"

definition m_binFracBits_3 :: "(nat \<times> nat) list" where
  "m_binFracBits_3 =
  [(65721, 13538), (66093, 13416), (66468, 13293), (66847, 13171), (67228, 13049), (67612, 12928),
   (68000, 12806), (68390, 12686), (68784, 12565), (69182, 12445), (69582, 12325), (69986, 12205),
   (70394, 12086), (70805, 11967), (71220, 11848), (71638, 11729), (72060, 11611), (72486, 11493),
   (72916, 11376), (73349, 11258), (73787, 11141), (74229, 11025), (74675, 10908), (75125, 10792),
   (75580, 10676), (76039, 10560), (76502, 10445), (76970, 10330), (77443, 10215), (77921, 10101),
   (78403, 9987), (78890, 9873), (79383, 9759), (79880, 9646), (80383, 9533), (80892, 9420),
   (81406, 9307), (81925, 9195), (82450, 9083), (82982, 8971), (83519, 8860), (84062, 8749),
   (84612, 8638), (85168, 8527), (85731, 8416), (86300, 8306), (86877, 8196), (87461, 8087),
   (88051, 7977), (88650, 7868), (89256, 7759), (89870, 7650), (90492, 7542), (91122, 7434),
   (91761, 7326), (92409, 7218), (93065, 7111), (93731, 7004), (94407, 6897), (95092, 6790),
   (95787, 6683), (96493, 6577), (97209, 6471), (97936, 6365), (98675, 6260), (99425, 6155),
   (100188, 6050), (100963, 5945), (101751, 5840), (102552, 5736), (103367, 5632), (104196, 5528),
   (105041, 5424), (105900, 5321), (106776, 5217), (107668, 5114), (108577, 5012), (109504, 4909),
   (110449, 4807), (111414, 4705), (112399, 4603), (113405, 4501), (114433, 4400), (115483, 4298),
   (116558, 4197), (117657, 4097), (118783, 3996), (119936, 3896), (121118, 3796), (122330, 3696),
   (123574, 3596), (124852, 3496), (126165, 3397), (127516, 3298), (128906, 3199), (130339, 3100),
   (131816, 3002), (133342, 2904), (134918, 2805), (136548, 2708), (138236, 2610), (139988, 2512),
   (141806, 2415), (143697, 2318), (145667, 2221), (147723, 2125), (149872, 2028), (152124, 1932),
   (154488, 1836), (156977, 1740), (159604, 1644), (162385, 1549), (165341, 1453), (168494, 1358),
   (171872, 1263), (175510, 1168), (179452, 1074), (183753, 980), (188484, 885), (193742, 791),
   (199659, 698), (206424, 604), (214321, 511), (223808, 417), (235689, 324), (251595, 231),
   (275744, 139), (327680, 46)]"

definition m_binFracBits :: "(nat \<times> nat) list" where
  "m_binFracBits = m_binFracBits_0 @ m_binFracBits_1 @ m_binFracBits_2 @ m_binFracBits_3"

definition SCALE_BITS :: nat where "SCALE_BITS = 15"

definition estFracBits :: "nat \<Rightarrow> BinProbModel \<Rightarrow> nat" where
  "estFracBits bin m =
     (let e = m_binFracBits ! state_est m in if bin = 0 then fst e else snd e)"

definition estFracBitsEP :: "nat \<Rightarrow> nat" where
  "estFracBitsEP numBins = shl32 numBins SCALE_BITS"

definition estFracBitsTrm :: "nat \<Rightarrow> nat" where
  "estFracBitsTrm bin = (if bin \<noteq> 0 then 0x3bfbb else 0x0010c)"

definition to_u64 :: "nat \<Rightarrow> nat" where
  "to_u64 x = x mod 2 ^ 64"

section \<open>The estimator\<close>

record BitEstimator =
  m_EstFracBits :: nat
  b_Ctx :: CtxStore

definition est_start :: "BitEstimator \<Rightarrow> BitEstimator" where
  "est_start b = b\<lparr>m_EstFracBits := 0\<rparr>"

definition est_restart :: "BitEstimator \<Rightarrow> BitEstimator" where
  "est_restart b = b\<lparr>m_EstFracBits := push_bit SCALE_BITS (drop_bit SCALE_BITS (m_EstFracBits b))\<rparr>"

definition est_reset :: "nat list list \<Rightarrow> int \<Rightarrow> nat \<Rightarrow> BitEstimator \<Rightarrow> BitEstimator result" where
  "est_reset sm_InitTables qp initId b =
     bindE (ctx_init sm_InitTables qp initId (b_Ctx b)) (\<lambda>ctx. Inr (b\<lparr>b_Ctx := ctx, m_EstFracBits := 0\<rparr>))"

definition est_add :: "nat \<Rightarrow> BitEstimator step" where
  "est_add c b = Inr (b\<lparr>m_EstFracBits := to_u64 (m_EstFracBits b + c)\<rparr>)"

definition est_binEP :: "nat \<Rightarrow> BitEstimator step" where
  "est_binEP bin = est_add (estFracBitsEP 1)"

definition est_binsEP :: "nat \<Rightarrow> nat \<Rightarrow> BitEstimator step" where
  "est_binsEP bins numBins = est_add (estFracBitsEP numBins)"

definition est_binTrm :: "nat \<Rightarrow> BitEstimator step" where
  "est_binTrm bin = est_add (estFracBitsTrm bin)"

definition est_remAbsEP :: "nat \<Rightarrow> nat \<Rightarrow> nat \<Rightarrow> nat \<Rightarrow> BitEstimator step" where
  "est_remAbsEP bins goRicePar cutoff maxLog2TrDynamicRange =
     (let threshold = shl32 cutoff goRicePar
      in if bins < threshold
         then est_add (estFracBitsEP (drop_bit goRicePar bins + 1 + goRicePar))
         else let codeValue = sub32 (drop_bit goRicePar bins) cutoff;
                  (prefixLength, suffixLength) = rem_lengths codeValue goRicePar cutoff maxLog2TrDynamicRange
              in est_add (estFracBitsEP (cutoff + prefixLength + suffixLength)))"

text \<open>\<open>align\<close> rounds the sum up to whole bits: it adds the mask and clears the fraction.\<close>

definition est_align :: "BitEstimator \<Rightarrow> BitEstimator" where
  "est_align b =
     (let add = estFracBitsEP 1 - 1
      in b\<lparr>m_EstFracBits := to_u64 (m_EstFracBits b + add) AND (2 ^ 64 - 1 - add)\<rparr>)"

text \<open>
  \<open>estFracBitsUpdate\<close>: the cost is taken before the model moves. A context outside the store and a model
  whose estimate lies outside the table would be reads out of bounds.
\<close>

definition est_bin :: "nat \<Rightarrow> nat \<Rightarrow> BitEstimator step" where
  "est_bin bin ctxId b =
     (if ctxId \<ge> length (b_Ctx b) then Inl UndefinedBehaviour
      else if state_est (b_Ctx b ! ctxId) \<ge> length m_binFracBits then Inl UndefinedBehaviour
      else bindE (est_add (estFracBits bin (b_Ctx b ! ctxId)) b) (\<lambda>b.
           Inr (b\<lparr>b_Ctx := ctx_update ctxId (bin \<noteq> 0) (b_Ctx b)\<rparr>)))"

fun estimate_kind :: "bin_kind \<Rightarrow> nat \<Rightarrow> BitEstimator step" where
  "estimate_kind (ContextBin ctxId) bin = est_bin bin ctxId"
| "estimate_kind BypassBin bin = est_binEP bin"
| "estimate_kind (BypassBins numBins) bins = est_binsEP bins numBins"
| "estimate_kind (Remainder goRicePar cutoff maxLog2TrDynamicRange) bins
     = est_remAbsEP bins goRicePar cutoff maxLog2TrDynamicRange"
| "estimate_kind TerminateBin bin = est_binTrm bin"

section \<open>The table\<close>

lemma frac_low: "list_all (\<lambda>(a, b). 46 \<le> a \<and> a \<le> b \<and> b \<le> 327680) (m_binFracBits_0 @ m_binFracBits_1)"
  by (simp add: m_binFracBits_0_def m_binFracBits_1_def)

lemma frac_high: "list_all (\<lambda>(a, b). 46 \<le> b \<and> b \<le> a \<and> a \<le> 327680) (m_binFracBits_2 @ m_binFracBits_3)"
  by (simp add: m_binFracBits_2_def m_binFracBits_3_def)

lemma frac_lengths: "length m_binFracBits_0 = 128" "length m_binFracBits_1 = 128"
  "length m_binFracBits_2 = 128" "length m_binFracBits_3 = 128"
  by (simp_all add: m_binFracBits_0_def m_binFracBits_1_def m_binFracBits_2_def m_binFracBits_3_def)

lemma frac_nth:
  assumes "i < 512"
  shows "i < 256 \<Longrightarrow> fst (m_binFracBits ! i) \<le> snd (m_binFracBits ! i)"
    and "256 \<le> i \<Longrightarrow> snd (m_binFracBits ! i) \<le> fst (m_binFracBits ! i)"
    and "46 \<le> fst (m_binFracBits ! i)" "46 \<le> snd (m_binFracBits ! i)"
    and "fst (m_binFracBits ! i) \<le> 327680" "snd (m_binFracBits ! i) \<le> 327680"
proof -
  define lo hi where "lo = m_binFracBits_0 @ m_binFracBits_1" and "hi = m_binFracBits_2 @ m_binFracBits_3"
  have t: "m_binFracBits = lo @ hi" by (simp add: m_binFracBits_def lo_def hi_def)
  have len: "length lo = 256" "length hi = 256" by (simp_all add: lo_def hi_def frac_lengths)
  have low: "46 \<le> fst (lo ! i) \<and> fst (lo ! i) \<le> snd (lo ! i) \<and> snd (lo ! i) \<le> 327680" if "i < 256" for i
    using frac_low [folded lo_def, unfolded list_all_length len(1), rule_format, OF that]
    by (simp add: split_def)
  have high: "46 \<le> snd (hi ! i) \<and> snd (hi ! i) \<le> fst (hi ! i) \<and> fst (hi ! i) \<le> 327680" if "i < 256" for i
    using frac_high [folded hi_def, unfolded list_all_length len(2), rule_format, OF that]
    by (simp add: split_def)
  have nth: "m_binFracBits ! i = (if i < 256 then lo ! i else hi ! (i - 256))"
    by (simp add: t nth_append len)
  show "fst (m_binFracBits ! i) \<le> snd (m_binFracBits ! i)" if "i < 256"
    using low [OF that] that nth by simp
  show "snd (m_binFracBits ! i) \<le> fst (m_binFracBits ! i)" if "256 \<le> i"
    using high [of "i - 256"] that nth assms by simp
  have all: "46 \<le> fst (m_binFracBits ! i) \<and> 46 \<le> snd (m_binFracBits ! i)
    \<and> fst (m_binFracBits ! i) \<le> 327680 \<and> snd (m_binFracBits ! i) \<le> 327680"
  proof (cases "i < 256")
    case True
    then have "m_binFracBits ! i = lo ! i" using nth by simp
    then show ?thesis using low [OF True] by auto
  next
    case False
    then have "m_binFracBits ! i = hi ! (i - 256)" "i - 256 < 256" using nth assms by simp_all
    then show ?thesis using high [of "i - 256"] by auto
  qed
  show "46 \<le> fst (m_binFracBits ! i)" "46 \<le> snd (m_binFracBits ! i)"
    "fst (m_binFracBits ! i) \<le> 327680" "snd (m_binFracBits ! i) \<le> 327680"
    using all by blast+
qed

lemma state_est_bound:
  assumes "bpm_ok m"
  shows "state_est m = bpm_state m div 64" and "state_est m < 512" and "mps m = (if 256 \<le> state_est m then 1 else 0)"
proof -
  have w5: "bpm_weighted 5 m \<le> 0x7FFF" by (rule bpm_weighted_le [OF assms])
  have w: "bpm_weighted 11 m = bpm_weighted 5 m div 64"
    by (simp add: bpm_weighted_def Let_def drop_bit_eq_div div_mult2_eq [symmetric])
  have st: "bpm_state m = bpm_weighted 5 m" using w5 by (simp add: bpm_state_def to_u16_def)
  show e: "state_est m = bpm_state m div 64"
    using w5 by (simp add: state_est_def w to_u16_def st)
  show "state_est m < 512" using w5 unfolding e st by (simp add: less_mult_imp_div_less)
  have le: "bpm_state m div 2 ^ 14 \<le> 1" using w5 unfolding st by (simp add: less_Suc_eq_le [symmetric] less_mult_imp_div_less)
  have d: "bpm_state m div 2 ^ 14 = bpm_state m div 64 div 256" by (simp add: div_mult2_eq [symmetric])
  have "mps m = bpm_state m div 2 ^ 14" using le by (simp add: mps_def to_u8_def drop_bit_eq_div)
  then have mps: "mps m = state_est m div 256" by (simp only: d e)
  moreover have "state_est m div 256 \<le> 1" using le unfolding d e .
  ultimately show "mps m = (if 256 \<le> state_est m then 1 else 0)" by (auto simp: le_Suc_eq div_eq_0_iff)
qed

text \<open>
  The estimator prices context-coded bins in the order of their probability. For every model with
  states in range the table access is within its 512 entries, the more probable bin costs at most what
  the other costs, and every cost is from 46 units (less than 0.002 bits) to 327680 units (ten bits).
\<close>

theorem probable_bin_is_cheaper:
  assumes "bpm_ok m"
  shows "state_est m < length m_binFracBits
    \<and> estFracBits (mps m) m \<le> estFracBits (1 - mps m) m
    \<and> 46 \<le> estFracBits bin m \<and> estFracBits bin m \<le> 327680"
proof -
  note b = state_est_bound [OF assms]
  have len: "length m_binFracBits = 512" by (simp add: m_binFracBits_def frac_lengths)
  show ?thesis
    using frac_nth [OF b(2)] b(2,3) len by (auto simp: estFracBits_def Let_def)
qed

theorem probable_bin_is_cheaper_witness:
  "estFracBits (mps new_BinProbModel) new_BinProbModel \<le> estFracBits (1 - mps new_BinProbModel) new_BinProbModel"
  using probable_bin_is_cheaper [OF bpm_ok_new] by blast

section \<open>The estimator follows the encoder\<close>

lemma stream_write_keeps: "stream_write v n e = Inr e' \<Longrightarrow> same_coder e e'"
  by (auto simp: stream_write_def bindE_Inr_iff same_coder_def)

lemma same_coder_trans: "same_coder e e1 \<Longrightarrow> same_coder e1 e2 \<Longrightarrow> same_coder e e2"
  by (simp add: same_coder_def)

lemma write_copies_keeps: "write_copies n byte e = Inr e' \<Longrightarrow> same_coder e e'"
proof (induction n arbitrary: e)
  case (Suc n)
  then show ?case
    by (auto simp: bindE_Inr_iff dest!: stream_write_keeps Suc.IH intro: same_coder_trans)
      (simp add: same_coder_def)
qed simp

lemma writeOut_keeps: "writeOut e = Inr e' \<Longrightarrow> same_coder e e'"
  by (auto simp: writeOut_def write_outstanding_def Let_def bindE_Inr_iff same_coder_def
      split: if_splits dest!: stream_write_keeps write_copies_keeps)

lemma write_if_full_keeps: "write_if_full e = Inr e' \<Longrightarrow> same_coder e e'"
  by (auto simp: write_if_full_def split: if_splits dest: writeOut_keeps)

lemma encodeBin_ctx:
  "encodeBin bin ctxId e = Inr e' \<Longrightarrow> ctxId < length (e_Ctx e) \<and> e_Ctx e' = ctx_update ctxId (bin \<noteq> 0) (e_Ctx e)"
  by (auto simp: encodeBin_def Let_def bindE_Inr_iff split: if_splits dest!: write_if_full_keeps)
    (auto simp: same_coder_def)

lemma encodeBinTrm_ctx: "encodeBinTrm bin e = Inr e' \<Longrightarrow> e_Ctx e' = e_Ctx e"
  by (auto simp: encodeBinTrm_def Let_def split: if_splits dest!: write_if_full_keeps)
    (auto simp: same_coder_def)

lemma encodeBinEP_ctx: "encodeBinEP bin e = Inr e' \<Longrightarrow> e_Ctx e' = e_Ctx e"
  by (auto simp: encodeBinEP_def Let_def split: if_splits dest!: write_if_full_keeps)
    (auto simp: same_coder_def)

lemma encodeBins_loop_ctx: "encodeBins_loop bins k e = Inr e' \<Longrightarrow> e_Ctx e' = e_Ctx e"
proof (induction k arbitrary: bins e rule: less_induct)
  case (less k)
  show ?case
  proof (cases "k > 8")
    case True
    then obtain e1 where "write_if_full (e\<lparr>e_Low := add32 (shl32 (e_Low e) 8) (mul32 (e_Range e) (drop_bit (k - 8) bins)),
        e_bitsLeft := e_bitsLeft e - 8\<rparr>) = Inr e1"
      "encodeBins_loop (sub32 bins (shl32 (drop_bit (k - 8) bins) (k - 8))) (k - 8) e1 = Inr e'"
      using less.prems by (auto simp: encodeBins_loop.simps [of bins k e] Let_def bindE_Inr_iff)
    then show ?thesis using less.IH [of "k - 8"] True write_if_full_keeps by (fastforce simp: same_coder_def)
  next
    case False
    then show ?thesis using less.prems
      by (auto simp: encodeBins_loop.simps [of bins k e] same_coder_def dest!: write_if_full_keeps)
  qed
qed

lemma encodeAligned_loop_ctx: "encodeAligned_loop bins k e = Inr e' \<Longrightarrow> e_Ctx e' = e_Ctx e"
proof (induction k arbitrary: e rule: less_induct)
  case (less k)
  show ?case
  proof (cases "k = 0")
    case True
    then show ?thesis using less.prems by (simp add: encodeAligned_loop.simps)
  next
    case False
    then obtain e0 e1 where "write_if_full e0 = Inr e1" "e_Ctx e0 = e_Ctx e"
      "encodeAligned_loop bins (k - min k 8) e1 = Inr e'"
      using less.prems by (auto simp: encodeAligned_loop.simps [of bins k e] Let_def bindE_Inr_iff)
    then show ?thesis using less.IH [of "k - min k 8"] False write_if_full_keeps by (fastforce simp: same_coder_def)
  qed
qed

lemma encodeBinsEP_ctx: "encodeBinsEP bins k e = Inr e' \<Longrightarrow> e_Ctx e' = e_Ctx e"
  by (auto simp: encodeBinsEP_def encodeAlignedBinsEP_def Let_def split: if_splits
      dest!: encodeBins_loop_ctx encodeAligned_loop_ctx)

lemma encodeRemAbsEP_ctx: "encodeRemAbsEP bins rice cutoff mx e = Inr e' \<Longrightarrow> e_Ctx e' = e_Ctx e"
  by (auto simp: encodeRemAbsEP_def Let_def thenW_def bindE_Inr_iff split: if_splits prod.splits
      dest!: encodeBinsEP_ctx)

lemma encode_kind_ctx:
  assumes "encode_kind k x e = Inr e'"
  shows "e_Ctx e' = (case k of ContextBin ctxId \<Rightarrow> ctx_update ctxId (x \<noteq> 0) (e_Ctx e) | _ \<Rightarrow> e_Ctx e)"
    and "\<And>ctxId. k = ContextBin ctxId \<Longrightarrow> ctxId < length (e_Ctx e)"
  using assms encodeBin_ctx encodeBinEP_ctx encodeBinsEP_ctx encodeRemAbsEP_ctx encodeBinTrm_ctx
  by (auto split: bin_kind.splits)

lemma est_add_Inr [simp]: "est_add c b = Inr (b\<lparr>m_EstFracBits := to_u64 (m_EstFracBits b + c)\<rparr>)"
  by (simp add: est_add_def)

fun bypass_bits :: "bin_kind \<Rightarrow> nat \<Rightarrow> nat option" where
  "bypass_bits BypassBin x = Some 1"
| "bypass_bits (BypassBins n) x = Some n"
| "bypass_bits (Remainder rice cutoff mx) x = Some (rem_bins rice cutoff mx x)"
| "bypass_bits k x = None"

lemma rem_prefix_le: "2 ^ p - 1 \<le> v \<Longrightarrow> v < 2 ^ 32 \<Longrightarrow> rem_prefix v p \<le> 32"
proof -
  assume v: "2 ^ p - 1 \<le> v" "v < 2 ^ 32"
  have "2 ^ rem_prefix v p \<le> (2 :: nat) ^ 32"
    using rem_prefix_class [OF v(1)] v(2) by linarith
  then show ?thesis by (simp only: power_increasing_iff)
qed

lemma price_remAbs:
  assumes "rem_valid rice cutoff mx bins"
  shows "est_remAbsEP bins rice cutoff mx b
    = Inr (b\<lparr>m_EstFracBits := to_u64 (m_EstFracBits b + rem_bins rice cutoff mx bins * 2 ^ 15)\<rparr>)"
proof -
  have v: "rice \<le> mx" "1 \<le> mx" "cutoff + mx \<le> 31" "bins < 2 ^ 32"
    using assms by (auto simp: rem_valid_def)
  have c: "cutoff * 2 ^ rice < 2 ^ 32"
  proof -
    have "cutoff * 2 ^ rice \<le> 2 ^ cutoff * 2 ^ rice" using less_exp [of cutoff] by (intro mult_right_mono) auto
    also have "\<dots> \<le> 2 ^ 31" using v power_increasing [of "cutoff + rice" 31 "2 :: nat"] by (simp add: power_add)
    finally show ?thesis by simp
  qed
  have price: "estFracBitsEP k = k * 2 ^ 15" if "k \<le> 200" for k
    using that by (simp add: estFracBitsEP_def SCALE_BITS_def shl32_eq)
  show ?thesis
  proof (cases "bins < cutoff * 2 ^ rice")
    case True
    then have "bins div 2 ^ rice < cutoff" by (simp add: less_mult_imp_div_less)
    then show ?thesis using True c v price
      by (simp add: est_remAbsEP_def shl32_eq rem_bins_def drop_bit_eq_div)
  next
    case False
    define cv where "cv = bins div 2 ^ rice - cutoff"
    have q: "cutoff \<le> bins div 2 ^ rice" using False by (simp add: less_eq_div_iff_mult_less_eq)
    have q32: "bins div 2 ^ rice < 2 ^ 32" by (rule le_less_trans [OF div_le_dividend v(4)])
    then have code: "sub32 (drop_bit rice bins) cutoff = cv" and cv: "cv < 2 ^ 32"
      using q by (simp_all add: drop_bit_eq_div sub32_eq cv_def)
    have lens: "fst (rem_lengths cv rice cutoff mx) \<le> 32 \<and> snd (rem_lengths cv rice cutoff mx) \<le> 64"
      using rem_prefix_le [of 0 cv] cv v by (auto simp: rem_lengths_def Let_def)
    then have "estFracBitsEP (cutoff + fst (rem_lengths cv rice cutoff mx) + snd (rem_lengths cv rice cutoff mx))
        = (cutoff + fst (rem_lengths cv rice cutoff mx) + snd (rem_lengths cv rice cutoff mx)) * 2 ^ 15"
      using v by (intro price) linarith
    then show ?thesis using False c
      by (simp add: est_remAbsEP_def shl32_eq rem_bins_def code split_def Let_def add.commute flip: cv_def)
  qed
qed

text \<open>What an operation costs with given models, in units of \<open>2 ^ - 15\<close> bits, and a sequence along the encoder.\<close>

fun kind_price :: "bin_kind \<Rightarrow> nat \<Rightarrow> CtxStore \<Rightarrow> nat" where
  "kind_price (ContextBin ctxId) x ctx = estFracBits x (ctx ! ctxId)"
| "kind_price BypassBin x ctx = 2 ^ 15"
| "kind_price (BypassBins n) x ctx = n * 2 ^ 15"
| "kind_price (Remainder rice cutoff mx) x ctx = rem_bins rice cutoff mx x * 2 ^ 15"
| "kind_price TerminateBin x ctx = estFracBitsTrm x"

fun price_along :: "bin_kind list \<Rightarrow> nat list \<Rightarrow> BinEncoder \<Rightarrow> nat" where
  "price_along (k # ks) (x # xs) e = kind_price k x (e_Ctx e)
     + (case encode_kind k x e of Inr e1 \<Rightarrow> price_along ks xs e1 | Inl _ \<Rightarrow> 0)"
| "price_along _ _ e = 0"

lemma cost_table_length: "length m_binFracBits = 512"
  by (simp add: m_binFracBits_def frac_lengths)

lemma estimate_step:
  assumes v: "bin_valid N k x" and m: "models_ok N e" and b: "b_Ctx b = e_Ctx e"
    and e1: "encode_kind k x e = Inr e1"
  shows "estimate_kind k x b
    = Inr (b\<lparr>m_EstFracBits := to_u64 (m_EstFracBits b + kind_price k x (e_Ctx e)), b_Ctx := e_Ctx e1\<rparr>)"
proof (cases k)
  case (ContextBin c)
  have c: "c < length (e_Ctx e)" "bpm_ok (e_Ctx e ! c)"
    using v m ctx_ok_nth by (auto simp: ContextBin models_ok_def)
  then show ?thesis
    using encode_kind_ctx(1) [OF e1] state_est_bound(2) [OF c(2)] b
    by (simp add: ContextBin est_bin_def cost_table_length)
next
  case (Remainder rice cutoff mx)
  then show ?thesis using encode_kind_ctx(1) [OF e1] price_remAbs [of rice cutoff mx x b] v b by simp
qed (use encode_kind_ctx(1) [OF e1] v b in
  \<open>simp_all add: est_binEP_def est_binsEP_def est_binTrm_def estFracBitsEP_def SCALE_BITS_def reg32\<close>)

lemma encode_step:
  assumes "coder_reach N e" and "bin_valid N k x"
  obtains e1 where "encode_kind k x e = Inr e1" "coder_reach N e1"
proof -
  obtain L n where "enc_at [] 12 e L n" "models_ok N e" using reach_at [OF assms(1)] by blast
  then obtain e1 where "encode_kind k x e = Inr e1" by (rule agreesD [OF agrees_kind [OF assms(2)]])
  then show ?thesis using that assms coder_step.coding coder_reach.next_bin by metis
qed

lemma estimate_run:
  assumes "list_all2 (bin_valid N) ks xs" and "coder_reach N e" and "b_Ctx b = e_Ctx e"
    and "m_EstFracBits b < 2 ^ 64"
  shows "\<exists>e' b'. seqW (map2 encode_kind ks xs) e = Inr e' \<and> coder_reach N e'
    \<and> seqW (map2 estimate_kind ks xs) b = Inr b' \<and> b_Ctx b' = e_Ctx e'
    \<and> m_EstFracBits b' = to_u64 (m_EstFracBits b + price_along ks xs e)"
  using assms
proof (induction ks xs arbitrary: e b rule: list_all2_induct)
  case Nil
  then show ?case by (auto simp: skipW_def to_u64_def)
next
  case (Cons k ks x xs)
  obtain e1 where e1: "encode_kind k x e = Inr e1" "coder_reach N e1"
    by (rule encode_step [OF Cons.prems(1) Cons.hyps(1)])
  have "models_ok N e" using reach_at [OF Cons.prems(1)] by blast
  note est = estimate_step [OF Cons.hyps(1) this Cons.prems(2) e1(1)]
  define b1 where "b1 = b\<lparr>m_EstFracBits := to_u64 (m_EstFracBits b + kind_price k x (e_Ctx e)), b_Ctx := e_Ctx e1\<rparr>"
  obtain e' b' where run: "seqW (map2 encode_kind ks xs) e1 = Inr e'" "coder_reach N e'"
    "seqW (map2 estimate_kind ks xs) b1 = Inr b'" "b_Ctx b' = e_Ctx e'"
    "m_EstFracBits b' = to_u64 (m_EstFracBits b1 + price_along ks xs e1)"
    using Cons.IH [OF e1(2), of b1] by (auto simp: b1_def to_u64_def)
  then show ?case using e1(1) est [folded b1_def]
    by (auto simp: thenW_def b1_def to_u64_def mod_simps add.assoc)
qed

text \<open>
  C17: The estimator sees the models of the encoder and prices with them. From every reachable state of the
  encoder, for every sequence of operations on valid values, both complete: no context lies outside the
  store and no estimate outside the table of costs. They end with the same models, in range, and what the
  estimator has added up is the sum of the prices that each operation has with the models the encoder
  holds when it codes it, to 64 bits.
\<close>

theorem estimator_follows_encoder:
  assumes "coder_reach N e" and "list_all2 (bin_valid N) ks xs" and "b_Ctx b = e_Ctx e"
    and "m_EstFracBits b < 2 ^ 64"
  shows "\<exists>e' b'. seqW (map2 encode_kind ks xs) e = Inr e' \<and> coder_reach N e'
    \<and> seqW (map2 estimate_kind ks xs) b = Inr b' \<and> b_Ctx b' = e_Ctx e' \<and> ctx_ok (b_Ctx b')
    \<and> m_EstFracBits b' = to_u64 (m_EstFracBits b + price_along ks xs e)"
  using estimate_run [OF assms(2,1,3,4)] reach_at by (fastforce simp: models_ok_def)

text \<open>Two bins of one context, the second priced with the model that the first has moved, and a bypass bin.\<close>

lemma sample_moves:
  "bpm_update True new_BinProbModel = \<lparr>m_state0 = 32767, m_state1 = 16447, m_rate = 8, m_stateUsed0 = 20479,
     m_stateUsed1 = 16447, m_rateOffset0 = 119, m_rateOffset1 = 119, m_weight = 18\<rparr>"
  "bpm_update True (bpm_update True new_BinProbModel) = \<lparr>m_state0 = 32767, m_state1 = 16510, m_rate = 8,
     m_stateUsed0 = 32767, m_stateUsed1 = 16510, m_rateOffset0 = 119, m_rateOffset1 = 119, m_weight = 18\<rparr>"
proof -
  note update = bpm_update_def Let_def rate_used_def MASK_0_def MASK_1_def to_u16_def ADJUSTMENT_RANGE_def
  show once: "bpm_update True new_BinProbModel = \<lparr>m_state0 = 32767, m_state1 = 16447, m_rate = 8, m_stateUsed0 = 20479,
     m_stateUsed1 = 16447, m_rateOffset0 = 119, m_rateOffset1 = 119, m_weight = 18\<rparr>"
    by (simp add: update new_BinProbModel_def DWS_def DWO_def DWE_def)
  show "bpm_update True (bpm_update True new_BinProbModel) = \<lparr>m_state0 = 32767, m_state1 = 16510, m_rate = 8,
     m_stateUsed0 = 32767, m_stateUsed1 = 16510, m_rateOffset0 = 119, m_rateOffset1 = 119, m_weight = 18\<rparr>"
    unfolding once by (simp add: update)
qed

lemma sample_costs:
  "estFracBits 1 new_BinProbModel = 32676" "estFracBits 1 (bpm_update True new_BinProbModel) = 27118"
  unfolding sample_moves
  by (simp_all add: estFracBits_def state_est_def bpm_weighted_def weightedAdaptRate_def new_BinProbModel_def Let_def
      DWE_def to_u16_def m_binFracBits_def nth_append frac_lengths m_binFracBits_2_def)

theorem estimator_follows_encoder_witness:
  "\<exists>e' b'. seqW (map2 encode_kind [ContextBin 0, ContextBin 0, BypassBin] [1, 1, 0]) (enc_start sample_encoder) = Inr e'
     \<and> seqW (map2 estimate_kind [ContextBin 0, ContextBin 0, BypassBin] [1, 1, 0])
         \<lparr>m_EstFracBits = 5, b_Ctx = [new_BinProbModel]\<rparr> = Inr b'
     \<and> b_Ctx b' = e_Ctx e' \<and> e_Ctx e' \<noteq> [new_BinProbModel] \<and> m_stateUsed0 (e_Ctx e' ! 0) = 32767
     \<and> m_EstFracBits b' = 5 + 32676 + 27118 + 32768"
proof -
  let ?ks = "[ContextBin 0, ContextBin 0, BypassBin]" and ?xs = "[1, 1, 0]"
  have ctx: "e_Ctx (enc_start sample_encoder) = [new_BinProbModel]"
    by (simp add: enc_start_def enc_restart_def counter_reset_def sample_encoder_def store_reset_def Let_def)
  obtain e' b' where run: "seqW (map2 encode_kind ?ks ?xs) (enc_start sample_encoder) = Inr e'"
    "seqW (map2 estimate_kind ?ks ?xs) \<lparr>m_EstFracBits = 5, b_Ctx = [new_BinProbModel]\<rparr> = Inr b'"
    "b_Ctx b' = e_Ctx e'"
    "m_EstFracBits b' = to_u64 (5 + price_along ?ks ?xs (enc_start sample_encoder))"
    using estimator_follows_encoder [OF reach_sample, of ?ks ?xs "\<lparr>m_EstFracBits = 5, b_Ctx = [new_BinProbModel]\<rparr>"] ctx
    by auto
  obtain e1 e2 where e: "encodeBin 1 0 (enc_start sample_encoder) = Inr e1" "encodeBin 1 0 e1 = Inr e2"
    "encodeBinEP 0 e2 = Inr e'"
    using run(1) by (auto simp: thenW_def skipW_def bindE_Inr_iff)
  have e1: "e_Ctx e1 = [bpm_update True new_BinProbModel]"
    using encodeBin_ctx [OF e(1)] by (simp add: ctx ctx_update_def)
  have e2: "e_Ctx e' = [bpm_update True (bpm_update True new_BinProbModel)]"
    using encodeBin_ctx [OF e(2)] encodeBinEP_ctx [OF e(3)] by (simp add: e1 ctx_update_def)
  have "price_along ?ks ?xs (enc_start sample_encoder) = 32676 + 27118 + 32768"
    by (simp add: e ctx e1 sample_costs del: One_nat_def)
  moreover have "new_BinProbModel \<noteq> bpm_update True (bpm_update True new_BinProbModel)"
    unfolding sample_moves(2) by (simp add: new_BinProbModel_def Let_def)
  ultimately show ?thesis using run e2 by (auto simp: to_u64_def sample_moves(2))
qed

text \<open>
  C16: Bypass bins cost exactly what they add to the stream. In every reachable state of the encoder, a
  valid bypass bin, group of bypass bins or level remainder makes the codeword longer by \<open>c\<close> bits, by
  the encoder's own count, and the estimator charges \<open>c\<close> whole bits for it, \<open>c * 2 ^ 15\<close> units.
\<close>

theorem bypass_price_is_exact:
  assumes "coder_reach N e" and "bin_valid N k x" and "bypass_bits k x = Some c"
  shows "\<exists>e'. encode_kind k x e = Inr e' \<and> getNumWrittenBits e' = getNumWrittenBits e + int c
    \<and> estimate_kind k x b = Inr (b\<lparr>m_EstFracBits := to_u64 (m_EstFracBits b + c * 2 ^ 15)\<rparr>)"
proof -
  obtain L n where e: "enc_at [] 12 e L n" "models_ok N e" using reach_at [OF assms(1)] by blast
  have R: "64 \<le> e_Range e" "e_Range e \<le> 510" using enc_range [OF e(1)] by auto
  have written: "\<exists>e'. w e = Inr e' \<and> getNumWrittenBits e' = getNumWrittenBits e + int j"
    if "emits_ep (e_Range e) j v w" for j v w
    by (rule emits_epE [OF that e refl]) (use written_at [OF e(1)] written_at in force)
  consider (one) "k = BypassBin" "c = 1" "x \<le> 1" | (group) "k = BypassBins c" "c \<le> 32" "x < 2 ^ c"
    | (remainder) rice cutoff mx where "k = Remainder rice cutoff mx" "rem_valid rice cutoff mx x"
        "c = rem_bins rice cutoff mx x"
    using assms(2,3) by (cases k) auto
  then show ?thesis
  proof cases
    case one
    then show ?thesis using written [OF emits_ep_bin [of x]]
      by (simp add: est_binEP_def estFracBitsEP_def SCALE_BITS_def reg32)
  next
    case group
    then show ?thesis using written [OF emits_ep_bins [of c x]]
      by (simp add: est_binsEP_def estFracBitsEP_def SCALE_BITS_def reg32)
  next
    case remainder
    obtain v where "emits_ep (e_Range e) c v (encodeRemAbsEP x rice cutoff mx)"
      using rem_coded [OF remainder(2)] R remainder(3) by metis
    then show ?thesis using written price_remAbs [OF remainder(2)] remainder(1,3) by simp
  qed
qed

theorem bypass_price_is_exact_witness:
  "\<exists>e'. encode_kind (Remainder 1 5 15) 100 (enc_start sample_encoder) = Inr e'
    \<and> getNumWrittenBits e' = getNumWrittenBits (enc_start sample_encoder) + int (rem_bins 1 5 15 100)"
  using bypass_price_is_exact [OF reach_sample, of "Remainder 1 5 15" 100] by (auto simp: rem_valid_def)

end
