(* ===== verification/ContextTables.thy ===== *)
theory ContextTables
  imports BitEstimator
begin

unbundle bit_operations_syntax

text \<open>
  The initialisation of the context models: the tables of \<open>ContextSetCfg\<close> in
  \<open>source/Lib/CommonLib/Contexts.cpp\<close>, one list of eleven rows for each set of contexts (initial states,
  window sizes and weights for the three slice types, rate offsets for either bin), \<open>addCtxSet\<close>, which
  appends a set to the eleven tables, and what the code relies on: no set is refused, the tables end up
  equally long, every window size and weight is in range, so \<open>CtxStore::init\<close> cannot fail and every
  model starts well-formed.
\<close>

definition CNU :: nat where "CNU = 35"

type_synonym CtxSetInit = "nat list list"

definition SplitFlag_init :: CtxSetInit where
  "SplitFlag_init =
   [[11, 20, 44, 4, 6, 30, 20, 15, 31],
    [11, 20, 52, 12, 21, 30, 13, 15, 31],
    [27, 36, 38, 35, 29, 38, 28, 38, 31],
    [5, 9, 4, 9, 13, 12, 9, 9, 12],
    [12, 12, 4, 13, 13, 12, 9, 9, 12],
    [12, 12, 13, 9, 13, 12, 5, 5, 9],
    [4, 11, 11, 11, 4, 11, 4, 4, 11],
    [11, 18, 11, 18, 11, 4, 11, 4, 4],
    [18, 11, 32, 11, 11, 4, 11, 4, 4],
    [131, 134, 142, 133, 238, 238, 110, 116, 137],
    [140, 237, 101, 202, 236, 227, 121, 125, 84]]"

definition SplitQtFlag_init :: CtxSetInit where
  "SplitQtFlag_init =
   [[19, 14, 23, 11, 12, 13],
    [5, 7, 23, 11, 12, 13],
    [4, 13, 7, 33, 27, 22],
    [6, 12, 12, 12, 8, 8],
    [5, 8, 9, 12, 12, 8],
    [4, 5, 9, 12, 12, 12],
    [4, 4, 11, 11, 4, 18],
    [4, 4, 4, 4, 11, 4],
    [32, 18, 32, 4, 4, 18],
    [176, 107, 117, 124, 182, 148],
    [138, 238, 235, 238, 235, 181]]"

definition SplitHvFlag_init :: CtxSetInit where
  "SplitHvFlag_init =
   [[43, 35, 44, 42, 37],
    [36, 35, 44, 34, 45],
    [43, 50, 29, 27, 52],
    [10, 9, 9, 8, 5],
    [10, 9, 13, 9, 6],
    [9, 9, 9, 4, 5],
    [4, 11, 4, 11, 11],
    [11, 4, 11, 11, 4],
    [18, 18, 18, 4, 18],
    [120, 119, 148, 211, 125],
    [133, 137, 157, 117, 119]]"

definition Split12Flag_init :: CtxSetInit where
  "Split12Flag_init =
   [[36, 37, 21, 22],
    [36, 37, 36, 22],
    [44, 45, 44, 45],
    [12, 13, 12, 13],
    [12, 13, 12, 13],
    [12, 13, 12, 13],
    [11, 11, 11, 4],
    [4, 4, 4, 4],
    [18, 11, 18, 11],
    [237, 139, 186, 120],
    [102, 92, 110, 107]]"

definition SkipFlag_init :: CtxSetInit where
  "SkipFlag_init =
   [[56, 59, 60],
    [57, 59, 60],
    [0, 42, 36],
    [6, 6, 10],
    [6, 6, 9],
    [5, 10, 7],
    [18, 18, 18],
    [18, 11, 11],
    [18, 11, 11],
    [110, 117, 119],
    [123, 142, 228]]"

definition MergeFlag_init :: CtxSetInit where
  "MergeFlag_init =
   [[14],
    [7],
    [19],
    [6],
    [6],
    [4],
    [18],
    [11],
    [18],
    [133],
    [105]]"

definition RegularMergeFlag_init :: CtxSetInit where
  "RegularMergeFlag_init =
   [[23, 14],
    [31, 6],
    [CNU, CNU],
    [6, 5],
    [6, 6],
    [DWS, DWS],
    [4, 18],
    [4, 18],
    [DWE, DWE],
    [131, 110],
    [131, 117]]"

definition MergeIdx_init :: CtxSetInit where
  "MergeIdx_init =
   [[26, 29, 44, 44, 29, CNU, CNU, CNU, CNU, CNU],
    [5, 29, 44, 37, 44, CNU, CNU, CNU, CNU, CNU],
    [33, 42, 43, 27, 18, CNU, CNU, CNU, CNU, CNU],
    [5, 5, 5, 5, 9, DWS, DWS, DWS, DWS, DWS],
    [6, 5, 5, 5, 9, DWS, DWS, DWS, DWS, DWS],
    [6, 7, 6, 13, 12, DWS, DWS, DWS, DWS, DWS],
    [18, 18, 18, 18, 11, DWE, DWE, DWE, DWE, DWE],
    [18, 18, 18, 18, 11, DWE, DWE, DWE, DWE, DWE],
    [18, 18, 4, 4, 4, DWE, DWE, DWE, DWE, DWE],
    [119, 134, 126, 126, 198, 119, 119, 119, 119, 119],
    [117, 105, 117, 116, 238, 119, 119, 119, 119, 119]]"

definition TmMergeIdx_init :: CtxSetInit where
  "TmMergeIdx_init =
   [[20, 43, 42, CNU, CNU, CNU, CNU, CNU, CNU, CNU],
    [21, 20, 42, CNU, CNU, CNU, CNU, CNU, CNU, CNU],
    [CNU, CNU, CNU, CNU, CNU, CNU, CNU, CNU, CNU, CNU],
    [4, 4, 4, DWS, DWS, DWS, DWS, DWS, DWS, DWS],
    [4, 5, 5, DWS, DWS, DWS, DWS, DWS, DWS, DWS],
    [DWS, DWS, DWS, DWS, DWS, DWS, DWS, DWS, DWS, DWS],
    [18, 18, 18, DWE, DWE, DWE, DWE, DWE, DWE, DWE],
    [18, 18, 18, DWE, DWE, DWE, DWE, DWE, DWE, DWE],
    [DWE, DWE, DWE, DWE, DWE, DWE, DWE, DWE, DWE, DWE],
    [135, 118, 125, 119, 119, 119, 119, 119, 119, 119],
    [116, 121, 119, 119, 119, 119, 119, 119, 119, 119]]"

definition GPMIntraFlag_init :: CtxSetInit where
  "GPMIntraFlag_init =
   [[19],
    [26],
    [CNU],
    [6],
    [6],
    [DWS],
    [18],
    [18],
    [DWE],
    [196],
    [121]]"

definition MmvdFlag_init :: CtxSetInit where
  "MmvdFlag_init =
   [[18],
    [18],
    [CNU],
    [6],
    [5],
    [DWS],
    [18],
    [18],
    [DWE],
    [117],
    [117]]"

definition MmvdMergeIdx_init :: CtxSetInit where
  "MmvdMergeIdx_init =
   [[58],
    [43],
    [CNU],
    [9],
    [10],
    [DWS],
    [18],
    [11],
    [DWE],
    [116],
    [118]]"

definition MmvdStepMvpIdx_init :: CtxSetInit where
  "MmvdStepMvpIdx_init =
   [[43, 36, 36, 28, 35],
    [28, 21, 36, 28, 43],
    [CNU, CNU, CNU, CNU, CNU],
    [5, 4, 4, 4, 4],
    [5, 5, 5, 5, 4],
    [DWS, DWS, DWS, DWS, DWS],
    [18, 11, 11, 11, 11],
    [18, 18, 18, 18, 11],
    [DWE, DWE, DWE, DWE, DWE],
    [142, 157, 157, 142, 155],
    [116, 103, 104, 108, 117]]"

definition GeoMmvdFlag_init :: CtxSetInit where
  "GeoMmvdFlag_init =
   [[33],
    [26],
    [CNU],
    [3],
    [2],
    [DWS],
    [4],
    [4],
    [DWE],
    [109],
    [115]]"

definition GeoMmvdStepMvpIdx_init :: CtxSetInit where
  "GeoMmvdStepMvpIdx_init =
   [[59],
    [60],
    [CNU],
    [1],
    [1],
    [DWS],
    [11],
    [11],
    [DWE],
    [126],
    [122]]"

definition GeoSubModeIdx_init :: CtxSetInit where
  "GeoSubModeIdx_init =
   [[33, 28, 36, 36, 29],
    [20, 21, 29, 29, 29],
    [34, 43, 36, 35, 25],
    [4, 5, 4, 4, 8],
    [5, 5, 5, 4, 8],
    [5, 4, 10, 13, 13],
    [DWE, DWE, DWE, DWE, DWE],
    [DWE, DWE, DWE, DWE, DWE],
    [DWE, DWE, DWE, DWE, DWE],
    [DWO, DWO, DWO, DWO, DWO],
    [DWO, DWO, DWO, DWO, DWO]]"

definition AfMmvdFlag_init :: CtxSetInit where
  "AfMmvdFlag_init =
   [[11],
    [4],
    [CNU],
    [5],
    [5],
    [DWS],
    [18],
    [25],
    [DWE],
    [119],
    [132]]"

definition AfMmvdIdx_init :: CtxSetInit where
  "AfMmvdIdx_init =
   [[CNU],
    [CNU],
    [CNU],
    [DWS],
    [DWS],
    [DWS],
    [DWE],
    [DWE],
    [DWE],
    [119],
    [119]]"

definition AfMmvdOffsetStep_init :: CtxSetInit where
  "AfMmvdOffsetStep_init =
   [[21, 29, 29, 29, 44],
    [13, 21, 36, 29, 44],
    [CNU, CNU, CNU, CNU, CNU],
    [5, 5, 5, 4, 5],
    [5, 5, 4, 5, 9],
    [DWS, DWS, DWS, DWS, DWS],
    [18, 18, 18, 11, 11],
    [18, 18, 11, 18, 25],
    [DWE, DWE, DWE, DWE, DWE],
    [126, 141, 187, 219, 238],
    [117, 102, 100, 100, 87]]"

definition TMMergeFlag_init :: CtxSetInit where
  "TMMergeFlag_init =
   [[25, 33],
    [33, 25],
    [CNU, 35],
    [5, 5],
    [5, 5],
    [DWS, 4],
    [18, 18],
    [18, 18],
    [DWE, DWE],
    [119, 119],
    [125, 125]]"

definition CiipTMMergeFlag_init :: CtxSetInit where
  "CiipTMMergeFlag_init =
   [[18],
    [26],
    [CNU],
    [5],
    [5],
    [DWS],
    [18],
    [11],
    [DWE],
    [141],
    [118]]"

definition PredMode_init :: CtxSetInit where
  "PredMode_init =
   [[25, 21],
    [40, 28],
    [CNU, CNU],
    [6, 2],
    [6, 2],
    [DWS, DWS],
    [18, 18],
    [18, 18],
    [DWE, DWE],
    [106, 119],
    [117, 118]]"

definition MultiRefLineIdx_init :: CtxSetInit where
  "MultiRefLineIdx_init =
   [[18, 51, 51, 51, 43, 25, 59],
    [25, 50, 50, 43, 50, 25, 58],
    [25, 59, 52, 44, 59, 25, 60],
    [6, 4, 5, 5, 6, 6, 4],
    [6, 4, 5, 4, 5, 6, 4],
    [6, 4, 8, 4, 4, 6, 8],
    [18, 11, 11, 18, 18, 11, 11],
    [11, 11, 18, 4, 11, 11, 18],
    [18, 4, 18, 4, 4, 18, 25],
    [123, 115, 109, 101, 100, 124, 117],
    [146, 150, 138, 139, 168, 121, 148]]"

definition IntraLumaMpmFlag_init :: CtxSetInit where
  "IntraLumaMpmFlag_init =
   [[44],
    [29],
    [29],
    [6],
    [6],
    [6],
    [11],
    [11],
    [18],
    [117],
    [119]]"

definition IntraLumaSecondMpmFlag_init :: CtxSetInit where
  "IntraLumaSecondMpmFlag_init =
   [[36],
    [36],
    [36],
    [6],
    [10],
    [6],
    [4],
    [11],
    [11],
    [119],
    [126]]"

definition IntraLumaMPMIdx_init :: CtxSetInit where
  "IntraLumaMPMIdx_init =
   [[28, 44, 28],
    [21, 37, 28],
    [20, 44, 50],
    [1, 2, 6],
    [6, 2, 6],
    [1, 2, 6],
    [11, 11, 18],
    [11, 4, 11],
    [11, 11, 18],
    [121, 126, 119],
    [119, 109, 121]]"

definition IntraLumaPlanarFlag_init :: CtxSetInit where
  "IntraLumaPlanarFlag_init =
   [[6, 6],
    [6, 28],
    [23, 21],
    [1, 2],
    [1, 2],
    [1, 6],
    [18, 18],
    [18, 18],
    [11, 25],
    [125, 116],
    [116, 117]]"

definition CclmModeFlag_init :: CtxSetInit where
  "CclmModeFlag_init =
   [[26],
    [26],
    [59],
    [1],
    [5],
    [5],
    [18],
    [25],
    [25],
    [117],
    [147]]"

definition CclmModeIdx_init :: CtxSetInit where
  "CclmModeIdx_init =
   [[26],
    [34],
    [12],
    [5],
    [5],
    [5],
    [11],
    [11],
    [11],
    [116],
    [131]]"

definition IntraChromaPredMode_init :: CtxSetInit where
  "IntraChromaPredMode_init =
   [[25],
    [25],
    [34],
    [5],
    [5],
    [5],
    [18],
    [11],
    [18],
    [116],
    [118]]"

definition DimdChromaMode_init :: CtxSetInit where
  "DimdChromaMode_init =
   [[CNU],
    [CNU],
    [CNU],
    [DWS],
    [DWS],
    [DWS],
    [DWE],
    [DWE],
    [DWE],
    [DWO],
    [DWO]]"

definition ChromaFusionMode_init :: CtxSetInit where
  "ChromaFusionMode_init =
   [[CNU],
    [CNU],
    [CNU],
    [DWS],
    [DWS],
    [DWS],
    [DWE],
    [DWE],
    [DWE],
    [DWO],
    [DWO]]"

definition MipFlag_init :: CtxSetInit where
  "MipFlag_init =
   [[48, 49, 42, 33],
    [48, 49, 50, 33],
    [48, 41, 42, 25],
    [9, 10, 8, 6],
    [9, 9, 8, 6],
    [10, 10, 8, 6],
    [18, 18, 18, 18],
    [11, 11, 18, 11],
    [18, 11, 11, 11],
    [104, 118, 118, 108],
    [117, 118, 120, 124]]"

definition TmpFlag_init :: CtxSetInit where
  "TmpFlag_init =
   [[33, 42, 7, 33],
    [0, 25, 57, 0],
    [40, 19, 21, 33],
    [1, 4, 6, 1],
    [8, 8, 0, 12],
    [6, 5, 0, 2],
    [11, 32, 25, 18],
    [4, 25, 32, 11],
    [25, 32, 4, 25],
    [99, 101, 133, 115],
    [147, 161, 114, 131]]"

definition MMLMFlag_init :: CtxSetInit where
  "MMLMFlag_init =
   [[46],
    [46],
    [37],
    [5],
    [5],
    [5],
    [4],
    [18],
    [11],
    [109],
    [133]]"

definition DeltaQP_init :: CtxSetInit where
  "DeltaQP_init =
   [[35, 35],
    [35, 35],
    [35, 35],
    [8, 8],
    [8, 8],
    [8, 8],
    [DWE, DWE],
    [DWE, DWE],
    [DWE, DWE],
    [119, 119],
    [119, 119]]"

definition InterDir_init :: CtxSetInit where
  "InterDir_init =
   [[7, 13, 12, 4, 18, 3, 10, 0],
    [7, 6, 5, 4, 11, 18, 10, 48],
    [CNU, CNU, CNU, CNU, CNU, CNU, CNU, CNU],
    [0, 0, 1, 1, 5, 5, 6, 1],
    [1, 1, 1, 1, 5, 9, 6, 1],
    [DWS, DWS, DWS, DWS, DWS, DWS, DWS, DWS],
    [18, 11, 11, 4, 18, 18, 18, 32],
    [32, 18, 11, 4, 11, 18, 4, 18],
    [DWE, DWE, DWE, DWE, DWE, DWE, DWE, DWE],
    [116, 116, 117, 117, 117, 103, 67, 228],
    [116, 148, 148, 124, 148, 148, 119, 116]]"

definition RefPic_init :: CtxSetInit where
  "RefPic_init =
   [[20, 28],
    [5, 29],
    [CNU, CNU],
    [1, 1],
    [1, 5],
    [DWS, DWS],
    [11, 4],
    [18, 18],
    [DWE, DWE],
    [122, 125],
    [124, 103]]"

definition RefPicLC_init :: CtxSetInit where
  "RefPicLC_init =
   [[CNU, CNU, CNU],
    [CNU, CNU, CNU],
    [CNU, CNU, CNU],
    [DWS, DWS, DWS],
    [DWS, DWS, DWS],
    [DWS, DWS, DWS],
    [DWE, DWE, DWE],
    [DWE, DWE, DWE],
    [DWE, DWE, DWE],
    [DWO, DWO, DWO],
    [DWO, DWO, DWO]]"

definition SubblockMergeFlag_init :: CtxSetInit where
  "SubblockMergeFlag_init =
   [[25, 43, 30],
    [40, 34, 36],
    [CNU, CNU, CNU],
    [6, 5, 5],
    [6, 5, 5],
    [DWS, DWS, DWS],
    [18, 18, 18],
    [11, 18, 18],
    [DWE, DWE, DWE],
    [121, 117, 118],
    [126, 133, 148]]"

definition BMMergeFlag_init :: CtxSetInit where
  "BMMergeFlag_init =
   [[48, 50, 50, 50],
    [56, 50, 43, 28],
    [CNU, CNU, CNU, CNU],
    [5, 5, 9, 5],
    [5, 5, 5, 5],
    [DWS, DWS, DWS, DWS],
    [18, 18, 25, 18],
    [18, 18, 11, 18],
    [DWE, DWE, DWE, DWE],
    [126, 126, 181, 126],
    [117, 117, 110, 116]]"

definition AffineFlag_init :: CtxSetInit where
  "AffineFlag_init =
   [[19, 6, 7],
    [19, 5, 6],
    [CNU, CNU, CNU],
    [5, 1, 0],
    [5, 1, 1],
    [DWS, DWS, DWS],
    [11, 11, 4],
    [11, 11, 18],
    [DWE, DWE, DWE],
    [116, 119, 148],
    [117, 117, 116]]"

definition AffineType_init :: CtxSetInit where
  "AffineType_init =
   [[19],
    [34],
    [CNU],
    [1],
    [1],
    [DWS],
    [4],
    [4],
    [DWE],
    [102],
    [211]]"

definition AffMergeIdx_init :: CtxSetInit where
  "AffMergeIdx_init =
   [[4],
    [4],
    [CNU],
    [1],
    [1],
    [DWS],
    [18],
    [25],
    [DWE],
    [118],
    [148]]"

definition LICFlag_init :: CtxSetInit where
  "LICFlag_init =
   [[12],
    [4],
    [CNU],
    [5],
    [5],
    [DWS],
    [11],
    [4],
    [DWE],
    [132],
    [132]]"

definition BcwIdx_init :: CtxSetInit where
  "BcwIdx_init =
   [[4],
    [5],
    [CNU],
    [0],
    [0],
    [DWS],
    [4],
    [11],
    [DWE],
    [164],
    [118]]"

definition Mvd_init :: CtxSetInit where
  "Mvd_init =
   [[44, 36],
    [44, 43],
    [21, 30],
    [6, 3],
    [6, 3],
    [13, 9],
    [4, 11],
    [4, 11],
    [25, 4],
    [141, 116],
    [126, 68]]"

definition Bvd_init :: CtxSetInit where
  "Bvd_init =
   [[53, 38, 38, 29, 20, 34, 27, 45, 37, 43, 34, 48],
    [38, 38, 38, 29, 28, 42, 27, 45, 44, 28, 42, 33],
    [38, 38, 38, 29, 28, 42, 27, 45, 44, 28, 42, 33],
    [1, 12, 8, 4, 2, 5, 3, 4, 0, 0, 5, 4],
    [6, 10, 9, 6, 7, 7, 5, 5, 4, 1, 2, 3],
    [6, 10, 9, 6, 7, 7, 5, 5, 4, 1, 2, 3],
    [DWE, DWE, DWE, DWE, DWE, DWE, DWE, DWE, DWE, DWE, DWE, DWE],
    [DWE, DWE, DWE, DWE, DWE, DWE, DWE, DWE, DWE, DWE, DWE, DWE],
    [DWE, DWE, DWE, DWE, DWE, DWE, DWE, DWE, DWE, DWE, DWE, DWE],
    [DWO, DWO, DWO, DWO, DWO, DWO, DWO, DWO, DWO, DWO, DWO, DWO],
    [DWO, DWO, DWO, DWO, DWO, DWO, DWO, DWO, DWO, DWO, DWO, DWO]]"

definition MvsdIdx_init :: CtxSetInit where
  "MvsdIdx_init =
   [[34, 41, 49, 41],
    [34, 41, 34, 41],
    [CNU, CNU, CNU, CNU],
    [13, 13, 12, 12],
    [13, 13, 12, 12],
    [DWS, DWS, DWS, DWS],
    [4, 4, 4, 4],
    [4, 4, 18, 4],
    [DWE, DWE, DWE, DWE],
    [222, 83, 181, 94],
    [100, 116, 100, 101]]"

definition MultiHypothesisFlag_init :: CtxSetInit where
  "MultiHypothesisFlag_init =
   [[17, 42, 51],
    [10, 42, 51],
    [CNU, CNU, CNU],
    [2, 6, 5],
    [2, 5, 1],
    [DWS, DWS, DWS],
    [11, 11, 18],
    [11, 11, 4],
    [DWE, DWE, DWE],
    [116, 139, 118],
    [132, 109, 131]]"

definition MHRefPic_init :: CtxSetInit where
  "MHRefPic_init =
   [[20, 43],
    [28, 19],
    [CNU, CNU],
    [1, 1],
    [1, 0],
    [DWS, DWS],
    [11, 11],
    [11, 11],
    [DWE, DWE],
    [132, 148],
    [118, 117]]"

definition MHWeight_init :: CtxSetInit where
  "MHWeight_init =
   [[35, CNU],
    [35, CNU],
    [CNU, CNU],
    [1, DWS],
    [1, DWS],
    [DWS, DWS],
    [11, DWE],
    [11, DWE],
    [DWE, DWE],
    [126, 119],
    [126, 119]]"

definition BDPCMMode_init :: CtxSetInit where
  "BDPCMMode_init =
   [[33, 14, 0, 4],
    [0, 21, 0, 12],
    [11, 50, 0, 27],
    [1, 1, 4, 3],
    [1, 4, 0, 8],
    [1, 4, 8, 3],
    [18, 25, 32, 32],
    [4, 32, 32, 32],
    [18, 25, 11, 25],
    [118, 133, 83, 156],
    [120, 132, 212, 147]]"

definition QtRootCbf_init :: CtxSetInit where
  "QtRootCbf_init =
   [[5],
    [5],
    [6],
    [1],
    [1],
    [6],
    [4],
    [4],
    [32],
    [118],
    [102]]"

definition ACTFlag_init :: CtxSetInit where
  "ACTFlag_init =
   [[46],
    [46],
    [52],
    [1],
    [1],
    [1],
    [DWE],
    [DWE],
    [DWE],
    [119],
    [119]]"

definition QtCbf_0_init :: CtxSetInit where
  "QtCbf_0_init =
   [[23, 30, 13, 14],
    [31, 6, 13, 7],
    [15, 12, 5, 7],
    [6, 1, 9, 9],
    [6, 0, 5, 9],
    [5, 1, 5, 5],
    [18, 18, 18, 25],
    [18, 18, 4, 11],
    [18, 18, 11, 4],
    [117, 118, 100, 147],
    [116, 116, 179, 139]]"

definition QtCbf_1_init :: CtxSetInit where
  "QtCbf_1_init =
   [[25, 38],
    [25, 5],
    [12, 14],
    [6, 2],
    [6, 0],
    [5, 3],
    [18, 32],
    [25, 32],
    [18, 32],
    [106, 117],
    [131, 132]]"

definition QtCbf_2_init :: CtxSetInit where
  "QtCbf_2_init =
   [[17, 36, 22],
    [17, 36, 53],
    [26, 13, 37],
    [3, 2, 13],
    [2, 2, 2],
    [2, 2, 3],
    [18, 18, 4],
    [18, 18, 25],
    [18, 18, 32],
    [116, 118, 91],
    [121, 126, 130]]"

definition SigCoeffGroup_0_init :: CtxSetInit where
  "SigCoeffGroup_0_init =
   [[25, 38],
    [25, 45],
    [18, 31],
    [8, 5],
    [8, 5],
    [5, 5],
    [25, 18],
    [25, 18],
    [18, 18],
    [116, 124],
    [116, 119]]"

definition SigCoeffGroup_1_init :: CtxSetInit where
  "SigCoeffGroup_1_init =
   [[17, 45],
    [25, 45],
    [25, 7],
    [5, 8],
    [9, 13],
    [5, 9],
    [18, 11],
    [11, 25],
    [18, 18],
    [93, 151],
    [116, 121]]"

definition SigFlag_0_init :: CtxSetInit where
  "SigFlag_0_init =
   [[17, 41, 42, 29, 9, 42, 28, 37, 33, 44, 51, 45],
    [17, 41, 42, 29, 25, 42, 43, 37, 33, 44, 51, 30],
    [25, 19, 28, 14, 18, 28, 29, 30, 27, 45, 30, 38],
    [13, 9, 9, 10, 9, 10, 9, 10, 8, 9, 9, 9],
    [13, 9, 9, 10, 9, 10, 10, 10, 8, 9, 9, 9],
    [13, 9, 9, 10, 10, 10, 10, 13, 9, 9, 10, 10],
    [11, 11, 18, 18, 11, 18, 18, 11, 11, 18, 18, 11],
    [11, 11, 18, 18, 18, 18, 18, 11, 18, 18, 18, 11],
    [18, 11, 18, 11, 18, 11, 11, 11, 18, 18, 18, 11],
    [90, 119, 117, 121, 123, 119, 117, 126, 126, 132, 118, 132],
    [120, 133, 118, 125, 117, 126, 119, 120, 117, 117, 132, 108]]"

definition SigFlag_1_init :: CtxSetInit where
  "SigFlag_1_init =
   [[25, 42, 43, 29, 41, 60, 60, 38],
    [18, 27, 28, 29, 34, 45, 45, 38],
    [25, 27, 28, 37, 27, 53, 53, 46],
    [8, 13, 9, 13, 5, 5, 8, 10],
    [13, 13, 13, 13, 5, 5, 8, 9],
    [12, 12, 9, 13, 5, 5, 9, 9],
    [4, 25, 11, 11, 18, 18, 18, 18],
    [18, 18, 18, 11, 11, 11, 18, 18],
    [18, 18, 11, 18, 11, 11, 11, 11],
    [119, 108, 119, 103, 125, 133, 132, 118],
    [109, 117, 126, 124, 119, 110, 126, 137]]"

definition SigFlag_2_init :: CtxSetInit where
  "SigFlag_2_init =
   [[26, 45, 53, 46, 19, 54, 61, 39, 34, 39, 39, 39],
    [26, 38, 38, 46, 34, 54, 54, 39, 13, 39, 39, 39],
    [26, 38, 46, 54, 27, 39, 39, 39, 28, 39, 39, 39],
    [9, 13, 12, 8, 8, 8, 8, 4, 0, 0, 0, 0],
    [9, 13, 12, 8, 8, 8, 8, 5, 0, 0, 0, 0],
    [9, 13, 12, 8, 8, 8, 8, 4, 4, 0, 0, 0],
    [11, 11, 18, 18, 18, 25, 25, 18, 4, 32, 32, 32],
    [11, 11, 32, 11, 18, 25, 25, 25, 32, 32, 32, 32],
    [18, 11, 32, 11, 18, 32, 32, 18, 32, 32, 32, 32],
    [118, 238, 151, 158, 148, 182, 166, 142, 131, 168, 238, 138],
    [126, 236, 126, 91, 117, 131, 131, 98, 228, 116, 116, 116]]"

definition SigFlag_3_init :: CtxSetInit where
  "SigFlag_3_init =
   [[41, 45, 38, 31, 4, 39, 39, 39],
    [34, 38, 53, 54, 44, 39, 39, 39],
    [19, 46, 38, 39, 44, 39, 39, 39],
    [8, 12, 12, 8, 4, 0, 0, 0],
    [8, 12, 12, 8, 4, 0, 0, 0],
    [8, 12, 12, 8, 0, 0, 0, 0],
    [18, 18, 25, 25, 25, 32, 32, 32],
    [11, 11, 25, 25, 25, 32, 32, 32],
    [18, 18, 18, 25, 32, 32, 32, 32],
    [132, 233, 221, 197, 116, 197, 214, 116],
    [117, 155, 98, 102, 149, 98, 116, 99]]"

definition SigFlag_4_init :: CtxSetInit where
  "SigFlag_4_init =
   [[26, 54, 39, 39, 34, 39, 39, 39, 0, 39, 39, 39],
    [19, 39, 54, 39, 19, 39, 39, 39, 48, 39, 39, 39],
    [18, 39, 39, 39, 27, 39, 39, 39, 0, 39, 39, 39],
    [8, 8, 8, 12, 8, 4, 4, 8, 4, 0, 0, 0],
    [8, 8, 8, 12, 8, 4, 4, 8, 0, 0, 0, 0],
    [8, 8, 12, 12, 8, 0, 4, 4, 0, 0, 0, 0],
    [18, 25, 25, 32, 18, 18, 25, 32, 32, 32, 32, 32],
    [18, 25, 18, 32, 18, 18, 25, 32, 25, 32, 32, 32],
    [18, 25, 32, 32, 18, 25, 32, 32, 32, 32, 32, 32],
    [119, 190, 190, 171, 132, 155, 142, 139, 82, 117, 238, 229],
    [119, 115, 108, 92, 117, 99, 99, 82, 134, 116, 116, 116]]"

definition SigFlag_5_init :: CtxSetInit where
  "SigFlag_5_init =
   [[26, 38, 54, 39, 26, 39, 39, 39],
    [34, 38, 62, 39, 26, 39, 39, 39],
    [11, 39, 39, 39, 26, 39, 39, 39],
    [8, 12, 8, 8, 0, 0, 0, 0],
    [8, 8, 8, 8, 0, 0, 0, 0],
    [8, 8, 8, 8, 4, 0, 0, 0],
    [25, 32, 25, 25, 18, 32, 32, 32],
    [18, 18, 25, 25, 18, 32, 32, 32],
    [18, 18, 25, 25, 25, 32, 32, 32],
    [227, 190, 168, 158, 115, 185, 229, 196],
    [117, 182, 118, 116, 134, 114, 114, 99]]"

definition ParFlag_0_init :: CtxSetInit where
  "ParFlag_0_init =
   [[33, 40, 33, 26, 34, 42, 25, 33, 34, 34, 27, 25, 34, 42, 42, 35, 33, 27, 35, 42, 35],
    [33, 25, 33, 26, 34, 42, 25, 33, 34, 42, 27, 25, 34, 42, 42, 35, 26, 27, 42, 35, 35],
    [33, 25, 18, 26, 34, 27, 25, 26, 19, 42, 35, 33, 19, 27, 35, 35, 34, 42, 20, 43, 20],
    [8, 9, 13, 13, 13, 13, 13, 13, 13, 13, 13, 12, 13, 13, 13, 13, 9, 13, 13, 12, 13],
    [9, 9, 9, 12, 13, 13, 13, 13, 13, 13, 13, 12, 13, 13, 13, 13, 10, 13, 13, 13, 13],
    [8, 9, 9, 13, 13, 13, 13, 13, 13, 13, 13, 13, 13, 13, 13, 13, 13, 13, 13, 13, 13],
    [4, 11, 11, 11, 4, 4, 11, 11, 11, 11, 4, 11, 18, 11, 11, 4, 11, 18, 11, 11, 4],
    [11, 11, 4, 11, 4, 4, 11, 11, 11, 4, 4, 11, 11, 11, 4, 4, 11, 11, 11, 11, 4],
    [11, 4, 4, 4, 4, 4, 11, 11, 11, 11, 4, 11, 11, 11, 11, 4, 11, 11, 11, 11, 11],
    [78, 90, 91, 102, 126, 126, 89, 119, 103, 158, 119, 171, 119, 126, 125, 123, 106, 135, 120, 119, 135],
    [133, 147, 117, 118, 126, 134, 120, 126, 140, 120, 140, 147, 126, 121, 133, 126, 147, 118, 126, 212, 119]]"

definition ParFlag_1_init :: CtxSetInit where
  "ParFlag_1_init =
   [[33, 25, 26, 19, 42, 27, 33, 42, 35, 35, 35],
    [33, 25, 26, 19, 34, 27, 33, 42, 35, 35, 35],
    [33, 25, 26, 42, 19, 27, 26, 50, 35, 35, 35],
    [9, 13, 13, 13, 13, 13, 9, 9, 13, 13, 13],
    [8, 13, 13, 12, 13, 13, 13, 13, 13, 13, 13],
    [12, 13, 12, 12, 12, 13, 13, 13, 13, 12, 13],
    [11, 11, 18, 18, 11, 4, 4, 4, 18, 18, 4],
    [4, 11, 18, 11, 11, 4, 11, 18, 11, 18, 4],
    [11, 11, 4, 11, 4, 4, 11, 11, 11, 11, 11],
    [69, 123, 115, 100, 101, 119, 121, 117, 121, 117, 236],
    [198, 118, 120, 132, 137, 124, 116, 133, 138, 135, 104]]"

definition GtxFlag_0_init :: CtxSetInit where
  "GtxFlag_0_init =
   [[25, 0, 40, 25, 33, 26, 0, 17, 25, 33, 19, 9, 25, 26, 34, 20, 25, 18, 19, 20, 37],
    [1, 0, 17, 17, 25, 26, 0, 9, 25, 33, 34, 9, 25, 33, 34, 20, 25, 33, 19, 27, 29],
    [25, 1, 40, 25, 33, 19, 9, 25, 25, 18, 12, 17, 33, 26, 19, 13, 33, 19, 20, 28, 22],
    [1, 9, 9, 6, 6, 5, 9, 9, 10, 9, 6, 9, 9, 9, 5, 5, 6, 8, 5, 9, 9],
    [2, 8, 5, 9, 9, 5, 12, 12, 9, 13, 2, 9, 9, 9, 9, 5, 6, 5, 9, 9, 9],
    [4, 9, 6, 6, 6, 5, 9, 12, 9, 9, 6, 13, 10, 10, 10, 10, 6, 9, 10, 10, 10],
    [11, 11, 18, 4, 4, 18, 4, 4, 11, 4, 18, 11, 11, 18, 4, 4, 11, 18, 11, 18, 11],
    [4, 4, 4, 4, 4, 18, 11, 4, 4, 11, 4, 4, 11, 18, 18, 4, 11, 4, 18, 18, 11],
    [18, 11, 4, 4, 4, 18, 11, 18, 11, 11, 18, 18, 18, 18, 18, 18, 11, 18, 18, 18, 11],
    [99, 69, 83, 90, 78, 147, 68, 84, 124, 103, 116, 88, 105, 125, 117, 117, 105, 120, 121, 124, 125],
    [134, 163, 118, 117, 116, 117, 148, 119, 117, 131, 118, 117, 131, 117, 117, 115, 126, 116, 116, 116, 118]]"

definition GtxFlag_1_init :: CtxSetInit where
  "GtxFlag_1_init =
   [[25, 9, 25, 33, 26, 12, 17, 33, 34, 28, 45],
    [1, 1, 25, 18, 11, 12, 17, 33, 19, 20, 22],
    [40, 1, 25, 18, 34, 12, 25, 34, 35, 36, 37],
    [1, 6, 9, 5, 5, 2, 6, 9, 8, 5, 8],
    [5, 8, 9, 5, 5, 2, 6, 9, 5, 5, 8],
    [2, 9, 9, 8, 8, 2, 10, 5, 8, 8, 9],
    [18, 4, 4, 4, 4, 4, 4, 4, 11, 4, 11],
    [4, 4, 11, 11, 4, 4, 4, 4, 11, 11, 11],
    [11, 4, 11, 18, 18, 4, 11, 4, 18, 18, 11],
    [99, 69, 76, 101, 100, 117, 99, 100, 102, 102, 116],
    [118, 117, 118, 119, 148, 116, 117, 119, 134, 141, 120]]"

definition GtxFlag_2_init :: CtxSetInit where
  "GtxFlag_2_init =
   [[9, 17, 26, 27, 35, 21, 25, 34, 35, 36, 37, 33, 35, 36, 29, 30, 34, 36, 37, 45, 38],
    [1, 17, 26, 34, 35, 44, 25, 34, 35, 36, 37, 33, 20, 36, 29, 37, 34, 28, 37, 37, 38],
    [25, 25, 11, 27, 20, 29, 33, 12, 28, 21, 22, 34, 28, 29, 29, 30, 28, 29, 45, 30, 23],
    [9, 8, 6, 9, 10, 9, 9, 10, 13, 13, 10, 9, 10, 9, 10, 10, 6, 9, 10, 13, 13],
    [9, 9, 6, 9, 10, 10, 9, 10, 13, 13, 10, 10, 10, 10, 10, 9, 9, 9, 10, 9, 13],
    [9, 5, 6, 10, 10, 10, 13, 10, 13, 13, 13, 9, 10, 10, 10, 13, 10, 10, 10, 10, 13],
    [11, 4, 4, 4, 4, 18, 11, 11, 18, 11, 4, 18, 18, 11, 11, 4, 18, 11, 18, 18, 11],
    [11, 11, 4, 4, 4, 18, 11, 11, 18, 11, 4, 18, 18, 11, 11, 4, 18, 18, 11, 11, 11],
    [11, 4, 4, 4, 4, 18, 18, 11, 11, 11, 18, 11, 11, 11, 11, 11, 18, 18, 11, 11, 11],
    [88, 99, 107, 117, 117, 117, 92, 122, 117, 116, 110, 116, 123, 118, 122, 117, 116, 124, 126, 125, 124],
    [227, 117, 116, 100, 104, 117, 117, 126, 120, 156, 135, 118, 116, 124, 120, 102, 117, 116, 118, 116, 90]]"

definition GtxFlag_3_init :: CtxSetInit where
  "GtxFlag_3_init =
   [[9, 25, 27, 36, 13, 37, 42, 37, 45, 38, 46],
    [9, 25, 35, 28, 21, 22, 35, 37, 30, 30, 23],
    [40, 41, 35, 36, 21, 37, 36, 37, 45, 38, 46],
    [9, 9, 9, 9, 13, 10, 5, 6, 5, 9, 9],
    [9, 13, 13, 13, 13, 10, 5, 9, 5, 5, 9],
    [9, 12, 9, 8, 8, 9, 9, 12, 8, 12, 13],
    [11, 11, 11, 4, 11, 11, 11, 4, 4, 18, 11],
    [4, 18, 18, 18, 18, 11, 11, 18, 11, 11, 11],
    [11, 18, 11, 4, 4, 11, 11, 18, 4, 18, 18],
    [74, 99, 109, 115, 115, 117, 117, 100, 164, 110, 118],
    [117, 115, 119, 138, 167, 121, 118, 221, 105, 164, 105]]"

definition LastX_0_init :: CtxSetInit where
  "LastX_0_init =
   [[21, 6, 12, 14, 7, 4, 14, 7, 6, 4, 14, 7, 14, 6, 5, 14, 7, 14, 14, 22, 20, 21, 14, 29, 5, CNU, CNU, CNU, CNU, CNU, CNU, CNU, CNU, CNU, CNU, CNU],
    [6, 13, 12, 6, 6, 12, 14, 6, 5, 12, 29, 14, 6, 6, 6, 14, 14, 6, 6, 14, 53, 14, 6, 22, 54, CNU, CNU, CNU, CNU, CNU, CNU, CNU, CNU, CNU, CNU, CNU],
    [21, 5, 4, 6, 6, 4, 6, 14, 14, 4, 14, 7, 30, 14, 4, 22, 38, 15, 22, 6, 4, 7, 45, 22, 6, CNU, CNU, CNU, CNU, CNU, CNU, CNU, CNU, CNU, CNU, CNU],
    [5, 5, 5, 6, 5, 1, 6, 5, 2, 1, 6, 1, 1, 1, 1, 2, 2, 1, 1, 1, 0, 1, 4, 4, 0, DWS, DWS, DWS, DWS, DWS, DWS, DWS, DWS, DWS, DWS, DWS],
    [5, 5, 5, 6, 5, 1, 6, 5, 1, 0, 6, 1, 1, 1, 0, 1, 1, 1, 0, 0, 0, 1, 4, 0, 0, DWS, DWS, DWS, DWS, DWS, DWS, DWS, DWS, DWS, DWS, DWS],
    [9, 5, 5, 6, 5, 4, 5, 5, 1, 1, 5, 1, 1, 0, 0, 1, 1, 1, 0, 0, 0, 5, 4, 0, 0, DWS, DWS, DWS, DWS, DWS, DWS, DWS, DWS, DWS, DWS, DWS],
    [18, 18, 18, 18, 18, 11, 18, 18, 18, 18, 18, 11, 18, 25, 25, 11, 11, 18, 25, 32, 32, 18, 32, 32, 32, DWE, DWE, DWE, DWE, DWE, DWE, DWE, DWE, DWE, DWE, DWE],
    [18, 18, 18, 18, 18, 11, 18, 18, 18, 18, 18, 11, 18, 25, 32, 11, 11, 18, 18, 32, 32, 18, 18, 32, 32, DWE, DWE, DWE, DWE, DWE, DWE, DWE, DWE, DWE, DWE, DWE],
    [25, 18, 18, 18, 25, 25, 18, 25, 18, 32, 25, 18, 25, 18, 32, 18, 18, 25, 32, 32, 32, 32, 32, 32, 32, DWE, DWE, DWE, DWE, DWE, DWE, DWE, DWE, DWE, DWE, DWE],
    [116, 117, 118, 125, 119, 118, 122, 118, 126, 132, 118, 121, 118, 228, 116, 133, 126, 118, 148, 148, 116, 165, 237, 212, 116, DWO, DWO, DWO, DWO, DWO, DWO, DWO, DWO, DWO, DWO, DWO],
    [117, 118, 117, 132, 228, 103, 132, 228, 149, 117, 164, 149, 149, 229, 116, 126, 132, 227, 228, 228, 116, 132, 228, 228, 116, DWO, DWO, DWO, DWO, DWO, DWO, DWO, DWO, DWO, DWO, DWO]]"

definition LastX_1_init :: CtxSetInit where
  "LastX_1_init =
   [[4, 12, 3],
    [19, 26, 25],
    [12, 4, 3],
    [1, 4, 1],
    [6, 5, 5],
    [6, 4, 1],
    [11, 18, 4],
    [18, 18, 18],
    [18, 18, 11],
    [117, 118, 117],
    [132, 118, 117]]"

definition LastY_0_init :: CtxSetInit where
  "LastY_0_init =
   [[5, 5, 20, 6, 6, 4, 6, 14, 5, 12, 14, 7, 13, 5, 20, 21, 7, 6, 5, 28, 43, 21, 6, 21, 57, CNU, CNU, CNU, CNU, CNU, CNU, CNU, CNU, CNU, CNU, CNU],
    [5, 5, 4, 6, 6, 4, 14, 14, 5, 4, 14, 7, 13, 5, 14, 21, 7, 13, 13, 14, 22, 14, 6, 6, 30, CNU, CNU, CNU, CNU, CNU, CNU, CNU, CNU, CNU, CNU, CNU],
    [13, 5, 4, 14, 6, 11, 14, 14, 5, 11, 14, 7, 6, 5, 3, 22, 38, 22, 14, 5, 4, 36, 30, 6, 4, CNU, CNU, CNU, CNU, CNU, CNU, CNU, CNU, CNU, CNU, CNU],
    [6, 5, 5, 6, 5, 5, 6, 6, 5, 1, 2, 6, 1, 1, 0, 2, 2, 1, 0, 0, 0, 1, 8, 4, 0, DWS, DWS, DWS, DWS, DWS, DWS, DWS, DWS, DWS, DWS, DWS],
    [5, 5, 5, 6, 6, 1, 6, 6, 5, 1, 6, 5, 1, 0, 0, 2, 2, 1, 0, 0, 0, 1, 8, 0, 0, DWS, DWS, DWS, DWS, DWS, DWS, DWS, DWS, DWS, DWS, DWS],
    [9, 5, 8, 6, 5, 4, 6, 5, 4, 0, 6, 6, 1, 4, 0, 1, 1, 1, 1, 0, 0, 0, 4, 4, 0, DWS, DWS, DWS, DWS, DWS, DWS, DWS, DWS, DWS, DWS, DWS],
    [18, 18, 18, 18, 18, 18, 18, 18, 18, 18, 4, 18, 11, 18, 25, 11, 4, 11, 11, 25, 32, 18, 32, 32, 32, DWE, DWE, DWE, DWE, DWE, DWE, DWE, DWE, DWE, DWE, DWE],
    [4, 11, 11, 18, 18, 4, 18, 18, 18, 18, 18, 18, 11, 18, 32, 18, 4, 18, 18, 32, 32, 18, 32, 32, 32, DWE, DWE, DWE, DWE, DWE, DWE, DWE, DWE, DWE, DWE, DWE],
    [18, 18, 18, 18, 18, 18, 18, 18, 18, 18, 25, 25, 18, 32, 32, 18, 18, 25, 32, 32, 32, 25, 32, 32, 32, DWE, DWE, DWE, DWE, DWE, DWE, DWE, DWE, DWE, DWE, DWE],
    [116, 120, 118, 119, 123, 118, 118, 124, 119, 132, 117, 116, 124, 134, 116, 126, 118, 119, 118, 196, 116, 196, 151, 232, 116, DWO, DWO, DWO, DWO, DWO, DWO, DWO, DWO, DWO, DWO, DWO],
    [116, 118, 118, 126, 228, 117, 116, 147, 230, 117, 132, 195, 165, 229, 116, 118, 123, 149, 228, 228, 116, 117, 230, 213, 116, DWO, DWO, DWO, DWO, DWO, DWO, DWO, DWO, DWO, DWO, DWO]]"

definition LastY_1_init :: CtxSetInit where
  "LastY_1_init =
   [[26, 20, 34],
    [26, 11, 25],
    [20, 4, 3],
    [2, 5, 0],
    [2, 6, 2],
    [6, 5, 2],
    [18, 32, 11],
    [11, 18, 4],
    [11, 18, 4],
    [117, 118, 117],
    [131, 148, 116]]"

definition MVPIdx_init :: CtxSetInit where
  "MVPIdx_init =
   [[34],
    [34],
    [34],
    [6],
    [9],
    [12],
    [4],
    [4],
    [4],
    [122],
    [100]]"

definition amFlagState_init :: CtxSetInit where
  "amFlagState_init =
   [[48],
    [41],
    [CNU],
    [5],
    [5],
    [DWS],
    [18],
    [11],
    [DWE],
    [118],
    [118]]"

definition SmvdFlag_init :: CtxSetInit where
  "SmvdFlag_init =
   [[43],
    [28],
    [CNU],
    [1],
    [4],
    [DWS],
    [11],
    [11],
    [DWE],
    [126],
    [102]]"

definition SaoMergeFlag_init :: CtxSetInit where
  "SaoMergeFlag_init =
   [[10],
    [61],
    [60],
    [1],
    [1],
    [0],
    [32],
    [18],
    [18],
    [116],
    [116]]"

definition SaoTypeIdx_init :: CtxSetInit where
  "SaoTypeIdx_init =
   [[10],
    [5],
    [5],
    [1],
    [8],
    [8],
    [18],
    [32],
    [32],
    [232],
    [197]]"

definition BifCtrlFlags_init :: CtxSetInit where
  "BifCtrlFlags_init =
   [[38],
    [38],
    [23],
    [6],
    [3],
    [3],
    [4],
    [4],
    [18],
    [115],
    [102]]"

definition ChromaBifCtrlFlagsCb_init :: CtxSetInit where
  "ChromaBifCtrlFlagsCb_init =
   [[53],
    [37],
    [22],
    [2],
    [3],
    [1],
    [25],
    [18],
    [11],
    [116],
    [116]]"

definition ChromaBifCtrlFlagsCr_init :: CtxSetInit where
  "ChromaBifCtrlFlagsCr_init =
   [[37],
    [30],
    [22],
    [3],
    [3],
    [2],
    [25],
    [18],
    [18],
    [116],
    [117]]"

definition CcSaoControlIdc_init :: CtxSetInit where
  "CcSaoControlIdc_init =
   [[11, 29, 38, 18, 29, 38, 18, 36, 45],
    [5, 30, 38, 19, 29, 45, 19, 21, 37],
    [50, 45, 38, 27, 37, 38, 35, 29, 30],
    [8, 0, 4, 5, 4, 4, 5, 4, 8],
    [5, 0, 4, 4, 4, 4, 4, 4, 4],
    [4, 0, 8, 0, 7, 4, 0, 2, 4],
    [18, 4, 11, 4, 18, 11, 11, 11, 32],
    [32, 4, 18, 18, 18, 18, 18, 18, 18],
    [32, 4, 32, 32, 32, 11, 25, 11, 18],
    [99, 165, 203, 99, 134, 237, 99, 148, 238],
    [198, 98, 99, 151, 98, 99, 141, 129, 99]]"

definition LFNSTIdx_init :: CtxSetInit where
  "LFNSTIdx_init =
   [[51, CNU, 43, 42],
    [36, CNU, 36, 35],
    [CNU, 51, 43, 42],
    [10, DWS, 5, 13],
    [10, DWS, 6, 13],
    [DWS, 10, 5, 10],
    [11, DWE, 11, 11],
    [11, DWE, 11, 11],
    [DWE, 11, 4, 11],
    [119, 126, 116, 116],
    [117, 117, 116, 125]]"

definition PLTFlag_init :: CtxSetInit where
  "PLTFlag_init =
   [[17],
    [0],
    [25],
    [1],
    [1],
    [1],
    [DWE],
    [DWE],
    [DWE],
    [119],
    [119]]"

definition RotationFlag_init :: CtxSetInit where
  "RotationFlag_init =
   [[35],
    [42],
    [42],
    [5],
    [5],
    [5],
    [DWE],
    [DWE],
    [DWE],
    [119],
    [119]]"

definition RunTypeFlag_init :: CtxSetInit where
  "RunTypeFlag_init =
   [[50],
    [59],
    [42],
    [9],
    [9],
    [9],
    [DWE],
    [DWE],
    [DWE],
    [119],
    [119]]"

definition IdxRunModel_init :: CtxSetInit where
  "IdxRunModel_init =
   [[58, 45, 45, 30, 38],
    [51, 30, 30, 38, 23],
    [50, 37, 45, 30, 46],
    [9, 6, 9, 10, 5],
    [9, 6, 9, 10, 5],
    [9, 6, 9, 10, 5],
    [DWE, DWE, DWE, DWE, DWE],
    [DWE, DWE, DWE, DWE, DWE],
    [DWE, DWE, DWE, DWE, DWE],
    [119, 119, 119, 119, 119],
    [119, 119, 119, 119, 119]]"

definition CopyRunModel_init :: CtxSetInit where
  "CopyRunModel_init =
   [[45, 38, 46],
    [38, 53, 46],
    [45, 38, 46],
    [0, 9, 5],
    [0, 9, 5],
    [0, 9, 5],
    [DWE, DWE, DWE],
    [DWE, DWE, DWE],
    [DWE, DWE, DWE],
    [119, 119, 119],
    [119, 119, 119]]"

definition TransformSkipFlag_init :: CtxSetInit where
  "TransformSkipFlag_init =
   [[25, 9],
    [25, 1],
    [25, 1],
    [2, 1],
    [2, 5],
    [1, 5],
    [18, 11],
    [18, 18],
    [11, 11],
    [119, 102],
    [147, 117]]"

definition MTSIdx_init :: CtxSetInit where
  "MTSIdx_init =
   [[43, 46, 46, CNU],
    [36, 46, 46, CNU],
    [27, 38, 38, CNU],
    [8, 9, 9, DWS],
    [12, 8, 8, DWS],
    [9, 9, 5, DWS],
    [11, 11, 18, DWE],
    [18, 11, 18, DWE],
    [18, 18, 4, DWE],
    [104, 135, 133, DWO],
    [135, 99, 83, DWO]]"

definition ISPMode_init :: CtxSetInit where
  "ISPMode_init =
   [[26, 43, 33],
    [33, 43, 33],
    [33, 43, 33],
    [5, 2, 5],
    [6, 3, 8],
    [9, 1, 9],
    [4, 18, 4],
    [11, 11, 11],
    [18, 11, 18],
    [107, 119, 86],
    [116, 120, 133]]"

definition SbtFlag_init :: CtxSetInit where
  "SbtFlag_init =
   [[40, 49],
    [48, 49],
    [CNU, CNU],
    [2, 6],
    [2, 6],
    [DWS, DWS],
    [11, 18],
    [11, 11],
    [DWE, DWE],
    [118, 110],
    [126, 126]]"

definition SbtQuadFlag_init :: CtxSetInit where
  "SbtQuadFlag_init =
   [[42],
    [42],
    [CNU],
    [10],
    [10],
    [DWS],
    [11],
    [11],
    [DWE],
    [100],
    [133]]"

definition SbtHorFlag_init :: CtxSetInit where
  "SbtHorFlag_init =
   [[20, 43, 20],
    [20, 58, 19],
    [CNU, CNU, CNU],
    [5, 5, 2],
    [6, 5, 5],
    [DWS, DWS, DWS],
    [4, 11, 11],
    [11, 11, 11],
    [DWE, DWE, DWE],
    [117, 122, 119],
    [124, 117, 117]]"

definition SbtPosFlag_init :: CtxSetInit where
  "SbtPosFlag_init =
   [[28],
    [28],
    [CNU],
    [13],
    [13],
    [DWS],
    [11],
    [11],
    [DWE],
    [102],
    [110]]"

definition ChromaQpAdjFlag_init :: CtxSetInit where
  "ChromaQpAdjFlag_init =
   [[35],
    [35],
    [35],
    [8],
    [8],
    [8],
    [DWE],
    [DWE],
    [DWE],
    [DWO],
    [DWO]]"

definition DimdFlag_init :: CtxSetInit where
  "DimdFlag_init =
   [[40, CNU, CNU],
    [48, CNU, CNU],
    [25, CNU, CNU],
    [6, DWS, DWS],
    [6, DWS, DWS],
    [3, DWS, DWS],
    [11, DWE, DWE],
    [11, DWE, DWE],
    [11, DWE, DWE],
    [107, DWO, DWO],
    [131, DWO, DWO]]"

definition TimdFlag_init :: CtxSetInit where
  "TimdFlag_init =
   [[41, 34, 42],
    [34, 34, 34],
    [42, 50, 58],
    [6, 6, 6],
    [7, 7, 5],
    [6, 6, 2],
    [11, 11, 18],
    [4, 4, 4],
    [11, 11, 11],
    [124, 126, 126],
    [126, 124, 117]]"

definition ObmcFlag_init :: CtxSetInit where
  "ObmcFlag_init =
   [[39],
    [39],
    [CNU],
    [1],
    [1],
    [DWS],
    [32],
    [32],
    [DWE],
    [115],
    [98]]"

definition ChromaQpAdjIdc_init :: CtxSetInit where
  "ChromaQpAdjIdc_init =
   [[35],
    [35],
    [35],
    [8],
    [8],
    [8],
    [DWE],
    [DWE],
    [DWE],
    [DWO],
    [DWO]]"

definition ImvFlag_init :: CtxSetInit where
  "ImvFlag_init =
   [[59, 33, 50, 59, 53],
    [59, 33, 50, 59, 60],
    [CNU, 34, CNU, CNU, CNU],
    [1, 5, 1, 0, 4],
    [1, 5, 1, 0, 5],
    [DWS, 6, DWS, DWS, DWS],
    [11, 18, 11, 32, 4],
    [11, 11, 11, 32, 11],
    [DWE, 4, DWE, DWE, DWE],
    [126, 92, 126, 116, 118],
    [117, 147, 117, 116, 119]]"

definition ctbAlfFlag_init :: CtxSetInit where
  "ctbAlfFlag_init =
   [[11, 23, 46, 18, 46, 54, 18, 46, 54],
    [6, 15, 31, 12, 46, 54, 5, 46, 54],
    [39, 39, 39, 31, 39, 39, 46, 39, 39],
    [8, 4, 5, 12, 0, 2, 12, 0, 5],
    [4, 4, 4, 4, 4, 4, 4, 0, 4],
    [0, 2, 1, 0, 6, 8, 0, 1, 8],
    [11, 25, 25, 32, 11, 4, 32, 11, 11],
    [18, 25, 18, 25, 32, 18, 32, 18, 18],
    [32, 32, 18, 32, 18, 25, 32, 4, 18],
    [85, 133, 135, 115, 212, 139, 85, 164, 136],
    [153, 237, 64, 167, 132, 64, 165, 227, 64]]"

definition ctbAlfAlternative_init :: CtxSetInit where
  "ctbAlfAlternative_init =
   [[27, 19, 35],
    [20, 27, 27],
    [19, 27, 19],
    [1, 1, 1],
    [1, 1, 1],
    [0, 0, 0],
    [32, 32, 32],
    [25, 32, 32],
    [32, 18, 18],
    [231, 230, 229],
    [116, 116, 116]]"

definition AlfUseTemporalFilt_init :: CtxSetInit where
  "AlfUseTemporalFilt_init =
   [[39],
    [39],
    [39],
    [1],
    [1],
    [5],
    [11],
    [4],
    [4],
    [93],
    [67]]"

definition CcAlfFilterControlFlag_init :: CtxSetInit where
  "CcAlfFilterControlFlag_init =
   [[33, 44, 46, 18, 44, 46],
    [3, 37, 46, 3, 45, 46],
    [18, 37, 46, 10, 37, 46],
    [4, 1, 5, 4, 2, 8],
    [1, 1, 1, 4, 2, 4],
    [4, 3, 4, 4, 3, 5],
    [4, 18, 4, 11, 25, 18],
    [4, 18, 4, 11, 25, 11],
    [32, 11, 25, 18, 18, 25],
    [99, 117, 122, 100, 130, 135],
    [142, 130, 99, 135, 130, 99]]"

definition CiipFlag_init :: CtxSetInit where
  "CiipFlag_init =
   [[56, 43],
    [57, 43],
    [CNU, CNU],
    [1, 2],
    [2, 3],
    [DWS, DWS],
    [11, 11],
    [11, 11],
    [DWE, DWE],
    [126, 126],
    [117, 126]]"

definition IBCFlag_init :: CtxSetInit where
  "IBCFlag_init =
   [[25, 43, 45],
    [0, 19, 36],
    [40, 27, 36],
    [5, 5, 6],
    [4, 7, 7],
    [6, 6, 9],
    [25, 18, 32],
    [18, 11, 18],
    [25, 18, 25],
    [117, 124, 119],
    [147, 117, 146]]"

definition JointCbCrFlag_init :: CtxSetInit where
  "JointCbCrFlag_init =
   [[34, 28, 52],
    [27, 36, 52],
    [20, 29, 58],
    [1, 0, 1],
    [1, 0, 2],
    [1, 1, 2],
    [18, 18, 25],
    [18, 18, 25],
    [18, 18, 32],
    [117, 132, 117],
    [120, 117, 117]]"

definition TsSigCoeffGroup_init :: CtxSetInit where
  "TsSigCoeffGroup_init =
   [[18, 20, 37],
    [18, 27, 29],
    [18, 20, 38],
    [6, 9, 5],
    [7, 9, 5],
    [5, 10, 10],
    [11, 18, 18],
    [18, 4, 4],
    [18, 25, 25],
    [117, 125, 133],
    [227, 228, 123]]"

definition TsSigFlag_init :: CtxSetInit where
  "TsSigFlag_init =
   [[25, 35, 37],
    [40, 35, 44],
    [25, 28, 38],
    [13, 13, 5],
    [13, 13, 6],
    [13, 13, 10],
    [4, 18, 18],
    [4, 11, 11],
    [4, 11, 18],
    [90, 189, 110],
    [104, 238, 119]]"

definition TsParFlag_init :: CtxSetInit where
  "TsParFlag_init =
   [[3],
    [10],
    [11],
    [5],
    [3],
    [6],
    [18],
    [4],
    [11],
    [116],
    [110]]"

definition TsGtxFlag_init :: CtxSetInit where
  "TsGtxFlag_init =
   [[CNU, 10, 3, 3, 4],
    [CNU, 17, 10, 3, 3],
    [CNU, 10, 3, 3, 3],
    [DWS, 1, 2, 1, 3],
    [DWS, 3, 2, 1, 0],
    [DWS, 1, 1, 1, 1],
    [DWE, 18, 25, 25, 32],
    [DWE, 11, 4, 4, 11],
    [DWE, 18, 18, 18, 18],
    [DWO, 132, 226, 227, 227],
    [DWO, 118, 118, 118, 116]]"

definition TsLrg1Flag_init :: CtxSetInit where
  "TsLrg1Flag_init =
   [[11, 11, 4, 14],
    [25, 11, 4, 21],
    [4, 5, 13, 14],
    [1, 1, 1, 2],
    [6, 3, 2, 2],
    [6, 2, 2, 7],
    [11, 18, 18, 18],
    [11, 18, 11, 11],
    [25, 18, 18, 18],
    [116, 117, 118, 145],
    [118, 117, 116, 102]]"

definition TsResidualSign_init :: CtxSetInit where
  "TsResidualSign_init =
   [[5, 10, 61, 28, 33, 38],
    [12, 10, 53, 27, 25, 46],
    [5, 2, 46, 28, 25, 46],
    [1, 5, 5, 7, 5, 8],
    [5, 6, 5, 2, 7, 7],
    [1, 5, 6, 5, 9, 8],
    [11, 18, 18, 18, 25, 32],
    [11, 18, 18, 18, 11, 4],
    [18, 32, 25, 11, 32, 25],
    [118, 164, 117, 226, 227, 132],
    [117, 117, 116, 115, 118, 195]]"

definition signPred_0_init :: CtxSetInit where
  "signPred_0_init =
   [[34, 34, 34, 26],
    [34, 34, 19, 26],
    [34, 34, 34, 18],
    [13, 10, 10, 10],
    [13, 13, 13, 10],
    [13, 10, 7, 7],
    [11, 4, 4, 11],
    [4, 4, 11, 11],
    [11, 11, 4, 4],
    [110, 102, 104, 100],
    [110, 110, 116, 116]]"

definition signPred_1_init :: CtxSetInit where
  "signPred_1_init =
   [[34, 34, 34, 26],
    [41, 41, 26, 41],
    [34, 34, CNU, CNU],
    [13, 12, 10, 9],
    [13, 13, 10, 9],
    [10, 10, DWS, DWS],
    [11, 11, 11, 11],
    [4, 4, 4, 4],
    [4, 4, DWE, DWE],
    [100, 91, 99, 98],
    [116, 110, 117, 125]]"

definition CclmDeltaFlags_init :: CtxSetInit where
  "CclmDeltaFlags_init =
   [[CNU, CNU, CNU, CNU, CNU],
    [CNU, CNU, CNU, CNU, CNU],
    [CNU, CNU, CNU, CNU, CNU],
    [DWS, DWS, DWS, DWS, DWS],
    [DWS, DWS, DWS, DWS, DWS],
    [DWS, DWS, DWS, DWS, DWS],
    [DWE, DWE, DWE, DWE, DWE],
    [DWE, DWE, DWE, DWE, DWE],
    [DWE, DWE, DWE, DWE, DWE],
    [DWO, DWO, DWO, DWO, DWO],
    [DWO, DWO, DWO, DWO, DWO]]"

text \<open>All sets, in the order of their definitions.\<close>

definition all_sets :: "CtxSetInit list" where
  "all_sets =
    [SplitFlag_init, SplitQtFlag_init, SplitHvFlag_init, Split12Flag_init, SkipFlag_init,
     MergeFlag_init, RegularMergeFlag_init, MergeIdx_init, TmMergeIdx_init, GPMIntraFlag_init,
     MmvdFlag_init, MmvdMergeIdx_init, MmvdStepMvpIdx_init, GeoMmvdFlag_init,
     GeoMmvdStepMvpIdx_init, GeoSubModeIdx_init, AfMmvdFlag_init, AfMmvdIdx_init,
     AfMmvdOffsetStep_init, TMMergeFlag_init, CiipTMMergeFlag_init, PredMode_init,
     MultiRefLineIdx_init, IntraLumaMpmFlag_init, IntraLumaSecondMpmFlag_init,
     IntraLumaMPMIdx_init, IntraLumaPlanarFlag_init, CclmModeFlag_init, CclmModeIdx_init,
     IntraChromaPredMode_init, DimdChromaMode_init, ChromaFusionMode_init, MipFlag_init,
     TmpFlag_init, MMLMFlag_init, DeltaQP_init, InterDir_init, RefPic_init, RefPicLC_init,
     SubblockMergeFlag_init, BMMergeFlag_init, AffineFlag_init, AffineType_init, AffMergeIdx_init,
     LICFlag_init, BcwIdx_init, Mvd_init, Bvd_init, MvsdIdx_init, MultiHypothesisFlag_init,
     MHRefPic_init, MHWeight_init, BDPCMMode_init, QtRootCbf_init, ACTFlag_init, QtCbf_0_init,
     QtCbf_1_init, QtCbf_2_init, SigCoeffGroup_0_init, SigCoeffGroup_1_init, SigFlag_0_init,
     SigFlag_1_init, SigFlag_2_init, SigFlag_3_init, SigFlag_4_init, SigFlag_5_init,
     ParFlag_0_init, ParFlag_1_init, GtxFlag_0_init, GtxFlag_1_init, GtxFlag_2_init,
     GtxFlag_3_init, LastX_0_init, LastX_1_init, LastY_0_init, LastY_1_init, MVPIdx_init,
     amFlagState_init, SmvdFlag_init, SaoMergeFlag_init, SaoTypeIdx_init, BifCtrlFlags_init,
     ChromaBifCtrlFlagsCb_init, ChromaBifCtrlFlagsCr_init, CcSaoControlIdc_init, LFNSTIdx_init,
     PLTFlag_init, RotationFlag_init, RunTypeFlag_init, IdxRunModel_init, CopyRunModel_init,
     TransformSkipFlag_init, MTSIdx_init, ISPMode_init, SbtFlag_init, SbtQuadFlag_init,
     SbtHorFlag_init, SbtPosFlag_init, ChromaQpAdjFlag_init, DimdFlag_init, TimdFlag_init,
     ObmcFlag_init, ChromaQpAdjIdc_init, ImvFlag_init, ctbAlfFlag_init, ctbAlfAlternative_init,
     AlfUseTemporalFilt_init, CcAlfFilterControlFlag_init, CiipFlag_init, IBCFlag_init,
     JointCbCrFlag_init, TsSigCoeffGroup_init, TsSigFlag_init, TsParFlag_init, TsGtxFlag_init,
     TsLrg1Flag_init, TsResidualSign_init, signPred_0_init, signPred_1_init, CclmDeltaFlags_init]"

section \<open>Appending a set\<close>

text \<open>
  A set is appended to the tables at the length of the first one; \<open>resize\<close> cuts or pads with zeros. Rows
  beyond the eleventh and tables beyond the last row stay as they are.
\<close>

definition resize0 :: "nat \<Rightarrow> nat list \<Rightarrow> nat list" where
  "resize0 n xs = take n xs @ replicate (n - length xs) 0"

fun add_rows :: "nat \<Rightarrow> nat \<Rightarrow> nat list list \<Rightarrow> nat list list \<Rightarrow> nat list list result" where
  "add_rows startIdx numValues (initSet # sets) (initTable # tables) =
     checkE (length initSet \<noteq> numValues) ''Number of init values do not match for all sets'' (
     bindE (add_rows startIdx numValues sets tables) (\<lambda>tables.
     Inr ((resize0 startIdx initTable @ initSet) # tables)))"
| "add_rows startIdx numValues sets tables = Inr tables"

text \<open>The result is the offset and the size of the set, and the new tables.\<close>

definition addCtxSet :: "CtxSetInit \<Rightarrow> nat list list \<Rightarrow> ((nat \<times> nat) \<times> nat list list) result" where
  "addCtxSet initSet2d sm_InitTables =
     (let startIdx = length (hd sm_InitTables);
          numValues = length (hd initSet2d)
      in bindE (add_rows startIdx numValues initSet2d sm_InitTables) (\<lambda>tables.
         Inr ((to_u16 startIdx, to_u16 numValues), tables)))"

fun add_sets :: "CtxSetInit list \<Rightarrow> nat list list \<Rightarrow> ((nat \<times> nat) list \<times> nat list list) result" where
  "add_sets [] tables = Inr ([], tables)"
| "add_sets (s # ss) tables =
     bindE (addCtxSet s tables) (\<lambda>(set0, tables).
     bindE (add_sets ss tables) (\<lambda>(sets, tables). Inr (set0 # sets, tables)))"

definition NumberOfTables :: nat where "NumberOfTables = NUMBER_OF_SLICE_TYPES * 3 + 2"

definition static_init :: "((nat \<times> nat) list \<times> nat list list) result" where
  "static_init = add_sets all_sets (replicate NumberOfTables [])"

section \<open>Well-formed sets\<close>

definition rate_ok :: "nat \<Rightarrow> bool" where
  "rate_ok w \<longleftrightarrow> (w div 4) mod 4 + w mod 4 \<le> 4 \<and> w < 256"

definition weight_ok :: "nat \<Rightarrow> bool" where
  "weight_ok w \<longleftrightarrow> w div 8 < 5 \<and> w mod 8 < 5"

definition offset_ok :: "nat \<Rightarrow> bool" where
  "offset_ok w \<longleftrightarrow> w < 256"

definition wf_set :: "CtxSetInit \<Rightarrow> bool" where
  "wf_set s \<longleftrightarrow> (case s of
     [a, b, c, d, e, f, g, h, i, j, k] \<Rightarrow>
       list_all (\<lambda>r. length r = length a) [b, c, d, e, f, g, h, i, j, k]
       \<and> list_all offset_ok a \<and> list_all offset_ok b \<and> list_all offset_ok c
       \<and> list_all rate_ok d \<and> list_all rate_ok e \<and> list_all rate_ok f
       \<and> list_all weight_ok g \<and> list_all weight_ok h \<and> list_all weight_ok i
       \<and> list_all offset_ok j \<and> list_all offset_ok k
   | _ \<Rightarrow> False)"

lemmas check_set = wf_set_def rate_ok_def weight_ok_def offset_ok_def CNU_def DWS_def DWE_def DWO_def

lemma sets_0: "list_all wf_set
    [SplitFlag_init, SplitQtFlag_init, SplitHvFlag_init, Split12Flag_init, SkipFlag_init, MergeFlag_init, RegularMergeFlag_init, MergeIdx_init, TmMergeIdx_init, GPMIntraFlag_init, MmvdFlag_init, MmvdMergeIdx_init]"
  by (simp add: check_set
      SplitFlag_init_def SplitQtFlag_init_def SplitHvFlag_init_def Split12Flag_init_def SkipFlag_init_def MergeFlag_init_def RegularMergeFlag_init_def MergeIdx_init_def TmMergeIdx_init_def GPMIntraFlag_init_def MmvdFlag_init_def MmvdMergeIdx_init_def)

lemma sets_1: "list_all wf_set
    [MmvdStepMvpIdx_init, GeoMmvdFlag_init, GeoMmvdStepMvpIdx_init, GeoSubModeIdx_init, AfMmvdFlag_init, AfMmvdIdx_init, AfMmvdOffsetStep_init, TMMergeFlag_init, CiipTMMergeFlag_init, PredMode_init, MultiRefLineIdx_init, IntraLumaMpmFlag_init]"
  by (simp add: check_set
      MmvdStepMvpIdx_init_def GeoMmvdFlag_init_def GeoMmvdStepMvpIdx_init_def GeoSubModeIdx_init_def AfMmvdFlag_init_def AfMmvdIdx_init_def AfMmvdOffsetStep_init_def TMMergeFlag_init_def CiipTMMergeFlag_init_def PredMode_init_def MultiRefLineIdx_init_def IntraLumaMpmFlag_init_def)

lemma sets_2: "list_all wf_set
    [IntraLumaSecondMpmFlag_init, IntraLumaMPMIdx_init, IntraLumaPlanarFlag_init, CclmModeFlag_init, CclmModeIdx_init, IntraChromaPredMode_init, DimdChromaMode_init, ChromaFusionMode_init, MipFlag_init, TmpFlag_init, MMLMFlag_init, DeltaQP_init]"
  by (simp add: check_set
      IntraLumaSecondMpmFlag_init_def IntraLumaMPMIdx_init_def IntraLumaPlanarFlag_init_def CclmModeFlag_init_def CclmModeIdx_init_def IntraChromaPredMode_init_def DimdChromaMode_init_def ChromaFusionMode_init_def MipFlag_init_def TmpFlag_init_def MMLMFlag_init_def DeltaQP_init_def)

lemma sets_3: "list_all wf_set
    [InterDir_init, RefPic_init, RefPicLC_init, SubblockMergeFlag_init, BMMergeFlag_init, AffineFlag_init, AffineType_init, AffMergeIdx_init, LICFlag_init, BcwIdx_init, Mvd_init, Bvd_init]"
  by (simp add: check_set
      InterDir_init_def RefPic_init_def RefPicLC_init_def SubblockMergeFlag_init_def BMMergeFlag_init_def AffineFlag_init_def AffineType_init_def AffMergeIdx_init_def LICFlag_init_def BcwIdx_init_def Mvd_init_def Bvd_init_def)

lemma sets_4: "list_all wf_set
    [MvsdIdx_init, MultiHypothesisFlag_init, MHRefPic_init, MHWeight_init, BDPCMMode_init, QtRootCbf_init, ACTFlag_init, QtCbf_0_init, QtCbf_1_init, QtCbf_2_init, SigCoeffGroup_0_init, SigCoeffGroup_1_init]"
  by (simp add: check_set
      MvsdIdx_init_def MultiHypothesisFlag_init_def MHRefPic_init_def MHWeight_init_def BDPCMMode_init_def QtRootCbf_init_def ACTFlag_init_def QtCbf_0_init_def QtCbf_1_init_def QtCbf_2_init_def SigCoeffGroup_0_init_def SigCoeffGroup_1_init_def)

lemma sets_5: "list_all wf_set
    [SigFlag_0_init, SigFlag_1_init, SigFlag_2_init, SigFlag_3_init, SigFlag_4_init, SigFlag_5_init, ParFlag_0_init, ParFlag_1_init, GtxFlag_0_init, GtxFlag_1_init, GtxFlag_2_init, GtxFlag_3_init]"
  by (simp add: check_set
      SigFlag_0_init_def SigFlag_1_init_def SigFlag_2_init_def SigFlag_3_init_def SigFlag_4_init_def SigFlag_5_init_def ParFlag_0_init_def ParFlag_1_init_def GtxFlag_0_init_def GtxFlag_1_init_def GtxFlag_2_init_def GtxFlag_3_init_def)

lemma sets_6: "list_all wf_set
    [LastX_0_init, LastX_1_init, LastY_0_init, LastY_1_init, MVPIdx_init, amFlagState_init, SmvdFlag_init, SaoMergeFlag_init, SaoTypeIdx_init, BifCtrlFlags_init, ChromaBifCtrlFlagsCb_init, ChromaBifCtrlFlagsCr_init]"
  by (simp add: check_set
      LastX_0_init_def LastX_1_init_def LastY_0_init_def LastY_1_init_def MVPIdx_init_def amFlagState_init_def SmvdFlag_init_def SaoMergeFlag_init_def SaoTypeIdx_init_def BifCtrlFlags_init_def ChromaBifCtrlFlagsCb_init_def ChromaBifCtrlFlagsCr_init_def)

lemma sets_7: "list_all wf_set
    [CcSaoControlIdc_init, LFNSTIdx_init, PLTFlag_init, RotationFlag_init, RunTypeFlag_init, IdxRunModel_init, CopyRunModel_init, TransformSkipFlag_init, MTSIdx_init, ISPMode_init, SbtFlag_init, SbtQuadFlag_init]"
  by (simp add: check_set
      CcSaoControlIdc_init_def LFNSTIdx_init_def PLTFlag_init_def RotationFlag_init_def RunTypeFlag_init_def IdxRunModel_init_def CopyRunModel_init_def TransformSkipFlag_init_def MTSIdx_init_def ISPMode_init_def SbtFlag_init_def SbtQuadFlag_init_def)

lemma sets_8: "list_all wf_set
    [SbtHorFlag_init, SbtPosFlag_init, ChromaQpAdjFlag_init, DimdFlag_init, TimdFlag_init, ObmcFlag_init, ChromaQpAdjIdc_init, ImvFlag_init, ctbAlfFlag_init, ctbAlfAlternative_init, AlfUseTemporalFilt_init, CcAlfFilterControlFlag_init]"
  by (simp add: check_set
      SbtHorFlag_init_def SbtPosFlag_init_def ChromaQpAdjFlag_init_def DimdFlag_init_def TimdFlag_init_def ObmcFlag_init_def ChromaQpAdjIdc_init_def ImvFlag_init_def ctbAlfFlag_init_def ctbAlfAlternative_init_def AlfUseTemporalFilt_init_def CcAlfFilterControlFlag_init_def)

lemma sets_9: "list_all wf_set
    [CiipFlag_init, IBCFlag_init, JointCbCrFlag_init, TsSigCoeffGroup_init, TsSigFlag_init, TsParFlag_init, TsGtxFlag_init, TsLrg1Flag_init, TsResidualSign_init, signPred_0_init, signPred_1_init, CclmDeltaFlags_init]"
  by (simp add: check_set
      CiipFlag_init_def IBCFlag_init_def JointCbCrFlag_init_def TsSigCoeffGroup_init_def TsSigFlag_init_def TsParFlag_init_def TsGtxFlag_init_def TsLrg1Flag_init_def TsResidualSign_init_def signPred_0_init_def signPred_1_init_def CclmDeltaFlags_init_def)

lemma sets_wf: "list_all wf_set all_sets"
  using sets_0 sets_1 sets_2 sets_3 sets_4 sets_5 sets_6 sets_7 sets_8 sets_9
  by (simp add: all_sets_def)

lemma number_of_contexts: "sum_list (map (\<lambda>s. length (hd s)) all_sets) = 536"
  by (simp add: all_sets_def
    SplitFlag_init_def
    SplitQtFlag_init_def
    SplitHvFlag_init_def
    Split12Flag_init_def
    SkipFlag_init_def
    MergeFlag_init_def
    RegularMergeFlag_init_def
    MergeIdx_init_def
    TmMergeIdx_init_def
    GPMIntraFlag_init_def
    MmvdFlag_init_def
    MmvdMergeIdx_init_def
    MmvdStepMvpIdx_init_def
    GeoMmvdFlag_init_def
    GeoMmvdStepMvpIdx_init_def
    GeoSubModeIdx_init_def
    AfMmvdFlag_init_def
    AfMmvdIdx_init_def
    AfMmvdOffsetStep_init_def
    TMMergeFlag_init_def
    CiipTMMergeFlag_init_def
    PredMode_init_def
    MultiRefLineIdx_init_def
    IntraLumaMpmFlag_init_def
    IntraLumaSecondMpmFlag_init_def
    IntraLumaMPMIdx_init_def
    IntraLumaPlanarFlag_init_def
    CclmModeFlag_init_def
    CclmModeIdx_init_def
    IntraChromaPredMode_init_def
    DimdChromaMode_init_def
    ChromaFusionMode_init_def
    MipFlag_init_def
    TmpFlag_init_def
    MMLMFlag_init_def
    DeltaQP_init_def
    InterDir_init_def
    RefPic_init_def
    RefPicLC_init_def
    SubblockMergeFlag_init_def
    BMMergeFlag_init_def
    AffineFlag_init_def
    AffineType_init_def
    AffMergeIdx_init_def
    LICFlag_init_def
    BcwIdx_init_def
    Mvd_init_def
    Bvd_init_def
    MvsdIdx_init_def
    MultiHypothesisFlag_init_def
    MHRefPic_init_def
    MHWeight_init_def
    BDPCMMode_init_def
    QtRootCbf_init_def
    ACTFlag_init_def
    QtCbf_0_init_def
    QtCbf_1_init_def
    QtCbf_2_init_def
    SigCoeffGroup_0_init_def
    SigCoeffGroup_1_init_def
    SigFlag_0_init_def
    SigFlag_1_init_def
    SigFlag_2_init_def
    SigFlag_3_init_def
    SigFlag_4_init_def
    SigFlag_5_init_def
    ParFlag_0_init_def
    ParFlag_1_init_def
    GtxFlag_0_init_def
    GtxFlag_1_init_def
    GtxFlag_2_init_def
    GtxFlag_3_init_def
    LastX_0_init_def
    LastX_1_init_def
    LastY_0_init_def
    LastY_1_init_def
    MVPIdx_init_def
    amFlagState_init_def
    SmvdFlag_init_def
    SaoMergeFlag_init_def
    SaoTypeIdx_init_def
    BifCtrlFlags_init_def
    ChromaBifCtrlFlagsCb_init_def
    ChromaBifCtrlFlagsCr_init_def
    CcSaoControlIdc_init_def
    LFNSTIdx_init_def
    PLTFlag_init_def
    RotationFlag_init_def
    RunTypeFlag_init_def
    IdxRunModel_init_def
    CopyRunModel_init_def
    TransformSkipFlag_init_def
    MTSIdx_init_def
    ISPMode_init_def
    SbtFlag_init_def
    SbtQuadFlag_init_def
    SbtHorFlag_init_def
    SbtPosFlag_init_def
    ChromaQpAdjFlag_init_def
    DimdFlag_init_def
    TimdFlag_init_def
    ObmcFlag_init_def
    ChromaQpAdjIdc_init_def
    ImvFlag_init_def
    ctbAlfFlag_init_def
    ctbAlfAlternative_init_def
    AlfUseTemporalFilt_init_def
    CcAlfFilterControlFlag_init_def
    CiipFlag_init_def
    IBCFlag_init_def
    JointCbCrFlag_init_def
    TsSigCoeffGroup_init_def
    TsSigFlag_init_def
    TsParFlag_init_def
    TsGtxFlag_init_def
    TsLrg1Flag_init_def
    TsResidualSign_init_def
    signPred_0_init_def
    signPred_1_init_def
    CclmDeltaFlags_init_def)

section \<open>The tables the code starts with\<close>

definition entry_ok :: "nat \<Rightarrow> nat \<Rightarrow> bool" where
  "entry_ok i w \<longleftrightarrow> (if 3 \<le> i \<and> i < 6 then rate_ok w else if 6 \<le> i \<and> i < 9 then weight_ok w else offset_ok w)"

text \<open>Eleven tables of \<open>n\<close> entries each, every entry in range.\<close>

definition tables_ok :: "nat \<Rightarrow> nat list list \<Rightarrow> bool" where
  "tables_ok n tables \<longleftrightarrow> length tables = 11
     \<and> (\<forall>i<11. length (tables ! i) = n \<and> list_all (entry_ok i) (tables ! i))"

lemma less_11: "(\<forall>i<11. P i) \<longleftrightarrow>
    P 0 \<and> P 1 \<and> P 2 \<and> P 3 \<and> P 4 \<and> P 5 \<and> P 6 \<and> P 7 \<and> P 8 \<and> P 9 \<and> P (10::nat)"
  by (auto simp: numeral_eq_Suc All_less_Suc)

lemma entry_ok_cases: "entry_ok 0 = offset_ok" "entry_ok 1 = offset_ok" "entry_ok 2 = offset_ok"
  "entry_ok 3 = rate_ok" "entry_ok 4 = rate_ok" "entry_ok 5 = rate_ok" "entry_ok 6 = weight_ok"
  "entry_ok 7 = weight_ok" "entry_ok 8 = weight_ok" "entry_ok 9 = offset_ok" "entry_ok 10 = offset_ok"
  by (simp_all add: entry_ok_def fun_eq_iff)

lemma wf_set_tables: "wf_set s \<Longrightarrow> tables_ok (length (hd s)) s"
  unfolding tables_ok_def less_11 entry_ok_cases wf_set_def
  by (auto split: list.splits simp: nth_Cons_numeral)

lemma add_rows_ok:
  "length sets = length tables \<Longrightarrow> list_all (\<lambda>t. length t = n) tables \<Longrightarrow> list_all (\<lambda>r. length r = m) sets \<Longrightarrow>
     add_rows n m sets tables = Inr (map2 (@) tables sets)"
  by (induction sets tables rule: list_induct2) (simp_all add: resize0_def)

lemma tables_ok_lengths: "tables_ok n ts \<Longrightarrow> list_all (\<lambda>t. length t = n) ts"
  by (simp add: tables_ok_def list_all_length)

lemma addCtxSet_ok:
  assumes "wf_set s" and "tables_ok n tables"
  shows "\<exists>tables'. addCtxSet s tables = Inr ((to_u16 n, to_u16 (length (hd s))), tables')
    \<and> tables_ok (n + length (hd s)) tables'"
proof -
  note s = wf_set_tables [OF assms(1)]
  have len: "length s = length tables" "length tables = 11" using s assms(2) by (simp_all add: tables_ok_def)
  then have "length (hd tables) = n" using assms(2) by (cases "tables = []") (auto simp: tables_ok_def hd_conv_nth)
  then have "addCtxSet s tables = Inr ((to_u16 n, to_u16 (length (hd s))), map2 (@) tables s)"
    using add_rows_ok [OF len(1) tables_ok_lengths [OF assms(2)] tables_ok_lengths [OF s]]
    by (simp add: addCtxSet_def Let_def)
  moreover have "tables_ok (n + length (hd s)) (map2 (@) tables s)"
    using assms(2) s len by (auto simp: tables_ok_def)
  ultimately show ?thesis by blast
qed

text \<open>The offsets are the sums of the sizes before.\<close>

fun layout :: "nat \<Rightarrow> CtxSetInit list \<Rightarrow> (nat \<times> nat) list" where
  "layout n [] = []"
| "layout n (s # ss) = (n, length (hd s)) # layout (n + length (hd s)) ss"

lemma add_sets_ok:
  "list_all wf_set ss \<Longrightarrow> tables_ok n tables \<Longrightarrow> n + sum_list (map (\<lambda>s. length (hd s)) ss) < 2 ^ 16 \<Longrightarrow>
     \<exists>tables'. add_sets ss tables = Inr (layout n ss, tables')
       \<and> tables_ok (n + sum_list (map (\<lambda>s. length (hd s)) ss)) tables'"
proof (induction ss arbitrary: n tables)
  case (Cons s ss)
  obtain t1 where t1: "addCtxSet s tables = Inr ((to_u16 n, to_u16 (length (hd s))), t1)"
    "tables_ok (n + length (hd s)) t1"
    using addCtxSet_ok [of s n tables] Cons.prems by auto
  obtain t2 where "add_sets ss t1 = Inr (layout (n + length (hd s)) ss, t2)"
    "tables_ok (n + length (hd s) + sum_list (map (\<lambda>s. length (hd s)) ss)) t2"
    using Cons.IH [OF _ t1(2)] Cons.prems by auto
  moreover have "to_u16 n = n" "to_u16 (length (hd s)) = length (hd s)"
    using Cons.prems(3) by (simp_all add: to_u16_def)
  ultimately show ?case using t1 by (auto simp: add.assoc)
qed simp

lemma static_init_ok: "\<exists>tables. static_init = Inr (layout 0 all_sets, tables) \<and> tables_ok 536 tables"
proof -
  have "tables_ok 0 (replicate NumberOfTables [])"
    by (simp add: tables_ok_def NumberOfTables_def NUMBER_OF_SLICE_TYPES_def)
  then show ?thesis
    using add_sets_ok [OF sets_wf, of 0] by (simp add: number_of_contexts static_init_def)
qed

text \<open>
  C7: The context tables are consistent. Building the eleven tables from all 120 sets raises no error,
  the sets lie one behind the other without gaps, and the tables have 536 entries each, with every
  window size accepted by \<open>setLog2WindowSize\<close> and every weight index inside \<open>weightedAdaptRate\<close>.
\<close>

theorem context_tables_consistent:
  "\<exists>tables. static_init = Inr (layout 0 all_sets, tables) \<and> tables_ok 536 tables"
  by (rule static_init_ok)

section \<open>Initialising the models from the tables\<close>

lemma weight_ok_index: "weight_ok w \<Longrightarrow> drop_bit 3 w < 5 \<and> w AND 7 < 5"
  by (simp add: weight_ok_def drop_bit_eq_div)

lemma setLog2WindowSize_ok:
  assumes "rate_ok w"
  shows "\<exists>m'. setLog2WindowSize w m = Inr m'"
proof -
  have "drop_bit 2 w AND 3 = (w div 4) mod 4" "w AND 3 = w mod 4"
    using take_bit_eq_mask [of 2 "drop_bit 2 w"] take_bit_eq_mask [of 2 w]
    by (simp_all add: take_bit_eq_mod mask_eq_exp_minus_1 drop_bit_eq_div)
  then show ?thesis using assms by (simp add: setLog2WindowSize_def rate_ok_def Let_def)
qed

lemma init_model_total:
  assumes "rate_ok rate" and "weight_ok weight"
  shows "\<exists>m'. init_model qp initId rate o0 o1 weight m = Inr m' \<and> bpm_ok m'"
proof -
  obtain m1 where "setLog2WindowSize rate (bpm_init qp initId m) = Inr m1"
    using setLog2WindowSize_ok [OF assms(1)] by blast
  then have "init_model qp initId rate o0 o1 weight m
      = Inr (setAdaptRateWeight weight (setAdaptRateOffset o1 True (setAdaptRateOffset o0 False m1)))"
    by (simp add: init_model_def)
  then show ?thesis using init_model_ok [of weight qp initId rate o0 o1 m] weight_ok_index [OF assms(2)] by blast
qed

lemma ctx_init_total:
  assumes tables: "tables_ok N tables" and init: "initId < 3" and len: "length ctx = N"
  shows "\<exists>ctx'. ctx_init tables qp initId ctx = Inr ctx' \<and> ctx_ok ctx' \<and> length ctx' = N"
proof -
  have t: "length tables = 11" using tables by (simp add: tables_ok_def)
  have row: "length (tables ! i) = N" if "i < 11" for i using tables that by (simp add: tables_ok_def)
  have get: "getInitTable tables i = Inr (tables ! i)" if "i < 11" for i
    using that t by (simp add: getInitTable_def)
  define k where "k = initId"
  have k: "k = 0 \<or> k = 1 \<or> k = 2" using init by (auto simp: k_def)
  have rates: "rate_ok (tables ! (3 + k) ! i)" and weights: "weight_ok (tables ! (6 + k) ! i)" if "i < N" for i
  proof -
    have entry: "entry_ok j (tables ! j ! i)" if "j < 11" for j
      using tables that \<open>i < N\<close> by (simp add: tables_ok_def list_all_length)
    show "rate_ok (tables ! (3 + k) ! i)" using entry [of "3 + k"] k by (auto simp: entry_ok_def)
    show "weight_ok (tables ! (6 + k) ! i)" using entry [of "6 + k"] k by (auto simp: entry_ok_def)
  qed
  let ?f = "\<lambda>i. init_model (max 0 (min MAX_QP qp)) (tables ! k ! i) (tables ! (3 + k) ! i) (tables ! 9 ! i)
      (tables ! 10 ! i) (tables ! (6 + k) ! i) (ctx ! i)"
  have "ctx_init tables qp initId ctx = mapE ?f [0..<N]"
    using get k row len unfolding ctx_init_def k_def [symmetric]
    by (auto simp: NUMBER_OF_SLICE_TYPES_def Let_def)
  moreover have "\<exists>ys. mapE ?f [0..<N] = Inr ys \<and> list_all2 (\<lambda>i m. bpm_ok m) [0..<N] ys"
    by (rule mapE_ok) (use rates weights init_model_total in auto)
  ultimately show ?thesis by (auto simp: ctx_ok_def list_all2_conv_all_nth list_all_length)
qed

text \<open>The models before the initialisation do not matter.\<close>

lemma init_model_old: "init_model qp i rate o0 o1 weight m = init_model qp i rate o0 o1 weight m'"
  by (cases m; cases m')
    (simp add: init_model_def bpm_init_def setLog2WindowSize_def setAdaptRateWeight_def
      setAdaptRateOffset_def Let_def checkE_def)

lemma ctx_init_old_models:
  assumes "length ctx = length ctx'"
  shows "ctx_init tables qp initId ctx = ctx_init tables qp initId ctx'"
proof -
  have "init_model q i r o0 o1 w (ctx ! k) = init_model q i r o0 o1 w (ctx' ! k)" for q i r o0 o1 w k
    by (rule init_model_old)
  then show ?thesis unfolding ctx_init_def assms by simp
qed

text \<open>
  C8: The models can always be initialised. With the tables of the program, for every QP (also outside the
  legal range) and every slice type, \<open>CtxStore::init\<close> passes all its checks and leaves 536 well-formed
  models, the starting point of every result on the arithmetic coder.
\<close>

theorem context_initialisation_total:
  assumes "initId < 3" and "length ctx = 536"
  shows "\<exists>sets tables ctx'. static_init = Inr (sets, tables) \<and> ctx_init tables qp initId ctx = Inr ctx'
    \<and> ctx_ok ctx' \<and> length ctx' = 536"
  using static_init_ok ctx_init_total [OF _ assms] by metis

theorem context_initialisation_total_witness:
  "\<exists>sets tables ctx'. static_init = Inr (sets, tables)
    \<and> ctx_init tables 100 2 (replicate 536 new_BinProbModel) = Inr ctx' \<and> length ctx' = 536"
  using context_initialisation_total [of 2 "replicate 536 new_BinProbModel" 100] by auto

section \<open>Slice data from reset to the end of the slice\<close>

text \<open>
  C3: Encoder and decoder need only agree on QP and slice type. Reset with the tables of the program, the
  same QP and the same slice type, the encoder writes any sequence of valid values and ends the slice;
  the decoder, reset on the aligned bytes of the substream, reads the same values, finds the end and
  leaves nothing.
\<close>

theorem slice_data_roundtrip:
  assumes "initId < 3" and "list_all2 (bin_valid 536) ks xs"
    and "length (e_Ctx e) = 536" and "length (e_NumBinsCtx e) = 536" and "e_Bitstream e = new_out"
    and "length (d_Ctx d) = 536"
  shows "\<exists>sets tables e0 e' s d1 d2. static_init = Inr (sets, tables)
    \<and> enc_reset tables qp initId e = Inr e0
    \<and> thenW (seqW (map2 encode_kind ks xs)) end_of_slice e0 = Inr e'
    \<and> writeByteAlignment (e_Bitstream e') = Inr s
    \<and> dec_reset tables qp initId (d\<lparr>d_Bitstream := new_in (out_fifo s)\<rparr>) = Inr d1
    \<and> bindP (seqP (map decode_kind ks)) (\<lambda>ys. bindP terminating_bit (\<lambda>t. returnP (ys, t))) d1
        = Inr ((xs, True), d2)
    \<and> remaining_bytes True d2 = Inr d2"
proof -
  obtain tables where t: "static_init = Inr (layout 0 all_sets, tables)" "tables_ok 536 tables"
    using static_init_ok by blast
  obtain ctx where ctx: "ctx_init tables qp initId (e_Ctx e) = Inr ctx" "ctx_ok ctx" "length ctx = 536"
    using ctx_init_total [OF t(2) assms(1,3)] by blast
  have "ctx_init tables qp initId (d_Ctx d) = Inr ctx"
    using ctx(1) ctx_init_old_models [of "e_Ctx e" "d_Ctx d"] assms(3,6) by metis
  moreover define e1 where "e1 = e\<lparr>e_Ctx := ctx\<rparr>"
  have "models_ok 536 e1" "e_Bitstream e1 = new_out" using ctx assms(4,5) by (simp_all add: models_ok_def e1_def)
  then obtain e' s d1 d2 where "thenW (seqW (map2 encode_kind ks xs)) end_of_slice (enc_start e1) = Inr e'"
    "writeByteAlignment (e_Bitstream e') = Inr s"
    "dec_start ((d\<lparr>d_Ctx := ctx\<rparr>)\<lparr>d_Bitstream := new_in (out_fifo s)\<rparr>) = Inr d1"
    "bindP (seqP (map decode_kind ks)) (\<lambda>ys. bindP terminating_bit (\<lambda>t. returnP (ys, t))) d1 = Inr ((xs, True), d2)"
    "remaining_bytes True d2 = Inr d2"
    using bins.codeword [OF assms(2), of e1 "d\<lparr>d_Ctx := ctx\<rparr>"] by (auto simp: e1_def)
  moreover have "enc_reset tables qp initId e = Inr (enc_start e1)" using ctx(1) by (simp add: enc_reset_def e1_def)
  moreover have "dec_reset tables qp initId (d\<lparr>d_Bitstream := x\<rparr>) = dec_start (d\<lparr>d_Ctx := ctx, d_Bitstream := x\<rparr>)" for x
    using calculation(1) by (cases d) (simp add: dec_reset_def)
  ultimately show ?thesis using t(1) by metis
qed

theorem slice_data_roundtrip_witness:
  "\<exists>sets tables e0 e' s d1 d2. static_init = Inr (sets, tables)
    \<and> enc_reset tables 37 1 (sample_encoder\<lparr>e_Ctx := replicate 536 new_BinProbModel,
        e_NumBinsCtx := replicate 536 0\<rparr>) = Inr e0
    \<and> thenW (seqW (map2 encode_kind [ContextBin 535, BypassBins 3, Remainder 1 5 15] [1, 6, 100])) end_of_slice e0 = Inr e'
    \<and> writeByteAlignment (e_Bitstream e') = Inr s
    \<and> dec_reset tables 37 1 ((sample_decoder\<lparr>d_Ctx := replicate 536 new_BinProbModel\<rparr>)\<lparr>d_Bitstream := new_in (out_fifo s)\<rparr>) = Inr d1
    \<and> bindP (seqP (map decode_kind [ContextBin 535, BypassBins 3, Remainder 1 5 15]))
        (\<lambda>ys. bindP terminating_bit (\<lambda>t. returnP (ys, t))) d1 = Inr (([1, 6, 100], True), d2)
    \<and> remaining_bytes True d2 = Inr d2"
  by (rule slice_data_roundtrip)
    (simp_all add: sample_encoder_def sample_decoder_def rem_valid_def)

end
