(* ===== verification/HlsSyntax.thy ===== *)
theory HlsSyntax
  imports VLC
begin

text \<open>
  How the high-level syntax structures are written and parsed. \<open>HLSWriter\<close> reads the members of a
  parameter structure and emits one syntax element after the other; \<open>HLSyntaxReader\<close> parses element
  after element into the members of a structure that it is given. A parser of this kind is an
  \<open>editor\<close>: a parser that turns the structure before it into the structure after it. The rules in
  \<open>hls_codes\<close> follow the text of a writer and an editor side by side.
\<close>

section \<open>Writers\<close>

definition failW :: "error \<Rightarrow> 's step" where
  "failW e s = Inl e"

definition failP :: "error \<Rightarrow> ('s, 'a) reader" where
  "failP e s = Inl e"

definition ifW :: "bool \<Rightarrow> 's step list \<Rightarrow> 's step" where
  "ifW c ws = (if c then seqW ws else skipW)"

definition loopW :: "('i \<Rightarrow> 's step list) \<Rightarrow> 'i list \<Rightarrow> 's step" where
  "loopW w is = seqW (map (\<lambda>i. seqW (w i)) is)"

text \<open>An element of an array; an index past the end is an access out of bounds.\<close>

definition atW :: "'a list \<Rightarrow> nat \<Rightarrow> ('a \<Rightarrow> 's step) \<Rightarrow> 's step" where
  "atW xs i w = (if i < length xs then w (xs ! i) else failW UndefinedBehaviour)"

section \<open>Editors\<close>

type_synonym 'r editor = "'r \<Rightarrow> 'r parser"

fun seqR :: "'r editor list \<Rightarrow> 'r editor" where
  "seqR [] r = returnP r"
| "seqR (p # ps) r = bindP (p r) (seqR ps)"

definition ifR :: "('r \<Rightarrow> bool) \<Rightarrow> 'r editor list \<Rightarrow> 'r editor" where
  "ifR c ps r = (if c r then seqR ps r else returnP r)"

definition ifElseR :: "('r \<Rightarrow> bool) \<Rightarrow> 'r editor list \<Rightarrow> 'r editor list \<Rightarrow> 'r editor" where
  "ifElseR c ps qs r = (if c r then seqR ps r else seqR qs r)"

text \<open>A member is set from what is read, or without reading.\<close>

definition readR :: "'a parser \<Rightarrow> ('a \<Rightarrow> 'r \<Rightarrow> 'r) \<Rightarrow> 'r editor" where
  "readR p f r = bindP p (\<lambda>v. returnP (f v r))"

definition setR :: "('r \<Rightarrow> 'r) \<Rightarrow> 'r editor" where
  "setR f r = returnP (f r)"

definition checkR :: "('r \<Rightarrow> bool) \<Rightarrow> string \<Rightarrow> 'r editor" where
  "checkR c msg r = checkP (c r) msg (returnP r)"

definition readCheckR :: "'a parser \<Rightarrow> ('a \<Rightarrow> bool) \<Rightarrow> string \<Rightarrow> ('a \<Rightarrow> 'r \<Rightarrow> 'r) \<Rightarrow> 'r editor" where
  "readCheckR p c msg f r = bindP p (\<lambda>v. checkP (c v) msg (returnP (f v r)))"

text \<open>\<open>READ_FLAG( symbol, .. ); x->setY( symbol )\<close>, \<open>READ_CODE\<close>, \<open>READ_UVLC\<close>, \<open>READ_SVLC\<close> likewise.\<close>

definition flagR :: "((bool \<Rightarrow> bool) \<Rightarrow> 'r \<Rightarrow> 'r) \<Rightarrow> 'r editor" where
  "flagR upd = readR readFlagB (\<lambda>v. upd (\<lambda>_. v))"

definition codeR :: "nat \<Rightarrow> ((u32 \<Rightarrow> u32) \<Rightarrow> 'r \<Rightarrow> 'r) \<Rightarrow> 'r editor" where
  "codeR n upd = readR (xReadCode n) (\<lambda>v. upd (\<lambda>_. v))"

definition uvlcR :: "((u32 \<Rightarrow> u32) \<Rightarrow> 'r \<Rightarrow> 'r) \<Rightarrow> 'r editor" where
  "uvlcR upd = readR xReadUvlc (\<lambda>v. upd (\<lambda>_. v))"

text \<open>Elements of an array member.\<close>

definition updAt :: "nat \<Rightarrow> 'a \<Rightarrow> 'a list \<Rightarrow> 'a list" where
  "updAt i v xs = xs[i := v]"

definition readAtR :: "'a parser \<Rightarrow> nat \<Rightarrow> ('r \<Rightarrow> 'a list) \<Rightarrow> (('a list \<Rightarrow> 'a list) \<Rightarrow> 'r \<Rightarrow> 'r) \<Rightarrow> 'r editor" where
  "readAtR p i sel upd r = bindP p (\<lambda>v. if i < length (sel r) then returnP (upd (updAt i v) r)
     else failP UndefinedBehaviour)"

text \<open>An element of an array is set without reading.\<close>

definition setAtR :: "nat \<Rightarrow> ('r \<Rightarrow> 'a list) \<Rightarrow> (('a list \<Rightarrow> 'a list) \<Rightarrow> 'r \<Rightarrow> 'r) \<Rightarrow> ('r \<Rightarrow> 'a) \<Rightarrow> 'r editor" where
  "setAtR i sel upd f r = (if i < length (sel r) then returnP (upd (updAt i (f r)) r)
     else failP UndefinedBehaviour)"

text \<open>A part of the structure with an editor of its own.\<close>

definition partR :: "('r \<Rightarrow> 'p) \<Rightarrow> (('p \<Rightarrow> 'p) \<Rightarrow> 'r \<Rightarrow> 'r) \<Rightarrow> 'p editor \<Rightarrow> 'r editor" where
  "partR sel upd p r = bindP (p (sel r)) (\<lambda>x. returnP (upd (\<lambda>_. x) r))"

text \<open>A syntax element that is read and not kept, and one whose value is checked.\<close>

definition ignoreR :: "'a parser \<Rightarrow> 'r editor" where
  "ignoreR p = readR p (\<lambda>_ r. r)"

fun loopR :: "('i \<Rightarrow> 'r editor list) \<Rightarrow> 'i list \<Rightarrow> 'r editor" where
  "loopR f [] r = returnP r"
| "loopR f (i # is) r = bindP (seqR (f i) r) (loopR f is)"

section \<open>Following the text\<close>

lemma codes_bind1: "codes w p x \<Longrightarrow> codes skipW (q x) v \<Longrightarrow> codes w (bindP p q) v"
  using codes_bind [of w p x "[]" q v] by simp

lemma hls_nil: "codes (seqW []) (seqR [] r) r"
  by (simp add: codes_skip)

lemma hls_nil_eq: "r = r' \<Longrightarrow> codes (seqW []) (seqR [] r) r'"
  by (simp add: codes_skip)

lemma hls_cons:
  "codes w (p r) r' \<Longrightarrow> codes (seqW ws) (seqR ps r') r'' \<Longrightarrow> codes (seqW (w # ws)) (seqR (p # ps) r) r''"
  unfolding seqR.simps by (rule codes_bind)

lemma hls_set: "codes w (seqR ps (f r)) r' \<Longrightarrow> codes w (seqR (setR f # ps) r) r'"
  by (simp add: setR_def)

lemma hls_check: "\<not> c r \<Longrightarrow> codes w (seqR ps r) r' \<Longrightarrow> codes w (seqR (checkR c msg # ps) r) r'"
  by (simp add: checkR_def codes_def parses_def checkP_def bindP_def returnP_def)

lemma hls_set_at:
  "i < length (sel r) \<Longrightarrow> codes w (seqR ps (upd (updAt i (f r)) r)) r' \<Longrightarrow>
     codes w (seqR (setAtR i sel upd f # ps) r) r'"
  by (simp add: setAtR_def)

lemma hls_checkW: "\<not> c \<Longrightarrow> codes (seqW ws) p v \<Longrightarrow> codes (seqW (checkW c msg # ws)) p v"
  by (rule codes_checkW)

lemma hls_if:
  "c r = b \<Longrightarrow> (b \<Longrightarrow> codes (seqW ws) (seqR ps r) r') \<Longrightarrow> codes (ifW b ws) (ifR c ps r) (if b then r' else r)"
  by (simp add: ifR_def ifW_def codes_skip)

lemma hls_if_else:
  "c r = b \<Longrightarrow> (b \<Longrightarrow> codes (seqW ws) (seqR ps r) r1) \<Longrightarrow> (\<not> b \<Longrightarrow> codes (seqW vs) (seqR qs r) r2) \<Longrightarrow>
     codes (if b then seqW ws else seqW vs) (ifElseR c ps qs r) (if b then r1 else r2)"
  by (simp add: ifElseR_def)

text \<open>The reader infers what the writer does not send.\<close>

lemma hls_if_infer:
  "c r = b \<Longrightarrow> (b \<Longrightarrow> codes (seqW ws) (seqR ps r) r') \<Longrightarrow>
     codes (ifW b ws) (ifElseR c ps [setR f] r) (if b then r' else f r)"
  by (simp add: ifElseR_def ifW_def setR_def codes_skip)

lemma hls_read: "codes w p v \<Longrightarrow> codes w (readR p f r) (f v r)"
  unfolding readR_def by (rule codes_bind_return)

lemma hls_ignore: "codes w p v \<Longrightarrow> codes w (ignoreR p r) r"
  unfolding ignoreR_def by (rule hls_read)

lemma hls_read_check: "codes w p v \<Longrightarrow> \<not> c v \<Longrightarrow> codes w (readCheckR p c msg f r) (f v r)"
  unfolding readCheckR_def
  by (rule codes_bind1) (auto intro: codes_checkP codes_skip)

lemma hls_flag: "codes (writeFlagB b) (flagR upd r) (upd (\<lambda>_. b) r)"
  unfolding flagR_def by (rule hls_read [OF codes_flagB])

lemma hls_code:
  "0 < n \<Longrightarrow> n \<le> 32 \<Longrightarrow> unat v < 2 ^ n \<Longrightarrow> codes (xWriteCode v n) (codeR n upd r) (upd (\<lambda>_. v) r)"
  unfolding codeR_def by (rule hls_read [OF codes_code])

lemma hls_code32: "codes (xWriteCode v 32) (codeR 32 upd r) (upd (\<lambda>_. v) r)"
  unfolding codeR_def by (rule hls_read [OF codes_code32])

lemma hls_uvlc: "unat v < 4294967295 \<Longrightarrow> codes (xWriteUvlc v) (uvlcR upd r) (upd (\<lambda>_. v) r)"
  unfolding uvlcR_def by (rule hls_read [OF codes_uvlc_lt])

lemma hls_part: "codes w (p (sel r)) x \<Longrightarrow> codes w (partR sel upd p r) (upd (\<lambda>_. x) r)"
  unfolding partR_def by (rule codes_bind_return)

lemma hls_at:
  "i < length xs \<Longrightarrow> i < length (sel r) \<Longrightarrow> codes (w (xs ! i)) p v \<Longrightarrow>
     codes (atW xs i w) (readAtR p i sel upd r) (upd (updAt i v) r)"
  unfolding readAtR_def atW_def
  using codes_bind_return [where f = "\<lambda>v. upd (updAt i v) r"] by simp

text \<open>A loop: \<open>g\<close> is what one turn does to the structure, \<open>P\<close> what the turns rely on.\<close>

lemma hls_loop:
  assumes "P r" and "\<And>i r. i \<in> set is \<Longrightarrow> P r \<Longrightarrow> codes (seqW (w i)) (seqR (f i) r) (g i r) \<and> P (g i r)"
  shows "codes (loopW w is) (loopR f is r) (fold g is r)"
  using assms
proof (induction "is" arbitrary: r)
  case Nil
  show ?case by (simp add: loopW_def codes_skip)
next
  case (Cons i js)
  have "codes (seqW (w i)) (seqR (f i) r) (g i r)" "P (g i r)" using Cons.prems by auto
  moreover have "codes (loopW w js) (loopR f js (g i r)) (fold g js (g i r))"
    by (rule Cons.IH) (use Cons.prems calculation in auto)
  ultimately have "codes (seqW (seqW (w i) # map (\<lambda>i. seqW (w i)) js))
      (bindP (seqR (f i) r) (loopR f js)) (fold g js (g i r))"
    by (intro codes_bind) (simp_all add: loopW_def)
  then show ?case by (simp add: loopW_def)
qed

declare seqW.simps [simp del] seqR.simps [simp del]

lemmas hls_codes = hls_checkW hls_set hls_set_at hls_check hls_if hls_if_else hls_if_infer hls_flag hls_code32 hls_code hls_uvlc
  hls_cons hls_nil hls_nil_eq

text \<open>Turns that only replace elements of one array, at positions that the loop does not repeat.\<close>

lemma fold_upd:
  assumes "\<And>f g r. upd f (upd g r) = upd (\<lambda>x. f (g x)) r" and "\<And>r. upd (\<lambda>x. x) r = r"
  shows "fold (\<lambda>i. upd (h i)) is r = upd (fold h is) r"
  by (induction "is" arbitrary: r) (simp_all add: assms comp_def id_def)

lemma updAt_nth [simp]: "length (updAt i v xs) = length xs"
  "j < length xs \<Longrightarrow> updAt i v xs ! j = (if i = j then v else xs ! j)"
  by (simp_all add: updAt_def nth_list_update)

lemma fold_updAt_length [simp]: "length (fold (\<lambda>i. if c i then updAt i (f i) else (\<lambda>x. x)) is ys) = length ys"
  by (induction "is" arbitrary: ys) simp_all

lemma fold_updAt_nth:
  "j < length ys \<Longrightarrow> fold (\<lambda>i. if c i then updAt i (f i) else (\<lambda>x. x)) is ys ! j
     = (if j \<in> set is \<and> c j then f j else ys ! j)"
  by (induction "is" arbitrary: ys) auto

lemmas fold_updAt_all = fold_updAt_length [where c = "\<lambda>_. True", unfolded if_True]
  fold_updAt_nth [where c = "\<lambda>_. True", unfolded if_True simp_thms]

lemma hls_one: "codes w (p r) r' \<Longrightarrow> codes (seqW [w]) (seqR [p] r) r'"
  by (rule hls_cons [OF _ hls_nil])

text \<open>
  A loop over the elements of an array member, each turn under a condition that the turns do not change.
\<close>

lemma hls_array_if:
  assumes "\<And>f r. sel (upd f r) = f (sel r)" and "\<And>f g r. upd f (upd g r) = upd (\<lambda>x. f (g x)) r"
    and "\<And>r. upd (\<lambda>x. x) r = r"
    and "\<And>i. i \<in> set is \<Longrightarrow> i < length (sel r)"
    and "\<And>i. i \<in> set is \<Longrightarrow> c i \<Longrightarrow> i < length xs \<and> codes (w (xs ! i)) p (xs ! i)"
    and "\<And>i. i \<in> set is \<Longrightarrow> d i r = c i" and "\<And>i f r. d i (upd f r) = d i r"
  shows "codes (loopW (\<lambda>i. [ifW (c i) [atW xs i w]]) is) (loopR (\<lambda>i. [ifR (d i) [readAtR p i sel upd]]) is r)
    (upd (fold (\<lambda>i. if c i then updAt i (xs ! i) else (\<lambda>x. x)) is) r)"
proof -
  let ?h = "\<lambda>i. if c i then updAt i (xs ! i) else (\<lambda>x. x)"
  let ?P = "\<lambda>r'. length (sel r') = length (sel r) \<and> (\<forall>i\<in>set is. d i r' = c i)"
  have "codes (loopW (\<lambda>i. [ifW (c i) [atW xs i w]]) is) (loopR (\<lambda>i. [ifR (d i) [readAtR p i sel upd]]) is r)
      (fold (\<lambda>i. upd (?h i)) is r)"
  proof (rule hls_loop [where P = ?P])
    fix i r' assume i: "i \<in> set is" and P: "?P r'"
    have "codes (ifW (c i) [atW xs i w]) (ifR (d i) [readAtR p i sel upd] r')
        (if c i then upd (updAt i (xs ! i)) r' else r')"
      by (rule hls_if, use i P in simp, rule hls_one, rule hls_at) (use assms(4,5) i P in auto)
    then have "codes (seqW [ifW (c i) [atW xs i w]]) (seqR [ifR (d i) [readAtR p i sel upd]] r') (upd (?h i) r')"
      by (intro hls_one) (simp add: assms(3) split: if_splits)
    then show "codes (seqW [ifW (c i) [atW xs i w]]) (seqR [ifR (d i) [readAtR p i sel upd]] r') (upd (?h i) r')
        \<and> ?P (upd (?h i) r')"
      using P by (simp add: assms(1,7))
  qed (simp add: assms(6))
  then show ?thesis by (simp only: fold_upd [of upd, OF assms(2,3)])
qed

lemma hls_array:
  assumes "\<And>f r. sel (upd f r) = f (sel r)" and "\<And>f g r. upd f (upd g r) = upd (\<lambda>x. f (g x)) r"
    and "\<And>r. upd (\<lambda>x. x) r = r"
    and "\<And>i. i \<in> set is \<Longrightarrow> i < length (sel r)"
    and "\<And>i. i \<in> set is \<Longrightarrow> i < length xs \<and> codes (w (xs ! i)) p (xs ! i)"
  shows "codes (loopW (\<lambda>i. [atW xs i w]) is) (loopR (\<lambda>i. [readAtR p i sel upd]) is r)
    (upd (fold (\<lambda>i. updAt i (xs ! i)) is) r)"
proof -
  have "codes (loopW (\<lambda>i. [atW xs i w]) is) (loopR (\<lambda>i. [readAtR p i sel upd]) is r)
      (fold (\<lambda>i. upd (updAt i (xs ! i))) is r)"
    by (rule hls_loop [where P = "\<lambda>r'. length (sel r') = length (sel r)"])
      (use assms(1,4,5) in \<open>auto intro!: hls_one hls_at\<close>)
  then show ?thesis by (simp only: fold_upd [of upd, OF assms(2,3)])
qed

text \<open>A loop over all elements of a list writes them one after the other.\<close>

lemma loopW_atW: "loopW (\<lambda>i. [atW xs i w]) [0..<length xs] = seqW (map w xs)"
proof -
  have "map (\<lambda>i. seqW [atW xs i w]) [0..<length xs] = map w xs"
    by (rule nth_equalityI) (simp_all add: atW_def seqW.simps)
  then show ?thesis by (simp add: loopW_def)
qed

end
