(* ===== verification/ConstraintSyntax.thy ===== *)
theory ConstraintSyntax
  imports HlsSyntax
begin

unbundle bit_operations_syntax

text \<open>
  The general constraints information: class \<open>ConstraintInfo\<close> of \<open>source/Lib/CommonLib/Slice.h\<close> with
  \<open>codeConstraintInfo\<close> (\<open>EncoderLib/VLCWriter.cpp\<close>), \<open>parseConstraintInfo\<close>
  (\<open>DecoderLib/VLCReader.cpp\<close>) and the comparison in \<open>Slice.cpp\<close>. Members keep their names; the
  chroma format is its number.
\<close>

section \<open>The structure\<close>

record ConstraintInfo =
  m_gciPresentFlag :: bool
  m_noRprConstraintFlag :: bool
  m_noResChangeInClvsConstraintFlag :: bool
  m_oneTilePerPicConstraintFlag :: bool
  m_picHeaderInSliceHeaderConstraintFlag :: bool
  m_oneSlicePerPicConstraintFlag :: bool
  m_noIdrRplConstraintFlag :: bool
  m_noRectSliceConstraintFlag :: bool
  m_oneSlicePerSubpicConstraintFlag :: bool
  m_noSubpicInfoConstraintFlag :: bool
  m_intraOnlyConstraintFlag :: bool
  m_maxBitDepthConstraintIdc :: u32
  m_maxChromaFormatConstraintIdc :: int
  m_onePictureOnlyConstraintFlag :: bool
  m_lowerBitRateConstraintFlag :: bool
  m_allLayersIndependentConstraintFlag :: bool
  m_noMrlConstraintFlag :: bool
  m_noIspConstraintFlag :: bool
  m_noMipConstraintFlag :: bool
  m_noLfnstConstraintFlag :: bool
  m_noMmvdConstraintFlag :: bool
  m_noSmvdConstraintFlag :: bool
  m_noProfConstraintFlag :: bool
  m_noPaletteConstraintFlag :: bool
  m_noActConstraintFlag :: bool
  m_noLmcsConstraintFlag :: bool
  m_noExplicitScaleListConstraintFlag :: bool
  m_noVirtualBoundaryConstraintFlag :: bool
  m_noMttConstraintFlag :: bool
  m_noChromaQpOffsetConstraintFlag :: bool
  m_noQtbttDualTreeIntraConstraintFlag :: bool
  m_maxLog2CtuSizeConstraintIdc :: int
  m_noPartitionConstraintsOverrideConstraintFlag :: bool
  m_noSaoConstraintFlag :: bool
  m_noCCSaoConstraintFlag :: bool
  m_noAlfConstraintFlag :: bool
  m_noCCAlfConstraintFlag :: bool
  m_noWeightedPredictionConstraintFlag :: bool
  m_noRefWraparoundConstraintFlag :: bool
  m_noTemporalMvpConstraintFlag :: bool
  m_noSbtmvpConstraintFlag :: bool
  m_noAmvrConstraintFlag :: bool
  m_noBdofConstraintFlag :: bool
  m_noDmvrConstraintFlag :: bool
  m_noCclmConstraintFlag :: bool
  m_noMtsConstraintFlag :: bool
  m_noSbtConstraintFlag :: bool
  m_noAffineMotionConstraintFlag :: bool
  m_noBcwConstraintFlag :: bool
  m_noIbcConstraintFlag :: bool
  m_noDimdConstraintFlag :: bool
  m_noTimdConstraintFlag :: bool
  m_noObmcConstraintFlag :: bool
  m_noCiipConstraintFlag :: bool
  m_noGeoConstraintFlag :: bool
  m_noLadfConstraintFlag :: bool
  m_noTransformSkipConstraintFlag :: bool
  m_noLumaTransformSize64ConstraintFlag :: bool
  m_noBDPCMConstraintFlag :: bool
  m_noJointCbCrConstraintFlag :: bool
  m_noQpDeltaConstraintFlag :: bool
  m_noDepQuantConstraintFlag :: bool
  m_noSignDataHidingConstraintFlag :: bool
  m_noMixedNaluTypesInPicConstraintFlag :: bool
  m_noTrailConstraintFlag :: bool
  m_noStsaConstraintFlag :: bool
  m_noRaslConstraintFlag :: bool
  m_noRadlConstraintFlag :: bool
  m_noIdrConstraintFlag :: bool
  m_noCraConstraintFlag :: bool
  m_noGdrConstraintFlag :: bool
  m_noApsConstraintFlag :: bool

definition new_ConstraintInfo :: ConstraintInfo where
  "new_ConstraintInfo =
     \<lparr>m_gciPresentFlag = True,
      m_noRprConstraintFlag = False,
      m_noResChangeInClvsConstraintFlag = False,
      m_oneTilePerPicConstraintFlag = False,
      m_picHeaderInSliceHeaderConstraintFlag = False,
      m_oneSlicePerPicConstraintFlag = False,
      m_noIdrRplConstraintFlag = False,
      m_noRectSliceConstraintFlag = False,
      m_oneSlicePerSubpicConstraintFlag = False,
      m_noSubpicInfoConstraintFlag = False,
      m_intraOnlyConstraintFlag = False,
      m_maxBitDepthConstraintIdc = 16,
      m_maxChromaFormatConstraintIdc = 3,
      m_onePictureOnlyConstraintFlag = False,
      m_lowerBitRateConstraintFlag = False,
      m_allLayersIndependentConstraintFlag = False,
      m_noMrlConstraintFlag = False,
      m_noIspConstraintFlag = False,
      m_noMipConstraintFlag = False,
      m_noLfnstConstraintFlag = False,
      m_noMmvdConstraintFlag = False,
      m_noSmvdConstraintFlag = False,
      m_noProfConstraintFlag = False,
      m_noPaletteConstraintFlag = False,
      m_noActConstraintFlag = False,
      m_noLmcsConstraintFlag = False,
      m_noExplicitScaleListConstraintFlag = False,
      m_noVirtualBoundaryConstraintFlag = False,
      m_noMttConstraintFlag = False,
      m_noChromaQpOffsetConstraintFlag = False,
      m_noQtbttDualTreeIntraConstraintFlag = False,
      m_maxLog2CtuSizeConstraintIdc = 8,
      m_noPartitionConstraintsOverrideConstraintFlag = False,
      m_noSaoConstraintFlag = False,
      m_noCCSaoConstraintFlag = False,
      m_noAlfConstraintFlag = False,
      m_noCCAlfConstraintFlag = False,
      m_noWeightedPredictionConstraintFlag = False,
      m_noRefWraparoundConstraintFlag = False,
      m_noTemporalMvpConstraintFlag = False,
      m_noSbtmvpConstraintFlag = False,
      m_noAmvrConstraintFlag = False,
      m_noBdofConstraintFlag = False,
      m_noDmvrConstraintFlag = False,
      m_noCclmConstraintFlag = False,
      m_noMtsConstraintFlag = False,
      m_noSbtConstraintFlag = False,
      m_noAffineMotionConstraintFlag = False,
      m_noBcwConstraintFlag = False,
      m_noIbcConstraintFlag = False,
      m_noDimdConstraintFlag = False,
      m_noTimdConstraintFlag = False,
      m_noObmcConstraintFlag = False,
      m_noCiipConstraintFlag = False,
      m_noGeoConstraintFlag = False,
      m_noLadfConstraintFlag = False,
      m_noTransformSkipConstraintFlag = False,
      m_noLumaTransformSize64ConstraintFlag = False,
      m_noBDPCMConstraintFlag = False,
      m_noJointCbCrConstraintFlag = False,
      m_noQpDeltaConstraintFlag = False,
      m_noDepQuantConstraintFlag = False,
      m_noSignDataHidingConstraintFlag = False,
      m_noMixedNaluTypesInPicConstraintFlag = False,
      m_noTrailConstraintFlag = False,
      m_noStsaConstraintFlag = False,
      m_noRaslConstraintFlag = False,
      m_noRadlConstraintFlag = False,
      m_noIdrConstraintFlag = False,
      m_noCraConstraintFlag = False,
      m_noGdrConstraintFlag = False,
      m_noApsConstraintFlag = False\<rparr>"

text \<open>The comparison, member by member as the code has it.\<close>

definition constraint_eq :: "ConstraintInfo \<Rightarrow> ConstraintInfo \<Rightarrow> bool" where
  "constraint_eq op1 op2 \<longleftrightarrow>
     m_intraOnlyConstraintFlag op1 = m_intraOnlyConstraintFlag op2 \<and>
     m_maxBitDepthConstraintIdc op1 = m_maxBitDepthConstraintIdc op2 \<and>
     m_maxChromaFormatConstraintIdc op1 = m_maxChromaFormatConstraintIdc op2 \<and>
     m_onePictureOnlyConstraintFlag op1 = m_onePictureOnlyConstraintFlag op2 \<and>
     m_lowerBitRateConstraintFlag op1 = m_lowerBitRateConstraintFlag op2 \<and>
     m_allLayersIndependentConstraintFlag op1 = m_allLayersIndependentConstraintFlag op2 \<and>
     m_noMrlConstraintFlag op1 = m_noMrlConstraintFlag op2 \<and>
     m_noIspConstraintFlag op1 = m_noIspConstraintFlag op2 \<and>
     m_noMipConstraintFlag op1 = m_noMipConstraintFlag op2 \<and>
     m_noLfnstConstraintFlag op1 = m_noLfnstConstraintFlag op2 \<and>
     m_noMmvdConstraintFlag op1 = m_noMmvdConstraintFlag op2 \<and>
     m_noSmvdConstraintFlag op1 = m_noSmvdConstraintFlag op2 \<and>
     m_noProfConstraintFlag op1 = m_noProfConstraintFlag op2 \<and>
     m_noPaletteConstraintFlag op1 = m_noPaletteConstraintFlag op2 \<and>
     m_noActConstraintFlag op1 = m_noActConstraintFlag op2 \<and>
     m_noLmcsConstraintFlag op1 = m_noLmcsConstraintFlag op2 \<and>
     m_noExplicitScaleListConstraintFlag op1 = m_noExplicitScaleListConstraintFlag op2 \<and>
     m_noVirtualBoundaryConstraintFlag op1 = m_noVirtualBoundaryConstraintFlag op2 \<and>
     m_noChromaQpOffsetConstraintFlag op1 = m_noChromaQpOffsetConstraintFlag op2 \<and>
     m_noRprConstraintFlag op1 = m_noRprConstraintFlag op2 \<and>
     m_noResChangeInClvsConstraintFlag op1 = m_noResChangeInClvsConstraintFlag op2 \<and>
     m_noMttConstraintFlag op1 = m_noMttConstraintFlag op2 \<and>
     m_noQtbttDualTreeIntraConstraintFlag op1 = m_noQtbttDualTreeIntraConstraintFlag op2 \<and>
     m_noPartitionConstraintsOverrideConstraintFlag op1 = m_noPartitionConstraintsOverrideConstraintFlag op2 \<and>
     m_noSaoConstraintFlag op1 = m_noSaoConstraintFlag op2 \<and>
     m_noCCSaoConstraintFlag op1 = m_noCCSaoConstraintFlag op2 \<and>
     m_noAlfConstraintFlag op1 = m_noAlfConstraintFlag op2 \<and>
     m_noCCAlfConstraintFlag op1 = m_noCCAlfConstraintFlag op2 \<and>
     m_noWeightedPredictionConstraintFlag op1 = m_noWeightedPredictionConstraintFlag op2 \<and>
     m_noRefWraparoundConstraintFlag op1 = m_noRefWraparoundConstraintFlag op2 \<and>
     m_noTemporalMvpConstraintFlag op1 = m_noTemporalMvpConstraintFlag op2 \<and>
     m_noSbtmvpConstraintFlag op1 = m_noSbtmvpConstraintFlag op2 \<and>
     m_noAmvrConstraintFlag op1 = m_noAmvrConstraintFlag op2 \<and>
     m_noBdofConstraintFlag op1 = m_noBdofConstraintFlag op2 \<and>
     m_noDmvrConstraintFlag op1 = m_noDmvrConstraintFlag op2 \<and>
     m_noCclmConstraintFlag op1 = m_noCclmConstraintFlag op2 \<and>
     m_noMtsConstraintFlag op1 = m_noMtsConstraintFlag op2 \<and>
     m_noSbtConstraintFlag op1 = m_noSbtConstraintFlag op2 \<and>
     m_noAffineMotionConstraintFlag op1 = m_noAffineMotionConstraintFlag op2 \<and>
     m_noBcwConstraintFlag op1 = m_noBcwConstraintFlag op2 \<and>
     m_noIbcConstraintFlag op1 = m_noIbcConstraintFlag op2 \<and>
     m_noDimdConstraintFlag op1 = m_noDimdConstraintFlag op2 \<and>
     m_noTimdConstraintFlag op1 = m_noTimdConstraintFlag op2 \<and>
     m_noObmcConstraintFlag op1 = m_noObmcConstraintFlag op2 \<and>
     m_noCiipConstraintFlag op1 = m_noCiipConstraintFlag op2 \<and>
     m_noLadfConstraintFlag op1 = m_noLadfConstraintFlag op2 \<and>
     m_noTransformSkipConstraintFlag op1 = m_noTransformSkipConstraintFlag op2 \<and>
     m_noBDPCMConstraintFlag op1 = m_noBDPCMConstraintFlag op2 \<and>
     m_noJointCbCrConstraintFlag op1 = m_noJointCbCrConstraintFlag op2 \<and>
     m_noQpDeltaConstraintFlag op1 = m_noQpDeltaConstraintFlag op2 \<and>
     m_noDepQuantConstraintFlag op1 = m_noDepQuantConstraintFlag op2 \<and>
     m_noSignDataHidingConstraintFlag op1 = m_noSignDataHidingConstraintFlag op2 \<and>
     m_noTrailConstraintFlag op1 = m_noTrailConstraintFlag op2 \<and>
     m_noStsaConstraintFlag op1 = m_noStsaConstraintFlag op2 \<and>
     m_noRaslConstraintFlag op1 = m_noRaslConstraintFlag op2 \<and>
     m_noRadlConstraintFlag op1 = m_noRadlConstraintFlag op2 \<and>
     m_noIdrConstraintFlag op1 = m_noIdrConstraintFlag op2 \<and>
     m_noCraConstraintFlag op1 = m_noCraConstraintFlag op2 \<and>
     m_noGdrConstraintFlag op1 = m_noGdrConstraintFlag op2 \<and>
     m_noApsConstraintFlag op1 = m_noApsConstraintFlag op2"

section \<open>Writing and parsing\<close>

definition codeConstraintInfo :: "ConstraintInfo \<Rightarrow> writer" where
  "codeConstraintInfo cinfo = seqW [
     writeFlagB (m_gciPresentFlag cinfo),
     ifW (m_gciPresentFlag cinfo) [
       writeFlagB (m_intraOnlyConstraintFlag cinfo),
       writeFlagB (m_allLayersIndependentConstraintFlag cinfo),
       writeFlagB (m_onePictureOnlyConstraintFlag cinfo),
       xWriteCode (16 - m_maxBitDepthConstraintIdc cinfo) 4,
       xWriteCode (of_int (3 - m_maxChromaFormatConstraintIdc cinfo)) 2,
       writeFlagB (m_noMixedNaluTypesInPicConstraintFlag cinfo),
       writeFlagB (m_noTrailConstraintFlag cinfo),
       writeFlagB (m_noStsaConstraintFlag cinfo),
       writeFlagB (m_noRaslConstraintFlag cinfo),
       writeFlagB (m_noRadlConstraintFlag cinfo),
       writeFlagB (m_noIdrConstraintFlag cinfo),
       writeFlagB (m_noCraConstraintFlag cinfo),
       writeFlagB (m_noGdrConstraintFlag cinfo),
       writeFlagB (m_noApsConstraintFlag cinfo),
       writeFlagB (m_noIdrRplConstraintFlag cinfo),
       writeFlagB (m_oneTilePerPicConstraintFlag cinfo),
       writeFlagB (m_picHeaderInSliceHeaderConstraintFlag cinfo),
       writeFlagB (m_oneSlicePerPicConstraintFlag cinfo),
       writeFlagB (m_noRectSliceConstraintFlag cinfo),
       writeFlagB (m_oneSlicePerSubpicConstraintFlag cinfo),
       writeFlagB (m_noSubpicInfoConstraintFlag cinfo),
       xWriteCode (of_int (3 - (m_maxLog2CtuSizeConstraintIdc cinfo - 5))) 2,
       writeFlagB (m_noPartitionConstraintsOverrideConstraintFlag cinfo),
       writeFlagB (m_noMttConstraintFlag cinfo),
       writeFlagB (m_noQtbttDualTreeIntraConstraintFlag cinfo),
       writeFlagB (m_noPaletteConstraintFlag cinfo),
       writeFlagB (m_noIbcConstraintFlag cinfo),
       writeFlagB (m_noIspConstraintFlag cinfo),
       writeFlagB (m_noMrlConstraintFlag cinfo),
       writeFlagB (m_noMipConstraintFlag cinfo),
       writeFlagB (m_noCclmConstraintFlag cinfo),
       writeFlagB (m_noDimdConstraintFlag cinfo),
       writeFlagB (m_noTimdConstraintFlag cinfo),
       writeFlagB (m_noRprConstraintFlag cinfo),
       writeFlagB (m_noResChangeInClvsConstraintFlag cinfo),
       writeFlagB (m_noWeightedPredictionConstraintFlag cinfo),
       writeFlagB (m_noRefWraparoundConstraintFlag cinfo),
       writeFlagB (m_noTemporalMvpConstraintFlag cinfo),
       writeFlagB (m_noSbtmvpConstraintFlag cinfo),
       writeFlagB (m_noAmvrConstraintFlag cinfo),
       writeFlagB (m_noBdofConstraintFlag cinfo),
       writeFlagB (m_noSmvdConstraintFlag cinfo),
       writeFlagB (m_noDmvrConstraintFlag cinfo),
       writeFlagB (m_noMmvdConstraintFlag cinfo),
       writeFlagB (m_noAffineMotionConstraintFlag cinfo),
       writeFlagB (m_noProfConstraintFlag cinfo),
       writeFlagB (m_noBcwConstraintFlag cinfo),
       writeFlagB (m_noCiipConstraintFlag cinfo),
       writeFlagB (m_noGeoConstraintFlag cinfo),
       writeFlagB (m_noObmcConstraintFlag cinfo),
       writeFlagB (m_noLumaTransformSize64ConstraintFlag cinfo),
       writeFlagB (m_noTransformSkipConstraintFlag cinfo),
       writeFlagB (m_noBDPCMConstraintFlag cinfo),
       writeFlagB (m_noMtsConstraintFlag cinfo),
       writeFlagB (m_noLfnstConstraintFlag cinfo),
       writeFlagB (m_noJointCbCrConstraintFlag cinfo),
       writeFlagB (m_noSbtConstraintFlag cinfo),
       writeFlagB (m_noActConstraintFlag cinfo),
       writeFlagB (m_noExplicitScaleListConstraintFlag cinfo),
       writeFlagB (m_noDepQuantConstraintFlag cinfo),
       writeFlagB (m_noSignDataHidingConstraintFlag cinfo),
       writeFlagB (m_noQpDeltaConstraintFlag cinfo),
       writeFlagB (m_noChromaQpOffsetConstraintFlag cinfo),
       writeFlagB (m_noSaoConstraintFlag cinfo),
       writeFlagB (m_noCCSaoConstraintFlag cinfo),
       writeFlagB (m_noAlfConstraintFlag cinfo),
       writeFlagB (m_noCCAlfConstraintFlag cinfo),
       writeFlagB (m_noLmcsConstraintFlag cinfo),
       writeFlagB (m_noLadfConstraintFlag cinfo),
       writeFlagB (m_noVirtualBoundaryConstraintFlag cinfo),
       xWriteCode 0 8],
     alignW]"

text \<open>\<open>gci_num_reserved_bits\<close> is a count of bits that the reader skips; each must be zero.\<close>

fun reserved_loop :: "nat \<Rightarrow> unit parser" where
  "reserved_loop 0 = returnP ()"
| "reserved_loop (Suc n) = bindP xReadFlag (\<lambda>symbol.
     checkP (symbol \<noteq> 0) ''gci_reserved_zero_bit not equal to zero'' (reserved_loop n))"

definition reserved_bits :: "ConstraintInfo editor" where
  "reserved_bits = ignoreR (bindP (xReadCode 8) (\<lambda>symbol. reserved_loop (unat symbol)))"

definition parseConstraintInfo :: "ConstraintInfo editor" where
  "parseConstraintInfo = seqR [
     flagR m_gciPresentFlag_update,
     ifR m_gciPresentFlag [
     flagR m_intraOnlyConstraintFlag_update,
     flagR m_allLayersIndependentConstraintFlag_update,
     flagR m_onePictureOnlyConstraintFlag_update,
     readCheckR (xReadCode 4) (\<lambda>symbol. symbol > 8)
       ''gci_sixteen_minus_max_bitdepth_constraint_idc shall be in the range 0 to 8, inclusive''
       (\<lambda>symbol. m_maxBitDepthConstraintIdc_update (\<lambda>_. if symbol > 8 then 16 else 16 - symbol)),
     readR (xReadCode 2) (\<lambda>symbol. m_maxChromaFormatConstraintIdc_update (\<lambda>_. 3 - uint symbol)),
     flagR m_noMixedNaluTypesInPicConstraintFlag_update,
     flagR m_noTrailConstraintFlag_update,
     flagR m_noStsaConstraintFlag_update,
     flagR m_noRaslConstraintFlag_update,
     flagR m_noRadlConstraintFlag_update,
     flagR m_noIdrConstraintFlag_update,
     flagR m_noCraConstraintFlag_update,
     flagR m_noGdrConstraintFlag_update,
     flagR m_noApsConstraintFlag_update,
     flagR m_noIdrRplConstraintFlag_update,
     flagR m_oneTilePerPicConstraintFlag_update,
     flagR m_picHeaderInSliceHeaderConstraintFlag_update,
     flagR m_oneSlicePerPicConstraintFlag_update,
     flagR m_noRectSliceConstraintFlag_update,
     flagR m_oneSlicePerSubpicConstraintFlag_update,
     flagR m_noSubpicInfoConstraintFlag_update,
     readR (xReadCode 2) (\<lambda>symbol. m_maxLog2CtuSizeConstraintIdc_update (\<lambda>_. 3 - uint symbol + 5)),
     flagR m_noPartitionConstraintsOverrideConstraintFlag_update,
     flagR m_noMttConstraintFlag_update,
     flagR m_noQtbttDualTreeIntraConstraintFlag_update,
     flagR m_noPaletteConstraintFlag_update,
     flagR m_noIbcConstraintFlag_update,
     flagR m_noIspConstraintFlag_update,
     flagR m_noMrlConstraintFlag_update,
     flagR m_noMipConstraintFlag_update,
     flagR m_noCclmConstraintFlag_update,
     flagR m_noDimdConstraintFlag_update,
     flagR m_noTimdConstraintFlag_update,
     flagR m_noRprConstraintFlag_update,
     flagR m_noResChangeInClvsConstraintFlag_update,
     flagR m_noWeightedPredictionConstraintFlag_update,
     flagR m_noRefWraparoundConstraintFlag_update,
     flagR m_noTemporalMvpConstraintFlag_update,
     flagR m_noSbtmvpConstraintFlag_update,
     flagR m_noAmvrConstraintFlag_update,
     flagR m_noBdofConstraintFlag_update,
     flagR m_noSmvdConstraintFlag_update,
     flagR m_noDmvrConstraintFlag_update,
     flagR m_noMmvdConstraintFlag_update,
     flagR m_noAffineMotionConstraintFlag_update,
     flagR m_noProfConstraintFlag_update,
     flagR m_noBcwConstraintFlag_update,
     flagR m_noCiipConstraintFlag_update,
     flagR m_noGeoConstraintFlag_update,
     flagR m_noObmcConstraintFlag_update,
     flagR m_noLumaTransformSize64ConstraintFlag_update,
     flagR m_noTransformSkipConstraintFlag_update,
     flagR m_noBDPCMConstraintFlag_update,
     flagR m_noMtsConstraintFlag_update,
     flagR m_noLfnstConstraintFlag_update,
     flagR m_noJointCbCrConstraintFlag_update,
     flagR m_noSbtConstraintFlag_update,
     flagR m_noActConstraintFlag_update,
     flagR m_noExplicitScaleListConstraintFlag_update,
     flagR m_noDepQuantConstraintFlag_update,
     flagR m_noSignDataHidingConstraintFlag_update,
     flagR m_noQpDeltaConstraintFlag_update,
     flagR m_noChromaQpOffsetConstraintFlag_update,
     flagR m_noSaoConstraintFlag_update,
     flagR m_noCCSaoConstraintFlag_update,
     flagR m_noAlfConstraintFlag_update,
     flagR m_noCCAlfConstraintFlag_update,
     flagR m_noLmcsConstraintFlag_update,
     flagR m_noLadfConstraintFlag_update,
     flagR m_noVirtualBoundaryConstraintFlag_update,
     reserved_bits],
     ignoreR (alignP ''gci_alignment_zero_bit not equal to zero'')]"

section \<open>Round trip\<close>

text \<open>The values the three codes of a few bits can carry.\<close>

definition constraint_ok :: "ConstraintInfo \<Rightarrow> bool" where
  "constraint_ok c \<longleftrightarrow> 8 \<le> m_maxBitDepthConstraintIdc c \<and> m_maxBitDepthConstraintIdc c \<le> 16
     \<and> m_maxChromaFormatConstraintIdc c \<in> {0..3} \<and> m_maxLog2CtuSizeConstraintIdc c \<in> {5..8}"

text \<open>What the reader makes of the structure it is given: the unsent member keeps its value.\<close>

definition constraint_sent :: "ConstraintInfo \<Rightarrow> ConstraintInfo \<Rightarrow> ConstraintInfo" where
  "constraint_sent c old = (if m_gciPresentFlag c
     then c\<lparr>m_lowerBitRateConstraintFlag := m_lowerBitRateConstraintFlag old\<rparr>
     else old\<lparr>m_gciPresentFlag := False\<rparr>)"

lemma codes_reserved: "codes (xWriteCode 0 8) (reserved_bits c) c"
proof -
  have "codes (xWriteCode 0 8) (bindP (xReadCode 8) (\<lambda>symbol. reserved_loop (unat symbol))) ()"
    by (rule codes_bind1) (auto intro!: codes_code codes_skip)
  then show ?thesis unfolding reserved_bits_def by (rule hls_ignore)
qed

lemma codes_max_bit_depth:
  assumes "8 \<le> m_maxBitDepthConstraintIdc c" and "m_maxBitDepthConstraintIdc c \<le> 16"
  shows "codes (xWriteCode (16 - m_maxBitDepthConstraintIdc c) 4)
    (readCheckR (xReadCode 4) (\<lambda>symbol. symbol > 8) msg
       (\<lambda>symbol. m_maxBitDepthConstraintIdc_update (\<lambda>_. if symbol > 8 then 16 else 16 - symbol)) r)
    (r\<lparr>m_maxBitDepthConstraintIdc := m_maxBitDepthConstraintIdc c\<rparr>)"
proof -
  let ?v = "16 - m_maxBitDepthConstraintIdc c"
  have "unat ?v \<le> 8" using assms unat_sub [OF assms(2)] by (simp add: word_le_nat_alt)
  then have "\<not> ?v > 8" "unat ?v < 2 ^ 4" by (simp_all add: word_less_nat_alt)
  then show ?thesis
    using hls_read_check [OF codes_code [of 4 ?v], of "\<lambda>symbol. symbol > 8" msg
      "\<lambda>symbol. m_maxBitDepthConstraintIdc_update (\<lambda>_. if symbol > 8 then 16 else 16 - symbol)" r]
    by simp
qed

lemma codes_idc2:
  assumes "x \<in> {lo - 3..lo}"
  shows "codes (xWriteCode (of_int (lo - x)) 2) (readR (xReadCode 2) (\<lambda>symbol. f (\<lambda>_. lo - uint symbol)) r) (f (\<lambda>_. x) r)"
proof -
  have "lo - x \<in> {0, 1, 2, 3}" using assms by auto
  then have u: "uint (of_int (lo - x) :: u32) = lo - x"
    by (auto simp del: of_int_diff simp add: uint_word_of_int_eq take_bit_int_eq_self)
  then have "unat (of_int (lo - x) :: u32) < 2 ^ 2"
    using assms by (simp add: unat_eq_nat_uint nat_less_iff)
  then have "codes (xWriteCode (of_int (lo - x)) 2) (readR (xReadCode 2) (\<lambda>symbol. f (\<lambda>_. lo - uint symbol)) r)
      (f (\<lambda>_. lo - uint (of_int (lo - x) :: u32)) r)"
    by (intro hls_read codes_code) simp_all
  then show ?thesis unfolding u by simp
qed

lemma codes_chroma_idc:
  "x \<in> {0..3} \<Longrightarrow> codes (xWriteCode (of_int (3 - x)) 2) (readR (xReadCode 2) (\<lambda>symbol. f (\<lambda>_. 3 - uint symbol)) r) (f (\<lambda>_. x) r)"
  using codes_idc2 [of x 3 f r] by simp

lemma codes_ctu_idc:
  "x \<in> {5..8} \<Longrightarrow> codes (xWriteCode (of_int (3 - (x - 5))) 2)
     (readR (xReadCode 2) (\<lambda>symbol. f (\<lambda>_. 3 - uint symbol + 5)) r) (f (\<lambda>_. x) r)"
  using codes_idc2 [of x 8 f r] by (simp add: algebra_simps)

lemma codes_constraint:
  assumes ok: "m_gciPresentFlag c \<Longrightarrow> constraint_ok c"
  shows "codes (codeConstraintInfo c) (parseConstraintInfo old) (constraint_sent c old)"
  unfolding codeConstraintInfo_def parseConstraintInfo_def
  by ((rule hls_codes hls_ignore codes_align codes_reserved codes_max_bit_depth codes_chroma_idc codes_ctu_idc
      | (insert ok, simp add: constraint_ok_def; fail)
      | (auto simp: constraint_sent_def intro!: ConstraintInfo.equality; fail))+)

text \<open>
  C18: Constraint flags survive transmission. Whatever structure the reader starts from, it reads every
  member that the writer sends: all 71 of them when the constraints are present, and otherwise only that
  they are absent. The one member with no syntax element keeps the value it had.
\<close>

theorem constraint_info_roundtrip:
  assumes "m_gciPresentFlag c \<Longrightarrow> constraint_ok c"
  shows "\<exists>s i. codeConstraintInfo c new_out = Inr s
    \<and> parseConstraintInfo old (new_in (out_fifo (writeAlignZero s)))
      = Inr (if m_gciPresentFlag c then c\<lparr>m_lowerBitRateConstraintFlag := m_lowerBitRateConstraintFlag old\<rparr>
             else old\<lparr>m_gciPresentFlag := False\<rparr>, i)"
  using codes_roundtrip [OF codes_constraint [OF assms], of old] unfolding constraint_sent_def by blast

theorem constraint_info_roundtrip_witness:
  "\<exists>s i. codeConstraintInfo (new_ConstraintInfo\<lparr>m_noGeoConstraintFlag := True\<rparr>) new_out = Inr s
    \<and> parseConstraintInfo new_ConstraintInfo (new_in (out_fifo (writeAlignZero s)))
      = Inr (new_ConstraintInfo\<lparr>m_noGeoConstraintFlag := True\<rparr>, i)"
proof -
  have "constraint_ok (new_ConstraintInfo\<lparr>m_noGeoConstraintFlag := True\<rparr>)"
    by (simp add: constraint_ok_def new_ConstraintInfo_def)
  from constraint_info_roundtrip [OF this, of new_ConstraintInfo] show ?thesis
    by (simp add: new_ConstraintInfo_def)
qed

text \<open>
  The comparison is blind to a part of the constraints. Two structures compare equal as soon as they
  agree on the members the comparison lists; twelve members that are transmitted, the presence flag and
  the limit on the CTU size among them, may differ.
\<close>

theorem constraint_comparison_blind:
  "constraint_eq (c\<lparr>m_gciPresentFlag := b1, m_oneTilePerPicConstraintFlag := b2,
      m_picHeaderInSliceHeaderConstraintFlag := b3, m_oneSlicePerPicConstraintFlag := b4,
      m_noIdrRplConstraintFlag := b5, m_noRectSliceConstraintFlag := b6, m_oneSlicePerSubpicConstraintFlag := b7,
      m_noSubpicInfoConstraintFlag := b8, m_maxLog2CtuSizeConstraintIdc := n, m_noGeoConstraintFlag := b9,
      m_noLumaTransformSize64ConstraintFlag := b10, m_noMixedNaluTypesInPicConstraintFlag := b11\<rparr>) c"
  by (simp add: constraint_eq_def)

end
