(* ===== verification/ProfileSyntax.thy ===== *)
theory ProfileSyntax
  imports ConstraintSyntax
begin

unbundle bit_operations_syntax

text \<open>
  Profile, tier and level, and the decoding capability information: \<open>ProfileTierLevel\<close> and \<open>DCI\<close> of
  \<open>source/Lib/CommonLib/Slice.h\<close>, with \<open>codeProfileTierLevel\<close> and \<open>codeDCI\<close>
  (\<open>EncoderLib/VLCWriter.cpp\<close>), \<open>parseProfileTierLevel\<close>, \<open>parseDCI\<close> and \<open>xMoreRbspData\<close>
  (\<open>DecoderLib/VLCReader.cpp\<close>). Profiles and levels are the numbers of their enumerations, because the
  reader casts whatever it has read.
\<close>

section \<open>Profile, tier and level\<close>

datatype Tier = MAIN | HIGH

definition MAX_TLAYER :: nat where "MAX_TLAYER = 7"

definition MAIN_10 :: u32 where "MAIN_10 = 1"
definition MAIN_10_444 :: u32 where "MAIN_10_444 = 33"
definition MAIN_10_STILL_PICTURE :: u32 where "MAIN_10_STILL_PICTURE = MAIN_10 OR 64"
definition MAIN_10_444_STILL_PICTURE :: u32 where "MAIN_10_444_STILL_PICTURE = MAIN_10_444 OR 64"

record ProfileTierLevel =
  m_tierFlag :: Tier
  m_profileIdc :: u32
  m_numSubProfile :: u8
  m_subProfileIdc :: "u32 list"
  m_levelIdc :: u32
  m_frameOnlyConstraintFlag :: bool
  m_multiLayerEnabledFlag :: bool
  m_constraintInfo :: ConstraintInfo
  m_subLayerLevelPresentFlag :: "bool list"
  m_subLayerLevelIdc :: "u32 list"

definition new_ProfileTierLevel :: ProfileTierLevel where
  "new_ProfileTierLevel =
     \<lparr>m_tierFlag = MAIN, m_profileIdc = 0, m_numSubProfile = 0, m_subProfileIdc = [], m_levelIdc = 0,
      m_frameOnlyConstraintFlag = True, m_multiLayerEnabledFlag = False, m_constraintInfo = new_ConstraintInfo,
      m_subLayerLevelPresentFlag = replicate (MAX_TLAYER - 1) False,
      m_subLayerLevelIdc = replicate MAX_TLAYER 0\<rparr>"

definition setNumSubProfile :: "u8 \<Rightarrow> ProfileTierLevel \<Rightarrow> ProfileTierLevel" where
  "setNumSubProfile x ptl = ptl\<lparr>m_numSubProfile := x,
     m_subProfileIdc := take (unat x) (m_subProfileIdc ptl)
       @ replicate (unat x - length (m_subProfileIdc ptl)) 0\<rparr>"

text \<open>The loop \<open>for( int i = n - 1; i >= 0; i-- )\<close>.\<close>

definition downfrom :: "nat \<Rightarrow> nat list" where
  "downfrom n = rev [0..<n]"

definition codeProfileTierLevel :: "ProfileTierLevel \<Rightarrow> bool \<Rightarrow> nat \<Rightarrow> writer" where
  "codeProfileTierLevel ptl profileTierPresentFlag maxNumSubLayersMinus1 = seqW [
     ifW profileTierPresentFlag [
       xWriteCode (m_profileIdc ptl) 7,
       writeFlagB (m_tierFlag ptl = HIGH)],
     xWriteCode (m_levelIdc ptl) 8,
     writeFlagB (m_frameOnlyConstraintFlag ptl),
     writeFlagB (m_multiLayerEnabledFlag ptl),
     ifW profileTierPresentFlag [
       codeConstraintInfo (m_constraintInfo ptl)],
     loopW (\<lambda>i. [atW (m_subLayerLevelPresentFlag ptl) i writeFlagB]) (downfrom maxNumSubLayersMinus1),
     alignW,
     loopW (\<lambda>i. [ifW (m_subLayerLevelPresentFlag ptl ! i)
                    [atW (m_subLayerLevelIdc ptl) i (\<lambda>l. xWriteCode l 8)]]) (downfrom maxNumSubLayersMinus1),
     ifW profileTierPresentFlag [
       xWriteCode (ucast (m_numSubProfile ptl)) 8,
       loopW (\<lambda>i. [atW (m_subProfileIdc ptl) i (\<lambda>p. xWriteCode p 32)]) [0..<unat (m_numSubProfile ptl)]]]"

text \<open>The levels that are not sent are those of the next higher sub-layer.\<close>

fun infer_levels :: "nat \<Rightarrow> bool list \<Rightarrow> u32 list \<Rightarrow> u32 list" where
  "infer_levels 0 present idc = idc"
| "infer_levels (Suc i) present idc =
     infer_levels i present (if \<not> present ! i then updAt i (idc ! (i + 1)) idc else idc)"

definition parseProfileTierLevel :: "bool \<Rightarrow> nat \<Rightarrow> ProfileTierLevel editor" where
  "parseProfileTierLevel profileTierPresentFlag maxNumSubLayersMinus1 = seqR [
     ifR (\<lambda>_. profileTierPresentFlag) [
       codeR 7 m_profileIdc_update,
       readR readFlagB (\<lambda>symbol. m_tierFlag_update (\<lambda>_. if symbol then HIGH else MAIN))],
     codeR 8 m_levelIdc_update,
     flagR m_frameOnlyConstraintFlag_update,
     flagR m_multiLayerEnabledFlag_update,
     checkR (\<lambda>ptl. m_profileIdc ptl \<in> {MAIN_10, MAIN_10_444, MAIN_10_STILL_PICTURE, MAIN_10_444_STILL_PICTURE}
         \<and> m_multiLayerEnabledFlag ptl)
       ''ptl_multilayer_enabled_flag shall be equal to 0 for non-multilayer profiles'',
     ifR (\<lambda>_. profileTierPresentFlag) [
       partR m_constraintInfo m_constraintInfo_update parseConstraintInfo],
     loopR (\<lambda>i. [readAtR readFlagB i m_subLayerLevelPresentFlag m_subLayerLevelPresentFlag_update])
       (downfrom maxNumSubLayersMinus1),
     ignoreR (alignP ''ptl_reserved_zero_bit not equal to zero''),
     loopR (\<lambda>i. [ifR (\<lambda>ptl. m_subLayerLevelPresentFlag ptl ! i)
                    [readAtR (xReadCode 8) i m_subLayerLevelIdc m_subLayerLevelIdc_update]])
       (downfrom maxNumSubLayersMinus1),
     setAtR maxNumSubLayersMinus1 m_subLayerLevelIdc m_subLayerLevelIdc_update m_levelIdc,
     setR (\<lambda>ptl. ptl\<lparr>m_subLayerLevelIdc :=
       infer_levels maxNumSubLayersMinus1 (m_subLayerLevelPresentFlag ptl) (m_subLayerLevelIdc ptl)\<rparr>),
     ifR (\<lambda>_. profileTierPresentFlag) [
       readR (xReadCode 8) (\<lambda>symbol. setNumSubProfile (ucast symbol)),
       (\<lambda>ptl. loopR (\<lambda>i. [readAtR (xReadCode 32) i m_subProfileIdc m_subProfileIdc_update])
         [0..<unat (m_numSubProfile ptl)] ptl)]]"

section \<open>Round trip\<close>

definition ptl_ok :: "bool \<Rightarrow> nat \<Rightarrow> ProfileTierLevel \<Rightarrow> bool" where
  "ptl_ok profileTierPresent n ptl \<longleftrightarrow> n < MAX_TLAYER
     \<and> unat (m_levelIdc ptl) < 2 ^ 8
     \<and> (profileTierPresent \<longrightarrow> unat (m_profileIdc ptl) < 2 ^ 7 \<and> constraint_ok (m_constraintInfo ptl)
          \<and> m_gciPresentFlag (m_constraintInfo ptl)
          \<and> length (m_subProfileIdc ptl) = unat (m_numSubProfile ptl))
     \<and> (m_multiLayerEnabledFlag ptl \<longrightarrow>
          m_profileIdc ptl \<notin> {MAIN_10, MAIN_10_444, MAIN_10_STILL_PICTURE, MAIN_10_444_STILL_PICTURE})
     \<and> length (m_subLayerLevelPresentFlag ptl) = MAX_TLAYER - 1
     \<and> length (m_subLayerLevelIdc ptl) = MAX_TLAYER
     \<and> m_subLayerLevelIdc ptl ! n = m_levelIdc ptl
     \<and> (\<forall>i<n. unat (m_subLayerLevelIdc ptl ! i) < 2 ^ 8
          \<and> (m_subLayerLevelPresentFlag ptl ! i \<or> m_subLayerLevelIdc ptl ! i = m_subLayerLevelIdc ptl ! Suc i))"

lemma infer_levels_ok:
  assumes "length idc = length idc'" and "n < length idc"
    and "\<forall>i<n. present ! i \<or> idc ! i = idc ! Suc i"
    and "\<forall>i<n. present ! i \<longrightarrow> idc' ! i = idc ! i" and "idc' ! n = idc ! n"
  shows "length (infer_levels n present idc') = length idc
    \<and> (\<forall>j<length idc. infer_levels n present idc' ! j = (if j \<le> n then idc ! j else idc' ! j))"
  using assms
proof (induction n arbitrary: idc')
  case (Suc n)
  let ?idc = "if \<not> present ! n then updAt n (idc' ! (n + 1)) idc' else idc'"
  have "length (infer_levels n present ?idc) = length idc
    \<and> (\<forall>j<length idc. infer_levels n present ?idc ! j = (if j \<le> n then idc ! j else ?idc ! j))"
    by (rule Suc.IH) (use Suc.prems in \<open>auto simp: less_Suc_eq\<close>)
  then show ?case using Suc.prems by (auto simp: le_Suc_eq)
qed auto

text \<open>What the reader makes of the structure it is given.\<close>

definition ptl_sent :: "bool \<Rightarrow> nat \<Rightarrow> ProfileTierLevel \<Rightarrow> ProfileTierLevel \<Rightarrow> ProfileTierLevel" where
  "ptl_sent b n ptl old =
     (let old = (if b then old\<lparr>m_profileIdc := m_profileIdc ptl, m_tierFlag := m_tierFlag ptl,
                    m_constraintInfo := constraint_sent (m_constraintInfo ptl) (m_constraintInfo old),
                    m_numSubProfile := m_numSubProfile ptl, m_subProfileIdc := m_subProfileIdc ptl\<rparr>
                 else old)
      in old\<lparr>m_levelIdc := m_levelIdc ptl,
           m_frameOnlyConstraintFlag := m_frameOnlyConstraintFlag ptl,
           m_multiLayerEnabledFlag := m_multiLayerEnabledFlag ptl,
           m_subLayerLevelPresentFlag := take n (m_subLayerLevelPresentFlag ptl) @ drop n (m_subLayerLevelPresentFlag old),
           m_subLayerLevelIdc := take (n + 1) (m_subLayerLevelIdc ptl) @ drop (n + 1) (m_subLayerLevelIdc old)\<rparr>)"

lemma set_downfrom [simp]: "set (downfrom n) = {0..<n}"
  by (simp add: downfrom_def)

lemma fold_downfrom:
  assumes "n \<le> length xs" and "n \<le> length ys"
  shows "fold (\<lambda>i. updAt i (xs ! i)) (downfrom n) ys = take n xs @ drop n ys"
proof (rule nth_equalityI)
  fix j assume "j < length (fold (\<lambda>i. updAt i (xs ! i)) (downfrom n) ys)"
  then have j: "j < length ys" by (simp add: fold_updAt_all)
  show "fold (\<lambda>i. updAt i (xs ! i)) (downfrom n) ys ! j = (take n xs @ drop n ys) ! j"
    using assms j by (simp add: fold_updAt_all nth_append)
qed (use assms in \<open>simp add: fold_updAt_all\<close>)

lemma codes_present:
  assumes "n \<le> length ps" and "n \<le> length (m_subLayerLevelPresentFlag r)"
  shows "codes (loopW (\<lambda>i. [atW ps i writeFlagB]) (downfrom n))
    (loopR (\<lambda>i. [readAtR readFlagB i m_subLayerLevelPresentFlag m_subLayerLevelPresentFlag_update]) (downfrom n) r)
    (r\<lparr>m_subLayerLevelPresentFlag := take n ps @ drop n (m_subLayerLevelPresentFlag r)\<rparr>)"
proof -
  have "codes (loopW (\<lambda>i. [atW ps i writeFlagB]) (downfrom n))
    (loopR (\<lambda>i. [readAtR readFlagB i m_subLayerLevelPresentFlag m_subLayerLevelPresentFlag_update]) (downfrom n) r)
    (m_subLayerLevelPresentFlag_update (fold (\<lambda>i. updAt i (ps ! i)) (downfrom n)) r)"
    by (rule hls_array) (use assms in \<open>simp_all add: codes_flagB\<close>)
  then show ?thesis
    by (rule codes_value) (use assms in \<open>simp add: fold_downfrom ProfileTierLevel.equality\<close>)
qed

lemma codes_levels:
  assumes "n \<le> length ls" and "n \<le> length (m_subLayerLevelIdc r)"
    and "\<And>i. i < n \<Longrightarrow> ps ! i \<Longrightarrow> unat (ls ! i) < 2 ^ 8"
    and "\<And>i. i < n \<Longrightarrow> m_subLayerLevelPresentFlag r ! i = ps ! i"
  shows "codes (loopW (\<lambda>i. [ifW (ps ! i) [atW ls i (\<lambda>l. xWriteCode l 8)]]) (downfrom n))
    (loopR (\<lambda>i. [ifR (\<lambda>ptl. m_subLayerLevelPresentFlag ptl ! i)
       [readAtR (xReadCode 8) i m_subLayerLevelIdc m_subLayerLevelIdc_update]]) (downfrom n) r)
    (m_subLayerLevelIdc_update (fold (\<lambda>i. if ps ! i then updAt i (ls ! i) else (\<lambda>x. x)) (downfrom n)) r)"
  by (rule hls_array_if) (use assms in \<open>simp_all add: codes_code\<close>)

lemma codes_subProfiles:
  assumes "length ss = n" and "m_numSubProfile r = k" and "unat k = n" and "length (m_subProfileIdc r) = n"
  shows "codes (loopW (\<lambda>i. [atW ss i (\<lambda>p. xWriteCode p 32)]) [0..<n])
    (loopR (\<lambda>i. [readAtR (xReadCode 32) i m_subProfileIdc m_subProfileIdc_update]) [0..<unat (m_numSubProfile r)] r)
    (r\<lparr>m_subProfileIdc := ss\<rparr>)"
proof -
  have "codes (loopW (\<lambda>i. [atW ss i (\<lambda>p. xWriteCode p 32)]) [0..<n])
    (loopR (\<lambda>i. [readAtR (xReadCode 32) i m_subProfileIdc m_subProfileIdc_update]) [0..<n] r)
    (m_subProfileIdc_update (fold (\<lambda>i. updAt i (ss ! i)) [0..<n]) r)"
    by (rule hls_array) (use assms in \<open>simp_all add: codes_code32\<close>)
  moreover have "fold (\<lambda>i. updAt i (ss ! i)) [0..<n] (m_subProfileIdc r) = ss"
    using assms by (intro nth_equalityI) (simp_all add: fold_updAt_all)
  ultimately show ?thesis
    using assms(2,3) by (simp add: codes_value ProfileTierLevel.equality)
qed

lemma ucast_ucast_u8: "ucast (ucast (x :: u8) :: u32) = x"
  by (intro bit_eqI) (auto simp: bit_ucast_iff dest: bit_imp_le_length)

lemma codes_numSubProfile:
  assumes "length (m_subProfileIdc ptl) = unat (m_numSubProfile ptl)"
  shows "codes
    (seqW [xWriteCode (ucast (m_numSubProfile ptl)) 8,
       loopW (\<lambda>i. [atW (m_subProfileIdc ptl) i (\<lambda>p. xWriteCode p 32)]) [0..<unat (m_numSubProfile ptl)]])
    (seqR [readR (xReadCode 8) (\<lambda>symbol. setNumSubProfile (ucast symbol)),
       (\<lambda>ptl. loopR (\<lambda>i. [readAtR (xReadCode 32) i m_subProfileIdc m_subProfileIdc_update])
         [0..<unat (m_numSubProfile ptl)] ptl)] r)
    (r\<lparr>m_numSubProfile := m_numSubProfile ptl, m_subProfileIdc := m_subProfileIdc ptl\<rparr>)"
proof -
  have k: "unat (m_numSubProfile ptl) < 2 ^ 8" using unsigned_less [of "m_numSubProfile ptl"] by simp
  let ?r = "setNumSubProfile (m_numSubProfile ptl) r"
  have "codes (xWriteCode (ucast (m_numSubProfile ptl)) 8)
      (readR (xReadCode 8) (\<lambda>symbol. setNumSubProfile (ucast symbol)) r)
      (setNumSubProfile (ucast (ucast (m_numSubProfile ptl) :: u32)) r)"
    by (intro hls_read codes_code) (use k in simp_all)
  moreover have "codes (loopW (\<lambda>i. [atW (m_subProfileIdc ptl) i (\<lambda>p. xWriteCode p 32)]) [0..<unat (m_numSubProfile ptl)])
    (loopR (\<lambda>i. [readAtR (xReadCode 32) i m_subProfileIdc m_subProfileIdc_update])
       [0..<unat (m_numSubProfile ?r)] ?r) (?r\<lparr>m_subProfileIdc := m_subProfileIdc ptl\<rparr>)"
    by (rule codes_subProfiles [OF assms]) (simp_all add: setNumSubProfile_def)
  moreover have "?r\<lparr>m_subProfileIdc := m_subProfileIdc ptl\<rparr>
      = r\<lparr>m_numSubProfile := m_numSubProfile ptl, m_subProfileIdc := m_subProfileIdc ptl\<rparr>"
    by (simp add: setNumSubProfile_def)
  ultimately show ?thesis by (auto intro!: hls_cons hls_nil simp: ucast_ucast_u8)
qed

lemma levels_sent:
  assumes ok: "ptl_ok b n ptl" and len: "length idc = 7" and pr: "\<And>i. i < n \<Longrightarrow> ps ! i = m_subLayerLevelPresentFlag ptl ! i"
  shows "infer_levels n ps (updAt n (m_levelIdc ptl)
      (fold (\<lambda>i. if m_subLayerLevelPresentFlag ptl ! i then updAt i (m_subLayerLevelIdc ptl ! i) else (\<lambda>x. x))
        (downfrom n) idc))
    = take (n + 1) (m_subLayerLevelIdc ptl) @ drop (n + 1) idc"
proof -
  note ok' = ok [unfolded ptl_ok_def MAX_TLAYER_def]
  let ?idc = "updAt n (m_levelIdc ptl) (fold (\<lambda>i. if m_subLayerLevelPresentFlag ptl ! i
      then updAt i (m_subLayerLevelIdc ptl ! i) else (\<lambda>x. x)) (downfrom n) idc)"
  have "length (infer_levels n ps ?idc) = length (m_subLayerLevelIdc ptl)
    \<and> (\<forall>j<length (m_subLayerLevelIdc ptl).
         infer_levels n ps ?idc ! j = (if j \<le> n then m_subLayerLevelIdc ptl ! j else ?idc ! j))"
    by (rule infer_levels_ok) (use ok' len pr in \<open>auto simp: fold_updAt_nth\<close>)
  then show ?thesis
    using ok' len by (intro nth_equalityI) (auto simp: nth_append fold_updAt_nth)
qed

lemma codes_ptl:
  assumes ok: "ptl_ok b n ptl" and len: "length (m_subLayerLevelPresentFlag old) = MAX_TLAYER - 1"
    "length (m_subLayerLevelIdc old) = MAX_TLAYER"
    and prof: "b \<or> m_profileIdc old \<notin> {MAIN_10, MAIN_10_444, MAIN_10_STILL_PICTURE, MAIN_10_444_STILL_PICTURE}"
  shows "codes (codeProfileTierLevel ptl b n) (parseProfileTierLevel b n old) (ptl_sent b n ptl old)"
proof -
  note ok' = ok [unfolded ptl_ok_def MAX_TLAYER_def] and len' = len [unfolded MAX_TLAYER_def]
  have gci: "b \<Longrightarrow> m_gciPresentFlag (m_constraintInfo ptl) \<Longrightarrow> constraint_ok (m_constraintInfo ptl)"
    using ok' by simp
  show ?thesis
    unfolding codeProfileTierLevel_def parseProfileTierLevel_def
    apply ((rule codes_numSubProfile hls_codes hls_ignore codes_align hls_part codes_constraint codes_present codes_levels
        hls_read codes_flagB codes_code gci
      | (insert ok' len' prof, auto simp: nth_append; fail))+)
    apply (insert ok' len', cases b; cases "m_tierFlag ptl")
    apply (auto intro!: ProfileTierLevel.equality simp: ptl_sent_def levels_sent [OF ok] nth_append)
    done
qed

section \<open>More data behind the syntax structure\<close>

text \<open>\<open>xMoreRbspData\<close> counts the bits before the trailing one; the loop stops at it.\<close>

fun strip_zero_bits :: "nat \<Rightarrow> u8 \<Rightarrow> nat" where
  "strip_zero_bits 0 lastByte = 0"
| "strip_zero_bits (Suc cnt) lastByte =
     (if lastByte AND 1 = 0 then strip_zero_bits cnt (drop_bit 1 lastByte) else Suc cnt)"

definition xMoreRbspData :: "bool parser" where
  "xMoreRbspData s =
     (let bitsLeft = getNumBitsLeft s
      in if bitsLeft > 8 then Inr (True, s)
         else bindE (pseudoRead bitsLeft s) (\<lambda>(lastByte, s).
              let cnt = int (strip_zero_bits bitsLeft (ucast lastByte)) - 1
              in checkE (cnt < 0) ''Negative number of bits'' (Inr (cnt > 0, s))))"

lemma in_read_fifo: "in_read n s = Inr (v, s') \<Longrightarrow> in_fifo s' = in_fifo s"
  by (auto simp: in_read_def Let_def checkE_Inr_iff split: if_splits)

lemma xMoreRbspData_left: "xMoreRbspData s = Inr (b, s') \<Longrightarrow> getNumBitsLeft s' = getNumBitsLeft s"
  by (auto simp: xMoreRbspData_def pseudoRead_def Let_def checkE_Inr_iff bindE_Inr_iff getNumBitsLeft_def
      dest: in_read_fifo split: if_splits prod.splits)

function extension_data :: "unit parser" where
  "extension_data s =
     bindE (xMoreRbspData s) (\<lambda>(more, s').
     if more then bindE (xReadFlag s') (\<lambda>(symbol, s'). extension_data s') else Inr ((), s'))"
  by pat_completeness auto
termination
  by (relation "measure getNumBitsLeft") (auto simp: xReadFlag_def dest!: in_read_left xMoreRbspData_left)

declare extension_data.simps [simp del]

section \<open>Decoding capability information\<close>

record DCI =
  m_maxSubLayersMinus1 :: int
  m_profileTierLevel :: "ProfileTierLevel list"

definition new_DCI :: DCI where
  "new_DCI = \<lparr>m_maxSubLayersMinus1 = 0, m_profileTierLevel = []\<rparr>"

definition codeDCI :: "DCI \<Rightarrow> writer" where
  "codeDCI dci =
     (let numPTLs = (of_nat (length (m_profileTierLevel dci)) :: u32)
      in seqW [
        xWriteCode 0 4,
        checkW (numPTLs < 1 \<or> numPTLs > 15) ''dci_num_plts_minus1 shall be in the range of 0 - 14'',
        xWriteCode (numPTLs - 1) 4,
        loopW (\<lambda>i. [atW (m_profileTierLevel dci) i (\<lambda>ptl. codeProfileTierLevel ptl True 0)]) [0..<unat numPTLs],
        xWriteFlag 0,
        xWriteRbspTrailingBits])"

definition parseDCI :: "DCI editor" where
  "parseDCI dci =
     bindP (xReadCode 4) (\<lambda>symbol.
     bindP (xReadCode 4) (\<lambda>numPTLs.
     bindP (replicateP (unat (numPTLs + 1)) (parseProfileTierLevel True 0 new_ProfileTierLevel)) (\<lambda>ptls.
     bindP xReadFlag (\<lambda>symbol.
     bindP (if symbol \<noteq> 0 then extension_data else returnP ()) (\<lambda>_.
     bindP xReadRbspTrailingBits (\<lambda>_.
     returnP (dci\<lparr>m_profileTierLevel := ptls\<rparr>)))))))"

text \<open>A structure whose unsent members have their initial values.\<close>

definition ptl_plain :: "nat \<Rightarrow> ProfileTierLevel \<Rightarrow> bool" where
  "ptl_plain n ptl \<longleftrightarrow> m_lowerBitRateConstraintFlag (m_constraintInfo ptl) = False
     \<and> drop n (m_subLayerLevelPresentFlag ptl) = replicate (6 - n) False
     \<and> drop (n + 1) (m_subLayerLevelIdc ptl) = replicate (6 - n) 0"

lemma ptl_sent_new:
  assumes "ptl_ok True n ptl" and "ptl_plain n ptl"
  shows "ptl_sent True n ptl new_ProfileTierLevel = ptl"
proof -
  note ok = assms(1) [unfolded ptl_ok_def MAX_TLAYER_def] and plain = assms(2) [unfolded ptl_plain_def]
  have pres: "take n (m_subLayerLevelPresentFlag ptl) @ replicate (6 - n) False = m_subLayerLevelPresentFlag ptl"
    using plain append_take_drop_id [of n "m_subLayerLevelPresentFlag ptl"] by simp
  have idc: "take (Suc n) (m_subLayerLevelIdc ptl) @ replicate (6 - n) 0 = m_subLayerLevelIdc ptl"
    using plain append_take_drop_id [of "Suc n" "m_subLayerLevelIdc ptl"] by simp
  have "constraint_sent (m_constraintInfo ptl) new_ConstraintInfo = m_constraintInfo ptl"
    using ok plain by (simp add: constraint_sent_def new_ConstraintInfo_def)
  then show ?thesis
    by (intro ProfileTierLevel.equality)
      (simp_all add: ptl_sent_def new_ProfileTierLevel_def MAX_TLAYER_def pres idc)
qed

lemma codes_ptl_new:
  assumes "ptl_ok True n ptl" and "ptl_plain n ptl"
  shows "codes (codeProfileTierLevel ptl True n) (parseProfileTierLevel True n new_ProfileTierLevel) ptl"
  using codes_ptl [OF assms(1), of new_ProfileTierLevel] ptl_sent_new [OF assms]
  by (simp add: new_ProfileTierLevel_def MAX_TLAYER_def)

text \<open>
  C19: Profile, tier and level survive transmission: for every number of temporal sub-layers the reader,
  starting from a fresh structure, obtains exactly the structure written, with its constraints and
  sub-profiles, and with the level of every sub-layer, sent or inferred from the next higher one.
\<close>

theorem profile_tier_level_roundtrip:
  assumes "ptl_ok True n ptl" and "ptl_plain n ptl"
  shows "\<exists>s i. codeProfileTierLevel ptl True n new_out = Inr s
    \<and> parseProfileTierLevel True n new_ProfileTierLevel (new_in (out_fifo (writeAlignZero s))) = Inr (ptl, i)"
  by (rule codes_roundtrip [OF codes_ptl_new [OF assms]])

definition sample_ptl :: ProfileTierLevel where
  "sample_ptl = new_ProfileTierLevel\<lparr>m_profileIdc := 17, m_tierFlag := HIGH, m_numSubProfile := 1, m_subProfileIdc := [7],
     m_levelIdc := 51, m_multiLayerEnabledFlag := True, m_subLayerLevelPresentFlag := [True, False, False, False, False, False],
     m_subLayerLevelIdc := [48, 51, 51, 0, 0, 0, 0]\<rparr>"

lemma sample_ptl_ok: "ptl_ok True 2 sample_ptl" "ptl_plain 2 sample_ptl"
proof -
  show "ptl_ok True 2 sample_ptl"
    by (auto simp: ptl_ok_def sample_ptl_def new_ProfileTierLevel_def new_ConstraintInfo_def constraint_ok_def
        MAX_TLAYER_def MAIN_10_def MAIN_10_444_def MAIN_10_STILL_PICTURE_def MAIN_10_444_STILL_PICTURE_def
        dest!: less_2_cases)
  show "ptl_plain 2 sample_ptl"
    by (simp add: ptl_plain_def sample_ptl_def new_ProfileTierLevel_def new_ConstraintInfo_def numeral_eq_Suc)
qed

theorem profile_tier_level_roundtrip_witness:
  "\<exists>s i. codeProfileTierLevel sample_ptl True 2 new_out = Inr s
    \<and> parseProfileTierLevel True 2 new_ProfileTierLevel (new_in (out_fifo (writeAlignZero s))) = Inr (sample_ptl, i)"
  by (rule profile_tier_level_roundtrip [OF sample_ptl_ok])

definition dci_ok :: "DCI \<Rightarrow> bool" where
  "dci_ok dci \<longleftrightarrow> length (m_profileTierLevel dci) \<in> {1..15}
     \<and> list_all (\<lambda>ptl. ptl_ok True 0 ptl \<and> ptl_plain 0 ptl) (m_profileTierLevel dci)"

lemma no_extension:
  "codes (seqW ws) (q ()) v \<Longrightarrow>
     codes (seqW ws) (bindP (if (0 :: u32) \<noteq> 0 then extension_data else returnP ()) q) v"
  by simp

lemma codes_dci:
  assumes "dci_ok dci"
  shows "codes (codeDCI dci) (parseDCI old) (old\<lparr>m_profileTierLevel := m_profileTierLevel dci\<rparr>)"
proof -
  define n where "n = length (m_profileTierLevel dci)"
  have n: "1 \<le> n" "n \<le> 15" using assms by (simp_all add: dci_ok_def n_def)
  have u: "unat (of_nat n :: u32) = n" using n by (simp add: unat_of_nat take_bit_nat_eq_self_iff)
  have s: "1 \<le> (of_nat n :: u32)" using n u by (simp add: word_le_nat_alt)
  have m: "unat (of_nat n - 1 :: u32) = n - 1" using unat_sub [OF s] u by simp
  have c: "\<not> (of_nat n < (1 :: u32) \<or> of_nat n > (15 :: u32))"
    using n u by (simp add: word_less_nat_alt)
  have "codes (seqW (map (\<lambda>ptl. codeProfileTierLevel ptl True 0) (m_profileTierLevel dci)))
      (replicateP n (parseProfileTierLevel True 0 new_ProfileTierLevel)) (m_profileTierLevel dci)"
    unfolding n_def by (rule codes_list, rule codes_ptl_new) (use assms in \<open>simp_all add: dci_ok_def list_all_iff\<close>)
  then have l: "codes (loopW (\<lambda>i. [atW (m_profileTierLevel dci) i (\<lambda>ptl. codeProfileTierLevel ptl True 0)]) [0..<n])
      (replicateP (unat (of_nat n - 1 + 1 :: u32)) (parseProfileTierLevel True 0 new_ProfileTierLevel))
      (m_profileTierLevel dci)"
    unfolding n_def loopW_atW using u by (simp add: n_def)
  show ?thesis
    unfolding codeDCI_def parseDCI_def Let_def n_def [symmetric] u
    by (rule codes_checkW c no_extension codes_return codes_bind codes_code l codes_flag_0 codes_trailing
        | (use n in \<open>simp add: m; fail\<close>))+
qed

text \<open>
  The decoding capability information survives transmission: from one to fifteen profile, tier and
  level structures are read back as written, and the reader finds the end of the NAL unit.
\<close>

theorem dci_roundtrip:
  assumes "dci_ok dci"
  shows "\<exists>s i. codeDCI dci new_out = Inr s
    \<and> parseDCI old (new_in (out_fifo (writeAlignZero s))) = Inr (old\<lparr>m_profileTierLevel := m_profileTierLevel dci\<rparr>, i)"
  by (rule codes_roundtrip [OF codes_dci [OF assms]])

theorem dci_roundtrip_witness:
  "\<exists>s i. codeDCI (new_DCI\<lparr>m_profileTierLevel := [new_ProfileTierLevel, new_ProfileTierLevel]\<rparr>) new_out = Inr s
    \<and> parseDCI new_DCI (new_in (out_fifo (writeAlignZero s)))
      = Inr (new_DCI\<lparr>m_profileTierLevel := [new_ProfileTierLevel, new_ProfileTierLevel]\<rparr>, i)"
proof -
  have "ptl_ok True 0 new_ProfileTierLevel" "ptl_plain 0 new_ProfileTierLevel"
    by (simp_all add: ptl_ok_def ptl_plain_def new_ProfileTierLevel_def new_ConstraintInfo_def constraint_ok_def
        MAX_TLAYER_def)
  then have "dci_ok (new_DCI\<lparr>m_profileTierLevel := [new_ProfileTierLevel, new_ProfileTierLevel]\<rparr>)"
    by (simp add: dci_ok_def)
  from dci_roundtrip [OF this, of new_DCI] show ?thesis by simp
qed

end
