(* ===== verification/CommonAlgorithms.thy ===== *)
theory CommonAlgorithms
  imports ECM_Prelude "HOL-Library.Product_Lexorder" "HOL-Library.Multiset"
begin

unbundle bit_operations_syntax

text \<open>
  The inline algorithms of \<open>source/Lib/CommonLib/CommonDef.h\<close> that the rest of the code relies on:
  logarithms by halving the word, the position of the top bit, clipping, and the table of the indices of
  the smallest values (\<open>getIndexMappingTableToSortedArray1D\<close>). Integers are natural numbers or integers;
  no operation here leaves the range of its type.
\<close>

section \<open>Clipping\<close>

definition Clip3 :: "int \<Rightarrow> int \<Rightarrow> int \<Rightarrow> int" where
  "Clip3 minVal maxVal a = min (max minVal a) maxVal"

text \<open>Blocks of transform coefficients are never larger than this in either direction.\<close>

definition JVET_C0024_ZERO_OUT_TH :: nat where "JVET_C0024_ZERO_OUT_TH = 256"

section \<open>Logarithms\<close>

text \<open>One step of the search: when a bit of the mask is set, the word is shifted and the result grows.\<close>

definition log_step :: "nat \<Rightarrow> nat \<Rightarrow> nat \<times> nat \<Rightarrow> nat \<times> nat" where
  "log_step bits k = (\<lambda>(x, result). if x AND bits \<noteq> 0 then (drop_bit k x, result + k) else (x, result))"

text \<open>The portable branch; the one for GNU compilers, \<open>31 - __builtin_clz(x)\<close>, has the same value for positive words.\<close>

definition floorLog2 :: "nat \<Rightarrow> int" where
  "floorLog2 x =
     (if x = 0 then -1
      else int (snd (log_step 0x2 1 (log_step 0xc 2 (log_step 0xf0 4 (log_step 0xff00 8
             (log_step 0xffff0000 16 (x, 0))))))))"

definition floorLog2_uint64 :: "nat \<Rightarrow> int" where
  "floorLog2_uint64 x =
     (if x = 0 then -1
      else int (snd (log_step 0x2 1 (log_step 0xc 2 (log_step 0xf0 4 (log_step 0xff00 8
             (log_step 0xffff0000 16 (log_step 0xffffffff00000000 32 (x, 0)))))))))"

definition ceilLog2 :: "nat \<Rightarrow> int" where
  "ceilLog2 x = (if x = 0 then -1 else floorLog2 (x - 1) + 1)"

text \<open>The loop of \<open>getMSB\<close>. Nothing in it bounds the number of turns.\<close>

partial_function (option) msb_loop :: "nat \<Rightarrow> nat \<Rightarrow> nat \<Rightarrow> nat \<Rightarrow> nat option" where
  "msb_loop x msb bits y =
     (if x > 1
      then let bits = drop_bit 1 bits; y = drop_bit bits x
           in if y \<noteq> 0 then msb_loop y (msb + bits) bits y else msb_loop x msb bits y
      else Some (msb + y))"

definition getMSB :: "nat \<Rightarrow> nat option" where
  "getMSB x = msb_loop x 0 32 1"

definition isPowerOf2 :: "nat \<Rightarrow> bool" where
  "isPowerOf2 val \<longleftrightarrow> val AND (val - 1) = 0"

lemma mask_shift: "(x :: nat) < 2 ^ (2 * k) \<Longrightarrow> x AND (2 ^ (2 * k) - 2 ^ k) \<noteq> 0 \<longleftrightarrow> 2 ^ k \<le> x"
proof -
  assume x: "x < 2 ^ (2 * k)"
  have m: "(2 :: nat) ^ (2 * k) - 2 ^ k = push_bit k (mask k)"
    by (simp add: mask_eq_exp_minus_1 push_bit_eq_mult mult_2 power_add diff_mult_distrib)
  have "x AND push_bit k (mask k) = push_bit k (drop_bit k x AND mask k)"
    by (rule bit_eqI) (auto simp: bit_simps)
  also have "drop_bit k x AND mask k = drop_bit k x"
    using x by (simp add: take_bit_eq_mask [symmetric] take_bit_nat_eq_self_iff drop_bit_eq_div mult_2 power_add
        less_mult_imp_div_less)
  finally show ?thesis unfolding m
    by (simp add: push_bit_eq_0_iff drop_bit_eq_div div_eq_0_iff not_less)
qed

lemma log_step_ok:
  assumes "0 < x" and "x < 2 ^ (2 * k)" and "m = 2 ^ (2 * k) - 2 ^ k"
  shows "\<exists>x' r'. log_step m k (x, r) = (x', r') \<and> 0 < x' \<and> x' < 2 ^ k
    \<and> (\<exists>d. r' = r + d \<and> x div 2 ^ d = x')"
proof (cases "2 ^ k \<le> x")
  case True
  then have "log_step m k (x, r) = (x div 2 ^ k, r + k)"
    using mask_shift [OF assms(2)] assms(3) by (simp add: log_step_def drop_bit_eq_div)
  moreover have "0 < x div 2 ^ k" using True by (simp add: div_greater_zero_iff)
  moreover have "x div 2 ^ k < 2 ^ k" using assms(2) by (simp add: mult_2 power_add less_mult_imp_div_less)
  ultimately show ?thesis by blast
next
  case False
  then have "log_step m k (x, r) = (x, r)" using mask_shift [OF assms(2)] assms(3) by (simp add: log_step_def)
  then show ?thesis using False assms(1) by (auto intro!: exI [of _ 0])
qed

lemma log_steps:
  assumes "0 < x" and "x < 2 ^ 32"
  shows "\<exists>r. snd (log_step 0x2 1 (log_step 0xc 2 (log_step 0xf0 4 (log_step 0xff00 8
    (log_step 0xffff0000 16 (x, r0)))))) = r0 + r \<and> x div 2 ^ r = 1"
proof -
  obtain x1 d1 where 1: "log_step 0xffff0000 16 (x, r0) = (x1, r0 + d1)" "0 < x1" "x1 < 2 ^ 16" "x div 2 ^ d1 = x1"
    using log_step_ok [of x 16 "0xffff0000" r0] assms by auto
  obtain x2 d2 where 2: "log_step 0xff00 8 (x1, r0 + d1) = (x2, r0 + d1 + d2)" "0 < x2" "x2 < 2 ^ 8" "x1 div 2 ^ d2 = x2"
    using log_step_ok [of x1 8 "0xff00" "r0 + d1"] 1 by auto
  obtain x3 d3 where 3: "log_step 0xf0 4 (x2, r0 + d1 + d2) = (x3, r0 + d1 + d2 + d3)" "0 < x3" "x3 < 2 ^ 4" "x2 div 2 ^ d3 = x3"
    using log_step_ok [of x2 4 "0xf0" "r0 + d1 + d2"] 2 by auto
  obtain x4 d4 where 4: "log_step 0xc 2 (x3, r0 + d1 + d2 + d3) = (x4, r0 + d1 + d2 + d3 + d4)" "0 < x4" "x4 < 2 ^ 2" "x3 div 2 ^ d4 = x4"
    using log_step_ok [of x3 2 "0xc" "r0 + d1 + d2 + d3"] 3 by auto
  obtain x5 d5 where 5: "log_step 0x2 1 (x4, r0 + d1 + d2 + d3 + d4) = (x5, r0 + d1 + d2 + d3 + d4 + d5)" "0 < x5" "x5 < 2 ^ 1" "x4 div 2 ^ d5 = x5"
    using log_step_ok [of x4 1 "0x2" "r0 + d1 + d2 + d3 + d4"] 4 by auto
  have "x div 2 ^ (d1 + d2 + d3 + d4 + d5) = x5"
    using 1(4) 2(4) 3(4) 4(4) 5(4) by (simp add: power_add div_mult2_eq)
  then show ?thesis using 1(1) 2(1) 3(1) 4(1) 5(1,2,3)
    by (intro exI [of _ "d1 + d2 + d3 + d4 + d5"]) simp
qed

lemma div_exp_1: "x div 2 ^ r = (1 :: nat) \<longleftrightarrow> 2 ^ r \<le> x \<and> x < 2 ^ (r + 1)"
proof
  assume "x div 2 ^ r = 1"
  then show "2 ^ r \<le> x \<and> x < 2 ^ (r + 1)"
    using dividend_less_times_div [of "2 ^ r" x] times_div_less_eq_dividend [of "2 ^ r" x] by simp
next
  assume "2 ^ r \<le> x \<and> x < 2 ^ (r + 1)"
  then show "x div 2 ^ r = 1" by (intro div_nat_eqI) simp_all
qed

lemma floorLog2_ok: "0 < x \<Longrightarrow> x < 2 ^ 32 \<Longrightarrow> \<exists>r. floorLog2 x = int r \<and> 2 ^ r \<le> x \<and> x < 2 ^ (r + 1)"
  using log_steps [of x 0] unfolding floorLog2_def div_exp_1 by auto

lemma floorLog2_uint64_ok:
  assumes "0 < x" and "x < 2 ^ 64"
  shows "\<exists>r. floorLog2_uint64 x = int r \<and> 2 ^ r \<le> x \<and> x < 2 ^ (r + 1)"
proof -
  obtain x' d where 0: "log_step 0xffffffff00000000 32 (x, 0) = (x', d)" "0 < x'" "x' < 2 ^ 32" "x div 2 ^ d = x'"
    using log_step_ok [of x 32 "0xffffffff00000000" 0] assms by auto
  obtain r where "snd (log_step 0x2 1 (log_step 0xc 2 (log_step 0xf0 4 (log_step 0xff00 8
      (log_step 0xffff0000 16 (x', d)))))) = d + r" "x' div 2 ^ r = 1"
    using log_steps [OF 0(2,3)] by blast
  moreover have "x div 2 ^ (d + r) = x' div 2 ^ r" using 0(4) by (simp add: power_add div_mult2_eq)
  ultimately show ?thesis
    using assms(1) 0(1) unfolding floorLog2_uint64_def by (metis div_exp_1 neq0_conv)
qed

lemma exp_unique: "2 ^ a \<le> (x :: nat) \<Longrightarrow> x < 2 ^ (a + 1) \<Longrightarrow> 2 ^ b \<le> x \<Longrightarrow> x < 2 ^ (b + 1) \<Longrightarrow> a = b"
  by (metis Suc_eq_plus1 le_less_trans less_Suc_eq_le linorder_neqE_nat not_less power_increasing one_le_numeral leD Suc_leI)

text \<open>The halving loop: before a turn with \<open>bits = 2 ^ k\<close> the value has at most that many bits.\<close>

lemma msb_loop_ok:
  "0 < x \<Longrightarrow> x < 2 ^ 2 ^ k \<Longrightarrow> (x = 1 \<Longrightarrow> y = 1) \<Longrightarrow>
     \<exists>r. msb_loop x msb (2 ^ k) y = Some (msb + r + 1) \<and> 2 ^ r \<le> x \<and> x < 2 ^ (r + 1)"
proof (induction k arbitrary: x msb y)
  case 0
  then have "x = 1" by simp
  then show ?case using 0 by (subst msb_loop.simps) (auto intro!: exI [of _ 0])
next
  case (Suc k)
  show ?case
  proof (cases "x = 1")
    case True
    then show ?thesis using Suc.prems by (subst msb_loop.simps) (auto intro!: exI [of _ 0])
  next
    case x: False
    define b :: nat where "b = 2 ^ k"
    have b: "drop_bit 1 (2 ^ Suc k :: nat) = b" by (simp add: b_def drop_bit_eq_div)
    have up: "x < 2 ^ b * 2 ^ b" using Suc.prems(2) by (simp add: b_def mult_2 power_add)
    have step: "msb_loop x msb (2 ^ Suc k) y
        = (if x div 2 ^ b \<noteq> 0 then msb_loop (x div 2 ^ b) (msb + b) b (x div 2 ^ b)
           else msb_loop x msb b (x div 2 ^ b))"
      by (subst msb_loop.simps) (use x Suc.prems(1) b in \<open>simp add: Let_def drop_bit_eq_div\<close>)
    show ?thesis
    proof (cases "x div 2 ^ b = 0")
      case True
      then have lt: "x < 2 ^ 2 ^ k" by (simp add: div_eq_0_iff b_def)
      show ?thesis using Suc.IH [OF Suc.prems(1) lt, of "x div 2 ^ b" msb] x True step by (simp add: b_def)
    next
      case False
      then obtain r where r: "msb_loop (x div 2 ^ b) (msb + b) b (x div 2 ^ b) = Some (msb + b + r + 1)"
        "2 ^ r \<le> x div 2 ^ b" "x div 2 ^ b < 2 ^ (r + 1)"
        using Suc.IH [of "x div 2 ^ b" "x div 2 ^ b" "msb + b"] up by (auto simp: b_def less_mult_imp_div_less)
      have "x div 2 ^ (b + r) = x div 2 ^ b div 2 ^ r" by (simp add: power_add div_mult2_eq)
      also have "\<dots> = 1" unfolding div_exp_1 using r(2,3) by simp
      finally have "2 ^ (b + r) \<le> x \<and> x < 2 ^ (b + r + 1)" by (simp only: div_exp_1)
      then show ?thesis using step r(1) False by (intro exI [of _ "b + r"]) (simp add: add.assoc)
    qed
  qed
qed

text \<open>
  C20: The word-halving logarithms are the integer logarithm. For every non-zero 32-bit word
  \<open>floorLog2\<close> is the position of the top bit, \<open>getMSB\<close>, whose loop has no bound of its own, ends and
  returns one more, and \<open>ceilLog2\<close> is the least exponent whose power reaches the word.
\<close>

theorem logarithms_correct:
  assumes "0 < x" and "x < 2 ^ 32"
  shows "\<exists>r. floorLog2 x = int r \<and> 2 ^ r \<le> x \<and> x < 2 ^ (r + 1) \<and> getMSB x = Some (r + 1)
    \<and> (\<exists>c. ceilLog2 x = int c \<and> x \<le> 2 ^ c \<and> (\<forall>c'<c. 2 ^ c' < x))"
proof -
  obtain r where r: "floorLog2 x = int r" "2 ^ r \<le> x" "x < 2 ^ (r + 1)" using floorLog2_ok [OF assms] by blast
  obtain q where q: "getMSB x = Some (q + 1)" "2 ^ q \<le> x" "x < 2 ^ (q + 1)"
    using msb_loop_ok [of x 5 1 0] assms by (auto simp: getMSB_def)
  have "q = r" by (rule exp_unique [OF q(2,3) r(2,3)])
  moreover have "\<exists>c. ceilLog2 x = int c \<and> x \<le> 2 ^ c \<and> (\<forall>c'<c. 2 ^ c' < x)"
  proof (cases "x = 1")
    case True
    then show ?thesis by (intro exI [of _ 0]) (simp add: ceilLog2_def floorLog2_def)
  next
    case False
    then obtain s where s: "floorLog2 (x - 1) = int s" "2 ^ s \<le> x - 1" "x - 1 < 2 ^ (s + 1)"
      using floorLog2_ok [of "x - 1"] assms by (metis One_nat_def less_imp_diff_less nat_neq_iff less_one zero_less_diff)
    have "2 ^ c' < x" if "c' < s + 1" for c'
      using s(2) power_increasing [of c' s "2 :: nat"] that False assms(1) by linarith
    then show ?thesis using s assms(1) False by (intro exI [of _ "s + 1"]) (simp add: ceilLog2_def)
  qed
  ultimately show ?thesis using r q(1) by blast
qed

theorem logarithms_correct_witness:
  "\<exists>r. floorLog2 1000 = int r \<and> 2 ^ r \<le> (1000 :: nat) \<and> getMSB 1000 = Some (r + 1)"
  using logarithms_correct [of 1000] by auto

section \<open>The indices of the smallest values\<close>

text \<open>
  \<open>getIndexMappingTableToSortedArray1D\<close> keeps the smallest values seen so far in a short sorted array,
  with their indices in a second one. The position for the next value is found by binary search; \<open>sub\<close>
  is the offset that the pointer \<open>subList\<close> has into the array.
\<close>

function insert_search :: "('a :: linorder) \<Rightarrow> 'a list \<Rightarrow> nat \<Rightarrow> nat \<Rightarrow> nat \<Rightarrow> nat \<times> nat" where
  "insert_search v sortedlist sub subListSize insertIdx =
     (if subListSize > 1
      then let middleIdx = drop_bit 1 subListSize
           in if v < sortedlist ! (sub + middleIdx)
              then insert_search v sortedlist sub middleIdx insertIdx
              else insert_search v sortedlist (sub + middleIdx) (subListSize - middleIdx) (insertIdx + middleIdx)
      else (sub, insertIdx))"
  by pat_completeness auto
termination
  by (relation "measure (\<lambda>(v, l, s, n, i). n)") (auto simp: drop_bit_Suc)

declare insert_search.simps [simp del]

definition insert_position :: "('a :: linorder) \<Rightarrow> 'a list \<Rightarrow> nat \<Rightarrow> nat" where
  "insert_position v sortedlist numValidInList =
     (let (sub, insertIdx) = insert_search v sortedlist 0 numValidInList 0
      in insertIdx + (if v < sortedlist ! sub then 0 else 1))"

text \<open>The loop \<open>for( i = startIdx; i > insertIdx; --i ) a[i] = a[i - 1]\<close>.\<close>

fun shift_up :: "nat \<Rightarrow> nat \<Rightarrow> 'a list \<Rightarrow> 'a list" where
  "shift_up 0 insertIdx a = a"
| "shift_up (Suc i) insertIdx a =
     (if Suc i > insertIdx then shift_up i insertIdx (a[Suc i := a ! i]) else a)"

definition map_insert :: "nat \<Rightarrow> ('a :: linorder) \<Rightarrow> 'a list \<times> nat list \<times> nat \<Rightarrow> 'a list \<times> nat list \<times> nat" where
  "map_insert inIdx v = (\<lambda>(sortedlist, tbl, numValidInList).
     let outputIndexArraySize = length tbl;
         insertIdx = insert_position v sortedlist numValidInList
     in if insertIdx < outputIndexArraySize
        then let (startIdx, numValidInList) =
                   (if numValidInList < outputIndexArraySize then (numValidInList, numValidInList + 1)
                    else (outputIndexArraySize - 1, numValidInList))
             in ((shift_up startIdx insertIdx sortedlist)[insertIdx := v],
                 (shift_up startIdx insertIdx tbl)[insertIdx := inIdx], numValidInList)
        else (sortedlist, tbl, numValidInList))"

text \<open>The arrays come with arbitrary contents; the table has at least one entry.\<close>

definition getIndexMappingTableToSortedArray1D ::
  "('a :: linorder) list \<Rightarrow> 'a list \<Rightarrow> nat list \<Rightarrow> nat \<times> nat list" where
  "getIndexMappingTableToSortedArray1D vals sortedlist tbl =
     (let (_, tbl, numValidInList) =
        fold (\<lambda>inIdx. map_insert inIdx (vals ! inIdx)) [1..<length vals]
          (sortedlist[0 := vals ! 0], tbl[0 := 0], 1)
      in (numValidInList, tbl))"

lemma shift_up_length [simp]: "length (shift_up i p a) = length a"
  by (induction i p a rule: shift_up.induct) auto

lemma shift_up_nth:
  "i < length a \<Longrightarrow> j < length a \<Longrightarrow>
     shift_up i p a ! j = (if p < j \<and> j \<le> i then a ! (j - 1) else a ! j)"
proof (induction i p a rule: shift_up.induct)
  case (2 i p a)
  then show ?case by (auto simp: nth_list_update le_Suc_eq)
qed simp

text \<open>Shifting and storing is insertion into the valid part of the array.\<close>

lemma shift_insert:
  assumes "p \<le> n" and "p < length a" and "n \<le> length a"
  shows "take (min (Suc n) (length a)) ((shift_up (min n (length a - 1)) p a)[p := x])
    = take (length a) (take p a @ x # drop p (take n a))"
  using assms
  by (intro nth_equalityI)
    (auto simp: nth_append nth_Cons nth_list_update shift_up_nth split: nat.splits intro!: arg_cong [where f = "(!) a"])

text \<open>The search keeps the boundary between smaller or equal and greater values inside its window.\<close>

lemma insert_search_ok:
  assumes "sorted (take n l)" and "0 < k" and "i + k \<le> n" and "n \<le> length l"
    and "\<And>j. j < i \<Longrightarrow> l ! j \<le> v" and "\<And>j. i + k \<le> j \<Longrightarrow> j < n \<Longrightarrow> v < l ! j"
  shows "\<exists>p. insert_search v l i k i = (p, p) \<and> p < n \<and> (\<forall>j<p. l ! j \<le> v) \<and> (\<forall>j. p < j \<and> j < n \<longrightarrow> v < l ! j)"
  using assms
proof (induction k arbitrary: i rule: less_induct)
  case (less k)
  have mono: "a \<le> b \<Longrightarrow> b < n \<Longrightarrow> l ! a \<le> l ! b" for a b
    using less.prems(1,4) by (auto simp: sorted_iff_nth_mono)
  show ?case
  proof (cases "k > 1")
    case False
    then have "k = 1" using less.prems(2) by simp
    then show ?thesis using less.prems by (subst insert_search.simps) auto
  next
    case True
    define m where "m = k div 2"
    have m: "0 < m" "m < k" "drop_bit 1 k = m" using True by (auto simp: m_def drop_bit_Suc)
    show ?thesis
    proof (cases "v < l ! (i + m)")
      case v: True
      have "\<exists>p. insert_search v l i m i = (p, p) \<and> p < n \<and> (\<forall>j<p. l ! j \<le> v) \<and> (\<forall>j. p < j \<and> j < n \<longrightarrow> v < l ! j)"
        by (rule less.IH) (use less.prems m v mono [of "i + m"] in \<open>auto intro: less_le_trans\<close>)
      then show ?thesis using True v m by (subst insert_search.simps) (simp add: Let_def)
    next
      case v: False
      have "\<exists>p. insert_search v l (i + m) (k - m) (i + m) = (p, p) \<and> p < n \<and> (\<forall>j<p. l ! j \<le> v) \<and> (\<forall>j. p < j \<and> j < n \<longrightarrow> v < l ! j)"
        by (rule less.IH) (use less.prems m v in \<open>auto intro: order_trans [OF mono [of _ "i + m"]]\<close>)
      then show ?thesis using True v m by (subst insert_search.simps) (simp add: Let_def)
    qed
  qed
qed

lemma insert_position_ok:
  assumes "sorted (take n l)" and "0 < n" and "n \<le> length l"
  shows "insert_position v l n \<le> n \<and> (\<forall>j<insert_position v l n. l ! j \<le> v)
    \<and> (\<forall>j. insert_position v l n \<le> j \<and> j < n \<longrightarrow> v < l ! j)"
proof -
  obtain p where "insert_search v l 0 n 0 = (p, p)" "p < n" "\<forall>j<p. l ! j \<le> v" "\<forall>j. p < j \<and> j < n \<longrightarrow> v < l ! j"
    using insert_search_ok [of n l n 0 v] assms by auto
  then show ?thesis by (auto simp: insert_position_def less_Suc_eq not_less le_less Suc_le_eq)
qed

text \<open>The reference: all values with their indices, in lexicographic order.\<close>

definition indexed_sort :: "('a :: linorder) list \<Rightarrow> nat \<Rightarrow> ('a \<times> nat) list" where
  "indexed_sort vals m = sort (zip (take m vals) [0..<m])"

lemma indexed_sort_length [simp]: "m \<le> length vals \<Longrightarrow> length (indexed_sort vals m) = m"
  by (simp add: indexed_sort_def)

lemma indexed_sort_sorted: "sorted (map fst (indexed_sort vals m))"
proof -
  have "sorted (indexed_sort vals m)" by (simp add: indexed_sort_def)
  then show ?thesis by (auto simp: sorted_iff_nth_mono less_eq_prod_def le_less)
qed

lemma indexed_sort_step:
  assumes m: "m < length vals" and p: "p \<le> m"
    and lo: "\<And>j. j < p \<Longrightarrow> fst (indexed_sort vals m ! j) \<le> vals ! m"
    and hi: "\<And>j. p \<le> j \<Longrightarrow> j < m \<Longrightarrow> vals ! m < fst (indexed_sort vals m ! j)"
  shows "indexed_sort vals (Suc m) = take p (indexed_sort vals m) @ (vals ! m, m) # drop p (indexed_sort vals m)"
proof -
  let ?Z = "indexed_sort vals m" and ?a = "(vals ! m, m)"
  have len: "length ?Z = m" using m by simp
  have srt: "sorted ?Z" by (simp add: indexed_sort_def)
  have idx: "snd z < m" if "z \<in> set ?Z" for z
    using that set_zip_rightD [of "fst z" "snd z" "take m vals" "[0..<m]"] by (simp add: indexed_sort_def)
  have below: "z < ?a" if z: "z \<in> set (take p ?Z)" for z
  proof -
    obtain j where "j < p" "z = ?Z ! j" using z len p by (auto simp: in_set_conv_nth)
    then show ?thesis using lo [of j] idx [of z] len p by (auto simp: less_prod_def le_less)
  qed
  have above: "?a < z" if z: "z \<in> set (drop p ?Z)" for z
  proof -
    obtain j where "j < m - p" "z = ?Z ! (p + j)" using z len by (auto simp: in_set_conv_nth)
    then show ?thesis using hi [of "p + j"] by (auto simp: less_prod_def)
  qed
  have "sorted (take p ?Z @ ?a # drop p ?Z)"
    using srt less_imp_le [OF below] less_imp_le [OF above] less_imp_le [OF less_trans [OF below above]]
    by (simp add: sorted_append sorted_wrt_take sorted_wrt_drop)
  moreover have "mset (take p ?Z @ ?a # drop p ?Z) = mset (zip (take (Suc m) vals) [0..<Suc m])"
  proof -
    have "zip (take (Suc m) vals) [0..<Suc m] = zip (take m vals) [0..<m] @ [?a]"
      using m by (simp add: take_Suc_conv_app_nth)
    moreover have "mset (take p ?Z @ ?a # drop p ?Z) = mset ?Z + {#?a#}"
      by (metis append_take_drop_id mset.simps(2) mset_append union_mset_add_mset_right add_mset_add_single)
    ultimately show ?thesis by (simp add: indexed_sort_def)
  qed
  ultimately show ?thesis by (metis indexed_sort_def properties_for_sort)
qed

definition table_inv :: "('a :: linorder) list \<Rightarrow> nat \<Rightarrow> nat \<Rightarrow> 'a list \<times> nat list \<times> nat \<Rightarrow> bool" where
  "table_inv vals K m = (\<lambda>(l, t, n). length l = K \<and> length t = K \<and> n = min K m
     \<and> take n l = map fst (take K (indexed_sort vals m)) \<and> take n t = map snd (take K (indexed_sort vals m)))"

lemma take_insert:
  "p < K \<Longrightarrow> take K (take p (take K Z) @ a # drop p (take K Z)) = take K (take p Z @ a # drop p Z)"
  by (cases "length Z \<le> p"; cases "K - p") (auto simp: drop_take min_def)

lemma map_insert_ok:
  assumes inv: "table_inv vals K m st" and m: "0 < m" "m < length vals" and K: "0 < K"
  shows "table_inv vals K (Suc m) (map_insert m (vals ! m) st)"
proof -
  obtain l t n where st: "st = (l, t, n)" by (cases st)
  let ?Z = "indexed_sort vals m" and ?v = "vals ! m"
  have i: "length l = K" "length t = K" "n = min K m" "take n l = map fst (take K ?Z)" "take n t = map snd (take K ?Z)"
    using inv by (auto simp: table_inv_def st)
  define p where "p = insert_position ?v l n"
  have srt: "sorted (take n l)"
    using sorted_wrt_take [OF indexed_sort_sorted, of K vals m] unfolding i(4) by (simp only: take_map)
  have p: "p \<le> n" "\<And>j. j < p \<Longrightarrow> l ! j \<le> ?v" "\<And>j. p \<le> j \<Longrightarrow> j < n \<Longrightarrow> ?v < l ! j"
    using insert_position_ok [OF srt, of ?v] i(1,3) K m unfolding p_def by auto
  have lZ: "l ! j = fst (?Z ! j)" if "j < n" for j
  proof -
    have "take n l ! j = map fst (take K ?Z) ! j" by (simp only: i(4))
    then show ?thesis using that i(3) m by simp
  qed
  show ?thesis
  proof (cases "p < K")
    case True
    have Z': "indexed_sort vals (Suc m) = take p ?Z @ (?v, m) # drop p ?Z"
    proof (rule indexed_sort_step [OF m(2)])
      show "p \<le> m" using p(1) i(3) by simp
      show "fst (?Z ! j) \<le> ?v" if "j < p" for j using p(1) p(2) [OF that] lZ [of j] that by simp
      show "?v < fst (?Z ! j)" if j: "p \<le> j" "j < m" for j
      proof -
        have "p < n" using True j i(3) by simp
        then have "?v < fst (?Z ! p)" using p(3) [of p] lZ [of p] by simp
        also have "\<dots> \<le> fst (?Z ! j)"
          using indexed_sort_sorted [of vals m] j m by (auto simp: sorted_iff_nth_mono)
        finally show ?thesis .
      qed
    qed
    have ins: "take (min (Suc n) K) ((shift_up (min n (K - 1)) p a)[p := x]) = map f (take K (indexed_sort vals (Suc m)))"
      if "length a = K" "take n a = map f (take K ?Z)" "f (?v, m) = x" for a :: "'b list" and f x
    proof -
      have "take p a = take p (take n a)" using p(1) by (simp add: min_absorb1)
      then have "take p a @ x # drop p (take n a) = map f (take p (take K ?Z) @ (?v, m) # drop p (take K ?Z))"
        using that by (simp add: take_map drop_map)
      moreover have "take (min (Suc n) K) ((shift_up (min n (K - 1)) p a)[p := x]) = take K (take p a @ x # drop p (take n a))"
        using shift_insert [of p n a x] that(1) p(1) True i(3) by simp
      ultimately show ?thesis unfolding Z' by (simp only: take_map take_insert [OF True])
    qed
    have "map_insert m ?v st
        = ((shift_up (min n (K - 1)) p l)[p := ?v], (shift_up (min n (K - 1)) p t)[p := m], min (Suc n) K)"
    proof (cases "n < K")
      case less: True
      then have "min n (K - 1) = n" "min (Suc n) K = n + 1" by simp_all
      then show ?thesis using True less by (simp add: map_insert_def st p_def [symmetric] Let_def i(2))
    next
      case False
      then have "min n (K - 1) = K - 1" "min (Suc n) K = n" using i(3) by simp_all
      then show ?thesis using True False by (simp add: map_insert_def st p_def [symmetric] Let_def i(2))
    qed
    then show ?thesis
      using ins [OF i(1,4)] ins [OF i(2,5)] i(1-3) by (simp add: table_inv_def min_def)
  next
    case False
    then have full: "p = n" "n = K" "K \<le> m" using p(1) i(3) by auto
    have le: "fst (?Z ! j) \<le> ?v" if "j < K" for j using p(2) [of j] lZ [of j] that full by simp
    define q where "q = length (takeWhile (\<lambda>z. fst z \<le> ?v) ?Z)"
    have q1: "q \<le> m" using length_takeWhile_le [of "\<lambda>z. fst z \<le> ?v" ?Z] m by (simp add: q_def)
    have q2: "fst (?Z ! j) \<le> ?v" if "j < q" for j
    proof -
      have "takeWhile (\<lambda>z. fst z \<le> ?v) ?Z ! j = ?Z ! j" using that by (intro takeWhile_nth) (simp add: q_def)
      moreover have "takeWhile (\<lambda>z. fst z \<le> ?v) ?Z ! j \<in> set (takeWhile (\<lambda>z. fst z \<le> ?v) ?Z)"
        using that by (intro nth_mem) (simp add: q_def)
      ultimately show ?thesis using set_takeWhileD by metis
    qed
    note q = q1 q2
    have hi: "?v < fst (?Z ! j)" if "q \<le> j" "j < m" for j
    proof -
      have "?v < fst (?Z ! q)" using nth_length_takeWhile [of "\<lambda>z. fst z \<le> ?v" ?Z] that m by (simp add: q_def)
      also have "\<dots> \<le> fst (?Z ! j)" using indexed_sort_sorted [of vals m] that m by (auto simp: sorted_iff_nth_mono)
      finally show ?thesis .
    qed
    have "K \<le> q" using hi [of q] le [of q] full q(1) by (cases "q < K") auto
    moreover have "indexed_sort vals (Suc m) = take q ?Z @ (?v, m) # drop q ?Z"
      by (rule indexed_sort_step [OF m(2) q(1)]) (use q hi in auto)
    ultimately have "take K (indexed_sort vals (Suc m)) = take K ?Z" using m q(1) by simp
    moreover have "map_insert m ?v st = st" using False i(2) by (simp add: map_insert_def st p_def [symmetric] Let_def)
    ultimately show ?thesis using inv full by (simp add: table_inv_def st)
  qed
qed

text \<open>
  C21: The table holds the indices of the smallest values. For any values and any table size, the loop of
  binary searches and shifted insertions leaves in the table the indices of the smallest values in
  increasing order of value, earlier ones first among equals, exactly as a full sort would; the result
  is their number. What the arrays contained before is irrelevant.
\<close>

theorem index_table_is_sorted_prefix:
  assumes "vals \<noteq> []" and "tbl \<noteq> []" and "length sortedlist = length tbl"
  shows "\<exists>n t. getIndexMappingTableToSortedArray1D vals sortedlist tbl = (n, t)
    \<and> n = min (length tbl) (length vals)
    \<and> take n t = map snd (take (length tbl) (sort (zip vals [0..<length vals])))"
proof -
  let ?K = "length tbl"
  let ?f = "\<lambda>inIdx. map_insert inIdx (vals ! inIdx)"
  let ?s0 = "(sortedlist[0 := vals ! 0], tbl[0 := 0], 1)"
  have "indexed_sort vals (Suc 0) = [(vals ! 0, 0)]"
    using assms(1) by (cases vals) (simp_all add: indexed_sort_def)
  then have "table_inv vals ?K 1 ?s0"
    using assms by (cases tbl; cases sortedlist) (auto simp: table_inv_def min_def)
  then have "table_inv vals ?K (Suc k) (fold ?f [1..<Suc k] ?s0)" if "k < length vals" for k
    using that assms(2)
  proof (induction k)
    case (Suc k)
    then show ?case using map_insert_ok [of vals ?K "Suc k"] by simp
  qed simp
  from this [of "length vals - 1"] have "table_inv vals ?K (length vals) (fold ?f [1..<length vals] ?s0)"
    using assms(1) by simp
  then show ?thesis
    by (auto simp: getIndexMappingTableToSortedArray1D_def table_inv_def indexed_sort_def Let_def split: prod.splits)
qed

theorem index_table_is_sorted_prefix_witness:
  "\<exists>t. getIndexMappingTableToSortedArray1D [5, 3, 9, 3, 1 :: nat] [0, 0, 0] [7, 7, 7] = (3, t) \<and> take 3 t = [4, 1, 3]"
  using index_table_is_sorted_prefix [of "[5, 3, 9, 3, 1 :: nat]" "[7, 7, 7]" "[0, 0, 0]"]
  by (simp add: numeral_eq_Suc)

end
