(* ===== verification/SyntaxBins.thy ===== *)
theory SyntaxBins
  imports ContextTables HlsSyntax
begin

unbundle bit_operations_syntax

text \<open>
  The binarisations of the slice data: the helper functions at the end of
  \<open>source/Lib/EncoderLib/CABACWriter.cpp\<close> and \<open>source/Lib/DecoderLib/CABACReader.cpp\<close> (unary and Exp-Golomb
  codes, truncated binary codes), and the syntax elements of the coding tree whose value does not depend on
  the coding structures: motion vector and block vector differences, quantisation parameters, reference
  indices of additional hypotheses, geometric partitions, offsets of the cross-component model. Each
  reader is shown to agree with its writer on the arithmetic coder. Names that the two classes share get
  the prefixes \<open>write\<close> and \<open>read\<close>. Assertions are those of a build with assertions enabled.
\<close>

section \<open>Contexts\<close>

text \<open>The context sets in use, and their place among the sets of the program.\<close>

datatype ctx_set = Ctx_GeoSubModeIdx | Ctx_DeltaQP | Ctx_Mvd | Ctx_Bvd | Ctx_MHRefPic | Ctx_ChromaQpAdjFlag
  | Ctx_ChromaQpAdjIdc | Ctx_CclmDeltaFlags

fun ctx_place :: "ctx_set \<Rightarrow> nat" where
  "ctx_place Ctx_GeoSubModeIdx = 15"
| "ctx_place Ctx_DeltaQP = 35"
| "ctx_place Ctx_Mvd = 46"
| "ctx_place Ctx_Bvd = 47"
| "ctx_place Ctx_MHRefPic = 50"
| "ctx_place Ctx_ChromaQpAdjFlag = 98"
| "ctx_place Ctx_ChromaQpAdjIdc = 102"
| "ctx_place Ctx_CclmDeltaFlags = 119"

text \<open>\<open>Ctx::X( inc )\<close>: the offset of the set among the models plus the increment.\<close>

definition Ctx :: "ctx_set \<Rightarrow> nat \<Rightarrow> nat" where
  "Ctx s inc = fst (layout 0 all_sets ! ctx_place s) + inc"

lemma layout_nth:
  "k < length ss \<Longrightarrow> layout n ss ! k = (n + sum_list (map (\<lambda>s. length (hd s)) (take k ss)), length (hd (ss ! k)))"
  by (induction n ss arbitrary: k rule: layout.induct) (auto simp: nth_Cons' take_Cons' split: nat.splits)

lemma ctx_bound:
  assumes "k < length ss" "inc < length (hd (ss ! k))"
  shows "fst (layout 0 ss ! k) + inc < sum_list (map (\<lambda>s. length (hd s)) ss)"
proof -
  have "ss = take k ss @ ss ! k # drop (Suc k) ss" using assms(1) by (rule id_take_nth_drop)
  then have "sum_list (map (\<lambda>s. length (hd s)) ss)
      = sum_list (map (\<lambda>s. length (hd s)) (take k ss)) + length (hd (ss ! k))
        + sum_list (map (\<lambda>s. length (hd s)) (drop (Suc k) ss))"
    by (metis (no_types, lifting) add.assoc list.simps(9) map_append sum_list.Cons sum_list_append)
  then show ?thesis using assms by (simp add: layout_nth)
qed

text \<open>The numbers of contexts of the sets.\<close>

fun ctx_size :: "ctx_set \<Rightarrow> nat" where
  "ctx_size Ctx_GeoSubModeIdx = 5"
| "ctx_size Ctx_DeltaQP = 2"
| "ctx_size Ctx_Mvd = 2"
| "ctx_size Ctx_Bvd = 12"
| "ctx_size Ctx_MHRefPic = 2"
| "ctx_size Ctx_ChromaQpAdjFlag = 1"
| "ctx_size Ctx_ChromaQpAdjIdc = 1"
| "ctx_size Ctx_CclmDeltaFlags = 5"

lemma ctx_size_ok: "ctx_place s < length all_sets \<and> length (hd (all_sets ! ctx_place s)) = ctx_size s"
  unfolding all_sets_def
  by (cases s) (simp_all add: GeoSubModeIdx_init_def DeltaQP_init_def Mvd_init_def Bvd_init_def MHRefPic_init_def ChromaQpAdjFlag_init_def
      ChromaQpAdjIdc_init_def CclmDeltaFlags_init_def)

lemma Ctx_less: "inc < ctx_size s \<Longrightarrow> Ctx s inc < 536"
  using ctx_bound [of "ctx_place s" all_sets inc] ctx_size_ok [of s] number_of_contexts by (simp add: Ctx_def)

lemma agrees_ctx:
  "inc < ctx_size s \<Longrightarrow> bin \<le> 1 \<Longrightarrow> agrees 536 (encodeBin bin (Ctx s inc)) (decodeBin (Ctx s inc)) bin"
  by (rule agrees_bin) (auto intro: Ctx_less)

lemma agrees_last:
  assumes "agrees N w p x" and "q x = returnP v"
  shows "agrees N w (bindP p q) v"
  using agrees_then [OF assms(1), of skipW q v] assms(2) by (simp add: agrees_skip)

lemma checkW_False [simp]: "checkW False msg = skipW"
  by (simp add: checkW_def skipW_def fun_eq_iff)

section \<open>Unary codes\<close>

text \<open>The writer returns before the loop at \<open>min( symbol + 1, maxSymbol )\<close>; the reader stops at a zero.\<close>

definition write_unary_max_symbol :: "nat \<Rightarrow> nat \<Rightarrow> nat \<Rightarrow> nat \<Rightarrow> bin_writer" where
  "write_unary_max_symbol symbol ctxId0 ctxIdN maxSymbol = seqW (
     checkW (symbol > maxSymbol) ''symbol > maxSymbol''
     # map (\<lambda>binsWritten. encodeBin (if symbol > binsWritten then 1 else 0) (if binsWritten = 0 then ctxId0 else ctxIdN))
         [0..<min (add32 symbol 1) maxSymbol])"

function unary_symbol_loop :: "nat \<Rightarrow> nat \<Rightarrow> nat \<Rightarrow> nat \<Rightarrow> nat bin_parser" where
  "unary_symbol_loop ctxId0 ctxIdN maxSymbol onesRead =
     (if onesRead < maxSymbol
      then bindP (decodeBin (if onesRead = 0 then ctxId0 else ctxIdN)) (\<lambda>bin.
             if bin = 1 then unary_symbol_loop ctxId0 ctxIdN maxSymbol (onesRead + 1) else returnP onesRead)
      else returnP onesRead)"
  by pat_completeness auto
termination
  by (relation "measure (\<lambda>(a, b, m, k). m - k)") auto

declare unary_symbol_loop.simps [simp del]

definition read_unary_max_symbol :: "nat \<Rightarrow> nat \<Rightarrow> nat \<Rightarrow> nat bin_parser" where
  "read_unary_max_symbol ctxId0 ctxIdN maxSymbol = unary_symbol_loop ctxId0 ctxIdN maxSymbol 0"

text \<open>The loop \<open>while( symbol-- )\<close> that appends ones.\<close>

fun append_ones :: "nat \<Rightarrow> nat \<times> nat \<Rightarrow> nat \<times> nat" where
  "append_ones 0 b = b"
| "append_ones (Suc symbol) (bins, numBins) = append_ones symbol (add32 (shl32 bins 1) 1, add32 numBins 1)"

definition write_unary_max_eqprob :: "nat \<Rightarrow> nat \<Rightarrow> bin_writer" where
  "write_unary_max_eqprob symbol maxSymbol =
     (if maxSymbol = 0 then skipW
      else let codeLast = maxSymbol > symbol;
               (bins, numBins) = append_ones symbol (0, 0);
               (bins, numBins) = (if codeLast then (shl32 bins 1, add32 numBins 1) else (bins, numBins))
           in seqW [checkW (\<not> numBins \<le> 32) ''Unspecified error'', encodeBinsEP bins numBins])"

function unary_eqprob_loop :: "nat \<Rightarrow> nat \<Rightarrow> nat bin_parser" where
  "unary_eqprob_loop maxSymbol k =
     (if k < maxSymbol
      then bindP decodeBinEP (\<lambda>bin. if bin = 0 then returnP k else unary_eqprob_loop maxSymbol (k + 1))
      else returnP maxSymbol)"
  by pat_completeness auto
termination
  by (relation "measure (\<lambda>(m, k). m - k)") auto

declare unary_eqprob_loop.simps [simp del]

definition read_unary_max_eqprob :: "nat \<Rightarrow> nat bin_parser" where
  "read_unary_max_eqprob maxSymbol = unary_eqprob_loop maxSymbol 0"

definition write_code_unary_fixed :: "nat \<Rightarrow> nat \<Rightarrow> nat \<Rightarrow> nat \<Rightarrow> bin_writer" where
  "write_code_unary_fixed symbol ctxId unary_max fixed =
     (let unary = symbol \<le> unary_max
      in seqW [encodeBin (if unary then 1 else 0) ctxId,
               if unary then write_unary_max_eqprob symbol unary_max
               else encodeBinsEP (sub32 (sub32 symbol unary_max) 1) fixed])"

definition read_code_unary_fixed :: "nat \<Rightarrow> nat \<Rightarrow> nat \<Rightarrow> nat bin_parser" where
  "read_code_unary_fixed ctxId unary_max fixed =
     bindP (decodeBin ctxId) (\<lambda>unary.
       if unary \<noteq> 0 then read_unary_max_eqprob unary_max
       else bindP (decodeBinsEP fixed) (\<lambda>idx. returnP (add32 (add32 unary_max 1) idx)))"

lemma agrees_unary_loop:
  assumes ctx: "ctxId0 < N" "ctxIdN < N"
  shows "k \<le> symbol \<Longrightarrow> symbol \<le> maxSymbol \<Longrightarrow>
    agrees N (seqW (map (\<lambda>i. encodeBin (if symbol > i then 1 else 0) (if i = 0 then ctxId0 else ctxIdN)) [k..<min (symbol + 1) maxSymbol]))
      (unary_symbol_loop ctxId0 ctxIdN maxSymbol k) symbol"
proof (induction "symbol - k" arbitrary: k)
  case 0
  then have k: "k = symbol" by simp
  show ?case
  proof (cases "symbol < maxSymbol")
    case True
    have "agrees N (seqW [encodeBin 0 (if k = 0 then ctxId0 else ctxIdN)]) (unary_symbol_loop ctxId0 ctxIdN maxSymbol k) symbol"
      unfolding unary_symbol_loop.simps [of ctxId0 ctxIdN maxSymbol k] if_P [OF True [folded k]]
      by (rule agrees_bind [OF agrees_bin]) (use k ctx in \<open>simp_all add: agrees_skip\<close>)
    then show ?thesis using True k by (simp add: min_def)
  next
    case False
    then show ?thesis using k "0.prems" by (simp add: unary_symbol_loop.simps agrees_skip)
  qed
next
  case (Suc n)
  have up: "[k..<min (symbol + 1) maxSymbol] = k # [Suc k..<min (symbol + 1) maxSymbol]"
    using Suc by (intro upt_conv_Cons) auto
  have "agrees N (encodeBin 1 (if k = 0 then ctxId0 else ctxIdN)) (decodeBin (if k = 0 then ctxId0 else ctxIdN)) 1"
    using ctx by (intro agrees_bin) auto
  then show ?case
    unfolding up list.map seqW.simps(2) unary_symbol_loop.simps [of ctxId0 ctxIdN maxSymbol k]
    using Suc.hyps(1) [of "Suc k"] Suc.hyps(2) Suc.prems by (auto intro!: agrees_then [where x = "1 :: nat"])
qed

lemma agrees_unary_max_symbol:
  assumes "ctxId0 < N" "ctxIdN < N" "symbol \<le> maxSymbol" "maxSymbol < 2 ^ 32 - 1"
  shows "agrees N (write_unary_max_symbol symbol ctxId0 ctxIdN maxSymbol) (read_unary_max_symbol ctxId0 ctxIdN maxSymbol) symbol"
proof -
  have "add32 symbol 1 = symbol + 1" using assms(3,4) by (simp add: add32_eq)
  then show ?thesis
    unfolding write_unary_max_symbol_def read_unary_max_symbol_def
    using agrees_unary_loop [OF assms(1,2), of 0 symbol maxSymbol] assms(3) by (intro agrees_checkW) auto
qed

text \<open>The bins of a unary code: \<open>m\<close> ones, and a zero unless the code is as long as it can be.\<close>

lemma append_ones_ok: "n + symbol \<le> 32 \<Longrightarrow> append_ones symbol (2 ^ n - 1, n) = (2 ^ (n + symbol) - 1, n + symbol)"
proof (induction symbol arbitrary: n)
  case (Suc symbol)
  have "(2 :: nat) ^ Suc n \<le> 2 ^ 32" using Suc.prems by (intro power_increasing) auto
  then have b: "(2 :: nat) ^ n \<le> 2 ^ 31" by simp
  have "add32 (shl32 (2 ^ n - 1) 1) 1 = 2 ^ Suc n - 1"
    using b two_power_pos [of n] by (simp add: reg32 diff_mult_distrib del: One_nat_def)
  moreover have "add32 n 1 = Suc n" using Suc.prems by (simp add: add32_eq)
  ultimately show ?case using Suc.IH [of "Suc n"] Suc.prems by simp
qed simp

lemma reads_unary_stop:
  assumes R: "64 \<le> R" "R \<le> 510"
  shows "k + m < maxSymbol \<Longrightarrow> reads_ep R (m + 1) (2 ^ (m + 1) - 2) (unary_eqprob_loop maxSymbol k) (k + m)"
proof (induction m arbitrary: k)
  case 0
  have "reads_ep R (1 + 0) (0 * 2 ^ 0 + 0) (unary_eqprob_loop maxSymbol k) k"
    by (rule reads_ep_first [OF reads_ep_bin _ reads_ep_return])
      (use R 0 in \<open>simp_all add: unary_eqprob_loop.simps [of maxSymbol k] bindP_def returnP_def\<close>)
  then show ?case by simp
next
  case (Suc m)
  have "reads_ep R (1 + (m + 1)) (1 * 2 ^ (m + 1) + (2 ^ (m + 1) - 2)) (unary_eqprob_loop maxSymbol k) (k + 1 + m)"
    by (rule reads_ep_first [OF reads_ep_bin _ Suc.IH [of "k + 1"]])
      (use R Suc.prems in \<open>simp_all add: unary_eqprob_loop.simps [of maxSymbol k] bindP_def returnP_def\<close>)
  moreover have "1 * 2 ^ (m + 1) + (2 ^ (m + 1) - 2) = (2 ^ (Suc m + 1) - 2 :: nat)"
    using two_power_pos [of m] by simp
  ultimately show ?case by simp
qed

lemma reads_unary_full:
  assumes R: "64 \<le> R" "R \<le> 510"
  shows "k + m = maxSymbol \<Longrightarrow> reads_ep R m (2 ^ m - 1) (unary_eqprob_loop maxSymbol k) maxSymbol"
proof (induction m arbitrary: k)
  case 0
  then show ?case by (simp add: unary_eqprob_loop.simps reads_ep_return)
next
  case (Suc m)
  have "reads_ep R (1 + m) (1 * 2 ^ m + (2 ^ m - 1)) (unary_eqprob_loop maxSymbol k) maxSymbol"
    by (rule reads_ep_first [OF reads_ep_bin _ Suc.IH [of "k + 1"]])
      (use R Suc.prems in \<open>simp_all add: unary_eqprob_loop.simps [of maxSymbol k] bindP_def returnP_def\<close>)
  moreover have "1 * 2 ^ m + (2 ^ m - 1) = (2 ^ Suc m - 1 :: nat)"
    using two_power_pos [of m] by simp
  ultimately show ?case by simp
qed

lemma agrees_unary_max_eqprob:
  assumes s: "symbol \<le> maxSymbol" and n: "min (symbol + 1) maxSymbol \<le> 32"
  shows "agrees N (write_unary_max_eqprob symbol maxSymbol) (read_unary_max_eqprob maxSymbol) symbol"
proof (cases "symbol < maxSymbol")
  case True
  have ones: "append_ones symbol (0, 0) = (2 ^ symbol - 1, symbol)"
    using append_ones_ok [of 0 symbol] n True by simp
  have "(2 :: nat) ^ symbol \<le> 2 ^ 31" using n True by (intro power_increasing) auto
  then have b: "shl32 (2 ^ symbol - 1) 1 = 2 ^ (symbol + 1) - 2" "add32 symbol 1 = symbol + 1"
    using n True by (simp_all add: reg32 diff_mult_distrib)
  have "agrees N (encodeBinsEP (2 ^ (symbol + 1) - 2) (symbol + 1)) (unary_eqprob_loop maxSymbol 0) (0 + symbol)"
    by (rule ep_agrees [OF _ emits_ep_bins reads_unary_stop]) (use n True in simp_all)
  then show ?thesis
    using True n b unfolding write_unary_max_eqprob_def read_unary_max_eqprob_def
    by (simp add: ones Let_def)
next
  case False
  then have e: "symbol = maxSymbol" using s by simp
  have ones: "append_ones symbol (0, 0) = (2 ^ symbol - 1, symbol)"
    using append_ones_ok [of 0 symbol] n e by simp
  have "agrees N (encodeBinsEP (2 ^ symbol - 1) symbol) (unary_eqprob_loop maxSymbol 0) maxSymbol"
    by (rule ep_agrees [OF _ emits_ep_bins reads_unary_full]) (use n e in simp_all)
  moreover have "agrees N skipW (unary_eqprob_loop 0 0) 0" by (simp add: unary_eqprob_loop.simps agrees_skip)
  ultimately show ?thesis
    using e n unfolding write_unary_max_eqprob_def read_unary_max_eqprob_def
    by (auto simp: ones [unfolded e] Let_def)
qed

lemma agrees_code_unary_fixed:
  assumes "ctxId < N" "fixed \<le> 32" "unary_max < 32" "symbol < unary_max + 1 + 2 ^ fixed" "symbol < 2 ^ 32"
  shows "agrees N (write_code_unary_fixed symbol ctxId unary_max fixed) (read_code_unary_fixed ctxId unary_max fixed) symbol"
proof (cases "symbol \<le> unary_max")
  case True
  have "agrees N (seqW [write_unary_max_eqprob symbol unary_max]) (read_unary_max_eqprob unary_max) symbol"
    using agrees_unary_max_eqprob [OF True, of N] assms(3) by simp
  then show ?thesis
    unfolding write_code_unary_fixed_def read_code_unary_fixed_def Let_def
    by (intro agrees_bind [OF agrees_bin]) (use True assms(1) in simp_all)
next
  case False
  define v where "v = symbol - unary_max - 1"
  have v: "sub32 (sub32 symbol unary_max) 1 = v" "add32 (add32 unary_max 1) v = symbol" "v < 2 ^ fixed"
    using False assms by (simp_all add: v_def reg32)
  have "agrees N (encodeBinsEP v fixed) (bindP (decodeBinsEP fixed) (\<lambda>idx. returnP (add32 (add32 unary_max 1) idx))) symbol"
    by (rule agrees_last [OF agrees_binsEP [OF assms(2) v(3)]]) (simp only: v(2))
  then show ?thesis
    unfolding write_code_unary_fixed_def read_code_unary_fixed_def Let_def v(1)
    by (intro agrees_bind [OF agrees_bin]) (use False assms(1) in simp_all)
qed

section \<open>Exponential Golomb codes\<close>

text \<open>
  The classes grow by a factor of two; a shift by 32 is undefined. The loops give the prefix, the symbol
  within its class and the size of the class.
\<close>

function golomb_loop :: "nat \<Rightarrow> nat \<Rightarrow> nat \<Rightarrow> nat \<Rightarrow> (nat \<times> nat \<times> nat \<times> nat) result" where
  "golomb_loop symbol count bins numBins =
     (if count \<ge> 32 then Inl UndefinedBehaviour
      else if symbol \<ge> 2 ^ count
      then golomb_loop (symbol - 2 ^ count) (count + 1) (add32 (shl32 bins 1) 1) (add32 numBins 1)
      else Inr (symbol, count, bins, numBins))"
  by pat_completeness auto
termination
  by (relation "measure (\<lambda>(s, c, b, n). 32 - c)") auto

declare golomb_loop.simps [simp del]

definition write_exp_golomb_eqprob :: "nat \<Rightarrow> nat \<Rightarrow> bin_writer" where
  "write_exp_golomb_eqprob symbol count e =
     bindE (golomb_loop symbol count 0 0) (\<lambda>(symbol, count, bins, numBins).
       seqW [encodeBinsEP (shl32 bins 1) (add32 numBins 1), encodeBinsEP symbol count] e)"

text \<open>The reader counts one class too many and takes it back; it shifts before it looks at the bit.\<close>

function golomb_read :: "nat \<Rightarrow> nat \<Rightarrow> (nat \<times> nat) bin_parser" where
  "golomb_read symbol count =
     (if count \<ge> 32 then failP UndefinedBehaviour
      else bindP decodeBinEP (\<lambda>bit.
        let symbol = add32 symbol (shl32 bit count); count = count + 1
        in if bit \<noteq> 0 then golomb_read symbol count else returnP (symbol, count)))"
  by pat_completeness auto
termination
  by (relation "measure (\<lambda>(s, c). 32 - c)") auto

declare golomb_read.simps [simp del]

definition read_exp_golomb_eqprob :: "nat \<Rightarrow> nat bin_parser" where
  "read_exp_golomb_eqprob count =
     bindP (golomb_read 0 count) (\<lambda>(symbol, count).
       let count = count - 1
       in if count \<noteq> 0 then bindP (decodeBinsEP count) (\<lambda>bins. returnP (add32 symbol bins)) else returnP symbol)"

text \<open>The class of a symbol: how often a class is taken off, with the sum of the classes before.\<close>

fun golomb_class :: "nat \<Rightarrow> nat \<Rightarrow> nat" where
  "golomb_class count 0 = 0"
| "golomb_class count (Suc m) = 2 ^ count + golomb_class (count + 1) m"

lemma golomb_class_eq: "golomb_class count m = 2 ^ (count + m) - 2 ^ count"
proof (induction m arbitrary: count)
  case (Suc m)
  have "(2 :: nat) ^ Suc count \<le> 2 ^ (Suc count + m)" by (intro power_increasing) auto
  then show ?case using Suc by simp
qed simp

lemma golomb_class_exists: "\<exists>m. golomb_class count m \<le> symbol \<and> symbol < golomb_class count (Suc m)"
proof (induction symbol arbitrary: count rule: less_induct)
  case (less symbol)
  show ?case
  proof (cases "symbol < 2 ^ count")
    case True
    then show ?thesis by (intro exI [of _ 0]) simp
  next
    case False
    have "symbol - 2 ^ count < symbol" using False by (metis diff_less gr0I not_less power_not_zero zero_neq_numeral less_nat_zero_code)
    then obtain m where "golomb_class (count + 1) m \<le> symbol - 2 ^ count" "symbol - 2 ^ count < golomb_class (count + 1) (Suc m)"
      using less.IH by blast
    then show ?thesis using False by (intro exI [of _ "Suc m"]) auto
  qed
qed

lemma golomb_loop_ok:
  "golomb_class count m \<le> symbol \<Longrightarrow> symbol < golomb_class count (Suc m) \<Longrightarrow> count + m < 32 \<Longrightarrow> n + m \<le> 31 \<Longrightarrow>
   golomb_loop symbol count (2 ^ n - 1) n = Inr (symbol - golomb_class count m, count + m, 2 ^ (n + m) - 1, n + m)"
proof (induction m arbitrary: count symbol n)
  case 0
  then show ?case by (simp add: golomb_loop.simps [of symbol count])
next
  case (Suc m)
  have "(2 :: nat) ^ n \<le> 2 ^ 30" using Suc.prems by (intro power_increasing) auto
  then have "add32 (shl32 (2 ^ n - 1) 1) 1 = 2 ^ Suc n - 1" "add32 n 1 = Suc n"
    using append_ones_ok [of n 1] Suc.prems by (simp_all add: add32_eq)
  moreover have "2 ^ count \<le> symbol" using Suc.prems(1) by simp
  ultimately show ?case
    using Suc.IH [of "count + 1" "symbol - 2 ^ count" "Suc n"] Suc.prems
    by (simp add: golomb_loop.simps [of symbol count])
qed

lemma reads_golomb:
  assumes R: "64 \<le> R" "R \<le> 510"
  shows "count + m < 32 \<Longrightarrow> symbol + golomb_class count m < 2 ^ 32 \<Longrightarrow>
    reads_ep R (m + 1) (2 ^ (m + 1) - 2) (golomb_read symbol count) (symbol + golomb_class count m, count + m + 1)"
proof (induction m arbitrary: symbol count)
  case 0
  have "shl32 0 count = 0" by (simp add: shl32_eq)
  then have "reads_ep R (1 + 0) (0 * 2 ^ 0 + 0) (golomb_read symbol count) (symbol, count + 1)"
    by (intro reads_ep_first [OF reads_ep_bin _ reads_ep_return])
      (use R 0 in \<open>simp_all add: golomb_read.simps [of symbol count] bindP_def returnP_def add32_eq\<close>)
  then show ?case by simp
next
  case (Suc m)
  have s: "shl32 1 count = 2 ^ count" using Suc.prems by (intro shl32_one) simp
  have "symbol + 2 ^ count < 2 ^ 32" using Suc.prems(2) by simp
  then have "reads_ep R (1 + (m + 1)) (1 * 2 ^ (m + 1) + (2 ^ (m + 1) - 2)) (golomb_read symbol count)
      (symbol + 2 ^ count + golomb_class (count + 1) m, count + 1 + m + 1)"
    by (intro reads_ep_first [OF reads_ep_bin _ Suc.IH [of "count + 1" "symbol + 2 ^ count"]])
      (use R s Suc.prems in \<open>simp_all add: golomb_read.simps [of symbol count] bindP_def add32_eq\<close>)
  moreover have "1 * 2 ^ (m + 1) + (2 ^ (m + 1) - 2) = (2 ^ (Suc m + 1) - 2 :: nat)"
    using two_power_pos [of m] by simp
  ultimately show ?case by (simp add: add.assoc)
qed

lemma emits_ep_two:
  assumes "emits_ep R j u w" "emits_ep R k v w'"
  shows "emits_ep R (j + k) (u * 2 ^ k + v) (seqW [w, w'])"
  using emits_ep_then [OF assms] by simp

lemma agrees_exp_golomb:
  assumes m: "golomb_class count m \<le> symbol" "symbol < golomb_class count (Suc m)" and c: "count + m < 32" and s: "symbol < 2 ^ 32"
  shows "agrees N (write_exp_golomb_eqprob symbol count) (read_exp_golomb_eqprob count) symbol"
proof -
  define t where "t = symbol - golomb_class count m"
  have t: "t < 2 ^ (count + m)"
    using m by (simp add: t_def golomb_class_eq)
  have "(2 :: nat) ^ m \<le> 2 ^ 31" using c by (intro power_increasing) auto
  then have b: "shl32 (2 ^ m - 1) 1 = 2 ^ (m + 1) - 2" "add32 m 1 = m + 1" using c by (simp_all add: reg32 diff_mult_distrib)
  have w: "write_exp_golomb_eqprob symbol count = seqW [encodeBinsEP (2 ^ (m + 1) - 2) (m + 1), encodeBinsEP t (count + m)]"
    using golomb_loop_ok [of count m symbol 0] m c b by (auto simp: write_exp_golomb_eqprob_def fun_eq_iff t_def)
  have sum: "add32 (golomb_class count m) t = symbol" using m s by (simp add: t_def add32_eq)
  have rd: "reads_ep R (m + 1 + (count + m)) ((2 ^ (m + 1) - 2) * 2 ^ (count + m) + t) (read_exp_golomb_eqprob count) symbol"
    if R: "64 \<le> R" "R \<le> 510" for R
    unfolding read_exp_golomb_eqprob_def
  proof (rule reads_ep_bind [OF reads_golomb [OF R c, of 0] _ t])
    show "0 + golomb_class count m < 2 ^ 32" using m s by simp
    show "reads_ep R (count + m) t (case (0 + golomb_class count m, count + m + 1) of (symbol, count) \<Rightarrow>
        let count = count - 1
        in if count \<noteq> 0 then bindP (decodeBinsEP count) (\<lambda>bins. returnP (add32 symbol bins)) else returnP symbol) symbol"
    proof (cases "count + m = 0")
      case True
      then show ?thesis using t m by (simp add: reads_ep_return t_def)
    next
      case False
      have "reads_ep R (count + m + 0) (t * 2 ^ 0 + 0) (bindP (decodeBinsEP (count + m)) (\<lambda>bins. returnP (add32 (golomb_class count m) bins))) symbol"
        using reads_ep_return [of R symbol] R c t by (intro reads_ep_bind [OF reads_ep_bins]) (simp_all add: sum)
      then show ?thesis using False by (simp add: Let_def)
    qed
  qed
  have "(2 ^ (m + 1) - 2) * 2 ^ (count + m) + t < 2 ^ (m + 1 + (count + m))"
  proof -
    have "(2 ^ (m + 1) - 2) * 2 ^ (count + m) + 2 ^ (count + m) \<le> (2 :: nat) ^ (m + 1) * 2 ^ (count + m)"
      by (simp add: diff_mult_distrib)
    then show ?thesis using t by (simp add: power_add)
  qed
  then show ?thesis
    unfolding w using c t by (intro ep_agrees [OF _ emits_ep_two [OF emits_ep_bins emits_ep_bins] rd]) simp_all
qed

section \<open>Truncated binary codes\<close>

definition g_tbMax :: "nat list" where
  "g_tbMax =
  [0, 0, 1, 1, 2, 2, 2, 2, 3, 3, 3, 3, 3, 3, 3, 3, 4, 4, 4, 4, 4, 4, 4, 4, 4, 4, 4, 4, 4, 4, 4, 4,
   5, 5, 5, 5, 5, 5, 5, 5, 5, 5, 5, 5, 5, 5, 5, 5, 5, 5, 5, 5, 5, 5, 5, 5, 5, 5, 5, 5, 5, 5, 5, 5,
   6, 6, 6, 6, 6, 6, 6, 6, 6, 6, 6, 6, 6, 6, 6, 6, 6, 6, 6, 6, 6, 6, 6, 6, 6, 6, 6, 6, 6, 6, 6, 6,
   6, 6, 6, 6, 6, 6, 6, 6, 6, 6, 6, 6, 6, 6, 6, 6, 6, 6, 6, 6, 6, 6, 6, 6, 6, 6, 6, 6, 6, 6, 6, 6,
   7, 7, 7, 7, 7, 7, 7, 7, 7, 7, 7, 7, 7, 7, 7, 7, 7, 7, 7, 7, 7, 7, 7, 7, 7, 7, 7, 7, 7, 7, 7, 7,
   7, 7, 7, 7, 7, 7, 7, 7, 7, 7, 7, 7, 7, 7, 7, 7, 7, 7, 7, 7, 7, 7, 7, 7, 7, 7, 7, 7, 7, 7, 7, 7,
   7, 7, 7, 7, 7, 7, 7, 7, 7, 7, 7, 7, 7, 7, 7, 7, 7, 7, 7, 7, 7, 7, 7, 7, 7, 7, 7, 7, 7, 7, 7, 7,
   7, 7, 7, 7, 7, 7, 7, 7, 7, 7, 7, 7, 7, 7, 7, 7, 7, 7, 7, 7, 7, 7, 7, 7, 7, 7, 7, 7, 7, 7, 7, 7,
   8]"

text \<open>The length of the short codes: from the table, or by doubling an \<open>int\<close> that must not overflow.\<close>

function thresh_loop :: "nat \<Rightarrow> nat \<Rightarrow> nat result" where
  "thresh_loop maxSymbol thresh =
     (if thresh \<ge> 31 then Inl UndefinedBehaviour
      else if 2 ^ thresh \<le> maxSymbol then thresh_loop maxSymbol (thresh + 1) else Inr thresh)"
  by pat_completeness auto
termination
  by (relation "measure (\<lambda>(m, t). 31 - t)") auto

declare thresh_loop.simps [simp del]

definition trunc_thresh :: "nat \<Rightarrow> nat result" where
  "trunc_thresh maxSymbol =
     (if maxSymbol > 256 then bindE (thresh_loop maxSymbol 8) (\<lambda>thresh. Inr (thresh - 1))
      else Inr (g_tbMax ! maxSymbol))"

definition xWriteTruncBinCode :: "nat \<Rightarrow> nat \<Rightarrow> bin_writer" where
  "xWriteTruncBinCode symbol maxSymbol e =
     bindE (trunc_thresh maxSymbol) (\<lambda>thresh.
     let val = 2 ^ thresh; b = maxSymbol - val
     in seqW [
          checkW (\<not> val \<le> maxSymbol) ''val <= maxSymbol'',
          checkW (\<not> 2 * val > maxSymbol) ''(val << 1) > maxSymbol'',
          checkW (\<not> symbol < maxSymbol) ''symbol < maxSymbol'',
          checkW (\<not> b < val) ''b < val'',
          if symbol < val - b then encodeBinsEP symbol thresh
          else let symbol = symbol + (val - b)
               in seqW [
                    checkW (\<not> symbol < 2 * val) ''symbol < (val << 1)'',
                    checkW (\<not> symbol div 2 \<ge> val - b) ''(symbol >> 1) >= val - b'',
                    encodeBinsEP symbol (thresh + 1)]] e)"

definition xReadTruncBinCode :: "nat \<Rightarrow> nat bin_parser" where
  "xReadTruncBinCode maxSymbol d =
     bindE (trunc_thresh maxSymbol) (\<lambda>thresh.
     let val = 2 ^ thresh; b = int maxSymbol - val
     in bindP (decodeBinsEP thresh) (\<lambda>symbol.
          if int symbol \<ge> val - b
          then bindP decodeBinEP (\<lambda>altSymbol. returnP (nat (int (2 * symbol + altSymbol) - (val - b))))
          else returnP symbol) d)"

fun tb_ok :: "nat \<Rightarrow> nat list \<Rightarrow> bool" where
  "tb_ok i [] = True"
| "tb_ok i (t # ts) \<longleftrightarrow> 2 ^ t \<le> i \<and> i < 2 * 2 ^ t \<and> tb_ok (i + 1) ts"

lemma tb_ok_nth: "tb_ok i ts \<Longrightarrow> k < length ts \<Longrightarrow> 2 ^ (ts ! k) \<le> i + k \<and> i + k < 2 * 2 ^ (ts ! k)"
  by (induction i ts arbitrary: k rule: tb_ok.induct) (auto simp: nth_Cons' gr0_conv_Suc)

lemma g_tbMax_ok: "tb_ok 1 (tl g_tbMax)" "length (tl g_tbMax) = 256"
  unfolding g_tbMax_def by simp_all

lemma thresh_loop_ok:
  "2 ^ thresh \<le> 2 * maxSymbol \<Longrightarrow> maxSymbol < 2 ^ 30 \<Longrightarrow>
     \<exists>u. thresh_loop maxSymbol thresh = Inr u \<and> maxSymbol < 2 ^ u \<and> 2 ^ u \<le> 2 * maxSymbol \<and> u \<le> 30"
proof (induction maxSymbol thresh rule: thresh_loop.induct)
  case (1 maxSymbol thresh)
  have "(2 :: nat) ^ thresh < 2 ^ 31" using 1(2,3) by simp
  then have t: "thresh < 31" by (rule power_less_imp_less_exp [rotated]) simp
  show ?case
  proof (cases "2 ^ thresh \<le> maxSymbol")
    case True
    then show ?thesis using 1 t by (simp add: thresh_loop.simps [of maxSymbol thresh])
  next
    case False
    then show ?thesis using 1 t by (simp add: thresh_loop.simps [of maxSymbol thresh])
  qed
qed

lemma trunc_thresh_ok:
  assumes "0 < maxSymbol" "maxSymbol < 2 ^ 30"
  obtains t where "trunc_thresh maxSymbol = Inr t" "2 ^ t \<le> maxSymbol" "maxSymbol < 2 * 2 ^ t" "t \<le> 29"
proof (cases "maxSymbol > 256")
  case True
  obtain u where u: "thresh_loop maxSymbol 8 = Inr u" "maxSymbol < 2 ^ u" "2 ^ u \<le> 2 * maxSymbol" "u \<le> 30"
    using thresh_loop_ok [of 8 maxSymbol] True assms(2) by auto
  then have "0 < u" using True by (cases u) auto
  then have "(2 :: nat) ^ u = 2 * 2 ^ (u - 1)" by (cases u) auto
  then show ?thesis using that [of "u - 1"] u True by (simp add: trunc_thresh_def)
next
  case False
  have "g_tbMax ! maxSymbol = tl g_tbMax ! (maxSymbol - 1)"
    using assms(1) False g_tbMax_ok(2) by (simp add: nth_tl)
  then have t: "2 ^ (g_tbMax ! maxSymbol) \<le> maxSymbol" "maxSymbol < 2 * 2 ^ (g_tbMax ! maxSymbol)"
    using tb_ok_nth [OF g_tbMax_ok(1), of "maxSymbol - 1"] assms(1) False g_tbMax_ok(2) by auto
  have "(2 :: nat) ^ (g_tbMax ! maxSymbol) < 2 ^ 30" using t(1) False by simp
  then have "g_tbMax ! maxSymbol < 30" by (rule power_less_imp_less_exp [rotated]) simp
  then show ?thesis using that [of "g_tbMax ! maxSymbol"] t False by (simp add: trunc_thresh_def)
qed

lemma agrees_trunc_bin:
  assumes "symbol < maxSymbol" "maxSymbol < 2 ^ 30"
  shows "agrees N (xWriteTruncBinCode symbol maxSymbol) (xReadTruncBinCode maxSymbol) symbol"
proof -
  obtain t where t: "trunc_thresh maxSymbol = Inr t" "2 ^ t \<le> maxSymbol" "maxSymbol < 2 * 2 ^ t" "t \<le> 29"
    using trunc_thresh_ok [of maxSymbol] assms by auto
  define u where "u = 2 ^ t - (maxSymbol - 2 ^ t)"
  have u: "int u = 2 ^ t - (int maxSymbol - 2 ^ t)" "u + maxSymbol = 2 * 2 ^ t" "u \<le> 2 ^ t"
    using t(2,3) by (auto simp: u_def of_nat_diff)
  have less: "maxSymbol - 2 ^ t < 2 ^ t" using t(2,3) by simp
  define q where "q = (\<lambda>s. if int s \<ge> int u then bindP decodeBinEP (\<lambda>alt. returnP (nat (int (2 * s + alt) - int u))) else returnP s)"
  have rd: "xReadTruncBinCode maxSymbol = bindP (decodeBinsEP t) q"
    by (simp only: fun_eq_iff xReadTruncBinCode_def t(1) bindE.simps Let_def q_def u(1) simp_thms)
  show ?thesis
  proof (cases "symbol < u")
    case True
    have w: "xWriteTruncBinCode symbol maxSymbol = encodeBinsEP symbol t"
      using True t assms(1) u less by (simp add: fun_eq_iff xWriteTruncBinCode_def Let_def t(2) flip: u_def)
    have "agrees N (encodeBinsEP symbol t) (decodeBinsEP t) symbol"
      using True u t by (intro agrees_binsEP) auto
    then show ?thesis unfolding w rd by (rule agrees_last) (use True in \<open>simp add: q_def\<close>)
  next
    case False
    let ?v = "symbol + u"
    have v: "?v < 2 * 2 ^ t" "u \<le> ?v div 2" "?v div 2 < 2 ^ t" using False u assms(1) by auto
    have w: "xWriteTruncBinCode symbol maxSymbol = encodeBinsEP ?v (t + 1)"
      using False t assms(1) u v less by (simp add: fun_eq_iff xWriteTruncBinCode_def Let_def flip: u_def) 
    have dm: "?v div 2 * 2 ^ 1 + ?v mod 2 = ?v" by simp
    have val: "nat (int (2 * (?v div 2) + ?v mod 2) - int u) = symbol" by simp
    have "reads_ep R (t + 1) (?v div 2 * 2 ^ 1 + ?v mod 2) (xReadTruncBinCode maxSymbol) symbol"
      if R: "64 \<le> R" "R \<le> 510" for R
      unfolding rd
    proof (rule reads_ep_bind)
      show "reads_ep R t (?v div 2) (decodeBinsEP t) (?v div 2)" using R t v by (intro reads_ep_bins) auto
      have "reads_ep R (1 + 0) (?v mod 2 * 2 ^ 0 + 0) (bindP decodeBinEP (\<lambda>alt. returnP (nat (int (2 * (?v div 2) + alt) - int u)))) symbol"
        using R reads_ep_return [of R symbol] by (intro reads_ep_bind [OF reads_ep_bin]) (simp_all only: val, simp_all)
      then show "reads_ep R 1 (?v mod 2) (q (?v div 2)) symbol" using v(2) by (simp add: q_def)
    qed simp
    then show ?thesis unfolding w dm using t v by (intro ep_agrees [OF _ emits_ep_bins]) simp_all
  qed
qed

section \<open>Motion and block vector differences\<close>

definition IMV_FPEL :: nat where "IMV_FPEL = 1"
definition IMV_4PEL :: nat where "IMV_4PEL = 2"
definition IMV_HPEL :: nat where "IMV_HPEL = 3"
definition MV_BITS :: nat where "MV_BITS = 18"
definition MVD_MAX :: int where "MVD_MAX = 2 ^ 17 - 1"
definition MVD_MIN :: int where "MVD_MIN = - (2 ^ 17)"

text \<open>The precision of a difference: the checks pass when one of the two components is a multiple.\<close>

definition mvd_round :: "nat \<Rightarrow> int \<times> int \<Rightarrow> (int \<times> int) result" where
  "mvd_round imv = (\<lambda>(horMvd, verMvd).
     if imv > 0
     then checkE (horMvd mod 2 \<noteq> 0 \<and> verMvd mod 2 \<noteq> 0) ''IMV: MVD is not a multiple of 2'' (
       let horMvd = drop_bit 1 horMvd; verMvd = drop_bit 1 verMvd
       in if imv < IMV_HPEL
          then checkE (horMvd mod 2 \<noteq> 0 \<and> verMvd mod 2 \<noteq> 0) ''IMV: MVD is not a multiple of 4'' (
            let horMvd = drop_bit 1 horMvd; verMvd = drop_bit 1 verMvd
            in if imv = IMV_4PEL
               then checkE (horMvd mod 4 \<noteq> 0 \<and> verMvd mod 4 \<noteq> 0) ''IMV: MVD is not a multiple of 16''
                 (Inr (drop_bit 2 horMvd, drop_bit 2 verMvd))
               else Inr (horMvd, verMvd))
          else Inr (horMvd, verMvd))
     else Inr (horMvd, verMvd))"

definition bin_of :: "bool \<Rightarrow> nat" where
  "bin_of b = (if b then 1 else 0)"

definition write_mvd_abs :: "int \<Rightarrow> bool \<Rightarrow> bin_writer" where
  "write_mvd_abs mvd codeSign =
     (let absMvd = nat \<bar>mvd\<bar>
      in ifW (absMvd > 0) [
           ifW (absMvd > 1) [encodeRemAbsEP (absMvd - 2) 1 0 (MV_BITS - 1)],
           ifW codeSign [encodeBinEP (bin_of (mvd < 0))]])"

definition write_mvd_coding :: "int \<times> int \<Rightarrow> nat \<Rightarrow> bool \<Rightarrow> bin_writer" where
  "write_mvd_coding rMvd imv codeSign e =
     bindE (mvd_round imv rMvd) (\<lambda>(horMvd, verMvd).
     let horAbs = nat \<bar>horMvd\<bar>; verAbs = nat \<bar>verMvd\<bar>
     in seqW [
          encodeBin (bin_of (horAbs > 0)) (Ctx Ctx_Mvd 0),
          encodeBin (bin_of (verAbs > 0)) (Ctx Ctx_Mvd 0),
          ifW (horAbs > 0) [encodeBin (bin_of (horAbs > 1)) (Ctx Ctx_Mvd 1)],
          ifW (verAbs > 0) [encodeBin (bin_of (verAbs > 1)) (Ctx Ctx_Mvd 1)],
          write_mvd_abs horMvd codeSign,
          write_mvd_abs verMvd codeSign] e)"

text \<open>One component: what follows the two flags of each component.\<close>

definition read_mvd_abs :: "nat \<Rightarrow> bool \<Rightarrow> int bin_parser" where
  "read_mvd_abs absMvd codeSign =
     (if absMvd \<noteq> 0
      then bindP (if absMvd > 1 then bindP (decodeRemAbsEP 1 0 (MV_BITS - 1)) (\<lambda>r. returnP (absMvd + r))
                  else returnP absMvd) (\<lambda>absMvd.
           if codeSign
           then bindP decodeBinEP (\<lambda>sign. returnP (if sign \<noteq> 0 then - int absMvd else int absMvd))
           else returnP (int absMvd))
      else returnP (int absMvd))"

definition read_mvd_coding :: "bool \<Rightarrow> (int \<times> int) bin_parser" where
  "read_mvd_coding codeSign =
     bindP (decodeBin (Ctx Ctx_Mvd 0)) (\<lambda>horAbs.
     bindP (decodeBin (Ctx Ctx_Mvd 0)) (\<lambda>verAbs.
     bindP (if horAbs \<noteq> 0 then bindP (decodeBin (Ctx Ctx_Mvd 1)) (\<lambda>b. returnP (horAbs + b)) else returnP horAbs) (\<lambda>horAbs.
     bindP (if verAbs \<noteq> 0 then bindP (decodeBin (Ctx Ctx_Mvd 1)) (\<lambda>b. returnP (verAbs + b)) else returnP verAbs) (\<lambda>verAbs.
     bindP (read_mvd_abs horAbs codeSign) (\<lambda>hor.
     bindP (read_mvd_abs verAbs codeSign) (\<lambda>ver.
     checkP (\<not> (hor \<ge> MVD_MIN \<and> hor \<le> MVD_MAX) \<or> \<not> (ver \<ge> MVD_MIN \<and> ver \<le> MVD_MAX)) ''Illegal MVD value''
       (returnP (hor, ver))))))))"

definition BVD_CODING_GOLOMB_ORDER :: nat where "BVD_CODING_GOLOMB_ORDER = 1"
definition NUM_HOR_BVD_CTX :: nat where "NUM_HOR_BVD_CTX = 5"
definition NUM_VER_BVD_CTX :: nat where "NUM_VER_BVD_CTX = 5"
definition HOR_BVD_CTX_OFFSET :: nat where "HOR_BVD_CTX_OFFSET = 0"
definition VER_BVD_CTX_OFFSET :: nat where "VER_BVD_CTX_OFFSET = 6"

text \<open>The prefix of an Exp-Golomb code with contexts for its first bins; \<open>temp\<close> is the next bin.\<close>

fun bvd_prefix :: "nat \<Rightarrow> nat \<Rightarrow> nat \<Rightarrow> nat \<Rightarrow> nat \<Rightarrow> bin_writer list" where
  "bvd_prefix ctxT offset bitCount bins 0 = []"
| "bvd_prefix ctxT offset bitCount bins (Suc i) =
     (let temp = drop_bit i bins
      in (if bitCount \<ge> ctxT then encodeBinEP temp else encodeBin temp (Ctx Ctx_Bvd (offset + bitCount + 1)))
         # bvd_prefix ctxT offset (bitCount + 1) (sub32 bins (shl32 temp i)) i)"

definition xWriteBvdContext :: "nat \<Rightarrow> nat \<Rightarrow> nat \<Rightarrow> nat \<Rightarrow> bin_writer" where
  "xWriteBvdContext symbol ctxT offset param e =
     bindE (golomb_loop symbol param 0 0) (\<lambda>(symbol, param, bins, numBins).
       thenW (seqW (bvd_prefix ctxT offset 0 (shl32 bins 1) (add32 numBins 1))) (encodeBinsEP symbol param) e)"

function bvd_read :: "nat \<Rightarrow> nat \<Rightarrow> nat \<Rightarrow> nat \<Rightarrow> nat \<Rightarrow> (nat \<times> nat) bin_parser" where
  "bvd_read ctxT offset idx symbol param =
     (if param \<ge> 32 then failP UndefinedBehaviour
      else bindP (if idx \<ge> ctxT then decodeBinEP else decodeBin (Ctx Ctx_Bvd (offset + idx + 1))) (\<lambda>bit.
        let symbol = add32 symbol (shl32 bit param); param = param + 1
        in if bit \<noteq> 0 then bvd_read ctxT offset (idx + 1) symbol param else returnP (symbol, param)))"
  by pat_completeness auto
termination
  by (relation "measure (\<lambda>(t, f, i, s, c). 32 - c)") auto

declare bvd_read.simps [simp del]

definition xReadBvdContext :: "nat \<Rightarrow> nat \<Rightarrow> nat \<Rightarrow> nat bin_parser" where
  "xReadBvdContext ctxT offset param =
     bindP (bvd_read ctxT offset 0 0 param) (\<lambda>(symbol, param).
       let param = param - 1
       in if param \<noteq> 0 then bindP (decodeBinsEP param) (\<lambda>bit. returnP (add32 symbol bit)) else returnP symbol)"

definition write_bvdCoding :: "int \<times> int \<Rightarrow> bin_writer" where
  "write_bvdCoding = (\<lambda>(horMvd, verMvd).
     let horAbs = nat \<bar>horMvd\<bar>; verAbs = nat \<bar>verMvd\<bar>
     in seqW [
          encodeBin (bin_of (horAbs > 0)) (Ctx Ctx_Bvd HOR_BVD_CTX_OFFSET),
          encodeBin (bin_of (verAbs > 0)) (Ctx Ctx_Bvd VER_BVD_CTX_OFFSET),
          ifW (horAbs > 0) [
            xWriteBvdContext (horAbs - 1) NUM_HOR_BVD_CTX HOR_BVD_CTX_OFFSET BVD_CODING_GOLOMB_ORDER,
            encodeBinEP (bin_of (horMvd < 0))],
          ifW (verAbs > 0) [
            xWriteBvdContext (verAbs - 1) NUM_VER_BVD_CTX VER_BVD_CTX_OFFSET BVD_CODING_GOLOMB_ORDER,
            encodeBinEP (bin_of (verMvd < 0))]])"

definition read_bvd_abs :: "nat \<Rightarrow> nat \<Rightarrow> nat \<Rightarrow> int bin_parser" where
  "read_bvd_abs absMvd ctxT offset =
     (if absMvd \<noteq> 0
      then bindP (xReadBvdContext ctxT offset BVD_CODING_GOLOMB_ORDER) (\<lambda>r.
           bindP decodeBinEP (\<lambda>sign. returnP (if sign \<noteq> 0 then - int (absMvd + r) else int (absMvd + r))))
      else returnP (int absMvd))"

definition read_bvdCoding :: "(int \<times> int) bin_parser" where
  "read_bvdCoding =
     bindP (decodeBin (Ctx Ctx_Bvd HOR_BVD_CTX_OFFSET)) (\<lambda>horAbs.
     bindP (decodeBin (Ctx Ctx_Bvd VER_BVD_CTX_OFFSET)) (\<lambda>verAbs.
     bindP (read_bvd_abs horAbs NUM_HOR_BVD_CTX HOR_BVD_CTX_OFFSET) (\<lambda>hor.
     bindP (read_bvd_abs verAbs NUM_VER_BVD_CTX VER_BVD_CTX_OFFSET) (\<lambda>ver.
     checkP (\<not> (hor \<ge> MVD_MIN \<and> hor \<le> MVD_MAX) \<or> \<not> (ver \<ge> MVD_MIN \<and> ver \<le> MVD_MAX)) ''Illegal BVD value''
       (returnP (hor, ver))))))"

lemma agrees_ifW:
  "(c \<Longrightarrow> agrees N (seqW ws) p v) \<Longrightarrow> (\<not> c \<Longrightarrow> p = returnP v) \<Longrightarrow> agrees N (ifW c ws) p v"
  by (simp add: ifW_def agrees_skip)

lemma bin_of_le [simp]: "bin_of b \<le> 1" "bin_of b \<le> Suc 0" "bin_of b = 0 \<longleftrightarrow> \<not> b" "0 < bin_of b \<longleftrightarrow> b"
  by (simp_all add: bin_of_def)

lemma agrees_greater1:
  "agrees 536 (ifW (a > 0) [encodeBin (bin_of (a > 1)) (Ctx Ctx_Mvd 1)])
     (if bin_of (a > 0) \<noteq> 0 then bindP (decodeBin (Ctx Ctx_Mvd 1)) (\<lambda>b. returnP (bin_of (a > 0) + b))
      else returnP (bin_of (a > 0))) (min a 2)"
proof (rule agrees_ifW)
  assume a: "a > 0"
  have v: "bin_of (a > 0) + bin_of (a > 1) = min a 2" using a by (simp add: bin_of_def)
  show "agrees 536 (seqW [encodeBin (bin_of (a > 1)) (Ctx Ctx_Mvd 1)])
     (if bin_of (a > 0) \<noteq> 0 then bindP (decodeBin (Ctx Ctx_Mvd 1)) (\<lambda>b. returnP (bin_of (a > 0) + b))
      else returnP (bin_of (a > 0))) (min a 2)"
    using a agrees_last [OF agrees_ctx [of 1 Ctx_Mvd "bin_of (a > 1)"],
        of "\<lambda>b. returnP (bin_of (a > 0) + b)" "min a 2"] v by (simp add: bin_of_le)
qed (simp add: bin_of_def)

lemma agrees_sign:
  "agrees N (encodeBinEP (bin_of (mvd < 0)))
     (bindP decodeBinEP (\<lambda>sign. returnP (if sign \<noteq> 0 then - int (nat \<bar>mvd\<bar>) else int (nat \<bar>mvd\<bar>)))) mvd"
  by (rule agrees_last [OF agrees_binEP]) (simp_all add: bin_of_def)

lemma agrees_mvd_abs:
  assumes "\<bar>mvd\<bar> \<le> 2 ^ 17"
  shows "agrees 536 (write_mvd_abs mvd codeSign) (read_mvd_abs (min (nat \<bar>mvd\<bar>) 2) codeSign) (if codeSign then mvd else \<bar>mvd\<bar>)"
  unfolding write_mvd_abs_def Let_def
proof (rule agrees_ifW)
  let ?a = "nat \<bar>mvd\<bar>"
  assume a: "?a > 0"
  define q where "q = (\<lambda>absMvd. if codeSign
           then bindP decodeBinEP (\<lambda>sign. returnP (if sign \<noteq> 0 then - int absMvd else int absMvd))
           else (returnP (int absMvd) :: int bin_parser))"
  have b: "?a \<le> 131072" using assms by simp
  have "n \<le> 131072 \<Longrightarrow> rem_valid 1 0 17 (n - 2)" for n by (simp add: rem_valid_def) linarith
  then have "rem_valid 1 0 17 (?a - 2)" using b by blast
  then have r: "agrees 536 (encodeRemAbsEP (?a - 2) 1 0 17) (decodeRemAbsEP 1 0 17) (?a - 2)"
    by (rule agrees_remAbs)
  have 1: "agrees 536 (ifW (?a > 1) [encodeRemAbsEP (?a - 2) 1 0 (MV_BITS - 1)])
      (if min ?a 2 > 1 then bindP (decodeRemAbsEP 1 0 (MV_BITS - 1)) (\<lambda>r. returnP (min ?a 2 + r)) else returnP (min ?a 2)) ?a"
  proof (rule agrees_ifW)
    assume a1: "?a > 1"
    then have "Suc (Suc (?a - 2)) = ?a" by linarith
    then show "agrees 536 (seqW [encodeRemAbsEP (?a - 2) 1 0 (MV_BITS - 1)])
      (if min ?a 2 > 1 then bindP (decodeRemAbsEP 1 0 (MV_BITS - 1)) (\<lambda>r. returnP (min ?a 2 + r)) else returnP (min ?a 2)) ?a"
      using agrees_last [OF r, of "\<lambda>r. returnP (min ?a 2 + r)" ?a] a1 by (simp add: MV_BITS_def)
  qed (use a in simp)
  have 2: "agrees 536 (ifW codeSign [encodeBinEP (bin_of (mvd < 0))]) (q ?a) (if codeSign then mvd else \<bar>mvd\<bar>)"
    using agrees_sign [of 536 mvd] by (auto simp: q_def ifW_def agrees_skip)
  show "agrees 536 (seqW [ifW (?a > 1) [encodeRemAbsEP (?a - 2) 1 0 (MV_BITS - 1)],
      ifW codeSign [encodeBinEP (bin_of (mvd < 0))]]) (read_mvd_abs (min ?a 2) codeSign) (if codeSign then mvd else \<bar>mvd\<bar>)"
    using agrees_then [where q = q, OF 1 2] a by (simp add: read_mvd_abs_def q_def)
qed (simp add: read_mvd_abs_def)

lemma agrees_mvd:
  assumes m: "mvd_round imv rMvd = Inr (hor, ver)" and r: "\<bar>hor\<bar> \<le> MVD_MAX" "\<bar>ver\<bar> \<le> MVD_MAX"
  shows "agrees 536 (write_mvd_coding rMvd imv codeSign) (read_mvd_coding codeSign)
    (if codeSign then (hor, ver) else (\<bar>hor\<bar>, \<bar>ver\<bar>))"
proof -
  have b: "\<bar>hor\<bar> \<le> 2 ^ 17" "\<bar>ver\<bar> \<le> 2 ^ 17" using r by (simp_all add: MVD_MAX_def)
  have fin: "agrees 536 skipW (checkP (\<not> (h \<ge> MVD_MIN \<and> h \<le> MVD_MAX) \<or> \<not> (v \<ge> MVD_MIN \<and> v \<le> MVD_MAX)) ''Illegal MVD value''
       (returnP (h, v))) (h, v)" if "\<bar>h\<bar> \<le> MVD_MAX" "\<bar>v\<bar> \<le> MVD_MAX" for h v
    using that by (intro agrees_checkP agrees_skip) (auto simp: MVD_MAX_def MVD_MIN_def)
  have w: "write_mvd_coding rMvd imv codeSign = seqW [
          encodeBin (bin_of (nat \<bar>hor\<bar> > 0)) (Ctx Ctx_Mvd 0),
          encodeBin (bin_of (nat \<bar>ver\<bar> > 0)) (Ctx Ctx_Mvd 0),
          ifW (nat \<bar>hor\<bar> > 0) [encodeBin (bin_of (nat \<bar>hor\<bar> > 1)) (Ctx Ctx_Mvd 1)],
          ifW (nat \<bar>ver\<bar> > 0) [encodeBin (bin_of (nat \<bar>ver\<bar> > 1)) (Ctx Ctx_Mvd 1)],
          write_mvd_abs hor codeSign,
          write_mvd_abs ver codeSign]"
    by (simp only: fun_eq_iff write_mvd_coding_def m bindE.simps Let_def prod.case simp_thms)
  have v: "(if codeSign then (hor, ver) else (\<bar>hor\<bar>, \<bar>ver\<bar>))
      = (if codeSign then hor else \<bar>hor\<bar>, if codeSign then ver else \<bar>ver\<bar>)" by simp
  show ?thesis
    unfolding w v read_mvd_coding_def
    by (rule agrees_bind agrees_ctx agrees_greater1 agrees_mvd_abs fin b bin_of_le | simp (no_asm) only: seqW.simps
        | (use r in \<open>simp; fail\<close>))+
qed

text \<open>The prefix with contexts: the same bins as the plain code, each coded on its own.\<close>

lemma agrees_bvd_prefix:
  assumes ctx: "offset + ctxT < 12"
  shows "param + m < 32 \<Longrightarrow> m \<le> 31 \<Longrightarrow> symbol + golomb_class param m < 2 ^ 32 \<Longrightarrow>
    agrees 536 (seqW (bvd_prefix ctxT offset idx (2 ^ (m + 1) - 2) (m + 1)))
      (bvd_read ctxT offset idx symbol param) (symbol + golomb_class param m, param + m + 1)"
proof (induction m arbitrary: symbol param idx)
  case 0
  have "shl32 0 param = 0" by (simp add: shl32_eq)
  moreover have "agrees 536 (if idx \<ge> ctxT then encodeBinEP 0 else encodeBin 0 (Ctx Ctx_Bvd (offset + idx + 1)))
      (if idx \<ge> ctxT then decodeBinEP else decodeBin (Ctx Ctx_Bvd (offset + idx + 1))) 0"
    using ctx by (intro agrees_if agrees_binEP agrees_ctx) auto
  ultimately show ?case
    using 0 by (auto simp: bvd_read.simps [of ctxT offset idx symbol param] add32_eq intro!: agrees_last)
next
  case (Suc m)
  have p: "shl32 1 param = 2 ^ param" using Suc.prems by (intro shl32_one) simp
  have le: "(2 :: nat) ^ (m + 2) \<le> 2 ^ 32" using Suc.prems(2) by (intro power_increasing) auto
  have t: "drop_bit (m + 1) (2 ^ (m + 2) - 2) = (1 :: nat)"
  proof -
    have x: "(2 :: nat) ^ (m + 2) = 4 * 2 ^ m" "(2 :: nat) ^ (m + 1) = 2 * 2 ^ m" by simp_all
    have "1 \<le> y \<Longrightarrow> (4 * y - 2) div (2 * y) = 1" for y :: nat by (intro div_nat_eqI) auto
    from this [OF two_power_pos [of m]] show ?thesis unfolding drop_bit_eq_div x .
  qed
  have "shl32 1 (m + 1) = 2 ^ (m + 1)" using Suc.prems(2) by (intro shl32_one) simp
  moreover have "1 \<le> y \<Longrightarrow> y \<le> 2 ^ 30 \<Longrightarrow> sub32 (4 * y - 2) (2 * y) = 2 * y - 2" for y by (simp add: sub32_eq)
  from this [OF two_power_pos [of m]] have "sub32 (2 ^ (m + 2) - 2) (2 ^ (m + 1)) = 2 ^ (m + 1) - 2" using le by simp
  ultimately have rest: "sub32 (2 ^ (m + 2) - 2) (shl32 1 (m + 1)) = 2 ^ (m + 1) - 2" by simp
  have split: "bvd_prefix ctxT offset idx (2 ^ (Suc m + 1) - 2) (Suc m + 1)
      = (if idx \<ge> ctxT then encodeBinEP 1 else encodeBin 1 (Ctx Ctx_Bvd (offset + idx + 1)))
        # bvd_prefix ctxT offset (idx + 1) (2 ^ (m + 1) - 2) (m + 1)"
    using t rest by simp
  have "agrees 536 (if idx \<ge> ctxT then encodeBinEP 1 else encodeBin 1 (Ctx Ctx_Bvd (offset + idx + 1)))
      (if idx \<ge> ctxT then decodeBinEP else decodeBin (Ctx Ctx_Bvd (offset + idx + 1))) 1"
    using ctx by (intro agrees_if agrees_binEP agrees_ctx) auto
  moreover have "add32 symbol (2 ^ param) = symbol + 2 ^ param" using Suc.prems(3) by (simp add: add32_eq)
  ultimately show ?case
    unfolding split seqW.simps bvd_read.simps [of ctxT offset idx symbol param]
    using Suc.IH [of "param + 1" "symbol + 2 ^ param" "idx + 1"] Suc.prems p
    by (auto simp: Let_def add.assoc intro!: agrees_then [where x = "1 :: nat"])
qed

lemma agrees_bvd_context:
  assumes ctx: "offset + ctxT < 12" and m: "golomb_class param m \<le> symbol" "symbol < golomb_class param (Suc m)"
    and c: "param + m < 32" and s: "symbol < 2 ^ 32"
  shows "agrees 536 (xWriteBvdContext symbol ctxT offset param) (xReadBvdContext ctxT offset param) symbol"
proof -
  define t where "t = symbol - golomb_class param m"
  have t: "t < 2 ^ (param + m)" using m by (simp add: t_def golomb_class_eq)
  have "(2 :: nat) ^ m \<le> 2 ^ 31" using c by (intro power_increasing) auto
  then have b: "shl32 (2 ^ m - 1) 1 = 2 ^ (m + 1) - 2" "add32 m 1 = m + 1" using c by (simp_all add: reg32 diff_mult_distrib)
  have w: "xWriteBvdContext symbol ctxT offset param
      = thenW (seqW (bvd_prefix ctxT offset 0 (2 ^ (m + 1) - 2) (m + 1))) (encodeBinsEP t (param + m))"
    using golomb_loop_ok [of param m symbol 0] m c b by (auto simp: xWriteBvdContext_def fun_eq_iff t_def)
  have sum: "add32 (golomb_class param m) t = symbol" using m s by (simp add: t_def add32_eq)
  define q where "q = (\<lambda>(symbol, param). let param = param - 1
       in if param \<noteq> 0 then bindP (decodeBinsEP param) (\<lambda>bit. returnP (add32 symbol bit)) else (returnP symbol :: nat bin_parser))"
  have "agrees 536 (encodeBinsEP t (param + m)) (q (0 + golomb_class param m, param + m + 1)) symbol"
  proof (cases "param + m = 0")
    case True
    have "agrees 536 (encodeBinsEP 0 0) (returnP 0) (0 :: nat)"
      by (rule ep_agrees [OF _ emits_ep_bins reads_ep_return]) simp_all
    then show ?thesis using True t m by (simp add: q_def t_def agrees_def returnP_def)
  next
    case False
    have "agrees 536 (encodeBinsEP t (param + m)) (decodeBinsEP (param + m)) t" using t c by (intro agrees_binsEP) auto
    then show ?thesis using False sum by (auto simp: q_def Let_def intro!: agrees_last)
  qed
  then show ?thesis
    unfolding w xReadBvdContext_def q_def [symmetric]
    using agrees_bvd_prefix [OF ctx c, of 0 0] m c s by (intro agrees_then [where q = q]) auto
qed

text \<open>All differences of the legal range have a code.\<close>

lemma golomb_class_small:
  assumes "symbol < 2 ^ 31 - 2 ^ count" "count < 31"
  obtains m where "golomb_class count m \<le> symbol" "symbol < golomb_class count (Suc m)" "count + m < 31"
proof -
  obtain m where m: "golomb_class count m \<le> symbol" "symbol < golomb_class count (Suc m)"
    using golomb_class_exists by blast
  have "golomb_class count m < 2 ^ 31 - 2 ^ count" using m(1) assms(1) by simp
  then have "(2 :: nat) ^ (count + m) < 2 ^ 31" unfolding golomb_class_eq by linarith
  then have "count + m < 31" by (rule power_less_imp_less_exp [rotated]) simp
  then show ?thesis using that m by blast
qed

end
