(* ===== verification/SyntaxElements.thy ===== *)
theory SyntaxElements
  imports SyntaxBins "HOL-Library.Signed_Division"
begin

unbundle bit_operations_syntax

text \<open>
  Syntax elements of the coding tree whose value does not depend on the coding structures, composed from
  the binarisations: quantisation parameters, reference indices of additional hypotheses, geometric
  partitions and offsets of the cross-component model, from \<open>source/Lib/EncoderLib/CABACWriter.cpp\<close> and \<open>source/Lib/DecoderLib/CABACReader.cpp\<close>. What a condition of
  the code asks of the coding structures is an argument here. At the end all elements form one coder of a
  slice.
\<close>

section \<open>Block vectors\<close>

lemma agrees_bvd_abs:
  assumes "\<bar>mvd\<bar> \<le> MVD_MAX" and "offset + ctxT < 12"
  shows "agrees 536 (ifW (nat \<bar>mvd\<bar> > 0) [
            xWriteBvdContext (nat \<bar>mvd\<bar> - 1) ctxT offset BVD_CODING_GOLOMB_ORDER,
            encodeBinEP (bin_of (mvd < 0))])
          (read_bvd_abs (bin_of (nat \<bar>mvd\<bar> > 0)) ctxT offset) mvd"
proof (rule agrees_ifW)
  assume pos: "nat \<bar>mvd\<bar> > 0"
  define a where "a = nat \<bar>mvd\<bar> - 1"
  have one: "bin_of True = 1" by (simp add: bin_of_def)
  have a: "1 + a = nat \<bar>mvd\<bar>" "a < 2 ^ 17" using pos assms(1) by (auto simp: a_def MVD_MAX_def)
  obtain m where m: "golomb_class 1 m \<le> a" "a < golomb_class 1 (Suc m)" "1 + m < 31"
    using golomb_class_small [of a 1] a(2) by auto
  have r: "agrees 536 (xWriteBvdContext a ctxT offset 1) (xReadBvdContext ctxT offset 1) a"
    using m a(2) by (intro agrees_bvd_context [OF assms(2)]) auto
  define q where "q = (\<lambda>r. bindP decodeBinEP (\<lambda>sign. returnP (if sign \<noteq> 0 then - int (1 + r) else int (1 + r))))"
  have s: "agrees 536 (encodeBinEP (bin_of (mvd < 0))) (q a) mvd"
    using agrees_sign [of 536 mvd] unfolding q_def a(1) .
  show "agrees 536 (seqW [xWriteBvdContext (nat \<bar>mvd\<bar> - 1) ctxT offset BVD_CODING_GOLOMB_ORDER,
      encodeBinEP (bin_of (mvd < 0))]) (read_bvd_abs (bin_of (nat \<bar>mvd\<bar> > 0)) ctxT offset) mvd"
    using agrees_then [where q = q, OF r s]
    unfolding a_def [symmetric] by (simp only: read_bvd_abs_def BVD_CODING_GOLOMB_ORDER_def q_def pos one seqW.simps
        thenW_skip not_False_eq_True zero_neq_one if_True one_neq_zero)
qed (simp add: read_bvd_abs_def bin_of_def)

lemma agrees_bvd:
  assumes "\<bar>hor\<bar> \<le> MVD_MAX" "\<bar>ver\<bar> \<le> MVD_MAX"
  shows "agrees 536 (write_bvdCoding (hor, ver)) read_bvdCoding (hor, ver)"
proof -
  have fin: "agrees 536 skipW (checkP (\<not> (hor \<ge> MVD_MIN \<and> hor \<le> MVD_MAX) \<or> \<not> (ver \<ge> MVD_MIN \<and> ver \<le> MVD_MAX)) ''Illegal BVD value''
       (returnP (hor, ver))) (hor, ver)"
    using assms by (intro agrees_checkP agrees_skip) (auto simp: MVD_MAX_def MVD_MIN_def)
  show ?thesis
    unfolding write_bvdCoding_def prod.case Let_def read_bvdCoding_def
    by (rule agrees_bind agrees_ctx agrees_bvd_abs fin assms bin_of_le | simp (no_asm) only: seqW.simps
        | simp add: HOR_BVD_CTX_OFFSET_def VER_BVD_CTX_OFFSET_def NUM_HOR_BVD_CTX_def NUM_VER_BVD_CTX_def; fail)+
qed

section \<open>Quantisation parameters\<close>

definition CU_DQP_TU_CMAX :: nat where "CU_DQP_TU_CMAX = 5"
definition CU_DQP_EG_k :: nat where "CU_DQP_EG_k = 0"

definition qp_difference :: "nat \<Rightarrow> int \<Rightarrow> int \<Rightarrow> int" where
  "qp_difference qpBdOffsetY predQP qp =
     (let DQp = qp - predQP; off = int qpBdOffsetY
      in (DQp + (MAX_QP + 1) + (MAX_QP + 1) sdiv 2 + off + off sdiv 2) smod (MAX_QP + 1 + off)
         - (MAX_QP + 1) sdiv 2 - off sdiv 2)"

definition write_cu_qp_delta :: "nat \<Rightarrow> int \<Rightarrow> int \<Rightarrow> bin_writer" where
  "write_cu_qp_delta qpBdOffsetY predQP qp =
     (let DQp = qp_difference qpBdOffsetY predQP qp;
          absDQP = nat \<bar>DQp\<bar>;
          unaryDQP = min absDQP CU_DQP_TU_CMAX
      in seqW [
           checkW (\<not> predQP \<noteq> 2 ^ 31 - 1) ''Unspecified error'',
           write_unary_max_symbol unaryDQP (Ctx Ctx_DeltaQP 0) (Ctx Ctx_DeltaQP 1) CU_DQP_TU_CMAX,
           ifW (absDQP \<ge> CU_DQP_TU_CMAX) [write_exp_golomb_eqprob (absDQP - CU_DQP_TU_CMAX) CU_DQP_EG_k],
           ifW (absDQP > 0) [encodeBinEP (bin_of (DQp < 0))]])"

definition qp_reconstruct :: "nat \<Rightarrow> int \<Rightarrow> int \<Rightarrow> int" where
  "qp_reconstruct qpBdOffsetY predQP DQp =
     signed_take_bit 7 (if DQp = 0 then predQP
       else (predQP + DQp + (MAX_QP + 1) + 2 * int qpBdOffsetY) smod (MAX_QP + 1 + int qpBdOffsetY) - int qpBdOffsetY)"

definition read_cu_qp_delta :: "nat \<Rightarrow> int \<Rightarrow> int bin_parser" where
  "read_cu_qp_delta qpBdOffsetY predQP =
     checkP (predQP = 2 ^ 31 - 1) ''Invalid predicted QP'' (
     bindP (read_unary_max_symbol (Ctx Ctx_DeltaQP 0) (Ctx Ctx_DeltaQP 1) CU_DQP_TU_CMAX) (\<lambda>DQp.
     bindP (if DQp \<ge> CU_DQP_TU_CMAX
            then bindP (read_exp_golomb_eqprob CU_DQP_EG_k) (\<lambda>r. returnP (DQp + r)) else returnP DQp) (\<lambda>DQp.
     bindP (if DQp > 0
            then bindP decodeBinEP (\<lambda>sign. returnP (if sign \<noteq> 0 then - int DQp else int DQp))
            else returnP (int DQp)) (\<lambda>DQp.
     returnP (qp_reconstruct qpBdOffsetY predQP DQp)))))"

definition qp_legal :: "nat \<Rightarrow> int \<Rightarrow> bool" where
  "qp_legal qpBdOffsetY qp \<longleftrightarrow> - int qpBdOffsetY \<le> qp \<and> qp \<le> MAX_QP"

lemma smod_pos: "0 \<le> a \<Longrightarrow> 0 < b \<Longrightarrow> (a :: int) smod b = a mod b"
  by (cases "a = 0") (simp_all add: signed_modulo_int_def)

lemma sdiv_pos: "0 \<le> (a :: int) \<Longrightarrow> a sdiv 2 = a div 2"
  by (simp add: signed_divide_int_def sgn_if)

lemma qp_difference_eq:
  assumes p: "qp_legal off predQP" and q: "qp_legal off qp"
    and M: "M = 64 + int off" and h: "h = 32 + int off div 2"
  shows "qp_difference off predQP qp = (qp - predQP + M + h) mod M - h"
proof -
  have "0 \<le> int off div 2" by simp
  then have "0 \<le> qp - predQP + M + h" "0 < M" using p q unfolding qp_legal_def MAX_QP_def M h by linarith+
  then have e: "(qp - predQP + M + h) smod M = (qp - predQP + M + h) mod M" by (rule smod_pos)
  have "qp - predQP + (MAX_QP + 1) + (MAX_QP + 1) sdiv 2 + int off + int off sdiv 2 = qp - predQP + M + h"
    "MAX_QP + 1 + int off = M" "(MAX_QP + 1) sdiv 2 + int off sdiv 2 = h"
    by (simp_all add: MAX_QP_def M h sdiv_pos)
  then show ?thesis unfolding qp_difference_def Let_def diff_diff_eq by (simp only: e)
qed

lemma qp_difference_ok:
  assumes off: "off \<le> 64" and p: "qp_legal off predQP" and q: "qp_legal off qp"
  shows "qp_reconstruct off predQP (qp_difference off predQP qp) = qp" and "\<bar>qp_difference off predQP qp\<bar> \<le> 64"
proof -
  define M h where "M = 64 + int off" and "h = 32 + int off div 2"
  have M: "0 < M" "0 \<le> h" "2 * h \<le> M" "M \<le> 128" "M \<le> 2 * h + 1" using off by (auto simp: M_def h_def)
  note D = qp_difference_eq [OF p q M_def h_def]
  have range: "0 \<le> (qp - predQP + M + h) mod M" "(qp - predQP + M + h) mod M < M" using M by auto
  show "\<bar>qp_difference off predQP qp\<bar> \<le> 64" using range M unfolding D by linarith
  have lo: "0 \<le> predQP + qp_difference off predQP qp + M + int off"
    using range(1) M(2) p off unfolding D qp_legal_def M_def h_def by linarith
  have qo: "(qp + int off) mod M = qp + int off" using q by (simp add: qp_legal_def MAX_QP_def M_def)
  have po: "(predQP + int off) mod M = predQP + int off" using p by (simp add: qp_legal_def MAX_QP_def M_def)
  have "predQP + qp_difference off predQP qp + M + int off
      = (predQP + int off - h + (qp - predQP + M + h) mod M) + M" unfolding D by linarith
  then have "(predQP + qp_difference off predQP qp + M + int off) mod M
      = (predQP + int off - h + (qp - predQP + M + h) mod M) mod M" by (simp only: mod_add_self2)
  also have "\<dots> = (predQP + int off - h + (qp - predQP + M + h)) mod M" by (simp only: mod_add_right_eq)
  also have "predQP + int off - h + (qp - predQP + M + h) = qp + int off + M" by simp
  also have "(qp + int off + M) mod M = (qp + int off) mod M" by (rule mod_add_self2)
  finally have eq: "(predQP + qp_difference off predQP qp + M + int off) mod M = qp + int off" using qo by simp
  have "signed_take_bit 7 qp = qp" using q off by (intro signed_take_bit_int_eq_self) (auto simp: qp_legal_def MAX_QP_def)
  moreover have "qp = predQP" if "qp_difference off predQP qp = 0"
    using eq po that mod_add_self2 [of "predQP + int off" M] by (simp add: ac_simps)
  moreover have "(predQP + qp_difference off predQP qp + (MAX_QP + 1) + 2 * int off) smod (MAX_QP + 1 + int off) - int off = qp"
    using lo eq M(1) by (simp add: MAX_QP_def smod_pos M_def algebra_simps)
  ultimately show "qp_reconstruct off predQP (qp_difference off predQP qp) = qp"
    unfolding qp_reconstruct_def by auto
qed

lemma agrees_qp_delta:
  assumes off: "off \<le> 64" and p: "qp_legal off predQP" and q: "qp_legal off qp" 
  shows "agrees 536 (write_cu_qp_delta off predQP qp) (read_cu_qp_delta off predQP) qp"
proof -
  define D where "D = qp_difference off predQP qp"
  let ?a = "nat \<bar>D\<bar>"
  have D: "qp_reconstruct off predQP D = qp" "\<bar>D\<bar> \<le> 64" using qp_difference_ok [OF assms] by (simp_all add: D_def)
  have c: "Ctx Ctx_DeltaQP 0 < 536" "Ctx Ctx_DeltaQP 1 < 536" by (simp_all add: Ctx_less)
  have 1: "agrees 536 (write_unary_max_symbol (min ?a CU_DQP_TU_CMAX) (Ctx Ctx_DeltaQP 0) (Ctx Ctx_DeltaQP 1) CU_DQP_TU_CMAX)
      (read_unary_max_symbol (Ctx Ctx_DeltaQP 0) (Ctx Ctx_DeltaQP 1) CU_DQP_TU_CMAX) (min ?a CU_DQP_TU_CMAX)"
    by (rule agrees_unary_max_symbol [OF c]) (simp_all add: CU_DQP_TU_CMAX_def)
  have 2: "agrees 536 (ifW (?a \<ge> CU_DQP_TU_CMAX) [write_exp_golomb_eqprob (?a - CU_DQP_TU_CMAX) CU_DQP_EG_k])
     (if min ?a CU_DQP_TU_CMAX \<ge> CU_DQP_TU_CMAX
      then bindP (read_exp_golomb_eqprob CU_DQP_EG_k) (\<lambda>r. returnP (min ?a CU_DQP_TU_CMAX + r)) else returnP (min ?a CU_DQP_TU_CMAX)) ?a"
  proof (rule agrees_ifW)
    assume a: "?a \<ge> CU_DQP_TU_CMAX"
    have small: "?a - 5 < 2 ^ 31 - 2 ^ 0" using D(2) by simp
    then obtain m where m: "golomb_class 0 m \<le> ?a - 5" "?a - 5 < golomb_class 0 (Suc m)" "0 + m < 31"
      by (rule golomb_class_small) simp
    have "agrees 536 (write_exp_golomb_eqprob (?a - 5) 0) (read_exp_golomb_eqprob 0) (?a - 5)"
      using m small by (intro agrees_exp_golomb) auto
    moreover have "min ?a 5 + (?a - 5) = ?a" by simp
    ultimately show "agrees 536 (seqW [write_exp_golomb_eqprob (?a - CU_DQP_TU_CMAX) CU_DQP_EG_k])
     (if min ?a CU_DQP_TU_CMAX \<ge> CU_DQP_TU_CMAX
      then bindP (read_exp_golomb_eqprob CU_DQP_EG_k) (\<lambda>r. returnP (min ?a CU_DQP_TU_CMAX + r)) else returnP (min ?a CU_DQP_TU_CMAX)) ?a"
      using a by (simp only: CU_DQP_TU_CMAX_def CU_DQP_EG_k_def seqW.simps thenW_skip min.absorb2 if_True order_refl)
        (rule agrees_last, assumption, simp)
  qed (simp add: min_def)
  have 3: "agrees 536 (ifW (?a > 0) [encodeBinEP (bin_of (D < 0))])
     (if ?a > 0 then bindP decodeBinEP (\<lambda>sign. returnP (if sign \<noteq> 0 then - int ?a else int ?a)) else returnP (int ?a)) D"
    using agrees_sign [of 536 D] by (intro agrees_ifW) auto
  have "predQP \<noteq> 2 ^ 31 - 1" using p by (auto simp: qp_legal_def MAX_QP_def)
  then show ?thesis
    unfolding write_cu_qp_delta_def read_cu_qp_delta_def Let_def D_def [symmetric]
    by (intro agrees_checkW agrees_checkP agrees_bind [OF 1] agrees_bind [OF 2] agrees_bind [OF 3])
      (simp_all add: D agrees_skip)
qed

definition write_cu_chroma_qp_offset :: "nat \<Rightarrow> nat \<Rightarrow> bin_writer" where
  "write_cu_chroma_qp_offset listLen qpAdj =
     (if qpAdj = 0 then encodeBin 0 (Ctx Ctx_ChromaQpAdjFlag 0)
      else seqW [
        encodeBin 1 (Ctx Ctx_ChromaQpAdjFlag 0),
        ifW (listLen > 1) [
          write_unary_max_symbol (qpAdj - 1) (Ctx Ctx_ChromaQpAdjIdc 0) (Ctx Ctx_ChromaQpAdjIdc 0) (listLen - 1)]])"

definition read_cu_chroma_qp_offset :: "nat \<Rightarrow> nat bin_parser" where
  "read_cu_chroma_qp_offset listLen =
     bindP (decodeBin (Ctx Ctx_ChromaQpAdjFlag 0)) (\<lambda>qpAdj.
       if qpAdj \<noteq> 0 \<and> listLen > 1
       then bindP (read_unary_max_symbol (Ctx Ctx_ChromaQpAdjIdc 0) (Ctx Ctx_ChromaQpAdjIdc 0) (listLen - 1))
              (\<lambda>r. returnP (qpAdj + r))
       else returnP qpAdj)"

lemma agrees_chroma_qp_offset:
  assumes "qpAdj \<le> max 1 listLen" "listLen \<le> 64"
  shows "agrees 536 (write_cu_chroma_qp_offset listLen qpAdj) (read_cu_chroma_qp_offset listLen) qpAdj"
proof (cases "qpAdj = 0")
  case True
  show ?thesis unfolding write_cu_chroma_qp_offset_def read_cu_chroma_qp_offset_def if_P [OF True]
    by (rule agrees_last [OF agrees_ctx]) (use True in simp_all)
next
  case False
  have c: "Ctx Ctx_ChromaQpAdjIdc 0 < 536" by (simp add: Ctx_less)
  have "agrees 536 (ifW (listLen > 1) [
          write_unary_max_symbol (qpAdj - 1) (Ctx Ctx_ChromaQpAdjIdc 0) (Ctx Ctx_ChromaQpAdjIdc 0) (listLen - 1)])
      (if (1 :: nat) \<noteq> 0 \<and> listLen > 1
       then bindP (read_unary_max_symbol (Ctx Ctx_ChromaQpAdjIdc 0) (Ctx Ctx_ChromaQpAdjIdc 0) (listLen - 1)) (\<lambda>r. returnP (1 + r))
       else returnP 1) qpAdj"
  proof (rule agrees_ifW)
    assume l: "listLen > 1"
    have "agrees 536 (write_unary_max_symbol (qpAdj - 1) (Ctx Ctx_ChromaQpAdjIdc 0) (Ctx Ctx_ChromaQpAdjIdc 0) (listLen - 1))
        (read_unary_max_symbol (Ctx Ctx_ChromaQpAdjIdc 0) (Ctx Ctx_ChromaQpAdjIdc 0) (listLen - 1)) (qpAdj - 1)"
      using assms l by (intro agrees_unary_max_symbol [OF c c]) auto
    then show "agrees 536 (seqW [
          write_unary_max_symbol (qpAdj - 1) (Ctx Ctx_ChromaQpAdjIdc 0) (Ctx Ctx_ChromaQpAdjIdc 0) (listLen - 1)])
      (if (1 :: nat) \<noteq> 0 \<and> listLen > 1
       then bindP (read_unary_max_symbol (Ctx Ctx_ChromaQpAdjIdc 0) (Ctx Ctx_ChromaQpAdjIdc 0) (listLen - 1)) (\<lambda>r. returnP (1 + r))
       else returnP 1) qpAdj"
      using l False by (auto intro!: agrees_last)
  qed (use assms False in \<open>auto simp: max_def le_Suc_eq split: if_splits\<close>)
  then show ?thesis
    unfolding write_cu_chroma_qp_offset_def read_cu_chroma_qp_offset_def if_not_P [OF False] seqW.simps thenW_skip
    by (intro agrees_then [OF agrees_ctx]) simp_all
qed

section \<open>Loops that end with a zero\<close>

text \<open>
  Several elements are written bin by bin with a coder that depends on the position: a one while there is
  more, a zero and a \<open>break\<close> otherwise; nothing after the last position.
\<close>

fun ones_then_zero :: "(nat \<Rightarrow> nat \<Rightarrow> bin_writer) \<Rightarrow> (nat \<Rightarrow> bool) \<Rightarrow> nat list \<Rightarrow> bin_writer" where
  "ones_then_zero enc go [] = skipW"
| "ones_then_zero enc go (i # is) =
     (if go i then thenW (enc i 1) (ones_then_zero enc go is) else enc i 0)"

function count_ones :: "(nat \<Rightarrow> nat bin_parser) \<Rightarrow> nat \<Rightarrow> nat \<Rightarrow> nat bin_parser" where
  "count_ones dec n i =
     (if i < n then bindP (dec i) (\<lambda>bin. if bin = 0 then returnP i else count_ones dec n (i + 1)) else returnP i)"
  by pat_completeness auto
termination
  by (relation "measure (\<lambda>(d, n, i). n - i)") auto

declare count_ones.simps [simp del]

lemma agrees_ones:
  assumes c: "\<And>i bin. i < n \<Longrightarrow> bin \<le> 1 \<Longrightarrow> agrees N (enc i bin) (dec i) bin"
    and v: "v \<le> n" "\<And>i. i < v \<Longrightarrow> go i" "v < n \<Longrightarrow> \<not> go v"
  shows "k \<le> v \<Longrightarrow> agrees N (ones_then_zero enc go [k..<n]) (count_ones dec n k) v"
proof (induction "v - k" arbitrary: k)
  case 0
  then have k: "k = v" by simp
  show ?case
  proof (cases "v < n")
    case True
    then have up: "[k..<n] = k # [Suc k..<n]" using k by (intro upt_conv_Cons) simp
    have "agrees N (enc k 0) (dec k) 0" using c [of k 0] True k by simp
    then show ?thesis
      unfolding up count_ones.simps [of dec n k] using v(3) True k by (auto intro!: agrees_last)
  next
    case False
    then show ?thesis using k v(1) by (simp add: count_ones.simps agrees_skip)
  qed
next
  case (Suc m)
  then have k: "k < n" "k < v" using v(1) by auto
  then have up: "[k..<n] = k # [Suc k..<n]" by (intro upt_conv_Cons)
  have "agrees N (enc k 1) (dec k) 1" using c [of k 1] k by simp
  moreover have "agrees N (ones_then_zero enc go [Suc k..<n]) (count_ones dec n (k + 1)) v"
    using Suc.hyps(1) [of "Suc k"] Suc.hyps(2) k by simp
  ultimately show ?case
    unfolding up count_ones.simps [of dec n k] using v(2) [of k] k
    by (auto intro!: agrees_then [where x = "1 :: nat"])
qed

definition write_ref_idx_mh :: "nat \<Rightarrow> nat \<Rightarrow> bin_writer" where
  "write_ref_idx_mh numRef refIdx =
     (if numRef \<le> 1 then skipW
      else thenW (encodeBin (bin_of (refIdx > 0)) (Ctx Ctx_MHRefPic 0)) (
        if numRef \<le> 2 \<or> refIdx = 0 then skipW
        else thenW (encodeBin (bin_of (refIdx > 1)) (Ctx Ctx_MHRefPic 1)) (
          if numRef \<le> 3 \<or> refIdx = 1 then skipW
          else ones_then_zero (\<lambda>_. encodeBinEP) (\<lambda>idx. refIdx > idx - 1) [3..<numRef])))"

definition read_ref_idx_mh :: "nat \<Rightarrow> nat bin_parser" where
  "read_ref_idx_mh numRef =
     (if numRef \<le> 1 then returnP 0
      else bindP (decodeBin (Ctx Ctx_MHRefPic 0)) (\<lambda>b0.
        if b0 = 0 then returnP 0
        else if numRef \<le> 2 then returnP 1
        else bindP (decodeBin (Ctx Ctx_MHRefPic 1)) (\<lambda>b1.
          if b1 = 0 then returnP 1
          else bindP (count_ones (\<lambda>_. decodeBinEP) numRef 3) (\<lambda>idx. returnP (idx - 1)))))"

lemma agrees_ref_idx_mh:
  assumes "refIdx < max 1 numRef"
  shows "agrees 536 (write_ref_idx_mh numRef refIdx) (read_ref_idx_mh numRef) refIdx"
proof -
  have 1: "agrees 536 (encodeBin (bin_of (refIdx > k)) (Ctx Ctx_MHRefPic k)) (decodeBin (Ctx Ctx_MHRefPic k)) (bin_of (refIdx > k))"
    if "k \<le> 1" for k using that by (intro agrees_ctx) simp_all
  have "agrees 536 (ones_then_zero (\<lambda>_. encodeBinEP) (\<lambda>idx. refIdx > idx - 1) [3..<numRef])
      (count_ones (\<lambda>_. decodeBinEP) numRef 3) (refIdx + 1)" if "2 \<le> refIdx" "refIdx < numRef"
    by (rule agrees_ones) (use that in \<open>auto intro: agrees_binEP\<close>)
  then have 2: "agrees 536 (ones_then_zero (\<lambda>_. encodeBinEP) (\<lambda>idx. refIdx > idx - 1) [3..<numRef])
      (bindP (count_ones (\<lambda>_. decodeBinEP) numRef 3) (\<lambda>idx. returnP (idx - 1))) refIdx"
    if "2 \<le> refIdx" "refIdx < numRef"
    using that by (auto intro!: agrees_last)
  consider "numRef \<le> 1" "refIdx = 0" | "numRef > 1" "refIdx = 0" | "numRef = 2" "refIdx = 1"
    | "numRef > 2" "refIdx = 1" | "numRef > 2" "2 \<le> refIdx" "refIdx < numRef"
    using assms by (cases "numRef \<le> 1"; cases refIdx; cases "refIdx - 1"; force)
  then show ?thesis
  proof cases
    case 1
    then show ?thesis by (simp add: write_ref_idx_mh_def read_ref_idx_mh_def agrees_skip)
  next
    case 2
    then show ?thesis using 1 [of 0]
      by (auto simp: write_ref_idx_mh_def read_ref_idx_mh_def bin_of_def intro!: agrees_last)
  next
    case 3
    then show ?thesis using 1 [of 0]
      by (auto simp: write_ref_idx_mh_def read_ref_idx_mh_def bin_of_def intro!: agrees_last)
  next
    case 4
    then show ?thesis using 1 [of 0] 1 [of 1]
      by (auto simp: write_ref_idx_mh_def read_ref_idx_mh_def bin_of_def intro!: agrees_last agrees_then)
  next
    case 5
    let ?X = "ones_then_zero (\<lambda>_. encodeBinEP) (\<lambda>idx. refIdx > idx - 1) [3..<numRef]"
    have w: "write_ref_idx_mh numRef refIdx = thenW (encodeBin 1 (Ctx Ctx_MHRefPic 0)) (thenW (encodeBin 1 (Ctx Ctx_MHRefPic 1)) ?X)"
      using 5 by (simp add: write_ref_idx_mh_def bin_of_def)
    have "agrees 536 (encodeBin 1 (Ctx Ctx_MHRefPic 0)) (decodeBin (Ctx Ctx_MHRefPic 0)) 1"
      "agrees 536 (encodeBin 1 (Ctx Ctx_MHRefPic 1)) (decodeBin (Ctx Ctx_MHRefPic 1)) 1"
      using 1 [of 0] 1 [of 1] 5 by (simp_all add: bin_of_def)
    then show ?thesis
      unfolding w read_ref_idx_mh_def using 2 5 by (auto intro!: agrees_then [where x = "1 :: nat"])
  qed
qed

definition GEO_NUM_PARTITION_MODE :: nat where "GEO_NUM_PARTITION_MODE = 64"
definition GEO_MODE_COMPRESSION_RATIO :: nat where "GEO_MODE_COMPRESSION_RATIO = 2"
definition GEO_NUM_SIG_PARTMODE :: nat where "GEO_NUM_SIG_PARTMODE = GEO_NUM_PARTITION_MODE div GEO_MODE_COMPRESSION_RATIO"
definition GEO_SPLIT_MODE_RICE_CODE_DIVISOR :: nat where "GEO_SPLIT_MODE_RICE_CODE_DIVISOR = 4"

definition write_geoModeIdx :: "nat \<Rightarrow> bool \<Rightarrow> bin_writer" where
  "write_geoModeIdx geoMode altCode =
     (if \<not> altCode then xWriteTruncBinCode geoMode GEO_NUM_PARTITION_MODE
      else let maxNumBins = GEO_NUM_SIG_PARTMODE div GEO_SPLIT_MODE_RICE_CODE_DIVISOR - 1;
               maxNumCtxBins = 5;
               geoModePrefix = geoMode div GEO_SPLIT_MODE_RICE_CODE_DIVISOR
           in seqW [
             ones_then_zero (\<lambda>binIdx binVal. if binIdx < maxNumCtxBins then encodeBin binVal (Ctx Ctx_GeoSubModeIdx binIdx)
                                            else encodeBinEP binVal)
               (\<lambda>binIdx. binIdx \<noteq> geoModePrefix) [0..<maxNumBins],
             xWriteTruncBinCode (geoMode AND (GEO_SPLIT_MODE_RICE_CODE_DIVISOR - 1)) GEO_SPLIT_MODE_RICE_CODE_DIVISOR])"

definition read_geoModeIdx :: "bool \<Rightarrow> nat bin_parser" where
  "read_geoModeIdx altCode =
     (if \<not> altCode then xReadTruncBinCode GEO_NUM_PARTITION_MODE
      else let maxNumBins = GEO_NUM_SIG_PARTMODE div GEO_SPLIT_MODE_RICE_CODE_DIVISOR - 1;
               maxNumCtxBins = 5
           in bindP (count_ones (\<lambda>binIdx. if binIdx < maxNumCtxBins then decodeBin (Ctx Ctx_GeoSubModeIdx binIdx)
                                         else decodeBinEP) maxNumBins 0) (\<lambda>geoModePrefix.
              bindP (xReadTruncBinCode GEO_SPLIT_MODE_RICE_CODE_DIVISOR) (\<lambda>geoModeSuffix.
              returnP (geoModePrefix * GEO_SPLIT_MODE_RICE_CODE_DIVISOR + geoModeSuffix))))"

lemmas geo_consts = GEO_NUM_PARTITION_MODE_def GEO_MODE_COMPRESSION_RATIO_def GEO_NUM_SIG_PARTMODE_def
  GEO_SPLIT_MODE_RICE_CODE_DIVISOR_def

lemma agrees_geoModeIdx:
  assumes "geoMode < (if altCode then GEO_NUM_SIG_PARTMODE else GEO_NUM_PARTITION_MODE)"
  shows "agrees 536 (write_geoModeIdx geoMode altCode) (read_geoModeIdx altCode) geoMode"
proof (cases altCode)
  case False
  then show ?thesis using assms agrees_trunc_bin [of geoMode 64 536]
    by (simp add: write_geoModeIdx_def read_geoModeIdx_def geo_consts)
next
  case True
  then have g: "geoMode < 32" using assms by (simp add: geo_consts)
  have m: "geoMode AND 3 = geoMode mod 4"
    using take_bit_eq_mask [of 2 geoMode] by (simp add: take_bit_eq_mod mask_eq_exp_minus_1)
  have 1: "agrees 536 (ones_then_zero (\<lambda>binIdx binVal. if binIdx < 5 then encodeBin binVal (Ctx Ctx_GeoSubModeIdx binIdx)
        else encodeBinEP binVal) (\<lambda>binIdx. binIdx \<noteq> geoMode div 4) [0..<7])
      (count_ones (\<lambda>binIdx. if binIdx < 5 then decodeBin (Ctx Ctx_GeoSubModeIdx binIdx) else decodeBinEP) 7 0) (geoMode div 4)"
    by (rule agrees_ones) (use g in \<open>auto intro!: agrees_ctx agrees_binEP\<close>)
  have 2: "agrees 536 (xWriteTruncBinCode (geoMode mod 4) 4) (xReadTruncBinCode 4) (geoMode mod 4)"
    by (rule agrees_trunc_bin) simp_all
  have 3: "agrees 536 (xWriteTruncBinCode (geoMode mod 4) 4)
      (bindP (xReadTruncBinCode 4) (\<lambda>suffix. returnP (geoMode div 4 * 4 + suffix))) geoMode"
    by (rule agrees_last [OF 2]) simp
  show ?thesis
    using True agrees_then [where q = "\<lambda>p. bindP (xReadTruncBinCode 4) (\<lambda>suffix. returnP (p * 4 + suffix))", OF 1 3]
    by (simp add: write_geoModeIdx_def read_geoModeIdx_def geo_consts Let_def m)
qed

section \<open>Offsets of the cross-component model\<close>

record CclmOffsets =
  cb0 :: int
  cr0 :: int
  cb1 :: int
  cr1 :: int

definition isActive :: "CclmOffsets \<Rightarrow> bool" where
  "isActive off \<longleftrightarrow> cb0 off \<noteq> 0 \<or> cr0 off \<noteq> 0 \<or> cb1 off \<noteq> 0 \<or> cr1 off \<noteq> 0"

definition write_cclmDelta :: "int \<Rightarrow> bin_writer" where
  "write_cclmDelta delta = ifW (delta \<noteq> 0) [
     (let deltaAbs = \<bar>delta\<bar>
      in if deltaAbs = 1 then encodeBinsEP 0 1
         else if deltaAbs = 2 then encodeBinsEP 2 2
         else if deltaAbs = 3 then encodeBinsEP 6 3
         else encodeBinsEP 7 3),
     encodeBin (bin_of (delta < 0)) (Ctx Ctx_CclmDeltaFlags 4)]"

text \<open>On entry \<open>delta\<close> is a flag.\<close>

definition read_cclmDelta :: "nat \<Rightarrow> int bin_parser" where
  "read_cclmDelta delta =
     (if delta \<noteq> 0
      then bindP (count_ones (\<lambda>_. decodeBinEP) 4 delta) (\<lambda>delta.
           bindP (decodeBin (Ctx Ctx_CclmDeltaFlags 4)) (\<lambda>sign.
           returnP (int delta * (if sign \<noteq> 0 then - 1 else 1))))
      else returnP 0)"

text \<open>The offsets of a unit that may have them; \<open>multi\<close> tells whether its mode has two models.\<close>

definition write_cclmDeltaSlope :: "bool \<Rightarrow> CclmOffsets \<Rightarrow> bin_writer" where
  "write_cclmDeltaSlope multi off = seqW [
     encodeBin (bin_of (isActive off)) (Ctx Ctx_CclmDeltaFlags 0),
     ifW (isActive off) [
       (let bothActive = cb0 off \<noteq> 0 \<and> cr0 off \<noteq> 0
        in seqW [
          encodeBin (bin_of bothActive) (Ctx Ctx_CclmDeltaFlags 3),
          ifW (\<not> bothActive) [
            encodeBin (bin_of (cb0 off \<noteq> 0)) (Ctx Ctx_CclmDeltaFlags 1),
            ifW (multi \<and> cb0 off = 0) [encodeBin (bin_of (cr0 off \<noteq> 0)) (Ctx Ctx_CclmDeltaFlags 2)]]]),
       write_cclmDelta (cb0 off),
       write_cclmDelta (cr0 off),
       ifW multi [
         (let bothActive = cb1 off \<noteq> 0 \<and> cr1 off \<noteq> 0
          in seqW [
            encodeBin (bin_of bothActive) (Ctx Ctx_CclmDeltaFlags 3),
            ifW (\<not> bothActive) [
              encodeBin (bin_of (cb1 off \<noteq> 0)) (Ctx Ctx_CclmDeltaFlags 1),
              ifW (cb1 off = 0) [
                ifW (cb0 off \<noteq> 0 \<or> cr0 off \<noteq> 0 \<or> cb1 off \<noteq> 0) [
                  encodeBin (bin_of (cr1 off \<noteq> 0)) (Ctx Ctx_CclmDeltaFlags 2)]]]]),
         write_cclmDelta (cb1 off),
         write_cclmDelta (cr1 off)]]]"

definition read_cclm_first :: "bool \<Rightarrow> (nat \<times> nat) bin_parser" where
  "read_cclm_first multi =
     bindP (decodeBin (Ctx Ctx_CclmDeltaFlags 3)) (\<lambda>bothActive.
       if bothActive \<noteq> 0 then returnP (bothActive, bothActive)
       else bindP (decodeBin (Ctx Ctx_CclmDeltaFlags 1)) (\<lambda>cb.
         if multi \<and> cb = 0 then bindP (decodeBin (Ctx Ctx_CclmDeltaFlags 2)) (\<lambda>cr. returnP (cb, cr))
         else returnP (cb, if cb = 0 then 1 else 0)))"

definition read_cclm_second :: "int \<Rightarrow> int \<Rightarrow> (nat \<times> nat) bin_parser" where
  "read_cclm_second b0 r0 =
     bindP (decodeBin (Ctx Ctx_CclmDeltaFlags 3)) (\<lambda>bothActive.
       if bothActive \<noteq> 0 then returnP (bothActive, bothActive)
       else bindP (decodeBin (Ctx Ctx_CclmDeltaFlags 1)) (\<lambda>cb.
         if cb \<noteq> 0 then returnP (cb, 0)
         else if b0 = 0 \<and> r0 = 0 \<and> cb = 0 then returnP (cb, 1)
         else bindP (decodeBin (Ctx Ctx_CclmDeltaFlags 2)) (\<lambda>cr. returnP (cb, cr))))"

definition read_cclmDeltaSlope :: "bool \<Rightarrow> CclmOffsets \<Rightarrow> CclmOffsets bin_parser" where
  "read_cclmDeltaSlope multi off =
     bindP (decodeBin (Ctx Ctx_CclmDeltaFlags 0)) (\<lambda>deltaActive.
       if deltaActive \<noteq> 0
       then bindP (read_cclm_first multi) (\<lambda>(b, r).
            bindP (read_cclmDelta b) (\<lambda>b0.
            bindP (read_cclmDelta r) (\<lambda>r0.
            if multi
            then bindP (read_cclm_second b0 r0) (\<lambda>(b, r).
                 bindP (read_cclmDelta b) (\<lambda>b1.
                 bindP (read_cclmDelta r) (\<lambda>r1.
                 returnP (off\<lparr>cb0 := b0, cr0 := r0, cb1 := b1, cr1 := r1\<rparr>))))
            else returnP (off\<lparr>cb0 := b0, cr0 := r0\<rparr>))))
       else returnP off)"

lemma count_ones_unary: "i \<le> n \<Longrightarrow> count_ones (\<lambda>_. decodeBinEP) n i = unary_eqprob_loop n i"
proof (induction "n - i" arbitrary: i)
  case 0
  then have "n = i" by simp
  then show ?case by (simp add: count_ones.simps [of _ i i] unary_eqprob_loop.simps [of i i])
next
  case (Suc m)
  then have e: "count_ones (\<lambda>_. decodeBinEP) n (i + 1) = unary_eqprob_loop n (i + 1)" and i: "i < n"
    using Suc.hyps(1) [of "i + 1"] by simp_all
  show ?case by (simp only: count_ones.simps [of _ n i] unary_eqprob_loop.simps [of n i] e i if_True)
qed

lemma agrees_cclmDelta:
  assumes "\<bar>delta\<bar> \<le> 4"
  shows "agrees 536 (write_cclmDelta delta) (read_cclmDelta (bin_of (delta \<noteq> 0))) delta"
  unfolding write_cclmDelta_def
proof (rule agrees_ifW)
  assume d: "delta \<noteq> 0"
  define a where "a = nat \<bar>delta\<bar>"
  have a: "\<bar>delta\<bar> = int a" "1 \<le> a" "a \<le> 4" using d assms by (auto simp: a_def)
  define w where "w = (if \<bar>delta\<bar> = 1 then encodeBinsEP 0 1 else if \<bar>delta\<bar> = 2 then encodeBinsEP 2 2
      else if \<bar>delta\<bar> = 3 then encodeBinsEP 6 3 else encodeBinsEP 7 3)"
  have w: "w = encodeBinsEP (if a < 4 then 2 ^ a - 2 else 2 ^ (a - 1) - 1) (if a < 4 then a else a - 1)"
    using a(2,3) unfolding w_def a(1) by (auto simp: le_Suc_eq numeral_eq_Suc)
  have 1: "agrees 536 w (unary_eqprob_loop 4 1) a"
  proof (cases "a < 4")
    case True
    have "reads_ep R (a - 1 + 1) (2 ^ (a - 1 + 1) - 2) (unary_eqprob_loop 4 1) (1 + (a - 1))" if "64 \<le> R" "R \<le> 510" for R
      using that True a by (intro reads_unary_stop) auto
    then show ?thesis unfolding w using True a
      by (intro ep_agrees [where k = a and v = "2 ^ a - 2"]) (auto intro!: emits_ep_bins)
  next
    case False
    have "reads_ep R 3 (2 ^ 3 - 1) (unary_eqprob_loop 4 1) 4" if "64 \<le> R" "R \<le> 510" for R
      using that by (intro reads_unary_full) auto
    moreover have "a = 4" using False a by simp
    ultimately show ?thesis unfolding w
      by (intro ep_agrees [where k = 3 and v = 7]) (auto intro!: emits_ep_bins)
  qed
  have 2: "agrees 536 (encodeBin (bin_of (delta < 0)) (Ctx Ctx_CclmDeltaFlags 4))
      (bindP (decodeBin (Ctx Ctx_CclmDeltaFlags 4)) (\<lambda>sign. returnP (int a * (if sign \<noteq> 0 then - 1 else 1)))) delta"
    by (rule agrees_last [OF agrees_ctx]) (auto simp: bin_of_def a_def)
  show "agrees 536 (seqW [let deltaAbs = \<bar>delta\<bar>
      in if deltaAbs = 1 then encodeBinsEP 0 1
         else if deltaAbs = 2 then encodeBinsEP 2 2
         else if deltaAbs = 3 then encodeBinsEP 6 3
         else encodeBinsEP 7 3, encodeBin (bin_of (delta < 0)) (Ctx Ctx_CclmDeltaFlags 4)])
      (read_cclmDelta (bin_of (delta \<noteq> 0))) delta"
    using agrees_then [where q = "\<lambda>a. bindP (decodeBin (Ctx Ctx_CclmDeltaFlags 4)) (\<lambda>sign. returnP (int a * (if sign \<noteq> 0 then - 1 else 1)))", OF 1 2]
    unfolding Let_def w_def [symmetric] by (simp add: read_cclmDelta_def d bin_of_def count_ones_unary)
qed (simp add: read_cclmDelta_def bin_of_def)

lemma agrees_cclm_flag:
  "k < 5 \<Longrightarrow> agrees 536 (encodeBin (bin_of b) (Ctx Ctx_CclmDeltaFlags k)) (decodeBin (Ctx Ctx_CclmDeltaFlags k)) (bin_of b)"
  by (rule agrees_ctx) simp_all

lemma agrees_cclm_first:
  assumes "multi \<or> cb \<noteq> 0 \<or> cr \<noteq> 0"
  shows "agrees 536 (seqW [
      encodeBin (bin_of (cb \<noteq> 0 \<and> cr \<noteq> 0)) (Ctx Ctx_CclmDeltaFlags 3),
      ifW (\<not> (cb \<noteq> 0 \<and> cr \<noteq> 0)) [
        encodeBin (bin_of (cb \<noteq> 0)) (Ctx Ctx_CclmDeltaFlags 1),
        ifW (multi \<and> cb = 0) [encodeBin (bin_of (cr \<noteq> 0)) (Ctx Ctx_CclmDeltaFlags 2)]]])
    (read_cclm_first multi) (bin_of (cb \<noteq> (0 :: int)), bin_of (cr \<noteq> (0 :: int)))"
  unfolding read_cclm_first_def
proof (rule agrees_bind [OF agrees_cclm_flag])
  have 3: "agrees 536 (ifW (multi \<and> cb = 0) [encodeBin (bin_of (cr \<noteq> 0)) (Ctx Ctx_CclmDeltaFlags 2)])
      (if multi \<and> bin_of (cb \<noteq> 0) = 0 then bindP (decodeBin (Ctx Ctx_CclmDeltaFlags 2)) (\<lambda>cr. returnP (bin_of (cb \<noteq> 0), cr))
       else returnP (bin_of (cb \<noteq> 0), if bin_of (cb \<noteq> 0) = 0 then 1 else 0)) (bin_of (cb \<noteq> 0), bin_of (cr \<noteq> 0))"
    if "\<not> (cb \<noteq> 0 \<and> cr \<noteq> 0)"
    using that assms agrees_last [OF agrees_cclm_flag [of 2 "cr \<noteq> 0"], where q = "\<lambda>cr. returnP (0 :: nat, cr)", OF _ refl]
    by (intro agrees_ifW) (auto simp: bin_of_def)
  show "agrees 536 (seqW [ifW (\<not> (cb \<noteq> 0 \<and> cr \<noteq> 0)) [
        encodeBin (bin_of (cb \<noteq> 0)) (Ctx Ctx_CclmDeltaFlags 1),
        ifW (multi \<and> cb = 0) [encodeBin (bin_of (cr \<noteq> 0)) (Ctx Ctx_CclmDeltaFlags 2)]]])
     (if bin_of (cb \<noteq> 0 \<and> cr \<noteq> 0) \<noteq> 0 then returnP (bin_of (cb \<noteq> 0 \<and> cr \<noteq> 0), bin_of (cb \<noteq> 0 \<and> cr \<noteq> 0))
       else bindP (decodeBin (Ctx Ctx_CclmDeltaFlags 1)) (\<lambda>cb.
         if multi \<and> cb = 0 then bindP (decodeBin (Ctx Ctx_CclmDeltaFlags 2)) (\<lambda>cr. returnP (cb, cr))
         else returnP (cb, if cb = 0 then 1 else 0))) (bin_of (cb \<noteq> 0), bin_of (cr \<noteq> 0))"
    unfolding seqW.simps thenW_skip
  proof (rule agrees_ifW)
    assume n: "\<not> (cb \<noteq> 0 \<and> cr \<noteq> 0)"
    then have "bin_of (cb \<noteq> 0 \<and> cr \<noteq> 0) = 0" by (simp add: bin_of_def)
    then show "agrees 536 (seqW [encodeBin (bin_of (cb \<noteq> 0)) (Ctx Ctx_CclmDeltaFlags 1),
        ifW (multi \<and> cb = 0) [encodeBin (bin_of (cr \<noteq> 0)) (Ctx Ctx_CclmDeltaFlags 2)]])
     (if bin_of (cb \<noteq> 0 \<and> cr \<noteq> 0) \<noteq> 0 then returnP (bin_of (cb \<noteq> 0 \<and> cr \<noteq> 0), bin_of (cb \<noteq> 0 \<and> cr \<noteq> 0))
       else bindP (decodeBin (Ctx Ctx_CclmDeltaFlags 1)) (\<lambda>cb.
         if multi \<and> cb = 0 then bindP (decodeBin (Ctx Ctx_CclmDeltaFlags 2)) (\<lambda>cr. returnP (cb, cr))
         else returnP (cb, if cb = 0 then 1 else 0))) (bin_of (cb \<noteq> 0), bin_of (cr \<noteq> 0))"
      using 3 [OF n] by (simp only: if_False simp_thms) (rule agrees_bind [OF agrees_cclm_flag], simp_all)
  qed (simp add: bin_of_def)
qed simp

lemma agrees_cclm_second:
  assumes "b0 \<noteq> 0 \<or> r0 \<noteq> 0 \<or> cb \<noteq> 0 \<or> cr \<noteq> 0"
  shows "agrees 536 (seqW [
      encodeBin (bin_of (cb \<noteq> 0 \<and> cr \<noteq> 0)) (Ctx Ctx_CclmDeltaFlags 3),
      ifW (\<not> (cb \<noteq> 0 \<and> cr \<noteq> 0)) [
        encodeBin (bin_of (cb \<noteq> 0)) (Ctx Ctx_CclmDeltaFlags 1),
        ifW (cb = 0) [
          ifW (b0 \<noteq> 0 \<or> r0 \<noteq> 0 \<or> cb \<noteq> 0) [encodeBin (bin_of (cr \<noteq> 0)) (Ctx Ctx_CclmDeltaFlags 2)]]]])
    (read_cclm_second b0 r0) (bin_of (cb \<noteq> (0 :: int)), bin_of (cr \<noteq> (0 :: int)))"
  unfolding read_cclm_second_def
proof (rule agrees_bind [OF agrees_cclm_flag])
  define q where "q = (\<lambda>cb :: nat. if cb \<noteq> 0 then returnP (cb, 0)
         else if b0 = 0 \<and> r0 = 0 \<and> cb = 0 then returnP (cb, 1 :: nat)
         else bindP (decodeBin (Ctx Ctx_CclmDeltaFlags 2)) (\<lambda>cr. returnP (cb, cr)))"
  define ws where "ws = ifW (cb = 0) [
          ifW (b0 \<noteq> 0 \<or> r0 \<noteq> 0 \<or> cb \<noteq> 0) [encodeBin (bin_of (cr \<noteq> 0)) (Ctx Ctx_CclmDeltaFlags 2)]]"
  have 3: "agrees 536 ws (q (bin_of (cb \<noteq> 0))) (bin_of (cb \<noteq> 0), bin_of (cr \<noteq> 0))" if "\<not> (cb \<noteq> 0 \<and> cr \<noteq> 0)"
    using that assms agrees_last [OF agrees_cclm_flag [of 2 "cr \<noteq> 0"], where q = "\<lambda>cr. returnP (0 :: nat, cr)", OF _ refl]
    unfolding ws_def q_def by (auto simp: bin_of_def ifW_def agrees_skip)
  show "agrees 536 (seqW [ifW (\<not> (cb \<noteq> 0 \<and> cr \<noteq> 0)) [
        encodeBin (bin_of (cb \<noteq> 0)) (Ctx Ctx_CclmDeltaFlags 1), ws]])
     (if bin_of (cb \<noteq> 0 \<and> cr \<noteq> 0) \<noteq> 0 then returnP (bin_of (cb \<noteq> 0 \<and> cr \<noteq> 0), bin_of (cb \<noteq> 0 \<and> cr \<noteq> 0))
       else bindP (decodeBin (Ctx Ctx_CclmDeltaFlags 1)) q) (bin_of (cb \<noteq> 0), bin_of (cr \<noteq> 0))"
    unfolding seqW.simps thenW_skip
  proof (rule agrees_ifW)
    assume n: "\<not> (cb \<noteq> 0 \<and> cr \<noteq> 0)"
    then have "bin_of (cb \<noteq> 0 \<and> cr \<noteq> 0) = 0" by (simp add: bin_of_def)
    moreover have "agrees 536 (seqW [encodeBin (bin_of (cb \<noteq> 0)) (Ctx Ctx_CclmDeltaFlags 1), ws])
        (bindP (decodeBin (Ctx Ctx_CclmDeltaFlags 1)) q) (bin_of (cb \<noteq> 0), bin_of (cr \<noteq> 0))"
      by (rule agrees_bind [OF agrees_cclm_flag]) (use 3 [OF n] in simp_all)
    ultimately show "agrees 536 (seqW [encodeBin (bin_of (cb \<noteq> 0)) (Ctx Ctx_CclmDeltaFlags 1), ws])
     (if bin_of (cb \<noteq> 0 \<and> cr \<noteq> 0) \<noteq> 0 then returnP (bin_of (cb \<noteq> 0 \<and> cr \<noteq> 0), bin_of (cb \<noteq> 0 \<and> cr \<noteq> 0))
       else bindP (decodeBin (Ctx Ctx_CclmDeltaFlags 1)) q) (bin_of (cb \<noteq> 0), bin_of (cr \<noteq> 0))"
      by (simp only: if_False simp_thms)
  qed (simp add: bin_of_def)
qed simp

definition cclm_valid :: "bool \<Rightarrow> CclmOffsets \<Rightarrow> bool" where
  "cclm_valid multi off \<longleftrightarrow> \<bar>cb0 off\<bar> \<le> 4 \<and> \<bar>cr0 off\<bar> \<le> 4 \<and> \<bar>cb1 off\<bar> \<le> 4 \<and> \<bar>cr1 off\<bar> \<le> 4
     \<and> (\<not> multi \<longrightarrow> cb1 off = 0 \<and> cr1 off = 0)"

definition zero_offsets :: CclmOffsets where
  "zero_offsets = \<lparr>cb0 = 0, cr0 = 0, cb1 = 0, cr1 = 0\<rparr>"

lemma agrees_cclmDeltaSlope:
  assumes v: "cclm_valid multi off"
  shows "agrees 536 (write_cclmDeltaSlope multi off) (read_cclmDeltaSlope multi zero_offsets) off"
  unfolding write_cclmDeltaSlope_def read_cclmDeltaSlope_def
proof (rule agrees_bind [OF agrees_cclm_flag])
  note d = agrees_cclmDelta
  define q2 where "q2 = (\<lambda>b0 r0. if multi
            then bindP (read_cclm_second b0 r0) (\<lambda>(b, r).
                 bindP (read_cclmDelta b) (\<lambda>b1.
                 bindP (read_cclmDelta r) (\<lambda>r1.
                 returnP (zero_offsets\<lparr>cb0 := b0, cr0 := r0, cb1 := b1, cr1 := r1\<rparr>))))
            else returnP (zero_offsets\<lparr>cb0 := b0, cr0 := r0\<rparr>))"
  define w2 where "w2 = ifW multi [
         (let bothActive = cb1 off \<noteq> 0 \<and> cr1 off \<noteq> 0
          in seqW [
            encodeBin (bin_of bothActive) (Ctx Ctx_CclmDeltaFlags 3),
            ifW (\<not> bothActive) [
              encodeBin (bin_of (cb1 off \<noteq> 0)) (Ctx Ctx_CclmDeltaFlags 1),
              ifW (cb1 off = 0) [
                ifW (cb0 off \<noteq> 0 \<or> cr0 off \<noteq> 0 \<or> cb1 off \<noteq> 0) [
                  encodeBin (bin_of (cr1 off \<noteq> 0)) (Ctx Ctx_CclmDeltaFlags 2)]]]]),
         write_cclmDelta (cb1 off),
         write_cclmDelta (cr1 off)]"
  have off: "zero_offsets\<lparr>cb0 := cb0 off, cr0 := cr0 off, cb1 := cb1 off, cr1 := cr1 off\<rparr> = off"
    "\<not> multi \<Longrightarrow> zero_offsets\<lparr>cb0 := cb0 off, cr0 := cr0 off\<rparr> = off"
    using v by (simp_all add: zero_offsets_def cclm_valid_def)
  have 2: "agrees 536 w2 (q2 (cb0 off) (cr0 off)) off" if "isActive off"
    unfolding w2_def q2_def Let_def
  proof (rule agrees_ifW)
    assume multi
    then show "agrees 536 (seqW [seqW [
            encodeBin (bin_of (cb1 off \<noteq> 0 \<and> cr1 off \<noteq> 0)) (Ctx Ctx_CclmDeltaFlags 3),
            ifW (\<not> (cb1 off \<noteq> 0 \<and> cr1 off \<noteq> 0)) [
              encodeBin (bin_of (cb1 off \<noteq> 0)) (Ctx Ctx_CclmDeltaFlags 1),
              ifW (cb1 off = 0) [
                ifW (cb0 off \<noteq> 0 \<or> cr0 off \<noteq> 0 \<or> cb1 off \<noteq> 0) [
                  encodeBin (bin_of (cr1 off \<noteq> 0)) (Ctx Ctx_CclmDeltaFlags 2)]]]],
         write_cclmDelta (cb1 off), write_cclmDelta (cr1 off)])
      (if multi
            then bindP (read_cclm_second (cb0 off) (cr0 off)) (\<lambda>(b, r).
                 bindP (read_cclmDelta b) (\<lambda>b1.
                 bindP (read_cclmDelta r) (\<lambda>r1.
                 returnP (zero_offsets\<lparr>cb0 := cb0 off, cr0 := cr0 off, cb1 := b1, cr1 := r1\<rparr>))))
            else returnP (zero_offsets\<lparr>cb0 := cb0 off, cr0 := cr0 off\<rparr>)) off"
      unfolding if_P [OF \<open>multi\<close>]
    proof (intro agrees_bind [OF agrees_cclm_second])
      show "cb0 off \<noteq> 0 \<or> cr0 off \<noteq> 0 \<or> cb1 off \<noteq> 0 \<or> cr1 off \<noteq> 0" using that by (simp add: isActive_def)
      show "agrees 536 (seqW [write_cclmDelta (cb1 off), write_cclmDelta (cr1 off)])
        (case (bin_of (cb1 off \<noteq> 0), bin_of (cr1 off \<noteq> 0)) of (b, r) \<Rightarrow>
                 bindP (read_cclmDelta b) (\<lambda>b1.
                 bindP (read_cclmDelta r) (\<lambda>r1.
                 returnP (zero_offsets\<lparr>cb0 := cb0 off, cr0 := cr0 off, cb1 := b1, cr1 := r1\<rparr>)))) off"
        unfolding prod.case by (intro agrees_bind [OF d]) (use v in \<open>simp_all add: cclm_valid_def off(1) agrees_skip\<close>)
    qed
  qed (simp add: off)
  define w1 where "w1 = seqW [
          encodeBin (bin_of (cb0 off \<noteq> 0 \<and> cr0 off \<noteq> 0)) (Ctx Ctx_CclmDeltaFlags 3),
          ifW (\<not> (cb0 off \<noteq> 0 \<and> cr0 off \<noteq> 0)) [
            encodeBin (bin_of (cb0 off \<noteq> 0)) (Ctx Ctx_CclmDeltaFlags 1),
            ifW (multi \<and> cb0 off = 0) [encodeBin (bin_of (cr0 off \<noteq> 0)) (Ctx Ctx_CclmDeltaFlags 2)]]]"
  have main: "agrees 536 (ifW (isActive off) [w1, write_cclmDelta (cb0 off), write_cclmDelta (cr0 off), w2])
      (if bin_of (isActive off) \<noteq> 0
       then bindP (read_cclm_first multi) (\<lambda>(b, r).
            bindP (read_cclmDelta b) (\<lambda>b0. bindP (read_cclmDelta r) (\<lambda>r0. q2 b0 r0)))
       else returnP zero_offsets) off"
  proof (rule agrees_ifW)
    assume act: "isActive off"
    have "agrees 536 w1 (read_cclm_first multi) (bin_of (cb0 off \<noteq> 0), bin_of (cr0 off \<noteq> 0))"
      unfolding w1_def using act v by (intro agrees_cclm_first) (auto simp: isActive_def cclm_valid_def)
    then have "agrees 536 (seqW [w1, write_cclmDelta (cb0 off), write_cclmDelta (cr0 off), w2])
      (bindP (read_cclm_first multi) (\<lambda>(b, r).
            bindP (read_cclmDelta b) (\<lambda>b0. bindP (read_cclmDelta r) (\<lambda>r0. q2 b0 r0)))) off"
    proof (rule agrees_bind)
      show "agrees 536 (seqW [write_cclmDelta (cb0 off), write_cclmDelta (cr0 off), w2])
        (case (bin_of (cb0 off \<noteq> 0), bin_of (cr0 off \<noteq> 0)) of (b, r) \<Rightarrow>
            bindP (read_cclmDelta b) (\<lambda>b0. bindP (read_cclmDelta r) (\<lambda>r0. q2 b0 r0))) off"
        unfolding prod.case by (intro agrees_bind [OF d]) (use v 2 [OF act] in \<open>simp_all add: cclm_valid_def\<close>)
    qed
    then show "agrees 536 (seqW [w1, write_cclmDelta (cb0 off), write_cclmDelta (cr0 off), w2])
      (if bin_of (isActive off) \<noteq> 0
       then bindP (read_cclm_first multi) (\<lambda>(b, r).
            bindP (read_cclmDelta b) (\<lambda>b0. bindP (read_cclmDelta r) (\<lambda>r0. q2 b0 r0)))
       else returnP zero_offsets) off" using act by simp
  next
    assume "\<not> isActive off"
    then show "(if bin_of (isActive off) \<noteq> 0
       then bindP (read_cclm_first multi) (\<lambda>(b, r).
            bindP (read_cclmDelta b) (\<lambda>b0. bindP (read_cclmDelta r) (\<lambda>r0. q2 b0 r0)))
       else returnP zero_offsets) = returnP off" by (cases off) (simp add: isActive_def zero_offsets_def)
  qed
  then show "agrees 536 (seqW [ifW (isActive off) [
       (let bothActive = cb0 off \<noteq> 0 \<and> cr0 off \<noteq> 0
        in seqW [
          encodeBin (bin_of bothActive) (Ctx Ctx_CclmDeltaFlags 3),
          ifW (\<not> bothActive) [
            encodeBin (bin_of (cb0 off \<noteq> 0)) (Ctx Ctx_CclmDeltaFlags 1),
            ifW (multi \<and> cb0 off = 0) [encodeBin (bin_of (cr0 off \<noteq> 0)) (Ctx Ctx_CclmDeltaFlags 2)]]]),
       write_cclmDelta (cb0 off), write_cclmDelta (cr0 off), w2]])
      (if bin_of (isActive off) \<noteq> 0
       then bindP (read_cclm_first multi) (\<lambda>(b, r).
            bindP (read_cclmDelta b) (\<lambda>b0. bindP (read_cclmDelta r) (\<lambda>r0. q2 b0 r0)))
       else returnP zero_offsets) off"
    unfolding Let_def w1_def [symmetric] unfolding seqW.simps thenW_skip .
qed simp

section \<open>All elements in one slice\<close>

text \<open>What both sides know of the next element, its value, and which values it can take.\<close>

datatype element = UnaryMax nat nat nat | UnaryBypass nat | ExpGolomb nat | TruncBin nat | UnaryFixed nat nat nat
  | MotionVectorDiff nat bool | BlockVectorDiff | QpDelta nat int | ChromaQpOffset nat | RefIdxMh nat | GeoMode bool
  | CclmSlope bool

datatype element_value = Number nat | Signed int | Vector "int \<times> int" | Cclm CclmOffsets

fun write_element :: "element \<Rightarrow> element_value \<Rightarrow> bin_writer" where
  "write_element (UnaryMax c0 cN m) (Number n) = write_unary_max_symbol n c0 cN m"
| "write_element (UnaryBypass m) (Number n) = write_unary_max_eqprob n m"
| "write_element (ExpGolomb k) (Number n) = write_exp_golomb_eqprob n k"
| "write_element (TruncBin m) (Number n) = xWriteTruncBinCode n m"
| "write_element (UnaryFixed c m k) (Number n) = write_code_unary_fixed n c m k"
| "write_element (MotionVectorDiff imv codeSign) (Vector v) = write_mvd_coding v imv codeSign"
| "write_element BlockVectorDiff (Vector v) = write_bvdCoding v"
| "write_element (QpDelta off predQP) (Signed qp) = write_cu_qp_delta off predQP qp"
| "write_element (ChromaQpOffset l) (Number n) = write_cu_chroma_qp_offset l n"
| "write_element (RefIdxMh numRef) (Number n) = write_ref_idx_mh numRef n"
| "write_element (GeoMode alt) (Number n) = write_geoModeIdx n alt"
| "write_element (CclmSlope multi) (Cclm c) = write_cclmDeltaSlope multi c"
| "write_element _ _ = failW UndefinedBehaviour"

definition mapP :: "('a \<Rightarrow> 'b) \<Rightarrow> 'a bin_parser \<Rightarrow> 'b bin_parser" where
  "mapP f p = bindP p (\<lambda>a. returnP (f a))"

text \<open>
  A motion vector difference is read at the precision it was written with. The reader's \<open>mvd_coding\<close> leaves the
  shift back to its caller, and every call of the writer passes the precision 0, for which there is none.
\<close>

definition mvd_shift :: "nat \<Rightarrow> nat" where
  "mvd_shift imv = (if imv = 0 then 0 else if imv = IMV_HPEL then 1 else if imv = IMV_4PEL then 4 else 2)"

fun read_element :: "element \<Rightarrow> element_value bin_parser" where
  "read_element (UnaryMax c0 cN m) = mapP Number (read_unary_max_symbol c0 cN m)"
| "read_element (UnaryBypass m) = mapP Number (read_unary_max_eqprob m)"
| "read_element (ExpGolomb k) = mapP Number (read_exp_golomb_eqprob k)"
| "read_element (TruncBin m) = mapP Number (xReadTruncBinCode m)"
| "read_element (UnaryFixed c m k) = mapP Number (read_code_unary_fixed c m k)"
| "read_element (MotionVectorDiff imv codeSign) =
     mapP (\<lambda>(h, v). Vector (push_bit (mvd_shift imv) h, push_bit (mvd_shift imv) v)) (read_mvd_coding codeSign)"
| "read_element BlockVectorDiff = mapP Vector read_bvdCoding"
| "read_element (QpDelta off predQP) = mapP Signed (read_cu_qp_delta off predQP)"
| "read_element (ChromaQpOffset l) = mapP Number (read_cu_chroma_qp_offset l)"
| "read_element (RefIdxMh numRef) = mapP Number (read_ref_idx_mh numRef)"
| "read_element (GeoMode alt) = mapP Number (read_geoModeIdx alt)"
| "read_element (CclmSlope multi) = mapP Cclm (read_cclmDeltaSlope multi zero_offsets)"

definition mvd_legal :: "nat \<Rightarrow> int \<Rightarrow> bool" where
  "mvd_legal imv v \<longleftrightarrow> v mod 2 ^ mvd_shift imv = 0 \<and> \<bar>drop_bit (mvd_shift imv) v\<bar> \<le> MVD_MAX"

fun element_valid :: "nat \<Rightarrow> element \<Rightarrow> element_value \<Rightarrow> bool" where
  "element_valid N (UnaryMax c0 cN m) (Number n) \<longleftrightarrow> N = 536 \<and> c0 < 536 \<and> cN < 536 \<and> n \<le> m \<and> m < 2 ^ 32 - 1"
| "element_valid N (UnaryBypass m) (Number n) \<longleftrightarrow> N = 536 \<and> n \<le> m \<and> min (n + 1) m \<le> 32"
| "element_valid N (ExpGolomb k) (Number n) \<longleftrightarrow> N = 536 \<and> k < 31 \<and> n < 2 ^ 31 - 2 ^ k"
| "element_valid N (TruncBin m) (Number n) \<longleftrightarrow> N = 536 \<and> n < m \<and> m < 2 ^ 30"
| "element_valid N (UnaryFixed c m k) (Number n) \<longleftrightarrow>
     N = 536 \<and> c < 536 \<and> k \<le> 31 \<and> m < 32 \<and> n < m + 1 + 2 ^ k"
| "element_valid N (MotionVectorDiff imv codeSign) (Vector v) \<longleftrightarrow> N = 536 \<and> imv \<le> 3 \<and>
     mvd_legal imv (fst v) \<and> mvd_legal imv (snd v) \<and> (codeSign \<or> 0 \<le> fst v \<and> 0 \<le> snd v)"
| "element_valid N BlockVectorDiff (Vector v) \<longleftrightarrow> N = 536 \<and> \<bar>fst v\<bar> \<le> MVD_MAX \<and> \<bar>snd v\<bar> \<le> MVD_MAX"
| "element_valid N (QpDelta off predQP) (Signed qp) \<longleftrightarrow> N = 536 \<and> off \<le> 64 \<and> qp_legal off predQP \<and> qp_legal off qp"
| "element_valid N (ChromaQpOffset l) (Number n) \<longleftrightarrow> N = 536 \<and> l \<le> 64 \<and> n \<le> max 1 l"
| "element_valid N (RefIdxMh numRef) (Number n) \<longleftrightarrow> N = 536 \<and> n < max 1 numRef"
| "element_valid N (GeoMode alt) (Number n) \<longleftrightarrow> N = 536 \<and> n < (if alt then GEO_NUM_SIG_PARTMODE else GEO_NUM_PARTITION_MODE)"
| "element_valid N (CclmSlope multi) (Cclm c) \<longleftrightarrow> N = 536 \<and> cclm_valid multi c"
| "element_valid _ _ _ \<longleftrightarrow> False"

lemma agrees_mapP:
  assumes "agrees N w p x" and "f x = v"
  shows "agrees N w (mapP f p) v"
  unfolding mapP_def by (rule agrees_last [OF assms(1)]) (simp add: assms(2))

lemma mvd_round_ok:
  assumes "imv \<le> 3" "h mod 2 ^ mvd_shift imv = 0" "v mod 2 ^ mvd_shift imv = 0"
  shows "mvd_round imv (h, v) = Inr (drop_bit (mvd_shift imv) h, drop_bit (mvd_shift imv) v)"
proof -
  have 2: "drop_bit 1 (drop_bit 1 x) = drop_bit 2 x" "drop_bit 2 (drop_bit 2 x) = drop_bit 4 x"
    "drop_bit (Suc 0) (drop_bit (Suc 0) x) = drop_bit 2 x" for x :: int
    by (simp_all only: drop_bit_drop_bit) (simp_all add: numeral_eq_Suc)
  have m: "x mod 4 = 0 \<Longrightarrow> x mod 2 = 0 \<and> drop_bit 1 x mod 2 = 0"
    "x mod 16 = 0 \<Longrightarrow> x mod 2 = 0 \<and> drop_bit 1 x mod 2 = 0 \<and> drop_bit 2 x mod 4 = 0" for x :: int
    unfolding drop_bit_eq_div by (simp; presburger)+
  have "imv = 0 \<or> imv = 1 \<or> imv = 2 \<or> imv = 3" using assms(1) by auto
  then show ?thesis
    using assms(2,3) m(1) [of h] m(1) [of v] m(2) [of h] m(2) [of v]
    by (elim disjE) (simp_all add: mvd_round_def mvd_shift_def IMV_HPEL_def IMV_4PEL_def Let_def 2 del: drop_bit_drop_bit)
qed

lemma agrees_element: "element_valid N k x \<Longrightarrow> agrees N (write_element k x) (read_element k) x"
proof (induction N k x rule: element_valid.induct)
  case (6 N imv codeSign v)
  obtain h w where v: "v = (h, w)" by (cases v)
  have hw: "mvd_legal imv h" "mvd_legal imv w" "imv \<le> 3" "codeSign \<or> 0 \<le> h \<and> 0 \<le> w" "N = 536" using 6 by (simp_all add: v)
  then have "mvd_round imv v = Inr (drop_bit (mvd_shift imv) h, drop_bit (mvd_shift imv) w)"
    unfolding v by (intro mvd_round_ok) (simp_all add: mvd_legal_def)
  moreover have "push_bit s (drop_bit s x) = x" if "x mod 2 ^ s = 0" for s and x :: int
    using that by (simp add: push_bit_eq_mult drop_bit_eq_div) (metis dvd_imp_mod_0 dvd_mult_div_cancel mod_0_imp_dvd mult.commute)
  moreover have "0 \<le> x \<Longrightarrow> 0 \<le> drop_bit s x" for s and x :: int by simp
  ultimately show ?case using hw agrees_mvd [of imv v "drop_bit (mvd_shift imv) h" "drop_bit (mvd_shift imv) w" codeSign]
    by (auto simp: v mvd_legal_def intro!: agrees_mapP)
next
  case (7 N v)
  then show ?case by (cases v) (auto intro!: agrees_mapP agrees_bvd)
next
  case (3 N k n)
  then obtain m where "golomb_class k m \<le> n" "n < golomb_class k (Suc m)" "k + m < 31"
    using golomb_class_small [of n k] by auto
  then show ?case using 3 by (auto intro!: agrees_mapP agrees_exp_golomb)
next
  case (5 N c m k n)
  have "(2 :: nat) ^ k \<le> 2 ^ 31" using 5 by (intro power_increasing) auto
  then show ?case using 5 by (auto intro!: agrees_mapP agrees_code_unary_fixed)
qed (auto intro!: agrees_mapP agrees_unary_max_symbol agrees_unary_max_eqprob agrees_trunc_bin agrees_qp_delta
    agrees_chroma_qp_offset agrees_ref_idx_mh agrees_geoModeIdx agrees_cclmDeltaSlope)

interpretation elements: bin_codec write_element read_element element_valid
  by unfold_locales (rule agrees_element)

text \<open>
  C27: Every sequence of these syntax elements survives the arithmetic coder. Unary, Exp-Golomb, truncated
  binary and mixed codes, motion vector differences at all four precisions, block vector differences,
  quantisation parameters, reference indices, geometric partitions and cross-component offsets written
  between the start and the end of a slice are read back, each by the reader of its kind, and the decoder
  finds the end of the slice.
\<close>

theorem syntax_elements_roundtrip:
  assumes "list_all2 (element_valid 536) ks xs" and "models_ok 536 e"
    and "e_Bitstream e = new_out" and "d_Ctx d = e_Ctx e"
  shows "\<exists>e' s d1 d2. thenW (seqW (map2 write_element ks xs)) end_of_slice (enc_start e) = Inr e'
    \<and> writeByteAlignment (e_Bitstream e') = Inr s
    \<and> dec_start (d\<lparr>d_Bitstream := new_in (out_fifo s)\<rparr>) = Inr d1
    \<and> bindP (seqP (map read_element ks)) (\<lambda>ys. bindP terminating_bit (\<lambda>t. returnP (ys, t))) d1
        = Inr ((xs, True), d2)
    \<and> remaining_bytes True d2 = Inr d2"
  using assms by (rule elements.codeword)

definition sample_models_encoder :: BinEncoder where
  "sample_models_encoder = sample_encoder\<lparr>e_Ctx := replicate 536 new_BinProbModel, e_NumBinsCtx := replicate 536 0\<rparr>"

definition sample_elements :: "(element \<times> element_value) list" where
  "sample_elements =
    [(MotionVectorDiff 2 True, Vector (- 160, 48)), (MotionVectorDiff 0 True, Vector (3, 0)),
     (BlockVectorDiff, Vector (- 17, 1)), (QpDelta 12 30, Signed (- 9)), (ChromaQpOffset 3, Number 2),
     (RefIdxMh 4, Number 2), (GeoMode True, Number 31), (GeoMode False, Number 63), (TruncBin 67, Number 45),
     (ExpGolomb 1, Number 1000), (UnaryFixed 7 3 4, Number 9),
     (CclmSlope True, Cclm \<lparr>cb0 = 0, cr0 = - 2, cb1 = 4, cr1 = 0\<rparr>)]"

lemma sample_elements_valid: "list_all2 (element_valid 536) (map fst sample_elements) (map snd sample_elements)"
  by (simp add: sample_elements_def mvd_legal_def mvd_shift_def IMV_HPEL_def IMV_4PEL_def MVD_MAX_def qp_legal_def
      MAX_QP_def geo_consts cclm_valid_def drop_bit_eq_div)

theorem syntax_elements_roundtrip_witness:
  "\<exists>e' s d1 d2. thenW (seqW (map2 write_element (map fst sample_elements) (map snd sample_elements))) end_of_slice
        (enc_start sample_models_encoder) = Inr e'
    \<and> writeByteAlignment (e_Bitstream e') = Inr s
    \<and> dec_start (sample_decoder\<lparr>d_Ctx := replicate 536 new_BinProbModel, d_Bitstream := new_in (out_fifo s)\<rparr>) = Inr d1
    \<and> bindP (seqP (map read_element (map fst sample_elements))) (\<lambda>ys. bindP terminating_bit (\<lambda>t. returnP (ys, t))) d1
        = Inr ((map snd sample_elements, True), d2)
    \<and> remaining_bytes True d2 = Inr d2"
proof -
  have m: "models_ok 536 sample_models_encoder"
    by (simp add: models_ok_def sample_models_encoder_def sample_encoder_def ctx_ok_def list_all_iff bpm_ok_new)
  show ?thesis
    using syntax_elements_roundtrip [OF sample_elements_valid m, of "sample_decoder\<lparr>d_Ctx := replicate 536 new_BinProbModel\<rparr>"]
    by (simp add: sample_models_encoder_def sample_encoder_def)
qed

text \<open>
  The difference of two legal quantisation parameters is folded into half the range of the parameters
  on both sides, and the decoder, which adds it modulo the size of that range, gets the parameter back.
\<close>

theorem qp_difference_reconstructs:
  assumes "off \<le> 64" and "qp_legal off predQP" and "qp_legal off qp"
  shows "qp_reconstruct off predQP (qp_difference off predQP qp) = qp
    \<and> - (32 + int off div 2) \<le> qp_difference off predQP qp \<and> qp_difference off predQP qp < 32 + int off div 2 + int off mod 2"
proof -
  have "qp_difference off predQP qp
      = (qp - predQP + (64 + int off) + (32 + int off div 2)) mod (64 + int off) - (32 + int off div 2)"
    by (rule qp_difference_eq [OF assms(2,3) refl refl])
  moreover have "0 \<le> (qp - predQP + (64 + int off) + (32 + int off div 2)) mod (64 + int off)"
    "(qp - predQP + (64 + int off) + (32 + int off div 2)) mod (64 + int off) < 64 + int off" by simp_all
  moreover have "int off = 2 * (int off div 2) + int off mod 2" by simp
  ultimately show ?thesis using qp_difference_ok(1) [OF assms] by linarith
qed

theorem qp_difference_reconstructs_witness:
  "qp_reconstruct 12 30 (qp_difference 12 30 (- 9)) = - 9"
  using qp_difference_reconstructs [of 12 30 "- 9"] by (simp add: qp_legal_def MAX_QP_def)

text \<open>
  The checks of \<open>mvd_coding\<close> that a difference is a multiple of its precision are too weak: they fail
  only when both components are off. With a horizontal component that is a multiple, any vertical one
  passes and loses its low bits silently.
\<close>

theorem mvd_check_misses_one_component:
  assumes "hor mod 4 = 0"
  shows "mvd_round IMV_FPEL (hor, ver) = Inr (hor div 4, ver div 4)"
proof -
  have "hor mod 2 = 0" "(hor div 2) mod 2 = 0" using assms by presburger+
  moreover have "x div 2 div 2 = x div 4" for x :: int by (simp add: zdiv_zmult2_eq [symmetric])
  ultimately show ?thesis
    by (simp add: mvd_round_def IMV_FPEL_def IMV_HPEL_def IMV_4PEL_def Let_def drop_bit_eq_div)
qed

theorem mvd_check_misses_one_component_witness: "mvd_round IMV_FPEL (8, 7) = Inr (2, 1)"
  using mvd_check_misses_one_component [of 8 7] by simp

end
