(* ===== verification/TransformTables.thy ===== *)
theory TransformTables
  imports ECM_Prelude
begin

text \<open>
  The integer transform matrices of \<open>source/Lib/CommonLib/RomTr.cpp\<close>: every matrix is a macro over its
  coefficients, instantiated once per direction. The types up to 64 points for the cosine transform II and
  up to 32 points for the cosine transform VIII and the sine transform VII are here; the larger matrices are
  literal tables or are computed with floating point numbers when the program starts.
\<close>

definition TRANSFORM_FORWARD :: nat where "TRANSFORM_FORWARD = 0"
definition TRANSFORM_INVERSE :: nat where "TRANSFORM_INVERSE = 1"

definition DEFINE_DCT2_P2_MATRIX ::
  "int \<Rightarrow> int list list" where
  "DEFINE_DCT2_P2_MATRIX a0 =
    [[a0, a0],
     [a0, - a0]]"

definition g_trCoreDCT2P2 :: "int list list list" where
  "g_trCoreDCT2P2 = [
     DEFINE_DCT2_P2_MATRIX 64,
     DEFINE_DCT2_P2_MATRIX 64]"

definition DEFINE_DCT2_P4_MATRIX ::
  "int \<Rightarrow> int \<Rightarrow> int \<Rightarrow> int list list" where
  "DEFINE_DCT2_P4_MATRIX a0 b c =
    [[a0, a0, a0, a0],
     [b, c, - c, - b],
     [a0, - a0, - a0, a0],
     [c, - b, b, - c]]"

definition g_trCoreDCT2P4 :: "int list list list" where
  "g_trCoreDCT2P4 = [
     DEFINE_DCT2_P4_MATRIX 64 83 36,
     DEFINE_DCT2_P4_MATRIX 64 83 36]"

definition DEFINE_DCT2_P8_MATRIX ::
  "int \<Rightarrow> int \<Rightarrow> int \<Rightarrow> int \<Rightarrow> int \<Rightarrow> int \<Rightarrow>
  int \<Rightarrow> int list list" where
  "DEFINE_DCT2_P8_MATRIX a0 b c d e f g =
    [[a0, a0, a0, a0, a0, a0, a0, a0],
     [d, e, f, g, - g, - f, - e, - d],
     [b, c, - c, - b, - b, - c, c, b],
     [e, - g, - d, - f, f, d, g, - e],
     [a0, - a0, - a0, a0, a0, - a0, - a0, a0],
     [f, - d, g, e, - e, - g, d, - f],
     [c, - b, b, - c, - c, b, - b, c],
     [g, - f, e, - d, d, - e, f, - g]]"

definition g_trCoreDCT2P8 :: "int list list list" where
  "g_trCoreDCT2P8 = [
     DEFINE_DCT2_P8_MATRIX 64 83 36 89 75 50 18,
     DEFINE_DCT2_P8_MATRIX 64 83 36 89 75 50 18]"

definition DEFINE_DCT2_P16_MATRIX ::
  "int \<Rightarrow> int \<Rightarrow> int \<Rightarrow> int \<Rightarrow> int \<Rightarrow> int \<Rightarrow>
  int \<Rightarrow> int \<Rightarrow> int \<Rightarrow> int \<Rightarrow> int \<Rightarrow> int \<Rightarrow>
  int \<Rightarrow> int \<Rightarrow> int \<Rightarrow> int list list" where
  "DEFINE_DCT2_P16_MATRIX a0 b c d e f g h i j k l m n oo =
    [[a0, a0, a0, a0, a0, a0, a0, a0, a0, a0, a0, a0, a0, a0, a0, a0],
     [h, i, j, k, l, m, n, oo, - oo, - n, - m, - l, - k, - j, - i, - h],
     [d, e, f, g, - g, - f, - e, - d, - d, - e, - f, - g, g, f, e, d],
     [i, l, oo, - m, - j, - h, - k, - n, n, k, h, j, m, - oo, - l, - i],
     [b, c, - c, - b, - b, - c, c, b, b, c, - c, - b, - b, - c, c, b],
     [j, oo, - k, - i, - n, l, h, m, - m, - h, - l, n, i, k, - oo, - j],
     [e, - g, - d, - f, f, d, g, - e, - e, g, d, f, - f, - d, - g, e],
     [k, - m, - i, oo, h, n, - j, - l, l, j, - n, - h, - oo, i, m, - k],
     [a0, - a0, - a0, a0, a0, - a0, - a0, a0, a0, - a0, - a0, a0, a0, - a0, - a0, a0],
     [l, - j, - n, h, - oo, - i, m, k, - k, - m, i, oo, - h, n, j, - l],
     [f, - d, g, e, - e, - g, d, - f, - f, d, - g, - e, e, g, - d, f],
     [m, - h, l, n, - i, k, oo, - j, j, - oo, - k, i, - n, - l, h, - m],
     [c, - b, b, - c, - c, b, - b, c, c, - b, b, - c, - c, b, - b, c],
     [n, - k, h, - j, m, oo, - l, i, - i, l, - oo, - m, j, - h, k, - n],
     [g, - f, e, - d, d, - e, f, - g, - g, f, - e, d, - d, e, - f, g],
     [oo, - n, m, - l, k, - j, i, - h, h, - i, j, - k, l, - m, n, - oo]]"

definition g_trCoreDCT2P16 :: "int list list list" where
  "g_trCoreDCT2P16 = [
     DEFINE_DCT2_P16_MATRIX 64 83 36 89 75 50 18 90 87 80 70 57 43 25 9,
     DEFINE_DCT2_P16_MATRIX 64 83 36 89 75 50 18 90 87 80 70 57 43 25 9]"

definition DEFINE_DCT2_P32_MATRIX ::
  "int \<Rightarrow> int \<Rightarrow> int \<Rightarrow> int \<Rightarrow> int \<Rightarrow> int \<Rightarrow>
  int \<Rightarrow> int \<Rightarrow> int \<Rightarrow> int \<Rightarrow> int \<Rightarrow> int \<Rightarrow>
  int \<Rightarrow> int \<Rightarrow> int \<Rightarrow> int \<Rightarrow> int \<Rightarrow> int \<Rightarrow>
  int \<Rightarrow> int \<Rightarrow> int \<Rightarrow> int \<Rightarrow> int \<Rightarrow> int \<Rightarrow>
  int \<Rightarrow> int \<Rightarrow> int \<Rightarrow> int \<Rightarrow> int \<Rightarrow> int \<Rightarrow>
  int \<Rightarrow> int list list" where
  "DEFINE_DCT2_P32_MATRIX a0 b c d e f g h i j k l m n oo p q r s t u v w x y z A B C D E =
    [[a0, a0, a0, a0, a0, a0, a0, a0, a0, a0, a0, a0, a0, a0, a0, a0, a0, a0, a0, a0, a0, a0, a0, a0, a0, a0, a0, a0, a0, a0, a0, a0],
     [p, q, r, s, t, u, v, w, x, y, z, A, B, C, D, E, - E, - D, - C, - B, - A, - z, - y, - x, - w, - v, - u, -
     t, - s, - r, - q, - p],
     [h, i, j, k, l, m, n, oo, - oo, - n, - m, - l, - k, - j, - i, - h, - h, - i, - j, - k, - l, - m, - n, -
     oo, oo, n, m, l, k, j, i, h],
     [q, t, w, z, C, - E, - B, - y, - v, - s, - p, - r, - u, - x, - A, - D, D, A, x, u, r, p, s, v, y, B, E, -
     C, - z, - w, - t, - q],
     [d, e, f, g, - g, - f, - e, - d, - d, - e, - f, - g, g, f, e, d, d, e, f, g, - g, - f, - e, - d, - d, -
     e, - f, - g, g, f, e, d],
     [r, w, B, - D, - y, - t, - p, - u, - z, - E, A, v, q, s, x, C, - C, - x, - s, - q, - v, - A, E, z, u, p,
     t, y, D, - B, - w, - r],
     [i, l, oo, - m, - j, - h, - k, - n, n, k, h, j, m, - oo, - l, - i, - i, - l, - oo, m, j, h, k, n, - n, -
     k, - h, - j, - m, oo, l, i],
     [s, z, - D, - w, - p, - v, - C, A, t, r, y, - E, - x, - q, - u, - B, B, u, q, x, E, - y, - r, - t, - A,
     C, v, p, w, D, - z, - s],
     [b, c, - c, - b, - b, - c, c, b, b, c, - c, - b, - b, - c, c, b, b, c, - c, - b, - b, - c, c, b, b, c, -
     c, - b, - b, - c, c, b],
     [t, C, - y, - p, - x, D, u, s, B, - z, - q, - w, E, v, r, A, - A, - r, - v, - E, w, q, z, - B, - s, - u,
     - D, x, p, y, - C, - t],
     [j, oo, - k, - i, - n, l, h, m, - m, - h, - l, n, i, k, - oo, - j, - j, - oo, k, i, n, - l, - h, - m, m,
     h, l, - n, - i, - k, oo, j],
     [u, - E, - t, - v, D, s, w, - C, - r, - x, B, q, y, - A, - p, - z, z, p, A, - y, - q, - B, x, r, C, - w,
     - s, - D, v, t, E, - u],
     [e, - g, - d, - f, f, d, g, - e, - e, g, d, f, - f, - d, - g, e, e, - g, - d, - f, f, d, g, - e, - e, g,
     d, f, - f, - d, - g, e],
     [v, - B, - p, - C, u, w, - A, - q, - D, t, x, - z, - r, - E, s, y, - y, - s, E, r, z, - x, - t, D, q, A,
     - w, - u, C, p, B, - v],
     [k, - m, - i, oo, h, n, - j, - l, l, j, - n, - h, - oo, i, m, - k, - k, m, i, - oo, - h, - n, j, l, - l,
     - j, n, h, oo, - i, - m, k],
     [w, - y, - u, A, s, - C, - q, E, p, D, - r, - B, t, z, - v, - x, x, v, - z, - t, B, r, - D, - p, - E, q,
     C, - s, - A, u, y, - w],
     [a0, - a0, - a0, a0, a0, - a0, - a0, a0, a0, - a0, - a0, a0, a0, - a0, - a0, a0, a0, - a0, - a0, a0, a0, - a0, - a0, a0, a0, - a0,
     - a0, a0, a0, - a0, - a0, a0],
     [x, - v, - z, t, B, - r, - D, p, - E, - q, C, s, - A, - u, y, w, - w, - y, u, A, - s, - C, q, E, - p, D,
     r, - B, - t, z, v, - x],
     [l, - j, - n, h, - oo, - i, m, k, - k, - m, i, oo, - h, n, j, - l, - l, j, n, - h, oo, i, - m, - k, k, m,
     - i, - oo, h, - n, - j, l],
     [y, - s, - E, r, - z, - x, t, D, - q, A, w, - u, - C, p, - B, - v, v, B, - p, C, u, - w, - A, q, - D, -
     t, x, z, - r, E, s, - y],
     [f, - d, g, e, - e, - g, d, - f, - f, d, - g, - e, e, g, - d, f, f, - d, g, e, - e, - g, d, - f, - f, d,
     - g, - e, e, g, - d, f],
     [z, - p, A, y, - q, B, x, - r, C, w, - s, D, v, - t, E, u, - u, - E, t, - v, - D, s, - w, - C, r, - x, -
     B, q, - y, - A, p, - z],
     [m, - h, l, n, - i, k, oo, - j, j, - oo, - k, i, - n, - l, h, - m, - m, h, - l, - n, i, - k, - oo, j, -
     j, oo, k, - i, n, l, - h, m],
     [A, - r, v, - E, - w, q, - z, - B, s, - u, D, x, - p, y, C, - t, t, - C, - y, p, - x, - D, u, - s, B, z,
     - q, w, E, - v, r, - A],
     [c, - b, b, - c, - c, b, - b, c, c, - b, b, - c, - c, b, - b, c, c, - b, b, - c, - c, b, - b, c, c, - b,
     b, - c, - c, b, - b, c],
     [B, - u, q, - x, E, y, - r, t, - A, - C, v, - p, w, - D, - z, s, - s, z, D, - w, p, - v, C, A, - t, r, -
     y, - E, x, - q, u, - B],
     [n, - k, h, - j, m, oo, - l, i, - i, l, - oo, - m, j, - h, k, - n, - n, k, - h, j, - m, - oo, l, - i, i,
     - l, oo, m, - j, h, - k, n],
     [C, - x, s, - q, v, - A, - E, z, - u, p, - t, y, - D, - B, w, - r, r, - w, B, D, - y, t, - p, u, - z, E,
     A, - v, q, - s, x, - C],
     [g, - f, e, - d, d, - e, f, - g, - g, f, - e, d, - d, e, - f, g, g, - f, e, - d, d, - e, f, - g, - g, f,
     - e, d, - d, e, - f, g],
     [D, - A, x, - u, r, - p, s, - v, y, - B, E, C, - z, w, - t, q, - q, t, - w, z, - C, - E, B, - y, v, - s,
     p, - r, u, - x, A, - D],
     [oo, - n, m, - l, k, - j, i, - h, h, - i, j, - k, l, - m, n, - oo, - oo, n, - m, l, - k, j, - i, h, - h,
     i, - j, k, - l, m, - n, oo],
     [E, - D, C, - B, A, - z, y, - x, w, - v, u, - t, s, - r, q, - p, p, - q, r, - s, t, - u, v, - w, x, - y,
     z, - A, B, - C, D, - E]]"

definition g_trCoreDCT2P32 :: "int list list list" where
  "g_trCoreDCT2P32 = [
     DEFINE_DCT2_P32_MATRIX 64 83 36 89 75 50 18 90 87 80 70 57 43 25 9 90 90 88 85 82 78 73 67 61 54 46 38 31
     22 13 4,
     DEFINE_DCT2_P32_MATRIX 64 83 36 89 75 50 18 90 87 80 70 57 43 25 9 90 90 88 85 82 78 73 67 61 54 46 38 31
     22 13 4]"

definition DEFINE_DCT2_P64_MATRIX ::
  "int \<Rightarrow> int \<Rightarrow> int \<Rightarrow> int \<Rightarrow> int \<Rightarrow> int \<Rightarrow>
  int \<Rightarrow> int \<Rightarrow> int \<Rightarrow> int \<Rightarrow> int \<Rightarrow> int \<Rightarrow>
  int \<Rightarrow> int \<Rightarrow> int \<Rightarrow> int \<Rightarrow> int \<Rightarrow> int \<Rightarrow>
  int \<Rightarrow> int \<Rightarrow> int \<Rightarrow> int \<Rightarrow> int \<Rightarrow> int \<Rightarrow>
  int \<Rightarrow> int \<Rightarrow> int \<Rightarrow> int \<Rightarrow> int \<Rightarrow> int \<Rightarrow>
  int \<Rightarrow> int \<Rightarrow> int \<Rightarrow> int \<Rightarrow> int \<Rightarrow> int \<Rightarrow>
  int \<Rightarrow> int \<Rightarrow> int \<Rightarrow> int \<Rightarrow> int \<Rightarrow> int \<Rightarrow>
  int \<Rightarrow> int \<Rightarrow> int \<Rightarrow> int \<Rightarrow> int \<Rightarrow> int \<Rightarrow>
  int \<Rightarrow> int \<Rightarrow> int \<Rightarrow> int \<Rightarrow> int \<Rightarrow> int \<Rightarrow>
  int \<Rightarrow> int \<Rightarrow> int \<Rightarrow> int \<Rightarrow> int \<Rightarrow> int \<Rightarrow>
  int \<Rightarrow> int \<Rightarrow> int \<Rightarrow> int list list" where
  "DEFINE_DCT2_P64_MATRIX aa ab ac ad ae af ag ah ai aj ak al am an ao ap aq ar as at au av aw ax ay az ba bb
  bc bd be bf bg bh bi bj bk bl bm bn bo bp bq br bs bt bu bv bw bx by1 bz ca cb cc cd ce cf cg ch ci cj ck =
    [[aa, aa, aa, aa, aa, aa, aa, aa, aa, aa, aa, aa, aa, aa, aa, aa, aa, aa, aa, aa, aa, aa, aa, aa, aa, aa,
     aa, aa, aa, aa, aa, aa, aa, aa, aa, aa, aa, aa, aa, aa, aa, aa, aa, aa, aa, aa, aa, aa, aa, aa, aa, aa,
     aa, aa, aa, aa, aa, aa, aa, aa, aa, aa, aa, aa],
     [bf, bg, bh, bi, bj, bk, bl, bm, bn, bo, bp, bq, br, bs, bt, bu, bv, bw, bx, by1, bz, ca, cb, cc, cd, ce,
     cf, cg, ch, ci, cj, ck, - ck, - cj, - ci, - ch, - cg, - cf, - ce, - cd, - cc, - cb, - ca, - bz, - by1, -
     bx, - bw, - bv, - bu, - bt, - bs, - br, - bq, - bp, - bo, - bn, - bm, - bl, - bk, - bj, - bi, - bh, - bg,
     - bf],
     [ap, aq, ar, as, at, au, av, aw, ax, ay, az, ba, bb, bc, bd, be, - be, - bd, - bc, - bb, - ba, - az, -
     ay, - ax, - aw, - av, - au, - at, - as, - ar, - aq, - ap, - ap, - aq, - ar, - as, - at, - au, - av, - aw,
     - ax, - ay, - az, - ba, - bb, - bc, - bd, - be, be, bd, bc, bb, ba, az, ay, ax, aw, av, au, at, as, ar,
     aq, ap],
     [bg, bj, bm, bp, bs, bv, by1, cb, ce, ch, ck, - ci, - cf, - cc, - bz, - bw, - bt, - bq, - bn, - bk, - bh,
     - bf, - bi, - bl, - bo, - br, - bu, - bx, - ca, - cd, - cg, - cj, cj, cg, cd, ca, bx, bu, br, bo, bl, bi,
     bf, bh, bk, bn, bq, bt, bw, bz, cc, cf, ci, - ck, - ch, - ce, - cb, - by1, - bv, - bs, - bp, - bm, - bj,
     - bg],
     [ah, ai, aj, ak, al, am, an, ao, - ao, - an, - am, - al, - ak, - aj, - ai, - ah, - ah, - ai, - aj, - ak,
     - al, - am, - an, - ao, ao, an, am, al, ak, aj, ai, ah, ah, ai, aj, ak, al, am, an, ao, - ao, - an, - am,
     - al, - ak, - aj, - ai, - ah, - ah, - ai, - aj, - ak, - al, - am, - an, - ao, ao, an, am, al, ak, aj, ai,
     ah],
     [bh, bm, br, bw, cb, cg, - ck, - cf, - ca, - bv, - bq, - bl, - bg, - bi, - bn, - bs, - bx, - cc, - ch,
     cj, ce, bz, bu, bp, bk, bf, bj, bo, bt, by1, cd, ci, - ci, - cd, - by1, - bt, - bo, - bj, - bf, - bk, -
     bp, - bu, - bz, - ce, - cj, ch, cc, bx, bs, bn, bi, bg, bl, bq, bv, ca, cf, ck, - cg, - cb, - bw, - br, -
     bm, - bh],
     [aq, at, aw, az, bc, - be, - bb, - ay, - av, - as, - ap, - ar, - au, - ax, - ba, - bd, bd, ba, ax, au,
     ar, ap, as, av, ay, bb, be, - bc, - az, - aw, - at, - aq, - aq, - at, - aw, - az, - bc, be, bb, ay, av,
     as, ap, ar, au, ax, ba, bd, - bd, - ba, - ax, - au, - ar, - ap, - as, - av, - ay, - bb, - be, bc, az, aw,
     at, aq],
     [bi, bp, bw, cd, ck, - ce, - bx, - bq, - bj, - bh, - bo, - bv, - cc, - cj, cf, by1, br, bk, bg, bn, bu,
     cb, ci, - cg, - bz, - bs, - bl, - bf, - bm, - bt, - ca, - ch, ch, ca, bt, bm, bf, bl, bs, bz, cg, - ci, -
     cb, - bu, - bn, - bg, - bk, - br, - by1, - cf, cj, cc, bv, bo, bh, bj, bq, bx, ce, - ck, - cd, - bw, -
     bp, - bi],
     [ad, ae, af, ag, - ag, - af, - ae, - ad, - ad, - ae, - af, - ag, ag, af, ae, ad, ad, ae, af, ag, - ag, -
     af, - ae, - ad, - ad, - ae, - af, - ag, ag, af, ae, ad, ad, ae, af, ag, - ag, - af, - ae, - ad, - ad, -
     ae, - af, - ag, ag, af, ae, ad, ad, ae, af, ag, - ag, - af, - ae, - ad, - ad, - ae, - af, - ag, ag, af,
     ae, ad],
     [bj, bs, cb, ck, - cc, - bt, - bk, - bi, - br, - ca, - cj, cd, bu, bl, bh, bq, bz, ci, - ce, - bv, - bm,
     - bg, - bp, - by1, - ch, cf, bw, bn, bf, bo, bx, cg, - cg, - bx, - bo, - bf, - bn, - bw, - cf, ch, by1,
     bp, bg, bm, bv, ce, - ci, - bz, - bq, - bh, - bl, - bu, - cd, cj, ca, br, bi, bk, bt, cc, - ck, - cb, -
     bs, - bj],
     [ar, aw, bb, - bd, - ay, - at, - ap, - au, - az, - be, ba, av, aq, as, ax, bc, - bc, - ax, - as, - aq, -
     av, - ba, be, az, au, ap, at, ay, bd, - bb, - aw, - ar, - ar, - aw, - bb, bd, ay, at, ap, au, az, be, -
     ba, - av, - aq, - as, - ax, - bc, bc, ax, as, aq, av, ba, - be, - az, - au, - ap, - at, - ay, - bd, bb,
     aw, ar],
     [bk, bv, cg, - ce, - bt, - bi, - bm, - bx, - ci, cc, br, bg, bo, bz, ck, - ca, - bp, - bf, - bq, - cb,
     cj, by1, bn, bh, bs, cd, - ch, - bw, - bl, - bj, - bu, - cf, cf, bu, bj, bl, bw, ch, - cd, - bs, - bh, -
     bn, - by1, - cj, cb, bq, bf, bp, ca, - ck, - bz, - bo, - bg, - br, - cc, ci, bx, bm, bi, bt, ce, - cg, -
     bv, - bk],
     [ai, al, ao, - am, - aj, - ah, - ak, - an, an, ak, ah, aj, am, - ao, - al, - ai, - ai, - al, - ao, am,
     aj, ah, ak, an, - an, - ak, - ah, - aj, - am, ao, al, ai, ai, al, ao, - am, - aj, - ah, - ak, - an, an,
     ak, ah, aj, am, - ao, - al, - ai, - ai, - al, - ao, am, aj, ah, ak, an, - an, - ak, - ah, - aj, - am, ao,
     al, ai],
     [bl, by1, - ck, - bx, - bk, - bm, - bz, cj, bw, bj, bn, ca, - ci, - bv, - bi, - bo, - cb, ch, bu, bh, bp,
     cc, - cg, - bt, - bg, - bq, - cd, cf, bs, bf, br, ce, - ce, - br, - bf, - bs, - cf, cd, bq, bg, bt, cg, -
     cc, - bp, - bh, - bu, - ch, cb, bo, bi, bv, ci, - ca, - bn, - bj, - bw, - cj, bz, bm, bk, bx, ck, - by1,
     - bl],
     [as, az, - bd, - aw, - ap, - av, - bc, ba, at, ar, ay, - be, - ax, - aq, - au, - bb, bb, au, aq, ax, be,
     - ay, - ar, - at, - ba, bc, av, ap, aw, bd, - az, - as, - as, - az, bd, aw, ap, av, bc, - ba, - at, - ar,
     - ay, be, ax, aq, au, bb, - bb, - au, - aq, - ax, - be, ay, ar, at, ba, - bc, - av, - ap, - aw, - bd, az,
     as],
     [bm, cb, - cf, - bq, - bi, - bx, cj, bu, bf, bt, ci, - by1, - bj, - bp, - ce, cc, bn, bl, ca, - cg, - br,
     - bh, - bw, ck, bv, bg, bs, ch, - bz, - bk, - bo, - cd, cd, bo, bk, bz, - ch, - bs, - bg, - bv, - ck, bw,
     bh, br, cg, - ca, - bl, - bn, - cc, ce, bp, bj, by1, - ci, - bt, - bf, - bu, - cj, bx, bi, bq, cf, - cb,
     - bm],
     [ab, ac, - ac, - ab, - ab, - ac, ac, ab, ab, ac, - ac, - ab, - ab, - ac, ac, ab, ab, ac, - ac, - ab, -
     ab, - ac, ac, ab, ab, ac, - ac, - ab, - ab, - ac, ac, ab, ab, ac, - ac, - ab, - ab, - ac, ac, ab, ab, ac,
     - ac, - ab, - ab, - ac, ac, ab, ab, ac, - ac, - ab, - ab, - ac, ac, ab, ab, ac, - ac, - ab, - ab, - ac,
     ac, ab],
     [bn, ce, - ca, - bj, - br, - ci, bw, bf, bv, - cj, - bs, - bi, - bz, cf, bo, bm, cd, - cb, - bk, - bq, -
     ch, bx, bg, bu, - ck, - bt, - bh, - by1, cg, bp, bl, cc, - cc, - bl, - bp, - cg, by1, bh, bt, ck, - bu, -
     bg, - bx, ch, bq, bk, cb, - cd, - bm, - bo, - cf, bz, bi, bs, cj, - bv, - bf, - bw, ci, br, bj, ca, - ce,
     - bn],
     [at, bc, - ay, - ap, - ax, bd, au, as, bb, - az, - aq, - aw, be, av, ar, ba, - ba, - ar, - av, - be, aw,
     aq, az, - bb, - as, - au, - bd, ax, ap, ay, - bc, - at, - at, - bc, ay, ap, ax, - bd, - au, - as, - bb,
     az, aq, aw, - be, - av, - ar, - ba, ba, ar, av, be, - aw, - aq, - az, bb, as, au, bd, - ax, - ap, - ay,
     bc, at],
     [bo, ch, - bv, - bh, - ca, cc, bj, bt, - cj, - bq, - bm, - cf, bx, bf, by1, - ce, - bl, - br, - ck, bs,
     bk, cd, - bz, - bg, - bw, cg, bn, bp, ci, - bu, - bi, - cb, cb, bi, bu, - ci, - bp, - bn, - cg, bw, bg,
     bz, - cd, - bk, - bs, ck, br, bl, ce, - by1, - bf, - bx, cf, bm, bq, cj, - bt, - bj, - cc, ca, bh, bv, -
     ch, - bo],
     [aj, ao, - ak, - ai, - an, al, ah, am, - am, - ah, - al, an, ai, ak, - ao, - aj, - aj, - ao, ak, ai, an,
     - al, - ah, - am, am, ah, al, - an, - ai, - ak, ao, aj, aj, ao, - ak, - ai, - an, al, ah, am, - am, - ah,
     - al, an, ai, ak, - ao, - aj, - aj, - ao, ak, ai, an, - al, - ah, - am, am, ah, al, - an, - ai, - ak, ao,
     aj],
     [bp, ck, - bq, - bo, - cj, br, bn, ci, - bs, - bm, - ch, bt, bl, cg, - bu, - bk, - cf, bv, bj, ce, - bw,
     - bi, - cd, bx, bh, cc, - by1, - bg, - cb, bz, bf, ca, - ca, - bf, - bz, cb, bg, by1, - cc, - bh, - bx,
     cd, bi, bw, - ce, - bj, - bv, cf, bk, bu, - cg, - bl, - bt, ch, bm, bs, - ci, - bn, - br, cj, bo, bq, -
     ck, - bp],
     [au, - be, - at, - av, bd, as, aw, - bc, - ar, - ax, bb, aq, ay, - ba, - ap, - az, az, ap, ba, - ay, -
     aq, - bb, ax, ar, bc, - aw, - as, - bd, av, at, be, - au, - au, be, at, av, - bd, - as, - aw, bc, ar, ax,
     - bb, - aq, - ay, ba, ap, az, - az, - ap, - ba, ay, aq, bb, - ax, - ar, - bc, aw, as, bd, - av, - at, -
     be, au],
     [bq, - ci, - bl, - bv, cd, bg, ca, - by1, - bi, - cf, bt, bn, ck, - bo, - bs, cg, bj, bx, - cb, - bf, -
     cc, bw, bk, ch, - br, - bp, cj, bm, bu, - ce, - bh, - bz, bz, bh, ce, - bu, - bm, - cj, bp, br, - ch, -
     bk, - bw, cc, bf, cb, - bx, - bj, - cg, bs, bo, - ck, - bn, - bt, cf, bi, by1, - ca, - bg, - cd, bv, bl,
     ci, - bq],
     [ae, - ag, - ad, - af, af, ad, ag, - ae, - ae, ag, ad, af, - af, - ad, - ag, ae, ae, - ag, - ad, - af,
     af, ad, ag, - ae, - ae, ag, ad, af, - af, - ad, - ag, ae, ae, - ag, - ad, - af, af, ad, ag, - ae, - ae,
     ag, ad, af, - af, - ad, - ag, ae, ae, - ag, - ad, - af, af, ad, ag, - ae, - ae, ag, ad, af, - af, - ad, -
     ag, ae],
     [br, - cf, - bg, - cc, bu, bo, - ci, - bj, - bz, bx, bl, ck, - bm, - bw, ca, bi, ch, - bp, - bt, cd, bf,
     ce, - bs, - bq, cg, bh, cb, - bv, - bn, cj, bk, by1, - by1, - bk, - cj, bn, bv, - cb, - bh, - cg, bq, bs,
     - ce, - bf, - cd, bt, bp, - ch, - bi, - ca, bw, bm, - ck, - bl, - bx, bz, bj, ci, - bo, - bu, cc, bg, cf,
     - br],
     [av, - bb, - ap, - bc, au, aw, - ba, - aq, - bd, at, ax, - az, - ar, - be, as, ay, - ay, - as, be, ar,
     az, - ax, - at, bd, aq, ba, - aw, - au, bc, ap, bb, - av, - av, bb, ap, bc, - au, - aw, ba, aq, bd, - at,
     - ax, az, ar, be, - as, - ay, ay, as, - be, - ar, - az, ax, at, - bd, - aq, - ba, aw, au, - bc, - ap, -
     bb, av],
     [bs, - cc, - bi, - cj, bl, bz, - bv, - bp, cf, bf, cg, - bo, - bw, by1, bm, - ci, - bh, - cd, br, bt, -
     cb, - bj, - ck, bk, ca, - bu, - bq, ce, bg, ch, - bn, - bx, bx, bn, - ch, - bg, - ce, bq, bu, - ca, - bk,
     ck, bj, cb, - bt, - br, cd, bh, ci, - bm, - by1, bw, bo, - cg, - bf, - cf, bp, bv, - bz, - bl, cj, bi,
     cc, - bs],
     [ak, - am, - ai, ao, ah, an, - aj, - al, al, aj, - an, - ah, - ao, ai, am, - ak, - ak, am, ai, - ao, -
     ah, - an, aj, al, - al, - aj, an, ah, ao, - ai, - am, ak, ak, - am, - ai, ao, ah, an, - aj, - al, al, aj,
     - an, - ah, - ao, ai, am, - ak, - ak, am, ai, - ao, - ah, - an, aj, al, - al, - aj, an, ah, ao, - ai, -
     am, ak],
     [bt, - bz, - bn, cf, bh, ck, - bi, - ce, bo, by1, - bu, - bs, ca, bm, - cg, - bg, - cj, bj, cd, - bp, -
     bx, bv, br, - cb, - bl, ch, bf, ci, - bk, - cc, bq, bw, - bw, - bq, cc, bk, - ci, - bf, - ch, bl, cb, -
     br, - bv, bx, bp, - cd, - bj, cj, bg, cg, - bm, - ca, bs, bu, - by1, - bo, ce, bi, - ck, - bh, - cf, bn,
     bz, - bt],
     [aw, - ay, - au, ba, as, - bc, - aq, be, ap, bd, - ar, - bb, at, az, - av, - ax, ax, av, - az, - at, bb,
     ar, - bd, - ap, - be, aq, bc, - as, - ba, au, ay, - aw, - aw, ay, au, - ba, - as, bc, aq, - be, - ap, -
     bd, ar, bb, - at, - az, av, ax, - ax, - av, az, at, - bb, - ar, bd, ap, be, - aq, - bc, as, ba, - au, -
     ay, aw],
     [bu, - bw, - bs, by1, bq, - ca, - bo, cc, bm, - ce, - bk, cg, bi, - ci, - bg, ck, bf, cj, - bh, - ch, bj,
     cf, - bl, - cd, bn, cb, - bp, - bz, br, bx, - bt, - bv, bv, bt, - bx, - br, bz, bp, - cb, - bn, cd, bl, -
     cf, - bj, ch, bh, - cj, - bf, - ck, bg, ci, - bi, - cg, bk, ce, - bm, - cc, bo, ca, - bq, - by1, bs, bw,
     - bu],
     [aa, - aa, - aa, aa, aa, - aa, - aa, aa, aa, - aa, - aa, aa, aa, - aa, - aa, aa, aa, - aa, - aa, aa, aa,
     - aa, - aa, aa, aa, - aa, - aa, aa, aa, - aa, - aa, aa, aa, - aa, - aa, aa, aa, - aa, - aa, aa, aa, - aa,
     - aa, aa, aa, - aa, - aa, aa, aa, - aa, - aa, aa, aa, - aa, - aa, aa, aa, - aa, - aa, aa, aa, - aa, - aa,
     aa],
     [bv, - bt, - bx, br, bz, - bp, - cb, bn, cd, - bl, - cf, bj, ch, - bh, - cj, bf, - ck, - bg, ci, bi, -
     cg, - bk, ce, bm, - cc, - bo, ca, bq, - by1, - bs, bw, bu, - bu, - bw, bs, by1, - bq, - ca, bo, cc, - bm,
     - ce, bk, cg, - bi, - ci, bg, ck, - bf, cj, bh, - ch, - bj, cf, bl, - cd, - bn, cb, bp, - bz, - br, bx,
     bt, - bv],
     [ax, - av, - az, at, bb, - ar, - bd, ap, - be, - aq, bc, as, - ba, - au, ay, aw, - aw, - ay, au, ba, -
     as, - bc, aq, be, - ap, bd, ar, - bb, - at, az, av, - ax, - ax, av, az, - at, - bb, ar, bd, - ap, be, aq,
     - bc, - as, ba, au, - ay, - aw, aw, ay, - au, - ba, as, bc, - aq, - be, ap, - bd, - ar, bb, at, - az, -
     av, ax],
     [bw, - bq, - cc, bk, ci, - bf, ch, bl, - cb, - br, bv, bx, - bp, - cd, bj, cj, - bg, cg, bm, - ca, - bs,
     bu, by1, - bo, - ce, bi, ck, - bh, cf, bn, - bz, - bt, bt, bz, - bn, - cf, bh, - ck, - bi, ce, bo, - by1,
     - bu, bs, ca, - bm, - cg, bg, - cj, - bj, cd, bp, - bx, - bv, br, cb, - bl, - ch, bf, - ci, - bk, cc, bq,
     - bw],
     [al, - aj, - an, ah, - ao, - ai, am, ak, - ak, - am, ai, ao, - ah, an, aj, - al, - al, aj, an, - ah, ao,
     ai, - am, - ak, ak, am, - ai, - ao, ah, - an, - aj, al, al, - aj, - an, ah, - ao, - ai, am, ak, - ak, -
     am, ai, ao, - ah, an, aj, - al, - al, aj, an, - ah, ao, ai, - am, - ak, ak, am, - ai, - ao, ah, - an, -
     aj, al],
     [bx, - bn, - ch, bg, - ce, - bq, bu, ca, - bk, - ck, bj, - cb, - bt, br, cd, - bh, ci, bm, - by1, - bw,
     bo, cg, - bf, cf, bp, - bv, - bz, bl, cj, - bi, cc, bs, - bs, - cc, bi, - cj, - bl, bz, bv, - bp, - cf,
     bf, - cg, - bo, bw, by1, - bm, - ci, bh, - cd, - br, bt, cb, - bj, ck, bk, - ca, - bu, bq, ce, - bg, ch,
     bn, - bx],
     [ay, - as, - be, ar, - az, - ax, at, bd, - aq, ba, aw, - au, - bc, ap, - bb, - av, av, bb, - ap, bc, au,
     - aw, - ba, aq, - bd, - at, ax, az, - ar, be, as, - ay, - ay, as, be, - ar, az, ax, - at, - bd, aq, - ba,
     - aw, au, bc, - ap, bb, av, - av, - bb, ap, - bc, - au, aw, ba, - aq, bd, at, - ax, - az, ar, - be, - as,
     ay],
     [by1, - bk, cj, bn, - bv, - cb, bh, - cg, - bq, bs, ce, - bf, cd, bt, - bp, - ch, bi, - ca, - bw, bm, ck,
     - bl, bx, bz, - bj, ci, bo, - bu, - cc, bg, - cf, - br, br, cf, - bg, cc, bu, - bo, - ci, bj, - bz, - bx,
     bl, - ck, - bm, bw, ca, - bi, ch, bp, - bt, - cd, bf, - ce, - bs, bq, cg, - bh, cb, bv, - bn, - cj, bk, -
     by1],
     [af, - ad, ag, ae, - ae, - ag, ad, - af, - af, ad, - ag, - ae, ae, ag, - ad, af, af, - ad, ag, ae, - ae,
     - ag, ad, - af, - af, ad, - ag, - ae, ae, ag, - ad, af, af, - ad, ag, ae, - ae, - ag, ad, - af, - af, ad,
     - ag, - ae, ae, ag, - ad, af, af, - ad, ag, ae, - ae, - ag, ad, - af, - af, ad, - ag, - ae, ae, ag, - ad,
     af],
     [bz, - bh, ce, bu, - bm, cj, bp, - br, - ch, bk, - bw, - cc, bf, - cb, - bx, bj, - cg, - bs, bo, ck, -
     bn, bt, cf, - bi, by1, ca, - bg, cd, bv, - bl, ci, bq, - bq, - ci, bl, - bv, - cd, bg, - ca, - by1, bi, -
     cf, - bt, bn, - ck, - bo, bs, cg, - bj, bx, cb, - bf, cc, bw, - bk, ch, br, - bp, - cj, bm, - bu, - ce,
     bh, - bz],
     [az, - ap, ba, ay, - aq, bb, ax, - ar, bc, aw, - as, bd, av, - at, be, au, - au, - be, at, - av, - bd,
     as, - aw, - bc, ar, - ax, - bb, aq, - ay, - ba, ap, - az, - az, ap, - ba, - ay, aq, - bb, - ax, ar, - bc,
     - aw, as, - bd, - av, at, - be, - au, au, be, - at, av, bd, - as, aw, bc, - ar, ax, bb, - aq, ay, ba, -
     ap, az],
     [ca, - bf, bz, cb, - bg, by1, cc, - bh, bx, cd, - bi, bw, ce, - bj, bv, cf, - bk, bu, cg, - bl, bt, ch, -
     bm, bs, ci, - bn, br, cj, - bo, bq, ck, - bp, bp, - ck, - bq, bo, - cj, - br, bn, - ci, - bs, bm, - ch, -
     bt, bl, - cg, - bu, bk, - cf, - bv, bj, - ce, - bw, bi, - cd, - bx, bh, - cc, - by1, bg, - cb, - bz, bf,
     - ca],
     [am, - ah, al, an, - ai, ak, ao, - aj, aj, - ao, - ak, ai, - an, - al, ah, - am, - am, ah, - al, - an,
     ai, - ak, - ao, aj, - aj, ao, ak, - ai, an, al, - ah, am, am, - ah, al, an, - ai, ak, ao, - aj, aj, - ao,
     - ak, ai, - an, - al, ah, - am, - am, ah, - al, - an, ai, - ak, - ao, aj, - aj, ao, ak, - ai, an, al, -
     ah, am],
     [cb, - bi, bu, ci, - bp, bn, - cg, - bw, bg, - bz, - cd, bk, - bs, - ck, br, - bl, ce, by1, - bf, bx, cf,
     - bm, bq, - cj, - bt, bj, - cc, - ca, bh, - bv, - ch, bo, - bo, ch, bv, - bh, ca, cc, - bj, bt, cj, - bq,
     bm, - cf, - bx, bf, - by1, - ce, bl, - br, ck, bs, - bk, cd, bz, - bg, bw, cg, - bn, bp, - ci, - bu, bi,
     - cb],
     [ba, - ar, av, - be, - aw, aq, - az, - bb, as, - au, bd, ax, - ap, ay, bc, - at, at, - bc, - ay, ap, -
     ax, - bd, au, - as, bb, az, - aq, aw, be, - av, ar, - ba, - ba, ar, - av, be, aw, - aq, az, bb, - as, au,
     - bd, - ax, ap, - ay, - bc, at, - at, bc, ay, - ap, ax, bd, - au, as, - bb, - az, aq, - aw, - be, av, -
     ar, ba],
     [cc, - bl, bp, - cg, - by1, bh, - bt, ck, bu, - bg, bx, ch, - bq, bk, - cb, - cd, bm, - bo, cf, bz, - bi,
     bs, - cj, - bv, bf, - bw, - ci, br, - bj, ca, ce, - bn, bn, - ce, - ca, bj, - br, ci, bw, - bf, bv, cj, -
     bs, bi, - bz, - cf, bo, - bm, cd, cb, - bk, bq, - ch, - bx, bg, - bu, - ck, bt, - bh, by1, cg, - bp, bl,
     - cc],
     [ac, - ab, ab, - ac, - ac, ab, - ab, ac, ac, - ab, ab, - ac, - ac, ab, - ab, ac, ac, - ab, ab, - ac, -
     ac, ab, - ab, ac, ac, - ab, ab, - ac, - ac, ab, - ab, ac, ac, - ab, ab, - ac, - ac, ab, - ab, ac, ac, -
     ab, ab, - ac, - ac, ab, - ab, ac, ac, - ab, ab, - ac, - ac, ab, - ab, ac, ac, - ab, ab, - ac, - ac, ab, -
     ab, ac],
     [cd, - bo, bk, - bz, - ch, bs, - bg, bv, - ck, - bw, bh, - br, cg, ca, - bl, bn, - cc, - ce, bp, - bj,
     by1, ci, - bt, bf, - bu, cj, bx, - bi, bq, - cf, - cb, bm, - bm, cb, cf, - bq, bi, - bx, - cj, bu, - bf,
     bt, - ci, - by1, bj, - bp, ce, cc, - bn, bl, - ca, - cg, br, - bh, bw, ck, - bv, bg, - bs, ch, bz, - bk,
     bo, - cd],
     [bb, - au, aq, - ax, be, ay, - ar, at, - ba, - bc, av, - ap, aw, - bd, - az, as, - as, az, bd, - aw, ap,
     - av, bc, ba, - at, ar, - ay, - be, ax, - aq, au, - bb, - bb, au, - aq, ax, - be, - ay, ar, - at, ba, bc,
     - av, ap, - aw, bd, az, - as, as, - az, - bd, aw, - ap, av, - bc, - ba, at, - ar, ay, be, - ax, aq, - au,
     bb],
     [ce, - br, bf, - bs, cf, cd, - bq, bg, - bt, cg, cc, - bp, bh, - bu, ch, cb, - bo, bi, - bv, ci, ca, -
     bn, bj, - bw, cj, bz, - bm, bk, - bx, ck, by1, - bl, bl, - by1, - ck, bx, - bk, bm, - bz, - cj, bw, - bj,
     bn, - ca, - ci, bv, - bi, bo, - cb, - ch, bu, - bh, bp, - cc, - cg, bt, - bg, bq, - cd, - cf, bs, - bf,
     br, - ce],
     [an, - ak, ah, - aj, am, ao, - al, ai, - ai, al, - ao, - am, aj, - ah, ak, - an, - an, ak, - ah, aj, -
     am, - ao, al, - ai, ai, - al, ao, am, - aj, ah, - ak, an, an, - ak, ah, - aj, am, ao, - al, ai, - ai, al,
     - ao, - am, aj, - ah, ak, - an, - an, ak, - ah, aj, - am, - ao, al, - ai, ai, - al, ao, am, - aj, ah, -
     ak, an],
     [cf, - bu, bj, - bl, bw, - ch, - cd, bs, - bh, bn, - by1, cj, cb, - bq, bf, - bp, ca, ck, - bz, bo, - bg,
     br, - cc, - ci, bx, - bm, bi, - bt, ce, cg, - bv, bk, - bk, bv, - cg, - ce, bt, - bi, bm, - bx, ci, cc, -
     br, bg, - bo, bz, - ck, - ca, bp, - bf, bq, - cb, - cj, by1, - bn, bh, - bs, cd, ch, - bw, bl, - bj, bu,
     - cf],
     [bc, - ax, as, - aq, av, - ba, - be, az, - au, ap, - at, ay, - bd, - bb, aw, - ar, ar, - aw, bb, bd, -
     ay, at, - ap, au, - az, be, ba, - av, aq, - as, ax, - bc, - bc, ax, - as, aq, - av, ba, be, - az, au, -
     ap, at, - ay, bd, bb, - aw, ar, - ar, aw, - bb, - bd, ay, - at, ap, - au, az, - be, - ba, av, - aq, as, -
     ax, bc],
     [cg, - bx, bo, - bf, bn, - bw, cf, ch, - by1, bp, - bg, bm, - bv, ce, ci, - bz, bq, - bh, bl, - bu, cd,
     cj, - ca, br, - bi, bk, - bt, cc, ck, - cb, bs, - bj, bj, - bs, cb, - ck, - cc, bt, - bk, bi, - br, ca, -
     cj, - cd, bu, - bl, bh, - bq, bz, - ci, - ce, bv, - bm, bg, - bp, by1, - ch, - cf, bw, - bn, bf, - bo,
     bx, - cg],
     [ag, - af, ae, - ad, ad, - ae, af, - ag, - ag, af, - ae, ad, - ad, ae, - af, ag, ag, - af, ae, - ad, ad,
     - ae, af, - ag, - ag, af, - ae, ad, - ad, ae, - af, ag, ag, - af, ae, - ad, ad, - ae, af, - ag, - ag, af,
     - ae, ad, - ad, ae, - af, ag, ag, - af, ae, - ad, ad, - ae, af, - ag, - ag, af, - ae, ad, - ad, ae, - af,
     ag],
     [ch, - ca, bt, - bm, bf, - bl, bs, - bz, cg, ci, - cb, bu, - bn, bg, - bk, br, - by1, cf, cj, - cc, bv, -
     bo, bh, - bj, bq, - bx, ce, ck, - cd, bw, - bp, bi, - bi, bp, - bw, cd, - ck, - ce, bx, - bq, bj, - bh,
     bo, - bv, cc, - cj, - cf, by1, - br, bk, - bg, bn, - bu, cb, - ci, - cg, bz, - bs, bl, - bf, bm, - bt,
     ca, - ch],
     [bd, - ba, ax, - au, ar, - ap, as, - av, ay, - bb, be, bc, - az, aw, - at, aq, - aq, at, - aw, az, - bc,
     - be, bb, - ay, av, - as, ap, - ar, au, - ax, ba, - bd, - bd, ba, - ax, au, - ar, ap, - as, av, - ay, bb,
     - be, - bc, az, - aw, at, - aq, aq, - at, aw, - az, bc, be, - bb, ay, - av, as, - ap, ar, - au, ax, - ba,
     bd],
     [ci, - cd, by1, - bt, bo, - bj, bf, - bk, bp, - bu, bz, - ce, cj, ch, - cc, bx, - bs, bn, - bi, bg, - bl,
     bq, - bv, ca, - cf, ck, cg, - cb, bw, - br, bm, - bh, bh, - bm, br, - bw, cb, - cg, - ck, cf, - ca, bv, -
     bq, bl, - bg, bi, - bn, bs, - bx, cc, - ch, - cj, ce, - bz, bu, - bp, bk, - bf, bj, - bo, bt, - by1, cd,
     - ci],
     [ao, - an, am, - al, ak, - aj, ai, - ah, ah, - ai, aj, - ak, al, - am, an, - ao, - ao, an, - am, al, -
     ak, aj, - ai, ah, - ah, ai, - aj, ak, - al, am, - an, ao, ao, - an, am, - al, ak, - aj, ai, - ah, ah, -
     ai, aj, - ak, al, - am, an, - ao, - ao, an, - am, al, - ak, aj, - ai, ah, - ah, ai, - aj, ak, - al, am, -
     an, ao],
     [cj, - cg, cd, - ca, bx, - bu, br, - bo, bl, - bi, bf, - bh, bk, - bn, bq, - bt, bw, - bz, cc, - cf, ci,
     ck, - ch, ce, - cb, by1, - bv, bs, - bp, bm, - bj, bg, - bg, bj, - bm, bp, - bs, bv, - by1, cb, - ce, ch,
     - ck, - ci, cf, - cc, bz, - bw, bt, - bq, bn, - bk, bh, - bf, bi, - bl, bo, - br, bu, - bx, ca, - cd, cg,
     - cj],
     [be, - bd, bc, - bb, ba, - az, ay, - ax, aw, - av, au, - at, as, - ar, aq, - ap, ap, - aq, ar, - as, at,
     - au, av, - aw, ax, - ay, az, - ba, bb, - bc, bd, - be, - be, bd, - bc, bb, - ba, az, - ay, ax, - aw, av,
     - au, at, - as, ar, - aq, ap, - ap, aq, - ar, as, - at, au, - av, aw, - ax, ay, - az, ba, - bb, bc, - bd,
     be],
     [ck, - cj, ci, - ch, cg, - cf, ce, - cd, cc, - cb, ca, - bz, by1, - bx, bw, - bv, bu, - bt, bs, - br, bq,
     - bp, bo, - bn, bm, - bl, bk, - bj, bi, - bh, bg, - bf, bf, - bg, bh, - bi, bj, - bk, bl, - bm, bn, - bo,
     bp, - bq, br, - bs, bt, - bu, bv, - bw, bx, - by1, bz, - ca, cb, - cc, cd, - ce, cf, - cg, ch, - ci, cj,
     - ck]]"

definition g_trCoreDCT2P64 :: "int list list list" where
  "g_trCoreDCT2P64 = [
     DEFINE_DCT2_P64_MATRIX 64 83 36 89 75 50 18 90 87 80 70 57 43 25 9 90 90 88 85 82 78 73 67 61 54 46 38 31
     22 13 4 91 90 90 90 88 87 86 84 83 81 79 77 73 71 69 65 62 59 56 52 48 44 41 37 33 28 24 20 15 11 7 2,
     DEFINE_DCT2_P64_MATRIX 64 83 36 89 75 50 18 90 87 80 70 57 43 25 9 90 90 88 85 82 78 73 67 61 54 46 38 31
     22 13 4 91 90 90 90 88 87 86 84 83 81 79 77 73 71 69 65 62 59 56 52 48 44 41 37 33 28 24 20 15 11 7 2]"

definition DEFINE_DCT8_P4_MATRIX ::
  "int \<Rightarrow> int \<Rightarrow> int \<Rightarrow> int \<Rightarrow> int list list" where
  "DEFINE_DCT8_P4_MATRIX a0 b c d =
    [[a0, b, c, d],
     [b, 0, - b, - b],
     [c, - b, - d, a0],
     [d, - b, a0, - c]]"

definition g_trCoreDCT8P4 :: "int list list list" where
  "g_trCoreDCT8P4 = [
     DEFINE_DCT8_P4_MATRIX 84 74 55 29,
     DEFINE_DCT8_P4_MATRIX 84 74 55 29]"

definition DEFINE_DCT8_P8_MATRIX ::
  "int \<Rightarrow> int \<Rightarrow> int \<Rightarrow> int \<Rightarrow> int \<Rightarrow> int \<Rightarrow>
  int \<Rightarrow> int \<Rightarrow> int list list" where
  "DEFINE_DCT8_P8_MATRIX a0 b c d e f g h =
    [[a0, b, c, d, e, f, g, h],
     [b, e, h, - g, - d, - a0, - c, - f],
     [c, h, - e, - a0, - f, g, b, d],
     [d, - g, - a0, - h, c, e, - f, - b],
     [e, - d, - f, c, g, - b, - h, a0],
     [f, - a0, g, e, - b, h, d, - c],
     [g, - c, b, - f, - h, d, - a0, e],
     [h, - f, d, - b, a0, - c, e, - g]]"

definition g_trCoreDCT8P8 :: "int list list list" where
  "g_trCoreDCT8P8 = [
     DEFINE_DCT8_P8_MATRIX 86 85 78 71 60 46 32 17,
     DEFINE_DCT8_P8_MATRIX 86 85 78 71 60 46 32 17]"

definition DEFINE_DCT8_P16_MATRIX ::
  "int \<Rightarrow> int \<Rightarrow> int \<Rightarrow> int \<Rightarrow> int \<Rightarrow> int \<Rightarrow>
  int \<Rightarrow> int \<Rightarrow> int \<Rightarrow> int \<Rightarrow> int \<Rightarrow> int \<Rightarrow>
  int \<Rightarrow> int \<Rightarrow> int \<Rightarrow> int \<Rightarrow> int list list" where
  "DEFINE_DCT8_P16_MATRIX a0 b c d e f g h i j k l m n oo p =
    [[a0, b, c, d, e, f, g, h, i, j, k, l, m, n, oo, p],
     [b, e, h, k, n, 0, - n, - k, - h, - e, - b, - b, - e, - h, - k, - n],
     [c, h, m, - p, - k, - f, - a0, - e, - j, - oo, n, i, d, b, g, l],
     [d, k, - p, - i, - b, - f, - m, n, g, a0, h, oo, - l, - e, - c, - j],
     [e, n, - k, - b, - h, 0, h, b, k, - n, - e, - e, - n, k, b, h],
     [f, 0, - f, - f, 0, f, f, 0, - f, - f, 0, f, f, 0, - f, - f],
     [g, - n, - a0, - m, h, f, - oo, - b, - l, i, e, - p, - c, - k, j, d],
     [h, - k, - e, n, b, 0, - b, - n, e, k, - h, - h, k, e, - n, - b],
     [i, - h, - j, g, k, - f, - l, e, m, - d, - n, c, oo, - b, - p, a0],
     [j, - e, - oo, a0, - n, - f, i, k, - d, - p, b, - m, - g, h, l, - c],
     [k, - b, n, h, - e, 0, e, - h, - n, b, - k, - k, b, - n, - h, e],
     [l, - b, i, oo, - e, f, - p, - h, c, - m, - k, a0, - j, - n, d, - g],
     [m, - e, d, - l, - n, f, - c, k, oo, - g, b, - j, - p, h, - a0, i],
     [n, - h, b, - e, k, 0, - k, e, - b, h, - n, - n, h, - b, e, - k],
     [oo, - k, g, - c, b, - f, j, - n, - p, l, - h, d, - a0, e, - i, m],
     [p, - n, l, - j, h, - f, d, - b, a0, - c, e, - g, i, - k, m, - oo]]"

definition g_trCoreDCT8P16 :: "int list list list" where
  "g_trCoreDCT8P16 = [
     DEFINE_DCT8_P16_MATRIX 88 88 87 85 81 77 73 68 62 55 48 40 33 25 17 8,
     DEFINE_DCT8_P16_MATRIX 88 88 87 85 81 77 73 68 62 55 48 40 33 25 17 8]"

definition DEFINE_DCT8_P32_MATRIX ::
  "int \<Rightarrow> int \<Rightarrow> int \<Rightarrow> int \<Rightarrow> int \<Rightarrow> int \<Rightarrow>
  int \<Rightarrow> int \<Rightarrow> int \<Rightarrow> int \<Rightarrow> int \<Rightarrow> int \<Rightarrow>
  int \<Rightarrow> int \<Rightarrow> int \<Rightarrow> int \<Rightarrow> int \<Rightarrow> int \<Rightarrow>
  int \<Rightarrow> int \<Rightarrow> int \<Rightarrow> int \<Rightarrow> int \<Rightarrow> int \<Rightarrow>
  int \<Rightarrow> int \<Rightarrow> int \<Rightarrow> int \<Rightarrow> int \<Rightarrow> int \<Rightarrow>
  int \<Rightarrow> int \<Rightarrow> int list list" where
  "DEFINE_DCT8_P32_MATRIX a0 b c d e f g h i j k l m n oo p q r s t u v w x y z A B C D E F =
    [[a0, b, c, d, e, f, g, h, i, j, k, l, m, n, oo, p, q, r, s, t, u, v, w, x, y, z, A, B, C, D, E, F],
     [b, e, h, k, n, q, t, w, z, C, F, - E, - B, - y, - v, - s, - p, - m, - j, - g, - d, - a0, - c, - f, - i, -
     l, - oo, - r, - u, - x, - A, - D],
     [c, h, m, r, w, B, 0, - B, - w, - r, - m, - h, - c, - c, - h, - m, - r, - w, - B, 0, B, w, r, m, h, c, c,
     h, m, r, w, B],
     [d, k, r, y, F, - A, - t, - m, - f, - b, - i, - p, - w, - D, C, v, oo, h, a0, g, n, u, B, - E, - x, - q, -
     j, - c, - e, - l, - s, - z],
     [e, n, w, F, - y, - p, - g, - c, - l, - u, - D, A, r, i, a0, j, s, B, - C, - t, - k, - b, - h, - q, - z,
     E, v, m, d, f, oo, x],
     [f, q, B, - A, - p, - e, - g, - r, - C, z, oo, d, h, s, D, - y, - n, - c, - i, - t, - E, x, m, b, j, u,
     F, - w, - l, - a0, - k, - v],
     [g, t, 0, - t, - g, - g, - t, 0, t, g, g, t, 0, - t, - g, - g, - t, 0, t, g, g, t, 0, - t, - g, - g, - t,
     0, t, g, g, t],
     [h, w, - B, - m, - c, - r, 0, r, c, m, B, - w, - h, - h, - w, B, m, c, r, 0, - r, - c, - m, - B, w, h, h,
     w, - B, - m, - c, - r],
     [i, z, - w, - f, - l, - C, t, c, oo, F, - q, - a0, - r, E, n, d, u, - B, - k, - g, - x, y, h, j, A, - v, -
     e, - m, - D, s, b, p],
     [j, C, - r, - b, - u, z, g, m, F, - oo, - e, - x, w, d, p, - E, - l, - h, - A, t, a0, s, - B, - i, - k, -
     D, q, c, v, - y, - f, - n],
     [k, F, - m, - i, - D, oo, g, B, - q, - e, - z, s, c, x, - u, - a0, - v, w, b, t, - y, - d, - r, A, f, p, -
     C, - h, - n, E, j, l],
     [l, - E, - h, - p, A, d, t, - w, - a0, - x, s, e, B, - oo, - i, - F, k, m, - D, - g, - q, z, c, u, - v, -
     b, - y, r, f, C, - n, - j],
     [m, - B, - c, - w, r, h, 0, - h, - r, w, c, B, - m, - m, B, c, w, - r, - h, 0, h, r, - w, - c, - B, m, m,
     - B, - c, - w, r, h],
     [n, - y, - c, - D, i, s, - t, - h, E, d, x, - oo, - m, z, b, C, - j, - r, u, g, - F, - e, - w, p, l, - A,
     - a0, - B, k, q, - v, - f],
     [oo, - v, - h, C, a0, D, - g, - w, n, p, - u, - i, B, b, E, - f, - x, m, q, - t, - j, A, c, F, - e, - y,
     l, r, - s, - k, z, d],
     [p, - s, - m, v, j, - y, - g, B, d, - E, - a0, - F, c, C, - f, - z, i, w, - l, - t, oo, q, - r, - n, u, k,
     - x, - h, A, e, - D, - b],
     [q, - p, - r, oo, s, - n, - t, m, u, - l, - v, k, w, - j, - x, i, y, - h, - z, g, A, - f, - B, e, C, - d,
     - D, c, E, - b, - F, a0],
     [r, - m, - w, h, B, - c, 0, c, - B, - h, w, m, - r, - r, m, w, - h, - B, c, 0, - c, B, h, - w, - m, r, r,
     - m, - w, h, B, - c],
     [s, - j, - B, a0, - C, - i, t, r, - k, - A, b, - D, - h, u, q, - l, - z, c, - E, - g, v, p, - m, - y, d, -
     F, - f, w, oo, - n, - x, e],
     [t, - g, 0, g, - t, - t, g, 0, - g, t, t, - g, 0, g, - t, - t, g, 0, - g, t, t, - g, 0, g, - t, - t, g,
     0, - g, t, t, - g],
     [u, - d, B, n, - k, - E, g, - r, - x, a0, - y, - q, h, - F, - j, oo, A, - c, v, t, - e, C, m, - l, - D, f,
     - s, - w, b, - z, - p, i],
     [v, - a0, w, u, - b, x, t, - c, y, s, - d, z, r, - e, A, q, - f, B, p, - g, C, oo, - h, D, n, - i, E, m, -
     j, F, l, - k],
     [w, - c, r, B, - h, m, 0, - m, h, - B, - r, c, - w, - w, c, - r, - B, h, - m, 0, m, - h, B, r, - c, w, w,
     - c, r, B, - h, m],
     [x, - f, m, - E, - q, b, - t, - B, j, - i, A, u, - c, p, F, - n, e, - w, - y, g, - l, D, r, - a0, s, C, -
     k, h, - z, - v, d, - oo],
     [y, - i, h, - x, - z, j, - g, w, A, - k, f, - v, - B, l, - e, u, C, - m, d, - t, - D, n, - c, s, E, - oo,
     b, - r, - F, p, - a0, q],
     [z, - l, c, - q, E, u, - g, h, - v, - D, p, - b, m, - A, - y, k, - d, r, - F, - t, f, - i, w, C, - oo, a0,
     - n, B, x, - j, e, - s],
     [A, - oo, c, - j, v, F, - t, h, - e, q, - C, - y, m, - a0, l, - x, - D, r, - f, g, - s, E, w, - k, b, - n,
     z, B, - p, d, - i, u],
     [B, - r, h, - c, m, - w, 0, w, - m, c, - h, r, - B, - B, r, - h, c, - m, w, 0, - w, m, - c, h, - r, B, B,
     - r, h, - c, m, - w],
     [C, - u, m, - e, d, - l, t, - B, - D, v, - n, f, - c, k, - s, A, E, - w, oo, - g, b, - j, r, - z, - F, x,
     - p, h, - a0, i, - q, y],
     [D, - x, r, - l, f, - a0, g, - m, s, - y, E, C, - w, q, - k, e, - b, h, - n, t, - z, F, B, - v, p, - j, d,
     - c, i, - oo, u, - A],
     [E, - A, w, - s, oo, - k, g, - c, b, - f, j, - n, r, - v, z, - D, - F, B, - x, t, - p, l, - h, d, - a0, e,
     - i, m, - q, u, - y, C],
     [F, - D, B, - z, x, - v, t, - r, p, - n, l, - j, h, - f, d, - b, a0, - c, e, - g, i, - k, m, - oo, q, - s,
     u, - w, y, - A, C, - E]]"

definition g_trCoreDCT8P32 :: "int list list list" where
  "g_trCoreDCT8P32 = [
     DEFINE_DCT8_P32_MATRIX 90 90 89 88 87 86 85 84 82 80 78 77 74 72 68 66 63 60 56 53 50 46 42 38 34 30 26
     21 17 13 9 4,
     DEFINE_DCT8_P32_MATRIX 90 90 89 88 87 86 85 84 82 80 78 77 74 72 68 66 63 60 56 53 50 46 42 38 34 30 26
     21 17 13 9 4]"

definition DEFINE_DST7_P4_MATRIX ::
  "int \<Rightarrow> int \<Rightarrow> int \<Rightarrow> int \<Rightarrow> int list list" where
  "DEFINE_DST7_P4_MATRIX a0 b c d =
    [[a0, b, c, d],
     [c, c, 0, - c],
     [d, - a0, - c, b],
     [b, - d, c, - a0]]"

definition g_trCoreDST7P4 :: "int list list list" where
  "g_trCoreDST7P4 = [
     DEFINE_DST7_P4_MATRIX 29 55 74 84,
     DEFINE_DST7_P4_MATRIX 29 55 74 84]"

definition DEFINE_DST7_P8_MATRIX ::
  "int \<Rightarrow> int \<Rightarrow> int \<Rightarrow> int \<Rightarrow> int \<Rightarrow> int \<Rightarrow>
  int \<Rightarrow> int \<Rightarrow> int list list" where
  "DEFINE_DST7_P8_MATRIX a0 b c d e f g h =
    [[a0, b, c, d, e, f, g, h],
     [c, f, h, e, b, - a0, - d, - g],
     [e, g, b, - c, - h, - d, a0, f],
     [g, c, - d, - f, a0, h, b, - e],
     [h, - a0, - g, b, f, - c, - e, d],
     [f, - e, - a0, g, - d, - b, h, - c],
     [d, - h, e, - a0, - c, g, - f, b],
     [b, - d, f, - h, g, - e, c, - a0]]"

definition g_trCoreDST7P8 :: "int list list list" where
  "g_trCoreDST7P8 = [
     DEFINE_DST7_P8_MATRIX 17 32 46 60 71 78 85 86,
     DEFINE_DST7_P8_MATRIX 17 32 46 60 71 78 85 86]"

definition DEFINE_DST7_P16_MATRIX ::
  "int \<Rightarrow> int \<Rightarrow> int \<Rightarrow> int \<Rightarrow> int \<Rightarrow> int \<Rightarrow>
  int \<Rightarrow> int \<Rightarrow> int \<Rightarrow> int \<Rightarrow> int \<Rightarrow> int \<Rightarrow>
  int \<Rightarrow> int \<Rightarrow> int \<Rightarrow> int \<Rightarrow> int list list" where
  "DEFINE_DST7_P16_MATRIX a0 b c d e f g h i j k l m n oo p =
    [[a0, b, c, d, e, f, g, h, i, j, k, l, m, n, oo, p],
     [c, f, i, l, oo, oo, l, i, f, c, 0, - c, - f, - i, - l, - oo],
     [e, j, oo, m, h, c, - b, - g, - l, - p, - k, - f, - a0, d, i, n],
     [g, n, l, e, - b, - i, - p, - j, - c, d, k, oo, h, a0, - f, - m],
     [i, oo, f, - c, - l, - l, - c, f, oo, i, 0, - i, - oo, - f, c, l],
     [k, k, 0, - k, - k, 0, k, k, 0, - k, - k, 0, k, k, 0, - k],
     [m, g, - f, - n, - a0, l, h, - e, - oo, - b, k, i, - d, - p, - c, j],
     [oo, c, - l, - f, i, i, - f, - l, c, oo, 0, - oo, - c, l, f, - i],
     [p, - a0, - oo, b, n, - c, - m, d, l, - e, - k, f, j, - g, - i, h],
     [n, - e, - i, j, d, - oo, a0, m, - f, - h, k, c, - p, b, l, - g],
     [l, - i, - c, oo, - f, - f, oo, - c, - i, l, 0, - l, i, c, - oo, f],
     [j, - m, c, g, - p, f, d, - n, i, a0, - k, l, - b, - h, oo, - e],
     [h, - p, i, - a0, - g, oo, - j, b, f, - n, k, - c, - e, m, - l, d],
     [f, - l, oo, - i, c, c, - i, oo, - l, f, 0, - f, l, - oo, i, - c],
     [d, - h, l, - p, m, - i, e, - a0, - c, g, - k, oo, - n, j, - f, b],
     [b, - d, f, - h, j, - l, n, - p, oo, - m, k, - i, g, - e, c, - a0]]"

definition g_trCoreDST7P16 :: "int list list list" where
  "g_trCoreDST7P16 = [
     DEFINE_DST7_P16_MATRIX 8 17 25 33 40 48 55 62 68 73 77 81 85 87 88 88,
     DEFINE_DST7_P16_MATRIX 8 17 25 33 40 48 55 62 68 73 77 81 85 87 88 88]"

definition DEFINE_DST7_P32_MATRIX ::
  "int \<Rightarrow> int \<Rightarrow> int \<Rightarrow> int \<Rightarrow> int \<Rightarrow> int \<Rightarrow>
  int \<Rightarrow> int \<Rightarrow> int \<Rightarrow> int \<Rightarrow> int \<Rightarrow> int \<Rightarrow>
  int \<Rightarrow> int \<Rightarrow> int \<Rightarrow> int \<Rightarrow> int \<Rightarrow> int \<Rightarrow>
  int \<Rightarrow> int \<Rightarrow> int \<Rightarrow> int \<Rightarrow> int \<Rightarrow> int \<Rightarrow>
  int \<Rightarrow> int \<Rightarrow> int \<Rightarrow> int \<Rightarrow> int \<Rightarrow> int \<Rightarrow>
  int \<Rightarrow> int \<Rightarrow> int list list" where
  "DEFINE_DST7_P32_MATRIX a0 b c d e f g h i j k l m n oo p q r s t u v w x y z A B C D E F =
    [[a0, b, c, d, e, f, g, h, i, j, k, l, m, n, oo, p, q, r, s, t, u, v, w, x, y, z, A, B, C, D, E, F],
     [c, f, i, l, oo, r, u, x, A, D, F, C, z, w, t, q, n, k, h, e, b, - a0, - d, - g, - j, - m, - p, - s, - v,
     - y, - B, - E],
     [e, j, oo, t, y, D, D, y, t, oo, j, e, 0, - e, - j, - oo, - t, - y, - D, - D, - y, - t, - oo, - j, - e,
     0, e, j, oo, t, y, D],
     [g, n, u, B, D, w, p, i, b, - e, - l, - s, - z, - F, - y, - r, - k, - d, c, j, q, x, E, A, t, m, f, - a0,
     - h, - oo, - v, - C],
     [i, r, A, C, t, k, b, - g, - p, - y, - E, - v, - m, - d, e, n, w, F, x, oo, f, - c, - l, - u, - D, - z, -
     q, - h, a0, j, s, B],
     [k, v, F, u, j, - a0, - l, - w, - E, - t, - i, b, m, x, D, s, h, - c, - n, - y, - C, - r, - g, d, oo, z,
     B, q, f, - e, - p, - A],
     [m, z, z, m, 0, - m, - z, - z, - m, 0, m, z, z, m, 0, - m, - z, - z, - m, 0, m, z, z, m, 0, - m, - z, -
     z, - m, 0, m, z],
     [oo, D, t, e, - j, - y, - y, - j, e, t, D, oo, 0, - oo, - D, - t, - e, j, y, y, j, - e, - t, - D, - oo,
     0, oo, D, t, e, - j, - y],
     [q, E, n, - c, - t, - B, - k, f, w, y, h, - i, - z, - v, - e, l, C, s, b, - oo, - F, - p, a0, r, D, m, -
     d, - u, - A, - j, g, x],
     [s, A, h, - k, - D, - p, c, v, x, e, - n, - F, - m, f, y, u, b, - q, - C, - j, i, B, r, - a0, - t, - z, -
     g, l, E, oo, - d, - w],
     [u, w, b, - s, - y, - d, q, A, f, - oo, - C, - h, m, E, j, - k, - F, - l, i, D, n, - g, - B, - p, e, z,
     r, - c, - x, - t, a0, v],
     [w, s, - d, - A, - oo, h, E, k, - l, - D, - g, p, z, c, - t, - v, a0, x, r, - e, - B, - n, i, F, j, - m, -
     C, - f, q, y, b, - u],
     [y, oo, - j, - D, - e, t, t, - e, - D, - j, oo, y, 0, - y, - oo, j, D, e, - t, - t, e, D, j, - oo, - y,
     0, y, oo, - j, - D, - e, t],
     [A, k, - p, - v, e, F, f, - u, - q, j, B, a0, - z, - l, oo, w, - d, - E, - g, t, r, - i, - C, - b, y, m, -
     n, - x, c, D, h, - s],
     [C, g, - v, - n, oo, u, - h, - B, a0, D, f, - w, - m, p, t, - i, - A, b, E, e, - x, - l, q, s, - j, - z,
     c, F, d, - y, - k, r],
     [E, c, - B, - f, y, i, - v, - l, s, oo, - p, - r, m, u, - j, - x, g, A, - d, - D, a0, F, b, - C, - e, z,
     h, - w, - k, t, n, - q],
     [F, - a0, - E, b, D, - c, - C, d, B, - e, - A, f, z, - g, - y, h, x, - i, - w, j, v, - k, - u, l, t, - m,
     - s, n, r, - oo, - q, p],
     [D, - e, - y, j, t, - oo, - oo, t, j, - y, - e, D, 0, - D, e, y, - j, - t, oo, oo, - t, - j, y, e, - D,
     0, D, - e, - y, j, t, - oo],
     [B, - i, - s, r, j, - A, - a0, C, - h, - t, q, k, - z, - b, D, - g, - u, p, l, - y, - c, E, - f, - v, oo,
     m, - x, - d, F, - e, - w, n],
     [z, - m, - m, z, 0, - z, m, m, - z, 0, z, - m, - m, z, 0, - z, m, m, - z, 0, z, - m, - m, z, 0, - z, m,
     m, - z, 0, z, - m],
     [x, - q, - g, E, - j, - n, A, - c, - u, t, d, - B, m, k, - D, f, r, - w, - a0, y, - p, - h, F, - i, - oo,
     z, - b, - v, s, e, - C, l],
     [v, - u, - a0, w, - t, - b, x, - s, - c, y, - r, - d, z, - q, - e, A, - p, - f, B, - oo, - g, C, - n, - h,
     D, - m, - i, E, - l, - j, F, - k],
     [t, - y, e, oo, - D, j, j, - D, oo, e, - y, t, 0, - t, y, - e, - oo, D, - j, - j, D, - oo, - e, y, - t,
     0, t, - y, e, oo, - D, j],
     [r, - C, k, g, - y, v, - d, - n, F, - oo, - c, u, - z, h, j, - B, s, - a0, - q, D, - l, - f, x, - w, e, m,
     - E, p, b, - t, A, - i],
     [p, - F, q, - a0, - oo, E, - r, b, n, - D, s, - c, - m, C, - t, d, l, - B, u, - e, - k, A, - v, f, j, - z,
     w, - g, - i, y, - x, h],
     [n, - B, w, - i, - e, s, - F, r, - d, - j, x, - A, m, a0, - oo, C, - v, h, f, - t, E, - q, c, k, - y, z, -
     l, - b, p, - D, u, - g],
     [l, - x, C, - q, e, g, - s, E, - v, j, b, - n, z, - A, oo, - c, - i, u, - F, t, - h, - d, p, - B, y, - m,
     a0, k, - w, D, - r, f],
     [j, - t, D, - y, oo, - e, - e, oo, - y, D, - t, j, 0, - j, t, - D, y, - oo, e, e, - oo, y, - D, t, - j,
     0, j, - t, D, - y, oo, - e],
     [h, - p, x, - F, y, - q, i, - a0, - g, oo, - w, E, - z, r, - j, b, f, - n, v, - D, A, - s, k, - c, - e, m,
     - u, C, - B, t, - l, d],
     [f, - l, r, - x, D, - C, w, - q, k, - e, - a0, g, - m, s, - y, E, - B, v, - p, j, - d, - b, h, - n, t, -
     z, F, - A, u, - oo, i, - c],
     [d, - h, l, - p, t, - x, B, - F, C, - y, u, - q, m, - i, e, - a0, - c, g, - k, oo, - s, w, - A, E, - D, z,
     - v, r, - n, j, - f, b],
     [b, - d, f, - h, j, - l, n, - p, r, - t, v, - x, z, - B, D, - F, E, - C, A, - y, w, - u, s, - q, oo, - m,
     k, - i, g, - e, c, - a0]]"

definition g_trCoreDST7P32 :: "int list list list" where
  "g_trCoreDST7P32 = [
     DEFINE_DST7_P32_MATRIX 4 9 13 17 21 26 30 34 38 42 46 50 53 56 60 63 66 68 72 74 77 78 80 82 84 85 86 87
     88 89 90 90,
     DEFINE_DST7_P32_MATRIX 4 9 13 17 21 26 30 34 38 42 46 50 53 56 60 63 66 68 72 74 77 78 80 82 84 85 86 87
     88 89 90 90]"

end
