(* ===== verification/Transforms.thy ===== *)
theory Transforms
  imports TransformTables CommonAlgorithms
begin

text \<open>
  The one-dimensional transforms of \<open>source/Lib/CommonLib/TrQuant_EMT.cpp\<close>: matrix multiplication and, for
  the cosine transform II up to 64 points, partial butterflies. An array of coefficients behind a pointer
  is a function from offsets, so a pointer that advances is a shift of the offset. Coefficients are integers:
  the results are those of the program as long as no sum leaves 32 bits.
\<close>

type_synonym coeffs = "nat \<Rightarrow> int"

section \<open>Memory\<close>

text \<open>The assignments \<open>dst[off] = v\<close> in order, with \<open>dst\<close> advanced by \<open>p\<close>.\<close>

definition store :: "nat \<Rightarrow> (nat \<times> int) list \<Rightarrow> coeffs \<Rightarrow> coeffs" where
  "store p ws dst = fold (\<lambda>(off, v) dst. dst(p + off := v)) ws dst"

definition memset0 :: "nat \<Rightarrow> nat \<Rightarrow> coeffs \<Rightarrow> coeffs" where
  "memset0 p n dst = (\<lambda>i. if p \<le> i \<and> i < p + n then 0 else dst i)"

text \<open>A matrix as the program addresses it, from its first element.\<close>

definition flat :: "nat \<Rightarrow> int list list \<Rightarrow> coeffs" where
  "flat N T i = T ! (i div N) ! (i mod N)"

definition for_step :: "nat \<Rightarrow> nat \<Rightarrow> nat \<Rightarrow> nat list" where
  "for_step a b d = map (\<lambda>i. a + d * i) [0..<(b - a + d - 1) div d]"

text \<open>
  The loop over the lines: a forward transform reads \<open>N\<close> samples and writes a column, an inverse transform
  reads a column and writes \<open>N\<close> samples.
\<close>

definition forward_lines :: "nat \<Rightarrow> nat \<Rightarrow> (coeffs \<Rightarrow> (nat \<times> int) list) \<Rightarrow> coeffs \<Rightarrow> coeffs \<Rightarrow> coeffs" where
  "forward_lines N reducedLine body src dst = fold (\<lambda>j. store j (body (\<lambda>k. src (N * j + k)))) [0..<reducedLine] dst"

definition inverse_lines :: "nat \<Rightarrow> nat \<Rightarrow> (coeffs \<Rightarrow> (nat \<times> int) list) \<Rightarrow> coeffs \<Rightarrow> coeffs \<Rightarrow> coeffs" where
  "inverse_lines N reducedLine body src dst = fold (\<lambda>j. store (N * j) (body (\<lambda>k. src (j + k)))) [0..<reducedLine] dst"

definition clear_columns :: "nat \<Rightarrow> nat \<Rightarrow> nat \<Rightarrow> nat \<Rightarrow> coeffs \<Rightarrow> coeffs" where
  "clear_columns reducedLine line iSkipLine rows dst =
     (if iSkipLine \<noteq> 0 then fold (\<lambda>j. memset0 (reducedLine + j * line) iSkipLine) [0..<rows] dst else dst)"

definition clear_lines :: "nat \<Rightarrow> nat \<Rightarrow> coeffs \<Rightarrow> coeffs" where
  "clear_lines p n dst = (if n \<noteq> 0 then memset0 p n dst else dst)"

section \<open>Matrix multiplication\<close>

definition fastForwardMM ::
  "nat \<Rightarrow> coeffs \<Rightarrow> coeffs \<Rightarrow> nat \<Rightarrow> nat \<Rightarrow> nat \<Rightarrow> nat \<Rightarrow> coeffs \<Rightarrow> coeffs" where
  "fastForwardMM uiTrSize src dst shift line iSkipLine iSkipLine2 tc =
    (let rnd_factor = 2 ^ (shift - 1);
         reducedLine = line - iSkipLine;
         cutoff = uiTrSize - iSkipLine2;
         dst = fold (\<lambda>i dst. fold (\<lambda>j dst.
             let iSum = fold (\<lambda>k iSum. iSum + src (uiTrSize * i + k) * tc (uiTrSize * j + k)) [0..<uiTrSize] 0
             in dst(i + j * line := drop_bit shift (iSum + rnd_factor))) [0..<cutoff] dst) [0..<reducedLine] dst;
         dst = clear_columns reducedLine line iSkipLine cutoff dst
     in clear_lines (line * cutoff) (line * iSkipLine2) dst)"

definition fastInverseMM ::
  "nat \<Rightarrow> coeffs \<Rightarrow> coeffs \<Rightarrow> nat \<Rightarrow> nat \<Rightarrow> nat \<Rightarrow> nat \<Rightarrow> int \<Rightarrow> int \<Rightarrow> coeffs \<Rightarrow> coeffs" where
  "fastInverseMM uiTrSize src dst shift line iSkipLine iSkipLine2 outputMinimum outputMaximum iT =
    (let rnd_factor = 2 ^ (shift - 1);
         reducedLine = line - iSkipLine;
         cutoff = uiTrSize - iSkipLine2;
         dst = fold (\<lambda>i dst. fold (\<lambda>j dst.
             let iSum = fold (\<lambda>k iSum. iSum + src (k * line + i) * iT (k * uiTrSize + j)) [0..<cutoff] 0
             in dst(i * uiTrSize + j := Clip3 outputMinimum outputMaximum (drop_bit shift (iSum + rnd_factor))))
           [0..<uiTrSize] dst) [0..<reducedLine] dst
     in clear_lines (reducedLine * uiTrSize) (iSkipLine * uiTrSize) dst)"

section \<open>What the loops compute\<close>

lemma store_map:
  assumes "inj g"
  shows "store p (map (\<lambda>k. (g k, v k)) ks) dst x = (if \<exists>k\<in>set ks. x = p + g k then v (inv g (x - p)) else dst x)"
proof (induction ks rule: rev_induct)
  case (snoc k ks)
  have "store p (map (\<lambda>k. (g k, v k)) (ks @ [k])) dst x
      = (if x = p + g k then v k else store p (map (\<lambda>k. (g k, v k)) ks) dst x)"
    by (simp add: store_def)
  then show ?case using snoc assms by (auto simp: inv_f_f)
qed (simp add: store_def)

lemma store_rows:
  assumes "0 < line" "j < line"
  shows "store j (map (\<lambda>k. (k * line, v k)) ks) dst x
    = (if x mod line = j \<and> x div line \<in> set ks then v (x div line) else dst x)"
proof -
  have inj: "inj (\<lambda>k. k * line)" using assms(1) by (auto intro: injI)
  have "(x = j + k * line) = (x mod line = j \<and> x div line = k)" for k
    using assms by (metis add.commute div_mult_self1 div_less add_0 mod_less mod_mult_self1 mult.commute mod_div_decomp
        less_irrefl_nat bot_nat_0.not_eq_extremum)
  moreover have "inv (\<lambda>k. k * line) (k * line) = k" for k by (rule inv_f_f [OF inj])
  ultimately show ?thesis unfolding store_map [OF inj] by (auto simp: mult.commute minus_mod_eq_mult_div [symmetric])
      (metis add_diff_cancel_left' mod_div_decomp mult.commute)+
qed

lemma store_samples:
  "store p (map (\<lambda>k. (k, v k)) ks) dst x = (if p \<le> x \<and> x - p \<in> set ks then v (x - p) else dst x)"
  using store_map [of "\<lambda>k. k"] by (auto simp: inv_f_f [of "\<lambda>k. k"])

lemma forward_lines_value:
  assumes "\<And>s. body s = map (\<lambda>k. (k * line, V s k)) ks" and "n \<le> line"
  shows "forward_lines N n body src dst x
    = (if x mod line < n \<and> x div line \<in> set ks then V (\<lambda>k. src (N * (x mod line) + k)) (x div line) else dst x)"
  using assms(2)
proof (induction n)
  case 0
  then show ?case by (simp add: forward_lines_def)
next
  case (Suc n)
  have "forward_lines N (Suc n) body src dst x = store n (body (\<lambda>k. src (N * n + k))) (forward_lines N n body src dst) x"
    by (simp add: forward_lines_def)
  also have "\<dots> = (if x mod line = n \<and> x div line \<in> set ks then V (\<lambda>k. src (N * n + k)) (x div line)
      else forward_lines N n body src dst x)"
    unfolding assms(1) [of "\<lambda>k. src (N * n + k)"] by (rule store_rows) (use Suc.prems in auto)
  finally show ?case using Suc by (auto simp: less_Suc_eq)
qed

lemma inverse_lines_value:
  assumes "\<And>s. body s = map (\<lambda>k. (k, V s k)) ks" and "set ks = {..<N}" and "0 < N"
  shows "inverse_lines N n body src dst x
    = (if x < N * n then V (\<lambda>k. src (x div N + k)) (x mod N) else dst x)"
proof (induction n)
  case 0
  then show ?case by (simp add: inverse_lines_def)
next
  case (Suc n)
  have "inverse_lines N (Suc n) body src dst x = store (N * n) (body (\<lambda>k. src (n + k))) (inverse_lines N n body src dst) x"
    by (simp add: inverse_lines_def)
  also have "\<dots> = (if N * n \<le> x \<and> x - N * n < N then V (\<lambda>k. src (n + k)) (x - N * n) else inverse_lines N n body src dst x)"
    unfolding assms(1) [of "\<lambda>k. src (n + k)"] store_samples assms(2) by simp
  finally have s: "inverse_lines N (Suc n) body src dst x = \<dots>" .
  have "x div N = n \<and> x - N * n = x mod N" if "N * n \<le> x" "x < N * Suc n"
    using that assms(3) by (metis div_nat_eqI mult.commute minus_mult_div_eq_mod)
  moreover have "N * n \<le> x \<and> x - N * n < N \<longleftrightarrow> N * n \<le> x \<and> x < N * Suc n" by auto
  moreover have "x < N * n \<Longrightarrow> x < N * Suc n" by simp
  ultimately show ?case unfolding s Suc.IH by (auto simp: not_le)
qed

lemma clear_columns_value:
  assumes "line = n + skip" "0 < line"
  shows "clear_columns n line skip rows dst x = (if n \<le> x mod line \<and> x div line < rows then 0 else dst x)"
proof (cases "skip = 0")
  case True
  then have "\<not> n \<le> x mod line" using mod_less_divisor [OF assms(2), of x] assms(1) by simp
  then show ?thesis using True by (simp add: clear_columns_def)
next
  case False
  have "fold (\<lambda>j. memset0 (n + j * line) skip) [0..<rows] dst x = (if n \<le> x mod line \<and> x div line < rows then 0 else dst x)"
  proof (induction rows)
    case (Suc r)
    have "n + r * line \<le> x \<and> x < n + r * line + skip \<longleftrightarrow> n \<le> x mod line \<and> x div line = r"
    proof
      assume a: "n + r * line \<le> x \<and> x < n + r * line + skip"
      then have "x div line = r" using assms by (intro div_nat_eqI) (auto simp: mult.commute)
      then show "n \<le> x mod line \<and> x div line = r" using a div_mult_mod_eq [of x line] by (auto simp: mult.commute)
    next
      assume a: "n \<le> x mod line \<and> x div line = r"
      then show "n + r * line \<le> x \<and> x < n + r * line + skip"
        using div_mult_mod_eq [of x line] mod_less_divisor [OF assms(2), of x] assms(1) by auto
    qed
    then show ?case using Suc by (simp add: memset0_def less_Suc_eq) metis
  qed simp
  then show ?thesis using False by (simp add: clear_columns_def)
qed

lemma fold_sum: "fold (\<lambda>k acc. acc + f k) [0..<n] (a :: int) = a + (\<Sum>k<n. f k)"
  by (induction n) simp_all

text \<open>The rounded product of a row of the matrix with a line of samples, and of a column.\<close>

definition row_value :: "nat \<Rightarrow> int list list \<Rightarrow> nat \<Rightarrow> coeffs \<Rightarrow> nat \<Rightarrow> int" where
  "row_value N T shift s k = drop_bit shift ((\<Sum>i<N. T ! k ! i * s i) + 2 ^ (shift - 1))"

definition column_value :: "nat \<Rightarrow> int list list \<Rightarrow> nat \<Rightarrow> nat \<Rightarrow> int \<Rightarrow> int \<Rightarrow> coeffs \<Rightarrow> nat \<Rightarrow> int" where
  "column_value N T shift line lo hi s j = Clip3 lo hi (drop_bit shift ((\<Sum>k<N. T ! k ! j * s (k * line)) + 2 ^ (shift - 1)))"

lemma flat_row: "i < N \<Longrightarrow> flat N T (N * k + i) = T ! k ! i" "i < N \<Longrightarrow> flat N T (k * N + i) = T ! k ! i"
  "i < N \<Longrightarrow> flat N T (i + N * k) = T ! k ! i" "i < N \<Longrightarrow> flat N T (i + k * N) = T ! k ! i"
  by (simp_all add: flat_def)

lemma fastForwardMM_value:
  assumes "skip \<le> line" "0 < line" "skip2 \<le> N"
  shows "fastForwardMM N src dst shift line skip skip2 (flat N T) x
    = (if x div line < N
       then if x mod line < line - skip \<and> x div line < N - skip2
            then row_value N T shift (\<lambda>k. src (N * (x mod line) + k)) (x div line) else 0
       else dst x)"
proof -
  let ?body = "\<lambda>s. map (\<lambda>k. (k * line, row_value N T shift s k)) [0..<N - skip2]"
  have b: "fold (\<lambda>j dst. let iSum = fold (\<lambda>k iSum. iSum + src (N * i + k) * flat N T (N * j + k)) [0..<N] 0
             in dst(i + j * line := drop_bit shift (iSum + 2 ^ (shift - 1)))) [0..<N - skip2] dst
      = store i (?body (\<lambda>k. src (N * i + k))) dst" for i dst
  proof -
    have "(\<Sum>k<N. src (N * i + k) * flat N T (N * j + k)) = (\<Sum>k<N. T ! j ! k * src (N * i + k))" for j
      by (intro sum.cong) (simp_all add: flat_row)
    then show ?thesis by (simp add: store_def fold_map o_def fold_sum row_value_def)
  qed
  define d where "d = forward_lines N (line - skip) ?body src dst"
  have d: "d x = (if x mod line < line - skip \<and> x div line < N - skip2
      then row_value N T shift (\<lambda>k. src (N * (x mod line) + k)) (x div line) else dst x)"
    unfolding d_def by (subst forward_lines_value [of _ line "row_value N T shift" "[0..<N - skip2]"]) auto
  have c: "line * (N - skip2) \<le> x \<and> x < line * (N - skip2) + line * skip2 \<longleftrightarrow> N - skip2 \<le> x div line \<and> x div line < N"
    using assms by (metis add_mult_distrib2 div_less_iff_less_mult le_add_diff_inverse2 less_eq_div_iff_mult_less_eq mult.commute)
  have "fastForwardMM N src dst shift line skip skip2 (flat N T)
      = clear_lines (line * (N - skip2)) (line * skip2) (clear_columns (line - skip) line skip (N - skip2) d)"
    unfolding fastForwardMM_def Let_def b [unfolded Let_def] d_def forward_lines_def ..
  then have "fastForwardMM N src dst shift line skip skip2 (flat N T) x
      = (if N - skip2 \<le> x div line \<and> x div line < N then 0 else clear_columns (line - skip) line skip (N - skip2) d x)"
    using c by (auto simp: clear_lines_def memset0_def)
  also have "clear_columns (line - skip) line skip (N - skip2) d x
      = (if line - skip \<le> x mod line \<and> x div line < N - skip2 then 0 else d x)"
    using assms by (intro clear_columns_value) auto
  finally show ?thesis using d assms by auto
qed

lemma fastInverseMM_value:
  assumes "0 < N" "skip2 \<le> N" and zero: "\<And>k i. N - skip2 \<le> k \<Longrightarrow> k < N \<Longrightarrow> i < line - skip \<Longrightarrow> src (k * line + i) = 0"
  shows "fastInverseMM N src dst shift line skip skip2 lo hi (flat N T) x
    = (if x < N * (line - skip) then column_value N T shift line lo hi (\<lambda>k. src (x div N + k)) (x mod N)
       else if x < N * (line - skip) + skip * N then 0 else dst x)"
proof -
  let ?V = "\<lambda>s j. Clip3 lo hi (drop_bit shift ((\<Sum>k<N - skip2. T ! k ! j * s (k * line)) + 2 ^ (shift - 1)))"
  let ?body = "\<lambda>s. map (\<lambda>k. (k, ?V s k)) [0..<N]"
  have "(\<Sum>k<N - skip2. src (k * line + i) * flat N T (k * N + j)) = (\<Sum>k<N - skip2. T ! k ! j * src (i + k * line))"
    if "j < N" for i j using that by (intro sum.cong) (simp_all add: flat_row add.commute)
  then have b: "fold (\<lambda>j dst. let iSum = fold (\<lambda>k iSum. iSum + src (k * line + i) * flat N T (k * N + j)) [0..<N - skip2] 0
             in dst(i * N + j := Clip3 lo hi (drop_bit shift (iSum + 2 ^ (shift - 1))))) [0..<N] dst
      = store (N * i) (?body (\<lambda>k. src (i + k))) dst" for i dst
    unfolding store_def fold_map by (intro fold_cong) (auto simp: fold_sum o_def mult.commute)
  define d where "d = inverse_lines N (line - skip) ?body src dst"
  have d: "d x = (if x < N * (line - skip) then ?V (\<lambda>k. src (x div N + k)) (x mod N) else dst x)"
    unfolding d_def by (rule inverse_lines_value) (use assms(1) in auto)
  have "fastInverseMM N src dst shift line skip skip2 lo hi (flat N T) = clear_lines ((line - skip) * N) (skip * N) d"
    unfolding fastInverseMM_def Let_def b [unfolded Let_def] d_def inverse_lines_def ..
  moreover have "?V (\<lambda>k. src (x div N + k)) j = column_value N T shift line lo hi (\<lambda>k. src (x div N + k)) j"
    if "x < N * (line - skip)" for j
  proof -
    have i: "x div N < line - skip" using that assms(1) by (simp add: div_less_iff_less_mult mult.commute)
    have "(\<Sum>k<N. T ! k ! j * src (x div N + k * line)) = (\<Sum>k<N - skip2. T ! k ! j * src (x div N + k * line))"
      by (rule sum.mono_neutral_right) (auto simp: zero [OF _ _ i] add.commute [of "x div N"] not_less)
    then show ?thesis by (simp add: column_value_def)
  qed
  ultimately show ?thesis using d by (auto simp: clear_lines_def memset0_def mult.commute)
qed

end
