(* ===== verification/CosineTransforms.thy ===== *)
theory CosineTransforms
  imports Transforms
begin

text \<open>
  The partial butterflies of the cosine transform II, for 2 to 64 points, from
  \<open>source/Lib/CommonLib/TrQuant_EMT.cpp\<close>. The definitions with the suffix \<open>line\<close> are the bodies of the loops
  over the lines: the assignments through \<open>dst\<close> in their order. Each transform is shown to be the matrix
  multiplication with its table.
\<close>

definition fastForwardDCT2_B2_line ::
  "coeffs \<Rightarrow> int \<Rightarrow> nat \<Rightarrow> nat \<Rightarrow> coeffs \<Rightarrow> (nat \<times> int) list" where
  "fastForwardDCT2_B2_line iT add shift line src =
    (let
       Ev = src 0 + src 1;
       Od = src 0 - src 1
     in [(0, drop_bit shift (iT 0 * Ev + add)),
         (line, drop_bit shift (iT 2 * Od + add))])"

definition fastForwardDCT2_B2 ::
  "coeffs \<Rightarrow> coeffs \<Rightarrow> nat \<Rightarrow> nat \<Rightarrow> nat \<Rightarrow> nat \<Rightarrow> coeffs" where
  "fastForwardDCT2_B2 src dst shift line iSkipLine iSkipLine2 =
    (let add = if shift > 0 then 2 ^ (shift - 1) else 0;
         iT = flat 2 (g_trCoreDCT2P2 ! TRANSFORM_FORWARD);
         reducedLine = line - iSkipLine;
         dst = forward_lines 2 reducedLine (fastForwardDCT2_B2_line iT add shift line) src dst
     in clear_columns reducedLine line iSkipLine 2 dst)"

definition fastInverseDCT2_B2_line ::
  "coeffs \<Rightarrow> int \<Rightarrow> nat \<Rightarrow> nat \<Rightarrow> int \<Rightarrow> int \<Rightarrow> coeffs \<Rightarrow> (nat \<times> int) list" where
  "fastInverseDCT2_B2_line iT add shift line outputMinimum outputMaximum src =
    (let
       Ev = iT 0 * (src 0 + src line);
       Od = iT 2 * (src 0 - src line)
     in [(0, Clip3 outputMinimum outputMaximum (drop_bit shift (Ev + add))),
         (1, Clip3 outputMinimum outputMaximum (drop_bit shift (Od + add)))])"

definition fastInverseDCT2_B2 ::
  "coeffs \<Rightarrow> coeffs \<Rightarrow> nat \<Rightarrow> nat \<Rightarrow> nat \<Rightarrow> nat \<Rightarrow> int \<Rightarrow> int \<Rightarrow> coeffs" where
  "fastInverseDCT2_B2 src dst shift line iSkipLine iSkipLine2 outputMinimum outputMaximum =
    (let add = 2 ^ (shift - 1);
         iT = flat 2 (g_trCoreDCT2P2 ! TRANSFORM_INVERSE);
         reducedLine = line - iSkipLine;
         dst = inverse_lines 2 reducedLine (fastInverseDCT2_B2_line iT add shift line outputMinimum outputMaximum) src dst
     in clear_lines (2 * reducedLine) (2 * iSkipLine) dst)"

definition fastForwardDCT2_B4_line ::
  "coeffs \<Rightarrow> int \<Rightarrow> nat \<Rightarrow> nat \<Rightarrow> coeffs \<Rightarrow> (nat \<times> int) list" where
  "fastForwardDCT2_B4_line iT add shift line src =
    (let
       Ev = nth [src 0 + src 3, src 1 + src 2];
       Od = nth [src 0 - src 3, src 1 - src 2]
     in [(0, drop_bit shift (iT 0 * Ev 0 + iT 1 * Ev 1 + add)),
         (2 * line, drop_bit shift (iT 8 * Ev 0 + iT 9 * Ev 1 + add)),
         (line, drop_bit shift (iT 4 * Od 0 + iT 5 * Od 1 + add)),
         (3 * line, drop_bit shift (iT 12 * Od 0 + iT 13 * Od 1 + add))])"

definition fastForwardDCT2_B4 ::
  "coeffs \<Rightarrow> coeffs \<Rightarrow> nat \<Rightarrow> nat \<Rightarrow> nat \<Rightarrow> nat \<Rightarrow> coeffs" where
  "fastForwardDCT2_B4 src dst shift line iSkipLine iSkipLine2 =
    (let add = if shift > 0 then 2 ^ (shift - 1) else 0;
         iT = flat 4 (g_trCoreDCT2P4 ! TRANSFORM_FORWARD);
         reducedLine = line - iSkipLine;
         dst = forward_lines 4 reducedLine (fastForwardDCT2_B4_line iT add shift line) src dst
     in clear_columns reducedLine line iSkipLine 4 dst)"

definition fastInverseDCT2_B4_line ::
  "coeffs \<Rightarrow> int \<Rightarrow> nat \<Rightarrow> nat \<Rightarrow> int \<Rightarrow> int \<Rightarrow> coeffs \<Rightarrow> (nat \<times> int) list" where
  "fastInverseDCT2_B4_line iT add shift line outputMinimum outputMaximum src =
    (let
       Od = nth [iT (1 * 4 + 0) * src line + iT (3 * 4 + 0) * src (3 * line), iT (1 * 4 + 1) * src line + iT (3
           * 4 + 1) * src (3 * line)];
       Ev = nth [iT (0 * 4 + 0) * src 0 + iT (2 * 4 + 0) * src (2 * line), iT (0 * 4 + 1) * src 0 + iT (2 * 4 +
           1) * src (2 * line)]
     in [(0, Clip3 outputMinimum outputMaximum (drop_bit shift (Ev 0 + Od 0 + add))),
         (1, Clip3 outputMinimum outputMaximum (drop_bit shift (Ev 1 + Od 1 + add))),
         (2, Clip3 outputMinimum outputMaximum (drop_bit shift (Ev 1 - Od 1 + add))),
         (3, Clip3 outputMinimum outputMaximum (drop_bit shift (Ev 0 - Od 0 + add)))])"

definition fastInverseDCT2_B4 ::
  "coeffs \<Rightarrow> coeffs \<Rightarrow> nat \<Rightarrow> nat \<Rightarrow> nat \<Rightarrow> nat \<Rightarrow> int \<Rightarrow> int \<Rightarrow> coeffs" where
  "fastInverseDCT2_B4 src dst shift line iSkipLine iSkipLine2 outputMinimum outputMaximum =
    (let add = 2 ^ (shift - 1);
         iT = flat 4 (g_trCoreDCT2P4 ! TRANSFORM_INVERSE);
         reducedLine = line - iSkipLine;
         dst = inverse_lines 4 reducedLine (fastInverseDCT2_B4_line iT add shift line outputMinimum outputMaximum) src dst
     in clear_lines (4 * reducedLine) (4 * iSkipLine) dst)"

definition fastForwardDCT2_B8_line ::
  "coeffs \<Rightarrow> int \<Rightarrow> nat \<Rightarrow> nat \<Rightarrow> coeffs \<Rightarrow> (nat \<times> int) list" where
  "fastForwardDCT2_B8_line iT add shift line src =
    (let
       Ev = (\<lambda>k. src k + src (7 - k));
       Od = (\<lambda>k. src k - src (7 - k));
       EE = nth [Ev 0 + Ev 3, Ev 1 + Ev 2];
       EO = nth [Ev 0 - Ev 3, Ev 1 - Ev 2]
     in [(0, drop_bit shift (iT 0 * EE 0 + iT 1 * EE 1 + add)),
         (4 * line, drop_bit shift (iT 32 * EE 0 + iT 33 * EE 1 + add)),
         (2 * line, drop_bit shift (iT 16 * EO 0 + iT 17 * EO 1 + add)),
         (6 * line, drop_bit shift (iT 48 * EO 0 + iT 49 * EO 1 + add)),
         (line, drop_bit shift (iT 8 * Od 0 + iT 9 * Od 1 + iT 10 * Od 2 + iT 11 * Od 3 + add)),
         (3 * line, drop_bit shift (iT 24 * Od 0 + iT 25 * Od 1 + iT 26 * Od 2 + iT 27 * Od 3 + add)),
         (5 * line, drop_bit shift (iT 40 * Od 0 + iT 41 * Od 1 + iT 42 * Od 2 + iT 43 * Od 3 + add)),
         (7 * line, drop_bit shift (iT 56 * Od 0 + iT 57 * Od 1 + iT 58 * Od 2 + iT 59 * Od 3 + add))])"

definition fastForwardDCT2_B8 ::
  "coeffs \<Rightarrow> coeffs \<Rightarrow> nat \<Rightarrow> nat \<Rightarrow> nat \<Rightarrow> nat \<Rightarrow> coeffs" where
  "fastForwardDCT2_B8 src dst shift line iSkipLine iSkipLine2 =
    (let add = if shift > 0 then 2 ^ (shift - 1) else 0;
         iT = flat 8 (g_trCoreDCT2P8 ! TRANSFORM_FORWARD);
         reducedLine = line - iSkipLine;
         dst = forward_lines 8 reducedLine (fastForwardDCT2_B8_line iT add shift line) src dst
     in clear_columns reducedLine line iSkipLine 8 dst)"

definition fastInverseDCT2_B8_line ::
  "coeffs \<Rightarrow> int \<Rightarrow> nat \<Rightarrow> nat \<Rightarrow> int \<Rightarrow> int \<Rightarrow> coeffs \<Rightarrow> (nat \<times> int) list" where
  "fastInverseDCT2_B8_line iT add shift line outputMinimum outputMaximum src =
    (let
       Od = (\<lambda>k. iT (1 * 8 + k) * src line + iT (3 * 8 + k) * src (3 * line) + iT (5 * 8 + k) * src (5 *
           line) + iT (7 * 8 + k) * src (7 * line));
       EO = nth [iT (2 * 8 + 0) * src (2 * line) + iT (6 * 8 + 0) * src (6 * line), iT (2 * 8 + 1) * src (2 *
           line) + iT (6 * 8 + 1) * src (6 * line)];
       EE = nth [iT (0 * 8 + 0) * src 0 + iT (4 * 8 + 0) * src (4 * line), iT (0 * 8 + 1) * src 0 + iT (4 * 8 +
           1) * src (4 * line)];
       Ev = nth [EE 0 + EO 0, EE 1 + EO 1, EE 1 - EO 1, EE 0 - EO 0]
     in concat (map (\<lambda>k. [(k, Clip3 outputMinimum outputMaximum (drop_bit shift (Ev k + Od k + add))),
         (k + 4, Clip3 outputMinimum outputMaximum (drop_bit shift (Ev (3 - k) - Od (3 - k) + add)))]) [0..<4]))"

definition fastInverseDCT2_B8 ::
  "coeffs \<Rightarrow> coeffs \<Rightarrow> nat \<Rightarrow> nat \<Rightarrow> nat \<Rightarrow> nat \<Rightarrow> int \<Rightarrow> int \<Rightarrow> coeffs" where
  "fastInverseDCT2_B8 src dst shift line iSkipLine iSkipLine2 outputMinimum outputMaximum =
    (let add = 2 ^ (shift - 1);
         iT = flat 8 (g_trCoreDCT2P8 ! TRANSFORM_INVERSE);
         reducedLine = line - iSkipLine;
         dst = inverse_lines 8 reducedLine (fastInverseDCT2_B8_line iT add shift line outputMinimum outputMaximum) src dst
     in clear_lines (8 * reducedLine) (8 * iSkipLine) dst)"

definition fastForwardDCT2_B16_line ::
  "coeffs \<Rightarrow> int \<Rightarrow> nat \<Rightarrow> nat \<Rightarrow> coeffs \<Rightarrow> (nat \<times> int) list" where
  "fastForwardDCT2_B16_line iT add shift line src =
    (let
       Ev = (\<lambda>k. src k + src (15 - k));
       Od = (\<lambda>k. src k - src (15 - k));
       EE = (\<lambda>k. Ev k + Ev (7 - k));
       EO = (\<lambda>k. Ev k - Ev (7 - k));
       EEE = nth [EE 0 + EE 3, EE 1 + EE 2];
       EEO = nth [EE 0 - EE 3, EE 1 - EE 2]
     in [(0, drop_bit shift (iT 0 * EEE 0 + iT 1 * EEE 1 + add)),
         (8 * line, drop_bit shift (iT (8 * 16) * EEE 0 + iT (8 * 16 + 1) * EEE 1 + add)),
         (4 * line, drop_bit shift (iT (4 * 16) * EEO 0 + iT (4 * 16 + 1) * EEO 1 + add)),
         (12 * line, drop_bit shift (iT (12 * 16) * EEO 0 + iT (12 * 16 + 1) * EEO 1 + add))]
        @ map (\<lambda>k. (k * line, drop_bit shift (iT (k * 16) * EO 0 + iT (k * 16 + 1) * EO 1 + iT (k * 16 + 2) * EO 2 + iT (k
             * 16 + 3) * EO 3 + add))) (for_step 2 16 4)
        @ map (\<lambda>k. (k * line, drop_bit shift (iT (k * 16) * Od 0 + iT (k * 16 + 1) * Od 1 + iT (k * 16 + 2) * Od 2 + iT (k
             * 16 + 3) * Od 3 + iT (k * 16 + 4) * Od 4 + iT (k * 16 + 5) * Od 5 + iT (k * 16 + 6) * Od 6 + iT (k
             * 16 + 7) * Od 7 + add))) (for_step 1 16 2))"

definition fastForwardDCT2_B16 ::
  "coeffs \<Rightarrow> coeffs \<Rightarrow> nat \<Rightarrow> nat \<Rightarrow> nat \<Rightarrow> nat \<Rightarrow> coeffs" where
  "fastForwardDCT2_B16 src dst shift line iSkipLine iSkipLine2 =
    (let add = if shift > 0 then 2 ^ (shift - 1) else 0;
         iT = flat 16 (g_trCoreDCT2P16 ! TRANSFORM_FORWARD);
         reducedLine = line - iSkipLine;
         dst = forward_lines 16 reducedLine (fastForwardDCT2_B16_line iT add shift line) src dst
     in clear_columns reducedLine line iSkipLine 16 dst)"

definition fastInverseDCT2_B16_line ::
  "coeffs \<Rightarrow> int \<Rightarrow> nat \<Rightarrow> nat \<Rightarrow> int \<Rightarrow> int \<Rightarrow> coeffs \<Rightarrow> (nat \<times> int) list" where
  "fastInverseDCT2_B16_line iT add shift line outputMinimum outputMaximum src =
    (let
       Od = (\<lambda>k. iT (1 * 16 + k) * src line + iT (3 * 16 + k) * src (3 * line) + iT (5 * 16 + k) * src
           (5 * line) + iT (7 * 16 + k) * src (7 * line) + iT (9 * 16 + k) * src (9 * line) + iT (11 * 16 + k) *
           src (11 * line) + iT (13 * 16 + k) * src (13 * line) + iT (15 * 16 + k) * src (15 * line));
       EO = (\<lambda>k. iT (2 * 16 + k) * src (2 * line) + iT (6 * 16 + k) * src (6 * line) + iT (10 * 16 + k)
           * src (10 * line) + iT (14 * 16 + k) * src (14 * line));
       EEO = nth [iT (4 * 16) * src (4 * line) + iT (12 * 16) * src (12 * line), iT (4 * 16 + 1) * src (4 *
           line) + iT (12 * 16 + 1) * src (12 * line)];
       EEE = nth [iT 0 * src 0 + iT (8 * 16) * src (8 * line), iT (0 * 16 + 1) * src 0 + iT (8 * 16 + 1) * src
           (8 * line)];
       EE = (\<lambda>k. if k < 2 then EEE k + EEO k else EEE (1 - (k - 2)) - EEO (1 - (k - 2)));
       Ev = (\<lambda>k. if k < 4 then EE k + EO k else EE (3 - (k - 4)) - EO (3 - (k - 4)))
     in concat (map (\<lambda>k. [(k, Clip3 outputMinimum outputMaximum (drop_bit shift (Ev k + Od k + add))),
         (k + 8, Clip3 outputMinimum outputMaximum (drop_bit shift (Ev (7 - k) - Od (7 - k) + add)))]) [0..<8]))"

definition fastInverseDCT2_B16 ::
  "coeffs \<Rightarrow> coeffs \<Rightarrow> nat \<Rightarrow> nat \<Rightarrow> nat \<Rightarrow> nat \<Rightarrow> int \<Rightarrow> int \<Rightarrow> coeffs" where
  "fastInverseDCT2_B16 src dst shift line iSkipLine iSkipLine2 outputMinimum outputMaximum =
    (let add = 2 ^ (shift - 1);
         iT = flat 16 (g_trCoreDCT2P16 ! TRANSFORM_INVERSE);
         reducedLine = line - iSkipLine;
         dst = inverse_lines 16 reducedLine (fastInverseDCT2_B16_line iT add shift line outputMinimum outputMaximum) src dst
     in clear_lines (16 * reducedLine) (16 * iSkipLine) dst)"

definition fastForwardDCT2_B32_line ::
  "coeffs \<Rightarrow> int \<Rightarrow> nat \<Rightarrow> nat \<Rightarrow> coeffs \<Rightarrow> (nat \<times> int) list" where
  "fastForwardDCT2_B32_line iT add shift line src =
    (let
       Ev = (\<lambda>k. src k + src (31 - k));
       Od = (\<lambda>k. src k - src (31 - k));
       EE = (\<lambda>k. Ev k + Ev (15 - k));
       EO = (\<lambda>k. Ev k - Ev (15 - k));
       EEE = (\<lambda>k. EE k + EE (7 - k));
       EEO = (\<lambda>k. EE k - EE (7 - k));
       EEEE = nth [EEE 0 + EEE 3, EEE 1 + EEE 2];
       EEEO = nth [EEE 0 - EEE 3, EEE 1 - EEE 2]
     in [(0, drop_bit shift (iT (0 * 32 + 0) * EEEE 0 + iT (0 * 32 + 1) * EEEE 1 + add)),
         (16 * line, drop_bit shift (iT (16 * 32 + 0) * EEEE 0 + iT (16 * 32 + 1) * EEEE 1 + add)),
         (8 * line, drop_bit shift (iT (8 * 32 + 0) * EEEO 0 + iT (8 * 32 + 1) * EEEO 1 + add)),
         (24 * line, drop_bit shift (iT (24 * 32 + 0) * EEEO 0 + iT (24 * 32 + 1) * EEEO 1 + add))]
        @ map (\<lambda>k. (k * line, drop_bit shift (iT (k * 32 + 0) * EEO 0 + iT (k * 32 + 1) * EEO 1 + iT (k * 32 + 2) * EEO 2
             + iT (k * 32 + 3) * EEO 3 + add))) (for_step 4 32 8)
        @ map (\<lambda>k. (k * line, drop_bit shift (iT (k * 32 + 0) * EO 0 + iT (k * 32 + 1) * EO 1 + iT (k * 32 + 2) * EO 2 +
             iT (k * 32 + 3) * EO 3 + iT (k * 32 + 4) * EO 4 + iT (k * 32 + 5) * EO 5 + iT (k * 32 + 6) * EO 6 +
             iT (k * 32 + 7) * EO 7 + add))) (for_step 2 32 4)
        @ map (\<lambda>k. (k * line, drop_bit shift (iT (k * 32 + 0) * Od 0 + iT (k * 32 + 1) * Od 1 + iT (k * 32 + 2) * Od 2 +
             iT (k * 32 + 3) * Od 3 + iT (k * 32 + 4) * Od 4 + iT (k * 32 + 5) * Od 5 + iT (k * 32 + 6) * Od 6 +
             iT (k * 32 + 7) * Od 7 + iT (k * 32 + 8) * Od 8 + iT (k * 32 + 9) * Od 9 + iT (k * 32 + 10) * Od 10
             + iT (k * 32 + 11) * Od 11 + iT (k * 32 + 12) * Od 12 + iT (k * 32 + 13) * Od 13 + iT (k * 32 + 14)
             * Od 14 + iT (k * 32 + 15) * Od 15 + add))) (for_step 1 32 2))"

definition fastForwardDCT2_B32 ::
  "coeffs \<Rightarrow> coeffs \<Rightarrow> nat \<Rightarrow> nat \<Rightarrow> nat \<Rightarrow> nat \<Rightarrow> coeffs" where
  "fastForwardDCT2_B32 src dst shift line iSkipLine iSkipLine2 =
    (let add = if shift > 0 then 2 ^ (shift - 1) else 0;
         iT = flat 32 (g_trCoreDCT2P32 ! TRANSFORM_FORWARD);
         reducedLine = line - iSkipLine;
         dst = forward_lines 32 reducedLine (fastForwardDCT2_B32_line iT add shift line) src dst
     in clear_columns reducedLine line iSkipLine 32 dst)"

definition fastInverseDCT2_B32_line ::
  "coeffs \<Rightarrow> int \<Rightarrow> nat \<Rightarrow> nat \<Rightarrow> int \<Rightarrow> int \<Rightarrow> coeffs \<Rightarrow> (nat \<times> int) list" where
  "fastInverseDCT2_B32_line iT add shift line outputMinimum outputMaximum src =
    (let
       Od = (\<lambda>k. iT (1 * 32 + k) * src line + iT (3 * 32 + k) * src (3 * line) + iT (5 * 32 + k) * src
           (5 * line) + iT (7 * 32 + k) * src (7 * line) + iT (9 * 32 + k) * src (9 * line) + iT (11 * 32 + k) *
           src (11 * line) + iT (13 * 32 + k) * src (13 * line) + iT (15 * 32 + k) * src (15 * line) + iT (17 *
           32 + k) * src (17 * line) + iT (19 * 32 + k) * src (19 * line) + iT (21 * 32 + k) * src (21 * line) +
           iT (23 * 32 + k) * src (23 * line) + iT (25 * 32 + k) * src (25 * line) + iT (27 * 32 + k) * src (27
           * line) + iT (29 * 32 + k) * src (29 * line) + iT (31 * 32 + k) * src (31 * line));
       EO = (\<lambda>k. iT (2 * 32 + k) * src (2 * line) + iT (6 * 32 + k) * src (6 * line) + iT (10 * 32 + k)
           * src (10 * line) + iT (14 * 32 + k) * src (14 * line) + iT (18 * 32 + k) * src (18 * line) + iT (22
           * 32 + k) * src (22 * line) + iT (26 * 32 + k) * src (26 * line) + iT (30 * 32 + k) * src (30 *
           line));
       EEO = (\<lambda>k. iT (4 * 32 + k) * src (4 * line) + iT (12 * 32 + k) * src (12 * line) + iT (20 * 32 +
           k) * src (20 * line) + iT (28 * 32 + k) * src (28 * line));
       EEEO = nth [iT (8 * 32 + 0) * src (8 * line) + iT (24 * 32 + 0) * src (24 * line), iT (8 * 32 + 1) * src
           (8 * line) + iT (24 * 32 + 1) * src (24 * line)];
       EEEE = nth [iT (0 * 32 + 0) * src 0 + iT (16 * 32 + 0) * src (16 * line), iT (0 * 32 + 1) * src 0 + iT
           (16 * 32 + 1) * src (16 * line)];
       EEE = nth [EEEE 0 + EEEO 0, EEEE 1 + EEEO 1, EEEE 1 - EEEO 1, EEEE 0 - EEEO 0];
       EE = (\<lambda>k. if k < 4 then EEE k + EEO k else EEE (3 - (k - 4)) - EEO (3 - (k - 4)));
       Ev = (\<lambda>k. if k < 8 then EE k + EO k else EE (7 - (k - 8)) - EO (7 - (k - 8)))
     in concat (map (\<lambda>k. [(k, Clip3 outputMinimum outputMaximum (drop_bit shift (Ev k + Od k + add))),
         (k + 16, Clip3 outputMinimum outputMaximum (drop_bit shift (Ev (15 - k) - Od (15 - k) + add)))]) [0..<16]))"

definition fastInverseDCT2_B32 ::
  "coeffs \<Rightarrow> coeffs \<Rightarrow> nat \<Rightarrow> nat \<Rightarrow> nat \<Rightarrow> nat \<Rightarrow> int \<Rightarrow> int \<Rightarrow> coeffs" where
  "fastInverseDCT2_B32 src dst shift line iSkipLine iSkipLine2 outputMinimum outputMaximum =
    (let add = 2 ^ (shift - 1);
         iT = flat 32 (g_trCoreDCT2P32 ! TRANSFORM_INVERSE);
         reducedLine = line - iSkipLine;
         dst = inverse_lines 32 reducedLine (fastInverseDCT2_B32_line iT add shift line outputMinimum outputMaximum) src dst
     in clear_lines (32 * reducedLine) (32 * iSkipLine) dst)"

definition fastForwardDCT2_B64_line ::
  "coeffs \<Rightarrow> int \<Rightarrow> nat \<Rightarrow> nat \<Rightarrow> bool \<Rightarrow> coeffs \<Rightarrow> (nat \<times> int) list" where
  "fastForwardDCT2_B64_line iT rnd_factor shift line zo src =
    (let
       Ev = (\<lambda>k. src k + src (63 - k));
       Od = (\<lambda>k. src k - src (63 - k));
       EE = (\<lambda>k. Ev k + Ev (31 - k));
       EO = (\<lambda>k. Ev k - Ev (31 - k));
       EEE = (\<lambda>k. EE k + EE (15 - k));
       EEO = (\<lambda>k. EE k - EE (15 - k));
       EEEE = (\<lambda>k. EEE k + EEE (7 - k));
       EEEO = (\<lambda>k. EEE k - EEE (7 - k));
       EEEEE = nth [EEEE 0 + EEEE 3, EEEE 1 + EEEE 2];
       EEEEO = nth [EEEE 0 - EEEE 3, EEEE 1 - EEEE 2]
     in [(0, drop_bit shift (iT (0 * 64 + 0) * EEEEE 0 + iT (0 * 64 + 1) * EEEEE 1 + rnd_factor)),
         (16 * line, drop_bit shift (iT (16 * 64 + 0) * EEEEO 0 + iT (16 * 64 + 1) * EEEEO 1 + rnd_factor))]
        @ (if zo then [] else [(32 * line, drop_bit shift (iT (32 * 64 + 0) * EEEEE 0 + iT (32 * 64 + 1) * EEEEE 1 + rnd_factor)),
         (48 * line, drop_bit shift (iT (48 * 64 + 0) * EEEEO 0 + iT (48 * 64 + 1) * EEEEO 1 + rnd_factor))])
        @ map (\<lambda>k. (k * line, drop_bit shift (iT (k * 64 + 0) * EEEO 0 + iT (k * 64 + 1) * EEEO 1 + iT (k * 64 + 2) * EEEO
             2 + iT (k * 64 + 3) * EEEO 3 + rnd_factor))) (for_step 8 (if zo then 32 else 64) 16)
        @ map (\<lambda>k. (k * line, drop_bit shift (iT (k * 64 + 0) * EEO 0 + iT (k * 64 + 1) * EEO 1 + iT (k * 64 + 2) * EEO 2
             + iT (k * 64 + 3) * EEO 3 + iT (k * 64 + 4) * EEO 4 + iT (k * 64 + 5) * EEO 5 + iT (k * 64 + 6) *
             EEO 6 + iT (k * 64 + 7) * EEO 7 + rnd_factor))) (for_step 4 (if zo then 32 else 64) 8)
        @ map (\<lambda>k. (k * line, drop_bit shift (iT (k * 64 + 0) * EO 0 + iT (k * 64 + 1) * EO 1 + iT (k * 64 + 2) * EO 2 +
             iT (k * 64 + 3) * EO 3 + iT (k * 64 + 4) * EO 4 + iT (k * 64 + 5) * EO 5 + iT (k * 64 + 6) * EO 6 +
             iT (k * 64 + 7) * EO 7 + iT (k * 64 + 8) * EO 8 + iT (k * 64 + 9) * EO 9 + iT (k * 64 + 10) * EO 10
             + iT (k * 64 + 11) * EO 11 + iT (k * 64 + 12) * EO 12 + iT (k * 64 + 13) * EO 13 + iT (k * 64 + 14)
             * EO 14 + iT (k * 64 + 15) * EO 15 + rnd_factor))) (for_step 2 (if zo then 32 else 64) 4)
        @ map (\<lambda>k. (k * line, drop_bit shift (iT (k * 64 + 0) * Od 0 + iT (k * 64 + 1) * Od 1 + iT (k * 64 + 2) * Od 2 +
             iT (k * 64 + 3) * Od 3 + iT (k * 64 + 4) * Od 4 + iT (k * 64 + 5) * Od 5 + iT (k * 64 + 6) * Od 6 +
             iT (k * 64 + 7) * Od 7 + iT (k * 64 + 8) * Od 8 + iT (k * 64 + 9) * Od 9 + iT (k * 64 + 10) * Od 10
             + iT (k * 64 + 11) * Od 11 + iT (k * 64 + 12) * Od 12 + iT (k * 64 + 13) * Od 13 + iT (k * 64 + 14)
             * Od 14 + iT (k * 64 + 15) * Od 15 + iT (k * 64 + 16) * Od 16 + iT (k * 64 + 17) * Od 17 + iT (k *
             64 + 18) * Od 18 + iT (k * 64 + 19) * Od 19 + iT (k * 64 + 20) * Od 20 + iT (k * 64 + 21) * Od 21 +
             iT (k * 64 + 22) * Od 22 + iT (k * 64 + 23) * Od 23 + iT (k * 64 + 24) * Od 24 + iT (k * 64 + 25) *
             Od 25 + iT (k * 64 + 26) * Od 26 + iT (k * 64 + 27) * Od 27 + iT (k * 64 + 28) * Od 28 + iT (k * 64
             + 29) * Od 29 + iT (k * 64 + 30) * Od 30 + iT (k * 64 + 31) * Od 31 + rnd_factor))) (for_step 1 (if zo then 32 else 64) 2))"

definition fastForwardDCT2_B64 ::
  "coeffs \<Rightarrow> coeffs \<Rightarrow> nat \<Rightarrow> nat \<Rightarrow> nat \<Rightarrow> nat \<Rightarrow> coeffs" where
  "fastForwardDCT2_B64 src dst shift line iSkipLine iSkipLine2 =
    (let rnd_factor = 2 ^ (shift - 1);
         iT = flat 64 (g_trCoreDCT2P64 ! TRANSFORM_FORWARD);
         zo = iSkipLine2 \<noteq> 0;
         reducedLine = line - iSkipLine;
         cutoff = 64 - iSkipLine2;
         dst = forward_lines 64 reducedLine (fastForwardDCT2_B64_line iT rnd_factor shift line zo) src dst
     in clear_lines (line * cutoff) (line * iSkipLine2) (clear_columns reducedLine line iSkipLine cutoff dst))"

definition fastInverseDCT2_B64_line ::
  "coeffs \<Rightarrow> int \<Rightarrow> nat \<Rightarrow> nat \<Rightarrow> int \<Rightarrow> int \<Rightarrow> bool \<Rightarrow> coeffs \<Rightarrow> (nat \<times> int) list" where
  "fastInverseDCT2_B64_line iT rnd_factor shift line outputMinimum outputMaximum zo src =
    (let
       Od = (\<lambda>k. iT (1 * 64 + k) * src line + iT (3 * 64 + k) * src (3 * line) + iT (5 * 64 + k) * src
           (5 * line) + iT (7 * 64 + k) * src (7 * line) + iT (9 * 64 + k) * src (9 * line) + iT (11 * 64 + k) *
           src (11 * line) + iT (13 * 64 + k) * src (13 * line) + iT (15 * 64 + k) * src (15 * line) + iT (17 *
           64 + k) * src (17 * line) + iT (19 * 64 + k) * src (19 * line) + iT (21 * 64 + k) * src (21 * line) +
           iT (23 * 64 + k) * src (23 * line) + iT (25 * 64 + k) * src (25 * line) + iT (27 * 64 + k) * src (27
           * line) + iT (29 * 64 + k) * src (29 * line) + iT (31 * 64 + k) * src (31 * line) + (if zo then 0
           else (iT (33 * 64 + k) * src (33 * line) + iT (35 * 64 + k) * src (35 * line) + iT (37 * 64 + k) *
           src (37 * line) + iT (39 * 64 + k) * src (39 * line) + iT (41 * 64 + k) * src (41 * line) + iT (43 *
           64 + k) * src (43 * line) + iT (45 * 64 + k) * src (45 * line) + iT (47 * 64 + k) * src (47 * line) +
           iT (49 * 64 + k) * src (49 * line) + iT (51 * 64 + k) * src (51 * line) + iT (53 * 64 + k) * src (53
           * line) + iT (55 * 64 + k) * src (55 * line) + iT (57 * 64 + k) * src (57 * line) + iT (59 * 64 + k)
           * src (59 * line) + iT (61 * 64 + k) * src (61 * line) + iT (63 * 64 + k) * src (63 * line))));
       EO = (\<lambda>k. iT (2 * 64 + k) * src (2 * line) + iT (6 * 64 + k) * src (6 * line) + iT (10 * 64 + k)
           * src (10 * line) + iT (14 * 64 + k) * src (14 * line) + iT (18 * 64 + k) * src (18 * line) + iT (22
           * 64 + k) * src (22 * line) + iT (26 * 64 + k) * src (26 * line) + iT (30 * 64 + k) * src (30 * line)
           + (if zo then 0 else (iT (34 * 64 + k) * src (34 * line) + iT (38 * 64 + k) * src (38 * line) + iT
           (42 * 64 + k) * src (42 * line) + iT (46 * 64 + k) * src (46 * line) + iT (50 * 64 + k) * src (50 *
           line) + iT (54 * 64 + k) * src (54 * line) + iT (58 * 64 + k) * src (58 * line) + iT (62 * 64 + k) *
           src (62 * line))));
       EEO = (\<lambda>k. iT (4 * 64 + k) * src (4 * line) + iT (12 * 64 + k) * src (12 * line) + iT (20 * 64 +
           k) * src (20 * line) + iT (28 * 64 + k) * src (28 * line) + (if zo then 0 else (iT (36 * 64 + k) *
           src (36 * line) + iT (44 * 64 + k) * src (44 * line) + iT (52 * 64 + k) * src (52 * line) + iT (60 *
           64 + k) * src (60 * line))));
       EEEO = (\<lambda>k. iT (8 * 64 + k) * src (8 * line) + iT (24 * 64 + k) * src (24 * line) + (if zo then 0
           else (iT (40 * 64 + k) * src (40 * line) + iT (56 * 64 + k) * src (56 * line))));
       EEEEO = nth [iT (16 * 64 + 0) * src (16 * line) + (if zo then 0 else iT (48 * 64 + 0) * src (48 * line)),
           iT (16 * 64 + 1) * src (16 * line) + (if zo then 0 else iT (48 * 64 + 1) * src (48 * line))];
       EEEEE = nth [iT (0 * 64 + 0) * src 0 + (if zo then 0 else iT (32 * 64 + 0) * src (32 * line)), iT (0 * 64
           + 1) * src 0 + (if zo then 0 else iT (32 * 64 + 1) * src (32 * line))];
       EEEE = (\<lambda>k. if k < 2 then EEEEE k + EEEEO k else EEEEE (1 - (k - 2)) - EEEEO (1 - (k - 2)));
       EEE = (\<lambda>k. if k < 4 then EEEE k + EEEO k else EEEE (3 - (k - 4)) - EEEO (3 - (k - 4)));
       EE = (\<lambda>k. if k < 8 then EEE k + EEO k else EEE (7 - (k - 8)) - EEO (7 - (k - 8)));
       Ev = (\<lambda>k. if k < 16 then EE k + EO k else EE (15 - (k - 16)) - EO (15 - (k - 16)))
     in concat (map (\<lambda>k. [(k, Clip3 outputMinimum outputMaximum (drop_bit shift (Ev k + Od k + rnd_factor))),
         (k + 32, Clip3 outputMinimum outputMaximum (drop_bit shift (Ev (31 - k) - Od (31 - k) + rnd_factor)))]) [0..<32]))"

definition fastInverseDCT2_B64 ::
  "coeffs \<Rightarrow> coeffs \<Rightarrow> nat \<Rightarrow> nat \<Rightarrow> nat \<Rightarrow> nat \<Rightarrow> int \<Rightarrow> int \<Rightarrow> coeffs" where
  "fastInverseDCT2_B64 src dst shift line iSkipLine iSkipLine2 outputMinimum outputMaximum =
    (let rnd_factor = 2 ^ (shift - 1);
         iT = flat 64 (g_trCoreDCT2P64 ! TRANSFORM_INVERSE);
         zo = iSkipLine2 \<ge> 32;
         reducedLine = line - iSkipLine;
         dst = inverse_lines 64 reducedLine (fastInverseDCT2_B64_line iT rnd_factor shift line outputMinimum outputMaximum zo) src dst
     in clear_lines (64 * reducedLine) (64 * iSkipLine) dst)"
section \<open>The symmetries of the matrices\<close>

text \<open>
  The rows with an even index are palindromes and those with an odd index change their sign; the left half
  of the even rows is the matrix of half the size.
\<close>

fun evens :: "'a list \<Rightarrow> 'a list" where
  "evens [] = []"
| "evens [x] = [x]"
| "evens (x # y # xs) = x # evens xs"

fun alternating :: "int list list \<Rightarrow> bool" where
  "alternating [] \<longleftrightarrow> True"
| "alternating [r] \<longleftrightarrow> rev r = r"
| "alternating (r # r' # T) \<longleftrightarrow> rev r = r \<and> rev r' = map uminus r' \<and> alternating T"

fun butterfly :: "nat \<Rightarrow> int list list \<Rightarrow> bool" where
  "butterfly 0 T \<longleftrightarrow> True"
| "butterfly (Suc m) T \<longleftrightarrow> length T = 2 ^ Suc m \<and> (\<forall>r\<in>set T. length r = 2 ^ Suc m) \<and> alternating T
     \<and> butterfly m (map (take (2 ^ m)) (evens T))"

lemma nth_evens: "2 * k < length xs \<Longrightarrow> evens xs ! k = xs ! (2 * k)"
  by (induction xs arbitrary: k rule: evens.induct) (auto simp: nth_Cons' mult_2)

lemma length_evens: "length (evens xs) = (length xs + 1) div 2"
  by (induction xs rule: evens.induct) auto

lemma alternating_row:
  "alternating T \<Longrightarrow> k < length T \<Longrightarrow> rev (T ! k) = (if even k then T ! k else map uminus (T ! k))"
proof (induction T arbitrary: k rule: alternating.induct)
  case (3 r r' T)
  then show ?case by (cases k; cases "k - 1") (auto simp: nth_Cons')
qed (auto simp: nth_Cons')

definition dct_sym :: "nat \<Rightarrow> int list list \<Rightarrow> bool" where
  "dct_sym m T \<longleftrightarrow> (\<forall>l<m. \<forall>q<2 ^ (m - l). \<forall>i<2 ^ (m - l).
     T ! (2 ^ l * q) ! (2 ^ (m - l) - 1 - i) = (if even q then T ! (2 ^ l * q) ! i else - (T ! (2 ^ l * q) ! i)))"

lemma dct_symD:
  "dct_sym m T \<Longrightarrow> l < m \<Longrightarrow> q < 2 ^ (m - l) \<Longrightarrow> i < 2 ^ (m - l) \<Longrightarrow>
    T ! (2 ^ l * q) ! (2 ^ (m - l) - 1 - i) = (if even q then T ! (2 ^ l * q) ! i else - (T ! (2 ^ l * q) ! i))"
  unfolding dct_sym_def by blast

lemma butterfly_sym: "butterfly m T \<Longrightarrow> dct_sym m T"
proof (induction m arbitrary: T)
  case (Suc m)
  let ?H = "map (take (2 ^ m)) (evens T)"
  have T: "length T = 2 ^ Suc m" "\<And>r. r \<in> set T \<Longrightarrow> length r = 2 ^ Suc m" "alternating T" using Suc.prems by auto
  have IH: "dct_sym m ?H" using Suc by simp
  have half: "?H ! k ! i = T ! (2 * k) ! i" if "k < 2 ^ m" "i < 2 ^ m" for k i
    using that T(1) by (simp add: length_evens nth_evens)
  show ?case unfolding dct_sym_def
  proof (intro allI impI)
    fix l q i :: nat
    assume l: "l < Suc m" and q: "q < 2 ^ (Suc m - l)" and i: "i < 2 ^ (Suc m - l)"
    show "T ! (2 ^ l * q) ! (2 ^ (Suc m - l) - 1 - i) = (if even q then T ! (2 ^ l * q) ! i else - (T ! (2 ^ l * q) ! i))"
    proof (cases l)
      case 0
      then have k: "q < length T" and len: "length (T ! q) = 2 ^ Suc m" using q T(1,2) by simp_all
      have "T ! q ! (2 ^ Suc m - 1 - i) = rev (T ! q) ! i" using i 0 len by (simp add: rev_nth)
      also have "\<dots> = (if even q then T ! q ! i else - (T ! q ! i))" using alternating_row [OF T(3) k] i 0 len by simp
      finally show ?thesis using 0 by simp
    next
      case (Suc l')
      have small: "2 ^ l' * q < 2 ^ m" using q l Suc
        by (metis Suc_less_SucD diff_Suc_Suc le_add_diff_inverse less_or_eq_imp_le mult_less_mono2 power_add zero_less_numeral zero_less_power)
      have "2 ^ (m - l') \<le> (2 :: nat) ^ m" by (intro power_increasing) auto
      moreover have "i < 2 ^ (m - l')" using i Suc by simp
      ultimately have "i < 2 ^ m" "2 ^ (m - l') - 1 - i < 2 ^ m" by linarith+
      then have "T ! (2 ^ l * q) ! i = ?H ! (2 ^ l' * q) ! i"
        "T ! (2 ^ l * q) ! (2 ^ (Suc m - l) - 1 - i) = ?H ! (2 ^ l' * q) ! (2 ^ (m - l') - 1 - i)"
        using half [OF small] Suc by (simp_all add: mult.assoc)
      then show ?thesis using IH l q i Suc unfolding dct_sym_def by simp
    qed
  qed
qed (simp add: dct_sym_def)

section \<open>Rows\<close>

lemma sum_halves: "(\<Sum>i<2 * n. f i) = (\<Sum>i<n. f i + f (2 * n - 1 - i))" for f :: "nat \<Rightarrow> int"
proof -
  have "(\<Sum>i<2 * n. f i) = (\<Sum>i<n. f i) + (\<Sum>i\<in>{n..<2 * n}. f i)"
    by (simp add: sum.atLeastLessThan_concat lessThan_atLeast0)
  also have "(\<Sum>i\<in>{n..<2 * n}. f i) = (\<Sum>i<n. f (2 * n - 1 - i))"
    by (rule sum.reindex_bij_witness [of _ "\<lambda>i. 2 * n - 1 - i" "\<lambda>i. 2 * n - 1 - i"]) auto
  finally show ?thesis by (simp add: sum.distrib)
qed

fun folded :: "nat \<Rightarrow> nat \<Rightarrow> coeffs \<Rightarrow> coeffs" where
  "folded m 0 s = s"
| "folded m (Suc l) s = (\<lambda>i. folded m l s i + folded m l s (2 ^ (m - l) - 1 - i))"

lemma pow_split: "l < m \<Longrightarrow> (2 :: nat) ^ (m - l) = 2 * 2 ^ (m - Suc l)"
  by (metis Suc_diff_Suc power_Suc)

lemma row_folded:
  assumes "dct_sym m T"
  shows "l \<le> m \<Longrightarrow> q < 2 ^ (m - l) \<Longrightarrow>
    (\<Sum>i<2 ^ m. T ! (2 ^ l * q) ! i * s i) = (\<Sum>i<2 ^ (m - l). T ! (2 ^ l * q) ! i * folded m l s i)"
proof (induction l arbitrary: q)
  case (Suc l)
  have p: "(2 :: nat) ^ (m - l) = 2 * 2 ^ (m - Suc l)" using Suc.prems by (intro pow_split) simp
  have "(\<Sum>i<2 ^ m. T ! (2 ^ Suc l * q) ! i * s i) = (\<Sum>i<2 ^ (m - l). T ! (2 ^ l * (2 * q)) ! i * folded m l s i)"
    using Suc.IH [of "2 * q"] Suc.prems p by (simp add: ac_simps)
  also have "\<dots> = (\<Sum>i<2 ^ (m - Suc l). T ! (2 ^ l * (2 * q)) ! i * folded m l s i
      + T ! (2 ^ l * (2 * q)) ! (2 ^ (m - l) - 1 - i) * folded m l s (2 ^ (m - l) - 1 - i))"
    unfolding p sum_halves ..
  also have "\<dots> = (\<Sum>i<2 ^ (m - Suc l). T ! (2 ^ Suc l * q) ! i * folded m (Suc l) s i)"
  proof (rule sum.cong [OF refl])
    fix i :: nat
    assume "i \<in> {..<2 ^ (m - Suc l)}"
    then have "T ! (2 ^ l * (2 * q)) ! (2 ^ (m - l) - 1 - i) = T ! (2 ^ l * (2 * q)) ! i"
      using dct_symD [OF assms, of l "2 * q" i] Suc.prems p by simp
    then show "T ! (2 ^ l * (2 * q)) ! i * folded m l s i
        + T ! (2 ^ l * (2 * q)) ! (2 ^ (m - l) - 1 - i) * folded m l s (2 ^ (m - l) - 1 - i)
      = T ! (2 ^ Suc l * q) ! i * folded m (Suc l) s i"
      by (simp add: distrib_left ac_simps)
  qed
  finally show ?case .
qed simp

lemma row_odd:
  assumes "dct_sym m T" "l < m" "q < 2 ^ (m - l)" "odd q"
  shows "(\<Sum>i<2 ^ m. T ! (2 ^ l * q) ! i * s i)
    = (\<Sum>i<2 ^ (m - Suc l). T ! (2 ^ l * q) ! i * (folded m l s i - folded m l s (2 ^ (m - l) - 1 - i)))"
proof -
  have p: "(2 :: nat) ^ (m - l) = 2 * 2 ^ (m - Suc l)" using assms(2) by (rule pow_split)
  have "(\<Sum>i<2 ^ m. T ! (2 ^ l * q) ! i * s i) = (\<Sum>i<2 ^ (m - l). T ! (2 ^ l * q) ! i * folded m l s i)"
    using assms by (intro row_folded) auto
  also have "\<dots> = (\<Sum>i<2 ^ (m - Suc l). T ! (2 ^ l * q) ! i * folded m l s i
      + T ! (2 ^ l * q) ! (2 ^ (m - l) - 1 - i) * folded m l s (2 ^ (m - l) - 1 - i))"
    unfolding p sum_halves ..
  also have "\<dots> = (\<Sum>i<2 ^ (m - Suc l). T ! (2 ^ l * q) ! i * (folded m l s i - folded m l s (2 ^ (m - l) - 1 - i)))"
  proof (rule sum.cong [OF refl])
    fix i :: nat
    assume "i \<in> {..<2 ^ (m - Suc l)}"
    then have "T ! (2 ^ l * q) ! (2 ^ (m - l) - 1 - i) = - (T ! (2 ^ l * q) ! i)"
      using dct_symD [OF assms(1,2), of q i] assms(3,4) p by simp
    then show "T ! (2 ^ l * q) ! i * folded m l s i
        + T ! (2 ^ l * q) ! (2 ^ (m - l) - 1 - i) * folded m l s (2 ^ (m - l) - 1 - i)
      = T ! (2 ^ l * q) ! i * (folded m l s i - folded m l s (2 ^ (m - l) - 1 - i))"
      by (simp add: algebra_simps)
  qed
  finally show ?thesis .
qed

section \<open>Columns\<close>

definition col_all :: "nat \<Rightarrow> int list list \<Rightarrow> coeffs \<Rightarrow> nat \<Rightarrow> nat \<Rightarrow> int" where
  "col_all m T s l j = (\<Sum>q<2 ^ (m - l). T ! (2 ^ l * q) ! j * s (2 ^ l * q))"

definition col_odd :: "nat \<Rightarrow> int list list \<Rightarrow> coeffs \<Rightarrow> nat \<Rightarrow> nat \<Rightarrow> int" where
  "col_odd m T s l j = (\<Sum>q<2 ^ (m - Suc l). T ! (2 ^ l * (2 * q + 1)) ! j * s (2 ^ l * (2 * q + 1)))"

lemma sum_parity: "(\<Sum>q<2 * n. f q) = (\<Sum>q<n. f (2 * q)) + (\<Sum>q<n. f (2 * q + 1))" for f :: "nat \<Rightarrow> int"
  by (induction n) (auto simp: algebra_simps)

lemma col_step:
  assumes "dct_sym m T" "l < m" "j < 2 ^ (m - Suc l)"
  shows "col_all m T s l j = col_all m T s (Suc l) j + col_odd m T s l j"
    and "col_all m T s l (2 ^ (m - l) - 1 - j) = col_all m T s (Suc l) j - col_odd m T s l j"
proof -
  have p: "(2 :: nat) ^ (m - l) = 2 * 2 ^ (m - Suc l)" using assms(2) by (rule pow_split)
  have s: "col_all m T s l i = (\<Sum>q<2 ^ (m - Suc l). T ! (2 ^ l * (2 * q)) ! i * s (2 ^ l * (2 * q)))
      + (\<Sum>q<2 ^ (m - Suc l). T ! (2 ^ l * (2 * q + 1)) ! i * s (2 ^ l * (2 * q + 1)))" for i
    unfolding col_all_def p sum_parity ..
  show "col_all m T s l j = col_all m T s (Suc l) j + col_odd m T s l j"
    unfolding s by (simp add: col_all_def col_odd_def ac_simps)
  have "T ! (2 ^ l * q) ! (2 ^ (m - l) - 1 - j) = (if even q then T ! (2 ^ l * q) ! j else - (T ! (2 ^ l * q) ! j))"
    if "q < 2 * 2 ^ (m - Suc l)" for q
    using dct_symD [OF assms(1,2), of q j] assms(3) p that by simp
  note sym = this
  have "(\<Sum>q<2 ^ (m - Suc l). T ! (2 ^ l * (2 * q)) ! (2 ^ (m - l) - 1 - j) * s (2 ^ l * (2 * q)))
      = (\<Sum>q<2 ^ (m - Suc l). T ! (2 ^ l * (2 * q)) ! j * s (2 ^ l * (2 * q)))"
    "(\<Sum>q<2 ^ (m - Suc l). T ! (2 ^ l * (2 * q + 1)) ! (2 ^ (m - l) - 1 - j) * s (2 ^ l * (2 * q + 1)))
      = - (\<Sum>q<2 ^ (m - Suc l). T ! (2 ^ l * (2 * q + 1)) ! j * s (2 ^ l * (2 * q + 1)))"
    unfolding sum_negf [symmetric] by (rule sum.cong [OF refl], subst sym; simp)+
  then show "col_all m T s l (2 ^ (m - l) - 1 - j) = col_all m T s (Suc l) j - col_odd m T s l j"
    unfolding s by (simp add: col_all_def col_odd_def ac_simps)
qed

lemma col_arrays:
  assumes "dct_sym m T" "l < m" "h = 2 ^ (m - Suc l)" "h1 = h - 1"
    and "\<And>k. k < h \<Longrightarrow> X k = col_all m T s (Suc l) k" and "\<And>k. k < h \<Longrightarrow> D k = col_odd m T s l k"
    and "k < 2 * h"
  shows "(if k < h then X k + D k else X (h1 - (k - h)) - D (h1 - (k - h))) = col_all m T s l k"
proof (cases "k < h")
  case True
  then show ?thesis using col_step(1) [OF assms(1,2)] assms by simp
next
  case False
  define j where "j = h1 - (k - h)"
  have j: "j < h" "k = 2 * h - 1 - j" using False assms by (auto simp: j_def)
  have "(2 :: nat) ^ (m - l) = 2 * h" using assms(2,3) by (simp add: pow_split)
  then show ?thesis using False col_step(2) [OF assms(1,2), of j s] j assms unfolding j_def [symmetric] by simp
qed

lemma inverse_body:
  assumes "dct_sym m T" "0 < m" "h = 2 ^ (m - 1)" "h1 = h - 1"
    and "\<And>k. k < h \<Longrightarrow> X k = col_all m T s (Suc 0) k" and "\<And>k. k < h \<Longrightarrow> D k = col_odd m T s 0 k"
  shows "concat (map (\<lambda>k. [(k, Clip3 lo hi (drop_bit shift (X k + D k + add))),
      (k + h, Clip3 lo hi (drop_bit shift (X (h1 - k) - D (h1 - k) + add)))]) [0..<h])
    = map (\<lambda>j. (j, Clip3 lo hi (drop_bit shift (col_all m T s 0 j + add)))) (concat (map (\<lambda>k. [k, k + h]) [0..<h]))"
proof -
  have "X k + D k = col_all m T s 0 k" "X (h1 - k) - D (h1 - k) = col_all m T s 0 (k + h)" if "k < h" for k
    using col_arrays [OF assms(1,2), of h h1 X s D k] col_arrays [OF assms(1,2), of h h1 X s D "k + h"] assms that by simp_all
  then show ?thesis by (auto simp: map_concat o_def intro!: arg_cong [of _ _ concat])
qed

lemma set_pairs: "set (concat (map (\<lambda>k. [k, k + h]) [0..<h])) = {..<2 * h}"
proof -
  have "k \<in> {..<h} \<union> (\<lambda>k. k + h) ` {..<h}" if "k < 2 * h" for k
    using that by (cases "k < h") (auto intro: image_eqI [of _ _ "k - h"])
  then show ?thesis by fastforce
qed

section \<open>The transforms\<close>

lemma set_for_step: "0 < d \<Longrightarrow> set (for_step a b d) = {k. a \<le> k \<and> k < b \<and> d dvd k - a}"
proof -
  assume d: "0 < d"
  have "k \<in> set (for_step a b d)" if k: "a \<le> k" "k < b" "d dvd k - a" for k
  proof -
    obtain i where i: "k - a = d * i" using k(3) by blast
    have "d * i < b - a" using i k by simp
    then have "i < (b - a + d - 1) div d" using d by (simp add: less_eq_div_iff_mult_less_eq Suc_le_eq [symmetric] algebra_simps)
    then show ?thesis using i k by (auto simp: for_step_def intro!: image_eqI [of _ _ i])
  qed
  moreover have "a \<le> k \<and> k < b \<and> d dvd k - a" if k: "k \<in> set (for_step a b d)" for k
  proof -
    from k obtain i where "k = a + d * i" and "i \<in> set [0..<(b - a + d - 1) div d]"
      unfolding for_step_def set_map by blast
    then have i: "k = a + d * i" "i < (b - a + d - 1) div d" by simp_all
    then have "d * (i + 1) \<le> b - a + d - 1"
      by (metis Suc_eq_plus1 Suc_leI d less_eq_div_iff_mult_less_eq mult.commute)
    then show ?thesis using i d by (simp add: algebra_simps)
  qed
  ultimately show ?thesis by blast
qed

text \<open>The matrices have the symmetries.\<close>

lemma matrices_sym:
  "dct_sym 2 (g_trCoreDCT2P4 ! 0)" "dct_sym 3 (g_trCoreDCT2P8 ! 0)" "dct_sym 4 (g_trCoreDCT2P16 ! 0)"
  "dct_sym 5 (g_trCoreDCT2P32 ! 0)" "dct_sym 6 (g_trCoreDCT2P64 ! 0)"
  by (rule butterfly_sym, code_simp)+

lemma same_matrices:
  "g_trCoreDCT2P2 ! 1 = g_trCoreDCT2P2 ! 0" "g_trCoreDCT2P4 ! 1 = g_trCoreDCT2P4 ! 0" "g_trCoreDCT2P8 ! 1 = g_trCoreDCT2P8 ! 0"
  "g_trCoreDCT2P16 ! 1 = g_trCoreDCT2P16 ! 0" "g_trCoreDCT2P32 ! 1 = g_trCoreDCT2P32 ! 0" "g_trCoreDCT2P64 ! 1 = g_trCoreDCT2P64 ! 0"
  by (simp_all add: g_trCoreDCT2P2_def g_trCoreDCT2P4_def g_trCoreDCT2P8_def g_trCoreDCT2P16_def g_trCoreDCT2P32_def g_trCoreDCT2P64_def)

lemma folded_numeral: "folded m (numeral v) s =
    (\<lambda>i. folded m (pred_numeral v) s i + folded m (pred_numeral v) s (2 ^ (m - pred_numeral v) - 1 - i))"
  unfolding numeral_eq_Suc [of v] folded.simps ..

lemma step_row:
  assumes "dct_sym m T" "l < m" "b \<le> 2 ^ m" "k \<in> set (for_step (2 ^ l) b (2 ^ Suc l))"
  shows "(\<Sum>i<2 ^ m. T ! k ! i * s i)
    = (\<Sum>i<2 ^ (m - Suc l). T ! k ! i * (folded m l s i - folded m l s (2 ^ (m - l) - 1 - i)))"
proof -
  have k: "2 ^ l \<le> k" "k < b" "2 ^ Suc l dvd k - 2 ^ l" using assms(4) by (simp_all add: set_for_step)
  then obtain j where "k - 2 ^ l = 2 ^ Suc l * j" by blast
  then have j: "k = 2 ^ l * (2 * j + 1)" using k(1) by simp
  have "2 ^ l * (2 * j + 1) < 2 ^ l * 2 ^ (m - l)"
    using k(2) assms(2,3) j by (simp add: power_add [symmetric])
  then have "2 * j + 1 < 2 ^ (m - l)" by (simp only: mult_less_cancel1)
  then show ?thesis unfolding j by (intro row_odd assms) simp_all
qed

lemma sums_unrolled:
  "(\<Sum>i<2. f i) = f 0 + f 1"
  "(\<Sum>i<4. f i) = f 0 + f 1 + f 2 + f 3"
  "(\<Sum>i<8. f i) = f 0 + f 1 + f 2 + f 3 + f 4 + f 5 + f 6 + f 7"
  "(\<Sum>i<16. f i) = f 0 + f 1 + f 2 + f 3 + f 4 + f 5 + f 6 + f 7 + f 8 + f 9 + f 10 + f 11 + f 12 + f 13 + f 14 + f 15"
  "(\<Sum>i<32. f i) = f 0 + f 1 + f 2 + f 3 + f 4 + f 5 + f 6 + f 7 + f 8 + f 9 + f 10 + f 11 + f 12 + f 13 + f 14 + f 15
    + f 16 + f 17 + f 18 + f 19 + f 20 + f 21 + f 22 + f 23 + f 24 + f 25 + f 26 + f 27 + f 28 + f 29 + f 30 + f 31"
  for f :: "nat \<Rightarrow> int"
  by (simp_all add: eval_nat_numeral)

lemma flat_first:
  "flat N T 0 = T ! 0 ! 0" "0 < N \<Longrightarrow> flat N T (k * N) = T ! k ! 0"
  "1 < N \<Longrightarrow> flat N T (Suc (k * N)) = T ! k ! Suc 0" "2 < N \<Longrightarrow> flat N T (Suc (Suc (k * N))) = T ! k ! 2"
  using flat_row(2) [of 1 N T k] flat_row(2) [of 2 N T k] by (simp_all add: flat_def)

lemmas row_simps = row_value_def sums_unrolled flat_def folded_numeral
lemmas step_simps = row_value_def sums_unrolled flat_row flat_first folded_numeral

lemma forward_B64_line:
  assumes "dct_sym 6 T"
  shows "fastForwardDCT2_B64_line (flat 64 T) (2 ^ (shift - 1)) shift line zo s
    = map (\<lambda>k. (k * line, row_value 64 T shift s k)) ([0, 16] @ (if zo then [] else [32, 48])
      @ for_step 8 (if zo then 32 else 64) 16 @ for_step 4 (if zo then 32 else 64) 8
      @ for_step 2 (if zo then 32 else 64) 4 @ for_step 1 (if zo then 32 else 64) 2)"
proof -
  define b :: nat where "b = (if zo then 32 else 64)"
  have b: "b \<le> 2 ^ 6" by (simp add: b_def)
  have e: "q < 2 \<Longrightarrow> (\<Sum>i<64. T ! (32 * q) ! i * s i) = (\<Sum>i<2. T ! (32 * q) ! i * folded 6 5 s i)" for q
    using row_folded [OF assms, of 5 q s] by simp
  note o4 = row_odd [OF assms, of 4 _ s, simplified]
  note o3 = step_row [OF assms, of 3 b _ s, OF _ b, simplified]
  note o2 = step_row [OF assms, of 2 b _ s, OF _ b, simplified]
  note o1 = step_row [OF assms, of 1 b _ s, OF _ b, simplified]
  note o0 = step_row [OF assms, of 0 b _ s, OF _ b, simplified]
  show ?thesis
    unfolding fastForwardDCT2_B64_line_def Let_def map_append b_def [symmetric]
    apply (intro arg_cong2 [where f = "(@)"])
    subgoal using e [of 0] o4 [of 1] by (simp add: row_simps)
    subgoal using e [of 1] o4 [of 3] by (simp add: row_simps)
    subgoal by (rule map_cong [OF refl]) (simp only: row_value_def o3 One_nat_def, simp add: step_simps)
    subgoal by (rule map_cong [OF refl]) (simp only: row_value_def o2 One_nat_def, simp add: step_simps)
    subgoal by (rule map_cong [OF refl]) (simp only: row_value_def o1 One_nat_def, simp add: step_simps)
    subgoal by (rule map_cong [OF refl]) (simp only: row_value_def o0 One_nat_def, simp add: step_simps)
    done
qed

lemma forward_B32_line:
  assumes "dct_sym 5 T"
  shows "fastForwardDCT2_B32_line (flat 32 T) (2 ^ (shift - 1)) shift line s
    = map (\<lambda>k. (k * line, row_value 32 T shift s k))
        ([0, 16, 8, 24] @ for_step 4 32 8 @ for_step 2 32 4 @ for_step 1 32 2)"
proof -
  have e: "q < 2 \<Longrightarrow> (\<Sum>i<32. T ! (16 * q) ! i * s i) = (\<Sum>i<2. T ! (16 * q) ! i * folded 5 4 s i)" for q
    using row_folded [OF assms, of 4 q s] by simp
  note o3 = row_odd [OF assms, of 3 _ s, simplified]
  note o2 = step_row [OF assms, of 2 32 _ s, simplified]
  note o1 = step_row [OF assms, of 1 32 _ s, simplified]
  note o0 = step_row [OF assms, of 0 32 _ s, simplified]
  show ?thesis
    unfolding fastForwardDCT2_B32_line_def Let_def map_append
    apply (intro arg_cong2 [where f = "(@)"])
    subgoal using e [of 0] e [of 1] o3 [of 1] o3 [of 3] by (simp add: row_simps)
    subgoal by (rule map_cong [OF refl]) (simp only: row_value_def o2 One_nat_def, simp add: step_simps)
    subgoal by (rule map_cong [OF refl]) (simp only: row_value_def o1 One_nat_def, simp add: step_simps)
    subgoal by (rule map_cong [OF refl]) (simp only: row_value_def o0 One_nat_def, simp add: step_simps)
    done
qed

lemma forward_B16_line:
  assumes "dct_sym 4 T"
  shows "fastForwardDCT2_B16_line (flat 16 T) (2 ^ (shift - 1)) shift line s
    = map (\<lambda>k. (k * line, row_value 16 T shift s k)) ([0, 8, 4, 12] @ for_step 2 16 4 @ for_step 1 16 2)"
proof -
  have e: "q < 2 \<Longrightarrow> (\<Sum>i<16. T ! (8 * q) ! i * s i) = (\<Sum>i<2. T ! (8 * q) ! i * folded 4 3 s i)" for q
    using row_folded [OF assms, of 3 q s] by simp
  note o2 = row_odd [OF assms, of 2 _ s, simplified]
  note o1 = step_row [OF assms, of 1 16 _ s, simplified]
  note o0 = step_row [OF assms, of 0 16 _ s, simplified]
  show ?thesis
    unfolding fastForwardDCT2_B16_line_def Let_def map_append
    apply (intro arg_cong2 [where f = "(@)"])
    subgoal using e [of 0] e [of 1] o2 [of 1] o2 [of 3] by (simp add: row_simps)
    subgoal by (rule map_cong [OF refl]) (simp only: row_value_def o1 One_nat_def, simp add: step_simps)
    subgoal by (rule map_cong [OF refl]) (simp only: row_value_def o0 One_nat_def, simp add: step_simps)
    done
qed

lemma forward_B8_line:
  assumes "dct_sym 3 T"
  shows "fastForwardDCT2_B8_line (flat 8 T) (2 ^ (shift - 1)) shift line s
    = map (\<lambda>k. (k * line, row_value 8 T shift s k)) [0, 4, 2, 6, 1, 3, 5, 7]"
proof -
  have e: "q < 2 \<Longrightarrow> (\<Sum>i<8. T ! (4 * q) ! i * s i) = (\<Sum>i<2. T ! (4 * q) ! i * folded 3 2 s i)" for q
    using row_folded [OF assms, of 2 q s] by simp
  note o1 = row_odd [OF assms, of 1 _ s, simplified]
  note o0 = row_odd [OF assms, of 0 _ s, simplified]
  show ?thesis
    using e [of 0] e [of 1] o1 [of 1] o1 [of 3] o0 [of 1] o0 [of 3] o0 [of 5] o0 [of 7]
    by (simp add: fastForwardDCT2_B8_line_def Let_def row_simps)
qed

lemma forward_B4_line:
  assumes "dct_sym 2 T"
  shows "fastForwardDCT2_B4_line (flat 4 T) (2 ^ (shift - 1)) shift line s
    = map (\<lambda>k. (k * line, row_value 4 T shift s k)) [0, 2, 1, 3]"
proof -
  have e: "q < 2 \<Longrightarrow> (\<Sum>i<4. T ! (2 * q) ! i * s i) = (\<Sum>i<2. T ! (2 * q) ! i * folded 2 1 s i)" for q
    using row_folded [OF assms, of 1 q s] by simp
  note o0 = row_odd [OF assms, of 0 _ s, simplified]
  show ?thesis
    using e [of 0] e [of 1] o0 [of 1] o0 [of 3]
    by (simp add: fastForwardDCT2_B4_line_def Let_def row_simps)
qed

lemma forward_B2_line:
  "fastForwardDCT2_B2_line (flat 2 (g_trCoreDCT2P2 ! 0)) (2 ^ (shift - 1)) shift line s
    = map (\<lambda>k. (k * line, row_value 2 (g_trCoreDCT2P2 ! 0) shift s k)) [0, 1]"
  by (simp add: fastForwardDCT2_B2_line_def g_trCoreDCT2P2_def DEFINE_DCT2_P2_MATRIX_def row_simps Let_def)

lemma forward_is_matrix:
  assumes body: "\<And>s. body s = map (\<lambda>k. (k * line, row_value N T shift s k)) ks"
    and ks: "{..<N - skip2} \<subseteq> set ks" "set ks \<subseteq> {..<N}" and len: "skip \<le> line" "0 < line" "skip2 \<le> N"
  shows "clear_lines (line * (N - skip2)) (line * skip2)
      (clear_columns (line - skip) line skip (N - skip2) (forward_lines N (line - skip) body src dst))
    = fastForwardMM N src dst shift line skip skip2 (flat N T)"
proof
  fix x
  define d where "d = forward_lines N (line - skip) body src dst"
  have d: "d x = (if x mod line < line - skip \<and> x div line \<in> set ks
      then row_value N T shift (\<lambda>k. src (N * (x mod line) + k)) (x div line) else dst x)"
    unfolding d_def using body by (rule forward_lines_value) simp
  have c: "line * (N - skip2) \<le> x \<and> x < line * (N - skip2) + line * skip2 \<longleftrightarrow> N - skip2 \<le> x div line \<and> x div line < N"
    using len by (metis add_mult_distrib2 div_less_iff_less_mult le_add_diff_inverse2 less_eq_div_iff_mult_less_eq mult.commute)
  have "clear_lines (line * (N - skip2)) (line * skip2) (clear_columns (line - skip) line skip (N - skip2) d) x
      = (if N - skip2 \<le> x div line \<and> x div line < N then 0 else clear_columns (line - skip) line skip (N - skip2) d x)"
    using c by (auto simp: clear_lines_def memset0_def)
  also have "clear_columns (line - skip) line skip (N - skip2) d x
      = (if line - skip \<le> x mod line \<and> x div line < N - skip2 then 0 else d x)"
    using len by (intro clear_columns_value) auto
  finally show "clear_lines (line * (N - skip2)) (line * skip2) (clear_columns (line - skip) line skip (N - skip2) d) x
      = fastForwardMM N src dst shift line skip skip2 (flat N T) x"
    unfolding fastForwardMM_value [OF len] using d ks len(3) by (auto simp: subset_iff)
qed


lemma set_upt_sort: "sort ks = [0..<n] \<Longrightarrow> set ks = {..<n}"
  by (metis atLeast_upt set_sort)

lemma covers:
  "set [0, 1] = {..<2 :: nat}" "set [0, 2, 1, 3] = {..<4 :: nat}" "set [0, 4, 2, 6, 1, 3, 5, 7] = {..<8 :: nat}"
  "set ([0, 8, 4, 12] @ for_step 2 16 4 @ for_step 1 16 2) = {..<16}"
  "set ([0, 16, 8, 24] @ for_step 4 32 8 @ for_step 2 32 4 @ for_step 1 32 2) = {..<32}"
  "set ([0, 16] @ [32, 48] @ for_step 8 64 16 @ for_step 4 64 8 @ for_step 2 64 4 @ for_step 1 64 2) = {..<64}"
  "set ([0, 16] @ [] @ for_step 8 32 16 @ for_step 4 32 8 @ for_step 2 32 4 @ for_step 1 32 2) = {..<32}"
  by (rule set_upt_sort; simp add: for_step_def upt_conv_Cons)+


lemma covers_B64:
  "set ([0, 16] @ (if zo then [] else [32, 48]) @ for_step 8 (if zo then 32 else 64) 16 @ for_step 4 (if zo then 32 else 64) 8
      @ for_step 2 (if zo then 32 else 64) 4 @ for_step 1 (if zo then 32 else 64) 2) = {..<if zo then 32 else 64}"
  by (cases zo) (simp_all only: covers if_True if_False)

lemma forward_is_matrix0:
  assumes "\<And>s. body s = map (\<lambda>k. (k * line, row_value N T shift s k)) ks" and "set ks = {..<N}"
    and "skip \<le> line" "0 < line"
  shows "clear_columns (line - skip) line skip N (forward_lines N (line - skip) body src dst)
    = fastForwardMM N src dst shift line skip 0 (flat N T)"
  using forward_is_matrix [OF assms(1), where ?skip2.0 = 0 and skip = skip] assms(2-4) by (simp add: clear_lines_def)

text \<open>The inverse transforms.\<close>

lemma column_value_col:
  "N = 2 ^ m \<Longrightarrow> column_value N T shift line lo hi s = (\<lambda>j. Clip3 lo hi (drop_bit shift (col_all m T (\<lambda>k. s (k * line)) 0 j + 2 ^ (shift - 1))))"
  by (simp add: fun_eq_iff column_value_def col_all_def)

lemma col_four:
  assumes "dct_sym m T" "m = Suc (Suc l)" "X0 = col_all m T s (Suc l) 0" "X1 = col_all m T s (Suc l) 1"
    and "D0 = col_odd m T s l 0" "D1 = col_odd m T s l 1" "k < 4"
  shows "[X0 + D0, X1 + D1, X1 - D1, X0 - D0] ! k = col_all m T s l k"
proof -
  have "k = 0 \<or> k = 1 \<or> k = 2 \<or> k = 3" using assms(7) by linarith
  then show ?thesis
    using col_step [OF assms(1), of l 0 s] col_step [OF assms(1), of l 1 s] assms(2-6)
    by (elim disjE) (simp_all add: eval_nat_numeral)
qed

lemma flat_col: "k < n \<Longrightarrow> n \<le> N \<Longrightarrow> flat N T (c * N + k) = T ! c ! k"
  by (simp add: flat_row)

lemma inverse_B64_line:
  assumes sym: "dct_sym 6 T" and z: "\<And>k. zo \<Longrightarrow> 32 \<le> k \<Longrightarrow> k < 64 \<Longrightarrow> s (k * line) = 0"
  shows "fastInverseDCT2_B64_line (flat 64 T) (2 ^ (shift - 1)) shift line lo hi zo s
    = map (\<lambda>j. (j, column_value 64 T shift line lo hi s j)) (concat (map (\<lambda>k. [k, k + 32]) [0..<32]))"
proof -
  have N: "(64 :: nat) = 2 ^ 6" by simp
  note fin = col_all_def col_odd_def sums_unrolled z numeral_2_eq_2 [symmetric]
  have "(2 :: nat) \<le> 64" "(4 :: nat) \<le> 64" "(8 :: nat) \<le> 64" "(16 :: nat) \<le> 64" "(32 :: nat) \<le> 64" by simp_all
  note fl = this [THEN flat_col [of _ _ 64 T, rotated]]
  show ?thesis
    unfolding fastInverseDCT2_B64_line_def Let_def column_value_col [OF N]
    apply (rule inverse_body [OF sym])
        apply simp
       apply simp
      apply simp
     apply (rule col_arrays [OF sym], simp, simp, simp)
       apply (rule col_arrays [OF sym], simp, simp, simp)
         apply (rule col_arrays [OF sym], simp, simp, simp)
           apply (rule col_arrays [OF sym], simp, simp, simp)
             apply (drule less_2_cases, cases zo; elim disjE; simp add: fin flat_def; fail)
            apply (drule less_2_cases, cases zo; elim disjE; simp add: fin flat_def; fail)
           apply simp
          apply (cases zo; simp only: fl if_True if_False; simp add: fin; fail)
         apply simp
        apply (cases zo; simp only: fl if_True if_False; simp add: fin; fail)
       apply simp
      apply (cases zo; simp only: fl if_True if_False; simp add: fin; fail)
     apply simp
    apply (cases zo; simp only: fl if_True if_False; simp add: fin; fail)
    done
qed


lemma inverse_B32_line:
  assumes sym: "dct_sym 5 T"
  shows "fastInverseDCT2_B32_line (flat 32 T) (2 ^ (shift - 1)) shift line lo hi s
    = map (\<lambda>j. (j, column_value 32 T shift line lo hi s j)) (concat (map (\<lambda>k. [k, k + 16]) [0..<16]))"
proof -
  have N: "(32 :: nat) = 2 ^ 5" by simp
  note fin = col_all_def col_odd_def sums_unrolled numeral_2_eq_2 [symmetric]
  have "(4 :: nat) \<le> 32" "(8 :: nat) \<le> 32" "(16 :: nat) \<le> 32" by simp_all
  note fl = this [THEN flat_col [of _ _ 32 T, rotated]]
  show ?thesis
    unfolding fastInverseDCT2_B32_line_def Let_def column_value_col [OF N]
    apply (rule inverse_body [OF sym])
        apply simp
       apply simp
      apply simp
     apply (rule col_arrays [OF sym], simp, simp, simp)
       apply (rule col_arrays [OF sym], simp, simp, simp)
         apply (rule col_four [OF sym], simp)
             apply (simp add: fin flat_def; fail)+
        apply (simp only: fl; simp add: fin; fail)
       apply simp
      apply (simp only: fl; simp add: fin; fail)
     apply simp
    apply (simp only: fl; simp add: fin; fail)
    done
qed

lemma inverse_B16_line:
  assumes sym: "dct_sym 4 T"
  shows "fastInverseDCT2_B16_line (flat 16 T) (2 ^ (shift - 1)) shift line lo hi s
    = map (\<lambda>j. (j, column_value 16 T shift line lo hi s j)) (concat (map (\<lambda>k. [k, k + 8]) [0..<8]))"
proof -
  have N: "(16 :: nat) = 2 ^ 4" by simp
  note fin = col_all_def col_odd_def sums_unrolled numeral_2_eq_2 [symmetric]
  have "(4 :: nat) \<le> 16" "(8 :: nat) \<le> 16" by simp_all
  note fl = this [THEN flat_col [of _ _ 16 T, rotated]]
  show ?thesis
    unfolding fastInverseDCT2_B16_line_def Let_def column_value_col [OF N]
    apply (rule inverse_body [OF sym])
        apply simp
       apply simp
      apply simp
     apply (rule col_arrays [OF sym], simp, simp, simp)
       apply (rule col_arrays [OF sym], simp, simp, simp)
         apply (drule less_2_cases; elim disjE; simp add: fin flat_def; fail)
        apply (drule less_2_cases; elim disjE; simp add: fin flat_def; fail)
       apply simp
      apply (simp only: fl; simp add: fin; fail)
     apply simp
    apply (simp only: fl; simp add: fin; fail)
    done
qed

lemma inverse_B8_line:
  assumes sym: "dct_sym 3 T"
  shows "fastInverseDCT2_B8_line (flat 8 T) (2 ^ (shift - 1)) shift line lo hi s
    = map (\<lambda>j. (j, column_value 8 T shift line lo hi s j)) (concat (map (\<lambda>k. [k, k + 4]) [0..<4]))"
proof -
  have N: "(8 :: nat) = 2 ^ 3" by simp
  note fin = col_all_def col_odd_def sums_unrolled numeral_2_eq_2 [symmetric]
  have "(4 :: nat) \<le> 8" by simp
  note fl = this [THEN flat_col [of _ _ 8 T, rotated]]
  show ?thesis
    unfolding fastInverseDCT2_B8_line_def Let_def column_value_col [OF N]
    apply (rule inverse_body [OF sym])
        apply simp
       apply simp
      apply simp
     apply (rule col_four [OF sym], simp)
         apply (simp add: fin flat_def; fail)+
    apply (simp only: fl; simp add: fin; fail)
    done
qed

lemma inverse_B4_line:
  assumes sym: "dct_sym 2 T"
  shows "fastInverseDCT2_B4_line (flat 4 T) (2 ^ (shift - 1)) shift line lo hi s
    = map (\<lambda>j. (j, column_value 4 T shift line lo hi s j)) [0, 1, 2, 3]"
proof -
  have N: "(4 :: nat) = 2 ^ 2" by simp
  let ?S = "\<lambda>k. s (k * line)"
  have c: "col_all 2 T ?S 0 0 = col_all 2 T ?S (Suc 0) 0 + col_odd 2 T ?S 0 0" "col_all 2 T ?S 0 (Suc 0) = col_all 2 T ?S (Suc 0) (Suc 0) + col_odd 2 T ?S 0 (Suc 0)"
    "col_all 2 T ?S 0 2 = col_all 2 T ?S (Suc 0) (Suc 0) - col_odd 2 T ?S 0 (Suc 0)" "col_all 2 T ?S 0 3 = col_all 2 T ?S (Suc 0) 0 - col_odd 2 T ?S 0 0"
    using col_step [OF sym, of 0 0 ?S] col_step [OF sym, of 0 1 ?S] by (simp_all add: eval_nat_numeral)
  have d: "col_all 2 T ?S (Suc 0) j = T ! 0 ! j * s 0 + T ! 2 ! j * s (2 * line)" "col_odd 2 T ?S 0 j = T ! 1 ! j * s line + T ! 3 ! j * s (3 * line)"
    for j by (simp_all add: col_all_def col_odd_def sums_unrolled eval_nat_numeral)
  show ?thesis
    unfolding fastInverseDCT2_B4_line_def Let_def column_value_col [OF N] by (simp add: c d flat_def)
qed

lemma inverse_B2_line:
  "fastInverseDCT2_B2_line (flat 2 (g_trCoreDCT2P2 ! 0)) (2 ^ (shift - 1)) shift line lo hi s
    = map (\<lambda>j. (j, column_value 2 (g_trCoreDCT2P2 ! 0) shift line lo hi s j)) [0, 1]"
  by (simp add: fastInverseDCT2_B2_line_def column_value_def g_trCoreDCT2P2_def DEFINE_DCT2_P2_MATRIX_def sums_unrolled
      flat_def Let_def algebra_simps)

lemma inverse_is_matrix:
  assumes body: "\<And>i. i < line - skip \<Longrightarrow>
      body (\<lambda>k. src (i + k)) = map (\<lambda>j. (j, column_value N T shift line lo hi (\<lambda>k. src (i + k)) j)) ks"
    and ks: "set ks = {..<N}" and len: "0 < N" "skip2 \<le> N"
    and zero: "\<And>k i. N - skip2 \<le> k \<Longrightarrow> k < N \<Longrightarrow> i < line - skip \<Longrightarrow> src (k * line + i) = 0"
  shows "clear_lines (N * (line - skip)) (N * skip) (inverse_lines N (line - skip) body src dst)
    = fastInverseMM N src dst shift line skip skip2 lo hi (flat N T)"
proof
  fix x
  let ?body = "\<lambda>s. map (\<lambda>j. (j, column_value N T shift line lo hi s j)) ks"
  have "inverse_lines N (line - skip) body src dst = inverse_lines N (line - skip) ?body src dst"
    unfolding inverse_lines_def using body by (intro fold_cong) auto
  then have "inverse_lines N (line - skip) body src dst x
      = (if x < N * (line - skip) then column_value N T shift line lo hi (\<lambda>k. src (x div N + k)) (x mod N) else dst x)"
    by (simp only: inverse_lines_value [of ?body "column_value N T shift line lo hi", OF refl ks len(1)])
  then show "clear_lines (N * (line - skip)) (N * skip) (inverse_lines N (line - skip) body src dst) x
    = fastInverseMM N src dst shift line skip skip2 lo hi (flat N T) x"
    by (subst fastInverseMM_value [where src = src and line = line and skip = skip, OF len zero]) (auto simp: clear_lines_def memset0_def mult.commute)
qed


lemma forward_B2_matrix:
  assumes "0 < shift" "skip \<le> line" "0 < line"
  shows "fastForwardDCT2_B2 src dst shift line skip 0
    = fastForwardMM 2 src dst shift line skip 0 (flat 2 (g_trCoreDCT2P2 ! TRANSFORM_FORWARD))"
  unfolding fastForwardDCT2_B2_def Let_def TRANSFORM_FORWARD_def if_P [OF assms(1)]
  by (rule forward_is_matrix0 [OF forward_B2_line covers(1) assms(2,3)])

lemma inverse_B2_matrix:
  assumes "0 < shift" "skip2 \<le> 2"
    and "\<And>k i. 2 - skip2 \<le> k \<Longrightarrow> k < 2 \<Longrightarrow> i < line - skip \<Longrightarrow> src (k * line + i) = 0"
  shows "fastInverseDCT2_B2 src dst shift line skip skip2 lo hi
    = fastInverseMM 2 src dst shift line skip skip2 lo hi (flat 2 (g_trCoreDCT2P2 ! TRANSFORM_INVERSE))"
  unfolding fastInverseDCT2_B2_def Let_def TRANSFORM_INVERSE_def same_matrices if_P [OF assms(1)]
  by (rule inverse_is_matrix, rule inverse_B2_line) (use assms(2,3) in \<open>auto\<close>)

lemma forward_B4_matrix:
  assumes "0 < shift" "skip \<le> line" "0 < line"
  shows "fastForwardDCT2_B4 src dst shift line skip 0
    = fastForwardMM 4 src dst shift line skip 0 (flat 4 (g_trCoreDCT2P4 ! TRANSFORM_FORWARD))"
  unfolding fastForwardDCT2_B4_def Let_def TRANSFORM_FORWARD_def if_P [OF assms(1)]
  by (rule forward_is_matrix0 [OF forward_B4_line [OF matrices_sym(1)] covers(2) assms(2,3)])

lemma inverse_B4_matrix:
  assumes "0 < shift" "skip2 \<le> 4"
    and "\<And>k i. 4 - skip2 \<le> k \<Longrightarrow> k < 4 \<Longrightarrow> i < line - skip \<Longrightarrow> src (k * line + i) = 0"
  shows "fastInverseDCT2_B4 src dst shift line skip skip2 lo hi
    = fastInverseMM 4 src dst shift line skip skip2 lo hi (flat 4 (g_trCoreDCT2P4 ! TRANSFORM_INVERSE))"
  unfolding fastInverseDCT2_B4_def Let_def TRANSFORM_INVERSE_def same_matrices if_P [OF assms(1)]
  by (rule inverse_is_matrix, rule inverse_B4_line [OF matrices_sym(1)]) (use assms(2,3) in \<open>auto\<close>)

lemma forward_B8_matrix:
  assumes "0 < shift" "skip \<le> line" "0 < line"
  shows "fastForwardDCT2_B8 src dst shift line skip 0
    = fastForwardMM 8 src dst shift line skip 0 (flat 8 (g_trCoreDCT2P8 ! TRANSFORM_FORWARD))"
  unfolding fastForwardDCT2_B8_def Let_def TRANSFORM_FORWARD_def if_P [OF assms(1)]
  by (rule forward_is_matrix0 [OF forward_B8_line [OF matrices_sym(2)] covers(3) assms(2,3)])

lemma inverse_B8_matrix:
  assumes "0 < shift" "skip2 \<le> 8"
    and "\<And>k i. 8 - skip2 \<le> k \<Longrightarrow> k < 8 \<Longrightarrow> i < line - skip \<Longrightarrow> src (k * line + i) = 0"
  shows "fastInverseDCT2_B8 src dst shift line skip skip2 lo hi
    = fastInverseMM 8 src dst shift line skip skip2 lo hi (flat 8 (g_trCoreDCT2P8 ! TRANSFORM_INVERSE))"
  unfolding fastInverseDCT2_B8_def Let_def TRANSFORM_INVERSE_def same_matrices if_P [OF assms(1)]
  by (rule inverse_is_matrix, rule inverse_B8_line [OF matrices_sym(2)]) (use assms(2,3) in \<open>simp_all add: set_pairs del: set_concat\<close>)

lemma forward_B16_matrix:
  assumes "0 < shift" "skip \<le> line" "0 < line"
  shows "fastForwardDCT2_B16 src dst shift line skip 0
    = fastForwardMM 16 src dst shift line skip 0 (flat 16 (g_trCoreDCT2P16 ! TRANSFORM_FORWARD))"
  unfolding fastForwardDCT2_B16_def Let_def TRANSFORM_FORWARD_def if_P [OF assms(1)]
  by (rule forward_is_matrix0 [OF forward_B16_line [OF matrices_sym(3)] covers(4) assms(2,3)])

lemma inverse_B16_matrix:
  assumes "0 < shift" "skip2 \<le> 16"
    and "\<And>k i. 16 - skip2 \<le> k \<Longrightarrow> k < 16 \<Longrightarrow> i < line - skip \<Longrightarrow> src (k * line + i) = 0"
  shows "fastInverseDCT2_B16 src dst shift line skip skip2 lo hi
    = fastInverseMM 16 src dst shift line skip skip2 lo hi (flat 16 (g_trCoreDCT2P16 ! TRANSFORM_INVERSE))"
  unfolding fastInverseDCT2_B16_def Let_def TRANSFORM_INVERSE_def same_matrices if_P [OF assms(1)]
  by (rule inverse_is_matrix, rule inverse_B16_line [OF matrices_sym(3)]) (use assms(2,3) in \<open>simp_all add: set_pairs del: set_concat\<close>)

lemma forward_B32_matrix:
  assumes "0 < shift" "skip \<le> line" "0 < line"
  shows "fastForwardDCT2_B32 src dst shift line skip 0
    = fastForwardMM 32 src dst shift line skip 0 (flat 32 (g_trCoreDCT2P32 ! TRANSFORM_FORWARD))"
  unfolding fastForwardDCT2_B32_def Let_def TRANSFORM_FORWARD_def if_P [OF assms(1)]
  by (rule forward_is_matrix0 [OF forward_B32_line [OF matrices_sym(4)] covers(5) assms(2,3)])

lemma inverse_B32_matrix:
  assumes "0 < shift" "skip2 \<le> 32"
    and "\<And>k i. 32 - skip2 \<le> k \<Longrightarrow> k < 32 \<Longrightarrow> i < line - skip \<Longrightarrow> src (k * line + i) = 0"
  shows "fastInverseDCT2_B32 src dst shift line skip skip2 lo hi
    = fastInverseMM 32 src dst shift line skip skip2 lo hi (flat 32 (g_trCoreDCT2P32 ! TRANSFORM_INVERSE))"
  unfolding fastInverseDCT2_B32_def Let_def TRANSFORM_INVERSE_def same_matrices if_P [OF assms(1)]
  by (rule inverse_is_matrix, rule inverse_B32_line [OF matrices_sym(4)]) (use assms(2,3) in \<open>simp_all add: set_pairs del: set_concat\<close>)

lemma forward_B64_matrix:
  assumes "0 < shift" "skip \<le> line" "0 < line" "skip2 \<le> 64" "skip2 = 0 \<or> 32 \<le> skip2"
  shows "fastForwardDCT2_B64 src dst shift line skip skip2
    = fastForwardMM 64 src dst shift line skip skip2 (flat 64 (g_trCoreDCT2P64 ! TRANSFORM_FORWARD))"
  unfolding fastForwardDCT2_B64_def Let_def TRANSFORM_FORWARD_def
  by (rule forward_is_matrix [OF forward_B64_line [OF matrices_sym(5)] _ _ assms(2-4)])
    (unfold covers_B64, use assms(5) in \<open>auto split: if_splits\<close>)

lemma inverse_B64_matrix:
  assumes "skip2 \<le> 64"
    and "\<And>k i. 64 - skip2 \<le> k \<Longrightarrow> k < 64 \<Longrightarrow> i < line - skip \<Longrightarrow> src (k * line + i) = 0"
  shows "fastInverseDCT2_B64 src dst shift line skip skip2 lo hi
    = fastInverseMM 64 src dst shift line skip skip2 lo hi (flat 64 (g_trCoreDCT2P64 ! TRANSFORM_INVERSE))"
  unfolding fastInverseDCT2_B64_def Let_def TRANSFORM_INVERSE_def same_matrices
  by (rule inverse_is_matrix, rule inverse_B64_line [OF matrices_sym(5)])
    (use assms in \<open>simp_all add: set_pairs add.commute del: set_concat\<close>)

end
