(* ===== verification/SineTransforms.thy ===== *)
theory SineTransforms
  imports CosineTransforms
begin

text \<open>
  The fast forms of the sine transform VII and the cosine transform VIII, for 4, 16 and 32 points, from
  \<open>source/Lib/CommonLib/TrQuant_EMT.cpp\<close>. They save multiplications through relations among the integer
  coefficients; the cosine transform VIII of 16 and 32 points uses the sine table. Each is shown to be the
  matrix multiplication with its own table.
\<close>


definition fastForwardDST7_B4_line ::
  "coeffs \<Rightarrow> int \<Rightarrow> nat \<Rightarrow> nat \<Rightarrow> coeffs \<Rightarrow> (nat \<times> int) list" where
  "fastForwardDST7_B4_line iT rnd_factor shift line src =
    (let
       c = nth [src 0 + src 3, src 1 + src 3, src 0 - src 1, iT 2 * src 2]
     in [(0 * line, drop_bit shift (iT 0 * c 0 + iT 1 * c 1 + c 3 + rnd_factor)),
         (1 * line, drop_bit shift (iT 2 * (src 0 + src 1 - src 3) + rnd_factor)),
         (2 * line, drop_bit shift (iT 0 * c 2 + iT 1 * c 0 - c 3 + rnd_factor)),
         (3 * line, drop_bit shift (iT 1 * c 2 - iT 0 * c 1 + c 3 + rnd_factor))])"

definition fastForwardDST7_B4 ::
  "coeffs \<Rightarrow> coeffs \<Rightarrow> nat \<Rightarrow> nat \<Rightarrow> nat \<Rightarrow> nat \<Rightarrow> coeffs" where
  "fastForwardDST7_B4 src dst shift line iSkipLine iSkipLine2 =
    (let rnd_factor = if shift > 0 then 2 ^ (shift - 1) else 0;
         iT = flat 4 (g_trCoreDST7P4 ! TRANSFORM_FORWARD);
         reducedLine = line - iSkipLine;
         dst = forward_lines 4 reducedLine (fastForwardDST7_B4_line iT rnd_factor shift line) src dst
     in clear_columns reducedLine line iSkipLine 4 dst)"

definition fastInverseDST7_B4_line ::
  "coeffs \<Rightarrow> int \<Rightarrow> nat \<Rightarrow> nat \<Rightarrow> int \<Rightarrow> int \<Rightarrow> coeffs \<Rightarrow> (nat \<times> int) list" where
  "fastInverseDST7_B4_line iT rnd_factor shift line outputMinimum outputMaximum src =
    (let
       c = nth [src (0 * line) + src (2 * line), src (2 * line) + src (3 * line), src (0 * line) - src (3 *
           line), iT 2 * src (1 * line)]
     in [(0, Clip3 outputMinimum outputMaximum (drop_bit shift (iT 0 * c 0 + iT 1 * c 1 + c 3 + rnd_factor))),
         (1, Clip3 outputMinimum outputMaximum (drop_bit shift (iT 1 * c 2 - iT 0 * c 1 + c 3 + rnd_factor))),
         (2, Clip3 outputMinimum outputMaximum (drop_bit shift (iT 2 * (src (0 * line) - src (2 * line) + src (3
             * line)) + rnd_factor))),
         (3, Clip3 outputMinimum outputMaximum (drop_bit shift (iT 1 * c 0 + iT 0 * c 2 - c 3 + rnd_factor)))])"

definition fastInverseDST7_B4 ::
  "coeffs \<Rightarrow> coeffs \<Rightarrow> nat \<Rightarrow> nat \<Rightarrow> nat \<Rightarrow> nat \<Rightarrow> int \<Rightarrow> int \<Rightarrow> coeffs" where
  "fastInverseDST7_B4 src dst shift line iSkipLine iSkipLine2 outputMinimum outputMaximum =
    (let rnd_factor = if shift > 0 then 2 ^ (shift - 1) else 0;
         iT = flat 4 (g_trCoreDST7P4 ! TRANSFORM_INVERSE);
         reducedLine = line - iSkipLine;
         dst = inverse_lines 4 reducedLine (fastInverseDST7_B4_line iT rnd_factor shift line outputMinimum outputMaximum) src dst
     in clear_lines (4 * reducedLine) (4 * iSkipLine) dst)"

definition fastForwardDST7_B16_line ::
  "coeffs \<Rightarrow> int \<Rightarrow> nat \<Rightarrow> nat \<Rightarrow> coeffs \<Rightarrow> (nat \<times> int) list" where
  "fastForwardDST7_B16_line iT add shift line src =
    (let
       a = (\<lambda>k. src k + src (11 + k));
       b = (\<lambda>k. src (9 - k) + src (11 + k));
       c = (\<lambda>k. src k - src (9 - k));
       d = (\<lambda>k. src k + src (9 - k) - src (11 + k));
       t = iT 10 * src 10
     in [(1 * line, drop_bit shift (iT 2 * d 0 + iT 5 * d 1 + iT 8 * d 2 + iT 11 * d 3 + iT 14 * d 4 + add)),
         (4 * line, drop_bit shift (iT 8 * d 0 + iT 14 * d 1 + iT 5 * d 2 - iT 2 * d 3 - iT 11 * d 4 + add)),
         (7 * line, drop_bit shift (iT 14 * d 0 + iT 2 * d 1 - iT 11 * d 2 - iT 5 * d 3 + iT 8 * d 4 + add)),
         (10 * line, drop_bit shift (iT 11 * d 0 - iT 8 * d 1 - iT 2 * d 2 + iT 14 * d 3 - iT 5 * d 4 + add)),
         (13 * line, drop_bit shift (iT 5 * d 0 - iT 11 * d 1 + iT 14 * d 2 - iT 8 * d 3 + iT 2 * d 4 + add)),
         (5 * line, drop_bit shift (iT 10 * (src 0 + src 1 - src 3 - src 4 + src 6 + src 7 - src 9 - src 10 +
             src 12 + src 13 - src 15) + add)),
         (0 * line, drop_bit shift (iT 0 * a 0 + iT 9 * b 0 + iT 1 * a 1 + iT 8 * b 1 + iT 2 * a 2 + iT 7 * b 2
             + iT 3 * a 3 + iT 6 * b 3 + iT 4 * a 4 + iT 5 * b 4 + t + add)),
         (2 * line, drop_bit shift (iT 4 * c 0 - iT 5 * b 0 + iT 9 * c 1 - iT 0 * b 1 + iT 6 * c 2 + iT 3 * a 2
             + iT 1 * c 3 + iT 8 * a 3 + iT 7 * a 4 + iT 2 * b 4 - t + add)),
         (3 * line, drop_bit shift (iT 6 * a 0 + iT 3 * b 0 + iT 2 * c 1 + iT 7 * a 1 + iT 9 * c 2 + iT 0 * a 2
             + iT 4 * c 3 - iT 5 * b 3 - iT 1 * a 4 - iT 8 * b 4 + t + add)),
         (6 * line, drop_bit shift (iT 8 * a 0 + iT 1 * c 0 + iT 6 * c 1 - iT 3 * b 1 - iT 5 * a 2 - iT 4 * b 2
             - iT 7 * c 3 - iT 2 * a 3 - iT 0 * c 4 + iT 9 * b 4 + t + add)),
         (8 * line, drop_bit shift (iT 4 * c 0 + iT 5 * a 0 - iT 0 * c 1 + iT 9 * b 1 - iT 3 * c 2 - iT 6 * a 2
             + iT 1 * c 3 - iT 8 * b 3 + iT 2 * c 4 + iT 7 * a 4 - t + add)),
         (9 * line, drop_bit shift (iT 7 * c 0 + iT 2 * a 0 - iT 4 * a 1 - iT 5 * b 1 - iT 8 * c 2 + iT 1 * b 2
             + iT 9 * a 3 + iT 0 * b 3 + iT 3 * c 4 - iT 6 * b 4 + t + add)),
         (11 * line, drop_bit shift (iT 9 * a 0 + iT 0 * b 0 - iT 8 * c 1 - iT 1 * a 1 + iT 2 * c 2 - iT 7 * b 2
             + iT 6 * a 3 + iT 3 * b 3 - iT 5 * c 4 - iT 4 * a 4 - t + add)),
         (12 * line, drop_bit shift (iT 7 * c 0 - iT 2 * b 0 - iT 5 * c 1 - iT 4 * a 1 + iT 8 * a 2 + iT 1 * b 2
             - iT 0 * a 3 - iT 9 * b 3 - iT 6 * c 4 + iT 3 * b 4 + t + add)),
         (14 * line, drop_bit shift (iT 3 * a 0 + iT 6 * b 0 - iT 7 * a 1 - iT 2 * b 1 + iT 0 * c 2 + iT 9 * a 2
             - iT 4 * c 3 - iT 5 * a 3 + iT 8 * c 4 + iT 1 * a 4 - t + add)),
         (15 * line, drop_bit shift (iT 1 * c 0 - iT 8 * b 0 - iT 3 * c 1 + iT 6 * b 1 + iT 5 * c 2 - iT 4 * b 2
             - iT 7 * c 3 + iT 2 * b 3 + iT 9 * c 4 - iT 0 * b 4 + t + add))])"

definition fastForwardDST7_B16 ::
  "coeffs \<Rightarrow> coeffs \<Rightarrow> nat \<Rightarrow> nat \<Rightarrow> nat \<Rightarrow> nat \<Rightarrow> coeffs" where
  "fastForwardDST7_B16 src dst shift line iSkipLine iSkipLine2 =
    (let add = if shift > 0 then 2 ^ (shift - 1) else 0;
         iT = flat 16 (g_trCoreDST7P16 ! TRANSFORM_FORWARD);
         reducedLine = line - iSkipLine;
         cutoff = 16 - iSkipLine2;
         dst = forward_lines 16 reducedLine (fastForwardDST7_B16_line iT add shift line) src dst
     in clear_lines (line * cutoff) (line * iSkipLine2) (clear_columns reducedLine line iSkipLine cutoff dst))"

definition fastInverseDST7_B16_line ::
  "coeffs \<Rightarrow> int \<Rightarrow> nat \<Rightarrow> nat \<Rightarrow> int \<Rightarrow> int \<Rightarrow> coeffs \<Rightarrow> (nat \<times> int) list" where
  "fastInverseDST7_B16_line iT add shift line outputMinimum outputMaximum src =
    (let
       a = (\<lambda>k. src (k * line) + src ((10 - k) * line));
       b = (\<lambda>k. src ((11 + k) * line) + src ((10 - k) * line));
       c = (\<lambda>k. src (k * line) - src ((11 + k) * line));
       d = (\<lambda>k. src (k * line) + src ((11 + k) * line) - src ((10 - k) * line));
       t = iT 10 * src (5 * line)
     in [(2, Clip3 outputMinimum outputMaximum (drop_bit shift (iT 2 * d 0 + iT 8 * d 1 + iT 14 * d 2 + iT 11 *
             d 3 + iT 5 * d 4 + add))),
         (5, Clip3 outputMinimum outputMaximum (drop_bit shift (iT 5 * d 0 + iT 14 * d 1 + iT 2 * d 2 - iT 8 * d
             3 - iT 11 * d 4 + add))),
         (8, Clip3 outputMinimum outputMaximum (drop_bit shift (iT 8 * d 0 + iT 5 * d 1 - iT 11 * d 2 - iT 2 * d
             3 + iT 14 * d 4 + add))),
         (11, Clip3 outputMinimum outputMaximum (drop_bit shift (iT 11 * d 0 - iT 2 * d 1 - iT 5 * d 2 + iT 14 *
             d 3 - iT 8 * d 4 + add))),
         (14, Clip3 outputMinimum outputMaximum (drop_bit shift (iT 14 * d 0 - iT 11 * d 1 + iT 8 * d 2 - iT 5 *
             d 3 + iT 2 * d 4 + add))),
         (10, Clip3 outputMinimum outputMaximum (drop_bit shift (iT 10 * (src (0 * line) - src (2 * line) + src
             (3 * line) - src (5 * line) + src (6 * line) - src (8 * line) + src (9 * line) - src (11 * line) +
             src (12 * line) - src (14 * line) + src (15 * line)) + add))),
         (0, Clip3 outputMinimum outputMaximum (drop_bit shift (iT 0 * a 0 + iT 9 * b 0 + iT 2 * a 1 + iT 7 * b
             1 + iT 4 * a 2 + iT 5 * b 2 + iT 6 * a 3 + iT 3 * b 3 + iT 8 * a 4 + iT 1 * b 4 + t + add))),
         (1, Clip3 outputMinimum outputMaximum (drop_bit shift (iT 1 * c 0 - iT 8 * b 0 + iT 5 * c 1 - iT 4 * b
             1 + iT 9 * c 2 - iT 0 * b 2 + iT 2 * a 3 + iT 7 * c 3 + iT 6 * a 4 + iT 3 * c 4 + t + add))),
         (3, Clip3 outputMinimum outputMaximum (drop_bit shift (iT 3 * a 0 + iT 6 * b 0 + iT 0 * c 1 + iT 9 * a
             1 + iT 1 * a 2 + iT 8 * c 2 + iT 4 * c 3 - iT 5 * b 3 - iT 2 * a 4 - iT 7 * b 4 - t + add))),
         (4, Clip3 outputMinimum outputMaximum (drop_bit shift (iT 4 * c 0 - iT 5 * b 0 + iT 6 * c 1 + iT 3 * a
             1 + iT 7 * a 2 + iT 2 * b 2 - iT 1 * c 3 + iT 8 * b 3 - iT 9 * c 4 - iT 0 * a 4 - t + add))),
         (6, Clip3 outputMinimum outputMaximum (drop_bit shift (iT 6 * a 0 + iT 3 * b 0 + iT 9 * c 1 + iT 0 * a
             1 - iT 1 * a 2 - iT 8 * b 2 - iT 4 * c 3 - iT 5 * a 3 - iT 2 * c 4 + iT 7 * b 4 + t + add))),
         (7, Clip3 outputMinimum outputMaximum (drop_bit shift (iT 7 * c 0 - iT 2 * b 0 + iT 8 * a 1 + iT 1 * b
             1 - iT 6 * c 2 + iT 3 * b 2 - iT 9 * a 3 - iT 0 * b 3 + iT 5 * c 4 - iT 4 * b 4 + t + add))),
         (9, Clip3 outputMinimum outputMaximum (drop_bit shift (iT 9 * a 0 + iT 0 * b 0 + iT 2 * c 1 - iT 7 * b
             1 - iT 5 * c 2 - iT 4 * a 2 + iT 3 * a 3 + iT 6 * b 3 + iT 8 * c 4 - iT 1 * b 4 - t + add))),
         (12, Clip3 outputMinimum outputMaximum (drop_bit shift (iT 1 * c 0 + iT 8 * a 0 - iT 5 * a 1 - iT 4 * b
             1 - iT 0 * c 2 + iT 9 * b 2 + iT 7 * c 3 - iT 2 * b 3 - iT 6 * c 4 - iT 3 * a 4 + t + add))),
         (13, Clip3 outputMinimum outputMaximum (drop_bit shift (iT 7 * c 0 + iT 2 * a 0 - iT 8 * c 1 + iT 1 * b
             1 + iT 3 * c 2 - iT 6 * b 2 + iT 0 * a 3 + iT 9 * b 3 - iT 5 * a 4 - iT 4 * b 4 + t + add))),
         (15, Clip3 outputMinimum outputMaximum (drop_bit shift (iT 4 * c 0 + iT 5 * a 0 - iT 3 * c 1 - iT 6 * a
             1 + iT 2 * c 2 + iT 7 * a 2 - iT 1 * c 3 - iT 8 * a 3 + iT 0 * c 4 + iT 9 * a 4 - t + add)))])"

definition fastInverseDST7_B16 ::
  "coeffs \<Rightarrow> coeffs \<Rightarrow> nat \<Rightarrow> nat \<Rightarrow> nat \<Rightarrow> nat \<Rightarrow> int \<Rightarrow> int \<Rightarrow> coeffs" where
  "fastInverseDST7_B16 src dst shift line iSkipLine iSkipLine2 outputMinimum outputMaximum =
    (let add = if shift > 0 then 2 ^ (shift - 1) else 0;
         iT = flat 16 (g_trCoreDST7P16 ! TRANSFORM_INVERSE);
         reducedLine = line - iSkipLine;
         dst = inverse_lines 16 reducedLine (fastInverseDST7_B16_line iT add shift line outputMinimum outputMaximum) src dst
     in clear_lines (16 * reducedLine) (16 * iSkipLine) dst)"

definition fastForwardDST7_B32_line ::
  "coeffs \<Rightarrow> int \<Rightarrow> nat \<Rightarrow> nat \<Rightarrow> coeffs \<Rightarrow> (nat \<times> int) list" where
  "fastForwardDST7_B32_line iT add shift line src =
    (let
       a0 = (\<lambda>k. src k - src (11 - k));
       a1 = (\<lambda>k. src k + src (13 + k));
       a2 = (\<lambda>k. src k + src (24 - k));
       a3 = (\<lambda>k. src k - src (26 + k));
       a4 = (\<lambda>k. src (6 + k) + src (18 - k));
       a5 = (\<lambda>k. src (6 + k) + src (19 + k));
       a6 = (\<lambda>k. src (6 + k) - src (31 - k));
       a7 = (\<lambda>k. src (13 + k) - src (24 - k));
       a8 = (\<lambda>k. src (13 + k) + src (26 + k));
       a9 = (\<lambda>k. src (19 + k) + src (31 - k));
       b = (\<lambda>k. src k + src (11 - k) - src (13 + k) - src (24 - k) + src (26 + k));
       c = (\<lambda>k. src k + src (3 - k) - src (5 + k) - src (8 - k) + src (10 + k) + src (13 - k) - src (15
           + k) - src (18 - k) + src (20 + k) + src (23 - k) - src (25 + k) - src (28 - k) + src (30 + k));
       t = nth [iT 12 * src 12 + iT 25 * src 25, iT 12 * src 25 - iT 25 * src 12]
     in [(0 * line, drop_bit shift (iT 0 * a3 0 + iT 11 * a6 5 + iT 13 * a8 0 + iT 24 * a9 5 + iT 1 * a3 1 + iT
             10 * a6 4 + iT 14 * a8 1 + iT 23 * a9 4 + iT 2 * a3 2 + iT 9 * a6 3 + iT 15 * a8 2 + iT 22 * a9 3 +
             iT 3 * a3 3 + iT 8 * a6 2 + iT 16 * a8 3 + iT 21 * a9 2 + iT 4 * a3 4 + iT 7 * a6 1 + iT 17 * a8 4
             + iT 20 * a9 1 + iT 5 * a3 5 + iT 6 * a6 0 + iT 18 * a8 5 + iT 19 * a9 0 + t 0 + add)),
         (1 * line, drop_bit shift (- iT 0 * a5 2 + iT 11 * a0 3 + iT 13 * a4 2 + iT 24 * a6 2 + iT 1 * a9 1 +
             iT 10 * a8 4 + iT 14 * a3 4 + iT 23 * a6 1 + iT 2 * a0 0 - iT 9 * a5 5 + iT 15 * a6 5 + iT 22 * a4
             5 - iT 3 * a5 3 + iT 8 * a0 2 + iT 16 * a4 3 + iT 21 * a6 3 + iT 4 * a9 0 + iT 7 * a8 5 + iT 17 *
             a3 5 + iT 20 * a6 0 + iT 5 * a0 1 - iT 6 * a5 4 + iT 18 * a6 4 + iT 19 * a4 4 - t 1 + add)),
         (3 * line, drop_bit shift (- iT 0 * a9 4 - iT 11 * a5 4 + iT 13 * a2 1 - iT 24 * a7 1 - iT 1 * a0 3 -
             iT 10 * a1 3 + iT 14 * a3 3 + iT 23 * a2 3 + iT 2 * a8 5 + iT 9 * a9 0 + iT 15 * a6 0 + iT 22 * a3
             5 - iT 3 * a1 4 - iT 8 * a0 4 + iT 16 * a2 4 + iT 21 * a3 4 - iT 4 * a5 3 - iT 7 * a9 3 - iT 17 *
             a7 2 + iT 20 * a2 2 + iT 5 * a8 0 + iT 6 * a1 0 - iT 18 * a4 5 - iT 19 * a7 0 + t 1 + add)),
         (4 * line, drop_bit shift (- iT 0 * a3 2 - iT 11 * a2 2 + iT 13 * a1 2 + iT 24 * a0 2 + iT 1 * a6 0 +
             iT 10 * a3 5 + iT 14 * a9 0 + iT 23 * a8 5 - iT 2 * a2 3 - iT 9 * a3 3 + iT 15 * a0 3 + iT 22 * a1
             3 - iT 3 * a7 0 + iT 8 * a2 0 - iT 16 * a9 5 - iT 21 * a5 5 + iT 4 * a4 4 + iT 7 * a6 4 + iT 17 *
             a0 1 - iT 20 * a5 4 - iT 5 * a7 4 - iT 6 * a4 1 + iT 18 * a8 4 + iT 19 * a1 4 - t 0 + add)),
         (5 * line, drop_bit shift (- iT 0 * a3 5 - iT 11 * a6 0 - iT 13 * a8 5 - iT 24 * a9 0 + iT 1 * a6 5 +
             iT 10 * a3 0 + iT 14 * a9 5 + iT 23 * a8 0 - iT 2 * a7 4 + iT 9 * a2 4 - iT 15 * a9 1 - iT 22 * a5
             1 - iT 3 * a7 1 - iT 8 * a4 4 + iT 16 * a8 1 + iT 21 * a1 1 + iT 4 * a6 2 + iT 7 * a4 2 - iT 17 *
             a5 2 + iT 20 * a0 3 - iT 5 * a3 2 - iT 6 * a2 2 + iT 18 * a1 2 + iT 19 * a0 2 + t 0 + add)),
         (8 * line, drop_bit shift (iT 0 * a9 3 + iT 11 * a8 2 + iT 13 * a3 2 + iT 24 * a6 3 + iT 1 * a1 5 + iT
             10 * a0 5 - iT 14 * a2 5 - iT 23 * a3 5 - iT 2 * a1 3 - iT 9 * a8 3 + iT 15 * a7 3 + iT 22 * a4 2 -
             iT 3 * a9 5 - iT 8 * a5 5 + iT 16 * a2 0 - iT 21 * a7 0 - iT 4 * a1 1 - iT 7 * a0 1 + iT 17 * a2 1
             + iT 20 * a3 1 + iT 5 * a5 1 + iT 6 * a9 1 + iT 18 * a7 4 - iT 19 * a2 4 + t 1 + add)),
         (9 * line, drop_bit shift (- iT 0 * a2 1 - iT 11 * a3 1 + iT 13 * a0 1 + iT 24 * a1 1 + iT 1 * a7 3 -
             iT 10 * a2 3 + iT 14 * a9 2 + iT 23 * a5 2 + iT 2 * a4 0 + iT 9 * a7 5 - iT 15 * a1 5 - iT 22 * a8
             5 + iT 3 * a3 4 + iT 8 * a2 4 - iT 16 * a1 4 - iT 21 * a0 4 + iT 4 * a6 3 + iT 7 * a3 2 + iT 17 *
             a9 3 + iT 20 * a8 2 + iT 5 * a4 5 + iT 6 * a6 5 + iT 18 * a0 0 - iT 19 * a5 5 - t 0 + add)),
         (10 * line, drop_bit shift (- iT 0 * a6 1 - iT 11 * a4 1 + iT 13 * a5 1 - iT 24 * a0 4 + iT 1 * a2 2 -
             iT 10 * a7 2 - iT 14 * a5 3 - iT 23 * a9 3 + iT 2 * a6 4 + iT 9 * a4 4 - iT 15 * a5 4 + iT 22 * a0
             1 - iT 3 * a2 5 + iT 8 * a7 5 + iT 16 * a5 0 + iT 21 * a9 0 - iT 4 * a7 0 - iT 7 * a4 5 + iT 17 *
             a8 0 + iT 20 * a1 0 + iT 5 * a4 2 + iT 6 * a7 3 - iT 18 * a1 3 - iT 19 * a8 3 + t 0 + add)),
         (11 * line, drop_bit shift (iT 0 * a1 3 + iT 11 * a0 3 - iT 13 * a2 3 - iT 24 * a3 3 + iT 1 * a9 1 + iT
             10 * a5 1 - iT 14 * a2 4 + iT 23 * a7 4 + iT 2 * a8 0 + iT 9 * a9 5 + iT 15 * a6 5 + iT 22 * a3 0 -
             iT 3 * a0 2 + iT 8 * a5 3 - iT 16 * a6 3 - iT 21 * a4 3 - iT 4 * a5 0 + iT 7 * a0 5 + iT 17 * a4 0
             + iT 20 * a6 0 - iT 5 * a9 4 - iT 6 * a5 4 + iT 18 * a2 1 - iT 19 * a7 1 - t 1 + add)),
         (13 * line, drop_bit shift (- iT 0 * a0 0 - iT 11 * a1 0 + iT 13 * a3 0 + iT 24 * a2 0 - iT 1 * a5 4 +
             iT 10 * a0 1 + iT 14 * a4 4 + iT 23 * a6 4 + iT 2 * a9 3 + iT 9 * a5 3 - iT 15 * a2 2 + iT 22 * a7
             2 - iT 3 * a8 3 - iT 8 * a9 2 - iT 16 * a6 2 - iT 21 * a3 3 + iT 4 * a1 4 + iT 7 * a8 4 - iT 17 *
             a7 4 - iT 20 * a4 1 - iT 5 * a0 5 - iT 6 * a1 5 + iT 18 * a3 5 + iT 19 * a2 5 + t 1 + add)),
         (14 * line, drop_bit shift (iT 0 * a4 2 + iT 11 * a7 3 - iT 13 * a1 3 - iT 24 * a8 3 + iT 1 * a4 1 + iT
             10 * a6 1 + iT 14 * a0 4 - iT 23 * a5 1 - iT 2 * a3 0 - iT 9 * a2 0 + iT 15 * a1 0 + iT 22 * a0 0 -
             iT 3 * a6 3 - iT 8 * a4 3 + iT 16 * a5 3 - iT 21 * a0 2 - iT 4 * a7 5 - iT 7 * a4 0 + iT 17 * a8 5
             + iT 20 * a1 5 + iT 5 * a6 4 + iT 6 * a3 1 + iT 18 * a9 4 + iT 19 * a8 1 - t 0 + add)),
         (15 * line, drop_bit shift (- iT 0 * a7 4 - iT 11 * a4 1 + iT 13 * a8 4 + iT 24 * a1 4 + iT 1 * a2 2 +
             iT 10 * a3 2 - iT 14 * a0 2 - iT 23 * a1 2 + iT 2 * a2 1 - iT 9 * a7 1 - iT 15 * a5 4 - iT 22 * a9
             4 - iT 3 * a7 5 + iT 8 * a2 5 - iT 16 * a9 0 - iT 21 * a5 0 - iT 4 * a2 0 - iT 7 * a3 0 + iT 17 *
             a0 0 + iT 20 * a1 0 - iT 5 * a2 3 + iT 6 * a7 3 + iT 18 * a5 2 + iT 19 * a9 2 + t 0 + add)),
         (16 * line, drop_bit shift (- iT 0 * a0 1 + iT 11 * a5 4 - iT 13 * a6 4 - iT 24 * a4 4 + iT 1 * a0 3 -
             iT 10 * a5 2 + iT 14 * a6 2 + iT 23 * a4 2 - iT 2 * a0 5 + iT 9 * a5 0 - iT 15 * a6 0 - iT 22 * a4
             0 - iT 3 * a0 4 - iT 8 * a1 4 + iT 16 * a3 4 + iT 21 * a2 4 + iT 4 * a0 2 + iT 7 * a1 2 - iT 17 *
             a3 2 - iT 20 * a2 2 - iT 5 * a0 0 - iT 6 * a1 0 + iT 18 * a3 0 + iT 19 * a2 0 - t 1 + add)),
         (18 * line, drop_bit shift (iT 0 * a0 5 + iT 11 * a1 5 - iT 13 * a3 5 - iT 24 * a2 5 - iT 1 * a1 0 - iT
             10 * a0 0 + iT 14 * a2 0 + iT 23 * a3 0 - iT 2 * a5 1 + iT 9 * a0 4 + iT 15 * a4 1 + iT 22 * a6 1 -
             iT 3 * a8 1 - iT 8 * a1 1 + iT 16 * a4 4 + iT 21 * a7 1 - iT 4 * a9 2 - iT 7 * a5 2 + iT 17 * a2 3
             - iT 20 * a7 3 - iT 5 * a9 3 - iT 6 * a8 2 - iT 18 * a3 2 - iT 19 * a6 3 + t 1 + add)),
         (20 * line, drop_bit shift (- iT 0 * a4 0 - iT 11 * a6 0 - iT 13 * a0 5 + iT 24 * a5 0 + iT 1 * a6 5 +
             iT 10 * a4 5 - iT 14 * a5 5 + iT 23 * a0 0 - iT 2 * a6 1 - iT 9 * a3 4 - iT 15 * a9 1 - iT 22 * a8
             4 + iT 3 * a4 4 + iT 8 * a7 1 - iT 16 * a1 1 - iT 21 * a8 1 - iT 4 * a3 3 - iT 7 * a2 3 + iT 17 *
             a1 3 + iT 20 * a0 3 + iT 5 * a7 2 - iT 6 * a2 2 + iT 18 * a9 3 + iT 19 * a5 3 + t 0 + add)),
         (21 * line, drop_bit shift (- iT 0 * a1 2 - iT 11 * a8 2 + iT 13 * a7 2 + iT 24 * a4 3 - iT 1 * a1 5 -
             iT 10 * a8 5 + iT 14 * a7 5 + iT 23 * a4 0 - iT 2 * a5 2 - iT 9 * a9 2 - iT 15 * a7 3 + iT 22 * a2
             3 - iT 3 * a5 5 - iT 8 * a9 5 - iT 16 * a7 0 + iT 21 * a2 0 - iT 4 * a8 1 - iT 7 * a9 4 - iT 17 *
             a6 4 - iT 20 * a3 1 - iT 5 * a8 4 - iT 6 * a9 1 - iT 18 * a6 1 - iT 19 * a3 4 - t 1 + add)),
         (23 * line, drop_bit shift (- iT 0 * a8 4 - iT 11 * a9 1 - iT 13 * a6 1 - iT 24 * a3 4 + iT 1 * a8 2 +
             iT 10 * a1 2 - iT 14 * a4 3 - iT 23 * a7 2 + iT 2 * a0 1 + iT 9 * a1 1 - iT 15 * a3 1 - iT 22 * a2
             1 - iT 3 * a5 0 - iT 8 * a9 0 - iT 16 * a7 5 + iT 21 * a2 5 + iT 4 * a9 5 + iT 7 * a8 0 + iT 17 *
             a3 0 + iT 20 * a6 5 - iT 5 * a5 2 + iT 6 * a0 3 + iT 18 * a4 2 + iT 19 * a6 2 + t 1 + add)),
         (24 * line, drop_bit shift (- iT 0 * a2 3 + iT 11 * a7 3 + iT 13 * a5 2 + iT 24 * a9 2 + iT 1 * a4 1 +
             iT 10 * a7 4 - iT 14 * a1 4 - iT 23 * a8 4 - iT 2 * a4 5 - iT 9 * a7 0 + iT 15 * a1 0 + iT 22 * a8
             0 + iT 3 * a4 3 + iT 8 * a6 3 + iT 16 * a0 2 - iT 21 * a5 3 - iT 4 * a2 5 - iT 7 * a3 5 + iT 17 *
             a0 5 + iT 20 * a1 5 + iT 5 * a2 1 + iT 6 * a3 1 - iT 18 * a0 1 - iT 19 * a1 1 - t 0 + add)),
         (25 * line, drop_bit shift (iT 0 * a4 5 + iT 11 * a6 5 + iT 13 * a0 0 - iT 24 * a5 5 + iT 1 * a3 1 + iT
             10 * a2 1 - iT 14 * a1 1 - iT 23 * a0 1 - iT 2 * a7 2 - iT 9 * a4 3 + iT 15 * a8 2 + iT 22 * a1 2 -
             iT 3 * a6 2 - iT 8 * a3 3 - iT 16 * a9 2 - iT 21 * a8 3 - iT 4 * a2 4 + iT 7 * a7 4 + iT 17 * a5 1
             + iT 20 * a9 1 + iT 5 * a4 0 + iT 6 * a6 0 + iT 18 * a0 5 - iT 19 * a5 0 + t 0 + add)),
         (26 * line, drop_bit shift (iT 0 * a8 0 + iT 11 * a1 0 - iT 13 * a4 5 - iT 24 * a7 0 + iT 1 * a5 4 + iT
             10 * a9 4 + iT 14 * a7 1 - iT 23 * a2 1 - iT 2 * a1 2 - iT 9 * a0 2 + iT 15 * a2 2 + iT 22 * a3 2 -
             iT 3 * a9 2 - iT 8 * a8 3 - iT 16 * a3 3 - iT 21 * a6 2 + iT 4 * a0 4 - iT 7 * a5 1 + iT 17 * a6 1
             + iT 20 * a4 1 + iT 5 * a8 5 + iT 6 * a1 5 - iT 18 * a4 0 - iT 19 * a7 5 - t 1 + add)),
         (28 * line, drop_bit shift (- iT 0 * a5 1 - iT 11 * a9 1 - iT 13 * a7 4 + iT 24 * a2 4 + iT 1 * a8 2 +
             iT 10 * a9 3 + iT 14 * a6 3 + iT 23 * a3 2 - iT 2 * a9 4 - iT 9 * a8 1 - iT 15 * a3 1 - iT 22 * a6
             4 + iT 3 * a9 0 + iT 8 * a5 0 - iT 16 * a2 5 + iT 21 * a7 5 - iT 4 * a5 5 + iT 7 * a0 0 + iT 17 *
             a4 5 + iT 20 * a6 5 + iT 5 * a1 3 + iT 6 * a0 3 - iT 18 * a2 3 - iT 19 * a3 3 + t 1 + add)),
         (29 * line, drop_bit shift (- iT 0 * a6 4 - iT 11 * a3 1 - iT 13 * a9 4 - iT 24 * a8 1 + iT 1 * a7 3 +
             iT 10 * a4 2 - iT 14 * a8 3 - iT 23 * a1 3 + iT 2 * a3 5 + iT 9 * a2 5 - iT 15 * a1 5 - iT 22 * a0
             5 - iT 3 * a2 4 - iT 8 * a3 4 + iT 16 * a0 4 + iT 21 * a1 4 - iT 4 * a4 3 - iT 7 * a7 2 + iT 17 *
             a1 2 + iT 20 * a8 2 + iT 5 * a3 0 + iT 6 * a6 5 + iT 18 * a8 0 + iT 19 * a9 5 - t 0 + add)),
         (30 * line, drop_bit shift (- iT 0 * a7 2 + iT 11 * a2 2 - iT 13 * a9 3 - iT 24 * a5 3 - iT 1 * a6 0 -
             iT 10 * a4 0 + iT 14 * a5 0 - iT 23 * a0 5 - iT 2 * a4 2 - iT 9 * a6 2 - iT 15 * a0 3 + iT 22 * a5
             2 + iT 3 * a2 0 - iT 8 * a7 0 - iT 16 * a5 5 - iT 21 * a9 5 + iT 4 * a7 1 - iT 7 * a2 1 + iT 17 *
             a9 4 + iT 20 * a5 4 + iT 5 * a6 1 + iT 6 * a4 1 - iT 18 * a5 1 + iT 19 * a0 4 + t 0 + add)),
         (31 * line, drop_bit shift (- iT 0 * a8 5 - iT 11 * a1 5 + iT 13 * a4 0 + iT 24 * a7 5 + iT 1 * a1 0 +
             iT 10 * a8 0 - iT 14 * a7 0 - iT 23 * a4 5 + iT 2 * a8 4 + iT 9 * a1 4 - iT 15 * a4 1 - iT 22 * a7
             4 - iT 3 * a1 1 - iT 8 * a8 1 + iT 16 * a7 1 + iT 21 * a4 4 - iT 4 * a8 3 - iT 7 * a1 3 + iT 17 *
             a4 2 + iT 20 * a7 3 + iT 5 * a1 2 + iT 6 * a8 2 - iT 18 * a7 2 - iT 19 * a4 3 - t 1 + add)),
         (2 * line, drop_bit shift (iT 4 * b 0 + iT 9 * b 1 + iT 14 * b 2 + iT 19 * b 3 + iT 24 * b 4 + iT 29 *
             b 5 + add)),
         (7 * line, drop_bit shift (iT 14 * b 0 + iT 29 * b 1 + iT 19 * b 2 + iT 4 * b 3 - iT 9 * b 4 - iT 24 *
             b 5 + add)),
         (12 * line, drop_bit shift (iT 24 * b 0 + iT 14 * b 1 - iT 9 * b 2 - iT 29 * b 3 - iT 4 * b 4 + iT 19 *
             b 5 + add)),
         (17 * line, drop_bit shift (iT 29 * b 0 - iT 4 * b 1 - iT 24 * b 2 + iT 9 * b 3 + iT 19 * b 4 - iT 14 *
             b 5 + add)),
         (22 * line, drop_bit shift (iT 19 * b 0 - iT 24 * b 1 + iT 4 * b 2 + iT 14 * b 3 - iT 29 * b 4 + iT 9 *
             b 5 + add)),
         (27 * line, drop_bit shift (iT 9 * b 0 - iT 19 * b 1 + iT 29 * b 2 - iT 24 * b 3 + iT 14 * b 4 - iT 4 *
             b 5 + add)),
         (6 * line, drop_bit shift (iT 12 * c 0 + iT 25 * c 1 + add)),
         (19 * line, drop_bit shift (iT 25 * c 0 - iT 12 * c 1 + add))])"

definition fastForwardDST7_B32 ::
  "coeffs \<Rightarrow> coeffs \<Rightarrow> nat \<Rightarrow> nat \<Rightarrow> nat \<Rightarrow> nat \<Rightarrow> coeffs" where
  "fastForwardDST7_B32 src dst shift line iSkipLine iSkipLine2 =
    (let add = if shift > 0 then 2 ^ (shift - 1) else 0;
         iT = flat 32 (g_trCoreDST7P32 ! TRANSFORM_FORWARD);
         reducedLine = line - iSkipLine;
         cutoff = 32 - iSkipLine2;
         dst = forward_lines 32 reducedLine (fastForwardDST7_B32_line iT add shift line) src dst
     in clear_lines (line * cutoff) (line * iSkipLine2) (clear_columns reducedLine line iSkipLine cutoff dst))"

definition fastInverseDST7_B32_line ::
  "coeffs \<Rightarrow> int \<Rightarrow> nat \<Rightarrow> nat \<Rightarrow> int \<Rightarrow> int \<Rightarrow> coeffs \<Rightarrow> (nat \<times> int) list" where
  "fastInverseDST7_B32_line iT add shift line outputMinimum outputMaximum src =
    (let
       a0 = (\<lambda>k. src (k * line) + src ((12 - k) * line));
       a1 = (\<lambda>k. src (k * line) - src ((13 + k) * line));
       a2 = (\<lambda>k. src (k * line) + src ((25 - k) * line));
       a3 = (\<lambda>k. src (k * line) - src ((26 + k) * line));
       a4 = (\<lambda>k. src ((7 + k) * line) + src ((18 - k) * line));
       a5 = (\<lambda>k. src ((7 + k) * line) - src ((20 + k) * line));
       a6 = (\<lambda>k. src ((7 + k) * line) + src ((31 - k) * line));
       a7 = (\<lambda>k. src ((13 + k) * line) + src ((25 - k) * line));
       a8 = (\<lambda>k. src ((13 + k) * line) - src ((26 + k) * line));
       a9 = (\<lambda>k. src ((20 + k) * line) + src ((31 - k) * line));
       b = (\<lambda>k. src (k * line) - src ((12 - k) * line) + src ((13 + k) * line) - src ((25 - k) * line) +
           src ((26 + k) * line));
       c = (\<lambda>k. src (k * line) - src ((4 - k) * line) + src ((5 + k) * line) - src ((9 - k) * line) +
           src ((10 + k) * line) - src ((14 - k) * line) + src ((15 + k) * line) - src ((19 - k) * line) + src
           ((20 + k) * line) - src ((24 - k) * line) + src ((25 + k) * line) - src ((29 - k) * line) + src ((30
           + k) * line));
       t = nth [iT 12 * src (6 * line) + iT 25 * src (19 * line), iT 25 * src (6 * line) - iT 12 * src (19 *
           line)]
     in [(0, Clip3 outputMinimum outputMaximum (drop_bit shift (iT 0 * a1 0 - iT 11 * a8 0 + iT 13 * a7 0 + iT
             24 * a4 5 - iT 1 * a8 5 + iT 10 * a1 5 + iT 14 * a4 0 + iT 23 * a7 5 + iT 2 * a1 1 - iT 9 * a8 1 +
             iT 15 * a7 1 + iT 22 * a4 4 - iT 3 * a8 4 + iT 8 * a1 4 + iT 16 * a4 1 + iT 21 * a7 4 + iT 4 * a1 2
             - iT 7 * a8 2 + iT 17 * a7 2 + iT 20 * a4 3 - iT 5 * a8 3 + iT 6 * a1 3 + iT 18 * a4 2 + iT 19 * a7
             3 + t 0 + add))),
         (1, Clip3 outputMinimum outputMaximum (drop_bit shift (- iT 0 * a4 2 - iT 11 * a6 2 + iT 13 * a0 3 + iT
             24 * a5 2 + iT 1 * a2 0 + iT 10 * a7 0 + iT 14 * a5 5 - iT 23 * a9 5 + iT 2 * a7 2 + iT 9 * a2 2 -
             iT 15 * a9 3 + iT 22 * a5 3 - iT 3 * a6 0 - iT 8 * a4 0 + iT 16 * a5 0 + iT 21 * a0 5 - iT 4 * a4 1
             - iT 7 * a6 1 + iT 17 * a0 4 + iT 20 * a5 1 + iT 5 * a2 1 + iT 6 * a7 1 + iT 18 * a5 4 - iT 19 * a9
             4 + t 1 + add))),
         (2, Clip3 outputMinimum outputMaximum (drop_bit shift (- iT 0 * a2 4 - iT 11 * a3 4 + iT 13 * a0 4 + iT
             24 * a1 4 + iT 1 * a4 3 + iT 10 * a7 2 + iT 14 * a1 2 - iT 23 * a8 2 + iT 2 * a3 0 - iT 9 * a6 5 -
             iT 15 * a8 0 + iT 22 * a9 5 - iT 3 * a6 4 + iT 8 * a3 1 + iT 16 * a9 4 - iT 21 * a8 1 + iT 4 * a7 3
             + iT 7 * a4 2 - iT 17 * a8 3 + iT 20 * a1 3 - iT 5 * a3 5 - iT 6 * a2 5 + iT 18 * a1 5 + iT 19 * a0
             5 + t 1 + add))),
         (3, Clip3 outputMinimum outputMaximum (drop_bit shift (iT 0 * a5 4 + iT 11 * a0 1 - iT 13 * a4 4 - iT
             24 * a6 4 - iT 1 * a1 3 - iT 10 * a0 3 + iT 14 * a2 3 + iT 23 * a3 3 - iT 2 * a0 4 - iT 9 * a1 4 +
             iT 15 * a3 4 + iT 22 * a2 4 + iT 3 * a0 0 + iT 8 * a5 5 - iT 16 * a6 5 - iT 21 * a4 5 + iT 4 * a5 0
             - iT 7 * a9 0 + iT 17 * a7 5 + iT 20 * a2 5 - iT 5 * a8 2 + iT 6 * a9 3 - iT 18 * a6 3 + iT 19 * a3
             2 + t 0 + add))),
         (5, Clip3 outputMinimum outputMaximum (drop_bit shift (- iT 0 * a1 5 + iT 11 * a8 5 - iT 13 * a7 5 - iT
             24 * a4 0 + iT 1 * a5 1 + iT 10 * a0 4 - iT 14 * a4 1 - iT 23 * a6 1 - iT 2 * a8 3 + iT 9 * a9 2 -
             iT 15 * a6 2 + iT 22 * a3 3 - iT 3 * a0 2 - iT 8 * a1 2 + iT 16 * a3 2 + iT 21 * a2 2 - iT 4 * a9 4
             + iT 7 * a5 4 + iT 17 * a2 1 + iT 20 * a7 1 + iT 5 * a1 0 - iT 6 * a8 0 + iT 18 * a7 0 + iT 19 * a4
             5 - t 0 + add))),
         (6, Clip3 outputMinimum outputMaximum (drop_bit shift (- iT 0 * a7 5 - iT 11 * a2 5 + iT 13 * a9 0 - iT
             24 * a5 0 + iT 1 * a3 4 - iT 10 * a6 1 - iT 14 * a8 4 + iT 23 * a9 1 + iT 2 * a4 2 + iT 9 * a7 3 +
             iT 15 * a1 3 - iT 22 * a8 3 - iT 3 * a2 2 - iT 8 * a3 2 + iT 16 * a0 2 + iT 21 * a1 2 - iT 4 * a6 4
             - iT 7 * a4 4 + iT 17 * a5 4 + iT 20 * a0 1 + iT 5 * a7 0 + iT 6 * a2 0 - iT 18 * a9 5 + iT 19 * a5
             5 - t 1 + add))),
         (7, Clip3 outputMinimum outputMaximum (drop_bit shift (- iT 0 * a6 3 - iT 11 * a4 3 + iT 13 * a5 3 + iT
             24 * a0 2 + iT 1 * a7 1 + iT 10 * a4 4 - iT 14 * a8 1 + iT 23 * a1 1 - iT 2 * a7 5 - iT 9 * a4 0 +
             iT 15 * a8 5 - iT 22 * a1 5 + iT 3 * a7 3 + iT 8 * a2 3 - iT 16 * a9 2 + iT 21 * a5 2 - iT 4 * a6 5
             + iT 7 * a3 0 + iT 17 * a9 5 - iT 20 * a8 0 + iT 5 * a6 1 - iT 6 * a3 4 - iT 18 * a9 1 + iT 19 * a8
             4 - t 1 + add))),
         (8, Clip3 outputMinimum outputMaximum (drop_bit shift (- iT 0 * a1 1 - iT 11 * a0 1 + iT 13 * a2 1 + iT
             24 * a3 1 + iT 1 * a1 3 - iT 10 * a8 3 + iT 14 * a7 3 + iT 23 * a4 2 - iT 2 * a9 1 + iT 9 * a8 4 -
             iT 15 * a3 4 + iT 22 * a6 1 + iT 3 * a5 5 + iT 8 * a0 0 - iT 16 * a4 5 - iT 21 * a6 5 + iT 4 * a0 5
             + iT 7 * a1 5 - iT 17 * a3 5 - iT 20 * a2 5 + iT 5 * a5 3 - iT 6 * a9 3 + iT 18 * a7 2 + iT 19 * a2
             2 - t 0 + add))),
         (10, Clip3 outputMinimum outputMaximum (drop_bit shift (iT 0 * a8 3 - iT 11 * a1 3 - iT 13 * a4 2 - iT
             24 * a7 3 - iT 1 * a8 0 + iT 10 * a1 0 + iT 14 * a4 5 + iT 23 * a7 0 + iT 2 * a5 3 + iT 9 * a0 2 -
             iT 15 * a4 3 - iT 22 * a6 3 - iT 3 * a5 0 - iT 8 * a0 5 + iT 16 * a4 0 + iT 21 * a6 0 + iT 4 * a1 4
             + iT 7 * a0 4 - iT 17 * a2 4 - iT 20 * a3 4 - iT 5 * a1 1 - iT 6 * a0 1 + iT 18 * a2 1 + iT 19 * a3
             1 + t 0 + add))),
         (11, Clip3 outputMinimum outputMaximum (drop_bit shift (iT 0 * a7 0 + iT 11 * a2 0 - iT 13 * a9 5 + iT
             24 * a5 5 + iT 1 * a2 5 + iT 10 * a7 5 + iT 14 * a5 0 - iT 23 * a9 0 - iT 2 * a2 1 - iT 9 * a3 1 +
             iT 15 * a0 1 + iT 22 * a1 1 - iT 3 * a7 4 - iT 8 * a4 1 + iT 16 * a8 4 - iT 21 * a1 4 + iT 4 * a3 2
             - iT 7 * a6 3 - iT 17 * a8 2 + iT 20 * a9 3 + iT 5 * a4 2 + iT 6 * a6 2 - iT 18 * a0 3 - iT 19 * a5
             2 + t 1 + add))),
         (13, Clip3 outputMinimum outputMaximum (drop_bit shift (iT 0 * a9 5 - iT 11 * a8 0 + iT 13 * a3 0 - iT
             24 * a6 5 - iT 1 * a8 5 + iT 10 * a9 0 - iT 14 * a6 0 + iT 23 * a3 5 + iT 2 * a5 4 - iT 9 * a9 4 +
             iT 15 * a7 1 + iT 22 * a2 1 - iT 3 * a1 4 + iT 8 * a8 4 - iT 16 * a7 4 - iT 21 * a4 1 - iT 4 * a0 2
             - iT 7 * a5 3 + iT 17 * a6 3 + iT 20 * a4 3 + iT 5 * a0 3 + iT 6 * a1 3 - iT 18 * a3 3 - iT 19 * a2
             3 + t 0 + add))),
         (15, Clip3 outputMinimum outputMaximum (drop_bit shift (- iT 0 * a9 1 + iT 11 * a5 1 + iT 13 * a2 4 +
             iT 24 * a7 4 + iT 1 * a9 3 - iT 10 * a5 3 - iT 14 * a2 2 - iT 23 * a7 2 - iT 2 * a9 5 + iT 9 * a5 5
             + iT 15 * a2 0 + iT 22 * a7 0 + iT 3 * a9 4 - iT 8 * a8 1 + iT 16 * a3 1 - iT 21 * a6 4 - iT 4 * a9
             2 + iT 7 * a8 3 - iT 17 * a3 3 + iT 20 * a6 2 + iT 5 * a9 0 - iT 6 * a8 5 + iT 18 * a3 5 - iT 19 *
             a6 0 - t 0 + add))),
         (16, Clip3 outputMinimum outputMaximum (drop_bit shift (iT 0 * a4 4 + iT 11 * a7 1 + iT 13 * a1 1 - iT
             24 * a8 1 + iT 1 * a6 2 - iT 10 * a3 3 - iT 14 * a9 2 + iT 23 * a8 3 - iT 2 * a6 1 - iT 9 * a4 1 +
             iT 15 * a5 1 + iT 22 * a0 4 - iT 3 * a4 5 - iT 8 * a6 5 + iT 16 * a0 0 + iT 21 * a5 5 - iT 4 * a6 0
             + iT 7 * a3 5 + iT 17 * a9 0 - iT 20 * a8 5 + iT 5 * a6 3 + iT 6 * a4 3 - iT 18 * a5 3 - iT 19 * a0
             2 - t 1 + add))),
         (17, Clip3 outputMinimum outputMaximum (drop_bit shift (- iT 0 * a7 2 - iT 11 * a4 3 + iT 13 * a8 2 -
             iT 24 * a1 2 + iT 1 * a7 1 + iT 10 * a2 1 - iT 14 * a9 4 + iT 23 * a5 4 - iT 2 * a3 5 + iT 9 * a6 0
             + iT 15 * a8 5 - iT 22 * a9 0 - iT 3 * a2 3 - iT 8 * a7 3 - iT 16 * a5 2 + iT 21 * a9 2 + iT 4 * a4
             5 + iT 7 * a7 0 + iT 17 * a1 0 - iT 20 * a8 0 - iT 5 * a2 4 - iT 6 * a3 4 + iT 18 * a0 4 + iT 19 *
             a1 4 - t 1 + add))),
         (18, Clip3 outputMinimum outputMaximum (drop_bit shift (- iT 0 * a9 0 + iT 11 * a8 5 - iT 13 * a3 5 +
             iT 24 * a6 0 + iT 1 * a5 1 - iT 10 * a9 1 + iT 14 * a7 4 + iT 23 * a2 4 + iT 2 * a0 3 + iT 9 * a5 2
             - iT 15 * a6 2 - iT 22 * a4 2 + iT 3 * a1 2 + iT 8 * a0 2 - iT 16 * a2 2 - iT 21 * a3 2 - iT 4 * a8
             1 + iT 7 * a1 1 + iT 17 * a4 4 + iT 20 * a7 1 + iT 5 * a9 5 - iT 6 * a8 0 + iT 18 * a3 0 - iT 19 *
             a6 5 - t 0 + add))),
         (20, Clip3 outputMinimum outputMaximum (drop_bit shift (iT 0 * a8 2 - iT 11 * a9 3 + iT 13 * a6 3 - iT
             24 * a3 2 + iT 1 * a0 1 + iT 10 * a5 4 - iT 14 * a6 4 - iT 23 * a4 4 + iT 2 * a1 5 + iT 9 * a0 5 -
             iT 15 * a2 5 - iT 22 * a3 5 - iT 3 * a9 2 + iT 8 * a5 2 + iT 16 * a2 3 + iT 21 * a7 3 + iT 4 * a5 5
             - iT 7 * a9 5 + iT 17 * a7 0 + iT 20 * a2 0 + iT 5 * a0 4 + iT 6 * a5 1 - iT 18 * a6 1 - iT 19 * a4
             1 + t 0 + add))),
         (21, Clip3 outputMinimum outputMaximum (drop_bit shift (- iT 0 * a2 1 - iT 11 * a7 1 - iT 13 * a5 4 +
             iT 24 * a9 4 - iT 1 * a6 2 - iT 10 * a4 2 + iT 14 * a5 2 + iT 23 * a0 3 - iT 2 * a2 4 - iT 9 * a7 4
             - iT 15 * a5 1 + iT 22 * a9 1 - iT 3 * a6 5 - iT 8 * a4 5 + iT 16 * a5 5 + iT 21 * a0 0 - iT 4 * a4
             0 - iT 7 * a7 5 - iT 17 * a1 5 + iT 20 * a8 5 - iT 5 * a7 2 - iT 6 * a4 3 + iT 18 * a8 2 - iT 19 *
             a1 2 + t 1 + add))),
         (22, Clip3 outputMinimum outputMaximum (drop_bit shift (iT 0 * a6 1 - iT 11 * a3 4 - iT 13 * a9 1 + iT
             24 * a8 4 + iT 1 * a4 3 + iT 10 * a6 3 - iT 14 * a0 2 - iT 23 * a5 3 + iT 2 * a7 0 + iT 9 * a4 5 -
             iT 15 * a8 0 + iT 22 * a1 0 - iT 3 * a3 1 + iT 8 * a6 4 + iT 16 * a8 1 - iT 21 * a9 4 - iT 4 * a2 3
             - iT 7 * a3 3 + iT 17 * a0 3 + iT 20 * a1 3 - iT 5 * a7 5 - iT 6 * a2 5 + iT 18 * a9 0 - iT 19 * a5
             0 + t 1 + add))),
         (23, Clip3 outputMinimum outputMaximum (drop_bit shift (- iT 0 * a0 3 - iT 11 * a1 3 + iT 13 * a3 3 +
             iT 24 * a2 3 - iT 1 * a8 0 + iT 10 * a9 5 - iT 14 * a6 5 + iT 23 * a3 0 + iT 2 * a8 2 - iT 9 * a1 2
             - iT 15 * a4 3 - iT 22 * a7 2 + iT 3 * a0 5 + iT 8 * a5 0 - iT 16 * a6 0 - iT 21 * a4 0 + iT 4 * a8
             4 - iT 7 * a9 1 + iT 17 * a6 1 - iT 20 * a3 4 - iT 5 * a5 4 - iT 6 * a0 1 + iT 18 * a4 4 + iT 19 *
             a6 4 + t 0 + add))),
         (26, Clip3 outputMinimum outputMaximum (drop_bit shift (- iT 0 * a3 0 - iT 11 * a2 0 + iT 13 * a1 0 +
             iT 24 * a0 0 - iT 1 * a2 5 - iT 10 * a3 5 + iT 14 * a0 5 + iT 23 * a1 5 + iT 2 * a4 4 + iT 9 * a6 4
             - iT 15 * a0 1 - iT 22 * a5 4 - iT 3 * a4 1 - iT 8 * a7 4 - iT 16 * a1 4 + iT 21 * a8 4 + iT 4 * a2
             2 + iT 7 * a7 2 + iT 17 * a5 3 - iT 20 * a9 3 + iT 5 * a3 3 - iT 6 * a6 2 - iT 18 * a8 3 + iT 19 *
             a9 2 - t 1 + add))),
         (27, Clip3 outputMinimum outputMaximum (drop_bit shift (- iT 0 * a3 3 + iT 11 * a6 2 + iT 13 * a8 3 -
             iT 24 * a9 2 - iT 1 * a2 0 - iT 10 * a3 0 + iT 14 * a0 0 + iT 23 * a1 0 - iT 2 * a6 3 + iT 9 * a3 2
             + iT 15 * a9 3 - iT 22 * a8 2 - iT 3 * a4 0 - iT 8 * a6 0 + iT 16 * a0 5 + iT 21 * a5 0 - iT 4 * a7
             4 - iT 7 * a2 4 + iT 17 * a9 1 - iT 20 * a5 1 - iT 5 * a4 4 - iT 6 * a7 1 - iT 18 * a1 1 + iT 19 *
             a8 1 - t 1 + add))),
         (28, Clip3 outputMinimum outputMaximum (drop_bit shift (iT 0 * a0 4 + iT 11 * a5 1 - iT 13 * a6 1 - iT
             24 * a4 1 + iT 1 * a9 3 - iT 10 * a8 2 + iT 14 * a3 2 - iT 23 * a6 3 - iT 2 * a1 0 - iT 9 * a0 0 +
             iT 15 * a2 0 + iT 22 * a3 0 + iT 3 * a8 1 - iT 8 * a9 4 + iT 16 * a6 4 - iT 21 * a3 1 - iT 4 * a5 2
             - iT 7 * a0 3 + iT 17 * a4 2 + iT 20 * a6 2 + iT 5 * a1 5 - iT 6 * a8 5 + iT 18 * a7 5 + iT 19 * a4
             0 - t 0 + add))),
         (30, Clip3 outputMinimum outputMaximum (drop_bit shift (iT 0 * a5 3 - iT 11 * a9 3 + iT 13 * a7 2 + iT
             24 * a2 2 + iT 1 * a0 1 + iT 10 * a1 1 - iT 14 * a3 1 - iT 23 * a2 1 + iT 2 * a9 0 - iT 9 * a5 0 -
             iT 15 * a2 5 - iT 22 * a7 5 - iT 3 * a5 2 + iT 8 * a9 2 - iT 16 * a7 3 - iT 21 * a2 3 - iT 4 * a0 0
             - iT 7 * a1 0 + iT 17 * a3 0 + iT 20 * a2 0 - iT 5 * a9 1 + iT 6 * a5 1 + iT 18 * a2 4 + iT 19 * a7
             4 + t 0 + add))),
         (31, Clip3 outputMinimum outputMaximum (drop_bit shift (iT 0 * a3 5 + iT 11 * a2 5 - iT 13 * a1 5 - iT
             24 * a0 5 - iT 1 * a3 4 - iT 10 * a2 4 + iT 14 * a1 4 + iT 23 * a0 4 + iT 2 * a3 3 + iT 9 * a2 3 -
             iT 15 * a1 3 - iT 22 * a0 3 - iT 3 * a3 2 - iT 8 * a2 2 + iT 16 * a1 2 + iT 21 * a0 2 + iT 4 * a3 1
             + iT 7 * a2 1 - iT 17 * a1 1 - iT 20 * a0 1 - iT 5 * a3 0 - iT 6 * a2 0 + iT 18 * a1 0 + iT 19 * a0
             0 + t 1 + add))),
         (4, Clip3 outputMinimum outputMaximum (drop_bit shift (iT 4 * b 0 + iT 14 * b 1 + iT 24 * b 2 + iT 29 *
             b 3 + iT 19 * b 4 + iT 9 * b 5 + add))),
         (9, Clip3 outputMinimum outputMaximum (drop_bit shift (iT 9 * b 0 + iT 29 * b 1 + iT 14 * b 2 - iT 4 *
             b 3 - iT 24 * b 4 - iT 19 * b 5 + add))),
         (14, Clip3 outputMinimum outputMaximum (drop_bit shift (iT 14 * b 0 + iT 19 * b 1 - iT 9 * b 2 - iT 24
             * b 3 + iT 4 * b 4 + iT 29 * b 5 + add))),
         (19, Clip3 outputMinimum outputMaximum (drop_bit shift (iT 19 * b 0 + iT 4 * b 1 - iT 29 * b 2 + iT 9 *
             b 3 + iT 14 * b 4 - iT 24 * b 5 + add))),
         (24, Clip3 outputMinimum outputMaximum (drop_bit shift (iT 24 * b 0 - iT 9 * b 1 - iT 4 * b 2 + iT 19 *
             b 3 - iT 29 * b 4 + iT 14 * b 5 + add))),
         (29, Clip3 outputMinimum outputMaximum (drop_bit shift (iT 29 * b 0 - iT 24 * b 1 + iT 19 * b 2 - iT 14
             * b 3 + iT 9 * b 4 - iT 4 * b 5 + add))),
         (12, Clip3 outputMinimum outputMaximum (drop_bit shift (iT 12 * c 0 + iT 25 * c 1 + add))),
         (25, Clip3 outputMinimum outputMaximum (drop_bit shift (iT 25 * c 0 - iT 12 * c 1 + add)))])"

definition fastInverseDST7_B32 ::
  "coeffs \<Rightarrow> coeffs \<Rightarrow> nat \<Rightarrow> nat \<Rightarrow> nat \<Rightarrow> nat \<Rightarrow> int \<Rightarrow> int \<Rightarrow> coeffs" where
  "fastInverseDST7_B32 src dst shift line iSkipLine iSkipLine2 outputMinimum outputMaximum =
    (let add = if shift > 0 then 2 ^ (shift - 1) else 0;
         iT = flat 32 (g_trCoreDST7P32 ! TRANSFORM_INVERSE);
         reducedLine = line - iSkipLine;
         dst = inverse_lines 32 reducedLine (fastInverseDST7_B32_line iT add shift line outputMinimum outputMaximum) src dst
     in clear_lines (32 * reducedLine) (32 * iSkipLine) dst)"

definition fastForwardDCT8_B4_line ::
  "coeffs \<Rightarrow> int \<Rightarrow> nat \<Rightarrow> nat \<Rightarrow> coeffs \<Rightarrow> (nat \<times> int) list" where
  "fastForwardDCT8_B4_line iT rnd_factor shift line src =
    (let
       c = nth [src 0 + src 3, src 2 + src 0, src 3 - src 2, iT 1 * src 1]
     in [(0 * line, drop_bit shift (iT 3 * c 0 + iT 2 * c 1 + c 3 + rnd_factor)),
         (1 * line, drop_bit shift (iT 1 * (src 0 - src 2 - src 3) + rnd_factor)),
         (2 * line, drop_bit shift (iT 3 * c 2 + iT 2 * c 0 - c 3 + rnd_factor)),
         (3 * line, drop_bit shift (iT 3 * c 1 - iT 2 * c 2 - c 3 + rnd_factor))])"

definition fastForwardDCT8_B4 ::
  "coeffs \<Rightarrow> coeffs \<Rightarrow> nat \<Rightarrow> nat \<Rightarrow> nat \<Rightarrow> nat \<Rightarrow> coeffs" where
  "fastForwardDCT8_B4 src dst shift line iSkipLine iSkipLine2 =
    (let rnd_factor = 2 ^ (shift - 1);
         iT = flat 4 (g_trCoreDCT8P4 ! TRANSFORM_FORWARD);
         reducedLine = line - iSkipLine;
         dst = forward_lines 4 reducedLine (fastForwardDCT8_B4_line iT rnd_factor shift line) src dst
     in clear_columns reducedLine line iSkipLine 4 dst)"

definition fastInverseDCT8_B4_line ::
  "coeffs \<Rightarrow> int \<Rightarrow> nat \<Rightarrow> nat \<Rightarrow> int \<Rightarrow> int \<Rightarrow> coeffs \<Rightarrow> (nat \<times> int) list" where
  "fastInverseDCT8_B4_line iT rnd_factor shift line outputMinimum outputMaximum src =
    (let
       c = nth [src (0 * line) + src (3 * line), src (2 * line) + src (0 * line), src (3 * line) - src (2 *
           line), iT 1 * src (1 * line)]
     in [(0, Clip3 outputMinimum outputMaximum (drop_bit shift (iT 3 * c 0 + iT 2 * c 1 + c 3 + rnd_factor))),
         (1, Clip3 outputMinimum outputMaximum (drop_bit shift (iT 1 * (src (0 * line) - src (2 * line) - src (3
             * line)) + rnd_factor))),
         (2, Clip3 outputMinimum outputMaximum (drop_bit shift (iT 3 * c 2 + iT 2 * c 0 - c 3 + rnd_factor))),
         (3, Clip3 outputMinimum outputMaximum (drop_bit shift (iT 3 * c 1 - iT 2 * c 2 - c 3 + rnd_factor)))])"

definition fastInverseDCT8_B4 ::
  "coeffs \<Rightarrow> coeffs \<Rightarrow> nat \<Rightarrow> nat \<Rightarrow> nat \<Rightarrow> nat \<Rightarrow> int \<Rightarrow> int \<Rightarrow> coeffs" where
  "fastInverseDCT8_B4 src dst shift line iSkipLine iSkipLine2 outputMinimum outputMaximum =
    (let rnd_factor = 2 ^ (shift - 1);
         iT = flat 4 (g_trCoreDCT8P4 ! TRANSFORM_INVERSE);
         reducedLine = line - iSkipLine;
         dst = inverse_lines 4 reducedLine (fastInverseDCT8_B4_line iT rnd_factor shift line outputMinimum outputMaximum) src dst
     in clear_lines (4 * reducedLine) (4 * iSkipLine) dst)"

definition fastForwardDCT8_B16_line ::
  "coeffs \<Rightarrow> int \<Rightarrow> nat \<Rightarrow> nat \<Rightarrow> coeffs \<Rightarrow> (nat \<times> int) list" where
  "fastForwardDCT8_B16_line iT add shift line src =
    (let
       a = (\<lambda>k. src (15 - k) + src (4 - k));
       b = (\<lambda>k. src (6 + k) + src (4 - k));
       c = (\<lambda>k. src (15 - k) - src (6 + k));
       d = (\<lambda>k. src (15 - k) + src (6 + k) - src (4 - k));
       t = iT 10 * src 5
     in [(1 * line, drop_bit shift (- iT 2 * d 0 - iT 5 * d 1 - iT 8 * d 2 - iT 11 * d 3 - iT 14 * d 4 + add)),
         (4 * line, drop_bit shift (iT 8 * d 0 + iT 14 * d 1 + iT 5 * d 2 - iT 2 * d 3 - iT 11 * d 4 + add)),
         (7 * line, drop_bit shift (- iT 14 * d 0 - iT 2 * d 1 + iT 11 * d 2 + iT 5 * d 3 - iT 8 * d 4 + add)),
         (10 * line, drop_bit shift (iT 11 * d 0 - iT 8 * d 1 - iT 2 * d 2 + iT 14 * d 3 - iT 5 * d 4 + add)),
         (13 * line, drop_bit shift (- iT 5 * d 0 + iT 11 * d 1 - iT 14 * d 2 + iT 8 * d 3 - iT 2 * d 4 + add)),
         (5 * line, drop_bit shift (- iT 10 * (src 15 + src 14 - src 12 - src 11 + src 9 + src 8 - src 6 - src 5
             + src 3 + src 2 - src 0) + add)),
         (0 * line, drop_bit shift (iT 0 * a 0 + iT 9 * b 0 + iT 1 * a 1 + iT 8 * b 1 + iT 2 * a 2 + iT 7 * b 2
             + iT 3 * a 3 + iT 6 * b 3 + iT 4 * a 4 + iT 5 * b 4 + t + add)),
         (2 * line, drop_bit shift (iT 4 * c 0 - iT 5 * b 0 + iT 9 * c 1 - iT 0 * b 1 + iT 6 * c 2 + iT 3 * a 2
             + iT 1 * c 3 + iT 8 * a 3 + iT 7 * a 4 + iT 2 * b 4 - t + add)),
         (3 * line, drop_bit shift (- iT 6 * a 0 - iT 3 * b 0 - iT 2 * c 1 - iT 7 * a 1 - iT 9 * c 2 - iT 0 * a
             2 - iT 4 * c 3 + iT 5 * b 3 + iT 1 * a 4 + iT 8 * b 4 - t + add)),
         (6 * line, drop_bit shift (iT 8 * a 0 + iT 1 * c 0 + iT 6 * c 1 - iT 3 * b 1 - iT 5 * a 2 - iT 4 * b 2
             - iT 7 * c 3 - iT 2 * a 3 - iT 0 * c 4 + iT 9 * b 4 + t + add)),
         (8 * line, drop_bit shift (iT 4 * c 0 + iT 5 * a 0 - iT 0 * c 1 + iT 9 * b 1 - iT 3 * c 2 - iT 6 * a 2
             + iT 1 * c 3 - iT 8 * b 3 + iT 2 * c 4 + iT 7 * a 4 - t + add)),
         (9 * line, drop_bit shift (- iT 7 * c 0 - iT 2 * a 0 + iT 4 * a 1 + iT 5 * b 1 + iT 8 * c 2 - iT 1 * b
             2 - iT 9 * a 3 - iT 0 * b 3 - iT 3 * c 4 + iT 6 * b 4 - t + add)),
         (11 * line, drop_bit shift (- iT 9 * a 0 - iT 0 * b 0 + iT 8 * c 1 + iT 1 * a 1 - iT 2 * c 2 + iT 7 * b
             2 - iT 6 * a 3 - iT 3 * b 3 + iT 5 * c 4 + iT 4 * a 4 + t + add)),
         (12 * line, drop_bit shift (iT 7 * c 0 - iT 2 * b 0 - iT 5 * c 1 - iT 4 * a 1 + iT 8 * a 2 + iT 1 * b 2
             - iT 0 * a 3 - iT 9 * b 3 - iT 6 * c 4 + iT 3 * b 4 + t + add)),
         (14 * line, drop_bit shift (iT 3 * a 0 + iT 6 * b 0 - iT 7 * a 1 - iT 2 * b 1 + iT 0 * c 2 + iT 9 * a 2
             - iT 4 * c 3 - iT 5 * a 3 + iT 8 * c 4 + iT 1 * a 4 - t + add)),
         (15 * line, drop_bit shift (- iT 1 * c 0 + iT 8 * b 0 + iT 3 * c 1 - iT 6 * b 1 - iT 5 * c 2 + iT 4 * b
             2 + iT 7 * c 3 - iT 2 * b 3 - iT 9 * c 4 + iT 0 * b 4 - t + add))])"

definition fastForwardDCT8_B16 ::
  "coeffs \<Rightarrow> coeffs \<Rightarrow> nat \<Rightarrow> nat \<Rightarrow> nat \<Rightarrow> nat \<Rightarrow> coeffs" where
  "fastForwardDCT8_B16 src dst shift line iSkipLine iSkipLine2 =
    (let add = if shift > 0 then 2 ^ (shift - 1) else 0;
         iT = flat 16 (g_trCoreDST7P16 ! TRANSFORM_FORWARD);
         reducedLine = line - iSkipLine;
         cutoff = 16 - iSkipLine2;
         dst = forward_lines 16 reducedLine (fastForwardDCT8_B16_line iT add shift line) src dst
     in clear_lines (line * cutoff) (line * iSkipLine2) (clear_columns reducedLine line iSkipLine cutoff dst))"

definition fastInverseDCT8_B16_line ::
  "coeffs \<Rightarrow> int \<Rightarrow> nat \<Rightarrow> nat \<Rightarrow> int \<Rightarrow> int \<Rightarrow> coeffs \<Rightarrow> (nat \<times> int) list" where
  "fastInverseDCT8_B16_line iT add shift line outputMinimum outputMaximum src =
    (let
       a = (\<lambda>k. src ((15 - k) * line) + src ((4 - k) * line));
       b = (\<lambda>k. src ((6 + k) * line) + src ((4 - k) * line));
       c = (\<lambda>k. src ((15 - k) * line) - src ((6 + k) * line));
       d = (\<lambda>k. src ((15 - k) * line) + src ((6 + k) * line) - src ((4 - k) * line));
       t = iT 10 * src (5 * line)
     in [(1, Clip3 outputMinimum outputMaximum (drop_bit shift (- iT 2 * d 0 - iT 5 * d 1 - iT 8 * d 2 - iT 11 *
             d 3 - iT 14 * d 4 + add))),
         (4, Clip3 outputMinimum outputMaximum (drop_bit shift (iT 8 * d 0 + iT 14 * d 1 + iT 5 * d 2 - iT 2 * d
             3 - iT 11 * d 4 + add))),
         (7, Clip3 outputMinimum outputMaximum (drop_bit shift (- iT 14 * d 0 - iT 2 * d 1 + iT 11 * d 2 + iT 5
             * d 3 - iT 8 * d 4 + add))),
         (10, Clip3 outputMinimum outputMaximum (drop_bit shift (iT 11 * d 0 - iT 8 * d 1 - iT 2 * d 2 + iT 14 *
             d 3 - iT 5 * d 4 + add))),
         (13, Clip3 outputMinimum outputMaximum (drop_bit shift (- iT 5 * d 0 + iT 11 * d 1 - iT 14 * d 2 + iT 8
             * d 3 - iT 2 * d 4 + add))),
         (5, Clip3 outputMinimum outputMaximum (drop_bit shift (- iT 10 * (src (15 * line) + src (14 * line) -
             src (12 * line) - src (11 * line) + src (9 * line) + src (8 * line) - src (6 * line) - src (5 *
             line) + src (3 * line) + src (2 * line) - src (0 * line)) + add))),
         (0, Clip3 outputMinimum outputMaximum (drop_bit shift (iT 0 * a 0 + iT 9 * b 0 + iT 1 * a 1 + iT 8 * b
             1 + iT 2 * a 2 + iT 7 * b 2 + iT 3 * a 3 + iT 6 * b 3 + iT 4 * a 4 + iT 5 * b 4 + t + add))),
         (2, Clip3 outputMinimum outputMaximum (drop_bit shift (iT 4 * c 0 - iT 5 * b 0 + iT 9 * c 1 - iT 0 * b
             1 + iT 6 * c 2 + iT 3 * a 2 + iT 1 * c 3 + iT 8 * a 3 + iT 7 * a 4 + iT 2 * b 4 - t + add))),
         (3, Clip3 outputMinimum outputMaximum (drop_bit shift (- iT 6 * a 0 - iT 3 * b 0 - iT 2 * c 1 - iT 7 *
             a 1 - iT 9 * c 2 - iT 0 * a 2 - iT 4 * c 3 + iT 5 * b 3 + iT 1 * a 4 + iT 8 * b 4 - t + add))),
         (6, Clip3 outputMinimum outputMaximum (drop_bit shift (iT 8 * a 0 + iT 1 * c 0 + iT 6 * c 1 - iT 3 * b
             1 - iT 5 * a 2 - iT 4 * b 2 - iT 7 * c 3 - iT 2 * a 3 - iT 0 * c 4 + iT 9 * b 4 + t + add))),
         (8, Clip3 outputMinimum outputMaximum (drop_bit shift (iT 4 * c 0 + iT 5 * a 0 - iT 0 * c 1 + iT 9 * b
             1 - iT 3 * c 2 - iT 6 * a 2 + iT 1 * c 3 - iT 8 * b 3 + iT 2 * c 4 + iT 7 * a 4 - t + add))),
         (9, Clip3 outputMinimum outputMaximum (drop_bit shift (- iT 7 * c 0 - iT 2 * a 0 + iT 4 * a 1 + iT 5 *
             b 1 + iT 8 * c 2 - iT 1 * b 2 - iT 9 * a 3 - iT 0 * b 3 - iT 3 * c 4 + iT 6 * b 4 - t + add))),
         (11, Clip3 outputMinimum outputMaximum (drop_bit shift (- iT 9 * a 0 - iT 0 * b 0 + iT 8 * c 1 + iT 1 *
             a 1 - iT 2 * c 2 + iT 7 * b 2 - iT 6 * a 3 - iT 3 * b 3 + iT 5 * c 4 + iT 4 * a 4 + t + add))),
         (12, Clip3 outputMinimum outputMaximum (drop_bit shift (iT 7 * c 0 - iT 2 * b 0 - iT 5 * c 1 - iT 4 * a
             1 + iT 8 * a 2 + iT 1 * b 2 - iT 0 * a 3 - iT 9 * b 3 - iT 6 * c 4 + iT 3 * b 4 + t + add))),
         (14, Clip3 outputMinimum outputMaximum (drop_bit shift (iT 3 * a 0 + iT 6 * b 0 - iT 7 * a 1 - iT 2 * b
             1 + iT 0 * c 2 + iT 9 * a 2 - iT 4 * c 3 - iT 5 * a 3 + iT 8 * c 4 + iT 1 * a 4 - t + add))),
         (15, Clip3 outputMinimum outputMaximum (drop_bit shift (- iT 1 * c 0 + iT 8 * b 0 + iT 3 * c 1 - iT 6 *
             b 1 - iT 5 * c 2 + iT 4 * b 2 + iT 7 * c 3 - iT 2 * b 3 - iT 9 * c 4 + iT 0 * b 4 - t + add)))])"

definition fastInverseDCT8_B16 ::
  "coeffs \<Rightarrow> coeffs \<Rightarrow> nat \<Rightarrow> nat \<Rightarrow> nat \<Rightarrow> nat \<Rightarrow> int \<Rightarrow> int \<Rightarrow> coeffs" where
  "fastInverseDCT8_B16 src dst shift line iSkipLine iSkipLine2 outputMinimum outputMaximum =
    (let add = if shift > 0 then 2 ^ (shift - 1) else 0;
         iT = flat 16 (g_trCoreDST7P16 ! TRANSFORM_INVERSE);
         reducedLine = line - iSkipLine;
         dst = inverse_lines 16 reducedLine (fastInverseDCT8_B16_line iT add shift line outputMinimum outputMaximum) src dst
     in clear_lines (16 * reducedLine) (16 * iSkipLine) dst)"

definition fastForwardDCT8_B32_line ::
  "coeffs \<Rightarrow> int \<Rightarrow> nat \<Rightarrow> nat \<Rightarrow> coeffs \<Rightarrow> (nat \<times> int) list" where
  "fastForwardDCT8_B32_line iT add shift line src =
    (let
       a0 = (\<lambda>k. src (31 - k) - src (20 + k));
       a1 = (\<lambda>k. src (31 - k) + src (18 - k));
       a2 = (\<lambda>k. src (31 - k) + src (7 + k));
       a3 = (\<lambda>k. src (31 - k) - src (5 - k));
       a4 = (\<lambda>k. src (25 - k) + src (13 + k));
       a5 = (\<lambda>k. src (25 - k) + src (12 - k));
       a6 = (\<lambda>k. src (25 - k) - src k);
       a7 = (\<lambda>k. src (18 - k) - src (7 + k));
       a8 = (\<lambda>k. src (18 - k) + src (5 - k));
       a9 = (\<lambda>k. src (12 - k) + src k);
       b = (\<lambda>k. src (31 - k) + src (20 + k) - src (18 - k) - src (7 + k) + src (5 - k));
       c = (\<lambda>k. src (31 - k) + src (28 + k) - src (26 - k) - src (23 + k) + src (21 - k) + src (18 + k)
           - src (16 - k) - src (13 + k) + src (11 - k) + src (8 + k) - src (6 - k) - src (3 + k) + src (1 - k));
       t = nth [iT 12 * src 19 + iT 25 * src 6, iT 12 * src 6 - iT 25 * src 19]
     in [(0 * line, drop_bit shift (iT 0 * a3 0 + iT 11 * a6 5 + iT 13 * a8 0 + iT 24 * a9 5 + iT 1 * a3 1 + iT
             10 * a6 4 + iT 14 * a8 1 + iT 23 * a9 4 + iT 2 * a3 2 + iT 9 * a6 3 + iT 15 * a8 2 + iT 22 * a9 3 +
             iT 3 * a3 3 + iT 8 * a6 2 + iT 16 * a8 3 + iT 21 * a9 2 + iT 4 * a3 4 + iT 7 * a6 1 + iT 17 * a8 4
             + iT 20 * a9 1 + iT 5 * a3 5 + iT 6 * a6 0 + iT 18 * a8 5 + iT 19 * a9 0 + t 0 + add)),
         (1 * line, drop_bit shift (iT 0 * a5 2 - iT 11 * a0 3 - iT 13 * a4 2 - iT 24 * a6 2 - iT 1 * a9 1 - iT
             10 * a8 4 - iT 14 * a3 4 - iT 23 * a6 1 - iT 2 * a0 0 + iT 9 * a5 5 - iT 15 * a6 5 - iT 22 * a4 5 +
             iT 3 * a5 3 - iT 8 * a0 2 - iT 16 * a4 3 - iT 21 * a6 3 - iT 4 * a9 0 - iT 7 * a8 5 - iT 17 * a3 5
             - iT 20 * a6 0 - iT 5 * a0 1 + iT 6 * a5 4 - iT 18 * a6 4 - iT 19 * a4 4 + t 1 + add)),
         (3 * line, drop_bit shift (iT 0 * a9 4 + iT 11 * a5 4 - iT 13 * a2 1 + iT 24 * a7 1 + iT 1 * a0 3 + iT
             10 * a1 3 - iT 14 * a3 3 - iT 23 * a2 3 - iT 2 * a8 5 - iT 9 * a9 0 - iT 15 * a6 0 - iT 22 * a3 5 +
             iT 3 * a1 4 + iT 8 * a0 4 - iT 16 * a2 4 - iT 21 * a3 4 + iT 4 * a5 3 + iT 7 * a9 3 + iT 17 * a7 2
             - iT 20 * a2 2 - iT 5 * a8 0 - iT 6 * a1 0 + iT 18 * a4 5 + iT 19 * a7 0 - t 1 + add)),
         (4 * line, drop_bit shift (- iT 0 * a3 2 - iT 11 * a2 2 + iT 13 * a1 2 + iT 24 * a0 2 + iT 1 * a6 0 +
             iT 10 * a3 5 + iT 14 * a9 0 + iT 23 * a8 5 - iT 2 * a2 3 - iT 9 * a3 3 + iT 15 * a0 3 + iT 22 * a1
             3 - iT 3 * a7 0 + iT 8 * a2 0 - iT 16 * a9 5 - iT 21 * a5 5 + iT 4 * a4 4 + iT 7 * a6 4 + iT 17 *
             a0 1 - iT 20 * a5 4 - iT 5 * a7 4 - iT 6 * a4 1 + iT 18 * a8 4 + iT 19 * a1 4 - t 0 + add)),
         (5 * line, drop_bit shift (iT 0 * a3 5 + iT 11 * a6 0 + iT 13 * a8 5 + iT 24 * a9 0 - iT 1 * a6 5 - iT
             10 * a3 0 - iT 14 * a9 5 - iT 23 * a8 0 + iT 2 * a7 4 - iT 9 * a2 4 + iT 15 * a9 1 + iT 22 * a5 1 +
             iT 3 * a7 1 + iT 8 * a4 4 - iT 16 * a8 1 - iT 21 * a1 1 - iT 4 * a6 2 - iT 7 * a4 2 + iT 17 * a5 2
             - iT 20 * a0 3 + iT 5 * a3 2 + iT 6 * a2 2 - iT 18 * a1 2 - iT 19 * a0 2 - t 0 + add)),
         (8 * line, drop_bit shift (iT 0 * a9 3 + iT 11 * a8 2 + iT 13 * a3 2 + iT 24 * a6 3 + iT 1 * a1 5 + iT
             10 * a0 5 - iT 14 * a2 5 - iT 23 * a3 5 - iT 2 * a1 3 - iT 9 * a8 3 + iT 15 * a7 3 + iT 22 * a4 2 -
             iT 3 * a9 5 - iT 8 * a5 5 + iT 16 * a2 0 - iT 21 * a7 0 - iT 4 * a1 1 - iT 7 * a0 1 + iT 17 * a2 1
             + iT 20 * a3 1 + iT 5 * a5 1 + iT 6 * a9 1 + iT 18 * a7 4 - iT 19 * a2 4 + t 1 + add)),
         (9 * line, drop_bit shift (iT 0 * a2 1 + iT 11 * a3 1 - iT 13 * a0 1 - iT 24 * a1 1 - iT 1 * a7 3 + iT
             10 * a2 3 - iT 14 * a9 2 - iT 23 * a5 2 - iT 2 * a4 0 - iT 9 * a7 5 + iT 15 * a1 5 + iT 22 * a8 5 -
             iT 3 * a3 4 - iT 8 * a2 4 + iT 16 * a1 4 + iT 21 * a0 4 - iT 4 * a6 3 - iT 7 * a3 2 - iT 17 * a9 3
             - iT 20 * a8 2 - iT 5 * a4 5 - iT 6 * a6 5 - iT 18 * a0 0 + iT 19 * a5 5 + t 0 + add)),
         (10 * line, drop_bit shift (- iT 0 * a6 1 - iT 11 * a4 1 + iT 13 * a5 1 - iT 24 * a0 4 + iT 1 * a2 2 -
             iT 10 * a7 2 - iT 14 * a5 3 - iT 23 * a9 3 + iT 2 * a6 4 + iT 9 * a4 4 - iT 15 * a5 4 + iT 22 * a0
             1 - iT 3 * a2 5 + iT 8 * a7 5 + iT 16 * a5 0 + iT 21 * a9 0 - iT 4 * a7 0 - iT 7 * a4 5 + iT 17 *
             a8 0 + iT 20 * a1 0 + iT 5 * a4 2 + iT 6 * a7 3 - iT 18 * a1 3 - iT 19 * a8 3 + t 0 + add)),
         (11 * line, drop_bit shift (- iT 0 * a1 3 - iT 11 * a0 3 + iT 13 * a2 3 + iT 24 * a3 3 - iT 1 * a9 1 -
             iT 10 * a5 1 + iT 14 * a2 4 - iT 23 * a7 4 - iT 2 * a8 0 - iT 9 * a9 5 - iT 15 * a6 5 - iT 22 * a3
             0 + iT 3 * a0 2 - iT 8 * a5 3 + iT 16 * a6 3 + iT 21 * a4 3 + iT 4 * a5 0 - iT 7 * a0 5 - iT 17 *
             a4 0 - iT 20 * a6 0 + iT 5 * a9 4 + iT 6 * a5 4 - iT 18 * a2 1 + iT 19 * a7 1 + t 1 + add)),
         (13 * line, drop_bit shift (iT 0 * a0 0 + iT 11 * a1 0 - iT 13 * a3 0 - iT 24 * a2 0 + iT 1 * a5 4 - iT
             10 * a0 1 - iT 14 * a4 4 - iT 23 * a6 4 - iT 2 * a9 3 - iT 9 * a5 3 + iT 15 * a2 2 - iT 22 * a7 2 +
             iT 3 * a8 3 + iT 8 * a9 2 + iT 16 * a6 2 + iT 21 * a3 3 - iT 4 * a1 4 - iT 7 * a8 4 + iT 17 * a7 4
             + iT 20 * a4 1 + iT 5 * a0 5 + iT 6 * a1 5 - iT 18 * a3 5 - iT 19 * a2 5 - t 1 + add)),
         (14 * line, drop_bit shift (iT 0 * a4 2 + iT 11 * a7 3 - iT 13 * a1 3 - iT 24 * a8 3 + iT 1 * a4 1 + iT
             10 * a6 1 + iT 14 * a0 4 - iT 23 * a5 1 - iT 2 * a3 0 - iT 9 * a2 0 + iT 15 * a1 0 + iT 22 * a0 0 -
             iT 3 * a6 3 - iT 8 * a4 3 + iT 16 * a5 3 - iT 21 * a0 2 - iT 4 * a7 5 - iT 7 * a4 0 + iT 17 * a8 5
             + iT 20 * a1 5 + iT 5 * a6 4 + iT 6 * a3 1 + iT 18 * a9 4 + iT 19 * a8 1 - t 0 + add)),
         (15 * line, drop_bit shift (iT 0 * a7 4 + iT 11 * a4 1 - iT 13 * a8 4 - iT 24 * a1 4 - iT 1 * a2 2 - iT
             10 * a3 2 + iT 14 * a0 2 + iT 23 * a1 2 - iT 2 * a2 1 + iT 9 * a7 1 + iT 15 * a5 4 + iT 22 * a9 4 +
             iT 3 * a7 5 - iT 8 * a2 5 + iT 16 * a9 0 + iT 21 * a5 0 + iT 4 * a2 0 + iT 7 * a3 0 - iT 17 * a0 0
             - iT 20 * a1 0 + iT 5 * a2 3 - iT 6 * a7 3 - iT 18 * a5 2 - iT 19 * a9 2 - t 0 + add)),
         (16 * line, drop_bit shift (- iT 0 * a0 1 + iT 11 * a5 4 - iT 13 * a6 4 - iT 24 * a4 4 + iT 1 * a0 3 -
             iT 10 * a5 2 + iT 14 * a6 2 + iT 23 * a4 2 - iT 2 * a0 5 + iT 9 * a5 0 - iT 15 * a6 0 - iT 22 * a4
             0 - iT 3 * a0 4 - iT 8 * a1 4 + iT 16 * a3 4 + iT 21 * a2 4 + iT 4 * a0 2 + iT 7 * a1 2 - iT 17 *
             a3 2 - iT 20 * a2 2 - iT 5 * a0 0 - iT 6 * a1 0 + iT 18 * a3 0 + iT 19 * a2 0 - t 1 + add)),
         (18 * line, drop_bit shift (iT 0 * a0 5 + iT 11 * a1 5 - iT 13 * a3 5 - iT 24 * a2 5 - iT 1 * a1 0 - iT
             10 * a0 0 + iT 14 * a2 0 + iT 23 * a3 0 - iT 2 * a5 1 + iT 9 * a0 4 + iT 15 * a4 1 + iT 22 * a6 1 -
             iT 3 * a8 1 - iT 8 * a1 1 + iT 16 * a4 4 + iT 21 * a7 1 - iT 4 * a9 2 - iT 7 * a5 2 + iT 17 * a2 3
             - iT 20 * a7 3 - iT 5 * a9 3 - iT 6 * a8 2 - iT 18 * a3 2 - iT 19 * a6 3 + t 1 + add)),
         (20 * line, drop_bit shift (- iT 0 * a4 0 - iT 11 * a6 0 - iT 13 * a0 5 + iT 24 * a5 0 + iT 1 * a6 5 +
             iT 10 * a4 5 - iT 14 * a5 5 + iT 23 * a0 0 - iT 2 * a6 1 - iT 9 * a3 4 - iT 15 * a9 1 - iT 22 * a8
             4 + iT 3 * a4 4 + iT 8 * a7 1 - iT 16 * a1 1 - iT 21 * a8 1 - iT 4 * a3 3 - iT 7 * a2 3 + iT 17 *
             a1 3 + iT 20 * a0 3 + iT 5 * a7 2 - iT 6 * a2 2 + iT 18 * a9 3 + iT 19 * a5 3 + t 0 + add)),
         (21 * line, drop_bit shift (iT 0 * a1 2 + iT 11 * a8 2 - iT 13 * a7 2 - iT 24 * a4 3 + iT 1 * a1 5 + iT
             10 * a8 5 - iT 14 * a7 5 - iT 23 * a4 0 + iT 2 * a5 2 + iT 9 * a9 2 + iT 15 * a7 3 - iT 22 * a2 3 +
             iT 3 * a5 5 + iT 8 * a9 5 + iT 16 * a7 0 - iT 21 * a2 0 + iT 4 * a8 1 + iT 7 * a9 4 + iT 17 * a6 4
             + iT 20 * a3 1 + iT 5 * a8 4 + iT 6 * a9 1 + iT 18 * a6 1 + iT 19 * a3 4 + t 1 + add)),
         (23 * line, drop_bit shift (iT 0 * a8 4 + iT 11 * a9 1 + iT 13 * a6 1 + iT 24 * a3 4 - iT 1 * a8 2 - iT
             10 * a1 2 + iT 14 * a4 3 + iT 23 * a7 2 - iT 2 * a0 1 - iT 9 * a1 1 + iT 15 * a3 1 + iT 22 * a2 1 +
             iT 3 * a5 0 + iT 8 * a9 0 + iT 16 * a7 5 - iT 21 * a2 5 - iT 4 * a9 5 - iT 7 * a8 0 - iT 17 * a3 0
             - iT 20 * a6 5 + iT 5 * a5 2 - iT 6 * a0 3 - iT 18 * a4 2 - iT 19 * a6 2 - t 1 + add)),
         (24 * line, drop_bit shift (- iT 0 * a2 3 + iT 11 * a7 3 + iT 13 * a5 2 + iT 24 * a9 2 + iT 1 * a4 1 +
             iT 10 * a7 4 - iT 14 * a1 4 - iT 23 * a8 4 - iT 2 * a4 5 - iT 9 * a7 0 + iT 15 * a1 0 + iT 22 * a8
             0 + iT 3 * a4 3 + iT 8 * a6 3 + iT 16 * a0 2 - iT 21 * a5 3 - iT 4 * a2 5 - iT 7 * a3 5 + iT 17 *
             a0 5 + iT 20 * a1 5 + iT 5 * a2 1 + iT 6 * a3 1 - iT 18 * a0 1 - iT 19 * a1 1 - t 0 + add)),
         (25 * line, drop_bit shift (- iT 0 * a4 5 - iT 11 * a6 5 - iT 13 * a0 0 + iT 24 * a5 5 - iT 1 * a3 1 -
             iT 10 * a2 1 + iT 14 * a1 1 + iT 23 * a0 1 + iT 2 * a7 2 + iT 9 * a4 3 - iT 15 * a8 2 - iT 22 * a1
             2 + iT 3 * a6 2 + iT 8 * a3 3 + iT 16 * a9 2 + iT 21 * a8 3 + iT 4 * a2 4 - iT 7 * a7 4 - iT 17 *
             a5 1 - iT 20 * a9 1 - iT 5 * a4 0 - iT 6 * a6 0 - iT 18 * a0 5 + iT 19 * a5 0 - t 0 + add)),
         (26 * line, drop_bit shift (iT 0 * a8 0 + iT 11 * a1 0 - iT 13 * a4 5 - iT 24 * a7 0 + iT 1 * a5 4 + iT
             10 * a9 4 + iT 14 * a7 1 - iT 23 * a2 1 - iT 2 * a1 2 - iT 9 * a0 2 + iT 15 * a2 2 + iT 22 * a3 2 -
             iT 3 * a9 2 - iT 8 * a8 3 - iT 16 * a3 3 - iT 21 * a6 2 + iT 4 * a0 4 - iT 7 * a5 1 + iT 17 * a6 1
             + iT 20 * a4 1 + iT 5 * a8 5 + iT 6 * a1 5 - iT 18 * a4 0 - iT 19 * a7 5 - t 1 + add)),
         (28 * line, drop_bit shift (- iT 0 * a5 1 - iT 11 * a9 1 - iT 13 * a7 4 + iT 24 * a2 4 + iT 1 * a8 2 +
             iT 10 * a9 3 + iT 14 * a6 3 + iT 23 * a3 2 - iT 2 * a9 4 - iT 9 * a8 1 - iT 15 * a3 1 - iT 22 * a6
             4 + iT 3 * a9 0 + iT 8 * a5 0 - iT 16 * a2 5 + iT 21 * a7 5 - iT 4 * a5 5 + iT 7 * a0 0 + iT 17 *
             a4 5 + iT 20 * a6 5 + iT 5 * a1 3 + iT 6 * a0 3 - iT 18 * a2 3 - iT 19 * a3 3 + t 1 + add)),
         (29 * line, drop_bit shift (iT 0 * a6 4 + iT 11 * a3 1 + iT 13 * a9 4 + iT 24 * a8 1 - iT 1 * a7 3 - iT
             10 * a4 2 + iT 14 * a8 3 + iT 23 * a1 3 - iT 2 * a3 5 - iT 9 * a2 5 + iT 15 * a1 5 + iT 22 * a0 5 +
             iT 3 * a2 4 + iT 8 * a3 4 - iT 16 * a0 4 - iT 21 * a1 4 + iT 4 * a4 3 + iT 7 * a7 2 - iT 17 * a1 2
             - iT 20 * a8 2 - iT 5 * a3 0 - iT 6 * a6 5 - iT 18 * a8 0 - iT 19 * a9 5 + t 0 + add)),
         (30 * line, drop_bit shift (- iT 0 * a7 2 + iT 11 * a2 2 - iT 13 * a9 3 - iT 24 * a5 3 - iT 1 * a6 0 -
             iT 10 * a4 0 + iT 14 * a5 0 - iT 23 * a0 5 - iT 2 * a4 2 - iT 9 * a6 2 - iT 15 * a0 3 + iT 22 * a5
             2 + iT 3 * a2 0 - iT 8 * a7 0 - iT 16 * a5 5 - iT 21 * a9 5 + iT 4 * a7 1 - iT 7 * a2 1 + iT 17 *
             a9 4 + iT 20 * a5 4 + iT 5 * a6 1 + iT 6 * a4 1 - iT 18 * a5 1 + iT 19 * a0 4 + t 0 + add)),
         (31 * line, drop_bit shift (iT 0 * a8 5 + iT 11 * a1 5 - iT 13 * a4 0 - iT 24 * a7 5 - iT 1 * a1 0 - iT
             10 * a8 0 + iT 14 * a7 0 + iT 23 * a4 5 - iT 2 * a8 4 - iT 9 * a1 4 + iT 15 * a4 1 + iT 22 * a7 4 +
             iT 3 * a1 1 + iT 8 * a8 1 - iT 16 * a7 1 - iT 21 * a4 4 + iT 4 * a8 3 + iT 7 * a1 3 - iT 17 * a4 2
             - iT 20 * a7 3 - iT 5 * a1 2 - iT 6 * a8 2 + iT 18 * a7 2 + iT 19 * a4 3 + t 1 + add)),
         (2 * line, drop_bit shift (iT 4 * b 0 + iT 9 * b 1 + iT 14 * b 2 + iT 19 * b 3 + iT 24 * b 4 + iT 29 *
             b 5 + add)),
         (7 * line, drop_bit shift (- iT 14 * b 0 - iT 29 * b 1 - iT 19 * b 2 - iT 4 * b 3 + iT 9 * b 4 + iT 24
             * b 5 + add)),
         (12 * line, drop_bit shift (iT 24 * b 0 + iT 14 * b 1 - iT 9 * b 2 - iT 29 * b 3 - iT 4 * b 4 + iT 19 *
             b 5 + add)),
         (17 * line, drop_bit shift (- iT 29 * b 0 + iT 4 * b 1 + iT 24 * b 2 - iT 9 * b 3 - iT 19 * b 4 + iT 14
             * b 5 + add)),
         (22 * line, drop_bit shift (iT 19 * b 0 - iT 24 * b 1 + iT 4 * b 2 + iT 14 * b 3 - iT 29 * b 4 + iT 9 *
             b 5 + add)),
         (27 * line, drop_bit shift (- iT 9 * b 0 + iT 19 * b 1 - iT 29 * b 2 + iT 24 * b 3 - iT 14 * b 4 + iT 4
             * b 5 + add)),
         (6 * line, drop_bit shift (iT 12 * c 0 + iT 25 * c 1 + add)),
         (19 * line, drop_bit shift (- iT 25 * c 0 + iT 12 * c 1 + add))])"

definition fastForwardDCT8_B32 ::
  "coeffs \<Rightarrow> coeffs \<Rightarrow> nat \<Rightarrow> nat \<Rightarrow> nat \<Rightarrow> nat \<Rightarrow> coeffs" where
  "fastForwardDCT8_B32 src dst shift line iSkipLine iSkipLine2 =
    (let add = if shift > 0 then 2 ^ (shift - 1) else 0;
         iT = flat 32 (g_trCoreDST7P32 ! TRANSFORM_FORWARD);
         reducedLine = line - iSkipLine;
         cutoff = 32 - iSkipLine2;
         dst = forward_lines 32 reducedLine (fastForwardDCT8_B32_line iT add shift line) src dst
     in clear_lines (line * cutoff) (line * iSkipLine2) (clear_columns reducedLine line iSkipLine cutoff dst))"

definition fastInverseDCT8_B32_line ::
  "coeffs \<Rightarrow> int \<Rightarrow> nat \<Rightarrow> nat \<Rightarrow> int \<Rightarrow> int \<Rightarrow> coeffs \<Rightarrow> (nat \<times> int) list" where
  "fastInverseDCT8_B32_line iT add shift line outputMinimum outputMaximum src =
    (let
       a0 = (\<lambda>k. src ((31 - k) * line) - src ((20 + k) * line));
       a1 = (\<lambda>k. src ((31 - k) * line) + src ((18 - k) * line));
       a2 = (\<lambda>k. src ((31 - k) * line) + src ((7 + k) * line));
       a3 = (\<lambda>k. src ((31 - k) * line) - src ((5 - k) * line));
       a4 = (\<lambda>k. src ((25 - k) * line) + src ((13 + k) * line));
       a5 = (\<lambda>k. src ((25 - k) * line) + src ((12 - k) * line));
       a6 = (\<lambda>k. src ((25 - k) * line) - src (k * line));
       a7 = (\<lambda>k. src ((18 - k) * line) - src ((7 + k) * line));
       a8 = (\<lambda>k. src ((18 - k) * line) + src ((5 - k) * line));
       a9 = (\<lambda>k. src ((12 - k) * line) + src (k * line));
       b = (\<lambda>k. src ((31 - k) * line) + src ((20 + k) * line) - src ((18 - k) * line) - src ((7 + k) *
           line) + src ((5 - k) * line));
       c = (\<lambda>k. src ((31 - k) * line) + src ((28 + k) * line) - src ((26 - k) * line) - src ((23 + k) *
           line) + src ((21 - k) * line) + src ((18 + k) * line) - src ((16 - k) * line) - src ((13 + k) * line)
           + src ((11 - k) * line) + src ((8 + k) * line) - src ((6 - k) * line) - src ((3 + k) * line) + src
           ((1 - k) * line));
       t = nth [iT 12 * src (19 * line) + iT 25 * src (6 * line), iT 12 * src (6 * line) - iT 25 * src (19 *
           line)]
     in [(0, Clip3 outputMinimum outputMaximum (drop_bit shift (iT 0 * a3 0 + iT 11 * a6 5 + iT 13 * a8 0 + iT
             24 * a9 5 + iT 1 * a3 1 + iT 10 * a6 4 + iT 14 * a8 1 + iT 23 * a9 4 + iT 2 * a3 2 + iT 9 * a6 3 +
             iT 15 * a8 2 + iT 22 * a9 3 + iT 3 * a3 3 + iT 8 * a6 2 + iT 16 * a8 3 + iT 21 * a9 2 + iT 4 * a3 4
             + iT 7 * a6 1 + iT 17 * a8 4 + iT 20 * a9 1 + iT 5 * a3 5 + iT 6 * a6 0 + iT 18 * a8 5 + iT 19 * a9
             0 + t 0 + add))),
         (1, Clip3 outputMinimum outputMaximum (drop_bit shift (iT 0 * a5 2 - iT 11 * a0 3 - iT 13 * a4 2 - iT
             24 * a6 2 - iT 1 * a9 1 - iT 10 * a8 4 - iT 14 * a3 4 - iT 23 * a6 1 - iT 2 * a0 0 + iT 9 * a5 5 -
             iT 15 * a6 5 - iT 22 * a4 5 + iT 3 * a5 3 - iT 8 * a0 2 - iT 16 * a4 3 - iT 21 * a6 3 - iT 4 * a9 0
             - iT 7 * a8 5 - iT 17 * a3 5 - iT 20 * a6 0 - iT 5 * a0 1 + iT 6 * a5 4 - iT 18 * a6 4 - iT 19 * a4
             4 + t 1 + add))),
         (3, Clip3 outputMinimum outputMaximum (drop_bit shift (iT 0 * a9 4 + iT 11 * a5 4 - iT 13 * a2 1 + iT
             24 * a7 1 + iT 1 * a0 3 + iT 10 * a1 3 - iT 14 * a3 3 - iT 23 * a2 3 - iT 2 * a8 5 - iT 9 * a9 0 -
             iT 15 * a6 0 - iT 22 * a3 5 + iT 3 * a1 4 + iT 8 * a0 4 - iT 16 * a2 4 - iT 21 * a3 4 + iT 4 * a5 3
             + iT 7 * a9 3 + iT 17 * a7 2 - iT 20 * a2 2 - iT 5 * a8 0 - iT 6 * a1 0 + iT 18 * a4 5 + iT 19 * a7
             0 - t 1 + add))),
         (4, Clip3 outputMinimum outputMaximum (drop_bit shift (- iT 0 * a3 2 - iT 11 * a2 2 + iT 13 * a1 2 + iT
             24 * a0 2 + iT 1 * a6 0 + iT 10 * a3 5 + iT 14 * a9 0 + iT 23 * a8 5 - iT 2 * a2 3 - iT 9 * a3 3 +
             iT 15 * a0 3 + iT 22 * a1 3 - iT 3 * a7 0 + iT 8 * a2 0 - iT 16 * a9 5 - iT 21 * a5 5 + iT 4 * a4 4
             + iT 7 * a6 4 + iT 17 * a0 1 - iT 20 * a5 4 - iT 5 * a7 4 - iT 6 * a4 1 + iT 18 * a8 4 + iT 19 * a1
             4 - t 0 + add))),
         (5, Clip3 outputMinimum outputMaximum (drop_bit shift (iT 0 * a3 5 + iT 11 * a6 0 + iT 13 * a8 5 + iT
             24 * a9 0 - iT 1 * a6 5 - iT 10 * a3 0 - iT 14 * a9 5 - iT 23 * a8 0 + iT 2 * a7 4 - iT 9 * a2 4 +
             iT 15 * a9 1 + iT 22 * a5 1 + iT 3 * a7 1 + iT 8 * a4 4 - iT 16 * a8 1 - iT 21 * a1 1 - iT 4 * a6 2
             - iT 7 * a4 2 + iT 17 * a5 2 - iT 20 * a0 3 + iT 5 * a3 2 + iT 6 * a2 2 - iT 18 * a1 2 - iT 19 * a0
             2 - t 0 + add))),
         (8, Clip3 outputMinimum outputMaximum (drop_bit shift (iT 0 * a9 3 + iT 11 * a8 2 + iT 13 * a3 2 + iT
             24 * a6 3 + iT 1 * a1 5 + iT 10 * a0 5 - iT 14 * a2 5 - iT 23 * a3 5 - iT 2 * a1 3 - iT 9 * a8 3 +
             iT 15 * a7 3 + iT 22 * a4 2 - iT 3 * a9 5 - iT 8 * a5 5 + iT 16 * a2 0 - iT 21 * a7 0 - iT 4 * a1 1
             - iT 7 * a0 1 + iT 17 * a2 1 + iT 20 * a3 1 + iT 5 * a5 1 + iT 6 * a9 1 + iT 18 * a7 4 - iT 19 * a2
             4 + t 1 + add))),
         (9, Clip3 outputMinimum outputMaximum (drop_bit shift (iT 0 * a2 1 + iT 11 * a3 1 - iT 13 * a0 1 - iT
             24 * a1 1 - iT 1 * a7 3 + iT 10 * a2 3 - iT 14 * a9 2 - iT 23 * a5 2 - iT 2 * a4 0 - iT 9 * a7 5 +
             iT 15 * a1 5 + iT 22 * a8 5 - iT 3 * a3 4 - iT 8 * a2 4 + iT 16 * a1 4 + iT 21 * a0 4 - iT 4 * a6 3
             - iT 7 * a3 2 - iT 17 * a9 3 - iT 20 * a8 2 - iT 5 * a4 5 - iT 6 * a6 5 - iT 18 * a0 0 + iT 19 * a5
             5 + t 0 + add))),
         (10, Clip3 outputMinimum outputMaximum (drop_bit shift (- iT 0 * a6 1 - iT 11 * a4 1 + iT 13 * a5 1 -
             iT 24 * a0 4 + iT 1 * a2 2 - iT 10 * a7 2 - iT 14 * a5 3 - iT 23 * a9 3 + iT 2 * a6 4 + iT 9 * a4 4
             - iT 15 * a5 4 + iT 22 * a0 1 - iT 3 * a2 5 + iT 8 * a7 5 + iT 16 * a5 0 + iT 21 * a9 0 - iT 4 * a7
             0 - iT 7 * a4 5 + iT 17 * a8 0 + iT 20 * a1 0 + iT 5 * a4 2 + iT 6 * a7 3 - iT 18 * a1 3 - iT 19 *
             a8 3 + t 0 + add))),
         (11, Clip3 outputMinimum outputMaximum (drop_bit shift (- iT 0 * a1 3 - iT 11 * a0 3 + iT 13 * a2 3 +
             iT 24 * a3 3 - iT 1 * a9 1 - iT 10 * a5 1 + iT 14 * a2 4 - iT 23 * a7 4 - iT 2 * a8 0 - iT 9 * a9 5
             - iT 15 * a6 5 - iT 22 * a3 0 + iT 3 * a0 2 - iT 8 * a5 3 + iT 16 * a6 3 + iT 21 * a4 3 + iT 4 * a5
             0 - iT 7 * a0 5 - iT 17 * a4 0 - iT 20 * a6 0 + iT 5 * a9 4 + iT 6 * a5 4 - iT 18 * a2 1 + iT 19 *
             a7 1 + t 1 + add))),
         (13, Clip3 outputMinimum outputMaximum (drop_bit shift (iT 0 * a0 0 + iT 11 * a1 0 - iT 13 * a3 0 - iT
             24 * a2 0 + iT 1 * a5 4 - iT 10 * a0 1 - iT 14 * a4 4 - iT 23 * a6 4 - iT 2 * a9 3 - iT 9 * a5 3 +
             iT 15 * a2 2 - iT 22 * a7 2 + iT 3 * a8 3 + iT 8 * a9 2 + iT 16 * a6 2 + iT 21 * a3 3 - iT 4 * a1 4
             - iT 7 * a8 4 + iT 17 * a7 4 + iT 20 * a4 1 + iT 5 * a0 5 + iT 6 * a1 5 - iT 18 * a3 5 - iT 19 * a2
             5 - t 1 + add))),
         (14, Clip3 outputMinimum outputMaximum (drop_bit shift (iT 0 * a4 2 + iT 11 * a7 3 - iT 13 * a1 3 - iT
             24 * a8 3 + iT 1 * a4 1 + iT 10 * a6 1 + iT 14 * a0 4 - iT 23 * a5 1 - iT 2 * a3 0 - iT 9 * a2 0 +
             iT 15 * a1 0 + iT 22 * a0 0 - iT 3 * a6 3 - iT 8 * a4 3 + iT 16 * a5 3 - iT 21 * a0 2 - iT 4 * a7 5
             - iT 7 * a4 0 + iT 17 * a8 5 + iT 20 * a1 5 + iT 5 * a6 4 + iT 6 * a3 1 + iT 18 * a9 4 + iT 19 * a8
             1 - t 0 + add))),
         (15, Clip3 outputMinimum outputMaximum (drop_bit shift (iT 0 * a7 4 + iT 11 * a4 1 - iT 13 * a8 4 - iT
             24 * a1 4 - iT 1 * a2 2 - iT 10 * a3 2 + iT 14 * a0 2 + iT 23 * a1 2 - iT 2 * a2 1 + iT 9 * a7 1 +
             iT 15 * a5 4 + iT 22 * a9 4 + iT 3 * a7 5 - iT 8 * a2 5 + iT 16 * a9 0 + iT 21 * a5 0 + iT 4 * a2 0
             + iT 7 * a3 0 - iT 17 * a0 0 - iT 20 * a1 0 + iT 5 * a2 3 - iT 6 * a7 3 - iT 18 * a5 2 - iT 19 * a9
             2 - t 0 + add))),
         (16, Clip3 outputMinimum outputMaximum (drop_bit shift (- iT 0 * a0 1 + iT 11 * a5 4 - iT 13 * a6 4 -
             iT 24 * a4 4 + iT 1 * a0 3 - iT 10 * a5 2 + iT 14 * a6 2 + iT 23 * a4 2 - iT 2 * a0 5 + iT 9 * a5 0
             - iT 15 * a6 0 - iT 22 * a4 0 - iT 3 * a0 4 - iT 8 * a1 4 + iT 16 * a3 4 + iT 21 * a2 4 + iT 4 * a0
             2 + iT 7 * a1 2 - iT 17 * a3 2 - iT 20 * a2 2 - iT 5 * a0 0 - iT 6 * a1 0 + iT 18 * a3 0 + iT 19 *
             a2 0 - t 1 + add))),
         (18, Clip3 outputMinimum outputMaximum (drop_bit shift (iT 0 * a0 5 + iT 11 * a1 5 - iT 13 * a3 5 - iT
             24 * a2 5 - iT 1 * a1 0 - iT 10 * a0 0 + iT 14 * a2 0 + iT 23 * a3 0 - iT 2 * a5 1 + iT 9 * a0 4 +
             iT 15 * a4 1 + iT 22 * a6 1 - iT 3 * a8 1 - iT 8 * a1 1 + iT 16 * a4 4 + iT 21 * a7 1 - iT 4 * a9 2
             - iT 7 * a5 2 + iT 17 * a2 3 - iT 20 * a7 3 - iT 5 * a9 3 - iT 6 * a8 2 - iT 18 * a3 2 - iT 19 * a6
             3 + t 1 + add))),
         (20, Clip3 outputMinimum outputMaximum (drop_bit shift (- iT 0 * a4 0 - iT 11 * a6 0 - iT 13 * a0 5 +
             iT 24 * a5 0 + iT 1 * a6 5 + iT 10 * a4 5 - iT 14 * a5 5 + iT 23 * a0 0 - iT 2 * a6 1 - iT 9 * a3 4
             - iT 15 * a9 1 - iT 22 * a8 4 + iT 3 * a4 4 + iT 8 * a7 1 - iT 16 * a1 1 - iT 21 * a8 1 - iT 4 * a3
             3 - iT 7 * a2 3 + iT 17 * a1 3 + iT 20 * a0 3 + iT 5 * a7 2 - iT 6 * a2 2 + iT 18 * a9 3 + iT 19 *
             a5 3 + t 0 + add))),
         (21, Clip3 outputMinimum outputMaximum (drop_bit shift (iT 0 * a1 2 + iT 11 * a8 2 - iT 13 * a7 2 - iT
             24 * a4 3 + iT 1 * a1 5 + iT 10 * a8 5 - iT 14 * a7 5 - iT 23 * a4 0 + iT 2 * a5 2 + iT 9 * a9 2 +
             iT 15 * a7 3 - iT 22 * a2 3 + iT 3 * a5 5 + iT 8 * a9 5 + iT 16 * a7 0 - iT 21 * a2 0 + iT 4 * a8 1
             + iT 7 * a9 4 + iT 17 * a6 4 + iT 20 * a3 1 + iT 5 * a8 4 + iT 6 * a9 1 + iT 18 * a6 1 + iT 19 * a3
             4 + t 1 + add))),
         (23, Clip3 outputMinimum outputMaximum (drop_bit shift (iT 0 * a8 4 + iT 11 * a9 1 + iT 13 * a6 1 + iT
             24 * a3 4 - iT 1 * a8 2 - iT 10 * a1 2 + iT 14 * a4 3 + iT 23 * a7 2 - iT 2 * a0 1 - iT 9 * a1 1 +
             iT 15 * a3 1 + iT 22 * a2 1 + iT 3 * a5 0 + iT 8 * a9 0 + iT 16 * a7 5 - iT 21 * a2 5 - iT 4 * a9 5
             - iT 7 * a8 0 - iT 17 * a3 0 - iT 20 * a6 5 + iT 5 * a5 2 - iT 6 * a0 3 - iT 18 * a4 2 - iT 19 * a6
             2 - t 1 + add))),
         (24, Clip3 outputMinimum outputMaximum (drop_bit shift (- iT 0 * a2 3 + iT 11 * a7 3 + iT 13 * a5 2 +
             iT 24 * a9 2 + iT 1 * a4 1 + iT 10 * a7 4 - iT 14 * a1 4 - iT 23 * a8 4 - iT 2 * a4 5 - iT 9 * a7 0
             + iT 15 * a1 0 + iT 22 * a8 0 + iT 3 * a4 3 + iT 8 * a6 3 + iT 16 * a0 2 - iT 21 * a5 3 - iT 4 * a2
             5 - iT 7 * a3 5 + iT 17 * a0 5 + iT 20 * a1 5 + iT 5 * a2 1 + iT 6 * a3 1 - iT 18 * a0 1 - iT 19 *
             a1 1 - t 0 + add))),
         (25, Clip3 outputMinimum outputMaximum (drop_bit shift (- iT 0 * a4 5 - iT 11 * a6 5 - iT 13 * a0 0 +
             iT 24 * a5 5 - iT 1 * a3 1 - iT 10 * a2 1 + iT 14 * a1 1 + iT 23 * a0 1 + iT 2 * a7 2 + iT 9 * a4 3
             - iT 15 * a8 2 - iT 22 * a1 2 + iT 3 * a6 2 + iT 8 * a3 3 + iT 16 * a9 2 + iT 21 * a8 3 + iT 4 * a2
             4 - iT 7 * a7 4 - iT 17 * a5 1 - iT 20 * a9 1 - iT 5 * a4 0 - iT 6 * a6 0 - iT 18 * a0 5 + iT 19 *
             a5 0 - t 0 + add))),
         (26, Clip3 outputMinimum outputMaximum (drop_bit shift (iT 0 * a8 0 + iT 11 * a1 0 - iT 13 * a4 5 - iT
             24 * a7 0 + iT 1 * a5 4 + iT 10 * a9 4 + iT 14 * a7 1 - iT 23 * a2 1 - iT 2 * a1 2 - iT 9 * a0 2 +
             iT 15 * a2 2 + iT 22 * a3 2 - iT 3 * a9 2 - iT 8 * a8 3 - iT 16 * a3 3 - iT 21 * a6 2 + iT 4 * a0 4
             - iT 7 * a5 1 + iT 17 * a6 1 + iT 20 * a4 1 + iT 5 * a8 5 + iT 6 * a1 5 - iT 18 * a4 0 - iT 19 * a7
             5 - t 1 + add))),
         (28, Clip3 outputMinimum outputMaximum (drop_bit shift (- iT 0 * a5 1 - iT 11 * a9 1 - iT 13 * a7 4 +
             iT 24 * a2 4 + iT 1 * a8 2 + iT 10 * a9 3 + iT 14 * a6 3 + iT 23 * a3 2 - iT 2 * a9 4 - iT 9 * a8 1
             - iT 15 * a3 1 - iT 22 * a6 4 + iT 3 * a9 0 + iT 8 * a5 0 - iT 16 * a2 5 + iT 21 * a7 5 - iT 4 * a5
             5 + iT 7 * a0 0 + iT 17 * a4 5 + iT 20 * a6 5 + iT 5 * a1 3 + iT 6 * a0 3 - iT 18 * a2 3 - iT 19 *
             a3 3 + t 1 + add))),
         (29, Clip3 outputMinimum outputMaximum (drop_bit shift (iT 0 * a6 4 + iT 11 * a3 1 + iT 13 * a9 4 + iT
             24 * a8 1 - iT 1 * a7 3 - iT 10 * a4 2 + iT 14 * a8 3 + iT 23 * a1 3 - iT 2 * a3 5 - iT 9 * a2 5 +
             iT 15 * a1 5 + iT 22 * a0 5 + iT 3 * a2 4 + iT 8 * a3 4 - iT 16 * a0 4 - iT 21 * a1 4 + iT 4 * a4 3
             + iT 7 * a7 2 - iT 17 * a1 2 - iT 20 * a8 2 - iT 5 * a3 0 - iT 6 * a6 5 - iT 18 * a8 0 - iT 19 * a9
             5 + t 0 + add))),
         (30, Clip3 outputMinimum outputMaximum (drop_bit shift (- iT 0 * a7 2 + iT 11 * a2 2 - iT 13 * a9 3 -
             iT 24 * a5 3 - iT 1 * a6 0 - iT 10 * a4 0 + iT 14 * a5 0 - iT 23 * a0 5 - iT 2 * a4 2 - iT 9 * a6 2
             - iT 15 * a0 3 + iT 22 * a5 2 + iT 3 * a2 0 - iT 8 * a7 0 - iT 16 * a5 5 - iT 21 * a9 5 + iT 4 * a7
             1 - iT 7 * a2 1 + iT 17 * a9 4 + iT 20 * a5 4 + iT 5 * a6 1 + iT 6 * a4 1 - iT 18 * a5 1 + iT 19 *
             a0 4 + t 0 + add))),
         (31, Clip3 outputMinimum outputMaximum (drop_bit shift (iT 0 * a8 5 + iT 11 * a1 5 - iT 13 * a4 0 - iT
             24 * a7 5 - iT 1 * a1 0 - iT 10 * a8 0 + iT 14 * a7 0 + iT 23 * a4 5 - iT 2 * a8 4 - iT 9 * a1 4 +
             iT 15 * a4 1 + iT 22 * a7 4 + iT 3 * a1 1 + iT 8 * a8 1 - iT 16 * a7 1 - iT 21 * a4 4 + iT 4 * a8 3
             + iT 7 * a1 3 - iT 17 * a4 2 - iT 20 * a7 3 - iT 5 * a1 2 - iT 6 * a8 2 + iT 18 * a7 2 + iT 19 * a4
             3 + t 1 + add))),
         (2, Clip3 outputMinimum outputMaximum (drop_bit shift (iT 4 * b 0 + iT 9 * b 1 + iT 14 * b 2 + iT 19 *
             b 3 + iT 24 * b 4 + iT 29 * b 5 + add))),
         (7, Clip3 outputMinimum outputMaximum (drop_bit shift (- iT 14 * b 0 - iT 29 * b 1 - iT 19 * b 2 - iT 4
             * b 3 + iT 9 * b 4 + iT 24 * b 5 + add))),
         (12, Clip3 outputMinimum outputMaximum (drop_bit shift (iT 24 * b 0 + iT 14 * b 1 - iT 9 * b 2 - iT 29
             * b 3 - iT 4 * b 4 + iT 19 * b 5 + add))),
         (17, Clip3 outputMinimum outputMaximum (drop_bit shift (- iT 29 * b 0 + iT 4 * b 1 + iT 24 * b 2 - iT 9
             * b 3 - iT 19 * b 4 + iT 14 * b 5 + add))),
         (22, Clip3 outputMinimum outputMaximum (drop_bit shift (iT 19 * b 0 - iT 24 * b 1 + iT 4 * b 2 + iT 14
             * b 3 - iT 29 * b 4 + iT 9 * b 5 + add))),
         (27, Clip3 outputMinimum outputMaximum (drop_bit shift (- iT 9 * b 0 + iT 19 * b 1 - iT 29 * b 2 + iT
             24 * b 3 - iT 14 * b 4 + iT 4 * b 5 + add))),
         (6, Clip3 outputMinimum outputMaximum (drop_bit shift (iT 12 * c 0 + iT 25 * c 1 + add))),
         (19, Clip3 outputMinimum outputMaximum (drop_bit shift (- iT 25 * c 0 + iT 12 * c 1 + add)))])"

definition fastInverseDCT8_B32 ::
  "coeffs \<Rightarrow> coeffs \<Rightarrow> nat \<Rightarrow> nat \<Rightarrow> nat \<Rightarrow> nat \<Rightarrow> int \<Rightarrow> int \<Rightarrow> coeffs" where
  "fastInverseDCT8_B32 src dst shift line iSkipLine iSkipLine2 outputMinimum outputMaximum =
    (let add = if shift > 0 then 2 ^ (shift - 1) else 0;
         iT = flat 32 (g_trCoreDST7P32 ! TRANSFORM_INVERSE);
         reducedLine = line - iSkipLine;
         dst = inverse_lines 32 reducedLine (fastInverseDCT8_B32_line iT add shift line outputMinimum outputMaximum) src dst
     in clear_lines (32 * reducedLine) (32 * iSkipLine) dst)"

section \<open>The tables\<close>

lemma dst7_4_rows:
  "g_trCoreDST7P4 ! 0 ! 0 = [29, 55, 74, 84]"
  "g_trCoreDST7P4 ! 0 ! Suc 0 = [74, 74, 0, - 74]"
  "g_trCoreDST7P4 ! 0 ! 2 = [84, - 29, - 74, 55]"
  "g_trCoreDST7P4 ! 0 ! 3 = [55, - 84, 74, - 29]"
  by (simp_all add: g_trCoreDST7P4_def DEFINE_DST7_P4_MATRIX_def)

lemma dst7_4_same: "g_trCoreDST7P4 ! 1 = g_trCoreDST7P4 ! 0"
  by (simp add: g_trCoreDST7P4_def)

lemma dst7_16_rows:
  "g_trCoreDST7P16 ! 0 ! 0 = [8, 17, 25, 33, 40, 48, 55, 62, 68, 73, 77, 81, 85, 87, 88, 88]"
  "g_trCoreDST7P16 ! 0 ! Suc 0 = [25, 48, 68, 81, 88, 88, 81, 68, 48, 25, 0, - 25, - 48, - 68, - 81, - 88]"
  "g_trCoreDST7P16 ! 0 ! 2 = [40, 73, 88, 85, 62, 25, - 17, - 55, - 81, - 88, - 77, - 48, - 8, 33, 68, 87]"
  "g_trCoreDST7P16 ! 0 ! 3 = [55, 87, 81, 40, - 17, - 68, - 88, - 73, - 25, 33, 77, 88, 62, 8, - 48, - 85]"
  "g_trCoreDST7P16 ! 0 ! 4 = [68, 88, 48, - 25, - 81, - 81, - 25, 48, 88, 68, 0, - 68, - 88, - 48, 25, 81]"
  "g_trCoreDST7P16 ! 0 ! 5 = [77, 77, 0, - 77, - 77, 0, 77, 77, 0, - 77, - 77, 0, 77, 77, 0, - 77]"
  "g_trCoreDST7P16 ! 0 ! 6 = [85, 55, - 48, - 87, - 8, 81, 62, - 40, - 88, - 17, 77, 68, - 33, - 88, - 25, 73]"
  "g_trCoreDST7P16 ! 0 ! 7 = [88, 25, - 81, - 48, 68, 68, - 48, - 81, 25, 88, 0, - 88, - 25, 81, 48, - 68]"
  "g_trCoreDST7P16 ! 0 ! 8 = [88, - 8, - 88, 17, 87, - 25, - 85, 33, 81, - 40, - 77, 48, 73, - 55, - 68, 62]"
  "g_trCoreDST7P16 ! 0 ! 9 = [87, - 40, - 68, 73, 33, - 88, 8, 85, - 48, - 62, 77, 25, - 88, 17, 81, - 55]"
  "g_trCoreDST7P16 ! 0 ! 10 = [81, - 68, - 25, 88, - 48, - 48, 88, - 25, - 68, 81, 0, - 81, 68, 25, - 88, 48]"
  "g_trCoreDST7P16 ! 0 ! 11 = [73, - 85, 25, 55, - 88, 48, 33, - 87, 68, 8, - 77, 81, - 17, - 62, 88, - 40]"
  "g_trCoreDST7P16 ! 0 ! 12 = [62, - 88, 68, - 8, - 55, 88, - 73, 17, 48, - 87, 77, - 25, - 40, 85, - 81, 33]"
  "g_trCoreDST7P16 ! 0 ! 13 = [48, - 81, 88, - 68, 25, 25, - 68, 88, - 81, 48, 0, - 48, 81, - 88, 68, - 25]"
  "g_trCoreDST7P16 ! 0 ! 14 = [33, - 62, 81, - 88, 85, - 68, 40, - 8, - 25, 55, - 77, 88, - 87, 73, - 48, 17]"
  "g_trCoreDST7P16 ! 0 ! 15 = [17, - 33, 48, - 62, 73, - 81, 87, - 88, 88, - 85, 77, - 68, 55, - 40, 25, - 8]"
  by (simp_all add: g_trCoreDST7P16_def DEFINE_DST7_P16_MATRIX_def)

lemma dst7_16_same: "g_trCoreDST7P16 ! 1 = g_trCoreDST7P16 ! 0"
  by (simp add: g_trCoreDST7P16_def)

lemma dst7_32_rows:
  "g_trCoreDST7P32 ! 0 ! 0 = [4, 9, 13, 17, 21, 26, 30, 34, 38, 42, 46, 50, 53, 56, 60, 63, 66, 68, 72, 74, 77,
    78, 80, 82, 84, 85, 86, 87, 88, 89, 90, 90]"
  "g_trCoreDST7P32 ! 0 ! Suc 0 = [13, 26, 38, 50, 60, 68, 77, 82, 86, 89, 90, 88, 85, 80, 74, 66, 56, 46, 34,
    21, 9, - 4, - 17, - 30, - 42, - 53, - 63, - 72, - 78, - 84, - 87, - 90]"
  "g_trCoreDST7P32 ! 0 ! 2 = [21, 42, 60, 74, 84, 89, 89, 84, 74, 60, 42, 21, 0, - 21, - 42, - 60, - 74, - 84, -
    89, - 89, - 84, - 74, - 60, - 42, - 21, 0, 21, 42, 60, 74, 84, 89]"
  "g_trCoreDST7P32 ! 0 ! 3 = [30, 56, 77, 87, 89, 80, 63, 38, 9, - 21, - 50, - 72, - 85, - 90, - 84, - 68, - 46,
    - 17, 13, 42, 66, 82, 90, 86, 74, 53, 26, - 4, - 34, - 60, - 78, - 88]"
  "g_trCoreDST7P32 ! 0 ! 4 = [38, 68, 86, 88, 74, 46, 9, - 30, - 63, - 84, - 90, - 78, - 53, - 17, 21, 56, 80,
    90, 82, 60, 26, - 13, - 50, - 77, - 89, - 85, - 66, - 34, 4, 42, 72, 87]"
  "g_trCoreDST7P32 ! 0 ! 5 = [46, 78, 90, 77, 42, - 4, - 50, - 80, - 90, - 74, - 38, 9, 53, 82, 89, 72, 34, -
    13, - 56, - 84, - 88, - 68, - 30, 17, 60, 85, 87, 66, 26, - 21, - 63, - 86]"
  "g_trCoreDST7P32 ! 0 ! 6 = [53, 85, 85, 53, 0, - 53, - 85, - 85, - 53, 0, 53, 85, 85, 53, 0, - 53, - 85, - 85,
    - 53, 0, 53, 85, 85, 53, 0, - 53, - 85, - 85, - 53, 0, 53, 85]"
  "g_trCoreDST7P32 ! 0 ! 7 = [60, 89, 74, 21, - 42, - 84, - 84, - 42, 21, 74, 89, 60, 0, - 60, - 89, - 74, - 21,
    42, 84, 84, 42, - 21, - 74, - 89, - 60, 0, 60, 89, 74, 21, - 42, - 84]"
  "g_trCoreDST7P32 ! 0 ! 8 = [66, 90, 56, - 13, - 74, - 87, - 46, 26, 80, 84, 34, - 38, - 85, - 78, - 21, 50,
    88, 72, 9, - 60, - 90, - 63, 4, 68, 89, 53, - 17, - 77, - 86, - 42, 30, 82]"
  "g_trCoreDST7P32 ! 0 ! 9 = [72, 86, 34, - 46, - 89, - 63, 13, 78, 82, 21, - 56, - 90, - 53, 26, 84, 77, 9, -
    66, - 88, - 42, 38, 87, 68, - 4, - 74, - 85, - 30, 50, 90, 60, - 17, - 80]"
  "g_trCoreDST7P32 ! 0 ! 10 = [77, 80, 9, - 72, - 84, - 17, 66, 86, 26, - 60, - 88, - 34, 53, 90, 42, - 46, -
    90, - 50, 38, 89, 56, - 30, - 87, - 63, 21, 85, 68, - 13, - 82, - 74, 4, 78]"
  "g_trCoreDST7P32 ! 0 ! 11 = [80, 72, - 17, - 86, - 60, 34, 90, 46, - 50, - 89, - 30, 63, 85, 13, - 74, - 78,
    4, 82, 68, - 21, - 87, - 56, 38, 90, 42, - 53, - 88, - 26, 66, 84, 9, - 77]"
  "g_trCoreDST7P32 ! 0 ! 12 = [84, 60, - 42, - 89, - 21, 74, 74, - 21, - 89, - 42, 60, 84, 0, - 84, - 60, 42,
    89, 21, - 74, - 74, 21, 89, 42, - 60, - 84, 0, 84, 60, - 42, - 89, - 21, 74]"
  "g_trCoreDST7P32 ! 0 ! 13 = [86, 46, - 63, - 78, 21, 90, 26, - 77, - 66, 42, 87, 4, - 85, - 50, 60, 80, - 17,
    - 90, - 30, 74, 68, - 38, - 88, - 9, 84, 53, - 56, - 82, 13, 89, 34, - 72]"
  "g_trCoreDST7P32 ! 0 ! 14 = [88, 30, - 78, - 56, 60, 77, - 34, - 87, 4, 89, 26, - 80, - 53, 63, 74, - 38, -
    86, 9, 90, 21, - 82, - 50, 66, 72, - 42, - 85, 13, 90, 17, - 84, - 46, 68]"
  "g_trCoreDST7P32 ! 0 ! 15 = [90, 13, - 87, - 26, 84, 38, - 78, - 50, 72, 60, - 63, - 68, 53, 77, - 42, - 82,
    30, 86, - 17, - 89, 4, 90, 9, - 88, - 21, 85, 34, - 80, - 46, 74, 56, - 66]"
  "g_trCoreDST7P32 ! 0 ! 16 = [90, - 4, - 90, 9, 89, - 13, - 88, 17, 87, - 21, - 86, 26, 85, - 30, - 84, 34, 82,
    - 38, - 80, 42, 78, - 46, - 77, 50, 74, - 53, - 72, 56, 68, - 60, - 66, 63]"
  "g_trCoreDST7P32 ! 0 ! 17 = [89, - 21, - 84, 42, 74, - 60, - 60, 74, 42, - 84, - 21, 89, 0, - 89, 21, 84, -
    42, - 74, 60, 60, - 74, - 42, 84, 21, - 89, 0, 89, - 21, - 84, 42, 74, - 60]"
  "g_trCoreDST7P32 ! 0 ! 18 = [87, - 38, - 72, 68, 42, - 86, - 4, 88, - 34, - 74, 66, 46, - 85, - 9, 89, - 30, -
    77, 63, 50, - 84, - 13, 90, - 26, - 78, 60, 53, - 82, - 17, 90, - 21, - 80, 56]"
  "g_trCoreDST7P32 ! 0 ! 19 = [85, - 53, - 53, 85, 0, - 85, 53, 53, - 85, 0, 85, - 53, - 53, 85, 0, - 85, 53,
    53, - 85, 0, 85, - 53, - 53, 85, 0, - 85, 53, 53, - 85, 0, 85, - 53]"
  "g_trCoreDST7P32 ! 0 ! 20 = [82, - 66, - 30, 90, - 42, - 56, 86, - 13, - 77, 74, 17, - 87, 53, 46, - 89, 26,
    68, - 80, - 4, 84, - 63, - 34, 90, - 38, - 60, 85, - 9, - 78, 72, 21, - 88, 50]"
  "g_trCoreDST7P32 ! 0 ! 21 = [78, - 77, - 4, 80, - 74, - 9, 82, - 72, - 13, 84, - 68, - 17, 85, - 66, - 21, 86,
    - 63, - 26, 87, - 60, - 30, 88, - 56, - 34, 89, - 53, - 38, 90, - 50, - 42, 90, - 46]"
  "g_trCoreDST7P32 ! 0 ! 22 = [74, - 84, 21, 60, - 89, 42, 42, - 89, 60, 21, - 84, 74, 0, - 74, 84, - 21, - 60,
    89, - 42, - 42, 89, - 60, - 21, 84, - 74, 0, 74, - 84, 21, 60, - 89, 42]"
  "g_trCoreDST7P32 ! 0 ! 23 = [68, - 88, 46, 30, - 84, 78, - 17, - 56, 90, - 60, - 13, 77, - 85, 34, 42, - 87,
    72, - 4, - 66, 89, - 50, - 26, 82, - 80, 21, 53, - 90, 63, 9, - 74, 86, - 38]"
  "g_trCoreDST7P32 ! 0 ! 24 = [63, - 90, 66, - 4, - 60, 90, - 68, 9, 56, - 89, 72, - 13, - 53, 88, - 74, 17, 50,
    - 87, 77, - 21, - 46, 86, - 78, 26, 42, - 85, 80, - 30, - 38, 84, - 82, 34]"
  "g_trCoreDST7P32 ! 0 ! 25 = [56, - 87, 80, - 38, - 21, 72, - 90, 68, - 17, - 42, 82, - 86, 53, 4, - 60, 88, -
    78, 34, 26, - 74, 90, - 66, 13, 46, - 84, 85, - 50, - 9, 63, - 89, 77, - 30]"
  "g_trCoreDST7P32 ! 0 ! 26 = [50, - 82, 88, - 66, 21, 30, - 72, 90, - 78, 42, 9, - 56, 85, - 86, 60, - 13, -
    38, 77, - 90, 74, - 34, - 17, 63, - 87, 84, - 53, 4, 46, - 80, 89, - 68, 26]"
  "g_trCoreDST7P32 ! 0 ! 27 = [42, - 74, 89, - 84, 60, - 21, - 21, 60, - 84, 89, - 74, 42, 0, - 42, 74, - 89,
    84, - 60, 21, 21, - 60, 84, - 89, 74, - 42, 0, 42, - 74, 89, - 84, 60, - 21]"
  "g_trCoreDST7P32 ! 0 ! 28 = [34, - 63, 82, - 90, 84, - 66, 38, - 4, - 30, 60, - 80, 90, - 85, 68, - 42, 9, 26,
    - 56, 78, - 89, 86, - 72, 46, - 13, - 21, 53, - 77, 88, - 87, 74, - 50, 17]"
  "g_trCoreDST7P32 ! 0 ! 29 = [26, - 50, 68, - 82, 89, - 88, 80, - 66, 46, - 21, - 4, 30, - 53, 72, - 84, 90, -
    87, 78, - 63, 42, - 17, - 9, 34, - 56, 74, - 85, 90, - 86, 77, - 60, 38, - 13]"
  "g_trCoreDST7P32 ! 0 ! 30 = [17, - 34, 50, - 63, 74, - 82, 87, - 90, 88, - 84, 77, - 66, 53, - 38, 21, - 4, -
    13, 30, - 46, 60, - 72, 80, - 86, 90, - 89, 85, - 78, 68, - 56, 42, - 26, 9]"
  "g_trCoreDST7P32 ! 0 ! 31 = [9, - 17, 26, - 34, 42, - 50, 56, - 63, 68, - 74, 78, - 82, 85, - 87, 89, - 90,
    90, - 88, 86, - 84, 80, - 77, 72, - 66, 60, - 53, 46, - 38, 30, - 21, 13, - 4]"
  by (simp_all add: g_trCoreDST7P32_def DEFINE_DST7_P32_MATRIX_def)

lemma dst7_32_same: "g_trCoreDST7P32 ! 1 = g_trCoreDST7P32 ! 0"
  by (simp add: g_trCoreDST7P32_def)

lemma dct8_4_rows:
  "g_trCoreDCT8P4 ! 0 ! 0 = [84, 74, 55, 29]"
  "g_trCoreDCT8P4 ! 0 ! Suc 0 = [74, 0, - 74, - 74]"
  "g_trCoreDCT8P4 ! 0 ! 2 = [55, - 74, - 29, 84]"
  "g_trCoreDCT8P4 ! 0 ! 3 = [29, - 74, 84, - 55]"
  by (simp_all add: g_trCoreDCT8P4_def DEFINE_DCT8_P4_MATRIX_def)

lemma dct8_4_same: "g_trCoreDCT8P4 ! 1 = g_trCoreDCT8P4 ! 0"
  by (simp add: g_trCoreDCT8P4_def)

lemma dct8_16_rows:
  "g_trCoreDCT8P16 ! 0 ! 0 = [88, 88, 87, 85, 81, 77, 73, 68, 62, 55, 48, 40, 33, 25, 17, 8]"
  "g_trCoreDCT8P16 ! 0 ! Suc 0 = [88, 81, 68, 48, 25, 0, - 25, - 48, - 68, - 81, - 88, - 88, - 81, - 68, - 48, -
    25]"
  "g_trCoreDCT8P16 ! 0 ! 2 = [87, 68, 33, - 8, - 48, - 77, - 88, - 81, - 55, - 17, 25, 62, 85, 88, 73, 40]"
  "g_trCoreDCT8P16 ! 0 ! 3 = [85, 48, - 8, - 62, - 88, - 77, - 33, 25, 73, 88, 68, 17, - 40, - 81, - 87, - 55]"
  "g_trCoreDCT8P16 ! 0 ! 4 = [81, 25, - 48, - 88, - 68, 0, 68, 88, 48, - 25, - 81, - 81, - 25, 48, 88, 68]"
  "g_trCoreDCT8P16 ! 0 ! 5 = [77, 0, - 77, - 77, 0, 77, 77, 0, - 77, - 77, 0, 77, 77, 0, - 77, - 77]"
  "g_trCoreDCT8P16 ! 0 ! 6 = [73, - 25, - 88, - 33, 68, 77, - 17, - 88, - 40, 62, 81, - 8, - 87, - 48, 55, 85]"
  "g_trCoreDCT8P16 ! 0 ! 7 = [68, - 48, - 81, 25, 88, 0, - 88, - 25, 81, 48, - 68, - 68, 48, 81, - 25, - 88]"
  "g_trCoreDCT8P16 ! 0 ! 8 = [62, - 68, - 55, 73, 48, - 77, - 40, 81, 33, - 85, - 25, 87, 17, - 88, - 8, 88]"
  "g_trCoreDCT8P16 ! 0 ! 9 = [55, - 81, - 17, 88, - 25, - 77, 62, 48, - 85, - 8, 88, - 33, - 73, 68, 40, - 87]"
  "g_trCoreDCT8P16 ! 0 ! 10 = [48, - 88, 25, 68, - 81, 0, 81, - 68, - 25, 88, - 48, - 48, 88, - 25, - 68, 81]"
  "g_trCoreDCT8P16 ! 0 ! 11 = [40, - 88, 62, 17, - 81, 77, - 8, - 68, 87, - 33, - 48, 88, - 55, - 25, 85, - 73]"
  "g_trCoreDCT8P16 ! 0 ! 12 = [33, - 81, 85, - 40, - 25, 77, - 87, 48, 17, - 73, 88, - 55, - 8, 68, - 88, 62]"
  "g_trCoreDCT8P16 ! 0 ! 13 = [25, - 68, 88, - 81, 48, 0, - 48, 81, - 88, 68, - 25, - 25, 68, - 88, 81, - 48]"
  "g_trCoreDCT8P16 ! 0 ! 14 = [17, - 48, 73, - 87, 88, - 77, 55, - 25, - 8, 40, - 68, 85, - 88, 81, - 62, 33]"
  "g_trCoreDCT8P16 ! 0 ! 15 = [8, - 25, 40, - 55, 68, - 77, 85, - 88, 88, - 87, 81, - 73, 62, - 48, 33, - 17]"
  by (simp_all add: g_trCoreDCT8P16_def DEFINE_DCT8_P16_MATRIX_def)

lemma dct8_16_same: "g_trCoreDCT8P16 ! 1 = g_trCoreDCT8P16 ! 0"
  by (simp add: g_trCoreDCT8P16_def)

lemma dct8_32_rows:
  "g_trCoreDCT8P32 ! 0 ! 0 = [90, 90, 89, 88, 87, 86, 85, 84, 82, 80, 78, 77, 74, 72, 68, 66, 63, 60, 56, 53,
    50, 46, 42, 38, 34, 30, 26, 21, 17, 13, 9, 4]"
  "g_trCoreDCT8P32 ! 0 ! Suc 0 = [90, 87, 84, 78, 72, 63, 53, 42, 30, 17, 4, - 9, - 21, - 34, - 46, - 56, - 66,
    - 74, - 80, - 85, - 88, - 90, - 89, - 86, - 82, - 77, - 68, - 60, - 50, - 38, - 26, - 13]"
  "g_trCoreDCT8P32 ! 0 ! 2 = [89, 84, 74, 60, 42, 21, 0, - 21, - 42, - 60, - 74, - 84, - 89, - 89, - 84, - 74, -
    60, - 42, - 21, 0, 21, 42, 60, 74, 84, 89, 89, 84, 74, 60, 42, 21]"
  "g_trCoreDCT8P32 ! 0 ! 3 = [88, 78, 60, 34, 4, - 26, - 53, - 74, - 86, - 90, - 82, - 66, - 42, - 13, 17, 46,
    68, 84, 90, 85, 72, 50, 21, - 9, - 38, - 63, - 80, - 89, - 87, - 77, - 56, - 30]"
  "g_trCoreDCT8P32 ! 0 ! 4 = [87, 72, 42, 4, - 34, - 66, - 85, - 89, - 77, - 50, - 13, 26, 60, 82, 90, 80, 56,
    21, - 17, - 53, - 78, - 90, - 84, - 63, - 30, 9, 46, 74, 88, 86, 68, 38]"
  "g_trCoreDCT8P32 ! 0 ! 5 = [86, 63, 21, - 26, - 66, - 87, - 85, - 60, - 17, 30, 68, 88, 84, 56, 13, - 34, -
    72, - 89, - 82, - 53, - 9, 38, 74, 90, 80, 50, 4, - 42, - 77, - 90, - 78, - 46]"
  "g_trCoreDCT8P32 ! 0 ! 6 = [85, 53, 0, - 53, - 85, - 85, - 53, 0, 53, 85, 85, 53, 0, - 53, - 85, - 85, - 53,
    0, 53, 85, 85, 53, 0, - 53, - 85, - 85, - 53, 0, 53, 85, 85, 53]"
  "g_trCoreDCT8P32 ! 0 ! 7 = [84, 42, - 21, - 74, - 89, - 60, 0, 60, 89, 74, 21, - 42, - 84, - 84, - 42, 21, 74,
    89, 60, 0, - 60, - 89, - 74, - 21, 42, 84, 84, 42, - 21, - 74, - 89, - 60]"
  "g_trCoreDCT8P32 ! 0 ! 8 = [82, 30, - 42, - 86, - 77, - 17, 53, 89, 68, 4, - 63, - 90, - 60, 9, 72, 88, 50, -
    21, - 78, - 85, - 38, 34, 84, 80, 26, - 46, - 87, - 74, - 13, 56, 90, 66]"
  "g_trCoreDCT8P32 ! 0 ! 9 = [80, 17, - 60, - 90, - 50, 30, 85, 74, 4, - 68, - 87, - 38, 42, 88, 66, - 9, - 77,
    - 84, - 26, 53, 90, 56, - 21, - 82, - 78, - 13, 63, 89, 46, - 34, - 86, - 72]"
  "g_trCoreDCT8P32 ! 0 ! 10 = [78, 4, - 74, - 82, - 13, 68, 85, 21, - 63, - 87, - 30, 56, 89, 38, - 50, - 90, -
    46, 42, 90, 53, - 34, - 88, - 60, 26, 86, 66, - 17, - 84, - 72, 9, 80, 77]"
  "g_trCoreDCT8P32 ! 0 ! 11 = [77, - 9, - 84, - 66, 26, 88, 53, - 42, - 90, - 38, 56, 87, 21, - 68, - 82, - 4,
    78, 74, - 13, - 85, - 63, 30, 89, 50, - 46, - 90, - 34, 60, 86, 17, - 72, - 80]"
  "g_trCoreDCT8P32 ! 0 ! 12 = [74, - 21, - 89, - 42, 60, 84, 0, - 84, - 60, 42, 89, 21, - 74, - 74, 21, 89, 42,
    - 60, - 84, 0, 84, 60, - 42, - 89, - 21, 74, 74, - 21, - 89, - 42, 60, 84]"
  "g_trCoreDCT8P32 ! 0 ! 13 = [72, - 34, - 89, - 13, 82, 56, - 53, - 84, 9, 88, 38, - 68, - 74, 30, 90, 17, -
    80, - 60, 50, 85, - 4, - 87, - 42, 66, 77, - 26, - 90, - 21, 78, 63, - 46, - 86]"
  "g_trCoreDCT8P32 ! 0 ! 14 = [68, - 46, - 84, 17, 90, 13, - 85, - 42, 72, 66, - 50, - 82, 21, 90, 9, - 86, -
    38, 74, 63, - 53, - 80, 26, 89, 4, - 87, - 34, 77, 60, - 56, - 78, 30, 88]"
  "g_trCoreDCT8P32 ! 0 ! 15 = [66, - 56, - 74, 46, 80, - 34, - 85, 21, 88, - 9, - 90, - 4, 89, 17, - 86, - 30,
    82, 42, - 77, - 53, 68, 63, - 60, - 72, 50, 78, - 38, - 84, 26, 87, - 13, - 90]"
  "g_trCoreDCT8P32 ! 0 ! 16 = [63, - 66, - 60, 68, 56, - 72, - 53, 74, 50, - 77, - 46, 78, 42, - 80, - 38, 82,
    34, - 84, - 30, 85, 26, - 86, - 21, 87, 17, - 88, - 13, 89, 9, - 90, - 4, 90]"
  "g_trCoreDCT8P32 ! 0 ! 17 = [60, - 74, - 42, 84, 21, - 89, 0, 89, - 21, - 84, 42, 74, - 60, - 60, 74, 42, -
    84, - 21, 89, 0, - 89, 21, 84, - 42, - 74, 60, 60, - 74, - 42, 84, 21, - 89]"
  "g_trCoreDCT8P32 ! 0 ! 18 = [56, - 80, - 21, 90, - 17, - 82, 53, 60, - 78, - 26, 90, - 13, - 84, 50, 63, - 77,
    - 30, 89, - 9, - 85, 46, 66, - 74, - 34, 88, - 4, - 86, 42, 68, - 72, - 38, 87]"
  "g_trCoreDCT8P32 ! 0 ! 19 = [53, - 85, 0, 85, - 53, - 53, 85, 0, - 85, 53, 53, - 85, 0, 85, - 53, - 53, 85, 0,
    - 85, 53, 53, - 85, 0, 85, - 53, - 53, 85, 0, - 85, 53, 53, - 85]"
  "g_trCoreDCT8P32 ! 0 ! 20 = [50, - 88, 21, 72, - 78, - 9, 85, - 60, - 38, 90, - 34, - 63, 84, - 4, - 80, 68,
    26, - 89, 46, 53, - 87, 17, 74, - 77, - 13, 86, - 56, - 42, 90, - 30, - 66, 82]"
  "g_trCoreDCT8P32 ! 0 ! 21 = [46, - 90, 42, 50, - 90, 38, 53, - 89, 34, 56, - 88, 30, 60, - 87, 26, 63, - 86,
    21, 66, - 85, 17, 68, - 84, 13, 72, - 82, 9, 74, - 80, 4, 77, - 78]"
  "g_trCoreDCT8P32 ! 0 ! 22 = [42, - 89, 60, 21, - 84, 74, 0, - 74, 84, - 21, - 60, 89, - 42, - 42, 89, - 60, -
    21, 84, - 74, 0, 74, - 84, 21, 60, - 89, 42, 42, - 89, 60, 21, - 84, 74]"
  "g_trCoreDCT8P32 ! 0 ! 23 = [38, - 86, 74, - 9, - 63, 90, - 53, - 21, 80, - 82, 26, 50, - 89, 66, 4, - 72, 87,
    - 42, - 34, 85, - 77, 13, 60, - 90, 56, 17, - 78, 84, - 30, - 46, 88, - 68]"
  "g_trCoreDCT8P32 ! 0 ! 24 = [34, - 82, 84, - 38, - 30, 80, - 85, 42, 26, - 78, 86, - 46, - 21, 77, - 87, 50,
    17, - 74, 88, - 53, - 13, 72, - 89, 56, 9, - 68, 90, - 60, - 4, 66, - 90, 63]"
  "g_trCoreDCT8P32 ! 0 ! 25 = [30, - 77, 89, - 63, 9, 50, - 85, 84, - 46, - 13, 66, - 90, 74, - 26, - 34, 78, -
    88, 60, - 4, - 53, 86, - 82, 42, 17, - 68, 90, - 72, 21, 38, - 80, 87, - 56]"
  "g_trCoreDCT8P32 ! 0 ! 26 = [26, - 68, 89, - 80, 46, 4, - 53, 84, - 87, 63, - 17, - 34, 74, - 90, 77, - 38, -
    13, 60, - 86, 85, - 56, 9, 42, - 78, 90, - 72, 30, 21, - 66, 88, - 82, 50]"
  "g_trCoreDCT8P32 ! 0 ! 27 = [21, - 60, 84, - 89, 74, - 42, 0, 42, - 74, 89, - 84, 60, - 21, - 21, 60, - 84,
    89, - 74, 42, 0, - 42, 74, - 89, 84, - 60, 21, 21, - 60, 84, - 89, 74, - 42]"
  "g_trCoreDCT8P32 ! 0 ! 28 = [17, - 50, 74, - 87, 88, - 77, 53, - 21, - 13, 46, - 72, 86, - 89, 78, - 56, 26,
    9, - 42, 68, - 85, 90, - 80, 60, - 30, - 4, 38, - 66, 84, - 90, 82, - 63, 34]"
  "g_trCoreDCT8P32 ! 0 ! 29 = [13, - 38, 60, - 77, 86, - 90, 85, - 74, 56, - 34, 9, 17, - 42, 63, - 78, 87, -
    90, 84, - 72, 53, - 30, 4, 21, - 46, 66, - 80, 88, - 89, 82, - 68, 50, - 26]"
  "g_trCoreDCT8P32 ! 0 ! 30 = [9, - 26, 42, - 56, 68, - 78, 85, - 89, 90, - 86, 80, - 72, 60, - 46, 30, - 13, -
    4, 21, - 38, 53, - 66, 77, - 84, 88, - 90, 87, - 82, 74, - 63, 50, - 34, 17]"
  "g_trCoreDCT8P32 ! 0 ! 31 = [4, - 13, 21, - 30, 38, - 46, 53, - 60, 66, - 72, 77, - 80, 84, - 86, 88, - 90,
    90, - 89, 87, - 85, 82, - 78, 74, - 68, 63, - 56, 50, - 42, 34, - 26, 17, - 9]"
  by (simp_all add: g_trCoreDCT8P32_def DEFINE_DCT8_P32_MATRIX_def)

lemma dct8_32_same: "g_trCoreDCT8P32 ! 1 = g_trCoreDCT8P32 ! 0"
  by (simp add: g_trCoreDCT8P32_def)

section \<open>The sums\<close>

lemma row_entry:
  "off = k * line \<Longrightarrow> a = (\<Sum>i<N. T ! k ! i * s i) \<Longrightarrow> (off, drop_bit shift (a + 2 ^ (shift - 1))) = (k * line, row_value N T shift s k)"
  by (simp add: row_value_def)

lemma column_entry:
  "a = (\<Sum>k<N. T ! k ! j * s (k * line)) \<Longrightarrow>
    (j, Clip3 lo hi (drop_bit shift (a + 2 ^ (shift - 1)))) = (j, column_value N T shift line lo hi s j)"
  by (simp add: column_value_def)

lemmas entry_cong = arg_cong2 [where f = Cons]

lemma forward_DST7_B4_line:
  "fastForwardDST7_B4_line (flat 4 (g_trCoreDST7P4 ! 0)) (2 ^ (shift - 1)) shift line s
    = map (\<lambda>k. (k * line, row_value 4 (g_trCoreDST7P4 ! 0) shift s k))
        [0, 1, 2, 3]"
  unfolding fastForwardDST7_B4_line_def Let_def list.map
  by (intro entry_cong row_entry refl; simp add: sums_unrolled flat_def dst7_4_rows; linarith?)

lemma inverse_DST7_B4_line:
  "fastInverseDST7_B4_line (flat 4 (g_trCoreDST7P4 ! 0)) (2 ^ (shift - 1)) shift line lo hi s
    = map (\<lambda>j. (j, column_value 4 (g_trCoreDST7P4 ! 0) shift line lo hi s j))
        [0, 1, 2, 3]"
  unfolding fastInverseDST7_B4_line_def Let_def list.map
  by (intro entry_cong column_entry refl; simp add: sums_unrolled flat_def dst7_4_rows; linarith?)

lemma forward_DST7_B16_line:
  "fastForwardDST7_B16_line (flat 16 (g_trCoreDST7P16 ! 0)) (2 ^ (shift - 1)) shift line s
    = map (\<lambda>k. (k * line, row_value 16 (g_trCoreDST7P16 ! 0) shift s k))
        [1, 4, 7, 10, 13, 5, 0, 2, 3, 6, 8, 9, 11, 12, 14, 15]"
  unfolding fastForwardDST7_B16_line_def Let_def list.map
  by (intro entry_cong row_entry refl; simp add: sums_unrolled flat_def dst7_16_rows; linarith?)

lemma inverse_DST7_B16_line:
  "fastInverseDST7_B16_line (flat 16 (g_trCoreDST7P16 ! 0)) (2 ^ (shift - 1)) shift line lo hi s
    = map (\<lambda>j. (j, column_value 16 (g_trCoreDST7P16 ! 0) shift line lo hi s j))
        [2, 5, 8, 11, 14, 10, 0, 1, 3, 4, 6, 7, 9, 12, 13, 15]"
  unfolding fastInverseDST7_B16_line_def Let_def list.map
  by (intro entry_cong column_entry refl; simp add: sums_unrolled flat_def dst7_16_rows; linarith?)

lemma forward_DST7_B32_line:
  "fastForwardDST7_B32_line (flat 32 (g_trCoreDST7P32 ! 0)) (2 ^ (shift - 1)) shift line s
    = map (\<lambda>k. (k * line, row_value 32 (g_trCoreDST7P32 ! 0) shift s k))
        [0, 1, 3, 4, 5, 8, 9, 10, 11, 13, 14, 15, 16, 18, 20, 21, 23, 24, 25, 26, 28, 29, 30, 31, 2, 7, 12, 17, 22, 27, 6, 19]"
  unfolding fastForwardDST7_B32_line_def Let_def list.map
  by (intro entry_cong row_entry refl; simp add: sums_unrolled flat_def dst7_32_rows; linarith?)

lemma inverse_DST7_B32_line:
  "fastInverseDST7_B32_line (flat 32 (g_trCoreDST7P32 ! 0)) (2 ^ (shift - 1)) shift line lo hi s
    = map (\<lambda>j. (j, column_value 32 (g_trCoreDST7P32 ! 0) shift line lo hi s j))
        [0, 1, 2, 3, 5, 6, 7, 8, 10, 11, 13, 15, 16, 17, 18, 20, 21, 22, 23, 26, 27, 28, 30, 31, 4, 9, 14, 19, 24, 29, 12, 25]"
  unfolding fastInverseDST7_B32_line_def Let_def list.map
  by (intro entry_cong column_entry refl; simp add: sums_unrolled flat_def dst7_32_rows; linarith?)

lemma forward_DCT8_B4_line:
  "fastForwardDCT8_B4_line (flat 4 (g_trCoreDCT8P4 ! 0)) (2 ^ (shift - 1)) shift line s
    = map (\<lambda>k. (k * line, row_value 4 (g_trCoreDCT8P4 ! 0) shift s k))
        [0, 1, 2, 3]"
  unfolding fastForwardDCT8_B4_line_def Let_def list.map
  by (intro entry_cong row_entry refl; simp add: sums_unrolled flat_def dct8_4_rows; linarith?)

lemma inverse_DCT8_B4_line:
  "fastInverseDCT8_B4_line (flat 4 (g_trCoreDCT8P4 ! 0)) (2 ^ (shift - 1)) shift line lo hi s
    = map (\<lambda>j. (j, column_value 4 (g_trCoreDCT8P4 ! 0) shift line lo hi s j))
        [0, 1, 2, 3]"
  unfolding fastInverseDCT8_B4_line_def Let_def list.map
  by (intro entry_cong column_entry refl; simp add: sums_unrolled flat_def dct8_4_rows; linarith?)

lemma forward_DCT8_B16_line:
  "fastForwardDCT8_B16_line (flat 16 (g_trCoreDST7P16 ! 0)) (2 ^ (shift - 1)) shift line s
    = map (\<lambda>k. (k * line, row_value 16 (g_trCoreDCT8P16 ! 0) shift s k))
        [1, 4, 7, 10, 13, 5, 0, 2, 3, 6, 8, 9, 11, 12, 14, 15]"
  unfolding fastForwardDCT8_B16_line_def Let_def list.map
  by (intro entry_cong row_entry refl; simp add: sums_unrolled flat_def dct8_16_rows dst7_16_rows; linarith?)

lemma inverse_DCT8_B16_line:
  "fastInverseDCT8_B16_line (flat 16 (g_trCoreDST7P16 ! 0)) (2 ^ (shift - 1)) shift line lo hi s
    = map (\<lambda>j. (j, column_value 16 (g_trCoreDCT8P16 ! 0) shift line lo hi s j))
        [1, 4, 7, 10, 13, 5, 0, 2, 3, 6, 8, 9, 11, 12, 14, 15]"
  unfolding fastInverseDCT8_B16_line_def Let_def list.map
  by (intro entry_cong column_entry refl; simp add: sums_unrolled flat_def dct8_16_rows dst7_16_rows; linarith?)

lemma forward_DCT8_B32_line:
  "fastForwardDCT8_B32_line (flat 32 (g_trCoreDST7P32 ! 0)) (2 ^ (shift - 1)) shift line s
    = map (\<lambda>k. (k * line, row_value 32 (g_trCoreDCT8P32 ! 0) shift s k))
        [0, 1, 3, 4, 5, 8, 9, 10, 11, 13, 14, 15, 16, 18, 20, 21, 23, 24, 25, 26, 28, 29, 30, 31, 2, 7, 12, 17, 22, 27, 6, 19]"
  unfolding fastForwardDCT8_B32_line_def Let_def list.map
  by (intro entry_cong row_entry refl; simp add: sums_unrolled flat_def dct8_32_rows dst7_32_rows; linarith?)

lemma inverse_DCT8_B32_line:
  "fastInverseDCT8_B32_line (flat 32 (g_trCoreDST7P32 ! 0)) (2 ^ (shift - 1)) shift line lo hi s
    = map (\<lambda>j. (j, column_value 32 (g_trCoreDCT8P32 ! 0) shift line lo hi s j))
        [0, 1, 3, 4, 5, 8, 9, 10, 11, 13, 14, 15, 16, 18, 20, 21, 23, 24, 25, 26, 28, 29, 30, 31, 2, 7, 12, 17, 22, 27, 6, 19]"
  unfolding fastInverseDCT8_B32_line_def Let_def list.map
  by (intro entry_cong column_entry refl; simp add: sums_unrolled flat_def dct8_32_rows dst7_32_rows; linarith?)

section \<open>The transforms\<close>

lemma sine_covers:
  "set [0, 1, 2, 3] = {..<4 :: nat}"
  "set [1, 4, 7, 10, 13, 5, 0, 2, 3, 6, 8, 9, 11, 12, 14, 15] = {..<16 :: nat}"
  "set [2, 5, 8, 11, 14, 10, 0, 1, 3, 4, 6, 7, 9, 12, 13, 15] = {..<16 :: nat}"
  "set [0, 1, 3, 4, 5, 8, 9, 10, 11, 13, 14, 15, 16, 18, 20, 21, 23, 24, 25, 26, 28, 29, 30, 31, 2, 7, 12, 17, 22, 27, 6, 19] = {..<32 :: nat}"
  "set [0, 1, 2, 3, 5, 6, 7, 8, 10, 11, 13, 15, 16, 17, 18, 20, 21, 22, 23, 26, 27, 28, 30, 31, 4, 9, 14, 19, 24, 29, 12, 25] = {..<32 :: nat}"
  by (rule set_upt_sort; simp add: upt_conv_Cons)+

lemma forward_DST7_B4_matrix:
  assumes "0 < shift" "skip \<le> line" "0 < line"
  shows "fastForwardDST7_B4 src dst shift line skip 0
    = fastForwardMM 4 src dst shift line skip 0 (flat 4 (g_trCoreDST7P4 ! TRANSFORM_FORWARD))"
  unfolding fastForwardDST7_B4_def Let_def TRANSFORM_FORWARD_def if_P [OF assms(1)]
  by (rule forward_is_matrix0 [OF forward_DST7_B4_line sine_covers(1) assms(2,3)])

lemma inverse_DST7_B4_matrix:
  assumes "0 < shift" "skip2 \<le> 4"
    and "\<And>k i. 4 - skip2 \<le> k \<Longrightarrow> k < 4 \<Longrightarrow> i < line - skip \<Longrightarrow> src (k * line + i) = 0"
  shows "fastInverseDST7_B4 src dst shift line skip skip2 lo hi
    = fastInverseMM 4 src dst shift line skip skip2 lo hi (flat 4 (g_trCoreDST7P4 ! TRANSFORM_INVERSE))"
  unfolding fastInverseDST7_B4_def Let_def TRANSFORM_INVERSE_def dst7_4_same if_P [OF assms(1)]
  by (rule inverse_is_matrix, rule inverse_DST7_B4_line, rule sine_covers(1)) (use assms(2,3) in simp_all)

lemma forward_DST7_B16_matrix:
  assumes "0 < shift" "skip \<le> line" "0 < line" "skip2 \<le> 16"
  shows "fastForwardDST7_B16 src dst shift line skip skip2
    = fastForwardMM 16 src dst shift line skip skip2 (flat 16 (g_trCoreDST7P16 ! TRANSFORM_FORWARD))"
  unfolding fastForwardDST7_B16_def Let_def TRANSFORM_FORWARD_def if_P [OF assms(1)]
  by (rule forward_is_matrix [OF forward_DST7_B16_line _ _ assms(2-4)]) (unfold sine_covers(2), auto)

lemma inverse_DST7_B16_matrix:
  assumes "0 < shift" "skip2 \<le> 16"
    and "\<And>k i. 16 - skip2 \<le> k \<Longrightarrow> k < 16 \<Longrightarrow> i < line - skip \<Longrightarrow> src (k * line + i) = 0"
  shows "fastInverseDST7_B16 src dst shift line skip skip2 lo hi
    = fastInverseMM 16 src dst shift line skip skip2 lo hi (flat 16 (g_trCoreDST7P16 ! TRANSFORM_INVERSE))"
  unfolding fastInverseDST7_B16_def Let_def TRANSFORM_INVERSE_def dst7_16_same if_P [OF assms(1)]
  by (rule inverse_is_matrix, rule inverse_DST7_B16_line, rule sine_covers(3)) (use assms(2,3) in simp_all)

lemma forward_DST7_B32_matrix:
  assumes "0 < shift" "skip \<le> line" "0 < line" "skip2 \<le> 32"
  shows "fastForwardDST7_B32 src dst shift line skip skip2
    = fastForwardMM 32 src dst shift line skip skip2 (flat 32 (g_trCoreDST7P32 ! TRANSFORM_FORWARD))"
  unfolding fastForwardDST7_B32_def Let_def TRANSFORM_FORWARD_def if_P [OF assms(1)]
  by (rule forward_is_matrix [OF forward_DST7_B32_line _ _ assms(2-4)]) (unfold sine_covers(4), auto)

lemma inverse_DST7_B32_matrix:
  assumes "0 < shift" "skip2 \<le> 32"
    and "\<And>k i. 32 - skip2 \<le> k \<Longrightarrow> k < 32 \<Longrightarrow> i < line - skip \<Longrightarrow> src (k * line + i) = 0"
  shows "fastInverseDST7_B32 src dst shift line skip skip2 lo hi
    = fastInverseMM 32 src dst shift line skip skip2 lo hi (flat 32 (g_trCoreDST7P32 ! TRANSFORM_INVERSE))"
  unfolding fastInverseDST7_B32_def Let_def TRANSFORM_INVERSE_def dst7_32_same if_P [OF assms(1)]
  by (rule inverse_is_matrix, rule inverse_DST7_B32_line, rule sine_covers(5)) (use assms(2,3) in simp_all)

lemma forward_DCT8_B4_matrix:
  assumes "0 < shift" "skip \<le> line" "0 < line"
  shows "fastForwardDCT8_B4 src dst shift line skip 0
    = fastForwardMM 4 src dst shift line skip 0 (flat 4 (g_trCoreDCT8P4 ! TRANSFORM_FORWARD))"
  unfolding fastForwardDCT8_B4_def Let_def TRANSFORM_FORWARD_def
  by (rule forward_is_matrix0 [OF forward_DCT8_B4_line sine_covers(1) assms(2,3)])

lemma inverse_DCT8_B4_matrix:
  assumes "0 < shift" "skip2 \<le> 4"
    and "\<And>k i. 4 - skip2 \<le> k \<Longrightarrow> k < 4 \<Longrightarrow> i < line - skip \<Longrightarrow> src (k * line + i) = 0"
  shows "fastInverseDCT8_B4 src dst shift line skip skip2 lo hi
    = fastInverseMM 4 src dst shift line skip skip2 lo hi (flat 4 (g_trCoreDCT8P4 ! TRANSFORM_INVERSE))"
  unfolding fastInverseDCT8_B4_def Let_def TRANSFORM_INVERSE_def dct8_4_same
  by (rule inverse_is_matrix, rule inverse_DCT8_B4_line, rule sine_covers(1)) (use assms(2,3) in simp_all)

lemma forward_DCT8_B16_matrix:
  assumes "0 < shift" "skip \<le> line" "0 < line" "skip2 \<le> 16"
  shows "fastForwardDCT8_B16 src dst shift line skip skip2
    = fastForwardMM 16 src dst shift line skip skip2 (flat 16 (g_trCoreDCT8P16 ! TRANSFORM_FORWARD))"
  unfolding fastForwardDCT8_B16_def Let_def TRANSFORM_FORWARD_def if_P [OF assms(1)]
  by (rule forward_is_matrix [OF forward_DCT8_B16_line _ _ assms(2-4)]) (unfold sine_covers(2), auto)

lemma inverse_DCT8_B16_matrix:
  assumes "0 < shift" "skip2 \<le> 16"
    and "\<And>k i. 16 - skip2 \<le> k \<Longrightarrow> k < 16 \<Longrightarrow> i < line - skip \<Longrightarrow> src (k * line + i) = 0"
  shows "fastInverseDCT8_B16 src dst shift line skip skip2 lo hi
    = fastInverseMM 16 src dst shift line skip skip2 lo hi (flat 16 (g_trCoreDCT8P16 ! TRANSFORM_INVERSE))"
  unfolding fastInverseDCT8_B16_def Let_def TRANSFORM_INVERSE_def dct8_16_same dst7_16_same if_P [OF assms(1)]
  by (rule inverse_is_matrix, rule inverse_DCT8_B16_line, rule sine_covers(2)) (use assms(2,3) in simp_all)

lemma forward_DCT8_B32_matrix:
  assumes "0 < shift" "skip \<le> line" "0 < line" "skip2 \<le> 32"
  shows "fastForwardDCT8_B32 src dst shift line skip skip2
    = fastForwardMM 32 src dst shift line skip skip2 (flat 32 (g_trCoreDCT8P32 ! TRANSFORM_FORWARD))"
  unfolding fastForwardDCT8_B32_def Let_def TRANSFORM_FORWARD_def if_P [OF assms(1)]
  by (rule forward_is_matrix [OF forward_DCT8_B32_line _ _ assms(2-4)]) (unfold sine_covers(4), auto)

lemma inverse_DCT8_B32_matrix:
  assumes "0 < shift" "skip2 \<le> 32"
    and "\<And>k i. 32 - skip2 \<le> k \<Longrightarrow> k < 32 \<Longrightarrow> i < line - skip \<Longrightarrow> src (k * line + i) = 0"
  shows "fastInverseDCT8_B32 src dst shift line skip skip2 lo hi
    = fastInverseMM 32 src dst shift line skip skip2 lo hi (flat 32 (g_trCoreDCT8P32 ! TRANSFORM_INVERSE))"
  unfolding fastInverseDCT8_B32_def Let_def TRANSFORM_INVERSE_def dct8_32_same dst7_32_same if_P [OF assms(1)]
  by (rule inverse_is_matrix, rule inverse_DCT8_B32_line, rule sine_covers(4)) (use assms(2,3) in simp_all)

end
