(* ===== verification/Lmcs.thy ===== *)
theory Lmcs
  imports HlsSyntax CommonAlgorithms "HOL-Library.Signed_Division"
begin

unbundle bit_operations_syntax

text \<open>
  Luma mapping with chroma scaling: the model that an adaptation parameter set carries
  (\<open>SliceReshapeInfo\<close> of \<open>source/Lib/CommonLib/Slice.h\<close>, \<open>codeLmcsAps\<close> of
  \<open>EncoderLib/VLCWriter.cpp\<close>, \<open>parseLmcsAps\<close> of \<open>DecoderLib/VLCReader.cpp\<close>) and the tables that
  \<open>Reshape\<close> (\<open>CommonLib/Reshape.h\<close>, \<open>Reshape.cpp\<close>) builds from it. Samples are integers; what is
  stored as \<open>Pel\<close> or \<open>uint16_t\<close> is reduced to 16 bits.
\<close>

section \<open>The model in the bit stream\<close>

definition PIC_CODE_CW_BINS :: nat where "PIC_CODE_CW_BINS = 16"

record SliceReshapeInfo =
  sliceReshaperEnableFlag :: bool
  sliceReshaperModelPresentFlag :: bool
  enableChromaAdj :: u32
  reshaperModelMinBinIdx :: u32
  reshaperModelMaxBinIdx :: u32
  reshaperModelBinCWDelta :: "int list"
  maxNbitsNeededDeltaCW :: u32
  chrResScalingOffset :: int

text \<open>A magnitude and, when it is not zero, a sign.\<close>

definition codeSigned :: "int \<Rightarrow> nat \<Rightarrow> writer" where
  "codeSigned delta nbits = seqW [
     xWriteCode (of_int (if delta < 0 then - delta else delta)) nbits,
     ifW (delta \<noteq> 0) [xWriteFlag (if delta < 0 then 1 else 0)]]"

text \<open>
  \<open>chromaPresentFlag\<close> is a member of the parameter set that contains the model. The bound of the loop is
  compared as an unsigned number.
\<close>

definition codeLmcsAps :: "bool \<Rightarrow> SliceReshapeInfo \<Rightarrow> writer" where
  "codeLmcsAps chromaPresentFlag param =
     (let deltaCRS = (if chromaPresentFlag then chrResScalingOffset param else 0)
      in seqW [
       xWriteUvlc (reshaperModelMinBinIdx param),
       xWriteUvlc (of_nat PIC_CODE_CW_BINS - 1 - reshaperModelMaxBinIdx param),
       checkW (sint (maxNbitsNeededDeltaCW param) \<le> 0) ''param.maxNbitsNeededDeltaCW > 0'',
       xWriteUvlc (maxNbitsNeededDeltaCW param - 1),
       loopW (\<lambda>i. [atW (reshaperModelBinCWDelta param) i (\<lambda>deltaCW.
           codeSigned deltaCW (unat (maxNbitsNeededDeltaCW param)))])
         [unat (reshaperModelMinBinIdx param)..<Suc (unat (reshaperModelMaxBinIdx param))],
       ifW chromaPresentFlag [
         xWriteCode (of_int (if deltaCRS < 0 then - deltaCRS else deltaCRS)) 3],
       ifW (deltaCRS \<noteq> 0) [xWriteFlag (if deltaCRS < 0 then 1 else 0)]])"

text \<open>The variable \<open>code\<close> still holds the magnitude zero when no sign is read.\<close>

definition parseSigned :: "nat \<Rightarrow> int parser" where
  "parseSigned nbits =
     bindP (xReadCode nbits) (\<lambda>code.
     let absCW = sint code in
     bindP (if absCW > 0 then xReadCode 1 else returnP code) (\<lambda>code.
     returnP ((1 - 2 * sint code) * absCW)))"

definition parseLmcsAps :: "bool \<Rightarrow> SliceReshapeInfo editor" where
  "parseLmcsAps chromaPresentFlag = seqR [
     setR (\<lambda>info. info\<lparr>reshaperModelBinCWDelta := replicate PIC_CODE_CW_BINS 0\<rparr>),
     uvlcR reshaperModelMinBinIdx_update,
     readR xReadUvlc (\<lambda>code. reshaperModelMaxBinIdx_update (\<lambda>_. of_nat PIC_CODE_CW_BINS - 1 - code)),
     readR xReadUvlc (\<lambda>code. maxNbitsNeededDeltaCW_update (\<lambda>_. code + 1)),
     checkR (\<lambda>info. sint (maxNbitsNeededDeltaCW info) \<le> 0) ''info.maxNbitsNeededDeltaCW > 0'',
     (\<lambda>info. loopR (\<lambda>i. [readAtR (parseSigned (unat (maxNbitsNeededDeltaCW info))) i
           reshaperModelBinCWDelta reshaperModelBinCWDelta_update])
         [unat (reshaperModelMinBinIdx info)..<Suc (unat (reshaperModelMaxBinIdx info))] info),
     readR (if chromaPresentFlag then parseSigned 3 else returnP 0)
       (\<lambda>offset. chrResScalingOffset_update (\<lambda>_. offset))]"

text \<open>What can be sent: at most 31 bits for a difference, and nothing outside the used bins.\<close>

definition lmcs_info_ok :: "bool \<Rightarrow> SliceReshapeInfo \<Rightarrow> bool" where
  "lmcs_info_ok chroma info \<longleftrightarrow> unat (reshaperModelMinBinIdx info) < 16 \<and> unat (reshaperModelMaxBinIdx info) < 16
     \<and> 0 < unat (maxNbitsNeededDeltaCW info) \<and> unat (maxNbitsNeededDeltaCW info) < 32
     \<and> length (reshaperModelBinCWDelta info) = 16
     \<and> (\<forall>i<16. if unat (reshaperModelMinBinIdx info) \<le> i \<and> i \<le> unat (reshaperModelMaxBinIdx info)
          then \<bar>reshaperModelBinCWDelta info ! i\<bar> < 2 ^ unat (maxNbitsNeededDeltaCW info)
          else reshaperModelBinCWDelta info ! i = 0)
     \<and> (if chroma then \<bar>chrResScalingOffset info\<bar> < 8 else chrResScalingOffset info = 0)"

lemma codes_signed:
  assumes "0 < n" and "n < 32" and "\<bar>d\<bar> < 2 ^ n"
  shows "codes (codeSigned d n) (parseSigned n) d"
proof -
  let ?a = "if d < 0 then - d else d"
  have "(2 :: int) ^ n \<le> 2 ^ 31" using assms(2) by (intro power_increasing) auto
  then have a: "0 \<le> ?a" "?a < 2 ^ 31" "?a < 2 ^ n" using assms(3) by auto
  have u: "uint (of_int ?a :: u32) = ?a" using a by (simp add: uint_word_of_int_eq take_bit_int_eq_self)
  have s: "sint (of_int ?a :: u32) = ?a"
    using a by (simp add: sint_sbintrunc' signed_take_bit_int_eq_self)
  have n: "unat (of_int ?a :: u32) < 2 ^ n" using u a(1,3) by (simp add: unat_eq_nat_uint nat_less_iff)
  have flag: "codes (xWriteFlag f) (xReadCode 1) f" if "unat f < 2" for f
    using codes_flag [OF that] by (simp add: codes_def parses_def xReadCode_def xReadFlag_def)
  let ?sgn = "if d < 0 then 1 else 0 :: u32"
  have "codes (seqW [ifW (d \<noteq> 0) [xWriteFlag ?sgn]])
      (let absCW = sint (of_int ?a :: u32)
       in bindP (if absCW > 0 then xReadCode 1 else returnP (of_int ?a)) (\<lambda>code. returnP ((1 - 2 * sint code) * absCW))) d"
  proof (cases "d = 0")
    case False
    then have "sint (of_int ?a :: u32) > 0" using s by auto
    moreover have "codes (xWriteFlag ?sgn) (bindP (xReadCode 1) (\<lambda>code. returnP ((1 - 2 * sint code) * ?a)))
        ((1 - 2 * sint ?sgn) * ?a)"
      by (rule codes_bind_return [OF flag]) simp
    moreover have "(1 - 2 * sint ?sgn) * ?a = d" by simp
    ultimately show ?thesis using False s by (simp add: seqW.simps ifW_def)
  qed (simp add: seqW.simps ifW_def codes_skip)
  moreover have "codes (xWriteCode (of_int ?a) n) (xReadCode n) (of_int ?a)"
    by (rule codes_code [OF assms(1) _ n]) (use assms(2) in simp)
  ultimately show ?thesis unfolding codeSigned_def parseSigned_def by (intro codes_bind)
qed

lemma fold_upto_range:
  assumes "length ds = 16" and "\<And>i. i < 16 \<Longrightarrow> i \<notin> set is \<Longrightarrow> ds ! i = 0" 
  shows "fold (\<lambda>i. updAt i (ds ! i)) is (replicate 16 0) = (ds :: int list)"
  using assms by (intro nth_equalityI) (auto simp: fold_updAt_all)

definition lmcs_sent :: "SliceReshapeInfo \<Rightarrow> SliceReshapeInfo \<Rightarrow> SliceReshapeInfo" where
  "lmcs_sent info old = info\<lparr>sliceReshaperEnableFlag := sliceReshaperEnableFlag old,
     sliceReshaperModelPresentFlag := sliceReshaperModelPresentFlag old, enableChromaAdj := enableChromaAdj old\<rparr>"

lemma codes_deltas:
  assumes "lmcs_info_ok chroma info" and "reshaperModelBinCWDelta r = replicate 16 0"
    and "reshaperModelMinBinIdx r = reshaperModelMinBinIdx info" "reshaperModelMaxBinIdx r = reshaperModelMaxBinIdx info"
    "maxNbitsNeededDeltaCW r = maxNbitsNeededDeltaCW info"
  shows "codes (loopW (\<lambda>i. [atW (reshaperModelBinCWDelta info) i (\<lambda>deltaCW.
           codeSigned deltaCW (unat (maxNbitsNeededDeltaCW info)))])
         [unat (reshaperModelMinBinIdx info)..<Suc (unat (reshaperModelMaxBinIdx info))])
     (loopR (\<lambda>i. [readAtR (parseSigned (unat (maxNbitsNeededDeltaCW r))) i
           reshaperModelBinCWDelta reshaperModelBinCWDelta_update])
         [unat (reshaperModelMinBinIdx r)..<Suc (unat (reshaperModelMaxBinIdx r))] r)
     (r\<lparr>reshaperModelBinCWDelta := reshaperModelBinCWDelta info\<rparr>)"
proof -
  let ?is = "[unat (reshaperModelMinBinIdx info)..<Suc (unat (reshaperModelMaxBinIdx info))]"
  note ok = assms(1) [unfolded lmcs_info_ok_def]
  have "codes (loopW (\<lambda>i. [atW (reshaperModelBinCWDelta info) i (\<lambda>deltaCW.
           codeSigned deltaCW (unat (maxNbitsNeededDeltaCW info)))]) ?is)
     (loopR (\<lambda>i. [readAtR (parseSigned (unat (maxNbitsNeededDeltaCW info))) i
           reshaperModelBinCWDelta reshaperModelBinCWDelta_update]) ?is r)
     (reshaperModelBinCWDelta_update (fold (\<lambda>i. updAt i (reshaperModelBinCWDelta info ! i)) ?is) r)"
  proof (rule hls_array)
    fix i assume "i \<in> set ?is"
    then have "unat (reshaperModelMinBinIdx info) \<le> i" "i \<le> unat (reshaperModelMaxBinIdx info)" "i < 16"
      using ok by auto
    then show "i < length (reshaperModelBinCWDelta info) \<and> codes
        (codeSigned (reshaperModelBinCWDelta info ! i) (unat (maxNbitsNeededDeltaCW info)))
        (parseSigned (unat (maxNbitsNeededDeltaCW info))) (reshaperModelBinCWDelta info ! i)"
      and "i < length (reshaperModelBinCWDelta r)"
      using ok assms(2) by (auto intro!: codes_signed split: if_splits)
  qed simp_all
  moreover have "fold (\<lambda>i. updAt i (reshaperModelBinCWDelta info ! i)) ?is (replicate 16 0) = reshaperModelBinCWDelta info"
    by (rule fold_upto_range) (use ok in \<open>auto split: if_splits\<close>)
  ultimately show ?thesis
    using assms(2-5) by (simp add: codes_value SliceReshapeInfo.equality)
qed

lemma codes_crs:
  assumes "lmcs_info_ok chroma info"
  shows "codes (seqW [ifW chroma [xWriteCode (of_int (if (if chroma then chrResScalingOffset info else 0) < 0
             then - (if chroma then chrResScalingOffset info else 0) else (if chroma then chrResScalingOffset info else 0))) 3],
         ifW ((if chroma then chrResScalingOffset info else 0) \<noteq> 0)
           [xWriteFlag (if (if chroma then chrResScalingOffset info else 0) < 0 then 1 else 0)]])
     (seqR [readR (if chroma then parseSigned 3 else returnP 0)
       (\<lambda>offset. chrResScalingOffset_update (\<lambda>_. offset))] r)
     (r\<lparr>chrResScalingOffset := chrResScalingOffset info\<rparr>)"
proof (cases chroma)
  case True
  let ?d = "chrResScalingOffset info"
  have "codes (codeSigned ?d 3) (parseSigned 3) ?d"
    by (rule codes_signed) (use assms True in \<open>simp_all add: lmcs_info_ok_def\<close>)
  then have "codes (seqW [codeSigned ?d 3]) (seqR [readR (parseSigned 3) (\<lambda>offset. chrResScalingOffset_update (\<lambda>_. offset))] r)
      (r\<lparr>chrResScalingOffset := ?d\<rparr>)"
    by (intro hls_one hls_read)
  moreover have "seqW [codeSigned ?d 3] = seqW [ifW True [xWriteCode (of_int (if ?d < 0 then - ?d else ?d)) 3],
      ifW (?d \<noteq> 0) [xWriteFlag (if ?d < 0 then 1 else 0)]]"
    unfolding codeSigned_def by (simp only: seqW.simps ifW_def if_True thenW_skip)
  ultimately show ?thesis using True by (simp only: if_True)
next
  case False
  then show ?thesis using assms
    by (simp add: lmcs_info_ok_def ifW_def seqW.simps seqR.simps readR_def codes_skip)
qed

lemma codes_lmcs:
  assumes "lmcs_info_ok chroma info"
  shows "codes (codeLmcsAps chroma info) (parseLmcsAps chroma old) (lmcs_sent info old)"
proof -
  note ok = assms [unfolded lmcs_info_ok_def]
  let ?n = "maxNbitsNeededDeltaCW info"
  have n: "0 < unat ?n" "unat ?n < 32" using ok by auto
  then have "uint ?n < 32" "0 < uint ?n" unfolding unat_eq_nat_uint by arith+
  then have nb: "\<not> sint ?n \<le> 0" by (simp add: sint_uint signed_take_bit_int_eq_self)
  have "1 \<le> ?n" using n by (simp add: word_le_nat_alt)
  then have nb1: "unat (?n - 1) < 4294967295" using n unat_sub [of 1 ?n] by simp
  have "reshaperModelMaxBinIdx info \<le> 15" using ok by (simp add: word_le_nat_alt)
  then have mx: "unat (of_nat PIC_CODE_CW_BINS - 1 - reshaperModelMaxBinIdx info) < 4294967295"
    using unat_sub [of "reshaperModelMaxBinIdx info" 15] by (simp add: PIC_CODE_CW_BINS_def)
  have mn: "unat (reshaperModelMinBinIdx info) < 4294967295" using ok by simp
  show ?thesis
    unfolding codeLmcsAps_def parseLmcsAps_def Let_def
    by ((rule codes_value [OF codes_crs] hls_codes hls_read codes_deltas codes_uvlc_lt assms mx mn nb1
        | (insert nb, simp add: PIC_CODE_CW_BINS_def; fail)
        | (rule SliceReshapeInfo.equality; simp add: lmcs_sent_def PIC_CODE_CW_BINS_def))+)
qed

text \<open>
  C22: The luma mapping model survives transmission. For every model that the syntax can carry, with or
  without the chroma offset, the reader obtains the model that was written; members that are not sent
  keep their values, and bins outside the used range get the difference zero.
\<close>

theorem lmcs_aps_roundtrip:
  assumes "lmcs_info_ok chroma info"
  shows "\<exists>s i. codeLmcsAps chroma info new_out = Inr s
    \<and> parseLmcsAps chroma old (new_in (out_fifo (writeAlignZero s))) = Inr (lmcs_sent info old, i)"
  by (rule codes_roundtrip [OF codes_lmcs [OF assms]])

definition sample_info :: SliceReshapeInfo where
  "sample_info = \<lparr>sliceReshaperEnableFlag = True, sliceReshaperModelPresentFlag = True, enableChromaAdj = 1,
     reshaperModelMinBinIdx = 1, reshaperModelMaxBinIdx = 2,
     reshaperModelBinCWDelta = [0, 5, -7, 0, 0, 0, 0, 0, 0, 0, 0, 0, 0, 0, 0, 0],
     maxNbitsNeededDeltaCW = 3, chrResScalingOffset = -2\<rparr>"

lemma all_less_16:
  "(\<forall>i<16. P i) \<longleftrightarrow> P 0 \<and> P 1 \<and> P 2 \<and> P 3 \<and> P 4 \<and> P 5 \<and> P 6 \<and> P 7
     \<and> P 8 \<and> P 9 \<and> P 10 \<and> P 11 \<and> P 12 \<and> P 13 \<and> P 14 \<and> P (15 :: nat)"
  by (auto simp: numeral_eq_Suc All_less_Suc)

theorem lmcs_aps_roundtrip_witness:
  "\<exists>s i. codeLmcsAps True sample_info new_out = Inr s
    \<and> parseLmcsAps True sample_info (new_in (out_fifo (writeAlignZero s))) = Inr (sample_info, i)"
proof -
  have "lmcs_info_ok True sample_info"
    unfolding lmcs_info_ok_def all_less_16 by (simp add: sample_info_def)
  from lmcs_aps_roundtrip [OF this, of sample_info] show ?thesis by (simp add: lmcs_sent_def)
qed

end
