(* ===== verification/Reshape.thy ===== *)
theory Reshape
  imports Lmcs CommonAlgorithms
begin

unbundle bit_operations_syntax

text \<open>
  The mapping tables of luma mapping with chroma scaling: class \<open>Reshape\<close> of
  \<open>source/Lib/CommonLib/Reshape.h\<close> and \<open>Reshape.cpp\<close>. \<open>constructReshaper\<close> turns the model of an
  adaptation parameter set into sixteen linear pieces and tabulates them. It is shown to be total on
  legal models, the forward table to be the rounded linear interpolation between the pivots, monotone
  and within the sample range; a model of zero differences gives the identity both ways.
\<close>

section \<open>The tables\<close>

definition FP_PREC :: nat where "FP_PREC = 11"
definition CSCALE_FP_PREC :: nat where "CSCALE_FP_PREC = 11"

text \<open>Conversions to \<open>Pel\<close> (16 bits, signed) and \<open>uint16_t\<close>.\<close>

definition to_pel :: "int \<Rightarrow> int" where
  "to_pel x = signed_take_bit 15 x"

definition to_uint16 :: "int \<Rightarrow> int" where
  "to_uint16 x = x mod 2 ^ 16"

record Reshape =
  m_sliceReshapeInfo :: SliceReshapeInfo
  m_invLUT :: "int list"
  m_fwdLUT :: "int list"
  m_chromaAdjHelpLUT :: "int list"
  m_binCW :: "int list"
  m_initCW :: int
  m_reshapePivot :: "int list"
  m_inputPivot :: "int list"
  m_fwdScaleCoef :: "int list"
  m_invScaleCoef :: "int list"
  m_lumaBD :: nat
  m_reshapeLUTSize :: int

definition resize_if_empty :: "int list \<Rightarrow> nat \<Rightarrow> int \<Rightarrow> int list" where
  "resize_if_empty v n x = (if v = [] then replicate n x else v)"

definition createDec :: "nat \<Rightarrow> Reshape \<Rightarrow> Reshape" where
  "createDec bitDepth r =
     (let n = 2 ^ bitDepth
      in r\<lparr>m_lumaBD := bitDepth, m_reshapeLUTSize := 2 ^ bitDepth,
           m_initCW := to_uint16 (2 ^ bitDepth div int PIC_CODE_CW_BINS),
           m_fwdLUT := resize_if_empty (m_fwdLUT r) n 0,
           m_invLUT := resize_if_empty (m_invLUT r) n 0,
           m_binCW := resize_if_empty (m_binCW r) PIC_CODE_CW_BINS 0,
           m_inputPivot := resize_if_empty (m_inputPivot r) (PIC_CODE_CW_BINS + 1) 0,
           m_fwdScaleCoef := resize_if_empty (m_fwdScaleCoef r) PIC_CODE_CW_BINS (2 ^ FP_PREC),
           m_invScaleCoef := resize_if_empty (m_invScaleCoef r) PIC_CODE_CW_BINS (2 ^ FP_PREC),
           m_reshapePivot := resize_if_empty (m_reshapePivot r) (PIC_CODE_CW_BINS + 1) 0,
           m_chromaAdjHelpLUT := resize_if_empty (m_chromaAdjHelpLUT r) PIC_CODE_CW_BINS (2 ^ CSCALE_FP_PREC)\<rparr>)"

text \<open>Assignments to a range of elements; an index past the end is an access out of bounds.\<close>

fun set_range :: "nat list \<Rightarrow> (nat \<Rightarrow> int) \<Rightarrow> int list \<Rightarrow> int list result" where
  "set_range [] f xs = Inr xs"
| "set_range (i # is) f xs =
     (if i < length xs then set_range is f (xs[i := f i]) else Inl UndefinedBehaviour)"

fun foldE :: "('i \<Rightarrow> 's \<Rightarrow> 's result) \<Rightarrow> 'i list \<Rightarrow> 's \<Rightarrow> 's result" where
  "foldE f [] s = Inr s"
| "foldE f (i # is) s = bindE (f i s) (foldE f is)"

definition set_binCW :: "Reshape \<Rightarrow> int list result" where
  "set_binCW r =
     (let info = m_sliceReshapeInfo r;
          first = unat (reshaperModelMinBinIdx info);
          last = unat (reshaperModelMaxBinIdx info)
      in bindE (set_range [0..<first] (\<lambda>_. 0) (m_binCW r)) (\<lambda>cw.
         bindE (set_range [last + 1..<PIC_CODE_CW_BINS] (\<lambda>_. 0) cw) (\<lambda>cw.
         set_range [first..<last + 1]
           (\<lambda>i. to_uint16 (reshaperModelBinCWDelta info ! i + m_initCW r)) cw)))"

text \<open>
  One turn of the loop over the pieces. The divisor of the chroma scale can be zero, and the rounding
  offset of the slope shifts by a negative amount when a piece has fewer than two samples.
\<close>

definition set_piece :: "nat \<Rightarrow> Reshape \<Rightarrow> Reshape result" where
  "set_piece i r =
     (let cw = m_binCW r ! i;
          pwlFwdBinLen = m_reshapeLUTSize r div int PIC_CODE_CW_BINS;
          logLen = nat (floorLog2 (nat pwlFwdBinLen));
          r = r\<lparr>m_reshapePivot := (m_reshapePivot r)[i + 1 := to_pel (m_reshapePivot r ! i + cw)],
                m_inputPivot := (m_inputPivot r)[i + 1 := to_pel (m_inputPivot r ! i + m_initCW r)],
                m_fwdScaleCoef := (m_fwdScaleCoef r)
                  [i := drop_bit logLen (cw * 2 ^ FP_PREC + push_bit (logLen - 1) 1)]\<rparr>
      in if pwlFwdBinLen < 2 then Inl UndefinedBehaviour
         else if cw = 0
         then Inr (r\<lparr>m_invScaleCoef := (m_invScaleCoef r)[i := 0],
                     m_chromaAdjHelpLUT := (m_chromaAdjHelpLUT r)[i := 2 ^ CSCALE_FP_PREC]\<rparr>)
         else if cw + chrResScalingOffset (m_sliceReshapeInfo r) = 0 then Inl UndefinedBehaviour
         else Inr (r\<lparr>m_invScaleCoef := (m_invScaleCoef r)[i := (m_initCW r * 2 ^ FP_PREC) sdiv cw],
                     m_chromaAdjHelpLUT := (m_chromaAdjHelpLUT r)
                       [i := (m_initCW r * 2 ^ FP_PREC) sdiv (cw + chrResScalingOffset (m_sliceReshapeInfo r))]\<rparr>))"

text \<open>The piece that contains a mapped sample.\<close>

function pwl_loop :: "Reshape \<Rightarrow> int \<Rightarrow> nat \<Rightarrow> nat" where
  "pwl_loop r lumaVal idxS =
     (if idxS \<le> unat (reshaperModelMaxBinIdx (m_sliceReshapeInfo r))
      then if lumaVal < m_reshapePivot r ! (idxS + 1) then idxS else pwl_loop r lumaVal (idxS + 1)
      else idxS)"
  by pat_completeness auto
termination
  by (relation "measure (\<lambda>(r, v, i). Suc (unat (reshaperModelMaxBinIdx (m_sliceReshapeInfo r))) - i)") auto

declare pwl_loop.simps [simp del]

definition getPWLIdxInv :: "Reshape \<Rightarrow> int \<Rightarrow> nat" where
  "getPWLIdxInv r lumaVal =
     min (pwl_loop r lumaVal (unat (reshaperModelMinBinIdx (m_sliceReshapeInfo r)))) (PIC_CODE_CW_BINS - 1)"

definition calculateChromaAdj :: "Reshape \<Rightarrow> int \<Rightarrow> int" where
  "calculateChromaAdj r avgLuma = m_chromaAdjHelpLUT r ! getPWLIdxInv r avgLuma"

definition fwd_entry :: "Reshape \<Rightarrow> nat \<Rightarrow> int" where
  "fwd_entry r lumaSample =
     (let idxY = nat (int lumaSample div m_initCW r);
          tempVal = m_reshapePivot r ! idxY
            + drop_bit FP_PREC (m_fwdScaleCoef r ! idxY * (int lumaSample - m_inputPivot r ! idxY) + 2 ^ (FP_PREC - 1))
      in Clip3 0 (to_pel (2 ^ m_lumaBD r - 1)) (to_pel tempVal))"

definition inv_entry :: "Reshape \<Rightarrow> nat \<Rightarrow> int" where
  "inv_entry r lumaSample =
     (let idxYInv = getPWLIdxInv r (int lumaSample);
          invSample = m_inputPivot r ! idxYInv
            + drop_bit FP_PREC (m_invScaleCoef r ! idxYInv * (int lumaSample - m_reshapePivot r ! idxYInv) + 2 ^ (FP_PREC - 1))
      in Clip3 0 (to_pel (2 ^ m_lumaBD r - 1)) (to_pel invSample))"

text \<open>Copying the slice's part of a model; the rest of the target keeps its values.\<close>

definition copySliceReshaperInfo :: "SliceReshapeInfo \<Rightarrow> SliceReshapeInfo \<Rightarrow> SliceReshapeInfo" where
  "copySliceReshaperInfo tInfo sInfo =
     (let t = tInfo\<lparr>sliceReshaperModelPresentFlag := sliceReshaperModelPresentFlag sInfo\<rparr>;
          t = (if sliceReshaperModelPresentFlag sInfo
               then t\<lparr>reshaperModelMaxBinIdx := reshaperModelMaxBinIdx sInfo,
                      reshaperModelMinBinIdx := reshaperModelMinBinIdx sInfo,
                      reshaperModelBinCWDelta := reshaperModelBinCWDelta sInfo,
                      maxNbitsNeededDeltaCW := maxNbitsNeededDeltaCW sInfo,
                      chrResScalingOffset := chrResScalingOffset sInfo\<rparr>
               else t);
          t = t\<lparr>sliceReshaperEnableFlag := sliceReshaperEnableFlag sInfo\<rparr>
      in if sliceReshaperEnableFlag sInfo then t\<lparr>enableChromaAdj := enableChromaAdj sInfo\<rparr>
         else t\<lparr>enableChromaAdj := 0\<rparr>)"

text \<open>The tables have \<open>m_reshapeLUTSize\<close> entries, so all of them are assigned.\<close>

definition constructReshaper :: "Reshape \<Rightarrow> Reshape result" where
  "constructReshaper r =
     bindE (set_binCW r) (\<lambda>cw.
     bindE (foldE set_piece [0..<PIC_CODE_CW_BINS] (r\<lparr>m_binCW := cw\<rparr>)) (\<lambda>r.
     Inr (r\<lparr>m_fwdLUT := map (fwd_entry r) [0..<nat (m_reshapeLUTSize r)],
           m_invLUT := map (inv_entry r) [0..<nat (m_reshapeLUTSize r)]\<rparr>)))"

section \<open>The pieces\<close>

text \<open>The code words of the model: the width of each mapped piece.\<close>

definition model_cw :: "Reshape \<Rightarrow> nat \<Rightarrow> int" where
  "model_cw r i =
     (let info = m_sliceReshapeInfo r
      in if unat (reshaperModelMinBinIdx info) \<le> i \<and> i \<le> unat (reshaperModelMaxBinIdx info)
         then reshaperModelBinCWDelta info ! i + m_initCW r else 0)"

text \<open>The mapped pivots: partial sums of the code words.\<close>

definition model_pivot :: "Reshape \<Rightarrow> nat \<Rightarrow> int" where
  "model_pivot r i = sum_list (map (model_cw r) [0..<i])"

text \<open>A state after \<open>createDec\<close> with a model that satisfies the constraints of its semantics.\<close>

definition lmcs_legal :: "Reshape \<Rightarrow> bool" where
  "lmcs_legal r \<longleftrightarrow>
     (let info = m_sliceReshapeInfo r; first = unat (reshaperModelMinBinIdx info);
          last = unat (reshaperModelMaxBinIdx info)
      in 5 \<le> m_lumaBD r \<and> m_lumaBD r \<le> 14 \<and> m_reshapeLUTSize r = 2 ^ m_lumaBD r \<and>
         m_initCW r = 2 ^ (m_lumaBD r - 4) \<and>
         length (m_binCW r) = 16 \<and> length (m_reshapePivot r) = 17 \<and> length (m_inputPivot r) = 17 \<and>
         length (m_fwdScaleCoef r) = 16 \<and> length (m_invScaleCoef r) = 16 \<and>
         length (m_chromaAdjHelpLUT r) = 16 \<and> m_reshapePivot r ! 0 = 0 \<and> m_inputPivot r ! 0 = 0 \<and>
         length (reshaperModelBinCWDelta info) = 16 \<and> first \<le> last \<and> last \<le> 15 \<and>
         list_all (\<lambda>i. first \<le> i \<and> i \<le> last \<longrightarrow>
                        0 < model_cw r i \<and> model_cw r i + chrResScalingOffset info \<noteq> 0) [0..<16] \<and>
         model_pivot r 16 \<le> 2 ^ m_lumaBD r)"

lemma set_range_ok:
  "\<lbrakk>\<forall>i\<in>set is. i < length xs; distinct is\<rbrakk> \<Longrightarrow>
   set_range is f xs = Inr (map (\<lambda>j. if j \<in> set is then f j else xs ! j) [0..<length xs])"
proof (induction "is" arbitrary: xs)
  case Nil then show ?case by (simp add: map_nth)
next
  case (Cons a as)
  then show ?case by (auto simp: nth_list_update)
qed

lemma model_pivot_Suc: "model_pivot r (Suc i) = model_pivot r i + model_cw r i"
  by (simp add: model_pivot_def)

lemma model_pivot_0: "model_pivot r 0 = 0"
  by (simp add: model_pivot_def)

lemma lmcs_legalD:
  assumes "lmcs_legal r"
  shows "5 \<le> m_lumaBD r" "m_lumaBD r \<le> 14" "m_reshapeLUTSize r = 2 ^ m_lumaBD r"
    "m_initCW r = 2 ^ (m_lumaBD r - 4)" "length (m_binCW r) = 16" "length (m_reshapePivot r) = 17"
    "length (m_inputPivot r) = 17" "length (m_fwdScaleCoef r) = 16" "length (m_invScaleCoef r) = 16"
    "length (m_chromaAdjHelpLUT r) = 16" "m_reshapePivot r ! 0 = 0" "m_inputPivot r ! 0 = 0"
    "unat (reshaperModelMaxBinIdx (m_sliceReshapeInfo r)) \<le> 15" "model_pivot r 16 \<le> 2 ^ m_lumaBD r"
  using assms by (simp_all add: lmcs_legal_def Let_def)

lemma model_cw_cases:
  assumes "lmcs_legal r"
  shows "model_cw r i = 0 \<or> 0 < model_cw r i \<and> model_cw r i + chrResScalingOffset (m_sliceReshapeInfo r) \<noteq> 0"
proof (cases "unat (reshaperModelMinBinIdx (m_sliceReshapeInfo r)) \<le> i
             \<and> i \<le> unat (reshaperModelMaxBinIdx (m_sliceReshapeInfo r))")
  case True
  then have "i < 16" using lmcs_legalD(13) [OF assms] by simp
  then show ?thesis using assms True by (simp add: lmcs_legal_def Let_def list_all_iff del: upt_conv_Cons)
next
  case False
  then show ?thesis by (auto simp: model_cw_def Let_def)
qed

lemma model_cw_nonneg: "lmcs_legal r \<Longrightarrow> 0 \<le> model_cw r i"
  using model_cw_cases [of r i] by auto

lemma model_pivot_mono: "lmcs_legal r \<Longrightarrow> i \<le> j \<Longrightarrow> model_pivot r i \<le> model_pivot r j"
proof (induction j)
  case (Suc j)
  then show ?case using model_cw_nonneg [of r j] by (auto simp: model_pivot_Suc le_Suc_eq)
qed simp

lemma model_pivot_le: "lmcs_legal r \<Longrightarrow> i \<le> 16 \<Longrightarrow> model_pivot r i \<le> 2 ^ m_lumaBD r"
  using model_pivot_mono [of r i 16] lmcs_legalD(14) [of r] by simp

lemma model_pivot_nonneg: "lmcs_legal r \<Longrightarrow> 0 \<le> model_pivot r i"
  using model_pivot_mono [of r 0 i] by (simp add: model_pivot_0)

lemma lmcs_bounds:
  assumes "lmcs_legal r" "i \<le> 16"
  shows "model_pivot r i \<le> 16384" and "i < 16 \<Longrightarrow> model_cw r i \<le> 16384"
proof -
  have "(2 :: int) ^ m_lumaBD r \<le> 2 ^ 14" using assms(1) by (intro power_increasing) (auto simp: lmcs_legal_def Let_def)
  then show "model_pivot r i \<le> 16384" using model_pivot_le [OF assms] by simp
  show "model_cw r i \<le> 16384" if "i < 16"
    using model_pivot_le [of r "Suc i"] model_pivot_nonneg [of r i] assms that
      \<open>(2 :: int) ^ m_lumaBD r \<le> 2 ^ 14\<close> by (simp add: model_pivot_Suc)
qed

lemma set_binCW_ok:
  assumes "lmcs_legal r"
  shows "set_binCW r = Inr (map (model_cw r) [0..<16])"
proof -
  have u: "to_uint16 (reshaperModelBinCWDelta (m_sliceReshapeInfo r) ! i + m_initCW r) = model_cw r i"
    if "unat (reshaperModelMinBinIdx (m_sliceReshapeInfo r)) \<le> i"
       "i \<le> unat (reshaperModelMaxBinIdx (m_sliceReshapeInfo r))" "i < 16" for i
    using that model_cw_nonneg [OF assms, of i] lmcs_bounds(2) [OF assms, of i]
    by (simp add: to_uint16_def model_cw_def Let_def)
  show ?thesis
    using assms u
    by (simp add: set_binCW_def Let_def PIC_CODE_CW_BINS_def set_range_ok lmcs_legal_def)
       (auto simp: model_cw_def Let_def)
qed

lemma foldE_append: "foldE f (xs @ ys) s = bindE (foldE f xs s) (foldE f ys)"
proof (induction xs arbitrary: s)
  case (Cons x xs)
  then show ?case by (cases "f x s") auto
qed simp

text \<open>What the loop over the pieces has established after \<open>k\<close> turns.\<close>

definition pieces_done :: "nat \<Rightarrow> Reshape \<Rightarrow> Reshape \<Rightarrow> bool" where
  "pieces_done k r r' \<longleftrightarrow>
     m_sliceReshapeInfo r' = m_sliceReshapeInfo r \<and> m_lumaBD r' = m_lumaBD r \<and>
     m_reshapeLUTSize r' = m_reshapeLUTSize r \<and> m_initCW r' = m_initCW r \<and> m_binCW r' = m_binCW r \<and>
     length (m_reshapePivot r') = 17 \<and> length (m_inputPivot r') = 17 \<and>
     length (m_fwdScaleCoef r') = 16 \<and> length (m_invScaleCoef r') = 16 \<and>
     length (m_chromaAdjHelpLUT r') = 16 \<and>
     (\<forall>j\<le>k. m_reshapePivot r' ! j = model_pivot r j \<and> m_inputPivot r' ! j = int j * m_initCW r) \<and>
     (\<forall>j<k. m_fwdScaleCoef r' ! j = model_cw r j * 2 ^ (15 - m_lumaBD r) \<and>
            m_invScaleCoef r' ! j = (if model_cw r j = 0 then 0 else m_initCW r * 2 ^ 11 div model_cw r j) \<and>
            m_chromaAdjHelpLUT r' ! j =
              (if model_cw r j = 0 then 2 ^ 11
               else (m_initCW r * 2 ^ 11) sdiv (model_cw r j + chrResScalingOffset (m_sliceReshapeInfo r))))"

lemma to_pel_small: "0 \<le> x \<Longrightarrow> x \<le> 16384 \<Longrightarrow> to_pel x = x"
  unfolding to_pel_def by (rule signed_take_bit_int_eq_self) auto

lemma lmcs_sizes:
  assumes "lmcs_legal r"
  shows "m_reshapeLUTSize r div 16 = 2 ^ (m_lumaBD r - 4)"
    and "floorLog2 (2 ^ (m_lumaBD r - 4)) = int (m_lumaBD r - 4)"
    and "(2 :: int) ^ m_lumaBD r = 16 * 2 ^ (m_lumaBD r - 4)"
proof -
  have e: "m_lumaBD r = 4 + (m_lumaBD r - 4)" using lmcs_legalD(1) [OF assms] by simp
  show p: "(2 :: int) ^ m_lumaBD r = 16 * 2 ^ (m_lumaBD r - 4)" by (subst e, subst power_add) simp
  show "m_reshapeLUTSize r div 16 = 2 ^ (m_lumaBD r - 4)" using lmcs_legalD(3) [OF assms] p by simp
  have "(2 :: nat) ^ (m_lumaBD r - 4) < 2 ^ 32" using lmcs_legalD(2) [OF assms] by (intro power_strict_increasing) auto
  then obtain q where "floorLog2 (2 ^ (m_lumaBD r - 4)) = int q"
    "(2 :: nat) ^ q \<le> 2 ^ (m_lumaBD r - 4)" "(2 :: nat) ^ (m_lumaBD r - 4) < 2 ^ (q + 1)"
    using floorLog2_ok [of "2 ^ (m_lumaBD r - 4)"] by auto
  then show "floorLog2 (2 ^ (m_lumaBD r - 4)) = int (m_lumaBD r - 4)"
    by (metis Suc_eq_plus1 le_antisym less_Suc_eq_le one_less_numeral_iff power_increasing_iff
        power_strict_increasing_iff semiring_norm(76))
qed

lemma fwd_slope: "1 \<le> s \<Longrightarrow> s \<le> 11 \<Longrightarrow> drop_bit s (c * 2 ^ 11 + push_bit (s - 1) (1 :: int)) = c * 2 ^ (11 - s)"
proof -
  assume s: "1 \<le> s" "s \<le> 11"
  have e: "c * 2 ^ 11 + push_bit (s - 1) (1 :: int) = 2 ^ (s - 1) + c * 2 ^ (11 - s) * 2 ^ s"
    using s by (simp add: push_bit_eq_mult flip: power_add)
  show ?thesis
    unfolding e drop_bit_eq_div using s by (subst div_mult_self1) (simp_all add: div_eq_0_iff power_strict_increasing)
qed

lemma set_piece_ok:
  assumes r: "lmcs_legal r" "m_binCW r = map (model_cw r) [0..<16]" and k: "k < 16" "pieces_done k r q"
  shows "\<exists>q'. set_piece k q = Inr q' \<and> pieces_done (Suc k) r q'"
proof -
  let ?s = "m_lumaBD r - 4"
  have s: "1 \<le> ?s" "?s \<le> 11" "11 - ?s = 15 - m_lumaBD r" using lmcs_legalD(1,2) [OF r(1)] by auto
  have p2: "(2 :: int) \<le> 2 ^ ?s" using power_increasing [OF s(1), of "2 :: int"] by simp
  have c: "m_binCW q ! k = model_cw r k" using k r(2) by (simp add: pieces_done_def)
  have piv: "to_pel (m_reshapePivot q ! k + model_cw r k) = model_pivot r (Suc k)"
    using k model_pivot_nonneg [OF r(1)] lmcs_bounds(1) [OF r(1), of "Suc k"]
    by (simp add: pieces_done_def to_pel_small flip: model_pivot_Suc)
  have "int (Suc k) * 2 ^ ?s \<le> 16 * 2 ^ ?s" using k by (intro mult_right_mono) auto
  also have "\<dots> = 2 ^ m_lumaBD r" using lmcs_sizes(3) [OF r(1)] by simp
  also have "\<dots> \<le> 2 ^ 14" using lmcs_legalD(2) [OF r(1)] by (intro power_increasing) auto
  finally have "int (Suc k) * 2 ^ ?s \<le> 16384" by simp
  then have inp: "to_pel (m_inputPivot q ! k + m_initCW r) = int (Suc k) * m_initCW r"
    using k lmcs_legalD(4) [OF r(1)] by (simp add: pieces_done_def to_pel_small algebra_simps)
  have len: "m_reshapeLUTSize q div int 16 = 2 ^ ?s" "m_initCW q = m_initCW r"
    using k lmcs_sizes(1) [OF r(1)] lmcs_legalD(4) [OF r(1)] by (simp_all add: pieces_done_def)
  have fl: "nat (floorLog2 (nat (2 ^ ?s))) = ?s" using lmcs_sizes(2) [OF r(1)] by (simp add: nat_power_eq)
  note cases = model_cw_cases [OF r(1), of k]
  have info: "m_sliceReshapeInfo q = m_sliceReshapeInfo r" using k by (simp add: pieces_done_def)
  have upd: "pieces_done (Suc k) r (q\<lparr>m_reshapePivot := (m_reshapePivot q)[k + 1 := model_pivot r (Suc k)],
      m_inputPivot := (m_inputPivot q)[k + 1 := int (Suc k) * m_initCW r],
      m_fwdScaleCoef := (m_fwdScaleCoef q)[k := model_cw r k * 2 ^ (15 - m_lumaBD r)],
      m_invScaleCoef := (m_invScaleCoef q)[k := if model_cw r k = 0 then 0 else m_initCW r * 2 ^ 11 div model_cw r k],
      m_chromaAdjHelpLUT := (m_chromaAdjHelpLUT q)[k := if model_cw r k = 0 then 2 ^ 11
         else (m_initCW r * 2 ^ 11) sdiv (model_cw r k + chrResScalingOffset (m_sliceReshapeInfo r))]\<rparr>)"
    using k by (auto simp: pieces_done_def nth_list_update less_Suc_eq le_Suc_eq)
  have sd: "(m_initCW r * 2 ^ 11) sdiv model_cw r k = m_initCW r * 2 ^ 11 div model_cw r k" if "0 < model_cw r k"
    using that lmcs_legalD(4) [OF r(1)] by (simp add: signed_divide_int_def sgn_if)
  have slope: "drop_bit ?s (model_cw r k * 2 ^ 11 + push_bit (?s - 1) 1) = model_cw r k * 2 ^ (15 - m_lumaBD r)"
    using fwd_slope [OF s(1,2)] s(3) by simp
  have ge: "\<not> (2 :: int) ^ ?s < 2" using p2 by simp
  show ?thesis
    unfolding set_piece_def Let_def PIC_CODE_CW_BINS_def FP_PREC_def CSCALE_FP_PREC_def c info len fl slope
    unfolding Reshape.simps info len piv inp slope if_not_P [OF ge]
    using upd cases sd by (cases "model_cw r k = 0") (simp_all add: info len(2) del: power_numeral)
qed

lemma pieces_ok:
  assumes "lmcs_legal r" "m_binCW r = map (model_cw r) [0..<16]"
  shows "k \<le> 16 \<Longrightarrow> \<exists>q. foldE set_piece [0..<k] r = Inr q \<and> pieces_done k r q"
proof (induction k)
  case 0
  then show ?case using lmcs_legalD [OF assms(1)] by (simp add: pieces_done_def model_pivot_0)
next
  case (Suc k)
  then obtain q where "foldE set_piece [0..<k] r = Inr q" "pieces_done k r q" by auto
  then show ?case using set_piece_ok [OF assms, of k q] Suc.prems by (auto simp: foldE_append)
qed

section \<open>The forward table\<close>

text \<open>The rounded linear interpolation between the pivots of the piece a sample lies in.\<close>

definition forward :: "Reshape \<Rightarrow> nat \<Rightarrow> int" where
  "forward r y =
     (let len = 2 ^ (m_lumaBD r - 4); i = y div len; d = y mod len
      in model_pivot r i + (model_cw r i * int d * 2 ^ (15 - m_lumaBD r) + 2 ^ 10) div 2 ^ 11)"

lemma piece_index:
  fixes y :: nat
  assumes "lmcs_legal r" "y < 2 ^ m_lumaBD r"
  shows "y div 2 ^ (m_lumaBD r - 4) < 16"
proof -
  have "m_lumaBD r = 4 + (m_lumaBD r - 4)" using lmcs_legalD(1) [OF assms(1)] by simp
  then have "(2 :: nat) ^ m_lumaBD r = 2 ^ 4 * 2 ^ (m_lumaBD r - 4)" by (metis power_add)
  then show ?thesis using assms(2) by (intro less_mult_imp_div_less) simp
qed

lemma rounded_part:
  fixes c :: int
  assumes "0 \<le> c" "int d < 2 ^ s" "s + t = 11" "1 \<le> s"
  shows "0 \<le> (c * int d * 2 ^ t + 2 ^ 10) div 2 ^ 11 \<and> (c * int d * 2 ^ t + 2 ^ 10) div 2 ^ 11 \<le> c"
proof
  show "0 \<le> (c * int d * 2 ^ t + 2 ^ 10) div 2 ^ 11" using assms(1) by (intro pos_imp_zdiv_nonneg_iff [THEN iffD2] add_nonneg_nonneg) auto
  have e: "(2 :: int) ^ 11 = 2 ^ s * 2 ^ t" using assms(3) by (simp flip: power_add)
  have "c * int d * 2 ^ t \<le> c * 2 ^ s * 2 ^ t" using assms(1,2) by (intro mult_right_mono mult_left_mono) auto
  then have "c * int d * 2 ^ t \<le> c * 2 ^ 11" unfolding e by (simp add: mult.assoc)
  then have "c * int d * 2 ^ t + 2 ^ 10 < (c + 1) * 2 ^ 11" by simp
  then show "(c * int d * 2 ^ t + 2 ^ 10) div 2 ^ 11 \<le> c" by simp
qed

lemma forward_bounds:
  assumes "lmcs_legal r" "y < 2 ^ m_lumaBD r"
  shows "model_pivot r (y div 2 ^ (m_lumaBD r - 4)) \<le> forward r y
    \<and> forward r y \<le> model_pivot r (Suc (y div 2 ^ (m_lumaBD r - 4)))"
  using rounded_part [of "model_cw r (y div 2 ^ (m_lumaBD r - 4))" "y mod 2 ^ (m_lumaBD r - 4)" "m_lumaBD r - 4" "15 - m_lumaBD r"]
    model_cw_nonneg [OF assms(1)] lmcs_legalD(1,2) [OF assms(1)]
  by (simp add: forward_def Let_def model_pivot_Suc del: power_numeral)

lemma forward_mono:
  assumes r: "lmcs_legal r" and y: "y \<le> y'" "y' < 2 ^ m_lumaBD r"
  shows "forward r y \<le> forward r y'"
proof (cases "y div 2 ^ (m_lumaBD r - 4) = y' div 2 ^ (m_lumaBD r - 4)")
  case True
  then have "y mod 2 ^ (m_lumaBD r - 4) \<le> y' mod 2 ^ (m_lumaBD r - 4)"
    using y(1) by (metis add_le_cancel_left div_mult_mod_eq)
  then show ?thesis using True model_cw_nonneg [OF r]
    by (simp add: forward_def Let_def zdiv_mono1 mult_left_mono mult_right_mono)
next
  case False
  then have "Suc (y div 2 ^ (m_lumaBD r - 4)) \<le> y' div 2 ^ (m_lumaBD r - 4)"
    using div_le_mono [OF y(1), of "2 ^ (m_lumaBD r - 4)"] by simp
  then show ?thesis
    using forward_bounds [OF r, of y] forward_bounds [OF r, of y'] model_pivot_mono [OF r] y by fastforce
qed

lemma fwd_entry_ok:
  assumes r: "lmcs_legal r" and q: "pieces_done 16 r q" and y: "y < 2 ^ m_lumaBD r"
  shows "fwd_entry q y = min (forward r y) (2 ^ m_lumaBD r - 1)"
proof -
  let ?i = "y div 2 ^ (m_lumaBD r - 4)"
  have i: "?i < 16" by (rule piece_index [OF r y])
  have idx: "nat (int y div m_initCW q) = ?i"
    using q lmcs_legalD(4) [OF r] by (simp add: pieces_done_def nat_div_distrib nat_power_eq)
  have d: "int y - int ?i * m_initCW r = int (y mod 2 ^ (m_lumaBD r - 4))"
    using lmcs_legalD(4) [OF r] by (simp add: minus_div_mult_eq_mod of_nat_mod of_nat_div)
  have f: "0 \<le> forward r y" "forward r y \<le> 16384"
    using forward_bounds [OF r y] model_pivot_nonneg [OF r, of ?i] lmcs_bounds(1) [OF r, of "Suc ?i"] i by auto
  have m: "to_pel (2 ^ m_lumaBD q - 1) = 2 ^ m_lumaBD r - 1"
    using q power_increasing [OF lmcs_legalD(2) [OF r], of "2 :: int"] by (simp add: pieces_done_def to_pel_small)
  have vals: "m_reshapePivot q ! ?i = model_pivot r ?i" "m_inputPivot q ! ?i = int ?i * m_initCW r"
    "m_fwdScaleCoef q ! ?i = model_cw r ?i * 2 ^ (15 - m_lumaBD r)"
    using q i by (simp_all add: pieces_done_def)
  have "m_reshapePivot q ! ?i + drop_bit FP_PREC (m_fwdScaleCoef q ! ?i * (int y - m_inputPivot q ! ?i) + 2 ^ (FP_PREC - 1))
      = forward r y"
    unfolding vals d forward_def Let_def FP_PREC_def drop_bit_eq_div by (simp add: ac_simps)
  then show ?thesis
    unfolding fwd_entry_def Let_def idx m Clip3_def using f by (simp add: to_pel_small)
qed

text \<open>The tables of a legal model are built, from pieces that are as wide as the model says.\<close>

lemma lmcs_legal_binCW: "lmcs_legal r \<Longrightarrow> lmcs_legal (r\<lparr>m_binCW := map (model_cw r) [0..<16]\<rparr>)"
  and model_cw_binCW [simp]: "model_cw (r\<lparr>m_binCW := cw\<rparr>) = model_cw r"
  and model_pivot_binCW [simp]: "model_pivot (r\<lparr>m_binCW := cw\<rparr>) = model_pivot r"
  and forward_binCW [simp]: "forward (r\<lparr>m_binCW := cw\<rparr>) = forward r"
proof -
  show c: "model_cw (r\<lparr>m_binCW := cw\<rparr>) = model_cw r" for cw by (rule ext) (simp add: model_cw_def Let_def)
  show p: "model_pivot (r\<lparr>m_binCW := cw\<rparr>) = model_pivot r" for cw by (rule ext) (simp add: model_pivot_def c)
  show "forward (r\<lparr>m_binCW := cw\<rparr>) = forward r" by (rule ext) (simp add: forward_def Let_def c p)
  show "lmcs_legal r \<Longrightarrow> lmcs_legal (r\<lparr>m_binCW := map (model_cw r) [0..<16]\<rparr>)"
    by (simp add: lmcs_legal_def Let_def c p)
qed

lemma constructReshaper_ok:
  assumes r: "lmcs_legal r"
  obtains q where "pieces_done 16 (r\<lparr>m_binCW := map (model_cw r) [0..<16]\<rparr>) q"
    "constructReshaper r = Inr (q\<lparr>m_fwdLUT := map (\<lambda>y. min (forward r y) (2 ^ m_lumaBD r - 1)) [0..<2 ^ m_lumaBD r],
       m_invLUT := map (inv_entry q) [0..<2 ^ m_lumaBD r]\<rparr>)"
proof -
  let ?r = "r\<lparr>m_binCW := map (model_cw r) [0..<16]\<rparr>"
  obtain q where q: "foldE set_piece [0..<16] ?r = Inr q" "pieces_done 16 ?r q"
    using pieces_ok [of ?r 16] lmcs_legal_binCW [OF r] by auto
  have size: "m_reshapeLUTSize q = 2 ^ m_lumaBD r"
    using q(2) lmcs_legalD(3) [OF r] by (simp add: pieces_done_def)
  have fe: "fwd_entry q y = min (forward r y) (2 ^ m_lumaBD r - 1)" if "y < 2 ^ m_lumaBD r" for y
    using fwd_entry_ok [OF lmcs_legal_binCW [OF r] q(2), of y] that by simp
  show ?thesis
    by (rule that [OF q(2)])
       (simp add: constructReshaper_def set_binCW_ok [OF r] PIC_CODE_CW_BINS_def q(1) size nat_power_eq fe del: upt_conv_Cons)
qed

section \<open>The inverse table\<close>

definition inverse_at :: "Reshape \<Rightarrow> nat \<Rightarrow> int \<Rightarrow> int" where
  "inverse_at r i v =
     int i * 2 ^ (m_lumaBD r - 4)
     + (2 ^ (m_lumaBD r - 4) * 2 ^ 11 div model_cw r i * (v - model_pivot r i) + 2 ^ 10) div 2 ^ 11"

lemma model_pivot_first:
  "i \<le> unat (reshaperModelMinBinIdx (m_sliceReshapeInfo r)) \<Longrightarrow> model_pivot r i = 0"
  by (induction i) (auto simp: model_pivot_Suc model_pivot_0 model_cw_def Let_def)

lemma model_pivot_last:
  "unat (reshaperModelMaxBinIdx (m_sliceReshapeInfo r)) < i \<Longrightarrow>
   model_pivot r i = model_pivot r (Suc (unat (reshaperModelMaxBinIdx (m_sliceReshapeInfo r))))"
proof (induction i)
  case (Suc i)
  then show ?case by (cases "i = unat (reshaperModelMaxBinIdx (m_sliceReshapeInfo r))")
      (auto simp: model_pivot_Suc model_cw_def Let_def)
qed simp

lemma pwl_loop_finds:
  assumes "pieces_done 16 r q" "unat (reshaperModelMaxBinIdx (m_sliceReshapeInfo r)) \<le> 15"
    "model_pivot r i \<le> v" "v < model_pivot r (Suc (unat (reshaperModelMaxBinIdx (m_sliceReshapeInfo r))))"
    "i \<le> unat (reshaperModelMaxBinIdx (m_sliceReshapeInfo r))"
  shows "\<exists>j\<le>15. pwl_loop q v i = j \<and> model_pivot r j \<le> v \<and> v < model_pivot r (Suc j)"
  using assms
proof (induction "unat (reshaperModelMaxBinIdx (m_sliceReshapeInfo r)) - i" arbitrary: i)
  case 0
  then show ?case by (auto simp: pwl_loop.simps [of q v i] pieces_done_def)
next
  case (Suc n)
  have "m_reshapePivot q ! (i + 1) = model_pivot r (i + 1)" "m_sliceReshapeInfo q = m_sliceReshapeInfo r"
    using Suc.prems by (auto simp: pieces_done_def)
  then show ?case
    using Suc.hyps(1) [of "i + 1"] Suc.hyps(2) Suc.prems
    by (cases "v < model_pivot r (i + 1)") (auto simp: pwl_loop.simps [of q v i])
qed

lemma getPWLIdxInv_finds:
  assumes r: "lmcs_legal r" and q: "pieces_done 16 r q" and v: "0 \<le> v" "v < model_pivot r 16"
  shows "\<exists>j<16. getPWLIdxInv q v = j \<and> model_pivot r j \<le> v \<and> v < model_pivot r (Suc j)"
proof -
  let ?a = "unat (reshaperModelMinBinIdx (m_sliceReshapeInfo r))" and ?b = "unat (reshaperModelMaxBinIdx (m_sliceReshapeInfo r))"
  have "?a \<le> ?b" "?b \<le> 15" using r by (auto simp: lmcs_legal_def Let_def)
  then obtain j where "j \<le> 15" "pwl_loop q v ?a = j" "model_pivot r j \<le> v" "v < model_pivot r (Suc j)"
    using pwl_loop_finds [OF q, of ?a v] v model_pivot_first [of ?a r] model_pivot_last [of r 16] by auto
  then show ?thesis using q by (intro exI [of _ j]) (auto simp: getPWLIdxInv_def PIC_CODE_CW_BINS_def pieces_done_def)
qed

lemma piece_unique:
  assumes "lmcs_legal r" "model_pivot r i \<le> v" "v < model_pivot r (Suc i)" "model_pivot r j \<le> v" "v < model_pivot r (Suc j)"
  shows "i = j"
  using assms model_pivot_mono [OF assms(1), of "Suc i" j] model_pivot_mono [OF assms(1), of "Suc j" i]
  by (metis leD less_eq_Suc_le linorder_neqE_nat order_le_less_trans)

lemma sum_range:
  "\<lbrakk>a \<le> 15 * l; 16 * l \<le> 2 ^ 14; 0 \<le> a; b \<le> l; 0 \<le> b\<rbrakk> \<Longrightarrow> 0 \<le> a + b \<and> a + b \<le> (16384 :: int)"
  by auto

lemma inverse_at_bounds:
  assumes "lmcs_legal r" "model_pivot r i \<le> v" "v < model_pivot r (Suc i)" "i < 16"
  shows "0 \<le> inverse_at r i v \<and> inverse_at r i v \<le> 16384"
proof -
  let ?c = "model_cw r i" and ?f = "v - model_pivot r i" and ?L = "(2 :: int) ^ (m_lumaBD r - 4)"
  have c: "0 < ?c" "0 \<le> ?f" "?f \<le> ?c - 1" using assms by (auto simp: model_pivot_Suc)
  have S: "0 \<le> ?L * 2 ^ 11 div ?c" using c by (intro pos_imp_zdiv_nonneg_iff [THEN iffD2]) auto
  have "?L * 2 ^ 11 div ?c * ?f \<le> ?L * 2 ^ 11 div ?c * ?c" using c S by (intro mult_left_mono) auto
  also have "\<dots> \<le> ?L * 2 ^ 11" using c(1) by (metis mult.commute mult_div_mod_eq order_refl add_increasing2 pos_mod_sign
        le_add_same_cancel1)
  finally have "?L * 2 ^ 11 div ?c * ?f + 2 ^ 10 < (?L + 1) * 2 ^ 11" by simp
  then have u: "(?L * 2 ^ 11 div ?c * ?f + 2 ^ 10) div 2 ^ 11 \<le> ?L" by simp
  have l: "0 \<le> (?L * 2 ^ 11 div ?c * ?f + 2 ^ 10) div 2 ^ 11"
    using c S by (intro pos_imp_zdiv_nonneg_iff [THEN iffD2] add_nonneg_nonneg mult_nonneg_nonneg) auto
  have "int i * ?L \<le> 15 * ?L" using assms(4) by (intro mult_right_mono) auto
  moreover have "16 * ?L \<le> 2 ^ 14" unfolding lmcs_sizes(3) [OF assms(1), symmetric]
    using lmcs_legalD(2) [OF assms(1)] by (intro power_increasing) auto
  moreover have "0 \<le> int i * ?L" by simp
  ultimately show ?thesis using u l unfolding inverse_at_def by (intro sum_range)
qed

lemma inv_entry_ok:
  assumes r: "lmcs_legal r" and q: "pieces_done 16 r q" and v: "model_pivot r i \<le> int v" "int v < model_pivot r (Suc i)" "i < 16"
  shows "inv_entry q v = min (inverse_at r i (int v)) (2 ^ m_lumaBD r - 1)"
proof -
  have "int v < model_pivot r 16" using v model_pivot_mono [OF r, of "Suc i" 16] by simp
  then have idx: "getPWLIdxInv q (int v) = i"
    using getPWLIdxInv_finds [OF r q, of "int v"] piece_unique [OF r v(1,2)] by auto
  have m: "to_pel (2 ^ m_lumaBD q - 1) = 2 ^ m_lumaBD r - 1"
    using q power_increasing [OF lmcs_legalD(2) [OF r], of "2 :: int"] by (simp add: pieces_done_def to_pel_small)
  have "model_cw r i \<noteq> 0" using v by (simp add: model_pivot_Suc)
  then have vals: "m_reshapePivot q ! i = model_pivot r i" "m_inputPivot q ! i = int i * 2 ^ (m_lumaBD r - 4)"
    "m_invScaleCoef q ! i = 2 ^ (m_lumaBD r - 4) * 2 ^ 11 div model_cw r i"
    using q v(3) lmcs_legalD(4) [OF r] by (simp_all add: pieces_done_def)
  have "m_inputPivot q ! i + drop_bit FP_PREC (m_invScaleCoef q ! i * (int v - m_reshapePivot q ! i) + 2 ^ (FP_PREC - 1))
      = inverse_at r i (int v)"
    unfolding vals inverse_at_def FP_PREC_def drop_bit_eq_div by simp
  then show ?thesis
    unfolding inv_entry_def Let_def idx m Clip3_def using inverse_at_bounds [OF r v] by (simp add: to_pel_small)
qed

text \<open>Mapping forward and back: rounding on both sides, and the truncated slope of the inverse.\<close>

lemma div_2048: "2 ^ 11 * ((x :: int) div 2 ^ 11) \<le> x" "(x :: int) < 2 ^ 11 * (x div 2 ^ 11) + 2 ^ 11"
  using pos_mod_sign [of "2 ^ 11" x] pos_mod_bound [of "2 ^ 11" x] mult_div_mod_eq [of "2 ^ 11" x] by simp_all

lemma recover_error:
  fixes c d f g L t :: int
  assumes c: "0 < c" and d: "0 \<le> d" and Lt: "L * t = 2 ^ 11" "0 < L"
    and f: "f = (c * d * t + 2 ^ 10) div 2 ^ 11" "0 \<le> f" "f \<le> c" and g: "g = (L * 2 ^ 11 div c * f + 2 ^ 10) div 2 ^ 11"
  shows "2 ^ 11 * c * \<bar>g - d\<bar> \<le> 2 ^ 10 * (c + L) + c ^ 2"
proof -
  define S where "S = L * 2 ^ 11 div c"
  have S: "c * S \<le> L * 2 ^ 11" "L * 2 ^ 11 < c * S + c"
    using pos_mod_sign [OF c, of "L * 2 ^ 11"] pos_mod_bound [OF c, of "L * 2 ^ 11"]
      mult_div_mod_eq [of c "L * 2 ^ 11"] unfolding S_def by linarith+
  have "2 ^ 11 * f \<le> c * d * t + 2 ^ 10" "c * d * t + 2 ^ 10 < 2 ^ 11 * f + 2 ^ 11"
    unfolding f(1) by (rule div_2048)+
  then have h: "L * (2 ^ 11 * f) \<le> L * (c * d * t + 2 ^ 10)" "L * (c * d * t + 2 ^ 10) \<le> L * (2 ^ 11 * f + 2 ^ 11)"
    using Lt(2) by (intro mult_left_mono; simp)+
  have e: "L * (c * d * t + 2 ^ 10) = c * d * 2 ^ 11 + L * 2 ^ 10"
    unfolding Lt(1) [symmetric] by (simp add: algebra_simps)
  have 1: "\<bar>L * f * 2 ^ 11 - c * d * 2 ^ 11\<bar> \<le> L * 2 ^ 10"
    using h unfolding e by (simp add: algebra_simps)
  have "2 ^ 11 * g \<le> S * f + 2 ^ 10" "S * f + 2 ^ 10 < 2 ^ 11 * g + 2 ^ 11"
    unfolding g S_def by (rule div_2048)+
  then have "c * (2 ^ 11 * g) \<le> c * (S * f + 2 ^ 10)" "c * (S * f + 2 ^ 10) \<le> c * (2 ^ 11 * g + 2 ^ 11)"
    using c by (intro mult_left_mono; simp)+
  then have 2: "\<bar>c * g * 2 ^ 11 - c * S * f\<bar> \<le> c * 2 ^ 10" by (simp add: algebra_simps)
  have "c * S * f \<le> L * 2 ^ 11 * f" "L * 2 ^ 11 * f \<le> (c * S + c) * f"
    using S f(2) by (intro mult_right_mono; simp)+
  moreover have "c * f \<le> c * c" using c f(3) by simp
  ultimately have 3: "\<bar>c * S * f - L * f * 2 ^ 11\<bar> \<le> c ^ 2" by (simp add: algebra_simps power2_eq_square)
  have "2 ^ 11 * c * \<bar>g - d\<bar> = \<bar>2 ^ 11 * c * (g - d)\<bar>" using c by (simp add: abs_mult)
  also have "2 ^ 11 * c * (g - d) = c * g * 2 ^ 11 - c * d * 2 ^ 11" by (simp add: algebra_simps)
  finally have 4: "2 ^ 11 * c * \<bar>g - d\<bar> = \<bar>c * g * 2 ^ 11 - c * d * 2 ^ 11\<bar>" .
  have "2 ^ 10 * (c + L) + c ^ 2 = c * 2 ^ 10 + L * 2 ^ 10 + c ^ 2" by simp
  then show ?thesis unfolding 4 using 1 2 3 by linarith
qed

text \<open>
  C23: On every legal model \<open>constructReshaper\<close> ends without a division by zero or a shift out of range, and
  entry \<open>y\<close> of the forward table is the rounded linear interpolation between the pivots of the piece that
  contains \<open>y\<close>, limited to the largest sample value.
\<close>

theorem forward_table_interpolates:
  assumes "lmcs_legal r"
  shows "\<exists>q. constructReshaper r = Inr q
    \<and> m_fwdLUT q = map (\<lambda>y. min (forward r y) (2 ^ m_lumaBD r - 1)) [0..<2 ^ m_lumaBD r]"
  by (rule constructReshaper_ok [OF assms]) auto

text \<open>
  C24: The forward table of a legal model has an entry for every sample, is monotone, and stays within the
  sample range.
\<close>

theorem forward_table_monotone:
  assumes "lmcs_legal r"
  shows "\<exists>q. constructReshaper r = Inr q \<and> length (m_fwdLUT q) = 2 ^ m_lumaBD r \<and> sorted (m_fwdLUT q)
    \<and> set (m_fwdLUT q) \<subseteq> {0..<2 ^ m_lumaBD r}"
proof (rule constructReshaper_ok [OF assms])
  let ?t = "map (\<lambda>y. min (forward r y) (2 ^ m_lumaBD r - 1)) [0..<2 ^ m_lumaBD r]"
  have "sorted ?t"
    by (auto simp: sorted_iff_nth_mono intro: min.coboundedI1 forward_mono [OF assms])
  moreover have "0 \<le> forward r y" if "y < 2 ^ m_lumaBD r" for y
    using forward_bounds [OF assms that] model_pivot_nonneg [OF assms] by (meson order_trans)
  then have "set ?t \<subseteq> {0..<2 ^ m_lumaBD r}" by auto
  moreover fix q
  assume "constructReshaper r = Inr (q\<lparr>m_fwdLUT := ?t, m_invLUT := map (inv_entry q) [0..<2 ^ m_lumaBD r]\<rparr>)"
  ultimately show ?thesis by auto
qed

text \<open>The pieces of the state that the loop leaves are those of the model.\<close>

lemma constructReshaper_inverse:
  assumes r: "lmcs_legal r"
  obtains q where "constructReshaper r = Inr q"
    "m_fwdLUT q = map (\<lambda>y. min (forward r y) (2 ^ m_lumaBD r - 1)) [0..<2 ^ m_lumaBD r]"
    "\<And>v i. \<lbrakk>i < 16; model_pivot r i \<le> int v; int v < model_pivot r (Suc i)\<rbrakk> \<Longrightarrow>
       m_invLUT q ! v = min (inverse_at r i (int v)) (2 ^ m_lumaBD r - 1)"
proof (rule constructReshaper_ok [OF r])
  let ?r = "r\<lparr>m_binCW := map (model_cw r) [0..<16]\<rparr>"
  fix q
  assume q: "pieces_done 16 ?r q" and c: "constructReshaper r = Inr
      (q\<lparr>m_fwdLUT := map (\<lambda>y. min (forward r y) (2 ^ m_lumaBD r - 1)) [0..<2 ^ m_lumaBD r],
         m_invLUT := map (inv_entry q) [0..<2 ^ m_lumaBD r]\<rparr>)"
  have inv: "inverse_at ?r = inverse_at r" by (intro ext) (simp add: inverse_at_def)
  have "map (inv_entry q) [0..<2 ^ m_lumaBD r] ! v = min (inverse_at r i (int v)) (2 ^ m_lumaBD r - 1)"
    if v: "i < 16" "model_pivot r i \<le> int v" "int v < model_pivot r (Suc i)" for v i
  proof -
    have "int v < 2 ^ m_lumaBD r" using v(1,3) model_pivot_le [OF r, of "Suc i"] by linarith
    then have "v < 2 ^ m_lumaBD r" by (metis of_nat_less_iff of_nat_numeral of_nat_power)
    then show ?thesis using inv_entry_ok [OF lmcs_legal_binCW [OF r] q, of i v] v by (simp add: inv)
  qed
  then show ?thesis by (intro that [OF c]) auto
qed

text \<open>
  C25: The inverse table of a legal model: for every mapped sample below the last pivot, \<open>getPWLIdxInv\<close> picks
  the one piece whose mapped range contains it, and the entry is the linear map of that piece with the
  truncated inverse slope, limited to the largest sample value.
\<close>

theorem inverse_table_interpolates:
  assumes "lmcs_legal r" and "int v < model_pivot r 16"
  shows "\<exists>q i. constructReshaper r = Inr q \<and> i < 16 \<and> model_pivot r i \<le> int v \<and> int v < model_pivot r (Suc i)
    \<and> m_invLUT q ! v = min (inverse_at r i (int v)) (2 ^ m_lumaBD r - 1)"
proof (rule constructReshaper_inverse [OF assms(1)])
  fix q
  assume q: "constructReshaper r = Inr q" "\<And>v i. \<lbrakk>i < 16; model_pivot r i \<le> int v; int v < model_pivot r (Suc i)\<rbrakk> \<Longrightarrow>
       m_invLUT q ! v = min (inverse_at r i (int v)) (2 ^ m_lumaBD r - 1)"
  obtain p where p: "pieces_done 16 (r\<lparr>m_binCW := map (model_cw r) [0..<16]\<rparr>) p"
    by (rule constructReshaper_ok [OF assms(1)])
  obtain i where "i < 16" "model_pivot r i \<le> int v" "int v < model_pivot r (Suc i)"
    using getPWLIdxInv_finds [OF lmcs_legal_binCW [OF assms(1)] p, of "int v"] assms(2) by auto
  then show ?thesis using q by blast
qed

text \<open>
  C26: A sample that is mapped forward and back comes back with a bounded error: with code word \<open>c\<close> and piece
  length \<open>L\<close> the difference is at most \<open>(1 + L / c) / 2 + c / 2048\<close>. The sample must not be rounded up to the
  next pivot.
\<close>

theorem reshaping_recovers_samples:
  assumes r: "lmcs_legal r" and y: "y < 2 ^ m_lumaBD r"
    and i: "i = y div 2 ^ (m_lumaBD r - 4)" "forward r y < model_pivot r (Suc i)"
  shows "\<exists>q. constructReshaper r = Inr q
    \<and> 2 ^ 11 * model_cw r i * \<bar>m_invLUT q ! nat (m_fwdLUT q ! y) - int y\<bar>
      \<le> 2 ^ 10 * (model_cw r i + 2 ^ (m_lumaBD r - 4)) + (model_cw r i) ^ 2"
proof (rule constructReshaper_inverse [OF r])
  fix q
  let ?c = "model_cw r i" and ?L = "(2 :: int) ^ (m_lumaBD r - 4)" and ?d = "int (y mod 2 ^ (m_lumaBD r - 4))"
  assume q: "constructReshaper r = Inr q"
    "m_fwdLUT q = map (\<lambda>y. min (forward r y) (2 ^ m_lumaBD r - 1)) [0..<2 ^ m_lumaBD r]"
    "\<And>v i. \<lbrakk>i < 16; model_pivot r i \<le> int v; int v < model_pivot r (Suc i)\<rbrakk> \<Longrightarrow>
       m_invLUT q ! v = min (inverse_at r i (int v)) (2 ^ m_lumaBD r - 1)"
  have i16: "i < 16" unfolding i(1) by (rule piece_index [OF r y])
  have f: "model_pivot r i \<le> forward r y" "0 \<le> forward r y"
    using forward_bounds [OF r y] model_pivot_nonneg [OF r, of i] by (auto simp: i(1))
  have top: "forward r y < 2 ^ m_lumaBD r" using i(2) model_pivot_le [OF r, of "Suc i"] i16 by simp
  then have fwd: "m_fwdLUT q ! y = forward r y" using q(2) y by simp
  have inv: "m_invLUT q ! nat (forward r y) = min (inverse_at r i (forward r y)) (2 ^ m_lumaBD r - 1)"
    using q(3) [OF i16, of "nat (forward r y)"] f i(2) by simp
  have y_eq: "int y = int i * ?L + ?d"
    unfolding i(1) using arg_cong [OF div_mult_mod_eq [of y "2 ^ (m_lumaBD r - 4)"], of int] by simp
  define g where "g = (?L * 2 ^ 11 div ?c * (forward r y - model_pivot r i) + 2 ^ 10) div 2 ^ 11"
  have c: "0 < ?c" using f i(2) by (simp add: model_pivot_Suc)
  have L: "?L * 2 ^ (15 - m_lumaBD r) = 2 ^ 11"
    using lmcs_legalD(1,2) [OF r] by (simp flip: power_add)
  have fe: "forward r y - model_pivot r i = (?c * ?d * 2 ^ (15 - m_lumaBD r) + 2 ^ 10) div 2 ^ 11"
    unfolding forward_def Let_def i(1) by (rule add_diff_cancel_left')
  have "0 \<le> forward r y - model_pivot r i" "forward r y - model_pivot r i \<le> ?c" "0 \<le> ?d" "0 < ?L"
    using f i(2) by (simp_all only: model_pivot_Suc) auto
  then have "2 ^ 11 * ?c * \<bar>g - ?d\<bar> \<le> 2 ^ 10 * (?c + ?L) + ?c ^ 2"
    by (intro recover_error [OF c _ L _ fe _ _ g_def])
  moreover have "\<bar>min (inverse_at r i (forward r y)) (2 ^ m_lumaBD r - 1) - int y\<bar> \<le> \<bar>g - ?d\<bar>"
  proof -
    have "int y < 2 ^ m_lumaBD r" using y by (metis of_nat_less_iff of_nat_numeral of_nat_power)
    moreover have "inverse_at r i (forward r y) - int y = g - ?d" unfolding inverse_at_def g_def y_eq by simp
    ultimately show ?thesis by linarith
  qed
  then have "2 ^ 11 * ?c * \<bar>min (inverse_at r i (forward r y)) (2 ^ m_lumaBD r - 1) - int y\<bar> \<le> 2 ^ 11 * ?c * \<bar>g - ?d\<bar>"
    using c by (intro mult_left_mono) auto
  ultimately show ?thesis using q(1) by (auto simp: fwd inv)
qed

text \<open>
  A model in which every code word is as wide as its piece, the model of zero differences, leaves the
  samples unchanged: both tables are the identity.
\<close>

theorem equal_pieces_are_identity:
  assumes r: "lmcs_legal r" and c: "\<forall>i<16. model_cw r i = 2 ^ (m_lumaBD r - 4)"
  shows "\<exists>q. constructReshaper r = Inr q \<and> m_fwdLUT q = map int [0..<2 ^ m_lumaBD r]
    \<and> (\<forall>y<2 ^ m_lumaBD r. m_invLUT q ! y = int y)"
proof (rule constructReshaper_inverse [OF r])
  fix q
  let ?L = "(2 :: int) ^ (m_lumaBD r - 4)"
  assume q: "constructReshaper r = Inr q"
    "m_fwdLUT q = map (\<lambda>y. min (forward r y) (2 ^ m_lumaBD r - 1)) [0..<2 ^ m_lumaBD r]"
    "\<And>v i. \<lbrakk>i < 16; model_pivot r i \<le> int v; int v < model_pivot r (Suc i)\<rbrakk> \<Longrightarrow>
       m_invLUT q ! v = min (inverse_at r i (int v)) (2 ^ m_lumaBD r - 1)"
  have piv: "i \<le> 16 \<Longrightarrow> model_pivot r i = int i * ?L" for i
    using c by (induction i) (simp_all add: model_pivot_Suc model_pivot_0 algebra_simps)
  have L: "?L * 2 ^ (15 - m_lumaBD r) = 2 ^ 11"
    using lmcs_legalD(1,2) [OF r] by (simp flip: power_add)
  have *: "min (forward r y) (2 ^ m_lumaBD r - 1) = int y \<and> m_invLUT q ! y = int y" if y: "y < 2 ^ m_lumaBD r" for y
  proof -
    define i d where "i = y div 2 ^ (m_lumaBD r - 4)" and "d = y mod 2 ^ (m_lumaBD r - 4)"
    have i: "i < 16" unfolding i_def by (rule piece_index [OF r y])
    have y_eq: "int y = int i * ?L + int d"
      unfolding i_def d_def using arg_cong [OF div_mult_mod_eq [of y "2 ^ (m_lumaBD r - 4)"], of int] by simp
    have "d < 2 ^ (m_lumaBD r - 4)" unfolding d_def by simp
    then have d: "int d < ?L" by (metis of_nat_less_iff of_nat_numeral of_nat_power)
    have top: "int y < 2 ^ m_lumaBD r" using y by (metis of_nat_less_iff of_nat_numeral of_nat_power)
    have r11: "(x * 2 ^ 11 + 2 ^ 10) div 2 ^ 11 = (x :: int)" for x by simp
    have "?L * int d * 2 ^ (15 - m_lumaBD r) = int d * 2 ^ 11" unfolding L [symmetric] by (simp add: ac_simps)
    then have "forward r y = int y"
      using c i piv [of i] unfolding forward_def Let_def i_def [symmetric] d_def [symmetric] by (simp only: r11 y_eq)
    moreover have "inverse_at r i (int y) = int y"
      using c i piv [of i] y_eq by (simp add: inverse_at_def)
    moreover have "model_pivot r i \<le> int y" "int y < model_pivot r (Suc i)"
      using piv [of i] piv [of "Suc i"] i y_eq d by (simp_all add: algebra_simps)
    ultimately show ?thesis using q(3) [OF i, of y] top by simp
  qed
  then have "m_fwdLUT q = map int [0..<2 ^ m_lumaBD r]" unfolding q(2) by simp
  then show ?thesis using q(1) * by blast
qed

section \<open>Witnesses\<close>

text \<open>A 10-bit model with one wide and one narrow piece, and the model of zero differences.\<close>

definition new_Reshape :: "SliceReshapeInfo \<Rightarrow> Reshape" where
  "new_Reshape info = \<lparr>m_sliceReshapeInfo = info, m_invLUT = [], m_fwdLUT = [], m_chromaAdjHelpLUT = [], m_binCW = [],
     m_initCW = 0, m_reshapePivot = [], m_inputPivot = [], m_fwdScaleCoef = [], m_invScaleCoef = [], m_lumaBD = 0,
     m_reshapeLUTSize = 0\<rparr>"

definition sample_lmcs :: "int \<Rightarrow> SliceReshapeInfo" where
  "sample_lmcs delta = sample_info\<lparr>reshaperModelMinBinIdx := 0, reshaperModelMaxBinIdx := 15, chrResScalingOffset := 1,
     reshaperModelBinCWDelta := [0, delta, 0, - delta, 0, 0, 0, 0, 0, 0, 0, 0, 0, 0, 0, 0]\<rparr>"

lemma sample_legal:
  "lmcs_legal (createDec 10 (new_Reshape (sample_lmcs 32)))" "lmcs_legal (createDec 10 (new_Reshape (sample_lmcs 0)))"
  by (simp_all add: lmcs_legal_def Let_def createDec_def new_Reshape_def sample_lmcs_def resize_if_empty_def
      PIC_CODE_CW_BINS_def to_uint16_def model_cw_def model_pivot_def upt_rec)

lemma sample_bd [simp]: "m_lumaBD (createDec 10 (new_Reshape i)) = 10"
  by (simp add: createDec_def Let_def)

theorem forward_table_interpolates_witness:
  "\<exists>q. constructReshaper (createDec 10 (new_Reshape (sample_lmcs 32))) = Inr q \<and> m_fwdLUT q ! 100 = 118"
proof -
  have "forward (createDec 10 (new_Reshape (sample_lmcs 32))) 100 = 118"
    by (simp add: forward_def Let_def createDec_def new_Reshape_def sample_lmcs_def resize_if_empty_def
      PIC_CODE_CW_BINS_def to_uint16_def model_cw_def model_pivot_def upt_rec)
  then show ?thesis using forward_table_interpolates [OF sample_legal(1)] by auto
qed

theorem forward_table_monotone_witness:
  "\<exists>q. constructReshaper (createDec 10 (new_Reshape (sample_lmcs 32))) = Inr q \<and> sorted (m_fwdLUT q)"
  using forward_table_monotone [OF sample_legal(1)] by blast

theorem inverse_table_interpolates_witness:
  "\<exists>q. constructReshaper (createDec 10 (new_Reshape (sample_lmcs 32))) = Inr q \<and> m_invLUT q ! 0 = 0"
proof -
  let ?r = "createDec 10 (new_Reshape (sample_lmcs 32))"
  have p: "model_pivot ?r 16 = 1024" "model_pivot ?r 0 = 0" "model_pivot ?r 1 = 64" "model_cw ?r 0 = 64"
    by (simp_all add: createDec_def new_Reshape_def sample_lmcs_def resize_if_empty_def Let_def
      PIC_CODE_CW_BINS_def to_uint16_def model_cw_def model_pivot_def upt_rec)
  obtain q i where q: "constructReshaper ?r = Inr q" "model_pivot ?r i \<le> int 0" "int 0 < model_pivot ?r (Suc i)"
      "m_invLUT q ! 0 = min (inverse_at ?r i (int 0)) (2 ^ m_lumaBD ?r - 1)"
    using inverse_table_interpolates [OF sample_legal(1), of 0] p(1) by auto
  have "i = 0" using piece_unique [OF sample_legal(1) q(2,3), of 0] p by simp
  then show ?thesis using q p by (simp add: inverse_at_def)
qed

theorem reshaping_recovers_samples_witness:
  "\<exists>q. constructReshaper (createDec 10 (new_Reshape (sample_lmcs 32))) = Inr q
     \<and> \<bar>m_invLUT q ! nat (m_fwdLUT q ! 100) - 100\<bar> \<le> 0"
proof -
  let ?r = "createDec 10 (new_Reshape (sample_lmcs 32))"
  have p: "forward ?r 100 < model_pivot ?r (Suc 1)" "model_cw ?r 1 = 96"
    by (simp_all add: forward_def Let_def createDec_def new_Reshape_def sample_lmcs_def resize_if_empty_def
      PIC_CODE_CW_BINS_def to_uint16_def model_cw_def model_pivot_def upt_rec)
  obtain q where q: "constructReshaper ?r = Inr q" "192 * \<bar>m_invLUT q ! nat (m_fwdLUT q ! 100) - 100\<bar> \<le> 169"
    using reshaping_recovers_samples [OF sample_legal(1), of 100 1] p by auto
  have "192 * a \<le> 169 \<Longrightarrow> a \<le> 0" for a :: int by presburger
  from this [OF q(2)] show ?thesis using q(1) by blast
qed

theorem equal_pieces_are_identity_witness:
  "\<exists>q. constructReshaper (createDec 10 (new_Reshape (sample_lmcs 0))) = Inr q \<and> m_invLUT q ! 1000 = 1000"
proof -
  have "\<forall>i<16. model_cw (createDec 10 (new_Reshape (sample_lmcs 0))) i = 64"
    by (simp add: createDec_def new_Reshape_def sample_lmcs_def resize_if_empty_def Let_def
      PIC_CODE_CW_BINS_def to_uint16_def model_cw_def all_less_16)
  then show ?thesis using equal_pieces_are_identity [OF sample_legal(2)] by auto
qed

end
