(* ===== verification/TransformBlocks.thy ===== *)
theory TransformBlocks
  imports SineTransforms Reshape
begin

text \<open>
  The transforms of a block, from \<open>source/Lib/CommonLib/TrQuant.cpp\<close>: the tables of the one-dimensional
  transforms and the functions \<open>xT\<close> and \<open>xIT\<close> that compose two of them. The tables hold the sizes whose
  matrices are modelled. What the functions ask of the coding structures (types, bit depths, whether a
  secondary transform follows) is an argument.
\<close>

section \<open>The tables of the transforms\<close>

type_synonym FwdTrans = "coeffs \<Rightarrow> coeffs \<Rightarrow> nat \<Rightarrow> nat \<Rightarrow> nat \<Rightarrow> nat \<Rightarrow> coeffs"
type_synonym InvTrans = "coeffs \<Rightarrow> coeffs \<Rightarrow> nat \<Rightarrow> nat \<Rightarrow> nat \<Rightarrow> nat \<Rightarrow> int \<Rightarrow> int \<Rightarrow> coeffs"

datatype TransType = DCT2 | DCT8 | DST7

definition fastForwardDCT8_B8 :: FwdTrans where
  "fastForwardDCT8_B8 src dst shift line iSkipLine iSkipLine2 =
     fastForwardMM 8 src dst shift line iSkipLine iSkipLine2 (flat 8 (g_trCoreDCT8P8 ! TRANSFORM_FORWARD))"

definition fastInverseDCT8_B8 :: InvTrans where
  "fastInverseDCT8_B8 src dst shift line iSkipLine iSkipLine2 outputMinimum outputMaximum =
     fastInverseMM 8 src dst shift line iSkipLine iSkipLine2 outputMinimum outputMaximum (flat 8 (g_trCoreDCT8P8 ! TRANSFORM_INVERSE))"

definition fastForwardDST7_B8 :: FwdTrans where
  "fastForwardDST7_B8 src dst shift line iSkipLine iSkipLine2 =
     fastForwardMM 8 src dst shift line iSkipLine iSkipLine2 (flat 8 (g_trCoreDST7P8 ! TRANSFORM_FORWARD))"

definition fastInverseDST7_B8 :: InvTrans where
  "fastInverseDST7_B8 src dst shift line iSkipLine iSkipLine2 outputMinimum outputMaximum =
     fastInverseMM 8 src dst shift line iSkipLine iSkipLine2 outputMinimum outputMaximum (flat 8 (g_trCoreDST7P8 ! TRANSFORM_INVERSE))"

text \<open>\<open>None\<close> is the null pointer.\<close>

fun fastFwdTrans :: "TransType \<Rightarrow> FwdTrans option list" where
  "fastFwdTrans DCT2 = [Some fastForwardDCT2_B2, Some fastForwardDCT2_B4, Some fastForwardDCT2_B8, Some fastForwardDCT2_B16,
     Some fastForwardDCT2_B32, Some fastForwardDCT2_B64]"
| "fastFwdTrans DCT8 = [None, Some fastForwardDCT8_B4, Some fastForwardDCT8_B8, Some fastForwardDCT8_B16, Some fastForwardDCT8_B32]"
| "fastFwdTrans DST7 = [None, Some fastForwardDST7_B4, Some fastForwardDST7_B8, Some fastForwardDST7_B16, Some fastForwardDST7_B32]"

fun fastInvTrans :: "TransType \<Rightarrow> InvTrans option list" where
  "fastInvTrans DCT2 = [Some fastInverseDCT2_B2, Some fastInverseDCT2_B4, Some fastInverseDCT2_B8, Some fastInverseDCT2_B16,
     Some fastInverseDCT2_B32, Some fastInverseDCT2_B64]"
| "fastInvTrans DCT8 = [None, Some fastInverseDCT8_B4, Some fastInverseDCT8_B8, Some fastInverseDCT8_B16, Some fastInverseDCT8_B32]"
| "fastInvTrans DST7 = [None, Some fastInverseDST7_B4, Some fastInverseDST7_B8, Some fastInverseDST7_B16, Some fastInverseDST7_B32]"

text \<open>The matrix of a type and a size, for the specification.\<close>

fun matrices :: "TransType \<Rightarrow> int list list list" where
  "matrices DCT2 = [g_trCoreDCT2P2 ! 0, g_trCoreDCT2P4 ! 0, g_trCoreDCT2P8 ! 0, g_trCoreDCT2P16 ! 0, g_trCoreDCT2P32 ! 0,
     g_trCoreDCT2P64 ! 0]"
| "matrices DCT8 = [[], g_trCoreDCT8P4 ! 0, g_trCoreDCT8P8 ! 0, g_trCoreDCT8P16 ! 0, g_trCoreDCT8P32 ! 0]"
| "matrices DST7 = [[], g_trCoreDST7P4 ! 0, g_trCoreDST7P8 ! 0, g_trCoreDST7P16 ! 0, g_trCoreDST7P32 ! 0]"

lemma B8_same: "g_trCoreDCT8P8 ! 1 = g_trCoreDCT8P8 ! 0" "g_trCoreDST7P8 ! 1 = g_trCoreDST7P8 ! 0"
  by (simp_all add: g_trCoreDCT8P8_def g_trCoreDST7P8_def)

lemmas forward_matrix = forward_B2_matrix forward_B4_matrix forward_B8_matrix forward_B16_matrix forward_B32_matrix forward_B64_matrix
  forward_DCT8_B4_matrix forward_DCT8_B16_matrix forward_DCT8_B32_matrix
  forward_DST7_B4_matrix forward_DST7_B16_matrix forward_DST7_B32_matrix

lemma fwd_entry_matrix:
  assumes "i < length (fastFwdTrans t)" "fastFwdTrans t ! i = Some f"
    and "0 < shift" "skip \<le> line" "0 < line"
  shows "f src dst shift line skip 0 = fastForwardMM (2 ^ Suc i) src dst shift line skip 0 (flat (2 ^ Suc i) (matrices t ! i))"
proof -
  have i: "i = 0 \<or> i = 1 \<or> i = 2 \<or> i = 3 \<or> i = 4 \<or> i = 5" using assms(1) by (cases t) auto
  show ?thesis
    using i assms by (cases t; elim disjE)
      (auto simp: forward_matrix [unfolded TRANSFORM_FORWARD_def] fastForwardDCT8_B8_def fastForwardDST7_B8_def TRANSFORM_FORWARD_def)
qed

definition inverse_ok :: "InvTrans \<Rightarrow> nat \<Rightarrow> int list list \<Rightarrow> bool" where
  "inverse_ok f N T \<longleftrightarrow> (\<forall>src dst shift line skip skip2 lo hi. 0 < shift \<longrightarrow> skip2 \<le> N \<longrightarrow>
     (\<forall>k j. N - skip2 \<le> k \<longrightarrow> k < N \<longrightarrow> j < line - skip \<longrightarrow> src (k * line + j) = 0) \<longrightarrow>
     f src dst shift line skip skip2 lo hi = fastInverseMM N src dst shift line skip skip2 lo hi (flat N T))"

lemma inverse_transforms_ok:
  "inverse_ok fastInverseDCT2_B2 2 (g_trCoreDCT2P2 ! 0)"
  "inverse_ok fastInverseDCT2_B4 4 (g_trCoreDCT2P4 ! 0)"
  "inverse_ok fastInverseDCT2_B8 8 (g_trCoreDCT2P8 ! 0)"
  "inverse_ok fastInverseDCT2_B16 16 (g_trCoreDCT2P16 ! 0)"
  "inverse_ok fastInverseDCT2_B32 32 (g_trCoreDCT2P32 ! 0)"
  "inverse_ok fastInverseDCT2_B64 64 (g_trCoreDCT2P64 ! 0)"
  "inverse_ok fastInverseDCT8_B4 4 (g_trCoreDCT8P4 ! 0)"
  "inverse_ok fastInverseDCT8_B8 8 (g_trCoreDCT8P8 ! 0)"
  "inverse_ok fastInverseDCT8_B16 16 (g_trCoreDCT8P16 ! 0)"
  "inverse_ok fastInverseDCT8_B32 32 (g_trCoreDCT8P32 ! 0)"
  "inverse_ok fastInverseDST7_B4 4 (g_trCoreDST7P4 ! 0)"
  "inverse_ok fastInverseDST7_B8 8 (g_trCoreDST7P8 ! 0)"
  "inverse_ok fastInverseDST7_B16 16 (g_trCoreDST7P16 ! 0)"
  "inverse_ok fastInverseDST7_B32 32 (g_trCoreDST7P32 ! 0)"
  unfolding inverse_ok_def
  subgoal by (intro allI impI) (rule inverse_B2_matrix [unfolded TRANSFORM_INVERSE_def same_matrices]; blast)
  subgoal by (intro allI impI) (rule inverse_B4_matrix [unfolded TRANSFORM_INVERSE_def same_matrices]; blast)
  subgoal by (intro allI impI) (rule inverse_B8_matrix [unfolded TRANSFORM_INVERSE_def same_matrices]; blast)
  subgoal by (intro allI impI) (rule inverse_B16_matrix [unfolded TRANSFORM_INVERSE_def same_matrices]; blast)
  subgoal by (intro allI impI) (rule inverse_B32_matrix [unfolded TRANSFORM_INVERSE_def same_matrices]; blast)
  subgoal by (intro allI impI) (rule inverse_B64_matrix [unfolded TRANSFORM_INVERSE_def same_matrices]; blast)
  subgoal by (intro allI impI) (rule inverse_DCT8_B4_matrix [unfolded TRANSFORM_INVERSE_def dct8_4_same]; blast)
  subgoal unfolding fastInverseDCT8_B8_def TRANSFORM_INVERSE_def B8_same by blast
  subgoal by (intro allI impI) (rule inverse_DCT8_B16_matrix [unfolded TRANSFORM_INVERSE_def dct8_16_same]; blast)
  subgoal by (intro allI impI) (rule inverse_DCT8_B32_matrix [unfolded TRANSFORM_INVERSE_def dct8_32_same]; blast)
  subgoal by (intro allI impI) (rule inverse_DST7_B4_matrix [unfolded TRANSFORM_INVERSE_def dst7_4_same]; blast)
  subgoal unfolding fastInverseDST7_B8_def TRANSFORM_INVERSE_def B8_same by blast
  subgoal by (intro allI impI) (rule inverse_DST7_B16_matrix [unfolded TRANSFORM_INVERSE_def dst7_16_same]; blast)
  subgoal by (intro allI impI) (rule inverse_DST7_B32_matrix [unfolded TRANSFORM_INVERSE_def dst7_32_same]; blast)
  done

lemma inv_entry_matrix:
  assumes "i < length (fastInvTrans t)" "fastInvTrans t ! i = Some f"
  shows "inverse_ok f (2 ^ Suc i) (matrices t ! i)"
proof -
  have i: "i = 0 \<or> i = 1 \<or> i = 2 \<or> i = 3 \<or> i = 4 \<or> i = 5" using assms(1) by (cases t) auto
  show ?thesis
    using i assms by (cases t; elim disjE) (auto simp: inverse_transforms_ok)
qed

section \<open>Blocks\<close>

definition COM16_C806_TRANS_PREC :: int where "COM16_C806_TRANS_PREC = 0"
definition g_transformMatrixShift :: "int list" where "g_transformMatrixShift = [6, 6]"

text \<open>How many columns and lines are known to be zero; a secondary transform keeps only a corner.\<close>

definition skip_sizes :: "nat \<Rightarrow> nat \<Rightarrow> bool \<Rightarrow> nat \<times> nat" where
  "skip_sizes width height lfnst =
    (let skipWidth = (if width > JVET_C0024_ZERO_OUT_TH then width - JVET_C0024_ZERO_OUT_TH else 0);
         skipHeight = (if height > JVET_C0024_ZERO_OUT_TH then height - JVET_C0024_ZERO_OUT_TH else 0)
     in if lfnst
        then if (width = 4 \<and> height > 4) \<or> (width > 4 \<and> height = 4) then (width - 4, height - 4)
             else if width \<ge> 16 \<and> height \<ge> 16 then (width - 16, height - 16)
             else if width \<ge> 8 \<and> height \<ge> 8 then (width - 8, height - 8)
             else (skipWidth, skipHeight)
        else (skipWidth, skipHeight))"

text \<open>A call through a pointer of the table.\<close>

definition call_fwd :: "FwdTrans option list \<Rightarrow> nat \<Rightarrow> coeffs \<Rightarrow> coeffs \<Rightarrow> nat \<Rightarrow> nat \<Rightarrow> nat \<Rightarrow> nat \<Rightarrow> coeffs result" where
  "call_fwd tab i src dst shift line iSkipLine iSkipLine2 =
     (if i < length tab then case tab ! i of Some f \<Rightarrow> Inr (f src dst shift line iSkipLine iSkipLine2) | None \<Rightarrow> Inl UndefinedBehaviour
      else Inl UndefinedBehaviour)"

definition call_inv :: "InvTrans option list \<Rightarrow> nat \<Rightarrow> coeffs \<Rightarrow> coeffs \<Rightarrow> nat \<Rightarrow> nat \<Rightarrow> nat \<Rightarrow> nat \<Rightarrow> int \<Rightarrow> int \<Rightarrow> coeffs result" where
  "call_inv tab i src dst shift line iSkipLine iSkipLine2 lo hi =
     (if i < length tab then case tab ! i of Some f \<Rightarrow> Inr (f src dst shift line iSkipLine iSkipLine2 lo hi) | None \<Rightarrow> Inl UndefinedBehaviour
      else Inl UndefinedBehaviour)"

text \<open>The copy loops over the lines of a block; a position of the target is given by \<open>pos\<close>.\<close>

definition copy_block :: "nat \<Rightarrow> nat \<Rightarrow> (nat \<Rightarrow> nat \<Rightarrow> nat) \<Rightarrow> (nat \<Rightarrow> nat \<Rightarrow> int) \<Rightarrow> coeffs \<Rightarrow> coeffs" where
  "copy_block width height pos val dst =
     fold (\<lambda>y dst. fold (\<lambda>x dst. dst(pos y x := val y x)) [0..<width] dst) [0..<height] dst"

text \<open>
  The memory of \<open>block\<close> and \<open>tmp\<close> is not initialised: \<open>junk\<close> is what it holds. The sums and shifts are those of
  unbounded integers, where the code has 32 bits.
\<close>

definition xT ::
  "TransType \<Rightarrow> TransType \<Rightarrow> int \<Rightarrow> int \<Rightarrow> bool \<Rightarrow> nat \<Rightarrow> nat \<Rightarrow> coeffs \<Rightarrow> nat \<Rightarrow> coeffs \<Rightarrow> coeffs \<Rightarrow> coeffs result" where
  "xT trTypeHor trTypeVer bitDepth maxLog2TrDynamicRange lfnst width height resiBuf resiStride dstCoeff junk =
    (let TRANSFORM_MATRIX_SHIFT = g_transformMatrixShift ! TRANSFORM_FORWARD;
         transformWidthIndex = nat (floorLog2 width - 1);
         transformHeightIndex = nat (floorLog2 height - 1);
         (skipWidth, skipHeight) = skip_sizes width height lfnst;
         block = copy_block width height (\<lambda>y x. y * width + x) (\<lambda>y x. resiBuf (y * resiStride + x)) junk
     in if width > 1 \<and> height > 1
        then let shift_1st = (floorLog2 width + bitDepth + TRANSFORM_MATRIX_SHIFT) - maxLog2TrDynamicRange + COM16_C806_TRANS_PREC;
                 shift_2nd = floorLog2 height + TRANSFORM_MATRIX_SHIFT + COM16_C806_TRANS_PREC
             in checkE (shift_1st < 0) ''Negative shift'' (checkE (shift_2nd < 0) ''Negative shift'' (
                  bindE (call_fwd (fastFwdTrans trTypeHor) transformWidthIndex block junk (nat shift_1st) height 0 skipWidth) (\<lambda>tmp.
                  call_fwd (fastFwdTrans trTypeVer) transformHeightIndex tmp dstCoeff (nat shift_2nd) width skipWidth skipHeight)))
        else if height = 1
        then let shift = (floorLog2 width + bitDepth + TRANSFORM_MATRIX_SHIFT) - maxLog2TrDynamicRange + COM16_C806_TRANS_PREC
             in checkE (shift < 0) ''Negative shift'' (
                  call_fwd (fastFwdTrans trTypeHor) transformWidthIndex block dstCoeff (nat shift) 1 0 skipWidth)
        else let shift = (floorLog2 height + bitDepth + TRANSFORM_MATRIX_SHIFT) - maxLog2TrDynamicRange + COM16_C806_TRANS_PREC
             in checkE (shift < 0) ''Negative shift'' (
                  call_fwd (fastFwdTrans trTypeVer) transformHeightIndex block dstCoeff (nat shift) 1 0 skipHeight))"

definition xIT ::
  "TransType \<Rightarrow> TransType \<Rightarrow> int \<Rightarrow> int \<Rightarrow> bool \<Rightarrow> nat \<Rightarrow> nat \<Rightarrow> coeffs \<Rightarrow> coeffs \<Rightarrow> nat \<Rightarrow> coeffs \<Rightarrow> coeffs result" where
  "xIT trTypeHor trTypeVer bitDepth maxLog2TrDynamicRange lfnst width height coeff resiBuf resiStride junk =
    (let TRANSFORM_MATRIX_SHIFT = g_transformMatrixShift ! TRANSFORM_INVERSE;
         clipMinimum = - (2 ^ nat maxLog2TrDynamicRange);
         clipMaximum = 2 ^ nat maxLog2TrDynamicRange - 1;
         transformWidthIndex = nat (floorLog2 width - 1);
         transformHeightIndex = nat (floorLog2 height - 1);
         (skipWidth, skipHeight) = skip_sizes width height lfnst;
         block =
           (if width > 1 \<and> height > 1
            then let shift_1st = TRANSFORM_MATRIX_SHIFT + 1 + COM16_C806_TRANS_PREC;
                     shift_2nd = (TRANSFORM_MATRIX_SHIFT + maxLog2TrDynamicRange - 1) - bitDepth + COM16_C806_TRANS_PREC
                 in checkE (shift_1st < 0) ''Negative shift'' (checkE (shift_2nd < 0) ''Negative shift'' (
                      bindE (call_inv (fastInvTrans trTypeVer) transformHeightIndex coeff junk (nat shift_1st) width skipWidth skipHeight
                        clipMinimum clipMaximum) (\<lambda>tmp.
                      call_inv (fastInvTrans trTypeHor) transformWidthIndex tmp junk (nat shift_2nd) height 0 skipWidth
                        clipMinimum clipMaximum)))
            else let shift = (TRANSFORM_MATRIX_SHIFT + maxLog2TrDynamicRange - 1) - bitDepth + COM16_C806_TRANS_PREC
                 in checkE (shift < 0) ''Negative shift'' (
                      if width = 1
                      then call_inv (fastInvTrans trTypeVer) transformHeightIndex coeff junk (nat (shift + 1)) 1 0 skipHeight
                             clipMinimum clipMaximum
                      else call_inv (fastInvTrans trTypeHor) transformWidthIndex coeff junk (nat (shift + 1)) 1 0 skipWidth
                             clipMinimum clipMaximum))
     in bindE block (\<lambda>block.
          Inr (copy_block width height (\<lambda>y x. y * resiStride + x) (\<lambda>y x. to_pel (block (y * width + x))) resiBuf)))"

lemma copy_rows:
  assumes "width \<le> stride"
  shows "copy_block width height (\<lambda>y x. y * stride + x) val dst p
    = (if p mod stride < width \<and> p div stride < height \<and> 0 < stride then val (p div stride) (p mod stride) else dst p)"
proof (cases "stride = 0")
  case True
  have "fold (\<lambda>y dst. dst) ys dst = dst" for ys :: "nat list" by (induction ys) simp_all
  then show ?thesis using True assms by (simp add: copy_block_def)
next
  case False
  have row: "fold (\<lambda>x dst. dst(y * stride + x := val y x)) [0..<w] dst p
      = (if p mod stride < w \<and> p div stride = y then val y (p mod stride) else dst p)" if "w \<le> stride" for w y dst
    using that
  proof (induction w)
    case (Suc w)
    have "p = y * stride + w \<longleftrightarrow> p mod stride = w \<and> p div stride = y" using Suc.prems by auto
    then show ?case using Suc by (auto simp: less_Suc_eq)
  qed simp
  show ?thesis unfolding copy_block_def
    by (induction height) (use False row [OF order_refl] assms in \<open>auto simp: less_Suc_eq row simp del: fun_upd_apply\<close>)
qed

lemma floorLog2_power: "k < 32 \<Longrightarrow> floorLog2 (2 ^ k) = int k"
proof -
  assume k: "k < 32"
  have "(2 :: nat) ^ k < 2 ^ 32" by (rule power_strict_increasing) (use k in auto)
  then obtain r where r: "floorLog2 (2 ^ k) = int r" "(2 :: nat) ^ r \<le> 2 ^ k" "(2 :: nat) ^ k < 2 ^ (r + 1)"
    using floorLog2_ok [of "2 ^ k"] by auto
  then have "r \<le> k" "k < r + 1" by (simp_all only: power_increasing_iff power_strict_increasing_iff one_less_numeral_iff semiring_norm)
  then show ?thesis using r(1) by simp
qed

lemma table_size:
  assumes "i < length (fastFwdTrans t) \<or> i < length (fastInvTrans t)"
  shows "Suc i < 32" "(2 :: nat) ^ Suc i \<le> 64"
proof -
  have i: "i \<le> 5" using assms by (cases t) auto
  then show "Suc i < 32" by simp
  have "(2 :: nat) ^ Suc i \<le> 2 ^ Suc 5" using i by (intro power_increasing) auto
  then show "(2 :: nat) ^ Suc i \<le> 64" by simp
qed

lemma skip_small: "width \<le> 64 \<Longrightarrow> height \<le> 64 \<Longrightarrow> skip_sizes width height False = (0, 0)"
  by (simp add: skip_sizes_def JVET_C0024_ZERO_OUT_TH_def)

lemma call_fwd_matrix:
  assumes "i < length (fastFwdTrans t)" "fastFwdTrans t ! i \<noteq> None" "0 < shift" "0 < line"
  shows "\<exists>dst'. call_fwd (fastFwdTrans t) i src dst shift line 0 0 = Inr dst'
    \<and> (\<forall>p. dst' p = (if p < 2 ^ Suc i * line
         then row_value (2 ^ Suc i) (matrices t ! i) shift (\<lambda>k. src (2 ^ Suc i * (p mod line) + k)) (p div line) else dst p))"
proof -
  obtain f where f: "fastFwdTrans t ! i = Some f" using assms(2) by auto
  have "p div line < 2 ^ Suc i \<longleftrightarrow> p < 2 ^ Suc i * line" for p using assms(4) by (rule div_less_iff_less_mult)
  then show ?thesis
    using fwd_entry_matrix [OF assms(1) f assms(3) _ assms(4), of 0 src dst]
      fastForwardMM_value [of 0 line 0 "2 ^ Suc i" src dst shift "matrices t ! i"] assms(1,4) f
    by (simp add: call_fwd_def del: power_Suc)
qed

lemma row_value_cong:
  assumes "\<And>i. i < N \<Longrightarrow> s i = s' i"
  shows "row_value N T shift s k = row_value N T shift s' k"
proof -
  have "(\<Sum>i<N. T ! k ! i * s i) = (\<Sum>i<N. T ! k ! i * s' i)" using assms by (intro sum.cong) auto
  then show ?thesis by (simp add: row_value_def)
qed

lemma call_inv_matrix:
  assumes "i < length (fastInvTrans t)" "fastInvTrans t ! i \<noteq> None" "0 < shift"
  shows "\<exists>dst'. call_inv (fastInvTrans t) i src dst shift line 0 0 lo hi = Inr dst'
    \<and> (\<forall>p<2 ^ Suc i * line. dst' p = column_value (2 ^ Suc i) (matrices t ! i) shift line lo hi (\<lambda>k. src (p div 2 ^ Suc i + k)) (p mod 2 ^ Suc i))"
proof -
  obtain f where f: "fastInvTrans t ! i = Some f" using assms(2) by auto
  have "f src dst shift line 0 0 lo hi = fastInverseMM (2 ^ Suc i) src dst shift line 0 0 lo hi (flat (2 ^ Suc i) (matrices t ! i))"
    using inv_entry_matrix [OF assms(1) f] assms(3) unfolding inverse_ok_def by auto
  then show ?thesis
    using fastInverseMM_value [of "2 ^ Suc i" 0 line 0 src dst shift lo hi "matrices t ! i"] assms(1) f
    by (simp add: call_inv_def del: power_Suc)
qed

lemma column_value_cong:
  assumes "\<And>k. k < N \<Longrightarrow> s (k * line) = s' k"
  shows "column_value N T shift line lo hi s j = column_value N T shift 1 lo hi s' j"
proof -
  have "(\<Sum>k<N. T ! k ! j * s (k * line)) = (\<Sum>k<N. T ! k ! j * s' k)" using assms by (intro sum.cong) auto
  then show ?thesis by (simp add: column_value_def)
qed

lemma Clip3_range: "lo \<le> hi \<Longrightarrow> lo \<le> Clip3 lo hi a \<and> Clip3 lo hi a \<le> hi"
  by (auto simp: Clip3_def)

text \<open>
  C29: The forward transform of a block is separable: the coefficient in line \<open>l\<close> and column \<open>k\<close> is the product of
  the rows of the two matrices with the residual, rounded after each direction, for every pair of types,
  every size up to 64 and every stride, whatever the scratch memory held. Nothing else is written.
\<close>

theorem forward_block_is_separable:
  assumes "i < length (fastFwdTrans hor)" "fastFwdTrans hor ! i \<noteq> None" "j < length (fastFwdTrans ver)" "fastFwdTrans ver ! j \<noteq> None"
    and "width = 2 ^ Suc i" "height = 2 ^ Suc j" "width \<le> stride"
    and "int shift1 = int (Suc i) + bitDepth + 6 - maxLog2TrDynamicRange" "0 < shift1"
  shows "\<exists>coeff. xT hor ver bitDepth maxLog2TrDynamicRange False width height resiBuf stride dstCoeff junk = Inr coeff
    \<and> (\<forall>l k. l < height \<longrightarrow> k < width \<longrightarrow> coeff (l * width + k) = drop_bit (Suc j + 6)
         ((\<Sum>y<height. matrices ver ! j ! l ! y
             * drop_bit shift1 ((\<Sum>x<width. matrices hor ! i ! k ! x * resiBuf (y * stride + x)) + 2 ^ (shift1 - 1))) + 2 ^ (j + 6)))
    \<and> (\<forall>p\<ge>width * height. coeff p = dstCoeff p)"
proof -
  define block where "block = copy_block width height (\<lambda>y x. y * width + x) (\<lambda>y x. resiBuf (y * stride + x)) junk"
  have pos: "1 < width" "1 < height" using assms(5,6) one_less_power [of "2 :: nat" "Suc i"] one_less_power [of "2 :: nat" "Suc j"] by simp_all
  have block: "block (width * y + x) = resiBuf (y * stride + x)" if "y < height" "x < width" for y x
    unfolding block_def using copy_rows [OF order_refl, of width height "\<lambda>y x. resiBuf (y * stride + x)" junk "width * y + x"] that by simp
  obtain tmp where tmp: "call_fwd (fastFwdTrans hor) i block junk shift1 height 0 0 = Inr tmp"
    "\<And>p. p < width * height \<Longrightarrow> tmp p = row_value width (matrices hor ! i) shift1 (\<lambda>k. block (width * (p mod height) + k)) (p div height)"
    using call_fwd_matrix [OF assms(1,2,9), of height block junk] pos unfolding assms(5) [symmetric] by auto
  obtain coeff where coeff: "call_fwd (fastFwdTrans ver) j tmp dstCoeff (Suc j + 6) width 0 0 = Inr coeff"
    "\<And>p. coeff p = (if p < height * width
      then row_value height (matrices ver ! j) (Suc j + 6) (\<lambda>k. tmp (height * (p mod width) + k)) (p div width) else dstCoeff p)"
    using call_fwd_matrix [OF assms(3,4), of "Suc j + 6" width tmp dstCoeff] pos unfolding assms(6) [symmetric] by auto
  have idx: "nat (floorLog2 width - 1) = i" "nat (floorLog2 height - 1) = j" "floorLog2 width = int (Suc i)" "floorLog2 height = int (Suc j)"
    unfolding assms(5,6) using floorLog2_power [OF table_size(1) [OF disjI1 [OF assms(1)]]]
      floorLog2_power [OF table_size(1) [OF disjI1 [OF assms(3)]]] by (simp_all del: power_Suc)
  have skip: "skip_sizes width height False = (0, 0)"
    unfolding assms(5,6) using table_size(2) assms(1,3) by (intro skip_small) auto
  have "nat (7 + (int i + bitDepth) - maxLog2TrDynamicRange) = shift1" using assms(8) by simp
  then have "xT hor ver bitDepth maxLog2TrDynamicRange False width height resiBuf stride dstCoeff junk = Inr coeff"
    using pos tmp(1) coeff(1) assms(8) unfolding xT_def Let_def skip prod.case block_def [symmetric] idx
    by (simp add: g_transformMatrixShift_def COM16_C806_TRANS_PREC_def TRANSFORM_FORWARD_def nat_add_distrib)
  moreover have "coeff (l * width + k) = drop_bit (Suc j + 6)
         ((\<Sum>y<height. matrices ver ! j ! l ! y
             * drop_bit shift1 ((\<Sum>x<width. matrices hor ! i ! k ! x * resiBuf (y * stride + x)) + 2 ^ (shift1 - 1))) + 2 ^ (j + 6))"
    if lk: "l < height" "k < width" for l k
  proof -
    have "l * width + k < (l + 1) * width" using lk by simp
    also have "\<dots> \<le> height * width" using lk by (intro mult_right_mono) auto
    finally have "coeff (l * width + k) = row_value height (matrices ver ! j) (Suc j + 6) (\<lambda>y. tmp (height * k + y)) l"
      using lk by (simp add: coeff(2))
    also have "\<dots> = row_value height (matrices ver ! j) (Suc j + 6)
        (\<lambda>y. row_value width (matrices hor ! i) shift1 (\<lambda>x. resiBuf (y * stride + x)) k) l"
    proof (rule row_value_cong)
      fix y assume y: "y < height"
      have "height * k + y < height * (k + 1)" using y by simp
      also have "\<dots> \<le> height * width" using lk by (intro mult_left_mono) auto
      finally have "tmp (height * k + y) = row_value width (matrices hor ! i) shift1 (\<lambda>x. block (width * y + x)) k"
        using y tmp(2) [of "height * k + y"] by (simp add: mult.commute)
      also have "\<dots> = row_value width (matrices hor ! i) shift1 (\<lambda>x. resiBuf (y * stride + x)) k"
        by (rule row_value_cong) (rule block [OF y])
      finally show "tmp (height * k + y) = row_value width (matrices hor ! i) shift1 (\<lambda>x. resiBuf (y * stride + x)) k" .
    qed
    finally show ?thesis by (simp add: row_value_def add.commute [of j])
  qed
  moreover have "coeff p = dstCoeff p" if "width * height \<le> p" for p using that by (simp add: coeff(2) mult.commute)
  ultimately show ?thesis by blast
qed

text \<open>
  C30: The inverse transform of a block is separable too, columns first, with rounding and clipping to the
  dynamic range after each direction. Up to a dynamic range of 15 bits the conversion to samples is exact,
  and only the samples of the block are written.
\<close>

theorem inverse_block_is_separable:
  assumes "i < length (fastInvTrans hor)" "fastInvTrans hor ! i \<noteq> None" "j < length (fastInvTrans ver)" "fastInvTrans ver ! j \<noteq> None"
    and "width = 2 ^ Suc i" "height = 2 ^ Suc j" "width \<le> stride" "dynRange \<le> 15"
    and "int shift2 = 5 + int dynRange - bitDepth" "0 < shift2"
  shows "\<exists>resi. xIT hor ver bitDepth (int dynRange) False width height coeff resiBuf stride junk = Inr resi
    \<and> (\<forall>y x. y < height \<longrightarrow> x < width \<longrightarrow> resi (y * stride + x) = Clip3 (- (2 ^ dynRange)) (2 ^ dynRange - 1) (drop_bit shift2
         ((\<Sum>k<width. matrices hor ! i ! k ! x
             * Clip3 (- (2 ^ dynRange)) (2 ^ dynRange - 1) (drop_bit 7 ((\<Sum>l<height. matrices ver ! j ! l ! y * coeff (l * width + k)) + 64)))
           + 2 ^ (shift2 - 1))))
    \<and> (\<forall>p. width \<le> p mod stride \<or> height \<le> p div stride \<longrightarrow> resi p = resiBuf p)"
proof -
  let ?lo = "- (2 ^ dynRange) :: int" and ?hi = "2 ^ dynRange - 1 :: int"
  have pos: "1 < width" "1 < height" using assms(5,6) one_less_power [of "2 :: nat" "Suc i"] one_less_power [of "2 :: nat" "Suc j"] by simp_all
  obtain tmp where tmp: "call_inv (fastInvTrans ver) j coeff junk 7 width 0 0 ?lo ?hi = Inr tmp"
    "\<And>p. p < height * width \<Longrightarrow> tmp p = column_value height (matrices ver ! j) 7 width ?lo ?hi (\<lambda>k. coeff (p div height + k)) (p mod height)"
    using call_inv_matrix [OF assms(3,4), of 7 coeff junk width ?lo ?hi] unfolding assms(6) [symmetric] by auto
  obtain block where block: "call_inv (fastInvTrans hor) i tmp junk shift2 height 0 0 ?lo ?hi = Inr block"
    "\<And>p. p < width * height \<Longrightarrow> block p = column_value width (matrices hor ! i) shift2 height ?lo ?hi (\<lambda>k. tmp (p div width + k)) (p mod width)"
    using call_inv_matrix [OF assms(1,2,10), of tmp junk height ?lo ?hi] unfolding assms(5) [symmetric] by auto
  have idx: "nat (floorLog2 width - 1) = i" "nat (floorLog2 height - 1) = j"
    unfolding assms(5,6) using floorLog2_power [OF table_size(1) [OF disjI2 [OF assms(1)]]]
      floorLog2_power [OF table_size(1) [OF disjI2 [OF assms(3)]]] by (simp_all del: power_Suc)
  have skip: "skip_sizes width height False = (0, 0)"
    unfolding assms(5,6) using table_size(2) assms(1,3) by (intro skip_small) auto
  define resi where "resi = copy_block width height (\<lambda>y x. y * stride + x) (\<lambda>y x. to_pel (block (y * width + x))) resiBuf"
  have "nat (6 + int dynRange - 1 - bitDepth) = shift2" "\<not> 6 + int dynRange - 1 - bitDepth < 0" using assms(9) by linarith+
  then have "xIT hor ver bitDepth (int dynRange) False width height coeff resiBuf stride junk = Inr resi"
    using pos tmp(1) block(1) unfolding xIT_def Let_def skip prod.case idx resi_def
    by (simp add: g_transformMatrixShift_def COM16_C806_TRANS_PREC_def TRANSFORM_INVERSE_def nat_add_distrib)
  moreover have "resi (y * stride + x) = Clip3 ?lo ?hi (drop_bit shift2
         ((\<Sum>k<width. matrices hor ! i ! k ! x
             * Clip3 ?lo ?hi (drop_bit 7 ((\<Sum>l<height. matrices ver ! j ! l ! y * coeff (l * width + k)) + 64))) + 2 ^ (shift2 - 1)))"
    if yx: "y < height" "x < width" for y x
  proof -
    have "y * width + x < (y + 1) * width" using yx by simp
    also have "\<dots> \<le> height * width" using yx by (intro mult_right_mono) auto
    finally have b: "block (y * width + x) = column_value width (matrices hor ! i) shift2 height ?lo ?hi (\<lambda>k. tmp (y + k)) x"
      using block(2) [of "y * width + x"] yx by (simp add: mult.commute)
    also have "\<dots> = column_value width (matrices hor ! i) shift2 1 ?lo ?hi
        (\<lambda>k. column_value height (matrices ver ! j) 7 width ?lo ?hi (\<lambda>o'. coeff (k + o')) y) x"
    proof (rule column_value_cong)
      fix k assume k: "k < width"
      have "y + k * height < (k + 1) * height" using yx by simp
      also have "\<dots> \<le> width * height" using k by (intro mult_right_mono) auto
      finally show "tmp (y + k * height) = column_value height (matrices ver ! j) 7 width ?lo ?hi (\<lambda>o'. coeff (k + o')) y"
        using tmp(2) [of "y + k * height"] yx by (simp add: mult.commute)
    qed
    finally have c: "block (y * width + x) = \<dots>" .
    have "?lo \<le> block (y * width + x) \<and> block (y * width + x) \<le> ?hi"
      unfolding c column_value_def by (rule Clip3_range) (use one_le_power [of "2 :: int" dynRange] in linarith)
    moreover have "(2 :: int) ^ dynRange \<le> 2 ^ 15" using assms(8) by (intro power_increasing) auto
    ultimately have "to_pel (block (y * width + x)) = block (y * width + x)"
      unfolding to_pel_def by (intro signed_take_bit_int_eq_self) auto
    moreover have "resi (y * stride + x) = to_pel (block (y * width + x))"
      unfolding resi_def using yx assms(7) by (subst copy_rows) auto
    ultimately show ?thesis unfolding c column_value_def by (simp add: add.commute)
  qed
  moreover have "resi p = resiBuf p" if "width \<le> p mod stride \<or> height \<le> p div stride" for p
    unfolding resi_def using that assms(7) by (subst copy_rows) auto
  ultimately show ?thesis by blast
qed

text \<open>
  C28: Every fast transform of the tables computes exactly what the matrix multiplication of the same file
  computes with the matrix of its type and size: the partial butterflies of the cosine transform and the
  forms of the sine transform that share multiplications, forward and inverse, with lines skipped. The
  inverse transforms may be told that the last coefficients are zero.
\<close>

theorem fast_transforms_are_matrices:
  assumes "i < length (fastFwdTrans t)" "fastFwdTrans t ! i = Some f" "fastInvTrans t ! i = Some g"
    and "0 < shift" "skip \<le> line" "0 < line" "skip2 \<le> 2 ^ Suc i"
    and "\<And>k j. 2 ^ Suc i - skip2 \<le> k \<Longrightarrow> k < 2 ^ Suc i \<Longrightarrow> j < line - skip \<Longrightarrow> coeff (k * line + j) = 0"
  shows "f resi dst shift line skip 0 = fastForwardMM (2 ^ Suc i) resi dst shift line skip 0 (flat (2 ^ Suc i) (matrices t ! i))
    \<and> g coeff dst shift line skip skip2 lo hi
        = fastInverseMM (2 ^ Suc i) coeff dst shift line skip skip2 lo hi (flat (2 ^ Suc i) (matrices t ! i))"
proof -
  have "length (fastInvTrans t) = length (fastFwdTrans t)" by (cases t) simp_all
  then have "inverse_ok g (2 ^ Suc i) (matrices t ! i)" using inv_entry_matrix [of i t g] assms(1,3) by simp
  then show ?thesis using fwd_entry_matrix [OF assms(1,2,4-6)] assms(4,7,8) unfolding inverse_ok_def by blast
qed

theorem fast_transforms_are_matrices_witness:
  "fastForwardDST7_B32 (\<lambda>n. int n) (\<lambda>_. 0) 8 4 0 0 = fastForwardMM 32 (\<lambda>n. int n) (\<lambda>_. 0) 8 4 0 0 (flat 32 (g_trCoreDST7P32 ! 0))
    \<and> fastInverseDST7_B32 (\<lambda>n. if n < 64 then int n else 0) (\<lambda>_. 0) 7 4 0 16 (- 32768) 32767
      = fastInverseMM 32 (\<lambda>n. if n < 64 then int n else 0) (\<lambda>_. 0) 7 4 0 16 (- 32768) 32767 (flat 32 (g_trCoreDST7P32 ! 0))"
  using fast_transforms_are_matrices [of 4 DST7 fastForwardDST7_B32 fastInverseDST7_B32 8 0 4 16
      "\<lambda>n. if n < 64 then int n else 0" "\<lambda>n. int n" "\<lambda>_. 0" 0 0]
    fast_transforms_are_matrices [of 4 DST7 fastForwardDST7_B32 fastInverseDST7_B32 7 0 4 16
      "\<lambda>n. if n < 64 then int n else 0" "\<lambda>n. int n" "\<lambda>_. 0" "- 32768" 32767]
  by simp

theorem forward_block_is_separable_witness:
  "\<exists>coeff. xT DST7 DCT2 10 15 False 16 64 (\<lambda>n. int n mod 1021 - 510) 80 (\<lambda>_. 7) (\<lambda>_. 3) = Inr coeff
    \<and> (\<forall>l k. l < 64 \<longrightarrow> k < 16 \<longrightarrow> coeff (l * 16 + k) = drop_bit 12
         ((\<Sum>y<64. g_trCoreDCT2P64 ! 0 ! l ! y
             * drop_bit 5 ((\<Sum>x<16. g_trCoreDST7P16 ! 0 ! k ! x * (int (y * 80 + x) mod 1021 - 510)) + 2 ^ 4)) + 2 ^ 11))
    \<and> (\<forall>p\<ge>16 * 64. coeff p = 7)"
  using forward_block_is_separable [of 3 DST7 5 DCT2 16 64 80 5 10 15 "\<lambda>n. int n mod 1021 - 510" "\<lambda>_. 7" "\<lambda>_. 3"] by simp

theorem inverse_block_is_separable_witness:
  "\<exists>resi. xIT DCT8 DCT2 10 15 False 8 2 (\<lambda>n. 100 - int n) (\<lambda>_. 9) 24 (\<lambda>_. 3) = Inr resi
    \<and> (\<forall>y x. y < 2 \<longrightarrow> x < 8 \<longrightarrow> resi (y * 24 + x) = Clip3 (- 32768) 32767 (drop_bit 10
         ((\<Sum>k<8. g_trCoreDCT8P8 ! 0 ! k ! x
             * Clip3 (- 32768) 32767 (drop_bit 7 ((\<Sum>l<2. g_trCoreDCT2P2 ! 0 ! l ! y * (100 - int (l * 8 + k))) + 64))) + 512)))
    \<and> (\<forall>p. 8 \<le> p mod 24 \<or> 2 \<le> p div 24 \<longrightarrow> resi p = 9)"
  using inverse_block_is_separable [of 2 DCT8 0 DCT2 8 2 24 15 10 10 "\<lambda>n. 100 - int n" "\<lambda>_. 9" "\<lambda>_. 3"] by simp

end
