(* ===== verification/QpParams.thy ===== *)
theory QpParams
  imports CommonAlgorithms SyntaxElements
begin

unbundle bit_operations_syntax

text \<open>
  Quantisation parameters: \<open>QpParam\<close> of \<open>source/Lib/CommonLib/Quant.cpp\<close> and the mapping of chroma
  parameters, \<open>ChromaQpMappingTable\<close> of \<open>Slice.h\<close> and \<open>Slice.cpp\<close>. The parameters come from the picture,
  the slice and the coding unit; here they are arguments.
\<close>

section \<open>The mapping of chroma parameters\<close>

record ChromaQpMappingTableParams =
  m_qpBdOffset :: int
  m_sameCQPTableForAllChromaFlag :: bool
  m_numQpTables :: nat
  m_qpTableStartMinus26 :: "int list"
  m_numPtsInCQPTableMinus1 :: "nat list"
  m_deltaQpInValMinus1 :: "int list list"
  m_deltaQpOutVal :: "int list list"

datatype qp_error = qpInVal_out_of_range | qpOutVal_out_of_range | out_of_range

text \<open>A map that is read at a missing key by \<open>[]\<close> gives zero, by \<open>at\<close> an exception.\<close>

definition entry :: "(int \<rightharpoonup> int) \<Rightarrow> int \<Rightarrow> int" where
  "entry m k = (case m k of Some v \<Rightarrow> v | None \<Rightarrow> 0)"

definition qpInVal :: "ChromaQpMappingTableParams \<Rightarrow> nat \<Rightarrow> nat \<Rightarrow> int" where
  "qpInVal ps i j = m_qpTableStartMinus26 ps ! i + 26 + (\<Sum>d\<leftarrow>take j (m_deltaQpInValMinus1 ps ! i). d + 1)"

definition qpOutVal :: "ChromaQpMappingTableParams \<Rightarrow> nat \<Rightarrow> nat \<Rightarrow> int" where
  "qpOutVal ps i j = qpInVal ps i 0 + sum_list (take j (m_deltaQpOutVal ps ! i))"

definition qp_checks :: "ChromaQpMappingTableParams \<Rightarrow> nat \<Rightarrow> qp_error list" where
  "qp_checks ps i =
     concat (map (\<lambda>j. (if qpInVal ps i j < - m_qpBdOffset ps \<or> qpInVal ps i j > MAX_QP then [qpInVal_out_of_range] else [])
         @ (if qpOutVal ps i j < - m_qpBdOffset ps \<or> qpOutVal ps i j > MAX_QP then [qpOutVal_out_of_range] else []))
       [0..<Suc (m_numPtsInCQPTableMinus1 ps ! i)])"

definition map_below :: "int \<Rightarrow> int \<Rightarrow> (int \<rightharpoonup> int) \<Rightarrow> (int \<rightharpoonup> int)" where
  "map_below off start m = fold (\<lambda>k m. m(k \<mapsto> Clip3 (- off) MAX_QP (entry m (k + 1) - 1))) (rev [- off..start - 1]) m"

text \<open>The interval of a piece is empty when its length \<open>d\<close> is zero, so nothing is divided by zero.\<close>

definition map_piece :: "ChromaQpMappingTableParams \<Rightarrow> nat \<Rightarrow> nat \<Rightarrow> (int \<rightharpoonup> int) \<Rightarrow> (int \<rightharpoonup> int)" where
  "map_piece ps i j m =
     (let d = m_deltaQpInValMinus1 ps ! i ! j + 1; sh = drop_bit 1 d
      in fold (\<lambda>k m. m(k \<mapsto> entry m (qpInVal ps i j)
             + ((qpOutVal ps i (j + 1) - qpOutVal ps i j) * (k - qpInVal ps i j) + sh) sdiv d))
           [qpInVal ps i j + 1..qpInVal ps i (j + 1)] m)"

definition map_above :: "int \<Rightarrow> int \<Rightarrow> (int \<rightharpoonup> int) \<Rightarrow> (int \<rightharpoonup> int)" where
  "map_above off end m = fold (\<lambda>k m. m(k \<mapsto> Clip3 (- off) MAX_QP (entry m (k - 1) + 1))) [end + 1..MAX_QP] m"

definition derivedChromaQPMappingTables :: "ChromaQpMappingTableParams \<Rightarrow> nat \<Rightarrow> qp_error + (int \<rightharpoonup> int)" where
  "derivedChromaQPMappingTables ps i =
     (let n = m_numPtsInCQPTableMinus1 ps ! i; off = m_qpBdOffset ps
      in case qp_checks ps i of
           e # _ \<Rightarrow> Inl e
         | [] \<Rightarrow> Inr (map_above off (qpInVal ps i (n + 1))
               (fold (map_piece ps i) [0..<Suc n] (map_below off (qpInVal ps i 0) [qpInVal ps i 0 \<mapsto> qpOutVal ps i 0]))))"

text \<open>The tables one after the other; the first failing check ends it.\<close>

fun derived_tables :: "ChromaQpMappingTableParams \<Rightarrow> nat list \<Rightarrow> qp_error + (int \<rightharpoonup> int) list" where
  "derived_tables ps [] = Inr []"
| "derived_tables ps (i # is) =
     (case derivedChromaQPMappingTables ps i of
        Inl e \<Rightarrow> Inl e
      | Inr m \<Rightarrow> (case derived_tables ps is of Inl e \<Rightarrow> Inl e | Inr ms \<Rightarrow> Inr (m # ms)))"

definition getMappedChromaQpValue :: "ChromaQpMappingTableParams \<Rightarrow> (int \<rightharpoonup> int) list \<Rightarrow> nat \<Rightarrow> int \<Rightarrow> qp_error + int" where
  "getMappedChromaQpValue ps tables compID qpVal =
     (case (tables ! (if m_sameCQPTableForAllChromaFlag ps then 0 else compID - 1)) qpVal of
        Some v \<Rightarrow> Inr v | None \<Rightarrow> Inl out_of_range)"

section \<open>The parameters of a block\<close>

record QpParam =
  Qps :: "int list"
  pers :: "int list"
  rems :: "int list"

definition Qp :: "QpParam \<Rightarrow> bool \<Rightarrow> int" where "Qp q ts = Qps q ! (if ts then 1 else 0)"
definition per :: "QpParam \<Rightarrow> bool \<Rightarrow> int" where "per q ts = pers q ! (if ts then 1 else 0)"
definition qp_rem :: "QpParam \<Rightarrow> bool \<Rightarrow> int" where "qp_rem q ts = rems q ! (if ts then 1 else 0)"

definition DELTA_QP_ACT :: "int list" where "DELTA_QP_ACT = [-5, 1, 3, 1]"

text \<open>The component is 0 for luma, 1 and 2 for chroma and 3 for joint chroma.\<close>

definition new_QpParam ::
  "int \<Rightarrow> nat \<Rightarrow> int \<Rightarrow> int \<Rightarrow> int \<Rightarrow> int \<Rightarrow> (nat \<Rightarrow> int \<Rightarrow> qp_error + int) \<Rightarrow> bool \<Rightarrow> qp_error + QpParam" where
  "new_QpParam qpy compID qpBdOffset internalMinusInputBitDepth chromaQPOffset dqp mapped applyACTQpoffset =
     (case (if compID = 0 then Inr (qpy + qpBdOffset)
            else case mapped compID (Clip3 (- qpBdOffset) MAX_QP qpy) of
                   Inl e \<Rightarrow> Inl e
                 | Inr v \<Rightarrow> Inr (Clip3 (- qpBdOffset) MAX_QP (v + chromaQPOffset) + qpBdOffset)) of
        Inl e \<Rightarrow> Inl e
      | Inr baseQp \<Rightarrow>
          (let baseQp = (if applyACTQpoffset then baseQp + DELTA_QP_ACT ! compID else baseQp);
               baseQp = Clip3 0 (MAX_QP + qpBdOffset) (baseQp + dqp);
               baseQpTS = max baseQp (4 + 6 * internalMinusInputBitDepth)
           in Inr \<lparr>Qps = [baseQp, baseQpTS], pers = [baseQp sdiv 6, baseQpTS sdiv 6],
                   rems = [baseQp smod 6, baseQpTS smod 6]\<rparr>))"


section \<open>Every parameter has an image\<close>

lemma dom_fold_update: "dom (fold (\<lambda>k m. m(k \<mapsto> F k m)) ks m) = set ks \<union> dom m"
  by (induction ks arbitrary: m) auto

lemma dom_map_piece: "dom (map_piece ps i j m) = {qpInVal ps i j + 1..qpInVal ps i (j + 1)} \<union> dom m"
  by (simp add: map_piece_def Let_def dom_fold_update)

lemma dom_pieces: "{a..qpInVal ps i 0} \<subseteq> dom m \<Longrightarrow> {a..qpInVal ps i n} \<subseteq> dom (fold (map_piece ps i) [0..<n] m)"
proof (induction n)
  case (Suc n)
  then have "{a..qpInVal ps i n} \<subseteq> dom (fold (map_piece ps i) [0..<n] m)" by simp
  moreover have "{a..qpInVal ps i (Suc n)} \<subseteq> {qpInVal ps i n + 1..qpInVal ps i (Suc n)} \<union> {a..qpInVal ps i n}" by auto
  ultimately show ?case by (simp add: dom_map_piece) blast
qed simp

lemma mapping_is_total:
  assumes "derivedChromaQPMappingTables ps i = Inr m"
  shows "{- m_qpBdOffset ps..MAX_QP} \<subseteq> dom m"
proof -
  define n where "n = Suc (m_numPtsInCQPTableMinus1 ps ! i)"
  define m1 where "m1 = map_below (m_qpBdOffset ps) (qpInVal ps i 0) [qpInVal ps i 0 \<mapsto> qpOutVal ps i 0]"
  have m: "m = map_above (m_qpBdOffset ps) (qpInVal ps i n) (fold (map_piece ps i) [0..<n] m1)"
    using assms unfolding derivedChromaQPMappingTables_def Let_def n_def m1_def by (cases "qp_checks ps i") simp_all
  have "{- m_qpBdOffset ps..qpInVal ps i 0} \<subseteq> dom m1" by (auto simp: m1_def map_below_def dom_fold_update)
  from dom_pieces [OF this, of n]
  have "{- m_qpBdOffset ps..qpInVal ps i n} \<union> {qpInVal ps i n + 1..MAX_QP} \<subseteq> dom m"
    unfolding m map_above_def dom_fold_update by auto
  moreover have "{- m_qpBdOffset ps..MAX_QP} \<subseteq> {- m_qpBdOffset ps..qpInVal ps i n} \<union> {qpInVal ps i n + 1..MAX_QP}" by auto
  ultimately show ?thesis by blast
qed

lemma derived_tables_all:
  "derived_tables ps is = Inr ms \<Longrightarrow> length ms = length is
    \<and> (\<forall>j<length is. derivedChromaQPMappingTables ps (is ! j) = Inr (ms ! j))"
proof (induction "is" arbitrary: ms)
  case (Cons i "is")
  then obtain m ms' where "derivedChromaQPMappingTables ps i = Inr m" "derived_tables ps is = Inr ms'" "ms = m # ms'"
    by (auto split: sum.splits)
  then show ?case using Cons.IH [of ms'] by (auto simp: nth_Cons split: nat.splits)
qed simp

definition qp_tables :: "ChromaQpMappingTableParams \<Rightarrow> qp_error + (int \<rightharpoonup> int) list" where
  "qp_tables ps = derived_tables ps [0..<m_numQpTables ps]"

definition has_table :: "ChromaQpMappingTableParams \<Rightarrow> nat \<Rightarrow> bool" where
  "has_table ps compID \<longleftrightarrow> (if m_sameCQPTableForAllChromaFlag ps then 0 else compID - 1) < m_numQpTables ps"

lemma mapped_value:
  assumes "qp_tables ps = Inr tables" and "has_table ps compID" and "- m_qpBdOffset ps \<le> v" "v \<le> MAX_QP"
  shows "\<exists>x. getMappedChromaQpValue ps tables compID v = Inr x"
proof -
  define i where "i = (if m_sameCQPTableForAllChromaFlag ps then 0 else compID - 1)"
  have "derivedChromaQPMappingTables ps i = Inr (tables ! i)"
    using derived_tables_all [OF assms(1) [unfolded qp_tables_def]] assms(2) by (auto simp: i_def has_table_def)
  from mapping_is_total [OF this] have "v \<in> dom (tables ! i)" using assms(3,4) by auto
  then show ?thesis unfolding getMappedChromaQpValue_def i_def [symmetric] by auto
qed

text \<open>
  C36: The quantisation parameter of a block always exists and is legal. Once the mapping tables have passed
  their checks, the constructor looks up no chroma parameter outside a table, whatever the parameter of the
  coding unit and the offsets are; the result lies between 0 and the largest parameter of the bit depth, the
  one for transform skip is at least the smallest that loses nothing, and quotient and remainder by six put
  each together again.
\<close>

theorem qp_param_legal:
  assumes "qp_tables ps = Inr tables" and "compID = 0 \<or> has_table ps compID" and "0 \<le> m_qpBdOffset ps"
    and "0 \<le> internalMinusInputBitDepth"
  shows "\<exists>q. new_QpParam qpy compID (m_qpBdOffset ps) internalMinusInputBitDepth off dqp (getMappedChromaQpValue ps tables) act = Inr q
    \<and> 0 \<le> Qp q False \<and> Qp q False \<le> MAX_QP + m_qpBdOffset ps
    \<and> Qp q True = max (Qp q False) (4 + 6 * internalMinusInputBitDepth)
    \<and> (\<forall>ts. Qp q ts = 6 * per q ts + qp_rem q ts \<and> 0 \<le> qp_rem q ts \<and> qp_rem q ts < 6)"
proof -
  have split: "x = 6 * (x sdiv 6) + x smod 6 \<and> 0 \<le> x smod 6 \<and> x smod 6 < 6" if "0 \<le> x" for x :: int
    using that by (simp add: signed_divide_int_def signed_modulo_int_def sgn_if) presburger?
  define base where "base = (if compID = 0 then Inr (qpy + m_qpBdOffset ps)
            else case getMappedChromaQpValue ps tables compID (Clip3 (- m_qpBdOffset ps) MAX_QP qpy) of
                   Inl e \<Rightarrow> Inl e
                 | Inr v \<Rightarrow> Inr (Clip3 (- m_qpBdOffset ps) MAX_QP (v + off) + m_qpBdOffset ps))"
  obtain b where b: "base = Inr b"
  proof (cases "compID = 0")
    case False
    have "- m_qpBdOffset ps \<le> Clip3 (- m_qpBdOffset ps) MAX_QP qpy" "Clip3 (- m_qpBdOffset ps) MAX_QP qpy \<le> MAX_QP"
      using assms(3) by (auto simp: Clip3_def MAX_QP_def)
    then obtain v where "getMappedChromaQpValue ps tables compID (Clip3 (- m_qpBdOffset ps) MAX_QP qpy) = Inr v"
      using mapped_value [OF assms(1)] assms(2) False by blast
    then have "base = Inr (Clip3 (- m_qpBdOffset ps) MAX_QP (v + off) + m_qpBdOffset ps)" using False by (simp add: base_def)
    then show ?thesis by (rule that)
  next
    case True
    then show ?thesis using that [of "qpy + m_qpBdOffset ps"] by (simp add: base_def)
  qed
  define c where "c = Clip3 0 (MAX_QP + m_qpBdOffset ps) ((if act then b + DELTA_QP_ACT ! compID else b) + dqp)"
  have c: "0 \<le> c" "c \<le> MAX_QP + m_qpBdOffset ps" using assms(3) by (auto simp: c_def Clip3_def MAX_QP_def)
  have "0 \<le> max c (4 + 6 * internalMinusInputBitDepth)" using c by simp
  note cs = split [OF c(1)] split [OF this]
  show ?thesis
    unfolding new_QpParam_def base_def [symmetric] b sum.case Let_def c_def [symmetric]
    using c cs by (auto simp: Qp_def per_def qp_rem_def)
qed

definition sample_mapping :: ChromaQpMappingTableParams where
  "sample_mapping = \<lparr>m_qpBdOffset = 2, m_sameCQPTableForAllChromaFlag = True, m_numQpTables = 1,
     m_qpTableStartMinus26 = [-23], m_numPtsInCQPTableMinus1 = [1], m_deltaQpInValMinus1 = [[3, 1]], m_deltaQpOutVal = [[2, 4]]\<rparr>"

theorem qp_param_legal_witness:
  "\<exists>tables q. qp_tables sample_mapping = Inr tables
    \<and> new_QpParam 30 1 2 0 (-1) 0 (getMappedChromaQpValue sample_mapping tables) True = Inr q \<and> 0 \<le> Qp q False"
proof -
  have "qp_checks sample_mapping 0 = []"
    by (simp add: sample_mapping_def qp_checks_def qpInVal_def qpOutVal_def MAX_QP_def)
  then have "\<exists>tables. qp_tables sample_mapping = Inr tables"
    by (simp add: qp_tables_def sample_mapping_def derivedChromaQPMappingTables_def)
  then obtain tables where t: "qp_tables sample_mapping = Inr tables" ..
  show ?thesis
    using qp_param_legal [OF t, of 1 0 30 "-1" 0 True] t by (auto simp: sample_mapping_def has_table_def)
qed

text \<open>
  The checks look at the points up to the number that is coded, minus one; the last point the deltas lead to
  is not among them, and its value goes into the table as it is.
\<close>

theorem last_mapping_point_unchecked:
  "\<exists>ps m. derivedChromaQPMappingTables ps 0 = Inr m \<and> m 63 = Some 70"
proof -
  define ps where "ps = sample_mapping\<lparr>m_qpTableStartMinus26 := [36], m_numPtsInCQPTableMinus1 := [0],
    m_deltaQpInValMinus1 := [[0]], m_deltaQpOutVal := [[8]]\<rparr>"
  have "qp_checks ps 0 = []" by (simp add: ps_def sample_mapping_def qp_checks_def qpInVal_def qpOutVal_def MAX_QP_def)
  then have "derivedChromaQPMappingTables ps 0 = Inr (map_above 2 63 (map_piece ps 0 0 (map_below 2 62 [62 \<mapsto> 62])))"
    by (simp add: derivedChromaQPMappingTables_def Let_def ps_def sample_mapping_def qpInVal_def qpOutVal_def)
  moreover have "fold (\<lambda>k m. m(k \<mapsto> F k m)) ks m 62 = m 62" if "62 \<notin> set ks" for F ks and m :: "int \<rightharpoonup> int"
    using that by (induction ks arbitrary: m) auto
  then have "map_below 2 62 [62 \<mapsto> 62] 62 = Some 62" unfolding map_below_def by auto
  moreover have "map_piece ps 0 0 m 63 = Some (entry m 62 + 8)" for m
    by (simp add: map_piece_def ps_def sample_mapping_def qpInVal_def qpOutVal_def signed_divide_int_def)
  moreover have "map_above 2 63 m = m" for m by (simp add: map_above_def MAX_QP_def)
  ultimately have "derivedChromaQPMappingTables ps 0 = Inr (map_piece ps 0 0 (map_below 2 62 [62 \<mapsto> 62]))
      \<and> map_piece ps 0 0 (map_below 2 62 [62 \<mapsto> 62]) 63 = Some 70" by (simp add: entry_def)
  then show ?thesis by blast
qed

end
