(* ===== verification/ScanOrder.thy ===== *)
theory ScanOrder
  imports CommonAlgorithms
begin

unbundle bit_operations_syntax

text \<open>
  The scans of \<open>source/Lib/CommonLib/Rom.cpp\<close>: the generator \<open>ScanGenerator\<close> that walks over the positions of
  a block, and the tables \<open>initROM\<close> fills with it, one scan over all positions of a block and one that goes
  group by group. The sizes are the powers of two up to \<open>MAX_CU_SIZE\<close>, so a table is named by the width
  and height of the block instead of the indices of \<open>SizeIndexInfoLog2\<close>.
\<close>

section \<open>The generator\<close>

datatype CoeffScanType = SCAN_DIAG | SCAN_TRAV_HOR | SCAN_TRAV_VER

record ScanGenerator =
  m_line :: nat
  m_column :: nat
  m_blockWidth :: nat
  m_blockHeight :: nat
  m_stride :: nat
  m_scanType :: CoeffScanType

definition new_ScanGenerator :: "nat \<Rightarrow> nat \<Rightarrow> nat \<Rightarrow> CoeffScanType \<Rightarrow> ScanGenerator" where
  "new_ScanGenerator blockWidth blockHeight stride scanType =
     \<lparr>m_line = 0, m_column = 0, m_blockWidth = blockWidth, m_blockHeight = blockHeight, m_stride = stride,
      m_scanType = scanType\<rparr>"

definition GetCurrentX :: "ScanGenerator \<Rightarrow> nat" where "GetCurrentX g = m_column g"
definition GetCurrentY :: "ScanGenerator \<Rightarrow> nat" where "GetCurrentY g = m_line g"

text \<open>The switch that moves line and column to the next position.\<close>

fun advance :: "CoeffScanType \<Rightarrow> nat \<Rightarrow> nat \<Rightarrow> nat \<times> nat \<Rightarrow> nat \<times> nat" where
  "advance SCAN_DIAG w h (line, column) =
     (if column = w - 1 \<or> line = 0
      then let line = line + column + 1
           in if line \<ge> h then (h - 1, line - (h - 1)) else (line, 0)
      else (line - 1, column + 1))"
| "advance SCAN_TRAV_HOR w h (line, column) =
     (if line mod 2 = 0
      then if column = w - 1 then (line + 1, w - 1) else (line, column + 1)
      else if column = 0 then (line + 1, 0) else (line, column - 1))"
| "advance SCAN_TRAV_VER w h (line, column) =
     (if column mod 2 = 0
      then if line = h - 1 then (h - 1, column + 1) else (line + 1, column)
      else if line = 0 then (0, column + 1) else (line - 1, column))"

definition GetNextIndex :: "nat \<Rightarrow> nat \<Rightarrow> ScanGenerator \<Rightarrow> nat \<times> ScanGenerator" where
  "GetNextIndex blockOffsetX blockOffsetY g =
     (let rtn = (m_line g + blockOffsetY) * m_stride g + m_column g + blockOffsetX;
          (line, column) = advance (m_scanType g) (m_blockWidth g) (m_blockHeight g) (m_line g, m_column g)
      in (rtn, g\<lparr>m_line := line, m_column := column\<rparr>))"

section \<open>The tables\<close>

record ScanElement =
  scan_idx :: nat
  scan_x :: nat
  scan_y :: nat

definition scan_element :: "nat \<Rightarrow> nat \<Rightarrow> ScanElement" where
  "scan_element blockWidth rasterPos =
     (let posY = rasterPos div blockWidth
      in \<lparr>scan_idx = rasterPos, scan_x = rasterPos - posY * blockWidth, scan_y = posY\<rparr>)"

text \<open>The loop over the positions of a block or of a group.\<close>

primrec scan_loop :: "nat \<Rightarrow> nat \<Rightarrow> nat \<Rightarrow> nat \<Rightarrow> ScanGenerator \<Rightarrow> ScanElement list" where
  "scan_loop blockWidth offsetX offsetY 0 g = []"
| "scan_loop blockWidth offsetX offsetY (Suc n) g =
     (let (rasterPos, g) = GetNextIndex offsetX offsetY g
      in scan_element blockWidth rasterPos # scan_loop blockWidth offsetX offsetY n g)"

definition scan_ungrouped :: "CoeffScanType \<Rightarrow> nat \<Rightarrow> nat \<Rightarrow> ScanElement list" where
  "scan_ungrouped scanType blockWidth blockHeight =
     scan_loop blockWidth 0 0 (blockWidth * blockHeight) (new_ScanGenerator blockWidth blockHeight blockWidth scanType)"

text \<open>The sizes of the groups, by the logarithms of width and height.\<close>

definition g_log2SbbSize :: "(nat \<times> nat) list list" where
  "g_log2SbbSize =
    [[(0, 0), (0, 1), (0, 2), (0, 3), (0, 4), (0, 4), (0, 4), (0, 4), (0, 4)],
     [(1, 0), (1, 1), (1, 1), (1, 3), (1, 3), (1, 3), (1, 3), (1, 3), (1, 3)],
     [(2, 0), (1, 1), (2, 2), (2, 2), (2, 2), (2, 2), (2, 2), (2, 2), (2, 2)],
     [(3, 0), (3, 1), (2, 2), (2, 2), (2, 2), (2, 2), (2, 2), (2, 2), (2, 2)],
     [(4, 0), (3, 1), (2, 2), (2, 2), (2, 2), (2, 2), (2, 2), (2, 2), (2, 2)],
     [(4, 0), (3, 1), (2, 2), (2, 2), (2, 2), (2, 2), (2, 2), (2, 2), (2, 2)],
     [(4, 0), (3, 1), (2, 2), (2, 2), (2, 2), (2, 2), (2, 2), (2, 2), (2, 2)],
     [(4, 0), (3, 1), (2, 2), (2, 2), (2, 2), (2, 2), (2, 2), (2, 2), (2, 2)],
     [(4, 0), (3, 1), (2, 2), (2, 2), (2, 2), (2, 2), (2, 2), (2, 2), (2, 2)]]"

definition log2Sbb :: "nat \<Rightarrow> nat \<Rightarrow> nat \<times> nat" where
  "log2Sbb blockWidth blockHeight = g_log2SbbSize ! nat (floorLog2 blockWidth) ! nat (floorLog2 blockHeight)"

definition MAX_CU_DEPTH :: nat where "MAX_CU_DEPTH = 8"

text \<open>The loop over the groups; the generator of the groups also yields the position of the group.\<close>

primrec group_loop :: "CoeffScanType \<Rightarrow> nat \<Rightarrow> nat \<Rightarrow> nat \<Rightarrow> nat \<Rightarrow> ScanGenerator \<Rightarrow> ScanElement list" where
  "group_loop scanType blockWidth groupWidth groupHeight 0 fullBlockScan = []"
| "group_loop scanType blockWidth groupWidth groupHeight (Suc n) fullBlockScan =
     scan_loop blockWidth (GetCurrentX fullBlockScan * groupWidth) (GetCurrentY fullBlockScan * groupHeight)
       (groupWidth * groupHeight) (new_ScanGenerator groupWidth groupHeight blockWidth scanType)
     @ group_loop scanType blockWidth groupWidth groupHeight n (snd (GetNextIndex 0 0 fullBlockScan))"

text \<open>A block beyond the limit is filled with its last position first; the groups overwrite the start.\<close>

definition scan_grouped :: "CoeffScanType \<Rightarrow> nat \<Rightarrow> nat \<Rightarrow> ScanElement list" where
  "scan_grouped scanType blockWidth blockHeight =
     (let totalValues = blockWidth * blockHeight;
          (log2CGWidth, log2CGHeight) = log2Sbb blockWidth blockHeight;
          groupWidth = 2 ^ log2CGWidth; groupHeight = 2 ^ log2CGHeight;
          widthInGroups = min JVET_C0024_ZERO_OUT_TH blockWidth div 2 ^ log2CGWidth;
          heightInGroups = min JVET_C0024_ZERO_OUT_TH blockHeight div 2 ^ log2CGHeight;
          groups = group_loop scanType blockWidth groupWidth groupHeight (widthInGroups * heightInGroups)
            (new_ScanGenerator widthInGroups heightInGroups groupWidth scanType)
      in if blockWidth > JVET_C0024_ZERO_OUT_TH \<or> blockHeight > JVET_C0024_ZERO_OUT_TH
         then groups @ replicate (totalValues - length groups)
           \<lparr>scan_idx = totalValues - 1, scan_x = blockWidth - 1, scan_y = blockHeight - 1\<rparr>
         else groups)"

datatype CoeffScanGroupType = SCAN_UNGROUPED | SCAN_GROUPED_4x4

fun g_scanOrder :: "CoeffScanGroupType \<Rightarrow> CoeffScanType \<Rightarrow> nat \<Rightarrow> nat \<Rightarrow> ScanElement list" where
  "g_scanOrder SCAN_UNGROUPED scanType blockWidth blockHeight = scan_ungrouped scanType blockWidth blockHeight"
| "g_scanOrder SCAN_GROUPED_4x4 scanType blockWidth blockHeight = scan_grouped scanType blockWidth blockHeight"

section \<open>The positions a generator visits\<close>

primrec walk :: "CoeffScanType \<Rightarrow> nat \<Rightarrow> nat \<Rightarrow> nat \<Rightarrow> nat \<times> nat \<Rightarrow> (nat \<times> nat) list" where
  "walk t w h 0 p = []"
| "walk t w h (Suc n) p = p # walk t w h n (advance t w h p)"

definition after :: "CoeffScanType \<Rightarrow> nat \<Rightarrow> nat \<Rightarrow> nat \<Rightarrow> nat \<times> nat \<Rightarrow> nat \<times> nat" where
  "after t w h n p = (advance t w h ^^ n) p"

lemma after_0 [simp]: "after t w h 0 p = p"
  by (simp add: after_def)

lemma after_Suc: "after t w h (Suc n) p = after t w h n (advance t w h p)"
  unfolding after_def funpow_Suc_right o_apply ..

lemma after_add: "after t w h (m + n) p = after t w h n (after t w h m p)"
  by (simp add: after_def funpow_add add.commute [of m n])

lemma walk_add: "walk t w h (m + n) p = walk t w h m p @ walk t w h n (after t w h m p)"
  by (induction m arbitrary: p) (simp_all add: after_Suc)

lemma length_walk [simp]: "length (walk t w h n p) = n"
  by (induction n arbitrary: p) simp_all

text \<open>The positions of a block, as lines and columns.\<close>

definition block_positions :: "nat \<Rightarrow> nat \<Rightarrow> (nat \<times> nat) set" where
  "block_positions w h = {..<h} \<times> {..<w}"

lemma card_block_positions: "card (block_positions w h) = w * h"
  by (simp add: block_positions_def)

definition tiles :: "(nat \<times> nat) list \<Rightarrow> nat \<Rightarrow> nat \<Rightarrow> bool" where
  "tiles ps w h \<longleftrightarrow> distinct ps \<and> set ps = block_positions w h"

lemma covers_length: "tiles ps w h \<Longrightarrow> length ps = w * h"
  using distinct_card [of ps] by (auto simp: tiles_def card_block_positions)

subsection \<open>The diagonal scan\<close>

text \<open>The first position of diagonal \<open>d\<close>, and the whole diagonal.\<close>

definition diagonal_start :: "nat \<Rightarrow> nat \<Rightarrow> nat \<times> nat" where
  "diagonal_start h d = (min d (h - 1), d - min d (h - 1))"

definition diagonal :: "nat \<Rightarrow> nat \<Rightarrow> nat \<Rightarrow> (nat \<times> nat) list" where
  "diagonal w h d = map (\<lambda>c. (d - c, c)) [d - (h - 1)..<Suc (min d (w - 1))]"

lemma diagonal_run:
  "k \<le> l \<Longrightarrow> c + k < w \<Longrightarrow>
    walk SCAN_DIAG w h (Suc k) (l, c) = map (\<lambda>i. (l - i, c + i)) [0..<Suc k] \<and> after SCAN_DIAG w h k (l, c) = (l - k, c + k)"
proof (induction k arbitrary: l c)
  case (Suc k)
  have a: "advance SCAN_DIAG w h (l, c) = (l - 1, c + 1)" using Suc.prems by (simp add: Let_def)
  have IH: "walk SCAN_DIAG w h (Suc k) (l - 1, c + 1) = map (\<lambda>i. (l - 1 - i, c + 1 + i)) [0..<Suc k]
      \<and> after SCAN_DIAG w h k (l - 1, c + 1) = (l - 1 - k, c + 1 + k)"
    using Suc.prems by (intro Suc.IH) auto
  have m: "map (\<lambda>i. (l - i, c + i)) [0..<Suc (Suc k)] = (l, c) # map (\<lambda>i. (l - 1 - i, c + 1 + i)) [0..<Suc k]"
    by (rule nth_equalityI) (auto simp: nth_Cons' simp del: upt_Suc)
  show ?case unfolding m walk.simps(2) [of _ _ _ "Suc k"] a after_Suc using IH by simp
qed simp

lemma diagonal_step:
  assumes "d < w + h - 1" "0 < w" "0 < h"
  shows "walk SCAN_DIAG w h (length (diagonal w h d)) (diagonal_start h d) = diagonal w h d"
    and "after SCAN_DIAG w h (length (diagonal w h d)) (diagonal_start h d) = diagonal_start h (Suc d)"
proof -
  define l c where "l = min d (h - 1)" and "c = d - (h - 1)"
  have lc: "l + c = d" "diagonal_start h d = (l, c)" by (auto simp: l_def c_def diagonal_start_def)
  have cw: "c \<le> min d (w - 1)" using assms by (auto simp: c_def)
  define k where "k = min d (w - 1) - c"
  have len: "length (diagonal w h d) = Suc k" unfolding diagonal_def c_def [symmetric] using cw by (simp add: k_def)
  have k: "k \<le> l" "c + k < w" using cw lc(1) assms(2) by (auto simp: k_def)
  note run = diagonal_run [OF k, of h]
  have up: "[c..<Suc (min d (w - 1))] = map (\<lambda>i. c + i) [0..<Suc k]"
    by (rule nth_equalityI) (use cw in \<open>auto simp: k_def simp del: upt_Suc\<close>)
  have "diagonal w h d = map (\<lambda>i. (l - i, c + i)) [0..<Suc k]"
    unfolding diagonal_def c_def [symmetric] up map_map o_def by (intro map_cong) (use lc(1) in auto)
  then show "walk SCAN_DIAG w h (length (diagonal w h d)) (diagonal_start h d) = diagonal w h d"
    using run lc len by simp
  have e: "c + k = w - 1 \<or> l - k = 0" using lc(1) cw by (auto simp: k_def min_def split: if_splits)
  have "after SCAN_DIAG w h (k + 1) (l, c) = advance SCAN_DIAG w h (l - k, c + k)"
    unfolding after_add using run by (simp add: after_def)
  also have "\<dots> = diagonal_start h (Suc d)"
    using e lc(1) k(1) assms(3) by (auto simp: diagonal_start_def Let_def)
  finally show "after SCAN_DIAG w h (length (diagonal w h d)) (diagonal_start h d) = diagonal_start h (Suc d)"
    using lc len by simp
qed

lemma diagonals_walk:
  assumes "0 < w" "0 < h"
  shows "m \<le> w + h - 1 \<Longrightarrow>
    walk SCAN_DIAG w h (length (concat (map (diagonal w h) [0..<m]))) (0, 0) = concat (map (diagonal w h) [0..<m])
    \<and> after SCAN_DIAG w h (length (concat (map (diagonal w h) [0..<m]))) (0, 0) = diagonal_start h m"
proof (induction m)
  case 0
  then show ?case by (simp add: diagonal_start_def)
next
  case (Suc m)
  then have m: "m < w + h - 1" "m \<le> w + h - 1" by simp_all
  show ?case
    using Suc.IH [OF m(2)] diagonal_step [OF m(1) assms] by (simp add: walk_add after_add)
qed

lemma in_diagonal: "p \<in> set (diagonal w h d) \<longleftrightarrow> fst p + snd p = d \<and> fst p < h \<and> snd p < w" if "0 < w" "0 < h"
  using that by (cases p) (auto simp: diagonal_def image_iff)

lemma diagonals_cover:
  assumes "0 < w" "0 < h"
  shows "tiles (concat (map (diagonal w h) [0..<w + h - 1])) w h"
proof -
  have s: "set (concat (map (diagonal w h) [0..<w + h - 1])) = block_positions w h"
    using in_diagonal [OF assms] by (fastforce simp: block_positions_def)
  have "distinct (concat (map (diagonal w h) ds)) \<and> set ds = ds_set" if "distinct ds" "ds_set = set ds" for ds ds_set
    using that
  proof (induction ds arbitrary: ds_set)
    case (Cons d ds)
    have "distinct (diagonal w h d)" by (auto simp: diagonal_def distinct_map inj_on_def)
    moreover have "set (diagonal w h d) \<inter> set (diagonal w h e) = {}" if "e \<in> set ds" for e
      using that Cons.prems in_diagonal [OF assms] by (auto simp: disjoint_iff)
    ultimately show ?case using Cons by auto
  qed simp
  then have "distinct (concat (map (diagonal w h) [0..<w + h - 1]))" by simp
  then show ?thesis using s by (simp add: tiles_def)
qed

lemma diagonal_covers: "0 < w \<Longrightarrow> 0 < h \<Longrightarrow> tiles (walk SCAN_DIAG w h (w * h) (0, 0)) w h"
  and diagonal_walk: "0 < w \<Longrightarrow> 0 < h \<Longrightarrow> walk SCAN_DIAG w h (w * h) (0, 0) = concat (map (diagonal w h) [0..<w + h - 1])"
  using diagonals_walk [of w h "w + h - 1"] diagonals_cover [of w h] covers_length [of "concat (map (diagonal w h) [0..<w + h - 1])" w h]
  by auto

subsection \<open>The traverse scans\<close>

definition row :: "nat \<Rightarrow> nat \<Rightarrow> (nat \<times> nat) list" where
  "row w r = map (Pair r) (if even r then [0..<w] else rev [0..<w])"

definition row_start :: "nat \<Rightarrow> nat \<Rightarrow> nat \<times> nat" where
  "row_start w r = (r, if even r then 0 else w - 1)"

lemma row_run_right:
  "even r \<Longrightarrow> c + k < w \<Longrightarrow>
    walk SCAN_TRAV_HOR w h (Suc k) (r, c) = map (Pair r) [c..<Suc (c + k)] \<and> after SCAN_TRAV_HOR w h k (r, c) = (r, c + k)"
proof (induction k arbitrary: c)
  case (Suc k)
  have a: "advance SCAN_TRAV_HOR w h (r, c) = (r, Suc c)" using Suc.prems by simp
  have "walk SCAN_TRAV_HOR w h (Suc k) (r, Suc c) = map (Pair r) [Suc c..<Suc (Suc c + k)]
      \<and> after SCAN_TRAV_HOR w h k (r, Suc c) = (r, Suc c + k)"
    using Suc.prems by (intro Suc.IH) auto
  then show ?case unfolding walk.simps(2) [of _ _ _ "Suc k"] a after_Suc by (simp add: upt_conv_Cons del: upt_Suc)
qed simp

lemma row_run_left:
  "odd r \<Longrightarrow> k \<le> c \<Longrightarrow>
    walk SCAN_TRAV_HOR w h (Suc k) (r, c) = map (Pair r) (rev [c - k..<Suc c]) \<and> after SCAN_TRAV_HOR w h k (r, c) = (r, c - k)"
proof (induction k arbitrary: c)
  case (Suc k)
  then have c: "0 < c" by simp
  have a: "advance SCAN_TRAV_HOR w h (r, c) = (r, c - 1)" using Suc.prems by (simp add: even_iff_mod_2_eq_zero)
  have "walk SCAN_TRAV_HOR w h (Suc k) (r, c - 1) = map (Pair r) (rev [c - 1 - k..<Suc (c - 1)])
      \<and> after SCAN_TRAV_HOR w h k (r, c - 1) = (r, c - 1 - k)"
    using Suc.prems by (intro Suc.IH) auto
  moreover have "rev [c - Suc k..<Suc c] = c # rev [c - 1 - k..<Suc (c - 1)]" using c by simp
  ultimately show ?case unfolding walk.simps(2) [of _ _ _ "Suc k"] a after_Suc by simp
qed simp

lemma row_step:
  assumes "0 < w"
  shows "walk SCAN_TRAV_HOR w h w (row_start w r) = row w r" and "after SCAN_TRAV_HOR w h w (row_start w r) = row_start w (Suc r)"
proof -
  have w: "w = (w - 1) + 1" using assms by simp
  have "walk SCAN_TRAV_HOR w h w (row_start w r) = row w r
      \<and> after SCAN_TRAV_HOR w h (w - 1) (row_start w r) = (r, if even r then w - 1 else 0)"
    using row_run_right [of r 0 "w - 1" w h] row_run_left [of r "w - 1" "w - 1" w h] assms
    by (auto simp: row_def row_start_def)
  moreover have "after SCAN_TRAV_HOR w h w (row_start w r)
      = advance SCAN_TRAV_HOR w h (after SCAN_TRAV_HOR w h (w - 1) (row_start w r))"
    using after_add [of SCAN_TRAV_HOR w h "w - 1" 1 "row_start w r"] w by (simp add: after_def)
  ultimately show "walk SCAN_TRAV_HOR w h w (row_start w r) = row w r"
    and "after SCAN_TRAV_HOR w h w (row_start w r) = row_start w (Suc r)"
    by (cases "even r"; simp add: row_start_def even_iff_mod_2_eq_zero [symmetric] odd_iff_mod_2_eq_one [symmetric])+
qed

lemma rows_walk:
  assumes "0 < w"
  shows "walk SCAN_TRAV_HOR w h (m * w) (0, 0) = concat (map (row w) [0..<m])
    \<and> after SCAN_TRAV_HOR w h (m * w) (0, 0) = row_start w m"
proof (induction m)
  case (Suc m)
  have "Suc m * w = m * w + w" by simp
  then show ?case using Suc.IH row_step [OF assms, of h m] by (simp only: walk_add after_add upt_Suc_append map_append concat_append) simp
qed (simp add: row_start_def)

lemma hor_covers: "0 < w \<Longrightarrow> 0 < h \<Longrightarrow> tiles (walk SCAN_TRAV_HOR w h (w * h) (0, 0)) w h"
proof -
  assume w: "0 < w"
  have "distinct (concat (map (row w) [0..<m])) \<and> set (concat (map (row w) [0..<m])) = block_positions w m" for m
    by (induction m) (auto simp: row_def block_positions_def distinct_map inj_on_def less_Suc_eq)
  then show ?thesis using rows_walk [OF w, of h h] by (simp add: tiles_def mult.commute [of w h])
qed

lemma ver_is_hor: "walk SCAN_TRAV_VER w h n p = map prod.swap (walk SCAN_TRAV_HOR h w n (prod.swap p))"
proof (induction n arbitrary: p)
  case (Suc n)
  have a: "prod.swap (advance SCAN_TRAV_VER w h p) = advance SCAN_TRAV_HOR h w (prod.swap p)" by (cases p) simp
  show ?case unfolding walk.simps(2) list.map Suc.IH a by simp
qed simp

lemma covers_swap: "tiles ps w h \<Longrightarrow> tiles (map prod.swap ps) h w"
  by (simp add: tiles_def distinct_map block_positions_def product_swap inj_on_def)

lemma ver_covers: "0 < w \<Longrightarrow> 0 < h \<Longrightarrow> tiles (walk SCAN_TRAV_VER w h (w * h) (0, 0)) w h"
  unfolding ver_is_hor using covers_swap [OF hor_covers [of h w]] by (simp add: mult.commute)

section \<open>What the tables contain\<close>

text \<open>The element of a position, and the positions of a scan that goes group by group.\<close>

definition raster :: "nat \<Rightarrow> nat \<times> nat \<Rightarrow> ScanElement" where
  "raster w p = \<lparr>scan_idx = fst p * w + snd p, scan_x = snd p, scan_y = fst p\<rparr>"

definition in_groups :: "nat \<Rightarrow> nat \<Rightarrow> (nat \<times> nat) list \<Rightarrow> (nat \<times> nat) list \<Rightarrow> (nat \<times> nat) list" where
  "in_groups gw gh gs ps = concat (map (\<lambda>(gl, gc). map (\<lambda>(l, c). (gl * gh + l, gc * gw + c)) ps) gs)"

lemma in_groups_iff:
  "p \<in> set (in_groups gw gh gs ps) \<longleftrightarrow> (\<exists>g\<in>set gs. \<exists>q\<in>set ps. p = (fst g * gh + fst q, snd g * gw + snd q))"
  by (auto simp: in_groups_def split_def)

lemma scan_loop_eq:
  "(\<And>p. p \<in> set (walk (m_scanType g) (m_blockWidth g) (m_blockHeight g) n (m_line g, m_column g)) \<Longrightarrow> snd p + ox < m_stride g) \<Longrightarrow>
    scan_loop (m_stride g) ox oy n g
    = map (\<lambda>p. raster (m_stride g) (fst p + oy, snd p + ox))
        (walk (m_scanType g) (m_blockWidth g) (m_blockHeight g) n (m_line g, m_column g))"
proof (induction n arbitrary: g)
  case (Suc n)
  obtain l c where a: "advance (m_scanType g) (m_blockWidth g) (m_blockHeight g) (m_line g, m_column g) = (l, c)" by fastforce
  define g' where "g' = g\<lparr>m_line := l, m_column := c\<rparr>"
  have g': "m_scanType g' = m_scanType g" "m_blockWidth g' = m_blockWidth g" "m_blockHeight g' = m_blockHeight g"
    "m_stride g' = m_stride g" "m_line g' = l" "m_column g' = c" by (simp_all add: g'_def)
  have b: "m_column g + ox < m_stride g" using Suc.prems [of "(m_line g, m_column g)"] by simp
  have e: "scan_element (m_stride g) ((m_line g + oy) * m_stride g + m_column g + ox) = raster (m_stride g) (m_line g + oy, m_column g + ox)"
    using b by (simp add: scan_element_def raster_def Let_def add.assoc)
  have "scan_loop (m_stride g') ox oy n g'
    = map (\<lambda>p. raster (m_stride g') (fst p + oy, snd p + ox))
        (walk (m_scanType g') (m_blockWidth g') (m_blockHeight g') n (m_line g', m_column g'))"
    using Suc.prems by (intro Suc.IH) (simp add: g' a)
  then show ?case by (simp add: GetNextIndex_def a g'_def [symmetric] g' e)
qed simp

lemma scan_loop_at:
  assumes "\<And>p. p \<in> set (walk t w h n (0, 0)) \<Longrightarrow> snd p + ox < s"
  shows "scan_loop s ox oy n (new_ScanGenerator w h s t) = map (\<lambda>p. raster s (fst p + oy, snd p + ox)) (walk t w h n (0, 0))"
proof -
  have g: "m_scanType (new_ScanGenerator w h s t) = t" "m_blockWidth (new_ScanGenerator w h s t) = w"
    "m_blockHeight (new_ScanGenerator w h s t) = h" "m_stride (new_ScanGenerator w h s t) = s"
    "m_line (new_ScanGenerator w h s t) = 0" "m_column (new_ScanGenerator w h s t) = 0"
    by (simp_all add: new_ScanGenerator_def)
  show ?thesis by (rule scan_loop_eq [of "new_ScanGenerator w h s t" n ox oy, unfolded g, OF assms])
qed

lemma scan_ungrouped_eq:
  assumes "tiles (walk t w h (w * h) (0, 0)) w h"
  shows "scan_ungrouped t w h = map (raster w) (walk t w h (w * h) (0, 0))"
proof -
  have "snd p + 0 < w" if "p \<in> set (walk t w h (w * h) (0, 0))" for p
  proof -
    have "p \<in> block_positions w h" using assms that by (simp only: tiles_def)
    then show ?thesis by (simp add: block_positions_def mem_Times_iff)
  qed
  from scan_loop_at [of t w h "w * h" 0 w 0, OF this]
  show ?thesis by (simp only: scan_ungrouped_def add_0_right prod.collapse)
qed

text \<open>The positions group by group.\<close>

lemma group_loop_eq:
  assumes "\<And>p q. p \<in> set (walk t (m_blockWidth g) (m_blockHeight g) n (m_line g, m_column g)) \<Longrightarrow>
      q \<in> set (walk t gw gh (gw * gh) (0, 0)) \<Longrightarrow> snd q + snd p * gw < s"
    and "m_scanType g = t"
  shows "group_loop t s gw gh n g
    = map (raster s) (in_groups gw gh (walk t (m_blockWidth g) (m_blockHeight g) n (m_line g, m_column g)) (walk t gw gh (gw * gh) (0, 0)))"
  using assms
proof (induction n arbitrary: g)
  case (Suc n)
  obtain l c where a: "advance t (m_blockWidth g) (m_blockHeight g) (m_line g, m_column g) = (l, c)" by fastforce
  define g' where "g' = g\<lparr>m_line := l, m_column := c\<rparr>"
  have g': "m_blockWidth g' = m_blockWidth g" "m_blockHeight g' = m_blockHeight g" "m_scanType g' = t"
    "m_line g' = l" "m_column g' = c" using Suc.prems(2) by (simp_all add: g'_def)
  have n: "snd (GetNextIndex 0 0 g) = g'" using a Suc.prems(2) by (simp add: GetNextIndex_def g'_def)
  have IH: "group_loop t s gw gh n g'
    = map (raster s) (in_groups gw gh (walk t (m_blockWidth g') (m_blockHeight g') n (m_line g', m_column g')) (walk t gw gh (gw * gh) (0, 0)))"
    by (rule Suc.IH) (use Suc.prems(1) in \<open>auto simp: g' a\<close>)
  have s: "scan_loop s (m_column g * gw) (m_line g * gh) (gw * gh) (new_ScanGenerator gw gh s t)
      = map (\<lambda>p. raster s (fst p + m_line g * gh, snd p + m_column g * gw)) (walk t gw gh (gw * gh) (0, 0))"
    by (rule scan_loop_at) (use Suc.prems(1) [of "(m_line g, m_column g)"] in simp)
  show ?case
    unfolding group_loop.simps n IH GetCurrentX_def GetCurrentY_def s
    by (simp add: in_groups_def g' a split_def o_def add.commute)
qed (simp add: in_groups_def)

section \<open>Scans as permutations\<close>

lemma covers_raster:
  assumes "tiles ps w h"
  shows "distinct (map scan_idx (map (raster w) ps)) \<and> set (map scan_idx (map (raster w) ps)) = {..<w * h}"
proof -
  have v: "distinct ps" "set ps = block_positions w h" using assms by (simp_all add: tiles_def)
  have "inj_on (\<lambda>p. fst p * w + snd p) (block_positions w h)"
  proof (rule inj_onI)
    fix p q assume "p \<in> block_positions w h" "q \<in> block_positions w h" "fst p * w + snd p = fst q * w + snd q"
    then have "snd p < w" "snd q < w" "(fst p * w + snd p) div w = (fst q * w + snd q) div w"
      "(fst p * w + snd p) mod w = (fst q * w + snd q) mod w" by (auto simp: block_positions_def)
    then show "p = q" by (simp add: prod_eq_iff)
  qed
  moreover have "(\<lambda>p. fst p * w + snd p) ` block_positions w h = {..<w * h}"
  proof (intro equalityI subsetI)
    fix i assume "i \<in> {..<w * h}"
    then have "i < h * w" by (simp add: mult.commute)
    then have "i div w < h" "i mod w < w" "i = i div w * w + i mod w"
      using less_mult_imp_div_less [of i h w] by (cases "w = 0"; simp)+
    then show "i \<in> (\<lambda>p. fst p * w + snd p) ` block_positions w h"
      by (intro image_eqI [of _ _ "(i div w, i mod w)"]) (auto simp: block_positions_def)
  next
    fix i assume "i \<in> (\<lambda>p. fst p * w + snd p) ` block_positions w h"
    then obtain l c where lc: "i = l * w + c" "l < h" "c < w" by (auto simp: block_positions_def)
    then have "i < Suc l * w" by simp
    also have "\<dots> \<le> h * w" using lc(2) by (intro mult_right_mono) auto
    finally show "i \<in> {..<w * h}" by (simp add: mult.commute)
  qed
  ultimately show ?thesis using v by (simp add: distinct_map raster_def o_def)
qed

text \<open>
  The contract of a scan over the positions of a block: it visits each of them once. The lemmas on the
  tables hold for every scan that keeps it.
\<close>

locale block_scan =
  fixes visit :: "nat \<Rightarrow> nat \<Rightarrow> (nat \<times> nat) list"
  assumes visits: "0 < w \<Longrightarrow> 0 < h \<Longrightarrow> tiles (visit w h) w h"
begin

lemma raster_permutation:
  assumes "0 < w" "0 < h"
  shows "distinct (map scan_idx (map (raster w) (visit w h))) \<and> set (map scan_idx (map (raster w) (visit w h))) = {..<w * h}"
  using covers_raster [OF visits [OF assms]] .

lemma groups_cover:
  assumes "0 < W" "0 < H" "0 < gw" "0 < gh"
  shows "tiles (in_groups gw gh (visit W H) (visit gw gh)) (W * gw) (H * gh)"
proof -
  have v: "distinct (visit W H)" "set (visit W H) = block_positions W H"
    "distinct (visit gw gh)" "set (visit gw gh) = block_positions gw gh"
    using visits assms by (simp_all add: tiles_def)
  have s: "set (in_groups gw gh (visit W H) (visit gw gh)) = block_positions (W * gw) (H * gh)"
  proof (intro equalityI subsetI)
    fix p assume "p \<in> block_positions (W * gw) (H * gh)"
    then have "fst p div gh < H" "snd p div gw < W" "fst p mod gh < gh" "snd p mod gw < gw"
      using assms by (auto simp: block_positions_def less_mult_imp_div_less)
    then show "p \<in> set (in_groups gw gh (visit W H) (visit gw gh))"
      unfolding in_groups_iff v block_positions_def
      by (intro bexI [of _ "(fst p div gh, snd p div gw)"] bexI [of _ "(fst p mod gh, snd p mod gw)"]) simp_all
  next
    fix p assume "p \<in> set (in_groups gw gh (visit W H) (visit gw gh))"
    then obtain gl gc l c where p: "p = (gl * gh + l, gc * gw + c)" "gl < H" "gc < W" "l < gh" "c < gw"
      unfolding in_groups_iff v block_positions_def by auto
    have "gl * gh + l < Suc gl * gh" "gc * gw + c < Suc gc * gw" using p by simp_all
    moreover have "Suc gl * gh \<le> H * gh" "Suc gc * gw \<le> W * gw" using p by (intro mult_right_mono; simp)+
    ultimately show "p \<in> block_positions (W * gw) (H * gh)" using p(1) by (simp add: block_positions_def)
  qed
  have "length (in_groups gw gh (visit W H) (visit gw gh)) = length (visit W H) * length (visit gw gh)" for W H
    by (simp add: in_groups_def length_concat o_def split_def sum_list_triv)
  then have "length (in_groups gw gh (visit W H) (visit gw gh)) = card (block_positions (W * gw) (H * gh))"
    using assms covers_length [OF visits, of W H] covers_length [OF visits, of gw gh] by (simp add: card_block_positions)
  then show ?thesis using s card_distinct [of "in_groups gw gh (visit W H) (visit gw gh)"] by (simp add: tiles_def)
qed

end

definition scan_positions :: "CoeffScanType \<Rightarrow> nat \<Rightarrow> nat \<Rightarrow> (nat \<times> nat) list" where
  "scan_positions t w h = walk t w h (w * h) (0, 0)"

lemma scan_covers: "0 < w \<Longrightarrow> 0 < h \<Longrightarrow> tiles (scan_positions t w h) w h"
  by (cases t) (simp_all add: scan_positions_def diagonal_covers hor_covers ver_covers)

interpretation scans: block_scan "scan_positions t" for t
  by unfold_locales (rule scan_covers)

section \<open>The tables of the blocks\<close>

lemma floorLog2_pow: "a < 32 \<Longrightarrow> floorLog2 (2 ^ a) = int a"
proof -
  assume a: "a < 32"
  then have "(2 :: nat) ^ a < 2 ^ 32" by (intro power_strict_increasing) auto
  then obtain r where r: "floorLog2 (2 ^ a) = int r" "2 ^ r \<le> (2 :: nat) ^ a" "(2 :: nat) ^ a < 2 ^ (r + 1)"
    using floorLog2_ok [of "2 ^ a"] by auto
  then have "r = a" by (auto simp: power_strict_increasing_iff simp del: power_Suc)
  then show ?thesis using r(1) by simp
qed

text \<open>A group is never larger than its block.\<close>

lemma groups_fit: "a \<le> 8 \<Longrightarrow> b \<le> 8 \<Longrightarrow> fst (g_log2SbbSize ! a ! b) \<le> a \<and> snd (g_log2SbbSize ! a ! b) \<le> b"
proof -
  have "\<forall>a\<in>set [0..<9]. \<forall>b\<in>set [0..<9]. fst (g_log2SbbSize ! a ! b) \<le> a \<and> snd (g_log2SbbSize ! a ! b) \<le> b"
    by code_simp
  moreover assume "a \<le> 8" "b \<le> 8"
  ultimately show ?thesis by simp
qed

lemma log2Sbb_pow: "a \<le> 8 \<Longrightarrow> b \<le> 8 \<Longrightarrow> log2Sbb (2 ^ a) (2 ^ b) = g_log2SbbSize ! a ! b"
  by (simp add: log2Sbb_def floorLog2_pow)

definition group_positions :: "CoeffScanType \<Rightarrow> nat \<Rightarrow> nat \<Rightarrow> (nat \<times> nat) list" where
  "group_positions t a b =
     (let (cw, ch) = g_log2SbbSize ! a ! b
      in in_groups (2 ^ cw) (2 ^ ch) (scan_positions t (2 ^ (a - cw)) (2 ^ (b - ch))) (scan_positions t (2 ^ cw) (2 ^ ch)))"

lemma group_positions_cover:
  assumes "a \<le> 8" "b \<le> 8"
  shows "tiles (group_positions t a b) (2 ^ a) (2 ^ b)"
proof -
  obtain cw ch where c: "g_log2SbbSize ! a ! b = (cw, ch)" by fastforce
  then have "cw \<le> a" "ch \<le> b" using groups_fit [OF assms] by simp_all
  then have "(2 :: nat) ^ (a - cw) * 2 ^ cw = 2 ^ a" "(2 :: nat) ^ (b - ch) * 2 ^ ch = 2 ^ b"
    by (simp_all add: power_add [symmetric])
  then show ?thesis
    using scans.groups_cover [of "2 ^ (a - cw)" "2 ^ (b - ch)" "2 ^ cw" "2 ^ ch" t] by (simp add: group_positions_def c)
qed

lemma scan_grouped_eq:
  assumes "a \<le> 8" "b \<le> 8"
  shows "scan_grouped t (2 ^ a) (2 ^ b) = map (raster (2 ^ a)) (group_positions t a b)"
proof -
  obtain cw ch where c: "g_log2SbbSize ! a ! b = (cw, ch)" by fastforce
  then have le: "cw \<le> a" "ch \<le> b" using groups_fit [OF assms] by simp_all
  have th: "(2 :: nat) ^ a \<le> JVET_C0024_ZERO_OUT_TH" "(2 :: nat) ^ b \<le> JVET_C0024_ZERO_OUT_TH"
    using assms power_increasing [of a 8 "2 :: nat"] power_increasing [of b 8 "2 :: nat"]
    by (simp_all add: JVET_C0024_ZERO_OUT_TH_def)
  have d: "(2 :: nat) ^ a div 2 ^ cw = 2 ^ (a - cw)" "(2 :: nat) ^ b div 2 ^ ch = 2 ^ (b - ch)"
    using le by (simp_all add: power_diff)
  let ?g = "new_ScanGenerator (2 ^ (a - cw)) (2 ^ (b - ch)) (2 ^ cw) t"
  let ?n = "2 ^ (a - cw) * 2 ^ (b - ch)"
  have g: "m_blockWidth ?g = 2 ^ (a - cw)" "m_blockHeight ?g = 2 ^ (b - ch)" "m_line ?g = 0" "m_column ?g = 0" "m_scanType ?g = t"
    by (simp_all add: new_ScanGenerator_def)
  have "snd q + snd p * 2 ^ cw < 2 ^ a"
    if "p \<in> set (scan_positions t (2 ^ (a - cw)) (2 ^ (b - ch)))" "q \<in> set (scan_positions t (2 ^ cw) (2 ^ ch))" for p q
  proof -
    have "(fst p * 2 ^ ch + fst q, snd p * 2 ^ cw + snd q) \<in> set (group_positions t a b)"
      unfolding group_positions_def c Let_def prod.case in_groups_iff using that by blast
    then have "(fst p * 2 ^ ch + fst q, snd p * 2 ^ cw + snd q) \<in> block_positions (2 ^ a) (2 ^ b)"
      using group_positions_cover [OF assms, of t] by (simp only: tiles_def)
    then show ?thesis by (simp add: block_positions_def add.commute)
  qed
  from group_loop_eq [of t ?g ?n "2 ^ cw" "2 ^ ch" "2 ^ a", unfolded g, folded scan_positions_def, OF this]
  have "group_loop t (2 ^ a) (2 ^ cw) (2 ^ ch) ?n ?g = map (raster (2 ^ a)) (group_positions t a b)"
    by (simp add: group_positions_def c)
  then show ?thesis
    using th by (simp add: scan_grouped_def Let_def log2Sbb_pow [OF assms] c d min_absorb2)
qed

subsection \<open>The order of the diagonal scan\<close>

definition in_order :: "(nat \<times> nat) list \<Rightarrow> bool" where
  "in_order ps \<longleftrightarrow> (\<forall>i<length ps. \<forall>j<length ps.
     fst (ps ! i) \<le> fst (ps ! j) \<longrightarrow> snd (ps ! i) \<le> snd (ps ! j) \<longrightarrow> i \<noteq> j \<longrightarrow> i < j)"

lemma diagonal_sum: "e \<in> set (diagonal w h d) \<Longrightarrow> fst e + snd e = d"
  by (auto simp: diagonal_def)

lemma diagonals_sorted: "sorted (map (\<lambda>p. fst p + snd p) (concat (map (diagonal w h) [0..<m])))"
proof (induction m)
  case (Suc m)
  have "map (\<lambda>p. fst p + snd p) (diagonal w h m) = replicate (length (diagonal w h m)) m"
    by (rule replicate_eqI) (auto dest: diagonal_sum)
  then show ?case using Suc.IH by (fastforce simp: sorted_append dest: diagonal_sum)
qed simp

lemma diagonal_in_order: "0 < w \<Longrightarrow> 0 < h \<Longrightarrow> in_order (scan_positions SCAN_DIAG w h)"
  unfolding in_order_def
proof (intro allI impI)
  fix i j
  assume w: "0 < w" "0 < h" and ij: "i < length (scan_positions SCAN_DIAG w h)" "j < length (scan_positions SCAN_DIAG w h)"
    and le: "fst (scan_positions SCAN_DIAG w h ! i) \<le> fst (scan_positions SCAN_DIAG w h ! j)"
      "snd (scan_positions SCAN_DIAG w h ! i) \<le> snd (scan_positions SCAN_DIAG w h ! j)" and ne: "i \<noteq> j"
  have d: "distinct (scan_positions SCAN_DIAG w h)" using scan_covers [OF w] by (simp add: tiles_def)
  have s: "sorted (map (\<lambda>p. fst p + snd p) (scan_positions SCAN_DIAG w h))"
    unfolding scan_positions_def diagonal_walk [OF w] by (rule diagonals_sorted)
  show "i < j"
  proof (rule ccontr)
    assume "\<not> i < j"
    then have "j \<le> i" by simp
    then have "fst (scan_positions SCAN_DIAG w h ! j) + snd (scan_positions SCAN_DIAG w h ! j)
        \<le> fst (scan_positions SCAN_DIAG w h ! i) + snd (scan_positions SCAN_DIAG w h ! i)"
      using sorted_nth_mono [OF s, of j i] ij by simp
    then have "scan_positions SCAN_DIAG w h ! i = scan_positions SCAN_DIAG w h ! j" using le by (simp add: prod_eq_iff)
    then show False using d ij ne by (simp add: nth_eq_iff_index_eq)
  qed
qed

lemma nth_concat_uniform:
  "(\<And>x. x \<in> set xs \<Longrightarrow> length (f x) = S) \<Longrightarrow> i < length xs * S \<Longrightarrow> concat (map f xs) ! i = f (xs ! (i div S)) ! (i mod S)"
proof (induction xs arbitrary: i)
  case (Cons x xs)
  have S: "0 < S" using Cons.prems(2) by (cases S) auto
  show ?case
  proof (cases "i < S")
    case False
    then have "i div S = Suc ((i - S) div S)" "i mod S = (i - S) mod S"
      using S by (simp_all add: le_div_geq le_mod_geq)
    then show ?thesis using False Cons by (simp add: nth_append)
  qed (use Cons in \<open>simp add: nth_append\<close>)
qed simp

lemma in_groups_nth:
  "i < length gs * length ps \<Longrightarrow>
    in_groups gw gh gs ps ! i = (fst (gs ! (i div length ps)) * gh + fst (ps ! (i mod length ps)), snd (gs ! (i div length ps)) * gw + snd (ps ! (i mod length ps)))"
proof -
  assume i: "i < length gs * length ps"
  then have "0 < length ps" by (cases ps) auto
  then have "i mod length ps < length ps" by simp
  then show ?thesis unfolding in_groups_def using i by (subst nth_concat_uniform) (auto simp: split_def)
qed

lemma length_in_groups [simp]: "length (in_groups gw gh gs ps) = length gs * length ps"
  by (simp add: in_groups_def length_concat o_def split_def sum_list_triv)

lemma div_digits: "x < m \<Longrightarrow> (a * m + x) div m = (a :: nat)"
  by simp

lemma groups_in_order:
  assumes gs: "in_order gs" "tiles gs W H" and ps: "in_order ps" "tiles ps gw gh"
  shows "in_order (in_groups gw gh gs ps)"
  unfolding in_order_def length_in_groups
proof (intro allI impI)
  fix i j
  assume i: "i < length gs * length ps" and j: "j < length gs * length ps" and ne: "i \<noteq> j"
    and le: "fst (in_groups gw gh gs ps ! i) \<le> fst (in_groups gw gh gs ps ! j)"
      "snd (in_groups gw gh gs ps ! i) \<le> snd (in_groups gw gh gs ps ! j)"
  define S where "S = length ps"
  have S: "0 < S" using i by (cases ps) (auto simp: S_def)
  have d: "i div S < length gs" "j div S < length gs" "i mod S < S" "j mod S < S"
    using i j S by (simp_all add: S_def less_mult_imp_div_less)
  have inner: "fst (ps ! k) < gh" "snd (ps ! k) < gw" if "k < S" for k
  proof -
    have "ps ! k \<in> block_positions gw gh" using ps(2) nth_mem [of k ps] that unfolding tiles_def S_def by blast
    then show "fst (ps ! k) < gh" "snd (ps ! k) < gw" by (simp_all add: block_positions_def mem_Times_iff)
  qed
  note nth = in_groups_nth [OF i, of gw gh, folded S_def] in_groups_nth [OF j, of gw gh, folded S_def]
  have "fst (in_groups gw gh gs ps ! i) div gh = fst (gs ! (i div S))" "fst (in_groups gw gh gs ps ! j) div gh = fst (gs ! (j div S))"
    "snd (in_groups gw gh gs ps ! i) div gw = snd (gs ! (i div S))" "snd (in_groups gw gh gs ps ! j) div gw = snd (gs ! (j div S))"
    by (simp_all only: nth fst_conv snd_conv div_digits inner [OF d(3)] inner [OF d(4)])
  then have gl: "fst (gs ! (i div S)) \<le> fst (gs ! (j div S))" and gc: "snd (gs ! (i div S)) \<le> snd (gs ! (j div S))"
    using div_le_mono [OF le(1), of gh] div_le_mono [OF le(2), of gw] by simp_all
  show "i < j"
  proof (cases "i div S = j div S")
    case True
    then have "fst (ps ! (i mod S)) \<le> fst (ps ! (j mod S))" "snd (ps ! (i mod S)) \<le> snd (ps ! (j mod S))"
      using le by (simp_all add: nth)
    moreover have "i mod S \<noteq> j mod S" using True ne div_mult_mod_eq [of i S] div_mult_mod_eq [of j S] by metis
    ultimately have "i mod S < j mod S" using ps(1) d(3,4) by (simp add: in_order_def S_def)
    moreover have "i = j div S * S + i mod S" "j = j div S * S + j mod S"
      using True div_mult_mod_eq [of i S] div_mult_mod_eq [of j S] by simp_all
    ultimately show ?thesis by linarith
  next
    case False
    then have "i div S < j div S" using gl gc gs(1) d(1,2) by (simp add: in_order_def)
    then show ?thesis by (meson div_le_mono leI leD)
  qed
qed

lemma group_positions_in_order: "a \<le> 8 \<Longrightarrow> b \<le> 8 \<Longrightarrow> in_order (group_positions SCAN_DIAG a b)"
  unfolding group_positions_def Let_def split_def
  by (rule groups_in_order [OF diagonal_in_order scan_covers diagonal_in_order scan_covers]) simp_all

section \<open>Properties\<close>

text \<open>The list a table holds.\<close>

definition table_positions :: "CoeffScanGroupType \<Rightarrow> CoeffScanType \<Rightarrow> nat \<Rightarrow> nat \<Rightarrow> (nat \<times> nat) list" where
  "table_positions k t a b = (case k of SCAN_UNGROUPED \<Rightarrow> scan_positions t (2 ^ a) (2 ^ b) | SCAN_GROUPED_4x4 \<Rightarrow> group_positions t a b)"

lemma table_covers: "a \<le> 8 \<Longrightarrow> b \<le> 8 \<Longrightarrow> tiles (table_positions k t a b) (2 ^ a) (2 ^ b)"
  by (cases k) (simp_all add: table_positions_def scan_covers group_positions_cover)

lemma table_eq: "a \<le> 8 \<Longrightarrow> b \<le> 8 \<Longrightarrow> g_scanOrder k t (2 ^ a) (2 ^ b) = map (raster (2 ^ a)) (table_positions k t a b)"
  by (cases k) (simp_all add: table_positions_def scan_positions_def scan_grouped_eq
      scan_ungrouped_eq [OF scan_covers [unfolded scan_positions_def]])

lemma table_length: "a \<le> 8 \<Longrightarrow> b \<le> 8 \<Longrightarrow> length (g_scanOrder k t (2 ^ a) (2 ^ b)) = 2 ^ a * 2 ^ b"
  using covers_length [OF table_covers] by (simp add: table_eq)

lemma table_in_order: "a \<le> 8 \<Longrightarrow> b \<le> 8 \<Longrightarrow> in_order (table_positions k SCAN_DIAG a b)"
  by (cases k) (simp_all add: table_positions_def diagonal_in_order group_positions_in_order)

text \<open>
C34:
  Every scan table of the program, grouped or not, of each type and for each block of at most 256 by 256
  samples, lists every position of the block exactly once, and each element names the same position by its
  index and by its two coordinates.
\<close>

theorem scan_tables_visit_every_position:
  assumes "a \<le> MAX_CU_DEPTH" and "b \<le> MAX_CU_DEPTH"
  shows "distinct (map scan_idx (g_scanOrder k t (2 ^ a) (2 ^ b)))
    \<and> set (map scan_idx (g_scanOrder k t (2 ^ a) (2 ^ b))) = {..<2 ^ a * 2 ^ b}
    \<and> list_all (\<lambda>s. scan_idx s = scan_y s * 2 ^ a + scan_x s \<and> scan_x s < 2 ^ a \<and> scan_y s < 2 ^ b)
        (g_scanOrder k t (2 ^ a) (2 ^ b))"
proof -
  have ab: "a \<le> 8" "b \<le> 8" using assms by (simp_all add: MAX_CU_DEPTH_def)
  show ?thesis
    using covers_raster [OF table_covers [OF ab, of k t]] table_covers [OF ab, of k t]
    by (auto simp: table_eq [OF ab] list_all_iff raster_def tiles_def block_positions_def)
qed

text \<open>
C35:
  In the diagonal scans that coefficients are coded in, a position to the right of another, below it, or
  both, always comes later. The scan runs backwards through a block, so the neighbours whose levels select
  the contexts of a coefficient have all been coded before it.
\<close>

theorem diagonal_scan_keeps_neighbours_behind:
  assumes "a \<le> MAX_CU_DEPTH" and "b \<le> MAX_CU_DEPTH"
    and "i < 2 ^ a * 2 ^ b" and "j < 2 ^ a * 2 ^ b" and "i \<noteq> j"
    and "scan_x (g_scanOrder k SCAN_DIAG (2 ^ a) (2 ^ b) ! i) \<le> scan_x (g_scanOrder k SCAN_DIAG (2 ^ a) (2 ^ b) ! j)"
    and "scan_y (g_scanOrder k SCAN_DIAG (2 ^ a) (2 ^ b) ! i) \<le> scan_y (g_scanOrder k SCAN_DIAG (2 ^ a) (2 ^ b) ! j)"
  shows "i < j"
proof -
  have ab: "a \<le> 8" "b \<le> 8" using assms(1,2) by (simp_all add: MAX_CU_DEPTH_def)
  show ?thesis
    using table_in_order [OF ab, of k] assms(3-7) covers_length [OF table_covers [OF ab, of k SCAN_DIAG]]
    by (simp add: table_eq [OF ab] in_order_def raster_def)
qed

text \<open>A block of four columns and eight lines; a block of two columns and two lines.\<close>

theorem scan_tables_visit_every_position_witness:
  "set (map scan_idx (g_scanOrder SCAN_GROUPED_4x4 SCAN_TRAV_HOR (2 ^ 2) (2 ^ 3))) = {..<2 ^ 2 * 2 ^ 3}"
  using scan_tables_visit_every_position [of 2 3 SCAN_GROUPED_4x4 SCAN_TRAV_HOR] by (simp add: MAX_CU_DEPTH_def)

lemma small_scan: "map (\<lambda>s. (scan_x s, scan_y s)) (g_scanOrder SCAN_UNGROUPED SCAN_DIAG 2 2) = [(0, 0), (0, 1), (1, 0), (1, 1)]"
  by code_simp

lemma small_scan_nth:
  "i < 4 \<Longrightarrow> (scan_x (g_scanOrder SCAN_UNGROUPED SCAN_DIAG 2 2 ! i), scan_y (g_scanOrder SCAN_UNGROUPED SCAN_DIAG 2 2 ! i))
    = [(0, 0), (0, 1), (1, 0), (1, 1)] ! i"
  using arg_cong [OF small_scan, of "\<lambda>xs. xs ! i"] arg_cong [OF small_scan, of length] by simp

theorem diagonal_scan_keeps_neighbours_behind_witness:
  "scan_x (g_scanOrder SCAN_UNGROUPED SCAN_DIAG 2 2 ! 1) = 0 \<and> scan_x (g_scanOrder SCAN_UNGROUPED SCAN_DIAG 2 2 ! 3) = 1 \<and> (1 :: nat) < 3"
  using diagonal_scan_keeps_neighbours_behind [of 1 1 1 3 SCAN_UNGROUPED] small_scan_nth [of 1] small_scan_nth [of 3]
  by (simp add: MAX_CU_DEPTH_def del: g_scanOrder.simps)

end
