(* ===== verification/CoeffContext.thy ===== *)
theory CoeffContext
  imports ScanOrder SyntaxElements
begin

unbundle bit_operations_syntax

text \<open>
  The context selection of transform coefficients, \<open>CoeffCodingContext\<close> of
  \<open>source/Lib/CommonLib/ContextModelling.h\<close> and \<open>ContextModelling.cpp\<close>, with the tables of \<open>Rom.cpp\<close> that
  coefficient coding looks up. A transform unit is given by the size of its block, its channel and the
  settings the constructor reads. Coefficients are a list in raster order; the neighbours of a position are
  the same five in all templates.
\<close>

section \<open>Tables\<close>

definition g_uiMinInGroup :: "nat list" where
  "g_uiMinInGroup = [0, 1, 2, 3, 4, 6, 8, 12, 16, 24, 32, 48, 64, 96, 128, 192]"

text \<open>The table is written out in the source; here its runs are.\<close>

definition g_uiGroupIdx :: "nat list" where
  "g_uiGroupIdx = [0, 1, 2, 3] @ replicate 2 4 @ replicate 2 5 @ replicate 4 6 @ replicate 4 7 @ replicate 8 8
     @ replicate 8 9 @ replicate 16 10 @ replicate 16 11 @ replicate 32 12 @ replicate 32 13 @ replicate 64 14
     @ replicate 64 15"

definition g_auiGoRiceParsCoeff :: "nat list" where
  "g_auiGoRiceParsCoeff =
    [0, 0, 0, 0, 0, 0, 0, 1, 1, 1, 1, 1, 1, 1, 2, 2, 2, 2, 2, 2, 2, 2, 2, 2, 2, 2, 2, 2, 3, 3, 3, 3]"

definition g_auiGoRicePosCoeff0 :: "nat \<Rightarrow> nat \<Rightarrow> nat" where
  "g_auiGoRicePosCoeff0 st ricePar = (1 + st mod 2) * 2 ^ ricePar"

text \<open>The transitions of the quantiser states, four bits for each pair of a state and a parity.\<close>

definition g_stateTransTab :: "nat list" where
  "g_stateTransTab = [0, 587280912, 6274468666787591456]"

definition next_state :: "nat \<Rightarrow> nat \<Rightarrow> int \<Rightarrow> nat" where
  "next_state stateTransTable state level = drop_bit (8 * state + 4 * nat (level mod 2)) stateTransTable mod 16"

text \<open>The comment beside the table lists the transitions; the states of each quantiser are closed under them.\<close>

definition transition_table :: "nat \<Rightarrow> (nat \<times> nat) list" where
  "transition_table k =
     [[(0, 0)], [(0, 1), (2, 3), (1, 0), (3, 2)],
      [(0, 2), (5, 7), (1, 3), (6, 4), (2, 0), (4, 6), (3, 1), (7, 5)]] ! k"

lemma transitions: "k < 3 \<Longrightarrow> s < length (transition_table k) \<Longrightarrow>
    next_state (g_stateTransTab ! k) s level = (if even level then fst else snd) (transition_table k ! s)"
proof -
  assume "k < 3" "s < length (transition_table k)"
  then have "k = 0 \<and> s = 0 \<or> k = 1 \<and> s \<in> {0, 1, 2, 3} \<or> k = 2 \<and> s \<in> {0, 1, 2, 3, 4, 5, 6, 7}"
    by (auto simp: transition_table_def less_Suc_eq numeral_eq_Suc)
  moreover have "nat (level mod 2) = (if even level then 0 else 1)"
    by (cases "even level") (simp_all add: even_iff_mod_2_eq_zero odd_iff_mod_2_eq_one)
  ultimately show ?thesis
    by (auto simp: next_state_def g_stateTransTab_def transition_table_def drop_bit_eq_div)
qed

section \<open>Context sets\<close>

datatype coeff_set = SigCoeffGroup nat | SigFlag nat | ParFlag nat | GtxFlag nat | LastX nat | LastY nat

fun coeff_place :: "coeff_set \<Rightarrow> nat" where
  "coeff_place (SigCoeffGroup k) = 58 + k"
| "coeff_place (SigFlag k) = 60 + k"
| "coeff_place (ParFlag k) = 66 + k"
| "coeff_place (GtxFlag k) = 68 + k"
| "coeff_place (LastX k) = 72 + k"
| "coeff_place (LastY k) = 74 + k"

definition CoeffCtx :: "coeff_set \<Rightarrow> nat \<Rightarrow> nat" where
  "CoeffCtx s inc = fst (layout 0 all_sets ! coeff_place s) + inc"

section \<open>The coding context of a block\<close>

record CoeffCodingContext =
  m_chType :: nat
  m_width :: nat
  m_height :: nat
  m_log2CGWidth :: nat
  m_log2CGHeight :: nat
  m_widthInGroups :: nat
  m_heightInGroups :: nat
  m_signHiding :: bool
  m_maxLog2TrDynamicRange :: nat
  m_scan :: "ScanElement list"
  m_scanCG :: "ScanElement list"
  m_maxLastPosX :: nat
  m_maxLastPosY :: nat
  m_lastOffsetX :: nat
  m_lastOffsetY :: nat
  m_lastShiftX :: nat
  m_lastShiftY :: nat
  m_bSignPredQualified :: bool
  m_scanPosLast :: nat
  m_subSetId :: nat
  m_subSetPos :: nat
  m_subSetPosX :: nat
  m_subSetPosY :: nat
  m_minSubPos :: nat
  m_maxSubPos :: nat
  m_sigGroupCtxId :: nat
  m_tmplCpSum1 :: int
  m_tmplCpDiag :: int
  m_sigCoeffGroupFlag :: "bool list"
  regBinLimit :: int

definition CHANNEL_TYPE_LUMA :: nat where "CHANNEL_TYPE_LUMA = 0"
definition CHANNEL_TYPE_CHROMA :: nat where "CHANNEL_TYPE_CHROMA = 1"
definition MLS_GRP_NUM :: nat where "MLS_GRP_NUM = 256 * 256 div 16"
definition SBH_THRESHOLD :: int where "SBH_THRESHOLD = 4"

definition prefix_ctx :: "nat list" where
  "prefix_ctx = [0, 0, 0, 3, 6, 10, 15, 21, 28]"

definition new_CoeffCodingContext :: "nat \<Rightarrow> nat \<Rightarrow> nat \<Rightarrow> bool \<Rightarrow> nat \<Rightarrow> bool \<Rightarrow> CoeffCodingContext" where
  "new_CoeffCodingContext chType width height signHide maxLog2TrDynamicRange delayedSignCoding =
     (let (log2CGWidth, log2CGHeight) = log2Sbb width height;
          widthInGroups = min JVET_C0024_ZERO_OUT_TH width div 2 ^ log2CGWidth;
          heightInGroups = min JVET_C0024_ZERO_OUT_TH height div 2 ^ log2CGHeight;
          log2sizeX = nat (floorLog2 width); log2sizeY = nat (floorLog2 height);
          chroma = chType = CHANNEL_TYPE_CHROMA
      in \<lparr>m_chType = chType, m_width = width, m_height = height, m_log2CGWidth = log2CGWidth,
          m_log2CGHeight = log2CGHeight, m_widthInGroups = widthInGroups, m_heightInGroups = heightInGroups,
          m_signHiding = signHide, m_maxLog2TrDynamicRange = maxLog2TrDynamicRange,
          m_scan = g_scanOrder SCAN_GROUPED_4x4 SCAN_DIAG width height,
          m_scanCG = g_scanOrder SCAN_UNGROUPED SCAN_DIAG widthInGroups heightInGroups,
          m_maxLastPosX = g_uiGroupIdx ! (min JVET_C0024_ZERO_OUT_TH width - 1),
          m_maxLastPosY = g_uiGroupIdx ! (min JVET_C0024_ZERO_OUT_TH height - 1),
          m_lastOffsetX = (if chroma then 0 else prefix_ctx ! log2sizeX),
          m_lastOffsetY = (if chroma then 0 else prefix_ctx ! log2sizeY),
          m_lastShiftX = (if chroma then nat (Clip3 0 2 (int (width div 8))) else (log2sizeX + 1) div 4),
          m_lastShiftY = (if chroma then nat (Clip3 0 2 (int (height div 8))) else (log2sizeY + 1) div 4),
          m_bSignPredQualified = delayedSignCoding, m_scanPosLast = 0, m_subSetId = 0, m_subSetPos = 0,
          m_subSetPosX = 0, m_subSetPosY = 0, m_minSubPos = 0, m_maxSubPos = 0, m_sigGroupCtxId = 0,
          m_tmplCpSum1 = -1, m_tmplCpDiag = -1, m_sigCoeffGroupFlag = replicate MLS_GRP_NUM False,
          regBinLimit = 0\<rparr>)"

text \<open>The functions without a body of more than an expression.\<close>

definition log2CGSize :: "CoeffCodingContext \<Rightarrow> nat" where "log2CGSize c = m_log2CGWidth c + m_log2CGHeight c"
definition maxNumCoeff :: "CoeffCodingContext \<Rightarrow> nat" where "maxNumCoeff c = m_width c * m_height c"
definition isLast :: "CoeffCodingContext \<Rightarrow> bool" where "isLast c \<longleftrightarrow> m_scanPosLast c div 2 ^ log2CGSize c = m_subSetId c"
definition isNotFirst :: "CoeffCodingContext \<Rightarrow> bool" where "isNotFirst c \<longleftrightarrow> m_subSetId c \<noteq> 0"
definition isSigGroup :: "CoeffCodingContext \<Rightarrow> bool" where "isSigGroup c \<longleftrightarrow> m_sigCoeffGroupFlag c ! m_subSetPos c"
definition hideSign :: "CoeffCodingContext \<Rightarrow> int \<Rightarrow> int \<Rightarrow> bool" where
  "hideSign c posFirst posLast \<longleftrightarrow> m_signHiding c \<and> posLast - posFirst \<ge> SBH_THRESHOLD"
definition blockPos :: "CoeffCodingContext \<Rightarrow> nat \<Rightarrow> nat" where "blockPos c scanPos = scan_idx (m_scan c ! scanPos)"
definition lastXCtxId :: "CoeffCodingContext \<Rightarrow> nat \<Rightarrow> nat" where
  "lastXCtxId c posLastX = CoeffCtx (LastX (m_chType c)) (m_lastOffsetX c + posLastX div 2 ^ m_lastShiftX c)"
definition lastYCtxId :: "CoeffCodingContext \<Rightarrow> nat \<Rightarrow> nat" where
  "lastYCtxId c posLastY = CoeffCtx (LastY (m_chType c)) (m_lastOffsetY c + posLastY div 2 ^ m_lastShiftY c)"
definition setSigGroup :: "CoeffCodingContext \<Rightarrow> CoeffCodingContext" where
  "setSigGroup c = c\<lparr>m_sigCoeffGroupFlag := (m_sigCoeffGroupFlag c)[m_subSetPos c := True]\<rparr>"
definition minCoeff :: "CoeffCodingContext \<Rightarrow> int" where "minCoeff c = - (2 ^ m_maxLog2TrDynamicRange c)"
definition maxCoeff :: "CoeffCodingContext \<Rightarrow> int" where "maxCoeff c = 2 ^ m_maxLog2TrDynamicRange c - 1"

definition initSubblock :: "nat \<Rightarrow> bool \<Rightarrow> CoeffCodingContext \<Rightarrow> CoeffCodingContext" where
  "initSubblock SubsetId sigGroupFlag c =
     (let subSetPos = scan_idx (m_scanCG c ! SubsetId);
          CGPosY = subSetPos div m_widthInGroups c;
          CGPosX = subSetPos - CGPosY * m_widthInGroups c;
          flags = (if sigGroupFlag then (m_sigCoeffGroupFlag c)[subSetPos := True] else m_sigCoeffGroupFlag c);
          sigRight = (if CGPosX + 1 < m_widthInGroups c then flags ! (subSetPos + 1) else False);
          sigLower = (if CGPosY + 1 < m_heightInGroups c then flags ! (subSetPos + m_widthInGroups c) else False)
      in c\<lparr>m_subSetId := SubsetId, m_subSetPos := subSetPos, m_subSetPosY := CGPosY, m_subSetPosX := CGPosX,
           m_minSubPos := SubsetId * 2 ^ log2CGSize c,
           m_maxSubPos := SubsetId * 2 ^ log2CGSize c + 2 ^ log2CGSize c - 1,
           m_sigCoeffGroupFlag := flags,
           m_sigGroupCtxId := CoeffCtx (SigCoeffGroup (m_chType c)) (bin_of (sigRight \<or> sigLower))\<rparr>)"

subsection \<open>Templates\<close>

text \<open>The neighbours the templates read, in the order of the code.\<close>

definition template :: "nat \<Rightarrow> nat \<Rightarrow> nat \<Rightarrow> nat \<Rightarrow> (nat \<times> nat) list" where
  "template w h posX posY =
     (if posX < w - 1
      then (posX + 1, posY) # (if posX < w - 2 then [(posX + 2, posY)] else [])
        @ (if posY < h - 1 then [(posX + 1, posY + 1)] else [])
      else [])
     @ (if posY < h - 1
        then (posX, posY + 1) # (if posY < h - 2 then [(posX, posY + 2)] else [])
        else [])"

definition neighbours :: "CoeffCodingContext \<Rightarrow> nat \<Rightarrow> int list \<Rightarrow> int list" where
  "neighbours c scanPos coeff =
     map (\<lambda>(x, y). coeff ! (x + y * m_width c))
       (template (m_width c) (m_height c) (scan_x (m_scan c ! scanPos)) (scan_y (m_scan c ! scanPos)))"

text \<open>What \<open>UPDATE\<close> adds for a coefficient to the sum of the levels.\<close>

definition capped :: "int \<Rightarrow> int" where "capped x = min (4 + \<bar>x\<bar> mod 2) \<bar>x\<bar>"

definition sigCtxIdAbs :: "nat \<Rightarrow> int list \<Rightarrow> nat \<Rightarrow> CoeffCodingContext \<Rightarrow> nat \<times> CoeffCodingContext" where
  "sigCtxIdAbs scanPos coeff state c =
     (let posY = scan_y (m_scan c ! scanPos); posX = scan_x (m_scan c ! scanPos);
          diag = int (posX + posY);
          sumAbs = sum_list (map capped (neighbours c scanPos coeff));
          numPos = int (length (filter (\<lambda>x. x \<noteq> 0) (neighbours c scanPos coeff)));
          ctxOfs = nat (min ((sumAbs + 1) div 2) 3) + (if diag < 2 then 4 else 0);
          ctxOfs = (if m_chType c = CHANNEL_TYPE_LUMA then ctxOfs + (if diag < 5 then 4 else 0) else ctxOfs);
          ch = m_chType c
      in (CoeffCtx (SigFlag ([ch, ch + 2, ch, ch + 4] ! (state mod 4))) ctxOfs,
          c\<lparr>m_tmplCpDiag := diag, m_tmplCpSum1 := sumAbs - numPos\<rparr>))"

definition ctxOffsetAbs :: "CoeffCodingContext \<Rightarrow> nat" where
  "ctxOffsetAbs c =
     (if m_tmplCpDiag c \<noteq> -1
      then nat (min (m_tmplCpSum1 c) 4) + 1
        + (if m_tmplCpDiag c = 0 then (if m_chType c = CHANNEL_TYPE_LUMA then 15 else 5)
           else if m_chType c = CHANNEL_TYPE_LUMA
           then (if m_tmplCpDiag c < 3 then 10 else if m_tmplCpDiag c < 10 then 5 else 0) else 0)
      else 0)"

definition parityCtxIdAbs :: "CoeffCodingContext \<Rightarrow> nat \<Rightarrow> nat" where
  "parityCtxIdAbs c offset = CoeffCtx (ParFlag (m_chType c)) offset"
definition greater1CtxIdAbs :: "CoeffCodingContext \<Rightarrow> nat \<Rightarrow> nat" where
  "greater1CtxIdAbs c offset = CoeffCtx (GtxFlag (m_chType c + 2)) offset"
definition greater2CtxIdAbs :: "CoeffCodingContext \<Rightarrow> nat \<Rightarrow> nat" where
  "greater2CtxIdAbs c offset = CoeffCtx (GtxFlag (m_chType c)) offset"

definition templateAbsSum :: "nat \<Rightarrow> int list \<Rightarrow> int \<Rightarrow> CoeffCodingContext \<Rightarrow> nat" where
  "templateAbsSum scanPos coeff baseLevel c =
     nat (max (min (sum_list (map abs (neighbours c scanPos coeff)) - 5 * baseLevel) 31) 0)"

section \<open>Coefficients by scan position\<close>

text \<open>
  What coefficient coding relies on from a scan: it lists every position of the block once, and what lies
  to the right or below comes later. Coefficients are then a function of the scan position, \<open>spread\<close> out
  over the block.
\<close>

definition rank :: "ScanElement list \<Rightarrow> nat \<Rightarrow> nat" where
  "rank scan i = (THE k. k < length scan \<and> scan_idx (scan ! k) = i)"

definition spread :: "ScanElement list \<Rightarrow> (nat \<Rightarrow> int) \<Rightarrow> int list" where
  "spread scan f = map (\<lambda>i. f (rank scan i)) [0..<length scan]"

locale level_order =
  fixes scan :: "ScanElement list" and w h :: nat
  assumes once: "distinct (map scan_idx scan)"
    and everywhere: "set (map scan_idx scan) = {..<w * h}"
    and coordinates: "k < length scan \<Longrightarrow> scan_idx (scan ! k) = scan_y (scan ! k) * w + scan_x (scan ! k)
      \<and> scan_x (scan ! k) < w \<and> scan_y (scan ! k) < h"
    and behind: "i < length scan \<Longrightarrow> j < length scan \<Longrightarrow> i \<noteq> j \<Longrightarrow> scan_x (scan ! i) \<le> scan_x (scan ! j) \<Longrightarrow>
      scan_y (scan ! i) \<le> scan_y (scan ! j) \<Longrightarrow> i < j"
begin

lemma scan_length: "length scan = w * h"
  using distinct_card [OF once] everywhere by simp

lemma rank_idx [simp]: "k < length scan \<Longrightarrow> rank scan (scan_idx (scan ! k)) = k"
  unfolding rank_def
proof (rule the_equality)
  fix j assume "k < length scan" "j < length scan \<and> scan_idx (scan ! j) = scan_idx (scan ! k)"
  then show "j = k" using once by (metis distinct_conv_nth length_map nth_map)
qed simp

lemma idx_less: "k < length scan \<Longrightarrow> scan_idx (scan ! k) < length scan"
  using everywhere scan_length nth_mem [of k scan] by auto

lemma idx_rank: "i < length scan \<Longrightarrow> rank scan i < length scan \<and> scan_idx (scan ! rank scan i) = i"
proof -
  assume "i < length scan"
  then have "i \<in> scan_idx ` set scan" using everywhere by (simp add: scan_length)
  then obtain e where "e \<in> set scan" "scan_idx e = i" by auto
  then obtain k where "k < length scan" "scan_idx (scan ! k) = i" by (metis in_set_conv_nth)
  then show ?thesis using rank_idx [of k] by simp
qed

lemma length_spread [simp]: "length (spread scan f) = length scan"
  by (simp add: spread_def)

lemma spread_nth [simp]: "k < length scan \<Longrightarrow> spread scan f ! scan_idx (scan ! k) = f k"
  using idx_less [of k] by (simp add: spread_def)

lemma spread_update: "k < length scan \<Longrightarrow> (spread scan f)[scan_idx (scan ! k) := v] = spread scan (f(k := v))"
proof (rule nth_equalityI)
  fix i assume k: "k < length scan" and "i < length ((spread scan f)[scan_idx (scan ! k) := v])"
  then have i: "i < length scan" by simp
  then show "(spread scan f)[scan_idx (scan ! k) := v] ! i = spread scan (f(k := v)) ! i"
    using idx_rank [OF i] idx_less [OF k] rank_idx [OF k] by (cases "i = scan_idx (scan ! k)") (auto simp: spread_def)
qed simp

lemma spread_of: "length cs = length scan \<Longrightarrow> spread scan (\<lambda>k. cs ! scan_idx (scan ! k)) = cs"
  by (rule nth_equalityI) (auto simp: spread_def dest: idx_rank)

lemma spread_cong: "(\<And>k. k < length scan \<Longrightarrow> f k = g k) \<Longrightarrow> spread scan f = spread scan g"
  unfolding spread_def using idx_rank by (intro map_cong) auto

lemma template_behind:
  assumes "k < length scan" "(x, y) \<in> set (template w h (scan_x (scan ! k)) (scan_y (scan ! k)))"
  shows "\<exists>j. k < j \<and> j < length scan \<and> scan_idx (scan ! j) = x + y * w"
proof -
  have xy: "x < w" "y < h" "scan_x (scan ! k) \<le> x" "scan_y (scan ! k) \<le> y" "(x, y) \<noteq> (scan_x (scan ! k), scan_y (scan ! k))"
    using assms(2) coordinates [OF assms(1)] by (auto simp: template_def split: if_splits)
  have "y * w + x < Suc y * w" using xy by simp
  also have "\<dots> \<le> h * w" using xy by (intro mult_right_mono) auto
  finally have "x + y * w < length scan" by (simp add: scan_length algebra_simps)
  then obtain j where j: "j < length scan" "scan_idx (scan ! j) = x + y * w" using idx_rank by blast
  note cj = coordinates [OF j(1)]
  have "scan_x (scan ! j) = x" "scan_y (scan ! j) = y"
  proof -
    have "(scan_y (scan ! j) * w + scan_x (scan ! j)) mod w = (y * w + x) mod w"
      "(scan_y (scan ! j) * w + scan_x (scan ! j)) div w = (y * w + x) div w"
      using cj j(2) by (simp_all add: add.commute)
    then show "scan_x (scan ! j) = x" "scan_y (scan ! j) = y" using cj xy by simp_all
  qed
  then show ?thesis using behind [of k j] assms(1) j xy by auto
qed

text \<open>A template sees only what lies behind its position.\<close>

lemma template_cong:
  assumes "k < length scan" "\<And>j. k < j \<Longrightarrow> j < length scan \<Longrightarrow> p (f j) = p (g j)"
  shows "map (\<lambda>(x, y). p (spread scan f ! (x + y * w))) (template w h (scan_x (scan ! k)) (scan_y (scan ! k)))
    = map (\<lambda>(x, y). p (spread scan g ! (x + y * w))) (template w h (scan_x (scan ! k)) (scan_y (scan ! k)))"
proof (rule map_cong [OF refl], clarify)
  fix x y assume "(x, y) \<in> set (template w h (scan_x (scan ! k)) (scan_y (scan ! k)))"
  then obtain j where "k < j" "j < length scan" "scan_idx (scan ! j) = x + y * w"
    using template_behind assms(1) by blast
  then show "p (spread scan f ! (x + y * w)) = p (spread scan g ! (x + y * w))"
    using assms(2) spread_nth [of j f] spread_nth [of j g] by metis
qed

end

text \<open>The scans of the program keep this contract; sizes beyond the tables stand for the largest.\<close>

definition block_scan_table :: "nat \<Rightarrow> nat \<Rightarrow> ScanElement list" where
  "block_scan_table a b = g_scanOrder SCAN_GROUPED_4x4 SCAN_DIAG (2 ^ min a 8) (2 ^ min b 8)"

abbreviation table_places :: "nat \<Rightarrow> nat \<Rightarrow> (nat \<times> nat) list" where
  "table_places a b \<equiv> table_positions SCAN_GROUPED_4x4 SCAN_DIAG (min a 8) (min b 8)"

lemma block_scan_table_eq: "block_scan_table a b = map (raster (2 ^ min a 8)) (table_places a b)"
  unfolding block_scan_table_def by (rule table_eq) simp_all

lemma table_places_cover: "tiles (table_places a b) (2 ^ min a 8) (2 ^ min b 8)"
  by (rule table_covers) simp_all

interpretation block_levels: level_order "block_scan_table a b" "2 ^ min a 8" "2 ^ min b 8" for a b
proof (unfold_locales, goal_cases)
  case 1
  show ?case unfolding block_scan_table_eq by (rule conjunct1 [OF covers_raster [OF table_places_cover]])
next
  case 2
  show ?case unfolding block_scan_table_eq by (rule conjunct2 [OF covers_raster [OF table_places_cover]])
next
  case (3 k)
  then have k: "k < length (table_places a b)" by (simp only: block_scan_table_eq length_map)
  then have "table_places a b ! k \<in> block_positions (2 ^ min a 8) (2 ^ min b 8)"
    using table_places_cover [of a b] nth_mem [OF k] unfolding tiles_def by blast
  then show ?case unfolding block_scan_table_eq nth_map [OF k] raster_def
    by (simp only: block_positions_def mem_Times_iff lessThan_iff ScanElement.select_convs simp_thms)
next
  case (4 i j)
  then have k: "i < length (table_places a b)" "j < length (table_places a b)" by (simp_all only: block_scan_table_eq length_map)
  have "in_order (table_places a b)" by (rule table_in_order) simp_all
  then show ?case using 4(3-5) k unfolding block_scan_table_eq nth_map [OF k(1)] nth_map [OF k(2)] raster_def in_order_def
    by (simp only: ScanElement.select_convs) blast
qed

end
