(* ===== verification/ResidualCoding.thy ===== *)
theory ResidualCoding
  imports CoeffContext
begin

unbundle bit_operations_syntax

text \<open>
  The coefficients of a transform block in the bitstream: \<open>residual_coding\<close>, \<open>last_sig_coeff\<close> and
  \<open>residual_coding_subblock\<close> of \<open>source/Lib/EncoderLib/CABACWriter.cpp\<close> and
  \<open>source/Lib/DecoderLib/CABACReader.cpp\<close>, from the choice of the coding context on; the blocks that skip the
  transform have a syntax of their own. A writer gives the list of its calls on the encoder next to its new
  state. The first pass over a group stops when the budget of context coded bins is used up; it returns the
  positions it did not reach, which the third pass codes and the second leaves out. The arrays of a group
  live for one group, \<open>ctxOffset\<close> for one position.
\<close>

section \<open>The position of the last coefficient\<close>

text \<open>The bits of a position within its class, the most significant first.\<close>

definition write_suffix :: "nat \<Rightarrow> nat \<Rightarrow> bin_writer" where
  "write_suffix idx pos =
     (if idx > 3
      then seqW (map (\<lambda>i. encodeBinEP ((pos - g_uiMinInGroup ! idx) div 2 ^ i mod 2)) (rev [0..<(idx - 2) div 2]))
      else skipW)"

definition write_last_sig_coeff :: "CoeffCodingContext \<Rightarrow> bin_writer" where
  "write_last_sig_coeff c =
     (let blkPos = blockPos c (m_scanPosLast c);
          posY = blkPos div m_width c; posX = blkPos - posY * m_width c;
          GroupIdxX = g_uiGroupIdx ! posX; GroupIdxY = g_uiGroupIdx ! posY
      in seqW [ones_then_zero (\<lambda>i bin. encodeBin bin (lastXCtxId c i)) (\<lambda>i. i < GroupIdxX) [0..<m_maxLastPosX c],
               ones_then_zero (\<lambda>i bin. encodeBin bin (lastYCtxId c i)) (\<lambda>i. i < GroupIdxY) [0..<m_maxLastPosY c],
               write_suffix GroupIdxX posX, write_suffix GroupIdxY posY])"

definition read_suffix :: "nat \<Rightarrow> nat bin_parser" where
  "read_suffix PosLast =
     (if PosLast > 3
      then bindP (foldP (\<lambda>i uiTemp. bindP decodeBinEP (\<lambda>bin. returnP (add32 uiTemp (shl32 bin i)))) (rev [0..<(PosLast - 2) div 2]) 0)
        (\<lambda>uiTemp. returnP (add32 (g_uiMinInGroup ! PosLast) uiTemp))
      else returnP PosLast)"

text \<open>The search for the scan position ends at the last one without looking at it.\<close>

definition find_scan_pos :: "CoeffCodingContext \<Rightarrow> nat \<Rightarrow> nat" where
  "find_scan_pos c blkPos =
     (case filter (\<lambda>p. blkPos = blockPos c p) [0..<maxNumCoeff c - 1] of [] \<Rightarrow> maxNumCoeff c - 1 | p # _ \<Rightarrow> p)"

definition read_last_sig_coeff :: "CoeffCodingContext \<Rightarrow> nat bin_parser" where
  "read_last_sig_coeff c =
     bindP (count_ones (\<lambda>i. decodeBin (lastXCtxId c i)) (m_maxLastPosX c) 0) (\<lambda>PosLastX.
     bindP (count_ones (\<lambda>i. decodeBin (lastYCtxId c i)) (m_maxLastPosY c) 0) (\<lambda>PosLastY.
     bindP (read_suffix PosLastX) (\<lambda>PosLastX.
     bindP (read_suffix PosLastY) (\<lambda>PosLastY.
     returnP (find_scan_pos c (PosLastX + PosLastY * m_width c))))))"

section \<open>A group of coefficients\<close>

definition COEF_REMAIN_BIN_REDUCTION :: nat where "COEF_REMAIN_BIN_REDUCTION = 5"
definition SIGN_PRED_FREQ_RANGE :: nat where "SIGN_PRED_FREQ_RANGE = 32"
definition SIGN_PRED_HIDDEN :: int where "SIGN_PRED_HIDDEN = 3"

text \<open>What the passes over a group carry on both sides.\<close>

record Pass =
  p_cctx :: CoeffCodingContext
  p_state :: nat
  p_remRegBins :: int
  p_numNonZero :: nat
  p_firstNZPos :: int
  p_lastNZPos :: int

definition sp_qualified :: "CoeffCodingContext \<Rightarrow> bool" where
  "sp_qualified c \<longleftrightarrow>
     (let cgStartPosX = m_subSetPosX c * 2 ^ m_log2CGWidth c; cgStartPosY = m_subSetPosY c * 2 ^ m_log2CGHeight c;
          isSPArea = cgStartPosX < SIGN_PRED_FREQ_RANGE \<and> cgStartPosY < SIGN_PRED_FREQ_RANGE
      in m_bSignPredQualified c \<and> isSPArea \<and> m_width c \<ge> 4 \<and> m_height c \<ge> 4)"

definition first_sig_pos :: "CoeffCodingContext \<Rightarrow> nat" where
  "first_sig_pos c = (if isLast c then m_scanPosLast c else m_maxSubPos c)"

definition infer_sig_pos :: "CoeffCodingContext \<Rightarrow> int" where
  "infer_sig_pos c =
     (if first_sig_pos c \<noteq> m_scanPosLast c then (if isNotFirst c then int (m_minSubPos c) else -1)
      else int (first_sig_pos c))"

definition start_pass :: "CoeffCodingContext \<Rightarrow> nat \<Rightarrow> Pass" where
  "start_pass c state =
     \<lparr>p_cctx = c, p_state = state, p_remRegBins = regBinLimit c, p_numNonZero = 0,
      p_firstNZPos = int (first_sig_pos c), p_lastNZPos = -1\<rparr>"

definition group_scan :: "CoeffCodingContext \<Rightarrow> nat list" where
  "group_scan c = rev [m_minSubPos c..<Suc (first_sig_pos c)]"

text \<open>A coefficient other than zero is counted and moves the ends of the range.\<close>

definition count_nonzero :: "nat \<Rightarrow> Pass \<Rightarrow> Pass" where
  "count_nonzero scanPos s = s\<lparr>p_numNonZero := p_numNonZero s + 1, p_firstNZPos := int scanPos,
     p_lastNZPos := max (p_lastNZPos s) (int scanPos)\<rparr>"

subsection \<open>Writing\<close>

definition write_sign :: "bool \<Rightarrow> int \<Rightarrow> nat \<Rightarrow> nat" where
  "write_sign shift Coeff signPattern =
     (let signPattern = (if shift then shl32 signPattern 1 else signPattern)
      in if Coeff < 0 then add32 signPattern 1 else signPattern)"

text \<open>The flags of a coefficient other than zero.\<close>

definition write_levels :: "nat \<Rightarrow> int \<Rightarrow> Pass \<times> nat \<Rightarrow> bin_writer list \<times> Pass \<times> nat" where
  "write_levels nextSigPos Coeff = (\<lambda>(s, signPattern).
     (let c = p_cctx s; ctxOff = ctxOffsetAbs c; s = count_nonzero nextSigPos s;
          remAbsLevel = nat \<bar>Coeff\<bar> - 1;
          signPattern = write_sign (nextSigPos \<noteq> m_scanPosLast c) Coeff signPattern;
          gt1 = remAbsLevel \<noteq> 0;
          s = s\<lparr>p_remRegBins := p_remRegBins s - 1\<rparr>
      in if gt1
         then ([encodeBin (bin_of gt1) (greater1CtxIdAbs c ctxOff),
                encodeBin ((remAbsLevel - 1) mod 2) (parityCtxIdAbs c ctxOff),
                encodeBin (bin_of ((remAbsLevel - 1) div 2 \<noteq> 0)) (greater2CtxIdAbs c ctxOff)],
               s\<lparr>p_remRegBins := p_remRegBins s - 1 - 1\<rparr>, signPattern)
         else ([encodeBin (bin_of gt1) (greater1CtxIdAbs c ctxOff)], s, signPattern)))"

definition write_position :: "nat \<Rightarrow> int list \<Rightarrow> nat \<Rightarrow> int \<Rightarrow> Pass \<times> nat \<Rightarrow> bin_writer list \<times> Pass \<times> nat" where
  "write_position nextSigPos coeff stateTransTable inferSigPos = (\<lambda>(s, signPattern).
     (let c = p_cctx s; Coeff = coeff ! blockPos c nextSigPos; sigFlag = Coeff \<noteq> 0;
          coded = p_numNonZero s \<noteq> 0 \<or> int nextSigPos \<noteq> inferSigPos;
          (sigCtxId, c1) = sigCtxIdAbs nextSigPos coeff (p_state s) c;
          sig_bins = (if coded then [encodeBin (bin_of sigFlag) sigCtxId] else []);
          s = s\<lparr>p_cctx := if coded \<or> nextSigPos \<noteq> m_scanPosLast c then c1 else c,
            p_remRegBins := p_remRegBins s - (if coded then 1 else 0)\<rparr>;
          (level_bins, s, signPattern) = (if sigFlag then write_levels nextSigPos Coeff (s, signPattern) else ([], s, signPattern))
      in (sig_bins @ level_bins, s\<lparr>p_state := next_state stateTransTable (p_state s) Coeff\<rparr>, signPattern)))"

fun write_pass1 :: "nat list \<Rightarrow> int list \<Rightarrow> nat \<Rightarrow> int \<Rightarrow> Pass \<times> nat \<Rightarrow> bin_writer list \<times> nat list \<times> Pass \<times> nat" where
  "write_pass1 [] coeff tab inferSigPos s = ([], [], s)"
| "write_pass1 (p # ps) coeff tab inferSigPos s =
     (if p_remRegBins (fst s) \<ge> 4
      then let (ws, s) = write_position p coeff tab inferSigPos s;
               (ws', rest, s) = write_pass1 ps coeff tab inferSigPos s
           in (ws @ ws', rest, s)
      else ([], p # ps, s))"

definition rice_of :: "nat \<Rightarrow> int list \<Rightarrow> int \<Rightarrow> CoeffCodingContext \<Rightarrow> nat" where
  "rice_of scanPos coeff baseLevel c = g_auiGoRiceParsCoeff ! templateAbsSum scanPos coeff baseLevel c"

definition write_pass2 :: "nat list \<Rightarrow> int list \<Rightarrow> CoeffCodingContext \<Rightarrow> bin_writer list" where
  "write_pass2 ps coeff c =
     map (\<lambda>scanPos.
       let ricePar = rice_of scanPos coeff 4 c; absLevel = nat \<bar>coeff ! blockPos c scanPos\<bar>
       in ifW (absLevel \<ge> 4)
            [encodeRemAbsEP ((absLevel - 4) div 2) ricePar COEF_REMAIN_BIN_REDUCTION (m_maxLog2TrDynamicRange c)]) ps"

fun write_pass3 :: "nat list \<Rightarrow> int list \<Rightarrow> nat \<Rightarrow> Pass \<times> nat \<Rightarrow> bin_writer list \<times> Pass \<times> nat" where
  "write_pass3 [] coeff tab s = ([], s)"
| "write_pass3 (p # ps) coeff tab (s, signPattern) =
     (let c = p_cctx s; Coeff = coeff ! blockPos c p; absLevel = nat \<bar>Coeff\<bar>;
          rice = rice_of p coeff 0 c; pos0 = g_auiGoRicePosCoeff0 (p_state s) rice;
          rem = (if absLevel = 0 then pos0 else if absLevel \<le> pos0 then absLevel - 1 else absLevel);
          w = encodeRemAbsEP rem rice COEF_REMAIN_BIN_REDUCTION (m_maxLog2TrDynamicRange c);
          s = s\<lparr>p_state := next_state tab (p_state s) (int absLevel)\<rparr>;
          (ws, s) = write_pass3 ps coeff tab
            (if absLevel \<noteq> 0 then (count_nonzero p s, write_sign True Coeff signPattern) else (s, signPattern))
      in (w # ws, s))"

definition write_signs :: "bool \<Rightarrow> Pass \<times> nat \<Rightarrow> bin_writer" where
  "write_signs signPredQualified = (\<lambda>(s, signPattern).
     (let hidden = hideSign (p_cctx s) (p_firstNZPos s) (p_lastNZPos s);
          numSigns = (if hidden then p_numNonZero s - 1 else p_numNonZero s);
          signPattern = (if hidden then signPattern div 2 else signPattern)
      in ifW (\<not> signPredQualified) [encodeBinsEP signPattern numSigns]))"

definition write_residual_coding_subblock ::
  "int list \<Rightarrow> nat \<Rightarrow> CoeffCodingContext \<Rightarrow> nat \<Rightarrow> bin_writer list \<times> CoeffCodingContext \<times> nat" where
  "write_residual_coding_subblock coeff stateTransTable c state =
     (let flag_bins = (if \<not> isLast c \<and> isNotFirst c then [encodeBin (bin_of (isSigGroup c)) (m_sigGroupCtxId c)] else [])
      in if \<not> isLast c \<and> isNotFirst c \<and> \<not> isSigGroup c then (flag_bins, c, state)
         else let (bins1, rest, s, signPattern) =
                    write_pass1 (group_scan c) coeff stateTransTable (infer_sig_pos c) (start_pass c state, 0);
                  c' = (p_cctx s)\<lparr>regBinLimit := p_remRegBins s\<rparr>; s = s\<lparr>p_cctx := c'\<rparr>;
                  bins2 = write_pass2 (take (length (group_scan c) - length rest) (group_scan c)) coeff c';
                  (bins3, s, signPattern) = write_pass3 rest coeff stateTransTable (s, signPattern)
              in (flag_bins @ bins1 @ bins2 @ bins3 @ [write_signs (sp_qualified c) (s, signPattern)],
                  c', p_state s))"

subsection \<open>Reading\<close>

text \<open>
  The reader keeps the pass, the places of the coefficients other than zero, and the coefficients.
\<close>

type_synonym read_state = "Pass \<times> nat list \<times> int list"

definition read_levels :: "nat \<Rightarrow> read_state \<Rightarrow> read_state bin_parser" where
  "read_levels nextSigPos = (\<lambda>(s, sigBlkPos, coeff).
     (let c = p_cctx s; blkPos = blockPos c nextSigPos; ctxOff = ctxOffsetAbs c; s = count_nonzero nextSigPos s
      in bindP (decodeBin (greater1CtxIdAbs c ctxOff)) (\<lambda>gt1Flag.
           let s = s\<lparr>p_remRegBins := p_remRegBins s - 1\<rparr>
           in if gt1Flag \<noteq> 0
              then bindP (decodeBin (parityCtxIdAbs c ctxOff)) (\<lambda>parFlag.
                   bindP (decodeBin (greater2CtxIdAbs c ctxOff)) (\<lambda>gt2Flag.
                   returnP (s\<lparr>p_remRegBins := p_remRegBins s - 1 - 1\<rparr>, sigBlkPos @ [blkPos],
                     coeff[blkPos := coeff ! blkPos + int (1 + parFlag + gt1Flag + 2 * gt2Flag)])))
              else returnP (s, sigBlkPos @ [blkPos], coeff[blkPos := coeff ! blkPos + int (1 + gt1Flag)]))))"

definition read_position :: "nat \<Rightarrow> nat \<Rightarrow> int \<Rightarrow> read_state \<Rightarrow> read_state bin_parser" where
  "read_position nextSigPos stateTransTable inferSigPos = (\<lambda>(s, sigBlkPos, coeff).
     (let c = p_cctx s; blkPos = blockPos c nextSigPos;
          inferred = p_numNonZero s = 0 \<and> int nextSigPos = inferSigPos;
          (sigCtxId, c1) = sigCtxIdAbs nextSigPos coeff (p_state s) c;
          s = s\<lparr>p_cctx := if \<not> inferred \<or> nextSigPos \<noteq> m_scanPosLast c then c1 else c,
            p_remRegBins := p_remRegBins s - (if inferred then 0 else 1)\<rparr>
      in bindP (if inferred then returnP 1 else decodeBin sigCtxId) (\<lambda>sigFlag.
         bindP (if sigFlag \<noteq> 0 then read_levels nextSigPos (s, sigBlkPos, coeff) else returnP (s, sigBlkPos, coeff))
           (\<lambda>(s, sigBlkPos, coeff).
             returnP (s\<lparr>p_state := next_state stateTransTable (p_state s) (coeff ! blkPos)\<rparr>, sigBlkPos, coeff)))))"

fun read_pass1 :: "nat list \<Rightarrow> nat \<Rightarrow> int \<Rightarrow> read_state \<Rightarrow> (nat list \<times> read_state) bin_parser" where
  "read_pass1 [] tab inferSigPos s = returnP ([], s)"
| "read_pass1 (p # ps) tab inferSigPos s =
     (if p_remRegBins (fst s) \<ge> 4
      then bindP (read_position p tab inferSigPos s) (read_pass1 ps tab inferSigPos)
      else returnP (p # ps, s))"

definition read_pass2 :: "nat list \<Rightarrow> CoeffCodingContext \<Rightarrow> int list \<Rightarrow> int list bin_parser" where
  "read_pass2 ps c = foldP (\<lambda>scanPos coeff.
     (let ricePar = rice_of scanPos coeff 4 c; tcoeff = coeff ! blockPos c scanPos
      in if tcoeff \<ge> 4
         then bindP (decodeRemAbsEP ricePar COEF_REMAIN_BIN_REDUCTION (m_maxLog2TrDynamicRange c)) (\<lambda>rem.
              returnP (coeff[blockPos c scanPos := tcoeff + 2 * int rem]))
         else returnP coeff)) ps"

definition read_pass3 :: "nat list \<Rightarrow> nat \<Rightarrow> read_state \<Rightarrow> read_state bin_parser" where
  "read_pass3 ps tab = foldP (\<lambda>scanPos (s, sigBlkPos, coeff).
     (let c = p_cctx s; rice = rice_of scanPos coeff 0 c; pos0 = g_auiGoRicePosCoeff0 (p_state s) rice
      in bindP (decodeRemAbsEP rice COEF_REMAIN_BIN_REDUCTION (m_maxLog2TrDynamicRange c)) (\<lambda>rem.
           let tcoeff = (if rem = pos0 then 0 else if rem < pos0 then rem + 1 else rem);
               s = s\<lparr>p_state := next_state tab (p_state s) (int tcoeff)\<rparr>
           in returnP (if tcoeff \<noteq> 0
                       then (count_nonzero scanPos s, sigBlkPos @ [blockPos c scanPos], coeff[blockPos c scanPos := int tcoeff])
                       else (s, sigBlkPos, coeff))))) ps"

text \<open>\<open>check_coeff_conformance\<close>, and the loop that gives the coefficients their signs from the top bit.\<close>

definition check_coeff_conformance :: "CoeffCodingContext \<Rightarrow> int \<Rightarrow> 'a bin_parser \<Rightarrow> 'a bin_parser" where
  "check_coeff_conformance c coeff =
     checkP (coeff < minCoeff c \<or> coeff > maxCoeff c) ''TransCoeffLevel outside allowable range''"

fun set_signs :: "CoeffCodingContext \<Rightarrow> nat list \<Rightarrow> nat \<Rightarrow> int \<Rightarrow> int list \<Rightarrow> (int \<times> int list) bin_parser" where
  "set_signs c [] signPattern sumAbs coeff = returnP (sumAbs, coeff)"
| "set_signs c (b # bs) signPattern sumAbs coeff =
     (let AbsCoeff = coeff ! b; v = (if bit signPattern 31 then - AbsCoeff else AbsCoeff)
      in check_coeff_conformance c v (set_signs c bs (shl32 signPattern 1) (sumAbs + AbsCoeff) (coeff[b := v])))"

text \<open>
  The signs of a group. Without signs to read the code shifts a zero by 32 places and does not use the
  result; the list of places has one more entry than there are signs when one sign is hidden, and that
  coefficient takes the parity of \<open>sumAbs\<close>, the sum over the coefficients whose signs were read here.
\<close>

definition read_signs :: "bool \<Rightarrow> int list \<Rightarrow> read_state \<Rightarrow> (int list \<times> int list) bin_parser" where
  "read_signs signPredQualified sign = (\<lambda>(s, sigBlkPos, coeff).
     (let c = p_cctx s;
          numSigns = (if hideSign c (p_firstNZPos s) (p_lastNZPos s) then p_numNonZero s - 1 else p_numNonZero s)
      in bindP (if signPredQualified then returnP (0, coeff)
                else bindP (decodeBinsEP numSigns) (\<lambda>bins.
                     set_signs c (take numSigns sigBlkPos) (if numSigns = 0 then bins else shl32 bins (32 - numSigns)) 0 coeff))
           (\<lambda>(sumAbs, coeff).
             if p_numNonZero s > numSigns
             then let k = sigBlkPos ! numSigns; AbsCoeff = coeff ! k;
                      v = (if odd (sumAbs + AbsCoeff) then - AbsCoeff else AbsCoeff)
                  in check_coeff_conformance c v (returnP (coeff[k := v], sign[k := SIGN_PRED_HIDDEN]))
             else returnP (coeff, sign))))"

definition read_residual_coding_subblock ::
  "nat \<Rightarrow> CoeffCodingContext \<Rightarrow> nat \<Rightarrow> int list \<times> int list \<Rightarrow> (CoeffCodingContext \<times> nat \<times> int list \<times> int list) bin_parser" where
  "read_residual_coding_subblock stateTransTable c state = (\<lambda>(coeff, sign).
     bindP (if isLast c \<or> m_minSubPos c = 0 then returnP 1 else decodeBin (m_sigGroupCtxId c)) (\<lambda>sigGroup.
       if sigGroup = 0 then returnP (c, state, coeff, sign)
       else let c = setSigGroup c
            in bindP (read_pass1 (group_scan c) stateTransTable (infer_sig_pos c) (start_pass c state, [], coeff))
                 (\<lambda>(rest, s, sigBlkPos, coeff).
               let c' = (p_cctx s)\<lparr>regBinLimit := p_remRegBins s\<rparr>; s = s\<lparr>p_cctx := c'\<rparr>
               in bindP (read_pass2 (take (length (group_scan c) - length rest) (group_scan c)) c' coeff) (\<lambda>coeff.
                  bindP (read_pass3 rest stateTransTable (s, sigBlkPos, coeff)) (\<lambda>(s, sigBlkPos, coeff).
                  bindP (read_signs (sp_qualified c) sign (s, sigBlkPos, coeff)) (\<lambda>(coeff, sign).
                  returnP (c', p_state s, coeff, sign)))))))"

section \<open>A block of coefficients\<close>

text \<open>What the syntax of a coding unit learns from the coefficients of its blocks.\<close>

record CUCtx =
  violatesLfnstConstrained :: "bool list"
  lfnstLastScanPos :: bool
  mtsLastScanPos :: bool
  mtsCoeffAbsSum :: nat

definition new_CUCtx :: CUCtx where
  "new_CUCtx = \<lparr>violatesLfnstConstrained = [False, False], lfnstLastScanPos = False, mtsLastScanPos = False, mtsCoeffAbsSum = 0\<rparr>"

text \<open>A transform unit, as far as these functions read it and the settings of its sequence and slice.\<close>

record TransformUnit =
  tu_chType :: nat
  tu_width :: nat
  tu_height :: nat
  tu_transform_skip :: bool
  tu_signDataHiding :: bool
  tu_depQuantEnabledIdc :: nat
  tu_maxLog2TrDynamicRange :: nat
  tu_delayedSignCoding :: bool

definition L16H :: nat where "L16H = 32"

definition getLFNSTMatrixDim :: "nat \<Rightarrow> nat \<Rightarrow> nat" where
  "getLFNSTMatrixDim width height =
     (let dimension = (if width = 8 \<and> height = 8 then 16 else if width \<ge> 8 \<and> height \<ge> 8 then 32 else 16)
      in if width \<ge> 16 \<and> height \<ge> 16 then L16H else dimension)"

definition MAX_TU_LEVEL_CTX_CODED_BIN_CONSTRAINT :: nat where "MAX_TU_LEVEL_CTX_CODED_BIN_CONSTRAINT = 28"

definition getTbAreaAfterCoefZeroOut :: "TransformUnit \<Rightarrow> nat" where
  "getTbAreaAfterCoefZeroOut tu =
     min JVET_C0024_ZERO_OUT_TH (tu_width tu) * min JVET_C0024_ZERO_OUT_TH (tu_height tu)"

definition LFNST_LAST_SIG_LUMA :: nat where "LFNST_LAST_SIG_LUMA = 1"
definition LFNST_LAST_SIG_CHROMA :: nat where "LFNST_LAST_SIG_CHROMA = 1"

definition note_last_pos :: "TransformUnit \<Rightarrow> nat \<Rightarrow> CUCtx \<Rightarrow> CUCtx" where
  "note_last_pos tu scanPosLast u =
     (let luma = tu_chType tu = CHANNEL_TYPE_LUMA; large = tu_height tu \<ge> 4 \<and> tu_width tu \<ge> 4;
          ch = tu_chType tu;
          maxLfnstPos = getLFNSTMatrixDim (tu_width tu) (tu_height tu) - 1;
          u = (if \<not> tu_transform_skip tu \<and> large
               then u\<lparr>violatesLfnstConstrained := (violatesLfnstConstrained u)[ch := violatesLfnstConstrained u ! ch \<or> scanPosLast > maxLfnstPos]\<rparr>
               else u);
          u = (if \<not> tu_transform_skip tu \<and> large
               then u\<lparr>lfnstLastScanPos := lfnstLastScanPos u \<or> scanPosLast \<ge> (if luma then LFNST_LAST_SIG_LUMA else LFNST_LAST_SIG_CHROMA)\<rparr>
               else u)
      in if luma \<and> \<not> tu_transform_skip tu then u\<lparr>mtsLastScanPos := mtsLastScanPos u \<or> scanPosLast \<ge> 1\<rparr> else u)"

definition note_abs_sum :: "TransformUnit \<Rightarrow> int list \<Rightarrow> CUCtx \<Rightarrow> CUCtx" where
  "note_abs_sum tu coeff u =
     (if tu_chType tu = CHANNEL_TYPE_LUMA \<and> \<not> tu_transform_skip tu
      then u\<lparr>mtsCoeffAbsSum := nat (sum_list (map abs coeff))\<rparr> else u)"

definition tu_cctx :: "TransformUnit \<Rightarrow> CoeffCodingContext" where
  "tu_cctx tu = new_CoeffCodingContext (tu_chType tu) (tu_width tu) (tu_height tu) (tu_signDataHiding tu)
     (tu_maxLog2TrDynamicRange tu) (tu_delayedSignCoding tu)"

definition tu_bin_limit :: "TransformUnit \<Rightarrow> int" where
  "tu_bin_limit tu = int (getTbAreaAfterCoefZeroOut tu * MAX_TU_LEVEL_CTX_CODED_BIN_CONSTRAINT div 2 ^ 4)"

text \<open>The loop that finds the last coefficient and the groups in use.\<close>

definition scan_significant :: "CoeffCodingContext \<Rightarrow> int list \<Rightarrow> int \<times> bool list" where
  "scan_significant c coeff =
     fold (\<lambda>scanPos (scanPosLast, sigGroupFlags).
         if coeff ! blockPos c scanPos \<noteq> 0
         then (int scanPos, sigGroupFlags[scanPos div 2 ^ log2CGSize c := True])
         else (scanPosLast, sigGroupFlags))
       [0..<maxNumCoeff c] (-1, replicate MLS_GRP_NUM False)"

fun write_subblocks :: "nat list \<Rightarrow> bool list \<Rightarrow> int list \<Rightarrow> nat \<Rightarrow> CoeffCodingContext \<Rightarrow> nat \<Rightarrow> bin_writer list" where
  "write_subblocks [] sigGroupFlags coeff tab c state = []"
| "write_subblocks (k # ks) sigGroupFlags coeff tab c state =
     (let (ws, c, state) = write_residual_coding_subblock coeff tab (initSubblock k (sigGroupFlags ! k) c) state
      in ws @ write_subblocks ks sigGroupFlags coeff tab c state)"

definition write_residual_coding :: "TransformUnit \<Rightarrow> int list \<Rightarrow> bin_writer" where
  "write_residual_coding tu coeff =
     (let c = tu_cctx tu; (scanPosLast, sigGroupFlags) = scan_significant c coeff;
          c = c\<lparr>m_scanPosLast := nat scanPosLast\<rparr>; tab = g_stateTransTab ! tu_depQuantEnabledIdc tu
      in seqW (checkW (scanPosLast < 0) ''Coefficient coding called for empty TU''
               # write_last_sig_coeff c
               # write_subblocks (rev [0..<Suc (m_scanPosLast c div 2 ^ log2CGSize c)]) sigGroupFlags coeff tab
                   (c\<lparr>regBinLimit := tu_bin_limit tu\<rparr>) 0))"

definition writer_CUCtx :: "TransformUnit \<Rightarrow> int list \<Rightarrow> CUCtx \<Rightarrow> CUCtx" where
  "writer_CUCtx tu coeff u = note_abs_sum tu coeff (note_last_pos tu (nat (fst (scan_significant (tu_cctx tu) coeff))) u)"

fun read_subblocks :: "nat list \<Rightarrow> nat \<Rightarrow> CoeffCodingContext \<Rightarrow> nat \<Rightarrow> int list \<times> int list \<Rightarrow> (int list \<times> int list) bin_parser" where
  "read_subblocks [] tab c state cs = returnP cs"
| "read_subblocks (k # ks) tab c state cs =
     bindP (read_residual_coding_subblock tab (initSubblock k False c) state cs)
       (\<lambda>(c, state, cs). read_subblocks ks tab c state cs)"

definition read_residual_coding :: "TransformUnit \<Rightarrow> int list \<times> int list \<Rightarrow> CUCtx \<Rightarrow> ((int list \<times> int list) \<times> CUCtx) bin_parser" where
  "read_residual_coding tu cs u =
     (let c = tu_cctx tu; tab = g_stateTransTab ! tu_depQuantEnabledIdc tu
      in bindP (read_last_sig_coeff c) (\<lambda>scanPosLast.
         let c = c\<lparr>m_scanPosLast := scanPosLast\<rparr>; u = note_last_pos tu scanPosLast u
         in bindP (read_subblocks (rev [0..<Suc (scanPosLast div 2 ^ log2CGSize c)]) tab (c\<lparr>regBinLimit := tu_bin_limit tu\<rparr>) 0 cs)
              (\<lambda>(coeff, sign). returnP ((coeff, sign), note_abs_sum tu coeff u))))"

end
