(* ===== verification/Quantisation.thy ===== *)
theory Quantisation
  imports QpParams ResidualCoding
begin

unbundle bit_operations_syntax

text \<open>
  Scalar quantisation: \<open>Quant::quant\<close>, \<open>Quant::dequant\<close>, the differences of block DPCM and the hiding of
  signs of \<open>source/Lib/CommonLib/Quant.cpp\<close>, with the scales of \<open>Rom.cpp\<close>. A block is a list in raster
  order whose stride is its width. Shifts and sums that the code computes in 32 bits are cut to 32 bits.
  What the coding unit, the slice and the sequence say is in the record of settings; the matrices of
  scaling lists are there when \<open>getUseScalingList\<close> holds. Arrays the code leaves uninitialised are arguments.
\<close>

definition s32 :: "int \<Rightarrow> int" where "s32 x = signed_take_bit 31 x"

lemma s32_fits: "- (2 ^ 31) \<le> x \<Longrightarrow> x < 2 ^ 31 \<Longrightarrow> s32 x = x"
  unfolding s32_def by (rule signed_take_bit_int_eq_self) simp_all

section \<open>Scales and shifts\<close>

definition QUANT_SHIFT :: int where "QUANT_SHIFT = 14"
definition IQUANT_SHIFT :: int where "IQUANT_SHIFT = 6"
definition SCALING_LIST_BITS :: int where "SCALING_LIST_BITS = 8"
definition LOG2_SCALING_LIST_NEUTRAL_VALUE :: int where "LOG2_SCALING_LIST_NEUTRAL_VALUE = 4"

definition g_quantScales :: "int list list" where
  "g_quantScales = [[26214, 23302, 20560, 18396, 16384, 14564], [18396, 16384, 14564, 13107, 11651, 10280]]"

definition g_invQuantScales :: "int list list" where
  "g_invQuantScales = [[40, 45, 51, 57, 64, 72], [57, 64, 72, 80, 90, 102]]"

definition getTransformShift :: "int \<Rightarrow> nat \<Rightarrow> nat \<Rightarrow> int \<Rightarrow> int" where
  "getTransformShift channelBitDepth width height maxLog2TrDynamicRange =
     maxLog2TrDynamicRange - channelBitDepth - drop_bit 1 (floorLog2 width + floorLog2 height)"

definition needsSqrt2Scale :: "bool \<Rightarrow> nat \<Rightarrow> nat \<Rightarrow> bool" where
  "needsSqrt2Scale isTransformSkip width height \<longleftrightarrow>
     \<not> isTransformSkip \<and> (floorLog2 width + floorLog2 height) AND 1 = 1"

definition isNonLog2BlockSize :: "nat \<Rightarrow> nat \<Rightarrow> bool" where
  "isNonLog2BlockSize width height \<longleftrightarrow>
     push_bit (nat (floorLog2 width)) 1 \<noteq> width \<or> push_bit (nat (floorLog2 height)) 1 \<noteq> height"

definition needsBlockSizeTrafoScale :: "bool \<Rightarrow> nat \<Rightarrow> nat \<Rightarrow> bool" where
  "needsBlockSizeTrafoScale isTransformSkip width height \<longleftrightarrow>
     needsSqrt2Scale isTransformSkip width height \<or> isNonLog2BlockSize width height"

record quant_setting =
  qs_bitDepth :: int
  qs_extendedPrecision :: bool
  qs_isIRAP :: bool
  qs_bdpcm :: nat
  qs_lfnst :: bool
  qs_quantCoef :: "int list option"
  qs_dequantCoef :: "int list option"
  qs_maxTrSize :: nat

abbreviation trafo_scale :: "TransformUnit \<Rightarrow> bool" where
  "trafo_scale tu \<equiv> needsBlockSizeTrafoScale (tu_transform_skip tu) (tu_width tu) (tu_height tu)"

abbreviation transform_shift :: "TransformUnit \<Rightarrow> quant_setting \<Rightarrow> int" where
  "transform_shift tu st \<equiv> getTransformShift (qs_bitDepth st) (tu_width tu) (tu_height tu) (int (tu_maxLog2TrDynamicRange tu))"

section \<open>Differences of block DPCM\<close>

definition fwdResDPCM :: "nat \<Rightarrow> nat \<Rightarrow> nat \<Rightarrow> int list \<Rightarrow> int list" where
  "fwdResDPCM bdpcm wdt hgt coef =
     (if bdpcm = 1
      then fold (\<lambda>y. fold (\<lambda>x c. c[y * wdt + x := c ! (y * wdt + x) - c ! (y * wdt + x - 1)]) (rev [1..<wdt])) [0..<hgt] coef
      else fold (\<lambda>y. fold (\<lambda>x c. c[y * wdt + x := c ! (y * wdt + x) - c ! (y * wdt + x - wdt)]) [0..<wdt]) (rev [1..<hgt]) coef)"

definition invResDPCM :: "nat \<Rightarrow> nat \<Rightarrow> nat \<Rightarrow> nat \<Rightarrow> int list \<Rightarrow> int list \<Rightarrow> int list" where
  "invResDPCM bdpcm wdt hgt maxLog2TrDynamicRange coef dst =
     (let inputMinimum = - (2 ^ maxLog2TrDynamicRange); inputMaximum = 2 ^ maxLog2TrDynamicRange - 1
      in if bdpcm = 1
         then fold (\<lambda>y dst. fold (\<lambda>x dst. dst[y * wdt + x := Clip3 inputMinimum inputMaximum (dst ! (y * wdt + x - 1) + coef ! (y * wdt + x))])
                [1..<wdt] (dst[y * wdt := coef ! (y * wdt)])) [0..<hgt] dst
         else fold (\<lambda>y. fold (\<lambda>x dst. dst[(y + 1) * wdt + x := Clip3 inputMinimum inputMaximum (dst ! (y * wdt + x) + coef ! ((y + 1) * wdt + x))])
                [0..<wdt]) [0..<hgt - 1] (fold (\<lambda>x dst. dst[x := coef ! x]) [0..<wdt] dst))"

section \<open>Sign data hiding\<close>

text \<open>The first and the last position of a group whose level is not zero.\<close>

definition first_nz :: "CoeffCodingContext \<Rightarrow> int list \<Rightarrow> nat \<Rightarrow> int" where
  "first_nz c q subPos =
     (case find (\<lambda>n. q ! blockPos c (n + subPos) \<noteq> 0) [0..<2 ^ log2CGSize c] of Some n \<Rightarrow> int n | None \<Rightarrow> 2 ^ log2CGSize c)"

definition last_nz :: "CoeffCodingContext \<Rightarrow> int list \<Rightarrow> nat \<Rightarrow> int" where
  "last_nz c q subPos =
     (case find (\<lambda>n. q ! blockPos c (n + subPos) \<noteq> 0) (rev [0..<2 ^ log2CGSize c]) of Some n \<Rightarrow> int n | None \<Rightarrow> -1)"

definition MAX_COST :: int where "MAX_COST = 2 ^ 31 - 1"

text \<open>The cost of changing a level and the change; where the code leaves the change alone it keeps its last value.\<close>

definition change_cost ::
  "int list \<Rightarrow> int list \<Rightarrow> int list \<Rightarrow> int \<Rightarrow> int \<Rightarrow> nat \<Rightarrow> int \<Rightarrow> nat \<Rightarrow> int \<times> int" where
  "change_cost q pCoef deltaU firstNZPosInCG signbit blkPos curChange n =
     (if q ! blkPos \<noteq> 0
      then if deltaU ! blkPos > 0 then (- (deltaU ! blkPos), 1)
           else if int n = firstNZPosInCG \<and> \<bar>q ! blkPos\<bar> = 1 then (MAX_COST, curChange)
           else (deltaU ! blkPos, -1)
      else if int n < firstNZPosInCG
      then if (if pCoef ! blkPos \<ge> 0 then 0 else 1) \<noteq> signbit then (MAX_COST, curChange) else (- (deltaU ! blkPos), 1)
      else (- (deltaU ! blkPos), 1))"

record change_search =
  cs_minCostInc :: int
  cs_finalChange :: int
  cs_minPos :: int
  cs_curChange :: int

definition search_step ::
  "CoeffCodingContext \<Rightarrow> int list \<Rightarrow> int list \<Rightarrow> int list \<Rightarrow> int \<Rightarrow> int \<Rightarrow> nat \<Rightarrow> nat \<Rightarrow> change_search \<Rightarrow> change_search" where
  "search_step c q pCoef deltaU firstNZPosInCG signbit subPos n s =
     (let blkPos = blockPos c (n + subPos);
          (curCost, curChange) = change_cost q pCoef deltaU firstNZPosInCG signbit blkPos (cs_curChange s) n
      in if curCost < cs_minCostInc s
         then \<lparr>cs_minCostInc = curCost, cs_finalChange = curChange, cs_minPos = int blkPos, cs_curChange = curChange\<rparr>
         else s\<lparr>cs_curChange := curChange\<rparr>)"

definition apply_change :: "nat \<Rightarrow> int list \<Rightarrow> change_search \<Rightarrow> int list \<Rightarrow> int list" where
  "apply_change maxLog2TrDynamicRange pCoef s q =
     (let entropyCodingMinimum = - (2 ^ maxLog2TrDynamicRange); entropyCodingMaximum = 2 ^ maxLog2TrDynamicRange - 1;
          p = nat (cs_minPos s);
          finalChange = (if q ! p = entropyCodingMaximum \<or> q ! p = entropyCodingMinimum then -1 else cs_finalChange s)
      in if pCoef ! p \<ge> 0 then q[p := q ! p + finalChange] else q[p := q ! p - finalChange])"

definition hide_group :: "CoeffCodingContext \<Rightarrow> int list \<Rightarrow> int list \<Rightarrow> nat \<Rightarrow> nat \<Rightarrow> int \<times> int list \<Rightarrow> int \<times> int list" where
  "hide_group c pCoef deltaU maxLog2TrDynamicRange subSet = (\<lambda>(lastCG, q).
     let groupSize = 2 ^ log2CGSize c;
         subPos = subSet * groupSize;
         firstNZPosInCG = first_nz c q subPos; lastNZPosInCG = last_nz c q subPos;
         absSum = (\<Sum>n\<leftarrow>[nat firstNZPosInCG..<nat (lastNZPosInCG + 1)]. q ! blockPos c (n + subPos));
         lastCG = (if lastNZPosInCG \<ge> 0 \<and> lastCG = -1 then 1 else lastCG);
         signbit = (if q ! blockPos c (subPos + nat firstNZPosInCG) > 0 then 0 else 1);
         q = (if lastNZPosInCG - firstNZPosInCG \<ge> SBH_THRESHOLD \<and> signbit \<noteq> absSum AND 1
              then apply_change maxLog2TrDynamicRange pCoef
                     (fold (search_step c q pCoef deltaU firstNZPosInCG signbit subPos)
                        (rev [0..<nat ((if lastCG = 1 then lastNZPosInCG else int groupSize - 1) + 1)])
                        \<lparr>cs_minCostInc = MAX_COST, cs_finalChange = 0, cs_minPos = -1, cs_curChange = 0\<rparr>) q
              else q)
     in (if lastCG = 1 then 0 else lastCG, q))"

definition xSignBitHidingHDQ :: "CoeffCodingContext \<Rightarrow> int list \<Rightarrow> int list \<Rightarrow> nat \<Rightarrow> int list \<Rightarrow> int list" where
  "xSignBitHidingHDQ c pCoef deltaU maxLog2TrDynamicRange q =
     snd (fold (hide_group c pCoef deltaU maxLog2TrDynamicRange)
       (rev [0..<Suc ((m_width c * m_height c - 1) div 2 ^ log2CGSize c)]) (-1, q))"

section \<open>Quantisation\<close>

definition quant_bits :: "TransformUnit \<Rightarrow> quant_setting \<Rightarrow> QpParam \<Rightarrow> int" where
  "quant_bits tu st cQP =
     (let ts = tu_transform_skip tu;
          iTransformShift = transform_shift tu st + (if trafo_scale tu then -1 else 0);
          iTransformShift = (if ts \<and> qs_extendedPrecision st then max 0 iTransformShift else iTransformShift)
      in QUANT_SHIFT + per cQP ts + (if ts then 0 else iTransformShift))"

definition quant_scale :: "TransformUnit \<Rightarrow> quant_setting \<Rightarrow> QpParam \<Rightarrow> nat \<Rightarrow> int" where
  "quant_scale tu st cQP uiBlockPos =
     (case qs_quantCoef st of
        Some piQuantCoeff \<Rightarrow> piQuantCoeff ! uiBlockPos
      | None \<Rightarrow> g_quantScales ! (if trafo_scale tu then 1 else 0) ! nat (qp_rem cQP (tu_transform_skip tu)))"

text \<open>The magnitude of a level and what is left, for a coefficient.\<close>

definition quantise :: "bool \<Rightarrow> nat \<Rightarrow> int \<Rightarrow> int \<Rightarrow> int \<times> int" where
  "quantise isIRAP iQBits scale iLevel =
     (let iAdd = push_bit (iQBits - 9) (if isIRAP then 171 else 85);
          tmpLevel = \<bar>iLevel\<bar> * scale;
          quantisedMagnitude = s32 (drop_bit iQBits (tmpLevel + iAdd))
      in (quantisedMagnitude, s32 (drop_bit (iQBits - 8) (tmpLevel - push_bit iQBits quantisedMagnitude))))"

definition quant_step ::
  "TransformUnit \<Rightarrow> quant_setting \<Rightarrow> QpParam \<Rightarrow> int list \<Rightarrow> nat \<Rightarrow> int \<times> int list \<times> int list \<Rightarrow> int \<times> int list \<times> int list" where
  "quant_step tu st cQP piCoef scanPos = (\<lambda>(uiAbsSum, deltaU, q).
     let uiBlockPos = scan_idx (g_scanOrder SCAN_GROUPED_4x4 SCAN_DIAG (tu_width tu) (tu_height tu) ! scanPos);
         iLevel = piCoef ! uiBlockPos; iSign = (if iLevel < 0 then -1 else 1);
         (quantisedMagnitude, delta) = quantise (qs_isIRAP st) (nat (quant_bits tu st cQP)) (quant_scale tu st cQP uiBlockPos) iLevel;
         m = tu_maxLog2TrDynamicRange tu
     in (s32 (uiAbsSum + quantisedMagnitude), deltaU[uiBlockPos := delta],
         q[uiBlockPos := Clip3 (- (2 ^ m)) (2 ^ m - 1) (quantisedMagnitude * iSign)]))"

definition quant_loop :: "TransformUnit \<Rightarrow> quant_setting \<Rightarrow> QpParam \<Rightarrow> int list \<Rightarrow> int \<Rightarrow> int list \<Rightarrow> int \<times> int list \<times> int list" where
  "quant_loop tu st cQP piCoef uiAbsSum deltaU =
     (let area = tu_width tu * tu_height tu;
          maxNumberOfCoeffs = (if qs_lfnst st then getLFNSTMatrixDim (tu_width tu) (tu_height tu) else area)
      in fold (quant_step tu st cQP piCoef) [0..<maxNumberOfCoeffs] (uiAbsSum, deltaU, replicate area 0))"

definition quant :: "TransformUnit \<Rightarrow> quant_setting \<Rightarrow> QpParam \<Rightarrow> int list \<Rightarrow> int \<Rightarrow> int list \<Rightarrow> int \<times> int list" where
  "quant tu st cQP piCoef uiAbsSum deltaU =
     (let (uiAbsSum, deltaU, q) = quant_loop tu st cQP piCoef uiAbsSum deltaU;
          q = (if qs_bdpcm st \<noteq> 0 then fwdResDPCM (qs_bdpcm st) (tu_width tu) (tu_height tu) q else q);
          cctx = new_CoeffCodingContext (tu_chType tu) (tu_width tu) (tu_height tu) (tu_signDataHiding tu) (tu_maxLog2TrDynamicRange tu) False
      in (uiAbsSum, if m_signHiding cctx \<and> uiAbsSum \<ge> 2
                    then xSignBitHidingHDQ cctx piCoef deltaU (tu_maxLog2TrDynamicRange tu) q else q))"

text \<open>Whether any coefficient of a block would be quantised to something else than zero.\<close>

definition xNeedRDOQ :: "TransformUnit \<Rightarrow> quant_setting \<Rightarrow> QpParam \<Rightarrow> int list \<Rightarrow> bool" where
  "xNeedRDOQ tu st cQP piCoef =
     (let ts = tu_transform_skip tu;
          iTransformShift = transform_shift tu st + (if trafo_scale tu then -1 else 0);
          iTransformShift = (if ts \<and> qs_extendedPrecision st then max 0 iTransformShift else iTransformShift);
          iQBits = QUANT_SHIFT + per cQP ts + iTransformShift;
          iAdd = push_bit (nat (iQBits - 9)) (if tu_chType tu = CHANNEL_TYPE_LUMA then 171 else 256)
      in list_ex (\<lambda>pos. s32 (drop_bit (nat iQBits) (\<bar>piCoef ! pos\<bar> * quant_scale tu st cQP pos + iAdd)) \<noteq> 0)
           [0..<tu_width tu * tu_height tu])"

section \<open>Inverse quantisation\<close>

datatype quant_error = Unsupported_transformation_size

definition dequant_shift :: "TransformUnit \<Rightarrow> quant_setting \<Rightarrow> QpParam \<Rightarrow> int" where
  "dequant_shift tu st cQP =
     (let ts = tu_transform_skip tu;
          bClipTransformShiftTo0 = (\<not> ts \<and> qs_extendedPrecision st);
          originalTransformShift = transform_shift tu st;
          iTransformShift = (if bClipTransformShiftTo0 then max 0 originalTransformShift else originalTransformShift)
            + (if trafo_scale tu then -1 else 0)
      in IQUANT_SHIFT - ((if ts then 0 else iTransformShift) + per cQP ts)
         + (if qs_dequantCoef st \<noteq> None then LOG2_SCALING_LIST_NEUTRAL_VALUE else 0))"

definition dequant_scale :: "TransformUnit \<Rightarrow> quant_setting \<Rightarrow> QpParam \<Rightarrow> nat \<Rightarrow> int" where
  "dequant_scale tu st cQP n =
     (case qs_dequantCoef st of
        Some piDequantCoef \<Rightarrow> piDequantCoef ! n
      | None \<Rightarrow> g_invQuantScales ! (if trafo_scale tu then 1 else 0) ! nat (qp_rem cQP (tu_transform_skip tu)))"

definition scale_bits :: "quant_setting \<Rightarrow> int" where
  "scale_bits st = (if qs_dequantCoef st \<noteq> None then 1 + IQUANT_SHIFT + SCALING_LIST_BITS else IQUANT_SHIFT + 1)"

definition dequantise :: "nat \<Rightarrow> int \<Rightarrow> int \<Rightarrow> int \<Rightarrow> int \<Rightarrow> int" where
  "dequantise maxLog2TrDynamicRange scaleBits rightShift scale level =
     (let targetInputBitDepth = min (int maxLog2TrDynamicRange + 1) ((32 + rightShift - scaleBits) mod 2 ^ 32);
          inputMinimum = - (2 ^ nat (targetInputBitDepth - 1)); inputMaximum = 2 ^ nat (targetInputBitDepth - 1) - 1;
          clipQCoef = Clip3 inputMinimum inputMaximum level;
          iCoeffQ = (if rightShift > 0
                     then drop_bit (nat rightShift) (s32 (s32 (clipQCoef * scale) + 2 ^ nat (rightShift - 1)))
                     else s32 (push_bit (nat (- rightShift)) (s32 (clipQCoef * scale))))
      in Clip3 (- (2 ^ maxLog2TrDynamicRange)) (2 ^ maxLog2TrDynamicRange - 1) iCoeffQ)"

definition dequant :: "TransformUnit \<Rightarrow> quant_setting \<Rightarrow> QpParam \<Rightarrow> int list \<Rightarrow> int list \<Rightarrow> quant_error + int list" where
  "dequant tu st cQP coeffs dst =
     (let coef = (if qs_bdpcm st \<noteq> 0
                  then invResDPCM (qs_bdpcm st) (tu_width tu) (tu_height tu) (tu_maxLog2TrDynamicRange tu) coeffs dst else coeffs)
      in if tu_width tu > qs_maxTrSize st then Inl Unsupported_transformation_size
         else Inr (map (\<lambda>n. dequantise (tu_maxLog2TrDynamicRange tu) (scale_bits st) (dequant_shift tu st cQP)
                         (dequant_scale tu st cQP n) (coef ! n)) [0..<tu_width tu * tu_height tu]))"

end
