(* ===== verification/QuantBounds.thy ===== *)
theory QuantBounds
  imports Quantisation
begin

unbundle bit_operations_syntax

text \<open>
  What inverse quantisation promises: the differences of block DPCM are undone, and the 32 bit arithmetic of
  a coefficient is the arithmetic of integers, with \<open>reconstruct\<close> as the reference.
\<close>

section \<open>Block DPCM\<close>

lemma fold_concat_map:
  "fold (\<lambda>y. fold (\<lambda>x. f (g y x)) xs) ys s = fold f (concat (map (\<lambda>y. map (g y) xs) ys)) s"
  by (induction ys arbitrary: s) (simp_all add: fold_map comp_def)

lemma sorted_wrt_concat_map:
  assumes "\<And>y. y \<in> set ys \<Longrightarrow> sorted_wrt P (f y)"
    and "sorted_wrt (\<lambda>y y'. \<forall>a\<in>set (f y). \<forall>b\<in>set (f y'). P a b) ys"
  shows "sorted_wrt P (concat (map f ys))"
  using assms by (induction ys) (auto simp: sorted_wrt_append)

text \<open>Updates in place that read only what has not been written yet.\<close>

lemma fold_update_unwritten:
  assumes "sorted_wrt (\<lambda>k j. k \<noteq> j \<and> p j \<noteq> k) ks" and "\<And>k. k \<in> set ks \<Longrightarrow> k < length c"
  shows "length (fold (\<lambda>k c. c[k := F (c ! k) (c ! p k)]) ks c) = length c"
    and "fold (\<lambda>k c. c[k := F (c ! k) (c ! p k)]) ks c ! j = (if j \<in> set ks then F (c ! j) (c ! p j) else c ! j)"
  using assms
proof (induction ks arbitrary: c)
  case (Cons k ks)
  { case 1
    then show ?case using Cons.IH(1) [of "c[k := F (c ! k) (c ! p k)]"] by simp
  next
    case 2
    then have "fold (\<lambda>k c. c[k := F (c ! k) (c ! p k)]) ks (c[k := F (c ! k) (c ! p k)]) ! j
        = (let c' = c[k := F (c ! k) (c ! p k)] in if j \<in> set ks then F (c' ! j) (c' ! p j) else c' ! j)"
      using Cons.IH(2) [of "c[k := F (c ! k) (c ! p k)]"] by simp
    moreover have "k < length c" "j \<in> set ks \<Longrightarrow> k \<noteq> j \<and> p j \<noteq> k" using 2 by auto
    ultimately show ?case by (cases "j = k") (auto simp: Let_def)
  }
qed simp_all

text \<open>Writing from the start of a list to its end, each element from those before it.\<close>

lemma fold_update_target:
  assumes "length dst = length t" and "\<And>k dst. k < length t \<Longrightarrow> (\<And>j. j < k \<Longrightarrow> dst ! j = t ! j) \<Longrightarrow> F k dst = t ! k"
  shows "fold (\<lambda>k dst. dst[k := F k dst]) [0..<length t] dst = t"
proof -
  have "length (fold (\<lambda>k dst. dst[k := F k dst]) [0..<n] dst) = length t
      \<and> (\<forall>j<n. fold (\<lambda>k dst. dst[k := F k dst]) [0..<n] dst ! j = t ! j)" if "n \<le> length t" for n
    using that
  proof (induction n)
    case (Suc n)
    then show ?case using assms(2) [of n] by (auto simp: less_Suc_eq nth_list_update)
  qed (simp add: assms(1))
  from this [of "length t"] show ?thesis by (auto intro: nth_equalityI)
qed

lemma rows_upt: "concat (map (\<lambda>y. map (\<lambda>x. y * w + x) [0..<w]) [0..<h]) = [0..<h * w]"
proof (induction h)
  case (Suc h)
  have "map (\<lambda>x. h * w + x) [0..<w] = [h * w..<h * w + w]" by (simp add: map_add_upt [of "h * w" w, symmetric] add.commute)
  then show ?case using Suc upt_add_eq_append [of 0 "h * w" w] by (simp add: add.commute)
qed simp

lemma row_end: "y < h \<Longrightarrow> j < w + y * w \<Longrightarrow> j < h * (w :: nat)"
proof -
  assume "y < h" "j < w + y * w"
  moreover from this have "Suc y * w \<le> h * w" by (intro mult_right_mono) auto
  ultimately show ?thesis by simp
qed

lemma fwdResDPCM_nth:
  assumes "length c = w * h" "k < w * h"
  shows "length (fwdResDPCM b w h c) = w * h"
    and "fwdResDPCM b w h c ! k = c ! k - (if b = 1 then if k mod w = 0 then 0 else c ! (k - 1) else if k < w then 0 else c ! (k - w))"
proof -
  have w: "0 < w" using assms(2) by (cases w) simp_all
  define hor where "hor = concat (map (\<lambda>y. map (\<lambda>x. y * w + x) (rev [1..<w])) [0..<h])"
  define ver where "ver = concat (map (\<lambda>y. map (\<lambda>x. y * w + x) [0..<w]) (rev [1..<h]))"
  have mem: "j < length c" if "j \<in> set hor \<union> set ver" for j
    using that row_end [of _ h j w] by (auto simp: hor_def ver_def assms(1) mult.commute [of w h])
  have S1: "sorted_wrt (\<lambda>k j. k \<noteq> j \<and> j - 1 \<noteq> k) hor" unfolding hor_def
  proof (rule sorted_wrt_concat_map)
    show "sorted_wrt (\<lambda>k j. k \<noteq> j \<and> j - 1 \<noteq> k) (map (\<lambda>x. y * w + x) (rev [1..<w]))" for y
      by (auto simp: sorted_wrt_map sorted_wrt_rev intro!: sorted_wrt_mono_rel [OF _ sorted_wrt_upt])
    show "sorted_wrt (\<lambda>y y'. \<forall>a\<in>set (map (\<lambda>x. y * w + x) (rev [1..<w])). \<forall>b\<in>set (map (\<lambda>x. y' * w + x) (rev [1..<w])). a \<noteq> b \<and> b - 1 \<noteq> a) [0..<h]"
    proof (rule sorted_wrt_mono_rel [OF _ sorted_wrt_upt], clarify)
      fix y y' a b assume "y < y'" "a \<in> set (map (\<lambda>x. y * w + x) (rev [1..<w]))" "b \<in> set (map (\<lambda>x. y' * w + x) (rev [1..<w]))"
      then have "a < y' * w" "y' * w < b" using row_end [of y y' _ w] by auto
      then show "a \<noteq> b \<and> b - 1 \<noteq> a" by auto
    qed
  qed
  have S2: "sorted_wrt (\<lambda>k j. k \<noteq> j \<and> j - w \<noteq> k) ver" unfolding ver_def
  proof (rule sorted_wrt_concat_map)
    fix y assume "y \<in> set (rev [1..<h])"
    then have "1 * w \<le> y * w" by (intro mult_right_mono) auto
    then have y: "y * w + x' - w \<noteq> y * w + x" if "x' < w" for x x' using that by linarith
    show "sorted_wrt (\<lambda>k j. k \<noteq> j \<and> j - w \<noteq> k) (map (\<lambda>x. y * w + x) [0..<w])"
      using w y by (auto simp: sorted_wrt_map intro!: sorted_wrt_mono_rel [OF _ sorted_wrt_upt])
  next
    show "sorted_wrt (\<lambda>y y'. \<forall>a\<in>set (map (\<lambda>x. y * w + x) [0..<w]). \<forall>b\<in>set (map (\<lambda>x. y' * w + x) [0..<w]). a \<noteq> b \<and> b - w \<noteq> a) (rev [1..<h])"
      unfolding sorted_wrt_rev
    proof (rule sorted_wrt_mono_rel [OF _ sorted_wrt_upt], clarify)
      fix y' y a b assume "y' < y" "a \<in> set (map (\<lambda>x. y * w + x) [0..<w])" "b \<in> set (map (\<lambda>x. y' * w + x) [0..<w])"
      then have "b < y * w" "y * w \<le> a" using row_end [of y' y _ w] by auto
      then show "a \<noteq> b \<and> b - w \<noteq> a" by auto
    qed
  qed
  have f: "fwdResDPCM b w h c = (if b = 1 then fold (\<lambda>k c. c[k := c ! k - c ! (k - 1)]) hor c else fold (\<lambda>k c. c[k := c ! k - c ! (k - w)]) ver c)"
    unfolding fwdResDPCM_def hor_def ver_def by (simp only: fold_concat_map [of "\<lambda>k c. c[k := c ! k - c ! (k - 1)]"]
      fold_concat_map [of "\<lambda>k c. c[k := c ! k - c ! (k - w)]"])
  show "length (fwdResDPCM b w h c) = w * h"
    unfolding f using fold_update_unwritten(1) [OF S1, of c minus] fold_update_unwritten(1) [OF S2, of c minus] mem assms(1) by auto
  have kd: "k = k div w * w + k mod w" "k mod w < w" "k div w < h" using w assms(2) by (simp_all add: less_mult_imp_div_less mult.commute)
  have in_hor: "k \<in> set hor \<longleftrightarrow> k mod w \<noteq> 0"
  proof
    assume "k \<in> set hor"
    then obtain y where y: "Suc (y * w) \<le> k" "k < w + y * w" by (auto simp: hor_def)
    define r where "r = k - y * w"
    have "k = y * w + r" "r < w" "0 < r" using y by (simp_all add: r_def)
    then show "k mod w \<noteq> 0" by simp
  next
    assume m: "k mod w \<noteq> 0"
    then have "Suc (k div w * w) \<le> k" "k < w + k div w * w" using kd(1,2) by linarith+
    then show "k \<in> set hor" unfolding hor_def using kd(3) by (auto intro!: bexI [of _ "k div w"])
  qed
  have in_ver: "k \<in> set ver \<longleftrightarrow> \<not> k < w"
  proof
    assume "k \<in> set ver"
    then obtain y where y: "1 \<le> y" "y * w \<le> k" by (auto simp: ver_def)
    have "1 * w \<le> y * w" using y(1) by (rule mult_right_mono) simp
    then show "\<not> k < w" using y(2) by linarith
  next
    assume "\<not> k < w"
    then have "1 \<le> k div w" using w div_le_mono [of w k w] by simp
    moreover have "k div w * w \<le> k" "k < w + k div w * w" using kd(1,2) by linarith+
    ultimately show "k \<in> set ver" unfolding ver_def using kd(3) by (auto intro!: bexI [of _ "k div w"])
  qed
  show "fwdResDPCM b w h c ! k = c ! k - (if b = 1 then if k mod w = 0 then 0 else c ! (k - 1) else if k < w then 0 else c ! (k - w))"
    unfolding f using fold_update_unwritten(2) [OF S1, of c minus k] fold_update_unwritten(2) [OF S2, of c minus k] mem in_hor in_ver by auto
qed

lemma invResDPCM_fold:
  assumes "0 < w" "0 < h"
  shows "invResDPCM b w h m coef dst = fold (\<lambda>k dst. dst[k :=
      (if (if b = 1 then k mod w = 0 else k < w) then coef ! k
       else Clip3 (- (2 ^ m)) (2 ^ m - 1) (dst ! (if b = 1 then k - 1 else k - w) + coef ! k))]) [0..<h * w] dst"
proof (cases "b = 1")
  case True
  define F where "F = (\<lambda>k dst. dst[k := (if k mod w = 0 then coef ! k else Clip3 (- (2 ^ m)) (2 ^ m - 1) (dst ! (k - 1) + coef ! k))])"
  have row: "fold (\<lambda>x dst. dst[y * w + x := Clip3 (- (2 ^ m)) (2 ^ m - 1) (dst ! (y * w + x - 1) + coef ! (y * w + x))]) [1..<w] (dst[y * w := coef ! (y * w)])
      = fold (\<lambda>x. F (y * w + x)) [0..<w] dst" for y dst
  proof -
    have "[0..<w] = 0 # [1..<w]" using assms(1) by (simp add: upt_conv_Cons)
    moreover have "F (y * w + 0) dst = dst[y * w := coef ! (y * w)]" by (simp add: F_def)
    moreover have "fold (\<lambda>x dst. dst[y * w + x := Clip3 (- (2 ^ m)) (2 ^ m - 1) (dst ! (y * w + x - 1) + coef ! (y * w + x))]) [1..<w] s
      = fold (\<lambda>x. F (y * w + x)) [1..<w] s" for s
      by (rule fold_cong) (auto simp: F_def fun_eq_iff)
    ultimately show ?thesis by simp
  qed
  have "invResDPCM b w h m coef dst = fold (\<lambda>y. fold (\<lambda>x. F (y * w + x)) [0..<w]) [0..<h] dst"
    unfolding invResDPCM_def Let_def if_P [OF True] by (simp only: row)
  moreover have "(b = 1) = True" using True by simp
  ultimately show ?thesis
    unfolding rows_upt [symmetric] fold_concat_map [symmetric, of _ "\<lambda>y x. y * w + x"] F_def by (simp only: if_True)
next
  case False
  define F where "F = (\<lambda>k dst. dst[k := (if k < w then coef ! k else Clip3 (- (2 ^ m)) (2 ^ m - 1) (dst ! (k - w) + coef ! k))])"
  have first: "fold (\<lambda>x dst. dst[x := coef ! x]) [0..<w] dst = fold F [0..<w] dst" for dst
    by (rule fold_cong) (auto simp: F_def fun_eq_iff)
  have "fold (\<lambda>y. fold (\<lambda>x dst. dst[(y + 1) * w + x := Clip3 (- (2 ^ m)) (2 ^ m - 1) (dst ! (y * w + x) + coef ! ((y + 1) * w + x))]) [0..<w]) [0..<h - 1] s
      = fold (\<lambda>y. fold (\<lambda>x. F (y * w + x)) [0..<w]) [1..<h] s" for s
  proof -
    have "[1..<h] = map Suc [0..<h - 1]" using assms(2) by (simp add: map_Suc_upt)
    moreover have "fold (\<lambda>x dst. dst[(y + 1) * w + x := Clip3 (- (2 ^ m)) (2 ^ m - 1) (dst ! (y * w + x) + coef ! ((y + 1) * w + x))]) [0..<w]
        = fold (\<lambda>x. F (Suc y * w + x)) [0..<w]" for y
      by (rule ext, rule fold_cong) (auto simp: F_def fun_eq_iff)
    ultimately show ?thesis by (simp add: fold_map comp_def)
  qed
  moreover have "[0..<h] = 0 # [1..<h]" using assms(2) by (simp add: upt_conv_Cons)
  ultimately have "invResDPCM b w h m coef dst = fold (\<lambda>y. fold (\<lambda>x. F (y * w + x)) [0..<w]) [0..<h] dst"
    unfolding invResDPCM_def Let_def if_not_P [OF False] first by simp
  moreover have "(b = 1) = False" using False by simp
  ultimately show ?thesis
    unfolding rows_upt [symmetric] fold_concat_map [symmetric, of _ "\<lambda>y x. y * w + x"] F_def by (simp only: if_False)
qed

lemma dpcm_restores:
  assumes "0 < w" "0 < h" "length levels = w * h" "length dst = w * h" and "\<forall>x\<in>set levels. - (2 ^ m) \<le> x \<and> x < 2 ^ m"
  shows "invResDPCM b w h m (fwdResDPCM b w h levels) dst = levels"
proof -
  have wh: "0 < w" "0 < h" "length levels = h * w" using assms by simp_all
  define D where "D = fwdResDPCM b w h levels"
  have D: "D ! k = levels ! k - (if b = 1 then if k mod w = 0 then 0 else levels ! (k - 1) else if k < w then 0 else levels ! (k - w))"
    if "k < length levels" for k
    unfolding D_def using fwdResDPCM_nth(2) [OF assms(3), of k b] that assms(3) by simp
  show ?thesis unfolding D_def [symmetric] invResDPCM_fold [OF wh(1,2)] wh(3) [symmetric]
  proof (rule fold_update_target)
    fix k dst assume k: "k < length levels" and old: "\<And>j. j < k \<Longrightarrow> dst ! j = levels ! j"
    have "- (2 ^ m) \<le> levels ! k \<and> levels ! k < 2 ^ m" using assms(5) k by simp
    then have "Clip3 (- (2 ^ m)) (2 ^ m - 1) (levels ! k) = levels ! k" by (simp add: Clip3_def)
    moreover have "k mod w \<noteq> 0 \<Longrightarrow> k - 1 < k" "\<not> k < w \<Longrightarrow> k - w < k" using wh(1) by (cases k, simp_all)+
    ultimately show "(if (if b = 1 then k mod w = 0 else k < w) then D ! k
       else Clip3 (- (2 ^ m)) (2 ^ m - 1) (dst ! (if b = 1 then k - 1 else k - w) + D ! k)) = levels ! k"
      using D [OF k] old by auto
  qed (use assms wh in simp)
qed

text \<open>
  C37: Block DPCM loses nothing. The decoder gets back every block of levels that fit the range of the
  transform from the differences the encoder takes in place, along rows or along columns: no sum is clipped,
  and whatever was in the target buffer before is overwritten.
\<close>

theorem block_dpcm_roundtrip:
  assumes "0 < w" "0 < h" "length levels = w * h" "length dst = w * h" and "\<forall>x\<in>set levels. - (2 ^ m) \<le> x \<and> x < 2 ^ m"
  shows "invResDPCM b w h m (fwdResDPCM b w h levels) dst = levels"
  using assms by (rule dpcm_restores)

theorem block_dpcm_roundtrip_witness:
  "invResDPCM 1 3 2 15 (fwdResDPCM 1 3 2 [7, -2, 32767, 0, -32768, 5]) [9, 9, 9, 9, 9, 9] = [7, -2, 32767, 0, -32768, 5]"
  by (rule block_dpcm_roundtrip) simp_all

section \<open>Inverse quantisation in integers\<close>

definition reconstruct :: "int \<Rightarrow> int \<Rightarrow> int \<Rightarrow> int" where
  "reconstruct rightShift scale level =
     (if rightShift > 0 then (level * scale + 2 ^ nat (rightShift - 1)) div 2 ^ nat rightShift
      else level * scale * 2 ^ nat (- rightShift))"

lemma Clip3_simps:
  "lo \<le> x \<Longrightarrow> x \<le> hi \<Longrightarrow> Clip3 lo hi x = x" "lo \<le> hi \<Longrightarrow> hi \<le> x \<Longrightarrow> Clip3 lo hi x = hi"
  "lo \<le> hi \<Longrightarrow> x \<le> lo \<Longrightarrow> Clip3 lo hi x = lo"
  by (simp_all add: Clip3_def)

lemma product_bounds:
  fixes x s A B :: int
  assumes "- A \<le> x" "x \<le> A" "0 \<le> s" "s \<le> B" "0 \<le> A"
  shows "- (A * B) \<le> x * s" "x * s \<le> A * B"
proof -
  have "x * s \<le> A * s" "- A * s \<le> x * s" using assms by (intro mult_right_mono; simp)+
  moreover have "A * s \<le> A * B" using assms by (intro mult_left_mono)
  ultimately show "- (A * B) \<le> x * s" "x * s \<le> A * B" by linarith+
qed

lemma dequantise_right:
  assumes "int m + int b \<le> 30" "0 < rs" "rs \<le> 30" "0 \<le> scale" "scale < 2 ^ b" "- (2 ^ m) \<le> x" "x < 2 ^ m"
  shows "dequantise m (int b) rs scale x = Clip3 (- (2 ^ m)) (2 ^ m - 1) (reconstruct rs scale x)"
proof -
  have "(32 + rs - int b) mod 2 ^ 32 = 32 + rs - int b" using assms by (intro mod_pos_pos_trivial) auto
  then have "min (int m + 1) ((32 + rs - int b) mod 2 ^ 32) = int m + 1" using assms by simp
  moreover have "Clip3 (- (2 ^ m)) (2 ^ m - 1) x = x" using assms by (intro Clip3_simps) auto
  moreover have s: "- (2 ^ 30) \<le> x * scale \<and> x * scale \<le> 2 ^ 30"
  proof -
    have "(2 :: int) ^ m * 2 ^ b \<le> 2 ^ 30" using assms(1) by (simp add: power_add [symmetric] del: power_numeral)
    then show ?thesis using product_bounds [of "2 ^ m" x scale "2 ^ b"] assms by auto
  qed
  moreover have "s32 (x * scale + 2 ^ nat (rs - 1)) = x * scale + 2 ^ nat (rs - 1)"
  proof (rule s32_fits)
    have "(2 :: int) ^ nat (rs - 1) \<le> 2 ^ 29" using assms by (intro power_increasing) auto
    moreover have "(0 :: int) \<le> 2 ^ nat (rs - 1)" "2 ^ 30 + 2 ^ 29 < (2 ^ 31 :: int)" by simp_all
    ultimately show "- (2 ^ 31) \<le> x * scale + 2 ^ nat (rs - 1)" "x * scale + 2 ^ nat (rs - 1) < 2 ^ 31" using s [THEN conjunct1] s [THEN conjunct2] by linarith+
  qed
  ultimately show ?thesis
    using assms(2) by (simp add: dequantise_def Let_def reconstruct_def s32_fits drop_bit_eq_div)
qed

lemma dequantise_left:
  assumes "int m + int b \<le> 30" "int b + int l \<le> 30" "0 \<le> scale" "scale < 2 ^ b" "- (2 ^ m) \<le> x" "x < 2 ^ m"
  shows "dequantise m (int b) (- int l) scale x = Clip3 (- (2 ^ m)) (2 ^ m - 1) (reconstruct (- int l) scale x)"
proof -
  define t where "t = min (int m + 1) (32 - int l - int b)"
  define u where "u = nat (t - 1)"
  define c where "c = Clip3 (- (2 ^ u)) (2 ^ u - 1) x"
  have t: "int u = t - 1" "int u + int b + int l \<le> 31" "u \<le> m" using assms(1,2) by (simp_all add: u_def t_def)
  have "(32 + - int l - int b) mod 2 ^ 32 = 32 - int l - int b" using assms by (subst mod_pos_pos_trivial) auto
  then have d: "dequantise m (int b) (- int l) scale x
      = Clip3 (- (2 ^ m)) (2 ^ m - 1) (s32 (push_bit l (s32 (c * scale))))"
    by (simp add: dequantise_def Let_def t_def [symmetric] u_def [symmetric] c_def)
  have pu: "(2 :: int) ^ u * 2 ^ b * 2 ^ l \<le> 2 ^ 31"
    using t(2) by (simp add: power_add [symmetric] del: power_numeral)
  have c: "- (2 ^ u) \<le> c" "c \<le> 2 ^ u" "- (2 ^ u) \<le> c \<and> c < 2 ^ u" by (auto simp: c_def Clip3_def)
  have cs: "- (2 ^ u * (2 ^ b - 1)) \<le> c * scale" "c * scale \<le> 2 ^ u * (2 ^ b - 1)"
    using product_bounds [of "2 ^ u" c scale "2 ^ b - 1"] c assms by auto
  have big: "2 ^ u * (2 ^ b - 1) * 2 ^ l < (2 :: int) ^ 31"
  proof -
    have "(2 :: int) ^ u * (2 ^ b - 1) * 2 ^ l = 2 ^ u * 2 ^ b * 2 ^ l - 2 ^ u * 2 ^ l" by (simp add: algebra_simps)
    moreover have "0 < (2 :: int) ^ u * 2 ^ l" by simp
    ultimately show ?thesis using pu by linarith
  qed
  have csl: "- (2 ^ 31) \<le> c * scale * 2 ^ l" "c * scale * 2 ^ l < 2 ^ 31"
  proof -
    have "c * scale * 2 ^ l \<le> 2 ^ u * (2 ^ b - 1) * 2 ^ l" using cs by (intro mult_right_mono) auto
    moreover have "- (2 ^ u * (2 ^ b - 1) * 2 ^ l) \<le> c * scale * 2 ^ l" unfolding minus_mult_left using cs by (intro mult_right_mono) auto
    ultimately show "- (2 ^ 31) \<le> c * scale * 2 ^ l" "c * scale * 2 ^ l < 2 ^ 31" using big by linarith+
  qed
  have "- (2 ^ 31) \<le> c * scale" "c * scale < 2 ^ 31"
  proof -
    have "2 ^ u * (2 ^ b - 1) * 1 \<le> 2 ^ u * (2 ^ b - 1) * (2 :: int) ^ l" by (intro mult_left_mono) auto
    then show "- (2 ^ 31) \<le> c * scale" "c * scale < 2 ^ 31" using cs big by linarith+
  qed
  then have machine: "s32 (push_bit l (s32 (c * scale))) = c * scale * 2 ^ l" using csl by (simp add: s32_fits push_bit_eq_mult)
  have r: "reconstruct (- int l) scale x = x * scale * 2 ^ l" by (simp add: reconstruct_def)
  have lim: "0 < scale \<Longrightarrow> u < m \<Longrightarrow> (2 :: int) ^ m \<le> (2 ^ u - 1) * 2 ^ l \<and> (2 :: int) ^ m \<le> 2 ^ u * 2 ^ l"
  proof -
    assume "u < m"
    then have "int u = 31 - int l - int b" using t by (simp add: t_def split: if_splits)
    then have "u + l = 31 - b" by linarith
    then have ul: "(2 :: int) ^ u * 2 ^ l = 2 ^ (31 - b)" by (simp add: power_add [symmetric])
    moreover have lm: "(2 :: int) ^ l \<le> 2 ^ (30 - b)" "(2 :: int) ^ m \<le> 2 ^ (30 - b)"
      using assms(1,2) by (auto intro!: power_increasing)
    moreover have "(2 :: int) ^ (31 - b) = 2 * 2 ^ (30 - b)" using assms(1) by (simp add: Suc_diff_le [symmetric] power_Suc [symmetric] del: power_Suc)
    moreover have "(2 ^ u - 1) * 2 ^ l = 2 ^ u * 2 ^ l - (2 :: int) ^ l" by (simp add: algebra_simps)
    moreover have "0 \<le> (2 :: int) ^ (30 - b)" by simp
    ultimately show ?thesis by linarith
  qed
  show ?thesis
  proof (cases "c = x \<or> scale = 0")
    case True
    then show ?thesis by (auto simp: d machine r)
  next
    case False
    then have "0 < scale" and um: "u < m"
    proof -
      show "0 < scale" using False assms(3) by simp
      have "u \<noteq> m"
      proof
        assume "u = m"
        then have "c = x" unfolding c_def using assms(5,6) by (intro Clip3_simps) auto
        then show False using False by simp
      qed
      then show "u < m" using t(3) by simp
    qed
    note lim = lim [OF this]
    have le: "(2 ^ u - 1) * 2 ^ l \<le> y * scale * 2 ^ l" if "2 ^ u - 1 \<le> y" for y
    proof -
      have "(1 :: int) \<le> 2 ^ u" by simp
      then have "0 \<le> y" using that by linarith
      then have "(2 ^ u - 1) * 1 \<le> y * scale" using that \<open>0 < scale\<close> by (intro mult_mono) auto
      then show ?thesis by (intro mult_right_mono) auto
    qed
    have ge: "y * scale * 2 ^ l \<le> - (2 ^ u) * 2 ^ l" if "y \<le> - (2 ^ u)" for y
    proof -
      have "(1 :: int) \<le> 2 ^ u" by simp
      then have "0 \<le> - y" using that by linarith
      then have "2 ^ u * 1 \<le> (- y) * scale" using that \<open>0 < scale\<close> by (intro mult_mono) auto
      then have "y * scale \<le> - (2 ^ u)" by simp
      then show ?thesis by (intro mult_right_mono) auto
    qed
    consider "2 ^ u - 1 \<le> x" "c = 2 ^ u - 1" | "x \<le> - (2 ^ u)" "c = - (2 ^ u)" using False by (fastforce simp: c_def Clip3_def min_def max_def split: if_splits)
    then show ?thesis
    proof cases
      case 1
      then have "2 ^ m - 1 \<le> c * scale * 2 ^ l" "2 ^ m - 1 \<le> x * scale * 2 ^ l"
        using le [of c] le [of x] lim [THEN conjunct1] by linarith+
      then show ?thesis unfolding d machine r by (simp add: Clip3_simps(2))
    next
      case 2
      then have "c * scale * 2 ^ l \<le> - (2 ^ m)" "x * scale * 2 ^ l \<le> - (2 ^ m)"
        using ge [of c] ge [of x] lim [THEN conjunct2] by linarith+
      then show ?thesis unfolding d machine r by (simp add: Clip3_simps(3))
    qed
  qed
qed

end
