(* ===== verification/ResidualPasses.thy ===== *)
theory ResidualPasses
  imports ResidualCoding
begin

unbundle bit_operations_syntax

text \<open>
  The reader of \<open>ResidualCoding\<close> agrees with the writer on the arithmetic coder. The passes are followed
  with the coefficients as functions of the scan position: after the first pass a level is known up to its
  parity and whether it is four or more, after the others it is known, and the templates cannot tell the
  difference between what the reader has and what the writer has.
\<close>

section \<open>Contexts stay inside the store\<close>

fun coeff_set_valid :: "coeff_set \<Rightarrow> bool" where
  "coeff_set_valid (SigCoeffGroup k) = (k < 2)"
| "coeff_set_valid (SigFlag k) = (k < 6)"
| "coeff_set_valid (ParFlag k) = (k < 2)"
| "coeff_set_valid (GtxFlag k) = (k < 4)"
| "coeff_set_valid (LastX k) = (k < 2)"
| "coeff_set_valid (LastY k) = (k < 2)"

fun coeff_size :: "coeff_set \<Rightarrow> nat" where
  "coeff_size (SigCoeffGroup k) = 2"
| "coeff_size (SigFlag k) = (if even k then 12 else 8)"
| "coeff_size (ParFlag k) = (if even k then 21 else 11)"
| "coeff_size (GtxFlag k) = (if even k then 21 else 11)"
| "coeff_size (LastX k) = (if even k then 36 else 3)"
| "coeff_size (LastY k) = (if even k then 36 else 3)"

lemma below_cases: "k < 2 \<longleftrightarrow> k = 0 \<or> k = 1" "k < 4 \<longleftrightarrow> k = 0 \<or> k = 1 \<or> k = 2 \<or> k = 3"
  "k < 6 \<longleftrightarrow> k = 0 \<or> k = 1 \<or> k = 2 \<or> k = 3 \<or> k = 4 \<or> k = (5 :: nat)"
  by auto

lemmas coeff_inits = SigCoeffGroup_0_init_def SigCoeffGroup_1_init_def SigFlag_0_init_def SigFlag_1_init_def
  SigFlag_2_init_def SigFlag_3_init_def SigFlag_4_init_def SigFlag_5_init_def ParFlag_0_init_def ParFlag_1_init_def
  GtxFlag_0_init_def GtxFlag_1_init_def GtxFlag_2_init_def GtxFlag_3_init_def LastX_0_init_def LastX_1_init_def
  LastY_0_init_def LastY_1_init_def MVPIdx_init_def

lemma number_of_sets: "length all_sets = 120"
  by (simp add: all_sets_def)

lemma coeff_sets_at:
  "map (\<lambda>k. length (hd (all_sets ! k))) [58..<77] = [2, 2, 12, 8, 12, 8, 12, 8, 21, 11, 21, 11, 21, 11, 36, 3, 36, 3, 1]"
  by (simp add: upt_rec all_sets_def coeff_inits)

lemmas coeff_sets_each = coeff_sets_at [simplified]

lemma coeff_size_ok: "coeff_set_valid s \<Longrightarrow> coeff_place s < 77 \<and> length (hd (all_sets ! coeff_place s)) = coeff_size s"
  by (cases s) (auto simp: below_cases coeff_sets_each)

lemma CoeffCtx_less: "coeff_set_valid s \<Longrightarrow> inc < coeff_size s \<Longrightarrow> CoeffCtx s inc < 536"
  using ctx_bound [of "coeff_place s" all_sets inc] coeff_size_ok [of s] number_of_contexts
  by (simp add: CoeffCtx_def number_of_sets)

section \<open>Levels\<close>

lemma capped_nonneg [simp]: "0 \<le> capped x"
  by (simp add: capped_def)

lemma capped_zero [simp]: "capped x = 0 \<longleftrightarrow> x = 0" "capped 0 = 0"
  by (auto simp: capped_def min_def)

lemma four_plus_parity: "(4 + a mod 2) mod 2 = (a :: int) mod 2"
  by presburger

lemma capped_idem [simp]: "capped (capped x) = capped x"
  by (auto simp: capped_def min_def four_plus_parity)

lemma capped_parity: "capped x mod 2 = x mod 2"
proof -
  have "\<bar>x\<bar> mod 2 = x mod 2" by (cases "x \<ge> 0") (simp_all add: mod_2_eq_odd)
  moreover have "(4 + x mod 2) mod 2 = x mod 2" by (simp add: mod_2_eq_odd)
  ultimately show ?thesis by (auto simp: capped_def min_def)
qed

lemma capped_level: "capped x = capped (int (nat \<bar>x\<bar>))"
  by (simp add: capped_def)

text \<open>A level after the first pass, from the three flags.\<close>

lemma capped_flags: "x \<noteq> 0 \<Longrightarrow> capped x =
    int (if nat \<bar>x\<bar> - 1 \<noteq> 0
         then 1 + (nat \<bar>x\<bar> - 1 - 1) mod 2 + bin_of True + 2 * bin_of ((nat \<bar>x\<bar> - 1 - 1) div 2 \<noteq> 0) else 1 + bin_of False)"
proof -
  assume "x \<noteq> 0"
  define m where "m = nat \<bar>x\<bar>"
  then have m: "\<bar>x\<bar> = int m" "m \<noteq> 0" using \<open>x \<noteq> 0\<close> by auto
  consider "m = 1" | "m = 2" | "m = 3" | "4 \<le> m" using m(2) by linarith
  then show ?thesis
  proof cases
    case 4
    have "4 + m mod 2 \<le> m" using 4 by (cases "m = 4") auto
    then have "int (4 + m mod 2) \<le> int m" by (simp only: of_nat_le_iff)
    then have "min (4 + int m mod 2) (int m) = 4 + int (m mod 2)" by (simp add: zmod_int min_def)
    moreover have "(m - 1 - 1) mod 2 = m mod 2" "(m - 1 - 1) div 2 \<noteq> 0" using 4 by (auto simp: mod_2_eq_odd)
    ultimately show ?thesis using 4 unfolding capped_def m(1) nat_int by (simp add: bin_of_def)
  qed (use m(1) in \<open>simp_all add: capped_def bin_of_def\<close>)
qed

section \<open>The templates of reader and writer\<close>

definition block_fits :: "CoeffCodingContext \<Rightarrow> ScanElement list \<Rightarrow> nat \<Rightarrow> nat \<Rightarrow> bool" where
  "block_fits c scan w h \<longleftrightarrow> m_scan c = scan \<and> m_width c = w \<and> m_height c = h \<and> m_chType c < 2"

lemma sigCtx_same:
  assumes "map capped (neighbours c k a) = map capped (neighbours c k b)"
  shows "sigCtxIdAbs k a st c = sigCtxIdAbs k b st c"
proof -
  have "length (filter (\<lambda>x. x \<noteq> 0) xs) = length (filter (\<lambda>x. x \<noteq> 0) (map capped xs))" for xs
    by (simp add: filter_map o_def)
  then have "length (filter (\<lambda>x. x \<noteq> 0) (neighbours c k a)) = length (filter (\<lambda>x. x \<noteq> 0) (neighbours c k b))"
    using assms by metis
  then show ?thesis using assms by (simp add: sigCtxIdAbs_def)
qed

lemma rice_same:
  "map abs (neighbours c k a) = map abs (neighbours c k b) \<Longrightarrow> rice_of k a base c = rice_of k b base c"
  by (simp add: rice_of_def templateAbsSum_def)

lemma rice_le: "rice_of k a base c \<le> 3"
proof -
  have "list_all (\<lambda>r. r \<le> 3) g_auiGoRiceParsCoeff \<and> length g_auiGoRiceParsCoeff = 32" by (simp add: g_auiGoRiceParsCoeff_def)
  moreover have "templateAbsSum k a base c < 32" by (simp add: templateAbsSum_def)
  ultimately show ?thesis by (simp add: rice_of_def list_all_length)
qed

lemma sigCtx_fits: "block_fits (snd (sigCtxIdAbs k a st c)) scan w h = block_fits c scan w h"
  by (simp add: sigCtxIdAbs_def block_fits_def Let_def)

lemma sig_set_valid:
  assumes "ch < 2"
  shows "coeff_set_valid (SigFlag ([ch, ch + 2, ch, ch + 4] ! (st mod 4)))
    \<and> coeff_size (SigFlag ([ch, ch + 2, ch, ch + 4] ! (st mod 4))) = (if ch = 0 then 12 else 8)"
proof -
  have "st mod 4 < 4" by simp
  then show ?thesis using assms unfolding below_cases(2) by (elim disjE) (auto simp: less_2_cases_iff)
qed

lemma sigCtx_less:
  assumes "m_chType c < 2"
  shows "fst (sigCtxIdAbs k a st c) < 536"
proof -
  have "nat (min ((sum_list (map capped (neighbours c k a)) + 1) div 2) 3) \<le> 3" by simp
  then show ?thesis
    using sig_set_valid [OF assms, of st] assms unfolding sigCtxIdAbs_def Let_def fst_conv
    by (intro CoeffCtx_less) (auto simp: CHANNEL_TYPE_LUMA_def)
qed

lemma ctxOffset_bound:
  "m_chType c < 2 \<Longrightarrow> ctxOffsetAbs c < (if m_chType c = 0 then 21 else 11)"
proof -
  have "nat (min (m_tmplCpSum1 c) 4) \<le> 4" by simp
  then show "m_chType c < 2 \<Longrightarrow> ctxOffsetAbs c < (if m_chType c = 0 then 21 else 11)"
    by (auto simp: ctxOffsetAbs_def CHANNEL_TYPE_LUMA_def)
qed

lemma offset_less:
  assumes "m_chType c < 2"
  shows "greater1CtxIdAbs c (ctxOffsetAbs c) < 536" "greater2CtxIdAbs c (ctxOffsetAbs c) < 536"
    "parityCtxIdAbs c (ctxOffsetAbs c) < 536"
  unfolding greater1CtxIdAbs_def greater2CtxIdAbs_def parityCtxIdAbs_def
  by (intro CoeffCtx_less; use assms ctxOffset_bound [OF assms] in \<open>auto simp: less_2_cases_iff split: if_splits\<close>)+

section \<open>Signs and the range of a group\<close>

definition num_of :: "bool list \<Rightarrow> nat" where
  "num_of bs = foldl (\<lambda>a b. 2 * a + bin_of b) 0 bs"

lemma num_of_Nil [simp]: "num_of [] = 0"
  by (simp add: num_of_def)

lemma num_of_snoc [simp]: "num_of (bs @ [b]) = 2 * num_of bs + bin_of b"
  by (simp add: num_of_def)

lemma num_of_less: "num_of bs < 2 ^ length bs"
proof (induction bs rule: rev_induct)
  case (snoc b bs)
  then show ?case by (cases b) (simp_all add: bin_of_def)
qed simp

lemma write_sign_num:
  assumes "length bs < 32" and "sh \<or> bs = []"
  shows "write_sign sh x (num_of bs) = num_of (bs @ [x < 0])"
proof -
  have "(2 :: nat) ^ length bs \<le> 2 ^ 31" using assms(1) by (intro power_increasing) auto
  then have b: "2 * num_of bs + 1 < 2 ^ 32" using num_of_less [of bs] by simp
  then have "shl32 (num_of bs) 1 = 2 * num_of bs" by (simp add: shl32_eq)
  moreover have "add32 (2 * num_of bs) 1 = 2 * num_of bs + 1" using b by (simp add: add32_eq)
  ultimately show ?thesis using assms(2) by (auto simp: write_sign_def bin_of_def add32_eq)
qed

definition sign_bits :: "(nat \<Rightarrow> int) \<Rightarrow> nat list \<Rightarrow> bool list" where
  "sign_bits cl ks = map (\<lambda>k. cl k < 0) (filter (\<lambda>k. cl k \<noteq> 0) ks)"

lemma sign_bits_simps [simp]:
  "sign_bits cl [] = []" "sign_bits cl (k # ks) = (if cl k \<noteq> 0 then [cl k < 0] else []) @ sign_bits cl ks"
  "sign_bits cl (ks @ ls) = sign_bits cl ks @ sign_bits cl ls"
  by (simp_all add: sign_bits_def)

definition track :: "(nat \<Rightarrow> int) \<Rightarrow> nat list \<Rightarrow> int \<times> int \<Rightarrow> int \<times> int" where
  "track cl ks = fold (\<lambda>k (a, b). (int k, max b (int k))) (filter (\<lambda>k. cl k \<noteq> 0) ks)"

lemma track_simps [simp]:
  "track cl [] r = r"
  "track cl (k # ks) r = track cl ks (if cl k \<noteq> 0 then (int k, max (snd r) (int k)) else r)"
  "track cl (ks @ ls) r = track cl ls (track cl ks r)"
  by (cases r; simp add: track_def)+

definition count :: "(nat \<Rightarrow> int) \<Rightarrow> nat list \<Rightarrow> nat" where
  "count cl ks = length (filter (\<lambda>k. cl k \<noteq> 0) ks)"

lemma count_simps [simp]:
  "count cl [] = 0" "count cl (k # ks) = (if cl k \<noteq> 0 then 1 else 0) + count cl ks" "count cl (ks @ ls) = count cl ks + count cl ls"
  by (simp_all add: count_def)

lemma count_sign_bits: "length (sign_bits cl ks) = count cl ks"
  by (simp add: sign_bits_def count_def)

section \<open>Remainders\<close>

lemma rem_ok:
  assumes "rice \<le> 3" "4 \<le> R" "R \<le> 26" "rem \<le> 2 ^ R"
  shows "rem_valid rice COEF_REMAIN_BIN_REDUCTION R rem"
proof -
  have "(2 :: nat) ^ R \<le> 2 ^ 26" using assms(3) by (intro power_increasing) auto
  moreover have "0 < (5 + 2 ^ (32 - 5 - R) - 1) * (2 :: nat) ^ rice" by simp
  then have "rem < (5 + 2 ^ (32 - 5 - R) - 1) * 2 ^ rice + 2 ^ R" using assms(4) by linarith
  ultimately show ?thesis using assms unfolding rem_valid_def COEF_REMAIN_BIN_REDUCTION_def by simp
qed

lemma pos0_le: "rice \<le> 3 \<Longrightarrow> g_auiGoRicePosCoeff0 st rice \<le> 16"
proof -
  assume "rice \<le> 3"
  then have "(2 :: nat) ^ rice \<le> 2 ^ 3" by (intro power_increasing) auto
  moreover have "st mod 2 \<le> 1" by simp
  ultimately have "(1 + st mod 2) * 2 ^ rice \<le> 2 * 2 ^ 3" by (intro mult_mono) auto
  then show ?thesis by (simp add: g_auiGoRicePosCoeff0_def)
qed

section \<open>What the first pass changes\<close>

text \<open>The coding context changes in the two values of the last template only.\<close>

definition same_block :: "CoeffCodingContext \<Rightarrow> CoeffCodingContext \<Rightarrow> bool" where
  "same_block c c' \<longleftrightarrow> c' = c\<lparr>m_tmplCpSum1 := m_tmplCpSum1 c', m_tmplCpDiag := m_tmplCpDiag c'\<rparr>"

lemma same_block_refl [simp]: "same_block c c"
  by (simp add: same_block_def)

lemma same_block_trans: "same_block a b \<Longrightarrow> same_block b c \<Longrightarrow> same_block a c"
  by (cases a; cases b; cases c) (simp add: same_block_def)

lemma same_block_fields:
  assumes "same_block c c'"
  shows "block_fits c' scan w h = block_fits c scan w h" "blockPos c' = blockPos c" "m_scanPosLast c' = m_scanPosLast c"
    "m_maxLog2TrDynamicRange c' = m_maxLog2TrDynamicRange c" "m_signHiding c' = m_signHiding c"
    "minCoeff c' = minCoeff c" "maxCoeff c' = maxCoeff c"
  using assms by (cases c; cases c'; auto simp: same_block_def block_fits_def blockPos_def fun_eq_iff minCoeff_def maxCoeff_def)+

lemma sigCtx_same_block: "same_block c (snd (sigCtxIdAbs k a st c))"
  by (simp add: sigCtxIdAbs_def Let_def same_block_def)

lemma write_levels_frame:
  "write_levels k x (s, sp) = (ws, s', sp') \<Longrightarrow>
    p_cctx s' = p_cctx s \<and> p_numNonZero s' = p_numNonZero s + 1 \<and> p_state s' = p_state s
      \<and> p_firstNZPos s' = int k \<and> p_lastNZPos s' = max (p_lastNZPos s) (int k)
      \<and> sp' = write_sign (k \<noteq> m_scanPosLast (p_cctx s)) x sp"
  by (auto simp: write_levels_def Let_def count_nonzero_def split: if_splits)

lemma write_position_frame:
  assumes "write_position k coeff tab infer (s, sp) = (ws, s', sp')"
  shows "same_block (p_cctx s) (p_cctx s')"
    and "coeff ! blockPos (p_cctx s) k = 0 \<Longrightarrow> p_numNonZero s' = p_numNonZero s \<and> sp' = sp
      \<and> p_firstNZPos s' = p_firstNZPos s \<and> p_lastNZPos s' = p_lastNZPos s"
    and "coeff ! blockPos (p_cctx s) k \<noteq> 0 \<Longrightarrow> p_numNonZero s' = p_numNonZero s + 1
      \<and> sp' = write_sign (k \<noteq> m_scanPosLast (p_cctx s)) (coeff ! blockPos (p_cctx s) k) sp
      \<and> p_firstNZPos s' = int k \<and> p_lastNZPos s' = max (p_lastNZPos s) (int k)"
proof -
  obtain id1 c1 where sc: "sigCtxIdAbs k coeff (p_state s) (p_cctx s) = (id1, c1)" by fastforce
  have c1: "same_block (p_cctx s) c1" using sigCtx_same_block [of "p_cctx s" k coeff "p_state s"] by (simp add: sc)
  define coded where "coded \<longleftrightarrow> p_numNonZero s \<noteq> 0 \<or> int k \<noteq> infer"
  define s1 where "s1 = s\<lparr>p_cctx := if coded \<or> k \<noteq> m_scanPosLast (p_cctx s) then c1 else p_cctx s,
    p_remRegBins := p_remRegBins s - (if coded then 1 else 0)\<rparr>"
  define x where "x = coeff ! blockPos (p_cctx s) k"
  obtain ws1 s2 sp2 where lv: "(if x \<noteq> 0 then write_levels k x (s1, sp) else ([], s1, sp)) = (ws1, s2, sp2)"
    by (metis prod_cases3)
  have e: "s' = s2\<lparr>p_state := next_state tab (p_state s2) x\<rparr>" "sp' = sp2"
    using assms unfolding write_position_def Let_def prod.case sc coded_def [symmetric] s1_def [symmetric] x_def [symmetric] lv
    by simp_all
  have s1: "same_block (p_cctx s) (p_cctx s1)" using c1 by (simp add: s1_def)
  have s1': "p_numNonZero s1 = p_numNonZero s" "p_firstNZPos s1 = p_firstNZPos s" "p_lastNZPos s1 = p_lastNZPos s"
    by (simp_all add: s1_def)
  have nz: "p_cctx s2 = p_cctx s1 \<and> p_numNonZero s2 = p_numNonZero s1 + 1 \<and> p_firstNZPos s2 = int k
      \<and> p_lastNZPos s2 = max (p_lastNZPos s1) (int k) \<and> sp2 = write_sign (k \<noteq> m_scanPosLast (p_cctx s1)) x sp" if "x \<noteq> 0"
    using that lv write_levels_frame [of k x s1 sp ws1 s2 sp2] by simp
  have z: "s2 = s1 \<and> sp2 = sp" if "x = 0" using that lv by simp
  show "same_block (p_cctx s) (p_cctx s')" using s1 nz z e(1) by (cases "x = 0") simp_all
  show "coeff ! blockPos (p_cctx s) k = 0 \<Longrightarrow> p_numNonZero s' = p_numNonZero s \<and> sp' = sp
      \<and> p_firstNZPos s' = p_firstNZPos s \<and> p_lastNZPos s' = p_lastNZPos s"
    using z e s1' by (simp add: x_def)
  show "coeff ! blockPos (p_cctx s) k \<noteq> 0 \<Longrightarrow> p_numNonZero s' = p_numNonZero s + 1
      \<and> sp' = write_sign (k \<noteq> m_scanPosLast (p_cctx s)) (coeff ! blockPos (p_cctx s) k) sp
      \<and> p_firstNZPos s' = int k \<and> p_lastNZPos s' = max (p_lastNZPos s) (int k)"
    using nz e s1' same_block_fields(3) [OF s1] by (simp add: x_def)
qed

context level_order
begin

lemma neighbours_cong:
  assumes "block_fits c scan w h" "k < length scan" "\<And>j. k < j \<Longrightarrow> j < length scan \<Longrightarrow> p (f j) = p (g j)"
  shows "map p (neighbours c k (spread scan f)) = map p (neighbours c k (spread scan g))"
  using template_cong [of k p f g] assms by (simp add: neighbours_def block_fits_def o_def split_def)

lemma spread_at: "block_fits c scan w h \<Longrightarrow> k < length scan \<Longrightarrow> spread scan f ! blockPos c k = f k"
  by (simp add: blockPos_def block_fits_def)

lemma spread_set: "block_fits c scan w h \<Longrightarrow> k < length scan \<Longrightarrow> (spread scan f)[blockPos c k := v] = spread scan (f(k := v))"
  by (simp add: blockPos_def block_fits_def spread_update)

subsection \<open>One position of the first pass\<close>

lemma agrees_levels:
  assumes c: "block_fits (p_cctx s) scan w h" and k: "k < length scan" and z: "f k = 0" and x: "x \<noteq> 0"
    and wr: "write_levels k x (s, sp) = (ws, s', sp')"
  shows "agrees 536 (seqW ws) (read_levels k (s, blk, spread scan f))
    (s', blk @ [blockPos (p_cctx s) k], spread scan (f(k := capped x)))"
proof -
  define c where "c = p_cctx s"
  have fc: "block_fits c scan w h" "m_chType c < 2" using assms(1) by (simp_all add: c_def block_fits_def)
  note less = offset_less [OF fc(2)]
  have up: "(spread scan f)[blockPos c k := v] = spread scan (f(k := v))" for v by (rule spread_set [OF fc(1) k])
  have at: "spread scan f ! blockPos c k = 0" using spread_at [OF fc(1) k] z by simp
  define m where "m = nat \<bar>x\<bar> - 1"
  note cx = capped_flags [OF x, folded m_def]
  show ?thesis
  proof (cases "m = 0")
    case True
    have v: "int (1 + 0) = capped x" using cx True by (simp add: bin_of_def)
    show ?thesis
      using wr True unfolding write_levels_def read_levels_def Let_def prod.case c_def [symmetric] m_def [symmetric] at up
      by (auto simp: bin_of_def v [symmetric] intro!: agrees_last [OF agrees_bin [OF less(1)]])
  next
    case False
    define par gt2 where "par = (m - 1) mod 2" and "gt2 = bin_of ((m - 1) div 2 \<noteq> 0)"
    have b: "par \<le> 1" "gt2 \<le> 1" by (simp_all add: par_def gt2_def)
    have v: "int (1 + par + 1 + 2 * gt2) = capped x"
      unfolding cx par_def gt2_def using False by (simp add: bin_of_def)
    have ws: "ws = [encodeBin 1 (greater1CtxIdAbs c (ctxOffsetAbs c)), encodeBin par (parityCtxIdAbs c (ctxOffsetAbs c)),
        encodeBin gt2 (greater2CtxIdAbs c (ctxOffsetAbs c))]"
      and s': "s' = count_nonzero k s\<lparr>p_remRegBins := p_remRegBins (count_nonzero k s) - 1 - 1 - 1\<rparr>"
      using wr False unfolding write_levels_def Let_def prod.case c_def [symmetric] m_def [symmetric]
      by (auto simp: par_def gt2_def bin_of_def)
    show ?thesis
      unfolding read_levels_def Let_def prod.case c_def [symmetric] at up ws
      by (rule agrees_bind [OF agrees_bin [OF less(1)]], simp del: seqW.simps,
        simp del: seqW.simps, rule agrees_bind [OF agrees_bin [OF less(3) b(1)]],
        rule agrees_bind [OF agrees_bin [OF less(2) b(2)]], simp add: s' v [symmetric] agrees_skip)
  qed
qed

lemma agrees_position:
  assumes c: "block_fits (p_cctx s) scan w h" and k: "k < length scan"
    and same: "\<And>j. k < j \<Longrightarrow> j < length scan \<Longrightarrow> capped (f j) = capped (cl j)" and z: "f k = 0"
    and inf: "p_numNonZero s = 0 \<Longrightarrow> int k = infer \<Longrightarrow> cl k \<noteq> 0"
    and wr: "write_position k (spread scan cl) tab infer (s, sp) = (ws, s', sp')"
  shows "agrees 536 (seqW ws) (read_position k tab infer (s, blk, spread scan f))
    (s', if cl k = 0 then blk else blk @ [blockPos (p_cctx s) k], spread scan (f(k := capped (cl k))))"
proof -
  define c where "c = p_cctx s"
  have fc: "block_fits c scan w h" "m_chType c < 2" using assms(1) by (simp_all add: c_def block_fits_def)
  obtain id1 c1 where sc: "sigCtxIdAbs k (spread scan cl) (p_state s) c = (id1, c1)" by fastforce
  have "map capped (neighbours c k (spread scan f)) = map capped (neighbours c k (spread scan cl))"
    by (rule neighbours_cong [where p = capped and f = f and g = cl, OF fc(1) k]) (rule same)
  then have sc': "sigCtxIdAbs k (spread scan f) (p_state s) c = (id1, c1)"
    using sigCtx_same [of c k "spread scan f" "spread scan cl" "p_state s"] sc by simp
  have id1: "id1 < 536" using sigCtx_less [OF fc(2), of k "spread scan cl" "p_state s"] sc by simp
  have c1: "same_block c c1" using sigCtx_same_block [of c k "spread scan cl" "p_state s"] by (simp add: sc)
  have at: "spread scan cl ! blockPos c k = cl k" "spread scan f ! blockPos c k = 0"
    using spread_at [OF fc(1) k] z by simp_all
  define inferred where "inferred \<longleftrightarrow> p_numNonZero s = 0 \<and> int k = infer"
  have coded: "(p_numNonZero s \<noteq> 0 \<or> int k \<noteq> infer) = (\<not> inferred)" by (simp add: inferred_def)
  define c2 where "c2 = (if \<not> inferred \<or> k \<noteq> m_scanPosLast c then c1 else c)"
  have c2: "block_fits c2 scan w h" "blockPos c2 = blockPos c" using fc c1 by (simp_all add: c2_def same_block_fields)
  define s1 where "s1 = s\<lparr>p_cctx := c2, p_remRegBins := p_remRegBins s - (if inferred then 0 else 1)\<rparr>"
  have s1: "p_cctx s1 = c2" by (simp add: s1_def)
  obtain ws1 s2 sp2 where lv: "(if cl k \<noteq> 0 then write_levels k (cl k) (s1, sp) else ([], s1, sp)) = (ws1, s2, sp2)"
    by (metis prod_cases3)
  have s1': "s\<lparr>p_cctx := c2, p_remRegBins := p_remRegBins s - (if \<not> inferred then 1 else 0)\<rparr> = s1" by (simp add: s1_def)
  have w: "ws = (if \<not> inferred then [encodeBin (bin_of (cl k \<noteq> 0)) id1] else []) @ ws1"
    "s' = s2\<lparr>p_state := next_state tab (p_state s2) (cl k)\<rparr>"
    using wr unfolding write_position_def Let_def prod.case c_def [symmetric] sc coded at(1) c2_def [symmetric] s1' lv
    by simp_all
  have par: "next_state tab st (capped x) = next_state tab st x" for st x by (simp add: next_state_def capped_parity)
  have level: "agrees 536 (seqW ws1) (bindP (if bin_of (cl k \<noteq> 0) \<noteq> 0 then read_levels k (s1, blk, spread scan f) else returnP (s1, blk, spread scan f))
      (\<lambda>(s, sigBlkPos, coeff). returnP (s\<lparr>p_state := next_state tab (p_state s) (coeff ! blockPos c k)\<rparr>, sigBlkPos, coeff)))
      (s', if cl k = 0 then blk else blk @ [blockPos c k], spread scan (f(k := capped (cl k))))"
  proof (cases "cl k = 0")
    case True
    then have "ws1 = [] \<and> s2 = s1" "f(k := capped (cl k)) = f" using lv z by auto
    then show ?thesis using True at w(2) by (simp add: agrees_skip)
  next
    case False
    then have lv': "write_levels k (cl k) (s1, sp) = (ws1, s2, sp2)" using lv by simp
    have "agrees 536 (seqW ws1) (read_levels k (s1, blk, spread scan f)) (s2, blk @ [blockPos c k], spread scan (f(k := capped (cl k))))"
      using agrees_levels [where f = f and k = k and x = "cl k" and s = s1, OF _ k z False lv', of blk] c2 by (simp add: s1)
    from agrees_bind_return [OF this, of "\<lambda>(s, sigBlkPos, coeff). (s\<lparr>p_state := next_state tab (p_state s) (coeff ! blockPos c k)\<rparr>, sigBlkPos, coeff)"]
    show ?thesis using False w(2) spread_at [OF fc(1) k, of "f(k := capped (cl k))"]
      by (simp add: split_def par)
  qed
  show ?thesis
  proof (cases inferred)
    case True
    then have "bin_of (cl k \<noteq> 0) = 1" using inf by (simp add: inferred_def bin_of_def)
    then show ?thesis
      using level True w(1) unfolding read_position_def Let_def prod.case c_def [symmetric] sc' inferred_def [symmetric] c2_def [symmetric]
        s1_def [symmetric] by simp
  next
    case False
    have sF: "s\<lparr>p_cctx := c2, p_remRegBins := p_remRegBins s - 1\<rparr> = s1" using False by (simp add: s1_def)
    show ?thesis
      unfolding read_position_def Let_def prod.case c_def [symmetric] sc' inferred_def [symmetric] c2_def [symmetric]
        w(1) if_P [OF False] if_not_P [OF False] append.simps sF
      by (rule agrees_bind [OF agrees_bin [OF id1]], simp, rule level)
  qed
qed

subsection \<open>The first pass\<close>

lemma agrees_pass1:
  "write_pass1 ps (spread scan cl) tab infer (s, num_of bs) = (ws, rest, s', sp') \<Longrightarrow>
    block_fits (p_cctx s) scan w h \<Longrightarrow> sorted_wrt (>) ps \<Longrightarrow>
    (\<And>k. k \<in> set ps \<Longrightarrow> k < length scan \<and> k \<le> m_scanPosLast (p_cctx s) \<and> f k = 0) \<Longrightarrow>
    (\<And>k j. k \<in> set ps \<Longrightarrow> k < j \<Longrightarrow> j < length scan \<Longrightarrow> j \<notin> set ps \<Longrightarrow> capped (f j) = capped (cl j)) \<Longrightarrow>
    (\<And>pre k post. p_numNonZero s = 0 \<Longrightarrow> ps = pre @ k # post \<Longrightarrow> int k = infer \<Longrightarrow> \<forall>j\<in>set pre. cl j = 0 \<Longrightarrow> cl k \<noteq> 0) \<Longrightarrow>
    length bs + length ps < 32 \<Longrightarrow> (\<And>k. k \<in> set ps \<Longrightarrow> bs \<noteq> [] \<Longrightarrow> k < m_scanPosLast (p_cctx s)) \<Longrightarrow>
    \<exists>done. ps = done @ rest
      \<and> agrees 536 (seqW ws) (read_pass1 ps tab infer (s, blk, spread scan f))
          (rest, s', blk @ map (blockPos (p_cctx s)) (filter (\<lambda>k. cl k \<noteq> 0) done),
           spread scan (\<lambda>k. if k \<in> set done then capped (cl k) else f k))
      \<and> sp' = num_of (bs @ sign_bits cl done) \<and> same_block (p_cctx s) (p_cctx s')
      \<and> p_numNonZero s' = p_numNonZero s + count cl done
      \<and> (p_firstNZPos s', p_lastNZPos s') = track cl done (p_firstNZPos s, p_lastNZPos s)"
proof (induction ps arbitrary: s bs f blk ws)
  case Nil
  then show ?case by (auto simp: agrees_skip)
next
  case (Cons p ps)
  show ?case
  proof (cases "p_remRegBins s \<ge> 4")
    case False
    then show ?thesis using Cons.prems(1) by (auto simp: agrees_skip)
  next
    case True
    obtain ws1 s1 sp1 where 1: "write_position p (spread scan cl) tab infer (s, num_of bs) = (ws1, s1, sp1)" by (metis prod_cases3)
    obtain ws2 where 2: "write_pass1 ps (spread scan cl) tab infer (s1, sp1) = (ws2, rest, s', sp')" and ws: "ws = ws1 @ ws2"
      using Cons.prems(1) True 1 by (auto split: prod.splits)
    have p: "p < length scan" "f p = 0" using Cons.prems(4) by simp_all
    have same: "capped (f j) = capped (cl j)" if "p < j" "j < length scan" for j
      using Cons.prems(3,5) that by (metis less_asym list.set_intros(1) set_ConsD sorted_wrt.simps(2))
    have inf: "cl p \<noteq> 0" if "p_numNonZero s = 0" "int p = infer" using Cons.prems(6) [of "[]" p ps] that by simp
    note fr = write_position_frame [OF 1]
    have at: "spread scan cl ! blockPos (p_cctx s) p = cl p" by (rule spread_at [OF Cons.prems(2) p(1)])
    note sb = same_block_fields [OF fr(1)]
    define bs1 where "bs1 = bs @ sign_bits cl [p]"
    have sp1: "sp1 = num_of bs1"
    proof (cases "cl p = 0")
      case False
      have "p \<noteq> m_scanPosLast (p_cctx s) \<or> bs = []" using Cons.prems(8) [of p] by auto
      then show ?thesis
        using fr(3) at False write_sign_num [of bs "p \<noteq> m_scanPosLast (p_cctx s)" "cl p"] Cons.prems(7) by (simp add: bs1_def)
    qed (use fr(2) at in \<open>simp add: bs1_def\<close>)
    let ?f = "f(p := capped (cl p))"
    let ?blk = "if cl p = 0 then blk else blk @ [blockPos (p_cctx s) p]"
    have a1: "agrees 536 (seqW ws1) (read_position p tab infer (s, blk, spread scan f)) (s1, ?blk, spread scan ?f)"
      by (rule agrees_position [OF Cons.prems(2) p(1) same p(2) inf 1])
    have "\<exists>done. ps = done @ rest
      \<and> agrees 536 (seqW ws2) (read_pass1 ps tab infer (s1, ?blk, spread scan ?f))
          (rest, s', ?blk @ map (blockPos (p_cctx s1)) (filter (\<lambda>k. cl k \<noteq> 0) done),
           spread scan (\<lambda>k. if k \<in> set done then capped (cl k) else ?f k))
      \<and> sp' = num_of (bs1 @ sign_bits cl done) \<and> same_block (p_cctx s1) (p_cctx s')
      \<and> p_numNonZero s' = p_numNonZero s1 + count cl done
      \<and> (p_firstNZPos s', p_lastNZPos s') = track cl done (p_firstNZPos s1, p_lastNZPos s1)"
    proof (rule Cons.IH)
      show "write_pass1 ps (spread scan cl) tab infer (s1, num_of bs1) = (ws2, rest, s', sp')" using 2 by (simp only: sp1)
      show "block_fits (p_cctx s1) scan w h" using Cons.prems(2) sb by simp
      show "sorted_wrt (>) ps" using Cons.prems(3) by simp
      show "k < length scan \<and> k \<le> m_scanPosLast (p_cctx s1) \<and> ?f k = 0" if "k \<in> set ps" for k
        using Cons.prems(3,4) that sb(3) by auto
      show "capped (?f j) = capped (cl j)" if "k \<in> set ps" "k < j" "j < length scan" "j \<notin> set ps" for k j
        using Cons.prems(5) [of k j] that by (cases "j = p") simp_all
      show "cl k \<noteq> 0" if "p_numNonZero s1 = 0" "ps = pre @ k # post" "int k = infer" "\<forall>j\<in>set pre. cl j = 0" for pre k post
      proof -
        have "cl p = 0" using fr(3) at that(1) by (cases "cl p = 0") simp_all
        then show ?thesis using Cons.prems(6) [of "p # pre" k post] fr(2) at that by simp
      qed
      show "length bs1 + length ps < 32" using Cons.prems(7) by (simp add: bs1_def)
      show "k < m_scanPosLast (p_cctx s1)" if "k \<in> set ps" for k
      proof -
        have "k < p" "p \<le> m_scanPosLast (p_cctx s)" using Cons.prems(3,4) that by auto
        then show ?thesis using sb(3) by simp
      qed
    qed
    then obtain dn where d: "ps = dn @ rest"
      "agrees 536 (seqW ws2) (read_pass1 ps tab infer (s1, ?blk, spread scan ?f))
          (rest, s', ?blk @ map (blockPos (p_cctx s1)) (filter (\<lambda>k. cl k \<noteq> 0) dn),
           spread scan (\<lambda>k. if k \<in> set dn then capped (cl k) else ?f k))"
      "sp' = num_of (bs1 @ sign_bits cl dn)" "same_block (p_cctx s1) (p_cctx s')"
      "p_numNonZero s' = p_numNonZero s1 + count cl dn"
      "(p_firstNZPos s', p_lastNZPos s') = track cl dn (p_firstNZPos s1, p_lastNZPos s1)"
      by blast
    have f: "(\<lambda>k. if k \<in> set dn then capped (cl k) else ?f k) = (\<lambda>k. if k \<in> set (p # dn) then capped (cl k) else f k)"
      by (auto simp: fun_eq_iff)
    have b: "?blk @ map (blockPos (p_cctx s1)) (filter (\<lambda>k. cl k \<noteq> 0) dn)
        = blk @ map (blockPos (p_cctx s)) (filter (\<lambda>k. cl k \<noteq> 0) (p # dn))"
      using sb(2) by simp
    have "agrees 536 (seqW ws) (read_pass1 (p # ps) tab infer (s, blk, spread scan f))
        (rest, s', blk @ map (blockPos (p_cctx s)) (filter (\<lambda>k. cl k \<noteq> 0) (p # dn)),
         spread scan (\<lambda>k. if k \<in> set (p # dn) then capped (cl k) else f k))"
      using agrees_then [OF a1, of "seqW ws2" "read_pass1 ps tab infer"] d(2) True unfolding f b ws seqW_append by simp
    moreover have "same_block (p_cctx s) (p_cctx s')" by (rule same_block_trans [OF fr(1) d(4)])
    moreover have "p_numNonZero s1 = p_numNonZero s + count cl [p]" "(p_firstNZPos s1, p_lastNZPos s1) = track cl [p] (p_firstNZPos s, p_lastNZPos s)"
      using fr(2,3) at by (cases "cl p = 0"; simp)+
    ultimately show ?thesis using d by (intro exI [of _ "p # dn"]) (simp add: bs1_def)
  qed
qed

subsection \<open>The second and the third pass\<close>

definition small_levels :: "CoeffCodingContext \<Rightarrow> (nat \<Rightarrow> int) \<Rightarrow> bool" where
  "small_levels c cl \<longleftrightarrow> 4 \<le> m_maxLog2TrDynamicRange c \<and> m_maxLog2TrDynamicRange c \<le> 26
     \<and> (\<forall>k<length scan. nat \<bar>cl k\<bar> \<le> 2 ^ m_maxLog2TrDynamicRange c)"

lemma rice_cong:
  assumes "block_fits c scan w h" "k < length scan" "\<And>j. k < j \<Longrightarrow> j < length scan \<Longrightarrow> \<bar>f j\<bar> = \<bar>cl j\<bar>"
  shows "rice_of k (spread scan f) base c = rice_of k (spread scan cl) base c"
  by (rule rice_same, rule neighbours_cong [where p = abs, OF assms(1,2)]) (rule assms(3))

lemma agrees_pass2:
  assumes c: "block_fits c scan w h" and sm: "small_levels c cl"
  shows "sorted_wrt (>) ps \<Longrightarrow> (\<And>k. k \<in> set ps \<Longrightarrow> k < length scan \<and> f k = capped (cl k)) \<Longrightarrow>
    (\<And>k j. k \<in> set ps \<Longrightarrow> k < j \<Longrightarrow> j < length scan \<Longrightarrow> j \<notin> set ps \<Longrightarrow> \<bar>f j\<bar> = \<bar>cl j\<bar>) \<Longrightarrow>
    agrees 536 (seqW (write_pass2 ps (spread scan cl) c)) (read_pass2 ps c (spread scan f))
      (spread scan (\<lambda>k. if k \<in> set ps then \<bar>cl k\<bar> else f k))"
proof (induction ps arbitrary: f)
  case Nil
  then show ?case by (simp add: write_pass2_def read_pass2_def agrees_skip)
next
  case (Cons p ps)
  have p: "p < length scan" "f p = capped (cl p)" using Cons.prems(2) by simp_all
  have same: "\<bar>f j\<bar> = \<bar>cl j\<bar>" if "p < j" "j < length scan" for j
    using Cons.prems(1,3) that by (metis less_asym list.set_intros(1) set_ConsD sorted_wrt.simps(2))
  define rice where "rice = rice_of p (spread scan cl) 4 c"
  have rice: "rice_of p (spread scan f) 4 c = rice" unfolding rice_def by (rule rice_cong [OF c p(1) same])
  have at: "spread scan cl ! blockPos c p = cl p" "spread scan f ! blockPos c p = capped (cl p)"
    using spread_at [OF c p(1)] p(2) by simp_all
  define a where "a = nat \<bar>cl p\<bar>"
  have a: "\<bar>cl p\<bar> = int a" by (simp add: a_def)
  let ?f = "f(p := \<bar>cl p\<bar>)"
  have 1: "agrees 536 (ifW (a \<ge> 4) [encodeRemAbsEP ((a - 4) div 2) rice COEF_REMAIN_BIN_REDUCTION (m_maxLog2TrDynamicRange c)])
      (if capped (cl p) \<ge> 4
       then bindP (decodeRemAbsEP rice COEF_REMAIN_BIN_REDUCTION (m_maxLog2TrDynamicRange c)) (\<lambda>rem.
            returnP ((spread scan f)[blockPos c p := capped (cl p) + 2 * int rem]))
       else returnP (spread scan f)) (spread scan ?f)"
  proof (rule agrees_ifW)
    assume a4: "a \<ge> 4"
    have "a \<le> 2 ^ m_maxLog2TrDynamicRange c" using sm p(1) by (simp add: small_levels_def a_def)
    then have v: "rem_valid rice COEF_REMAIN_BIN_REDUCTION (m_maxLog2TrDynamicRange c) ((a - 4) div 2)"
      using sm by (intro rem_ok) (simp_all add: rice_def rice_le small_levels_def)
    have "4 + a mod 2 \<le> a" using a4 by (cases "a = 4") auto
    then have "int (4 + a mod 2) \<le> int a" by (simp only: of_nat_le_iff)
    then have cp: "capped (cl p) = int (4 + a mod 2)" by (simp add: capped_def a min_def zmod_int)
    have "4 + a mod 2 + 2 * ((a - 4) div 2) = a"
    proof -
      have "(a - 4) mod 2 = a mod 2" using a4 by (simp add: mod_2_eq_odd)
      then show ?thesis using div_mult_mod_eq [of "a - 4" 2] a4 by linarith
    qed
    then have e: "capped (cl p) + 2 * int ((a - 4) div 2) = \<bar>cl p\<bar>" unfolding cp a by linarith
    have ge: "capped (cl p) \<ge> 4" by (simp add: cp)
    show "agrees 536 (seqW [encodeRemAbsEP ((a - 4) div 2) rice COEF_REMAIN_BIN_REDUCTION (m_maxLog2TrDynamicRange c)])
      (if capped (cl p) \<ge> 4
       then bindP (decodeRemAbsEP rice COEF_REMAIN_BIN_REDUCTION (m_maxLog2TrDynamicRange c)) (\<lambda>rem.
            returnP ((spread scan f)[blockPos c p := capped (cl p) + 2 * int rem]))
       else returnP (spread scan f)) (spread scan ?f)"
      unfolding if_P [OF ge]
      by (rule agrees_bind [OF agrees_remAbs [OF v]]) (simp add: e spread_set [OF c p(1)] agrees_skip del: of_nat_div)
  next
    assume "\<not> a \<ge> 4"
    then have "int a \<le> 4 + int a mod 2" "int a < 4" by simp_all
    then have "capped (cl p) = \<bar>cl p\<bar>" "\<not> capped (cl p) \<ge> 4" by (simp_all add: capped_def a min_def)
    then have "f(p := \<bar>cl p\<bar>) = f" "\<not> capped (cl p) \<ge> 4" using p(2) by auto
    then show "(if capped (cl p) \<ge> 4
       then bindP (decodeRemAbsEP rice COEF_REMAIN_BIN_REDUCTION (m_maxLog2TrDynamicRange c)) (\<lambda>rem.
            returnP ((spread scan f)[blockPos c p := capped (cl p) + 2 * int rem]))
       else returnP (spread scan f)) = returnP (spread scan ?f)" by simp
  qed
  have 2: "agrees 536 (seqW (write_pass2 ps (spread scan cl) c)) (read_pass2 ps c (spread scan ?f))
      (spread scan (\<lambda>k. if k \<in> set ps then \<bar>cl k\<bar> else ?f k))"
  proof (rule Cons.IH)
    show "sorted_wrt (>) ps" using Cons.prems(1) by simp
    show "k < length scan \<and> ?f k = capped (cl k)" if "k \<in> set ps" for k
      using Cons.prems(1,2) that by auto
    show "\<bar>?f j\<bar> = \<bar>cl j\<bar>" if "k \<in> set ps" "k < j" "j < length scan" "j \<notin> set ps" for k j
      using Cons.prems(3) [of k j] that by (cases "j = p") simp_all
  qed
  have f: "(\<lambda>k. if k \<in> set ps then \<bar>cl k\<bar> else ?f k) = (\<lambda>k. if k \<in> set (p # ps) then \<bar>cl k\<bar> else f k)"
    by (auto simp: fun_eq_iff)
  have w: "write_pass2 (p # ps) (spread scan cl) c
      = ifW (a \<ge> 4) [encodeRemAbsEP ((a - 4) div 2) rice COEF_REMAIN_BIN_REDUCTION (m_maxLog2TrDynamicRange c)]
        # write_pass2 ps (spread scan cl) c"
    unfolding write_pass2_def list.map Let_def at rice_def a_def by simp
  have r: "read_pass2 (p # ps) c (spread scan f)
      = bindP (if capped (cl p) \<ge> 4
       then bindP (decodeRemAbsEP rice COEF_REMAIN_BIN_REDUCTION (m_maxLog2TrDynamicRange c)) (\<lambda>rem.
            returnP ((spread scan f)[blockPos c p := capped (cl p) + 2 * int rem]))
       else returnP (spread scan f)) (read_pass2 ps c)"
    by (simp add: read_pass2_def at rice Let_def)
  show ?case unfolding w r f [symmetric] by (rule agrees_bind [OF 1]) (rule 2)
qed

end

end
