(* ===== verification/ResidualGroups.thy ===== *)
theory ResidualGroups
  imports ResidualPasses
begin

unbundle bit_operations_syntax

text \<open>
  The third pass, the signs and whole groups of coefficients: the reader follows the writer over a group.
\<close>

section \<open>What the encoder has arranged\<close>

text \<open>
  The positions of a group whose coefficients are not zero. When they lie far enough apart the sign of the
  last one is not written: the encoder has chosen the levels so that it is the parity of their sum.
\<close>

definition nonzero_of :: "(nat \<Rightarrow> int) \<Rightarrow> nat list \<Rightarrow> nat list" where
  "nonzero_of cl ks = filter (\<lambda>k. cl k \<noteq> 0) ks"

definition hidden_parity :: "CoeffCodingContext \<Rightarrow> (nat \<Rightarrow> int) \<Rightarrow> nat list \<Rightarrow> bool" where
  "hidden_parity c cl ks \<longleftrightarrow>
     (let ns = nonzero_of cl ks
      in ns \<noteq> [] \<and> hideSign c (int (last ns)) (int (hd ns)) \<longrightarrow> odd (\<Sum>k\<leftarrow>ns. \<bar>cl k\<bar>) = (cl (last ns) < 0))"

lemma sum_nonzero: "(\<Sum>k\<leftarrow>nonzero_of cl ks. \<bar>cl k\<bar>) = (\<Sum>k\<leftarrow>ks. \<bar>cl k\<bar>)"
  unfolding nonzero_of_def by (induction ks) auto

text \<open>The fields of the coding context that stay as they are from group to group.\<close>

definition alike :: "CoeffCodingContext \<Rightarrow> CoeffCodingContext \<Rightarrow> bool" where
  "alike c c' \<longleftrightarrow> c' = c\<lparr>m_subSetId := m_subSetId c', m_subSetPos := m_subSetPos c', m_subSetPosX := m_subSetPosX c',
     m_subSetPosY := m_subSetPosY c', m_minSubPos := m_minSubPos c', m_maxSubPos := m_maxSubPos c',
     m_sigGroupCtxId := m_sigGroupCtxId c', m_tmplCpSum1 := m_tmplCpSum1 c', m_tmplCpDiag := m_tmplCpDiag c',
     m_sigCoeffGroupFlag := m_sigCoeffGroupFlag c', regBinLimit := regBinLimit c'\<rparr>"

lemma alike_refl [simp]: "alike c c"
  by (simp add: alike_def)

lemma alike_trans: "alike a b \<Longrightarrow> alike b c \<Longrightarrow> alike a c"
  by (cases a; cases b; cases c) (simp add: alike_def)

lemma alike_same_block: "same_block c c' \<Longrightarrow> alike c (c'\<lparr>regBinLimit := r\<rparr>)"
  by (cases c; cases c') (simp add: alike_def same_block_def)

lemma alike_initSubblock: "alike c (initSubblock k b c)" "alike c (setSigGroup c)"
  by (simp_all add: alike_def initSubblock_def setSigGroup_def Let_def)

lemma alike_fields:
  assumes "alike c c'"
  shows "block_fits c' scan w h = block_fits c scan w h" "m_maxLog2TrDynamicRange c' = m_maxLog2TrDynamicRange c" "blockPos c' = blockPos c"
    "hidden_parity c' = hidden_parity c" "m_scanPosLast c' = m_scanPosLast c" "minCoeff c' = minCoeff c"
    "maxCoeff c' = maxCoeff c" "log2CGSize c' = log2CGSize c" "m_bSignPredQualified c' = m_bSignPredQualified c"
    "m_scanCG c' = m_scanCG c" "m_widthInGroups c' = m_widthInGroups c" "m_chType c' = m_chType c"
proof -
  note e = assms [unfolded alike_def]
  show "block_fits c' scan w h = block_fits c scan w h" by (subst e) (simp add: block_fits_def)
  show "m_scanPosLast c' = m_scanPosLast c" "m_bSignPredQualified c' = m_bSignPredQualified c" "m_scanCG c' = m_scanCG c"
    "m_widthInGroups c' = m_widthInGroups c" "m_chType c' = m_chType c" "m_maxLog2TrDynamicRange c' = m_maxLog2TrDynamicRange c"
    by (subst e; simp)+
  show "blockPos c' = blockPos c" by (subst e) (simp add: blockPos_def fun_eq_iff)
  show "minCoeff c' = minCoeff c" "maxCoeff c' = maxCoeff c" "log2CGSize c' = log2CGSize c"
    by (subst e; simp add: minCoeff_def maxCoeff_def log2CGSize_def)+
  show "hidden_parity c' = hidden_parity c" by (subst e) (simp add: hidden_parity_def hideSign_def fun_eq_iff)
qed

section \<open>A group without the flag before it\<close>

definition write_group :: "nat \<Rightarrow> int list \<Rightarrow> CoeffCodingContext \<Rightarrow> nat \<Rightarrow> bin_writer list \<times> CoeffCodingContext \<times> nat" where
  "write_group tab coeff c state =
     (let (bins1, rest, s, signPattern) = write_pass1 (group_scan c) coeff tab (infer_sig_pos c) (start_pass c state, 0);
          c' = (p_cctx s)\<lparr>regBinLimit := p_remRegBins s\<rparr>; s = s\<lparr>p_cctx := c'\<rparr>;
          bins2 = write_pass2 (take (length (group_scan c) - length rest) (group_scan c)) coeff c';
          (bins3, s, signPattern) = write_pass3 rest coeff tab (s, signPattern)
      in (bins1 @ bins2 @ bins3 @ [write_signs (sp_qualified c) (s, signPattern)], c', p_state s))"

definition read_group ::
  "nat \<Rightarrow> int list \<times> int list \<Rightarrow> CoeffCodingContext \<Rightarrow> nat \<Rightarrow> (CoeffCodingContext \<times> nat \<times> int list \<times> int list) bin_parser" where
  "read_group tab cs c state =
     bindP (read_pass1 (group_scan c) tab (infer_sig_pos c) (start_pass c state, [], fst cs))
       (\<lambda>(rest, s, sigBlkPos, coeff).
         let c' = (p_cctx s)\<lparr>regBinLimit := p_remRegBins s\<rparr>; s = s\<lparr>p_cctx := c'\<rparr>
         in bindP (read_pass2 (take (length (group_scan c) - length rest) (group_scan c)) c' coeff) (\<lambda>coeff.
            bindP (read_pass3 rest tab (s, sigBlkPos, coeff)) (\<lambda>(s, sigBlkPos, coeff).
            bindP (read_signs (sp_qualified c) (snd cs) (s, sigBlkPos, coeff)) (\<lambda>(coeff, sign).
            returnP (c', p_state s, coeff, sign)))))"


lemma write_subblock_group:
  "write_residual_coding_subblock coeff tab c st =
     (let flag_bins = (if \<not> isLast c \<and> isNotFirst c then [encodeBin (bin_of (isSigGroup c)) (m_sigGroupCtxId c)] else [])
      in if \<not> isLast c \<and> isNotFirst c \<and> \<not> isSigGroup c then (flag_bins, c, st)
         else let (ws, c', st') = write_group tab coeff c st in (flag_bins @ ws, c', st'))"
  unfolding write_residual_coding_subblock_def write_group_def Let_def by (simp split: prod.split)

lemma read_subblock_group:
  "read_residual_coding_subblock tab c st cs =
     bindP (if isLast c \<or> m_minSubPos c = 0 then returnP 1 else decodeBin (m_sigGroupCtxId c)) (\<lambda>sigGroup.
       if sigGroup = 0 then returnP (c, st, cs) else read_group tab cs (setSigGroup c) st)"
proof (cases cs)
  case (Pair a b)
  show ?thesis
    unfolding Pair read_residual_coding_subblock_def read_group_def Let_def prod.case fst_conv snd_conv by (rule refl)
qed

text \<open>The passes do not look at the flags of the groups.\<close>

abbreviation with_flags :: "bool list \<Rightarrow> CoeffCodingContext \<Rightarrow> CoeffCodingContext" where
  "with_flags F c \<equiv> c\<lparr>m_sigCoeffGroupFlag := F\<rparr>"

abbreviation pass_flags :: "bool list \<Rightarrow> Pass \<Rightarrow> Pass" where
  "pass_flags F s \<equiv> s\<lparr>p_cctx := with_flags F (p_cctx s)\<rparr>"

lemma flags_small [simp]:
  "neighbours (with_flags F c) k a = neighbours c k a" "ctxOffsetAbs (with_flags F c) = ctxOffsetAbs c"
  "greater1CtxIdAbs (with_flags F c) = greater1CtxIdAbs c" "greater2CtxIdAbs (with_flags F c) = greater2CtxIdAbs c"
  "parityCtxIdAbs (with_flags F c) = parityCtxIdAbs c" "blockPos (with_flags F c) = blockPos c"
  "rice_of k a base (with_flags F c) = rice_of k a base c" "group_scan (with_flags F c) = group_scan c"
  "infer_sig_pos (with_flags F c) = infer_sig_pos c" "sp_qualified (with_flags F c) = sp_qualified c"
  "hideSign (with_flags F c) = hideSign c" "start_pass (with_flags F c) st = pass_flags F (start_pass c st)"
  "count_nonzero k (pass_flags F s) = pass_flags F (count_nonzero k s)"
proof -
  show n: "neighbours (with_flags F c) k a = neighbours c k a" by (simp add: neighbours_def)
  have "log2CGSize (with_flags F c) = log2CGSize c" by (simp add: log2CGSize_def)
  then have "isLast (with_flags F c) = isLast c" by (simp add: isLast_def)
  then have fs: "first_sig_pos (with_flags F c) = first_sig_pos c" by (simp add: first_sig_pos_def)
  then show "infer_sig_pos (with_flags F c) = infer_sig_pos c" by (simp add: infer_sig_pos_def isNotFirst_def)
  show "group_scan (with_flags F c) = group_scan c" by (simp add: group_scan_def fs)
  show "start_pass (with_flags F c) st = pass_flags F (start_pass c st)" by (simp add: start_pass_def fs)
  show "rice_of k a base (with_flags F c) = rice_of k a base c" by (simp add: rice_of_def templateAbsSum_def n)
qed (simp_all add: ctxOffsetAbs_def greater1CtxIdAbs_def greater2CtxIdAbs_def parityCtxIdAbs_def blockPos_def fun_eq_iff
    sp_qualified_def hideSign_def count_nonzero_def)

lemma flags_sigCtx: "sigCtxIdAbs k a st (with_flags F c) = (let (i, c1) = sigCtxIdAbs k a st c in (i, with_flags F c1))"
  by (simp add: sigCtxIdAbs_def Let_def)

lemma flags_levels:
  "write_levels k x (pass_flags F s, sp) = (let (ws, s', sp') = write_levels k x (s, sp) in (ws, pass_flags F s', sp'))"
  by (simp add: write_levels_def Let_def count_nonzero_def)

lemma flags_position:
  "write_position k a tab inferred (pass_flags F s, sp) = (let (ws, s', sp') = write_position k a tab inferred (s, sp) in (ws, pass_flags F s', sp'))"
proof -
  obtain i c1 where sc: "sigCtxIdAbs k a (p_state s) (p_cctx s) = (i, c1)" by fastforce
  define s0 where "s0 = s\<lparr>p_cctx := if (p_numNonZero s \<noteq> 0 \<or> int k \<noteq> inferred) \<or> k \<noteq> m_scanPosLast (p_cctx s) then c1 else p_cctx s,
            p_remRegBins := p_remRegBins s - (if p_numNonZero s \<noteq> 0 \<or> int k \<noteq> inferred then 1 else 0)\<rparr>"
  have e: "(pass_flags F s)\<lparr>p_cctx := if (p_numNonZero s \<noteq> 0 \<or> int k \<noteq> inferred) \<or> k \<noteq> m_scanPosLast (p_cctx s) then with_flags F c1 else with_flags F (p_cctx s),
            p_remRegBins := p_remRegBins s - (if p_numNonZero s \<noteq> 0 \<or> int k \<noteq> inferred then 1 else 0)\<rparr> = pass_flags F s0"
    by (simp add: s0_def)
  obtain ws s1 sp1 where lv: "write_levels k (a ! blockPos (p_cctx s) k) (s0, sp) = (ws, s1, sp1)" by (metis prod_cases3)
  have lv': "write_levels k (a ! blockPos (p_cctx s) k) (pass_flags F s0, sp) = (ws, pass_flags F s1, sp1)"
    unfolding flags_levels lv by simp
  have fl: "p_cctx (pass_flags F s) = with_flags F (p_cctx s)" "p_state (pass_flags F s) = p_state s"
    "p_numNonZero (pass_flags F s) = p_numNonZero s" "p_remRegBins (pass_flags F s) = p_remRegBins s"
    "m_scanPosLast (with_flags F (p_cctx s)) = m_scanPosLast (p_cctx s)" by simp_all
  have sc': "sigCtxIdAbs k a (p_state s) (with_flags F (p_cctx s)) = (i, with_flags F c1)" by (simp add: flags_sigCtx sc)
  show ?thesis
    unfolding write_position_def Let_def prod.case fl flags_small sc sc' e s0_def [symmetric]
    by (cases "a ! blockPos (p_cctx s) k = 0") (simp_all add: lv lv')
qed

lemma flags_pass1:
  "write_pass1 ps a tab inferred (pass_flags F s, sp)
    = (let (ws, rest, s', sp') = write_pass1 ps a tab inferred (s, sp) in (ws, rest, pass_flags F s', sp'))"
proof (induction ps arbitrary: s sp)
  case (Cons p ps)
  obtain ws1 s1 sp1 where 1: "write_position p a tab inferred (s, sp) = (ws1, s1, sp1)" by (metis prod_cases3)
  then have w1': "write_position p a tab inferred (pass_flags F s, sp) = (ws1, pass_flags F s1, sp1)" by (simp add: flags_position)
  obtain ws2 rest s2 sp2 where 2: "write_pass1 ps a tab inferred (s1, sp1) = (ws2, rest, s2, sp2)" by (metis prod_cases4)
  then have w2': "write_pass1 ps a tab inferred (pass_flags F s1, sp1) = (ws2, rest, pass_flags F s2, sp2)" using Cons.IH by simp
  show ?case by (simp add: 1 w1' 2 w2')
qed simp

lemma flags_pass2: "write_pass2 ps a (with_flags F c) = write_pass2 ps a c"
  by (simp add: write_pass2_def)

lemma flags_pass3:
  "write_pass3 ps a tab (pass_flags F s, sp) = (let (ws, s', sp') = write_pass3 ps a tab (s, sp) in (ws, pass_flags F s', sp'))"
proof (induction ps arbitrary: s sp)
  case (Cons p ps)
  define r where "r = next_state tab (p_state s) (int (nat \<bar>a ! blockPos (p_cctx s) p\<bar>))"
  define s1 where "s1 = (if nat \<bar>a ! blockPos (p_cctx s) p\<bar> \<noteq> 0 then count_nonzero p (s\<lparr>p_state := r\<rparr>) else s\<lparr>p_state := r\<rparr>)"
  define sp1 where "sp1 = (if nat \<bar>a ! blockPos (p_cctx s) p\<bar> \<noteq> 0 then write_sign True (a ! blockPos (p_cctx s) p) sp else sp)"
  obtain ws s2 sp2 where 1: "write_pass3 ps a tab (s1, sp1) = (ws, s2, sp2)" by (metis prod_cases3)
  then have w1': "write_pass3 ps a tab (pass_flags F s1, sp1) = (ws, pass_flags F s2, sp2)" using Cons.IH by simp
  have e: "(if nat \<bar>a ! blockPos (p_cctx s) p\<bar> \<noteq> 0 then (count_nonzero p (s\<lparr>p_state := r\<rparr>), write_sign True (a ! blockPos (p_cctx s) p) sp)
      else (s\<lparr>p_state := r\<rparr>, sp)) = (s1, sp1)"
    "(if nat \<bar>a ! blockPos (p_cctx s) p\<bar> \<noteq> 0 then (count_nonzero p ((pass_flags F s)\<lparr>p_state := r\<rparr>), write_sign True (a ! blockPos (p_cctx s) p) sp)
      else ((pass_flags F s)\<lparr>p_state := r\<rparr>, sp)) = (pass_flags F s1, sp1)"
    by (simp_all add: s1_def sp1_def count_nonzero_def)
  have fl: "p_cctx (pass_flags F s) = with_flags F (p_cctx s)" "p_state (pass_flags F s) = p_state s"
    "m_maxLog2TrDynamicRange (with_flags F (p_cctx s)) = m_maxLog2TrDynamicRange (p_cctx s)" by simp_all
  show ?case unfolding write_pass3.simps Let_def fl flags_small r_def [symmetric] e 1 w1' prod.case by (rule refl)
qed simp

lemma flags_group:
  assumes "write_group tab a c st = (ws, c', st')"
  shows "\<exists>c''. write_group tab a (with_flags F c) st = (ws, c'', st')"
proof -
  obtain ws1 rest s sp where 1: "write_pass1 (group_scan c) a tab (infer_sig_pos c) (start_pass c st, 0) = (ws1, rest, s, sp)"
    by (metis prod_cases4)
  define s1 where "s1 = s\<lparr>p_cctx := (p_cctx s)\<lparr>regBinLimit := p_remRegBins s\<rparr>\<rparr>"
  have e: "(pass_flags F s)\<lparr>p_cctx := (with_flags F (p_cctx s))\<lparr>regBinLimit := p_remRegBins s\<rparr>\<rparr> = pass_flags F s1"
    by (simp add: s1_def)
  obtain ws3 s3 sp3 where 3: "write_pass3 rest a tab (s1, sp) = (ws3, s3, sp3)" by (metis prod_cases3)
  then have w3': "write_pass3 rest a tab (pass_flags F s1, sp) = (ws3, pass_flags F s3, sp3)" by (simp add: flags_pass3)
  have w: "write_signs q (pass_flags F s3, sp3) = write_signs q (s3, sp3)" for q by (simp add: write_signs_def Let_def)
  have p2: "write_pass2 ps a (with_flags F (p_cctx s)\<lparr>regBinLimit := r\<rparr>) = write_pass2 ps a ((p_cctx s)\<lparr>regBinLimit := r\<rparr>)" for ps r
  proof -
    have "(with_flags F (p_cctx s))\<lparr>regBinLimit := r\<rparr> = with_flags F ((p_cctx s)\<lparr>regBinLimit := r\<rparr>)" by simp
    then show ?thesis by (simp only: flags_pass2)
  qed
  show ?thesis
    using assms unfolding write_group_def Let_def
    by (auto simp: 1 3 w3' e flags_pass1 s1_def [symmetric] w p2)
qed

context level_order
begin

section \<open>The third pass\<close>

lemma pos0_mapping:
  fixes a pos0 :: nat
  defines "rem \<equiv> if a = 0 then pos0 else if a \<le> pos0 then a - 1 else a"
  shows "(if rem = pos0 then 0 else if rem < pos0 then rem + 1 else rem) = a"
  by (auto simp: rem_def)

lemma agrees_pass3:
  "write_pass3 ps (spread scan cl) tab (s, num_of bs) = (ws, s', sp') \<Longrightarrow> small_levels (p_cctx s) cl \<Longrightarrow>
    block_fits (p_cctx s) scan w h \<Longrightarrow> sorted_wrt (>) ps \<Longrightarrow>
    (\<And>k. k \<in> set ps \<Longrightarrow> k < length scan \<and> f k = 0) \<Longrightarrow>
    (\<And>k j. k \<in> set ps \<Longrightarrow> k < j \<Longrightarrow> j < length scan \<Longrightarrow> j \<notin> set ps \<Longrightarrow> \<bar>f j\<bar> = \<bar>cl j\<bar>) \<Longrightarrow>
    length bs + length ps < 32 \<Longrightarrow>
    agrees 536 (seqW ws) (read_pass3 ps tab (s, blk, spread scan f))
          (s', blk @ map (blockPos (p_cctx s)) (filter (\<lambda>k. cl k \<noteq> 0) ps),
           spread scan (\<lambda>k. if k \<in> set ps then \<bar>cl k\<bar> else f k))
      \<and> sp' = num_of (bs @ sign_bits cl ps) \<and> p_cctx s' = p_cctx s
      \<and> p_numNonZero s' = p_numNonZero s + count cl ps
      \<and> (p_firstNZPos s', p_lastNZPos s') = track cl ps (p_firstNZPos s, p_lastNZPos s)"
proof (induction ps arbitrary: s bs f blk ws)
  case Nil
  then show ?case by (auto simp: read_pass3_def agrees_skip)
next
  case (Cons p ps)
  define c where "c = p_cctx s"
  have fc: "block_fits c scan w h" and sm: "small_levels c cl" using Cons.prems(2,3) by (simp_all add: c_def)
  have p: "p < length scan" "f p = 0" using Cons.prems(5) by simp_all
  have same: "\<bar>f j\<bar> = \<bar>cl j\<bar>" if "p < j" "j < length scan" for j
    using Cons.prems(4,6) that by (metis less_asym list.set_intros(1) set_ConsD sorted_wrt.simps(2))
  define rice where "rice = rice_of p (spread scan cl) 0 c"
  have rice: "rice_of p (spread scan f) 0 c = rice" unfolding rice_def by (rule rice_cong [OF fc p(1) same])
  have at: "spread scan cl ! blockPos c p = cl p" by (rule spread_at [OF fc p(1)])
  define a where "a = nat \<bar>cl p\<bar>"
  have a: "\<bar>cl p\<bar> = int a" "cl p = 0 \<longleftrightarrow> a = 0" by (simp_all add: a_def)
  define pos0 where "pos0 = g_auiGoRicePosCoeff0 (p_state s) rice"
  define r where "r = (if a = 0 then pos0 else if a \<le> pos0 then a - 1 else a)"
  define s0 where "s0 = s\<lparr>p_state := next_state tab (p_state s) (int a)\<rparr>"
  define s1 where "s1 = (if a \<noteq> 0 then count_nonzero p s0 else s0)"
  define bs1 where "bs1 = bs @ sign_bits cl [p]"
  obtain ws2 where 2: "write_pass3 ps (spread scan cl) tab (s1, num_of bs1) = (ws2, s', sp')"
    and ws: "ws = encodeRemAbsEP r rice COEF_REMAIN_BIN_REDUCTION (m_maxLog2TrDynamicRange c) # ws2"
  proof -
    have sg: "write_sign True (cl p) (num_of bs) = num_of (bs @ [cl p < 0])"
      using Cons.prems(7) by (intro write_sign_num) simp_all
    have "(if a \<noteq> 0 then (count_nonzero p s0, write_sign True (cl p) (num_of bs)) else (s0, num_of bs)) = (s1, num_of bs1)"
      using sg a(2) by (auto simp: s1_def bs1_def)
    moreover obtain x y z where r3: "write_pass3 ps (spread scan cl) tab (s1, num_of bs1) = (x, y, z)" by (metis prod_cases3)
    ultimately show ?thesis
      using Cons.prems(1) that
      unfolding write_pass3.simps Let_def c_def [symmetric] at rice_def [symmetric] a_def [symmetric] pos0_def [symmetric] r_def [symmetric]
        s0_def [symmetric] by simp
  qed
  have R: "m_maxLog2TrDynamicRange c \<ge> 4" "m_maxLog2TrDynamicRange c \<le> 26" "a \<le> 2 ^ m_maxLog2TrDynamicRange c"
    using sm p(1) by (simp_all add: small_levels_def a_def)
  have "(2 :: nat) ^ 4 \<le> 2 ^ m_maxLog2TrDynamicRange c" using R(1) by (intro power_increasing) auto
  then have "pos0 \<le> 2 ^ m_maxLog2TrDynamicRange c" using pos0_le [OF rice_le, of "p_state s" p "spread scan cl" 0 c]
    by (simp add: pos0_def rice_def)
  then have v: "rem_valid rice COEF_REMAIN_BIN_REDUCTION (m_maxLog2TrDynamicRange c) r"
    using R by (intro rem_ok) (auto simp: rice_def rice_le r_def)
  let ?f = "f(p := \<bar>cl p\<bar>)"
  let ?blk = "if cl p = 0 then blk else blk @ [blockPos c p]"
  have IH: "agrees 536 (seqW ws2) (read_pass3 ps tab (s1, ?blk, spread scan ?f))
          (s', ?blk @ map (blockPos (p_cctx s1)) (filter (\<lambda>k. cl k \<noteq> 0) ps),
           spread scan (\<lambda>k. if k \<in> set ps then \<bar>cl k\<bar> else ?f k))
      \<and> sp' = num_of (bs1 @ sign_bits cl ps) \<and> p_cctx s' = p_cctx s1
      \<and> p_numNonZero s' = p_numNonZero s1 + count cl ps
      \<and> (p_firstNZPos s', p_lastNZPos s') = track cl ps (p_firstNZPos s1, p_lastNZPos s1)"
  proof (rule Cons.IH [OF 2])
    show "small_levels (p_cctx s1) cl" "block_fits (p_cctx s1) scan w h"
      using sm fc by (simp_all add: s1_def s0_def count_nonzero_def c_def)
    show "sorted_wrt (>) ps" using Cons.prems(4) by simp
    show "k < length scan \<and> ?f k = 0" if "k \<in> set ps" for k
      using Cons.prems(4,5) that by auto
    show "\<bar>?f j\<bar> = \<bar>cl j\<bar>" if "k \<in> set ps" "k < j" "j < length scan" "j \<notin> set ps" for k j
      using Cons.prems(6) [of k j] that by (cases "j = p") simp_all
    show "length bs1 + length ps < 32" using Cons.prems(7) by (simp add: bs1_def)
  qed
  have c1: "p_cctx s1 = c" by (simp add: s1_def s0_def count_nonzero_def c_def)
  have n1: "p_numNonZero s1 = p_numNonZero s + count cl [p]"
    "(p_firstNZPos s1, p_lastNZPos s1) = track cl [p] (p_firstNZPos s, p_lastNZPos s)"
    using a(2) by (simp_all add: s1_def s0_def count_nonzero_def)
  define step where "step = (\<lambda>rem. let tcoeff = (if rem = pos0 then 0 else if rem < pos0 then rem + 1 else rem);
               s = s\<lparr>p_state := next_state tab (p_state s) (int tcoeff)\<rparr>
           in if tcoeff \<noteq> 0
                       then (count_nonzero p s, blk @ [blockPos c p], (spread scan f)[blockPos c p := int tcoeff])
                       else (s, blk, spread scan f))"
  have st: "step r = (s1, ?blk, spread scan ?f)"
  proof -
    have t: "(if r = pos0 then 0 else if r < pos0 then r + 1 else r) = a" unfolding r_def by (rule pos0_mapping)
    have "f(p := 0) = f" using p(2) by (simp add: fun_eq_iff)
    then show ?thesis unfolding step_def Let_def t s0_def [symmetric] s1_def using a by (simp add: spread_set [OF fc p(1)])
  qed
  have rd: "read_pass3 (p # ps) tab (s, blk, spread scan f)
      = bindP (bindP (decodeRemAbsEP rice COEF_REMAIN_BIN_REDUCTION (m_maxLog2TrDynamicRange c)) (\<lambda>rem. returnP (step rem)))
          (read_pass3 ps tab)"
    unfolding read_pass3_def foldP.simps prod.case Let_def c_def [symmetric] rice pos0_def [symmetric] step_def by (rule refl)
  have 1: "agrees 536 (encodeRemAbsEP r rice COEF_REMAIN_BIN_REDUCTION (m_maxLog2TrDynamicRange c))
     (bindP (decodeRemAbsEP rice COEF_REMAIN_BIN_REDUCTION (m_maxLog2TrDynamicRange c)) (\<lambda>rem. returnP (step rem)))
     (s1, ?blk, spread scan ?f)"
    using agrees_bind_return [OF agrees_remAbs [OF v], of 536 step] by (simp only: st)
  have ff: "(\<lambda>k. if k \<in> set ps then \<bar>cl k\<bar> else ?f k) = (\<lambda>k. if k \<in> set (p # ps) then \<bar>cl k\<bar> else f k)"
    by (auto simp: fun_eq_iff)
  have b: "?blk @ map (blockPos (p_cctx s1)) (filter (\<lambda>k. cl k \<noteq> 0) ps)
      = blk @ map (blockPos (p_cctx s)) (filter (\<lambda>k. cl k \<noteq> 0) (p # ps))" by (simp add: c1 c_def)
  have "agrees 536 (seqW ws) (read_pass3 (p # ps) tab (s, blk, spread scan f))
          (s', blk @ map (blockPos (p_cctx s)) (filter (\<lambda>k. cl k \<noteq> 0) (p # ps)),
           spread scan (\<lambda>k. if k \<in> set (p # ps) then \<bar>cl k\<bar> else f k))"
    unfolding rd ws ff [symmetric] b [symmetric] by (rule agrees_bind [OF 1]) (rule conjunct1 [OF IH])
  moreover have "sp' = num_of (bs @ sign_bits cl (p # ps))" using IH by (simp add: bs1_def)
  moreover have "p_cctx s' = p_cctx s" using IH c1 by (simp add: c_def)
  ultimately show ?case using IH n1 by simp
qed

section \<open>The signs of a group\<close>

lemma num_of_Cons: "num_of (b # bs) = bin_of b * 2 ^ length bs + num_of bs"
proof (induction bs rule: rev_induct)
  case (snoc x bs)
  have "num_of ((b # bs) @ [x]) = 2 * num_of (b # bs) + bin_of x" by (rule num_of_snoc)
  then show ?case using snoc by simp
qed (simp add: num_of_def)

lemma top_sign:
  assumes "length bs < 32"
  shows "bit (num_of (b # bs) * 2 ^ (32 - length (b # bs))) 31 = b"
    and "shl32 (num_of (b # bs) * 2 ^ (32 - length (b # bs))) 1 = num_of bs * 2 ^ (32 - length bs)"
proof -
  have l: "32 - length bs = Suc (31 - length bs)" "length bs + (31 - length bs) = 31" using assms by simp_all
  have e: "num_of (b # bs) * 2 ^ (32 - length (b # bs)) = bin_of b * 2 ^ 31 + num_of bs * 2 ^ (31 - length bs)"
    by (simp add: num_of_Cons add_mult_distrib power_add [symmetric] l(2))
  have "num_of bs * 2 ^ (31 - length bs) < 2 ^ length bs * 2 ^ (31 - length bs)" using num_of_less by simp
  then have lt: "num_of bs * 2 ^ (31 - length bs) < 2 ^ 31" by (simp only: power_add [symmetric] l(2))
  show "bit (num_of (b # bs) * 2 ^ (32 - length (b # bs))) 31 = b"
    unfolding e bit_iff_odd using lt by (cases b) (simp_all add: bin_of_def div_add_self1)
  show "shl32 (num_of (b # bs) * 2 ^ (32 - length (b # bs))) 1 = num_of bs * 2 ^ (32 - length bs)"
    unfolding e l(1) shl32_def push_bit_eq_mult using lt by (cases b) (simp_all add: bin_of_def to_u32_def take_bit_eq_mod mult_ac)
qed


lemma set_signs_all:
  assumes c: "block_fits c scan w h" and rng: "\<And>k. k < length scan \<Longrightarrow> minCoeff c \<le> cl k \<and> cl k \<le> maxCoeff c"
  shows "distinct ns \<Longrightarrow> (\<And>k. k \<in> set ns \<Longrightarrow> k < length scan \<and> cl k \<noteq> 0 \<and> F k = \<bar>cl k\<bar>) \<Longrightarrow> length ns \<le> 32 \<Longrightarrow>
    set_signs c (map (blockPos c) ns) (num_of (sign_bits cl ns) * 2 ^ (32 - length ns)) acc (spread scan F)
      = returnP (acc + (\<Sum>k\<leftarrow>ns. \<bar>cl k\<bar>), spread scan (\<lambda>k. if k \<in> set ns then cl k else F k))"
proof (induction ns arbitrary: F acc)
  case (Cons n ns)
  have n: "n < length scan" "cl n \<noteq> 0" "F n = \<bar>cl n\<bar>" using Cons.prems(2) by simp_all
  have len: "length (sign_bits cl ns) = length ns"
  proof -
    have "filter (\<lambda>k. cl k \<noteq> 0) ns = ns" using Cons.prems(2) by (simp add: filter_id_conv)
    then show ?thesis by (simp add: sign_bits_def)
  qed
  have sb: "sign_bits cl (n # ns) = (cl n < 0) # sign_bits cl ns" using n by simp
  have l32: "length (sign_bits cl ns) < 32" using Cons.prems(3) len by simp
  note top = top_sign [OF l32, of "cl n < 0", folded sb, unfolded sb length_Cons len, folded sb]
  have v: "(if cl n < 0 then - \<bar>cl n\<bar> else \<bar>cl n\<bar>) = cl n" by simp
  have chk: "check_coeff_conformance c (cl n) q = q" for q :: "(int \<times> int list) bin_parser"
    using rng [OF n(1)] by (simp add: check_coeff_conformance_def checkP_def checkE_def fun_eq_iff)
  let ?F = "F(n := cl n)"
  have "set_signs c (map (blockPos c) ns) (num_of (sign_bits cl ns) * 2 ^ (32 - length ns)) (acc + \<bar>cl n\<bar>) (spread scan ?F)
      = returnP ((acc + \<bar>cl n\<bar>) + (\<Sum>k\<leftarrow>ns. \<bar>cl k\<bar>), spread scan (\<lambda>k. if k \<in> set ns then cl k else ?F k))"
    by (rule Cons.IH) (use Cons.prems in auto)
  moreover have "(\<lambda>k. if k \<in> set ns then cl k else ?F k) = (\<lambda>k. if k \<in> set (n # ns) then cl k else F k)"
    by (auto simp: fun_eq_iff)
  ultimately show ?case
    unfolding list.map set_signs.simps Let_def spread_at [OF c n(1)] spread_set [OF c n(1)] length_Cons top v
      chk n(3)
    by (simp add: add.assoc)
qed simp

lemma track_range:
  assumes "sorted_wrt (>) ks"
  shows "track cl ks (a, -1) = (if nonzero_of cl ks = [] then (a, -1) else (int (last (nonzero_of cl ks)), int (hd (nonzero_of cl ks))))"
proof -
  have fold: "fold (\<lambda>k (a, b). (int k, max b (int k))) ns (x, int m) = (int (last (m # ns)), int m)"
    if "sorted_wrt (>) (m # ns)" "x = int m" for ns x m
    using that
  proof (induction ns arbitrary: x rule: rev_induct)
    case (snoc n ns)
    then show ?case by (auto simp: sorted_wrt_append)
  qed simp
  have srt: "sorted_wrt (>) (nonzero_of cl ks)" using assms by (simp add: nonzero_of_def sorted_wrt_filter)
  show ?thesis
  proof (cases "nonzero_of cl ks")
    case Nil
    then show ?thesis by (simp add: track_def nonzero_of_def)
  next
    case (Cons n ns)
    then show ?thesis using fold [of n ns "int n"] srt by (simp add: track_def nonzero_of_def)
  qed
qed


lemma sign_bits_nonzero: "sign_bits cl (nonzero_of cl ks) = sign_bits cl ks" "count cl ks = length (nonzero_of cl ks)"
  by (simp_all add: sign_bits_def nonzero_of_def count_def)

lemma read_some_signs:
  assumes c: "block_fits c scan w h" and rng: "\<And>k. k < length scan \<Longrightarrow> minCoeff c \<le> cl k \<and> cl k \<le> maxCoeff c"
    and ns: "distinct ns" "\<And>k. k \<in> set ns \<Longrightarrow> k < length scan \<and> cl k \<noteq> 0 \<and> F k = \<bar>cl k\<bar>" "length ns \<le> 31"
  shows "agrees N (encodeBinsEP (num_of (sign_bits cl ns)) (length ns))
    (bindP (decodeBinsEP (length ns)) (\<lambda>bins. set_signs c (map (blockPos c) ns)
        (if length ns = 0 then bins else shl32 bins (32 - length ns)) 0 (spread scan F)))
    (\<Sum>k\<leftarrow>ns. \<bar>cl k\<bar>, spread scan (\<lambda>k. if k \<in> set ns then cl k else F k))"
proof -
  have "filter (\<lambda>k. cl k \<noteq> 0) ns = ns" using ns(2) by (simp add: filter_id_conv)
  then have len: "length (sign_bits cl ns) = length ns" by (simp add: sign_bits_def)
  have lt: "num_of (sign_bits cl ns) < 2 ^ length ns" using num_of_less [of "sign_bits cl ns"] len by simp
  have "num_of (sign_bits cl ns) * 2 ^ (32 - length ns) < 2 ^ length ns * 2 ^ (32 - length ns)" using lt by simp
  also have "\<dots> = 2 ^ 32" using ns(3) by (simp add: power_add [symmetric])
  finally have sh: "shl32 (num_of (sign_bits cl ns)) (32 - length ns) = num_of (sign_bits cl ns) * 2 ^ (32 - length ns)"
    by (rule shl32_eq)
  have "set_signs c (map (blockPos c) ns)
        (if length ns = 0 then num_of (sign_bits cl ns) else shl32 (num_of (sign_bits cl ns)) (32 - length ns)) 0 (spread scan F)
      = returnP (\<Sum>k\<leftarrow>ns. \<bar>cl k\<bar>, spread scan (\<lambda>k. if k \<in> set ns then cl k else F k))"
    using set_signs_all [OF c rng ns(1,2), of 0] ns(3) unfolding sh by (cases ns) simp_all
  then show ?thesis by (intro agrees_last [OF agrees_binsEP]) (use lt ns(3) in simp_all)
qed

lemma agrees_signs:
  assumes c: "block_fits (p_cctx s) scan w h"
    and rng: "\<And>k. k < length scan \<Longrightarrow> minCoeff (p_cctx s) \<le> cl k \<and> cl k \<le> maxCoeff (p_cctx s)"
    and ks: "sorted_wrt (>) ks" "\<And>k. k \<in> set ks \<Longrightarrow> k < length scan \<and> F k = \<bar>cl k\<bar>" "length ks \<le> 31"
    and num: "p_numNonZero s = count cl ks" and range: "(p_firstNZPos s, p_lastNZPos s) = track cl ks (int a, -1)"
    and par: "hideSign (p_cctx s) (p_firstNZPos s) (p_lastNZPos s) \<Longrightarrow>
      odd (\<Sum>k\<leftarrow>ks. \<bar>cl k\<bar>) = (cl (last (nonzero_of cl ks)) < 0)"
  shows "\<exists>sign'. agrees 536 (write_signs False (s, num_of (sign_bits cl ks)))
      (read_signs False sign (s, map (blockPos (p_cctx s)) (nonzero_of cl ks), spread scan F))
      (spread scan (\<lambda>k. if k \<in> set ks then cl k else F k), sign')"
proof -
  define c where "c = p_cctx s"
  note fc = c [folded c_def] and rng = rng [folded c_def]
  define ns where "ns = nonzero_of cl ks"
  have ns: "sorted_wrt (>) ns" "\<And>k. k \<in> set ns \<Longrightarrow> k < length scan \<and> cl k \<noteq> 0 \<and> F k = \<bar>cl k\<bar>" "length ns \<le> 31"
    using ks le_trans [OF length_filter_le ks(3)] by (auto simp: ns_def nonzero_of_def sorted_wrt_filter)
  have dist: "distinct ns" using ns(1) by (induction ns) auto
  have n: "p_numNonZero s = length ns" "sign_bits cl ks = sign_bits cl ns" by (simp_all add: num sign_bits_nonzero ns_def)
  have same: "(if k \<in> set ks then cl k else F k) = (if k \<in> set ns then cl k else F k)" for k
    using ks(2) [of k] by (auto simp: ns_def nonzero_of_def)
  define hidden where "hidden = hideSign c (p_firstNZPos s) (p_lastNZPos s)"
  show ?thesis
  proof (cases hidden)
    case False
    have w: "write_signs False (s, num_of (sign_bits cl ks)) = encodeBinsEP (num_of (sign_bits cl ns)) (length ns)"
      using False by (simp add: write_signs_def hidden_def c_def n ifW_def)
    have m: "(if hideSign c (p_firstNZPos s) (p_lastNZPos s) then p_numNonZero s - 1 else p_numNonZero s) = length ns"
      using False by (simp add: hidden_def n(1))
    have tk: "take (length ns) (map (blockPos c) ns) = map (blockPos c) ns" by simp
    have "agrees 536 (write_signs False (s, num_of (sign_bits cl ks)))
      (read_signs False sign (s, map (blockPos c) ns, spread scan F))
      (spread scan (\<lambda>k. if k \<in> set ks then cl k else F k), sign)"
      unfolding w read_signs_def prod.case Let_def c_def [symmetric] m tk if_False same
    proof (rule agrees_last [OF read_some_signs [OF fc rng dist]])
      show "\<And>k. k \<in> set ns \<Longrightarrow> k < length scan \<and> cl k \<noteq> 0 \<and> F k = \<bar>cl k\<bar>" "length ns \<le> 31" by (fact ns)+
    qed (simp_all only: prod.case n(1) less_irrefl if_False)
    then show ?thesis unfolding c_def ns_def by blast
  next
    case True
    have "ns \<noteq> []"
    proof
      assume "ns = []"
      then have "p_firstNZPos s = int a" "p_lastNZPos s = -1" using range track_range [OF ks(1), of cl "int a"] by (simp_all add: ns_def)
      then show False using True by (simp add: hidden_def hideSign_def SBH_THRESHOLD_def)
    qed
    then obtain ms l where ms: "ns = ms @ [l]" by (metis rev_exhaust)
    have l: "l < length scan" "F l = \<bar>cl l\<bar>" "cl l \<noteq> 0" "l \<notin> set ms" using ns(2) [of l] dist by (simp_all add: ms)
    have sb: "sign_bits cl ns = sign_bits cl ms @ [cl l < 0]" using l by (simp add: ms)
    have half: "num_of (sign_bits cl ks) div 2 = num_of (sign_bits cl ms)"
      unfolding n(2) sb num_of_snoc by (simp add: bin_of_def)
    have w: "write_signs False (s, num_of (sign_bits cl ks)) = encodeBinsEP (num_of (sign_bits cl ms)) (length ms)"
      using True half by (simp add: write_signs_def hidden_def c_def n(1) ms ifW_def)
    have sum: "(\<Sum>k\<leftarrow>ks. \<bar>cl k\<bar>) = (\<Sum>k\<leftarrow>ms. \<bar>cl k\<bar>) + \<bar>cl l\<bar>"
    proof -
      have "(\<Sum>k\<leftarrow>ks. \<bar>cl k\<bar>) = (\<Sum>k\<leftarrow>ns. \<bar>cl k\<bar>)" by (simp add: ns_def sum_nonzero)
      then show ?thesis by (simp add: ms)
    qed
    let ?G = "\<lambda>k. if k \<in> set ms then cl k else F k"
    have at: "spread scan ?G ! blockPos c l = \<bar>cl l\<bar>" using spread_at [OF fc l(1), of ?G] l by simp
    have v: "(if odd ((\<Sum>k\<leftarrow>ms. \<bar>cl k\<bar>) + \<bar>cl l\<bar>) then - \<bar>cl l\<bar> else \<bar>cl l\<bar>) = cl l"
    proof -
      have "odd ((\<Sum>k\<leftarrow>ms. \<bar>cl k\<bar>) + \<bar>cl l\<bar>) = (cl l < 0)"
        using par True unfolding hidden_def c_def sum ns_def [symmetric] by (simp add: ms)
      then show ?thesis by simp
    qed
    have chk: "check_coeff_conformance c (cl l) q = q" for q :: "(int list \<times> int list) bin_parser"
      using rng [OF l(1)] by (simp add: check_coeff_conformance_def checkP_def checkE_def fun_eq_iff)
    have G: "?G(l := cl l) = (\<lambda>k. if k \<in> set ks then cl k else F k)"
      unfolding same by (auto simp: fun_eq_iff ms)
    have m: "(if hideSign c (p_firstNZPos s) (p_lastNZPos s) then p_numNonZero s - 1 else p_numNonZero s) = length ms"
      using True by (simp add: hidden_def n(1) ms)
    have rest: "length ms < p_numNonZero s" by (simp add: n(1) ms)
    have tk: "take (length ms) (map (blockPos c) (ms @ [l])) = map (blockPos c) ms" "map (blockPos c) (ms @ [l]) ! length ms = blockPos c l"
      by (simp_all add: nth_append)
    have "agrees 536 (write_signs False (s, num_of (sign_bits cl ks)))
      (read_signs False sign (s, map (blockPos c) ns, spread scan F))
      (spread scan (\<lambda>k. if k \<in> set ks then cl k else F k), sign[blockPos c l := SIGN_PRED_HIDDEN])"
      unfolding w read_signs_def prod.case Let_def c_def [symmetric] m if_P [OF rest] if_False ms tk
    proof (rule agrees_last [OF read_some_signs [OF fc rng]])
      show "distinct ms" "\<And>k. k \<in> set ms \<Longrightarrow> k < length scan \<and> cl k \<noteq> 0 \<and> F k = \<bar>cl k\<bar>" "length ms \<le> 31"
        using dist ns(2,3) by (auto simp: ms)
    qed (simp_all only: prod.case at v chk spread_set [OF fc l(1)] G)
    then show ?thesis unfolding c_def ns_def by blast
  qed
qed


section \<open>A group\<close>

lemma agrees_group_body:
  assumes fc: "block_fits c scan w h" and sm: "small_levels c cl"
    and rng: "\<And>k. k < length scan \<Longrightarrow> minCoeff c \<le> cl k \<and> cl k \<le> maxCoeff c"
    and gs: "group_scan c = rev [a..<b]" "b \<le> length scan" "b - a \<le> 16" "b \<le> Suc (m_scanPosLast c)"
    and f: "\<And>j. b \<le> j \<Longrightarrow> j < length scan \<Longrightarrow> f j = cl j" "\<And>j. a \<le> j \<Longrightarrow> j < b \<Longrightarrow> f j = 0"
    and inf: "\<And>k. a \<le> k \<Longrightarrow> k < b \<Longrightarrow> int k = infer_sig_pos c \<Longrightarrow> (\<And>j. k < j \<Longrightarrow> j < b \<Longrightarrow> cl j = 0) \<Longrightarrow> cl k \<noteq> 0"
    and nq: "\<not> m_bSignPredQualified c" and par: "hidden_parity c cl (rev [a..<b])"
    and wr: "write_group tab (spread scan cl) c st = (ws, c', st')"
  shows "\<exists>sign'. agrees 536 (seqW ws) (read_group tab (spread scan f, sign) c st)
      (c', st', spread scan (\<lambda>j. if a \<le> j \<and> j < b then cl j else f j), sign')" and "alike c c'" and "m_sigCoeffGroupFlag c' = m_sigCoeffGroupFlag c"
proof -
  obtain ws1 rest s1 sp1 where w1: "write_pass1 (group_scan c) (spread scan cl) tab (infer_sig_pos c) (start_pass c st, num_of []) = (ws1, rest, s1, sp1)"
    by (metis prod_cases4)
  define ks where "ks = rev [a..<b]"
  have ks: "sorted_wrt (>) ks" "set ks = {a..<b}" "length ks = b - a"
    unfolding ks_def by (simp_all add: sorted_wrt_rev)
  have inks: "k \<in> set ks \<longleftrightarrow> a \<le> k \<and> k < b" for k by (simp add: ks(2))
  have len: "length ks < 32" using ks(3) gs(3) by simp
  have "\<exists>dn. ks = dn @ rest
      \<and> agrees 536 (seqW ws1) (read_pass1 ks tab (infer_sig_pos c) (start_pass c st, [], spread scan f))
          (rest, s1, [] @ map (blockPos (p_cctx (start_pass c st))) (filter (\<lambda>k. cl k \<noteq> 0) dn),
           spread scan (\<lambda>k. if k \<in> set dn then capped (cl k) else f k))
      \<and> sp1 = num_of ([] @ sign_bits cl dn) \<and> same_block (p_cctx (start_pass c st)) (p_cctx s1)
      \<and> p_numNonZero s1 = p_numNonZero (start_pass c st) + count cl dn
      \<and> (p_firstNZPos s1, p_lastNZPos s1) = track cl dn (p_firstNZPos (start_pass c st), p_lastNZPos (start_pass c st))"
  proof (rule agrees_pass1 [OF w1 [unfolded gs(1), folded ks_def]])
    show "block_fits (p_cctx (start_pass c st)) scan w h" using fc by (simp add: start_pass_def)
    show "sorted_wrt (>) ks" by (fact ks)
    show "k < length scan \<and> k \<le> m_scanPosLast (p_cctx (start_pass c st)) \<and> f k = 0" if "k \<in> set ks" for k
      using that gs(2,4) f(2) [of k] by (simp add: inks start_pass_def)
    show "capped (f j) = capped (cl j)" if "k \<in> set ks" "k < j" "j < length scan" "j \<notin> set ks" for k j
      using that f(1) [of j] by (simp add: inks)
    show "cl k \<noteq> 0" if "ks = pre @ k # post" "int k = infer_sig_pos c" "\<forall>j\<in>set pre. cl j = 0" for pre k post
    proof (rule inf [OF _ _ that(2)])
      have "k \<in> set ks" using that(1) by simp
      then show "a \<le> k" "k < b" by (simp_all add: inks)
      show "cl j = 0" if j: "k < j" "j < b" for j
      proof -
        have "j \<in> set (pre @ k # post)" using \<open>a \<le> k\<close> j \<open>ks = pre @ k # post\<close> [symmetric] by (simp add: inks)
        moreover have "j \<notin> set post" using ks(1) j \<open>ks = pre @ k # post\<close> by (auto simp: sorted_wrt_append)
        ultimately show ?thesis using \<open>\<forall>j\<in>set pre. cl j = 0\<close> j by auto
      qed
    qed
    show "length ([] :: bool list) + length ks < 32" using len by simp
  qed simp
  then obtain dn where d: "ks = dn @ rest"
      "agrees 536 (seqW ws1) (read_pass1 ks tab (infer_sig_pos c) (start_pass c st, [], spread scan f))
          (rest, s1, map (blockPos c) (nonzero_of cl dn), spread scan (\<lambda>k. if k \<in> set dn then capped (cl k) else f k))"
      "sp1 = num_of (sign_bits cl dn)" "same_block c (p_cctx s1)" "p_numNonZero s1 = count cl dn"
      "(p_firstNZPos s1, p_lastNZPos s1) = track cl dn (int (first_sig_pos c), -1)"
    by (auto simp: start_pass_def nonzero_of_def)
  define c1 where "c1 = (p_cctx s1)\<lparr>regBinLimit := p_remRegBins s1\<rparr>"
  have al: "alike c c1" unfolding c1_def by (rule alike_same_block [OF d(4)])
  note al' = alike_fields [OF al]
  have sm1: "small_levels c1 cl" "block_fits c1 scan w h" "blockPos c1 = blockPos c"
    using al' sm fc by (simp_all add: small_levels_def)
  define s2 where "s2 = s1\<lparr>p_cctx := c1\<rparr>"
  obtain ws3 s3 sp3 where w3: "write_pass3 rest (spread scan cl) tab (s2, sp1) = (ws3, s3, sp3)" by (metis prod_cases3)
  have tk: "take (length (group_scan c) - length rest) (group_scan c) = dn" using d(1) by (simp add: gs(1) ks_def [symmetric])
  let ?f1 = "\<lambda>k. if k \<in> set dn then capped (cl k) else f k"
  let ?f2 = "\<lambda>k. if k \<in> set dn then \<bar>cl k\<bar> else ?f1 k"
  let ?f3 = "\<lambda>k. if k \<in> set rest then \<bar>cl k\<bar> else ?f2 k"
  have srt: "sorted_wrt (>) dn" "sorted_wrt (>) rest" "\<And>j k. j \<in> set dn \<Longrightarrow> k \<in> set rest \<Longrightarrow> k < j"
    using ks(1) d(1) by (auto simp: sorted_wrt_append)
  have mem: "a \<le> k \<and> k < b \<longleftrightarrow> k \<in> set dn \<or> k \<in> set rest" for k using inks [of k] d(1) by auto
  have bl: "k < length scan" if "k < b" for k using that gs(2) by simp
  have out: "j \<in> set dn \<or> j \<in> set rest \<or> f j = cl j" if "k \<in> set dn \<or> k \<in> set rest" "k < j" "j < length scan" for k j
    using that f(1) [of j] mem [of k] mem [of j] by (cases "j < b") auto
  have p2: "agrees 536 (seqW (write_pass2 dn (spread scan cl) c1)) (read_pass2 dn c1 (spread scan ?f1)) (spread scan ?f2)"
  proof (rule agrees_pass2 [OF sm1(2,1) srt(1)])
    show "k < length scan \<and> ?f1 k = capped (cl k)" if "k \<in> set dn" for k using that mem [of k] bl by simp
    show "\<bar>?f1 j\<bar> = \<bar>cl j\<bar>" if "k \<in> set dn" "k < j" "j < length scan" "j \<notin> set dn" for k j
      using that out [of k j] srt(3) [of k j] by auto
  qed
  have p3: "agrees 536 (seqW ws3) (read_pass3 rest tab (s2, map (blockPos c) (nonzero_of cl dn), spread scan ?f2))
          (s3, map (blockPos c) (nonzero_of cl dn) @ map (blockPos (p_cctx s2)) (filter (\<lambda>k. cl k \<noteq> 0) rest), spread scan ?f3)
      \<and> sp3 = num_of (sign_bits cl dn @ sign_bits cl rest) \<and> p_cctx s3 = p_cctx s2
      \<and> p_numNonZero s3 = p_numNonZero s2 + count cl rest
      \<and> (p_firstNZPos s3, p_lastNZPos s3) = track cl rest (p_firstNZPos s2, p_lastNZPos s2)"
  proof (rule agrees_pass3 [OF w3 [unfolded d(3)]])
    show "small_levels (p_cctx s2) cl" "block_fits (p_cctx s2) scan w h" using sm1 by (simp_all add: s2_def)
    show "sorted_wrt (>) rest" by (fact srt)
    show "k < length scan \<and> ?f2 k = 0" if "k \<in> set rest" for k
      using that mem [of k] bl f(2) srt(3) [of k k] by auto
    show "\<bar>?f2 j\<bar> = \<bar>cl j\<bar>" if "k \<in> set rest" "k < j" "j < length scan" "j \<notin> set rest" for k j
      using that out [of k j] by auto
    have "length (sign_bits cl dn) \<le> length dn" by (simp add: count_sign_bits count_def)
    then show "length (sign_bits cl dn) + length rest < 32" using len d(1) by simp
  qed
  have blk: "map (blockPos c) (nonzero_of cl dn) @ map (blockPos (p_cctx s2)) (filter (\<lambda>k. cl k \<noteq> 0) rest)
      = map (blockPos (p_cctx s3)) (nonzero_of cl ks)"
    using p3 sm1(3) d(1) by (simp add: s2_def nonzero_of_def)
  have c3: "p_cctx s3 = c1" using p3 by (simp add: s2_def)
  have tr: "(p_firstNZPos s3, p_lastNZPos s3) = track cl ks (int (first_sig_pos c), -1)"
    using p3 d(6) by (simp add: s2_def d(1))
  have "\<exists>sign'. agrees 536 (write_signs False (s3, num_of (sign_bits cl ks)))
      (read_signs False sign (s3, map (blockPos (p_cctx s3)) (nonzero_of cl ks), spread scan ?f3))
      (spread scan (\<lambda>k. if k \<in> set ks then cl k else ?f3 k), sign')"
  proof (rule agrees_signs)
    show "block_fits (p_cctx s3) scan w h" using sm1 by (simp add: c3)
    show "minCoeff (p_cctx s3) \<le> cl k \<and> cl k \<le> maxCoeff (p_cctx s3)" if "k < length scan" for k
      using rng [OF that] by (simp add: c3 al')
    show "sorted_wrt (>) ks" by (fact ks)
    show "k < length scan \<and> ?f3 k = \<bar>cl k\<bar>" if "k \<in> set ks" for k
      using that inks [of k] mem [of k] bl by auto
    show "length ks \<le> 31" using len by simp
    show "p_numNonZero s3 = count cl ks" using p3 d(5) by (simp add: s2_def d(1))
    show "(p_firstNZPos s3, p_lastNZPos s3) = track cl ks (int (first_sig_pos c), - 1)" by (fact tr)
    show "odd (\<Sum>k\<leftarrow>ks. \<bar>cl k\<bar>) = (cl (last (nonzero_of cl ks)) < 0)" if "hideSign (p_cctx s3) (p_firstNZPos s3) (p_lastNZPos s3)"
    proof (cases "nonzero_of cl ks = []")
      case True
      then show ?thesis using that tr track_range [OF ks(1), of cl "int (first_sig_pos c)"]
        by (simp add: hideSign_def SBH_THRESHOLD_def)
    next
      case False
      then have "hideSign c1 (int (last (nonzero_of cl ks))) (int (hd (nonzero_of cl ks)))"
        using that tr track_range [OF ks(1), of cl "int (first_sig_pos c)"] by (simp add: c3)
      moreover have "hidden_parity c1 cl ks" using par by (simp add: al' ks_def)
      ultimately show ?thesis using False by (simp add: hidden_parity_def Let_def sum_nonzero)
    qed
  qed
  then obtain sign' where p4: "agrees 536 (write_signs False (s3, sp3))
      (read_signs False sign (s3, map (blockPos c) (nonzero_of cl dn) @ map (blockPos (p_cctx s2)) (filter (\<lambda>k. cl k \<noteq> 0) rest), spread scan ?f3))
      (spread scan (\<lambda>k. if k \<in> set ks then cl k else ?f3 k), sign')"
    using p3 unfolding blk d(1) by (auto simp: )
  have nsp: "sp_qualified c = False" using nq by (simp add: sp_qualified_def Let_def)
  have e: "ws = ws1 @ write_pass2 dn (spread scan cl) c1 @ ws3 @ [write_signs False (s3, sp3)]" "c' = c1" "st' = p_state s3"
    using wr w1 w3 unfolding write_group_def Let_def nsp by (auto simp: c1_def [symmetric] s2_def [symmetric] tk)
  have fin: "(\<lambda>k. if k \<in> set ks then cl k else ?f3 k) = (\<lambda>j. if a \<le> j \<and> j < b then cl j else f j)"
    using mem inks by (auto simp: fun_eq_iff)
  have "agrees 536 (seqW ws) (read_group tab (spread scan f, sign) c st)
      (c', st', spread scan (\<lambda>j. if a \<le> j \<and> j < b then cl j else f j), sign')"
    unfolding e read_group_def fst_conv snd_conv nsp seqW_append gs(1) ks_def [symmetric]
    apply (rule agrees_then [OF d(2)])
    apply (simp only: prod.case Let_def c1_def [symmetric] s2_def [symmetric] tk [unfolded gs(1), folded ks_def])
    apply (rule agrees_then [OF p2])
    apply (rule agrees_then [OF conjunct1 [OF p3]])
    apply (simp only: prod.case seqW.simps thenW_skip)
    apply (rule agrees_last [OF p4])
    apply (simp only: prod.case fin)
    done
  then show "\<exists>sign'. agrees 536 (seqW ws) (read_group tab (spread scan f, sign) c st)
      (c', st', spread scan (\<lambda>j. if a \<le> j \<and> j < b then cl j else f j), sign')" by blast
  show "alike c c'" using al e by simp
  have "m_sigCoeffGroupFlag (p_cctx s1) = m_sigCoeffGroupFlag c" by (subst d(4) [unfolded same_block_def]) simp
  then show "m_sigCoeffGroupFlag c' = m_sigCoeffGroupFlag c" by (simp add: e c1_def)
qed

end

end
