(* ===== verification/ResidualRoundtrip.thy ===== *)
theory ResidualRoundtrip
  imports ResidualGroups
begin

unbundle bit_operations_syntax

text \<open>
  The groups of a block one after the other, the position of the last coefficient, and the round trip of
  \<open>residual_coding\<close>: on the arithmetic coder the reader gets the coefficients that the writer had.
\<close>

section \<open>The groups of a block\<close>

definition groups_ok :: "CoeffCodingContext \<Rightarrow> nat \<Rightarrow> bool" where
  "groups_ok c n \<longleftrightarrow> distinct (map scan_idx (m_scanCG c)) \<and> length (m_scanCG c) = n
     \<and> (\<forall>k<n. scan_idx (m_scanCG c ! k) < MLS_GRP_NUM) \<and> 1 \<le> m_widthInGroups c \<and> log2CGSize c \<le> 4"

definition last_group :: "CoeffCodingContext \<Rightarrow> nat" where
  "last_group c = m_scanPosLast c div 2 ^ log2CGSize c"

definition group_range :: "CoeffCodingContext \<Rightarrow> nat \<Rightarrow> nat list" where
  "group_range c n = rev [n * 2 ^ log2CGSize c..<min (Suc n * 2 ^ log2CGSize c) (Suc (m_scanPosLast c))]"

definition levels_above :: "CoeffCodingContext \<Rightarrow> (nat \<Rightarrow> int) \<Rightarrow> nat \<Rightarrow> nat \<Rightarrow> int" where
  "levels_above c cl n = (\<lambda>j. if n * 2 ^ log2CGSize c \<le> j then cl j else 0)"

abbreviation group_place :: "CoeffCodingContext \<Rightarrow> nat \<Rightarrow> nat" where
  "group_place c n \<equiv> scan_idx (m_scanCG c ! n)"

lemma alike_groups:
  "alike c c' \<Longrightarrow> groups_ok c' = groups_ok c" "alike c c' \<Longrightarrow> last_group c' = last_group c"
  "alike c c' \<Longrightarrow> group_range c' = group_range c" "alike c c' \<Longrightarrow> levels_above c' = levels_above c"
  by (simp_all add: groups_ok_def last_group_def group_range_def levels_above_def alike_fields fun_eq_iff)

lemma initSubblock_fields:
  "m_subSetId (initSubblock n b c) = n" "m_minSubPos (initSubblock n b c) = n * 2 ^ log2CGSize c"
  "m_maxSubPos (initSubblock n b c) = n * 2 ^ log2CGSize c + 2 ^ log2CGSize c - 1"
  "m_subSetPos (initSubblock n b c) = group_place c n" "m_scanPosLast (initSubblock n b c) = m_scanPosLast c"
  "log2CGSize (initSubblock n b c) = log2CGSize c"
  "m_sigCoeffGroupFlag (initSubblock n b c)
    = (if b then (m_sigCoeffGroupFlag c)[group_place c n := True] else m_sigCoeffGroupFlag c)"
  by (simp_all add: initSubblock_def Let_def log2CGSize_def)

lemma init_set:
  assumes "1 \<le> m_widthInGroups c"
  shows "setSigGroup (initSubblock n False c) = initSubblock n True c"
    and "m_sigGroupCtxId (initSubblock n False c) = m_sigGroupCtxId (initSubblock n True c)"
  using assms by (simp_all add: setSigGroup_def initSubblock_def Let_def)

lemma group_ctx_less: "m_chType c < 2 \<Longrightarrow> m_sigGroupCtxId (initSubblock n b c) < 536"
  by (simp add: initSubblock_def Let_def CoeffCtx_less bin_of_def)

lemma group_shape:
  assumes "m_subSetId c = n" "m_minSubPos c = n * 2 ^ log2CGSize c"
    "m_maxSubPos c = n * 2 ^ log2CGSize c + 2 ^ log2CGSize c - 1" "n \<le> last_group c"
  shows "isLast c \<longleftrightarrow> n = last_group c" "group_scan c = group_range c n"
    "infer_sig_pos c = (if n = last_group c then int (m_scanPosLast c) else if n = 0 then -1 else int (n * 2 ^ log2CGSize c))"
proof -
  define g :: nat where "g = 2 ^ log2CGSize c"
  have g: "0 < g" by (simp add: g_def)
  define L where "L = m_scanPosLast c"
  have K: "last_group c = L div g" by (simp add: last_group_def L_def g_def)
  have L: "L div g * g \<le> L" "L < Suc (L div g) * g" using g dividend_less_div_times [of g L] by simp_all
  show last: "isLast c \<longleftrightarrow> n = last_group c" using assms(1) by (auto simp: isLast_def last_group_def)
  have before: "n * g + g \<le> L" if "n \<noteq> last_group c"
  proof -
    have "Suc n \<le> L div g" using assms(4) that by (simp add: K)
    then have "Suc n * g \<le> L div g * g" by (rule mult_right_mono) simp
    then show ?thesis using L(1) unfolding mult_Suc by linarith
  qed
  show "group_scan c = group_range c n"
  proof (cases "n = last_group c")
    case True
    then have "min (Suc n * g) (Suc L) = Suc L" using L(2) by (simp add: K)
    then show ?thesis using True last assms(2) unfolding group_scan_def group_range_def first_sig_pos_def
      by (simp add: g_def [symmetric] L_def [symmetric])
  next
    case False
    then have "min (Suc n * g) (Suc L) = Suc n * g" using before by simp
    moreover have "Suc (n * g + g - 1) = Suc n * g" using g by simp
    ultimately show ?thesis using False last assms(2,3) unfolding group_scan_def group_range_def first_sig_pos_def
      by (simp add: g_def [symmetric] L_def [symmetric])
  qed
  show "infer_sig_pos c = (if n = last_group c then int (m_scanPosLast c) else if n = 0 then -1 else int (n * 2 ^ log2CGSize c))"
  proof (cases "n = last_group c")
    case True
    then show ?thesis using last by (simp add: infer_sig_pos_def first_sig_pos_def)
  next
    case False
    then have "m_maxSubPos c \<noteq> m_scanPosLast c" using before g assms(3) by (simp add: g_def [symmetric] L_def [symmetric])
    then show ?thesis using False last assms(1,2) by (simp add: infer_sig_pos_def first_sig_pos_def isNotFirst_def)
  qed
qed

context level_order
begin

definition block_ok :: "CoeffCodingContext \<Rightarrow> (nat \<Rightarrow> int) \<Rightarrow> bool" where
  "block_ok c cl \<longleftrightarrow> block_fits c scan w h \<and> small_levels c cl
     \<and> (\<forall>k<length scan. minCoeff c \<le> cl k \<and> cl k \<le> maxCoeff c) \<and> \<not> m_bSignPredQualified c
     \<and> m_scanPosLast c < length scan \<and> cl (m_scanPosLast c) \<noteq> 0
     \<and> (\<forall>j. m_scanPosLast c < j \<and> j < length scan \<longrightarrow> cl j = 0)
     \<and> (\<forall>n\<le>last_group c. hidden_parity c cl (group_range c n))"

lemma alike_block_ok: "alike c c' \<Longrightarrow> block_ok c' cl = block_ok c cl"
  by (simp add: block_ok_def small_levels_def alike_fields alike_groups)

lemma agrees_coded_group:
  assumes ok: "block_ok c cl" and g4: "log2CGSize c \<le> 4" and n: "n \<le> last_group c" 
    and id: "m_subSetId c = n" "m_minSubPos c = n * 2 ^ log2CGSize c"
      "m_maxSubPos c = n * 2 ^ log2CGSize c + 2 ^ log2CGSize c - 1"
    and some: "0 < n \<Longrightarrow> \<exists>k\<in>set (group_range c n). cl k \<noteq> 0"
    and wr: "write_group tab (spread scan cl) c st = (ws, c', st')"
  shows "\<exists>sign'. agrees 536 (seqW ws) (read_group tab (spread scan (levels_above c cl (Suc n)), sign) c st)
      (c', st', spread scan (levels_above c cl n), sign')" and "alike c c'" and "m_sigCoeffGroupFlag c' = m_sigCoeffGroupFlag c"
proof -
  define g :: nat where "g = 2 ^ log2CGSize c"
  have "g \<le> 2 ^ 4" unfolding g_def using g4 by (intro power_increasing) simp_all
  then have g: "0 < g" "g \<le> 16" by (simp_all add: g_def)
  define L where "L = m_scanPosLast c"
  define b where "b = min (Suc n * g) (Suc L)"
  note shape = group_shape [OF id n]
  have gs: "group_scan c = rev [n * g..<b]" using shape(2) by (simp add: group_range_def g_def b_def L_def)
  have fc: "block_fits c scan w h" "small_levels c cl" "\<not> m_bSignPredQualified c" "L < length scan" "cl L \<noteq> 0"
    and rng: "\<And>k. k < length scan \<Longrightarrow> minCoeff c \<le> cl k \<and> cl k \<le> maxCoeff c"
    and z: "\<And>j. L < j \<Longrightarrow> j < length scan \<Longrightarrow> cl j = 0"
    and par: "hidden_parity c cl (rev [n * g..<b])"
    using ok n unfolding block_ok_def group_range_def g_def [symmetric] L_def [symmetric] b_def by blast+
  have Kg: "last_group c = L div g" by (simp add: last_group_def L_def g_def)
  have nL: "n * g \<le> L"
  proof -
    have "n * g \<le> L div g * g" using n by (intro mult_right_mono) (simp_all add: Kg)
    also have "\<dots> \<le> L" by simp
    finally show ?thesis .
  qed
  have inf: "cl k \<noteq> 0" if "n * g \<le> k" "k < b" "int k = infer_sig_pos c" "\<And>j. k < j \<Longrightarrow> j < b \<Longrightarrow> cl j = 0" for k
  proof (cases "n = last_group c")
    case True
    then have "k = L" using that(3) shape(3) by (simp add: L_def)
    then show ?thesis using fc by simp
  next
    case False
    then have "0 < n" using that(3) shape(3) by (cases "n = 0") simp_all
    then have "int k = int (n * g)" using that(3) shape(3) False
      by (simp del: of_nat_mult of_nat_power of_nat_eq_iff add: g_def)
    then have "k = n * g" by (simp only: of_nat_eq_iff)
    obtain j where "n * g \<le> j" "j < b" "cl j \<noteq> 0"
      using some [OF \<open>0 < n\<close>] by (auto simp: group_range_def g_def b_def L_def)
    then show ?thesis using that(4) [of j] \<open>k = n * g\<close> by (cases "j = k") auto
  qed
  have f1: "levels_above c cl (Suc n) j = cl j" if "b \<le> j" "j < length scan" for j
    using that z [of j] by (auto simp: levels_above_def g_def [symmetric] b_def)
  have f2: "levels_above c cl (Suc n) j = 0" if "n * g \<le> j" "j < b" for j
    using that by (auto simp: levels_above_def g_def [symmetric] b_def)
  have fin: "spread scan (\<lambda>j. if n * g \<le> j \<and> j < b then cl j else levels_above c cl (Suc n) j) = spread scan (levels_above c cl n)"
  proof (rule spread_cong)
    fix j assume j: "j < length scan"
    show "(if n * g \<le> j \<and> j < b then cl j else levels_above c cl (Suc n) j) = levels_above c cl n j"
      using f1 [OF _ j] nL by (cases "b \<le> j") (auto simp: levels_above_def g_def [symmetric] b_def)
  qed
  have sz: "b \<le> length scan" "b - n * g \<le> 16" "b \<le> Suc (m_scanPosLast c)" using fc(4) g by (auto simp: b_def L_def)
  note body = agrees_group_body [OF fc(1,2) _ gs sz _ _ _ fc(3) par wr, of "levels_above c cl (Suc n)"]
  have "\<exists>sign'. agrees 536 (seqW ws) (read_group tab (spread scan (levels_above c cl (Suc n)), sign) c st)
      (c', st', spread scan (\<lambda>j. if n * g \<le> j \<and> j < b then cl j else levels_above c cl (Suc n) j), sign')"
    by (rule body(1)) (fact rng f1 f2 inf)+
  then show "\<exists>sign'. agrees 536 (seqW ws) (read_group tab (spread scan (levels_above c cl (Suc n)), sign) c st)
      (c', st', spread scan (levels_above c cl n), sign')" unfolding fin .
  show "alike c c'" by (rule body(2)) (fact rng f1 f2 inf)+
  show "m_sigCoeffGroupFlag c' = m_sigCoeffGroupFlag c" by (rule body(3)) (fact rng f1 f2 inf)+
qed


lemma agrees_subblock:
  assumes ok: "block_ok c cl" and G: "groups_ok c G" and n: "n \<le> last_group c" "last_group c < G"
    and F: "length (m_sigCoeffGroupFlag c) = MLS_GRP_NUM" "\<not> m_sigCoeffGroupFlag c ! group_place c n"
    and gf: "gf \<longleftrightarrow> (\<exists>k\<in>set (group_range c n). cl k \<noteq> 0)"
    and wr: "write_residual_coding_subblock (spread scan cl) tab (initSubblock n gf c) st = (ws, c', st')"
  shows "\<exists>sign' c''. agrees 536 (seqW ws)
        (read_residual_coding_subblock tab (initSubblock n False c) st (spread scan (levels_above c cl (Suc n)), sign))
        (c'', st', spread scan (levels_above c cl n), sign') \<and> alike c c''
      \<and> (0 < n \<longrightarrow> c'' = c' \<and> m_sigCoeffGroupFlag c''
          = (if gf then (m_sigCoeffGroupFlag c)[group_place c n := True] else m_sigCoeffGroupFlag c))"
proof -
  have w1: "1 \<le> m_widthInGroups c" and p: "group_place c n < MLS_GRP_NUM" and g4: "log2CGSize c \<le> 4"
    using G n by (auto simp: groups_ok_def)
  define cF cT where "cF = initSubblock n False c" and "cT = initSubblock n True c"
  note eT = init_set [OF w1, of n, folded cF_def cT_def]
  have al: "alike c cT" "alike c cF" unfolding cT_def cF_def by (rule alike_initSubblock)+
  have sub: "m_subSetId (initSubblock n b c) = n" "m_minSubPos (initSubblock n b c) = n * 2 ^ log2CGSize (initSubblock n b c)"
    "m_maxSubPos (initSubblock n b c) = n * 2 ^ log2CGSize (initSubblock n b c) + 2 ^ log2CGSize (initSubblock n b c) - 1"
    "n \<le> last_group (initSubblock n b c)" for b
    using n by (simp_all add: initSubblock_fields last_group_def)
  have lastb: "isLast (initSubblock n b c) \<longleftrightarrow> n = last_group c" for b
    using group_shape(1) [OF sub] by (simp add: last_group_def initSubblock_fields)
  have notfirst: "isNotFirst (initSubblock n b c) \<longleftrightarrow> n \<noteq> 0" for b by (simp add: isNotFirst_def initSubblock_fields)
  have sig: "isSigGroup (initSubblock n b c) = b" for b
    using F p by (simp add: isSigGroup_def initSubblock_fields)
  have minz: "m_minSubPos cF = 0 \<longleftrightarrow> n = 0" by (simp add: cF_def initSubblock_fields)
  have ch: "m_chType c < 2" using ok by (simp add: block_ok_def block_fits_def)
  define id where "id = m_sigGroupCtxId cT"
  have id: "m_sigGroupCtxId (initSubblock n b c) = id" for b using eT(2) by (cases b) (simp_all add: id_def cT_def cF_def)
  have id_less: "id < 536" unfolding id_def cT_def by (rule group_ctx_less [OF ch])
  have idF: "m_sigGroupCtxId cF = id" unfolding cF_def by (rule id)
  have okT: "block_ok cT cl" using ok alike_block_ok [OF al(1)] by simp
  have lastF: "gf" if "n = last_group c"
  proof -
    have "m_scanPosLast c \<in> set (group_range c n)" unfolding group_range_def that last_group_def
      using dividend_less_div_times [of "2 ^ log2CGSize c" "m_scanPosLast c"] by simp
    then show ?thesis using ok gf by (auto simp: block_ok_def)
  qed
  show ?thesis
  proof (cases "n \<noteq> 0 \<and> \<not> gf")
    case True
    then have nl: "n \<noteq> last_group c" using lastF by auto
    have ws: "ws = [encodeBin 0 id]" "c' = cF" "st' = st"
      using wr True nl unfolding write_subblock_group Let_def lastb notfirst sig id by (auto simp: cF_def bin_of_def)
    have z: "spread scan (levels_above c cl (Suc n)) = spread scan (levels_above c cl n)"
    proof (rule spread_cong)
      fix j assume "j < length scan"
      then have "cl j = 0" if "n * 2 ^ log2CGSize c \<le> j" "j < Suc n * 2 ^ log2CGSize c"
        using True gf ok that by (cases "j \<le> m_scanPosLast c") (auto simp: group_range_def block_ok_def)
      then show "levels_above c cl (Suc n) j = levels_above c cl n j" by (auto simp: levels_above_def)
    qed
    have "agrees 536 (seqW ws) (read_residual_coding_subblock tab cF st (spread scan (levels_above c cl (Suc n)), sign))
        (cF, st', spread scan (levels_above c cl n), sign)"
      unfolding read_subblock_group ws z cF_def lastb idF [unfolded cF_def] using nl True minz [unfolded cF_def]
      by (simp add: agrees_last [OF agrees_bin [OF id_less]])
    then show ?thesis using True al(2) ws by (intro exI) (auto simp: cF_def initSubblock_fields)
  next
    case False
    define cW where "cW = initSubblock n gf c"
    obtain ws1 c1 where g: "write_group tab (spread scan cl) cW st = (ws1, c1, st')"
      and ws: "ws = (if n \<noteq> last_group c \<and> n \<noteq> 0 then [encodeBin 1 id] else []) @ ws1" and c1: "c' = c1"
      using wr False unfolding write_subblock_group Let_def lastb notfirst sig id
      by (auto simp: cW_def bin_of_def split: prod.splits)
    obtain c2 where gT: "write_group tab (spread scan cl) cT st = (ws1, c2, st')" and c2: "gf \<Longrightarrow> c2 = c1"
    proof (cases gf)
      case True
      then show ?thesis using g that by (simp add: cW_def cT_def)
    next
      case F: False
      have "cT = cF\<lparr>m_sigCoeffGroupFlag := m_sigCoeffGroupFlag cT\<rparr>" unfolding eT(1) [symmetric] by (simp add: setSigGroup_def)
      then show ?thesis using flags_group [OF g, of "m_sigCoeffGroupFlag cT"] F that by (auto simp: cW_def cF_def)
    qed
    have some: "\<exists>k\<in>set (group_range cT n). cl k \<noteq> 0" if "0 < n"
      using that False gf by (auto simp: alike_groups(3) [OF al(1)])
    have log: "log2CGSize cT \<le> 4" using g4 by (simp add: cT_def initSubblock_fields)
    note body = agrees_coded_group [OF okT log sub(4,1,2,3) [of True, folded cT_def] some gT,
        unfolded alike_groups(4) [OF al(1)]]
    obtain sign' where s: "agrees 536 (seqW ws1) (read_group tab (spread scan (levels_above c cl (Suc n)), sign) cT st)
        (c2, st', spread scan (levels_above c cl n), sign')" using body(1) by blast
    have "agrees 536 (seqW ws) (read_residual_coding_subblock tab cF st (spread scan (levels_above c cl (Suc n)), sign))
        (c2, st', spread scan (levels_above c cl n), sign')"
    proof (cases "n \<noteq> last_group c \<and> n \<noteq> 0")
      case True
      have b1: "agrees 536 (encodeBin 1 id) (decodeBin id) 1" by (rule agrees_bin [OF id_less]) simp
      have cond: "(isLast cF \<or> m_minSubPos cF = 0) = False" using True minz lastb [of False, folded cF_def] by auto
      show ?thesis
        unfolding read_subblock_group ws idF eT(1) if_P [OF True] append.simps cond if_False
        by (rule agrees_bind [OF b1]) (use s in simp)
    next
      case F: False
      then have "isLast cF \<or> m_minSubPos cF = 0" using minz lastb [of False, folded cF_def] by auto
      then show ?thesis unfolding read_subblock_group ws eT(1) if_not_P [OF F] append.simps using s by simp
    qed
    moreover have "alike c c2" by (rule alike_trans [OF al(1) body(2)])
    moreover have "0 < n \<longrightarrow> c2 = c' \<and> m_sigCoeffGroupFlag c2
          = (if gf then (m_sigCoeffGroupFlag c)[group_place c n := True] else m_sigCoeffGroupFlag c)"
      using False c1 c2 body(3) by (auto simp: cT_def initSubblock_fields)
    ultimately show ?thesis unfolding cF_def by blast
  qed
qed


lemma agrees_subblocks:
  "block_ok c cl \<Longrightarrow> groups_ok c G \<Longrightarrow> last_group c < G \<Longrightarrow> n \<le> Suc (last_group c) \<Longrightarrow>
    length (m_sigCoeffGroupFlag c) = MLS_GRP_NUM \<Longrightarrow> (\<And>k. k < n \<Longrightarrow> \<not> m_sigCoeffGroupFlag c ! group_place c k) \<Longrightarrow>
    (\<And>k. k < n \<Longrightarrow> gfs ! k \<longleftrightarrow> (\<exists>j\<in>set (group_range c k). cl j \<noteq> 0)) \<Longrightarrow>
    \<exists>sign'. agrees 536 (seqW (write_subblocks (rev [0..<n]) gfs (spread scan cl) tab c st))
      (read_subblocks (rev [0..<n]) tab c st (spread scan (levels_above c cl n), sign)) (spread scan cl, sign')"
proof (induction n arbitrary: c st sign)
  case 0
  have "levels_above c cl 0 = cl" by (simp add: levels_above_def)
  then show ?case by (intro exI [of _ sign]) (simp add: agrees_skip)
next
  case (Suc n)
  have n: "n \<le> last_group c" and nG: "n < G" using Suc.prems(3,4) by simp_all
  have up: "rev [0..<Suc n] = n # rev [0..<n]" by simp
  obtain ws1 c1 st1 where w1: "write_residual_coding_subblock (spread scan cl) tab (initSubblock n (gfs ! n) c) st = (ws1, c1, st1)"
    by (metis prod_cases3)
  obtain sign1 c2 where step: "agrees 536 (seqW ws1)
        (read_residual_coding_subblock tab (initSubblock n False c) st (spread scan (levels_above c cl (Suc n)), sign))
        (c2, st1, spread scan (levels_above c cl n), sign1)" "alike c c2"
      "0 < n \<longrightarrow> c2 = c1 \<and> m_sigCoeffGroupFlag c2
          = (if gfs ! n then (m_sigCoeffGroupFlag c)[group_place c n := True] else m_sigCoeffGroupFlag c)"
    using agrees_subblock [OF Suc.prems(1,2) n Suc.prems(3,5) Suc.prems(6) [OF lessI] Suc.prems(7) [OF lessI] w1] by metis
  have "\<exists>sign'. agrees 536 (seqW (write_subblocks (rev [0..<n]) gfs (spread scan cl) tab c1 st1))
      (read_subblocks (rev [0..<n]) tab c2 st1 (spread scan (levels_above c cl n), sign1)) (spread scan cl, sign')"
  proof (cases "n = 0")
    case True
    then show ?thesis by (intro exI [of _ sign1]) (simp add: levels_above_def agrees_skip)
  next
    case False
    then have c2: "c2 = c1" and fl: "m_sigCoeffGroupFlag c2
        = (if gfs ! n then (m_sigCoeffGroupFlag c)[group_place c n := True] else m_sigCoeffGroupFlag c)"
      using step(3) by blast+
    note al = alike_fields [OF step(2)] alike_groups [OF step(2)]
    have "\<exists>sign'. agrees 536 (seqW (write_subblocks (rev [0..<n]) gfs (spread scan cl) tab c2 st1))
      (read_subblocks (rev [0..<n]) tab c2 st1 (spread scan (levels_above c2 cl n), sign1)) (spread scan cl, sign')"
    proof (rule Suc.IH)
      show "block_ok c2 cl" using Suc.prems(1) alike_block_ok [OF step(2)] by simp
      show "groups_ok c2 G" "last_group c2 < G" "n \<le> Suc (last_group c2)" using Suc.prems(2-4) by (simp_all add: al)
      show "length (m_sigCoeffGroupFlag c2) = MLS_GRP_NUM" using Suc.prems(5) by (simp add: fl)
      show "\<not> m_sigCoeffGroupFlag c2 ! group_place c2 k" if "k < n" for k
      proof -
        have "group_place c k \<noteq> group_place c n"
          using Suc.prems(2) that nG by (auto simp: groups_ok_def distinct_conv_nth)
        then show ?thesis using Suc.prems(6) [of k] that by (simp add: fl al)
      qed
      show "gfs ! k \<longleftrightarrow> (\<exists>j\<in>set (group_range c2 k). cl j \<noteq> 0)" if "k < n" for k
        using Suc.prems(7) [of k] that by (simp add: al)
    qed
    then show ?thesis unfolding c2 [symmetric] by (simp add: al)
  qed
  then obtain sign' where rest: "agrees 536 (seqW (write_subblocks (rev [0..<n]) gfs (spread scan cl) tab c1 st1))
      (read_subblocks (rev [0..<n]) tab c2 st1 (spread scan (levels_above c cl n), sign1)) (spread scan cl, sign')" by blast
  have "agrees 536 (seqW (write_subblocks (rev [0..<Suc n]) gfs (spread scan cl) tab c st))
      (read_subblocks (rev [0..<Suc n]) tab c st (spread scan (levels_above c cl (Suc n)), sign)) (spread scan cl, sign')"
    unfolding up write_subblocks.simps read_subblocks.simps Let_def w1 prod.case seqW_append
    by (rule agrees_then [OF step(1)]) (simp add: rest)
  then show ?case by blast
qed

subsection \<open>Finding the last position\<close>

lemma find_last:
  assumes c: "block_fits c scan w h" and L: "L < length scan"
  shows "find_scan_pos c (blockPos c L) = L"
proof -
  have m: "maxNumCoeff c = length scan" using c scan_length by (simp add: maxNumCoeff_def block_fits_def)
  have inj: "blockPos c L = blockPos c k \<longleftrightarrow> k = L" if "k < length scan" for k
  proof -
    have "blockPos c x = scan_idx (scan ! x)" for x using c by (simp add: blockPos_def block_fits_def)
    then show ?thesis using rank_idx [OF that] rank_idx [OF L] by metis
  qed
  have "filter (\<lambda>p. blockPos c L = blockPos c p) [0..<m] = (if L < m then [L] else [])" if "m \<le> length scan" for m
    using that by (induction m) (auto simp: inj)
  then show ?thesis using L unfolding find_scan_pos_def m by (cases "L < length scan - 1") simp_all
qed

text \<open>The loop over the block finds the last coefficient and the groups that have one.\<close>

lemma scan_significant_spec:
  assumes c: "block_fits c scan w h"
  shows "m \<le> length scan \<Longrightarrow> m \<le> MLS_GRP_NUM * 2 ^ log2CGSize c \<Longrightarrow> r = fold (\<lambda>scanPos (scanPosLast, sigGroupFlags).
         if spread scan cl ! blockPos c scanPos \<noteq> 0
         then (int scanPos, sigGroupFlags[scanPos div 2 ^ log2CGSize c := True])
         else (scanPosLast, sigGroupFlags)) [0..<m] (-1, replicate MLS_GRP_NUM False) \<Longrightarrow>
      length (snd r) = MLS_GRP_NUM
    \<and> (\<forall>n<MLS_GRP_NUM. snd r ! n \<longleftrightarrow> (\<exists>k<m. k div 2 ^ log2CGSize c = n \<and> cl k \<noteq> 0))
    \<and> (if \<forall>k<m. cl k = 0 then fst r = -1
       else \<exists>L<m. fst r = int L \<and> cl L \<noteq> 0 \<and> (\<forall>k. L < k \<and> k < m \<longrightarrow> cl k = 0))"
proof (induction m arbitrary: r)
  case (Suc m)
  obtain p fs where r0: "fold (\<lambda>scanPos (scanPosLast, sigGroupFlags).
         if spread scan cl ! blockPos c scanPos \<noteq> 0
         then (int scanPos, sigGroupFlags[scanPos div 2 ^ log2CGSize c := True])
         else (scanPosLast, sigGroupFlags)) [0..<m] (-1, replicate MLS_GRP_NUM False) = (p, fs)" by fastforce
  have m: "m \<le> length scan" "m \<le> MLS_GRP_NUM * 2 ^ log2CGSize c" using Suc.prems(1,2) by simp_all
  note I = Suc.IH [OF m r0 [symmetric], unfolded fst_conv snd_conv]
  have IH: "length fs = MLS_GRP_NUM" "\<And>n. n < MLS_GRP_NUM \<Longrightarrow> fs ! n \<longleftrightarrow> (\<exists>k<m. k div 2 ^ log2CGSize c = n \<and> cl k \<noteq> 0)"
    "if \<forall>k<m. cl k = 0 then p = -1 else \<exists>L<m. p = int L \<and> cl L \<noteq> 0 \<and> (\<forall>k. L < k \<and> k < m \<longrightarrow> cl k = 0)"
    using I [THEN conjunct1] I [THEN conjunct2, THEN conjunct1] I [THEN conjunct2, THEN conjunct2] by blast+
  have at: "spread scan cl ! blockPos c m = cl m" using Suc.prems by (intro spread_at [OF c]) simp
  have r: "r = (if cl m \<noteq> 0 then (int m, fs[m div 2 ^ log2CGSize c := True]) else (p, fs))"
    using Suc.prems(3) r0 by (simp add: at)
  have "m div 2 ^ log2CGSize c < MLS_GRP_NUM" using Suc.prems(2) by (simp add: div_less_iff_less_mult)
  show ?case
  proof (cases "cl m = 0")
    case True
    then have e: "(\<forall>k<Suc m. cl k = 0) \<longleftrightarrow> (\<forall>k<m. cl k = 0)" "\<And>n. (\<exists>k<Suc m. k div 2 ^ log2CGSize c = n \<and> cl k \<noteq> 0)
        \<longleftrightarrow> (\<exists>k<m. k div 2 ^ log2CGSize c = n \<and> cl k \<noteq> 0)"
      by (auto simp: less_Suc_eq)
    have "(\<forall>k. L < k \<and> k < Suc m \<longrightarrow> cl k = 0) \<longleftrightarrow> (\<forall>k. L < k \<and> k < m \<longrightarrow> cl k = 0)" for L
      using True by (auto simp: less_Suc_eq)
    then show ?thesis using IH True unfolding r e by (auto split: if_splits)
  next
    case False
    then have e: "\<not> (\<forall>k<Suc m. cl k = 0)" by auto
    have "fs[m div 2 ^ log2CGSize c := True] ! n \<longleftrightarrow> (\<exists>k<Suc m. k div 2 ^ log2CGSize c = n \<and> cl k \<noteq> 0)" if "n < MLS_GRP_NUM" for n
      using IH(1,2) that False by (cases "m div 2 ^ log2CGSize c = n") (auto simp: less_Suc_eq)
    then show ?thesis using IH(1) False e unfolding r by auto
  qed
qed simp

end


section \<open>The position of the last coefficient\<close>

text \<open>The class of a position and its bits inside the class.\<close>

definition position_class :: "nat \<Rightarrow> nat \<Rightarrow> bool" where
  "position_class pos idx \<longleftrightarrow> idx \<le> 15 \<and> (if idx \<le> 3 then idx = pos
     else g_uiMinInGroup ! idx \<le> pos \<and> pos < g_uiMinInGroup ! idx + 2 ^ ((idx - 2) div 2))"

lemma run_then:
  assumes "\<And>pos. a \<le> pos \<Longrightarrow> pos < b \<Longrightarrow> P pos k" and "list_all2 P [b..<c] xs" and "b = a + n" "b \<le> c"
  shows "list_all2 P [a..<c] (replicate n k @ xs)"
proof -
  have "list_all2 P [a..<b] (replicate n k)" using assms(1,3) by (simp add: list_all2_conv_all_nth)
  moreover have "[a..<c] = [a..<b] @ [b..<c]" using upt_add_eq_append [of a b "c - b"] assms(3,4) by simp
  ultimately show ?thesis using assms(2) by (simp add: list_all2_appendI)
qed

lemma classes: "list_all2 position_class [0..<256] g_uiGroupIdx"
proof -
  have four: "list_all2 position_class [0..<4] [0, 1, 2, 3]" by (simp add: upt_rec position_class_def)
  have "(4 :: nat) + 252 = 256" by simp
  then have up: "[0..<256] = [0..<4] @ [4..<256 :: nat]" using upt_add_eq_append [OF le0, of 4 252] by (simp only:)
  have first: "list_all2 position_class [4..<256] ys \<Longrightarrow> list_all2 position_class [0..<256] ([0, 1, 2, 3] @ ys)" for ys
    unfolding up by (rule list_all2_appendI [OF four])
  have last: "list_all2 position_class [192..<256] (replicate 64 15)"
  proof -
    have "list_all2 position_class [192..<256] (replicate 64 15 @ [])"
      by (rule run_then [where b = 256]) (simp_all add: position_class_def g_uiMinInGroup_def)
    then show ?thesis by (simp only: append_Nil2)
  qed
  show ?thesis
    unfolding g_uiGroupIdx_def append_assoc
    apply (rule first)
    apply (rule run_then [where b = 6]) prefer 2
     apply (rule run_then [where b = 8]) prefer 2
      apply (rule run_then [where b = 12]) prefer 2
       apply (rule run_then [where b = 16]) prefer 2
        apply (rule run_then [where b = 24]) prefer 2
         apply (rule run_then [where b = 32]) prefer 2
          apply (rule run_then [where b = 48]) prefer 2
           apply (rule run_then [where b = 64]) prefer 2
            apply (rule run_then [where b = 96]) prefer 2
             apply (rule run_then [where b = 128]) prefer 2
              apply (rule run_then [where b = 192]) prefer 2
               apply (rule last)
    by (simp_all add: position_class_def g_uiMinInGroup_def)
qed

lemma class_of: "pos < 256 \<Longrightarrow> position_class pos (g_uiGroupIdx ! pos)"
  using list_all2_nthD [OF classes, of pos] by simp

lemma class_mono: "p \<le> q \<Longrightarrow> q < 256 \<Longrightarrow> g_uiGroupIdx ! p \<le> g_uiGroupIdx ! q"
proof -
  have "sorted g_uiGroupIdx" by (simp add: g_uiGroupIdx_def sorted_append)
  moreover have "length g_uiGroupIdx = 256" using list_all2_lengthD [OF classes] by simp
  ultimately show "p \<le> q \<Longrightarrow> q < 256 \<Longrightarrow> g_uiGroupIdx ! p \<le> g_uiGroupIdx ! q" by (simp add: sorted_nth_mono)
qed

lemma agrees_bits:
  "t + 2 ^ n \<le> 2 ^ 32 \<Longrightarrow> agrees N (seqW (map (\<lambda>i. encodeBinEP (v div 2 ^ i mod 2)) (rev [0..<n])))
     (foldP (\<lambda>i uiTemp. bindP decodeBinEP (\<lambda>bin. returnP (add32 uiTemp (shl32 bin i)))) (rev [0..<n]) t) (t + v mod 2 ^ n)"
proof (induction n arbitrary: t)
  case (Suc n)
  define b where "b = v div 2 ^ n mod 2"
  have b1: "b \<le> 1" by (simp add: b_def)
  have "t + 2 * 2 ^ n \<le> 2 ^ 32" "b = 0 \<or> b = 1" using Suc.prems b1 by auto
  then have lt: "b * 2 ^ n < 2 ^ 32" "t + b * 2 ^ n + 2 ^ n \<le> 2 ^ 32" using two_power_pos [of n] by auto
  have lt3: "t + b * 2 ^ n < 2 ^ 32" using lt(2) two_power_pos [of n] by linarith
  have ad: "add32 t (shl32 b n) = t + b * 2 ^ n" using shl32_eq [OF lt(1)] lt3 by (simp add: add32_eq)
  have v: "v mod 2 ^ Suc n = b * 2 ^ n + v mod 2 ^ n"
    using mod_mult2_eq [of v "2 ^ n" 2] by (simp add: b_def mult.commute)
  have 1: "agrees N (encodeBinEP b) (bindP decodeBinEP (\<lambda>bin. returnP (add32 t (shl32 bin n)))) (t + b * 2 ^ n)"
    using agrees_bind_return [OF agrees_binEP [OF b1], of N "\<lambda>bin. add32 t (shl32 bin n)"] by (simp only: ad)
  have up: "rev [0..<Suc n] = n # rev [0..<n]" by simp
  show ?case
    unfolding up list.map foldP.simps b_def [symmetric] v add.assoc [symmetric]
    by (rule agrees_bind [OF 1]) (rule Suc.IH [OF lt(2)])
qed (simp add: agrees_skip)

lemma agrees_suffix:
  assumes "pos < 256"
  shows "agrees N (write_suffix (g_uiGroupIdx ! pos) pos) (read_suffix (g_uiGroupIdx ! pos)) pos"
proof -
  define idx where "idx = g_uiGroupIdx ! pos"
  have c: "position_class pos idx" unfolding idx_def by (rule class_of [OF assms])
  show ?thesis
  proof (cases "idx > 3")
    case True
    define n where "n = (idx - 2) div 2"
    have "idx \<le> 15" using c by (simp add: position_class_def)
    then have "n \<le> 13 div 2" unfolding n_def by (intro div_le_mono) simp
    then have n: "n \<le> 6" by simp
    have p: "g_uiMinInGroup ! idx \<le> pos" "pos - g_uiMinInGroup ! idx < 2 ^ n"
      using c True by (auto simp: position_class_def n_def)
    have "(2 :: nat) ^ n \<le> 2 ^ 6" using n by (intro power_increasing) simp_all
    then have t: "0 + (2 :: nat) ^ n \<le> 2 ^ 32" by simp
    have s: "add32 (g_uiMinInGroup ! idx) (0 + (pos - g_uiMinInGroup ! idx) mod 2 ^ n) = pos"
      using p assms by (simp add: add32_eq)
    show ?thesis
      unfolding idx_def [symmetric] write_suffix_def read_suffix_def if_P [OF True] n_def [symmetric]
      by (rule agrees_last [OF agrees_bits [OF t]]) (simp only: s)
  next
    case False
    then show ?thesis using c unfolding idx_def [symmetric] write_suffix_def read_suffix_def
      by (simp add: position_class_def agrees_skip)
  qed
qed

text \<open>The contexts of the last position. Those of wide chroma blocks reach into the next set.\<close>

lemma next_set: "Suc k < length ss \<Longrightarrow> fst (layout 0 ss ! Suc k) = fst (layout 0 ss ! k) + length (hd (ss ! k))"
  by (simp add: layout_nth take_Suc_conv_app_nth)

lemma chroma_last_ctx: "CoeffCtx (LastX 1) (3 + inc) = CoeffCtx (LastY 0) inc" "CoeffCtx (LastY 1) 3 < 536"
proof -
  have "fst (layout 0 all_sets ! Suc 73) = fst (layout 0 all_sets ! 73) + 3" "fst (layout 0 all_sets ! Suc 75) = fst (layout 0 all_sets ! 75) + 3"
    using next_set [of 73 all_sets] next_set [of 75 all_sets] by (simp_all add: number_of_sets coeff_sets_each)
  moreover have "fst (layout 0 all_sets ! 76) + 0 < 536"
    using ctx_bound [of 76 all_sets 0] number_of_contexts by (simp add: number_of_sets coeff_sets_each)
  ultimately show "CoeffCtx (LastX 1) (3 + inc) = CoeffCtx (LastY 0) inc" "CoeffCtx (LastY 1) 3 < 536"
    by (simp_all add: CoeffCtx_def)
qed


section \<open>The coding context of a transform block\<close>

definition block_sizes :: "TransformUnit \<Rightarrow> nat \<Rightarrow> nat \<Rightarrow> bool" where
  "block_sizes tu a b \<longleftrightarrow> a \<le> 8 \<and> b \<le> 8 \<and> tu_width tu = 2 ^ a \<and> tu_height tu = 2 ^ b \<and> tu_chType tu < 2"

lemma small_groups:
  "a \<le> 8 \<Longrightarrow> b \<le> 8 \<Longrightarrow> fst (g_log2SbbSize ! a ! b) + snd (g_log2SbbSize ! a ! b) \<le> 4
    \<and> a - fst (g_log2SbbSize ! a ! b) + (b - snd (g_log2SbbSize ! a ! b)) \<le> 12"
proof -
  have "\<forall>a\<in>set [0..<9]. \<forall>b\<in>set [0..<9]. fst (g_log2SbbSize ! a ! b) + snd (g_log2SbbSize ! a ! b) \<le> 4
    \<and> a - fst (g_log2SbbSize ! a ! b) + (b - snd (g_log2SbbSize ! a ! b)) \<le> 12"
    by code_simp
  then show "a \<le> 8 \<Longrightarrow> b \<le> 8 \<Longrightarrow> fst (g_log2SbbSize ! a ! b) + snd (g_log2SbbSize ! a ! b) \<le> 4
    \<and> a - fst (g_log2SbbSize ! a ! b) + (b - snd (g_log2SbbSize ! a ! b)) \<le> 12" by simp
qed

lemma tu_block:
  assumes "block_sizes tu a b"
  shows "block_fits (tu_cctx tu) (block_scan_table a b) (2 ^ min a 8) (2 ^ min b 8)"
    and "\<exists>G. groups_ok (tu_cctx tu) G \<and> G * 2 ^ log2CGSize (tu_cctx tu) = length (block_scan_table a b) \<and> G \<le> MLS_GRP_NUM"
    and "m_sigCoeffGroupFlag (tu_cctx tu) = replicate MLS_GRP_NUM False"
    and "m_maxLastPosX (tu_cctx tu) = g_uiGroupIdx ! (2 ^ a - 1)" "m_maxLastPosY (tu_cctx tu) = g_uiGroupIdx ! (2 ^ b - 1)"
proof -
  have ab: "a \<le> 8" "b \<le> 8" "tu_width tu = 2 ^ a" "tu_height tu = 2 ^ b" "tu_chType tu < 2" using assms by (auto simp: block_sizes_def)
  obtain cw ch where cg: "g_log2SbbSize ! a ! b = (cw, ch)" by fastforce
  have fit: "cw \<le> a" "ch \<le> b" "cw + ch \<le> 4" "a - cw + (b - ch) \<le> 12"
    using groups_fit [OF ab(1,2)] small_groups [OF ab(1,2)] by (simp_all add: cg)
  have "(2 :: nat) ^ a \<le> 2 ^ 8" "(2 :: nat) ^ b \<le> 2 ^ 8"
    using power_increasing [OF ab(1), of "2 :: nat"] power_increasing [OF ab(2), of "2 :: nat"] by simp_all
  then have th: "min JVET_C0024_ZERO_OUT_TH (2 ^ a) = 2 ^ a" "min JVET_C0024_ZERO_OUT_TH (2 ^ b) = 2 ^ b"
    by (simp_all add: JVET_C0024_ZERO_OUT_TH_def)
  have d: "(2 :: nat) ^ a div 2 ^ cw = 2 ^ (a - cw)" "(2 :: nat) ^ b div 2 ^ ch = 2 ^ (b - ch)"
    using fit by (simp_all add: power_diff)
  define c where "c = tu_cctx tu"
  note new = tu_cctx_def new_CoeffCodingContext_def Let_def prod.case ab(3,4) log2Sbb_pow [OF ab(1,2)] cg th d
  have c: "m_scan c = block_scan_table a b" "m_width c = 2 ^ a" "m_height c = 2 ^ b" "m_chType c = tu_chType tu"
    "m_scanCG c = g_scanOrder SCAN_UNGROUPED SCAN_DIAG (2 ^ (a - cw)) (2 ^ (b - ch))" "m_widthInGroups c = 2 ^ (a - cw)"
    "log2CGSize c = cw + ch"
    "m_sigCoeffGroupFlag c = replicate MLS_GRP_NUM False"
    "m_maxLastPosX c = g_uiGroupIdx ! (2 ^ a - 1)" "m_maxLastPosY c = g_uiGroupIdx ! (2 ^ b - 1)"
    unfolding c_def new log2CGSize_def by (simp_all add: block_scan_table_def ab min_absorb1)
  show "block_fits (tu_cctx tu) (block_scan_table a b) (2 ^ min a 8) (2 ^ min b 8)"
    using c ab by (simp add: c_def block_fits_def)
  show "m_sigCoeffGroupFlag (tu_cctx tu) = replicate MLS_GRP_NUM False" using c by (simp add: c_def)
  show "m_maxLastPosX (tu_cctx tu) = g_uiGroupIdx ! (2 ^ a - 1)" "m_maxLastPosY (tu_cctx tu) = g_uiGroupIdx ! (2 ^ b - 1)"
    using c by (simp_all add: c_def)
  have le: "a - cw \<le> 8" "b - ch \<le> 8" using ab by simp_all
  define G :: nat where "G = 2 ^ (a - cw) * 2 ^ (b - ch)"
  have "G \<le> 2 ^ 12" unfolding G_def power_add [symmetric] using fit(4) by (intro power_increasing) simp_all
  then have G: "G \<le> MLS_GRP_NUM" by (simp add: MLS_GRP_NUM_def)
  have cov: "distinct (map scan_idx (m_scanCG c)) \<and> set (map scan_idx (m_scanCG c)) = {..<G}"
    unfolding c table_eq [OF le] G_def by (rule covers_raster [OF table_covers [OF le]])
  have len: "length (m_scanCG c) = G" unfolding c G_def by (rule table_length [OF le])
  have lt: "scan_idx (m_scanCG c ! k) < MLS_GRP_NUM" if "k < G" for k
  proof -
    have "scan_idx (m_scanCG c ! k) \<in> set (map scan_idx (m_scanCG c))" using that len by simp
    then show ?thesis using cov G by simp
  qed
  have ok: "groups_ok c G" using cov len lt fit(3) c(6,7) by (simp add: groups_ok_def)
  have "G * 2 ^ (cw + ch) = 2 ^ a * 2 ^ b"
    unfolding G_def using fit(1,2) by (simp add: power_add [symmetric])
  then have "G * 2 ^ log2CGSize c = length (block_scan_table a b)"
    using block_levels.scan_length [of a b] ab by (simp add: c(7) min_absorb1)
  then show "\<exists>G. groups_ok (tu_cctx tu) G \<and> G * 2 ^ log2CGSize (tu_cctx tu) = length (block_scan_table a b) \<and> G \<le> MLS_GRP_NUM"
    using ok G unfolding c_def by blast
qed

lemma last_ctx_less:
  assumes "block_sizes tu a b"
  shows "i < m_maxLastPosX (tu_cctx tu) \<Longrightarrow> lastXCtxId ((tu_cctx tu)\<lparr>m_scanPosLast := L\<rparr>) i < 536"
    and "i < m_maxLastPosY (tu_cctx tu) \<Longrightarrow> lastYCtxId ((tu_cctx tu)\<lparr>m_scanPosLast := L\<rparr>) i < 536"
proof -
  have ab: "a \<le> 8" "b \<le> 8" "tu_width tu = 2 ^ a" "tu_height tu = 2 ^ b" "tu_chType tu < 2" using assms by (auto simp: block_sizes_def)
  define big where "big = (\<lambda>k. g_uiGroupIdx ! (2 ^ k - 1))"
  have bigs: "map big [0..<9] = [0, 1, 3, 5, 7, 9, 11, 13, 15]" by (simp add: upt_rec big_def g_uiGroupIdx_def nth_append)
  have luma: "prefix_ctx ! k + i div 2 ^ ((k + 1) div 4) < 36" if "k \<le> 8" "i < big k" for k i
  proof -
    have "list_all (\<lambda>k. prefix_ctx ! k + (map big [0..<9] ! k - 1) div 2 ^ ((k + 1) div 4) < 36) [0..<9]"
      unfolding bigs by (simp add: upt_rec prefix_ctx_def)
    then have "prefix_ctx ! k + (map big [0..<9] ! k - 1) div 2 ^ ((k + 1) div 4) < 36" using that(1) by (auto simp: list_all_iff)
    moreover have "map big [0..<9] ! k = big k" using that(1) by (simp del: upt_Suc)
    moreover have "i div 2 ^ ((k + 1) div 4) \<le> (big k - 1) div 2 ^ ((k + 1) div 4)" using that(2) by (intro div_le_mono) simp
    ultimately show ?thesis by simp
  qed
  have chroma: "i div 2 ^ nat (Clip3 0 2 (int (2 ^ k div 8))) \<le> 3" if "k \<le> 8" "i < big k" for k i
  proof -
    have "list_all (\<lambda>k. (map big [0..<9] ! k - 1) div 2 ^ nat (Clip3 0 2 (int (2 ^ k div 8))) \<le> 3) [0..<9]"
      unfolding bigs by (simp add: upt_rec Clip3_def)
    then have "(map big [0..<9] ! k - 1) div 2 ^ nat (Clip3 0 2 (int (2 ^ k div 8))) \<le> 3" using that(1) by (auto simp: list_all_iff)
    moreover have "map big [0..<9] ! k = big k" using that(1) by (simp del: upt_Suc)
    moreover have "i div 2 ^ nat (Clip3 0 2 (int (2 ^ k div 8))) \<le> (big k - 1) div 2 ^ nat (Clip3 0 2 (int (2 ^ k div 8)))"
      using that(2) by (intro div_le_mono) simp
    ultimately show ?thesis by simp
  qed
  have set3: "CoeffCtx (LastX 1) j < 536 \<and> CoeffCtx (LastY 1) j < 536" if "j \<le> 3" for j
  proof (cases "j = 3")
    case True
    have "CoeffCtx (LastY 0) 0 < 536" by (rule CoeffCtx_less) simp_all
    then show ?thesis using True chroma_last_ctx(1) [of 0] chroma_last_ctx(2) by simp
  next
    case False
    then show ?thesis using that CoeffCtx_less [of "LastX 1" j] CoeffCtx_less [of "LastY 1" j] by simp
  qed
  note fl = floorLog2_pow [of a] floorLog2_pow [of b]
  have cases: "tu_chType tu = 0 \<or> tu_chType tu = 1" using ab(5) by auto
  show "lastXCtxId ((tu_cctx tu)\<lparr>m_scanPosLast := L\<rparr>) i < 536" if "i < m_maxLastPosX (tu_cctx tu)"
  proof -
    have i: "i < big a" using that tu_block(4) [OF assms] by (simp add: big_def)
    show ?thesis using cases
    proof
      assume "tu_chType tu = 0"
      then have "lastXCtxId ((tu_cctx tu)\<lparr>m_scanPosLast := L\<rparr>) i = CoeffCtx (LastX 0) (prefix_ctx ! a + i div 2 ^ ((a + 1) div 4))"
        using fl ab by (simp add: lastXCtxId_def tu_cctx_def new_CoeffCodingContext_def Let_def split_def CHANNEL_TYPE_CHROMA_def)
      then show ?thesis using luma [OF ab(1) i] by (simp add: CoeffCtx_less)
    next
      assume "tu_chType tu = 1"
      then have "lastXCtxId ((tu_cctx tu)\<lparr>m_scanPosLast := L\<rparr>) i = CoeffCtx (LastX 1) (i div 2 ^ nat (Clip3 0 2 (int (2 ^ a div 8))))"
        using ab by (simp add: lastXCtxId_def tu_cctx_def new_CoeffCodingContext_def Let_def split_def CHANNEL_TYPE_CHROMA_def)
      then show ?thesis using set3 [OF chroma [OF ab(1) i]] by simp
    qed
  qed
  show "lastYCtxId ((tu_cctx tu)\<lparr>m_scanPosLast := L\<rparr>) i < 536" if "i < m_maxLastPosY (tu_cctx tu)"
  proof -
    have i: "i < big b" using that tu_block(5) [OF assms] by (simp add: big_def)
    show ?thesis using cases
    proof
      assume "tu_chType tu = 0"
      then have "lastYCtxId ((tu_cctx tu)\<lparr>m_scanPosLast := L\<rparr>) i = CoeffCtx (LastY 0) (prefix_ctx ! b + i div 2 ^ ((b + 1) div 4))"
        using fl ab by (simp add: lastYCtxId_def tu_cctx_def new_CoeffCodingContext_def Let_def split_def CHANNEL_TYPE_CHROMA_def)
      then show ?thesis using luma [OF ab(2) i] by (simp add: CoeffCtx_less)
    next
      assume "tu_chType tu = 1"
      then have "lastYCtxId ((tu_cctx tu)\<lparr>m_scanPosLast := L\<rparr>) i = CoeffCtx (LastY 1) (i div 2 ^ nat (Clip3 0 2 (int (2 ^ b div 8))))"
        using ab by (simp add: lastYCtxId_def tu_cctx_def new_CoeffCodingContext_def Let_def split_def CHANNEL_TYPE_CHROMA_def)
      then show ?thesis using set3 [OF chroma [OF ab(2) i]] by simp
    qed
  qed
qed


lemma agrees_last_position:
  assumes t: "block_sizes tu a b" and L: "L < length (block_scan_table a b)"
  shows "agrees 536 (write_last_sig_coeff ((tu_cctx tu)\<lparr>m_scanPosLast := L\<rparr>))
    (read_last_sig_coeff (tu_cctx tu)) L"
proof -
  define c0 c where "c0 = tu_cctx tu" and "c = c0\<lparr>m_scanPosLast := L\<rparr>"
  have ab: "a \<le> 8" "b \<le> 8" using t by (auto simp: block_sizes_def)
  have fc: "block_fits c (block_scan_table a b) (2 ^ min a 8) (2 ^ min b 8)"
    using tu_block(1) [OF t] by (simp add: c_def c0_def block_fits_def)
  have same: "lastXCtxId c = lastXCtxId c0" "lastYCtxId c = lastYCtxId c0" "m_maxLastPosX c = m_maxLastPosX c0"
    "m_maxLastPosY c = m_maxLastPosY c0" "m_width c = m_width c0" "blockPos c = blockPos c0" "maxNumCoeff c = maxNumCoeff c0"
    by (simp_all add: c_def lastXCtxId_def lastYCtxId_def blockPos_def maxNumCoeff_def fun_eq_iff)
  then have fsame: "find_scan_pos c = find_scan_pos c0" by (simp only: find_scan_pos_def fun_eq_iff simp_thms)
  define blk where "blk = blockPos c L"
  have w: "m_width c = 2 ^ a" using fc ab by (simp add: block_fits_def min_absorb1)
  have "blk < 2 ^ a * 2 ^ b"
    using block_levels.idx_less [OF L] block_levels.scan_length [of a b] fc ab by (simp add: blk_def blockPos_def block_fits_def min_absorb1)
  then have yb: "blk div 2 ^ a < 2 ^ b" by (simp add: div_less_iff_less_mult mult.commute)
  define y where "y = blk div 2 ^ a"
  define x where "x = blk - y * 2 ^ a"
  have x: "x = blk mod 2 ^ a" unfolding x_def y_def by (simp add: minus_div_mult_eq_mod)
  then have "x < 2 ^ a" "y < 2 ^ b" using yb by (simp_all add: y_def)
  then have xy: "x \<le> 2 ^ a - 1" "y \<le> 2 ^ b - 1" by linarith+
  have pos: "x + y * 2 ^ a = blk" unfolding x y_def by (rule mod_div_mult_eq)
  have sz: "2 ^ a - 1 < (256 :: nat)" "2 ^ b - 1 < (256 :: nat)"
    using power_increasing [OF ab(1), of "2 :: nat"] power_increasing [OF ab(2), of "2 :: nat"] by auto
  have X: "agrees 536 (ones_then_zero (\<lambda>i bin. encodeBin bin (lastXCtxId c0 i)) (\<lambda>i. i < g_uiGroupIdx ! x) [0..<m_maxLastPosX c0])
      (count_ones (\<lambda>i. decodeBin (lastXCtxId c0 i)) (m_maxLastPosX c0) 0) (g_uiGroupIdx ! x)"
  proof (rule agrees_ones)
    show "agrees 536 (encodeBin bin (lastXCtxId c0 i)) (decodeBin (lastXCtxId c0 i)) bin" if "i < m_maxLastPosX c0" "bin \<le> 1" for i bin
      using last_ctx_less(1) [OF t, of i L] that same(1) by (intro agrees_bin) (simp_all add: c0_def c_def)
    show "g_uiGroupIdx ! x \<le> m_maxLastPosX c0" using class_mono [OF xy(1) sz(1)] tu_block(4) [OF t] by (simp add: c0_def)
  qed simp_all
  have Y: "agrees 536 (ones_then_zero (\<lambda>i bin. encodeBin bin (lastYCtxId c0 i)) (\<lambda>i. i < g_uiGroupIdx ! y) [0..<m_maxLastPosY c0])
      (count_ones (\<lambda>i. decodeBin (lastYCtxId c0 i)) (m_maxLastPosY c0) 0) (g_uiGroupIdx ! y)"
  proof (rule agrees_ones)
    show "agrees 536 (encodeBin bin (lastYCtxId c0 i)) (decodeBin (lastYCtxId c0 i)) bin" if "i < m_maxLastPosY c0" "bin \<le> 1" for i bin
      using last_ctx_less(2) [OF t, of i L] that same(2) by (intro agrees_bin) (simp_all add: c0_def c_def)
    show "g_uiGroupIdx ! y \<le> m_maxLastPosY c0" using class_mono [OF xy(2) sz(2)] tu_block(5) [OF t] by (simp add: c0_def)
  qed simp_all
  have lt: "x < 256" "y < 256" using xy sz by simp_all
  have fnd: "find_scan_pos c0 (x + y * 2 ^ a) = L"
    using block_levels.find_last [OF fc L] pos by (simp add: blk_def fsame)
  have sp: "m_scanPosLast c = L" by (simp add: c_def)
  show ?thesis
    unfolding c_def [symmetric] c0_def [symmetric] write_last_sig_coeff_def read_last_sig_coeff_def Let_def sp
      blk_def [symmetric] w x_def [symmetric] y_def [symmetric] w [unfolded same] same(1-4)
    by (rule agrees_bind [OF X], rule agrees_bind [OF Y], rule agrees_bind [OF agrees_suffix [OF lt(1)]],
      rule agrees_bind [OF agrees_suffix [OF lt(2)]]) (simp add: fnd agrees_skip)
qed

section \<open>Blocks of coefficients\<close>

definition coded_cctx :: "TransformUnit \<Rightarrow> int list \<Rightarrow> CoeffCodingContext" where
  "coded_cctx tu coeff = (tu_cctx tu)\<lparr>m_scanPosLast := nat (fst (scan_significant (tu_cctx tu) coeff)), regBinLimit := tu_bin_limit tu\<rparr>"

text \<open>Where sign data hiding drops a sign, it is the parity of the levels of its group.\<close>

definition signs_arranged :: "TransformUnit \<Rightarrow> int list \<Rightarrow> bool" where
  "signs_arranged tu coeff \<longleftrightarrow>
     (let c = coded_cctx tu coeff
      in list_all (\<lambda>n. hidden_parity c (\<lambda>k. coeff ! blockPos c k) (group_range c n)) [0..<Suc (last_group c)])"

fun residual_valid :: "nat \<Rightarrow> TransformUnit \<times> CUCtx \<Rightarrow> int list \<times> CUCtx \<Rightarrow> bool" where
  "residual_valid N (tu, u) (coeff, u') \<longleftrightarrow> N = 536 \<and> tu_chType tu < 2
     \<and> tu_width tu \<in> {1, 2, 4, 8, 16, 32, 64, 128, 256} \<and> tu_height tu \<in> {1, 2, 4, 8, 16, 32, 64, 128, 256}
     \<and> 4 \<le> tu_maxLog2TrDynamicRange tu \<and> tu_maxLog2TrDynamicRange tu \<le> 26 \<and> \<not> tu_delayedSignCoding tu
     \<and> length coeff = tu_width tu * tu_height tu \<and> list_ex (\<lambda>x. x \<noteq> 0) coeff
     \<and> list_all (\<lambda>x. - (2 ^ tu_maxLog2TrDynamicRange tu) \<le> x \<and> x < 2 ^ tu_maxLog2TrDynamicRange tu) coeff
     \<and> signs_arranged tu coeff \<and> u' = writer_CUCtx tu coeff u"

definition write_block :: "TransformUnit \<times> CUCtx \<Rightarrow> int list \<times> CUCtx \<Rightarrow> bin_writer" where
  "write_block k v = write_residual_coding (fst k) (fst v)"

definition read_block :: "TransformUnit \<times> CUCtx \<Rightarrow> (int list \<times> CUCtx) bin_parser" where
  "read_block k =
     (let n = tu_width (fst k) * tu_height (fst k)
      in mapP (\<lambda>((coeff, sign), u). (coeff, u)) (read_residual_coding (fst k) (replicate n 0, replicate n 0) (snd k)))"


lemma group_of:
  assumes "0 < (d :: nat)"
  shows "k div d = m \<longleftrightarrow> m * d \<le> k \<and> k < Suc m * d"
proof
  assume "k div d = m"
  then show "m * d \<le> k \<and> k < Suc m * d" using dividend_less_div_times [OF assms, of k] by (auto simp: algebra_simps)
next
  assume "m * d \<le> k \<and> k < Suc m * d"
  then show "k div d = m" by (intro div_nat_eqI) (simp_all add: mult.commute)
qed

lemma size_cases:
  assumes "n \<in> {1, 2, 4, 8, 16, 32, 64, 128, 256 :: nat}"
  shows "\<exists>a\<le>8. n = 2 ^ a"
proof -
  have "n \<in> (\<lambda>a. 2 ^ a) ` {0, 1, 2, 3, 4, 5, 6, 7, 8 :: nat}" using assms by simp
  then obtain a where "n = 2 ^ a" "a \<in> {0, 1, 2, 3, 4, 5, 6, 7, 8}" by (rule imageE)
  then show ?thesis by (intro exI [of _ a]) auto
qed

lemma agrees_residual:
  assumes v: "residual_valid N k v"
  shows "agrees N (write_block k v) (read_block k) v"
proof -
  obtain tu u coeff u' where kv: "k = (tu, u)" "v = (coeff, u')" by fastforce
  have N: "N = 536" and R: "4 \<le> tu_maxLog2TrDynamicRange tu" "tu_maxLog2TrDynamicRange tu \<le> 26"
    and dsc: "\<not> tu_delayedSignCoding tu" and len: "length coeff = tu_width tu * tu_height tu"
    and ex: "\<exists>x\<in>set coeff. x \<noteq> 0"
    and range: "\<And>x. x \<in> set coeff \<Longrightarrow> - (2 ^ tu_maxLog2TrDynamicRange tu) \<le> x \<and> x < 2 ^ tu_maxLog2TrDynamicRange tu"
    and arr: "signs_arranged tu coeff" and u': "u' = writer_CUCtx tu coeff u"
    using v by (auto simp: kv list_ex_iff list_all_iff)
  obtain a b where t: "block_sizes tu a b"
  proof -
    obtain a b where "a \<le> 8" "tu_width tu = 2 ^ a" "b \<le> 8" "tu_height tu = 2 ^ b"
      using v size_cases [of "tu_width tu"] size_cases [of "tu_height tu"] unfolding kv residual_valid.simps by blast
    then show ?thesis using v that [of a b] by (auto simp: kv block_sizes_def)
  qed
  define scan where "scan = block_scan_table a b"
  define c0 where "c0 = tu_cctx tu"
  note fits0 = tu_block(1) [OF t, folded scan_def c0_def]
  obtain G where G: "groups_ok c0 G" "G * 2 ^ log2CGSize c0 = length scan" "G \<le> MLS_GRP_NUM"
    using tu_block(2) [OF t, folded scan_def c0_def] by blast
  have ab: "a \<le> 8" "b \<le> 8" "tu_width tu = 2 ^ a" "tu_height tu = 2 ^ b" using t by (auto simp: block_sizes_def)
  have n: "length scan = tu_width tu * tu_height tu"
    using block_levels.scan_length [of a b] ab by (simp add: scan_def min_absorb1)
  define cl where "cl = (\<lambda>k. coeff ! scan_idx (scan ! k))"
  have co: "coeff = spread scan cl"
    using block_levels.spread_of [of coeff a b] len n by (simp add: scan_def cl_def)
  have mx: "maxNumCoeff c0 = length scan" using fits0 n ab by (simp add: maxNumCoeff_def block_fits_def min_absorb1)
  obtain p gfs where sc: "scan_significant c0 coeff = (p, gfs)" by fastforce
  have spec: "length gfs = MLS_GRP_NUM"
    "\<And>n. n < MLS_GRP_NUM \<Longrightarrow> gfs ! n \<longleftrightarrow> (\<exists>k<length scan. k div 2 ^ log2CGSize c0 = n \<and> cl k \<noteq> 0)"
    "if \<forall>k<length scan. cl k = 0 then p = -1
       else \<exists>L<length scan. p = int L \<and> cl L \<noteq> 0 \<and> (\<forall>k. L < k \<and> k < length scan \<longrightarrow> cl k = 0)"
  proof -
    have "length scan \<le> MLS_GRP_NUM * 2 ^ log2CGSize c0" unfolding G(2) [symmetric] using G(3) by (rule mult_right_mono) simp
    from block_levels.scan_significant_spec [OF fits0 [unfolded scan_def] le_refl this [unfolded scan_def]
        sc [unfolded scan_significant_def mx co scan_def, symmetric]]
    show "length gfs = MLS_GRP_NUM"
      "\<And>n. n < MLS_GRP_NUM \<Longrightarrow> gfs ! n \<longleftrightarrow> (\<exists>k<length scan. k div 2 ^ log2CGSize c0 = n \<and> cl k \<noteq> 0)"
      "if \<forall>k<length scan. cl k = 0 then p = -1
       else \<exists>L<length scan. p = int L \<and> cl L \<noteq> 0 \<and> (\<forall>k. L < k \<and> k < length scan \<longrightarrow> cl k = 0)"
      unfolding fst_conv snd_conv scan_def [symmetric] by blast+
  qed
  have "\<exists>k<length scan. cl k \<noteq> 0"
  proof -
    obtain x where "x \<in> set coeff" "x \<noteq> 0" using ex by blast
    then obtain i where i: "i < length scan" "coeff ! i \<noteq> 0" using len n by (metis in_set_conv_nth)
    then show ?thesis using block_levels.idx_rank [of i a b] unfolding cl_def scan_def by metis
  qed
  then obtain L where L: "L < length scan" "p = int L" "cl L \<noteq> 0" "\<And>k. L < k \<Longrightarrow> k < length scan \<Longrightarrow> cl k = 0"
    using spec(3) by metis
  define c1 where "c1 = c0\<lparr>m_scanPosLast := L\<rparr>"
  define c where "c = c1\<lparr>regBinLimit := tu_bin_limit tu\<rparr>"
  have cc: "coded_cctx tu coeff = c" using sc L(2) by (simp add: coded_cctx_def c_def c1_def c0_def)
  have c_simps: "m_scan c = m_scan c0" "m_width c = m_width c0" "m_height c = m_height c0" "m_chType c = m_chType c0"
    "m_scanCG c = m_scanCG c0" "m_widthInGroups c = m_widthInGroups c0" "log2CGSize c = log2CGSize c0" "m_scanPosLast c = L"
    "m_sigCoeffGroupFlag c = replicate MLS_GRP_NUM False" "blockPos c = blockPos c0"
    using tu_block(3) [OF t] by (simp_all add: c_def c1_def log2CGSize_def blockPos_def c0_def fun_eq_iff)
  have fits: "block_fits c scan (2 ^ min a 8) (2 ^ min b 8)" using fits0 by (simp add: block_fits_def c_simps)
  have rg: "m_maxLog2TrDynamicRange c = tu_maxLog2TrDynamicRange tu" "m_bSignPredQualified c = tu_delayedSignCoding tu"
    by (simp_all add: c_def c1_def c0_def tu_cctx_def new_CoeffCodingContext_def Let_def split_def)
  have Gc: "groups_ok c G" using G(1) by (simp add: groups_ok_def c_simps)
  have cl_range: "- (2 ^ tu_maxLog2TrDynamicRange tu) \<le> cl k \<and> cl k < 2 ^ tu_maxLog2TrDynamicRange tu" if "k < length scan" for k
    using range [of "cl k"] that block_levels.idx_less [of k a b] len n by (simp add: cl_def scan_def)
  have KG: "last_group c < G"
    using L(1) unfolding G(2) [symmetric] by (simp add: last_group_def c_simps div_less_iff_less_mult)
  have sm: "block_levels.small_levels a b c cl"
    unfolding scan_def unfolding block_levels.small_levels_def unfolding scan_def [symmetric] rg
  proof (intro conjI allI impI)
    fix k assume "k < length scan"
    then have "\<bar>cl k\<bar> \<le> 2 ^ tu_maxLog2TrDynamicRange tu" using cl_range [of k] by (intro abs_leI) linarith+
    then show "nat \<bar>cl k\<bar> \<le> 2 ^ tu_maxLog2TrDynamicRange tu" by (simp add: nat_le_iff)
  qed (fact R)+
  have ok: "block_levels.block_ok a b c cl"
    unfolding block_levels.block_ok_def unfolding scan_def [symmetric]
  proof (intro conjI allI impI)
    show "block_fits c scan (2 ^ min a 8) (2 ^ min b 8)" by (fact fits)
    show "minCoeff c \<le> cl k" "cl k \<le> maxCoeff c" if "k < length scan" for k
      using cl_range [OF that] by (simp_all add: minCoeff_def maxCoeff_def rg)
    show "\<not> m_bSignPredQualified c" using dsc by (simp add: rg)
    show "m_scanPosLast c < length scan" "cl (m_scanPosLast c) \<noteq> 0" using L by (simp_all add: c_simps)
    show "cl j = 0" if "m_scanPosLast c < j \<and> j < length scan" for j using L(4) that by (simp add: c_simps)
    show "hidden_parity c cl (group_range c n)" if "n \<le> last_group c" for n
    proof -
      have "cl k = coeff ! blockPos c k" for k using fits by (simp add: cl_def blockPos_def block_fits_def)
      then have "(\<lambda>k. coeff ! blockPos c k) = cl" by (simp add: fun_eq_iff)
      then show ?thesis using arr that unfolding signs_arranged_def Let_def cc by (auto simp: list_all_iff)
    qed
  qed (fact sm [folded scan_def])
  have gf: "gfs ! m \<longleftrightarrow> (\<exists>j\<in>set (group_range c m). cl j \<noteq> 0)" if "m < Suc (last_group c)" for m
  proof -
    have "gfs ! m \<longleftrightarrow> (\<exists>k<length scan. k div 2 ^ log2CGSize c0 = m \<and> cl k \<noteq> 0)" using spec(2) that KG G(3) by simp
    also have "\<dots> \<longleftrightarrow> (\<exists>j\<in>set (group_range c m). cl j \<noteq> 0)"
    proof -
      have e: "k div 2 ^ log2CGSize c0 = m \<longleftrightarrow> m * 2 ^ log2CGSize c0 \<le> k \<and> k < Suc m * 2 ^ log2CGSize c0" for k
        by (rule group_of) simp
      have mem: "j \<in> set (group_range c m) \<longleftrightarrow> j div 2 ^ log2CGSize c0 = m \<and> j \<le> L" for j
        unfolding e by (simp add: group_range_def c_simps less_Suc_eq_le conj_assoc)
      have before: "k \<le> L" if "k < length scan" "cl k \<noteq> 0" for k using L(4) that by (metis not_le)
      have inside: "k < length scan" if "k \<le> L" for k using L(1) that by simp
      show ?thesis unfolding Bex_def mem using before inside by blast
    qed
    finally show ?thesis .
  qed
  define K where "K = last_group c"
  have start: "replicate (tu_width tu * tu_height tu) 0 = spread scan (levels_above c cl (Suc K))"
  proof -
    have "spread scan (levels_above c cl (Suc K)) = spread scan (\<lambda>_. 0)" unfolding scan_def
    proof (rule block_levels.spread_cong)
      fix j assume "j < length (block_scan_table a b)"
      moreover have "L < Suc K * 2 ^ log2CGSize c" unfolding K_def last_group_def c_simps
        using dividend_less_div_times [of "2 ^ log2CGSize c0" L] by simp
      ultimately show "levels_above c cl (Suc K) j = 0" using L(4) [of j] by (simp add: levels_above_def scan_def)
    qed
    also have "\<dots> = replicate (length scan) 0" by (simp add: spread_def map_replicate_const)
    finally show ?thesis by (simp add: n)
  qed
  define zeros where "zeros = replicate (tu_width tu * tu_height tu) (0 :: int)"
  obtain sign' where sub: "agrees 536
      (seqW (write_subblocks (rev [0..<Suc K]) gfs coeff (g_stateTransTab ! tu_depQuantEnabledIdc tu) c 0))
      (read_subblocks (rev [0..<Suc K]) (g_stateTransTab ! tu_depQuantEnabledIdc tu) c 0 (zeros, zeros)) (coeff, sign')"
    using block_levels.agrees_subblocks [OF ok Gc KG le_refl _ _ gf, of "g_stateTransTab ! tu_depQuantEnabledIdc tu" 0 zeros] KG G(1,3)
    unfolding K_def [symmetric] scan_def [symmetric] start [symmetric] co [symmetric] zeros_def [symmetric]
    by (auto simp: c_simps groups_ok_def)
  have last: "agrees 536 (write_last_sig_coeff c1) (read_last_sig_coeff c0) L"
    unfolding c1_def c0_def by (rule agrees_last_position [OF t]) (use L(1) in \<open>simp add: scan_def\<close>)
  have Kdiv: "L div 2 ^ log2CGSize c0 = K" "L div 2 ^ log2CGSize c1 = K" "m_scanPosLast c1 = L"
    unfolding K_def last_group_def c_simps by (simp_all add: c1_def log2CGSize_def)
  have cu: "u' = note_abs_sum tu coeff (note_last_pos tu L u)" using u' sc L(2) by (simp add: writer_CUCtx_def c0_def)
  have w: "write_block k v = seqW (write_last_sig_coeff c1
      # write_subblocks (rev [0..<Suc K]) gfs coeff (g_stateTransTab ! tu_depQuantEnabledIdc tu) c 0)"
    unfolding write_block_def kv fst_conv write_residual_coding_def Let_def c0_def [symmetric] sc prod.case L(2) nat_int
      c1_def [symmetric] c_def [symmetric] Kdiv(2,3) by simp
  have rd: "agrees 536 (seqW (write_last_sig_coeff c1
      # write_subblocks (rev [0..<Suc K]) gfs coeff (g_stateTransTab ! tu_depQuantEnabledIdc tu) c 0))
      (read_residual_coding tu (zeros, zeros) u) ((coeff, sign'), u')"
    unfolding read_residual_coding_def Let_def c0_def [symmetric]
  proof (rule agrees_bind [OF last])
    show "agrees 536 (seqW (write_subblocks (rev [0..<Suc K]) gfs coeff (g_stateTransTab ! tu_depQuantEnabledIdc tu) c 0))
      (bindP (read_subblocks (rev [0..<Suc (L div 2 ^ log2CGSize (c0\<lparr>m_scanPosLast := L\<rparr>))]) (g_stateTransTab ! tu_depQuantEnabledIdc tu)
           (c0\<lparr>m_scanPosLast := L\<rparr>\<lparr>regBinLimit := tu_bin_limit tu\<rparr>) 0 (zeros, zeros))
        (\<lambda>(coeff, sign). returnP ((coeff, sign), note_abs_sum tu coeff (note_last_pos tu L u)))) ((coeff, sign'), u')"
      unfolding c1_def [symmetric] c_def [symmetric] Kdiv(2) by (rule agrees_last [OF sub]) (simp add: cu)
  qed
  show ?thesis
    unfolding N w unfolding read_block_def kv fst_conv snd_conv Let_def zeros_def [symmetric]
    by (rule agrees_mapP [OF rd]) simp
qed

interpretation blocks: bin_codec write_block read_block residual_valid
  by unfold_locales (rule agrees_residual)


text \<open>
  C32: The coefficients of transform blocks survive the arithmetic coder. Any sequence of blocks of 1 to 256
  by 1 to 256 luma or chroma coefficients, with at least one coefficient other than zero and all of them in
  the range of the transform, with any quantiser state machine and with sign data hiding on or off, that is
  written by \<open>residual_coding\<close> between the start and the end of a slice is read back coefficient by
  coefficient: last position, group flags, the three passes with their budget of context coded bins, the
  remainders and the signs, those hidden in the parity of a group included. Writer and reader also learn the
  same facts about the coding unit.
\<close>

theorem residual_coding_roundtrip:
  assumes "list_all2 (residual_valid 536) ks xs" and "models_ok 536 e"
    and "e_Bitstream e = new_out" and "d_Ctx d = e_Ctx e"
  shows "\<exists>e' s d1 d2. thenW (seqW (map2 write_block ks xs)) end_of_slice (enc_start e) = Inr e'
    \<and> writeByteAlignment (e_Bitstream e') = Inr s
    \<and> dec_start (d\<lparr>d_Bitstream := new_in (out_fifo s)\<rparr>) = Inr d1
    \<and> bindP (seqP (map read_block ks)) (\<lambda>ys. bindP terminating_bit (\<lambda>t. returnP (ys, t))) d1
        = Inr ((xs, True), d2)
    \<and> remaining_bytes True d2 = Inr d2"
  using assms by (rule blocks.codeword)

text \<open>Even levels without a sign need no arrangement, so their signs may be hidden.\<close>

lemma scan_significant_less:
  assumes "0 < maxNumCoeff c"
  shows "nat (fst (scan_significant c coeff)) < maxNumCoeff c"
proof -
  have step: "nat (fst (fold (\<lambda>scanPos (scanPosLast, sigGroupFlags).
         if coeff ! blockPos c scanPos \<noteq> 0 then (int scanPos, sigGroupFlags[scanPos div 2 ^ log2CGSize c := True])
         else (scanPosLast, sigGroupFlags)) ks r)) < maxNumCoeff c"
    if "\<And>k. k \<in> set ks \<Longrightarrow> k < maxNumCoeff c" "nat (fst r) < maxNumCoeff c" for ks r
    using that by (induction ks arbitrary: r) (auto simp: split_def)
  show ?thesis unfolding scan_significant_def by (rule step) (use assms in simp_all)
qed

lemma even_levels_arranged:
  assumes lv: "\<forall>x\<in>set coeff. even x \<and> 0 \<le> x" and t: "block_sizes tu a b" and len: "length coeff = tu_width tu * tu_height tu"
  shows "signs_arranged tu coeff"
proof -
  define c where "c = coded_cctx tu coeff"
  define f where "f = (\<lambda>k. coeff ! blockPos c k)"
  have fits: "block_fits c (block_scan_table a b) (2 ^ min a 8) (2 ^ min b 8)"
    using tu_block(1) [OF t] by (simp add: c_def coded_cctx_def block_fits_def)
  have n: "length coeff = length (block_scan_table a b)"
    using t len block_levels.scan_length [of a b] by (auto simp: block_sizes_def min_absorb1)
  have f: "even (f k) \<and> 0 \<le> f k" if "k < length coeff" for k
  proof -
    have "blockPos c k < length coeff" using that fits n block_levels.idx_less [of k a b] by (simp add: blockPos_def block_fits_def)
    then show ?thesis using lv by (simp add: f_def)
  qed
  have "maxNumCoeff (tu_cctx tu) = length coeff"
    using tu_block(1) [OF t] n block_levels.scan_length [of a b] by (simp add: maxNumCoeff_def block_fits_def)
  moreover have "0 < length coeff" using n block_levels.scan_length [of a b] by simp
  ultimately have L: "m_scanPosLast c < length coeff"
    using scan_significant_less [of "tu_cctx tu" coeff] by (simp add: c_def coded_cctx_def)
  have "hidden_parity c f (group_range c m)" for m
  proof -
    have ks: "even (f k) \<and> 0 \<le> f k" if "k \<in> set (nonzero_of f (group_range c m))" for k
      using that L f [of k] by (auto simp: nonzero_of_def group_range_def)
    have "(\<And>k. k \<in> set ns \<Longrightarrow> even (f k)) \<Longrightarrow> even (\<Sum>k\<leftarrow>ns. \<bar>f k\<bar>)" for ns by (induction ns) simp_all
    then have "even (\<Sum>k\<leftarrow>nonzero_of f (group_range c m). \<bar>f k\<bar>)" using ks by blast
    moreover have "\<not> f (last ns) < 0" if "ns = nonzero_of f (group_range c m)" "ns \<noteq> []" for ns
      using ks that by (metis last_in_set not_less)
    ultimately show ?thesis by (simp add: hidden_parity_def Let_def)
  qed
  then show ?thesis by (simp add: signs_arranged_def Let_def c_def f_def list_all_iff)
qed

definition sample_tu :: "nat \<Rightarrow> nat \<Rightarrow> nat \<Rightarrow> bool \<Rightarrow> nat \<Rightarrow> TransformUnit" where
  "sample_tu ch w h hide idc = \<lparr>tu_chType = ch, tu_width = w, tu_height = h, tu_transform_skip = False, tu_signDataHiding = hide,
     tu_depQuantEnabledIdc = idc, tu_maxLog2TrDynamicRange = 15, tu_delayedSignCoding = False\<rparr>"

text \<open>A block with negative levels and a quantiser of eight states, and one whose signs are hidden.\<close>

definition sample_blocks :: "((TransformUnit \<times> CUCtx) \<times> int list) list" where
  "sample_blocks =
    [((sample_tu 0 4 4 False 2, new_CUCtx), [-7, 2, 0, 1, 5, 0, -1, 0, 300, 0, 0, 0, -32768, 0, 0, 0]),
     ((sample_tu 1 8 2 True 0, new_CUCtx), [4, 0, 2, 2, 0, 2, 0, 0, 6, 2, 0, 12, 0, 0, 0, 2])]"

lemma no_hiding: "\<not> tu_signDataHiding tu \<Longrightarrow> signs_arranged tu coeff"
proof -
  assume "\<not> tu_signDataHiding tu"
  then have "\<not> m_signHiding (coded_cctx tu coeff)"
    by (simp add: coded_cctx_def tu_cctx_def new_CoeffCodingContext_def Let_def split_def del: g_scanOrder.simps)
  then show ?thesis by (simp add: signs_arranged_def Let_def list_all_iff hidden_parity_def hideSign_def)
qed

lemma sample_blocks_valid:
  "list_all2 (residual_valid 536) (map fst sample_blocks) (map (\<lambda>((tu, u), coeff). (coeff, writer_CUCtx tu coeff u)) sample_blocks)"
proof -
  have "signs_arranged (sample_tu 1 8 2 True 0) [4, 0, 2, 2, 0, 2, 0, 0, 6, 2, 0, 12, 0, 0, 0, 2]"
    by (rule even_levels_arranged [where a = 3 and b = 1]) (simp_all add: block_sizes_def sample_tu_def)
  then show ?thesis by (simp add: sample_blocks_def no_hiding sample_tu_def)
qed

theorem residual_coding_roundtrip_witness:
  "\<exists>e' s d1 d2. thenW (seqW (map2 write_block (map fst sample_blocks)
          (map (\<lambda>((tu, u), coeff). (coeff, writer_CUCtx tu coeff u)) sample_blocks))) end_of_slice
        (enc_start sample_models_encoder) = Inr e'
    \<and> writeByteAlignment (e_Bitstream e') = Inr s
    \<and> dec_start (sample_decoder\<lparr>d_Ctx := replicate 536 new_BinProbModel, d_Bitstream := new_in (out_fifo s)\<rparr>) = Inr d1
    \<and> bindP (seqP (map read_block (map fst sample_blocks))) (\<lambda>ys. bindP terminating_bit (\<lambda>t. returnP (ys, t))) d1
        = Inr ((map (\<lambda>((tu, u), coeff). (coeff, writer_CUCtx tu coeff u)) sample_blocks, True), d2)
    \<and> remaining_bytes True d2 = Inr d2"
proof -
  have m: "models_ok 536 sample_models_encoder"
    by (simp add: models_ok_def sample_models_encoder_def sample_encoder_def ctx_ok_def list_all_iff bpm_ok_new)
  show ?thesis
    using residual_coding_roundtrip [OF sample_blocks_valid m, of "sample_decoder\<lparr>d_Ctx := replicate 536 new_BinProbModel\<rparr>"]
    by (simp add: sample_models_encoder_def sample_encoder_def)
qed

section \<open>Contexts of the coefficients\<close>

text \<open>
  \<open>CtxSet::operator()\<close> demands that the increment is below the size of the set: the context lies between the
  offset of its own set and the offset of the next.
\<close>

definition in_set :: "coeff_set \<Rightarrow> nat \<Rightarrow> bool" where
  "in_set s ctxId \<longleftrightarrow> fst (layout 0 all_sets ! coeff_place s) \<le> ctxId
     \<and> ctxId < fst (layout 0 all_sets ! coeff_place s) + snd (layout 0 all_sets ! coeff_place s)"

lemma in_set_CoeffCtx: "coeff_set_valid s \<Longrightarrow> in_set s (CoeffCtx s inc) \<longleftrightarrow> inc < coeff_size s"
  using coeff_size_ok [of s] by (simp add: in_set_def CoeffCtx_def layout_nth number_of_sets)

lemma sig_in_set:
  assumes "m_chType c < 2"
  shows "in_set (SigFlag ([m_chType c, m_chType c + 2, m_chType c, m_chType c + 4] ! (st mod 4))) (fst (sigCtxIdAbs k a st c))"
proof -
  have "nat (min ((sum_list (map capped (neighbours c k a)) + 1) div 2) 3) \<le> 3" by simp
  then show ?thesis
    using sig_set_valid [OF assms, of st] assms unfolding sigCtxIdAbs_def Let_def fst_conv
    by (subst in_set_CoeffCtx) (auto simp: CHANNEL_TYPE_LUMA_def)
qed

lemma levels_in_set:
  assumes "m_chType c < 2"
  shows "in_set (GtxFlag (m_chType c + 2)) (greater1CtxIdAbs c (ctxOffsetAbs c))"
    and "in_set (GtxFlag (m_chType c)) (greater2CtxIdAbs c (ctxOffsetAbs c))"
    and "in_set (ParFlag (m_chType c)) (parityCtxIdAbs c (ctxOffsetAbs c))"
  unfolding greater1CtxIdAbs_def greater2CtxIdAbs_def parityCtxIdAbs_def
  using assms ctxOffset_bound [OF assms] by (auto simp: in_set_CoeffCtx less_2_cases_iff)

lemma group_in_set: "m_chType c < 2 \<Longrightarrow> in_set (SigCoeffGroup (m_chType c)) (m_sigGroupCtxId (initSubblock n f c))"
  by (simp add: initSubblock_def Let_def in_set_CoeffCtx bin_of_def)

lemma last_prefix_small:
  assumes "k \<le> 8" and "i < g_uiGroupIdx ! (2 ^ k - 1)"
  shows "prefix_ctx ! k + i div 2 ^ ((k + 1) div 4) < 36"
    and "i div 2 ^ nat (Clip3 0 2 (int (2 ^ k div 8))) < 3 \<longleftrightarrow> i < 12"
proof -
  define last where "last = [0, 1, 3, 5, 7, 9, 11, 13, 15 :: nat]"
  define luma where "luma = [0, 0, 0, 1, 1, 1, 1, 2, 2 :: nat]"
  define chroma where "chroma = [0, 0, 0, 1, 2, 2, 2, 2, 2 :: nat]"
  have "list_all (\<lambda>k. g_uiGroupIdx ! (2 ^ k - 1) = last ! k \<and> (k + 1) div 4 = luma ! k
      \<and> nat (Clip3 0 2 (int (2 ^ k div 8))) = chroma ! k) [0..<9]"
    by (simp add: upt_rec g_uiGroupIdx_def nth_append Clip3_def last_def luma_def chroma_def)
  then have k: "g_uiGroupIdx ! (2 ^ k - 1) = last ! k" "(k + 1) div 4 = luma ! k"
    "nat (Clip3 0 2 (int (2 ^ k div 8))) = chroma ! k"
    using assms(1) by (auto simp: list_all_iff)
  have "\<forall>k\<in>set [0..<9]. \<forall>i\<in>set [0..<last ! k]. prefix_ctx ! k + i div 2 ^ (luma ! k) < 36
      \<and> (i div 2 ^ (chroma ! k) < 3 \<longleftrightarrow> i < 12)"
    unfolding last_def luma_def chroma_def by code_simp
  then have "\<forall>i<last ! k. prefix_ctx ! k + i div 2 ^ (luma ! k) < 36 \<and> (i div 2 ^ (chroma ! k) < 3 \<longleftrightarrow> i < 12)"
    using assms(1) by simp
  then show "prefix_ctx ! k + i div 2 ^ ((k + 1) div 4) < 36"
    and "i div 2 ^ nat (Clip3 0 2 (int (2 ^ k div 8))) < 3 \<longleftrightarrow> i < 12"
    using assms(2) unfolding k by blast+
qed

text \<open>
  C33: Every context that the coefficients of a luma or chroma block choose is one of the set it is meant
  for, whatever the coefficients, the groups coded so far and the state of the quantiser are: the
  significance of a coefficient has the set of its channel and quantiser state, the flags of levels above one
  and two and of parity have theirs also at the last position, where no template was read, and a group has the
  group set. The contexts of the last position stay in their set for luma blocks up to 256 by 256 and for the
  first twelve bins of a chroma prefix, which are all of them up to 64 by 64; each later bin, of a chroma block of
  128 or 256, leaves the set.
\<close>

theorem coefficient_contexts_in_their_sets:
  assumes "block_sizes tu a b" and "c = (tu_cctx tu)\<lparr>m_sigCoeffGroupFlag := flags\<rparr>"
    and "c' = c \<or> c' = snd (sigCtxIdAbs k coeff st c)"
  shows "in_set (SigFlag ([tu_chType tu, tu_chType tu + 2, tu_chType tu, tu_chType tu + 4] ! (st mod 4))) (fst (sigCtxIdAbs k coeff st c))
    \<and> in_set (GtxFlag (tu_chType tu + 2)) (greater1CtxIdAbs c' (ctxOffsetAbs c'))
    \<and> in_set (GtxFlag (tu_chType tu)) (greater2CtxIdAbs c' (ctxOffsetAbs c'))
    \<and> in_set (ParFlag (tu_chType tu)) (parityCtxIdAbs c' (ctxOffsetAbs c'))
    \<and> in_set (SigCoeffGroup (tu_chType tu)) (m_sigGroupCtxId (initSubblock n f c))
    \<and> (\<forall>i<m_maxLastPosX c. in_set (LastX (tu_chType tu)) (lastXCtxId c i) \<longleftrightarrow> tu_chType tu = 0 \<or> i < 12)
    \<and> (\<forall>i<m_maxLastPosY c. in_set (LastY (tu_chType tu)) (lastYCtxId c i) \<longleftrightarrow> tu_chType tu = 0 \<or> i < 12)"
proof -
  have ab: "a \<le> 8" "b \<le> 8" "tu_width tu = 2 ^ a" "tu_height tu = 2 ^ b" "tu_chType tu < 2"
    using assms(1) by (auto simp: block_sizes_def)
  have ch: "m_chType c = tu_chType tu" "m_chType c' = tu_chType tu"
    using assms(2,3) by (auto simp: tu_cctx_def new_CoeffCodingContext_def Let_def split_def sigCtxIdAbs_def)
  note small = last_prefix_small [OF ab(1)] last_prefix_small [OF ab(2)]
  have cases: "tu_chType tu = 0 \<or> tu_chType tu = 1" using ab(5) by auto
  have x: "in_set (LastX (tu_chType tu)) (lastXCtxId c i) \<longleftrightarrow> tu_chType tu = 0 \<or> i < 12" if "i < m_maxLastPosX c" for i
    using cases that tu_block(4) [OF assms(1)] small(1,2) [of i] ab floorLog2_pow [of a] assms(2)
    by (auto simp: lastXCtxId_def tu_cctx_def new_CoeffCodingContext_def Let_def split_def CHANNEL_TYPE_CHROMA_def in_set_CoeffCtx
        simp del: g_scanOrder.simps)
  have y: "in_set (LastY (tu_chType tu)) (lastYCtxId c i) \<longleftrightarrow> tu_chType tu = 0 \<or> i < 12" if "i < m_maxLastPosY c" for i
    using cases that tu_block(5) [OF assms(1)] small(3,4) [of i] ab floorLog2_pow [of b] assms(2)
    by (auto simp: lastYCtxId_def tu_cctx_def new_CoeffCodingContext_def Let_def split_def CHANNEL_TYPE_CHROMA_def in_set_CoeffCtx
        simp del: g_scanOrder.simps)
  show ?thesis
    using sig_in_set [of c st k coeff] levels_in_set [of c'] group_in_set [of c n f] x y ab(5) unfolding ch by simp
qed

text \<open>A chroma block of 128 by 4, at its fourth scan position and in the fourth state of a quantiser of eight.\<close>

theorem coefficient_contexts_in_their_sets_witness:
  "let c = tu_cctx (sample_tu 1 128 4 False 2); c' = snd (sigCtxIdAbs 3 (replicate 512 7) 3 c)
   in in_set (SigFlag 5) (fst (sigCtxIdAbs 3 (replicate 512 7) 3 c))
     \<and> in_set (GtxFlag 3) (greater1CtxIdAbs c' (ctxOffsetAbs c')) \<and> in_set (GtxFlag 1) (greater2CtxIdAbs c' (ctxOffsetAbs c'))
     \<and> in_set (LastX 1) (lastXCtxId c 11) \<and> \<not> in_set (LastX 1) (lastXCtxId c 12)"
proof -
  define c where "c = tu_cctx (sample_tu 1 128 4 False 2)"
  have t: "block_sizes (sample_tu 1 128 4 False 2) 7 2" by (simp add: block_sizes_def sample_tu_def)
  have m: "m_maxLastPosX c = 13" using tu_block(4) [OF t] by (simp add: c_def g_uiGroupIdx_def nth_append)
  have "c = c\<lparr>m_sigCoeffGroupFlag := m_sigCoeffGroupFlag c\<rparr>" by simp
  from coefficient_contexts_in_their_sets [OF t this [unfolded c_def], of "snd (sigCtxIdAbs 3 (replicate 512 7) 3 c)" 3
      "replicate 512 7" 3, folded c_def]
  show ?thesis unfolding c_def [symmetric] Let_def m by (simp add: sample_tu_def del: One_nat_def)
qed

text \<open>
  A chroma block of 128 columns codes the end of its last position with the first context of the luma
  rows: the prefix has 13 bins, their contexts advance every four bins, and the set of chroma contexts has
  only three.
\<close>

theorem wide_chroma_block_uses_luma_context:
  "12 < m_maxLastPosX (new_CoeffCodingContext CHANNEL_TYPE_CHROMA 128 h hide rng delayed)
    \<and> lastXCtxId (new_CoeffCodingContext CHANNEL_TYPE_CHROMA 128 h hide rng delayed) 12
      = lastYCtxId (new_CoeffCodingContext CHANNEL_TYPE_LUMA w 4 hide' rng' delayed') 0"
proof -
  have f: "floorLog2 4 = 2" using floorLog2_pow [of 2] by simp
  have m: "12 < g_uiGroupIdx ! 127" by (simp add: g_uiGroupIdx_def nth_append)
  have x: "lastXCtxId (new_CoeffCodingContext CHANNEL_TYPE_CHROMA 128 h hide rng delayed) 12 = CoeffCtx (LastX 1) 3"
    by (simp add: lastXCtxId_def new_CoeffCodingContext_def Let_def split_def CHANNEL_TYPE_CHROMA_def Clip3_def del: g_scanOrder.simps)
  have y: "lastYCtxId (new_CoeffCodingContext CHANNEL_TYPE_LUMA w 4 hide' rng' delayed') 0 = CoeffCtx (LastY 0) 0"
    using f by (simp add: lastYCtxId_def new_CoeffCodingContext_def Let_def split_def CHANNEL_TYPE_CHROMA_def CHANNEL_TYPE_LUMA_def
        prefix_ctx_def del: g_scanOrder.simps)
  show ?thesis using m x y chroma_last_ctx(1) [of 0]
    by (simp add: new_CoeffCodingContext_def Let_def split_def JVET_C0024_ZERO_OUT_TH_def del: g_scanOrder.simps)
qed

text \<open>
  Where signs are predicted, the reader gives a hidden sign by the parity of that one level: the other
  levels of the group, whose sum the encoder has arranged, are not added.
\<close>

theorem predicted_block_hides_by_one_level:
  assumes "hideSign (p_cctx s) (p_firstNZPos s) (p_lastNZPos s)" and "blk \<noteq> []" and "p_numNonZero s = length blk"
    and "v = (if odd (coeff ! last blk) then - (coeff ! last blk) else coeff ! last blk)"
    and "minCoeff (p_cctx s) \<le> v" and "v \<le> maxCoeff (p_cctx s)"
  shows "read_signs True sign (s, blk, coeff) d = Inr ((coeff[last blk := v], sign[last blk := SIGN_PRED_HIDDEN]), d)"
proof -
  have l: "blk ! (length blk - Suc 0) = last blk" using assms(2) by (simp add: last_conv_nth)
  show ?thesis
    using assms by (cases "odd (coeff ! last blk)") (simp_all add: read_signs_def Let_def l check_coeff_conformance_def checkP_def bindP_def returnP_def)
qed

text \<open>The levels 2, 1 and 4 have an odd sum, which is a minus for the writer; the reader leaves the 4 positive.\<close>

definition hiding_pass :: Pass where
  "hiding_pass = \<lparr>p_cctx = new_CoeffCodingContext 0 4 4 True 15 True, p_state = 0, p_remRegBins = 0, p_numNonZero = 3,
     p_firstNZPos = 0, p_lastNZPos = 6\<rparr>"

theorem predicted_block_hides_by_one_level_witness:
  "odd (2 + 1 + 4 :: int) \<and> read_signs True [0, 0, 0, 0] (hiding_pass, [3, 1, 0], [4, 1, 0, 2]) sample_decoder
    = Inr (([4, 1, 0, 2], [SIGN_PRED_HIDDEN, 0, 0, 0]), sample_decoder)"
  using predicted_block_hides_by_one_level [of hiding_pass "[3, 1, 0]" 4 "[4, 1, 0, 2]" "[0, 0, 0, 0]" sample_decoder]
  by (simp add: hiding_pass_def new_CoeffCodingContext_def Let_def split_def hideSign_def SBH_THRESHOLD_def minCoeff_def maxCoeff_def
      del: g_scanOrder.simps)

end
