(* ===== verification/QuantError.thy ===== *)
theory QuantError
  imports QuantBounds ResidualRoundtrip
begin

unbundle bit_operations_syntax

text \<open>
  Quantisation over a block: what \<open>Quant::quant\<close> makes of each coefficient, what \<open>Quant::dequant\<close> makes of each
  level in a legal stream, and how far apart they are.
\<close>

section \<open>What the quantiser does to each coefficient\<close>

definition magnitude_at :: "TransformUnit \<Rightarrow> quant_setting \<Rightarrow> QpParam \<Rightarrow> int list \<Rightarrow> nat \<Rightarrow> int" where
  "magnitude_at tu st cQP coef n =
     fst (quantise (qs_isIRAP st) (nat (quant_bits tu st cQP)) (quant_scale tu st cQP n) (coef ! n))"

definition level_at :: "TransformUnit \<Rightarrow> quant_setting \<Rightarrow> QpParam \<Rightarrow> int list \<Rightarrow> nat \<Rightarrow> int" where
  "level_at tu st cQP coef n =
     Clip3 (- (2 ^ tu_maxLog2TrDynamicRange tu)) (2 ^ tu_maxLog2TrDynamicRange tu - 1)
       (magnitude_at tu st cQP coef n * (if coef ! n < 0 then -1 else 1))"

lemma quant_fold:
  assumes t: "block_sizes tu a b" and K: "K \<le> tu_width tu * tu_height tu"
    and u: "0 \<le> u" and mag: "\<And>n. n < tu_width tu * tu_height tu \<Longrightarrow> 0 \<le> magnitude_at tu st q coef n \<and> magnitude_at tu st q coef n \<le> M"
    and sum: "u + int (tu_width tu * tu_height tu) * M < 2 ^ 31"
  shows "\<exists>d. fold (quant_step tu st q coef) [0..<K] (u, d0, replicate (tu_width tu * tu_height tu) 0)
    = (u + (\<Sum>k<K. magnitude_at tu st q coef (scan_idx (block_scan_table a b ! k))), d,
       spread (block_scan_table a b) (\<lambda>k. if k < K then level_at tu st q coef (scan_idx (block_scan_table a b ! k)) else 0))
    \<and> length d = length d0"
  using K
proof (induction K)
  case 0
  have "length (block_scan_table a b) = tu_width tu * tu_height tu"
    using t block_levels.scan_length [of a b] by (simp add: block_sizes_def min_absorb1)
  then show ?case by (simp add: spread_def map_replicate_const)
next
  case (Suc K)
  define scan where "scan = block_scan_table a b"
  have len: "length scan = tu_width tu * tu_height tu"
    using t block_levels.scan_length [of a b] by (simp add: scan_def block_sizes_def min_absorb1)
  have sc: "g_scanOrder SCAN_GROUPED_4x4 SCAN_DIAG (tu_width tu) (tu_height tu) = scan"
    using t by (simp add: scan_def block_scan_table_def block_sizes_def min_absorb1)
  have K: "K < length scan" using Suc.prems len by simp
  have idx: "scan_idx (scan ! k) < tu_width tu * tu_height tu" if "k < length scan" for k
    using block_levels.idx_less [of k a b] that unfolding scan_def [symmetric] len by simp
  obtain d where d: "fold (quant_step tu st q coef) [0..<K] (u, d0, replicate (tu_width tu * tu_height tu) 0)
    = (u + (\<Sum>k<K. magnitude_at tu st q coef (scan_idx (scan ! k))), d,
       spread scan (\<lambda>k. if k < K then level_at tu st q coef (scan_idx (scan ! k)) else 0))" "length d = length d0"
    using Suc unfolding scan_def by auto
  have bound: "(\<Sum>k<K'. magnitude_at tu st q coef (scan_idx (scan ! k))) \<le> int K' * M
      \<and> 0 \<le> (\<Sum>k<K'. magnitude_at tu st q coef (scan_idx (scan ! k)))" if "K' \<le> length scan" for K'
  proof
    have "(\<Sum>k<K'. magnitude_at tu st q coef (scan_idx (scan ! k))) \<le> (\<Sum>k<K'. M)"
      using mag idx that by (intro sum_mono) auto
    then show "(\<Sum>k<K'. magnitude_at tu st q coef (scan_idx (scan ! k))) \<le> int K' * M" by simp
    show "0 \<le> (\<Sum>k<K'. magnitude_at tu st q coef (scan_idx (scan ! k)))"
      using mag idx that by (intro sum_nonneg) auto
  qed
  have M: "0 \<le> M" using mag [OF idx [OF K]] by linarith
  have "int (Suc K) * M \<le> int (tu_width tu * tu_height tu) * M"
    using Suc.prems M by (intro mult_right_mono) (simp_all only: of_nat_le_iff)
  then have fits: "s32 (u + (\<Sum>k<Suc K. magnitude_at tu st q coef (scan_idx (scan ! k))))
      = u + (\<Sum>k<Suc K. magnitude_at tu st q coef (scan_idx (scan ! k)))"
    using bound [of "Suc K"] K u sum by (intro s32_fits) linarith+
  define pos where "pos = scan_idx (scan ! K)"
  obtain mg dl where q: "quantise (qs_isIRAP st) (nat (quant_bits tu st q)) (quant_scale tu st q pos) (coef ! pos) = (mg, dl)"
    by fastforce
  have mg: "mg = magnitude_at tu st q coef pos" using q by (simp add: magnitude_at_def)
  have "quant_step tu st q coef K (s, d, qc) = (s32 (s + mg), d[pos := dl], qc[pos := level_at tu st q coef pos])" for s d qc
    unfolding quant_step_def sc prod.case Let_def pos_def [symmetric] q mg level_at_def by simp
  moreover have "(spread scan f)[pos := v] = spread scan (f(K := v))" for f v
    unfolding pos_def scan_def by (rule block_levels.spread_update) (use K in \<open>simp add: scan_def\<close>)
  moreover have "(\<lambda>k. if k < K then level_at tu st q coef (scan_idx (scan ! k)) else 0)(K := level_at tu st q coef pos)
      = (\<lambda>k. if k < Suc K then level_at tu st q coef (scan_idx (scan ! k)) else 0)"
    by (auto simp: fun_eq_iff pos_def less_Suc_eq)
  ultimately show ?case
    using d fits unfolding scan_def [symmetric] by (simp add: mg pos_def [symmetric] add.assoc)
qed

text \<open>With enough bits to shift out, no level is cut and no sum overflows.\<close>

lemma quantise_bounds:
  fixes i :: bool and B :: nat and x s :: int
  assumes "15 \<le> B" "\<bar>x\<bar> \<le> 2 ^ 15" "0 \<le> s" "s \<le> 26214"
  defines "A \<equiv> push_bit (B - 9) (if i then 171 else 85 :: int)"
  shows "fst (quantise i B s x) = (\<bar>x\<bar> * s + A) div 2 ^ B" "0 \<le> (\<bar>x\<bar> * s + A) div 2 ^ B" "(\<bar>x\<bar> * s + A) div 2 ^ B \<le> 26214"
    "0 \<le> A" "A < 2 ^ B"
proof -
  have B: "(2 :: int) ^ B = 512 * 2 ^ (B - 9)"
  proof -
    have "(2 :: int) ^ (B - 9 + 9) = 2 ^ (B - 9) * 2 ^ 9" by (rule power_add)
    then show ?thesis using assms(1) by simp
  qed
  have A: "0 \<le> A" "A \<le> 171 * 2 ^ (B - 9)" by (auto simp: A_def push_bit_eq_mult)
  moreover have "(0 :: int) < 2 ^ (B - 9)" by simp
  ultimately show A1: "0 \<le> A" "A < 2 ^ B" unfolding B by linarith+
  have s0: "0 \<le> \<bar>x\<bar> * s" using assms(3) by simp
  have "\<bar>x\<bar> * s \<le> 2 ^ 15 * 26214" using assms by (intro mult_mono) auto
  moreover have "(2 :: int) ^ 15 \<le> 2 ^ B" using assms(1) by (intro power_increasing) auto
  ultimately have "\<bar>x\<bar> * s \<le> 2 ^ B * 26214" by (smt (verit) mult_right_mono)
  then have "\<bar>x\<bar> * s + A < 2 ^ B * 26215" using A1 by linarith
  moreover have "(\<bar>x\<bar> * s + A) div 2 ^ B * 2 ^ B \<le> \<bar>x\<bar> * s + A" by (simp add: minus_mod_eq_div_mult [symmetric])
  ultimately have "(\<bar>x\<bar> * s + A) div 2 ^ B * 2 ^ B < 26215 * 2 ^ B" by linarith
  then have "(\<bar>x\<bar> * s + A) div 2 ^ B < 26215" by simp
  then show r: "0 \<le> (\<bar>x\<bar> * s + A) div 2 ^ B" "(\<bar>x\<bar> * s + A) div 2 ^ B \<le> 26214"
    using s0 A1 by (auto simp: pos_imp_zdiv_nonneg_iff)
  then show "fst (quantise i B s x) = (\<bar>x\<bar> * s + A) div 2 ^ B"
    by (simp add: quantise_def Let_def drop_bit_eq_div A_def [symmetric] s32_fits)
qed

section \<open>Blocks of a legal stream\<close>

text \<open>
  The settings of a stream without extended precision: the parameters are what \<open>QpParam\<close> promises for the bit
  depth, and the factors of a scaling list fit the bits the code counts for them.
\<close>

definition quant_legal :: "TransformUnit \<Rightarrow> quant_setting \<Rightarrow> QpParam \<Rightarrow> bool" where
  "quant_legal tu st q \<longleftrightarrow>
     (\<exists>a b. block_sizes tu a b) \<and> tu_width tu \<le> qs_maxTrSize st
     \<and> 8 \<le> qs_bitDepth st \<and> qs_bitDepth st \<le> 16 \<and> \<not> qs_extendedPrecision st \<and> tu_maxLog2TrDynamicRange tu = 15
     \<and> 0 \<le> Qp q False \<and> Qp q False \<le> MAX_QP + 6 * (qs_bitDepth st - 8)
     \<and> (\<exists>less. 0 \<le> less \<and> less \<le> qs_bitDepth st - 8 \<and> Qp q True = max (Qp q False) (4 + 6 * less))
     \<and> (\<forall>ts. Qp q ts = 6 * per q ts + qp_rem q ts \<and> 0 \<le> qp_rem q ts \<and> qp_rem q ts < 6)
     \<and> (\<forall>fs. qs_dequantCoef st = Some fs \<longrightarrow> \<not> tu_transform_skip tu \<and> tu_width tu * tu_height tu \<le> length fs
           \<and> (\<forall>f\<in>set fs. 0 \<le> f \<and> f < 2 ^ 15))"

lemma legal_rem: "quant_legal tu st q \<Longrightarrow> nat (qp_rem q ts) < 6"
proof -
  assume "quant_legal tu st q"
  then have "0 \<le> qp_rem q ts" "qp_rem q ts < 6" unfolding quant_legal_def by blast+
  then show ?thesis by simp
qed

lemma legal_per:
  assumes "quant_legal tu st q"
  shows "0 \<le> per q ts \<and> per q ts \<le> qs_bitDepth st + 2"
proof -
  have Q: "0 \<le> Qp q False" "Qp q False \<le> 63 + 6 * (qs_bitDepth st - 8)" "8 \<le> qs_bitDepth st"
    using assms unfolding quant_legal_def MAX_QP_def by blast+
  obtain l where "0 \<le> l" "l \<le> qs_bitDepth st - 8" "Qp q True = max (Qp q False) (4 + 6 * l)"
    using assms unfolding quant_legal_def by blast
  then have "0 \<le> Qp q ts" "Qp q ts \<le> 63 + 6 * (qs_bitDepth st - 8)" using Q by (cases ts; simp)+
  moreover have "Qp q ts = 6 * per q ts + qp_rem q ts" "0 \<le> qp_rem q ts" "qp_rem q ts < 6"
    using assms unfolding quant_legal_def by blast+
  ultimately show ?thesis by presburger
qed

lemma nonlog2: "a < 32 \<Longrightarrow> b < 32 \<Longrightarrow> \<not> isNonLog2BlockSize (2 ^ a) (2 ^ b)"
  by (simp add: isNonLog2BlockSize_def floorLog2_pow push_bit_eq_mult)

lemma shift_of_sizes:
  assumes "block_sizes tu a b" "tu_maxLog2TrDynamicRange tu = 15"
  shows "transform_shift tu st = 15 - qs_bitDepth st - (int a + int b) div 2"
    and "trafo_scale tu \<longleftrightarrow> \<not> tu_transform_skip tu \<and> odd (a + b)"
  using assms by (auto simp: block_sizes_def getTransformShift_def floorLog2_pow drop_bit_eq_div needsBlockSizeTrafoScale_def
      needsSqrt2Scale_def nonlog2 and_one_eq odd_iff_mod_2_eq_one even_iff_mod_2_eq_zero simp flip: of_nat_add, presburger+)

lemma legal_shift:
  assumes "quant_legal tu st q"
  shows "- 11 + (if qs_dequantCoef st \<noteq> None then 4 else - 1) \<le> dequant_shift tu st q" "dequant_shift tu st q \<le> 20"
proof -
  obtain a b where t: "block_sizes tu a b" using assms by (auto simp: quant_legal_def)
  have m: "tu_maxLog2TrDynamicRange tu = 15" "\<not> qs_extendedPrecision st" "8 \<le> qs_bitDepth st" "qs_bitDepth st \<le> 16"
    and list: "qs_dequantCoef st \<noteq> None \<Longrightarrow> \<not> tu_transform_skip tu"
    using assms unfolding quant_legal_def by auto
  define h where "h = (int a + int b) div 2"
  have h: "0 \<le> h" "h \<le> 8" using t by (auto simp: h_def block_sizes_def)
  define p where "p = per q (tu_transform_skip tu)"
  have p: "0 \<le> p" "p \<le> qs_bitDepth st + 2" using legal_per [OF assms] by (auto simp: p_def)
  have "dequant_shift tu st q = 6 - ((if tu_transform_skip tu then 0 else 15 - qs_bitDepth st - h + (if trafo_scale tu then -1 else 0)) + p)
      + (if qs_dequantCoef st \<noteq> None then 4 else 0)"
    using m(2) unfolding dequant_shift_def Let_def shift_of_sizes(1) [OF t m(1)] h_def [symmetric] p_def [symmetric]
      IQUANT_SHIFT_def LOG2_SCALING_LIST_NEUTRAL_VALUE_def by simp
  then show "- 11 + (if qs_dequantCoef st \<noteq> None then 4 else - 1) \<le> dequant_shift tu st q" "dequant_shift tu st q \<le> 20"
    using p h m(3,4) list by (auto split: if_splits)
qed

lemma scales_less:
  "i < 2 \<Longrightarrow> r < 6 \<Longrightarrow> 40 \<le> g_invQuantScales ! i ! r \<and> g_invQuantScales ! i ! r \<le> 102
    \<and> 10280 \<le> g_quantScales ! i ! r \<and> g_quantScales ! i ! r \<le> 26214
    \<and> \<bar>g_quantScales ! i ! r * g_invQuantScales ! i ! r - 2 ^ 20\<bar> \<le> 32"
  by (auto simp: g_invQuantScales_def g_quantScales_def less_Suc_eq numeral_eq_Suc)

lemma legal_scale:
  assumes "quant_legal tu st q" "n < tu_width tu * tu_height tu"
  shows "0 \<le> dequant_scale tu st q n \<and> dequant_scale tu st q n < 2 ^ nat (scale_bits st)"
proof (cases "qs_dequantCoef st")
  case None
  then show ?thesis
    using scales_less [OF _ legal_rem [OF assms(1)], of "if trafo_scale tu then 1 else 0" "tu_transform_skip tu"]
    by (auto simp: dequant_scale_def scale_bits_def IQUANT_SHIFT_def)
next
  case (Some fs)
  then have "fs ! n \<in> set fs" "\<forall>f\<in>set fs. 0 \<le> f \<and> f < 2 ^ 15" using assms by (auto simp: quant_legal_def)
  then show ?thesis using Some by (auto simp: dequant_scale_def scale_bits_def IQUANT_SHIFT_def SCALING_LIST_BITS_def)
qed

lemma legal_dequantise:
  assumes l: "quant_legal tu st q" and n: "n < tu_width tu * tu_height tu" and x: "- (2 ^ 15) \<le> x" "x < 2 ^ 15"
  shows "dequantise 15 (scale_bits st) (dequant_shift tu st q) (dequant_scale tu st q n) x
    = Clip3 (- (2 ^ 15)) (2 ^ 15 - 1) (reconstruct (dequant_shift tu st q) (dequant_scale tu st q n) x)"
proof -
  define b where "b = nat (scale_bits st)"
  have b: "scale_bits st = int b" "int b = (if qs_dequantCoef st \<noteq> None then 15 else 7)"
    by (simp_all add: b_def scale_bits_def IQUANT_SHIFT_def SCALING_LIST_BITS_def)
  note sc = legal_scale [OF l n, folded b_def, THEN conjunct1] legal_scale [OF l n, folded b_def, THEN conjunct2]
  show ?thesis
  proof (cases "0 < dequant_shift tu st q")
    case True
    then show ?thesis unfolding b(1)
      using sc x b(2) legal_shift(2) [OF l] by (intro dequantise_right) (auto split: if_splits)
  next
    case False
    define s where "s = nat (- dequant_shift tu st q)"
    have s: "dequant_shift tu st q = - int s" using False by (simp add: s_def)
    show ?thesis unfolding b(1) s
      using sc x b(2) legal_shift(1) [OF l] unfolding s by (intro dequantise_left) (auto split: if_splits)
  qed
qed

text \<open>The levels that a block is scaled from: those of the stream, or their sums along rows or columns.\<close>

definition scaled_levels :: "TransformUnit \<Rightarrow> quant_setting \<Rightarrow> int list \<Rightarrow> int list \<Rightarrow> int list" where
  "scaled_levels tu st coeffs dst =
     (if qs_bdpcm st \<noteq> 0
      then invResDPCM (qs_bdpcm st) (tu_width tu) (tu_height tu) (tu_maxLog2TrDynamicRange tu) coeffs dst else coeffs)"

lemma fold_update_all:
  assumes "\<And>k dst. k < n \<Longrightarrow> P (F k dst)" "length dst = n"
  shows "length (fold (\<lambda>k dst. dst[k := F k dst]) [0..<n] dst) = n" "\<forall>x\<in>set (fold (\<lambda>k dst. dst[k := F k dst]) [0..<n] dst). P x"
proof -
  have "length (fold (\<lambda>k dst. dst[k := F k dst]) [0..<m] dst) = n
      \<and> (\<forall>j<m. P (fold (\<lambda>k dst. dst[k := F k dst]) [0..<m] dst ! j))" if "m \<le> n" for m
    using that by (induction m) (auto simp: assms less_Suc_eq nth_list_update)
  from this [of n] show "length (fold (\<lambda>k dst. dst[k := F k dst]) [0..<n] dst) = n"
    "\<forall>x\<in>set (fold (\<lambda>k dst. dst[k := F k dst]) [0..<n] dst). P x" by (auto simp: all_set_conv_all_nth)
qed

lemma scaled_levels_range:
  assumes "0 < tu_width tu" "0 < tu_height tu" "length coeffs = tu_width tu * tu_height tu" "length dst = tu_width tu * tu_height tu"
    and "\<forall>x\<in>set coeffs. - (2 ^ tu_maxLog2TrDynamicRange tu) \<le> x \<and> x < 2 ^ tu_maxLog2TrDynamicRange tu"
  shows "length (scaled_levels tu st coeffs dst) = tu_width tu * tu_height tu"
    and "\<forall>x\<in>set (scaled_levels tu st coeffs dst). - (2 ^ tu_maxLog2TrDynamicRange tu) \<le> x \<and> x < 2 ^ tu_maxLog2TrDynamicRange tu"
proof -
  define m where "m = tu_maxLog2TrDynamicRange tu"
  have clip: "- (2 ^ m) \<le> Clip3 (- (2 ^ m)) (2 ^ m - 1) v \<and> Clip3 (- (2 ^ m)) (2 ^ m - 1) v < 2 ^ m" for v
    using zero_less_power [of "2 :: int" m] by (auto simp: Clip3_def min_def max_def)
  define P where "P = (\<lambda>x. - (2 ^ m) \<le> x \<and> x < (2 :: int) ^ m)"
  have c: "P (coeffs ! k)" if "k < tu_height tu * tu_width tu" for k
    using that assms(3,5) by (simp add: m_def P_def mult.commute)
  have all: "Ball (set coeffs) P" using assms(5) by (simp add: m_def P_def)
  have "length (scaled_levels tu st coeffs dst) = tu_width tu * tu_height tu \<and> Ball (set (scaled_levels tu st coeffs dst)) P"
  proof (cases "qs_bdpcm st = 0")
    case True
    then show ?thesis using assms(3) all by (simp add: scaled_levels_def)
  next
    case False
    define F where "F = (\<lambda>k dst. if (if qs_bdpcm st = 1 then k mod tu_width tu = 0 else k < tu_width tu) then coeffs ! k
       else Clip3 (- (2 ^ m)) (2 ^ m - 1) (dst ! (if qs_bdpcm st = 1 then k - 1 else k - tu_width tu) + coeffs ! k))"
    have "scaled_levels tu st coeffs dst = fold (\<lambda>k dst. dst[k := F k dst]) [0..<tu_height tu * tu_width tu] dst"
      unfolding scaled_levels_def invResDPCM_fold [OF assms(1,2)] m_def [symmetric] F_def using False by simp
    moreover have "P (F k dst)" if "k < tu_height tu * tu_width tu" for k dst
      using c [OF that] clip by (simp add: F_def P_def)
    ultimately show ?thesis
      using fold_update_all [of "tu_height tu * tu_width tu" P F dst] assms(4) by (simp add: mult.commute)
  qed
  then show "length (scaled_levels tu st coeffs dst) = tu_width tu * tu_height tu"
    and "\<forall>x\<in>set (scaled_levels tu st coeffs dst). - (2 ^ tu_maxLog2TrDynamicRange tu) \<le> x \<and> x < 2 ^ tu_maxLog2TrDynamicRange tu"
    by (simp_all add: P_def m_def)
qed

text \<open>
  C38: Inverse quantisation computes in integers. For a block of a legal stream, with or without scaling
  lists, transform skip and block DPCM, no product, sum or shift leaves 32 bits, and clipping the levels
  before the product changes nothing: each coefficient is its level times the scale, shifted with rounding
  and cut to the range of the transform.
\<close>

theorem dequant_is_exact:
  assumes "quant_legal tu st q" and "length coeffs = tu_width tu * tu_height tu" "length dst = tu_width tu * tu_height tu"
    and "\<forall>x\<in>set coeffs. - (2 ^ 15) \<le> x \<and> x < 2 ^ 15"
  shows "dequant tu st q coeffs dst = Inr (map (\<lambda>n. Clip3 (- (2 ^ 15)) (2 ^ 15 - 1)
      (reconstruct (dequant_shift tu st q) (dequant_scale tu st q n) (scaled_levels tu st coeffs dst ! n)))
      [0..<tu_width tu * tu_height tu])"
proof -
  have m: "tu_maxLog2TrDynamicRange tu = 15" "tu_width tu \<le> qs_maxTrSize st" "0 < tu_width tu" "0 < tu_height tu"
    using assms(1) by (auto simp: quant_legal_def block_sizes_def)
  note r = scaled_levels_range [OF m(3,4) assms(2,3), unfolded m(1), OF assms(4), of st]
  have "dequantise 15 (scale_bits st) (dequant_shift tu st q) (dequant_scale tu st q n) (scaled_levels tu st coeffs dst ! n)
      = Clip3 (- (2 ^ 15)) (2 ^ 15 - 1) (reconstruct (dequant_shift tu st q) (dequant_scale tu st q n) (scaled_levels tu st coeffs dst ! n))"
    if "n < tu_width tu * tu_height tu" for n
    using that r by (intro legal_dequantise [OF assms(1) that]) simp_all
  then show ?thesis using m(1,2) by (simp add: dequant_def Let_def scaled_levels_def)
qed

section \<open>The error of quantisation\<close>

lemma reconstruct_error:
  assumes "B = nat (20 - rs)" "rs \<le> 20"
  shows "\<bar>2 ^ 20 * reconstruct rs iq v - v * iq * 2 ^ B\<bar> \<le> 2 ^ 19"
proof (cases "0 < rs")
  case True
  define r where "r = nat rs"
  have r: "rs = int r" "0 < r" "B + r = 20" using True assms by (simp_all add: r_def)
  have p: "(2 :: int) ^ 20 = 2 ^ B * 2 ^ r" by (simp add: r(3) [symmetric] power_add)
  have h: "(2 :: int) ^ r = 2 * 2 ^ (r - 1)" using r(2) by (cases r) simp_all
  have h19: "(2 :: int) ^ 19 = 2 ^ B * 2 ^ (r - 1)" using p unfolding h by simp
  define t where "t = (v * iq + 2 ^ (r - 1)) mod 2 ^ r"
  have t: "0 \<le> t" "t < 2 ^ r" by (simp_all add: t_def)
  have "reconstruct rs iq v = (v * iq + 2 ^ (r - 1)) div 2 ^ r"
    using r(2) by (simp add: reconstruct_def r(1) nat_diff_distrib)
  then have "2 ^ r * reconstruct rs iq v = v * iq + 2 ^ (r - 1) - t" by (simp add: t_def minus_mod_eq_mult_div [symmetric])
  moreover have "2 ^ 20 * reconstruct rs iq v - v * iq * 2 ^ B = 2 ^ B * (2 ^ r * reconstruct rs iq v - v * iq)"
    unfolding p by (simp only: right_diff_distrib mult_ac)
  ultimately have "2 ^ 20 * reconstruct rs iq v - v * iq * 2 ^ B = 2 ^ B * (2 ^ (r - 1) - t)" by simp
  moreover have "\<bar>2 ^ (r - 1) - t\<bar> \<le> 2 ^ (r - 1)" using t h by linarith
  then have "2 ^ B * \<bar>2 ^ (r - 1) - t\<bar> \<le> 2 ^ B * 2 ^ (r - 1)" by (rule mult_left_mono) simp
  ultimately show ?thesis unfolding h19 by (simp add: abs_mult)
next
  case False
  then have "B = 20 + nat (- rs)" using assms by simp
  then show ?thesis using False by (simp add: reconstruct_def power_add)
qed

lemma quantisation_error_scalar:
  fixes i :: bool and B :: nat and x s iq :: int
  assumes B: "15 \<le> B" "rs = 20 - int B" and x: "- (2 ^ 15) \<le> x" "x < 2 ^ 15"
    and s: "0 \<le> s" "s \<le> 26214" "0 \<le> iq" "\<bar>s * iq - 2 ^ 20\<bar> \<le> 32"
  defines "v \<equiv> fst (quantise i B s x) * (if x < 0 then -1 else 1)"
  shows "\<bar>Clip3 (- (2 ^ 15)) (2 ^ 15 - 1) (reconstruct rs iq v) - x\<bar> \<le> iq * 2 ^ B div 2 ^ 20 + 2"
proof -
  define A where "A = push_bit (B - 9) (if i then 171 else 85 :: int)"
  define sg where "sg = (if x < 0 then -1 else 1 :: int)"
  have ax: "\<bar>x\<bar> \<le> 2 ^ 15" using x by linarith
  note qb = quantise_bounds [OF B(1) ax s(1,2), of i, folded A_def]
  define r where "r = \<bar>x\<bar> * s - fst (quantise i B s x) * 2 ^ B"
  have "(\<bar>x\<bar> * s + A) mod 2 ^ B = r + A" by (simp add: r_def qb(1) minus_div_mult_eq_mod [symmetric])
  then have r: "0 \<le> r + A" "r + A < 2 ^ B" by (metis pos_mod_sign pos_mod_bound zero_less_power zero_less_numeral)+
  then have rB: "\<bar>r\<bar> \<le> 2 ^ B" using qb(4,5) by linarith
  have "v * 2 ^ B = sg * (\<bar>x\<bar> * s - r)" by (simp add: v_def r_def sg_def)
  also have "\<dots> = x * s - sg * r" by (auto simp: sg_def)
  finally have vB: "v * 2 ^ B = x * s - sg * r" .
  have "v * iq * 2 ^ B = (v * 2 ^ B) * iq" by (simp only: mult_ac)
  then have "v * iq * 2 ^ B - 2 ^ 20 * x = x * (s * iq - 2 ^ 20) - sg * r * iq"
    unfolding vB by (simp only: left_diff_distrib right_diff_distrib mult_ac diff_right_commute)
  then have "\<bar>v * iq * 2 ^ B - 2 ^ 20 * x\<bar> \<le> \<bar>x * (s * iq - 2 ^ 20)\<bar> + \<bar>sg * r * iq\<bar>"
    by (metis abs_triangle_ineq4)
  moreover have "\<bar>x * (s * iq - 2 ^ 20)\<bar> \<le> 2 ^ 15 * 32" unfolding abs_mult using ax s(4) by (intro mult_mono) auto
  moreover have "\<bar>sg * r * iq\<bar> \<le> iq * 2 ^ B"
  proof -
    have "\<bar>sg * r * iq\<bar> = iq * \<bar>r\<bar>" using s(3) by (simp add: abs_mult sg_def)
    also have "\<dots> \<le> iq * 2 ^ B" using rB s(3) by (rule mult_left_mono)
    finally show ?thesis .
  qed
  moreover have "\<bar>2 ^ 20 * reconstruct rs iq v - v * iq * 2 ^ B\<bar> \<le> 2 ^ 19" by (rule reconstruct_error) (use B in simp_all)
  moreover have "2 ^ 15 * 32 = 2 * (2 ^ 19 :: int)" by simp
  ultimately have e: "\<bar>2 ^ 20 * reconstruct rs iq v - 2 ^ 20 * x\<bar> \<le> iq * 2 ^ B + 3 * 2 ^ 19" by linarith
  define y where "y = reconstruct rs iq v"
  have "2 ^ 20 * \<bar>y - x\<bar> = \<bar>2 ^ 20 * y - 2 ^ 20 * x\<bar>"
    unfolding right_diff_distrib [symmetric] abs_mult by simp
  then have "2 ^ 20 * \<bar>y - x\<bar> \<le> iq * 2 ^ B + 3 * 2 ^ 19" using e by (simp add: y_def)
  moreover have "iq * 2 ^ B < 2 ^ 20 * (iq * 2 ^ B div 2 ^ 20) + 2 ^ 20"
    using pos_mod_bound [of "2 ^ 20" "iq * 2 ^ B"] minus_mod_eq_mult_div [of "iq * 2 ^ B" "2 ^ 20"] by simp
  ultimately have "\<bar>y - x\<bar> \<le> iq * 2 ^ B div 2 ^ 20 + 2" by simp
  moreover have "\<bar>Clip3 (- (2 ^ 15)) (2 ^ 15 - 1) y - x\<bar> \<le> \<bar>y - x\<bar>" using x by (simp add: Clip3_def)
  ultimately show ?thesis unfolding y_def by linarith
qed

lemma legal_bits:
  assumes "quant_legal tu st q" "qs_dequantCoef st = None"
  shows "quant_bits tu st q = 20 - dequant_shift tu st q"
  using assms by (auto simp: quant_legal_def quant_bits_def dequant_shift_def Let_def QUANT_SHIFT_def IQUANT_SHIFT_def)

lemma m_signHiding_new [simp]: "m_signHiding (new_CoeffCodingContext ch w h hide m d) = hide"
  by (simp add: new_CoeffCodingContext_def Let_def split_def del: g_scanOrder.simps)

lemma spread_idx:
  "spread (block_scan_table a b) (\<lambda>k. if k < length (block_scan_table a b) then f (scan_idx (block_scan_table a b ! k)) else 0)
    = map f [0..<length (block_scan_table a b)]"
proof (rule nth_equalityI)
  fix i assume "i < length (spread (block_scan_table a b)
    (\<lambda>k. if k < length (block_scan_table a b) then f (scan_idx (block_scan_table a b ! k)) else 0))"
  then have "i < length (block_scan_table a b)" by simp
  then show "spread (block_scan_table a b) (\<lambda>k. if k < length (block_scan_table a b) then f (scan_idx (block_scan_table a b ! k)) else 0) ! i
      = map f [0..<length (block_scan_table a b)] ! i"
    using block_levels.idx_rank [of i a b] by (simp add: spread_def)
qed simp

text \<open>A quantiser whose factors are at most the flat ones does not overflow when enough bits are shifted out.\<close>

definition quant_fits :: "TransformUnit \<Rightarrow> quant_setting \<Rightarrow> QpParam \<Rightarrow> int list \<Rightarrow> bool" where
  "quant_fits tu st q coef \<longleftrightarrow> 15 \<le> quant_bits tu st q \<and> length coef = tu_width tu * tu_height tu
     \<and> (\<forall>x\<in>set coef. - (2 ^ 15) \<le> x \<and> x < 2 ^ 15)
     \<and> (\<forall>fs. qs_quantCoef st = Some fs \<longrightarrow> tu_width tu * tu_height tu \<le> length fs \<and> (\<forall>f\<in>set fs. 0 \<le> f \<and> f \<le> 26214))"

lemma quant_scale_fits:
  assumes "quant_legal tu st q" "quant_fits tu st q coef" "n < tu_width tu * tu_height tu"
  shows "0 \<le> quant_scale tu st q n \<and> quant_scale tu st q n \<le> 26214"
proof (cases "qs_quantCoef st")
  case None
  then show ?thesis
    using scales_less [OF _ legal_rem [OF assms(1)], of "if trafo_scale tu then 1 else 0" "tu_transform_skip tu"]
    by (auto simp: quant_scale_def)
next
  case (Some fs)
  then have "fs ! n \<in> set fs" "\<forall>f\<in>set fs. 0 \<le> f \<and> f \<le> 26214" using assms(2,3) by (auto simp: quant_fits_def)
  then show ?thesis using Some by (simp add: quant_scale_def)
qed

lemma magnitude_fits:
  assumes "quant_legal tu st q" "quant_fits tu st q coef" "n < tu_width tu * tu_height tu"
  shows "0 \<le> magnitude_at tu st q coef n \<and> magnitude_at tu st q coef n \<le> 26214"
    and "level_at tu st q coef n = magnitude_at tu st q coef n * (if coef ! n < 0 then -1 else 1)"
proof -
  have c: "- (2 ^ 15) \<le> coef ! n" "coef ! n < 2 ^ 15" "15 \<le> nat (quant_bits tu st q)"
    using assms(2,3) by (auto simp: quant_fits_def)
  have ax: "\<bar>coef ! n\<bar> \<le> 2 ^ 15" using c by linarith
  note sc = quant_scale_fits [OF assms]
  note qb = quantise_bounds [OF c(3) ax sc [THEN conjunct1] sc [THEN conjunct2], of "qs_isIRAP st"]
  show M: "0 \<le> magnitude_at tu st q coef n \<and> magnitude_at tu st q coef n \<le> 26214"
    unfolding magnitude_at_def qb(1) using qb(2,3) by (rule conjI)
  have "tu_maxLog2TrDynamicRange tu = 15" using assms(1) by (simp add: quant_legal_def)
  then show "level_at tu st q coef n = magnitude_at tu st q coef n * (if coef ! n < 0 then -1 else 1)"
    using M by (simp add: level_at_def Clip3_def)
qed

lemma area_le: "block_sizes tu a b \<Longrightarrow> tu_width tu * tu_height tu \<le> 65536"
proof -
  assume "block_sizes tu a b"
  then have "tu_width tu * tu_height tu = 2 ^ (a + b)" "a + b \<le> 16" by (auto simp: block_sizes_def power_add)
  moreover from this have "(2 :: nat) ^ (a + b) \<le> 2 ^ 16" by (intro power_increasing) simp_all
  ultimately show ?thesis by simp
qed

lemma quant_loop_levels:
  assumes l: "quant_legal tu st q" "quant_fits tu st q coef" and t: "block_sizes tu a b"
  defines "N \<equiv> if qs_lfnst st then min (getLFNSTMatrixDim (tu_width tu) (tu_height tu)) (tu_width tu * tu_height tu) else tu_width tu * tu_height tu"
  shows "qs_lfnst st \<longrightarrow> getLFNSTMatrixDim (tu_width tu) (tu_height tu) \<le> tu_width tu * tu_height tu \<Longrightarrow>
    \<exists>d. quant_loop tu st q coef 0 d0 = (\<Sum>k<N. magnitude_at tu st q coef (scan_idx (block_scan_table a b ! k)), d,
       spread (block_scan_table a b) (\<lambda>k. if k < N then level_at tu st q coef (scan_idx (block_scan_table a b ! k)) else 0))"
proof -
  assume "qs_lfnst st \<longrightarrow> getLFNSTMatrixDim (tu_width tu) (tu_height tu) \<le> tu_width tu * tu_height tu"
  then have N: "N = (if qs_lfnst st then getLFNSTMatrixDim (tu_width tu) (tu_height tu) else tu_width tu * tu_height tu)"
    and le: "N \<le> tu_width tu * tu_height tu" by (auto simp: N_def)
  have sum: "0 + int (tu_width tu * tu_height tu) * 26214 < 2 ^ 31"
  proof -
    have "int (tu_width tu * tu_height tu) \<le> int 65536" using area_le [OF t] by (simp only: of_nat_le_iff)
    then have "int (tu_width tu * tu_height tu) * 26214 \<le> int 65536 * 26214" by (rule mult_right_mono) simp
    also have "\<dots> < 2 ^ 31" by simp
    finally show ?thesis unfolding add_0 .
  qed
  have mag: "\<And>n. n < tu_width tu * tu_height tu \<Longrightarrow> 0 \<le> magnitude_at tu st q coef n \<and> magnitude_at tu st q coef n \<le> 26214"
    by (rule magnitude_fits(1) [OF l])
  from quant_fold [OF t le order_refl mag sum, where ?d0.0 = d0] show ?thesis
    unfolding quant_loop_def Let_def N [symmetric] by auto
qed

text \<open>
  C39: What the encoder quantises the decoder gets back within one step. The conditions are: a legal setting,
  flat scales in both directions, no secondary transform (which would drop coefficients), no sign hiding (which
  moves levels), at least 15 bits shifted out, and coefficients of 16 bits. Then quantising a block, with block
  DPCM or without, and scaling it back moves no coefficient by more than the quantisation step and two: the
  scales of both directions are each other's inverse up to 32 in 2 to the power of 20, and rounding with
  either dead zone stays below one step.
\<close>

theorem quantisation_error:
  assumes "quant_legal tu st q" and "quant_fits tu st q coef" and "qs_quantCoef st = None" "qs_dequantCoef st = None"
    and "\<not> qs_lfnst st" "\<not> tu_signDataHiding tu" and "length dst = tu_width tu * tu_height tu"
  shows "\<exists>ys. dequant tu st q (snd (quant tu st q coef 0 d0)) dst = Inr ys \<and> length ys = tu_width tu * tu_height tu
    \<and> (\<forall>n<tu_width tu * tu_height tu. \<bar>ys ! n - coef ! n\<bar>
         \<le> dequant_scale tu st q n * 2 ^ nat (quant_bits tu st q) div 2 ^ 20 + 2)"
proof -
  obtain a b where t: "block_sizes tu a b" using assms(1) by (auto simp: quant_legal_def)
  define area where "area = tu_width tu * tu_height tu"
  have len: "length (block_scan_table a b) = area"
    using t block_levels.scan_length [of a b] by (simp add: area_def block_sizes_def min_absorb1)
  have m: "tu_maxLog2TrDynamicRange tu = 15" "tu_width tu \<le> qs_maxTrSize st" "0 < tu_width tu" "0 < tu_height tu"
    using assms(1) by (auto simp: quant_legal_def block_sizes_def)
  define levels where "levels = map (level_at tu st q coef) [0..<area]"
  have fits: "- (2 ^ 15) \<le> level_at tu st q coef n" "level_at tu st q coef n < 2 ^ 15" if "n < area" for n
    using magnitude_fits [OF assms(1,2) that [unfolded area_def]] by auto
  obtain d where "quant_loop tu st q coef 0 d0 = (\<Sum>k<area. magnitude_at tu st q coef (scan_idx (block_scan_table a b ! k)), d,
       spread (block_scan_table a b) (\<lambda>k. if k < area then level_at tu st q coef (scan_idx (block_scan_table a b ! k)) else 0))"
    using quant_loop_levels [OF assms(1,2) t, of d0] assms(5) by (auto simp: area_def)
  then have q: "snd (quant tu st q coef 0 d0)
      = (if qs_bdpcm st \<noteq> 0 then fwdResDPCM (qs_bdpcm st) (tu_width tu) (tu_height tu) levels else levels)"
    using assms(6) spread_idx [of a b "level_at tu st q coef", unfolded len] by (simp add: quant_def Let_def levels_def)
  have restored: "(if qs_bdpcm st \<noteq> 0 then invResDPCM (qs_bdpcm st) (tu_width tu) (tu_height tu) 15 (snd (quant tu st q coef 0 d0)) dst
      else snd (quant tu st q coef 0 d0)) = levels"
    unfolding q using dpcm_restores [OF m(3,4), of levels dst 15 "qs_bdpcm st"] fits assms(7)
    by (auto simp: levels_def area_def)
  have B: "15 \<le> nat (quant_bits tu st q)" "dequant_shift tu st q = 20 - int (nat (quant_bits tu st q))"
    using assms(2) legal_bits [OF assms(1,4)] by (auto simp: quant_fits_def)
  define ys where "ys = map (\<lambda>n. dequantise 15 (scale_bits st) (dequant_shift tu st q) (dequant_scale tu st q n) (levels ! n)) [0..<area]"
  have "dequant tu st q (snd (quant tu st q coef 0 d0)) dst = Inr ys"
    unfolding dequant_def Let_def m(1) restored using m(2) by (simp add: ys_def area_def)
  moreover have "\<bar>ys ! n - coef ! n\<bar> \<le> dequant_scale tu st q n * 2 ^ nat (quant_bits tu st q) div 2 ^ 20 + 2" if n: "n < area" for n
  proof -
    note mg = magnitude_fits [OF assms(1,2) n [unfolded area_def]]
    have c: "- (2 ^ 15) \<le> coef ! n" "coef ! n < 2 ^ 15" using assms(2) n by (auto simp: quant_fits_def area_def)
    note sc = scales_less [OF _ legal_rem [OF assms(1)], of "if trafo_scale tu then 1 else 0" "tu_transform_skip tu"]
    have "ys ! n = Clip3 (- (2 ^ 15)) (2 ^ 15 - 1) (reconstruct (dequant_shift tu st q) (dequant_scale tu st q n) (level_at tu st q coef n))"
      using n legal_dequantise [OF assms(1) n [unfolded area_def] fits [OF n]] by (simp add: ys_def levels_def)
    moreover have "level_at tu st q coef n = fst (quantise (qs_isIRAP st) (nat (quant_bits tu st q)) (quant_scale tu st q n) (coef ! n))
        * (if coef ! n < 0 then -1 else 1)" unfolding mg(2) magnitude_at_def ..
    moreover have "0 \<le> quant_scale tu st q n" "quant_scale tu st q n \<le> 26214" "0 \<le> dequant_scale tu st q n"
      "\<bar>quant_scale tu st q n * dequant_scale tu st q n - 2 ^ 20\<bar> \<le> 32"
      unfolding quant_scale_def dequant_scale_def assms(3,4) option.case using sc by auto
    ultimately show ?thesis using quantisation_error_scalar [OF B c] by simp
  qed
  ultimately show ?thesis by (auto simp: ys_def area_def)
qed

definition sample_setting :: quant_setting where
  "sample_setting = \<lparr>qs_bitDepth = 10, qs_extendedPrecision = False, qs_isIRAP = True, qs_bdpcm = 0, qs_lfnst = False,
     qs_quantCoef = None, qs_dequantCoef = None, qs_maxTrSize = 64\<rparr>"

definition sample_QpParam :: QpParam where "sample_QpParam = \<lparr>Qps = [38, 38], pers = [6, 6], rems = [2, 2]\<rparr>"

definition sample_unit :: "bool \<Rightarrow> TransformUnit" where
  "sample_unit hide = \<lparr>tu_chType = 0, tu_width = 4, tu_height = 4, tu_transform_skip = False, tu_signDataHiding = hide,
     tu_depQuantEnabledIdc = 0, tu_maxLog2TrDynamicRange = 15, tu_delayedSignCoding = False\<rparr>"

lemma sample_quant_legal: "quant_legal (sample_unit hide) sample_setting sample_QpParam"
  unfolding quant_legal_def
  by (intro conjI exI [of _ 2] exI [of _ 0]) (auto simp: sample_unit_def sample_setting_def sample_QpParam_def block_sizes_def
      Qp_def per_def qp_rem_def MAX_QP_def)

lemma sample_quant_fits:
  "quant_fits (sample_unit hide) sample_setting sample_QpParam
     [900, -310, 45, 2, 620, 77, -31, 0, 250, 14, 3, 1, -90, 8, 0, -1]"
proof -
  have f: "floorLog2 4 = 2" using floorLog2_pow [of 2] by simp
  show ?thesis
    by (simp add: quant_fits_def sample_unit_def sample_setting_def sample_QpParam_def quant_bits_def Let_def getTransformShift_def f
        per_def QUANT_SHIFT_def needsBlockSizeTrafoScale_def needsSqrt2Scale_def isNonLog2BlockSize_def push_bit_eq_mult)
qed

lemma sample_step:
  "quant_bits (sample_unit hide) sample_setting sample_QpParam = 23"
  "dequant_scale (sample_unit hide) sample_setting sample_QpParam n = 51"
proof -
  have f: "floorLog2 4 = 2" using floorLog2_pow [of 2] by simp
  show "quant_bits (sample_unit hide) sample_setting sample_QpParam = 23"
    by (simp add: sample_unit_def sample_setting_def sample_QpParam_def quant_bits_def Let_def getTransformShift_def f
        per_def QUANT_SHIFT_def needsBlockSizeTrafoScale_def needsSqrt2Scale_def isNonLog2BlockSize_def push_bit_eq_mult)
  show "dequant_scale (sample_unit hide) sample_setting sample_QpParam n = 51"
    by (simp add: sample_unit_def sample_setting_def sample_QpParam_def dequant_scale_def f qp_rem_def g_invQuantScales_def
        needsBlockSizeTrafoScale_def needsSqrt2Scale_def isNonLog2BlockSize_def)
qed

text \<open>With a step of 408 no coefficient of the block moves by more than 410.\<close>

theorem quantisation_error_witness:
  "\<exists>ys. dequant (sample_unit False) sample_setting sample_QpParam (snd (quant (sample_unit False) sample_setting sample_QpParam
      [900, -310, 45, 2, 620, 77, -31, 0, 250, 14, 3, 1, -90, 8, 0, -1] 0 [])) (replicate 16 0) = Inr ys \<and> length ys = 16
    \<and> (\<forall>n<16. \<bar>ys ! n - [900, -310, 45, 2, 620, 77, -31, 0, 250, 14, 3, 1, -90, 8, 0, -1] ! n\<bar> \<le> 410)"
  using quantisation_error [OF sample_quant_legal sample_quant_fits, of False "replicate 16 0" "[]", unfolded sample_step]
  by (simp add: sample_setting_def sample_unit_def)

theorem dequant_is_exact_witness:
  "\<exists>ys. dequant (sample_unit False) sample_setting sample_QpParam [20, -7, 1, 0, 14, 2, -1, 0, 6, 0, 0, 0, -2, 0, 0, 0] (replicate 16 0) = Inr ys"
  using dequant_is_exact [OF sample_quant_legal [of False], of "[20, -7, 1, 0, 14, 2, -1, 0, 6, 0, 0, 0, -2, 0, 0, 0]" "replicate 16 0"]
  by (auto simp: sample_unit_def)

end
