(* ===== verification/SignHiding.thy ===== *)
theory SignHiding
  imports QuantError
begin

unbundle bit_operations_syntax

text \<open>
  What the encoder's sign hiding promises to coefficient coding: after \<open>xSignBitHidingHDQ\<close> the sign of the
  first level of every group whose sign is not written is the parity of the group, and quantised blocks are
  blocks that \<open>residual_coding\<close> carries to the decoder.
\<close>

section \<open>The parity of a group\<close>

definition ends_of :: "(nat \<Rightarrow> int) \<Rightarrow> nat \<Rightarrow> nat \<Rightarrow> nat \<Rightarrow> nat \<Rightarrow> bool" where
  "ends_of f a b i j \<longleftrightarrow> a \<le> i \<and> i \<le> j \<and> j < b \<and> f i \<noteq> 0 \<and> f j \<noteq> 0
     \<and> (\<forall>k. a \<le> k \<and> k < i \<longrightarrow> f k = 0) \<and> (\<forall>k. j < k \<and> k < b \<longrightarrow> f k = 0)"

definition arranged :: "(nat \<Rightarrow> int) \<Rightarrow> nat \<Rightarrow> nat \<Rightarrow> bool" where
  "arranged f a b \<longleftrightarrow> (\<forall>i j. ends_of f a b i j \<longrightarrow> 4 \<le> int j - int i \<longrightarrow> odd (\<Sum>k=a..<b. f k) = (f i < 0))"

lemma ends_unique: "ends_of f a b i j \<Longrightarrow> ends_of f a b i' j' \<Longrightarrow> i' = i \<and> j' = j"
  unfolding ends_of_def by (metis linorder_neqE_nat order.trans order.strict_trans1)

lemma ends_exist:
  assumes "k \<in> {a..<b}" "f k \<noteq> 0"
  shows "\<exists>i j. ends_of f a b i j"
proof -
  define S where "S = {k \<in> {a..<b}. f k \<noteq> 0}"
  have S: "finite S" "S \<noteq> {}" using assms by (auto simp: S_def)
  have m: "Min S \<in> S" "Max S \<in> S" using S by simp_all
  have out: "f x = 0" if "x < Min S \<or> Max S < x" "x \<in> {a..<b}" for x
  proof (rule ccontr)
    assume "f x \<noteq> 0"
    then have "x \<in> S" using that(2) by (simp add: S_def)
    then have "Min S \<le> x" "x \<le> Max S" using S(1) by simp_all
    then show False using that(1) by simp
  qed
  have "a \<le> Min S" "Min S \<le> Max S" "Max S < b" "f (Min S) \<noteq> 0" "f (Max S) \<noteq> 0" "Min S < b" "a \<le> Max S"
    using m S(1) Min_le [OF S(1) m(2)] by (auto simp: S_def)
  then have "ends_of f a b (Min S) (Max S)" unfolding ends_of_def using out by auto
  then show ?thesis by blast
qed

lemma last_greatest: "sorted_wrt (<) ns \<Longrightarrow> k \<in> set ns \<Longrightarrow> k \<le> last ns" for k :: nat
proof (induction ns)
  case (Cons n ns)
  then show ?case
  proof (cases "ns = []")
    case False
    then have "n < last ns" using Cons.prems(1) by simp
    then have "n \<le> last ns" by simp
    then show ?thesis using Cons False by auto
  qed simp
qed simp

lemma arranged_cong: "(\<And>k. a \<le> k \<Longrightarrow> k < b \<Longrightarrow> f k = g k) \<Longrightarrow> arranged f a b = arranged g a b"
proof -
  assume e: "\<And>k. a \<le> k \<Longrightarrow> k < b \<Longrightarrow> f k = g k"
  have "ends_of f a b i j = ends_of g a b i j" for i j unfolding ends_of_def using e by auto
  moreover have "(\<Sum>k=a..<b. f k) = (\<Sum>k=a..<b. g k)" using e by (intro sum.cong) auto
  moreover have "ends_of g a b i j \<Longrightarrow> f i = g i" for i j using e by (auto simp: ends_of_def)
  ultimately show ?thesis unfolding arranged_def by auto
qed

text \<open>Changing one level by one turns the parity; the sign of the first level must stay.\<close>

lemma arranged_change:
  assumes e: "ends_of f a b i j" and k: "a \<le> k" "k < b"
    and wrong: "odd (\<Sum>k=a..<b. f k) \<noteq> (f i < 0)"
    and step: "v = f k + 1 \<or> v = f k - 1"
    and before: "k < i \<Longrightarrow> v \<noteq> 0 \<and> (v < 0) = (f i < 0)"
    and at: "k = i \<Longrightarrow> v \<noteq> 0 \<and> (v < 0) = (f i < 0)"
  shows "arranged (f(k := v)) a b"
  unfolding arranged_def
proof (intro allI impI)
  fix i' j' assume e': "ends_of (f(k := v)) a b i' j'"
  have "(\<Sum>m=a..<b. (f(k := v)) m) = (\<Sum>m=a..<b. f m) + (v - f k)"
  proof -
    have "(\<Sum>m=a..<b. (f(k := v)) m) = (\<Sum>m=a..<b. f m + (if m = k then v - f k else 0))" by (intro sum.cong) auto
    also have "\<dots> = (\<Sum>m=a..<b. f m) + (v - f k)" using k by (simp add: sum.distrib)
    finally show ?thesis .
  qed
  then have par: "odd (\<Sum>m=a..<b. (f(k := v)) m) \<noteq> odd (\<Sum>m=a..<b. f m)" using step by auto
  have "((f(k := v)) i' < 0) = (f i < 0)"
  proof (cases "k < i")
    case True
    have "i' = k"
    proof (rule ccontr)
      assume "i' \<noteq> k"
      moreover have "(f(k := v)) k \<noteq> 0" using before [OF True] by simp
      ultimately have "i' < k" using e' k by (auto simp: ends_of_def)
      then show False using e e' True by (auto simp: ends_of_def)
    qed
    then show ?thesis using before [OF True] by simp
  next
    case False
    have nz: "(f(k := v)) i \<noteq> 0" "((f(k := v)) i < 0) = (f i < 0)" using at e by (auto simp: ends_of_def)
    have "i' = i"
    proof (rule ccontr)
      assume "i' \<noteq> i"
      then have "i' < i" using e e' nz(1) by (auto simp: ends_of_def)
      then show False using e e' False by (auto simp: ends_of_def)
    qed
    then show ?thesis using nz by simp
  qed
  then show "odd (\<Sum>m=a..<b. (f(k := v)) m) = ((f(k := v)) i' < 0)" using par wrong by auto
qed

lemma arranged_hidden:
  assumes "arranged f a b"
  shows "hidden_parity c f (rev [a..<b])"
proof -
  define ns where "ns = filter (\<lambda>k. f k \<noteq> 0) [a..<b]"
  have r: "nonzero_of f (rev [a..<b]) = rev ns" by (simp add: nonzero_of_def ns_def rev_filter)
  show ?thesis
  proof (cases "ns = []")
    case False
    have mem: "k \<in> set ns \<longleftrightarrow> a \<le> k \<and> k < b \<and> f k \<noteq> 0" for k by (auto simp: ns_def)
    have srt: "sorted_wrt (<) ns" unfolding ns_def by (intro sorted_wrt_filter sorted_wrt_upt)
    have "hd ns \<in> set ns" "last ns \<in> set ns" using False by simp_all
    moreover have "hd ns \<le> k" if "k \<in> set ns" for k
      using srt that by (cases ns) auto
    moreover have "k \<le> last ns" if "k \<in> set ns" for k
      using last_greatest [OF srt that] .
    ultimately have e: "ends_of f a b (hd ns) (last ns)" unfolding ends_of_def
      using mem by (meson linorder_not_less order_less_imp_le order_le_less_trans order_less_le_trans)
    have "(\<Sum>k=a..<b. f k) = (\<Sum>k\<leftarrow>[a..<b]. f k)" by (simp add: interv_sum_list_conv_sum_set_nat)
    moreover have "odd (\<Sum>k\<leftarrow>ks. \<bar>f k\<bar>) = odd (\<Sum>k\<leftarrow>ks. f k)" for ks by (induction ks) auto
    ultimately have "odd (\<Sum>k\<leftarrow>rev ns. \<bar>f k\<bar>) = odd (\<Sum>k=a..<b. f k)"
      using sum_nonzero [of f "rev [a..<b]"] by (simp add: r rev_map [symmetric])
    then show ?thesis using assms e False
      by (auto simp: hidden_parity_def Let_def r hideSign_def SBH_THRESHOLD_def arranged_def hd_rev last_rev)
  qed (simp add: hidden_parity_def r)
qed


section \<open>One group\<close>

lemma find_some: "(\<exists>x\<in>set xs. P x) \<Longrightarrow> \<exists>x. find P xs = Some x"
  by (induction xs) auto

lemma find_upt:
  assumes "find P [0..<g] = Some n"
  shows "n < g" "P n" "\<And>k. k < n \<Longrightarrow> \<not> P k"
proof -
  obtain i where i: "i < g" "n = i" "P i" "\<forall>k<i. \<not> P k" using assms by (auto simp: find_Some_iff)
  then show "n < g" "P n" "\<And>k. k < n \<Longrightarrow> \<not> P k" by auto
qed

lemma find_rev_upt:
  assumes "find P (rev [0..<g]) = Some n"
  shows "n < g" "P n" "\<And>k. n < k \<Longrightarrow> k < g \<Longrightarrow> \<not> P k"
proof -
  obtain i where i: "i < g" "n = g - Suc i" "P (g - Suc i)" "\<forall>j<i. \<not> P (g - Suc j)"
    using assms by (auto simp: find_Some_iff rev_nth)
  show "n < g" "P n" using i by auto
  fix k assume k: "n < k" "k < g"
  then have "g - Suc (g - Suc k) = k" "g - Suc k < i" using i(1,2) by auto
  then show "\<not> P k" using i(4) by metis
qed

lemma group_ends:
  fixes q :: "int list"
  defines "f \<equiv> \<lambda>c k. q ! blockPos c k"
  shows "ends_of (f c) s (s + 2 ^ log2CGSize c) (n + s) (m + s) \<Longrightarrow> first_nz c q s = int n \<and> last_nz c q s = int m"
    and "(\<forall>k. s \<le> k \<and> k < s + 2 ^ log2CGSize c \<longrightarrow> f c k = 0) \<Longrightarrow> first_nz c q s = 2 ^ log2CGSize c \<and> last_nz c q s = -1"
proof -
  define g :: nat where "g = 2 ^ log2CGSize c"
  show "first_nz c q s = int n \<and> last_nz c q s = int m" if e: "ends_of (f c) s (s + 2 ^ log2CGSize c) (n + s) (m + s)"
  proof -
    have e': "n \<le> m" "m < g" "f c (n + s) \<noteq> 0" "f c (m + s) \<noteq> 0"
      and o: "\<And>k. k < n \<Longrightarrow> f c (k + s) = 0" "\<And>k. m < k \<Longrightarrow> k < g \<Longrightarrow> f c (k + s) = 0"
      using e unfolding ends_of_def g_def [symmetric] by auto
    have "n \<in> set [0..<g]" "m \<in> set (rev [0..<g])" using e' by auto
    then obtain n' m' where F: "find (\<lambda>n. f c (n + s) \<noteq> 0) [0..<g] = Some n'" "find (\<lambda>n. f c (n + s) \<noteq> 0) (rev [0..<g]) = Some m'"
      using e' find_some [of "[0..<g]" "\<lambda>n. f c (n + s) \<noteq> 0"] find_some [of "rev [0..<g]" "\<lambda>n. f c (n + s) \<noteq> 0"] by blast
    have "n' = n" using find_upt [OF F(1)] e' o(1) by (metis linorder_neqE_nat)
    moreover have "m' = m" using find_rev_upt [OF F(2)] e' o(2) by (metis linorder_neqE_nat)
    ultimately show ?thesis using F by (simp add: first_nz_def last_nz_def f_def g_def)
  qed
  show "first_nz c q s = 2 ^ log2CGSize c \<and> last_nz c q s = -1" if z: "\<forall>k. s \<le> k \<and> k < s + 2 ^ log2CGSize c \<longrightarrow> f c k = 0"
  proof -
    have "find (\<lambda>n. f c (n + s) \<noteq> 0) [0..<g] = None" "find (\<lambda>n. f c (n + s) \<noteq> 0) (rev [0..<g]) = None"
      using z by (auto simp: find_None_iff g_def)
    then show ?thesis by (simp add: first_nz_def last_nz_def f_def g_def)
  qed
qed

text \<open>A change the search may choose for position \<open>n\<close> of the group.\<close>

definition allowed_change :: "CoeffCodingContext \<Rightarrow> int list \<Rightarrow> int list \<Rightarrow> nat \<Rightarrow> nat \<Rightarrow> int \<Rightarrow> nat \<Rightarrow> int \<Rightarrow> bool" where
  "allowed_change c q pCoef s first signbit n v \<longleftrightarrow>
     (if q ! blockPos c (n + s) \<noteq> 0 then v = 1 \<or> v = -1 \<and> \<not> (n = first \<and> \<bar>q ! blockPos c (n + s)\<bar> = 1)
      else v = 1 \<and> (n < first \<longrightarrow> (if pCoef ! blockPos c (n + s) \<ge> 0 then 0 else 1) = signbit))"

definition search_inv :: "CoeffCodingContext \<Rightarrow> int list \<Rightarrow> int list \<Rightarrow> nat \<Rightarrow> nat \<Rightarrow> int \<Rightarrow> nat \<Rightarrow> change_search \<Rightarrow> bool" where
  "search_inv c q pCoef s first signbit T r \<longleftrightarrow>
     cs_minPos r = -1 \<and> cs_minCostInc r = MAX_COST
     \<or> cs_minCostInc r < MAX_COST
        \<and> (\<exists>n<T. cs_minPos r = int (blockPos c (n + s)) \<and> allowed_change c q pCoef s first signbit n (cs_finalChange r))"

lemma change_cost_cases:
  assumes "change_cost q pCoef deltaU (int first) signbit (blockPos c (n + s)) cc n = (cost, v)"
  shows "cost = MAX_COST \<or> allowed_change c q pCoef s first signbit n v"
    and "q ! blockPos c (n + s) \<noteq> 0 \<Longrightarrow> n \<noteq> first \<Longrightarrow> cost < MAX_COST"
  using assms by (auto simp: change_cost_def allowed_change_def MAX_COST_def split: if_splits)

lemma search_finds:
  assumes "m \<in> set ns" "q ! blockPos c (m + s) \<noteq> 0" "m \<noteq> first" "\<And>n. n \<in> set ns \<Longrightarrow> n < T" "search_inv c q pCoef s first signbit T r"
  shows "search_inv c q pCoef s first signbit T (fold (search_step c q pCoef deltaU (int first) signbit s) ns r)
    \<and> cs_minCostInc (fold (search_step c q pCoef deltaU (int first) signbit s) ns r) < MAX_COST"
proof -
  define F where "F = search_step c q pCoef deltaU (int first) signbit s"
  have step: "search_inv c q pCoef s first signbit T (F n r)" "cs_minCostInc (F n r) \<le> cs_minCostInc r"
    "n = m \<Longrightarrow> cs_minCostInc (F n r) < MAX_COST"
    if I: "search_inv c q pCoef s first signbit T r" and n: "n < T" for n r
  proof -
    obtain cost v where c: "change_cost q pCoef deltaU (int first) signbit (blockPos c (n + s)) (cs_curChange r) n = (cost, v)" by fastforce
    note cc = change_cost_cases [OF c]
    have le: "cs_minCostInc r \<le> MAX_COST" using I by (auto simp: search_inv_def)
    have F: "F n r = (if cost < cs_minCostInc r
         then \<lparr>cs_minCostInc = cost, cs_finalChange = v, cs_minPos = int (blockPos c (n + s)), cs_curChange = v\<rparr>
         else r\<lparr>cs_curChange := v\<rparr>)" by (simp add: F_def search_step_def Let_def c)
    show "cs_minCostInc (F n r) \<le> cs_minCostInc r" by (simp add: F)
    show "cs_minCostInc (F n r) < MAX_COST" if "n = m"
    proof -
      have "cost < MAX_COST" using cc(2) assms(2,3) that by simp
      then show ?thesis unfolding F by auto
    qed
    show "search_inv c q pCoef s first signbit T (F n r)"
    proof (cases "cost < cs_minCostInc r")
      case True
      then have "allowed_change c q pCoef s first signbit n v" using cc(1) le by auto
      then show ?thesis using True n le by (auto simp: F search_inv_def)
    next
      case False
      then show ?thesis using I by (simp add: F search_inv_def)
    qed
  qed
  have "search_inv c q pCoef s first signbit T (fold F ns r) \<and> cs_minCostInc (fold F ns r) \<le> cs_minCostInc r
      \<and> (m \<in> set ns \<longrightarrow> cs_minCostInc (fold F ns r) < MAX_COST)"
    if "search_inv c q pCoef s first signbit T r" "\<And>n. n \<in> set ns \<Longrightarrow> n < T" for ns r
    using that
  proof (induction ns arbitrary: r)
    case (Cons n ns)
    note st = step [OF Cons.prems(1), of n] Cons.prems(2)
    have IH: "search_inv c q pCoef s first signbit T (fold F ns (F n r)) \<and> cs_minCostInc (fold F ns (F n r)) \<le> cs_minCostInc (F n r)
      \<and> (m \<in> set ns \<longrightarrow> cs_minCostInc (fold F ns (F n r)) < MAX_COST)" using st by (intro Cons.IH) auto
    then show ?case using st by fastforce
  qed simp
  from this [OF assms(5,4)] assms(1) show ?thesis unfolding F_def by blast
qed


text \<open>What the chosen change does to the level.\<close>

lemma apply_change_step:
  fixes q :: "int list"
  assumes m: "2 \<le> m" and p: "cs_minPos r = int p"
    and rng: "- (2 ^ m) \<le> q ! p" "q ! p \<le> 2 ^ m - 1"
    and sg: "pCoef ! p \<ge> 0 \<Longrightarrow> 0 \<le> q ! p" "pCoef ! p < 0 \<Longrightarrow> q ! p \<le> 0"
    and ch: "if q ! p \<noteq> 0 then cs_finalChange r = 1 \<or> cs_finalChange r = -1 else cs_finalChange r = 1"
  shows "\<exists>v. apply_change m pCoef r q = q[p := v] \<and> (v = q ! p + 1 \<or> v = q ! p - 1)
    \<and> - (2 ^ m) \<le> v \<and> v \<le> 2 ^ m - 1 \<and> (pCoef ! p \<ge> 0 \<longrightarrow> 0 \<le> v) \<and> (pCoef ! p < 0 \<longrightarrow> v \<le> 0)
    \<and> (q ! p = 0 \<longrightarrow> v = (if pCoef ! p \<ge> 0 then 1 else -1))
    \<and> (q ! p \<noteq> 0 \<longrightarrow> \<not> (\<bar>q ! p\<bar> = 1 \<and> cs_finalChange r = -1) \<longrightarrow> v \<noteq> 0 \<and> (v < 0) = (q ! p < 0))"
proof -
  define x where "x = q ! p"
  define A :: int where "A = 2 ^ m"
  have "(2 :: int) ^ 2 \<le> 2 ^ m" using m by (intro power_increasing) auto
  then have A: "4 \<le> A" by (simp add: A_def)
  define fc where "fc = (if x = A - 1 \<or> x = - A then -1 else cs_finalChange r)"
  define v where "v = (if pCoef ! p \<ge> 0 then x + fc else x - fc)"
  have "apply_change m pCoef r q = q[p := v]" by (simp add: apply_change_def Let_def p v_def fc_def x_def A_def)
  moreover have "(v = x + 1 \<or> v = x - 1) \<and> - A \<le> v \<and> v \<le> A - 1 \<and> (pCoef ! p \<ge> 0 \<longrightarrow> 0 \<le> v) \<and> (pCoef ! p < 0 \<longrightarrow> v \<le> 0)
    \<and> (x = 0 \<longrightarrow> v = (if pCoef ! p \<ge> 0 then 1 else -1))
    \<and> (x \<noteq> 0 \<longrightarrow> \<not> (\<bar>x\<bar> = 1 \<and> cs_finalChange r = -1) \<longrightarrow> v \<noteq> 0 \<and> (v < 0) = (x < 0))"
  proof -
    have f: "cs_finalChange r = 1 \<or> cs_finalChange r = -1 \<and> x \<noteq> 0" "x = 0 \<Longrightarrow> cs_finalChange r = 1"
      using ch by (auto simp: x_def split: if_splits)
    show ?thesis
    proof (cases "pCoef ! p \<ge> 0")
      case True
      have "0 \<le> x" "x \<le> A - 1" using sg(1) [OF True] rng by (simp_all add: x_def A_def)
      moreover have "v = x + fc" using True by (simp add: v_def)
      ultimately show ?thesis using True A f by (cases "x = A - 1"; cases "cs_finalChange r = 1") (auto simp: fc_def)
    next
      case False
      have "x \<le> 0" "- A \<le> x" using sg(2) False rng by (simp_all add: x_def A_def)
      moreover have "v = x - fc" using False by (simp add: v_def)
      ultimately show ?thesis using False A f by (cases "x = - A"; cases "cs_finalChange r = 1") (auto simp: fc_def)
    qed
  qed
  ultimately show ?thesis unfolding x_def A_def by blast
qed

text \<open>Levels by scan position. A level has the sign of its coefficient, and the range of the transform.\<close>

abbreviation at_scan :: "ScanElement list \<Rightarrow> int list \<Rightarrow> nat \<Rightarrow> int" where
  "at_scan scan q \<equiv> \<lambda>k. q ! scan_idx (scan ! k)"

definition signs_follow :: "ScanElement list \<Rightarrow> nat \<Rightarrow> int list \<Rightarrow> int list \<Rightarrow> bool" where
  "signs_follow scan m pCoef q \<longleftrightarrow> length q = length scan \<and> (\<forall>k<length scan. - (2 ^ m) \<le> at_scan scan q k \<and> at_scan scan q k \<le> 2 ^ m - 1
     \<and> (at_scan scan pCoef k \<ge> 0 \<longrightarrow> 0 \<le> at_scan scan q k) \<and> (at_scan scan pCoef k < 0 \<longrightarrow> at_scan scan q k \<le> 0))"

context level_order
begin

lemma at_scan_update:
  assumes "length q = length scan" "k < length scan" "j < length scan"
  shows "at_scan scan (q[scan_idx (scan ! k) := v]) j = ((at_scan scan q)(k := v)) j"
proof (cases "j = k")
  case False
  then have "scan_idx (scan ! k) \<noteq> scan_idx (scan ! j)" using assms rank_idx by metis
  then show ?thesis using False by simp
qed (use assms idx_less [of k] in simp)

lemma hide_group_step:
  assumes c: "block_fits c scan w h" and m: "2 \<le> m" and inside: "s * 2 ^ log2CGSize c + 2 ^ log2CGSize c \<le> length scan"
    and ok: "signs_follow scan m pCoef q"
    and r: "hide_group c pCoef deltaU m s (lastCG, q) = (lastCG', q')"
  shows "signs_follow scan m pCoef q' \<and> arranged (at_scan scan q') (s * 2 ^ log2CGSize c) (s * 2 ^ log2CGSize c + 2 ^ log2CGSize c)
    \<and> (\<forall>k<length scan. k < s * 2 ^ log2CGSize c \<or> s * 2 ^ log2CGSize c + 2 ^ log2CGSize c \<le> k \<longrightarrow> at_scan scan q' k = at_scan scan q k)
    \<and> (\<forall>k<length scan. \<bar>at_scan scan q' k - at_scan scan q k\<bar> \<le> 1)"
proof -
  define g :: nat where "g = 2 ^ log2CGSize c"
  define a where "a = s * g"
  define f where "f = at_scan scan q"
  have bp: "blockPos c k = scan_idx (scan ! k)" for k using c by (simp add: blockPos_def block_fits_def)
  have fc: "(\<lambda>k. q ! blockPos c k) = f" by (simp add: f_def bp)
  have g: "0 < g" "a + g \<le> length scan" using inside by (simp_all add: g_def a_def)
  define first where "first = first_nz c q a"
  define last where "last = last_nz c q a"
  define absSum where "absSum = (\<Sum>n\<leftarrow>[nat first..<nat (last + 1)]. q ! blockPos c (n + a))"
  define signbit :: int where "signbit = (if q ! blockPos c (a + nat first) > 0 then 0 else 1)"
  define lc where "lc = (if last \<ge> 0 \<and> lastCG = -1 then 1 else lastCG)"
  define T where "T = nat ((if lc = 1 then last else int g - 1) + 1)"
  define search where "search = fold (search_step c q pCoef deltaU first signbit a) (rev [0..<T])
      \<lparr>cs_minCostInc = MAX_COST, cs_finalChange = 0, cs_minPos = -1, cs_curChange = 0\<rparr>"
  have q': "q' = (if last - first \<ge> 4 \<and> signbit \<noteq> absSum AND 1 then apply_change m pCoef search q else q)"
    using r unfolding hide_group_def prod.case Let_def g_def [symmetric] a_def [symmetric] first_def [symmetric] last_def [symmetric]
      absSum_def [symmetric] signbit_def [symmetric] lc_def [symmetric] T_def [symmetric] search_def [symmetric] SBH_THRESHOLD_def
    by (simp split: if_splits)
  show ?thesis
  proof (cases "\<exists>k\<in>{a..<a + g}. f k \<noteq> 0")
    case False
    then have "first = 2 ^ log2CGSize c \<and> last = -1"
      unfolding first_def last_def by (intro group_ends(2)) (use False in \<open>auto simp: bp f_def g_def [symmetric]\<close>)
    moreover have "(0 :: int) < 2 ^ log2CGSize c" by simp
    ultimately have "\<not> 4 \<le> last - first" by linarith
    then have "q' = q" unfolding q' by simp
    moreover have "arranged f a (a + g)" using False by (auto simp: arranged_def ends_of_def)
    ultimately show ?thesis using ok by (simp add: f_def g_def [symmetric] a_def [symmetric])
  next
    case True
    then obtain i j where e: "ends_of f a (a + g) i j" using ends_exist [of _ a "a + g" f] by blast
    define n where "n = i - a"
    define n' where "n' = j - a"
    have ij: "i = n + a" "j = n' + a" "n \<le> n'" "n' < g" using e by (auto simp: ends_of_def n_def n'_def)
    have "ends_of (\<lambda>k. q ! blockPos c k) a (a + 2 ^ log2CGSize c) (n + a) (n' + a)"
      using e unfolding fc g_def [symmetric] ij(1,2) .
    then have fl: "first = int n" "last = int n'" unfolding first_def last_def using group_ends(1) [of q c a n n'] by auto
    have sum: "absSum = (\<Sum>k=a..<a + g. f k)"
    proof -
      have "absSum = (\<Sum>k\<in>{n..<Suc n'}. f (k + a))"
        unfolding absSum_def fl by (simp add: interv_sum_list_conv_sum_set_nat f_def bp nat_add_distrib)
      also have "\<dots> = (\<Sum>k\<in>{n + a..<Suc n' + a}. f k)" by (rule sum.shift_bounds_nat_ivl [symmetric])
      also have "\<dots> = (\<Sum>k=a..<a + g. f k)"
        using e ij by (intro sum.mono_neutral_left) (auto simp: ends_of_def)
      finally show ?thesis .
    qed
    have sb: "signbit = (if f i < 0 then 1 else 0)" using e by (auto simp: signbit_def bp f_def fl ij ends_of_def add.commute)
    have cond: "signbit \<noteq> absSum AND 1 \<longleftrightarrow> odd (\<Sum>k=a..<a + g. f k) \<noteq> (f i < 0)"
      unfolding sum [symmetric] sb by (auto simp: and_one_eq odd_iff_mod_2_eq_one even_iff_mod_2_eq_zero)
    show ?thesis
    proof (cases "last - first \<ge> 4 \<and> signbit \<noteq> absSum AND 1")
      case False
      then have "q' = q" unfolding q' by (rule if_not_P)
      moreover have "arranged f a (a + g)" unfolding arranged_def
      proof (intro allI impI)
        fix i' j' assume "ends_of f a (a + g) i' j'" "4 \<le> int j' - int i'"
        then have "i' = i" "j' = j" "4 \<le> int j - int i" using ends_unique [OF e, of i' j'] by auto
        then show "odd (\<Sum>k=a..<a + g. f k) = (f i' < 0)" using False cond by (auto simp: fl ij)
      qed
      ultimately show ?thesis using ok by (simp add: f_def g_def [symmetric] a_def [symmetric])
    next
      case spread: True
      have nn: "n \<noteq> n'" using spread by (auto simp: fl)
      have T: "n' < T" "T \<le> g" using ij(4) by (auto simp: T_def fl)
      have "search_inv c q pCoef a n signbit T search \<and> cs_minCostInc search < MAX_COST"
        unfolding search_def fl
      proof (rule search_finds)
        show "n' \<in> set (rev [0..<T])" "n' \<noteq> n" using T nn by auto
        show "q ! blockPos c (n' + a) \<noteq> 0" using e by (simp add: bp ij ends_of_def f_def)
      qed (auto simp: search_inv_def)
      then have "\<exists>d<T. cs_minPos search = int (blockPos c (d + a)) \<and> allowed_change c q pCoef a n signbit d (cs_finalChange search)"
        unfolding search_inv_def by auto
      then obtain d where d: "d < g" "cs_minPos search = int (blockPos c (d + a))" "allowed_change c q pCoef a n signbit d (cs_finalChange search)"
        using T(2) order.strict_trans2 by blast
      define k where "k = d + a"
      have k: "k < length scan" "a \<le> k" "k < a + g" using d g by (auto simp: k_def)
      have fk: "q ! blockPos c k = f k" by (simp add: f_def bp)
      define p where "p = blockPos c k"
      have al: "if f k \<noteq> 0 then cs_finalChange search = 1 \<or> cs_finalChange search = -1 \<and> \<not> (k = i \<and> \<bar>f k\<bar> = 1)
          else cs_finalChange search = 1 \<and> (k < i \<longrightarrow> (if at_scan scan pCoef k \<ge> 0 then 0 else 1) = signbit)"
        using d(3) unfolding allowed_change_def k_def [symmetric] fk by (auto simp: k_def ij bp)
      have st: "- (2 ^ m) \<le> f k" "f k \<le> 2 ^ m - 1" "at_scan scan pCoef k \<ge> 0 \<Longrightarrow> 0 \<le> f k" "at_scan scan pCoef k < 0 \<Longrightarrow> f k \<le> 0"
        and len: "length q = length scan" using ok k by (auto simp: signs_follow_def f_def)
      obtain v where v: "apply_change m pCoef search q = q[scan_idx (scan ! k) := v]" "v = f k + 1 \<or> v = f k - 1" "- (2 ^ m) \<le> v" "v \<le> 2 ^ m - 1"
          "at_scan scan pCoef k \<ge> 0 \<longrightarrow> 0 \<le> v" "at_scan scan pCoef k < 0 \<longrightarrow> v \<le> 0" "f k = 0 \<longrightarrow> v = (if at_scan scan pCoef k \<ge> 0 then 1 else -1)"
          "f k \<noteq> 0 \<longrightarrow> \<not> (\<bar>f k\<bar> = 1 \<and> cs_finalChange search = -1) \<longrightarrow> v \<noteq> 0 \<and> (v < 0) = (f k < 0)"
        using apply_change_step [OF m d(2) [unfolded k_def [symmetric] bp], of q pCoef] st al unfolding f_def by (auto split: if_splits)
      have qv: "q' = q[scan_idx (scan ! k) := v]" using spread v(1) unfolding q' by simp
      have upd: "at_scan scan q' j = (f(k := v)) j" if "j < length scan" for j
        unfolding qv f_def using at_scan_update [OF len k(1) that] .
      have zero: "f k = 0" if "k < i" using e k that by (auto simp: ends_of_def)
      have "arranged (f(k := v)) a (a + g)"
      proof (rule arranged_change [OF e k(2,3) _ v(2)])
        show "odd (\<Sum>k=a..<a + g. f k) \<noteq> (f i < 0)" using spread cond by simp
        show "v \<noteq> 0 \<and> (v < 0) = (f i < 0)" if "k < i"
          using zero [OF that] v(7) al that sb by (auto split: if_splits)
        show "v \<noteq> 0 \<and> (v < 0) = (f i < 0)" if "k = i"
          using v(8) al that e by (auto simp: ends_of_def)
      qed
      then have "arranged (at_scan scan q') a (a + g)" using upd g by (subst arranged_cong [where g = "f(k := v)"]) auto
      moreover have "signs_follow scan m pCoef q'" unfolding signs_follow_def
      proof (intro conjI allI impI)
        show "length q' = length scan" by (simp add: qv len)
        fix j assume j: "j < length scan"
        have o: "- (2 ^ m) \<le> f j \<and> f j \<le> 2 ^ m - 1 \<and> (at_scan scan pCoef j \<ge> 0 \<longrightarrow> 0 \<le> f j) \<and> (at_scan scan pCoef j < 0 \<longrightarrow> f j \<le> 0)"
          using ok j by (simp add: signs_follow_def f_def)
        show "- (2 ^ m) \<le> at_scan scan q' j" "at_scan scan q' j \<le> 2 ^ m - 1" "0 \<le> at_scan scan pCoef j \<Longrightarrow> 0 \<le> at_scan scan q' j" "at_scan scan pCoef j < 0 \<Longrightarrow> at_scan scan q' j \<le> 0"
          unfolding upd [OF j] using o v(3-6) by (cases "j = k"; simp)+
      qed
      moreover have "\<forall>j<length scan. j < a \<or> a + g \<le> j \<longrightarrow> at_scan scan q' j = at_scan scan q j"
        using upd k by (auto simp: f_def)
      moreover have "\<forall>j<length scan. \<bar>at_scan scan q' j - at_scan scan q j\<bar> \<le> 1"
        using upd v(2) by (auto simp: f_def)
      ultimately show ?thesis by (simp add: g_def [symmetric] a_def [symmetric])
    qed
  qed
qed

lemma hide_groups:
  assumes c: "block_fits c scan w h" and m: "2 \<le> m" and ok: "signs_follow scan m pCoef q" and K: "K \<le> G"
    and G: "G * 2 ^ log2CGSize c = length scan"
    and above: "\<forall>s. K \<le> s \<and> s < G \<longrightarrow> arranged (at_scan scan q) (s * 2 ^ log2CGSize c) (s * 2 ^ log2CGSize c + 2 ^ log2CGSize c)"
  shows "signs_follow scan m pCoef (snd (fold (hide_group c pCoef deltaU m) (rev [0..<K]) (l, q)))
    \<and> (\<forall>s<G. arranged (at_scan scan (snd (fold (hide_group c pCoef deltaU m) (rev [0..<K]) (l, q))))
          (s * 2 ^ log2CGSize c) (s * 2 ^ log2CGSize c + 2 ^ log2CGSize c))
    \<and> (\<forall>k<length scan. \<bar>at_scan scan (snd (fold (hide_group c pCoef deltaU m) (rev [0..<K]) (l, q))) k - at_scan scan q k\<bar>
          \<le> (if k < K * 2 ^ log2CGSize c then 1 else 0))"
  using ok K above
proof (induction K arbitrary: l q)
  case (Suc K)
  define g :: nat where "g = 2 ^ log2CGSize c"
  obtain l' q' where r: "hide_group c pCoef deltaU m K (l, q) = (l', q')" by fastforce
  have upto: "s * g + g \<le> length scan" if "s < G" for s
  proof -
    have "Suc s * g \<le> G * g" using that by (intro mult_right_mono) auto
    then show ?thesis using G by (simp add: g_def)
  qed
  have "K < G" using Suc.prems(2) by simp
  note st = hide_group_step [OF c m upto [OF this, unfolded g_def] Suc.prems(1) r, folded g_def]
  have "arranged (at_scan scan q') (s * g) (s * g + g)" if "K \<le> s" "s < G" for s
  proof (cases "s = K")
    case False
    then have s: "Suc K \<le> s" "K * g + g \<le> s * g" using that mult_right_mono [of "Suc K" s g] by auto
    have "arranged (at_scan scan q) (s * g) (s * g + g)" using Suc.prems(3) s(1) that(2) unfolding g_def by blast
    moreover have "at_scan scan q' k = at_scan scan q k" if "s * g \<le> k" "k < s * g + g" for k
      using st s(2) that upto [OF \<open>s < G\<close>] by auto
    ultimately show ?thesis using arranged_cong [of "s * g" "s * g + g" "at_scan scan q'" "at_scan scan q"] by blast
  qed (use st in blast)
  then have IH: "signs_follow scan m pCoef (snd (fold (hide_group c pCoef deltaU m) (rev [0..<K]) (l', q')))
    \<and> (\<forall>s<G. arranged (at_scan scan (snd (fold (hide_group c pCoef deltaU m) (rev [0..<K]) (l', q')))) (s * 2 ^ log2CGSize c) (s * 2 ^ log2CGSize c + 2 ^ log2CGSize c))
    \<and> (\<forall>k<length scan. \<bar>at_scan scan (snd (fold (hide_group c pCoef deltaU m) (rev [0..<K]) (l', q'))) k - at_scan scan q' k\<bar>
          \<le> (if k < K * 2 ^ log2CGSize c then 1 else 0))"
    using st Suc.prems(2) by (intro Suc.IH) (auto simp: g_def)
  define Q where "Q = snd (fold (hide_group c pCoef deltaU m) (rev [0..<K]) (l', q'))"
  have "\<bar>at_scan scan Q k - at_scan scan q k\<bar> \<le> (if k < Suc K * g then 1 else 0)" if k: "k < length scan" for k
  proof -
    have "\<bar>at_scan scan Q k - at_scan scan q' k\<bar> \<le> (if k < K * g then 1 else 0)" "\<bar>at_scan scan q' k - at_scan scan q k\<bar> \<le> 1"
      "k < K * g \<or> K * g + g \<le> k \<longrightarrow> at_scan scan q' k = at_scan scan q k"
      using IH st k unfolding g_def [symmetric] Q_def [symmetric] by blast+
    then show ?thesis by (cases "k < K * g"; cases "K * g + g \<le> k") auto
  qed
  then show ?case using IH unfolding g_def [symmetric] by (simp add: r Q_def [symmetric])
qed auto

lemma sign_hiding_arranges:
  assumes c: "block_fits c scan w h" and m: "2 \<le> m" and ok: "signs_follow scan m pCoef q"
    and G: "G * 2 ^ log2CGSize c = length scan" "0 < G"
  shows "signs_follow scan m pCoef (xSignBitHidingHDQ c pCoef deltaU m q)"
    and "s < G \<Longrightarrow> arranged (at_scan scan (xSignBitHidingHDQ c pCoef deltaU m q)) (s * 2 ^ log2CGSize c) (s * 2 ^ log2CGSize c + 2 ^ log2CGSize c)"
    and "k < length scan \<Longrightarrow> \<bar>at_scan scan (xSignBitHidingHDQ c pCoef deltaU m q) k - at_scan scan q k\<bar> \<le> 1"
proof -
  define g :: nat where "g = 2 ^ log2CGSize c"
  have n: "m_width c * m_height c = G * g" using c G(1) scan_length by (simp add: block_fits_def g_def)
  obtain G' where G': "G = Suc G'" using G(2) by (cases G) auto
  have "0 < g" by (simp add: g_def)
  then have "G * g - 1 = G' * g + (g - 1)" "(g - 1) div g = 0" by (auto simp: G')
  then have "(G * g - 1) div g = G'" using \<open>0 < g\<close> by (simp only: div_mult_self3 add_0_right)
  then have x: "xSignBitHidingHDQ c pCoef deltaU m q = snd (fold (hide_group c pCoef deltaU m) (rev [0..<G]) (-1, q))"
    unfolding xSignBitHidingHDQ_def n g_def [symmetric] by (simp add: G')
  have hg: "signs_follow scan m pCoef (snd (fold (hide_group c pCoef deltaU m) (rev [0..<G]) (-1, q)))
    \<and> (\<forall>s<G. arranged (at_scan scan (snd (fold (hide_group c pCoef deltaU m) (rev [0..<G]) (-1, q))))
          (s * 2 ^ log2CGSize c) (s * 2 ^ log2CGSize c + 2 ^ log2CGSize c))
    \<and> (\<forall>k<length scan. \<bar>at_scan scan (snd (fold (hide_group c pCoef deltaU m) (rev [0..<G]) (-1, q))) k - at_scan scan q k\<bar>
          \<le> (if k < G * 2 ^ log2CGSize c then 1 else 0))"
    by (rule hide_groups [OF c m ok order_refl G(1)]) (metis leD)
  show "signs_follow scan m pCoef (xSignBitHidingHDQ c pCoef deltaU m q)"
    and "s < G \<Longrightarrow> arranged (at_scan scan (xSignBitHidingHDQ c pCoef deltaU m q)) (s * 2 ^ log2CGSize c) (s * 2 ^ log2CGSize c + 2 ^ log2CGSize c)"
    unfolding x using hg by blast+
  show "k < length scan \<Longrightarrow> \<bar>at_scan scan (xSignBitHidingHDQ c pCoef deltaU m q) k - at_scan scan q k\<bar> \<le> 1"
    unfolding x using hg unfolding G(1) by simp
qed

end


section \<open>Quantised blocks\<close>

lemma arranged_short:
  assumes "arranged f a b" "b' \<le> b" "\<And>k. b' \<le> k \<Longrightarrow> k < b \<Longrightarrow> f k = 0"
  shows "arranged f a b'"
  unfolding arranged_def
proof (intro allI impI)
  fix i j assume e: "ends_of f a b' i j" "4 \<le> int j - int i"
  then have "ends_of f a b i j" using assms(2,3) unfolding ends_of_def by (metis linorder_not_less order_less_le_trans)
  moreover have "(\<Sum>k=a..<b'. f k) = (\<Sum>k=a..<b. f k)" using assms(2,3) by (intro sum.mono_neutral_left) auto
  ultimately show "odd (\<Sum>k=a..<b'. f k) = (f i < 0)" using assms(1) e(2) unfolding arranged_def by simp
qed

lemma nothing_after_last:
  assumes t: "block_sizes tu a b" and len: "length coeff = tu_width tu * tu_height tu"
    and k: "nat (fst (scan_significant (tu_cctx tu) coeff)) < k" "k < length (block_scan_table a b)"
  shows "coeff ! scan_idx (block_scan_table a b ! k) = 0"
proof -
  define scan where "scan = block_scan_table a b"
  define c0 where "c0 = tu_cctx tu"
  define cl where "cl = (\<lambda>k. coeff ! scan_idx (scan ! k))"
  note fits = tu_block(1) [OF t, folded scan_def c0_def]
  obtain G where G: "groups_ok c0 G" "G * 2 ^ log2CGSize c0 = length scan" "G \<le> MLS_GRP_NUM"
    using tu_block(2) [OF t, folded scan_def c0_def] by blast
  have n: "length scan = tu_width tu * tu_height tu"
    using t block_levels.scan_length [of a b] by (simp add: scan_def block_sizes_def min_absorb1)
  have co: "spread scan cl = coeff" unfolding cl_def scan_def by (rule block_levels.spread_of) (simp add: len n [unfolded scan_def])
  have mx: "maxNumCoeff c0 = length scan" using fits block_levels.scan_length [of a b] by (simp add: maxNumCoeff_def block_fits_def scan_def)
  have le: "length scan \<le> MLS_GRP_NUM * 2 ^ log2CGSize c0" unfolding G(2) [symmetric] using G(3) by (rule mult_right_mono) simp
  define p where "p = fst (scan_significant c0 coeff)"
  have "if \<forall>k<length scan. cl k = 0 then p = -1
       else \<exists>L<length scan. p = int L \<and> cl L \<noteq> 0 \<and> (\<forall>k. L < k \<and> k < length scan \<longrightarrow> cl k = 0)"
    using block_levels.scan_significant_spec [OF fits [unfolded scan_def] le_refl le [unfolded scan_def] refl, of cl]
    unfolding p_def scan_significant_def mx co [symmetric] scan_def by blast
  then show ?thesis using k unfolding c0_def [symmetric] p_def [symmetric] scan_def [symmetric] cl_def
    by (auto split: if_splits)
qed

lemma arranged_signs:
  assumes t: "block_sizes tu a b" and len: "length coeff = tu_width tu * tu_height tu"
    and G: "G * 2 ^ log2CGSize (tu_cctx tu) = length (block_scan_table a b)"
    and arr: "\<And>s. s < G \<Longrightarrow> arranged (at_scan (block_scan_table a b) coeff) (s * 2 ^ log2CGSize (tu_cctx tu))
       (s * 2 ^ log2CGSize (tu_cctx tu) + 2 ^ log2CGSize (tu_cctx tu))"
  shows "signs_arranged tu coeff"
proof -
  define c where "c = coded_cctx tu coeff"
  define f where "f = at_scan (block_scan_table a b) coeff"
  define g :: nat where "g = 2 ^ log2CGSize (tu_cctx tu)"
  define L where "L = m_scanPosLast c"
  have fits: "block_fits c (block_scan_table a b) (2 ^ min a 8) (2 ^ min b 8)"
    using tu_block(1) [OF t] by (simp add: c_def coded_cctx_def block_fits_def)
  have fc: "(\<lambda>k. coeff ! blockPos c k) = f" using fits by (simp add: f_def blockPos_def block_fits_def)
  have gc: "2 ^ log2CGSize c = g" by (simp add: c_def coded_cctx_def g_def log2CGSize_def)
  have mx: "maxNumCoeff (tu_cctx tu) = length (block_scan_table a b)" "0 < length (block_scan_table a b)"
    using tu_block(1) [OF t] block_levels.scan_length [of a b] by (simp_all add: maxNumCoeff_def block_fits_def)
  have L: "L < length (block_scan_table a b)" using scan_significant_less [of "tu_cctx tu" coeff] mx
    by (simp add: L_def c_def coded_cctx_def)
  have z: "f k = 0" if "L < k" "k < length (block_scan_table a b)" for k
    using nothing_after_last [OF t len _ that(2)] that(1) by (simp add: f_def L_def c_def coded_cctx_def)
  have "hidden_parity c f (group_range c n)" if n: "n \<le> last_group c" for n
  proof -
    have nG: "n < G"
    proof -
      have "n \<le> L div g" using n by (simp only: last_group_def gc L_def)
      then have "n * g \<le> L div g * g" by (rule mult_right_mono) simp
      also have "\<dots> \<le> L" by (rule div_times_less_eq_dividend)
      finally have "n * g \<le> L" .
      then have "n * g < G * g" using L G by (simp add: g_def)
      then show ?thesis by simp
    qed
    then have "Suc n * g \<le> G * g" by (intro mult_right_mono) auto
    then have "n * g + g \<le> length (block_scan_table a b)" using G by (simp add: g_def)
    then have in_block: "k < length (block_scan_table a b)" if "k < n * g + g" for k using that by simp
    have "arranged f (n * g) (n * g + g)" using arr [OF nG] unfolding f_def [symmetric] g_def [symmetric] .
    then have "arranged f (n * g) (min (n * g + g) (Suc L))"
    proof (rule arranged_short)
      fix k assume "min (n * g + g) (Suc L) \<le> k" "k < n * g + g"
      then show "f k = 0" using z [of k] in_block [of k] by simp
    qed simp
    then show ?thesis unfolding group_range_def gc L_def [symmetric] unfolding mult_Suc add.commute [of g] by (rule arranged_hidden)
  qed
  then show ?thesis by (simp add: signs_arranged_def Let_def c_def [symmetric] fc list_all_iff)
qed


text \<open>The levels that leave the loop of the quantiser follow the signs of the coefficients.\<close>

lemma quant_levels_follow:
  assumes l: "quant_legal tu st q" "quant_fits tu st q coef" and t: "block_sizes tu a b" and N: "N \<le> tu_width tu * tu_height tu"
  defines "levels \<equiv> spread (block_scan_table a b) (\<lambda>k. if k < N then level_at tu st q coef (scan_idx (block_scan_table a b ! k)) else 0)"
  shows "signs_follow (block_scan_table a b) 15 coef levels"
    and "(\<Sum>k<N. magnitude_at tu st q coef (scan_idx (block_scan_table a b ! k))) < 2 \<Longrightarrow> y \<le> length (block_scan_table a b) \<Longrightarrow>
      arranged (at_scan (block_scan_table a b) levels) x y"
proof -
  define scan where "scan = block_scan_table a b"
  have n: "length scan = tu_width tu * tu_height tu"
    using t block_levels.scan_length [of a b] by (simp add: scan_def block_sizes_def min_absorb1)
  have at: "levels ! scan_idx (scan ! k) = (if k < N then level_at tu st q coef (scan_idx (scan ! k)) else 0)" if "k < length scan" for k
    unfolding levels_def scan_def [symmetric] using block_levels.spread_nth [of k a b] that by (simp add: scan_def)
  have idx: "scan_idx (scan ! k) < tu_width tu * tu_height tu" if "k < length scan" for k
    using block_levels.idx_less [of k a b] that n by (simp add: scan_def)
  show "signs_follow (block_scan_table a b) 15 coef levels"
    unfolding signs_follow_def scan_def [symmetric]
  proof (intro conjI allI impI)
    show "length levels = length scan" by (simp add: levels_def scan_def)
    fix k assume k: "k < length scan"
    note mf = magnitude_fits [OF l idx [OF k]]
    show "- (2 ^ 15) \<le> levels ! scan_idx (scan ! k)" "levels ! scan_idx (scan ! k) \<le> 2 ^ 15 - 1"
      "0 \<le> coef ! scan_idx (scan ! k) \<Longrightarrow> 0 \<le> levels ! scan_idx (scan ! k)"
      "coef ! scan_idx (scan ! k) < 0 \<Longrightarrow> levels ! scan_idx (scan ! k) \<le> 0"
      unfolding at [OF k] mf(2) using mf(1) by (auto split: if_splits)
  qed
  define mg where "mg = (\<lambda>k. magnitude_at tu st q coef (scan_idx (scan ! k)))"
  assume "(\<Sum>k<N. magnitude_at tu st q coef (scan_idx (block_scan_table a b ! k))) < 2"
  then have small: "(\<Sum>k<N. mg k) < 2" by (simp add: mg_def scan_def)
  have nn: "0 \<le> mg k" if "k < N" for k using magnitude_fits(1) [OF l idx, of k] that N n by (simp add: mg_def)
  have pos: "1 \<le> mg k" if "k < length scan" "levels ! scan_idx (scan ! k) \<noteq> 0" "k < N" for k
    using at [OF that(1)] that nn [OF that(3)] magnitude_fits(2) [OF l idx [OF that(1)]] by (auto simp: mg_def)
  have "False" if e: "ends_of (\<lambda>k. levels ! scan_idx (scan ! k)) x' y' i j" "4 \<le> int j - int i" "j < length scan" for x' y' i j
  proof -
    have ne: "levels ! scan_idx (scan ! i) \<noteq> 0" "levels ! scan_idx (scan ! j) \<noteq> 0" "i \<noteq> j" "i < length scan"
      using e by (auto simp: ends_of_def)
    then have N': "i < N" "j < N" using at e(3) by (metis)+
    have "mg i + mg j = (\<Sum>k\<in>{i, j}. mg k)" using ne(3) by simp
    also have "\<dots> \<le> (\<Sum>k<N. mg k)" using N' nn by (intro sum_mono2) auto
    finally show False using small pos [OF ne(4,1) N'(1)] pos [OF e(3) ne(2) N'(2)] by linarith
  qed
  then show "arranged (at_scan (block_scan_table a b) levels) x y" if "y \<le> length (block_scan_table a b)"
    using that unfolding arranged_def scan_def [symmetric] by (metis (no_types, lifting) ends_of_def order_less_le_trans)
qed


lemma quantised_block:
  fixes deltaU :: "int list"
  assumes l: "quant_legal tu st q" "quant_fits tu st q coef" and st: "qs_bdpcm st = 0" "\<not> tu_delayedSignCoding tu"
    and lf: "qs_lfnst st \<longrightarrow> getLFNSTMatrixDim (tu_width tu) (tu_height tu) \<le> tu_width tu * tu_height tu"
  defines "levels \<equiv> snd (quant tu st q coef 0 deltaU)"
  shows "length levels = tu_width tu * tu_height tu" "\<forall>x\<in>set levels. - (2 ^ 15) \<le> x \<and> x < 2 ^ 15" "signs_arranged tu levels"
    and "\<not> qs_lfnst st \<Longrightarrow> n < tu_width tu * tu_height tu \<Longrightarrow> \<bar>levels ! n - level_at tu st q coef n\<bar> \<le> 1"
proof -
  obtain a b where t: "block_sizes tu a b" using l(1) by (auto simp: quant_legal_def)
  have m: "tu_maxLog2TrDynamicRange tu = 15" using l(1) by (simp add: quant_legal_def)
  define scan where "scan = block_scan_table a b"
  define c where "c = tu_cctx tu"
  note fits = tu_block(1) [OF t, folded scan_def c_def]
  obtain G where G: "G * 2 ^ log2CGSize c = length scan" using tu_block(2) [OF t, folded scan_def c_def] by blast
  have n: "length scan = tu_width tu * tu_height tu" "0 < length scan"
    using t block_levels.scan_length [of a b] by (simp_all add: scan_def block_sizes_def min_absorb1)
  then have G0: "0 < G" using G by (cases G) auto
  define N where "N = (if qs_lfnst st then min (getLFNSTMatrixDim (tu_width tu) (tu_height tu)) (tu_width tu * tu_height tu) else tu_width tu * tu_height tu)"
  have N: "N \<le> tu_width tu * tu_height tu" by (simp add: N_def)
  define q0 where "q0 = spread scan (\<lambda>k. if k < N then level_at tu st q coef (scan_idx (scan ! k)) else 0)"
  define total where "total = (\<Sum>k<N. magnitude_at tu st q coef (scan_idx (scan ! k)))"
  obtain d where d: "quant_loop tu st q coef 0 deltaU = (total, d, q0)"
    using quant_loop_levels [OF l t lf, of deltaU, folded N_def scan_def, folded q0_def total_def] by blast
  have hide: "m_signHiding c = tu_signDataHiding tu"
    and cc: "new_CoeffCodingContext (tu_chType tu) (tu_width tu) (tu_height tu) (tu_signDataHiding tu) 15 False = c"
    using st(2) by (simp_all add: c_def tu_cctx_def m)
  have lv: "levels = (if tu_signDataHiding tu \<and> total \<ge> 2 then xSignBitHidingHDQ c coef d 15 q0 else q0)"
    unfolding levels_def quant_def d Let_def prod.case cc hide m using st(1) by (simp add: cc m hide)
  note follow = quant_levels_follow [OF l t N, folded scan_def, folded q0_def total_def]
  have two: "(2 :: nat) \<le> 15" by simp
  note hidden = block_levels.sign_hiding_arranges [OF fits [unfolded scan_def] two follow(1) [unfolded scan_def] G [unfolded scan_def] G0,
      folded scan_def, where deltaU = d]
  have sf: "signs_follow scan 15 coef levels" using follow(1) hidden(1) by (simp add: lv)
  then show len: "length levels = tu_width tu * tu_height tu" using n by (simp add: signs_follow_def)
  show "\<forall>x\<in>set levels. - (2 ^ 15) \<le> x \<and> x < 2 ^ 15"
  proof
    fix x assume "x \<in> set levels"
    then obtain i where i: "i < length scan" "x = levels ! i" using len n by (metis in_set_conv_nth)
    then obtain k where "k < length scan" "scan_idx (scan ! k) = i" using block_levels.idx_rank [of i a b] by (auto simp: scan_def)
    then show "- (2 ^ 15) \<le> x \<and> x < 2 ^ 15" using sf i by (fastforce simp: signs_follow_def)
  qed
  show "\<bar>levels ! n - level_at tu st q coef n\<bar> \<le> 1" if all: "\<not> qs_lfnst st" and nn: "n < tu_width tu * tu_height tu"
  proof -
    obtain k where k: "k < length scan" "scan_idx (scan ! k) = n" using block_levels.idx_rank [of n a b] nn n by (auto simp: scan_def)
    have "q0 ! n = level_at tu st q coef n"
      using block_levels.spread_nth [of k a b] k n all by (auto simp: q0_def scan_def N_def)
    moreover have "\<bar>levels ! n - q0 ! n\<bar> \<le> 1" using hidden(3) [OF k(1)] by (auto simp: lv k(2))
    ultimately show ?thesis by simp
  qed
  show "signs_arranged tu levels"
  proof (cases "tu_signDataHiding tu")
    case True
    show ?thesis
    proof (rule arranged_signs [OF t len G [unfolded c_def scan_def]], unfold c_def [symmetric] scan_def [symmetric])
      fix s assume s: "s < G"
      then have "Suc s * 2 ^ log2CGSize c \<le> G * 2 ^ log2CGSize c" by (intro mult_right_mono) auto
      then have "s * 2 ^ log2CGSize c + 2 ^ log2CGSize c \<le> length scan" using G by simp
      then show "arranged (at_scan scan levels) (s * 2 ^ log2CGSize c) (s * 2 ^ log2CGSize c + 2 ^ log2CGSize c)"
        using True hidden(2) [OF s] follow(2) by (auto simp: lv)
    qed
  qed (rule no_hiding)
qed


text \<open>A block to quantise and code: its unit, what is known of its coding unit, the settings, and the coefficients.\<close>

type_synonym quant_job = "(TransformUnit \<times> CUCtx) \<times> quant_setting \<times> QpParam \<times> int list \<times> int list"

definition job_levels :: "quant_job \<Rightarrow> int list" where
  "job_levels = (\<lambda>((tu, u), st, q, coef, deltaU). snd (quant tu st q coef 0 deltaU))"

definition job_facts :: "quant_job \<Rightarrow> CUCtx" where
  "job_facts = (\<lambda>((tu, u), st, q, coef, deltaU). writer_CUCtx tu (snd (quant tu st q coef 0 deltaU)) u)"

definition job_ok :: "quant_job \<Rightarrow> bool" where
  "job_ok = (\<lambda>((tu, u), st, q, coef, deltaU). quant_legal tu st q \<and> quant_fits tu st q coef \<and> qs_bdpcm st = 0
     \<and> \<not> tu_delayedSignCoding tu \<and> (qs_lfnst st \<longrightarrow> getLFNSTMatrixDim (tu_width tu) (tu_height tu) \<le> tu_width tu * tu_height tu)
     \<and> list_ex (\<lambda>x. x \<noteq> 0) (snd (quant tu st q coef 0 deltaU)))"

lemma job_valid:
  assumes "job_ok j"
  shows "residual_valid 536 (fst j) (job_levels j, job_facts j)"
proof -
  obtain tu u st q coef d where j: "j = ((tu, u), st, q, coef, d)" by (metis prod.collapse)
  have l: "quant_legal tu st q" "quant_fits tu st q coef" "qs_bdpcm st = 0" "\<not> tu_delayedSignCoding tu"
    and lf: "qs_lfnst st \<longrightarrow> getLFNSTMatrixDim (tu_width tu) (tu_height tu) \<le> tu_width tu * tu_height tu"
    and ex: "list_ex (\<lambda>x. x \<noteq> 0) (snd (quant tu st q coef 0 d))" using assms by (auto simp: job_ok_def j)
  note qb = quantised_block [OF l lf, where deltaU = d]
  obtain a b where t: "block_sizes tu a b" using l(1) by (auto simp: quant_legal_def)
  have m: "tu_maxLog2TrDynamicRange tu = 15" using l(1) by (simp add: quant_legal_def)
  have sizes: "(2 :: nat) ^ n \<in> {1, 2, 4, 8, 16, 32, 64, 128, 256}" if "n \<le> 8" for n
    using that by (auto simp: le_Suc_eq numeral_eq_Suc)
  show ?thesis
    using t qb ex l(4) sizes unfolding j fst_conv job_levels_def job_facts_def prod.case residual_valid.simps m
    by (auto simp: block_sizes_def list_all_iff)
qed

text \<open>
  C40: Quantised blocks survive the arithmetic coder. Whatever blocks the scalar quantiser makes of transform
  coefficients, with sign hiding on or off and with any of the rounding rules, can be written by
  \<open>residual_coding\<close> one after the other and are read back level by level: the changes that sign hiding makes
  give every group whose first sign is dropped the parity that the decoder takes it from.
\<close>

theorem quantised_blocks_survive:
  assumes "list_all job_ok js" and "models_ok 536 e" and "e_Bitstream e = new_out" and "d_Ctx d = e_Ctx e"
  shows "\<exists>e' s d1 d2. thenW (seqW (map (\<lambda>j. write_block (fst j) (job_levels j, job_facts j)) js)) end_of_slice (enc_start e) = Inr e'
    \<and> writeByteAlignment (e_Bitstream e') = Inr s
    \<and> dec_start (d\<lparr>d_Bitstream := new_in (out_fifo s)\<rparr>) = Inr d1
    \<and> bindP (seqP (map (\<lambda>j. read_block (fst j)) js)) (\<lambda>ys. bindP terminating_bit (\<lambda>t. returnP (ys, t))) d1
        = Inr ((map (\<lambda>j. (job_levels j, job_facts j)) js, True), d2)
    \<and> remaining_bytes True d2 = Inr d2"
proof -
  have v: "list_all2 (residual_valid 536) (map fst js) (map (\<lambda>j. (job_levels j, job_facts j)) js)"
    using assms(1) job_valid by (auto simp: list_all2_conv_all_nth list_all_length)
  have w: "map2 write_block (map fst js) (map (\<lambda>j. (job_levels j, job_facts j)) js)
      = map (\<lambda>j. write_block (fst j) (job_levels j, job_facts j)) js" by (induction js) auto
  show ?thesis using blocks.codeword [OF v assms(2-4)] unfolding w by (simp add: comp_def)
qed


definition sample_job :: quant_job where
  "sample_job = ((sample_unit True, new_CUCtx), sample_setting, sample_QpParam,
     [900, -310, 45, 2, 620, 77, -31, 0, 250, 14, 3, 1, -90, 8, 0, -1], replicate 16 0)"

lemma sample_job_ok: "job_ok sample_job"
proof -
  define coef :: "int list" where "coef = [900, -310, 45, 2, 620, 77, -31, 0, 250, 14, 3, 1, -90, 8, 0, -1]"
  have s: "qs_bdpcm sample_setting = 0" "\<not> tu_delayedSignCoding (sample_unit True)" "\<not> qs_lfnst sample_setting"
    "tu_width (sample_unit True) = 4" "tu_height (sample_unit True) = 4"
    by (simp_all add: sample_setting_def sample_unit_def)
  note fit = sample_quant_fits [of True, folded coef_def]
  have lf: "qs_lfnst sample_setting \<longrightarrow> getLFNSTMatrixDim (tu_width (sample_unit True)) (tu_height (sample_unit True))
      \<le> tu_width (sample_unit True) * tu_height (sample_unit True)" using s(3) by blast
  note qb = quantised_block [OF sample_quant_legal fit s(1,2) lf, where deltaU = "replicate 16 0"]
  define levels where "levels = snd (quant (sample_unit True) sample_setting sample_QpParam coef 0 (replicate 16 0))"
  have f: "floorLog2 4 = 2" using floorLog2_pow [of 2] by simp
  have B: "quant_bits (sample_unit True) sample_setting sample_QpParam = 23"
    by (simp add: sample_unit_def sample_setting_def sample_QpParam_def quant_bits_def Let_def getTransformShift_def f
        per_def QUANT_SHIFT_def needsBlockSizeTrafoScale_def needsSqrt2Scale_def isNonLog2BlockSize_def push_bit_eq_mult)
  have S: "quant_scale (sample_unit True) sample_setting sample_QpParam 0 = 20560"
    by (simp add: sample_unit_def sample_setting_def sample_QpParam_def quant_scale_def f qp_rem_def g_quantScales_def
        needsBlockSizeTrafoScale_def needsSqrt2Scale_def isNonLog2BlockSize_def push_bit_eq_mult)
  have c0: "coef ! 0 = 900" "\<not> coef ! 0 < 0" and irap: "qs_isIRAP sample_setting = True" by (simp_all add: coef_def sample_setting_def)
  have zero: "(0 :: nat) < tu_width (sample_unit True) * tu_height (sample_unit True)" unfolding s(4,5) by simp
  have "fst (quantise True 23 20560 900) = 2"
    by (subst quantise_bounds(1)) (simp_all add: push_bit_eq_mult)
  then have "magnitude_at (sample_unit True) sample_setting sample_QpParam coef 0 = 2"
    unfolding magnitude_at_def B S c0(1) irap by simp
  then have "level_at (sample_unit True) sample_setting sample_QpParam coef 0 = 2"
    unfolding magnitude_fits(2) [OF sample_quant_legal fit zero] if_not_P [OF c0(2)] by simp
  moreover from qb(4) [OF s(3) zero, folded levels_def]
  have "\<bar>levels ! 0 - level_at (sample_unit True) sample_setting sample_QpParam coef 0\<bar> \<le> 1" .
  ultimately have "levels ! 0 \<noteq> 0" by linarith
  moreover have "0 < length levels" unfolding qb(1) [folded levels_def] by (rule zero)
  then have "levels ! 0 \<in> set levels" by (rule nth_mem)
  ultimately have "list_ex (\<lambda>x. x \<noteq> 0) levels" unfolding list_ex_iff by blast
  then show ?thesis
    unfolding job_ok_def sample_job_def prod.case coef_def [symmetric] levels_def [symmetric] using sample_quant_legal fit s(1,2) lf by blast
qed

theorem quantised_blocks_survive_witness:
  "\<exists>e' s d1 d2. thenW (seqW (map (\<lambda>j. write_block (fst j) (job_levels j, job_facts j)) [sample_job, sample_job])) end_of_slice
        (enc_start sample_models_encoder) = Inr e'
    \<and> writeByteAlignment (e_Bitstream e') = Inr s
    \<and> dec_start (sample_decoder\<lparr>d_Ctx := replicate 536 new_BinProbModel, d_Bitstream := new_in (out_fifo s)\<rparr>) = Inr d1
    \<and> bindP (seqP (map (\<lambda>j. read_block (fst j)) [sample_job, sample_job])) (\<lambda>ys. bindP terminating_bit (\<lambda>t. returnP (ys, t))) d1
        = Inr ((map (\<lambda>j. (job_levels j, job_facts j)) [sample_job, sample_job], True), d2)"
proof -
  have m: "models_ok 536 sample_models_encoder"
    by (simp add: models_ok_def sample_models_encoder_def sample_encoder_def ctx_ok_def list_all_iff bpm_ok_new)
  have "list_all job_ok [sample_job, sample_job]" by (simp add: sample_job_ok)
  from quantised_blocks_survive [OF this m, of "sample_decoder\<lparr>d_Ctx := replicate 536 new_BinProbModel\<rparr>"]
  show ?thesis by (simp add: sample_models_encoder_def sample_encoder_def) blast
qed

end
