(* ===== verification/Spec2Isabelle.thy ===== *)
theory Spec2Isabelle
  imports ECM_Prelude BitStream Codec VLC AnnexB Nal ByteStreamFormat ContextTables ProfileSyntax CommonAlgorithms
    SyntaxElements TransformBlocks SignHiding
begin

text \<open>
  A verification library for the Enhanced Compression Model (ECM 5.0), the reference encoder and decoder
  of a video coding standard. All sources named below are under \<open>src/source/Lib\<close>.

  \<^bold>\<open>The program.\<close> An encoder turns pictures into a stream of NAL units and a decoder turns the stream back.
  Both are built in layers: bit streams (\<open>CommonLib/BitStream\<close>); the syntax elements of the headers, fixed
  length and Exp-Golomb codes (\<open>EncoderLib/VLCWriter\<close>, \<open>DecoderLib/VLCReader\<close>); the header structures made
  of them; the adaptive binary arithmetic coder of the slice data (\<open>EncoderLib/BinEncoder\<close>,
  \<open>DecoderLib/BinDecoder\<close>) with its probability models (\<open>CommonLib/Contexts\<close>); NAL units with emulation
  prevention (\<open>EncoderLib/NALwrite\<close>, \<open>DecoderLib/NALread\<close>); and the byte stream format that separates them
  (\<open>EncoderLib/AnnexBwrite.h\<close>, \<open>DecoderLib/AnnexBread\<close>). Prediction, transforms and filters reconstruct the
  samples; the encoder's search chooses among the legal encodings.

  \<^bold>\<open>The theories.\<close>

    \<^item> \<open>ECM_Prelude\<close>: machine integers, errors (\<open>CHECK\<close> and \<open>THROW\<close> as values, undefined behaviour as an error
      of its own), sequencing of fallible operations, bit lists. \<open>Codec\<close>: combinators for writers and
      readers and the locale \<open>codec\<close> with its laws.
    \<^item> \<open>BitStream\<close>: \<open>OutputBitstream\<close> and \<open>InputBitstream\<close>, with held bits at their width. Every operation is
      shown to refine the abstract stream of bits. \<open>VLC\<close>: the syntax elements; each reader inverts its
      writer, as an interpretation of \<open>codec\<close>.
    \<^item> \<open>Nal\<close>, \<open>AnnexB\<close>, \<open>ByteStreamFormat\<close>: NAL unit headers, emulation prevention, the byte stream reader
      (interface \<open>byte_source\<close>, interpreted by \<open>InputByteStream\<close>), and a whole file of units written and
      read back.
    \<^item> \<open>Contexts\<close>, \<open>ContextTables\<close>: probability models, the store of adapted states, and the 120 tables from
      which a slice is initialised.
    \<^item> \<open>BinEncoder\<close>, \<open>BinDecoder\<close>, \<open>ArithCoding\<close>, \<open>ArithRoundtrip\<close>, \<open>RemAbs\<close>, \<open>SliceData\<close>: the arithmetic coder. The
      registers are natural numbers with the 32-bit wrap-around written out. \<open>ArithCoding\<close> gives the registers
      a meaning (the low end of an interval of exact length), \<open>ArithRoundtrip\<close> shows each operation of the
      encoder matched by the decoder's, and \<open>SliceData\<close> composes them to a slice through the locale
      \<open>bin_codec\<close>; \<open>coder_step\<close> is the step relation of the encoder and its invariant bounds the registers.
    \<^item> \<open>SyntaxBins\<close>, \<open>SyntaxElements\<close>: the binarisations at the end of \<open>EncoderLib/CABACWriter.cpp\<close> and
      \<open>DecoderLib/CABACReader.cpp\<close>, and the syntax elements whose value does not depend on the coding
      structures; all of them together interpret \<open>bin_codec\<close> once more.
    \<^item> \<open>ScanOrder\<close>, \<open>CoeffContext\<close>, \<open>ResidualCoding\<close>: the scans of a block (\<open>CommonLib/Rom.cpp\<close>), the contexts of its
      coefficients (\<open>CommonLib/ContextModelling\<close>) and \<open>residual_coding\<close> of both sides. The locale \<open>level_order\<close>
      states what coefficient coding asks of a scan; the scan tables interpret it. \<open>ResidualPasses\<close>,
      \<open>ResidualGroups\<close> and \<open>ResidualRoundtrip\<close> follow writer and reader over a position, a pass, a group and a
      block, with the coefficients as functions of the scan position; blocks interpret \<open>bin_codec\<close>.
    \<^item> \<open>QpParams\<close>, \<open>Quantisation\<close>, \<open>QuantBounds\<close>, \<open>QuantError\<close>: the parameters and scalar quantisation of
      \<open>CommonLib/Quant.cpp\<close> both ways, with block DPCM and the hiding of signs. Inverse quantisation is shown to be the
      arithmetic of integers (\<open>reconstruct\<close>), and the error of a coefficient to stay within a step
      when scales are flat, no secondary transform follows and no sign is hidden. \<open>SignHiding\<close>: the
      quantiser arranges the parities that \<open>residual_coding\<close> relies on, so quantised blocks reach the decoder.
    \<^item> \<open>BitEstimator\<close>: the price of a bin for the encoder's decisions; the estimator moves its models as the encoder
      does and adds up the prices the encoder's models give (\<open>price_along\<close>).
    \<^item> \<open>HlsSyntax\<close>, \<open>ConstraintSyntax\<close>, \<open>ProfileSyntax\<close>, \<open>Lmcs\<close>: header structures written and parsed. A parser is an
      editor of the structure it fills; the rules collected in \<open>hls_codes\<close> prove a round trip element by
      element.
    \<^item> \<open>CommonAlgorithms\<close>: logarithms and the table of the indices of the smallest values. \<open>Reshape\<close>: the tables of
      the luma mapping built from the transmitted pieces, and how far the two mappings invert each other.
    \<^item> \<open>TransformTables\<close>, \<open>Transforms\<close>, \<open>CosineTransforms\<close>, \<open>SineTransforms\<close>, \<open>TransformBlocks\<close>: the integer matrices
      (\<open>CommonLib/RomTr.cpp\<close>), the fast one-dimensional transforms (\<open>CommonLib/TrQuant_EMT.cpp\<close>), each equal to the
      matrix multiplication of the same file, and the transform of a block (\<open>CommonLib/TrQuant.cpp\<close>). Arrays are
      functions of offsets; sums are unbounded integers: whether those of the code, which have 32 bits, can
      overflow is not treated.

  \<^bold>\<open>Kinds of lemmas.\<close> Invariants (\<open>out_inv\<close>, \<open>in_inv\<close>, \<open>models_ok\<close>, \<open>enc_at\<close>, \<open>dec_at\<close>) are preserved by every operation;
  \<open>agrees\<close> and its relatives relate a writer to a reader and compose; the properties of the manifest are
  instances on the program's own definitions.

  \<^bold>\<open>Bounds and fuel.\<close> Loops of the code are structural recursions or functions with a measure. The loops
  that nothing in the code bounds are written so that not returning is a value (\<open>getMSB\<close>) and are
  proved to return. \<open>read_units\<close> runs the reader at most as many times as asked; the properties give it one
  turn per unit.

  \<^bold>\<open>Configuration.\<close> The macros of \<open>TypeDef.h\<close> are those of the commit: \<open>EC_HIGH_PRECISION\<close> and
  \<open>JVET_Z0135_TEMP_CABAC_WIN_WEIGHT\<close> are on, \<open>RExt__HIGH_BIT_DEPTH_SUPPORT\<close> and tracing are off.

  \<^bold>\<open>Not modelled.\<close> The coding tree syntax above the transform block, blocks
  that skip the transform, predicted signs, the remaining parameter sets and headers, prediction,
  rate distortion optimised and dependent
  quantisation, loop filters, the picture structures, the encoder's search and the applications: they work on
  the heap structures of a whole picture or are heuristics without a contract. Constant tables without
  logic, the checksum library and the vectorised copies of scalar code are left out as well.
\<close>

end
